(* ===== verification/Engine_Prelude.thy ===== *)
theory Engine_Prelude
  imports Main "HOL-Library.Word" "HOL-Library.Signed_Division" "HOL-Library.Monad_Syntax"
begin

unbundle bit_operations_syntax

text \<open>
  Shared vocabulary of the development: the machine integers of the C++ sources, the signed
  operations on them, the option monad used for undefined behaviour, and the generic lemmas on
  words, lists and masks that the components use.

  Conventions.  An unsigned \<^verbatim>\<open>uintN_t\<close> and \<^verbatim>\<open>size_t\<close> is an N-bit word; \<open>+\<close>, \<open>-\<close>, \<open>*\<close>
  wrap as in C++.  A signed \<^verbatim>\<open>intN_t\<close> is also an N-bit word, read by \<open>sint\<close> and compared by
  \<open>\<le>s\<close> and \<open><s\<close>; its arithmetic wraps, which is what \<^verbatim>\<open>std::atomic::fetch_add\<close> guarantees
  and what the compiled code does.  A pointer into a fixed pool is the index of the pool slot
  and \<^verbatim>\<open>nullptr\<close> is \<open>None\<close>.  A function that can reach undefined behaviour (an index past an
  array, a null dereference, an integer division that traps) returns an option, and \<open>None\<close>
  stands for that behaviour.
\<close>

type_synonym u8 = "8 word"
type_synonym u16 = "16 word"
type_synonym u32 = "32 word"
type_synonym u64 = "64 word"
type_synonym i16 = "16 word"
type_synonym i32 = "32 word"
type_synonym i64 = "64 word"

named_theorems mask_simps "masking an index with a power of two"

text \<open>Undefined behaviour guard: continue only when the condition holds.\<close>

definition guard :: "bool \<Rightarrow> unit option" where
  "guard b = (if b then Some () else None)"

text \<open>Array read with the bound the array has; an access past the end is undefined.\<close>

definition nth_opt :: "'a list \<Rightarrow> nat \<Rightarrow> 'a option" where
  "nth_opt xs i = (if i < length xs then Some (xs ! i) else None)"

text \<open>Signed division and remainder of C++: truncation towards zero; a zero divisor and the
  overflowing quotient trap.\<close>

definition sdiv64 :: "i64 \<Rightarrow> i64 \<Rightarrow> i64 option" where
  "sdiv64 a b =
     (if b = 0 \<or> (sint a = - (2 ^ 63) \<and> sint b = -1) then None
      else Some (word_of_int (sint a sdiv sint b)))"

definition smod64 :: "i64 \<Rightarrow> i64 \<Rightarrow> i64 option" where
  "smod64 a b =
     (if b = 0 \<or> (sint a = - (2 ^ 63) \<and> sint b = -1) then None
      else Some (word_of_int (sint a smod sint b)))"

text \<open>\<^verbatim>\<open>std::llabs\<close>; undefined on the least value.\<close>

definition llabs :: "i64 \<Rightarrow> i64" where
  "llabs x = (if x <s 0 then - x else x)"

text \<open>Widening conversions of the sources: from a signed 32-bit and from an unsigned 32-bit
  value to a signed 64-bit one.\<close>

abbreviation i64_of_i32 :: "i32 \<Rightarrow> i64" where
  "i64_of_i32 x \<equiv> scast x"

abbreviation i64_of_u32 :: "u32 \<Rightarrow> i64" where
  "i64_of_u32 x \<equiv> ucast x"

subsection \<open>Guards and array reads\<close>

lemma guard_simps [simp]: "guard True = Some ()" "guard False = None"
  by (simp_all add: guard_def)

lemma guard_eq_Some [simp]: "guard b = Some u \<longleftrightarrow> b"
  by (simp add: guard_def)

lemma guard_eq_None [simp]: "guard b = None \<longleftrightarrow> \<not> b"
  by (simp add: guard_def)

lemma nth_opt_Some [simp]: "i < length xs \<Longrightarrow> nth_opt xs i = Some (xs ! i)"
  by (simp add: nth_opt_def)

lemma nth_opt_eq_Some: "nth_opt xs i = Some x \<longleftrightarrow> i < length xs \<and> xs ! i = x"
  by (simp add: nth_opt_def)

lemma nth_opt_eq_None: "nth_opt xs i = None \<longleftrightarrow> length xs \<le> i"
  by (simp add: nth_opt_def)

lemma option_eqI: "(\<And>w. x = Some w \<longleftrightarrow> y = Some w) \<Longrightarrow> x = y"
  by (cases x; cases y) auto

subsection \<open>Power-of-two masks\<close>

lemma and_pow2_mask [mask_simps]:
  "(x :: 'a::len word) AND (2 ^ k - 1) = take_bit k x"
  by (metis mask_eq_exp_minus_1 take_bit_eq_mask)

lemma unat_take_bit_word [mask_simps]:
  "unat (take_bit k (x :: 'a::len word)) = unat x mod 2 ^ k"
  by (metis take_bit_eq_mod unsigned_take_bit_eq)

lemma unat_and_pow2_mask:
  "unat ((x :: 'a::len word) AND (2 ^ k - 1)) = unat x mod 2 ^ k"
  by (simp add: mask_simps)

lemma mod_pow2_le: "k \<le> n \<Longrightarrow> (x mod 2 ^ n) mod 2 ^ k = x mod (2 ^ k :: nat)"
  by (simp add: le_imp_power_dvd mod_mod_cancel)

lemma mod_add_zero: "b mod n = 0 \<Longrightarrow> (a + b) mod n = a mod (n :: nat)"
  by (metis add.right_neutral mod_add_right_eq)

lemma unat_of_nat_mod64: "k \<le> 64 \<Longrightarrow> unat (of_nat x :: u64) mod 2 ^ k = x mod 2 ^ k"
proof -
  assume "k \<le> 64"
  then have "(x mod 2 ^ 64) mod 2 ^ k = x mod 2 ^ k" by (rule mod_pow2_le)
  then show ?thesis by (simp add: unat_of_nat)
qed

lemma unat_add_mod_pow2:
  "k \<le> 64 \<Longrightarrow> unat ((x :: u64) + y) mod 2 ^ k = (unat x + unat y) mod 2 ^ k"
  by (simp add: unat_word_ariths mod_pow2_le [where n = 64, simplified])

lemma ring_aux:
  assumes "i < n" "j < n" "(h + i) mod n = (h + j) mod (n::nat)"
  shows "i = j"
proof -
  have "(int h + int i) mod int n = (int h + int j) mod int n"
    using assms(3) by (metis of_nat_add zmod_int)
  then have "int i mod int n = int j mod int n"
    by (metis add_diff_cancel_left' mod_diff_left_eq)
  then show ?thesis using assms(1,2) by simp
qed

lemma ring_idx_inj:
  "i < n \<Longrightarrow> j < n \<Longrightarrow> (h + i) mod n = (h + j) mod (n::nat) \<longleftrightarrow> i = j"
  using ring_aux by blast

subsection \<open>Signed order\<close>

lemma sle_sint: "(x \<le>s y) = (sint x \<le> sint y)"
  by (fact word_sle_eq)

lemma sless_sint: "(x <s y) = (sint x < sint y)"
  by (fact word_sless_alt)

lemma sint_eq_iff: "sint x = sint y \<longleftrightarrow> x = y"
  using signed_word_eqI by blast

lemmas signed_order = sle_sint sless_sint

lemma sdiv64_Some_iff:
  "(\<exists>q. sdiv64 a b = Some q) \<longleftrightarrow> b \<noteq> 0 \<and> \<not> (sint a = - (2 ^ 63) \<and> sint b = -1)"
  by (auto simp: sdiv64_def)

lemma some_the: "\<not> Option.is_none x \<Longrightarrow> x = Some (the x)"
  by (cases x) simp_all

end
