(* ===== verification/Bounded_Fifo.thy ===== *)
theory Bounded_Fifo
  imports Engine_Prelude
begin

text \<open>
  The contract every queue of the engine promises to its clients: a bounded first-in first-out
  buffer.  \<open>push\<close> answers whether the element was taken, \<open>pop\<close> answers the element or
  nothing.  The laws are stated through an abstraction \<open>rep\<close> to the list of queued elements.
  The consequences that clients use are proved once here: over any sequence of pushes and pops
  the accepted elements come out in order, none lost and none duplicated.
\<close>

datatype 'a fifo_op = Push 'a | Pop

text \<open>A client's run: the accepted elements, the delivered elements and the final queue.\<close>

primrec fifo_run ::
  "('a \<Rightarrow> 'q \<Rightarrow> bool \<times> 'q) \<Rightarrow> ('q \<Rightarrow> 'a option \<times> 'q) \<Rightarrow>
   'a fifo_op list \<Rightarrow> 'q \<Rightarrow> 'a list \<times> 'a list \<times> 'q" where
  "fifo_run push pop [] q = ([], [], q)"
| "fifo_run push pop (c # cs) q =
     (case c of
        Push x \<Rightarrow>
          let (ok, q1) = push x q; (acc, out, q2) = fifo_run push pop cs q1
          in ((if ok then x # acc else acc), out, q2)
      | Pop \<Rightarrow>
          let (r, q1) = pop q; (acc, out, q2) = fifo_run push pop cs q1
          in (acc, (case r of None \<Rightarrow> out | Some x \<Rightarrow> x # out), q2))"

locale bounded_fifo =
  fixes inv :: "'q \<Rightarrow> bool"
    and rep :: "'q \<Rightarrow> 'a list"
    and bound :: nat
    and push :: "'a \<Rightarrow> 'q \<Rightarrow> bool \<times> 'q"
    and pop :: "'q \<Rightarrow> 'a option \<times> 'q"
  assumes rep_bound: "inv q \<Longrightarrow> length (rep q) \<le> bound"
    and push_inv: "inv q \<Longrightarrow> inv (snd (push x q))"
    and push_ok: "inv q \<Longrightarrow> fst (push x q) \<longleftrightarrow> length (rep q) < bound"
    and push_rep: "inv q \<Longrightarrow>
      rep (snd (push x q)) = (if length (rep q) < bound then rep q @ [x] else rep q)"
    and pop_inv: "inv q \<Longrightarrow> inv (snd (pop q))"
    and pop_val: "inv q \<Longrightarrow> fst (pop q) = (case rep q of [] \<Rightarrow> None | x # _ \<Rightarrow> Some x)"
    and pop_rep: "inv q \<Longrightarrow> rep (snd (pop q)) = tl (rep q)"
begin

abbreviation run :: "'a fifo_op list \<Rightarrow> 'q \<Rightarrow> 'a list \<times> 'a list \<times> 'q" where
  "run \<equiv> fifo_run push pop"

lemma run_step_push:
  "run (Push x # cs) q =
     (let r = run cs (snd (push x q))
      in ((if fst (push x q) then x # fst r else fst r), fst (snd r), snd (snd r)))"
  by (simp add: case_prod_beta Let_def)

lemma run_step_pop:
  "run (Pop # cs) q =
     (let r = run cs (snd (pop q))
      in (fst r, (case fst (pop q) of None \<Rightarrow> fst (snd r) | Some x \<Rightarrow> x # fst (snd r)),
          snd (snd r)))"
  by (simp add: case_prod_beta Let_def)

lemma run_inv: "inv q \<Longrightarrow> inv (snd (snd (run cs q)))"
proof (induction cs arbitrary: q)
  case (Cons c cs)
  then show ?case
    by (cases c) (simp_all only: run_step_push run_step_pop Let_def fst_conv snd_conv
        push_inv pop_inv)
qed simp

lemma run_fifo:
  "inv q \<Longrightarrow> rep q @ fst (run cs q) = fst (snd (run cs q)) @ rep (snd (snd (run cs q)))"
proof (induction cs arbitrary: q)
  case (Cons c cs)
  show ?case
  proof (cases c)
    case (Push x)
    have "rep (snd (push x q)) @ fst (run cs (snd (push x q)))
        = fst (snd (run cs (snd (push x q)))) @ rep (snd (snd (run cs (snd (push x q)))))"
      by (rule Cons.IH [OF push_inv [OF Cons.prems]])
    with Push Cons.prems show ?thesis
      by (simp only: run_step_push Let_def fst_conv snd_conv)
         (simp add: push_rep push_ok split: if_splits)
  next
    case Pop
    have IH: "rep (snd (pop q)) @ fst (run cs (snd (pop q)))
        = fst (snd (run cs (snd (pop q)))) @ rep (snd (snd (run cs (snd (pop q)))))"
      by (rule Cons.IH [OF pop_inv [OF Cons.prems]])
    show ?thesis
      using IH Cons.prems unfolding Pop
      by (cases "rep q")
         (simp_all only: run_step_pop Let_def fst_conv snd_conv pop_val pop_rep
            list.case option.case list.sel append_Cons append_Nil)
  qed
qed simp

lemma run_fifo_from_empty:
  assumes "inv q" and "rep q = []"
  shows "fst (run cs q) = fst (snd (run cs q)) @ rep (snd (snd (run cs q)))"
    and "length (rep (snd (snd (run cs q)))) \<le> bound"
  using run_fifo [OF assms(1), of cs] rep_bound [OF run_inv [OF assms(1)]] assms(2) by auto

lemma pop_after_push_empty:
  assumes "inv q" and "rep q = []" and "0 < bound"
  shows "fst (push x q)" and "fst (pop (snd (push x q))) = Some x"
  using assms by (simp_all add: push_ok pop_val push_inv push_rep)

end

end
