(* ===== verification/Ring_Queue.thy ===== *)
theory Ring_Queue
  imports Bounded_Fifo
begin

text \<open>
  \<^verbatim>\<open>CustomQueue<T*, N>\<close> (src/src/utils/CustomQueue.h): the single-threaded ring buffer that
  holds free-list and pending pointers, with \<open>N\<close> a power of two and one slot always unused; and
  \<^verbatim>\<open>PoolAndFreeList\<close> (src/src/core/MessagePool.h), the object pool built on it.  A pointer is the
  index of the object in its pool.
\<close>

record 'a cq =
  cq_buffer :: "'a list"
  cq_head :: u64
  cq_tail :: u64

definition cq_N :: "'a cq \<Rightarrow> u64" where
  "cq_N q = of_nat (length (cq_buffer q))"

definition cq_push :: "'a \<Rightarrow> 'a cq \<Rightarrow> bool \<times> 'a cq" where
  "cq_push b q =
     (let nxt = (cq_tail q + 1) AND (cq_N q - 1)
      in if nxt = cq_head q then (False, q)
         else (True, q\<lparr>cq_buffer := (cq_buffer q)[unat (cq_tail q) := b], cq_tail := nxt\<rparr>))"

definition cq_pop :: "'a cq \<Rightarrow> 'a option \<times> 'a cq" where
  "cq_pop q =
     (if cq_head q = cq_tail q then (None, q)
      else (Some (cq_buffer q ! unat (cq_head q)),
            q\<lparr>cq_head := (cq_head q + 1) AND (cq_N q - 1)\<rparr>))"

definition cq_clear :: "'a cq \<Rightarrow> 'a cq" where
  "cq_clear q = q\<lparr>cq_head := 0, cq_tail := 0\<rparr>"

definition cq_empty :: "'a cq \<Rightarrow> bool" where
  "cq_empty q \<longleftrightarrow> cq_head q = cq_tail q"

definition cq_size :: "'a cq \<Rightarrow> u64" where
  "cq_size q = (cq_tail q - cq_head q + cq_N q) AND (cq_N q - 1)"

text \<open>\<open>back\<close>: the outer option is undefined behaviour (an index past the array), the inner
  one is \<^verbatim>\<open>nullptr\<close>.\<close>

definition cq_back :: "'a cq \<Rightarrow> 'a option option" where
  "cq_back q =
     (if cq_head q = cq_tail q then Some None
      else let back = (if cq_head q = 0 then cq_head q else cq_tail q - 1)
           in map_option Some (nth_opt (cq_buffer q) (unat back)))"

definition cq_front :: "'a cq \<Rightarrow> 'a option" where
  "cq_front q =
     (if cq_head q = cq_tail q then None else Some (cq_buffer q ! unat (cq_head q)))"

definition cq_swap_last_two :: "'a cq \<Rightarrow> 'a cq" where
  "cq_swap_last_two q =
     (let N = cq_N q in
      if cq_tail q = cq_head q \<or> ((cq_tail q + N - 1) AND (N - 1)) = cq_head q then q
      else let pre_last = unat ((cq_tail q + N - 2) AND (N - 1));
               lst = unat ((cq_tail q + N - 1) AND (N - 1));
               buf = cq_buffer q
           in q\<lparr>cq_buffer := buf[pre_last := buf ! lst, lst := buf ! pre_last]\<rparr>)"

text \<open>\<^verbatim>\<open>PoolAndFreeList<T>\<close>: the pool objects are named by their index.\<close>

definition POOL_CAPACITY :: nat where
  "POOL_CAPACITY = 512"

primrec pool_initialize_from :: "nat \<Rightarrow> nat \<Rightarrow> nat cq \<Rightarrow> nat cq" where
  "pool_initialize_from i 0 q = q"
| "pool_initialize_from i (Suc n) q = pool_initialize_from (Suc i) n (snd (cq_push i q))"

definition pool_initialize :: "nat cq \<Rightarrow> nat cq" where
  "pool_initialize q = pool_initialize_from 0 POOL_CAPACITY q"

definition pool_acquire :: "nat \<Rightarrow> nat cq \<Rightarrow> nat \<times> nat cq" where
  "pool_acquire obj q = (case cq_pop q of (None, q') \<Rightarrow> (obj, q') | (Some p, q') \<Rightarrow> (p, q'))"

definition pool_release :: "nat \<Rightarrow> nat cq \<Rightarrow> nat cq" where
  "pool_release obj q = snd (cq_push obj q)"

subsection \<open>Well-formed rings and the list they hold\<close>

text \<open>\<open>k\<close> is the exponent of the template constant \<open>N = 2 ^ k\<close>.\<close>

definition cq_wf :: "nat \<Rightarrow> 'a cq \<Rightarrow> bool" where
  "cq_wf k q \<longleftrightarrow> 0 < k \<and> k < 64 \<and> length (cq_buffer q) = 2 ^ k
     \<and> unat (cq_head q) < 2 ^ k \<and> unat (cq_tail q) < 2 ^ k"

definition ring_len :: "nat \<Rightarrow> nat \<Rightarrow> nat \<Rightarrow> nat" where
  "ring_len n h t = (if h \<le> t then t - h else t + n - h)"

definition cq_rep :: "'a cq \<Rightarrow> 'a list" where
  "cq_rep q =
     (let n = length (cq_buffer q); h = unat (cq_head q)
      in map (\<lambda>i. cq_buffer q ! ((h + i) mod n)) [0..<ring_len n h (unat (cq_tail q))])"

lemma cq_wfD:
  assumes "cq_wf k q"
  shows "length (cq_buffer q) = 2 ^ k" "unat (cq_head q) < 2 ^ k" "unat (cq_tail q) < 2 ^ k"
    "0 < k" "k < 64"
  using assms by (simp_all add: cq_wf_def)

lemma cq_mask:
  assumes "cq_wf k q"
  shows "unat (x AND (cq_N q - 1)) = unat x mod 2 ^ k"
  using assms by (simp add: cq_wf_def cq_N_def unat_and_pow2_mask)

lemma cq_N_mod:
  assumes "cq_wf k q"
  shows "unat (cq_N q) mod 2 ^ k = 0"
  using cq_wfD [OF assms] by (simp only: cq_N_def unat_of_nat_mod64 less_imp_le mod_self)

lemma cq_next:
  assumes "cq_wf k q" and "unat x < 2 ^ k"
  shows "unat ((x + 1) AND (cq_N q - 1)) = (unat x + 1) mod 2 ^ k"
  using assms by (simp add: cq_mask unat_add_mod_pow2 cq_wfD(5) less_imp_le)

lemma ring_len_less: "h < n \<Longrightarrow> t < n \<Longrightarrow> ring_len n h t < n"
  by (auto simp: ring_len_def)

lemma ring_len_0: "h < n \<Longrightarrow> t < n \<Longrightarrow> ring_len n h t = 0 \<longleftrightarrow> h = t"
  by (auto simp: ring_len_def)

lemma ring_len_tail:
  "h < n \<Longrightarrow> t < n \<Longrightarrow> (t + 1) mod n \<noteq> h \<Longrightarrow> ring_len n h ((t + 1) mod n) = Suc (ring_len n h t)"
  by (auto simp: ring_len_def mod_Suc)

lemma ring_len_full:
  "h < n \<Longrightarrow> t < n \<Longrightarrow> (t + 1) mod n = h \<longleftrightarrow> ring_len n h t = n - 1"
  by (auto simp: ring_len_def mod_Suc split: if_splits)

lemma ring_len_head:
  "h < n \<Longrightarrow> t < n \<Longrightarrow> h \<noteq> t \<Longrightarrow> ring_len n h t = Suc (ring_len n ((h + 1) mod n) t)"
  by (auto simp: ring_len_def mod_Suc)

lemma ring_pos: "h < n \<Longrightarrow> t < n \<Longrightarrow> (h + ring_len n h t) mod n = t"
  by (auto simp: ring_len_def)

lemma length_cq_rep: "length (cq_rep q) = ring_len (length (cq_buffer q)) (unat (cq_head q)) (unat (cq_tail q))"
  by (simp add: cq_rep_def Let_def)

subsection \<open>The ring implements the queue contract\<close>

lemma cq_len_less: "cq_wf k q \<Longrightarrow> length (cq_rep q) < 2 ^ k"
  by (simp add: length_cq_rep cq_wfD ring_len_less)

lemma cq_rep_nth:
  "cq_wf k q \<Longrightarrow> i < length (cq_rep q) \<Longrightarrow>
    cq_rep q ! i = cq_buffer q ! ((unat (cq_head q) + i) mod 2 ^ k)"
  by (simp add: cq_rep_def Let_def cq_wfD)

lemma cq_tail_pos:
  "cq_wf k q \<Longrightarrow> unat (cq_tail q) = (unat (cq_head q) + length (cq_rep q)) mod 2 ^ k"
  by (simp add: length_cq_rep cq_wfD ring_pos)

lemma cq_empty_iff: "cq_wf k q \<Longrightarrow> cq_head q = cq_tail q \<longleftrightarrow> cq_rep q = []"
  by (simp add: word_unat_eq_iff length_cq_rep cq_wfD ring_len_0 flip: length_0_conv)

lemma cq_push_full:
  "cq_wf k q \<Longrightarrow> (cq_tail q + 1) AND (cq_N q - 1) = cq_head q \<longleftrightarrow> length (cq_rep q) = 2 ^ k - 1"
  by (simp add: word_unat_eq_iff cq_next cq_wfD ring_len_full length_cq_rep del: One_nat_def)

lemma cq_push_wf: "cq_wf k q \<Longrightarrow> cq_wf k (snd (cq_push b q))"
  by (auto simp: cq_push_def Let_def cq_wf_def cq_N_def unat_and_pow2_mask)

lemma cq_push_fst:
  assumes "cq_wf k q"
  shows "fst (cq_push b q) \<longleftrightarrow> length (cq_rep q) < 2 ^ k - 1"
  using cq_push_full [OF assms] cq_len_less [OF assms] by (auto simp: cq_push_def Let_def)

lemma cq_push_rep:
  assumes wf: "cq_wf k q"
  shows "cq_rep (snd (cq_push b q)) = (if length (cq_rep q) < 2 ^ k - 1 then cq_rep q @ [b] else cq_rep q)"
proof (cases "length (cq_rep q) = 2 ^ k - 1")
  case True
  then show ?thesis using cq_push_full [OF wf] by (simp add: cq_push_def Let_def)
next
  case False
  let ?h = "unat (cq_head q)" and ?n = "length (cq_rep q)"
  let ?q = "snd (cq_push b q)"
  have nfull: "(cq_tail q + 1) AND (cq_N q - 1) \<noteq> cq_head q"
    using False cq_push_full [OF wf] by simp
  then have q': "?q = q\<lparr>cq_buffer := (cq_buffer q)[unat (cq_tail q) := b],
      cq_tail := (cq_tail q + 1) AND (cq_N q - 1)\<rparr>"
    by (simp add: cq_push_def Let_def)
  have less: "?n < 2 ^ k - 1" "?n < 2 ^ k" using False cq_len_less [OF wf] by simp_all
  have wf': "cq_wf k ?q" by (rule cq_push_wf [OF wf])
  have len: "length (cq_rep ?q) = Suc ?n"
    using nfull wf
    by (simp add: length_cq_rep q' cq_next cq_wfD ring_len_tail word_unat_eq_iff del: One_nat_def)
  have tp: "unat (cq_tail q) = (?h + ?n) mod 2 ^ k" by (rule cq_tail_pos [OF wf])
  have "cq_rep ?q = cq_rep q @ [b]"
  proof (rule nth_equalityI)
    show "length (cq_rep ?q) = length (cq_rep q @ [b])" using len by simp
  next
    fix i assume i: "i < length (cq_rep ?q)"
    have "cq_rep ?q ! i = ((cq_buffer q)[(?h + ?n) mod 2 ^ k := b]) ! ((?h + i) mod 2 ^ k)"
      using cq_rep_nth [OF wf' i] by (simp add: q' tp)
    also have "\<dots> = (cq_rep q @ [b]) ! i"
      using i len less ring_idx_inj [of i "2 ^ k" ?n ?h] cq_rep_nth [OF wf, of i] cq_wfD(1) [OF wf]
      by (auto simp: nth_append nth_list_update)
    finally show "cq_rep ?q ! i = (cq_rep q @ [b]) ! i" .
  qed
  with less show ?thesis by simp
qed

lemma cq_pop_wf: "cq_wf k q \<Longrightarrow> cq_wf k (snd (cq_pop q))"
  by (auto simp: cq_pop_def cq_wf_def cq_N_def unat_and_pow2_mask)

lemma cq_rep_Cons:
  assumes wf: "cq_wf k q" and ne: "cq_head q \<noteq> cq_tail q"
  shows "cq_rep q = cq_buffer q ! unat (cq_head q) # cq_rep (snd (cq_pop q))"
proof (rule nth_equalityI)
  let ?q = "snd (cq_pop q)" and ?h = "unat (cq_head q)"
  have q': "?q = q\<lparr>cq_head := (cq_head q + 1) AND (cq_N q - 1)\<rparr>"
    using ne by (simp add: cq_pop_def)
  have wf': "cq_wf k ?q" by (rule cq_pop_wf [OF wf])
  show len: "length (cq_rep q) = length (cq_buffer q ! ?h # cq_rep ?q)"
    using wf ne by (simp add: length_cq_rep q' cq_next cq_wfD ring_len_head word_unat_eq_iff
        del: One_nat_def)
  fix i assume i: "i < length (cq_rep q)"
  show "cq_rep q ! i = (cq_buffer q ! ?h # cq_rep ?q) ! i"
  proof (cases i)
    case 0
    then show ?thesis using cq_rep_nth [OF wf i] wf by (simp add: cq_wfD)
  next
    case (Suc j)
    then have j: "j < length (cq_rep ?q)" using i len by simp
    show ?thesis
      using Suc cq_rep_nth [OF wf i] cq_rep_nth [OF wf' j] wf
      by (simp add: q' cq_next cq_wfD mod_simps)
  qed
qed

lemma cq_pop_fst:
  assumes "cq_wf k q"
  shows "fst (cq_pop q) = (case cq_rep q of [] \<Rightarrow> None | x # _ \<Rightarrow> Some x)"
  using cq_rep_Cons [OF assms] cq_empty_iff [OF assms]
  by (cases "cq_head q = cq_tail q") (auto simp: cq_pop_def split: list.split)

lemma cq_pop_rep:
  assumes "cq_wf k q"
  shows "cq_rep (snd (cq_pop q)) = tl (cq_rep q)"
  using cq_rep_Cons [OF assms] cq_empty_iff [OF assms]
  by (cases "cq_head q = cq_tail q") (auto simp: cq_pop_def)

interpretation cq: bounded_fifo "cq_wf k" cq_rep "2 ^ k - 1" cq_push cq_pop for k
proof unfold_locales
  show "length (cq_rep q) \<le> 2 ^ k - 1" if "cq_wf k q" for q :: "'a cq"
    using cq_len_less [OF that] by simp
qed (simp_all add: cq_push_wf cq_push_fst cq_push_rep cq_pop_wf cq_pop_fst cq_pop_rep)

subsection \<open>The other observers\<close>

lemma cq_size_eq:
  assumes wf: "cq_wf k q"
  shows "unat (cq_size q) = length (cq_rep q)"
proof -
  let ?h = "unat (cq_head q)" and ?t = "unat (cq_tail q)"
  have k: "k < 64" and h: "?h < 2 ^ k" and t: "?t < 2 ^ k" using wf by (simp_all add: cq_wfD)
  have "(unat (cq_size q) + ?h) mod 2 ^ k
      = (unat (cq_tail q - cq_head q + cq_N q) + ?h) mod 2 ^ k"
    by (simp add: cq_size_def cq_mask [OF wf] mod_simps)
  also have "\<dots> = unat (cq_tail q - cq_head q + cq_N q + cq_head q) mod 2 ^ k"
    using k by (simp only: unat_add_mod_pow2 less_imp_le)
  also have "\<dots> = (?t + unat (cq_N q)) mod 2 ^ k"
    using k by (simp only: unat_add_mod_pow2 less_imp_le flip: unat_add_mod_pow2)
       (simp add: unat_add_mod_pow2 less_imp_le)
  finally have "(unat (cq_size q) + ?h) mod 2 ^ k = (?t + unat (cq_N q)) mod 2 ^ k" .
  moreover have "unat (cq_N q) mod 2 ^ k = 0" by (rule cq_N_mod [OF wf])
  ultimately have "(?h + unat (cq_size q)) mod 2 ^ k = (?h + length (cq_rep q)) mod 2 ^ k"
    using cq_tail_pos [OF wf] t by (simp add: mod_add_zero add.commute [of "unat (cq_size q)"])
  moreover have "unat (cq_size q) < 2 ^ k"
    by (simp add: cq_size_def cq_mask [OF wf])
  ultimately show ?thesis using cq_len_less [OF wf] ring_aux by blast
qed

lemma cq_front_eq:
  assumes "cq_wf k q"
  shows "cq_front q = (case cq_rep q of [] \<Rightarrow> None | x # _ \<Rightarrow> Some x)"
  using cq_rep_Cons [OF assms] cq_empty_iff [OF assms]
  by (cases "cq_head q = cq_tail q") (auto simp: cq_front_def split: list.split)

lemma cq_before_tail:
  assumes wf: "cq_wf k q" and d: "0 < d" "d \<le> length (cq_rep q)"
  shows "unat ((cq_tail q + cq_N q - of_nat d) AND (cq_N q - 1))
    = (unat (cq_head q) + (length (cq_rep q) - d)) mod 2 ^ k"
proof -
  let ?x = "cq_tail q + cq_N q - of_nat d" and ?h = "unat (cq_head q)" and ?n = "length (cq_rep q)"
  have k: "k \<le> 64" using wf by (simp add: cq_wfD less_imp_le)
  have d64: "unat (of_nat d :: u64) mod 2 ^ k = d mod 2 ^ k"
    by (rule unat_of_nat_mod64 [OF k])
  have N: "unat (cq_N q) mod 2 ^ k = 0" by (rule cq_N_mod [OF wf])
  have "(d + unat (?x AND (cq_N q - 1))) mod 2 ^ k = (unat ?x + unat (of_nat d :: u64)) mod 2 ^ k"
    by (subst add.commute, rule mod_add_cong) (simp_all only: cq_mask [OF wf] d64 mod_mod_trivial)
  also have "\<dots> = unat (?x + of_nat d) mod 2 ^ k" by (simp only: unat_add_mod_pow2 [OF k])
  also have "\<dots> = (unat (cq_tail q) + unat (cq_N q)) mod 2 ^ k"
    by (simp only: unat_add_mod_pow2 [OF k] diff_add_cancel)
  also have "\<dots> = (?h + ?n) mod 2 ^ k"
    using N cq_tail_pos [OF wf] by (simp add: mod_add_zero)
  also have "\<dots> = (d + (?h + (?n - d)) mod 2 ^ k) mod 2 ^ k"
    using d by (simp add: mod_simps)
  finally show ?thesis
    by (rule ring_aux [rotated 2]) (simp_all add: cq_mask [OF wf])
qed

lemma cq_swap_wf: "cq_wf k q \<Longrightarrow> cq_wf k (cq_swap_last_two q)"
  by (auto simp: cq_swap_last_two_def Let_def cq_wf_def)

lemma cq_single_iff:
  assumes wf: "cq_wf k q" and ne: "cq_rep q \<noteq> []"
  shows "(cq_tail q + cq_N q - 1) AND (cq_N q - 1) = cq_head q \<longleftrightarrow> length (cq_rep q) = 1"
proof -
  have "unat ((cq_tail q + cq_N q - 1) AND (cq_N q - 1))
      = (unat (cq_head q) + (length (cq_rep q) - 1)) mod 2 ^ k"
    using cq_before_tail [OF wf, of 1] ne by (cases "cq_rep q") simp_all
  then have "(cq_tail q + cq_N q - 1) AND (cq_N q - 1) = cq_head q
      \<longleftrightarrow> (unat (cq_head q) + (length (cq_rep q) - 1)) mod 2 ^ k = (unat (cq_head q) + 0) mod 2 ^ k"
    using wf by (simp add: word_unat_eq_iff cq_wfD)
  also have "\<dots> \<longleftrightarrow> length (cq_rep q) - 1 = 0"
    using cq_len_less [OF wf] by (subst ring_idx_inj) auto
  finally show ?thesis using ne by (cases "cq_rep q") auto
qed

lemma cq_swap_rep:
  assumes wf: "cq_wf k q"
  shows "cq_rep (cq_swap_last_two q) =
    (let xs = cq_rep q; n = length xs
     in if n < 2 then xs else xs[n - 2 := xs ! (n - 1), n - 1 := xs ! (n - 2)])"
proof (cases "length (cq_rep q) < 2")
  case True
  then have "cq_swap_last_two q = q"
    using cq_single_iff [OF wf] cq_empty_iff [OF wf]
    by (cases "cq_rep q") (auto simp: cq_swap_last_two_def Let_def)
  with True show ?thesis by simp
next
  case False
  let ?n = "length (cq_rep q)" and ?h = "unat (cq_head q)" and ?q = "cq_swap_last_two q"
  have pos: "unat ((cq_tail q + cq_N q - 2) AND (cq_N q - 1)) = (?h + (?n - 2)) mod 2 ^ k"
    "unat ((cq_tail q + cq_N q - 1) AND (cq_N q - 1)) = (?h + (?n - 1)) mod 2 ^ k"
    using False cq_before_tail [OF wf, of 2] cq_before_tail [OF wf, of 1] by simp_all
  have ne: "cq_tail q \<noteq> cq_head q" "(cq_tail q + cq_N q - 1) AND (cq_N q - 1) \<noteq> cq_head q"
    using False cq_single_iff [OF wf] cq_empty_iff [OF wf] by fastforce+
  let ?p = "(?h + (?n - 2)) mod 2 ^ k" and ?l = "(?h + (?n - 1)) mod 2 ^ k"
  have buf: "cq_buffer ?q = (cq_buffer q)[?p := cq_buffer q ! ?l, ?l := cq_buffer q ! ?p]"
    and ht: "cq_head ?q = cq_head q" "cq_tail ?q = cq_tail q"
    by (simp_all add: cq_swap_last_two_def Let_def pos ne)
  have len: "length (cq_rep ?q) = ?n" by (simp add: length_cq_rep buf ht)
  have bnd: "?n < 2 ^ k" by (rule cq_len_less [OF wf])
  show ?thesis
  proof (rule nth_equalityI)
    fix i assume i: "i < length (cq_rep ?q)"
    then have i': "i < ?n" by (simp add: len)
    have "cq_rep ?q ! i = cq_buffer ?q ! ((?h + i) mod 2 ^ k)"
      using cq_rep_nth [OF cq_swap_wf [OF wf] i] by (simp add: ht)
    moreover have eqs: "?l = (?h + i) mod 2 ^ k \<longleftrightarrow> i = ?n - 1" "?p = (?h + i) mod 2 ^ k \<longleftrightarrow> i = ?n - 2"
      using i' False bnd ring_idx_inj [of "?n - 1" "2 ^ k" i ?h] ring_idx_inj [of "?n - 2" "2 ^ k" i ?h]
      by auto
    moreover have vals: "cq_buffer q ! ?l = cq_rep q ! (?n - 1)" "cq_buffer q ! ?p = cq_rep q ! (?n - 2)"
      "cq_buffer q ! ((?h + i) mod 2 ^ k) = cq_rep q ! i"
      using i' False cq_rep_nth [OF wf] by (metis diff_less less_2_cases_iff not_gr_zero zero_less_numeral
          length_greater_0_conv less_one list.size(3) zero_less_one)+
    ultimately have "cq_rep ?q ! i = (if i = ?n - 1 then cq_rep q ! (?n - 2)
        else if i = ?n - 2 then cq_rep q ! (?n - 1) else cq_rep q ! i)"
      by (simp add: buf nth_list_update cq_wfD(1) [OF wf])
    then show "cq_rep ?q ! i = (let xs = cq_rep q; n = length xs
       in if n < 2 then xs else xs[n - 2 := xs ! (n - 1), n - 1 := xs ! (n - 2)]) ! i"
      using i' False by (simp add: nth_list_update Let_def)
  qed (simp add: len Let_def)
qed

lemma Suc_mod_cancel: "Suc a mod n = Suc b mod n \<Longrightarrow> a mod n = b mod n"
proof -
  assume "Suc a mod n = Suc b mod n"
  then have "(int a + 1) mod int n = (int b + 1) mod int n"
    by (metis add.commute of_nat_Suc zmod_int)
  then have "int a mod int n = int b mod int n"
    by (metis add_diff_cancel_right' mod_diff_left_eq)
  then show ?thesis by (metis of_nat_eq_iff zmod_int)
qed

lemma cq_last:
  assumes wf: "cq_wf k q" and ne: "cq_rep q \<noteq> []" and t: "cq_tail q \<noteq> 0"
  shows "cq_buffer q ! unat (cq_tail q - 1) = last (cq_rep q)" "unat (cq_tail q - 1) < 2 ^ k"
proof -
  have ut: "unat (cq_tail q - 1) = unat (cq_tail q) - 1"
    using t by (simp add: unat_minus_one)
  have t0: "0 < unat (cq_tail q)" using t by (simp add: unat_gt_0)
  have "Suc (unat (cq_tail q) - 1) mod 2 ^ k = Suc (unat (cq_head q) + (length (cq_rep q) - 1)) mod 2 ^ k"
    using cq_tail_pos [OF wf] t0 ne cq_wfD(3) [OF wf] by (cases "cq_rep q") simp_all
  then have "(unat (cq_tail q) - 1) mod 2 ^ k = (unat (cq_head q) + (length (cq_rep q) - 1)) mod 2 ^ k"
    by (rule Suc_mod_cancel)
  then show "cq_buffer q ! unat (cq_tail q - 1) = last (cq_rep q)"
    using cq_rep_nth [OF wf, of "length (cq_rep q) - 1"] ne cq_wfD(3) [OF wf]
    by (simp add: last_conv_nth ut)
  show "unat (cq_tail q - 1) < 2 ^ k" using ut cq_wfD(3) [OF wf] by simp
qed

lemma pool_from_rep:
  "cq_wf k q \<Longrightarrow> cq_wf k (pool_initialize_from i n q) \<and>
    cq_rep (pool_initialize_from i n q) = cq_rep q @ take (2 ^ k - 1 - length (cq_rep q)) [i..<i + n]"
proof (induction n arbitrary: i q)
  case (Suc n)
  have step: "take m [i..<Suc (i + n)] = (if m = 0 then [] else i # take (m - 1) [Suc i..<Suc (i + n)])" for m
    by (simp add: upt_conv_Cons take_Cons' del: upt_Suc)
  have len: "Suc (2 ^ k - Suc (Suc (length (cq_rep q)))) = 2 ^ k - Suc (length (cq_rep q))"
    if "length (cq_rep q) < 2 ^ k - Suc 0" using that by simp
  show ?case
    using Suc.IH [OF cq_push_wf [OF Suc.prems], of "Suc i" i] cq_push_rep [OF Suc.prems, of i] len
    by (auto simp: step simp del: upt_Suc)
qed simp

subsection \<open>Properties\<close>

lemma unat_max_u64: "unat (- 1 :: u64) = 2 ^ 64 - 1"
proof -
  have "(- 1 :: u64) = 18446744073709551615" by simp
  then show ?thesis by (simp only:) simp
qed

text \<open>\<^verbatim>\<open>CustomQueue\<close> of \<open>2 ^ k\<close> slots is a bounded first-in first-out queue of capacity
  \<open>2 ^ k - 1\<close>: over any sequence of pushes and pops that starts from an empty queue, the accepted
  elements are exactly the delivered ones followed by those still queued, in the order they were
  pushed, and \<open>size\<close> and \<open>front\<close> report the queued elements.\<close>

theorem cq_fifo_run:
  assumes "cq_wf k q" and "cq_rep q = []" and "fifo_run cq_push cq_pop cs q = (acc, out, q')"
  shows "acc = out @ cq_rep q' \<and> unat (cq_size q') = length (cq_rep q') \<and> length (cq_rep q') \<le> 2 ^ k - 1
    \<and> cq_front q' = (case cq_rep q' of [] \<Rightarrow> None | x # _ \<Rightarrow> Some x)"
proof -
  have "cq_wf k q'" using cq.run_inv [OF assms(1), of cs] assms(3) by simp
  then show ?thesis
    using cq.run_fifo_from_empty [OF assms(1,2), of cs] assms(3) by (simp add: cq_size_eq cq_front_eq)
qed

theorem cq_fifo_run_witness:
  "([1, 2] :: nat list) = [1] @ cq_rep \<lparr>cq_buffer = [1, 2, 0, 0 :: nat], cq_head = 1, cq_tail = 2\<rparr>"
proof -
  let ?q = "\<lparr>cq_buffer = [0, 0, 0, 0 :: nat], cq_head = 0, cq_tail = 0\<rparr>"
  have "cq_wf 2 ?q" by (simp add: cq_wf_def)
  moreover have "cq_rep ?q = []" by (simp add: cq_rep_def ring_len_def)
  moreover have "fifo_run cq_push cq_pop [Push 1, Push 2, Pop] ?q
      = ([1, 2], [1], \<lparr>cq_buffer = [1, 2, 0, 0], cq_head = 1, cq_tail = 2\<rparr>)"
    by (simp add: cq_push_def cq_pop_def cq_N_def)
  ultimately show ?thesis using cq_fifo_run [of 2 ?q "[Push 1, Push 2, Pop]"] by blast
qed

text \<open>\<^verbatim>\<open>swap_last_two\<close> exchanges the two most recently queued elements and nothing else; a queue
  with fewer than two elements is left alone.\<close>

theorem cq_swap_last_two_spec:
  assumes "cq_wf k q"
  shows "cq_rep (cq_swap_last_two q) =
    (case rev (cq_rep q) of y # x # zs \<Rightarrow> rev zs @ [y, x] | _ \<Rightarrow> cq_rep q)"
proof (cases "rev (cq_rep q)")
  case Nil
  then show ?thesis by (simp add: cq_swap_rep [OF assms] Let_def)
next
  case (Cons y ys)
  then have eq: "cq_rep q = rev ys @ [y]" by (simp add: rev_eq_Cons_iff)
  show ?thesis
  proof (cases ys)
    case Nil
    then show ?thesis using eq by (simp add: cq_swap_rep [OF assms] Let_def)
  next
    case (Cons x zs)
    then have "cq_rep q = rev zs @ [x, y]" using eq by simp
    then show ?thesis
      by (simp add: cq_swap_rep [OF assms] Let_def nth_append list_update_append)
  qed
qed

theorem cq_swap_last_two_spec_witness:
  "cq_rep (cq_swap_last_two \<lparr>cq_buffer = [7, 8, 9, 6 :: nat], cq_head = 3, cq_tail = 2\<rparr>) = [6, 8, 7]"
proof -
  let ?q = "\<lparr>cq_buffer = [7, 8, 9, 6 :: nat], cq_head = 3, cq_tail = 2\<rparr>"
  have "cq_wf 2 ?q" by (simp add: cq_wf_def)
  moreover have "cq_rep ?q = [6, 7, 8]" by code_simp
  ultimately show ?thesis using cq_swap_last_two_spec [of 2 ?q] by simp
qed

text \<open>\<^verbatim>\<open>back\<close> of a non-empty queue is the last queued element only when the tail index is not 0
  and the head index is not 0.  With the head at 0 it is the front element; with the tail at 0 the
  index wraps to the largest value and the access is outside the buffer.\<close>

theorem cq_back_exact:
  assumes "cq_wf k q" and "cq_rep q \<noteq> []"
  shows "cq_back q =
    (if cq_head q = 0 then Some (Some (hd (cq_rep q)))
     else if cq_tail q = 0 then None else Some (Some (last (cq_rep q))))"
proof -
  have ne: "cq_head q \<noteq> cq_tail q" using assms by (simp add: cq_empty_iff)
  have len: "length (cq_buffer q) = 2 ^ k" and k: "k < 64" using assms(1) by (simp_all add: cq_wfD)
  have "(2 :: nat) ^ k < 2 ^ 64" using k by (intro power_strict_increasing) simp_all
  then have "2 ^ k \<le> unat (- 1 :: u64)" by (simp add: unat_max_u64)
  moreover have "hd (cq_rep q) = cq_buffer q ! unat (cq_head q)"
    using cq_rep_Cons [OF assms(1) ne] by (metis list.sel(1))
  ultimately show ?thesis
    using ne len cq_last [OF assms] by (auto simp: cq_back_def nth_opt_def)
qed

theorem cq_back_exact_witness:
  "cq_back \<lparr>cq_buffer = [7, 8, 9, 6 :: nat], cq_head = 0, cq_tail = 2\<rparr> = Some (Some 7)"
proof -
  let ?q = "\<lparr>cq_buffer = [7, 8, 9, 6 :: nat], cq_head = 0, cq_tail = 2\<rparr>"
  have "cq_wf 2 ?q" by (simp add: cq_wf_def)
  moreover have "cq_rep ?q = [7, 8]" by code_simp
  ultimately show ?thesis using cq_back_exact [of 2 ?q] by simp
qed

text \<open>\<^verbatim>\<open>PoolAndFreeList::initialize\<close> pushes all 512 objects into a free list of 512 slots, which
  holds at most 511: the last object never becomes available, the others are handed out in index
  order.\<close>

theorem pool_initialize_free:
  assumes "cq_wf 9 q" and "cq_rep q = []"
  shows "cq_rep (pool_initialize q) = [0..<511]"
  using pool_from_rep [OF assms(1), of 0 POOL_CAPACITY] assms(2)
  by (simp add: pool_initialize_def POOL_CAPACITY_def)

theorem pool_initialize_free_witness:
  "cq_rep (pool_initialize \<lparr>cq_buffer = replicate 512 0, cq_head = 0, cq_tail = 0\<rparr>) = [0..<511]"
  by (rule pool_initialize_free) (simp_all add: cq_wf_def cq_rep_def ring_len_def)

end
