(* ===== verification/Spsc_Queue.thy ===== *)
theory Spsc_Queue
  imports Bounded_Fifo
begin

text \<open>
  \<^verbatim>\<open>CustomSpscQueue<T*, N>\<close> (src/src/utils/CustomSpscQueue/CustomSpscQueue.h): the wait-free
  single-producer single-consumer ring that connects every pair of pipeline stages.  A slot is
  \<open>None\<close> for \<^verbatim>\<open>nullptr\<close>; the element type is the type of non-null pointers, so the assertion
  \<^verbatim>\<open>elem != nullptr\<close> holds by typing.  \<open>h\<close> is \<^verbatim>\<open>H_BITS\<close>, so that \<open>N = 2 ^ (h + 3)\<close>.  The
  debug-only thread checks have no effect on the state and are left out.

  Two models are given: the operations executed alone, and \<open>spsc_step\<close>, in which the producer
  and the consumer thread interleave at every atomic access to a slot and at every index
  increment.
\<close>

record 'a spsc =
  read_idx :: u64
  write_idx :: u64
  slots :: "'a option list"

definition remap :: "nat \<Rightarrow> u64 \<Rightarrow> u64" where
  "remap h i = (let idx = i AND (2 ^ (h + 3) - 1) in push_bit h (idx AND 7) OR drop_bit 3 idx)"

definition slot_load :: "nat \<Rightarrow> 'a spsc \<Rightarrow> u64 \<Rightarrow> 'a option" where
  "slot_load h q i = slots q ! unat (remap h i)"

definition slot_store :: "nat \<Rightarrow> u64 \<Rightarrow> 'a option \<Rightarrow> 'a spsc \<Rightarrow> 'a spsc" where
  "slot_store h i v q = q\<lparr>slots := (slots q)[unat (remap h i) := v]\<rparr>"

definition spsc_init :: "nat \<Rightarrow> 'a spsc" where
  "spsc_init h = \<lparr>read_idx = 0, write_idx = 0, slots = replicate (2 ^ (h + 3)) None\<rparr>"

definition spsc_push :: "nat \<Rightarrow> 'a \<Rightarrow> 'a spsc \<Rightarrow> bool \<times> 'a spsc" where
  "spsc_push h elem q =
     (case slot_load h q (write_idx q) of
        Some _ \<Rightarrow> (False, q)
      | None \<Rightarrow> (True, (slot_store h (write_idx q) (Some elem) q)\<lparr>write_idx := write_idx q + 1\<rparr>))"

definition spsc_pop :: "nat \<Rightarrow> 'a spsc \<Rightarrow> 'a option \<times> 'a spsc" where
  "spsc_pop h q =
     (case slot_load h q (read_idx q) of
        None \<Rightarrow> (None, q)
      | Some elem \<Rightarrow>
          (Some elem, (slot_store h (read_idx q) None q)\<lparr>read_idx := read_idx q + 1\<rparr>))"

definition spsc_empty :: "nat \<Rightarrow> 'a spsc \<Rightarrow> bool" where
  "spsc_empty h q \<longleftrightarrow> slot_load h q (read_idx q) = None"

definition spsc_full :: "nat \<Rightarrow> 'a spsc \<Rightarrow> bool" where
  "spsc_full h q \<longleftrightarrow> slot_load h q (write_idx q) \<noteq> None"

definition reset_unsafe :: "'a spsc \<Rightarrow> 'a spsc" where
  "reset_unsafe q = q\<lparr>slots := map (\<lambda>_. None) (slots q), write_idx := 0, read_idx := 0\<rparr>"

subsection \<open>The slot permutation\<close>

lemma bit_remap:
  assumes "h < 61"
  shows "bit (remap h i) n \<longleftrightarrow> (n < h \<and> bit i (n + 3)) \<or> (h \<le> n \<and> n < h + 3 \<and> bit i (n - h))"
proof -
  have seven: "x AND 7 = take_bit 3 x" for x :: u64
    using and_pow2_mask [of x 3] by simp
  have idx: "i AND (2 ^ (h + 3) - 1) = take_bit (h + 3) i" by (rule and_pow2_mask)
  show ?thesis
  proof (cases "n < 64")
    case True
    with assms show ?thesis
      by (auto simp: remap_def Let_def idx bit_or_iff bit_push_bit_iff bit_drop_bit_eq
          bit_take_bit_iff seven add.commute)
  next
    case False
    with assms show ?thesis
      by (auto dest: bit_imp_le_length)
  qed
qed

lemma remap_bound:
  assumes "h < 61"
  shows "unat (remap h i) < 2 ^ (h + 3)"
proof -
  have "take_bit (h + 3) (remap h i) = remap h i"
    by (rule bit_eqI) (auto simp: bit_take_bit_iff bit_remap [OF assms])
  then have "unat (remap h i) = unat (remap h i) mod 2 ^ (h + 3)"
    by (metis unat_take_bit_word)
  then show ?thesis by (metis mod_less_divisor zero_less_numeral zero_less_power)
qed

lemma remap_inj:
  assumes "h < 61"
  shows "remap h i = remap h j \<longleftrightarrow> unat i mod 2 ^ (h + 3) = unat j mod 2 ^ (h + 3)"
proof
  assume eq: "remap h i = remap h j"
  have "take_bit (h + 3) i = take_bit (h + 3) j"
  proof (rule bit_eqI)
    fix n
    show "bit (take_bit (h + 3) i) n = bit (take_bit (h + 3) j) n"
    proof (cases "n < 3")
      case True
      then show ?thesis
        using arg_cong [OF eq, of "\<lambda>w. bit w (h + n)"] by (simp add: bit_remap [OF assms] bit_take_bit_iff)
    next
      case False
      then obtain m where "n = m + 3" by (metis add.commute le_Suc_ex not_less)
      then show ?thesis
        using arg_cong [OF eq, of "\<lambda>w. bit w m"] by (auto simp: bit_remap [OF assms] bit_take_bit_iff)
    qed
  qed
  then show "unat i mod 2 ^ (h + 3) = unat j mod 2 ^ (h + 3)"
    by (metis unat_take_bit_word)
next
  assume "unat i mod 2 ^ (h + 3) = unat j mod 2 ^ (h + 3)"
  then have "take_bit (h + 3) i = take_bit (h + 3) j"
    by (simp add: word_unat_eq_iff unat_take_bit_word)
  then show "remap h i = remap h j"
    by (simp add: remap_def and_pow2_mask)
qed

lemma unat_remap_offset:
  assumes "h < 61" "a < 2 ^ (h + 3)" "b < 2 ^ (h + 3)"
  shows "unat (remap h (i + of_nat a)) = unat (remap h (i + of_nat b)) \<longleftrightarrow> a = b"
proof -
  have "unat (i + of_nat a) mod 2 ^ (h + 3) = (unat i + a) mod 2 ^ (h + 3)" for a
  proof -
    have le: "h + 3 \<le> 64" using assms(1) by simp
    show ?thesis
      unfolding unat_add_mod_pow2 [OF le]
      by (rule mod_add_cong [OF refl]) (rule unat_of_nat_mod64 [OF le])
  qed
  then show ?thesis
    using assms(2,3) by (simp only: remap_inj [OF assms(1)] ring_idx_inj flip: word_unat_eq_iff)
qed

subsection \<open>The queue held by the slots\<close>

definition spsc_len :: "'a spsc \<Rightarrow> nat" where
  "spsc_len q = unat (write_idx q - read_idx q)"

definition spsc_inv :: "nat \<Rightarrow> 'a spsc \<Rightarrow> bool" where
  "spsc_inv h q \<longleftrightarrow> h < 61 \<and> length (slots q) = 2 ^ (h + 3) \<and> spsc_len q \<le> 2 ^ (h + 3)
     \<and> (\<forall>k < 2 ^ (h + 3). slot_load h q (read_idx q + of_nat k) = None \<longleftrightarrow> spsc_len q \<le> k)"

definition spsc_rep :: "nat \<Rightarrow> 'a spsc \<Rightarrow> 'a list" where
  "spsc_rep h q = map (\<lambda>k. the (slot_load h q (read_idx q + of_nat k))) [0..<spsc_len q]"

lemma spsc_invD:
  assumes "spsc_inv h q"
  shows "h < 61" "length (slots q) = 2 ^ (h + 3)" "spsc_len q \<le> 2 ^ (h + 3)"
    "k < 2 ^ (h + 3) \<Longrightarrow> slot_load h q (read_idx q + of_nat k) = None \<longleftrightarrow> spsc_len q \<le> k"
  using assms by (auto simp: spsc_inv_def)

lemma pow_h3: "h < 61 \<Longrightarrow> (2 :: nat) ^ (h + 3) \<le> 2 ^ 63"
  by (rule power_increasing) auto

lemma spsc_write_idx: "write_idx q = read_idx q + of_nat (spsc_len q)"
  by (simp add: spsc_len_def)

lemma spsc_len_Suc_write:
  assumes "spsc_inv h q"
  shows "unat (write_idx q + 1 - read_idx q) = Suc (spsc_len q)"
proof -
  have "spsc_len q \<le> 2 ^ 63" using spsc_invD [OF assms] pow_h3 by (meson order_trans)
  then have "Suc (spsc_len q) < 2 ^ LENGTH(64)" by simp
  moreover have "write_idx q + 1 - read_idx q = of_nat (Suc (spsc_len q))"
    by (simp add: spsc_write_idx)
  ultimately show ?thesis by (simp only: unat_of_nat mod_less)
qed

lemma spsc_len_read:
  assumes "0 < spsc_len q"
  shows "unat (write_idx q - (read_idx q + 1)) = spsc_len q - 1"
proof -
  have "write_idx q - (read_idx q + 1) = (write_idx q - read_idx q) - 1" by simp
  moreover have "write_idx q - read_idx q \<noteq> 0" using assms by (auto simp: spsc_len_def)
  ultimately show ?thesis by (metis spsc_len_def unat_minus_one)
qed

lemma slot_load_store:
  assumes "spsc_inv h q" "a < 2 ^ (h + 3)" "b < 2 ^ (h + 3)"
  shows "slot_load h (slot_store h (i + of_nat a) v q) (i + of_nat b)
    = (if a = b then v else slot_load h q (i + of_nat b))"
  using spsc_invD(1,2) [OF assms(1)] assms(2,3) remap_bound [of h "i + of_nat a"]
  by (simp add: slot_load_def slot_store_def nth_list_update unat_remap_offset)

lemma slot_load_wrap:
  assumes "h < 61"
  shows "slot_load h q (i + 2 ^ (h + 3)) = slot_load h q i"
proof -
  have le: "h + 3 \<le> 64" using assms by simp
  have "unat ((2 :: u64) ^ (h + 3)) mod 2 ^ (h + 3) = 0"
    using unat_of_nat_mod64 [OF le, of "2 ^ (h + 3)"] by simp
  then have "remap h (i + 2 ^ (h + 3)) = remap h i"
    by (simp only: remap_inj [OF assms] unat_add_mod_pow2 [OF le] mod_add_zero)
  then show ?thesis by (simp add: slot_load_def)
qed

lemma spsc_write_slot:
  assumes "spsc_inv h q"
  shows "slot_load h q (write_idx q) = None \<longleftrightarrow> spsc_len q < 2 ^ (h + 3)"
proof (cases "spsc_len q < 2 ^ (h + 3)")
  case True
  then show ?thesis using spsc_invD(4) [OF assms True] by (simp add: spsc_write_idx)
next
  case False
  then have "spsc_len q = 2 ^ (h + 3)" using spsc_invD(3) [OF assms] by simp
  then have "slot_load h q (write_idx q) = slot_load h q (read_idx q + of_nat 0)"
    by (simp add: spsc_write_idx slot_load_wrap spsc_invD(1) [OF assms])
  then show ?thesis
    using False spsc_invD(4) [OF assms, of 0] \<open>spsc_len q = 2 ^ (h + 3)\<close> by simp
qed

lemma spsc_read_slot:
  assumes "spsc_inv h q"
  shows "slot_load h q (read_idx q) = None \<longleftrightarrow> spsc_len q = 0"
  using spsc_invD(4) [OF assms, of 0] by simp

lemma length_spsc_rep [simp]: "length (spsc_rep h q) = spsc_len q"
  by (simp add: spsc_rep_def)

text \<open>Effect of the two state-changing atomic accesses, each followed by its index increment.\<close>

lemma spsc_enq:
  fixes x :: 'a
  assumes inv: "spsc_inv h q" and free: "spsc_len q < 2 ^ (h + 3)"
  defines "q' \<equiv> (slot_store h (write_idx q) (Some x) q)\<lparr>write_idx := write_idx q + 1\<rparr>"
  shows "spsc_inv h q'" "spsc_rep h q' = spsc_rep h q @ [x]" "spsc_len q' = Suc (spsc_len q)"
proof -
  have len: "spsc_len q' = Suc (spsc_len q)"
    using spsc_len_Suc_write [OF inv] by (simp add: q'_def spsc_len_def slot_store_def)
  have rd: "read_idx q' = read_idx q" by (simp add: q'_def slot_store_def)
  have ld: "slot_load h q' (read_idx q + of_nat k)
      = (if k = spsc_len q then Some x else slot_load h q (read_idx q + of_nat k))"
    if "k < 2 ^ (h + 3)" for k
    using slot_load_store [OF inv free that, of "read_idx q" "Some x"]
    by (simp add: q'_def slot_load_def slot_store_def spsc_write_idx)
  show "spsc_len q' = Suc (spsc_len q)" by (rule len)
  have "length (slots q') = 2 ^ (h + 3)"
    using spsc_invD(2) [OF inv] by (simp add: q'_def slot_store_def)
  then show "spsc_inv h q'"
    using spsc_invD [OF inv] free by (auto simp: spsc_inv_def rd len ld)
  show "spsc_rep h q' = spsc_rep h q @ [x]"
    using free by (simp add: spsc_rep_def len rd ld)
qed

lemma spsc_deq:
  assumes inv: "spsc_inv h q" and ne: "0 < spsc_len q"
  defines "q' \<equiv> (slot_store h (read_idx q) None q)\<lparr>read_idx := read_idx q + 1\<rparr>"
  shows "spsc_inv h q'" "slot_load h q (read_idx q) = Some (hd (spsc_rep h q))"
    "spsc_rep h q' = tl (spsc_rep h q)" "spsc_len q' = spsc_len q - 1"
proof -
  have len: "spsc_len q' = spsc_len q - 1"
    using spsc_len_read [OF ne] by (simp add: q'_def spsc_len_def slot_store_def)
  have h: "h < 61" by (rule spsc_invD(1) [OF inv])
  have ld0: "slot_load h q' (read_idx q + of_nat k)
      = (if k = 0 then None else slot_load h q (read_idx q + of_nat k))"
    if "k < 2 ^ (h + 3)" for k
    using slot_load_store [OF inv _ that, of 0 "read_idx q" None]
    by (simp add: q'_def slot_load_def slot_store_def)
  have rd: "read_idx q' + of_nat k = read_idx q + of_nat (Suc k)" for k
    by (simp add: q'_def slot_store_def)
  have ld: "slot_load h q' (read_idx q' + of_nat k)
      = (if Suc k = 2 ^ (h + 3) then None else slot_load h q (read_idx q + of_nat (Suc k)))"
    if "k < 2 ^ (h + 3)" for k
  proof (cases "Suc k = 2 ^ (h + 3)")
    case True
    then have "read_idx q' + of_nat k = read_idx q + 2 ^ (h + 3)"
      unfolding rd by (metis of_nat_numeral of_nat_power)
    then show ?thesis using True ld0 [of 0] by (simp add: slot_load_wrap [OF h])
  next
    case False
    then show ?thesis using ld0 [of "Suc k"] that unfolding rd by simp
  qed
  show "spsc_len q' = spsc_len q - 1" by (rule len)
  have "length (slots q') = 2 ^ (h + 3)"
    using spsc_invD(2) [OF inv] by (simp add: q'_def slot_store_def)
  then show "spsc_inv h q'"
    using spsc_invD(1,3) [OF inv] ne
    by (auto simp: spsc_inv_def len ld spsc_invD(4) [OF inv] simp del: of_nat_Suc)
  have cons: "spsc_rep h q = the (slot_load h q (read_idx q)) # spsc_rep h q'"
  proof -
    have "[0..<spsc_len q] = 0 # map Suc [0..<spsc_len q - 1]"
      using ne by (simp add: map_Suc_upt upt_conv_Cons)
    then have "spsc_rep h q = the (slot_load h q (read_idx q))
        # map (\<lambda>k. the (slot_load h q (read_idx q + of_nat (Suc k)))) [0..<spsc_len q - 1]"
      by (simp add: spsc_rep_def)
    also have "map (\<lambda>k. the (slot_load h q (read_idx q + of_nat (Suc k)))) [0..<spsc_len q - 1]
        = spsc_rep h q'"
      using spsc_invD(3) [OF inv] by (auto simp: spsc_rep_def len ld)
    finally show ?thesis .
  qed
  then show "slot_load h q (read_idx q) = Some (hd (spsc_rep h q))"
    using spsc_read_slot [OF inv] ne by auto
  show "spsc_rep h q' = tl (spsc_rep h q)" using cons by simp
qed

subsection \<open>The queue contract\<close>

lemma spsc_init_inv: "h < 61 \<Longrightarrow> spsc_inv h (spsc_init h)"
  using remap_bound by (auto simp: spsc_inv_def spsc_init_def spsc_len_def slot_load_def)

lemma spsc_init_rep [simp]: "spsc_rep h (spsc_init h) = []"
  by (simp add: spsc_rep_def spsc_len_def spsc_init_def)

lemma spsc_push_cases:
  assumes "spsc_inv h q"
  shows "spsc_push h x q =
    (if spsc_len q < 2 ^ (h + 3)
     then (True, (slot_store h (write_idx q) (Some x) q)\<lparr>write_idx := write_idx q + 1\<rparr>)
     else (False, q))"
  using spsc_write_slot [OF assms] by (auto simp: spsc_push_def split: option.split)

lemma spsc_pop_cases:
  assumes "spsc_inv h q"
  shows "spsc_pop h q =
    (if spsc_len q = 0 then (None, q)
     else (Some (hd (spsc_rep h q)), (slot_store h (read_idx q) None q)\<lparr>read_idx := read_idx q + 1\<rparr>))"
  using spsc_read_slot [OF assms] spsc_deq(2) [OF assms]
  by (auto simp: spsc_pop_def split: option.split)

interpretation spsc: bounded_fifo "spsc_inv h" "spsc_rep h" "2 ^ (h + 3)" "spsc_push h" "spsc_pop h"
  for h
proof unfold_locales
  fix q :: "'a spsc" and x :: 'a
  assume inv: "spsc_inv h q"
  show "length (spsc_rep h q) \<le> 2 ^ (h + 3)" using spsc_invD(3) [OF inv] by simp
  show "spsc_inv h (snd (spsc_push h x q))" using inv by (simp add: spsc_push_cases spsc_enq)
  show "fst (spsc_push h x q) \<longleftrightarrow> length (spsc_rep h q) < 2 ^ (h + 3)"
    using inv by (simp add: spsc_push_cases)
  show "spsc_rep h (snd (spsc_push h x q))
      = (if length (spsc_rep h q) < 2 ^ (h + 3) then spsc_rep h q @ [x] else spsc_rep h q)"
    using inv by (simp add: spsc_push_cases spsc_enq)
  show "spsc_inv h (snd (spsc_pop h q))" using inv by (simp add: spsc_pop_cases spsc_deq(1))
  have nil: "spsc_rep h q = [] \<longleftrightarrow> spsc_len q = 0" by (simp add: spsc_rep_def)
  show "fst (spsc_pop h q) = (case spsc_rep h q of [] \<Rightarrow> None | x # _ \<Rightarrow> Some x)"
    using nil by (auto simp: spsc_pop_cases [OF inv] split: list.split)
  show "spsc_rep h (snd (spsc_pop h q)) = tl (spsc_rep h q)"
    using nil by (auto simp: spsc_pop_cases [OF inv] spsc_deq(3) [OF inv])
qed

subsection \<open>Interleaved producer and consumer\<close>

text \<open>
  Each thread is a program counter.  The producer has loaded an empty slot and will store
  (\<open>PReady\<close>), or has stored and will increment (\<open>PStored\<close>); the consumer has loaded a
  full slot (\<open>CGot\<close>) or has cleared it and will increment (\<open>CCleared\<close>).  The ghost fields
  record the elements whose push, respectively pop, has passed its slot store.
\<close>

datatype 'a producer = PIdle | PReady 'a | PStored
datatype 'a consumer = CIdle | CGot 'a | CCleared

record 'a spsc_sys =
  queue :: "'a spsc"
  prod :: "'a producer"
  cons :: "'a consumer"
  pushed :: "'a list"
  popped :: "'a list"

inductive spsc_step :: "nat \<Rightarrow> 'a spsc_sys \<Rightarrow> 'a spsc_sys \<Rightarrow> bool" for h where
  push_full: "prod s = PIdle \<Longrightarrow> slot_load h (queue s) (write_idx (queue s)) = Some y \<Longrightarrow> spsc_step h s s"
| push_load: "prod s = PIdle \<Longrightarrow> slot_load h (queue s) (write_idx (queue s)) = None \<Longrightarrow>
     spsc_step h s (s\<lparr>prod := PReady x\<rparr>)"
| push_store: "prod s = PReady x \<Longrightarrow>
     spsc_step h s (s\<lparr>queue := slot_store h (write_idx (queue s)) (Some x) (queue s),
       prod := PStored, pushed := pushed s @ [x]\<rparr>)"
| push_inc: "prod s = PStored \<Longrightarrow>
     spsc_step h s (s\<lparr>queue := (queue s)\<lparr>write_idx := write_idx (queue s) + 1\<rparr>, prod := PIdle\<rparr>)"
| pop_empty: "cons s = CIdle \<Longrightarrow> slot_load h (queue s) (read_idx (queue s)) = None \<Longrightarrow> spsc_step h s s"
| pop_load: "cons s = CIdle \<Longrightarrow> slot_load h (queue s) (read_idx (queue s)) = Some x \<Longrightarrow>
     spsc_step h s (s\<lparr>cons := CGot x\<rparr>)"
| pop_clear: "cons s = CGot x \<Longrightarrow>
     spsc_step h s (s\<lparr>queue := slot_store h (read_idx (queue s)) None (queue s),
       cons := CCleared, popped := popped s @ [x]\<rparr>)"
| pop_inc: "cons s = CCleared \<Longrightarrow>
     spsc_step h s (s\<lparr>queue := (queue s)\<lparr>read_idx := read_idx (queue s) + 1\<rparr>, cons := CIdle\<rparr>)"

definition spsc_start :: "nat \<Rightarrow> 'a spsc_sys" where
  "spsc_start h = \<lparr>queue = spsc_init h, prod = PIdle, cons = CIdle, pushed = [], popped = []\<rparr>"

inductive spsc_reach :: "nat \<Rightarrow> 'a spsc_sys \<Rightarrow> bool" for h where
  start: "spsc_reach h (spsc_start h)"
| step: "spsc_reach h s \<Longrightarrow> spsc_step h s t \<Longrightarrow> spsc_reach h t"

text \<open>The queue as seen once the pending index increments are done.\<close>

definition settled :: "'a spsc_sys \<Rightarrow> 'a spsc" where
  "settled s = (queue s)\<lparr>
     write_idx := (if prod s = PStored then write_idx (queue s) + 1 else write_idx (queue s)),
     read_idx := (if cons s = CCleared then read_idx (queue s) + 1 else read_idx (queue s))\<rparr>"

definition spsc_sys_inv :: "nat \<Rightarrow> 'a spsc_sys \<Rightarrow> bool" where
  "spsc_sys_inv h s \<longleftrightarrow> spsc_inv h (settled s)
     \<and> (\<forall>x. prod s = PReady x \<longrightarrow> slot_load h (queue s) (write_idx (queue s)) = None)
     \<and> (\<forall>x. cons s = CGot x \<longrightarrow> slot_load h (queue s) (read_idx (queue s)) = Some x)
     \<and> pushed s = popped s @ spsc_rep h (settled s)"

lemma spsc_start_inv: "h < 61 \<Longrightarrow> spsc_sys_inv h (spsc_start h)"
  using spsc_init_inv by (simp add: spsc_sys_inv_def settled_def spsc_start_def)

lemma slots_settled [simp]: "slots (settled s) = slots (queue s)"
  by (simp add: settled_def)

lemma slot_load_settled [simp]: "slot_load h (settled s) i = slot_load h (queue s) i"
  by (simp add: settled_def slot_load_def)

text \<open>The producer's store is the atomic push and the consumer's clear is the atomic pop.\<close>

lemma settled_push_store:
  assumes "prod s = PReady x"
  shows "settled (s\<lparr>queue := slot_store h (write_idx (queue s)) (Some x) (queue s),
      prod := PStored, pushed := p\<rparr>)
    = (slot_store h (write_idx (settled s)) (Some x) (settled s))\<lparr>write_idx := write_idx (settled s) + 1\<rparr>"
  using assms by (simp add: settled_def slot_store_def)

lemma settled_pop_clear:
  assumes "cons s = CGot x"
  shows "settled (s\<lparr>queue := slot_store h (read_idx (queue s)) None (queue s),
      cons := CCleared, popped := p\<rparr>)
    = (slot_store h (read_idx (settled s)) None (settled s))\<lparr>read_idx := read_idx (settled s) + 1\<rparr>"
  using assms by (simp add: settled_def slot_store_def)

lemma settled_idx:
  "prod s \<noteq> PStored \<Longrightarrow> write_idx (settled s) = write_idx (queue s)"
  "cons s \<noteq> CCleared \<Longrightarrow> read_idx (settled s) = read_idx (queue s)"
  by (simp_all add: settled_def)

lemma push_store_keeps:
  assumes inv: "spsc_sys_inv h s" and pc: "prod s = PReady x"
  shows "spsc_sys_inv h (s\<lparr>queue := slot_store h (write_idx (queue s)) (Some x) (queue s),
      prod := PStored, pushed := pushed s @ [x]\<rparr>)" (is "spsc_sys_inv h ?t")
proof -
  let ?q = "settled s"
  have q: "spsc_inv h ?q" and hist: "pushed s = popped s @ spsc_rep h ?q"
    and free: "slot_load h ?q (write_idx ?q) = None"
    using inv pc by (simp_all add: spsc_sys_inv_def settled_idx)
  have len: "spsc_len ?q < 2 ^ (h + 3)" using free spsc_write_slot [OF q] by simp
  have "slot_load h (queue ?t) (read_idx (queue ?t)) = Some y" if "cons s = CGot y" for y
  proof -
    have full: "slot_load h (queue s) (read_idx (queue s)) = Some y"
      using inv that by (simp add: spsc_sys_inv_def)
    moreover have "write_idx (queue s) \<noteq> read_idx (queue s) \<and>
        unat (remap h (write_idx (queue s))) \<noteq> unat (remap h (read_idx (queue s)))"
      using full free pc by (auto simp: settled_idx slot_load_def)
    ultimately show ?thesis by (simp add: slot_load_def slot_store_def)
  qed
  with spsc_enq [OF q len, of x] hist show ?thesis
    by (simp add: spsc_sys_inv_def settled_push_store [OF pc])
qed

lemma pop_clear_keeps:
  assumes inv: "spsc_sys_inv h s" and pc: "cons s = CGot x"
  shows "spsc_sys_inv h (s\<lparr>queue := slot_store h (read_idx (queue s)) None (queue s),
      cons := CCleared, popped := popped s @ [x]\<rparr>)" (is "spsc_sys_inv h ?t")
proof -
  let ?q = "settled s"
  have q: "spsc_inv h ?q" and hist: "pushed s = popped s @ spsc_rep h ?q"
    and full: "slot_load h ?q (read_idx ?q) = Some x"
    using inv pc by (simp_all add: spsc_sys_inv_def settled_idx)
  have len: "0 < spsc_len ?q" using full spsc_read_slot [OF q] by auto
  have "x = hd (spsc_rep h ?q)" using spsc_deq(2) [OF q len] full by simp
  moreover have "spsc_rep h ?q \<noteq> []" using len by (simp add: spsc_rep_def)
  ultimately have "spsc_rep h ?q = x # tl (spsc_rep h ?q)" by simp
  moreover have "slot_load h (queue ?t) (write_idx (queue ?t)) = None" if "prod s = PReady y" for y
  proof -
    have "slot_load h (queue s) (write_idx (queue s)) = None"
      using inv that by (simp add: spsc_sys_inv_def)
    moreover have "unat (remap h (read_idx (queue s))) < length (slots (queue s))"
      using remap_bound spsc_invD(1,2) [OF q] by (simp add: settled_def)
    ultimately show ?thesis by (simp add: slot_load_def slot_store_def nth_list_update)
  qed
  ultimately show ?thesis
    using spsc_deq(1,3) [OF q len] hist by (simp add: spsc_sys_inv_def settled_pop_clear [OF pc])
qed

text \<open>The other steps leave the settled queue as it is.\<close>

lemma settled_local:
  "prod s = PIdle \<Longrightarrow> settled (s\<lparr>prod := PReady x\<rparr>) = settled s"
  "cons s = CIdle \<Longrightarrow> settled (s\<lparr>cons := CGot x\<rparr>) = settled s"
  "prod s = PStored \<Longrightarrow>
    settled (s\<lparr>queue := (queue s)\<lparr>write_idx := write_idx (queue s) + 1\<rparr>, prod := PIdle\<rparr>) = settled s"
  "cons s = CCleared \<Longrightarrow>
    settled (s\<lparr>queue := (queue s)\<lparr>read_idx := read_idx (queue s) + 1\<rparr>, cons := CIdle\<rparr>) = settled s"
  by (simp_all add: settled_def)

lemma spsc_step_inv: "spsc_step h s t \<Longrightarrow> spsc_sys_inv h s \<Longrightarrow> spsc_sys_inv h t"
proof (induction rule: spsc_step.induct)
  case (push_store s x)
  then show ?case by (simp add: push_store_keeps)
next
  case (pop_clear s x)
  then show ?case by (simp add: pop_clear_keeps)
qed (simp_all add: spsc_sys_inv_def settled_local slot_load_def)

lemma spsc_reach_inv: "spsc_reach h s \<Longrightarrow> h < 61 \<Longrightarrow> spsc_sys_inv h s"
  by (induction rule: spsc_reach.induct) (auto intro: spsc_start_inv spsc_step_inv)

subsection \<open>Properties\<close>

text \<open>The index permutation that spreads neighbouring entries over cache lines is a permutation of
  the slots: every slot of the queue is used, and no two indices of one round share a slot.\<close>

theorem remap_permutes:
  assumes "h < 61"
  shows "bij_betw (\<lambda>i. unat (remap h (of_nat i))) {..<2 ^ (h + 3)} {..<2 ^ (h + 3)}"
proof -
  let ?f = "\<lambda>i. unat (remap h (of_nat i))"
  have "inj_on ?f {..<2 ^ (h + 3)}"
    using unat_remap_offset [OF assms, of _ _ 0] by (auto intro!: inj_onI)
  moreover have "?f ` {..<2 ^ (h + 3)} \<subseteq> {..<2 ^ (h + 3)}" using remap_bound [OF assms] by auto
  ultimately show ?thesis
    by (simp add: bij_betw_def endo_inj_surj)
qed

theorem remap_permutes_witness:
  "bij_betw (\<lambda>i. unat (remap 7 (of_nat i))) {..<1024} {..<1024}"
  using remap_permutes [of 7] by simp

text \<open>\<^verbatim>\<open>CustomSpscQueue\<close> of \<open>2 ^ (h + 3)\<close> slots, used by one thread, is a bounded first-in
  first-out queue whose whole capacity is usable: the accepted elements are the delivered ones
  followed by the queued ones; a push is refused only when \<open>full\<close> holds, a pop only when
  \<open>empty\<close> does.\<close>

theorem spsc_fifo_run:
  assumes "h < 61" and "fifo_run (spsc_push h) (spsc_pop h) cs (spsc_init h) = (acc, out, q)"
  shows "acc = out @ spsc_rep h q \<and> length (spsc_rep h q) \<le> 2 ^ (h + 3)
    \<and> (spsc_full h q \<longleftrightarrow> length (spsc_rep h q) = 2 ^ (h + 3)) \<and> (spsc_empty h q \<longleftrightarrow> spsc_rep h q = [])"
proof -
  have init: "spsc_inv h (spsc_init h)" by (rule spsc_init_inv [OF assms(1)])
  have inv: "spsc_inv h q" using spsc.run_inv [OF init, of cs] assms(2) by simp
  have "spsc_full h q \<longleftrightarrow> \<not> fst (spsc_push h x q)" for x
    by (auto simp: spsc_full_def spsc_push_def split: option.split)
  then have "spsc_full h q \<longleftrightarrow> length (spsc_rep h q) = 2 ^ (h + 3)"
    using spsc.push_ok [OF inv] spsc.rep_bound [OF inv] by auto
  moreover have "spsc_empty h q \<longleftrightarrow> fst (spsc_pop h q) = None"
    by (auto simp: spsc_empty_def spsc_pop_def split: option.split)
  then have "spsc_empty h q \<longleftrightarrow> spsc_rep h q = []"
    using spsc.pop_val [OF inv] by (simp split: list.split)
  ultimately show ?thesis
    using spsc.run_fifo_from_empty [OF init spsc_init_rep, of cs] assms(2) by simp
qed

theorem spsc_fifo_run_witness:
  "\<exists>q. fifo_run (spsc_push 0) (spsc_pop 0) [Push 1, Push 2, Pop] (spsc_init 0 :: nat spsc) = ([1, 2], [1], q)
     \<and> [1, 2] = [1] @ spsc_rep 0 q"
proof -
  let ?r = "fifo_run (spsc_push 0) (spsc_pop 0) [Push 1, Push 2, Pop] (spsc_init 0 :: nat spsc)"
  have "?r = ([1, 2], [1], snd (snd ?r))" by code_simp
  then show ?thesis using spsc_fifo_run [of 0 "[Push 1, Push 2, Pop]" "[1, 2 :: nat]" "[1]" "snd (snd ?r)"]
    by (metis less_numeral_extra(1) zero_less_numeral)
qed

text \<open>C6. With a producer and a consumer thread whose loads, stores and index increments interleave in
  any way, every reachable state has delivered a prefix of what was pushed, in order: nothing is
  lost, duplicated or overwritten.  A producer about to store finds its slot empty, a consumer about
  to clear finds in its slot the element it read, which is the oldest one not delivered.\<close>

theorem spsc_concurrent_fifo:
  assumes "spsc_reach h s" and "h < 61"
  shows "pushed s = popped s @ spsc_rep h (settled s) \<and> length (spsc_rep h (settled s)) \<le> 2 ^ (h + 3)
    \<and> (\<forall>x. prod s = PReady x \<longrightarrow> slot_load h (queue s) (write_idx (queue s)) = None)
    \<and> (\<forall>x. cons s = CGot x \<longrightarrow> slot_load h (queue s) (read_idx (queue s)) = Some x
         \<and> (\<exists>xs. spsc_rep h (settled s) = x # xs))"
proof -
  have inv: "spsc_sys_inv h s" by (rule spsc_reach_inv [OF assms])
  have q: "spsc_inv h (settled s)" using inv by (simp add: spsc_sys_inv_def)
  have "\<exists>xs. spsc_rep h (settled s) = x # xs" if c: "cons s = CGot x" for x
  proof -
    have full: "slot_load h (settled s) (read_idx (settled s)) = Some x"
      using inv c by (simp add: spsc_sys_inv_def settled_idx)
    then have len: "0 < spsc_len (settled s)" using spsc_read_slot [OF q] by auto
    then have "x = hd (spsc_rep h (settled s))" using spsc_deq(2) [OF q len] full by simp
    moreover have "spsc_rep h (settled s) \<noteq> []" using len by (simp add: spsc_rep_def)
    ultimately show ?thesis by (metis list.collapse)
  qed
  then show ?thesis using inv spsc.rep_bound [OF q] by (simp add: spsc_sys_inv_def)
qed

theorem spsc_concurrent_fifo_witness:
  "\<exists>s :: nat spsc_sys. spsc_reach 0 s \<and> prod s = PReady 5 \<and> pushed s = popped s @ spsc_rep 0 (settled s)"
proof -
  let ?s = "(spsc_start 0 :: nat spsc_sys)\<lparr>prod := PReady 5\<rparr>"
  have "slot_load 0 (queue (spsc_start 0 :: nat spsc_sys)) (write_idx (queue (spsc_start 0 :: nat spsc_sys))) = None"
    by code_simp
  then have "spsc_step 0 (spsc_start 0) ?s" by (intro push_load) (simp add: spsc_start_def)
  then have "spsc_reach 0 ?s" by (rule spsc_reach.step [OF spsc_reach.start])
  then show ?thesis using spsc_concurrent_fifo [of 0 ?s] by (intro exI [of _ ?s]) simp
qed

end
