(* ===== verification/Flat_Map.thy ===== *)
theory Flat_Map
  imports Engine_Prelude
begin

text \<open>
  \<^verbatim>\<open>ConcurrentFixedFlatMap<K, V, N, Hash>\<close> and its \<^verbatim>\<open>Slot\<close>
  (src/src/utils/CustomMap/ConcurrentFixedFlatMap.h, slot.h): the fixed-capacity open-addressing
  map that holds the orders awaiting an exchange acknowledgement.  \<open>N\<close> is the number of slots, a
  power of two.  The hash functor is a parameter.  An iterator is the index of its slot and
  \<^verbatim>\<open>end()\<close> is \<open>None\<close> (or the index \<open>N\<close> for the raw iterator operations).

  The interface \<open>key_store\<close> states what the order manager relies on; the map satisfies it as
  long as no key is inserted while it is present, which \<^verbatim>\<open>insert\<close> does not check.
\<close>

record ('k, 'v) slot =
  slot_key :: 'k
  slot_value :: 'v
  slot_valid :: bool

record ('k, 'v) flatmap =
  fm_slots :: "('k, 'v) slot list"
  fm_size :: u64

definition insert_slot :: "'k \<Rightarrow> 'v \<Rightarrow> ('k, 'v) slot \<Rightarrow> ('k, 'v) slot" where
  "insert_slot k v s = s\<lparr>slot_key := k, slot_value := v, slot_valid := True\<rparr>"

definition delete_slot :: "('k, 'v) slot \<Rightarrow> ('k, 'v) slot" where
  "delete_slot s = s\<lparr>slot_valid := False\<rparr>"

definition fm_N :: "('k, 'v) flatmap \<Rightarrow> nat" where
  "fm_N m = length (fm_slots m)"

definition index_mask :: "('k, 'v) flatmap \<Rightarrow> u64" where
  "index_mask m = of_nat (fm_N m) - 1"

definition max_load :: "('k, 'v) flatmap \<Rightarrow> u64" where
  "max_load m = of_nat (fm_N m) - 1"

text \<open>The probe loop shared by \<^verbatim>\<open>insert\<close>, \<^verbatim>\<open>find\<close> and \<^verbatim>\<open>erase\<close>: at most \<open>n\<close> slots from
  \<open>idx\<close> on, until the slot test succeeds.\<close>

primrec probe_first :: "nat \<Rightarrow> u64 \<Rightarrow> u64 \<Rightarrow> (nat \<Rightarrow> bool) \<Rightarrow> nat option" where
  "probe_first 0 msk idx P = None"
| "probe_first (Suc n) msk idx P =
     (if P (unat idx) then Some (unat idx) else probe_first n msk ((idx + 1) AND msk) P)"

definition fm_insert ::
  "('k \<Rightarrow> u64) \<Rightarrow> 'k \<Rightarrow> 'v \<Rightarrow> ('k, 'v) flatmap \<Rightarrow> nat option \<times> ('k, 'v) flatmap" where
  "fm_insert hash_fn key value m =
     (if max_load m \<le> fm_size m then (None, m)
      else case probe_first (fm_N m) (index_mask m) (hash_fn key AND index_mask m)
                  (\<lambda>i. \<not> slot_valid (fm_slots m ! i)) of
             None \<Rightarrow> (None, m)
           | Some i \<Rightarrow>
               (Some i, m\<lparr>fm_slots := (fm_slots m)[i := insert_slot key value (fm_slots m ! i)],
                          fm_size := fm_size m + 1\<rparr>))"

definition fm_find :: "('k \<Rightarrow> u64) \<Rightarrow> 'k \<Rightarrow> ('k, 'v) flatmap \<Rightarrow> nat option" where
  "fm_find hash_fn key m =
     probe_first (fm_N m) (index_mask m) (hash_fn key AND index_mask m)
       (\<lambda>i. slot_valid (fm_slots m ! i) \<and> slot_key (fm_slots m ! i) = key)"

definition fm_erase :: "('k \<Rightarrow> u64) \<Rightarrow> 'k \<Rightarrow> ('k, 'v) flatmap \<Rightarrow> bool \<times> ('k, 'v) flatmap" where
  "fm_erase hash_fn key m =
     (case probe_first (fm_N m) (index_mask m) (hash_fn key AND index_mask m)
             (\<lambda>i. slot_valid (fm_slots m ! i) \<and> slot_key (fm_slots m ! i) = key) of
        None \<Rightarrow> (False, m)
      | Some i \<Rightarrow>
          (True, m\<lparr>fm_slots := (fm_slots m)[i := delete_slot (fm_slots m ! i)],
                   fm_size := fm_size m - 1\<rparr>))"

definition fm_clear :: "('k, 'v) flatmap \<Rightarrow> ('k, 'v) flatmap" where
  "fm_clear m = m\<lparr>fm_slots := map delete_slot (fm_slots m), fm_size := 0\<rparr>"

definition fm_empty :: "('k, 'v) flatmap \<Rightarrow> bool" where
  "fm_empty m \<longleftrightarrow> fm_size m = 0"

definition fm_full :: "('k, 'v) flatmap \<Rightarrow> bool" where
  "fm_full m \<longleftrightarrow> max_load m \<le> fm_size m"

text \<open>Iteration: \<open>advance_to_valid\<close> skips to the next valid slot, \<open>begin\<close> starts at the first.\<close>

function advance_to_valid :: "('k, 'v) slot list \<Rightarrow> nat \<Rightarrow> nat" where
  "advance_to_valid ss p =
     (if p < length ss \<and> \<not> slot_valid (ss ! p) then advance_to_valid ss (Suc p) else p)"
  by pat_completeness auto
termination
  by (relation "measure (\<lambda>(ss, p). length ss - p)") auto

declare advance_to_valid.simps [simp del]

definition fm_begin :: "('k, 'v) flatmap \<Rightarrow> nat" where
  "fm_begin m = advance_to_valid (fm_slots m) 0"

definition iter_inc :: "('k, 'v) slot list \<Rightarrow> nat \<Rightarrow> nat" where
  "iter_inc ss p = advance_to_valid ss (Suc p)"

fun iter_dec :: "('k, 'v) slot list \<Rightarrow> nat \<Rightarrow> nat" where
  "iter_dec ss 0 = 0"
| "iter_dec ss (Suc p) = (if slot_valid (ss ! p) then p else iter_dec ss p)"

text \<open>The value a lookup delivers: \<^verbatim>\<open>find(key)->second\<close>, nothing at \<^verbatim>\<open>end()\<close>.\<close>

definition fm_lookup :: "('k \<Rightarrow> u64) \<Rightarrow> ('k, 'v) flatmap \<Rightarrow> 'k \<Rightarrow> 'v option" where
  "fm_lookup hash_fn m key = map_option (\<lambda>i. slot_value (fm_slots m ! i)) (fm_find hash_fn key m)"

definition fm_new :: "nat \<Rightarrow> 'k \<Rightarrow> 'v \<Rightarrow> ('k, 'v) flatmap" where
  "fm_new n k0 v0 =
     \<lparr>fm_slots = replicate n \<lparr>slot_key = k0, slot_value = v0, slot_valid = False\<rparr>, fm_size = 0\<rparr>"

subsection \<open>The interface\<close>

locale key_store =
  fixes inv :: "'m \<Rightarrow> bool"
    and look :: "'m \<Rightarrow> 'k \<Rightarrow> 'v option"
    and room :: "'m \<Rightarrow> bool"
    and put :: "'k \<Rightarrow> 'v \<Rightarrow> 'm \<Rightarrow> 'm"
    and del :: "'k \<Rightarrow> 'm \<Rightarrow> 'm"
  assumes put_inv: "inv m \<Longrightarrow> look m k = None \<Longrightarrow> inv (put k v m)"
    and put_look: "inv m \<Longrightarrow> look m k = None \<Longrightarrow> room m \<Longrightarrow> look (put k v m) = (look m)(k \<mapsto> v)"
    and put_full: "inv m \<Longrightarrow> \<not> room m \<Longrightarrow> put k v m = m"
    and del_inv: "inv m \<Longrightarrow> inv (del k m)"
    and del_look: "inv m \<Longrightarrow> look (del k m) = (look m)(k := None)"
begin

lemma put_then_del:
  assumes "inv m" "look m k = None" "room m"
  shows "look (del k (put k v m)) = look m"
  using assms by (simp add: del_look put_inv put_look fun_upd_idem)

lemma put_del_commute:
  assumes "inv m" "look m k = None" "room m" "k \<noteq> j" "room (del j m)"
  shows "look (del j (put k v m)) = look (put k v (del j m))"
  using assms by (simp add: del_look put_inv put_look del_inv fun_upd_twist)

end

subsection \<open>Probing\<close>

lemma probe_first_Some:
  assumes "probe_first n (2 ^ k - 1) idx P = Some i" "unat idx < 2 ^ k" "k < 64"
  shows "P i \<and> i < 2 ^ k"
  using assms
proof (induction n arbitrary: idx)
  case (Suc n)
  then show ?case by (auto simp: unat_and_pow2_mask split: if_splits)
qed simp

lemma probe_first_None:
  assumes "probe_first n (2 ^ k - 1) idx P = None" "unat idx < 2 ^ k" "k < 64" "j < n"
  shows "\<not> P ((unat idx + j) mod 2 ^ k)"
  using assms
proof (induction n arbitrary: idx j)
  case (Suc n)
  have nxt: "unat ((idx + 1) AND (2 ^ k - 1)) = (unat idx + 1) mod 2 ^ k"
    using Suc.prems(3) by (simp add: unat_and_pow2_mask unat_add_mod_pow2 less_imp_le)
  show ?case
  proof (cases j)
    case 0
    with Suc.prems show ?thesis by (auto split: if_splits)
  next
    case (Suc j')
    from Suc.prems(1) have "probe_first n (2 ^ k - 1) ((idx + 1) AND (2 ^ k - 1)) P = None"
      by (simp split: if_splits)
    then have "\<not> P ((unat ((idx + 1) AND (2 ^ k - 1)) + j') mod 2 ^ k)"
      using Suc.prems Suc by (intro Suc.IH) (simp_all add: nxt)
    with Suc show ?thesis by (simp add: nxt mod_simps)
  qed
qed simp

lemma probe_first_None_all:
  assumes "probe_first (2 ^ k) (2 ^ k - 1) idx P = None" "unat idx < 2 ^ k" "k < 64" "i < 2 ^ k"
  shows "\<not> P i"
proof -
  let ?j = "(i + (2 ^ k - unat idx)) mod 2 ^ k"
  have "(unat idx + ?j) mod 2 ^ k = i" using assms(2,4) by (simp add: mod_simps)
  then show ?thesis using probe_first_None [OF assms(1-3), of ?j] by simp
qed

subsection \<open>The invariant\<close>

definition valid_set :: "('k, 'v) flatmap \<Rightarrow> nat set" where
  "valid_set m = {i. i < fm_N m \<and> slot_valid (fm_slots m ! i)}"

definition fm_inv :: "nat \<Rightarrow> ('k, 'v) flatmap \<Rightarrow> bool" where
  "fm_inv k m \<longleftrightarrow> k < 64 \<and> fm_N m = 2 ^ k \<and> unat (fm_size m) = card (valid_set m)
     \<and> inj_on (\<lambda>i. slot_key (fm_slots m ! i)) (valid_set m)"

lemma finite_valid_set [simp]: "finite (valid_set m)"
  by (simp add: valid_set_def)

lemma fm_masks:
  assumes "fm_N m = 2 ^ k"
  shows "index_mask m = 2 ^ k - 1" "max_load m = 2 ^ k - 1"
  using assms by (simp_all add: index_mask_def max_load_def)

lemma unat_pow2_minus1: "k < 64 \<Longrightarrow> unat ((2 :: u64) ^ k - 1) = 2 ^ k - 1"
proof -
  assume "k < 64"
  then have lt: "(2 :: nat) ^ k < 2 ^ 64" by (rule power_strict_increasing) simp
  have "(2 :: u64) ^ k - 1 = of_nat (2 ^ k - 1)" by (simp add: of_nat_diff)
  moreover have "unat (of_nat (2 ^ k - 1) :: u64) = 2 ^ k - 1"
    unfolding unat_of_nat by (rule mod_less) (use lt in simp)
  ultimately show ?thesis by simp
qed

lemma fm_room: "fm_inv k m \<Longrightarrow> \<not> fm_full m \<longleftrightarrow> card (valid_set m) < 2 ^ k - 1"
  by (auto simp: fm_full_def fm_inv_def fm_masks word_le_nat_alt unat_pow2_minus1)

lemma fm_find_Some:
  assumes "fm_inv k m" "fm_find hf key m = Some i"
  shows "i \<in> valid_set m" "slot_key (fm_slots m ! i) = key"
  using probe_first_Some [of "fm_N m" k "hf key AND index_mask m"] assms
  by (auto simp: fm_find_def fm_inv_def fm_masks valid_set_def unat_and_pow2_mask)

lemma fm_find_None:
  assumes "fm_inv k m" "fm_find hf key m = None" "i \<in> valid_set m"
  shows "slot_key (fm_slots m ! i) \<noteq> key"
  using probe_first_None_all [of k "hf key AND index_mask m" _ i] assms
  by (auto simp: fm_find_def fm_inv_def fm_masks valid_set_def unat_and_pow2_mask)

lemma fm_find_unique:
  assumes inv: "fm_inv k m" and i: "i \<in> valid_set m"
  shows "fm_find hf (slot_key (fm_slots m ! i)) m = Some i"
proof (cases "fm_find hf (slot_key (fm_slots m ! i)) m")
  case None
  then show ?thesis using fm_find_None [OF inv None i] by simp
next
  case (Some j)
  then have "j \<in> valid_set m" "slot_key (fm_slots m ! j) = slot_key (fm_slots m ! i)"
    using fm_find_Some [OF inv] by auto
  then show ?thesis using inv i Some by (auto simp: fm_inv_def dest: inj_onD)
qed

lemma fm_lookup_iff:
  assumes "fm_inv k m"
  shows "fm_lookup hf m key = Some v \<longleftrightarrow>
    (\<exists>i \<in> valid_set m. slot_key (fm_slots m ! i) = key \<and> slot_value (fm_slots m ! i) = v)"
  using fm_find_Some [OF assms] fm_find_unique [OF assms] by (fastforce simp: fm_lookup_def)

lemma fm_lookup_None:
  assumes "fm_inv k m"
  shows "fm_lookup hf m key = None \<longleftrightarrow> (\<forall>i \<in> valid_set m. slot_key (fm_slots m ! i) \<noteq> key)"
  using fm_lookup_iff [OF assms] by (metis not_None_eq option.distinct(1))

text \<open>Insertion into a free slot and removal of a valid one, on the sets of valid slots.\<close>

lemma valid_set_upd:
  assumes "i < fm_N m"
  shows "valid_set (m\<lparr>fm_slots := (fm_slots m)[i := s], fm_size := n\<rparr>)
    = (if slot_valid s then insert i (valid_set m) else valid_set m - {i})"
  using assms by (auto simp: valid_set_def fm_N_def nth_list_update split: if_splits)

lemma fm_insert_cases:
  assumes inv: "fm_inv k m"
  obtains (full) "fm_full m" "fm_insert hf key v m = (None, m)"
  | (ok) i where "\<not> fm_full m" "i < fm_N m" "i \<notin> valid_set m"
      "fm_insert hf key v m = (Some i, m\<lparr>fm_slots := (fm_slots m)[i := insert_slot key v (fm_slots m ! i)],
         fm_size := fm_size m + 1\<rparr>)"
proof (cases "fm_full m")
  case True
  then show ?thesis using full by (simp add: fm_insert_def fm_full_def)
next
  case False
  let ?p = "probe_first (fm_N m) (index_mask m) (hf key AND index_mask m) (\<lambda>i. \<not> slot_valid (fm_slots m ! i))"
  have k: "k < 64" and N: "fm_N m = 2 ^ k" using inv by (simp_all add: fm_inv_def)
  have "?p \<noteq> None"
  proof
    assume "?p = None"
    then have "\<forall>i < 2 ^ k. slot_valid (fm_slots m ! i)"
      using probe_first_None_all [of k "hf key AND index_mask m" "\<lambda>i. \<not> slot_valid (fm_slots m ! i)"] k
      by (auto simp: N fm_masks [OF N] unat_and_pow2_mask)
    then have "valid_set m = {..<2 ^ k}" by (auto simp: valid_set_def N)
    then show False using False fm_room [OF inv] by simp
  qed
  then obtain i where i: "?p = Some i" by blast
  moreover have "\<not> slot_valid (fm_slots m ! i)" "i < 2 ^ k"
    using probe_first_Some [of "fm_N m" k "hf key AND index_mask m"] i k
    by (auto simp: fm_masks [OF N] unat_and_pow2_mask)
  ultimately show ?thesis
    using ok [of i] False by (simp add: fm_insert_def fm_full_def N valid_set_def)
qed

lemma card_valid_le: "fm_inv k m \<Longrightarrow> card (valid_set m) \<le> 2 ^ k"
  using card_mono [of "{..<2 ^ k}" "valid_set m"] by (force simp: fm_inv_def valid_set_def)

lemma fm_insert_inv:
  assumes inv: "fm_inv k m" and fresh: "fm_lookup hf m key = None"
  shows "fm_inv k (snd (fm_insert hf key v m))"
proof (rule fm_insert_cases [OF inv, of hf key v])
  fix i assume nf: "\<not> fm_full m" and i: "i < fm_N m" "i \<notin> valid_set m"
    and eq: "fm_insert hf key v m = (Some i, m\<lparr>fm_slots := (fm_slots m)[i := insert_slot key v (fm_slots m ! i)],
         fm_size := fm_size m + 1\<rparr>)"
  have k: "k < 64" using inv by (simp add: fm_inv_def)
  have "unat (fm_size m) < 2 ^ k - 1"
    using fm_room [OF inv] nf inv by (simp add: fm_inv_def)
  moreover have "(2 :: nat) ^ k \<le> 2 ^ 63" using k by (intro power_increasing) auto
  ultimately have "unat (fm_size m + 1) = Suc (unat (fm_size m))"
    by (simp add: unat_word_ariths)
  moreover have "inj_on (\<lambda>j. slot_key ((fm_slots m)[i := insert_slot key v (fm_slots m ! i)] ! j)) (insert i (valid_set m))"
    using inv fresh i fm_lookup_None [OF inv, of hf key]
    by (auto simp: inj_on_def fm_inv_def nth_list_update insert_slot_def fm_N_def split: if_splits)
  ultimately show ?thesis
    using inv i valid_set_upd [OF i(1)] by (simp add: eq fm_inv_def fm_N_def insert_slot_def)
qed (use inv in simp)

lemma fm_insert_lookup:
  assumes inv: "fm_inv k m" and fresh: "fm_lookup hf m key = None" and room: "\<not> fm_full m"
  shows "fm_lookup hf (snd (fm_insert hf key v m)) = (fm_lookup hf m)(key \<mapsto> v)"
proof (rule fm_insert_cases [OF inv, of hf key v])
  fix i assume i: "i < fm_N m" "i \<notin> valid_set m"
    and eq: "fm_insert hf key v m = (Some i, m\<lparr>fm_slots := (fm_slots m)[i := insert_slot key v (fm_slots m ! i)],
         fm_size := fm_size m + 1\<rparr>)"
  let ?m = "snd (fm_insert hf key v m)"
  have inv': "fm_inv k ?m" by (rule fm_insert_inv [OF inv fresh])
  have vs: "valid_set ?m = insert i (valid_set m)"
    using valid_set_upd [OF i(1)] by (simp add: eq insert_slot_def)
  have nth: "fm_slots ?m ! j = (if j = i then insert_slot key v (fm_slots m ! i) else fm_slots m ! j)" for j
    using i by (auto simp: eq nth_list_update fm_N_def)
  show ?thesis
  proof (rule ext, rule option_eqI)
    fix x w
    show "fm_lookup hf ?m x = Some w \<longleftrightarrow> ((fm_lookup hf m)(key \<mapsto> v)) x = Some w"
        using i fresh fm_lookup_None [OF inv, of hf key]
        by (auto simp: fm_lookup_iff [OF inv'] fm_lookup_iff [OF inv] vs nth insert_slot_def)
  qed
qed (use room in simp)

lemma fm_erase_cases:
  assumes inv: "fm_inv k m"
  obtains (absent) "fm_lookup hf m key = None" "fm_erase hf key m = (False, m)"
  | (found) i where "i \<in> valid_set m" "slot_key (fm_slots m ! i) = key"
      "fm_erase hf key m = (True, m\<lparr>fm_slots := (fm_slots m)[i := delete_slot (fm_slots m ! i)],
         fm_size := fm_size m - 1\<rparr>)"
proof (cases "fm_find hf key m")
  case None
  then show ?thesis using absent by (simp add: fm_erase_def fm_lookup_def fm_find_def)
next
  case (Some i)
  then show ?thesis using found [OF fm_find_Some [OF inv Some]] by (simp add: fm_erase_def fm_find_def)
qed

lemma fm_erase_inv:
  assumes inv: "fm_inv k m"
  shows "fm_inv k (snd (fm_erase hf key m))"
proof (rule fm_erase_cases [OF inv, of hf key])
  fix i assume i: "i \<in> valid_set m"
    and eq: "fm_erase hf key m = (True, m\<lparr>fm_slots := (fm_slots m)[i := delete_slot (fm_slots m ! i)],
         fm_size := fm_size m - 1\<rparr>)"
  have iN: "i < fm_N m" using i by (simp add: valid_set_def)
  have pos: "fm_size m \<noteq> 0" using inv i by (auto simp: fm_inv_def unat_eq_0)
  have "inj_on (\<lambda>j. slot_key ((fm_slots m)[i := delete_slot (fm_slots m ! i)] ! j)) (valid_set m - {i})"
    using inv iN by (auto simp: inj_on_def fm_inv_def nth_list_update delete_slot_def fm_N_def)
  then show ?thesis
    using inv i pos
    by (simp add: eq fm_inv_def valid_set_upd [OF iN])
       (simp add: fm_N_def delete_slot_def unat_minus_one card_Diff_singleton)
qed (use inv in simp)

lemma fm_erase_lookup:
  assumes inv: "fm_inv k m"
  shows "fm_lookup hf (snd (fm_erase hf key m)) = (fm_lookup hf m)(key := None)"
proof (rule fm_erase_cases [OF inv, of hf key])
  fix i assume i: "i \<in> valid_set m" "slot_key (fm_slots m ! i) = key"
    and eq: "fm_erase hf key m = (True, m\<lparr>fm_slots := (fm_slots m)[i := delete_slot (fm_slots m ! i)],
         fm_size := fm_size m - 1\<rparr>)"
  let ?m = "snd (fm_erase hf key m)"
  have iN: "i < fm_N m" using i by (simp add: valid_set_def)
  have inv': "fm_inv k ?m" by (rule fm_erase_inv [OF inv])
  have vs: "valid_set ?m = valid_set m - {i}"
    using valid_set_upd [OF iN] by (simp add: eq delete_slot_def)
  have nth: "fm_slots ?m ! j = (if j = i then delete_slot (fm_slots m ! i) else fm_slots m ! j)" for j
    using iN by (auto simp: eq nth_list_update fm_N_def)
  have only: "j = i" if "j \<in> valid_set m" "slot_key (fm_slots m ! j) = key" for j
    using inv i that by (auto simp: fm_inv_def dest: inj_onD)
  show ?thesis
  proof (rule ext, rule option_eqI)
    fix x w
    show "fm_lookup hf ?m x = Some w \<longleftrightarrow> ((fm_lookup hf m)(key := None)) x = Some w"
    proof (cases "x = key")
      case True
      have "fm_lookup hf ?m key = None" using only by (auto simp: fm_lookup_None [OF inv'] vs nth)
      with True show ?thesis by simp
    next
      case False
      with i(2) show ?thesis by (auto simp: fm_lookup_iff [OF inv'] fm_lookup_iff [OF inv] vs nth)
    qed
  qed
qed (simp add: fun_upd_idem)

interpretation fm: key_store "fm_inv k" "fm_lookup hf" "\<lambda>m. \<not> fm_full m"
    "\<lambda>key v m. snd (fm_insert hf key v m)" "\<lambda>key m. snd (fm_erase hf key m)" for k hf
  by unfold_locales
     (simp_all add: fm_insert_inv fm_insert_lookup fm_erase_inv fm_erase_lookup,
      simp add: fm_insert_def fm_full_def)

lemma fm_new_inv: "k < 64 \<Longrightarrow> fm_inv k (fm_new (2 ^ k) k0 v0)"
proof -
  assume "k < 64"
  moreover have "valid_set (fm_new (2 ^ k) k0 v0) = {}"
    by (auto simp: valid_set_def fm_new_def fm_N_def)
  ultimately show ?thesis by (simp add: fm_inv_def fm_N_def fm_new_def)
qed

lemma fm_clear_inv:
  assumes "fm_inv k m"
  shows "fm_inv k (fm_clear m)" "fm_lookup hf (fm_clear m) = Map.empty"
proof -
  have "valid_set (fm_clear m) = {}"
    by (auto simp: valid_set_def fm_clear_def fm_N_def delete_slot_def)
  then show inv: "fm_inv k (fm_clear m)"
    using assms by (simp add: fm_inv_def fm_clear_def fm_N_def)
  show "fm_lookup hf (fm_clear m) = Map.empty"
    using \<open>valid_set (fm_clear m) = {}\<close> by (auto simp: fm_lookup_None [OF inv])
qed

subsection \<open>Properties\<close>

lemma fm_lookup_dom:
  assumes "fm_inv k m"
  shows "dom (fm_lookup hf m) = (\<lambda>i. slot_key (fm_slots m ! i)) ` valid_set m"
proof -
  have "x \<in> dom (fm_lookup hf m) \<longleftrightarrow> (\<exists>i \<in> valid_set m. x = slot_key (fm_slots m ! i))" for x
    using fm_lookup_None [OF assms, of hf x] by (auto simp: domIff)
  then show ?thesis by (auto simp: image_iff)
qed

lemma fm_size_dom:
  assumes "fm_inv k m"
  shows "unat (fm_size m) = card (dom (fm_lookup hf m))"
  using assms by (simp add: fm_lookup_dom [OF assms] card_image fm_inv_def)

definition has_key :: "'k \<Rightarrow> ('k, 'v) flatmap \<Rightarrow> nat \<Rightarrow> bool" where
  "has_key key m i \<longleftrightarrow> i < fm_N m \<and> slot_valid (fm_slots m ! i) \<and> slot_key (fm_slots m ! i) = key"

lemma fm_find_has_key:
  assumes "fm_N m = 2 ^ k" "k < 64" "has_key key m i"
  shows "fm_find hf key m \<noteq> None"
  using probe_first_None_all [of k "hf key AND index_mask m" _ i] assms
  by (auto simp: fm_find_def has_key_def fm_masks [OF assms(1)] unat_and_pow2_mask)

text \<open>C30. \<^verbatim>\<open>ConcurrentFixedFlatMap\<close> of \<open>2 ^ k\<close> slots implements a finite map of at most
  \<open>2 ^ k - 1\<close> entries for keys that are not entered twice, whatever the hash function: an
  insertion into a full map is refused and changes nothing, otherwise it binds the key; the size is
  the number of bound keys.\<close>

theorem fm_insert_refines:
  assumes "fm_inv k m" and "fm_lookup hf m key = None"
  shows "let (r, m') = fm_insert hf key v m
    in fm_inv k m' \<and> (r = None \<longleftrightarrow> fm_full m)
       \<and> fm_lookup hf m' = (if fm_full m then fm_lookup hf m else (fm_lookup hf m)(key \<mapsto> v))
       \<and> unat (fm_size m') = card (dom (fm_lookup hf m'))"
proof -
  let ?m = "snd (fm_insert hf key v m)"
  have inv: "fm_inv k ?m" by (rule fm.put_inv [OF assms])
  have "fst (fm_insert hf key v m) = None \<longleftrightarrow> fm_full m"
    by (rule fm_insert_cases [OF assms(1), of hf key v]) auto
  moreover have "fm_lookup hf ?m = (if fm_full m then fm_lookup hf m else (fm_lookup hf m)(key \<mapsto> v))"
    using fm.put_full [OF assms(1)] fm.put_look [OF assms] by auto
  moreover note fm_size_dom [OF inv, of hf]
  ultimately show ?thesis using inv by (simp add: case_prod_beta Let_def del: dom_fun_upd)
qed

theorem fm_insert_refines_witness:
  "fm_lookup (\<lambda>x :: u64. x) (snd (fm_insert (\<lambda>x. x) 5 True (fm_new 4 0 False))) 5 = Some True"
proof -
  let ?m = "fm_new 4 0 False :: (u64, bool) flatmap"
  have "fm_inv 2 ?m" using fm_new_inv [of 2] by simp
  moreover have "fm_lookup (\<lambda>x. x) ?m 5 = None" by code_simp
  moreover have "\<not> fm_full ?m" by code_simp
  ultimately show ?thesis
    using fm_insert_refines [of 2 ?m "\<lambda>x. x" 5 True] by (simp add: case_prod_beta Let_def)
qed

text \<open>C31. \<open>erase\<close> unbinds the key, answers whether it was bound and keeps every other entry, although
  the probe sequences of other keys may pass through the freed slot.\<close>

theorem fm_erase_refines:
  assumes "fm_inv k m"
  shows "let (r, m') = fm_erase hf key m
    in fm_inv k m' \<and> (r \<longleftrightarrow> fm_lookup hf m key \<noteq> None) \<and> fm_lookup hf m' = (fm_lookup hf m)(key := None)"
proof -
  have "fst (fm_erase hf key m) \<longleftrightarrow> fm_lookup hf m key \<noteq> None"
    by (rule fm_erase_cases [OF assms, of hf key]) (auto simp: fm_lookup_None [OF assms])
  then show ?thesis
    using fm.del_inv [OF assms] fm.del_look [OF assms] by (simp add: case_prod_beta Let_def)
qed

theorem fm_erase_refines_witness:
  "fm_lookup (\<lambda>x :: u64. 0) (snd (fm_erase (\<lambda>x. 0) 5
     (snd (fm_insert (\<lambda>x. 0) 9 True (snd (fm_insert (\<lambda>x. 0) 5 False (fm_new 4 0 False))))))) 9 = Some True"
proof -
  let ?h = "\<lambda>x :: u64. 0 :: u64"
  let ?a = "fm_new 4 0 False :: (u64, bool) flatmap"
  let ?b = "snd (fm_insert ?h 5 False ?a)"
  let ?m = "snd (fm_insert ?h 9 True ?b)"
  have "fm_inv 2 ?a" using fm_new_inv [of 2] by simp
  moreover have "fm_lookup ?h ?a 5 = None" by code_simp
  ultimately have b: "fm_inv 2 ?b" by (rule fm.put_inv)
  moreover have "fm_lookup ?h ?b 9 = None" by code_simp
  ultimately have "fm_inv 2 ?m" by (rule fm.put_inv)
  moreover have "fm_lookup ?h ?m 9 = Some True" by code_simp
  ultimately show ?thesis
    using fm_erase_refines [of 2 ?m ?h 5] by (simp add: case_prod_beta Let_def)
qed

text \<open>\<open>insert\<close> does not look for the key first.  When a bound key is inserted again and the map
  has room, the map holds two entries for it, and erasing the key leaves it bound.\<close>

theorem fm_duplicate_survives_erase:
  assumes inv: "fm_inv k m" and "fm_lookup hf m key \<noteq> None" and room: "\<not> fm_full m"
  shows "fm_lookup hf (snd (fm_erase hf key (snd (fm_insert hf key v m)))) key \<noteq> None"
proof -
  obtain i where i: "i \<in> valid_set m" "slot_key (fm_slots m ! i) = key"
    using fm_lookup_None [OF inv, of hf key] assms(2) by auto
  obtain j where j: "j < fm_N m" "j \<notin> valid_set m"
    and ins: "snd (fm_insert hf key v m) = m\<lparr>fm_slots := (fm_slots m)[j := insert_slot key v (fm_slots m ! j)],
        fm_size := fm_size m + 1\<rparr>" (is "_ = ?n")
    by (rule fm_insert_cases [OF inv, of hf key v]) (use room in auto)
  have N: "fm_N ?n = 2 ^ k" "k < 64" using inv by (simp_all add: fm_inv_def fm_N_def)
  have two: "i \<noteq> j" "has_key key ?n i" "has_key key ?n j"
    using i j by (auto simp: has_key_def valid_set_def insert_slot_def fm_N_def nth_list_update)
  let ?e = "snd (fm_erase hf key ?n)"
  have Ne: "fm_N ?e = 2 ^ k"
    using N by (auto simp: fm_erase_def fm_N_def split: option.split)
  have "has_key key ?e i \<or> has_key key ?e j"
    using two by (auto simp: fm_erase_def has_key_def fm_N_def nth_list_update split: option.split)
  then show ?thesis unfolding ins using fm_find_has_key [OF Ne N(2)] by (auto simp: fm_lookup_def)
qed

theorem fm_duplicate_survives_erase_witness:
  "fm_lookup (\<lambda>x :: u64. x) (snd (fm_erase (\<lambda>x. x) 5
     (snd (fm_insert (\<lambda>x. x) 5 True (snd (fm_insert (\<lambda>x. x) 5 False (fm_new 4 0 False))))))) 5 \<noteq> None"
proof -
  let ?h = "\<lambda>x :: u64. x"
  let ?a = "fm_new 4 0 False :: (u64, bool) flatmap"
  let ?b = "snd (fm_insert ?h 5 False ?a)"
  have "fm_inv 2 ?a" using fm_new_inv [of 2] by simp
  moreover have "fm_lookup ?h ?a 5 = None" by code_simp
  ultimately have "fm_inv 2 ?b" by (rule fm.put_inv)
  moreover have "fm_lookup ?h ?b 5 \<noteq> None" by code_simp
  moreover have "\<not> fm_full ?b" by code_simp
  ultimately show ?thesis by (rule fm_duplicate_survives_erase)
qed

end
