(* ===== verification/Order_Types.thy ===== *)
theory Order_Types
  imports Engine_Prelude
begin

text \<open>
  The order record and the enumerations shared by the whole engine (src/src/core/Order.h,
  src/src/core/Protocol-Venue.h).  An enumeration with a fixed underlying type can hold a value
  that has no enumerator, because the fillers cast message bytes to it; such a value is the
  \<open>Raw\<close> constructor.  Padding is left out.  Character arrays are lists of their length.
\<close>

datatype SyncState = WaitingNew | NewSeen

datatype Side = Buy | Sell | Side_Unknown

datatype OrderType = OrderType_Unknown | Market | Limit | OrderType_Raw u8

datatype TimeInForce = DAY | GTC | IOC | FOK | GTD | AT_CROSSING | GTS | TIF_Unknown | TIF_Raw u8

datatype Status = Status_Unknown | New | Partial | Filled | Cancelled | Replaced | Deleted
  | Expired | CancelRequest

datatype Protocol = FIX | ITCH | OUCH | Protocol_Unknown

datatype Venue = BIST | NASDAQ | Venue_Unknown

definition VENUE_COUNT :: nat where "VENUE_COUNT = 2"

definition SYMBOL_SIZE :: nat where "SYMBOL_SIZE = 32"

definition ORDER_IDs_SIZE :: nat where "ORDER_IDs_SIZE = 32"

definition STRATEGY_DONE :: u8 where "STRATEGY_DONE = 1"

definition RISK_DONE :: u8 where "RISK_DONE = 2"

definition BUILDER_DONE :: u8 where "BUILDER_DONE = 4"

text \<open>\<^verbatim>\<open>to_underlying\<close> on the enumerations that index arrays or form keys.\<close>

fun side_index :: "Side \<Rightarrow> nat" where
  "side_index Buy = 0"
| "side_index Sell = 1"
| "side_index Side_Unknown = 2"

fun venue_index :: "Venue \<Rightarrow> nat" where
  "venue_index BIST = 0"
| "venue_index NASDAQ = 1"
| "venue_index Venue_Unknown = 2"

definition side_u8 :: "Side \<Rightarrow> u8" where
  "side_u8 s = of_nat (side_index s)"

definition venue_u8 :: "Venue \<Rightarrow> u8" where
  "venue_u8 v = of_nat (venue_index v)"

definition orderType_of_u8 :: "u8 \<Rightarrow> OrderType" where
  "orderType_of_u8 b =
     (if b = 0 then OrderType_Unknown else if b = 1 then Market else if b = 2 then Limit
      else OrderType_Raw b)"

definition timeInForce_of_u8 :: "u8 \<Rightarrow> TimeInForce" where
  "timeInForce_of_u8 b =
     (if b = 0 then DAY else if b = 1 then GTC else if b = 3 then IOC else if b = 4 then FOK
      else if b = 6 then GTD else if b = 9 then AT_CROSSING else if b = 83 then GTS
      else if b = 99 then TIF_Unknown else TIF_Raw b)"

record Order =
  price :: i64
  quantity :: u32
  filled_quantity :: u32
  remaining_quantity :: u32
  last_exec_quantity :: u32
  replaced_quantity :: i32
  symbol_index :: u32
  instrument_id :: u32
  user_ref_num :: u32
  side :: Side
  status :: Status
  venue :: Venue
  isOurOrder :: bool
  canModify :: u8
  protocol :: Protocol
  order_type :: OrderType
  time_in_force :: TimeInForce
  order_id :: u64
  client_order_id :: u64
  timestamp :: u64
  last_update_time :: u64
  pre_user_ref_num :: u32
  cancelled_count :: u8
  syncState :: SyncState
  StatusesPreNew :: "Status \<times> Status"
  exec_type :: u8
  message_type :: u8
  account_index :: u8
  symbol :: string
  real_symbol_len :: u8
  real_cl_ord_token_len :: u8
  fix_org_order_id :: string
  client_order_token :: string

text \<open>A default-constructed order; \<^verbatim>\<open>venue\<close> has no initialiser and is a parameter.\<close>

definition default_order :: "Venue \<Rightarrow> Order" where
  "default_order v =
     \<lparr>price = 0, quantity = 0, filled_quantity = 0, remaining_quantity = 0, last_exec_quantity = 0,
      replaced_quantity = 0, symbol_index = 0, instrument_id = 0, user_ref_num = 0,
      side = Side_Unknown, status = Status_Unknown, venue = v, isOurOrder = False,
      canModify = STRATEGY_DONE OR RISK_DONE OR BUILDER_DONE, protocol = Protocol_Unknown,
      order_type = OrderType_Unknown, time_in_force = TIF_Unknown, order_id = 0,
      client_order_id = 0, timestamp = 0, last_update_time = 0, pre_user_ref_num = 0,
      cancelled_count = 0, syncState = WaitingNew,
      StatusesPreNew = (Status_Unknown, Status_Unknown), exec_type = 0, message_type = 0,
      account_index = 0, symbol = replicate SYMBOL_SIZE (CHR 0x00), real_symbol_len = 0,
      real_cl_ord_token_len = 0, fix_org_order_id = replicate ORDER_IDs_SIZE (CHR 0x00),
      client_order_token = replicate ORDER_IDs_SIZE (CHR 0x00)\<rparr>"

lemma side_index_less_2: "side_index s < 2 \<longleftrightarrow> s \<noteq> Side_Unknown"
  by (cases s) simp_all

lemma venue_index_less_2: "venue_index v < VENUE_COUNT \<longleftrightarrow> v \<noteq> Venue_Unknown"
  by (cases v) (simp_all add: VENUE_COUNT_def)

lemma venue_index_inj: "venue_index v = venue_index w \<longleftrightarrow> v = w"
  by (cases v; cases w) simp_all

end
