(* ===== verification/Market_Book.thy ===== *)
theory Market_Book
  imports Order_Types
begin

text \<open>
  \<^verbatim>\<open>MarketBook\<close> (src/src/market/MarketBook.h, MarketBook.cpp): aggregated price levels per symbol
  with cached best prices.  The ordered container \<^verbatim>\<open>absl::btree_map<int64_t, uint32_t>\<close> is
  represented by the sequence of its entries in ascending signed key order, which is what its
  documentation lets a client observe; \<open>bt_find\<close>, \<open>bt_emplace\<close>, \<open>bt_assign\<close> and \<open>bt_erase\<close>
  are \<^verbatim>\<open>find\<close>, \<^verbatim>\<open>emplace\<close> of an absent key, assignment through an iterator and \<^verbatim>\<open>erase\<close>.
  The laws the book needs of them are the interface \<open>ordered_map\<close>.

  The operations return \<open>None\<close> when the C++ code indexes outside its arrays (an unknown side or
  venue, or a symbol index past the table that is not the \<^verbatim>\<open>UINT32_MAX\<close> marker).
\<close>

type_synonym btree = "(i64 \<times> u32) list"

primrec bt_find :: "btree \<Rightarrow> i64 \<Rightarrow> u32 option" where
  "bt_find [] k = None"
| "bt_find (e # t) k = (if fst e = k then Some (snd e) else bt_find t k)"

primrec bt_emplace :: "i64 \<Rightarrow> u32 \<Rightarrow> btree \<Rightarrow> btree" where
  "bt_emplace k v [] = [(k, v)]"
| "bt_emplace k v (e # t) = (if k <s fst e then (k, v) # e # t else e # bt_emplace k v t)"

primrec bt_assign :: "i64 \<Rightarrow> u32 \<Rightarrow> btree \<Rightarrow> btree" where
  "bt_assign k v [] = []"
| "bt_assign k v (e # t) = (if fst e = k then (k, v) # t else e # bt_assign k v t)"

primrec bt_erase :: "i64 \<Rightarrow> btree \<Rightarrow> btree" where
  "bt_erase k [] = []"
| "bt_erase k (e # t) = (if fst e = k then t else e # bt_erase k t)"

record SymbolBook =
  bids :: btree
  asks :: btree
  best_bid :: i64
  best_ask :: i64
  best_bid_qty :: u32
  best_ask_qty :: u32

definition empty_symbolbook :: SymbolBook where
  "empty_symbolbook =
     \<lparr>bids = [], asks = [], best_bid = 0, best_ask = 0, best_bid_qty = 0, best_ask_qty = 0\<rparr>"

type_synonym MarketBook = "nat \<Rightarrow> nat \<Rightarrow> SymbolBook"

definition MAX_SYMBOL_COUNT :: nat where "MAX_SYMBOL_COUNT = 512"

text \<open>\<^verbatim>\<open>bid_ask_trees_[to_underlying(side)]\<close>: read, and write back.\<close>

fun get_tree :: "SymbolBook \<Rightarrow> Side \<Rightarrow> btree option" where
  "get_tree sb Buy = Some (bids sb)"
| "get_tree sb Sell = Some (asks sb)"
| "get_tree sb Side_Unknown = None"

fun set_tree :: "Side \<Rightarrow> btree \<Rightarrow> SymbolBook \<Rightarrow> SymbolBook" where
  "set_tree Buy t sb = sb\<lparr>bids := t\<rparr>"
| "set_tree Sell t sb = sb\<lparr>asks := t\<rparr>"
| "set_tree Side_Unknown t sb = sb"

definition update_best_bid :: "SymbolBook \<Rightarrow> SymbolBook" where
  "update_best_bid sb = sb\<lparr>best_bid := (if bids sb = [] then 0 else fst (last (bids sb)))\<rparr>"

definition update_best_ask :: "SymbolBook \<Rightarrow> SymbolBook" where
  "update_best_ask sb = sb\<lparr>best_ask := (if asks sb = [] then 0 else fst (hd (asks sb)))\<rparr>"

definition update_best_bid_qty :: "SymbolBook \<Rightarrow> SymbolBook" where
  "update_best_bid_qty sb = sb\<lparr>best_bid_qty := (if bids sb = [] then 0 else snd (last (bids sb)))\<rparr>"

definition update_best_ask_qty :: "SymbolBook \<Rightarrow> SymbolBook" where
  "update_best_ask_qty sb = sb\<lparr>best_ask_qty := (if asks sb = [] then 0 else snd (hd (asks sb)))\<rparr>"

definition update_best_bid_ask :: "Side \<Rightarrow> SymbolBook \<Rightarrow> SymbolBook" where
  "update_best_bid_ask s sb =
     (if s = Buy then update_best_bid_qty (update_best_bid sb)
      else update_best_ask_qty (update_best_ask sb))"

definition update_only_best_qty :: "Side \<Rightarrow> SymbolBook \<Rightarrow> SymbolBook" where
  "update_only_best_qty s sb = (if s = Buy then update_best_bid_qty sb else update_best_ask_qty sb)"

text \<open>\<^verbatim>\<open>get_symBook\<close>: undefined outside the tables, \<open>Some None\<close> is the null pointer.\<close>

definition get_symBook :: "Order \<Rightarrow> (nat \<times> nat) option option" where
  "get_symBook ord =
     (if symbol_index ord = - 1 then Some None
      else if venue_index (venue ord) < VENUE_COUNT \<and> unat (symbol_index ord) < MAX_SYMBOL_COUNT
      then Some (Some (venue_index (venue ord), unat (symbol_index ord)))
      else None)"

text \<open>The common frame of the order operations: our own orders and unknown symbols leave the
  book alone, otherwise the symbol's book is updated.\<close>

definition on_symBook ::
  "(SymbolBook \<Rightarrow> SymbolBook option) \<Rightarrow> Order \<Rightarrow> MarketBook \<Rightarrow> MarketBook option" where
  "on_symBook f ord mb =
     (if isOurOrder ord then Some mb
      else case get_symBook ord of
             None \<Rightarrow> None
           | Some None \<Rightarrow> Some mb
           | Some (Some (v, i)) \<Rightarrow>
               map_option (\<lambda>sb. mb(v := (mb v)(i := sb))) (f (mb v i)))"

definition sb_add :: "Order \<Rightarrow> SymbolBook \<Rightarrow> SymbolBook option" where
  "sb_add ord sb = do {
     tree \<leftarrow> get_tree sb (side ord);
     Some (case bt_find tree (price ord) of
             None \<Rightarrow> update_best_bid_ask (side ord)
                       (set_tree (side ord) (bt_emplace (price ord) (quantity ord) tree) sb)
           | Some q \<Rightarrow> update_only_best_qty (side ord)
                       (set_tree (side ord) (bt_assign (price ord) (q + quantity ord) tree) sb)) }"

text \<open>\<open>cancel_order\<close>, \<open>delete_order\<close> and \<open>exec_order\<close> differ in the quantity they take off.\<close>

definition sb_reduce :: "u32 \<Rightarrow> Order \<Rightarrow> SymbolBook \<Rightarrow> SymbolBook option" where
  "sb_reduce amount ord sb = do {
     tree \<leftarrow> get_tree sb (side ord);
     Some (case bt_find tree (price ord) of
             None \<Rightarrow> sb
           | Some q \<Rightarrow>
               if q \<le> amount
               then update_best_bid_ask (side ord) (set_tree (side ord) (bt_erase (price ord) tree) sb)
               else update_only_best_qty (side ord)
                      (set_tree (side ord) (bt_assign (price ord) (q - amount) tree) sb)) }"

definition sb_modify :: "u32 \<Rightarrow> Order \<Rightarrow> SymbolBook \<Rightarrow> SymbolBook option" where
  "sb_modify newQuantity ord sb = do {
     tree \<leftarrow> get_tree sb (side ord);
     let diff = i64_of_u32 newQuantity - i64_of_u32 (quantity ord);
     Some (case bt_find tree (price ord) of
             Some q \<Rightarrow>
               let q' = q + ucast diff
               in update_best_bid_ask (side ord)
                    (set_tree (side ord)
                       (if q' = 0 then bt_erase (price ord) tree else bt_assign (price ord) q' tree) sb)
           | None \<Rightarrow>
               update_only_best_qty (side ord)
                 (if 0 <s diff
                  then set_tree (side ord) (bt_emplace (price ord) (ucast diff) tree) sb else sb)) }"

definition book_add_order :: "Order \<Rightarrow> MarketBook \<Rightarrow> MarketBook option" where
  "book_add_order ord = on_symBook (sb_add ord) ord"

definition book_modify_order :: "u32 \<Rightarrow> Order \<Rightarrow> MarketBook \<Rightarrow> MarketBook option" where
  "book_modify_order newQuantity ord = on_symBook (sb_modify newQuantity ord) ord"

definition book_cancel_order :: "Order \<Rightarrow> MarketBook \<Rightarrow> MarketBook option" where
  "book_cancel_order ord = on_symBook (sb_reduce (replaced_quantity ord) ord) ord"

definition book_delete_order :: "Order \<Rightarrow> MarketBook \<Rightarrow> MarketBook option" where
  "book_delete_order ord = on_symBook (sb_reduce (remaining_quantity ord) ord) ord"

definition book_exec_order :: "Order \<Rightarrow> MarketBook \<Rightarrow> MarketBook option" where
  "book_exec_order ord = on_symBook (sb_reduce (last_exec_quantity ord) ord) ord"

definition sb_flush :: "SymbolBook \<Rightarrow> SymbolBook" where
  "sb_flush sb = sb\<lparr>bids := [], asks := []\<rparr>"

definition book_flush :: "nat \<Rightarrow> u32 \<Rightarrow> MarketBook \<Rightarrow> MarketBook option" where
  "book_flush v i mb =
     (if v < VENUE_COUNT \<and> unat i < MAX_SYMBOL_COUNT
      then Some (mb(v := (mb v)(unat i := sb_flush (mb v (unat i))))) else None)"

text \<open>The message-driven operations of the book, as a client runs them.\<close>

datatype book_op = Add Order | Cancel Order | Delete Order | Exec Order

primrec book_step :: "book_op \<Rightarrow> MarketBook \<Rightarrow> MarketBook option" where
  "book_step (Add ord) mb = book_add_order ord mb"
| "book_step (Cancel ord) mb = book_cancel_order ord mb"
| "book_step (Delete ord) mb = book_delete_order ord mb"
| "book_step (Exec ord) mb = book_exec_order ord mb"

primrec book_run :: "book_op list \<Rightarrow> MarketBook \<Rightarrow> MarketBook option" where
  "book_run [] mb = Some mb"
| "book_run (c # cs) mb = Option.bind (book_step c mb) (book_run cs)"

text \<open>Abstract view: the quantity offered at each price of each side.\<close>

definition level :: "btree \<Rightarrow> i64 \<Rightarrow> u32" where
  "level t p = (case bt_find t p of None \<Rightarrow> 0 | Some q \<Rightarrow> q)"

definition sb_level :: "SymbolBook \<Rightarrow> Side \<Rightarrow> i64 \<Rightarrow> u32" where
  "sb_level sb s p = (case get_tree sb s of None \<Rightarrow> 0 | Some t \<Rightarrow> level t p)"

subsection \<open>The ordered container\<close>

locale ordered_map =
  fixes inv :: "'t \<Rightarrow> bool"
    and find :: "'t \<Rightarrow> 'k \<Rightarrow> 'v option"
    and emplace :: "'k \<Rightarrow> 'v \<Rightarrow> 't \<Rightarrow> 't"
    and assign :: "'k \<Rightarrow> 'v \<Rightarrow> 't \<Rightarrow> 't"
    and erase :: "'k \<Rightarrow> 't \<Rightarrow> 't"
  assumes emplace_inv: "inv t \<Longrightarrow> find t k = None \<Longrightarrow> inv (emplace k v t)"
    and emplace_find: "inv t \<Longrightarrow> find t k = None \<Longrightarrow> find (emplace k v t) = (find t)(k \<mapsto> v)"
    and assign_inv: "inv t \<Longrightarrow> inv (assign k v t)"
    and assign_find: "inv t \<Longrightarrow> find t k \<noteq> None \<Longrightarrow> find (assign k v t) = (find t)(k \<mapsto> v)"
    and erase_inv: "inv t \<Longrightarrow> inv (erase k t)"
    and erase_find: "inv t \<Longrightarrow> find (erase k t) = (find t)(k := None)"
begin

lemma emplace_erase:
  "inv t \<Longrightarrow> find t k = None \<Longrightarrow> find (erase k (emplace k v t)) = find t"
  by (simp add: erase_find emplace_inv emplace_find fun_upd_idem)

lemma assign_assign:
  "inv t \<Longrightarrow> find t k = Some v \<Longrightarrow> find (assign k v (assign k w t)) = find t"
  by (simp add: assign_find assign_inv fun_upd_idem)

end

definition bt_sorted :: "btree \<Rightarrow> bool" where
  "bt_sorted t \<longleftrightarrow> sorted_wrt (<) (map (sint \<circ> fst) t)"

lemma bt_sorted_Nil [simp]: "bt_sorted []"
  by (simp add: bt_sorted_def)

lemma bt_sorted_Cons [simp]:
  "bt_sorted (e # t) \<longleftrightarrow> (\<forall>x \<in> set t. sint (fst e) < sint (fst x)) \<and> bt_sorted t"
  by (simp add: bt_sorted_def)

lemma bt_find_in_set: "bt_find t k = Some v \<Longrightarrow> (k, v) \<in> set t"
  by (induction t) (auto split: if_splits)

lemma bt_find_None_iff: "bt_find t k = None \<longleftrightarrow> k \<notin> fst ` set t"
  by (induction t) auto

lemma bt_find_sorted: "bt_sorted t \<Longrightarrow> (k, v) \<in> set t \<Longrightarrow> bt_find t k = Some v"
  by (induction t) auto

lemma set_bt_emplace: "set (bt_emplace k v t) = insert (k, v) (set t)"
  by (induction t) auto

lemma bt_emplace_sorted: "bt_sorted t \<Longrightarrow> bt_find t k = None \<Longrightarrow> bt_sorted (bt_emplace k v t)"
proof (induction t)
  case (Cons e t)
  have "sint k \<noteq> sint (fst e)" using Cons.prems(2) by (auto simp: sint_eq_iff split: if_splits)
  with Cons show ?case
    by (auto simp: set_bt_emplace signed_order split: if_splits dest: less_trans)
qed simp

lemma bt_emplace_find: "bt_find t k = None \<Longrightarrow> bt_find (bt_emplace k v t) = (bt_find t)(k \<mapsto> v)"
  by (induction t) (auto split: if_splits)

lemma map_fst_bt_assign: "map fst (bt_assign k v t) = map fst t"
  by (induction t) auto

lemma bt_assign_sorted: "bt_sorted (bt_assign k v t) \<longleftrightarrow> bt_sorted t"
  by (simp add: bt_sorted_def map_fst_bt_assign flip: map_map)

lemma bt_assign_find: "bt_find t k \<noteq> None \<Longrightarrow> bt_find (bt_assign k v t) = (bt_find t)(k \<mapsto> v)"
  by (induction t) (auto simp: fun_eq_iff split: if_splits)

lemma set_bt_erase: "set (bt_erase k t) \<subseteq> set t"
  by (induction t) auto

lemma bt_erase_sorted: "bt_sorted t \<Longrightarrow> bt_sorted (bt_erase k t)"
  using set_bt_erase by (induction t) fastforce+

lemma bt_erase_find: "bt_sorted t \<Longrightarrow> bt_find (bt_erase k t) = (bt_find t)(k := None)"
proof (induction t)
  case (Cons e t)
  then have "bt_find t (fst e) = None" by (auto simp: bt_find_None_iff)
  with Cons show ?case by (auto simp: fun_eq_iff)
qed (simp add: fun_eq_iff)

interpretation bt: ordered_map bt_sorted bt_find bt_emplace bt_assign bt_erase
  by unfold_locales
     (simp_all add: bt_emplace_sorted bt_emplace_find bt_assign_sorted bt_assign_find
        bt_erase_sorted bt_erase_find)

lemmas bt_laws = bt.emplace_inv bt.emplace_find bt.assign_inv bt.assign_find bt.erase_inv bt.erase_find

lemma bt_hd_least: "bt_sorted t \<Longrightarrow> x \<in> set t \<Longrightarrow> sint (fst (hd t)) \<le> sint (fst x)"
  by (cases t) auto

lemma bt_last_greatest: "bt_sorted t \<Longrightarrow> x \<in> set t \<Longrightarrow> sint (fst x) \<le> sint (fst (last t))"
proof (induction t)
  case (Cons e t)
  then show ?case by (cases "t = []") (auto intro: less_imp_le)
qed simp

lemma fst_hd_bt_assign: "t \<noteq> [] \<Longrightarrow> fst (hd (bt_assign k v t)) = fst (hd t)"
  by (cases t) auto

lemma bt_assign_Nil [simp]: "bt_assign k v t = [] \<longleftrightarrow> t = []"
  by (cases t) auto

lemma fst_last_bt_assign: "t \<noteq> [] \<Longrightarrow> fst (last (bt_assign k v t)) = fst (last t)"
  by (induction t) auto

subsection \<open>The cached best prices\<close>

definition bid_cache :: "btree \<Rightarrow> i64 \<times> u32" where
  "bid_cache t = (if t = [] then (0, 0) else last t)"

definition ask_cache :: "btree \<Rightarrow> i64 \<times> u32" where
  "ask_cache t = (if t = [] then (0, 0) else hd t)"

definition sb_ok :: "SymbolBook \<Rightarrow> bool" where
  "sb_ok sb \<longleftrightarrow> bt_sorted (bids sb) \<and> bt_sorted (asks sb)
     \<and> (best_bid sb, best_bid_qty sb) = bid_cache (bids sb)
     \<and> (best_ask sb, best_ask_qty sb) = ask_cache (asks sb)"

definition book_ok :: "MarketBook \<Rightarrow> bool" where
  "book_ok mb \<longleftrightarrow> (\<forall>v i. sb_ok (mb v i))"

lemmas update_best_defs = update_best_bid_ask_def update_only_best_qty_def update_best_bid_def
  update_best_ask_def update_best_bid_qty_def update_best_ask_qty_def

lemma sb_ok_full_update:
  assumes "sb_ok sb" "bt_sorted t"
  shows "sb_ok (update_best_bid_ask s (set_tree s t sb))"
  using assms by (cases s) (auto simp: sb_ok_def update_best_defs bid_cache_def ask_cache_def)

lemma sb_ok_assign:
  assumes "sb_ok sb" "get_tree sb s = Some t" "t \<noteq> []"
  shows "sb_ok (update_only_best_qty s (set_tree s (bt_assign k v t) sb))"
  using assms
  by (cases s)
     (auto simp: sb_ok_def update_best_defs bid_cache_def ask_cache_def bt_assign_sorted
        fst_last_bt_assign fst_hd_bt_assign prod_eq_iff)

lemma sb_ok_tree: "sb_ok sb \<Longrightarrow> get_tree sb s = Some t \<Longrightarrow> bt_sorted t"
  by (cases s) (auto simp: sb_ok_def)

lemma bt_find_nonempty: "bt_find t k = Some v \<Longrightarrow> t \<noteq> []"
  by auto

lemma sb_add_ok: "sb_ok sb \<Longrightarrow> sb_add ord sb = Some sb' \<Longrightarrow> sb_ok sb'"
proof -
  assume ok: "sb_ok sb" and eq: "sb_add ord sb = Some sb'"
  then obtain t where t: "get_tree sb (side ord) = Some t" by (auto simp: sb_add_def bind_eq_Some_conv)
  have st: "bt_sorted t" by (rule sb_ok_tree [OF ok t])
  show "sb_ok sb'"
  proof (cases "bt_find t (price ord)")
    case None
    with ok eq t st show ?thesis by (auto simp: sb_add_def bt_laws intro!: sb_ok_full_update)
  next
    case (Some q)
    with ok eq t show ?thesis
      by (auto simp: sb_add_def dest: bt_find_nonempty intro!: sb_ok_assign)
  qed
qed

lemma sb_reduce_ok: "sb_ok sb \<Longrightarrow> sb_reduce n ord sb = Some sb' \<Longrightarrow> sb_ok sb'"
  by (auto simp: sb_reduce_def bind_eq_Some_conv bt_laws sb_ok_tree split: option.splits if_splits
      intro!: sb_ok_full_update sb_ok_assign)

lemma on_symBook_cases:
  assumes "on_symBook f ord mb = Some mb'"
  obtains (same) "mb' = mb"
  | (upd) v i sb where "f (mb v i) = Some sb" "mb' = mb(v := (mb v)(i := sb))"
proof (cases "isOurOrder ord \<or> get_symBook ord = Some None")
  case True
  with assms have "mb' = mb" by (elim disjE) (simp_all add: on_symBook_def split: if_splits)
  then show ?thesis by (rule same)
next
  case False
  then have "get_symBook ord \<noteq> None" using assms by (cases "get_symBook ord") (simp_all add: on_symBook_def)
  then obtain v i where vi: "get_symBook ord = Some (Some (v, i))" using False by (metis not_None_eq surj_pair)
  with assms False obtain sb where "f (mb v i) = Some sb"
    by (cases "f (mb v i)") (simp_all add: on_symBook_def)
  moreover from this assms False vi have "mb' = mb(v := (mb v)(i := sb))"
    by (simp add: on_symBook_def)
  ultimately show ?thesis by (rule upd)
qed

lemma on_symBook_ok:
  assumes "\<And>sb sb'. sb_ok sb \<Longrightarrow> f sb = Some sb' \<Longrightarrow> sb_ok sb'"
    and ok: "book_ok mb" and eq: "on_symBook f ord mb = Some mb'"
  shows "book_ok mb'"
proof (rule on_symBook_cases [OF eq])
  fix v i sb assume f: "f (mb v i) = Some sb" and mb': "mb' = mb(v := (mb v)(i := sb))"
  have "sb_ok (mb v i)" using ok by (simp add: book_ok_def)
  then have "sb_ok sb" using f by (rule assms(1))
  then show ?thesis using ok by (simp add: book_ok_def mb')
qed (use ok in simp)

lemmas book_order_defs = book_add_order_def book_cancel_order_def book_delete_order_def
  book_exec_order_def

lemma book_step_ok:
  assumes "book_ok mb" "book_step c mb = Some mb'"
  shows "book_ok mb'"
  using assms(2) on_symBook_ok [OF sb_add_ok assms(1)] on_symBook_ok [OF sb_reduce_ok assms(1)]
  by (cases c) (simp_all only: book_step.simps book_order_defs)

lemma book_run_ok: "book_ok mb \<Longrightarrow> book_run cs mb = Some mb' \<Longrightarrow> book_ok mb'"
  by (induction cs arbitrary: mb) (auto simp: bind_eq_Some_conv dest: book_step_ok)

lemma empty_book_ok: "book_ok (\<lambda>_ _. empty_symbolbook)"
  by (simp add: book_ok_def sb_ok_def empty_symbolbook_def bid_cache_def ask_cache_def)

lemma bid_cache_best:
  assumes "bt_sorted t" "bt_find t p = Some q"
  shows "p \<le>s fst (bid_cache t)" "bt_find t (fst (bid_cache t)) = Some (snd (bid_cache t))"
  using bt_last_greatest [OF assms(1) bt_find_in_set [OF assms(2)]] bt_find_nonempty [OF assms(2)]
    bt_find_sorted [OF assms(1), of "fst (last t)" "snd (last t)"]
  by (simp_all add: bid_cache_def signed_order)

lemma ask_cache_best:
  assumes "bt_sorted t" "bt_find t p = Some q"
  shows "fst (ask_cache t) \<le>s p" "bt_find t (fst (ask_cache t)) = Some (snd (ask_cache t))"
  using bt_hd_least [OF assms(1) bt_find_in_set [OF assms(2)]] bt_find_nonempty [OF assms(2)]
    bt_find_sorted [OF assms(1), of "fst (hd t)" "snd (hd t)"]
  by (simp_all add: ask_cache_def signed_order)

subsection \<open>Levels\<close>

lemma get_tree_update [simp]:
  "s \<noteq> Side_Unknown \<Longrightarrow> get_tree (update_best_bid_ask s (set_tree s t sb)) s' = (if s' = s then Some t else get_tree sb s')"
  "s \<noteq> Side_Unknown \<Longrightarrow> get_tree (update_only_best_qty s (set_tree s t sb)) s' = (if s' = s then Some t else get_tree sb s')"
  by (cases s; cases s'; simp add: update_best_defs)+

lemma sb_add_level:
  assumes ok: "sb_ok sb" and s: "side ord \<noteq> Side_Unknown"
  shows "\<exists>sb'. sb_add ord sb = Some sb' \<and>
    (\<forall>s p. sb_level sb' s p
       = (if s = side ord \<and> p = price ord then sb_level sb s p + quantity ord else sb_level sb s p))"
proof -
  obtain t where t: "get_tree sb (side ord) = Some t" using s by (cases "side ord") auto
  have st: "bt_sorted t" by (rule sb_ok_tree [OF ok t])
  show ?thesis
    using t s st
    by (cases "bt_find t (price ord)") (auto simp: sb_add_def sb_level_def level_def bt_laws)
qed

lemma sb_reduce_level:
  assumes ok: "sb_ok sb" and s: "side ord \<noteq> Side_Unknown"
  shows "\<exists>sb'. sb_reduce n ord sb = Some sb' \<and>
    (\<forall>s p. sb_level sb' s p
       = (if s = side ord \<and> p = price ord
          then (if sb_level sb s p \<le> n then 0 else sb_level sb s p - n) else sb_level sb s p))"
proof -
  obtain t where t: "get_tree sb (side ord) = Some t" using s by (cases "side ord") auto
  have st: "bt_sorted t" by (rule sb_ok_tree [OF ok t])
  show ?thesis
    using t s st
    by (cases "bt_find t (price ord)") (auto simp: sb_reduce_def sb_level_def level_def bt_laws)
qed

subsection \<open>Properties\<close>

text \<open>The order a concrete run uses: a sell or buy order for symbol 0 of BIST.\<close>

definition sample_order :: "Side \<Rightarrow> i64 \<Rightarrow> u32 \<Rightarrow> Order" where
  "sample_order s p q =
     (default_order BIST)\<lparr>side := s, price := p, quantity := q, remaining_quantity := q, last_exec_quantity := q\<rparr>"

text \<open>C5. After any sequence of add, cancel, delete and execute operations on an empty market book, the
  cached best bid of every symbol is the highest price of its bid levels with that level's quantity,
  the cached best ask the lowest price of its ask levels with its quantity, and both are 0 for an
  empty side.\<close>

theorem book_best_prices:
  assumes "book_run cs (\<lambda>_ _. empty_symbolbook) = Some mb"
  shows "(\<forall>p q. bt_find (bids (mb v i)) p = Some q \<longrightarrow>
            p \<le>s best_bid (mb v i) \<and> bt_find (bids (mb v i)) (best_bid (mb v i)) = Some (best_bid_qty (mb v i)))
    \<and> (\<forall>p q. bt_find (asks (mb v i)) p = Some q \<longrightarrow>
            best_ask (mb v i) \<le>s p \<and> bt_find (asks (mb v i)) (best_ask (mb v i)) = Some (best_ask_qty (mb v i)))
    \<and> (bids (mb v i) = [] \<longrightarrow> best_bid (mb v i) = 0 \<and> best_bid_qty (mb v i) = 0)
    \<and> (asks (mb v i) = [] \<longrightarrow> best_ask (mb v i) = 0 \<and> best_ask_qty (mb v i) = 0)"
proof -
  have "book_ok mb" by (rule book_run_ok [OF empty_book_ok assms])
  then have ok: "sb_ok (mb v i)" by (simp add: book_ok_def)
  then have b: "bid_cache (bids (mb v i)) = (best_bid (mb v i), best_bid_qty (mb v i))"
    and a: "ask_cache (asks (mb v i)) = (best_ask (mb v i), best_ask_qty (mb v i))"
    by (simp_all add: sb_ok_def)
  have sb: "bt_sorted (bids (mb v i))" and sa: "bt_sorted (asks (mb v i))" using ok by (simp_all add: sb_ok_def)
  show ?thesis
    using bid_cache_best [OF sb] ask_cache_best [OF sa] a b
    by (auto simp: bid_cache_def [of "[]"] ask_cache_def [of "[]"])
qed

theorem book_best_prices_witness:
  "\<exists>mb. book_run [Add (sample_order Buy 100 5), Add (sample_order Buy 101 7), Add (sample_order Buy 101 2),
      Cancel ((sample_order Buy 100 5)\<lparr>replaced_quantity := 1\<rparr>)] (\<lambda>_ _. empty_symbolbook) = Some mb
    \<and> 100 \<le>s best_bid (mb 0 0) \<and> best_bid (mb 0 0) = 101 \<and> best_bid_qty (mb 0 0) = 9"
proof -
  let ?cs = "[Add (sample_order Buy 100 5), Add (sample_order Buy 101 7), Add (sample_order Buy 101 2),
      Cancel ((sample_order Buy 100 5)\<lparr>replaced_quantity := 1\<rparr>)]"
  define mb where "mb = the (book_run ?cs (\<lambda>_ _. empty_symbolbook))"
  have run: "book_run ?cs (\<lambda>_ _. empty_symbolbook) = Some mb"
    unfolding mb_def by (rule some_the) code_simp
  have lv: "bt_find (bids (mb 0 0)) 100 \<noteq> None" "best_bid (mb 0 0) = 101" "best_bid_qty (mb 0 0) = 9"
    unfolding mb_def by code_simp+
  show ?thesis using book_best_prices [OF run, of 0 0] run lv by auto
qed

text \<open>\<^verbatim>\<open>MarketBook::add_order\<close> of a market order with a known side, venue and symbol succeeds and adds
  the order's quantity (modulo \<open>2 ^ 32\<close>) to the level of its price and side; every other level of
  every symbol is unchanged.\<close>

lemma book_add_levels:
  assumes "book_ok mb" "\<not> isOurOrder ord" "get_symBook ord = Some (Some (v, i))" "side ord \<noteq> Side_Unknown"
  shows "\<exists>mb'. book_add_order ord mb = Some mb' \<and> book_ok mb' \<and>
    (\<forall>w j s p. sb_level (mb' w j) s p
       = (if w = v \<and> j = i \<and> s = side ord \<and> p = price ord
          then sb_level (mb w j) s p + quantity ord else sb_level (mb w j) s p))"
proof -
  have ok: "sb_ok (mb v i)" using assms(1) by (simp add: book_ok_def)
  obtain sb where sb: "sb_add ord (mb v i) = Some sb"
    and lv: "\<forall>s p. sb_level sb s p = (if s = side ord \<and> p = price ord
        then sb_level (mb v i) s p + quantity ord else sb_level (mb v i) s p)"
    using sb_add_level [OF ok assms(4)] by blast
  have eq: "book_add_order ord mb = Some (mb(v := (mb v)(i := sb)))"
    by (simp add: book_add_order_def on_symBook_def assms(2,3) sb)
  then have "book_ok (mb(v := (mb v)(i := sb)))" using book_step_ok [OF assms(1), of "Add ord"] by simp
  then show ?thesis using eq lv by simp
qed

text \<open>Cancelling, deleting and executing take the cancelled, the remaining and the last executed
  quantity off the level of the order's price and side; a level that does not exceed the amount
  disappears, so no level underflows; every other level is unchanged.\<close>

lemma book_reduce_levels:
  assumes "book_ok mb" "\<not> isOurOrder ord" "get_symBook ord = Some (Some (v, i))" "side ord \<noteq> Side_Unknown"
    and "(op, n) \<in> {(Cancel ord, replaced_quantity ord), (Delete ord, remaining_quantity ord),
                     (Exec ord, last_exec_quantity ord)}"
  shows "\<exists>mb'. book_step op mb = Some mb' \<and> book_ok mb' \<and>
    (\<forall>w j s p. sb_level (mb' w j) s p
       = (if w = v \<and> j = i \<and> s = side ord \<and> p = price ord
          then (if sb_level (mb w j) s p \<le> n then 0 else sb_level (mb w j) s p - n)
          else sb_level (mb w j) s p))"
proof -
  have ok: "sb_ok (mb v i)" using assms(1) by (simp add: book_ok_def)
  obtain sb where sb: "sb_reduce n ord (mb v i) = Some sb"
    and lv: "\<forall>s p. sb_level sb s p = (if s = side ord \<and> p = price ord
        then (if sb_level (mb v i) s p \<le> n then 0 else sb_level (mb v i) s p - n) else sb_level (mb v i) s p)"
    using sb_reduce_level [OF ok assms(4)] by blast
  have eq: "book_step op mb = Some (mb(v := (mb v)(i := sb)))"
    using assms(5) sb by (auto simp: book_order_defs on_symBook_def assms(2,3))
  then have "book_ok (mb(v := (mb v)(i := sb)))" by (rule book_step_ok [OF assms(1)])
  then show ?thesis using eq lv by simp
qed

text \<open>The abstract book: the quantity offered per venue, symbol, side and price.\<close>

type_synonym levels = "nat \<Rightarrow> nat \<Rightarrow> Side \<Rightarrow> i64 \<Rightarrow> u32"

definition book_levels :: "MarketBook \<Rightarrow> levels" where
  "book_levels mb v i s p = sb_level (mb v i) s p"

primrec op_order :: "book_op \<Rightarrow> Order" where
  "op_order (Add ord) = ord"
| "op_order (Cancel ord) = ord"
| "op_order (Delete ord) = ord"
| "op_order (Exec ord) = ord"

definition take_off :: "u32 \<Rightarrow> u32 \<Rightarrow> u32" where
  "take_off n q = (if q \<le> n then 0 else q - n)"

primrec op_change :: "book_op \<Rightarrow> u32 \<Rightarrow> u32" where
  "op_change (Add ord) = (\<lambda>q. q + quantity ord)"
| "op_change (Cancel ord) = take_off (replaced_quantity ord)"
| "op_change (Delete ord) = take_off (remaining_quantity ord)"
| "op_change (Exec ord) = take_off (last_exec_quantity ord)"

definition level_step :: "book_op \<Rightarrow> levels \<Rightarrow> levels" where
  "level_step c L =
     (let ord = op_order c in
      case (if isOurOrder ord then Some None else get_symBook ord) of
        Some (Some (v, i)) \<Rightarrow>
          (\<lambda>w j s p. if w = v \<and> j = i \<and> s = side ord \<and> p = price ord then op_change c (L w j s p) else L w j s p)
      | _ \<Rightarrow> L)"

text \<open>An operation the book can process: our own order, an unknown symbol, or indices within the
  tables and a proper side.\<close>

definition op_ok :: "book_op \<Rightarrow> bool" where
  "op_ok c \<longleftrightarrow>
     (let ord = op_order c in
      isOurOrder ord \<or> get_symBook ord = Some None
      \<or> (\<exists>v i. get_symBook ord = Some (Some (v, i))) \<and> side ord \<noteq> Side_Unknown)"

lemma book_step_levels:
  assumes ok: "book_ok mb" and c: "op_ok c"
  shows "\<exists>mb'. book_step c mb = Some mb' \<and> book_ok mb' \<and> book_levels mb' = level_step c (book_levels mb)"
proof (cases "isOurOrder (op_order c) \<or> get_symBook (op_order c) = Some None")
  case True
  then have "book_step c mb = Some mb" by (cases c) (auto simp: book_order_defs on_symBook_def)
  moreover have "level_step c L = L" for L using True by (auto simp: level_step_def Let_def)
  ultimately show ?thesis using ok by simp
next
  case False
  then obtain v i where vi: "get_symBook (op_order c) = Some (Some (v, i))" and s: "side (op_order c) \<noteq> Side_Unknown"
    using c by (auto simp: op_ok_def Let_def)
  have "\<exists>mb'. book_step c mb = Some mb' \<and> book_ok mb' \<and> (\<forall>w j s p. sb_level (mb' w j) s p
      = (if w = v \<and> j = i \<and> s = side (op_order c) \<and> p = price (op_order c)
         then op_change c (sb_level (mb w j) s p) else sb_level (mb w j) s p))"
  proof (cases c)
    case (Add ord)
    then show ?thesis using book_add_levels [OF ok, of ord v i] False vi s by auto
  next
    case (Cancel ord)
    then show ?thesis
      using book_reduce_levels [OF ok, of ord v i c "replaced_quantity ord", folded take_off_def] False vi s by auto
  next
    case (Delete ord)
    then show ?thesis
      using book_reduce_levels [OF ok, of ord v i c "remaining_quantity ord", folded take_off_def] False vi s by auto
  next
    case (Exec ord)
    then show ?thesis
      using book_reduce_levels [OF ok, of ord v i c "last_exec_quantity ord", folded take_off_def] False vi s by auto
  qed
  then show ?thesis using False vi by (auto simp: level_step_def Let_def book_levels_def fun_eq_iff)
qed

text \<open>C4. The market book refines the table of quantities per venue, symbol, side and price: any
  sequence of add, cancel, delete and execute operations on proper orders succeeds, and the levels it
  leaves are those of the abstract operations, an add increasing the level of the order's price by its
  quantity, the others taking their quantity off and stopping at zero.\<close>

theorem book_run_refines_levels:
  assumes "book_ok mb" "\<forall>c \<in> set cs. op_ok c"
  shows "\<exists>mb'. book_run cs mb = Some mb' \<and> book_ok mb' \<and> book_levels mb' = fold level_step cs (book_levels mb)"
  using assms
proof (induction cs arbitrary: mb)
  case (Cons c cs)
  obtain mb1 where s: "book_step c mb = Some mb1" "book_ok mb1" "book_levels mb1 = level_step c (book_levels mb)"
    using book_step_levels [OF Cons.prems(1), of c] Cons.prems(2) by auto
  then show ?case using Cons.IH [OF s(2)] Cons.prems(2) by simp
qed simp

theorem book_run_refines_levels_witness:
  "\<exists>mb. book_run [Add (sample_order Buy 100 5), Exec ((sample_order Buy 100 5)\<lparr>last_exec_quantity := 2\<rparr>)]
      (\<lambda>_ _. empty_symbolbook) = Some mb \<and> book_levels mb 0 0 Buy 100 = 3"
proof -
  let ?cs = "[Add (sample_order Buy 100 5), Exec ((sample_order Buy 100 5)\<lparr>last_exec_quantity := 2\<rparr>)]"
  have g: "get_symBook (sample_order Buy 100 5) = Some (Some (0, 0))"
    "get_symBook ((sample_order Buy 100 5)\<lparr>last_exec_quantity := 2\<rparr>) = Some (Some (0, 0))"
    "side (sample_order Buy 100 5) = Buy" by code_simp+
  then have "\<forall>c \<in> set ?cs. op_ok c" by (simp add: op_ok_def Let_def)
  moreover have "fold level_step ?cs (book_levels (\<lambda>_ _. empty_symbolbook)) 0 0 Buy 100 = 3" by code_simp
  ultimately show ?thesis using book_run_refines_levels [OF empty_book_ok, of ?cs] by auto
qed

text \<open>\<^verbatim>\<open>MarketBook::flush\<close> removes every level of the symbol but leaves the cached best prices and
  quantities as they were, so a flushed symbol keeps reporting a best bid and ask that no longer
  exist.\<close>

theorem book_flush_stale_best:
  assumes "book_flush v j mb = Some mb'"
  shows "sb_level (mb' v (unat j)) s p = 0
    \<and> best_bid (mb' v (unat j)) = best_bid (mb v (unat j)) \<and> best_ask (mb' v (unat j)) = best_ask (mb v (unat j))
    \<and> best_bid_qty (mb' v (unat j)) = best_bid_qty (mb v (unat j))
    \<and> best_ask_qty (mb' v (unat j)) = best_ask_qty (mb v (unat j))"
proof -
  have "mb' v (unat j) = sb_flush (mb v (unat j))"
    using assms by (auto simp: book_flush_def split: if_splits)
  then show ?thesis by (cases s) (simp_all add: sb_flush_def sb_level_def level_def)
qed

theorem book_flush_stale_best_witness:
  "best_bid (the (book_flush 0 0 (\<lambda>_ _. empty_symbolbook\<lparr>bids := [(7, 1)], best_bid := 7, best_bid_qty := 1\<rparr>)) 0 0) = 7"
proof -
  let ?mb = "\<lambda>_ _. empty_symbolbook\<lparr>bids := [(7, 1)], best_bid := 7, best_bid_qty := 1\<rparr>"
  have "book_flush 0 0 ?mb = Some (the (book_flush 0 0 ?mb))" by (rule some_the) code_simp
  from book_flush_stale_best [OF this] show ?thesis by simp
qed

end
