(* ===== verification/Symbol_Tables.thy ===== *)
theory Symbol_Tables
  imports Order_Types
begin

text \<open>
  \<^verbatim>\<open>HashTables\<close> (src/src/core/HashTables.h, HashTables.cpp): the per-venue symbol tables and the
  duplicate exec-id filter; and \<^verbatim>\<open>Limits\<close> (src/src/risk/Limits.h, Limits.cpp): the risk limits
  indexed by them.  A hash map of the abseil library is its set of entries: an association list
  with distinct keys, or a set of keys.  \<^verbatim>\<open>absl::Hash\<close> is the parameter \<open>hash_sv\<close>.  The JSON
  parser is outside the model: the configuration is the list of its items in the order in which
  the parser iterates them.
\<close>

datatype init_error = IncompleteTable

type_synonym symtab = "(string \<times> u32) list"

record HashTables =
  hashtables :: "symtab list"
  symbols_count_per_venue :: "nat list"
  exec_id_hashes :: "u64 set"

text \<open>A C string copied into a zeroed \<^verbatim>\<open>std::array<char, 32>\<close> with its terminator, cut at 32.\<close>

definition symbol_array :: "string \<Rightarrow> string" where
  "symbol_array s = take 32 s @ replicate (32 - length s) (CHR 0x00)"

definition try_emplace :: "string \<Rightarrow> u32 \<Rightarrow> symtab \<Rightarrow> symtab" where
  "try_emplace k v t = (if map_of t k = None then t @ [(k, v)] else t)"

primrec fill_table :: "(string option \<times> u32) list \<Rightarrow> symtab \<Rightarrow> symtab" where
  "fill_table [] t = t"
| "fill_table (e # es) t =
     (case fst e of
        None \<Rightarrow> fill_table es t
      | Some nam \<Rightarrow> fill_table es (try_emplace (symbol_array nam) (snd e) t))"

definition initialize :: "(string option \<times> u32) list \<Rightarrow> HashTables \<Rightarrow> init_error + HashTables" where
  "initialize symbol_table ht =
     (let t = fill_table symbol_table []
      in if length t \<noteq> length symbol_table then Inl IncompleteTable
         else Inr (ht\<lparr>hashtables := hashtables ht @ [t],
                     symbols_count_per_venue := symbols_count_per_venue ht @ [length symbol_table]\<rparr>))"

primrec initialize_all ::
  "(string option \<times> u32) list list \<Rightarrow> HashTables \<Rightarrow> init_error + HashTables" where
  "initialize_all [] ht = Inr ht"
| "initialize_all (t # ts) ht =
     (case initialize t ht of Inl e \<Rightarrow> Inl e | Inr ht' \<Rightarrow> initialize_all ts ht')"

definition get_symbol_count :: "HashTables \<Rightarrow> nat \<Rightarrow> nat option" where
  "get_symbol_count ht v = nth_opt (symbols_count_per_venue ht) v"

definition getIndex :: "HashTables \<Rightarrow> nat \<Rightarrow> string \<Rightarrow> u32 option" where
  "getIndex ht v nam =
     map_option (\<lambda>t. case map_of t nam of None \<Rightarrow> - 1 | Some i \<Rightarrow> i) (nth_opt (hashtables ht) v)"

definition is_duplicate_exec_id :: "(string \<Rightarrow> u64) \<Rightarrow> string \<Rightarrow> HashTables \<Rightarrow> bool \<times> HashTables" where
  "is_duplicate_exec_id hash_sv exec_id ht =
     (hash_sv exec_id \<in> exec_id_hashes ht,
      ht\<lparr>exec_id_hashes := insert (hash_sv exec_id) (exec_id_hashes ht)\<rparr>)"

record SymbolLimit =
  max_position_scaled :: i64
  max_order_notional_scaled :: i64
  max_price_deviation :: i64
  max_exposure_scaled :: i64
  fat_finger_ratio :: i64
  min_qty :: u32
  max_qty :: u32
  price_scale_factor :: u32
  qty_scale_factor :: u32
  sym_max_open_orders :: u32
  fat_finger_qty_threshold :: u32

record AccountLimit =
  max_notional :: i64
  max_daily_loss :: i64
  max_unrealized_loss :: i64
  maker_fee_rate :: i64
  taker_fee_rate :: i64
  max_leverage :: i64
  acc_max_open_orders :: u32

record Limits =
  symbol_limits :: "SymbolLimit list list"
  account_limits :: "AccountLimit list"

definition getSymbolLimit :: "Limits \<Rightarrow> nat \<Rightarrow> u32 \<Rightarrow> SymbolLimit option" where
  "getSymbolLimit lim v i = Option.bind (nth_opt (symbol_limits lim) v) (\<lambda>xs. nth_opt xs (unat i))"

definition getAccountLimit :: "Limits \<Rightarrow> nat \<Rightarrow> AccountLimit option" where
  "getAccountLimit lim v = nth_opt (account_limits lim) v"

definition zero_symbollimit :: SymbolLimit where
  "zero_symbollimit =
     \<lparr>max_position_scaled = 0, max_order_notional_scaled = 0, max_price_deviation = 0,
      max_exposure_scaled = 0, fat_finger_ratio = 0, min_qty = 0, max_qty = 0,
      price_scale_factor = 0, qty_scale_factor = 0, sym_max_open_orders = 0,
      fat_finger_qty_threshold = 0\<rparr>"

text \<open>One venue of the configuration: a zeroed vector as long as its symbol list, each limit
  stored at the index of its symbol.\<close>

primrec store_limits ::
  "HashTables \<Rightarrow> nat \<Rightarrow> (string \<times> SymbolLimit) list \<Rightarrow> SymbolLimit list \<Rightarrow> SymbolLimit list option" where
  "store_limits ht v [] vec = Some vec"
| "store_limits ht v (e # es) vec = do {
     _ \<leftarrow> guard (length (fst e) \<le> 32);
     i \<leftarrow> getIndex ht v (symbol_array (fst e));
     _ \<leftarrow> guard (unat i < length vec);
     store_limits ht v es (vec[unat i := snd e]) }"

primrec initialize_symbollimits_from ::
  "HashTables \<Rightarrow> nat \<Rightarrow> (string \<times> SymbolLimit) list list \<Rightarrow> SymbolLimit list list option" where
  "initialize_symbollimits_from ht v [] = Some []"
| "initialize_symbollimits_from ht v (c # cs) = do {
     _ \<leftarrow> guard (v < VENUE_COUNT);
     vec \<leftarrow> store_limits ht v c (replicate (length c) zero_symbollimit);
     rest \<leftarrow> initialize_symbollimits_from ht (Suc v) cs;
     Some (vec # rest) }"

definition initialize_symbollimits ::
  "HashTables \<Rightarrow> (string \<times> SymbolLimit) list list \<Rightarrow> SymbolLimit list list option" where
  "initialize_symbollimits ht cfg =
     map_option (\<lambda>vs. vs @ replicate (VENUE_COUNT - length cfg) [])
       (initialize_symbollimits_from ht 0 cfg)"

definition zero_accountlimit :: AccountLimit where
  "zero_accountlimit =
     \<lparr>max_notional = 0, max_daily_loss = 0, max_unrealized_loss = 0, maker_fee_rate = 0,
      taker_fee_rate = 0, max_leverage = 0, acc_max_open_orders = 0\<rparr>"

definition initialize_accountlimits :: "AccountLimit list \<Rightarrow> AccountLimit list option" where
  "initialize_accountlimits cfg =
     (if length cfg \<le> VENUE_COUNT
      then Some (cfg @ replicate (VENUE_COUNT - length cfg) zero_accountlimit) else None)"

subsection \<open>Symbol lookup\<close>

lemma length_try_emplace: "length (try_emplace k v t) = length t + (if map_of t k = None then 1 else 0)"
  by (simp add: try_emplace_def)

lemma try_emplace_lookup: "map_of (try_emplace k v t) x = (case map_of t x of None \<Rightarrow> if x = k then Some v else None | Some w \<Rightarrow> Some w)"
  by (auto simp: try_emplace_def map_add_def split: option.split)

lemma fill_table_keeps: "map_of t x = Some w \<Longrightarrow> map_of (fill_table es t) x = Some w"
  by (induction es arbitrary: t) (auto simp: try_emplace_lookup split: option.split)

lemma length_fill_table: "length (fill_table es t) \<le> length t + length es"
proof (induction es arbitrary: t)
  case (Cons e es)
  show ?case
  proof (cases "fst e")
    case None
    then show ?thesis using Cons.IH [of t] by simp
  next
    case (Some s)
    then show ?thesis
      using Cons.IH [of "try_emplace (symbol_array s) (snd e) t"]
      by (simp add: length_try_emplace split: if_splits)
  qed
qed simp

lemma fill_table_complete:
  assumes "length (fill_table es t) = length t + length es" "(s, i) \<in> set es"
  shows "\<exists>nam. s = Some nam \<and> map_of (fill_table es t) (symbol_array nam) = Some i"
  using assms
proof (induction es arbitrary: t)
  case (Cons e es)
  obtain nam where nam: "fst e = Some nam"
    using Cons.prems(1) length_fill_table [of es t] by (cases "fst e") auto
  let ?t = "try_emplace (symbol_array nam) (snd e) t"
  have fresh: "map_of t (symbol_array nam) = None" and len: "length (fill_table es ?t) = length ?t + length es"
    using Cons.prems(1) length_fill_table [of es ?t] nam
    by (auto simp: length_try_emplace split: if_splits)
  show ?case
  proof (cases "(s, i) = e")
    case True
    have "map_of ?t (symbol_array nam) = Some (snd e)" using fresh by (simp add: try_emplace_lookup)
    then show ?thesis using True nam fill_table_keeps by fastforce
  next
    case False
    then show ?thesis using Cons.IH [OF len] Cons.prems(2) nam by auto
  qed
qed simp

lemma fill_table_None:
  "map_of t x = None \<Longrightarrow> x \<notin> symbol_array ` {nam. Some nam \<in> fst ` set es} \<Longrightarrow> map_of (fill_table es t) x = None"
proof (induction es arbitrary: t)
  case (Cons e es)
  show ?case
  proof (cases "fst e")
    case None
    then show ?thesis using Cons by force
  next
    case (Some nam)
    have "x \<noteq> symbol_array nam" and "x \<notin> symbol_array ` {nam. Some nam \<in> fst ` set es}"
      using Cons.prems(2) Some by force+
    with Cons Some show ?thesis by (simp add: try_emplace_lookup)
  qed
qed simp

lemma length_fill_table_iff:
  "length (fill_table es t) = length t + length es \<longleftrightarrow>
     None \<notin> fst ` set es \<and> distinct (map (map_option symbol_array \<circ> fst) es)
     \<and> (\<forall>nam. Some nam \<in> fst ` set es \<longrightarrow> map_of t (symbol_array nam) = None)"
proof (induction es arbitrary: t)
  case (Cons e es)
  show ?case
  proof (cases "fst e")
    case None
    then show ?thesis using length_fill_table [of es t] by auto
  next
    case (Some nam)
    let ?t = "try_emplace (symbol_array nam) (snd e) t"
    have "length (fill_table (e # es) t) = length t + length (e # es) \<longleftrightarrow>
        map_of t (symbol_array nam) = None \<and> length (fill_table es ?t) = length ?t + length es"
      using Some length_fill_table [of es ?t] by (auto simp: length_try_emplace split: if_splits)
    also have "\<dots> \<longleftrightarrow> map_of t (symbol_array nam) = None
        \<and> None \<notin> fst ` set es \<and> distinct (map (map_option symbol_array \<circ> fst) es)
        \<and> (\<forall>n. Some n \<in> fst ` set es \<longrightarrow> map_of ?t (symbol_array n) = None)"
      by (simp only: Cons.IH)
    also have "\<dots> \<longleftrightarrow> None \<notin> fst ` set (e # es) \<and> distinct (map (map_option symbol_array \<circ> fst) (e # es))
        \<and> (\<forall>n. Some n \<in> fst ` set (e # es) \<longrightarrow> map_of t (symbol_array n) = None)"
    proof -
      have em: "map_of ?t x = None \<longleftrightarrow> map_of t x = None \<and> x \<noteq> symbol_array nam" for x
        by (simp add: try_emplace_lookup split: option.split)
      have "Some (symbol_array nam) \<in> set (map (map_option symbol_array \<circ> fst) es) \<longleftrightarrow>
          (\<exists>n. Some n \<in> fst ` set es \<and> symbol_array n = symbol_array nam)"
        by (force simp: image_iff map_option_case split: option.splits)
      then show ?thesis using Some by (simp only: em) auto
    qed
    finally show ?thesis .
  qed
qed simp

lemma initialize_all_nth:
  assumes "initialize_all ts ht = Inr ht'"
  shows "hashtables ht' = hashtables ht @ map (\<lambda>t. fill_table t []) ts
    \<and> symbols_count_per_venue ht' = symbols_count_per_venue ht @ map length ts
    \<and> (\<forall>t \<in> set ts. length (fill_table t []) = length t)"
  using assms
proof (induction ts arbitrary: ht)
  case (Cons t ts)
  then obtain ht1 where "initialize t ht = Inr ht1" "initialize_all ts ht1 = Inr ht'"
    by (auto split: sum.splits)
  with Cons.IH show ?case by (force simp: initialize_def Let_def split: if_splits)
qed simp

lemma initialize_symbollimits_nth:
  assumes "initialize_symbollimits_from ht w cfg = Some vs"
  shows "length vs = length cfg \<and> (\<forall>v < length cfg.
    store_limits ht (w + v) (cfg ! v) (replicate (length (cfg ! v)) zero_symbollimit) = Some (vs ! v))"
  using assms
proof (induction cfg arbitrary: w vs)
  case (Cons c cfg)
  then obtain vec rest where "store_limits ht w c (replicate (length c) zero_symbollimit) = Some vec"
    "initialize_symbollimits_from ht (Suc w) cfg = Some rest" "vs = vec # rest"
    by (auto simp: bind_eq_Some_conv)
  with Cons.IH show ?case by (force simp: nth_Cons less_Suc_eq_0_disj split: nat.split)
qed simp

subsection \<open>Properties\<close>

text \<open>C38. When \<^verbatim>\<open>HashTables::initialize\<close> succeeds for the configured venues, \<open>getIndex\<close> answers for every
  configured symbol of a venue the index it was configured with, the marker \<^verbatim>\<open>UINT32_MAX\<close> for any
  other symbol, and \<open>get_symbol_count\<close> the number of symbols.\<close>

theorem initialize_getIndex:
  assumes "initialize_all ts ht = Inr ht'" "hashtables ht = []" "symbols_count_per_venue ht = []"
    and v: "v < length ts"
  shows "(\<forall>(s, i) \<in> set (ts ! v). \<exists>nam. s = Some nam \<and> getIndex ht' v (symbol_array nam) = Some i)
    \<and> (\<forall>x. x \<notin> symbol_array ` {nam. Some nam \<in> fst ` set (ts ! v)} \<longrightarrow> getIndex ht' v x = Some (- 1))
    \<and> get_symbol_count ht' v = Some (length (ts ! v))"
proof -
  have full: "length (fill_table (ts ! v) []) = length (ts ! v)"
    and tab: "nth_opt (hashtables ht') v = Some (fill_table (ts ! v) [])"
    and cnt: "nth_opt (symbols_count_per_venue ht') v = Some (length (ts ! v))"
    using initialize_all_nth [OF assms(1)] assms(2,3) v by (simp_all add: nth_opt_def)
  have "\<exists>nam. s = Some nam \<and> getIndex ht' v (symbol_array nam) = Some i" if "(s, i) \<in> set (ts ! v)" for s i
    using fill_table_complete [of "ts ! v" "[]" s i] full that by (auto simp: getIndex_def tab)
  moreover have "getIndex ht' v x = Some (- 1)"
    if "x \<notin> symbol_array ` {nam. Some nam \<in> fst ` set (ts ! v)}" for x
    using fill_table_None [of "[]" x "ts ! v"] that by (simp add: getIndex_def tab)
  ultimately show ?thesis using cnt by (auto simp: get_symbol_count_def)
qed

theorem initialize_getIndex_witness:
  "\<exists>ht'. initialize_all [[(Some ''GARAN'', 0)], [(Some ''AAPL'', 0), (Some ''MSFT'', 1)]]
      \<lparr>hashtables = [], symbols_count_per_venue = [], exec_id_hashes = {}\<rparr> = Inr ht'
    \<and> getIndex ht' 1 (symbol_array ''MSFT'') = Some 1"
proof -
  let ?ts = "[[(Some ''GARAN'', 0)], [(Some ''AAPL'', 0), (Some ''MSFT'', 1)]] :: (string option \<times> u32) list list"
  let ?ht = "\<lparr>hashtables = [], symbols_count_per_venue = [], exec_id_hashes = {}\<rparr>"
  obtain ht' where ht': "initialize_all ?ts ?ht = Inr ht'"
    by (simp add: initialize_def try_emplace_def symbol_array_def)
  then show ?thesis using initialize_getIndex [OF ht', of 1] by auto
qed

text \<open>\<^verbatim>\<open>HashTables::initialize\<close> raises its error exactly when a symbol of the table is missing or two
  symbols coincide after they are cut to 32 characters; otherwise it appends the table.\<close>

theorem initialize_error_iff:
  "initialize t ht = Inl IncompleteTable \<longleftrightarrow>
     \<not> (None \<notin> fst ` set t \<and> distinct (map (map_option symbol_array \<circ> fst) t))"
  using length_fill_table_iff [of t "[]"] by (auto simp: initialize_def Let_def)

lemma length_store_limits: "store_limits ht v es vec = Some vec' \<Longrightarrow> length vec' = length vec"
  by (induction es arbitrary: vec) (auto simp: bind_eq_Some_conv)

lemma store_limits_keeps:
  assumes "store_limits ht v es vec = Some vec'"
    and "\<forall>e \<in> set es. getIndex ht v (symbol_array (fst e)) \<noteq> Some i"
  shows "vec' ! unat i = vec ! unat i"
  using assms
proof (induction es arbitrary: vec)
  case (Cons e es)
  obtain j where j: "getIndex ht v (symbol_array (fst e)) = Some j"
    and run: "store_limits ht v es (vec[unat j := snd e]) = Some vec'"
    using Cons.prems(1) by (auto simp: bind_eq_Some_conv)
  have "unat j \<noteq> unat i" using Cons.prems(2) j by (auto dest: word_unat_eq_iff [THEN iffD2])
  with Cons.IH [OF run] Cons.prems(2) show ?case by simp
qed simp

lemma store_limits_stores:
  assumes "store_limits ht v es vec = Some vec'" "e \<in> set es"
    and "distinct (map (\<lambda>e. getIndex ht v (symbol_array (fst e))) es)"
    and "getIndex ht v (symbol_array (fst e)) = Some i"
  shows "unat i < length vec' \<and> vec' ! unat i = snd e"
  using assms
proof (induction es arbitrary: vec)
  case (Cons d es)
  obtain j where j: "getIndex ht v (symbol_array (fst d)) = Some j" "unat j < length vec"
    and run: "store_limits ht v es (vec[unat j := snd d]) = Some vec'"
    using Cons.prems(1) by (auto simp: bind_eq_Some_conv guard_def split: if_splits)
  show ?case
  proof (cases "e = d")
    case True
    have "\<forall>e' \<in> set es. getIndex ht v (symbol_array (fst e')) \<noteq> Some i"
      using Cons.prems(3,4) True by (force simp: image_iff)
    from store_limits_keeps [OF run this] show ?thesis
      using j Cons.prems(4) True length_store_limits [OF run] by simp
  next
    case False
    then show ?thesis using Cons.IH [OF run] Cons.prems by simp
  qed
qed simp
text \<open>When every symbol of a venue's limit configuration has its own index, initialising the limits
  stores each configured limit at that index, where \<open>getSymbolLimit\<close> finds it.\<close>

theorem limits_stored:
  assumes "initialize_symbollimits ht cfg = Some vs" "v < length cfg" "(nam, l) \<in> set (cfg ! v)"
    and "distinct (map (\<lambda>e. getIndex ht v (symbol_array (fst e))) (cfg ! v))"
    and "getIndex ht v (symbol_array nam) = Some i"
  shows "getSymbolLimit \<lparr>symbol_limits = vs, account_limits = als\<rparr> v i = Some l"
proof -
  have "v < length vs \<and> store_limits ht v (cfg ! v) (replicate (length (cfg ! v)) zero_symbollimit) = Some (vs ! v)"
    using initialize_symbollimits_nth [of ht 0 cfg] assms(1,2)
    by (fastforce simp: initialize_symbollimits_def nth_append)
  then show ?thesis
    using store_limits_stores [OF _ assms(3,4), of _ "vs ! v" i] assms(5)
    by (auto simp: getSymbolLimit_def nth_opt_def)
qed

theorem limits_stored_witness:
  "\<exists>vs. initialize_symbollimits \<lparr>hashtables = [[(symbol_array ''GARAN'', 0)]], symbols_count_per_venue = [1],
        exec_id_hashes = {}\<rparr> [[(''GARAN'', zero_symbollimit\<lparr>max_qty := 9\<rparr>)]] = Some vs
    \<and> getSymbolLimit \<lparr>symbol_limits = vs, account_limits = []\<rparr> 0 0 = Some (zero_symbollimit\<lparr>max_qty := 9\<rparr>)"
proof -
  let ?ht = "\<lparr>hashtables = [[(symbol_array ''GARAN'', 0)]], symbols_count_per_venue = [1], exec_id_hashes = {}\<rparr>"
  let ?cfg = "[[(''GARAN'', zero_symbollimit\<lparr>max_qty := 9\<rparr>)]]"
  have idx: "getIndex ?ht 0 (symbol_array ''GARAN'') = Some 0" by (simp add: getIndex_def nth_opt_def)
  obtain vs where vs: "initialize_symbollimits ?ht ?cfg = Some vs"
    by (simp add: initialize_symbollimits_def VENUE_COUNT_def guard_def getIndex_def nth_opt_def)
  show ?thesis using limits_stored [OF vs, of 0 "''GARAN''" _ 0 "[]"] vs idx by simp
qed

end
