(* ===== verification/Messages.thy ===== *)
theory Messages
  imports Order_Types
begin

text \<open>
  The parsed exchange messages: the structures of src/generated/GeneratedITCHMessages_BIST.h,
  GeneratedITCHMessages_NASDAQ.h, GeneratedOUCHMessages_BIST.h, GeneratedOUCHMessages_NASDAQ.h
  (receive side), the FIX message structures of src/src/protocol/types/FIX/FIXMessage.h and the
  variants over them (src/src/protocol/types, src/src/core/MessageWithVenue.h).  Field names carry
  a prefix made of the venue, the protocol and the message letter; a \<^verbatim>\<open>char[n]\<close> is a string.
  The pipeline passes pointers to pooled messages that are read-only once parsed, so a message is
  its value.
\<close>

record BIST_ITCHSecondsMessage =
  biT_second :: u32
  biT_message_type :: char

record BIST_ITCHOrderBookDirectoryMessage =
  biR_nominal_value :: u64
  biR_timestamp_ns :: u32
  biR_order_book_id :: u32
  biR_odd_lot_size :: u32
  biR_round_lot_size :: u32
  biR_block_lot_size :: u32
  biR_underlying_order_book_id :: u32
  biR_strike_price :: i32
  biR_expiration_date :: u32
  biR_decimals_in_price :: u16
  biR_decimals_in_nominal :: u16
  biR_decimals_in_strike_price :: u16
  biR_financial_product :: u8
  biR_number_of_legs :: u8
  biR_put_or_call :: u8
  biR_ranking_type :: u8
  biR_message_type :: char
  biR_isin :: string
  biR_symbol :: string
  biR_long_name :: string
  biR_trading_currency :: string

record BIST_ITCHCombinationOrderBookLegMessage =
  biM_timestamp_ns :: u32
  biM_combination_order_book_id :: u32
  biM_leg_order_book_id :: u32
  biM_leg_ratio :: u32
  biM_message_type :: char
  biM_leg_side :: char

record BIST_ITCHTickSizeTableEntryMessage =
  biL_tick_size :: u64
  biL_timestamp_ns :: u32
  biL_order_book_id :: u32
  biL_price_from :: i32
  biL_price_to :: i32
  biL_message_type :: char

record BIST_ITCHShortSellStatusMessage =
  biV_timestamp_ns :: u32
  biV_order_book_id :: u32
  biV_short_sale_restriction :: u8
  biV_message_type :: char

record BIST_ITCHSystemEventMessage =
  biS_timestamp_ns :: u32
  biS_message_type :: char
  biS_event_code :: char

record BIST_ITCHOrderBookStateMessage =
  biO_timestamp_ns :: u32
  biO_order_book_id :: u32
  biO_message_type :: char
  biO_state_name :: string

record BIST_ITCHAddOrderMessage =
  biA_order_id :: u64
  biA_quantity :: u64
  biA_ranking_time :: u64
  biA_timestamp_ns :: u32
  biA_order_book_id :: u32
  biA_ranking_seq_number :: u32
  biA_price :: i32
  biA_order_attributes :: u16
  biA_lot_type :: u8
  biA_message_type :: char
  biA_side :: char

record BIST_ITCHOrderExecutedMessage =
  biE_order_id :: u64
  biE_executed_quantity :: u64
  biE_match_id :: u64
  biE_timestamp_ns :: u32
  biE_order_book_id :: u32
  biE_combo_group_id :: u32
  biE_message_type :: char
  biE_side :: char
  biE_reserved1 :: string
  biE_reserved2 :: string

record BIST_ITCHOrderExecutedWithPriceMessage =
  biC_order_id :: u64
  biC_executed_quantity :: u64
  biC_match_id :: u64
  biC_timestamp_ns :: u32
  biC_order_book_id :: u32
  biC_combo_group_id :: u32
  biC_trade_price :: i32
  biC_message_type :: char
  biC_side :: char
  biC_reserved1 :: string
  biC_reserved2 :: string
  biC_occurred_at_cross :: char
  biC_printable :: char

record BIST_ITCHOrderDeleteMessage =
  biD_order_id :: u64
  biD_timestamp_ns :: u32
  biD_order_book_id :: u32
  biD_message_type :: char
  biD_side :: char

record BIST_ITCHOrderBookFlushMessage =
  biY_timestamp_ns :: u32
  biY_order_book_id :: u32
  biY_message_type :: char

record BIST_ITCHTradeMessage =
  biP_match_id :: u64
  biP_quantity :: u64
  biP_timestamp_ns :: u32
  biP_combo_group_id :: u32
  biP_order_book_id :: u32
  biP_trade_price :: i32
  biP_message_type :: char
  biP_side :: char
  biP_reserved1 :: string
  biP_reserved2 :: string
  biP_printable :: char
  biP_occurred_at_cross :: char
  biP_order_id :: u8

record BIST_ITCHEquilibriumPriceUpdateMessage =
  biZ_available_bid_quantity :: u64
  biZ_available_ask_quantity :: u64
  biZ_best_bid_quantity :: u64
  biZ_best_ask_quantity :: u64
  biZ_timestamp_ns :: u32
  biZ_order_book_id :: u32
  biZ_equilibrium_price :: i32
  biZ_best_bid_price :: i32
  biZ_best_ask_price :: i32
  biZ_message_type :: char

record NASDAQ_ITCHAddOrderMessage =
  niA_timestamp :: u64
  niA_order_ref :: u64
  niA_shares :: u32
  niA_price :: u32
  niA_stock_locate :: u16
  niA_tracking_number :: u16
  niA_message_type :: char
  niA_side :: char
  niA_stock :: string

record NASDAQ_ITCHAddOrderMPIDMessage =
  niF_timestamp :: u64
  niF_order_ref :: u64
  niF_shares :: u32
  niF_price :: u32
  niF_stock_locate :: u16
  niF_tracking_number :: u16
  niF_message_type :: char
  niF_side :: char
  niF_stock :: string
  niF_mpid :: string

record NASDAQ_ITCHCancelMessage =
  niX_timestamp :: u64
  niX_order_ref :: u64
  niX_cancelled_shares :: u32
  niX_stock_locate :: u16
  niX_tracking_number :: u16
  niX_message_type :: char

record NASDAQ_ITCHExecutedMessage =
  niE_timestamp :: u64
  niE_order_ref :: u64
  niE_match_number :: u64
  niE_executed_shares :: u32
  niE_stock_locate :: u16
  niE_tracking_number :: u16
  niE_message_type :: char

record NASDAQ_ITCHExecutedWithPriceMessage =
  niC_timestamp :: u64
  niC_order_ref :: u64
  niC_match_number :: u64
  niC_executed_shares :: u32
  niC_execution_price :: u32
  niC_stock_locate :: u16
  niC_tracking_number :: u16
  niC_message_type :: char
  niC_printable :: char

record NASDAQ_ITCHDeleteMessage =
  niD_timestamp :: u64
  niD_order_ref :: u64
  niD_stock_locate :: u16
  niD_tracking_number :: u16
  niD_message_type :: char

record NASDAQ_ITCHReplaceMessage =
  niU_timestamp :: u64
  niU_order_ref :: u64
  niU_new_order_ref :: u64
  niU_shares :: u32
  niU_price :: u32
  niU_stock_locate :: u16
  niU_tracking_number :: u16
  niU_message_type :: char

record NASDAQ_ITCHTradeMessage =
  niP_timestamp :: u64
  niP_order_ref :: u64
  niP_match_number :: u64
  niP_shares :: u32
  niP_price :: u32
  niP_stock_locate :: u16
  niP_tracking_number :: u16
  niP_message_type :: char
  niP_side :: char
  niP_cross_type :: char

record NASDAQ_ITCHSystemEventMessage =
  niS_timestamp :: u64
  niS_stock_locate :: u16
  niS_tracking_number :: u16
  niS_message_type :: char
  niS_event_code :: char

record NASDAQ_ITCHStockDirectoryMessage =
  niR_timestamp :: u64
  niR_round_lot_size :: u32
  niR_etp_leverage_factor :: u32
  niR_stock_locate :: u16
  niR_tracking_number :: u16
  niR_message_type :: char
  niR_stock :: string
  niR_market_category :: char
  niR_financial_status_indicator :: char
  niR_round_lots_only :: char
  niR_issue_classification :: char
  niR_issue_sub_type :: string
  niR_authenticity :: char
  niR_short_sale_threshold_indicator :: char
  niR_ipo_flag :: char
  niR_luld_reference_price_tier :: char
  niR_etp_flag :: char
  niR_inverse_indicator :: char

record NASDAQ_ITCHTradingStateMessage =
  niH_timestamp :: u64
  niH_stock_locate :: u16
  niH_tracking_number :: u16
  niH_message_type :: char
  niH_stock :: string
  niH_trading_state :: char
  niH_reserved :: char
  niH_reason :: string

record BIST_OUCHOrderAcceptedMessage =
  boA_timestamp :: u64
  boA_order_id :: u64
  boA_quantity :: u64
  boA_pre_trade_qty :: u64
  boA_display_qty :: u64
  boA_order_book_id :: u32
  boA_price :: i32
  boA_message_type :: char
  boA_order_token :: string
  boA_side :: char
  boA_time_in_force :: u8
  boA_client_account :: string
  boA_customer_info :: string
  boA_exchange_info :: string
  boA_open_close :: u8
  boA_order_state :: u8
  boA_client_category :: u8
  boA_offhours :: u8
  boA_smp_level :: u8
  boA_smp_method :: u8
  boA_smp_ID :: string

record BIST_OUCHOrderRejectedMessage =
  boJ_timestamp :: u64
  boJ_reject_code :: i32
  boJ_message_type :: char
  boJ_order_token :: string

record BIST_OUCHOrderReplacedMessage =
  boU_timestamp :: u64
  boU_order_id :: u64
  boU_quantity :: u64
  boU_pre_trade_qty :: u64
  boU_order_book_id :: u32
  boU_price :: i32
  boU_message_type :: char
  boU_previous_order_token :: string
  boU_side :: char
  boU_time_in_force :: u8
  boU_open_close :: u8
  boU_order_state :: u8
  boU_client_category :: u8
  boU_order_token :: string
  boU_exchange_info :: string
  boU_client_account :: string
  boU_customer_info :: string
  boU_display_qty :: u64

record BIST_OUCHOrderCancelledMessage =
  boC_timestamp :: u64
  boC_order_id :: u64
  boC_order_book_id :: u32
  boC_message_type :: char
  boC_order_token :: string
  boC_side :: char
  boC_reason :: u8

record BIST_OUCHOrderExecutedMessage =
  boE_timestamp :: u64
  boE_traded_quantity :: u64
  boE_order_book_id :: u32
  boE_trade_price :: i32
  boE_message_type :: char
  boE_order_token :: string
  boE_match_id :: string
  boE_client_category :: u8
  boE_reserved :: string

record NASDAQ_OUCHSystemEventMessage =
  noS_timestamp :: u64
  noS_message_type :: char
  noS_event_code :: char

record NASDAQ_OUCHOrderAcceptedMessage =
  noA_timestamp :: u64
  noA_price :: u64
  noA_order_reference_number :: u64
  noA_user_ref_num :: u32
  noA_quantity :: u32
  noA_appendage_length :: u16
  noA_message_type :: char
  noA_side :: char
  noA_symbol :: string
  noA_time_in_force :: char
  noA_display :: char
  noA_capacity :: char
  noA_intermarket_sweep_eligibility :: char
  noA_cross_type :: char
  noA_order_state :: char
  noA_cl_ord_id :: string

record NASDAQ_OUCHOrderReplacedMessage =
  noU_timestamp :: u64
  noU_price :: u64
  noU_order_reference_number :: u64
  noU_orig_user_ref_num :: u32
  noU_user_ref_num :: u32
  noU_quantity :: u32
  noU_appendage_length :: u16
  noU_message_type :: char
  noU_side :: char
  noU_symbol :: string
  noU_time_in_force :: char
  noU_order_state :: char
  noU_cl_ord_id :: string
  noU_display :: char
  noU_capacity :: char
  noU_intermarket_sweep_eligibility :: char
  noU_cross_type :: char

record NASDAQ_OUCHOrderCancelledMessage =
  noC_timestamp :: u64
  noC_user_ref_num :: u32
  noC_quantity :: u32
  noC_appendage_length :: u16
  noC_message_type :: char
  noC_reason :: char

record NASDAQ_OUCHOrderExecutedMessage =
  noE_timestamp :: u64
  noE_price :: u64
  noE_match_number :: u64
  noE_user_ref_num :: u32
  noE_quantity :: u32
  noE_appendage_length :: u16
  noE_message_type :: char
  noE_liquidity_flag :: char

record NASDAQ_OUCHOrderRejectedMessage =
  noJ_timestamp :: u64
  noJ_user_ref_num :: u32
  noJ_reason :: u16
  noJ_appendage_length :: u16
  noJ_message_type :: char
  noJ_cl_ord_id :: string

record NASDAQ_OUCHBrokenTradeMessage =
  noB_timestamp :: u64
  noB_match_number :: u64
  noB_user_ref_num :: u32
  noB_appendage_length :: u16
  noB_message_type :: char
  noB_reason :: char
  noB_cl_ord_id :: string

record NASDAQ_OUCHOrderModifiedMessage =
  noM_timestamp :: u64
  noM_user_ref_num :: u32
  noM_quantity :: u32
  noM_appendage_length :: u16
  noM_message_type :: char
  noM_side :: char

record NASDAQ_OUCHCancelPendingMessage =
  noP_timestamp :: u64
  noP_user_ref_num :: u32
  noP_appendage_length :: u16
  noP_message_type :: char

record NASDAQ_OUCHCancelRejectMessage =
  noI_timestamp :: u64
  noI_user_ref_num :: u32
  noI_appendage_length :: u16
  noI_message_type :: char

record NASDAQ_OUCHAccountQueryResponse =
  noQ_timestamp :: u64
  noQ_next_user_ref_num :: u32
  noQ_appendage_length :: u16
  noQ_message_type :: char

record FIXMessage =
  fx_price :: i64
  fx_last_price :: i64
  fx_quantity :: u32
  fx_leaves_qty :: u32
  fx_last_qty :: u32
  fx_filled_qty :: u32
  fx_transact_time :: u32
  fx_instrument_id :: u32
  fx_seqnum :: u32
  fx_msg_type :: u8
  fx_side :: u8
  fx_ord_status :: u8
  fx_exec_type :: u8
  fx_ord_type :: u8
  fx_time_in_force :: u8
  fx_cxl_rej_response_to :: u8
  fx_cxl_rej_reason :: u8
  fx_symbol :: string
  fx_order_id :: string
  fx_cl_ord_id :: string
  fx_exec_id :: string
  fx_orig_cl_ord_id :: string

record FIXSessionMessage =
  fs_seqnum :: u32
  fs_interval :: u32
  fs_ses_status :: u32
  fs_new_seqnum :: u32
  fs_begin_seqnum :: u32
  fs_end_seqnum :: u32
  fs_ref_seqnum :: u32
  fs_test_req_id :: u32
  fs_sending_time :: u32
  fs_org_sending_time :: u32
  fs_gap_fill_flag :: u8
  fs_reject_reason :: u8
  fs_msg_type :: u8
  fs_possDubFlag :: u8
  fs_reset_seqnum_flag :: u8
  fs_text :: string

datatype BIST_ITCHMessage =
    B_ITCHSeconds BIST_ITCHSecondsMessage
  | B_ITCHOrderBookDirectory BIST_ITCHOrderBookDirectoryMessage
  | B_ITCHCombinationOrderBookLeg BIST_ITCHCombinationOrderBookLegMessage
  | B_ITCHTickSizeTableEntry BIST_ITCHTickSizeTableEntryMessage
  | B_ITCHShortSellStatus BIST_ITCHShortSellStatusMessage
  | B_ITCHSystemEvent BIST_ITCHSystemEventMessage
  | B_ITCHOrderBookState BIST_ITCHOrderBookStateMessage
  | B_ITCHAddOrder BIST_ITCHAddOrderMessage
  | B_ITCHOrderExecuted BIST_ITCHOrderExecutedMessage
  | B_ITCHOrderExecutedWithPrice BIST_ITCHOrderExecutedWithPriceMessage
  | B_ITCHOrderDelete BIST_ITCHOrderDeleteMessage
  | B_ITCHOrderBookFlush BIST_ITCHOrderBookFlushMessage
  | B_ITCHTrade BIST_ITCHTradeMessage
  | B_ITCHEquilibriumPriceUpdate BIST_ITCHEquilibriumPriceUpdateMessage

datatype NASDAQ_ITCHMessage =
    N_ITCHAddOrder NASDAQ_ITCHAddOrderMessage
  | N_ITCHAddOrderMPID NASDAQ_ITCHAddOrderMPIDMessage
  | N_ITCHCancel NASDAQ_ITCHCancelMessage
  | N_ITCHExecuted NASDAQ_ITCHExecutedMessage
  | N_ITCHExecutedWithPrice NASDAQ_ITCHExecutedWithPriceMessage
  | N_ITCHDelete NASDAQ_ITCHDeleteMessage
  | N_ITCHReplace NASDAQ_ITCHReplaceMessage
  | N_ITCHTrade NASDAQ_ITCHTradeMessage
  | N_ITCHSystemEvent NASDAQ_ITCHSystemEventMessage
  | N_ITCHStockDirectory NASDAQ_ITCHStockDirectoryMessage
  | N_ITCHTradingState NASDAQ_ITCHTradingStateMessage

datatype BIST_OUCHMessage =
    B_OUCHOrderAccepted BIST_OUCHOrderAcceptedMessage
  | B_OUCHOrderRejected BIST_OUCHOrderRejectedMessage
  | B_OUCHOrderReplaced BIST_OUCHOrderReplacedMessage
  | B_OUCHOrderCancelled BIST_OUCHOrderCancelledMessage
  | B_OUCHOrderExecuted BIST_OUCHOrderExecutedMessage

datatype NASDAQ_OUCHMessage =
    N_OUCHSystemEvent NASDAQ_OUCHSystemEventMessage
  | N_OUCHOrderAccepted NASDAQ_OUCHOrderAcceptedMessage
  | N_OUCHOrderReplaced NASDAQ_OUCHOrderReplacedMessage
  | N_OUCHOrderCancelled NASDAQ_OUCHOrderCancelledMessage
  | N_OUCHOrderExecuted NASDAQ_OUCHOrderExecutedMessage
  | N_OUCHOrderRejected NASDAQ_OUCHOrderRejectedMessage
  | N_OUCHBrokenTrade NASDAQ_OUCHBrokenTradeMessage
  | N_OUCHOrderModified NASDAQ_OUCHOrderModifiedMessage
  | N_OUCHCancelPending NASDAQ_OUCHCancelPendingMessage
  | N_OUCHCancelReject NASDAQ_OUCHCancelRejectMessage
  | N_OUCHAccountQueryResponse NASDAQ_OUCHAccountQueryResponse

text \<open>\<^verbatim>\<open>MessageTypes_t\<close> and \<^verbatim>\<open>MessageWithVenue<MessageTypes_t>\<close>.\<close>

datatype MessageTypes =
    M_FIX FIXMessage
  | M_FIXSession FIXSessionMessage
  | M_BIST_ITCH BIST_ITCHMessage
  | M_NASDAQ_ITCH NASDAQ_ITCHMessage
  | M_BIST_OUCH BIST_OUCHMessage
  | M_NASDAQ_OUCH NASDAQ_OUCHMessage

record MessageWithVenue =
  mwv_msg :: MessageTypes
  mwv_venue :: Venue

text \<open>The bytes of the wire characters.\<close>

definition u8_of_char :: "char \<Rightarrow> u8" where
  "u8_of_char c = of_char c"

end
