(* ===== verification/Instruments.thy ===== *)
theory Instruments
  imports Messages
begin

text \<open>
  The instrument and venue metadata the order manager keeps (src/src/order_management/OrderManager.h
  and OrderManager.cpp: \<^verbatim>\<open>TickSizeEntry\<close>, \<^verbatim>\<open>SymbolMeta\<close>, \<^verbatim>\<open>VenueFlags\<close>, the metadata and system-event
  handlers).  Tick-size entries live in a pool and are named by their slot; \<open>cache\<close> holds one map
  from instrument id to metadata per venue.
\<close>

record TickSizeEntry =
  price_from :: i64
  price_to :: i64
  tick_size :: u64

record SymbolMeta =
  meta_instrument_id :: u32
  round_lot_size :: u32
  tick_size_table :: "nat option list"
  meta_symbol :: string
  halted :: bool
  flushed :: bool

record Instruments =
  tick_size_entry_pool :: "nat \<Rightarrow> TickSizeEntry"
  tick_size_bist_next_slot :: u64
  tick_size_nasdaq_next_slot :: u64
  instrument_cache :: "nat \<Rightarrow> u32 \<rightharpoonup> SymbolMeta"
  venue_flags :: "nat \<Rightarrow> u8"
  sympack_symid :: "u64 \<rightharpoonup> u32"

definition TICKSIZE_POOL_CAPACITY :: nat where "TICKSIZE_POOL_CAPACITY = 65536"

definition TICKSIZE_CAPACITY_FOR_BIST :: u64 where "TICKSIZE_CAPACITY_FOR_BIST = 32768"

definition HALTED :: u8 where "HALTED = 1"

definition C_BREAKER :: u8 where "C_BREAKER = 2"

definition empty_instruments :: Instruments where
  "empty_instruments =
     \<lparr>tick_size_entry_pool = (\<lambda>_. \<lparr>price_from = 0, price_to = 0, tick_size = 0\<rparr>),
      tick_size_bist_next_slot = 0, tick_size_nasdaq_next_slot = 32768,
      instrument_cache = (\<lambda>_. Map.empty), venue_flags = (\<lambda>_. 0), sympack_symid = Map.empty\<rparr>"

text \<open>The length scan shared by the \<^verbatim>\<open>SymbolMeta\<close> constructor and \<^verbatim>\<open>copy_symbol\<close>: up to the
  first NUL or space, at most \<open>n\<close> characters.  Reading past the source array is undefined.\<close>

fun scan_symbol :: "nat \<Rightarrow> string \<Rightarrow> string option" where
  "scan_symbol 0 s = Some []"
| "scan_symbol (Suc n) [] = None"
| "scan_symbol (Suc n) (c # s) =
     (if c = CHR 0x00 \<or> c = CHR '' '' then Some [] else map_option (Cons c) (scan_symbol n s))"

definition pad_to :: "nat \<Rightarrow> string \<Rightarrow> string" where
  "pad_to n s = s @ replicate (n - length s) (CHR 0x00)"

definition mk_symbolmeta :: "u32 \<Rightarrow> u32 \<Rightarrow> string \<Rightarrow> SymbolMeta option" where
  "mk_symbolmeta id0 lot nam = do {
     s \<leftarrow> scan_symbol SYMBOL_SIZE nam;
     Some \<lparr>meta_instrument_id = id0, round_lot_size = lot, tick_size_table = replicate 5 None,
           meta_symbol = pad_to SYMBOL_SIZE s, halted = False, flushed = False\<rparr> }"

definition copy_symbol :: "string \<Rightarrow> string option" where
  "copy_symbol src = map_option (pad_to SYMBOL_SIZE) (scan_symbol SYMBOL_SIZE src)"

text \<open>\<^verbatim>\<open>memcpy\<close> of the first eight bytes of a symbol into a 64-bit word (little endian).\<close>

primrec le_bytes :: "string \<Rightarrow> u64" where
  "le_bytes [] = 0"
| "le_bytes (c # s) = ucast (u8_of_char c) OR push_bit 8 (le_bytes s)"

definition symbol_pack :: "string \<Rightarrow> u64 option" where
  "symbol_pack s = (if 8 \<le> length s then Some (le_bytes (take 8 s)) else None)"

text \<open>\<^verbatim>\<open>emplace\<close> of a hash map: an existing entry is kept.\<close>

definition emplace_new :: "'k \<Rightarrow> 'v \<Rightarrow> ('k \<rightharpoonup> 'v) \<Rightarrow> ('k \<rightharpoonup> 'v)" where
  "emplace_new k v m = (if m k = None then m(k \<mapsto> v) else m)"

definition upd_meta :: "Venue \<Rightarrow> u32 \<Rightarrow> SymbolMeta \<Rightarrow> Instruments \<Rightarrow> Instruments" where
  "upd_meta v i sm ins =
     ins\<lparr>instrument_cache := (instrument_cache ins)
           (venue_index v := (instrument_cache ins (venue_index v))(i \<mapsto> sm))\<rparr>"

definition get_symbolmeta :: "Instruments \<Rightarrow> Venue \<Rightarrow> u32 \<Rightarrow> SymbolMeta option option" where
  "get_symbolmeta ins v i =
     (if venue_index v < VENUE_COUNT then Some (instrument_cache ins (venue_index v) i) else None)"

definition get_venue_flags :: "Instruments \<Rightarrow> Venue \<Rightarrow> u8 option" where
  "get_venue_flags ins v =
     (if venue_index v < VENUE_COUNT then Some (venue_flags ins (venue_index v)) else None)"

text \<open>\<open>define_instrument\<close> is the common part of the two directory handlers: the packed symbol
  and the metadata are recorded unless they are there already.\<close>

definition define_instrument :: "Venue \<Rightarrow> u32 \<Rightarrow> u32 \<Rightarrow> string \<Rightarrow> Instruments \<Rightarrow> Instruments option" where
  "define_instrument v id0 lot nam ins = do {
     pack \<leftarrow> symbol_pack nam;
     sm \<leftarrow> mk_symbolmeta id0 lot nam;
     let vi = venue_index v;
     Some (ins\<lparr>sympack_symid := emplace_new pack id0 (sympack_symid ins),
               instrument_cache := (instrument_cache ins)
                 (vi := emplace_new id0 sm (instrument_cache ins vi))\<rparr>) }"

text \<open>Writing the fields of a tick-size entry through its pool pointer.\<close>

definition set_tick_entry :: "nat \<Rightarrow> i64 \<Rightarrow> i64 \<Rightarrow> u64 \<Rightarrow> Instruments \<Rightarrow> Instruments" where
  "set_tick_entry p pf pt ts ins =
     ins\<lparr>tick_size_entry_pool := (tick_size_entry_pool ins)
           (p := \<lparr>price_from = pf, price_to = pt, tick_size = ts\<rparr>)\<rparr>"

primrec fill_first_null :: "nat \<Rightarrow> nat option list \<Rightarrow> nat option list" where
  "fill_first_null p [] = []"
| "fill_first_null p (e # es) = (case e of None \<Rightarrow> Some p # es | Some _ \<Rightarrow> e # fill_first_null p es)"

text \<open>The NASDAQ variant of \<open>handle_tick_size_definition\<close>: its pool index is not masked, so the
  pool can be overrun.\<close>

definition handle_tick_size_nasdaq ::
  "u32 \<Rightarrow> i64 \<Rightarrow> i64 \<Rightarrow> u64 \<Rightarrow> Instruments \<Rightarrow> Instruments option" where
  "handle_tick_size_nasdaq i pf pt ts ins = do {
     sm \<leftarrow> instrument_cache ins (venue_index NASDAQ) i;
     let p = unat (tick_size_nasdaq_next_slot ins);
     _ \<leftarrow> guard (p < TICKSIZE_POOL_CAPACITY);
     let ins1 = set_tick_entry p pf pt ts
                  (ins\<lparr>tick_size_nasdaq_next_slot := tick_size_nasdaq_next_slot ins + 1\<rparr>);
     Some (upd_meta NASDAQ i (sm\<lparr>tick_size_table := fill_first_null p (tick_size_table sm)\<rparr>) ins1) }"

definition nasdaq_tick_size_ranges :: "(i64 \<times> i64 \<times> u64) list" where
  "nasdaq_tick_size_ranges =
     [(0, 199999, 1), (200000, 999999, 5), (1000000, 4999999, 10), (5000000, 9999999, 50),
      (10000000, 9223372036854775807, 100)]"

primrec nasdaq_ticks :: "u32 \<Rightarrow> (i64 \<times> i64 \<times> u64) list \<Rightarrow> Instruments \<Rightarrow> Instruments option" where
  "nasdaq_ticks i [] ins = Some ins"
| "nasdaq_ticks i (r # rs) ins =
     (case r of (pf, pt, ts) \<Rightarrow> Option.bind (handle_tick_size_nasdaq i pf pt ts ins) (nasdaq_ticks i rs))"

definition handle_instrument_definition_bist ::
  "BIST_ITCHOrderBookDirectoryMessage \<Rightarrow> Instruments \<Rightarrow> Instruments option" where
  "handle_instrument_definition_bist msg ins =
     define_instrument BIST (biR_order_book_id msg) (biR_round_lot_size msg) (biR_symbol msg) ins"

definition handle_instrument_definition_nasdaq ::
  "NASDAQ_ITCHStockDirectoryMessage \<Rightarrow> Instruments \<Rightarrow> Instruments option" where
  "handle_instrument_definition_nasdaq msg ins = do {
     let i = ucast (niR_stock_locate msg);
     ins1 \<leftarrow> define_instrument NASDAQ i (niR_round_lot_size msg) (niR_stock msg) ins;
     nasdaq_ticks i nasdaq_tick_size_ranges ins1 }"

text \<open>The BIST variant: reuse the entry with the same price range, else take the first free
  table slot, else overwrite slot 0.\<close>

fun bist_tick_loop ::
  "nat \<Rightarrow> i64 \<Rightarrow> i64 \<Rightarrow> u64 \<Rightarrow> nat option list \<Rightarrow> nat option list \<Rightarrow> (nat \<Rightarrow> TickSizeEntry) \<Rightarrow>
   (nat option list \<times> (nat \<Rightarrow> TickSizeEntry)) option" where
  "bist_tick_loop p pf pt ts done [] pool = None"
| "bist_tick_loop p pf pt ts done (None # es) pool = Some (done @ Some p # es, pool)"
| "bist_tick_loop p pf pt ts done (Some q # es) pool =
     (if price_from (pool q) = pf \<and> price_to (pool q) = pt
      then Some (done @ Some q # es, pool(q := \<lparr>price_from = pf, price_to = pt, tick_size = ts\<rparr>))
      else bist_tick_loop p pf pt ts (done @ [Some q]) es pool)"

definition handle_tick_size_bist ::
  "BIST_ITCHTickSizeTableEntryMessage \<Rightarrow> Instruments \<Rightarrow> Instruments option" where
  "handle_tick_size_bist msg ins = do {
     sm \<leftarrow> instrument_cache ins (venue_index BIST) (biL_order_book_id msg);
     let p = unat (tick_size_bist_next_slot ins AND (TICKSIZE_CAPACITY_FOR_BIST - 1));
     let pf = i64_of_i32 (biL_price_from msg);
     let pt = i64_of_i32 (biL_price_to msg);
     let ts = biL_tick_size msg;
     let ins1 = set_tick_entry p pf pt ts
                  (ins\<lparr>tick_size_bist_next_slot := tick_size_bist_next_slot ins + 1\<rparr>);
     Some (case bist_tick_loop p pf pt ts [] (tick_size_table sm) (tick_size_entry_pool ins1) of
             Some (tbl, pool) \<Rightarrow>
               upd_meta BIST (biL_order_book_id msg) (sm\<lparr>tick_size_table := tbl\<rparr>)
                 (ins1\<lparr>tick_size_entry_pool := pool\<rparr>)
           | None \<Rightarrow>
               upd_meta BIST (biL_order_book_id msg)
                 (sm\<lparr>tick_size_table := (tick_size_table sm)[0 := Some p]\<rparr>) ins1) }"

definition update_venue_halt_status :: "Venue \<Rightarrow> u8 \<Rightarrow> u8 \<Rightarrow> Instruments \<Rightarrow> Instruments option" where
  "update_venue_halt_status v hlt circuit_breaker ins =
     (if venue_index v < VENUE_COUNT
      then Some (ins\<lparr>venue_flags := (venue_flags ins)
                  (venue_index v := (venue_flags ins (venue_index v) OR hlt) OR circuit_breaker)\<rparr>)
      else None)"

text \<open>\<^verbatim>\<open>operator[]\<close> on an unknown instrument creates a null pointer that is then dereferenced.\<close>

definition update_symbol_halt_status :: "u64 \<Rightarrow> Venue \<Rightarrow> bool \<Rightarrow> Instruments \<Rightarrow> Instruments option" where
  "update_symbol_halt_status i v hlt ins = do {
     sm \<leftarrow> Option.bind (get_symbolmeta ins v (ucast i)) id;
     Some (upd_meta v (ucast i) (sm\<lparr>halted := hlt\<rparr>) ins) }"

definition update_symbol_flush_status :: "u64 \<Rightarrow> Venue \<Rightarrow> bool \<Rightarrow> Instruments \<Rightarrow> Instruments option" where
  "update_symbol_flush_status i v fl ins = do {
     sm \<leftarrow> Option.bind (get_symbolmeta ins v (ucast i)) id;
     Some (upd_meta v (ucast i) (sm\<lparr>flushed := fl\<rparr>) ins) }"

text \<open>The two system-event tables: BIST maps everything but \<open>O\<close> to closed, NASDAQ indexes a table
  of 128 entries by the event character.\<close>

definition bist_event_halt :: "char \<Rightarrow> u8" where
  "bist_event_halt c = (if c = CHR ''O'' then 0 else 1)"

definition nasdaq_event_halt :: "char \<Rightarrow> (u8 \<times> u8) option" where
  "nasdaq_event_halt c =
     (if (of_char c :: nat) < 128
      then Some (if c = CHR ''O'' \<or> c = CHR ''M'' \<or> c = CHR ''E'' \<or> c = CHR ''C'' then (1, 0) else (0, 0))
      else None)"

subsection \<open>Halt flags\<close>

lemma update_venue_halt_or:
  assumes "update_venue_halt_status v h c ins = Some ins'" "get_venue_flags ins w = Some f"
  shows "get_venue_flags ins' w = Some (if w = v then f OR h OR c else f)"
  using assms
  by (auto simp: update_venue_halt_status_def get_venue_flags_def venue_index_inj or.assoc split: if_splits)

lemma or_eq_1_keeps: "(f :: u8) AND 1 = 1 \<Longrightarrow> (f OR g) AND 1 = 1"
  by (simp add: bit.conj_disj_distrib2)

subsection \<open>Properties\<close>

text \<open>The halt events of a venue, in the order they arrive.\<close>

primrec halt_run :: "(Venue \<times> u8 \<times> u8) list \<Rightarrow> Instruments \<Rightarrow> Instruments option" where
  "halt_run [] ins = Some ins"
| "halt_run (e # es) ins =
     (case e of (v, h, c) \<Rightarrow> Option.bind (update_venue_halt_status v h c ins) (halt_run es))"

lemma foldr_or_start: "foldr (OR) xs ((f :: u8) OR g) = g OR foldr (OR) xs f"
  by (induction xs) (simp_all add: or.left_commute or.commute)

lemma foldr_or_keeps: "(f :: u8) AND 1 = 1 \<Longrightarrow> foldr (OR) xs f AND 1 = 1"
proof (induction xs)
  case (Cons x xs)
  then show ?case using or_eq_1_keeps [of "foldr (OR) xs f" x] by (simp add: or.commute)
qed simp

text \<open>A venue's flags only accumulate: after any sequence of halt updates they are the initial
  flags joined with all updates of that venue.  Once a venue is marked halted no later event, not
  even the one for the start of trading, clears the mark.\<close>

theorem venue_flags_accumulate:
  assumes "halt_run es ins = Some ins'" "get_venue_flags ins w = Some f"
  shows "get_venue_flags ins' w =
    Some (foldr (OR) (concat (map (\<lambda>(v, h, c). if v = w then [h, c] else []) es)) f)
    \<and> (f AND HALTED = HALTED \<longrightarrow> (\<exists>g. get_venue_flags ins' w = Some g \<and> g AND HALTED = HALTED))"
proof -
  have join: "get_venue_flags ins' w =
      Some (foldr (OR) (concat (map (\<lambda>(v, h, c). if v = w then [h, c] else []) es)) f)"
    using assms
  proof (induction es arbitrary: ins f)
    case (Cons e es)
    obtain v h c ins1 where e: "e = (v, h, c)" "update_venue_halt_status v h c ins = Some ins1"
      "halt_run es ins1 = Some ins'"
      using Cons.prems(1) by (cases e) (auto simp: bind_eq_Some_conv)
    have "get_venue_flags ins1 w = Some (if w = v then f OR h OR c else f)"
      by (rule update_venue_halt_or [OF e(2) Cons.prems(2)])
    from Cons.IH [OF e(3) this] show ?case
      by (simp add: e(1) foldr_or_start or.assoc split: if_splits)
  qed simp
  then show ?thesis by (auto simp: HALTED_def foldr_or_keeps)
qed

theorem venue_flags_accumulate_witness:
  "\<exists>ins. halt_run [(BIST, 1, 0), (BIST, bist_event_halt (CHR ''O''), 0)] empty_instruments = Some ins
    \<and> get_venue_flags ins BIST = Some 1"
proof -
  let ?es = "[(BIST, 1, 0), (BIST, bist_event_halt (CHR ''O''), 0)]"
  obtain ins where run: "halt_run ?es empty_instruments = Some ins"
    by (simp add: update_venue_halt_status_def VENUE_COUNT_def)
  have "get_venue_flags empty_instruments BIST = Some 0"
    by (simp add: get_venue_flags_def empty_instruments_def VENUE_COUNT_def)
  from venue_flags_accumulate [OF run this] run show ?thesis by (simp add: bist_event_halt_def)
qed

text \<open>A stock directory message, for the examples.\<close>

definition sample_stock :: "u16 \<Rightarrow> string \<Rightarrow> NASDAQ_ITCHStockDirectoryMessage" where
  "sample_stock locate nam =
     \<lparr>niR_timestamp = 0, niR_round_lot_size = 100, niR_etp_leverage_factor = 0, niR_stock_locate = locate,
      niR_tracking_number = 0, niR_message_type = CHR ''R'', niR_stock = nam, niR_market_category = CHR ''Q'',
      niR_financial_status_indicator = CHR ''N'', niR_round_lots_only = CHR ''N'',
      niR_issue_classification = CHR ''C'', niR_issue_sub_type = ''Z '', niR_authenticity = CHR ''P'',
      niR_short_sale_threshold_indicator = CHR ''N'', niR_ipo_flag = CHR ''N'',
      niR_luld_reference_price_tier = CHR ''1'', niR_etp_flag = CHR ''N'', niR_inverse_indicator = CHR ''N''\<rparr>"

definition entry_range :: "TickSizeEntry \<Rightarrow> i64 \<times> i64 \<times> u64" where
  "entry_range e = (price_from e, price_to e, tick_size e)"

lemmas nasdaq_directory_defs = handle_instrument_definition_nasdaq_def define_instrument_def Let_def
  emplace_new_def mk_symbolmeta_def nasdaq_tick_size_ranges_def handle_tick_size_nasdaq_def guard_def
  set_tick_entry_def upd_meta_def TICKSIZE_POOL_CAPACITY_def

lemma unat_small_add:
  fixes x :: u64
  assumes "unat x + n < 2 ^ 64"
  shows "unat (x + of_nat n) = unat x + n"
proof -
  have "unat (of_nat n :: u64) = n" unfolding unat_of_nat by (rule mod_less) (use assms in simp)
  then show ?thesis using assms by (simp add: unat_plus_simple [THEN iffD1] word_le_nat_alt unat_word_ariths)
qed

lemma unat_small_adds:
  fixes x :: u64
  assumes "unat x \<le> 65531"
  shows "unat (x + 1) = unat x + 1" "unat (x + 1 + 1) = unat x + 2" "unat (x + 1 + 1 + 1) = unat x + 3"
    "unat (x + 1 + 1 + 1 + 1) = unat x + 4"
  using unat_small_add [of x 1] unat_small_add [of x 2] unat_small_add [of x 3] unat_small_add [of x 4] assms
  by (simp_all add: add.assoc)

lemma five_slots:
  "replicate 5 x = [x, x, x, x, x]" "[n..<n + 5] = [n, n + 1, n + 2, n + 3, n + 4]"
  by (simp add: eval_nat_numeral, simp add: upt_rec)

text \<open>The first directory message of a NASDAQ stock records its metadata with the five fixed tick
  size ranges, in five consecutive entries of the tick-size pool, and makes the stock found by its
  packed symbol.\<close>

theorem nasdaq_directory_ticks:
  assumes "instrument_cache ins 1 (ucast (niR_stock_locate msg)) = None"
    and "scan_symbol SYMBOL_SIZE (niR_stock msg) = Some s" "symbol_pack (niR_stock msg) = Some pack"
    and "sympack_symid ins pack = None" and p: "unat (tick_size_nasdaq_next_slot ins) \<le> 65531"
  shows "\<exists>ins' sm. handle_instrument_definition_nasdaq msg ins = Some ins'
    \<and> get_symbolmeta ins' NASDAQ (ucast (niR_stock_locate msg)) = Some (Some sm)
    \<and> round_lot_size sm = niR_round_lot_size msg \<and> meta_symbol sm = pad_to SYMBOL_SIZE s \<and> \<not> halted sm
    \<and> tick_size_table sm = map Some [unat (tick_size_nasdaq_next_slot ins)..<unat (tick_size_nasdaq_next_slot ins) + 5]
    \<and> map (\<lambda>e. entry_range (tick_size_entry_pool ins' (the e))) (tick_size_table sm) = nasdaq_tick_size_ranges
    \<and> sympack_symid ins' pack = Some (ucast (niR_stock_locate msg))"
  using assms(1-4) p unat_small_adds [OF p]
  by (simp add: nasdaq_directory_defs get_symbolmeta_def VENUE_COUNT_def entry_range_def five_slots)

lemma scan_AAPL: "scan_symbol SYMBOL_SIZE ''AAPL    '' = Some ''AAPL''"
  by (simp add: SYMBOL_SIZE_def eval_nat_numeral)

theorem nasdaq_directory_ticks_witness:
  "\<exists>ins' sm. handle_instrument_definition_nasdaq (sample_stock 14 ''AAPL    '') empty_instruments = Some ins'
    \<and> get_symbolmeta ins' NASDAQ 14 = Some (Some sm) \<and> round_lot_size sm = 100"
proof -
  obtain pack where "symbol_pack ''AAPL    '' = Some pack" by (simp add: symbol_pack_def)
  then show ?thesis
    using nasdaq_directory_ticks [of empty_instruments "sample_stock 14 ''AAPL    ''" "''AAPL''" pack]
    by (auto simp: sample_stock_def empty_instruments_def scan_AAPL)
qed

text \<open>The directory messages of a trading day.\<close>

primrec directory_run :: "NASDAQ_ITCHStockDirectoryMessage list \<Rightarrow> Instruments \<Rightarrow> Instruments option" where
  "directory_run [] ins = Some ins"
| "directory_run (m # ms) ins = Option.bind (handle_instrument_definition_nasdaq m ins) (directory_run ms)"

lemma nasdaq_ticks_slots:
  assumes "nasdaq_ticks i rs ins = Some ins'" "unat (tick_size_nasdaq_next_slot ins) \<le> 65536"
  shows "unat (tick_size_nasdaq_next_slot ins') = unat (tick_size_nasdaq_next_slot ins) + length rs
    \<and> unat (tick_size_nasdaq_next_slot ins') \<le> 65536"
  using assms
proof (induction rs arbitrary: ins)
  case (Cons r rs)
  obtain pf pt ts ins1 where r: "r = (pf, pt, ts)" "handle_tick_size_nasdaq i pf pt ts ins = Some ins1"
    "nasdaq_ticks i rs ins1 = Some ins'"
    using Cons.prems(1) by (cases r) (auto simp: bind_eq_Some_conv)
  have "tick_size_nasdaq_next_slot ins1 = tick_size_nasdaq_next_slot ins + 1"
    and lt: "unat (tick_size_nasdaq_next_slot ins) < 65536"
    using r(2) by (auto simp: handle_tick_size_nasdaq_def bind_eq_Some_conv Let_def guard_def upd_meta_def
        set_tick_entry_def TICKSIZE_POOL_CAPACITY_def split: if_splits)
  then have "unat (tick_size_nasdaq_next_slot ins1) = unat (tick_size_nasdaq_next_slot ins) + 1"
    using unat_small_add [of "tick_size_nasdaq_next_slot ins" 1] by simp
  with Cons.IH [OF r(3)] lt show ?case by simp
qed simp

lemma directory_slots:
  assumes "handle_instrument_definition_nasdaq m ins = Some ins'" "unat (tick_size_nasdaq_next_slot ins) \<le> 65536"
  shows "unat (tick_size_nasdaq_next_slot ins') = unat (tick_size_nasdaq_next_slot ins) + 5
    \<and> unat (tick_size_nasdaq_next_slot ins') \<le> 65536"
proof -
  obtain ins1 where d: "define_instrument NASDAQ (ucast (niR_stock_locate m)) (niR_round_lot_size m) (niR_stock m) ins = Some ins1"
    and t: "nasdaq_ticks (ucast (niR_stock_locate m)) nasdaq_tick_size_ranges ins1 = Some ins'"
    using assms(1) by (auto simp: handle_instrument_definition_nasdaq_def bind_eq_Some_conv Let_def)
  have "tick_size_nasdaq_next_slot ins1 = tick_size_nasdaq_next_slot ins"
    using d by (auto simp: define_instrument_def bind_eq_Some_conv Let_def)
  then show ?thesis using nasdaq_ticks_slots [OF t] assms(2) by (simp add: nasdaq_tick_size_ranges_def)
qed

text \<open>Every NASDAQ directory message takes five entries of the tick-size pool, also when it repeats a
  known stock, and the entries are not reused: the part of the pool reserved for NASDAQ is used up
  after 6553 messages and the next one writes outside the pool.\<close>

theorem nasdaq_tick_pool_exhausted:
  assumes "directory_run ms ins = Some ins'" "tick_size_nasdaq_next_slot ins = 32768"
  shows "length ms \<le> 6553 \<and> unat (tick_size_nasdaq_next_slot ins') = 32768 + 5 * length ms"
proof -
  have "unat (tick_size_nasdaq_next_slot ins') = unat (tick_size_nasdaq_next_slot ins) + 5 * length ms
      \<and> unat (tick_size_nasdaq_next_slot ins') \<le> 65536"
    if "unat (tick_size_nasdaq_next_slot ins) \<le> 65536"
    using assms(1) that
  proof (induction ms arbitrary: ins)
    case (Cons m ms)
    then obtain ins1 where m: "handle_instrument_definition_nasdaq m ins = Some ins1"
      "directory_run ms ins1 = Some ins'" by (auto simp: bind_eq_Some_conv)
    from directory_slots [OF m(1) Cons.prems(2)] Cons.IH [OF m(2)] show ?case by simp
  qed simp
  then show ?thesis using assms(2) by simp
qed

theorem nasdaq_tick_pool_exhausted_witness:
  "\<exists>ins. directory_run [sample_stock 14 ''AAPL    ''] empty_instruments = Some ins
    \<and> unat (tick_size_nasdaq_next_slot ins) = 32773"
proof -
  have "\<exists>ins. directory_run [sample_stock 14 ''AAPL    ''] empty_instruments = Some ins"
    by (simp add: nasdaq_directory_defs sample_stock_def symbol_pack_def empty_instruments_def scan_AAPL five_slots)
  then obtain ins where run: "directory_run [sample_stock 14 ''AAPL    ''] empty_instruments = Some ins" ..
  show ?thesis using nasdaq_tick_pool_exhausted [OF run] run by (auto simp: empty_instruments_def)
qed

lemma bist_tick_loop_entry:
  assumes "bist_tick_loop p pf pt ts ds es pool = Some (tbl, pool')" "entry_range (pool p) = (pf, pt, ts)"
  shows "\<exists>q. Some q \<in> set tbl \<and> entry_range (pool' q) = (pf, pt, ts)"
  using assms
  by (induction p pf pt ts ds es pool rule: bist_tick_loop.induct) (auto simp: entry_range_def split: if_splits)

text \<open>A BIST tick-size message for a known instrument leaves an entry with the message's price range
  and tick size in the instrument's table: the entry of the same range is updated, else a free place
  is used, else the first place is overwritten.\<close>

theorem bist_tick_recorded:
  assumes "instrument_cache ins 0 (biL_order_book_id msg) = Some sm" "tick_size_table sm \<noteq> []"
  shows "\<exists>ins' sm' q. handle_tick_size_bist msg ins = Some ins'
    \<and> instrument_cache ins' 0 (biL_order_book_id msg) = Some sm' \<and> Some q \<in> set (tick_size_table sm')
    \<and> entry_range (tick_size_entry_pool ins' q)
        = (i64_of_i32 (biL_price_from msg), i64_of_i32 (biL_price_to msg), biL_tick_size msg)"
proof -
  define p where "p = unat (tick_size_bist_next_slot ins AND (TICKSIZE_CAPACITY_FOR_BIST - 1))"
  define pf where "pf = i64_of_i32 (biL_price_from msg)"
  define pt where "pt = i64_of_i32 (biL_price_to msg)"
  define ts where "ts = biL_tick_size msg"
  define pool where "pool = (tick_size_entry_pool ins)(p := \<lparr>price_from = pf, price_to = pt, tick_size = ts\<rparr>)"
  note h = handle_tick_size_bist_def assms(1) Let_def upd_meta_def set_tick_entry_def
    p_def [symmetric] pf_def [symmetric] pt_def [symmetric] ts_def [symmetric] pool_def [symmetric]
  have pr: "entry_range (pool p) = (pf, pt, ts)" by (simp add: pool_def entry_range_def)
  show ?thesis
  proof (cases "bist_tick_loop p pf pt ts [] (tick_size_table sm) pool")
    case None
    have "Some p \<in> set ((tick_size_table sm)[0 := Some p])"
      using assms(2) by (metis length_greater_0_conv set_update_memI)
    then show ?thesis using None pr by (simp add: h) blast
  next
    case (Some r)
    obtain tbl pool' where r: "r = (tbl, pool')" by (cases r)
    then obtain q where "Some q \<in> set tbl" "entry_range (pool' q) = (pf, pt, ts)"
      using bist_tick_loop_entry [of p pf pt ts "[]" "tick_size_table sm" pool tbl pool'] pr Some by blast
    then show ?thesis using Some r by (simp add: h) blast
  qed
qed

theorem bist_tick_recorded_witness:
  "\<exists>ins' q. handle_tick_size_bist \<lparr>biL_tick_size = 5, biL_timestamp_ns = 0, biL_order_book_id = 3,
        biL_price_from = 0, biL_price_to = 999, biL_message_type = CHR ''L''\<rparr>
      (empty_instruments\<lparr>instrument_cache := (\<lambda>_. [3 \<mapsto> \<lparr>meta_instrument_id = 3, round_lot_size = 1,
          tick_size_table = replicate 5 None, meta_symbol = [], halted = False, flushed = False\<rparr>])\<rparr>) = Some ins'
    \<and> tick_size (tick_size_entry_pool ins' q) = 5"
  using bist_tick_recorded [of "empty_instruments\<lparr>instrument_cache := (\<lambda>_. [3 \<mapsto> \<lparr>meta_instrument_id = 3,
      round_lot_size = 1, tick_size_table = replicate 5 None, meta_symbol = [], halted = False, flushed = False\<rparr>])\<rparr>"
    "\<lparr>biL_tick_size = 5, biL_timestamp_ns = 0, biL_order_book_id = 3,
        biL_price_from = 0, biL_price_to = 999, biL_message_type = CHR ''L''\<rparr>"]
  by (auto simp: entry_range_def)

end
