(* ===== verification/Risk_State.thy ===== *)
theory Risk_State
  imports Instruments Symbol_Tables Market_Book Spsc_Queue
begin

text \<open>
  The state of \<^verbatim>\<open>RiskEngine\<close> (src/src/risk/RiskEngine.h): accounts, symbols, live order entries,
  reject packets and the queues it is connected to.  Arrays are functions of the index with the
  bounds of the C++ arrays checked at every access by the operations.  \<open>heap\<close> is the order pool
  the queued pointers refer to.
\<close>

record OrderRateLimit =
  tokens :: u64
  last_refill_ns :: u64
  capacity :: u64
  refill_interval_ns :: u64

record CancelRateLimit =
  last_cancel_timestamp_ns :: u64
  cancel_count_window :: u32
  max_cancels_per_sec :: u32

datatype AccountStatus = Inactive | Active | Suspended | Closed

record AccountRisk =
  current_exposure :: i64
  balance :: i64
  positional_exposure :: i64
  used_margin :: i64
  current_leverage :: i64
  daily_realized_pnl :: i64
  total_unrealized_pnl :: i64
  acc_open_orders_count :: u32
  acc_status :: AccountStatus
  acc_orderratelimit :: OrderRateLimit
  acc_cancelratelimit :: CancelRateLimit

record SymbolRisk =
  pending_notional_scaled :: i64
  sym_open_orders_count :: i32
  sym_best_bid :: i64
  sym_best_ask :: i64
  unrealized_pnl :: i64
  cost_basis_scaled :: i64
  realized_pnl :: i64
  net_position :: i64
  avg_entry_price :: i32
  sym_orderratelimit :: OrderRateLimit
  sym_cancelratelimit :: CancelRateLimit

record OrderRisk =
  or_price :: i64
  or_symbol_index :: u32
  or_remaining_qty :: u32
  or_side :: Side
  or_status :: Status
  or_active :: bool
  or_venue :: Venue

record OrderRiskKey =
  key_price :: i64
  key_symbol_index :: u32
  key_side :: u8
  key_venue :: u8

record OrderMetrics =
  nominal :: i64
  notional :: i64
  replaced :: i64
  side_mult :: i64

definition orderMetrics :: "Order \<Rightarrow> OrderMetrics" where
  "orderMetrics ord =
     \<lparr>nominal = price ord * i64_of_u32 (last_exec_quantity ord),
      notional = price ord * i64_of_u32 (quantity ord),
      replaced = price ord * i64_of_i32 (replaced_quantity ord),
      side_mult = (if side ord = Buy then 1 else - 1)\<rparr>"

text \<open>\<^verbatim>\<open>RiskRejectReason\<close>: one bit per reason.\<close>

definition MaxPositionLimitExceeded :: u32 where "MaxPositionLimitExceeded = 2 ^ 0"
definition MaxOrderSizeExceeded :: u32 where "MaxOrderSizeExceeded = 2 ^ 1"
definition MinOrderSizeExceeded :: u32 where "MinOrderSizeExceeded = 2 ^ 2"
definition InvalidLotSize :: u32 where "InvalidLotSize = 2 ^ 3"
definition MaxOrderNotionalLimitExceeded :: u32 where "MaxOrderNotionalLimitExceeded = 2 ^ 4"
definition MaxNotionalLimitExceeded :: u32 where "MaxNotionalLimitExceeded = 2 ^ 5"
definition MaxSymbolExposureLimitExceeded :: u32 where "MaxSymbolExposureLimitExceeded = 2 ^ 6"
definition MaxOpenOrdersReachedAccount :: u32 where "MaxOpenOrdersReachedAccount = 2 ^ 7"
definition MaxOpenOrdersReachedSymbol :: u32 where "MaxOpenOrdersReachedSymbol = 2 ^ 8"
definition PriceTickInvalid :: u32 where "PriceTickInvalid = 2 ^ 9"
definition InvalidPriceRange :: u32 where "InvalidPriceRange = 2 ^ 10"
definition FatFingerCheckFailed :: u32 where "FatFingerCheckFailed = 2 ^ 11"
definition MaxOrderRateLimitExceededAccount :: u32 where "MaxOrderRateLimitExceededAccount = 2 ^ 12"
definition MaxCancelRateLimitExceededAccount :: u32 where "MaxCancelRateLimitExceededAccount = 2 ^ 13"
definition MaxOrderRateLimitExceededSymbol :: u32 where "MaxOrderRateLimitExceededSymbol = 2 ^ 14"
definition MaxCancelRateLimitExceededSymbol :: u32 where "MaxCancelRateLimitExceededSymbol = 2 ^ 15"
definition SelfTradeDetected :: u32 where "SelfTradeDetected = 2 ^ 16"
definition RestrictedAccountStatus :: u32 where "RestrictedAccountStatus = 2 ^ 18"
definition AccountBalanceInsufficient :: u32 where "AccountBalanceInsufficient = 2 ^ 19"
definition MaxLeverageExceeded :: u32 where "MaxLeverageExceeded = 2 ^ 20"
definition FreeMarginInsufficient :: u32 where "FreeMarginInsufficient = 2 ^ 21"
definition RealizedLossLimitExceeded :: u32 where "RealizedLossLimitExceeded = 2 ^ 22"
definition UnrealizedLossLimitExceeded :: u32 where "UnrealizedLossLimitExceeded = 2 ^ 23"
definition VenueTradingHalted :: u32 where "VenueTradingHalted = 2 ^ 24"
definition CircuitBreakerTriggered :: u32 where "CircuitBreakerTriggered = 2 ^ 25"
definition SymbolTradingHalted :: u32 where "SymbolTradingHalted = 2 ^ 26"
definition MarketDataUnavailable :: u32 where "MarketDataUnavailable = 2 ^ 27"
definition RiskEngineInternalError :: u32 where "RiskEngineInternalError = 2 ^ 28"

lemmas reject_reasons = MaxPositionLimitExceeded_def MaxOrderSizeExceeded_def MinOrderSizeExceeded_def
  InvalidLotSize_def MaxOrderNotionalLimitExceeded_def MaxNotionalLimitExceeded_def
  MaxSymbolExposureLimitExceeded_def MaxOpenOrdersReachedAccount_def MaxOpenOrdersReachedSymbol_def
  PriceTickInvalid_def InvalidPriceRange_def FatFingerCheckFailed_def
  MaxOrderRateLimitExceededAccount_def MaxCancelRateLimitExceededAccount_def
  MaxOrderRateLimitExceededSymbol_def MaxCancelRateLimitExceededSymbol_def SelfTradeDetected_def
  RestrictedAccountStatus_def AccountBalanceInsufficient_def MaxLeverageExceeded_def
  FreeMarginInsufficient_def RealizedLossLimitExceeded_def UnrealizedLossLimitExceeded_def
  VenueTradingHalted_def CircuitBreakerTriggered_def SymbolTradingHalted_def
  MarketDataUnavailable_def RiskEngineInternalError_def

record RiskEngine =
  accountrisks :: "nat \<Rightarrow> AccountRisk"
  symbolrisks :: "nat \<Rightarrow> nat \<Rightarrow> SymbolRisk"
  orderrisks :: "nat \<Rightarrow> OrderRiskKey \<rightharpoonup> nat"
  orderrisk_pool :: "nat \<Rightarrow> OrderRisk"
  orderrisk_next_slot :: u64
  reject_order_pool :: "nat \<Rightarrow> nat \<times> u32"
  rejord_next_slot :: u64
  pipeline_seq :: u64
  store_to_risk :: "nat spsc"
  strategy_to_risk :: "nat spsc"
  risk_to_strategy :: "nat spsc"
  risk_to_builder :: "nat spsc"
  heap :: "nat \<Rightarrow> Order"

definition ORDERRISK_POOL_CAPACITY :: u64 where "ORDERRISK_POOL_CAPACITY = 65536"

definition REJECTORDER_POOL_CAPACITY :: u64 where "REJECTORDER_POOL_CAPACITY = 1024"

text \<open>\<^verbatim>\<open>H_BITS\<close> of the 1024-slot queues between the stages.\<close>

definition Q1024 :: nat where "Q1024 = 7"

definition get_reject_order_packet :: "nat \<Rightarrow> u32 \<Rightarrow> RiskEngine \<Rightarrow> nat \<times> RiskEngine" where
  "get_reject_order_packet ptr riskflag re =
     (let i = unat (rejord_next_slot re AND (REJECTORDER_POOL_CAPACITY - 1))
      in (i, re\<lparr>reject_order_pool := (reject_order_pool re)(i := (ptr, riskflag)),
               rejord_next_slot := rejord_next_slot re + 1\<rparr>))"

text \<open>\<^verbatim>\<open>risk_to_strategy_.push(get_reject_order_packet(order, reason))\<close>; the result of the push is
  ignored by the code.\<close>

definition push_reject :: "nat \<Rightarrow> u32 \<Rightarrow> RiskEngine \<Rightarrow> RiskEngine" where
  "push_reject ptr riskflag re =
     (let (i, re1) = get_reject_order_packet ptr riskflag re
      in re1\<lparr>risk_to_strategy := snd (spsc_push Q1024 i (risk_to_strategy re1))\<rparr>)"

text \<open>\<^verbatim>\<open>tsc_to_ns\<close>: fixed-point scaling of the cycle counter.\<close>

definition tsc_to_ns :: "u64 \<Rightarrow> u64 \<Rightarrow> u64" where
  "tsc_to_ns tsc_ns_fp_factor tsc_cycles =
     ucast (drop_bit 32 ((ucast tsc_cycles :: 128 word) * ucast tsc_ns_fp_factor))"

end
