(* ===== verification/Risk_Checks.thy ===== *)
theory Risk_Checks
  imports Risk_State
begin

text \<open>
  The pre-trade side of \<^verbatim>\<open>RiskEngine\<close> (src/src/risk/RiskEngine.h, RiskEngine.cpp): the limit checks,
  the rate limiters and \<open>check_risk\<close>, which decides for each order of the strategy whether it goes
  to the builder or back with a reject reason.  Each check returns the reason bit or 0.  The clock
  (\<^verbatim>\<open>__rdtsc\<close>) is the parameter \<open>now_ns\<close>.

  \<open>trunc64\<close> is the truncating division where the source divides by a constant or by a value it
  has tested to be positive.
\<close>

definition trunc64 :: "i64 \<Rightarrow> i64 \<Rightarrow> i64" where
  "trunc64 a b = word_of_int (sint a sdiv sint b)"

definition check_quantity_bounds :: "u32 \<Rightarrow> u32 \<Rightarrow> u32 \<Rightarrow> u32 \<Rightarrow> u32 option" where
  "check_quantity_bounds qty mn mx lot =
     (if qty < mn then Some MinOrderSizeExceeded
      else if mx < qty then Some MaxOrderSizeExceeded
      else if lot = 0 then None
      else if qty mod lot \<noteq> 0 then Some InvalidLotSize else Some 0)"

definition check_max_open_orders_account :: "u32 \<Rightarrow> u32 \<Rightarrow> u32" where
  "check_max_open_orders_account cur mx = (if mx \<le> cur then MaxOpenOrdersReachedAccount else 0)"

definition check_max_open_orders_symbol :: "u32 \<Rightarrow> u32 \<Rightarrow> u32" where
  "check_max_open_orders_symbol cur mx = (if mx \<le> cur then MaxOpenOrdersReachedSymbol else 0)"

text \<open>The key as the code builds it: the aggregate initialiser lists the symbol index first, but
  the first member of \<^verbatim>\<open>OrderRiskKey\<close> is the price, so the two values are swapped and the price is
  narrowed to 32 bits.\<close>

definition riskKey :: "u32 \<Rightarrow> i64 \<Rightarrow> u8 \<Rightarrow> u8 \<Rightarrow> OrderRiskKey" where
  "riskKey sym_index prc sd ven =
     \<lparr>key_price = ucast sym_index, key_symbol_index = ucast prc, key_side = sd, key_venue = ven\<rparr>"

definition not_side_u8 :: "Side \<Rightarrow> u8" where
  "not_side_u8 s = (if side_index s = 0 then 1 else 0)"

definition check_self_trade_order :: "RiskEngine \<Rightarrow> Order \<Rightarrow> nat \<Rightarrow> u32" where
  "check_self_trade_order re ord v =
     (case orderrisks re v (riskKey (symbol_index ord) (price ord) (not_side_u8 (side ord)) (of_nat v)) of
        Some p \<Rightarrow> if or_active (orderrisk_pool re p) then SelfTradeDetected else 0
      | None \<Rightarrow> 0)"

definition check_max_order_notional_value :: "i64 \<Rightarrow> u32 \<Rightarrow> i64 \<Rightarrow> u32" where
  "check_max_order_notional_value prc qty mx =
     (if mx <s prc * i64_of_u32 qty then MaxOrderNotionalLimitExceeded else 0)"

definition check_max_symbol_exposure_value :: "i64 \<Rightarrow> u32 \<Rightarrow> Side \<Rightarrow> i64 \<Rightarrow> i64 \<Rightarrow> u32" where
  "check_max_symbol_exposure_value prc qty sd pend mx =
     (if mx <s pend + prc * i64_of_u32 qty * (if sd = Buy then 1 else - 1)
      then MaxSymbolExposureLimitExceeded else 0)"

definition check_max_position_limit :: "i64 \<Rightarrow> i64 \<Rightarrow> Side \<Rightarrow> i64 \<Rightarrow> u32" where
  "check_max_position_limit net qty sd mx =
     (if llabs mx <s llabs (net + (if sd = Buy then 1 else - 1) * qty)
      then MaxPositionLimitExceeded else 0)"

definition check_market_data_and_deviation :: "i64 \<Rightarrow> i64 \<Rightarrow> i64 \<Rightarrow> i64 \<Rightarrow> u32" where
  "check_market_data_and_deviation bid ask prc max_dev =
     (if bid = 0 \<and> ask = 0 then MarketDataUnavailable
      else if 0 <s max_dev \<and> max_dev <s llabs (prc - trunc64 (bid + ask) 2) then InvalidPriceRange
      else 0)"

definition check_fat_finger :: "u32 \<Rightarrow> u32 \<Rightarrow> i64 \<Rightarrow> i64 \<Rightarrow> i64 \<Rightarrow> i64 \<Rightarrow> u32" where
  "check_fat_finger qty thr prc bid ask ratio_max =
     (let mid = trunc64 (bid + ask) 2
      in if 0 <s mid \<and> thr \<le> qty \<and> ratio_max <s trunc64 (prc * 1000) mid
         then FatFingerCheckFailed else 0)"

primrec check_price_tick_loop :: "(nat \<Rightarrow> TickSizeEntry) \<Rightarrow> i64 \<Rightarrow> nat option list \<Rightarrow> u32" where
  "check_price_tick_loop pool prc [] = 0"
| "check_price_tick_loop pool prc (e # es) =
     (case e of
        None \<Rightarrow> check_price_tick_loop pool prc es
      | Some p \<Rightarrow>
          (let en = pool p; ts = tick_size en in
           if price_to en = 0 \<or> (price_from en \<le>s prc \<and> prc \<le>s price_to en)
           then if ts \<le>s 0 then RiskEngineInternalError
                else if (sint prc smod sint ts) \<noteq> 0 then PriceTickInvalid
                else check_price_tick_loop pool prc es
           else check_price_tick_loop pool prc es))"

definition check_price_tick_valid :: "(nat \<Rightarrow> TickSizeEntry) \<Rightarrow> i64 \<Rightarrow> SymbolMeta \<Rightarrow> u32" where
  "check_price_tick_valid pool prc sm = check_price_tick_loop pool prc (tick_size_table sm)"

definition check_acc_status :: "AccountStatus \<Rightarrow> u32" where
  "check_acc_status st = (if st \<noteq> Active then RestrictedAccountStatus else 0)"

definition check_free_margin :: "i64 \<Rightarrow> i64 \<Rightarrow> i64 \<Rightarrow> i64 \<Rightarrow> u32" where
  "check_free_margin bal upnl est used =
     (if (bal + upnl) - used <s est then FreeMarginInsufficient else 0)"

definition check_balance :: "i64 \<Rightarrow> i64 \<Rightarrow> u32" where
  "check_balance bal est = (if bal <s est then AccountBalanceInsufficient else 0)"

definition check_max_leverage :: "i64 \<Rightarrow> i64 \<Rightarrow> i64 \<Rightarrow> i64 \<Rightarrow> u32" where
  "check_max_leverage bal expo est mx =
     (if bal \<le>s 0 then MaxLeverageExceeded
      else if mx <s trunc64 ((expo + est) * 10000) bal then MaxLeverageExceeded else 0)"

definition check_max_notional :: "i64 \<Rightarrow> i64 \<Rightarrow> i64 \<Rightarrow> u32" where
  "check_max_notional expo est mx = (if mx <s expo + est then MaxNotionalLimitExceeded else 0)"

definition check_max_drawdown :: "i64 \<Rightarrow> i64 \<Rightarrow> i64 \<Rightarrow> u32 \<Rightarrow> Side \<Rightarrow> i64 \<Rightarrow> u32" where
  "check_max_drawdown rpnl avg prc qty sd mx =
     (if rpnl + (if sd = Sell then (prc - avg) * i64_of_u32 qty else 0) <s - mx
      then RealizedLossLimitExceeded else 0)"

definition check_unrealized_loss :: "i64 \<Rightarrow> i64 \<Rightarrow> i64 \<Rightarrow> i64 \<Rightarrow> u32 \<Rightarrow> Side \<Rightarrow> i64 \<Rightarrow> u32" where
  "check_unrealized_loss upnl bid avg prc qty sd mx =
     (if (if sd = Buy then upnl + (bid - prc) * i64_of_u32 qty
          else upnl - (bid - avg) * i64_of_u32 qty) <s - mx
      then UnrealizedLossLimitExceeded else 0)"

definition check_account_risk :: "Order \<Rightarrow> AccountRisk \<Rightarrow> AccountLimit \<Rightarrow> SymbolRisk \<Rightarrow> i64 \<Rightarrow> u32 \<Rightarrow> u32" where
  "check_account_risk ord ar al sr prc qty =
     (let est = prc * i64_of_u32 qty;
          avg = i64_of_i32 (avg_entry_price sr);
          reason = check_acc_status (acc_status ar)
            OR check_max_leverage (balance ar) (current_exposure ar) est (max_leverage al)
            OR check_max_drawdown (daily_realized_pnl ar) avg prc qty (side ord) (max_daily_loss al)
            OR check_unrealized_loss (total_unrealized_pnl ar) (sym_best_bid sr) avg prc qty (side ord)
                 (max_unrealized_loss al)
      in if 0 <s price ord \<and> order_type ord = Limit
         then reason
            OR check_free_margin (balance ar) (total_unrealized_pnl ar) est (used_margin ar)
            OR check_balance (balance ar) est
            OR check_max_notional (current_exposure ar) est (max_notional al)
         else reason)"

text \<open>The rate limiters on one bucket: refill or reset the window, then count.  The Boolean says
  that the limit is reached.\<close>

definition order_bucket :: "u64 \<Rightarrow> OrderRateLimit \<Rightarrow> bool \<times> OrderRateLimit" where
  "order_bucket now_ns b =
     (let b1 = (if refill_interval_ns b < now_ns - last_refill_ns b
                then b\<lparr>tokens := capacity b, last_refill_ns := now_ns\<rparr> else b)
      in if 0 < tokens b1 then (False, b1\<lparr>tokens := tokens b1 - 1\<rparr>) else (True, b1))"

definition cancel_bucket :: "u64 \<Rightarrow> CancelRateLimit \<Rightarrow> bool \<times> CancelRateLimit" where
  "cancel_bucket now_ns b =
     (let b1 = (if 1000000000 < now_ns - last_cancel_timestamp_ns b
                then b\<lparr>cancel_count_window := 0, last_cancel_timestamp_ns := now_ns\<rparr> else b);
          b2 = b1\<lparr>cancel_count_window := cancel_count_window b1 + 1\<rparr>
      in (max_cancels_per_sec b2 < cancel_count_window b2, b2))"

definition upd_acc :: "nat \<Rightarrow> AccountRisk \<Rightarrow> RiskEngine \<Rightarrow> RiskEngine" where
  "upd_acc v ar re = re\<lparr>accountrisks := (accountrisks re)(v := ar)\<rparr>"

definition upd_sym :: "nat \<Rightarrow> nat \<Rightarrow> SymbolRisk \<Rightarrow> RiskEngine \<Rightarrow> RiskEngine" where
  "upd_sym v i sr re = re\<lparr>symbolrisks := (symbolrisks re)(v := (symbolrisks re v)(i := sr))\<rparr>"

definition check_order_rate_limit :: "u64 \<Rightarrow> nat \<Rightarrow> nat \<Rightarrow> nat \<Rightarrow> RiskEngine \<Rightarrow> bool \<times> RiskEngine" where
  "check_order_rate_limit now_ns v i ptr re =
     (let (a, ab) = order_bucket now_ns (acc_orderratelimit (accountrisks re v));
          (s, sb) = order_bucket now_ns (sym_orderratelimit (symbolrisks re v i));
          re1 = upd_acc v ((accountrisks re v)\<lparr>acc_orderratelimit := ab\<rparr>)
                  (upd_sym v i ((symbolrisks re v i)\<lparr>sym_orderratelimit := sb\<rparr>) re);
          reason = (if a then MaxOrderRateLimitExceededAccount else 0)
                   OR (if s then MaxOrderRateLimitExceededSymbol else 0)
      in (a \<or> s, if reason \<noteq> 0 then push_reject ptr reason re1 else re1))"

definition check_cancel_rate_limit :: "u64 \<Rightarrow> nat \<Rightarrow> nat \<Rightarrow> nat \<Rightarrow> RiskEngine \<Rightarrow> bool \<times> RiskEngine" where
  "check_cancel_rate_limit now_ns v i ptr re =
     (let (a, ab) = cancel_bucket now_ns (acc_cancelratelimit (accountrisks re v));
          (s, sb) = cancel_bucket now_ns (sym_cancelratelimit (symbolrisks re v i));
          re1 = upd_acc v ((accountrisks re v)\<lparr>acc_cancelratelimit := ab\<rparr>)
                  (upd_sym v i ((symbolrisks re v i)\<lparr>sym_cancelratelimit := sb\<rparr>) re);
          reason = (if a then MaxCancelRateLimitExceededAccount else 0)
                   OR (if s then MaxCancelRateLimitExceededSymbol else 0)
      in (a \<or> s, if reason \<noteq> 0 then push_reject ptr reason re1 else re1))"

definition check_venue_halt_and_circuit ::
  "Instruments \<Rightarrow> nat \<Rightarrow> SymbolMeta \<Rightarrow> RiskEngine \<Rightarrow> (bool \<times> RiskEngine) option" where
  "check_venue_halt_and_circuit ins ptr sm re = do {
     flags \<leftarrow> get_venue_flags ins (venue (heap re ptr));
     Some (if flags = HALTED then (True, push_reject ptr VenueTradingHalted re)
           else if flags = C_BREAKER then (True, push_reject ptr CircuitBreakerTriggered re)
           else if halted sm then (True, push_reject ptr SymbolTradingHalted re)
           else (False, re)) }"

text \<open>The two groups of checks of \<open>check_risk\<close>.\<close>

definition limit_reasons :: "Instruments \<Rightarrow> SymbolMeta \<Rightarrow> SymbolLimit \<Rightarrow> SymbolRisk \<Rightarrow> Order \<Rightarrow> u32" where
  "limit_reasons ins sm sl sr ord =
     check_price_tick_valid (tick_size_entry_pool ins) (price ord) sm
     OR check_max_order_notional_value (price ord) (quantity ord) (max_order_notional_scaled sl)
     OR check_max_symbol_exposure_value (price ord) (quantity ord) (side ord)
          (pending_notional_scaled sr) (max_exposure_scaled sl)
     OR check_market_data_and_deviation (sym_best_bid sr) (sym_best_ask sr) (price ord) (max_price_deviation sl)
     OR check_fat_finger (quantity ord) (fat_finger_qty_threshold sl) (price ord)
          (sym_best_bid sr) (sym_best_ask sr) (fat_finger_ratio sl)"

definition main_reasons ::
  "RiskEngine \<Rightarrow> SymbolMeta \<Rightarrow> SymbolLimit \<Rightarrow> AccountLimit \<Rightarrow> AccountRisk \<Rightarrow> SymbolRisk \<Rightarrow> nat \<Rightarrow> Order \<Rightarrow> u32 option" where
  "main_reasons re sm sl al ar sr v ord = do {
     q \<leftarrow> check_quantity_bounds (quantity ord) (min_qty sl) (max_qty sl) (round_lot_size sm);
     Some (q
       OR check_max_open_orders_account (acc_open_orders_count ar) (acc_max_open_orders al)
       OR check_max_open_orders_symbol (sym_open_orders_count sr) (sym_max_open_orders sl)
       OR check_self_trade_order re ord v
       OR check_max_position_limit (net_position sr) (i64_of_u32 (quantity ord)) (side ord) (max_position_scaled sl)
       OR check_account_risk ord ar al sr (price ord) (quantity ord)) }"

definition forward_order :: "nat \<Rightarrow> RiskEngine \<Rightarrow> RiskEngine" where
  "forward_order ptr re =
     re\<lparr>heap := (heap re)(ptr := (heap re ptr)\<lparr>canModify := canModify (heap re ptr) OR RISK_DONE\<rparr>),
        risk_to_builder := snd (spsc_push Q1024 ptr (risk_to_builder re))\<rparr>"

text \<open>One iteration of the loop of \<open>check_risk\<close> on a popped order; the Boolean says that the
  function returns (the order was forwarded).\<close>

definition check_order :: "Instruments \<Rightarrow> Limits \<Rightarrow> u64 \<Rightarrow> nat \<Rightarrow> RiskEngine \<Rightarrow> (bool \<times> RiskEngine) option" where
  "check_order ins lim now_ns ptr re = do {
     let ord = heap re ptr;
     let v = venue_index (venue ord);
     let i = unat (symbol_index ord);
     _ \<leftarrow> guard (v < VENUE_COUNT \<and> i < MAX_SYMBOL_COUNT);
     let ar = accountrisks re v;
     let sr = symbolrisks re v i;
     al \<leftarrow> getAccountLimit lim v;
     sl \<leftarrow> getSymbolLimit lim v (symbol_index ord);
     sm \<leftarrow> Option.bind (get_symbolmeta ins (venue ord) (instrument_id ord)) id;
     (stop, re1) \<leftarrow> check_venue_halt_and_circuit ins ptr sm re;
     if stop then Some (False, re1)
     else if status ord = CancelRequest
     then let (reached, re2) = check_cancel_rate_limit now_ns v i ptr re1
          in Some (if reached then (True, forward_order ptr re2) else (False, re2))
     else if order_type ord = Limit \<and> limit_reasons ins sm sl sr ord \<noteq> 0
     then Some (False, push_reject ptr (limit_reasons ins sm sl sr ord) re1)
     else do {
       r \<leftarrow> main_reasons re1 sm sl al ar sr v ord;
       Some (if r \<noteq> 0 then (False, push_reject ptr r re1) else (True, forward_order ptr re1)) } }"

text \<open>The loop: orders are popped until one is forwarded or the queue is empty.  The fuel bounds
  the number of iterations; the queue holds at most 1024 orders, so 1025 is enough.  \<open>clock\<close>
  gives the reading of the cycle counter in each iteration.\<close>

primrec check_risk_loop ::
  "nat \<Rightarrow> Instruments \<Rightarrow> Limits \<Rightarrow> (nat \<Rightarrow> u64) \<Rightarrow> RiskEngine \<Rightarrow> (bool \<times> RiskEngine) option" where
  "check_risk_loop 0 ins lim clock re = None"
| "check_risk_loop (Suc n) ins lim clock re =
     (case spsc_pop Q1024 (strategy_to_risk re) of
        (None, q) \<Rightarrow> Some (False, re\<lparr>strategy_to_risk := q\<rparr>)
      | (Some ptr, q) \<Rightarrow>
          Option.bind (check_order ins lim (clock n) ptr (re\<lparr>strategy_to_risk := q\<rparr>))
            (\<lambda>(ret, re'). if ret then Some (True, re') else check_risk_loop n ins lim clock re'))"

definition check_risk :: "Instruments \<Rightarrow> Limits \<Rightarrow> (nat \<Rightarrow> u64) \<Rightarrow> RiskEngine \<Rightarrow> (bool \<times> RiskEngine) option" where
  "check_risk = check_risk_loop 1025"

subsection \<open>Reading the reason bits\<close>

lemma reason_if_eq_0:
  "(if b then MaxPositionLimitExceeded else 0) = 0 \<longleftrightarrow> \<not> b"
  "(if b then MaxOrderNotionalLimitExceeded else 0) = 0 \<longleftrightarrow> \<not> b"
  "(if b then MaxNotionalLimitExceeded else 0) = 0 \<longleftrightarrow> \<not> b"
  "(if b then MaxSymbolExposureLimitExceeded else 0) = 0 \<longleftrightarrow> \<not> b"
  "(if b then MaxOpenOrdersReachedAccount else 0) = 0 \<longleftrightarrow> \<not> b"
  "(if b then MaxOpenOrdersReachedSymbol else 0) = 0 \<longleftrightarrow> \<not> b"
  "(if b then FatFingerCheckFailed else 0) = 0 \<longleftrightarrow> \<not> b"
  "(if b then RestrictedAccountStatus else 0) = 0 \<longleftrightarrow> \<not> b"
  "(if b then AccountBalanceInsufficient else 0) = 0 \<longleftrightarrow> \<not> b"
  "(if b then MaxLeverageExceeded else 0) = 0 \<longleftrightarrow> \<not> b"
  "(if b then FreeMarginInsufficient else 0) = 0 \<longleftrightarrow> \<not> b"
  "(if b then RealizedLossLimitExceeded else 0) = 0 \<longleftrightarrow> \<not> b"
  "(if b then UnrealizedLossLimitExceeded else 0) = 0 \<longleftrightarrow> \<not> b"
  "(if b then SelfTradeDetected else 0) = 0 \<longleftrightarrow> \<not> b"
  by (simp_all add: reject_reasons)

lemma check_quantity_bounds_0:
  "check_quantity_bounds qty mn mx lot = Some 0 \<longleftrightarrow> mn \<le> qty \<and> qty \<le> mx \<and> lot \<noteq> 0 \<and> qty mod lot = 0"
  by (auto simp: check_quantity_bounds_def reject_reasons not_less)

lemma check_market_data_0:
  "check_market_data_and_deviation bid ask prc max_dev = 0 \<longleftrightarrow>
     (bid \<noteq> 0 \<or> ask \<noteq> 0) \<and> \<not> (0 <s max_dev \<and> max_dev <s llabs (prc - trunc64 (bid + ask) 2))"
  by (auto simp: check_market_data_and_deviation_def reject_reasons)

lemma check_max_leverage_0:
  "check_max_leverage bal expo est mx = 0 \<longleftrightarrow> 0 <s bal \<and> \<not> mx <s trunc64 ((expo + est) * 10000) bal"
  by (auto simp: check_max_leverage_def reject_reasons signed_order)

text \<open>The tick test: every entry of the table whose range covers the price (or that has no upper
  price) must have a positive tick size dividing the price.\<close>

definition tick_ok :: "(nat \<Rightarrow> TickSizeEntry) \<Rightarrow> i64 \<Rightarrow> nat option \<Rightarrow> bool" where
  "tick_ok pool prc e \<longleftrightarrow>
     (case e of None \<Rightarrow> True
      | Some p \<Rightarrow>
          (price_to (pool p) = 0 \<or> price_from (pool p) \<le>s prc \<and> prc \<le>s price_to (pool p)) \<longrightarrow>
            0 <s tick_size (pool p) \<and> sint prc smod sint (tick_size (pool p)) = 0)"

lemma check_price_tick_0:
  "check_price_tick_loop pool prc es = 0 \<longleftrightarrow> (\<forall>e \<in> set es. tick_ok pool prc e)"
  by (induction es) (auto simp: Let_def reject_reasons tick_ok_def signed_order split: option.splits)

text \<open>The conditions under which the limit checks and the main checks give no reason.\<close>

definition limit_ok :: "Instruments \<Rightarrow> SymbolMeta \<Rightarrow> SymbolLimit \<Rightarrow> SymbolRisk \<Rightarrow> Order \<Rightarrow> bool" where
  "limit_ok ins sm sl sr ord \<longleftrightarrow>
     (\<forall>e \<in> set (tick_size_table sm). tick_ok (tick_size_entry_pool ins) (price ord) e)
     \<and> price ord * i64_of_u32 (quantity ord) \<le>s max_order_notional_scaled sl
     \<and> pending_notional_scaled sr + price ord * i64_of_u32 (quantity ord) * (if side ord = Buy then 1 else - 1)
         \<le>s max_exposure_scaled sl
     \<and> (sym_best_bid sr \<noteq> 0 \<or> sym_best_ask sr \<noteq> 0)
     \<and> (0 <s max_price_deviation sl \<longrightarrow>
          llabs (price ord - trunc64 (sym_best_bid sr + sym_best_ask sr) 2) \<le>s max_price_deviation sl)
     \<and> (let mid = trunc64 (sym_best_bid sr + sym_best_ask sr) 2
        in 0 <s mid \<and> fat_finger_qty_threshold sl \<le> quantity ord \<longrightarrow>
             trunc64 (price ord * 1000) mid \<le>s fat_finger_ratio sl)"

definition account_ok :: "Order \<Rightarrow> AccountRisk \<Rightarrow> AccountLimit \<Rightarrow> SymbolRisk \<Rightarrow> bool" where
  "account_ok ord ar al sr \<longleftrightarrow>
     (let est = price ord * i64_of_u32 (quantity ord); avg = i64_of_i32 (avg_entry_price sr);
          q = i64_of_u32 (quantity ord)
      in acc_status ar = Active \<and> 0 <s balance ar
         \<and> trunc64 ((current_exposure ar + est) * 10000) (balance ar) \<le>s max_leverage al
         \<and> - max_daily_loss al \<le>s daily_realized_pnl ar + (if side ord = Sell then (price ord - avg) * q else 0)
         \<and> - max_unrealized_loss al \<le>s (if side ord = Buy
               then total_unrealized_pnl ar + (sym_best_bid sr - price ord) * q
               else total_unrealized_pnl ar - (sym_best_bid sr - avg) * q)
         \<and> (0 <s price ord \<and> order_type ord = Limit \<longrightarrow>
              est \<le>s balance ar + total_unrealized_pnl ar - used_margin ar \<and> est \<le>s balance ar
              \<and> current_exposure ar + est \<le>s max_notional al))"

definition main_ok ::
  "RiskEngine \<Rightarrow> SymbolMeta \<Rightarrow> SymbolLimit \<Rightarrow> AccountLimit \<Rightarrow> AccountRisk \<Rightarrow> SymbolRisk \<Rightarrow> nat \<Rightarrow> Order \<Rightarrow> bool" where
  "main_ok re sm sl al ar sr v ord \<longleftrightarrow>
     min_qty sl \<le> quantity ord \<and> quantity ord \<le> max_qty sl
     \<and> round_lot_size sm \<noteq> 0 \<and> quantity ord mod round_lot_size sm = 0
     \<and> acc_open_orders_count ar < acc_max_open_orders al \<and> sym_open_orders_count sr < sym_max_open_orders sl
     \<and> check_self_trade_order re ord v = 0
     \<and> llabs (net_position sr + (if side ord = Buy then 1 else - 1) * i64_of_u32 (quantity ord))
         \<le>s llabs (max_position_scaled sl)
     \<and> account_ok ord ar al sr"

lemma limit_reasons_0: "limit_reasons ins sm sl sr ord = 0 \<longleftrightarrow> limit_ok ins sm sl sr ord"
  by (auto simp: limit_reasons_def or_eq_0_iff check_price_tick_valid_def check_price_tick_0 Let_def
      check_max_order_notional_value_def check_max_symbol_exposure_value_def check_market_data_0
      check_fat_finger_def reason_if_eq_0 limit_ok_def signed_order not_less)

lemma check_account_risk_0:
  "check_account_risk ord ar al sr (price ord) (quantity ord) = 0 \<longleftrightarrow> account_ok ord ar al sr"
  unfolding check_account_risk_def account_ok_def Let_def
  by (simp add: or_eq_0_iff check_acc_status_def check_max_leverage_0 check_max_drawdown_def
      check_unrealized_loss_def check_free_margin_def check_balance_def check_max_notional_def
      reason_if_eq_0 signed_order not_less)

lemma main_reasons_0:
  "main_reasons re sm sl al ar sr v ord = Some 0 \<longleftrightarrow> main_ok re sm sl al ar sr v ord"
  by (auto simp: main_reasons_def bind_eq_Some_conv or_eq_0_iff check_quantity_bounds_0
      check_max_open_orders_account_def check_max_open_orders_symbol_def check_max_position_limit_def
      check_account_risk_0 reason_if_eq_0 main_ok_def signed_order not_less not_le)

text \<open>What the code reads for an order, and that none of it is outside its table.\<close>

definition order_context ::
  "Instruments \<Rightarrow> Limits \<Rightarrow> Order \<Rightarrow> (AccountLimit \<times> SymbolLimit \<times> SymbolMeta \<times> u8) option" where
  "order_context ins lim ord = do {
     _ \<leftarrow> guard (venue_index (venue ord) < VENUE_COUNT \<and> unat (symbol_index ord) < MAX_SYMBOL_COUNT);
     al \<leftarrow> getAccountLimit lim (venue_index (venue ord));
     sl \<leftarrow> getSymbolLimit lim (venue_index (venue ord)) (symbol_index ord);
     sm \<leftarrow> Option.bind (get_symbolmeta ins (venue ord) (instrument_id ord)) id;
     flags \<leftarrow> get_venue_flags ins (venue ord);
     Some (al, sl, sm, flags) }"

definition tradable :: "u8 \<Rightarrow> SymbolMeta \<Rightarrow> bool" where
  "tradable flags sm \<longleftrightarrow> flags \<noteq> HALTED \<and> flags \<noteq> C_BREAKER \<and> \<not> halted sm"

definition halt_reason :: "u8 \<Rightarrow> u32" where
  "halt_reason flags =
     (if flags = HALTED then VenueTradingHalted
      else if flags = C_BREAKER then CircuitBreakerTriggered else SymbolTradingHalted)"

lemma order_contextD:
  assumes "order_context ins lim ord = Some (al, sl, sm, flags)"
  shows "venue_index (venue ord) < VENUE_COUNT" "unat (symbol_index ord) < MAX_SYMBOL_COUNT"
    "getAccountLimit lim (venue_index (venue ord)) = Some al"
    "getSymbolLimit lim (venue_index (venue ord)) (symbol_index ord) = Some sl"
    "get_symbolmeta ins (venue ord) (instrument_id ord) = Some (Some sm)"
    "get_venue_flags ins (venue ord) = Some flags"
  using assms by (simp_all add: order_context_def guard_def bind_eq_Some_conv split: if_splits)

lemma bind_then_Some: "Option.bind m (\<lambda>r. Some (f r)) = map_option f m"
  by (cases m) simp_all

lemma bind_None_right: "Option.bind m (\<lambda>_. None) = None"
  by (cases m) simp_all

lemma halt_reason_nonzero: "halt_reason flags \<noteq> 0"
  by (simp add: halt_reason_def reject_reasons)

lemma check_order_unfold:
  assumes "order_context ins lim (heap re p) = Some (al, sl, sm, flags)"
  shows "check_order ins lim now_ns p re =
    (let ord = heap re p; v = venue_index (venue ord); i = unat (symbol_index ord);
         ar = accountrisks re v; sr = symbolrisks re v i
     in if \<not> tradable flags sm then Some (False, push_reject p (halt_reason flags) re)
        else if status ord = CancelRequest
        then let (reached, re2) = check_cancel_rate_limit now_ns v i p re
             in Some (if reached then (True, forward_order p re2) else (False, re2))
        else if order_type ord = Limit \<and> limit_reasons ins sm sl sr ord \<noteq> 0
        then Some (False, push_reject p (limit_reasons ins sm sl sr ord) re)
        else map_option (\<lambda>r. if r \<noteq> 0 then (False, push_reject p r re) else (True, forward_order p re))
               (main_reasons re sm sl al ar sr v ord))"
proof -
  note ctx = order_contextD [OF assms]
  show ?thesis
  proof (cases "tradable flags sm")
    case False
    then have "check_venue_halt_and_circuit ins p sm re = Some (True, push_reject p (halt_reason flags) re)"
      by (auto simp: check_venue_halt_and_circuit_def ctx(6) tradable_def halt_reason_def)
    then show ?thesis using False by (simp add: check_order_def Let_def guard_def ctx(1-5))
  next
    case True
    then have "check_venue_halt_and_circuit ins p sm re = Some (False, re)"
      by (simp add: check_venue_halt_and_circuit_def ctx(6) tradable_def)
    then show ?thesis using True by (simp add: check_order_def Let_def guard_def ctx(1-5) bind_then_Some)
  qed
qed

lemma check_order_context:
  assumes "check_order ins lim now_ns p re = Some r"
  obtains al sl sm flags where "order_context ins lim (heap re p) = Some (al, sl, sm, flags)"
proof (cases "order_context ins lim (heap re p)")
  case None
  let ?o = "heap re p"
  have "check_order ins lim now_ns p re = None"
  proof (cases "get_venue_flags ins (venue ?o)")
    case None
    then have "check_venue_halt_and_circuit ins p sm re = None" for sm
      by (simp add: check_venue_halt_and_circuit_def)
    then show ?thesis by (simp add: check_order_def Let_def bind_None_right)
  next
    case (Some flags)
    with \<open>order_context ins lim ?o = None\<close> show ?thesis
      by (auto simp: order_context_def check_order_def Let_def guard_def bind_eq_None_conv split: if_splits)
  qed
  then show ?thesis using assms by simp
qed (use that in auto)

lemma forward_order_heap:
  "canModify (heap (forward_order p re) p) = canModify (heap re p) OR RISK_DONE"
  "risk_to_builder (forward_order p re) = snd (spsc_push Q1024 p (risk_to_builder re))"
  "risk_to_strategy (forward_order p re) = risk_to_strategy re"
  by (simp_all add: forward_order_def)

subsection \<open>Properties\<close>

text \<open>A small concrete engine for the examples: one symbol, generous limits, one order.\<close>

definition sample_instruments :: Instruments where
  "sample_instruments = empty_instruments\<lparr>instrument_cache := (\<lambda>_. [1 \<mapsto>
     \<lparr>meta_instrument_id = 1, round_lot_size = 1, tick_size_table = [], meta_symbol = [],
      halted = False, flushed = False\<rparr>])\<rparr>"

definition sample_limits :: Limits where
  "sample_limits =
     (let sl = zero_symbollimit\<lparr>max_qty := 100, sym_max_open_orders := 10, max_position_scaled := 1000\<rparr>;
          al = zero_accountlimit\<lparr>acc_max_open_orders := 10, max_leverage := 100000, max_unrealized_loss := 100000\<rparr>
      in \<lparr>symbol_limits = [[sl], [sl]], account_limits = [al, al]\<rparr>)"

definition sample_engine :: "Order \<Rightarrow> RiskEngine" where
  "sample_engine ord =
     (let ol = \<lparr>tokens = 2, last_refill_ns = 0, capacity = 2, refill_interval_ns = 1000\<rparr>;
          cl = \<lparr>last_cancel_timestamp_ns = 0, cancel_count_window = 0, max_cancels_per_sec = 5\<rparr>
      in \<lparr>accountrisks = (\<lambda>_. \<lparr>current_exposure = 0, balance = 100000, positional_exposure = 0, used_margin = 0,
            current_leverage = 0, daily_realized_pnl = 0, total_unrealized_pnl = 0, acc_open_orders_count = 0,
            acc_status = Active, acc_orderratelimit = ol, acc_cancelratelimit = cl\<rparr>),
          symbolrisks = (\<lambda>_ _. \<lparr>pending_notional_scaled = 0, sym_open_orders_count = 0, sym_best_bid = 99,
            sym_best_ask = 101, unrealized_pnl = 0, cost_basis_scaled = 0, realized_pnl = 0, net_position = 0,
            avg_entry_price = 0, sym_orderratelimit = ol, sym_cancelratelimit = cl\<rparr>),
          orderrisks = (\<lambda>_. Map.empty),
          orderrisk_pool = (\<lambda>_. \<lparr>or_price = 0, or_symbol_index = 0, or_remaining_qty = 0, or_side = Side_Unknown,
            or_status = Status_Unknown, or_active = False, or_venue = BIST\<rparr>),
          orderrisk_next_slot = 0, reject_order_pool = (\<lambda>_. (0, 0)), rejord_next_slot = 0, pipeline_seq = 0,
          store_to_risk = spsc_init Q1024, strategy_to_risk = snd (spsc_push Q1024 0 (spsc_init Q1024)),
          risk_to_strategy = spsc_init Q1024, risk_to_builder = spsc_init Q1024, heap = (\<lambda>_. ord)\<rparr>)"

definition sample_market_order :: Order where
  "sample_market_order = (sample_order Buy 100 5)\<lparr>instrument_id := 1, order_type := Market, status := New, isOurOrder := True\<rparr>"

lemma sample_context:
  "order_context sample_instruments sample_limits (ord\<lparr>venue := BIST, symbol_index := 0, instrument_id := 1\<rparr>) =
     Some (account_limits sample_limits ! 0, symbol_limits sample_limits ! 0 ! 0,
           the (instrument_cache sample_instruments 0 1), 0)"
  by (simp add: order_context_def sample_instruments_def sample_limits_def empty_instruments_def guard_def
      VENUE_COUNT_def MAX_SYMBOL_COUNT_def getAccountLimit_def getSymbolLimit_def nth_opt_def
      get_symbolmeta_def get_venue_flags_def Let_def)

text \<open>C1. The risk gate is sound: an order other than a cancel request reaches the builder only when
  trading is not halted and every limit holds in the engine's state, that is quantity and lot size,
  open-order counts, self trading, position, account status, leverage, realised and unrealised loss,
  and for limit orders also tick size, notional, exposure, price deviation, fat finger, margin and
  balance.  It is then pushed to the builder and marked as done by risk.\<close>

theorem check_order_accepts_only_within_limits:
  assumes "check_order ins lim now_ns p re = Some (True, re')" "status (heap re p) \<noteq> CancelRequest"
  shows "\<exists>al sl sm flags. order_context ins lim (heap re p) = Some (al, sl, sm, flags) \<and> tradable flags sm
    \<and> (let ord = heap re p; v = venue_index (venue ord);
           ar = accountrisks re v; sr = symbolrisks re v (unat (symbol_index ord))
       in (order_type ord = Limit \<longrightarrow> limit_ok ins sm sl sr ord) \<and> main_ok re sm sl al ar sr v ord)
    \<and> canModify (heap re' p) = canModify (heap re p) OR RISK_DONE
    \<and> risk_to_builder re' = snd (spsc_push Q1024 p (risk_to_builder re))"
proof -
  obtain al sl sm flags where ctx: "order_context ins lim (heap re p) = Some (al, sl, sm, flags)"
    by (rule check_order_context [OF assms(1)])
  show ?thesis
    using assms ctx
    by (auto simp: check_order_unfold [OF ctx] Let_def limit_reasons_0 main_reasons_0 forward_order_heap
        split: if_splits option.splits)
qed

theorem check_order_accepts_only_within_limits_witness:
  "\<exists>re'. check_order sample_instruments sample_limits 5 0 (sample_engine sample_market_order) = Some (True, re')
    \<and> canModify (heap re' 0) = canModify sample_market_order OR RISK_DONE"
proof -
  let ?re = "sample_engine sample_market_order"
  have "map_option fst (check_order sample_instruments sample_limits 5 0 ?re) = Some True" by code_simp
  then obtain re' where c: "check_order sample_instruments sample_limits 5 0 ?re = Some (True, re')" by auto
  have "heap ?re 0 = sample_market_order" "status sample_market_order \<noteq> CancelRequest"
    by (simp_all add: sample_engine_def sample_market_order_def Let_def)
  then show ?thesis using check_order_accepts_only_within_limits [OF c] c by auto
qed

text \<open>C2. The risk gate is complete: an order that is not a cancel request and is within every limit is
  forwarded to the builder.\<close>

theorem check_order_accepts_all_within_limits:
  assumes "order_context ins lim (heap re p) = Some (al, sl, sm, flags)" "tradable flags sm"
    and "status (heap re p) \<noteq> CancelRequest" and "v = venue_index (venue (heap re p))"
    and "sr = symbolrisks re v (unat (symbol_index (heap re p)))"
    and "order_type (heap re p) = Limit \<longrightarrow> limit_ok ins sm sl sr (heap re p)"
    and "main_ok re sm sl al (accountrisks re v) sr v (heap re p)"
  shows "check_order ins lim now_ns p re = Some (True, forward_order p re)"
proof -
  have "main_reasons re sm sl al (accountrisks re v) sr v (heap re p) = Some 0"
    using assms(7) by (simp add: main_reasons_0)
  then show ?thesis
    using assms(2-6) by (simp add: check_order_unfold [OF assms(1)] Let_def limit_reasons_0)
qed

theorem check_order_accepts_all_within_limits_witness:
  "check_order sample_instruments sample_limits 5 0 (sample_engine sample_market_order)
    = Some (True, forward_order 0 (sample_engine sample_market_order))"
proof -
  let ?re = "sample_engine sample_market_order" and ?o = sample_market_order
  let ?al = "account_limits sample_limits ! 0" and ?sl = "symbol_limits sample_limits ! 0 ! 0"
    and ?sm = "the (instrument_cache sample_instruments 0 1)"
  have h: "heap ?re 0 = ?o" by (simp add: sample_engine_def Let_def)
  have v: "venue ?o = BIST" "symbol_index ?o = 0" "instrument_id ?o = 1" "status ?o = New" "order_type ?o = Market"
    by (simp_all add: sample_market_order_def sample_order_def default_order_def)
  have "?o = ?o\<lparr>venue := BIST, symbol_index := 0, instrument_id := 1\<rparr>" using v by simp
  then have ctx: "order_context sample_instruments sample_limits (heap ?re 0) = Some (?al, ?sl, ?sm, 0)"
    unfolding h using sample_context [of ?o] by metis
  have "main_ok ?re ?sm ?sl ?al (accountrisks ?re 0) (symbolrisks ?re 0 0) 0 (heap ?re 0)" by code_simp
  moreover have "tradable 0 ?sm" by code_simp
  ultimately show ?thesis
    using check_order_accepts_all_within_limits [OF ctx, of 0 "symbolrisks ?re 0 0"] by (simp add: h v)
qed

text \<open>The reject packets that wait for the strategy, each with its order and its reason, and what it takes for one
  more: room in the queue, and a next packet of the pool that does not still wait in it.\<close>

definition rejects :: "RiskEngine \<Rightarrow> (nat \<times> u32) list" where
  "rejects re = map (reject_order_pool re) (spsc_rep Q1024 (risk_to_strategy re))"

definition reject_room :: "RiskEngine \<Rightarrow> bool" where
  "reject_room re \<longleftrightarrow> spsc_inv Q1024 (risk_to_strategy re) \<and> length (spsc_rep Q1024 (risk_to_strategy re)) < 1024
     \<and> unat (rejord_next_slot re AND 1023) \<notin> set (spsc_rep Q1024 (risk_to_strategy re))"

lemma push_reject_waits:
  assumes "reject_room re"
  shows "rejects (push_reject p r re) = rejects re @ [(p, r)]"
proof -
  let ?k = "unat (rejord_next_slot re AND 1023)"
  have q: "spsc_inv Q1024 (risk_to_strategy re)" "spsc_len (risk_to_strategy re) < 2 ^ (Q1024 + 3)"
    "?k \<notin> set (spsc_rep Q1024 (risk_to_strategy re))" using assms by (simp_all add: reject_room_def Q1024_def)
  have "spsc_rep Q1024 (snd (spsc_push Q1024 ?k (risk_to_strategy re))) = spsc_rep Q1024 (risk_to_strategy re) @ [?k]"
    using spsc_enq(2) [OF q(1,2), of ?k] q(2) by (simp add: spsc_push_cases [OF q(1)])
  moreover have "risk_to_strategy (push_reject p r re) = snd (spsc_push Q1024 ?k (risk_to_strategy re))"
    "reject_order_pool (push_reject p r re) = (reject_order_pool re)(?k := (p, r))"
    by (simp_all add: push_reject_def get_reject_order_packet_def REJECTORDER_POOL_CAPACITY_def Let_def)
  ultimately show ?thesis using q(3) by (auto simp: rejects_def)
qed

text \<open>When the queue is full the packet is lost: the strategy is not told.\<close>

lemma reject_lost_when_full:
  assumes "spsc_inv Q1024 (risk_to_strategy re)" "length (spsc_rep Q1024 (risk_to_strategy re)) = 1024"
  shows "risk_to_strategy (push_reject p r re) = risk_to_strategy re"
proof -
  have "\<not> spsc_len (risk_to_strategy re) < 2 ^ (Q1024 + 3)" using assms(2) by (simp add: Q1024_def)
  then show ?thesis by (simp add: push_reject_def get_reject_order_packet_def Let_def spsc_push_cases [OF assms(1)])
qed

text \<open>C3. An order that is not forwarded and is not a cancel request is answered, provided the queue to the strategy has
  room and the next packet of the pool is not still waiting in it: behind the reject packets that wait
  there is exactly one more, with this order and a non-zero reason.  Neither the order nor any account or
  symbol figure changes, and nothing goes to the builder.\<close>

theorem check_order_rejects_with_reason:
  assumes "check_order ins lim now_ns p re = Some (False, re')" "status (heap re p) \<noteq> CancelRequest" "reject_room re"
  shows "\<exists>r. r \<noteq> 0 \<and> rejects re' = rejects re @ [(p, r)] \<and> heap re' = heap re \<and> accountrisks re' = accountrisks re
    \<and> symbolrisks re' = symbolrisks re \<and> risk_to_builder re' = risk_to_builder re"
proof -
  obtain al sl sm flags where ctx: "order_context ins lim (heap re p) = Some (al, sl, sm, flags)"
    by (rule check_order_context [OF assms(1)])
  have "\<exists>r. r \<noteq> 0 \<and> re' = push_reject p r re"
    using assms(1,2) by (auto simp: check_order_unfold [OF ctx] Let_def split: if_splits)
      (use halt_reason_nonzero in blast)
  then obtain r where r: "r \<noteq> 0" "re' = push_reject p r re" by blast
  have "rejects re' = rejects re @ [(p, r)]" unfolding r(2) by (rule push_reject_waits [OF assms(3)])
  then show ?thesis using r by (auto simp: push_reject_def get_reject_order_packet_def Let_def)
qed

theorem check_order_rejects_with_reason_witness:
  "\<exists>r re'. check_order sample_instruments sample_limits 5 0 (sample_engine (sample_market_order\<lparr>quantity := 500\<rparr>))
      = Some (False, re') \<and> r \<noteq> 0 \<and> rejects re' = [(0, r)]"
proof -
  let ?re = "sample_engine (sample_market_order\<lparr>quantity := 500\<rparr>)"
  have "map_option fst (check_order sample_instruments sample_limits 5 0 ?re) = Some False" by code_simp
  then obtain re' where c: "check_order sample_instruments sample_limits 5 0 ?re = Some (False, re')" by auto
  have "status (heap ?re 0) \<noteq> CancelRequest"
    by (simp add: sample_engine_def sample_market_order_def Let_def)
  moreover have "reject_room ?re" "rejects ?re = []"
    by (simp_all add: reject_room_def rejects_def sample_engine_def Let_def spsc_init_inv Q1024_def)
  ultimately show ?thesis using check_order_rejects_with_reason [OF c] c by auto
qed

text \<open>Cancel requests are forwarded to the builder exactly when the cancel rate of the account or of
  the symbol is exceeded.  Below the limit the request is dropped: it is neither sent on nor
  answered.\<close>

theorem cancel_forwarded_iff_rate_exceeded:
  assumes "order_context ins lim (heap re p) = Some (al, sl, sm, flags)" "tradable flags sm"
    and "status (heap re p) = CancelRequest" "v = venue_index (venue (heap re p))"
    and "i = unat (symbol_index (heap re p))"
  shows "\<exists>re' forwarded. check_order ins lim now_ns p re = Some (forwarded, re')
    \<and> (forwarded \<longleftrightarrow> fst (cancel_bucket now_ns (acc_cancelratelimit (accountrisks re v)))
          \<or> fst (cancel_bucket now_ns (sym_cancelratelimit (symbolrisks re v i))))
    \<and> (\<not> forwarded \<longrightarrow> heap re' = heap re \<and> risk_to_builder re' = risk_to_builder re
          \<and> risk_to_strategy re' = risk_to_strategy re)"
  using assms(2-5)
  by (auto simp: check_order_unfold [OF assms(1)] Let_def check_cancel_rate_limit_def case_prod_beta
      upd_acc_def upd_sym_def push_reject_def)

theorem cancel_forwarded_iff_rate_exceeded_witness:
  "\<exists>re'. check_order sample_instruments sample_limits 5 0 (sample_engine (sample_market_order\<lparr>status := CancelRequest\<rparr>))
      = Some (False, re') \<and> risk_to_builder re' = spsc_init Q1024 \<and> risk_to_strategy re' = spsc_init Q1024"
proof -
  let ?o = "sample_market_order\<lparr>status := CancelRequest\<rparr>"
  let ?re = "sample_engine ?o"
  have h: "heap ?re 0 = ?o" "risk_to_builder ?re = spsc_init Q1024" "risk_to_strategy ?re = spsc_init Q1024"
    by (simp_all add: sample_engine_def Let_def)
  have v: "venue ?o = BIST" "symbol_index ?o = 0" "instrument_id ?o = 1" "status ?o = CancelRequest"
    by (simp_all add: sample_market_order_def sample_order_def default_order_def)
  have "?o = ?o\<lparr>venue := BIST, symbol_index := 0, instrument_id := 1\<rparr>" using v by simp
  then have ctx: "order_context sample_instruments sample_limits (heap ?re 0)
      = Some (account_limits sample_limits ! 0, symbol_limits sample_limits ! 0 ! 0,
              the (instrument_cache sample_instruments 0 1), 0)"
    unfolding h using sample_context [of ?o] by metis
  have t: "tradable 0 (the (instrument_cache sample_instruments 0 1))" by code_simp
  have b: "\<not> fst (cancel_bucket 5 (acc_cancelratelimit (accountrisks ?re 0)))"
    "\<not> fst (cancel_bucket 5 (sym_cancelratelimit (symbolrisks ?re 0 0)))" by code_simp+
  show ?thesis
    using cancel_forwarded_iff_rate_exceeded [OF ctx t, of 0 0 5] h v b by auto
qed

lemma check_order_unforwarded:
  assumes "check_order ins lim now_ns p re = Some (False, re')"
  shows "heap re' = heap re" "strategy_to_risk re' = strategy_to_risk re" "risk_to_builder re' = risk_to_builder re"
proof -
  obtain al sl sm flags where ctx: "order_context ins lim (heap re p) = Some (al, sl, sm, flags)"
    by (rule check_order_context [OF assms])
  show "heap re' = heap re" "strategy_to_risk re' = strategy_to_risk re" "risk_to_builder re' = risk_to_builder re"
    using assms
    by (auto simp: check_order_unfold [OF ctx] Let_def check_cancel_rate_limit_def case_prod_beta upd_acc_def
        upd_sym_def push_reject_def get_reject_order_packet_def split: if_splits)
qed

text \<open>The order \<open>p\<close> has been forwarded, and nothing else: it is marked and pushed to the builder.\<close>

definition forwarded :: "nat \<Rightarrow> RiskEngine \<Rightarrow> RiskEngine \<Rightarrow> bool" where
  "forwarded p re re' \<longleftrightarrow> heap re' = (heap re)(p := (heap re p)\<lparr>canModify := canModify (heap re p) OR RISK_DONE\<rparr>)
     \<and> risk_to_builder re' = snd (spsc_push Q1024 p (risk_to_builder re))"

lemma check_order_forwarded:
  assumes "check_order ins lim now_ns p re = Some (True, re')"
  shows "forwarded p re re'" "strategy_to_risk re' = strategy_to_risk re"
proof -
  obtain al sl sm flags where ctx: "order_context ins lim (heap re p) = Some (al, sl, sm, flags)"
    by (rule check_order_context [OF assms])
  show "forwarded p re re'" "strategy_to_risk re' = strategy_to_risk re"
    using assms
    by (auto simp: check_order_unfold [OF ctx] Let_def check_cancel_rate_limit_def case_prod_beta upd_acc_def
        upd_sym_def push_reject_def get_reject_order_packet_def forwarded_def forward_order_def split: if_splits)
qed

text \<open>An order the checks can process: its tables exist and its lot size is not 0, so the remainder
  by the lot size is defined.\<close>

definition checkable :: "Instruments \<Rightarrow> Limits \<Rightarrow> Order \<Rightarrow> bool" where
  "checkable ins lim ord \<longleftrightarrow>
     (case order_context ins lim ord of None \<Rightarrow> False | Some (al, sl, sm, flags) \<Rightarrow> round_lot_size sm \<noteq> 0)"

lemma check_order_total:
  assumes "checkable ins lim (heap re p)"
  shows "\<exists>b re'. check_order ins lim now_ns p re = Some (b, re')"
proof -
  obtain al sl sm flags where ctx: "order_context ins lim (heap re p) = Some (al, sl, sm, flags)"
    and lot: "round_lot_size sm \<noteq> 0"
    using assms by (auto simp: checkable_def split: option.splits)
  have "main_reasons re sm sl al ar sr v ord \<noteq> None" for ar sr v ord
    using lot by (auto simp: main_reasons_def check_quantity_bounds_def)
  then have "check_order ins lim now_ns p re \<noteq> None"
    by (simp add: check_order_unfold [OF ctx] Let_def case_prod_beta del: not_None_eq)
  then show ?thesis by auto
qed

text \<open>What a call of \<open>check_risk\<close> leaves: when it says that an order was forwarded, one of the queue's orders has been,
  those before it have been taken and not forwarded, and those behind it still wait.\<close>

definition risk_checked :: "bool \<Rightarrow> RiskEngine \<Rightarrow> RiskEngine \<Rightarrow> bool" where
  "risk_checked b re re' \<longleftrightarrow>
     (if b then \<exists>ps p qs. spsc_rep Q1024 (strategy_to_risk re) = ps @ p # qs \<and> spsc_rep Q1024 (strategy_to_risk re') = qs \<and> forwarded p re re'
      else spsc_rep Q1024 (strategy_to_risk re') = [] \<and> heap re' = heap re \<and> risk_to_builder re' = risk_to_builder re)"

lemma risk_checked_later:
  assumes "risk_checked b re1 re'" "heap re1 = heap re" "risk_to_builder re1 = risk_to_builder re"
    and "spsc_rep Q1024 (strategy_to_risk re) = p # spsc_rep Q1024 (strategy_to_risk re1)"
  shows "risk_checked b re re'"
proof (cases b)
  case True
  then obtain ps r qs where "spsc_rep Q1024 (strategy_to_risk re1) = ps @ r # qs" "spsc_rep Q1024 (strategy_to_risk re') = qs" "forwarded r re1 re'"
    using assms(1) by (auto simp: risk_checked_def)
  then have "spsc_rep Q1024 (strategy_to_risk re) = (p # ps) @ r # qs" "spsc_rep Q1024 (strategy_to_risk re') = qs" "forwarded r re re'"
    using assms(2-4) by (simp_all add: forwarded_def)
  then show ?thesis using True unfolding risk_checked_def by (simp only: if_True) blast
next
  case False
  then show ?thesis using assms by (simp add: risk_checked_def)
qed

lemma check_risk_loop_returns:
  assumes "spsc_inv Q1024 (strategy_to_risk re)" "length (spsc_rep Q1024 (strategy_to_risk re)) < n"
    and "\<forall>p \<in> set (spsc_rep Q1024 (strategy_to_risk re)). checkable ins lim (heap re p)"
  shows "\<exists>b re'. check_risk_loop n ins lim clock re = Some (b, re') \<and> risk_checked b re re'"
  using assms
proof (induction n arbitrary: re)
  case (Suc n)
  let ?q = "strategy_to_risk re"
  show ?case
  proof (cases "spsc_rep Q1024 ?q")
    case Nil
    have "fst (spsc_pop Q1024 ?q) = None" and "spsc_rep Q1024 (snd (spsc_pop Q1024 ?q)) = []"
      using spsc.pop_val [OF Suc.prems(1)] spsc.pop_rep [OF Suc.prems(1)] Nil by simp_all
    then show ?thesis by (cases "spsc_pop Q1024 ?q") (auto simp: risk_checked_def intro: exI [of _ False])
  next
    case (Cons p ps)
    obtain q' where pop: "spsc_pop Q1024 ?q = (Some p, q')"
      using spsc.pop_val [OF Suc.prems(1)] Cons by (cases "spsc_pop Q1024 ?q") simp
    have q': "spsc_inv Q1024 q'" "spsc_rep Q1024 q' = ps"
      using spsc.pop_inv [OF Suc.prems(1)] spsc.pop_rep [OF Suc.prems(1)] pop Cons by simp_all
    let ?re = "re\<lparr>strategy_to_risk := q'\<rparr>"
    obtain b re1 where c: "check_order ins lim (clock n) p ?re = Some (b, re1)"
      using check_order_total [of ins lim ?re p "clock n"] Suc.prems(3) Cons by auto
    show ?thesis
    proof (cases b)
      case True
      have "check_order ins lim (clock n) p ?re = Some (True, re1)" using c True by simp
      note f = check_order_forwarded [OF this]
      have "spsc_rep Q1024 ?q = [] @ p # ps" "spsc_rep Q1024 (strategy_to_risk re1) = ps" "forwarded p re re1"
        using Cons f q'(2) by (simp_all add: forwarded_def)
      then have "risk_checked True re re1" unfolding risk_checked_def by (simp only: if_True) blast
      then show ?thesis using True c pop by auto
    next
      case False
      have "check_order ins lim (clock n) p ?re = Some (False, re1)" using c False by simp
      note u = check_order_unforwarded [OF this]
      have "\<exists>b re'. check_risk_loop n ins lim clock re1 = Some (b, re') \<and> risk_checked b re1 re'"
        using u q' Suc.prems(2,3) Cons by (intro Suc.IH) simp_all
      then obtain b' re' where r: "check_risk_loop n ins lim clock re1 = Some (b', re')" "risk_checked b' re1 re'" by blast
      have "risk_checked b' re re'" by (rule risk_checked_later [OF r(2)]) (use u q'(2) Cons in simp_all)
      then show ?thesis using r(1) False c pop by auto
    qed
  qed
qed simp

text \<open>C35. \<^verbatim>\<open>check_risk\<close> terminates and returns for every content of its queue, provided the queued orders
  have limits, metadata and a non-zero lot size.  When it returns true, exactly one order of the queue has
  been marked and pushed to the builder, those in front of it have been taken without being forwarded and
  those behind it still wait; when it returns false it has worked through the whole queue, forwarded
  none of the orders and changed none.  (The result of the push is ignored by the code: a queue of the builder that is full stays as it is.)\<close>

theorem check_risk_returns:
  assumes "spsc_inv Q1024 (strategy_to_risk re)"
    and "\<forall>p \<in> set (spsc_rep Q1024 (strategy_to_risk re)). checkable ins lim (heap re p)"
  shows "\<exists>b re'. check_risk ins lim clock re = Some (b, re')
    \<and> (b \<longrightarrow> (\<exists>ps p qs. spsc_rep Q1024 (strategy_to_risk re) = ps @ p # qs \<and> spsc_rep Q1024 (strategy_to_risk re') = qs
          \<and> heap re' = (heap re)(p := (heap re p)\<lparr>canModify := canModify (heap re p) OR RISK_DONE\<rparr>)
          \<and> risk_to_builder re' = snd (spsc_push Q1024 p (risk_to_builder re))))
    \<and> (\<not> b \<longrightarrow> spsc_rep Q1024 (strategy_to_risk re') = [] \<and> heap re' = heap re \<and> risk_to_builder re' = risk_to_builder re)"
proof -
  have "length (spsc_rep Q1024 (strategy_to_risk re)) < 1025"
    using spsc.rep_bound [OF assms(1)] by (simp add: Q1024_def)
  from check_risk_loop_returns [OF assms(1) this assms(2), of clock] obtain b re' where
    r: "check_risk ins lim clock re = Some (b, re')" "risk_checked b re re'" unfolding check_risk_def by blast
  then show ?thesis by (intro exI [of _ b] exI [of _ re']) (cases b, simp_all add: risk_checked_def forwarded_def)
qed

theorem check_risk_returns_witness:
  "\<exists>re' re''. check_risk sample_instruments sample_limits (\<lambda>_. 5) (sample_engine sample_market_order) = Some (True, re')
     \<and> spsc_rep Q1024 (risk_to_builder re') = [0]
     \<and> check_risk sample_instruments sample_limits (\<lambda>_. 5) (sample_engine (sample_market_order\<lparr>quantity := 500\<rparr>)) = Some (False, re'')
     \<and> risk_to_builder re'' = spsc_init Q1024"
proof -
  have i: "spsc_inv Q1024 (spsc_init Q1024)" by (rule spsc_init_inv) (simp add: Q1024_def)
  have ready: "spsc_inv Q1024 (strategy_to_risk (sample_engine ord))" "spsc_rep Q1024 (strategy_to_risk (sample_engine ord)) = [0]"
    "risk_to_builder (sample_engine ord) = spsc_init Q1024" for ord
    using spsc.push_inv [OF i] spsc.push_rep [OF i] by (simp_all add: sample_engine_def Let_def)
  let ?re = "sample_engine sample_market_order" and ?rf = "sample_engine (sample_market_order\<lparr>quantity := 500\<rparr>)"
  have "checkable sample_instruments sample_limits (heap ?re 0)" by code_simp
  then obtain b re' where r: "check_risk sample_instruments sample_limits (\<lambda>_. 5) ?re = Some (b, re')"
    "b \<longrightarrow> risk_to_builder re' = snd (spsc_push Q1024 0 (risk_to_builder ?re))"
    using check_risk_returns [of ?re sample_instruments sample_limits "\<lambda>_. 5"] ready [of sample_market_order]
    by (auto simp: Cons_eq_append_conv)
  have "checkable sample_instruments sample_limits (heap ?rf 0)" by code_simp
  then obtain c rf' where f: "check_risk sample_instruments sample_limits (\<lambda>_. 5) ?rf = Some (c, rf')"
    "\<not> c \<longrightarrow> risk_to_builder rf' = risk_to_builder ?rf"
    using check_risk_returns [of ?rf sample_instruments sample_limits "\<lambda>_. 5"] ready [of "sample_market_order\<lparr>quantity := 500\<rparr>"]
    by auto
  have "map_option fst (check_risk sample_instruments sample_limits (\<lambda>_. 5) ?re) = Some True"
    "map_option fst (check_risk sample_instruments sample_limits (\<lambda>_. 5) ?rf) = Some False" by code_simp+
  then have "b" "\<not> c" using r(1) f(1) by simp_all
  then show ?thesis using r f ready(3) spsc.push_rep [OF i, of 0] by auto
qed

text \<open>A sequence of requests to one bucket: the refused ones are marked.\<close>

primrec bucket_run :: "(u64 \<Rightarrow> 'b \<Rightarrow> bool \<times> 'b) \<Rightarrow> u64 list \<Rightarrow> 'b \<Rightarrow> bool list" where
  "bucket_run f [] b = []"
| "bucket_run f (t # ts) b = (case f t b of (r, b') \<Rightarrow> r # bucket_run f ts b')"

lemma replicate_two: "replicate 2 x = [x, x]"
  by (simp add: numeral_2_eq_2)

lemma order_bucket_within:
  assumes "t - last_refill_ns b \<le> refill_interval_ns b"
  shows "order_bucket t b = (if 0 < tokens b then (False, b\<lparr>tokens := tokens b - 1\<rparr>) else (True, b))"
proof -
  have "\<not> refill_interval_ns b < t - last_refill_ns b" using assms by (simp add: not_less)
  then show ?thesis by (simp add: order_bucket_def)
qed

text \<open>The order rate limiter admits within one refill interval exactly as many orders as it has
  tokens, and refuses all later ones.\<close>

theorem order_bucket_admits_tokens:
  assumes "\<forall>t \<in> set ts. t - last_refill_ns b \<le> refill_interval_ns b"
  shows "bucket_run order_bucket ts b =
    replicate (min (length ts) (unat (tokens b))) False @ replicate (length ts - unat (tokens b)) True"
  using assms
proof (induction ts arbitrary: b)
  case (Cons t ts)
  have t: "t - last_refill_ns b \<le> refill_interval_ns b" using Cons.prems by simp
  show ?case
  proof (cases "tokens b = 0")
    case True
    then show ?thesis using Cons.IH [of b] Cons.prems by (simp add: order_bucket_within [OF t])
  next
    case False
    then have "0 < tokens b" by (simp add: word_neq_0_conv)
    moreover have "unat (tokens b) = Suc (unat (tokens b - 1))" using False by (simp add: unat_minus_one unat_gt_0)
    ultimately show ?thesis
      using Cons.IH [of "b\<lparr>tokens := tokens b - 1\<rparr>"] Cons.prems by (simp add: order_bucket_within [OF t])
  qed
qed simp

theorem order_bucket_admits_tokens_witness:
  "bucket_run order_bucket [5, 6, 7] \<lparr>tokens = 2, last_refill_ns = 0, capacity = 2, refill_interval_ns = 1000\<rparr>
    = [False, False, True]"
  using order_bucket_admits_tokens [of "[5, 6, 7]"
      "\<lparr>tokens = 2, last_refill_ns = 0, capacity = 2, refill_interval_ns = 1000\<rparr>"]
  by (simp add: replicate_two del: bucket_run.simps)

end
