(* ===== verification/Risk_Update.thy ===== *)
theory Risk_Update
  imports Risk_Checks
begin

text \<open>
  The post-trade side of \<^verbatim>\<open>RiskEngine\<close> (src/src/risk/RiskEngine.cpp): \<open>update_risk\<close> and the updates
  of the symbol, account and live-order state it makes for each order the order manager hands
  over.  The average entry price divides the cost basis by the net position; a zero position there
  traps, which is \<open>None\<close>.
\<close>

definition abs64 :: "i64 \<Rightarrow> i64" where
  "abs64 x = llabs x"

definition update_unrealized_pnl :: "i64 \<Rightarrow> i64 \<Rightarrow> SymbolRisk \<Rightarrow> SymbolRisk" where
  "update_unrealized_pnl bid ask sr =
     (let net = net_position sr; avg = i64_of_i32 (avg_entry_price sr)
      in if net = 0 then sr\<lparr>unrealized_pnl := 0\<rparr>
         else if 0 <s net then sr\<lparr>unrealized_pnl := (bid - avg) * abs64 net\<rparr>
         else sr\<lparr>unrealized_pnl := (avg - ask) * abs64 net\<rparr>)"

text \<open>The block that appears after a partial fill, after a fill and on market data: the symbol's
  share of the account's unrealised result is replaced by its new value.\<close>

definition refresh_pnl :: "i64 \<Rightarrow> i64 \<Rightarrow> AccountRisk \<times> SymbolRisk \<Rightarrow> AccountRisk \<times> SymbolRisk" where
  "refresh_pnl bid ask s =
     (case s of (ar, sr) \<Rightarrow>
        if \<not> (bid \<le>s 0 \<and> ask \<le>s 0) \<and> cost_basis_scaled sr \<noteq> 0
        then let sr' = update_unrealized_pnl bid ask sr
             in (ar\<lparr>total_unrealized_pnl := total_unrealized_pnl ar - unrealized_pnl sr + unrealized_pnl sr'\<rparr>, sr')
        else (ar, sr))"

text \<open>The position part of a (partial) fill, the same in both cases of the switch.\<close>

definition fill_position :: "Order \<Rightarrow> OrderMetrics \<Rightarrow> AccountRisk \<times> SymbolRisk \<Rightarrow> (AccountRisk \<times> SymbolRisk) option" where
  "fill_position ord m s =
     (case s of (ar, sr) \<Rightarrow>
        let ex = i64_of_u32 (last_exec_quantity ord);
            net = net_position sr + side_mult m * ex;
            sr1 = sr\<lparr>net_position := net,
                     pending_notional_scaled := pending_notional_scaled sr - nominal m * side_mult m\<rparr>
        in if side_mult m = 1
           then do {
             let cb = cost_basis_scaled sr1 + nominal m;
             avg \<leftarrow> sdiv64 cb net;
             Some (ar, sr1\<lparr>cost_basis_scaled := cb, avg_entry_price := ucast avg\<rparr>) }
           else
             let avg = i64_of_i32 (avg_entry_price sr1);
                 rp = (price ord - avg) * ex;
                 sr2 = sr1\<lparr>realized_pnl := realized_pnl sr1 + rp\<rparr>
             in Some (ar\<lparr>daily_realized_pnl := daily_realized_pnl ar + rp\<rparr>,
                      if net = 0 then sr2\<lparr>cost_basis_scaled := 0, avg_entry_price := 0\<rparr>
                      else sr2\<lparr>cost_basis_scaled := cost_basis_scaled sr2 - avg * ex\<rparr>))"

definition clamp_symbol :: "SymbolRisk \<Rightarrow> SymbolRisk" where
  "clamp_symbol sr =
     (let sr1 = (if pending_notional_scaled sr <s 0 then sr\<lparr>pending_notional_scaled := 0\<rparr> else sr)
      in if sym_open_orders_count sr1 <s 0 then sr1\<lparr>sym_open_orders_count := 0\<rparr> else sr1)"

definition clamp_pair :: "AccountRisk \<times> SymbolRisk \<Rightarrow> AccountRisk \<times> SymbolRisk" where
  "clamp_pair s = (fst s, clamp_symbol (snd s))"

definition refresh_fill :: "AccountRisk \<times> SymbolRisk \<Rightarrow> AccountRisk \<times> SymbolRisk" where
  "refresh_fill s = refresh_pnl (sym_best_bid (snd s)) (sym_best_ask (snd s)) s"

text \<open>\<open>update_symbol_risk\<close> for one of our orders, on the account and the symbol it concerns.\<close>

definition symbol_risk_ours :: "Order \<Rightarrow> OrderMetrics \<Rightarrow> AccountRisk \<times> SymbolRisk \<Rightarrow> (AccountRisk \<times> SymbolRisk) option" where
  "symbol_risk_ours ord m s =
     (case status ord of
        New \<Rightarrow>
          let sr = snd s; sr1 = sr\<lparr>sym_open_orders_count := sym_open_orders_count sr + 1\<rparr>
          in Some (clamp_pair (fst s,
               if 0 <s price ord
               then sr1\<lparr>pending_notional_scaled := pending_notional_scaled sr1 + notional m * side_mult m\<rparr>
               else sr1))
      | Partial \<Rightarrow> map_option (\<lambda>s'. clamp_pair (refresh_fill s')) (fill_position ord m s)
      | Filled \<Rightarrow>
          map_option (\<lambda>s'. clamp_pair (refresh_fill s'))
            (fill_position ord m
               (fst s, (snd s)\<lparr>sym_open_orders_count := sym_open_orders_count (snd s) - 1\<rparr>))
      | Replaced \<Rightarrow>
          Some (clamp_pair (fst s,
            if 0 <s price ord
            then (snd s)\<lparr>pending_notional_scaled := pending_notional_scaled (snd s) + replaced m\<rparr>
            else snd s))
      | Status_Unknown \<Rightarrow> Some (clamp_pair s)
      | Expired \<Rightarrow> Some (clamp_pair s)
      | CancelRequest \<Rightarrow> Some (clamp_pair s)
      | _ \<Rightarrow>
          if 1 < cancelled_count ord then Some s
          else
            let sr = snd s;
                sr1 = (if remaining_quantity ord = 0
                       then sr\<lparr>sym_open_orders_count := sym_open_orders_count sr - 1\<rparr> else sr)
            in Some (clamp_pair (fst s,
                 if 0 <s price ord
                 then sr1\<lparr>pending_notional_scaled := pending_notional_scaled sr1 + replaced m\<rparr>
                 else sr1)))"

text \<open>\<open>update_symbol_risk\<close> for a market order: the best prices come from the book.  A null book
  pointer is dereferenced when the symbol is unknown.\<close>

definition symbol_risk_market :: "MarketBook \<Rightarrow> Order \<Rightarrow> AccountRisk \<times> SymbolRisk \<Rightarrow> (AccountRisk \<times> SymbolRisk) option" where
  "symbol_risk_market mb ord s = do {
     (v, i) \<leftarrow> Option.bind (get_symBook ord) id;
     let bid = best_bid (mb v i);
     let ask = best_ask (mb v i);
     Some (clamp_pair (refresh_pnl bid ask
       (fst s, (snd s)\<lparr>sym_best_bid := bid, sym_best_ask := ask\<rparr>))) }"

definition update_symbol_risk :: "MarketBook \<Rightarrow> Order \<Rightarrow> OrderMetrics \<Rightarrow> nat \<Rightarrow> RiskEngine \<Rightarrow> RiskEngine option" where
  "update_symbol_risk mb ord m v re = do {
     let i = unat (symbol_index ord);
     _ \<leftarrow> guard (v < VENUE_COUNT \<and> i < MAX_SYMBOL_COUNT);
     (ar, sr) \<leftarrow> (if isOurOrder ord then symbol_risk_ours ord m else symbol_risk_market mb ord)
                   (accountrisks re v, symbolrisks re v i);
     Some (upd_sym v i sr (upd_acc v ar re)) }"

definition account_leverage :: "AccountRisk \<Rightarrow> AccountRisk option" where
  "account_leverage ar =
     (if balance ar \<noteq> 0
      then map_option (\<lambda>l. ar\<lparr>current_leverage := l\<rparr>) (sdiv64 (current_exposure ar * 10000) (balance ar))
      else Some ar)"

definition replace_exposure :: "Order \<Rightarrow> OrderMetrics \<Rightarrow> AccountRisk \<Rightarrow> AccountRisk" where
  "replace_exposure ord m ar =
     (if 0 <s price ord
      then ar\<lparr>current_exposure := current_exposure ar + replaced m * side_mult m,
              used_margin := used_margin ar + replaced m\<rparr>
      else ar)"

definition fill_account :: "OrderMetrics \<Rightarrow> i64 \<Rightarrow> AccountRisk \<Rightarrow> AccountRisk" where
  "fill_account m fee ar =
     ar\<lparr>balance := balance ar - (nominal m + fee),
        positional_exposure := positional_exposure ar + nominal m,
        used_margin := used_margin ar - nominal m\<rparr>"

definition order_fee :: "AccountLimit \<Rightarrow> Order \<Rightarrow> OrderMetrics \<Rightarrow> i64" where
  "order_fee al ord m =
     (if order_type ord = Market then trunc64 (taker_fee_rate al * nominal m) 1000000
      else trunc64 (maker_fee_rate al * nominal m) 1000000)"

definition update_account_risk :: "AccountLimit \<Rightarrow> Order \<Rightarrow> OrderMetrics \<Rightarrow> AccountRisk \<Rightarrow> AccountRisk option" where
  "update_account_risk al ord m ar =
     (case status ord of
        New \<Rightarrow>
          let ar1 = (if 0 <s price ord
                     then ar\<lparr>current_exposure := current_exposure ar + notional m * side_mult m,
                             used_margin := used_margin ar + notional m\<rparr> else ar)
          in account_leverage (ar1\<lparr>acc_open_orders_count := acc_open_orders_count ar1 + 1\<rparr>)
      | Partial \<Rightarrow> account_leverage (fill_account m (order_fee al ord m) ar)
      | Filled \<Rightarrow>
          let ar1 = fill_account m (order_fee al ord m) ar
          in account_leverage (ar1\<lparr>acc_open_orders_count := acc_open_orders_count ar1 - 1\<rparr>)
      | Replaced \<Rightarrow> account_leverage (replace_exposure ord m ar)
      | Status_Unknown \<Rightarrow> account_leverage ar
      | CancelRequest \<Rightarrow> account_leverage ar
      | _ \<Rightarrow>
          if 1 < cancelled_count ord then Some ar
          else let ar1 = replace_exposure ord m ar
               in account_leverage
                    (if remaining_quantity ord = 0
                     then ar1\<lparr>acc_open_orders_count := acc_open_orders_count ar1 - 1\<rparr> else ar1))"

text \<open>The search for a free pool entry: \<^verbatim>\<open>do ... while (active)\<close>.  The fuel is the pool size; the
  loop does not end when every entry is active, which is \<open>None\<close> here.\<close>

primrec find_free_slot :: "nat \<Rightarrow> (nat \<Rightarrow> OrderRisk) \<Rightarrow> u64 \<Rightarrow> (nat \<times> u64) option" where
  "find_free_slot 0 pool nxt = None"
| "find_free_slot (Suc n) pool nxt =
     (let p = unat (nxt AND (ORDERRISK_POOL_CAPACITY - 1))
      in if or_active (pool p) then find_free_slot n pool (nxt + 1) else Some (p, nxt + 1))"

definition update_order_risk :: "Order \<Rightarrow> nat \<Rightarrow> RiskEngine \<Rightarrow> RiskEngine option" where
  "update_order_risk ord v re =
     (if 1 < cancelled_count ord then Some re
      else
        let key = riskKey (symbol_index ord) (price ord) (side_u8 (side ord)) (of_nat v)
        in case orderrisks re v key of
             Some p \<Rightarrow>
               let e = (orderrisk_pool re p)\<lparr>or_price := price ord,
                          or_remaining_qty := remaining_quantity ord, or_status := status ord\<rparr>
               in Some (if remaining_quantity ord = 0
                        then re\<lparr>orderrisks := (orderrisks re)(v := (orderrisks re v)(key := None)),
                                orderrisk_pool := (orderrisk_pool re)(p := e\<lparr>or_active := False\<rparr>)\<rparr>
                        else re\<lparr>orderrisk_pool := (orderrisk_pool re)(p := e)\<rparr>)
           | None \<Rightarrow> do {
               (p, nxt) \<leftarrow> find_free_slot (unat ORDERRISK_POOL_CAPACITY) (orderrisk_pool re) (orderrisk_next_slot re);
               Some (re\<lparr>orderrisk_pool := (orderrisk_pool re)(p :=
                          \<lparr>or_price = price ord, or_symbol_index = symbol_index ord,
                           or_remaining_qty = remaining_quantity ord, or_side = side ord,
                           or_status = status ord, or_active = True, or_venue = venue ord\<rparr>),
                        orderrisk_next_slot := nxt,
                        orderrisks := (orderrisks re)(v := (orderrisks re v)(key \<mapsto> p))\<rparr>) })"

definition update_acc :: "AccountLimit \<Rightarrow> Order \<Rightarrow> OrderMetrics \<Rightarrow> nat \<Rightarrow> RiskEngine \<Rightarrow> RiskEngine option" where
  "update_acc al ord m v re =
     map_option (\<lambda>ar. upd_acc v ar re) (update_account_risk al ord m (accountrisks re v))"

text \<open>The FIX branch replays the order's status and then the two statuses recorded before the
  order was confirmed; the order keeps the last status it was assigned.\<close>

definition pre_new :: "Order \<Rightarrow> nat \<Rightarrow> Status" where
  "pre_new ord i = (if even i then fst (StatusesPreNew ord) else snd (StatusesPreNew ord))"

primrec fix_replay ::
  "nat \<Rightarrow> nat \<Rightarrow> MarketBook \<Rightarrow> AccountLimit \<Rightarrow> OrderMetrics \<Rightarrow> nat \<Rightarrow> nat \<Rightarrow> RiskEngine \<Rightarrow> RiskEngine option" where
  "fix_replay 0 i mb al m v ptr re = Some re"
| "fix_replay (Suc n) i mb al m v ptr re = do {
     let ord = heap re ptr;
     re1 \<leftarrow> (if status ord \<noteq> Status_Unknown
             then do {
               a \<leftarrow> update_symbol_risk mb ord m v re;
               b \<leftarrow> update_order_risk ord v a;
               update_acc al ord m v b }
             else Some re);
     fix_replay n (Suc i) mb al m v ptr
       (re1\<lparr>heap := (heap re1)(ptr := ord\<lparr>status := pre_new ord i\<rparr>)\<rparr>) }"

definition mark_risk_done :: "nat \<Rightarrow> RiskEngine \<Rightarrow> RiskEngine" where
  "mark_risk_done ptr re =
     re\<lparr>heap := (heap re)(ptr := (heap re ptr)\<lparr>canModify := canModify (heap re ptr) OR RISK_DONE\<rparr>),
        pipeline_seq := pipeline_seq re + 1\<rparr>"

definition update_risk_for_protocol_fix ::
  "MarketBook \<Rightarrow> AccountLimit \<Rightarrow> OrderMetrics \<Rightarrow> nat \<Rightarrow> RiskEngine \<Rightarrow> (bool \<times> RiskEngine) option" where
  "update_risk_for_protocol_fix mb al m ptr re =
     (let ord = heap re ptr in
      if protocol ord = FIX
      then if syncState ord = WaitingNew then Some (True, re)
           else map_option (\<lambda>re'. (True, mark_risk_done ptr re'))
                  (fix_replay 3 0 mb al m (venue_index (venue ord)) ptr re)
      else Some (False, re))"

text \<open>One iteration of \<open>update_risk\<close> on a popped order; the Boolean says that the function
  returns.\<close>

definition update_order :: "MarketBook \<Rightarrow> Limits \<Rightarrow> nat \<Rightarrow> RiskEngine \<Rightarrow> (bool \<times> RiskEngine) option" where
  "update_order mb lim ptr re = do {
     let ord = heap re ptr;
     let v = venue_index (venue ord);
     al \<leftarrow> getAccountLimit lim v;
     let m = orderMetrics ord;
     (handled, re1) \<leftarrow> update_risk_for_protocol_fix mb al m ptr re;
     if handled then Some (False, re1)
     else do {
       re2 \<leftarrow> update_symbol_risk mb ord m v re1;
       re3 \<leftarrow> (if isOurOrder ord
               then do { a \<leftarrow> update_order_risk ord v re2; update_acc al ord m v a }
               else Some re2);
       Some (True, mark_risk_done ptr re3) } }"

primrec update_risk_loop :: "nat \<Rightarrow> MarketBook \<Rightarrow> Limits \<Rightarrow> RiskEngine \<Rightarrow> (bool \<times> RiskEngine) option" where
  "update_risk_loop 0 mb lim re = None"
| "update_risk_loop (Suc n) mb lim re =
     (case spsc_pop Q1024 (store_to_risk re) of
        (None, q) \<Rightarrow> Some (False, re\<lparr>store_to_risk := q\<rparr>)
      | (Some ptr, q) \<Rightarrow>
          Option.bind (update_order mb lim ptr (re\<lparr>store_to_risk := q\<rparr>))
            (\<lambda>(ret, re'). if ret then Some (True, re') else update_risk_loop n mb lim re'))"

definition update_risk :: "MarketBook \<Rightarrow> Limits \<Rightarrow> RiskEngine \<Rightarrow> (bool \<times> RiskEngine) option" where
  "update_risk = update_risk_loop 1025"

subsection \<open>Invariants of the figures\<close>

text \<open>The account's unrealised result is the sum over its symbols, and the pending notional and the
  open-order count of a symbol are not negative.\<close>

definition pnl_ok :: "RiskEngine \<Rightarrow> nat \<Rightarrow> bool" where
  "pnl_ok re v \<longleftrightarrow> total_unrealized_pnl (accountrisks re v) = (\<Sum>i<MAX_SYMBOL_COUNT. unrealized_pnl (symbolrisks re v i))"

definition sym_nonneg :: "SymbolRisk \<Rightarrow> bool" where
  "sym_nonneg sr \<longleftrightarrow> 0 \<le>s pending_notional_scaled sr \<and> 0 \<le>s sym_open_orders_count sr"

definition risk_inv :: "RiskEngine \<Rightarrow> bool" where
  "risk_inv re \<longleftrightarrow> (\<forall>v. pnl_ok re v) \<and> (\<forall>v i. sym_nonneg (symbolrisks re v i))"

definition pnl_rest :: "AccountRisk \<times> SymbolRisk \<Rightarrow> i64" where
  "pnl_rest s = total_unrealized_pnl (fst s) - unrealized_pnl (snd s)"

lemma clamp_symbol_nonneg: "sym_nonneg (clamp_symbol sr)"
  by (simp add: sym_nonneg_def clamp_symbol_def Let_def signed_order)

lemma clamp_pair_simps [simp]:
  "sym_nonneg (snd (clamp_pair s))" "pnl_rest (clamp_pair s) = pnl_rest s"
  by (simp add: clamp_pair_def clamp_symbol_nonneg,
      simp add: clamp_pair_def pnl_rest_def clamp_symbol_def Let_def)

lemma refresh_pnl_rest [simp]: "pnl_rest (refresh_pnl bid ask s) = pnl_rest s"
  by (cases s) (simp add: refresh_pnl_def pnl_rest_def Let_def)

lemma refresh_fill_rest [simp]: "pnl_rest (refresh_fill s) = pnl_rest s"
  by (simp add: refresh_fill_def)

lemma fill_position_rest:
  assumes "fill_position ord m s = Some s'"
  shows "pnl_rest s' = pnl_rest s"
  using assms by (cases s) (auto simp: fill_position_def pnl_rest_def Let_def bind_eq_Some_conv split: if_splits)

lemma symbol_risk_ours_rest:
  assumes "symbol_risk_ours ord m s = Some s'"
  shows "pnl_rest s' = pnl_rest s"
proof -
  have "pnl_rest (fst s, (snd s)\<lparr>sym_open_orders_count := c\<rparr>) = pnl_rest s"
    "pnl_rest (fst s, (snd s)\<lparr>pending_notional_scaled := c'\<rparr>) = pnl_rest s"
    "pnl_rest (fst s, (snd s)\<lparr>sym_open_orders_count := c, pending_notional_scaled := c'\<rparr>) = pnl_rest s"
    "pnl_rest (fst s, snd s) = pnl_rest s" for c c' by (simp_all add: pnl_rest_def)
  note upd = this
  show ?thesis
    using assms
    by (cases "status ord") (auto simp: symbol_risk_ours_def Let_def upd dest!: fill_position_rest split: if_splits)
qed

lemma symbol_risk_ours_nonneg:
  assumes "symbol_risk_ours ord m s = Some s'" "sym_nonneg (snd s)"
  shows "sym_nonneg (snd s')"
  using assms by (cases "status ord") (auto simp: symbol_risk_ours_def Let_def split: if_splits)

lemma symbol_risk_market_keeps:
  assumes "symbol_risk_market mb ord s = Some s'"
  shows "pnl_rest s' = pnl_rest s" "sym_nonneg (snd s')"
  using assms by (auto simp: symbol_risk_market_def bind_eq_Some_conv Let_def) (simp add: pnl_rest_def)

text \<open>\<open>same_figures\<close>: the steps that leave all figures of the invariant alone.\<close>

definition same_figures :: "RiskEngine \<Rightarrow> RiskEngine \<Rightarrow> bool" where
  "same_figures re re' \<longleftrightarrow> symbolrisks re' = symbolrisks re
     \<and> (\<forall>v. total_unrealized_pnl (accountrisks re' v) = total_unrealized_pnl (accountrisks re v))"

lemma same_figures_inv: "same_figures re re' \<Longrightarrow> risk_inv re \<Longrightarrow> risk_inv re'"
  by (simp add: same_figures_def risk_inv_def pnl_ok_def)

lemma sum_upd_one:
  fixes f g :: "nat \<Rightarrow> i64"
  assumes "i < n" "\<And>j. j \<noteq> i \<Longrightarrow> g j = f j"
  shows "(\<Sum>j<n. g j) = (\<Sum>j<n. f j) - f i + g i"
proof -
  have "(\<Sum>j<n. h j) = h i + (\<Sum>j \<in> {..<n} - {i}. h j)" for h :: "nat \<Rightarrow> i64"
    using assms(1) by (intro sum.remove) simp_all
  moreover have "(\<Sum>j \<in> {..<n} - {i}. g j) = (\<Sum>j \<in> {..<n} - {i}. f j)"
    using assms(2) by (intro sum.cong) auto
  ultimately show ?thesis by simp
qed

lemma upd_pair_inv:
  assumes inv: "risk_inv re" and i: "i < MAX_SYMBOL_COUNT"
    and rest: "pnl_rest (ar, sr) = pnl_rest (accountrisks re v, symbolrisks re v i)" and nn: "sym_nonneg sr"
  shows "risk_inv (upd_sym v i sr (upd_acc v ar re))"
proof -
  have "pnl_ok (upd_sym v i sr (upd_acc v ar re)) w" for w
  proof (cases "w = v")
    case True
    have "(\<Sum>j<MAX_SYMBOL_COUNT. unrealized_pnl (if j = i then sr else symbolrisks re v j))
        = (\<Sum>j<MAX_SYMBOL_COUNT. unrealized_pnl (symbolrisks re v j)) - unrealized_pnl (symbolrisks re v i)
          + unrealized_pnl sr"
      using sum_upd_one [OF i, of "\<lambda>j. unrealized_pnl (if j = i then sr else symbolrisks re v j)"
          "\<lambda>j. unrealized_pnl (symbolrisks re v j)"] by simp
    moreover have "total_unrealized_pnl (accountrisks re v) = (\<Sum>j<MAX_SYMBOL_COUNT. unrealized_pnl (symbolrisks re v j))"
      using inv by (simp add: risk_inv_def pnl_ok_def)
    moreover have "total_unrealized_pnl ar
        = total_unrealized_pnl (accountrisks re v) - unrealized_pnl (symbolrisks re v i) + unrealized_pnl sr"
      using rest by (simp add: pnl_rest_def algebra_simps)
    ultimately show ?thesis using True by (simp add: pnl_ok_def upd_sym_def upd_acc_def fun_upd_def)
  next
    case False
    then show ?thesis using inv by (simp add: risk_inv_def pnl_ok_def upd_sym_def upd_acc_def)
  qed
  then show ?thesis using inv nn by (auto simp: risk_inv_def upd_sym_def upd_acc_def)
qed

lemma update_symbol_risk_inv:
  assumes eq: "update_symbol_risk mb ord m v re = Some re'" and inv: "risk_inv re"
  shows "risk_inv re'"
proof -
  let ?s = "(accountrisks re v, symbolrisks re v (unat (symbol_index ord)))"
  obtain ar sr where i: "unat (symbol_index ord) < MAX_SYMBOL_COUNT"
    and f: "(if isOurOrder ord then symbol_risk_ours ord m else symbol_risk_market mb ord) ?s = Some (ar, sr)"
    and re': "re' = upd_sym v (unat (symbol_index ord)) sr (upd_acc v ar re)"
    using eq by (auto simp: update_symbol_risk_def Let_def bind_eq_Some_conv guard_def split: if_splits)
  have "sym_nonneg (snd ?s)" using inv by (simp add: risk_inv_def)
  then have "sym_nonneg sr" and "pnl_rest (ar, sr) = pnl_rest ?s"
    using f symbol_risk_ours_rest symbol_risk_market_keeps symbol_risk_ours_nonneg
    by (fastforce split: if_splits)+
  then show ?thesis unfolding re' by (intro upd_pair_inv [OF inv i])
qed

lemma account_leverage_total: "account_leverage ar = Some ar' \<Longrightarrow> total_unrealized_pnl ar' = total_unrealized_pnl ar"
  by (auto simp: account_leverage_def split: if_splits)

lemma update_account_total:
  "update_account_risk al ord m ar = Some ar' \<Longrightarrow> total_unrealized_pnl ar' = total_unrealized_pnl ar"
  by (cases "status ord")
     (auto simp: update_account_risk_def Let_def replace_exposure_def fill_account_def
        dest!: account_leverage_total split: if_splits)

lemma update_acc_same: "update_acc al ord m v re = Some re' \<Longrightarrow> same_figures re re'"
  by (auto simp: update_acc_def same_figures_def upd_acc_def dest: update_account_total)

lemma update_order_risk_same: "update_order_risk ord v re = Some re' \<Longrightarrow> same_figures re re'"
  by (auto simp: update_order_risk_def same_figures_def Let_def bind_eq_Some_conv split: if_splits option.splits)

lemmas update_acc_inv = same_figures_inv [OF update_acc_same]
lemmas update_order_risk_inv = same_figures_inv [OF update_order_risk_same]

lemma our_update_inv:
  assumes "update_acc al ord m v b = Some re'" "update_order_risk ord v a = Some b"
    and "update_symbol_risk mb ord m v re = Some a" "risk_inv re"
  shows "risk_inv re'"
  by (rule update_acc_inv [OF assms(1) update_order_risk_inv [OF assms(2) update_symbol_risk_inv [OF assms(3,4)]]])

lemma heap_same: "same_figures re (re\<lparr>heap := h\<rparr>)" "same_figures re (mark_risk_done p re)"
  by (simp_all add: same_figures_def mark_risk_done_def)

lemma fix_replay_inv:
  "fix_replay n i mb al m v p re = Some re' \<Longrightarrow> risk_inv re \<Longrightarrow> risk_inv re'"
proof (induction n arbitrary: i re)
  case (Suc n)
  let ?ord = "heap re p"
  obtain re1 where step: "(if status ?ord \<noteq> Status_Unknown
      then do { a \<leftarrow> update_symbol_risk mb ?ord m v re; b \<leftarrow> update_order_risk ?ord v a; update_acc al ?ord m v b }
      else Some re) = Some re1"
    and cont: "fix_replay n (Suc i) mb al m v p (re1\<lparr>heap := (heap re1)(p := ?ord\<lparr>status := pre_new ?ord i\<rparr>)\<rparr>) = Some re'"
    using Suc.prems(1) by (auto simp: Let_def bind_eq_Some_conv simp del: not_None_eq)
  have "risk_inv re1"
    using step Suc.prems(2)
    by (auto simp: bind_eq_Some_conv split: if_splits intro: our_update_inv)
  then show ?case using Suc.IH [OF cont] same_figures_inv [OF heap_same(1)] by blast
qed simp

lemma update_order_inv:
  assumes "update_order mb lim p re = Some (r, re')" "risk_inv re"
  shows "risk_inv re'"
  using assms
  by (auto simp: update_order_def update_risk_for_protocol_fix_def Let_def bind_eq_Some_conv split: if_splits
      intro!: same_figures_inv [OF heap_same(2)] intro: fix_replay_inv our_update_inv update_symbol_risk_inv)

lemma update_risk_loop_inv:
  "update_risk_loop n mb lim re = Some (r, re') \<Longrightarrow> risk_inv re \<Longrightarrow> risk_inv re'"
proof (induction n arbitrary: re)
  case (Suc n)
  obtain o' q where pop: "spsc_pop Q1024 (store_to_risk re) = (o', q)" by (cases "spsc_pop Q1024 (store_to_risk re)")
  have inv: "risk_inv (re\<lparr>store_to_risk := q\<rparr>)" using Suc.prems(2) by (simp add: risk_inv_def pnl_ok_def)
  show ?case
  proof (cases o')
    case None
    then show ?thesis using Suc.prems inv pop by simp
  next
    case (Some p)
    then obtain b re1 where u: "update_order mb lim p (re\<lparr>store_to_risk := q\<rparr>) = Some (b, re1)"
      and rest: "(if b then Some (True, re1) else update_risk_loop n mb lim re1) = Some (r, re')"
      using Suc.prems(1) pop by (auto simp: bind_eq_Some_conv)
    have "risk_inv re1" by (rule update_order_inv [OF u inv])
    then show ?thesis using rest Suc.IH by (cases b) auto
  qed
qed simp

subsection \<open>Order entries\<close>

lemma ring_cover:
  fixes h n p :: nat
  assumes "p < n"
  shows "\<exists>j<n. (h + j) mod n = p"
proof (intro exI conjI)
  let ?j = "(p + (n - h mod n)) mod n"
  show "?j < n" using assms by simp
  have lt: "h mod n < n" using assms by simp
  have "(h + ?j) mod n = (h mod n + (p + (n - h mod n))) mod n" by (metis mod_add_eq mod_mod_trivial)
  also have "\<dots> = (p + n) mod n" using lt by (simp add: less_imp_le)
  finally show "(h + ?j) mod n = p" using assms by simp
qed

lemma unat_mask_65535: "unat (x AND 65535) = unat x mod 65536" for x :: u64
  using unat_and_pow2_mask [where k = 16 and x = x] by simp

lemma find_free_slot_None:
  "find_free_slot n pool nxt = None \<longleftrightarrow> (\<forall>j<n. or_active (pool ((unat nxt + j) mod 65536)))"
proof (induction n arbitrary: nxt)
  case (Suc n)
  have "unat (nxt + 1) mod 65536 = (unat nxt + 1) mod 65536"
    using unat_add_mod_pow2 [where k = 16 and x = nxt and y = 1] by simp
  then have s: "(unat (nxt + 1) + j) mod 65536 = (unat nxt + Suc j) mod 65536" for j
    by (metis add_Suc_right add_Suc_shift mod_add_left_eq plus_1_eq_Suc add.commute)
  show ?case
    by (simp add: Let_def ORDERRISK_POOL_CAPACITY_def unat_mask_65535 Suc.IH s All_less_Suc2)
qed simp

lemma find_free_slot_Some:
  "find_free_slot n pool nxt = Some (p, nxt') \<Longrightarrow> \<not> or_active (pool p) \<and> p < 65536"
  by (induction n arbitrary: nxt)
     (auto simp: Let_def ORDERRISK_POOL_CAPACITY_def unat_mask_65535 split: if_splits)

lemma find_free_slot_full:
  "find_free_slot (unat ORDERRISK_POOL_CAPACITY) pool nxt = None \<longleftrightarrow> (\<forall>p<65536. or_active (pool p))"
proof -
  have "(\<forall>j<65536. or_active (pool ((unat nxt + j) mod 65536))) \<longleftrightarrow> (\<forall>p<65536. or_active (pool p))"
    using ring_cover [of _ 65536 "unat nxt"] by (metis mod_less_divisor zero_less_numeral)
  then show ?thesis by (simp only: find_free_slot_None ORDERRISK_POOL_CAPACITY_def) simp
qed

lemma update_order_risk_new:
  assumes "cancelled_count ord \<le> 1" "p < 65536" "\<not> or_active (orderrisk_pool re p)"
    and "orderrisks re v (riskKey (symbol_index ord) (price ord) (side_u8 (side ord)) (of_nat v)) = None"
  shows "\<exists>re'. update_order_risk ord v re = Some re'"
proof -
  have "find_free_slot (unat ORDERRISK_POOL_CAPACITY) (orderrisk_pool re) (orderrisk_next_slot re) \<noteq> None"
    using find_free_slot_full [of "orderrisk_pool re" "orderrisk_next_slot re"] assms(2,3) by blast
  then show ?thesis using assms(1,4) by (auto simp: update_order_risk_def Let_def not_less)
qed

lemma update_risk_head:
  assumes "spsc_inv Q1024 (store_to_risk re)" "spsc_rep Q1024 (store_to_risk re) = p # ps"
  obtains q where "spsc_rep Q1024 q = ps" "update_risk mb lim re =
    Option.bind (update_order mb lim p (re\<lparr>store_to_risk := q\<rparr>))
      (\<lambda>(ret, re'). if ret then Some (True, re') else update_risk_loop 1024 mb lim re')"
proof -
  obtain q where pop: "spsc_pop Q1024 (store_to_risk re) = (Some p, q)" and q: "spsc_rep Q1024 q = ps"
    using spsc.pop_val [OF assms(1)] spsc.pop_rep [OF assms(1)] assms(2)
    by (cases "spsc_pop Q1024 (store_to_risk re)") simp
  have "update_risk_loop (Suc 1024) mb lim re = Option.bind (update_order mb lim p (re\<lparr>store_to_risk := q\<rparr>))
      (\<lambda>(ret, re'). if ret then Some (True, re') else update_risk_loop 1024 mb lim re')"
    by (simp only: update_risk_loop.simps pop prod.case option.case)
  then show ?thesis using that [OF q] by (simp add: update_risk_def)
qed

subsection \<open>Properties\<close>

definition sample_update_engine :: "Order \<Rightarrow> RiskEngine" where
  "sample_update_engine ord = (sample_engine ord)\<lparr>store_to_risk := snd (spsc_push Q1024 0 (spsc_init Q1024))\<rparr>"

definition sample_itch_order :: Order where
  "sample_itch_order = (sample_order Buy 100 5)\<lparr>protocol := ITCH, status := New\<rparr>"

lemma sample_update_queue:
  "spsc_inv Q1024 (store_to_risk (sample_update_engine ord))"
  "spsc_rep Q1024 (store_to_risk (sample_update_engine ord)) = [0]"
proof -
  have i: "spsc_inv Q1024 (spsc_init Q1024)" by (rule spsc_init_inv) (simp add: Q1024_def)
  show "spsc_inv Q1024 (store_to_risk (sample_update_engine ord))"
    by (simp add: sample_update_engine_def spsc.push_inv [OF i])
  show "spsc_rep Q1024 (store_to_risk (sample_update_engine ord)) = [0]"
    by (simp add: sample_update_engine_def spsc.push_rep [OF i])
qed

lemma sample_update_inv: "risk_inv (sample_update_engine ord)"
  by (simp add: risk_inv_def pnl_ok_def sym_nonneg_def sample_update_engine_def sample_engine_def Let_def signed_order)

lemma sample_update_order:
  "heap (sample_update_engine ord) 0 = ord"
  by (simp add: sample_update_engine_def sample_engine_def Let_def)

text \<open>C28. \<^verbatim>\<open>update_risk\<close> keeps the books of the engine consistent whatever orders it processes: the
  unrealised result of each account stays the sum of the unrealised results of its symbols, and no
  symbol's pending notional or open-order count becomes negative.\<close>

theorem update_risk_keeps_figures:
  assumes "update_risk mb lim re = Some (r, re')" "risk_inv re"
  shows "risk_inv re'"
  using update_risk_loop_inv assms unfolding update_risk_def by blast

theorem update_risk_keeps_figures_witness:
  "\<exists>re'. update_risk (\<lambda>_ _. empty_symbolbook) sample_limits (sample_update_engine sample_itch_order) = Some (True, re')
    \<and> risk_inv re'"
proof -
  let ?re = "sample_update_engine sample_itch_order"
  obtain q where q: "update_risk (\<lambda>_ _. empty_symbolbook) sample_limits ?re =
      Option.bind (update_order (\<lambda>_ _. empty_symbolbook) sample_limits 0 (?re\<lparr>store_to_risk := q\<rparr>))
        (\<lambda>(ret, re'). if ret then Some (True, re') else update_risk_loop 1024 (\<lambda>_ _. empty_symbolbook) sample_limits re')"
    by (rule update_risk_head [OF sample_update_queue])
  have "map_option fst (update_order (\<lambda>_ _. empty_symbolbook) sample_limits 0 (?re\<lparr>store_to_risk := q\<rparr>)) = Some True"
    by code_simp
  then obtain re' where "update_order (\<lambda>_ _. empty_symbolbook) sample_limits 0 (?re\<lparr>store_to_risk := q\<rparr>) = Some (True, re')"
    by auto
  then have "update_risk (\<lambda>_ _. empty_symbolbook) sample_limits ?re = Some (True, re')" by (simp add: q)
  then show ?thesis using update_risk_keeps_figures [OF _ sample_update_inv] by blast
qed

text \<open>When the next order for \<^verbatim>\<open>update_risk\<close> is a market order of a known symbol, the call returns
  true, the symbol's best prices become those of the market book, its unrealised result is recomputed
  from them if a position is open, and the order is marked as done by risk.\<close>

theorem update_risk_market_order:
  assumes "spsc_inv Q1024 (store_to_risk re)" "spsc_rep Q1024 (store_to_risk re) = p # ps"
    and "\<not> isOurOrder (heap re p)" "protocol (heap re p) \<noteq> FIX"
    and "get_symBook (heap re p) = Some (Some (v, i))" "getAccountLimit lim v = Some al"
  shows "\<exists>re'. update_risk mb lim re = Some (True, re') \<and> spsc_rep Q1024 (store_to_risk re') = ps
    \<and> sym_best_bid (symbolrisks re' v i) = best_bid (mb v i) \<and> sym_best_ask (symbolrisks re' v i) = best_ask (mb v i)
    \<and> (\<not> (best_bid (mb v i) \<le>s 0 \<and> best_ask (mb v i) \<le>s 0) \<and> cost_basis_scaled (symbolrisks re v i) \<noteq> 0 \<longrightarrow>
         unrealized_pnl (symbolrisks re' v i)
           = unrealized_pnl (update_unrealized_pnl (best_bid (mb v i)) (best_ask (mb v i)) (symbolrisks re v i)))
    \<and> canModify (heap re' p) = canModify (heap re p) OR RISK_DONE"
proof -
  obtain q where q: "spsc_rep Q1024 q = ps" and step: "update_risk mb lim re =
      Option.bind (update_order mb lim p (re\<lparr>store_to_risk := q\<rparr>))
        (\<lambda>(ret, re'). if ret then Some (True, re') else update_risk_loop 1024 mb lim re')"
    by (rule update_risk_head [OF assms(1,2)])
  have v: "v = venue_index (venue (heap re p))" "i = unat (symbol_index (heap re p))"
    "v < VENUE_COUNT" "i < MAX_SYMBOL_COUNT"
    using assms(5) by (auto simp: get_symBook_def split: if_splits)
  show ?thesis
    using assms(3-6) v q
    by (simp add: step update_order_def update_risk_for_protocol_fix_def Let_def
        update_symbol_risk_def guard_def symbol_risk_market_def upd_sym_def upd_acc_def mark_risk_done_def
        refresh_pnl_def clamp_pair_def clamp_symbol_def update_unrealized_pnl_def)
qed

theorem update_risk_market_order_witness:
  "\<exists>re'. update_risk (\<lambda>_ _. empty_symbolbook\<lparr>best_bid := 7\<rparr>) sample_limits (sample_update_engine sample_itch_order)
      = Some (True, re') \<and> sym_best_bid (symbolrisks re' 0 0) = 7"
proof -
  have "get_symBook sample_itch_order = Some (Some (0, 0))" by code_simp
  moreover have "getAccountLimit sample_limits 0 = Some (account_limits sample_limits ! 0)"
    by (simp add: getAccountLimit_def nth_opt_def sample_limits_def Let_def)
  moreover have "\<not> isOurOrder sample_itch_order" "protocol sample_itch_order \<noteq> FIX" by code_simp+
  ultimately show ?thesis
    using update_risk_market_order [OF sample_update_queue, of sample_itch_order 0 0 sample_limits]
    by (fastforce simp: sample_update_order)
qed

text \<open>A new entry for a resting order is made exactly when some entry of the pool is free; it never
  takes the place of an active one.  When all 65536 entries are active the search of the code does
  not end.\<close>

theorem update_order_risk_needs_free_entry:
  assumes "cancelled_count ord \<le> 1"
    and "orderrisks re v (riskKey (symbol_index ord) (price ord) (side_u8 (side ord)) (of_nat v)) = None"
  shows "(update_order_risk ord v re \<noteq> None \<longleftrightarrow> (\<exists>p<65536. \<not> or_active (orderrisk_pool re p)))
    \<and> (\<forall>re'. update_order_risk ord v re = Some re' \<longrightarrow>
         (\<forall>p. or_active (orderrisk_pool re p) \<longrightarrow> orderrisk_pool re' p = orderrisk_pool re p))"
proof (cases "find_free_slot (unat ORDERRISK_POOL_CAPACITY) (orderrisk_pool re) (orderrisk_next_slot re)")
  case None
  then show ?thesis
    using find_free_slot_full [of "orderrisk_pool re" "orderrisk_next_slot re"] assms
    by (auto simp: update_order_risk_def Let_def not_less)
next
  case (Some r)
  obtain p nxt where r: "r = (p, nxt)" by (cases r)
  have "\<not> or_active (orderrisk_pool re p)" "p < 65536" using find_free_slot_Some Some r by blast+
  then show ?thesis using Some r assms by (auto simp: update_order_risk_def Let_def not_less)
qed

theorem update_order_risk_needs_free_entry_witness:
  "update_order_risk sample_market_order 0 (sample_engine sample_market_order) \<noteq> None"
proof -
  let ?re = "sample_engine sample_market_order"
  have "\<not> or_active (orderrisk_pool ?re 0)" "cancelled_count sample_market_order \<le> 1" by code_simp+
  moreover have "orderrisks ?re 0 k = None" for k by (simp add: sample_engine_def Let_def)
  ultimately show ?thesis
    using update_order_risk_needs_free_entry [of sample_market_order ?re 0] by force
qed

text \<open>C29. Once an order of ours that is still open has been entered, an order on the other side of the
  same symbol at the same price is recognised as a self trade (entries of the map are active).\<close>

theorem self_trade_detected:
  assumes "update_order_risk ord v re = Some re'" "cancelled_count ord \<le> 1" "remaining_quantity ord \<noteq> 0"
    and "\<forall>k p. orderrisks re v k = Some p \<longrightarrow> or_active (orderrisk_pool re p)"
    and "symbol_index opp = symbol_index ord" "price opp = price ord"
    and "(side ord, side opp) \<in> {(Buy, Sell), (Sell, Buy)}"
  shows "check_self_trade_order re' opp v = SelfTradeDetected"
proof -
  let ?k = "riskKey (symbol_index ord) (price ord) (side_u8 (side ord)) (of_nat v)"
  have side: "not_side_u8 (side opp) = side_u8 (side ord)"
    using assms(7) by (auto simp: not_side_u8_def side_u8_def)
  have "\<exists>p. orderrisks re' v ?k = Some p \<and> or_active (orderrisk_pool re' p)"
    using assms(1-4)
    by (auto simp: update_order_risk_def Let_def bind_eq_Some_conv not_less split: if_splits option.splits)
  then show ?thesis using assms(5,6) by (auto simp: check_self_trade_order_def side)
qed

theorem self_trade_detected_witness:
  "\<exists>re'. update_order_risk sample_market_order 0 (sample_engine sample_market_order) = Some re'
    \<and> check_self_trade_order re' (sample_market_order\<lparr>side := Sell\<rparr>) 0 = SelfTradeDetected"
proof -
  let ?o = sample_market_order and ?re = "sample_engine sample_market_order"
  have none: "orderrisks ?re 0 k = None" for k by (simp add: sample_engine_def Let_def)
  have "cancelled_count ?o \<le> 1" "remaining_quantity ?o \<noteq> 0" "side ?o = Buy" by code_simp+
  moreover have "\<not> or_active (orderrisk_pool ?re 0)" by code_simp
  ultimately obtain re' where u: "update_order_risk ?o 0 ?re = Some re'"
    using update_order_risk_new [of ?o 0 ?re 0] none by auto
  show ?thesis
    using self_trade_detected [OF u, of "?o\<lparr>side := Sell\<rparr>"] u none
      \<open>cancelled_count ?o \<le> 1\<close> \<open>remaining_quantity ?o \<noteq> 0\<close> \<open>side ?o = Buy\<close> by auto
qed

text \<open>A buy that exactly closes a short position divides the cost basis by a net position of 0:
  the update of a partial or complete fill is undefined there.\<close>

theorem buy_closing_short_traps:
  assumes "side ord = Buy" "status ord = Partial \<or> status ord = Filled"
    and "net_position (snd s) = - i64_of_u32 (last_exec_quantity ord)"
  shows "symbol_risk_ours ord (orderMetrics ord) s = None"
  using assms
  by (cases s) (auto simp: symbol_risk_ours_def fill_position_def orderMetrics_def Let_def sdiv64_def)

theorem buy_closing_short_traps_witness:
  "symbol_risk_ours ((sample_order Buy 100 5)\<lparr>status := Filled\<rparr>)
     (orderMetrics ((sample_order Buy 100 5)\<lparr>status := Filled\<rparr>))
     (accountrisks (sample_engine sample_itch_order) 0,
      (symbolrisks (sample_engine sample_itch_order) 0 0)\<lparr>net_position := - 5\<rparr>) = None"
proof -
  have "- i64_of_u32 (last_exec_quantity ((sample_order Buy 100 5)\<lparr>status := Filled\<rparr>)) = - 5" by code_simp
  moreover have "side (sample_order Buy 100 5) = Buy" by code_simp
  ultimately show ?thesis by (intro buy_closing_short_traps) simp_all
qed

text \<open>An expired order is released from the account but not from the symbol: the account's
  open-order count goes down by one, the symbol's open-order count and pending notional stay.\<close>

theorem expired_not_released_at_symbol:
  assumes "status ord = Expired" "remaining_quantity ord = 0" "cancelled_count ord \<le> 1" "sym_nonneg (snd s)"
    and "update_account_risk al ord (orderMetrics ord) ar = Some ar'"
  shows "symbol_risk_ours ord (orderMetrics ord) s = Some s \<and> acc_open_orders_count ar' = acc_open_orders_count ar - 1"
proof -
  have "clamp_symbol (snd s) = snd s"
    using assms(4) by (simp add: clamp_symbol_def sym_nonneg_def signed_order Let_def not_less)
  moreover have "acc_open_orders_count ar' = acc_open_orders_count ar - 1"
    using assms by (auto simp: update_account_risk_def account_leverage_def replace_exposure_def Let_def not_less
        split: if_splits)
  ultimately show ?thesis using assms(1) by (simp add: symbol_risk_ours_def clamp_pair_def)
qed

theorem expired_not_released_at_symbol_witness:
  "\<exists>ar'. update_account_risk zero_accountlimit (sample_market_order\<lparr>status := Expired, remaining_quantity := 0\<rparr>)
      (orderMetrics (sample_market_order\<lparr>status := Expired, remaining_quantity := 0\<rparr>))
      ((accountrisks (sample_engine sample_market_order) 0)\<lparr>acc_open_orders_count := 3\<rparr>) = Some ar'
    \<and> acc_open_orders_count ar' = 2"
proof -
  let ?o = "sample_market_order\<lparr>status := Expired, remaining_quantity := 0\<rparr>"
  let ?ar = "(accountrisks (sample_engine sample_market_order) 0)\<lparr>acc_open_orders_count := 3\<rparr>"
  let ?s = "(?ar, symbolrisks (sample_engine sample_market_order) 0 0)"
  have "\<not> Option.is_none (update_account_risk zero_accountlimit ?o (orderMetrics ?o) ?ar)" by code_simp
  then obtain ar' where u: "update_account_risk zero_accountlimit ?o (orderMetrics ?o) ?ar = Some ar'"
    using some_the by blast
  have "cancelled_count ?o \<le> 1" "sym_nonneg (snd ?s)" "acc_open_orders_count ?ar - 1 = 2" by code_simp+
  then show ?thesis using expired_not_released_at_symbol [of ?o ?s, OF _ _ _ _ u] u by auto
qed

lemma update_heap_same:
  "update_symbol_risk mb ord m v re = Some re' \<Longrightarrow> heap re' = heap re"
  "update_order_risk ord v re = Some re' \<Longrightarrow> heap re' = heap re"
  "update_acc al ord m v re = Some re' \<Longrightarrow> heap re' = heap re"
  by (auto simp: update_symbol_risk_def update_order_risk_def update_acc_def Let_def bind_eq_Some_conv
      upd_sym_def upd_acc_def split: if_splits option.splits)

lemma fix_replay_heap:
  "fix_replay (Suc n) i mb al m v p re = Some re' \<Longrightarrow>
     heap re' p = (heap re p)\<lparr>status := pre_new (heap re p) (i + n)\<rparr>"
proof (induction n arbitrary: i re)
  case 0
  then show ?case by (auto simp: Let_def bind_eq_Some_conv)
next
  case (Suc n)
  let ?ord = "heap re p"
  obtain re1 where "fix_replay (Suc n) (Suc i) mb al m v p
      (re1\<lparr>heap := (heap re1)(p := ?ord\<lparr>status := pre_new ?ord i\<rparr>)\<rparr>) = Some re'"
    using Suc.prems unfolding fix_replay.simps(2) [of "Suc n"] Let_def by (auto simp only: bind_eq_Some_conv)
  from Suc.IH [OF this] show ?case by (simp add: pre_new_def)
qed

text \<open>After the FIX branch has processed a confirmed order, the order's status is the first of the
  two recorded before confirmation, which the filler of the confirmation has cleared: every FIX order
  leaves the risk stage with the status \<open>Unknown\<close>.\<close>

theorem fix_status_lost:
  assumes "update_risk_for_protocol_fix mb al m p re = Some (True, re')" "protocol (heap re p) = FIX"
    and "syncState (heap re p) = NewSeen" "StatusesPreNew (heap re p) = (Status_Unknown, Status_Unknown)"
  shows "status (heap re' p) = Status_Unknown"
proof -
  obtain re1 where f: "fix_replay (Suc 2) 0 mb al m (venue_index (venue (heap re p))) p re = Some re1"
    and re': "re' = mark_risk_done p re1"
    using assms by (auto simp: update_risk_for_protocol_fix_def Let_def numeral_3_eq_3)
  show ?thesis using fix_replay_heap [OF f] assms(4) by (simp add: re' mark_risk_done_def pre_new_def)
qed

theorem fix_status_lost_witness:
  "\<exists>re'. update_risk_for_protocol_fix (\<lambda>_ _. empty_symbolbook) zero_accountlimit
      (orderMetrics (sample_market_order\<lparr>protocol := FIX, syncState := NewSeen, cancelled_count := 2\<rparr>)) 0
      (sample_engine (sample_market_order\<lparr>protocol := FIX, syncState := NewSeen, cancelled_count := 2\<rparr>)) = Some (True, re')
    \<and> status (heap re' 0) = Status_Unknown"
proof -
  let ?o = "sample_market_order\<lparr>protocol := FIX, syncState := NewSeen, cancelled_count := 2\<rparr>"
  let ?u = "update_risk_for_protocol_fix (\<lambda>_ _. empty_symbolbook) zero_accountlimit (orderMetrics ?o) 0 (sample_engine ?o)"
  have "map_option fst ?u = Some True" by code_simp
  then obtain re' where u: "?u = Some (True, re')" by auto
  have h: "heap (sample_engine ?o) 0 = ?o" by (simp add: sample_engine_def Let_def)
  have "StatusesPreNew ?o = (Status_Unknown, Status_Unknown)" by code_simp
  then show ?thesis using fix_status_lost [OF u] u h by auto
qed

end
