(* ===== verification/Order_Store.thy ===== *)
theory Order_Store
  imports Instruments Symbol_Tables Market_Book Spsc_Queue Flat_Map "HOL-Library.AList"
begin

text \<open>
  The state of \<^verbatim>\<open>OrderManager\<close> and its storage operations (src/src/order_management/OrderManager.h,
  the constructor and the order-management methods of OrderManager.cpp, the wrapper pools of
  src/src/core/MessageWithVenue.h and src/src/database/DbTypes.h).

  An \<^verbatim>\<open>Order*\<close> is the slot of the order in \<^verbatim>\<open>order_pool_\<close>; slots below \<open>MARKETORDER_LAST_INDEX\<close>
  hold market orders, the others our own.  \<open>om_heap\<close> is the pool's content.  A
  \<^verbatim>\<open>MessageWithVenue*\<close> is a slot of the pool of its kind, a \<^verbatim>\<open>DbData*\<close> a slot of the database
  pool.  The hash maps of Abseil are finite maps; \<^verbatim>\<open>our_orders_\<close>, whose size the code reads, is an
  association list with distinct keys.  The hash of \<^verbatim>\<open>std::string_view\<close> and the hash of the
  open-addressing map are parameters (\<open>hs\<close>, \<open>hk\<close>).  \<open>None\<close> stands for undefined behaviour:
  an index outside an array, or a null or end iterator dereferenced.
\<close>

record OrderKey =
  ok_order_id :: u64
  ok_instrument_id :: u32
  ok_venue :: u8
  ok_side :: u8

text \<open>\<^verbatim>\<open>OrderHistory\<close>: a ring of the last 64 orders of a symbol.\<close>

record OrderHistory =
  oh_orders :: "nat option list"
  oh_write_index :: u64

definition ORDERHISTORY_SIZE :: nat where "ORDERHISTORY_SIZE = 64"

definition history_push :: "nat \<Rightarrow> OrderHistory \<Rightarrow> OrderHistory" where
  "history_push p h =
     h\<lparr>oh_orders := (oh_orders h)[unat (oh_write_index h AND 63) := Some p],
       oh_write_index := oh_write_index h + 1\<rparr>"

primrec null_first :: "nat \<Rightarrow> nat option list \<Rightarrow> nat option list" where
  "null_first p [] = []"
| "null_first p (e # es) = (if e = Some p then None # es else e # null_first p es)"

definition history_pop :: "nat \<Rightarrow> OrderHistory \<Rightarrow> OrderHistory" where
  "history_pop p h = h\<lparr>oh_orders := null_first p (oh_orders h)\<rparr>"

primrec get_recent_loop :: "nat \<Rightarrow> u64 \<Rightarrow> nat \<Rightarrow> nat option list \<Rightarrow> nat option" where
  "get_recent_loop 0 index offset os = None"
| "get_recent_loop (Suc n) index offset os =
     (let index' = (index - 1) AND 63 in
      case os ! unat index' of
        None \<Rightarrow> get_recent_loop n index' offset os
      | Some c \<Rightarrow> (case offset of 0 \<Rightarrow> Some c | Suc off \<Rightarrow> get_recent_loop n index' off os))"

definition get_recent :: "nat \<Rightarrow> OrderHistory \<Rightarrow> nat option" where
  "get_recent offset h = get_recent_loop (length (oh_orders h)) (oh_write_index h) offset (oh_orders h)"

text \<open>The kinds of message wrappers and the entries for the database thread.\<close>

datatype msg_kind = K_Any | K_FIX | K_FIXSession | K_BIST_ITCH | K_NASDAQ_ITCH | K_BIST_OUCH | K_NASDAQ_OUCH

datatype DbData = D_Order nat | D_Msg msg_kind nat

definition MESSAGE_POOL_CAPACITY :: "msg_kind \<Rightarrow> u64" where
  "MESSAGE_POOL_CAPACITY k = (if k = K_Any then 2048 else 256)"

definition DBDATA_POOL_CAPACITY :: u64 where "DBDATA_POOL_CAPACITY = 2048"

definition ORDER_POOL_CAPACITY :: nat where "ORDER_POOL_CAPACITY = 65536"

definition ORDER_MAP_CAPACITY :: u64 where "ORDER_MAP_CAPACITY = 32768"

definition OUR_ORDER_MAP_THRESHOLD :: nat where "OUR_ORDER_MAP_THRESHOLD = 16384"

definition PENDING_QUEUE_CAPACITY :: nat where "PENDING_QUEUE_CAPACITY = 65536"

definition MARKETORDER_LAST_INDEX :: u64 where "MARKETORDER_LAST_INDEX = 32768"

definition PENDING_ORDER_SIZE :: nat where "PENDING_ORDER_SIZE = 64"

definition PENDING_MESSAGE_POOL_CAPACITY :: u64 where "PENDING_MESSAGE_POOL_CAPACITY = 65536"

text \<open>\<^verbatim>\<open>H_BITS\<close> of the 1024-slot queues of pointers.\<close>

definition OQ :: nat where "OQ = 7"

record PendingMessage =
  pm_msgWithVenue :: "nat option"
  pm_order :: "nat option"

record OrderManager =
  market_map_full :: bool
  om_instruments :: Instruments
  om_heap :: "nat \<Rightarrow> Order"
  market_next_slot :: u64
  our_next_slot :: u64
  triggered :: u64
  pending_message_pool :: "nat \<Rightarrow> PendingMessage"
  pm_next_slot :: u64
  pending_orders :: "nat \<Rightarrow> nat \<Rightarrow> nat option"
  pending_next_slot :: u64
  our_orders_all_venue :: "nat \<Rightarrow> OrderHistory list"
  market_orders :: "OrderKey \<rightharpoonup> nat"
  our_orders :: "(OrderKey \<times> nat) list"
  our_orders_wtokenkey :: "u64 \<rightharpoonup> nat"
  awaitingAck_orders :: "(u64, nat) flatmap"
  nq_ouch_refnum_ordkey :: "u32 \<rightharpoonup> OrderKey"
  nq_itch_refnum_ordkey :: "u64 \<rightharpoonup> OrderKey"
  pending_to_strategy :: "nat list"
  parser_to_store :: "nat spsc"
  store_to_strategy :: "nat spsc"
  store_to_strategy_free_slot :: "nat spsc"
  om_store_to_risk :: "nat spsc"
  store_to_db :: "nat spsc"
  om_marketbook :: MarketBook
  om_hashtables :: HashTables
  bist_trade_id :: u64
  mwv_pool :: "msg_kind \<Rightarrow> nat \<Rightarrow> MessageWithVenue"
  next_msgWithVenue :: "msg_kind \<Rightarrow> u64"
  dbd_pool :: "nat \<Rightarrow> DbData"
  next_DbData :: u64

subsection \<open>Pools and queues\<close>

definition get_msgWithVenue ::
  "msg_kind \<Rightarrow> MessageTypes \<Rightarrow> Venue \<Rightarrow> OrderManager \<Rightarrow> nat \<times> OrderManager" where
  "get_msgWithVenue k msg ven om =
     (let i = unat (next_msgWithVenue om k AND (MESSAGE_POOL_CAPACITY k - 1))
      in (i, om\<lparr>mwv_pool := (mwv_pool om)(k := (mwv_pool om k)(i := \<lparr>mwv_msg = msg, mwv_venue = ven\<rparr>)),
               next_msgWithVenue := (next_msgWithVenue om)(k := next_msgWithVenue om k + 1)\<rparr>))"

definition get_DbData :: "DbData \<Rightarrow> OrderManager \<Rightarrow> nat \<times> OrderManager" where
  "get_DbData d om =
     (let i = unat (next_DbData om AND (DBDATA_POOL_CAPACITY - 1))
      in (i, om\<lparr>dbd_pool := (dbd_pool om)(i := d), next_DbData := next_DbData om + 1\<rparr>))"

text \<open>The results of the pushes are ignored by the code.\<close>

definition push_db :: "DbData \<Rightarrow> OrderManager \<Rightarrow> OrderManager" where
  "push_db d om =
     (let (i, om1) = get_DbData d om
      in om1\<lparr>store_to_db := snd (spsc_push OQ i (store_to_db om1))\<rparr>)"

definition push_risk :: "nat \<Rightarrow> OrderManager \<Rightarrow> OrderManager" where
  "push_risk p om = om\<lparr>om_store_to_risk := snd (spsc_push OQ p (om_store_to_risk om))\<rparr>"

definition push_strategy :: "nat \<Rightarrow> OrderManager \<Rightarrow> OrderManager" where
  "push_strategy p om = om\<lparr>store_to_strategy := snd (spsc_push OQ p (store_to_strategy om))\<rparr>"

definition push_free_slot :: "nat \<Rightarrow> OrderManager \<Rightarrow> OrderManager" where
  "push_free_slot p om =
     om\<lparr>store_to_strategy_free_slot := snd (spsc_push OQ p (store_to_strategy_free_slot om))\<rparr>"

definition poll_update :: "OrderManager \<Rightarrow> nat option \<times> OrderManager" where
  "poll_update om =
     (let (r, q) = spsc_pop OQ (store_to_strategy om) in (r, om\<lparr>store_to_strategy := q\<rparr>))"

definition get_pending_packet :: "nat option \<Rightarrow> nat option \<Rightarrow> OrderManager \<Rightarrow> nat \<times> OrderManager" where
  "get_pending_packet msg ord om =
     (let i = unat (pm_next_slot om AND (PENDING_MESSAGE_POOL_CAPACITY - 1))
      in (i, om\<lparr>pending_message_pool := (pending_message_pool om)
                  (i := \<lparr>pm_msgWithVenue = msg, pm_order = ord\<rparr>),
               pm_next_slot := pm_next_slot om + 1\<rparr>))"

text \<open>The message is put aside until the pipeline has released the order: a fresh wrapper, a
  pending packet and the bounded queue \<^verbatim>\<open>pending_to_strategy_\<close>.\<close>

definition defer_message :: "MessageTypes \<Rightarrow> Venue \<Rightarrow> nat \<Rightarrow> OrderManager \<Rightarrow> OrderManager" where
  "defer_message msg ven p om =
     (let (i, om1) = get_msgWithVenue K_Any msg ven om;
          (j, om2) = get_pending_packet (Some i) (Some p) om1
      in if length (pending_to_strategy om2) < PENDING_QUEUE_CAPACITY
         then om2\<lparr>pending_to_strategy := pending_to_strategy om2 @ [j]\<rparr> else om2)"

subsection \<open>Orders and histories\<close>

definition upd_order :: "nat \<Rightarrow> Order \<Rightarrow> OrderManager \<Rightarrow> OrderManager" where
  "upd_order p ord om = om\<lparr>om_heap := (om_heap om)(p := ord)\<rparr>"

definition order_key :: "Order \<Rightarrow> OrderKey" where
  "order_key ord =
     \<lparr>ok_order_id = order_id ord, ok_instrument_id = instrument_id ord,
      ok_venue = venue_u8 (venue ord), ok_side = side_u8 (side ord)\<rparr>"

text \<open>\<^verbatim>\<open>our_orders_all_venue_[venue][symbol_index]\<close> of an order.\<close>

definition history_of :: "Order \<Rightarrow> OrderManager \<Rightarrow> (nat \<times> nat) option" where
  "history_of ord om =
     (let v = venue_index (venue ord); i = unat (symbol_index ord)
      in if v < VENUE_COUNT \<and> i < length (our_orders_all_venue om v) then Some (v, i) else None)"

definition upd_history :: "nat \<times> nat \<Rightarrow> (OrderHistory \<Rightarrow> OrderHistory) \<Rightarrow> OrderManager \<Rightarrow> OrderManager" where
  "upd_history vi f om =
     om\<lparr>our_orders_all_venue := (our_orders_all_venue om)
          (fst vi := (our_orders_all_venue om (fst vi))
                       [snd vi := f (our_orders_all_venue om (fst vi) ! snd vi)])\<rparr>"

definition release_our_order :: "nat \<times> nat \<Rightarrow> nat \<Rightarrow> OrderManager \<Rightarrow> OrderManager" where
  "release_our_order vi p om =
     (let ord = om_heap om p;
          om1 = push_free_slot p om;
          om2 = om1\<lparr>our_orders := AList.delete (order_key ord) (our_orders om1),
                    our_orders_wtokenkey := (our_orders_wtokenkey om1)(client_order_id ord := None)\<rparr>
      in upd_history vi (history_pop p) om2)"

definition release_market_order :: "nat \<Rightarrow> OrderManager \<Rightarrow> OrderManager" where
  "release_market_order p om =
     (let om1 = push_free_slot p om
      in om1\<lparr>market_orders := (market_orders om1)(order_key (om_heap om p) := None)\<rparr>)"

definition add_awaitingAck_order :: "(u64 \<Rightarrow> u64) \<Rightarrow> nat \<Rightarrow> OrderManager \<Rightarrow> OrderManager option" where
  "add_awaitingAck_order hk p om = do {
     let ord = om_heap om p;
     let v = venue_index (venue ord);
     _ \<leftarrow> guard (v < VENUE_COUNT);
     let s = unat (pending_next_slot om AND 63);
     Some (om\<lparr>awaitingAck_orders := snd (fm_insert hk (client_order_id ord) p (awaitingAck_orders om)),
              pending_orders := (pending_orders om)(v := (pending_orders om v)(s := Some p)),
              pending_next_slot := pending_next_slot om + 1\<rparr>) }"

text \<open>\<open>add_our_order\<close>: past the threshold one of the old slots is released first, round robin;
  \<open>triggered\<close> is the function's static counter.\<close>

definition recycle_our_slot :: "OrderManager \<Rightarrow> OrderManager option" where
  "recycle_our_slot om = do {
     let slot = (if triggered om AND (ORDER_MAP_CAPACITY - 1) = 0 then MARKETORDER_LAST_INDEX
                 else our_next_slot om);
     let om1 = om\<lparr>triggered := triggered om + 1, our_next_slot := slot + 1\<rparr>;
     _ \<leftarrow> guard (unat slot < ORDER_POOL_CAPACITY);
     vi \<leftarrow> history_of (om_heap om1 (unat slot)) om1;
     Some (release_our_order vi (unat slot) om1) }"

definition add_our_order :: "nat \<Rightarrow> OrderKey \<Rightarrow> OrderManager \<Rightarrow> OrderManager option" where
  "add_our_order p key om = do {
     om1 \<leftarrow> (if OUR_ORDER_MAP_THRESHOLD \<le> length (our_orders om) then recycle_our_slot om else Some om);
     let om2 = om1\<lparr>our_orders := AList.update key p (our_orders om1)\<rparr>;
     vi \<leftarrow> history_of (om_heap om2 p) om2;
     Some (upd_history vi (history_push p) om2) }"

text \<open>\<open>add_market_order\<close>: the market half of the pool is a ring; once it has wrapped, the order
  that was in the slot is unlinked first.\<close>

definition add_market_order :: "OrderKey \<Rightarrow> OrderManager \<Rightarrow> nat \<times> OrderManager" where
  "add_market_order key om =
     (let om1 = (if MARKETORDER_LAST_INDEX \<le> market_next_slot om
                 then om\<lparr>market_next_slot := 0, market_map_full := True\<rparr> else om);
          p = unat (market_next_slot om1);
          om2 = (if market_map_full om1
                 then om1\<lparr>market_orders := (market_orders om1)(order_key (om_heap om1 p) := None)\<rparr>
                 else om1)
      in (p, om2\<lparr>market_orders := (market_orders om2)(key \<mapsto> p),
                 market_next_slot := market_next_slot om2 + 1\<rparr>))"

definition get_order_from_our_map :: "OrderManager \<Rightarrow> OrderKey \<Rightarrow> nat option" where
  "get_order_from_our_map om key = map_of (our_orders om) key"

definition get_order_from_market_map :: "OrderManager \<Rightarrow> OrderKey \<Rightarrow> nat option" where
  "get_order_from_market_map om key = market_orders om key"

definition get_order_from_awaitingAck_orders :: "(u64 \<Rightarrow> u64) \<Rightarrow> OrderManager \<Rightarrow> u64 \<Rightarrow> nat option" where
  "get_order_from_awaitingAck_orders hk om cid = fm_lookup hk (awaitingAck_orders om) cid"

definition get_order_from_our_map_wtokenkey :: "OrderManager \<Rightarrow> u64 \<Rightarrow> nat option" where
  "get_order_from_our_map_wtokenkey om cid = our_orders_wtokenkey om cid"

definition erase_awaiting :: "(u64 \<Rightarrow> u64) \<Rightarrow> u64 \<Rightarrow> OrderManager \<Rightarrow> OrderManager" where
  "erase_awaiting hk cid om = om\<lparr>awaitingAck_orders := snd (fm_erase hk cid (awaitingAck_orders om))\<rparr>"

text \<open>The test of an early ITCH add message against the orders we wait for; the two overloads read
  the same fields under different names.\<close>

definition pending_match :: "u64 \<Rightarrow> i64 \<Rightarrow> u32 \<Rightarrow> char \<Rightarrow> u64 \<Rightarrow> Order \<Rightarrow> bool" where
  "pending_match qty prc instr sd ts ord \<longleftrightarrow>
     ucast (quantity ord) = qty \<and> price ord = prc \<and> instrument_id ord = instr
     \<and> side ord = (if sd = CHR ''B'' then Buy else Sell)
     \<and> last_update_time ord < ts \<and> ts - last_update_time ord < 500000"

definition matched_pending :: "nat \<Rightarrow> (Order \<Rightarrow> bool) \<Rightarrow> OrderManager \<Rightarrow> bool" where
  "matched_pending v f om \<longleftrightarrow>
     list_ex (\<lambda>s. case pending_orders om v s of None \<Rightarrow> False | Some p \<Rightarrow> f (om_heap om p))
       [0..<PENDING_ORDER_SIZE]"

definition is_matched_pending_order_bist :: "BIST_ITCHAddOrderMessage \<Rightarrow> OrderManager \<Rightarrow> bool" where
  "is_matched_pending_order_bist msg =
     matched_pending (venue_index BIST)
       (pending_match (biA_quantity msg) (i64_of_i32 (biA_price msg)) (biA_order_book_id msg)
          (biA_side msg) (ucast (biA_timestamp_ns msg)))"

definition is_matched_pending_order_nasdaq :: "NASDAQ_ITCHAddOrderMessage \<Rightarrow> OrderManager \<Rightarrow> bool" where
  "is_matched_pending_order_nasdaq msg =
     matched_pending (venue_index NASDAQ)
       (pending_match (ucast (niA_shares msg)) (i64_of_u32 (niA_price msg)) (ucast (niA_stock_locate msg))
          (niA_side msg) (niA_timestamp msg))"

definition is_matched_pending_order_mpid :: "NASDAQ_ITCHAddOrderMPIDMessage \<Rightarrow> OrderManager \<Rightarrow> bool" where
  "is_matched_pending_order_mpid msg =
     matched_pending (venue_index NASDAQ)
       (pending_match (ucast (niF_shares msg)) (i64_of_u32 (niF_price msg)) (ucast (niF_stock_locate msg))
          (niF_side msg) (niF_timestamp msg))"

definition copy_order_id :: "string \<Rightarrow> nat \<Rightarrow> string" where
  "copy_order_id src len = pad_to ORDER_IDs_SIZE (take len src)"

subsection \<open>The constructor\<close>

primrec push_free_from :: "nat \<Rightarrow> nat \<Rightarrow> OrderManager \<Rightarrow> OrderManager" where
  "push_free_from 0 i om = om"
| "push_free_from (Suc n) i om = push_free_from n (Suc i) (push_free_slot i om)"

text \<open>\<^verbatim>\<open>OrderHistory()\<close> initialises only the index; the pointers hold whatever the allocation held
  (\<open>junk\<close>).  \<open>om0\<close> is the state of the members before the constructor body runs.\<close>

definition new_history :: "nat option list \<Rightarrow> OrderHistory" where
  "new_history junk = \<lparr>oh_orders = junk, oh_write_index = 0\<rparr>"

definition initial_members ::
  "Venue \<Rightarrow> HashTables \<Rightarrow> (u64, nat) flatmap \<Rightarrow> (msg_kind \<Rightarrow> nat \<Rightarrow> MessageWithVenue) \<Rightarrow> OrderManager" where
  "initial_members v0 ht ack pool0 =
     \<lparr>market_map_full = False, om_instruments = empty_instruments, om_heap = (\<lambda>_. default_order v0),
      market_next_slot = 0, our_next_slot = MARKETORDER_LAST_INDEX, triggered = 0,
      pending_message_pool = (\<lambda>_. \<lparr>pm_msgWithVenue = None, pm_order = None\<rparr>), pm_next_slot = 0,
      pending_orders = (\<lambda>_ _. None), pending_next_slot = 0, our_orders_all_venue = (\<lambda>_. []),
      market_orders = Map.empty, our_orders = [], our_orders_wtokenkey = Map.empty,
      awaitingAck_orders = ack, nq_ouch_refnum_ordkey = Map.empty,
      nq_itch_refnum_ordkey = Map.empty, pending_to_strategy = [], parser_to_store = spsc_init OQ,
      store_to_strategy = spsc_init OQ, store_to_strategy_free_slot = spsc_init OQ,
      om_store_to_risk = spsc_init OQ, store_to_db = spsc_init OQ,
      om_marketbook = (\<lambda>_ _. empty_symbolbook), om_hashtables = ht, bist_trade_id = 0,
      mwv_pool = pool0, next_msgWithVenue = (\<lambda>_. 0), dbd_pool = (\<lambda>_. D_Order 0), next_DbData = 0\<rparr>"

definition construct :: "nat option list \<Rightarrow> OrderManager \<Rightarrow> OrderManager option" where
  "construct junk om0 = do {
     let om = push_free_from (ORDER_POOL_CAPACITY - unat MARKETORDER_LAST_INDEX)
                (unat MARKETORDER_LAST_INDEX) om0;
     n0 \<leftarrow> get_symbol_count (om_hashtables om) 0;
     n1 \<leftarrow> get_symbol_count (om_hashtables om) 1;
     Some (om\<lparr>our_orders_all_venue := (our_orders_all_venue om)
                (0 := replicate n0 (new_history junk), 1 := replicate n1 (new_history junk))\<rparr>) }"

subsection \<open>The order history\<close>

lemma mod_cancel_right:
  fixes a b y n :: nat
  assumes "(a + y) mod n = (b + y) mod n"
  shows "a mod n = b mod n"
proof -
  have "(int a + int y) mod int n = (int b + int y) mod int n" using assms by (metis of_nat_add zmod_int)
  then have "int a mod int n = int b mod int n" by (metis add_diff_cancel_right' mod_diff_left_eq)
  then show ?thesis by (metis of_nat_eq_iff zmod_int)
qed

lemma unat_mask_63: "unat (x AND 63) = unat x mod 64" for x :: u64
  using unat_and_pow2_mask [where k = 6 and x = x] by simp

lemma add_mod_64: "unat (x + y) mod 64 = (unat x + unat y) mod 64" for x y :: u64
  using unat_add_mod_pow2 [where k = 6 and x = x and y = y] by simp

lemma diff_mod_64: "unat (x - y) mod 64 = unat (z - y) mod 64" if "unat x mod 64 = unat z mod 64" for x y z :: u64
proof (rule mod_cancel_right)
  show "(unat (x - y) + unat y) mod 64 = (unat (z - y) + unat y) mod 64"
    using that add_mod_64 [of "x - y" y] add_mod_64 [of "z - y" y] by simp
qed

text \<open>The entry of a history that was written \<open>j + 1\<close> pushes ago.\<close>

definition hist_entry :: "u64 \<Rightarrow> nat option list \<Rightarrow> nat \<Rightarrow> nat option" where
  "hist_entry w os j = os ! (unat (w - 1 - of_nat j) mod 64)"

definition hist_rep :: "OrderHistory \<Rightarrow> nat list \<Rightarrow> bool" where
  "hist_rep h ps \<longleftrightarrow> length (oh_orders h) = 64 \<and>
     (\<forall>j<64. hist_entry (oh_write_index h) (oh_orders h) j = (if j < length ps then Some (rev ps ! j) else None))"

lemma hist_rep_new: "hist_rep (new_history (replicate 64 None)) []"
  by (simp add: hist_rep_def new_history_def hist_entry_def)

lemma hist_slot_distinct:
  fixes w :: u64
  assumes "j < 63"
  shows "unat (w - 1 - of_nat j) mod 64 \<noteq> unat w mod 64"
proof
  assume eq: "unat (w - 1 - of_nat j) mod 64 = unat w mod 64"
  have uj: "unat (of_nat (Suc j) :: u64) = Suc j"
    unfolding unat_of_nat by (rule mod_less) (use assms in simp)
  have "w = (w - 1 - of_nat j) + of_nat (Suc j)" by simp
  then have "unat w mod 64 = (unat (w - 1 - of_nat j) + Suc j) mod 64"
    using add_mod_64 [of "w - 1 - of_nat j" "of_nat (Suc j)"] uj by metis
  then have "(unat (w - 1 - of_nat j) + 0) mod 64 = (unat (w - 1 - of_nat j) + Suc j) mod 64" using eq by simp
  then show False using ring_aux [of 0 64 "Suc j" "unat (w - 1 - of_nat j)"] assms by simp
qed

lemma hist_rep_push:
  assumes "hist_rep h ps"
  shows "hist_rep (history_push p h) (ps @ [p])"
proof -
  let ?w = "oh_write_index h"
  have len: "length (oh_orders h) = 64" using assms by (simp add: hist_rep_def)
  have "hist_entry (?w + 1) ((oh_orders h)[unat ?w mod 64 := Some p]) j
      = (if j < length (ps @ [p]) then Some (rev (ps @ [p]) ! j) else None)" if j: "j < 64" for j
  proof (cases j)
    case 0
    then show ?thesis by (simp add: hist_entry_def len)
  next
    case (Suc i)
    have "hist_entry (?w + 1) ((oh_orders h)[unat ?w mod 64 := Some p]) j = hist_entry ?w (oh_orders h) i"
      using hist_slot_distinct [of i ?w] j Suc by (simp add: hist_entry_def algebra_simps)
    moreover have "hist_entry ?w (oh_orders h) i = (if i < length ps then Some (rev ps ! i) else None)"
      using assms j Suc by (simp add: hist_rep_def)
    ultimately show ?thesis by (simp add: Suc)
  qed
  then show ?thesis by (simp add: hist_rep_def history_push_def len unat_mask_63)
qed

lemma get_recent_loop_rep:
  assumes "\<forall>j<n. hist_entry w os j = (if j < length xs then Some (xs ! j) else None)"
  shows "get_recent_loop n w k os = (if k < min n (length xs) then Some (xs ! k) else None)"
  using assms
proof (induction n arbitrary: w k xs)
  case (Suc n)
  let ?w = "(w - 1) AND 63"
  have step: "hist_entry ?w os j = hist_entry w os (Suc j)" for j
    using diff_mod_64 [of ?w "w - 1" "1 + of_nat j"]
    by (simp add: hist_entry_def unat_mask_63 algebra_simps)
  have first: "os ! unat ?w = hist_entry w os 0" by (simp add: hist_entry_def unat_mask_63)
  show ?case
  proof (cases xs)
    case Nil
    have "get_recent_loop n ?w k os = (if k < min n (length xs) then Some (xs ! k) else None)"
      by (rule Suc.IH) (use Suc.prems step Nil in auto)
    then show ?thesis using Suc.prems first Nil by (simp add: Let_def)
  next
    case (Cons x xs')
    have "get_recent_loop n ?w k' os = (if k' < min n (length xs') then Some (xs' ! k') else None)" for k'
      by (rule Suc.IH) (use Suc.prems step Cons in auto)
    then show ?thesis using Suc.prems first Cons by (cases k) (simp_all add: Let_def)
  qed
qed simp

lemma hist_rep_fold: "hist_rep h ps \<Longrightarrow> hist_rep (fold history_push qs h) (ps @ qs)"
proof (induction qs arbitrary: h ps)
  case (Cons q qs)
  from Cons.IH [OF hist_rep_push [OF Cons.prems, of q]] show ?case by simp
qed simp

subsection \<open>Properties\<close>

text \<open>The order history of a symbol remembers the last 64 orders: after any sequence of pushes onto
  an empty history, \<^verbatim>\<open>get_recent(k)\<close> is the order pushed \<open>k + 1\<close> pushes ago for \<open>k < 64\<close>, and
  null when there is none.\<close>

theorem get_recent_spec:
  "get_recent k (fold history_push ps (new_history (replicate 64 None)))
     = (if k < min 64 (length ps) then Some (rev ps ! k) else None)"
proof -
  let ?h = "fold history_push ps (new_history (replicate 64 None))"
  have rep: "hist_rep ?h ps" using hist_rep_fold [OF hist_rep_new, of ps] by simp
  then have len: "length (oh_orders ?h) = 64" by (simp add: hist_rep_def)
  have "get_recent_loop 64 (oh_write_index ?h) k (oh_orders ?h)
      = (if k < min 64 (length (rev ps)) then Some (rev ps ! k) else None)"
    by (rule get_recent_loop_rep) (use rep in \<open>simp add: hist_rep_def\<close>)
  then show ?thesis by (simp add: get_recent_def len)
qed

text \<open>The counters of the recycling of our slots: once \<open>triggered\<close> has left a multiple of the ring
  size, the next slot is the base plus the position in the ring.\<close>

definition our_ring_ok :: "OrderManager \<Rightarrow> bool" where
  "our_ring_ok om \<longleftrightarrow>
     (triggered om AND 32767 \<noteq> 0 \<longrightarrow> our_next_slot om = 32768 + (triggered om AND 32767))"

definition recycled_slot :: "OrderManager \<Rightarrow> nat" where
  "recycled_slot om = 32768 + unat (triggered om) mod 32768"

lemma unat_mask_32767: "unat (x AND 32767) = unat x mod 32768" for x :: u64
  using unat_and_pow2_mask [where k = 15 and x = x] by simp

lemma unat_ring_slot: "unat (32768 + (x AND 32767) :: u64) = 32768 + unat x mod 32768"
proof -
  have "unat x mod 32768 < 32768" by simp
  then show ?thesis by (simp add: unat_word_ariths unat_mask_32767)
qed

lemma ring_step: "(x + 1) AND 32767 \<noteq> 0 \<Longrightarrow> (x + 1) AND 32767 = (x AND 32767) + 1" for x :: u64
proof -
  assume ne: "(x + 1) AND 32767 \<noteq> 0"
  have s: "unat ((x + 1) AND 32767) = (unat x mod 32768 + 1) mod 32768"
    using unat_add_mod_pow2 [where k = 15 and x = x and y = 1] by (simp add: unat_mask_32767 mod_simps)
  have lt: "unat x mod 32768 < 32768" by simp
  have "(unat x mod 32768 + 1) mod 32768 \<noteq> 0" using ne s by (metis unat_eq_0)
  then have "unat x mod 32768 + 1 < 32768" using lt by (cases "unat x mod 32768 + 1 = 32768") auto
  then have "unat ((x + 1) AND 32767) = unat ((x AND 32767) + 1)"
    using s by (simp add: unat_word_ariths unat_mask_32767)
  then show ?thesis by (simp add: word_unat_eq_iff)
qed

lemma recycle_slot_eq:
  assumes "our_ring_ok om"
  shows "(if triggered om AND (ORDER_MAP_CAPACITY - 1) = 0 then MARKETORDER_LAST_INDEX else our_next_slot om)
    = 32768 + (triggered om AND 32767)"
  using assms by (simp add: our_ring_ok_def ORDER_MAP_CAPACITY_def MARKETORDER_LAST_INDEX_def)

lemma recycle_unfold:
  assumes "our_ring_ok om"
  shows "recycle_our_slot om =
    (let om1 = om\<lparr>triggered := triggered om + 1, our_next_slot := 32768 + (triggered om AND 32767) + 1\<rparr>
     in map_option (\<lambda>vi. release_our_order vi (recycled_slot om) om1)
          (history_of (om_heap om (recycled_slot om)) om))"
proof -
  have "recycled_slot om < 65536" by (simp add: recycled_slot_def)
  then show ?thesis
    by (simp add: recycle_our_slot_def recycle_slot_eq [OF assms] Let_def guard_def unat_ring_slot
        recycled_slot_def [symmetric] ORDER_POOL_CAPACITY_def history_of_def)
qed

definition sample_manager :: OrderManager where
  "sample_manager = initial_members BIST
     \<lparr>hashtables = [[(symbol_array ''GARAN'', 0)], []], symbols_count_per_venue = [1, 0], exec_id_hashes = {}\<rparr>
     (fm_new 4 0 0) (\<lambda>_ _. \<lparr>mwv_msg = M_BIST_ITCH (B_ITCHSeconds \<lparr>biT_second = 0, biT_message_type = CHR ''T''\<rparr>),
       mwv_venue = BIST\<rparr>)"

text \<open>The recycling of our order slots never leaves the pool: it visits the 32768 slots of our half
  in turn, starting over after the last, so it fails only if the recycled order has no history of
  its own; each time it hands the slot back to the strategy and advances by one.\<close>

theorem recycle_our_slot_round_robin:
  assumes "our_ring_ok om"
  shows "32768 \<le> recycled_slot om \<and> recycled_slot om < 65536
    \<and> (recycle_our_slot om = None \<longleftrightarrow> history_of (om_heap om (recycled_slot om)) om = None)
    \<and> (\<forall>om'. recycle_our_slot om = Some om' \<longrightarrow> our_ring_ok om' \<and> triggered om' = triggered om + 1
         \<and> store_to_strategy_free_slot om'
             = snd (spsc_push OQ (recycled_slot om) (store_to_strategy_free_slot om))
         \<and> map_of (our_orders om') (order_key (om_heap om (recycled_slot om))) = None)"
proof -
  have "our_ring_ok om'" if "triggered om' = triggered om + 1" "our_next_slot om' = 32768 + (triggered om AND 32767) + 1"
    for om'
    using that ring_step [of "triggered om"] by (auto simp: our_ring_ok_def)
  moreover have "recycled_slot om < 65536" by (simp add: recycled_slot_def)
  ultimately show ?thesis
    by (auto simp: recycle_unfold [OF assms] Let_def release_our_order_def upd_history_def push_free_slot_def
        recycled_slot_def delete_conv)
qed

theorem recycle_our_slot_round_robin_witness:
  "32768 \<le> recycled_slot sample_manager \<and> recycled_slot sample_manager < 65536
    \<and> recycle_our_slot sample_manager = None"
proof -
  have "our_ring_ok sample_manager" by (simp add: our_ring_ok_def sample_manager_def initial_members_def)
  moreover have "history_of ord sample_manager = None" for ord
    by (simp add: history_of_def sample_manager_def initial_members_def Let_def)
  ultimately show ?thesis using recycle_our_slot_round_robin [of sample_manager] by simp
qed

text \<open>\<^verbatim>\<open>add_market_order\<close> always hands out a slot of the market half of the pool, in ring order, and
  binds the new key to it.  Other keys keep their binding, except that once the ring has wrapped the
  key recorded in the order that occupied the slot is unbound.\<close>

theorem add_market_order_ring:
  assumes "unat (market_next_slot om) \<le> 32768" "add_market_order key om = (p, om')"
  shows "p = unat (market_next_slot om) mod 32768 \<and> unat (market_next_slot om') = p + 1
    \<and> get_order_from_market_map om' key = Some p
    \<and> (\<forall>k. k \<noteq> key \<longrightarrow> market_orders om' k =
          (if (market_map_full om \<or> unat (market_next_slot om) = 32768) \<and> k = order_key (om_heap om p)
           then None else market_orders om k))
    \<and> om_heap om' = om_heap om"
proof (cases "market_next_slot om = 32768")
  case True
  then show ?thesis
    using assms(2)
    by (auto simp: add_market_order_def Let_def MARKETORDER_LAST_INDEX_def get_order_from_market_map_def)
next
  case False
  have ne: "unat (market_next_slot om) \<noteq> 32768" using False by (simp add: word_unat_eq_iff)
  then have lt: "unat (market_next_slot om) < 32768" using assms(1) by simp
  then have nle: "\<not> 32768 \<le> market_next_slot om" by (simp add: word_le_nat_alt)
  have "unat (market_next_slot om + 1) = unat (market_next_slot om) + 1"
    using lt by (simp add: unat_word_ariths)
  then show ?thesis
    using assms(2) ne lt nle
    by (auto simp: add_market_order_def Let_def MARKETORDER_LAST_INDEX_def get_order_from_market_map_def)
qed

theorem add_market_order_ring_witness:
  "fst (add_market_order (order_key (default_order BIST)) sample_manager) = 0
    \<and> get_order_from_market_map (snd (add_market_order (order_key (default_order BIST)) sample_manager))
        (order_key (default_order BIST)) = Some 0"
proof -
  have "market_next_slot sample_manager = 0" by (simp add: sample_manager_def initial_members_def)
  then show ?thesis
    using add_market_order_ring [of sample_manager "order_key (default_order BIST)"]
    by (metis mod_0 prod.collapse unat_0 zero_le)
qed

lemma push_free_from_rep:
  assumes "spsc_inv OQ (store_to_strategy_free_slot om)"
  shows "spsc_rep OQ (store_to_strategy_free_slot (push_free_from n i om)) =
      spsc_rep OQ (store_to_strategy_free_slot om)
        @ take (1024 - length (spsc_rep OQ (store_to_strategy_free_slot om))) [i..<i + n]
    \<and> om_hashtables (push_free_from n i om) = om_hashtables om
    \<and> our_orders_all_venue (push_free_from n i om) = our_orders_all_venue om"
  using assms
proof (induction n arbitrary: i om)
  case (Suc n)
  let ?q = "store_to_strategy_free_slot om" and ?om = "push_free_slot i om"
  have i': "spsc_inv OQ (store_to_strategy_free_slot ?om)"
    using spsc.push_inv [OF Suc.prems] by (simp add: push_free_slot_def)
  have r: "spsc_rep OQ (store_to_strategy_free_slot ?om)
      = (if length (spsc_rep OQ ?q) < 1024 then spsc_rep OQ ?q @ [i] else spsc_rep OQ ?q)"
    using spsc.push_rep [OF Suc.prems, of i] by (simp add: push_free_slot_def OQ_def)
  have b: "length (spsc_rep OQ ?q) \<le> 1024" using spsc.rep_bound [OF Suc.prems] by (simp add: OQ_def)
  have up: "[i..<i + Suc n] = i # [Suc i..<Suc i + n]" by (simp add: upt_conv_Cons del: upt_Suc)
  have IH: "spsc_rep OQ (store_to_strategy_free_slot (push_free_from n (Suc i) ?om)) =
      spsc_rep OQ (store_to_strategy_free_slot ?om)
        @ take (1024 - length (spsc_rep OQ (store_to_strategy_free_slot ?om))) [Suc i..<Suc i + n]"
    and frame: "om_hashtables (push_free_from n (Suc i) ?om) = om_hashtables ?om"
      "our_orders_all_venue (push_free_from n (Suc i) ?om) = our_orders_all_venue ?om"
    using Suc.IH [OF i', of "Suc i"] by blast+
  have "spsc_rep OQ (store_to_strategy_free_slot (push_free_from (Suc n) i om)) =
      spsc_rep OQ ?q @ take (1024 - length (spsc_rep OQ ?q)) [i..<i + Suc n]"
  proof (cases "length (spsc_rep OQ ?q) < 1024")
    case True
    then have "1024 - length (spsc_rep OQ ?q) = Suc (1024 - Suc (length (spsc_rep OQ ?q)))" by simp
    with True r show ?thesis by (simp only: push_free_from.simps IH up if_True length_append list.size take_Suc_Cons) simp
  next
    case False
    then show ?thesis using b by (simp only: push_free_from.simps IH up r if_False) simp
  qed
  then show ?case using frame by (simp add: push_free_slot_def [of i om])
qed simp

text \<open>The constructor hands the strategy only the first 1024 of the 32768 order slots of our half:
  it pushes all of them into a queue of 1024 places, and the pushes beyond are lost.\<close>

theorem construct_free_slots:
  assumes "construct junk (initial_members v0 ht ack pool0) = Some om"
  shows "spsc_rep OQ (store_to_strategy_free_slot om) = [32768..<33792]"
proof -
  let ?om0 = "initial_members v0 ht ack pool0"
  have i: "spsc_inv OQ (spsc_init OQ)" by (rule spsc_init_inv) (simp add: OQ_def)
  have "store_to_strategy_free_slot om = store_to_strategy_free_slot (push_free_from 32768 32768 ?om0)"
    using assms
    by (auto simp: construct_def Let_def bind_eq_Some_conv ORDER_POOL_CAPACITY_def MARKETORDER_LAST_INDEX_def)
  moreover have q0: "store_to_strategy_free_slot ?om0 = spsc_init OQ" by (simp add: initial_members_def)
  have "spsc_rep OQ (store_to_strategy_free_slot (push_free_from 32768 32768 ?om0)) = take 1024 [32768..<65536]"
    using push_free_from_rep [of ?om0 32768 32768, unfolded q0 spsc_init_rep, OF i] by (simp del: upt_rec_numeral)
  moreover have "take 1024 [32768..<65536] = [32768..<33792]"
    using take_upt [of 32768 1024 65536] by (simp del: upt_rec_numeral)
  ultimately show ?thesis by (simp del: upt_rec_numeral)
qed

theorem construct_free_slots_witness:
  "\<exists>om. construct (replicate 64 None) sample_manager = Some om
    \<and> spsc_rep OQ (store_to_strategy_free_slot om) = [32768..<33792]"
proof -
  have "spsc_inv OQ (store_to_strategy_free_slot sample_manager)"
    by (simp add: sample_manager_def initial_members_def spsc_init_inv OQ_def)
  then have "om_hashtables (push_free_from n i sample_manager) = om_hashtables sample_manager" for n i
    by (simp add: push_free_from_rep)
  moreover have "get_symbol_count (om_hashtables sample_manager) 0 = Some 1"
    "get_symbol_count (om_hashtables sample_manager) 1 = Some 0"
    by (simp_all add: get_symbol_count_def nth_opt_def sample_manager_def initial_members_def)
  ultimately obtain om where c: "construct (replicate 64 None) sample_manager = Some om"
    by (simp add: construct_def Let_def)
  show ?thesis using construct_free_slots [OF c [unfolded sample_manager_def]] c by blast
qed

end
