(* ===== verification/Fillers.thy ===== *)
theory Fillers
  imports Order_Store
begin

text \<open>
  The fillers (src/src/order_management/fillers): how each exchange message changes an order.  A
  filler that only writes the order is a function on orders; one that can also release it or that
  keeps a counter acts on the order manager's state.  Message quantities of 64 bits are added to
  32-bit order fields, so they are truncated.  Quantities are unsigned: \<^verbatim>\<open>-1 * q\<close> is the two's
  complement of \<open>q\<close>.
\<close>

definition msg_side :: "char \<Rightarrow> Side" where
  "msg_side c = (if c = CHR ''B'' then Buy else Sell)"

text \<open>\<^verbatim>\<open>std::string_view\<close> of a character array: up to the terminating NUL, which must be there.\<close>

definition c_str :: "string \<Rightarrow> string option" where
  "c_str s = (if CHR 0x00 \<in> set s then Some (takeWhile (\<lambda>c. c \<noteq> CHR 0x00) s) else None)"

definition itch_order_type :: "i64 \<Rightarrow> OrderType" where
  "itch_order_type prc = (if prc <s 0 then Limit else Market)"

subsection \<open>FIX\<close>

definition FIX_ID_SIZE :: nat where "FIX_ID_SIZE = 32"

definition fix_side :: "u8 \<Rightarrow> Side" where
  "fix_side b = (if b = 1 then Buy else Sell)"

definition note_pre_new :: "bool \<Rightarrow> Status \<Rightarrow> Order \<Rightarrow> Order" where
  "note_pre_new trade st ord =
     (if syncState ord = WaitingNew
      then ord\<lparr>StatusesPreNew := (if trade then (st, snd (StatusesPreNew ord))
                                  else (fst (StatusesPreNew ord), st))\<rparr>
      else ord)"

definition fill_fix_new :: "(string \<Rightarrow> u64) \<Rightarrow> FIXMessage \<Rightarrow> Order \<Rightarrow> Order option" where
  "fill_fix_new hs msg ord = do {
     oid \<leftarrow> c_str (fx_order_id msg);
     Some (ord\<lparr>price := fx_price msg, quantity := fx_quantity msg,
               remaining_quantity := fx_quantity msg,
               fix_org_order_id := copy_order_id (fx_order_id msg) FIX_ID_SIZE,
               order_id := hs oid, timestamp := ucast (fx_transact_time msg),
               last_update_time := ucast (fx_transact_time msg),
               order_type := orderType_of_u8 (fx_ord_type msg - 48), status := New,
               syncState := NewSeen, StatusesPreNew := (Status_Unknown, Status_Unknown),
               side := fix_side (fx_side msg), exec_type := fx_exec_type msg\<rparr>) }"

definition fill_fix_trade :: "Status \<Rightarrow> FIXMessage \<Rightarrow> Order \<Rightarrow> Order" where
  "fill_fix_trade st msg ord =
     note_pre_new True st
       (ord\<lparr>status := st, price := fx_last_price msg, filled_quantity := fx_filled_qty msg,
            last_exec_quantity := fx_last_qty msg, remaining_quantity := fx_leaves_qty msg,
            last_update_time := ucast (fx_transact_time msg)\<rparr>)
       \<lparr>exec_type := fx_exec_type msg\<rparr>"

definition fill_fix_partial :: "FIXMessage \<Rightarrow> Order \<Rightarrow> Order" where
  "fill_fix_partial = fill_fix_trade Partial"

definition fill_fix_filled :: "FIXMessage \<Rightarrow> Order \<Rightarrow> Order" where
  "fill_fix_filled = fill_fix_trade Filled"

definition fill_fix_cancel :: "FIXMessage \<Rightarrow> Order \<Rightarrow> Order" where
  "fill_fix_cancel msg ord =
     (let ord1 = note_pre_new False Deleted
            (ord\<lparr>status := Deleted, filled_quantity := fx_filled_qty msg,
                 replaced_quantity := - remaining_quantity ord, remaining_quantity := 0,
                 last_update_time := ucast (fx_transact_time msg)\<rparr>)
      in ord1\<lparr>cancelled_count := cancelled_count ord1 + 1, exec_type := fx_exec_type msg\<rparr>)"

definition fill_fix_replaced :: "(string \<Rightarrow> u64) \<Rightarrow> FIXMessage \<Rightarrow> Order \<Rightarrow> Order option" where
  "fill_fix_replaced hs msg ord = do {
     oid \<leftarrow> c_str (fx_order_id msg);
     let ord1 = note_pre_new False Replaced
           (ord\<lparr>price := fx_price msg, quantity := fx_quantity msg,
                replaced_quantity := fx_leaves_qty msg - remaining_quantity ord,
                remaining_quantity := fx_leaves_qty msg,
                client_order_token := copy_order_id (fx_cl_ord_id msg) FIX_ID_SIZE,
                order_id := hs oid, last_update_time := ucast (fx_transact_time msg),
                status := Replaced\<rparr>);
     Some (ord1\<lparr>side := fix_side (fx_side msg), exec_type := fx_exec_type msg\<rparr>) }"

definition fill_fix_expired :: "FIXMessage \<Rightarrow> Order \<Rightarrow> Order" where
  "fill_fix_expired msg ord =
     note_pre_new False Expired
       (ord\<lparr>status := Expired, filled_quantity := fx_filled_qty msg,
            last_exec_quantity := fx_last_qty msg,
            replaced_quantity := - remaining_quantity ord, remaining_quantity := 0,
            last_update_time := ucast (fx_transact_time msg)\<rparr>)
       \<lparr>exec_type := fx_exec_type msg\<rparr>"

definition fill_fix_cancel_reject :: "FIXMessage \<Rightarrow> Order \<Rightarrow> Order" where
  "fill_fix_cancel_reject msg ord = ord\<lparr>last_update_time := ucast (fx_transact_time msg)\<rparr>"

definition fill_fix_exec_report :: "(string \<Rightarrow> u64) \<Rightarrow> FIXMessage \<Rightarrow> Order \<Rightarrow> Order option" where
  "fill_fix_exec_report hs msg ord =
     (if fx_ord_status msg = 48 then fill_fix_new hs msg ord
      else if fx_ord_status msg = 49 then Some (fill_fix_partial msg ord)
      else if fx_ord_status msg = 50 then Some (fill_fix_filled msg ord)
      else if fx_ord_status msg = 52 then Some (fill_fix_cancel msg ord)
      else if fx_ord_status msg = 53 then fill_fix_replaced hs msg ord
      else if fx_ord_status msg = 67 then Some (fill_fix_expired msg ord)
      else Some ord)"

subsection \<open>The symbol lookup of the ITCH fillers\<close>

text \<open>The metadata of the instrument gives the symbol and its index; without metadata the order is
  released and the filler returns (\<open>None\<close> in the pair).\<close>

definition with_symbol ::
  "Venue \<Rightarrow> nat \<Rightarrow> OrderManager \<Rightarrow> (Order option \<times> OrderManager) option" where
  "with_symbol ven p om = do {
     let ord = om_heap om p;
     meta \<leftarrow> get_symbolmeta (om_instruments om) ven (instrument_id ord);
     case meta of
       None \<Rightarrow> Some (None, release_market_order p om)
     | Some sm \<Rightarrow> do {
         i \<leftarrow> getIndex (om_hashtables om) (venue_index ven) (meta_symbol sm);
         Some (Some (ord\<lparr>symbol := meta_symbol sm, symbol_index := i\<rparr>), om) } }"

text \<open>\<open>fill_with_symbol pre post\<close>: the assignments before and after the lookup.\<close>

definition fill_with_symbol ::
  "(Order \<Rightarrow> Order) \<Rightarrow> (Order \<Rightarrow> Order) \<Rightarrow> Venue \<Rightarrow> nat \<Rightarrow> OrderManager \<Rightarrow> OrderManager option" where
  "fill_with_symbol pre post ven p om = do {
     r \<leftarrow> with_symbol ven p (upd_order p (pre (om_heap om p)) om);
     Some (case r of (None, om1) \<Rightarrow> om1 | (Some ord, om1) \<Rightarrow> upd_order p (post ord) om1) }"

subsection \<open>ITCH, BIST\<close>

definition bist_fill_itch_add :: "BIST_ITCHAddOrderMessage \<Rightarrow> Venue \<Rightarrow> nat \<Rightarrow> OrderManager \<Rightarrow> OrderManager option" where
  "bist_fill_itch_add msg ven =
     fill_with_symbol
       (\<lambda>ord. ord\<lparr>price := i64_of_i32 (biA_price msg), quantity := ucast (biA_quantity msg),
                  remaining_quantity := ucast (biA_quantity msg),
                  instrument_id := biA_order_book_id msg, side := msg_side (biA_side msg),
                  order_id := biA_order_id msg\<rparr>)
       (\<lambda>ord. ord\<lparr>status := New, timestamp := ucast (biA_timestamp_ns msg),
                  last_update_time := ucast (biA_timestamp_ns msg),
                  message_type := u8_of_char (biA_message_type msg), protocol := ITCH, venue := ven,
                  order_type := itch_order_type (price ord), cancelled_count := 0\<rparr>)
       ven"

definition exec_order_status :: "Order \<Rightarrow> Status" where
  "exec_order_status ord = (if 0 < remaining_quantity ord then Partial else Filled)"

text \<open>The part of the executed-order filler both message types share: quantity, time and the byte
  read as the message type.\<close>

definition itch_exec :: "u32 \<Rightarrow> u64 \<Rightarrow> u8 \<Rightarrow> Order \<Rightarrow> Order" where
  "itch_exec q ts mt ord =
     (let ord1 = ord\<lparr>filled_quantity := filled_quantity ord + q, last_exec_quantity := q,
                     remaining_quantity := remaining_quantity ord - q, last_update_time := ts\<rparr>
      in ord1\<lparr>status := exec_order_status ord1, message_type := mt\<rparr>)"

definition bist_fill_itch_exec_report :: "BIST_ITCHOrderExecutedMessage \<Rightarrow> Order \<Rightarrow> Order" where
  "bist_fill_itch_exec_report msg =
     itch_exec (ucast (biE_executed_quantity msg)) (ucast (biE_timestamp_ns msg))
       (u8_of_char (biE_message_type msg))"

text \<open>The message with a price is reinterpreted as the one without.  The fields up to the price are
  at the same offsets, but the byte read as the message type is the first byte of the price.\<close>

definition bist_fill_itch_exec_price :: "BIST_ITCHOrderExecutedWithPriceMessage \<Rightarrow> Order \<Rightarrow> Order" where
  "bist_fill_itch_exec_price msg ord =
     (itch_exec (ucast (biC_executed_quantity msg)) (ucast (biC_timestamp_ns msg))
        (ucast (biC_trade_price msg)) ord)
     \<lparr>price := i64_of_i32 (biC_trade_price msg)\<rparr>"

definition bist_fill_itch_delete :: "BIST_ITCHOrderDeleteMessage \<Rightarrow> Order \<Rightarrow> Order" where
  "bist_fill_itch_delete msg ord =
     ord\<lparr>status := Deleted, last_update_time := ucast (biD_timestamp_ns msg),
         cancelled_count := cancelled_count ord + 1,
         message_type := u8_of_char (biD_message_type msg)\<rparr>"

definition bist_fill_itch_trade :: "BIST_ITCHTradeMessage \<Rightarrow> Venue \<Rightarrow> nat \<Rightarrow> OrderManager \<Rightarrow> OrderManager option" where
  "bist_fill_itch_trade msg ven p om =
     (if isOurOrder (om_heap om p) then Some om
      else
        let om1 = om\<lparr>bist_trade_id := bist_trade_id om + 1\<rparr>
        in fill_with_symbol
             (\<lambda>ord. ord\<lparr>order_id := bist_trade_id om1,
                        filled_quantity := filled_quantity ord + ucast (biP_quantity msg),
                        last_exec_quantity := ucast (biP_quantity msg),
                        last_update_time := ucast (biP_timestamp_ns msg), remaining_quantity := 0,
                        instrument_id := biP_order_book_id msg\<rparr>)
             (\<lambda>ord. ord\<lparr>price := i64_of_i32 (biP_trade_price msg), status := Filled,
                        side := (if biP_side msg = CHR '' '' then Side_Unknown else msg_side (biP_side msg)),
                        protocol := ITCH, venue := ven,
                        message_type := u8_of_char (biP_message_type msg)\<rparr>)
             ven p om1)"

subsection \<open>ITCH, NASDAQ\<close>

definition nasdaq_add_post :: "char \<Rightarrow> u64 \<Rightarrow> u64 \<Rightarrow> char \<Rightarrow> Venue \<Rightarrow> Order \<Rightarrow> Order" where
  "nasdaq_add_post sd ref ts mt ven ord =
     ord\<lparr>side := msg_side sd, status := New, order_id := ref, timestamp := ts, last_update_time := ts,
         message_type := u8_of_char mt, protocol := ITCH, venue := ven,
         order_type := itch_order_type (price ord)\<rparr>"

definition nasdaq_fill_itch_add :: "NASDAQ_ITCHAddOrderMessage \<Rightarrow> Venue \<Rightarrow> nat \<Rightarrow> OrderManager \<Rightarrow> OrderManager option" where
  "nasdaq_fill_itch_add msg ven =
     fill_with_symbol
       (\<lambda>ord. ord\<lparr>price := i64_of_u32 (niA_price msg), quantity := niA_shares msg,
                  remaining_quantity := niA_shares msg, instrument_id := ucast (niA_stock_locate msg)\<rparr>)
       (nasdaq_add_post (niA_side msg) (niA_order_ref msg) (niA_timestamp msg) (niA_message_type msg) ven)
       ven"

text \<open>The variant with the participant id first copies the symbol of the message, built as a
  \<^verbatim>\<open>std::string_view\<close> of the array, so the eight characters have to contain a NUL.\<close>

definition nasdaq_fill_itch_add_mpid ::
  "NASDAQ_ITCHAddOrderMPIDMessage \<Rightarrow> Venue \<Rightarrow> nat \<Rightarrow> OrderManager \<Rightarrow> OrderManager option" where
  "nasdaq_fill_itch_add_mpid msg ven p om = do {
     _ \<leftarrow> c_str (niF_stock msg);
     s \<leftarrow> copy_symbol (niF_stock msg);
     fill_with_symbol
       (\<lambda>ord. ord\<lparr>price := i64_of_u32 (niF_price msg), quantity := niF_shares msg,
                  instrument_id := ucast (niF_stock_locate msg),
                  remaining_quantity := niF_shares msg, symbol := s\<rparr>)
       (nasdaq_add_post (niF_side msg) (niF_order_ref msg) (niF_timestamp msg) (niF_message_type msg) ven)
       ven p om }"

definition nasdaq_fill_itch_cancel :: "NASDAQ_ITCHCancelMessage \<Rightarrow> Order \<Rightarrow> Order" where
  "nasdaq_fill_itch_cancel msg ord =
     ord\<lparr>last_update_time := niX_timestamp msg,
         remaining_quantity := remaining_quantity ord - niX_cancelled_shares msg,
         replaced_quantity := niX_cancelled_shares msg, status := Cancelled,
         cancelled_count := cancelled_count ord + 1, message_type := u8_of_char (niX_message_type msg)\<rparr>"

definition nasdaq_fill_itch_exec_report :: "NASDAQ_ITCHExecutedMessage \<Rightarrow> Order \<Rightarrow> Order" where
  "nasdaq_fill_itch_exec_report msg =
     itch_exec (niE_executed_shares msg) (niE_timestamp msg) (u8_of_char (niE_message_type msg))"

text \<open>Reinterpreted as above: the byte read as the message type is the low byte of
  \<^verbatim>\<open>stock_locate\<close>, which sits behind the price.\<close>

definition nasdaq_fill_itch_exec_price :: "NASDAQ_ITCHExecutedWithPriceMessage \<Rightarrow> Order \<Rightarrow> Order" where
  "nasdaq_fill_itch_exec_price msg ord =
     (itch_exec (niC_executed_shares msg) (niC_timestamp msg) (ucast (niC_stock_locate msg)) ord)
     \<lparr>price := i64_of_u32 (niC_execution_price msg)\<rparr>"

definition nasdaq_fill_itch_delete :: "NASDAQ_ITCHDeleteMessage \<Rightarrow> Order \<Rightarrow> Order" where
  "nasdaq_fill_itch_delete msg ord =
     ord\<lparr>status := Deleted, last_update_time := niD_timestamp msg,
         message_type := u8_of_char (niD_message_type msg), cancelled_count := cancelled_count ord + 1\<rparr>"

definition nasdaq_fill_itch_replace ::
  "NASDAQ_ITCHReplaceMessage \<Rightarrow> Venue \<Rightarrow> nat \<Rightarrow> OrderManager \<Rightarrow> OrderManager option" where
  "nasdaq_fill_itch_replace msg ven =
     fill_with_symbol
       (\<lambda>ord. ord\<lparr>order_id := niU_new_order_ref msg, price := i64_of_u32 (niU_price msg),
                  quantity := niU_shares msg, instrument_id := ucast (niU_stock_locate msg),
                  filled_quantity := 0, remaining_quantity := niU_shares msg\<rparr>)
       (\<lambda>ord. ord\<lparr>message_type := u8_of_char (niU_message_type msg), status := Replaced,
                  protocol := ITCH, venue := ven, last_update_time := niU_timestamp msg,
                  order_type := itch_order_type (price ord)\<rparr>)
       ven"

definition nasdaq_fill_itch_trade ::
  "NASDAQ_ITCHTradeMessage \<Rightarrow> Venue \<Rightarrow> nat \<Rightarrow> OrderManager \<Rightarrow> OrderManager option" where
  "nasdaq_fill_itch_trade msg ven p om =
     (if isOurOrder (om_heap om p) then Some om
      else fill_with_symbol
             (\<lambda>ord. ord\<lparr>order_id := niP_order_ref msg,
                        filled_quantity := filled_quantity ord + niP_shares msg,
                        last_exec_quantity := niP_shares msg, last_update_time := niP_timestamp msg,
                        remaining_quantity := 0, instrument_id := ucast (niP_stock_locate msg)\<rparr>)
             (\<lambda>ord. ord\<lparr>price := i64_of_u32 (niP_price msg), status := Filled, protocol := ITCH,
                        venue := ven, message_type := u8_of_char (niP_message_type msg)\<rparr>)
             ven p om)"

subsection \<open>OUCH, BIST\<close>

definition bist_fill_ouch_accepted :: "BIST_OUCHOrderAcceptedMessage \<Rightarrow> Order \<Rightarrow> Order" where
  "bist_fill_ouch_accepted msg ord =
     ord\<lparr>price := i64_of_i32 (boA_price msg), quantity := ucast (boA_quantity msg),
         remaining_quantity := ucast (boA_quantity msg), status := New, order_id := boA_order_id msg,
         timestamp := boA_timestamp msg, last_update_time := boA_timestamp msg\<rparr>"

text \<open>Replacing by \<open>q\<close>: the open quantity becomes \<open>q\<close> and the total changes by the difference.\<close>

definition ouch_replace_qty :: "u32 \<Rightarrow> Order \<Rightarrow> Order" where
  "ouch_replace_qty q ord =
     ord\<lparr>replaced_quantity := q - remaining_quantity ord, remaining_quantity := q,
         quantity := quantity ord + (q - remaining_quantity ord)\<rparr>"

definition bist_fill_ouch_replaced :: "BIST_OUCHOrderReplacedMessage \<Rightarrow> Order \<Rightarrow> Order" where
  "bist_fill_ouch_replaced msg ord =
     (if boU_order_state msg = 2 then ord
      else (ouch_replace_qty (ucast (boU_quantity msg)) ord)
             \<lparr>price := i64_of_i32 (boU_price msg), status := Replaced, order_id := boU_order_id msg,
              timestamp := boU_timestamp msg, last_update_time := boU_timestamp msg,
              side := msg_side (boU_side msg),
              time_in_force := timeInForce_of_u8 (boU_time_in_force msg)\<rparr>)"

definition bist_fill_ouch_cancelled :: "BIST_OUCHOrderCancelledMessage \<Rightarrow> Order \<Rightarrow> Order" where
  "bist_fill_ouch_cancelled msg ord =
     ord\<lparr>last_update_time := boC_timestamp msg, replaced_quantity := - remaining_quantity ord,
         remaining_quantity := 0, status := Deleted, cancelled_count := cancelled_count ord + 1\<rparr>"

text \<open>Both venues fill an execution the same way; the status compares the filled with the total
  quantity.\<close>

definition ouch_exec :: "i64 \<Rightarrow> u32 \<Rightarrow> u64 \<Rightarrow> Order \<Rightarrow> Order" where
  "ouch_exec prc q ts ord =
     (let ord1 = ord\<lparr>price := prc, filled_quantity := filled_quantity ord + q, last_exec_quantity := q,
                     last_update_time := ts, remaining_quantity := remaining_quantity ord - q\<rparr>
      in ord1\<lparr>status := (if filled_quantity ord1 < quantity ord1 then Partial else Filled)\<rparr>)"

definition bist_fill_ouch_executed :: "BIST_OUCHOrderExecutedMessage \<Rightarrow> Order \<Rightarrow> Order" where
  "bist_fill_ouch_executed msg =
     ouch_exec (i64_of_i32 (boE_trade_price msg)) (ucast (boE_traded_quantity msg)) (boE_timestamp msg)"

text \<open>A rejected new order goes back to the strategy; a rejected change of a live order blocks
  it.\<close>

definition ouch_rejected :: "u64 \<Rightarrow> nat \<Rightarrow> OrderManager \<Rightarrow> OrderManager" where
  "ouch_rejected ts p om =
     (if status (om_heap om p) = Status_Unknown then push_free_slot p om
      else upd_order p ((om_heap om p)\<lparr>last_update_time := ts, canModify := 0\<rparr>) om)"

definition bist_fill_ouch_rejected :: "BIST_OUCHOrderRejectedMessage \<Rightarrow> nat \<Rightarrow> OrderManager \<Rightarrow> OrderManager" where
  "bist_fill_ouch_rejected msg = ouch_rejected (boJ_timestamp msg)"

subsection \<open>OUCH, NASDAQ\<close>

definition nasdaq_fill_ouch_accepted :: "NASDAQ_OUCHOrderAcceptedMessage \<Rightarrow> Order \<Rightarrow> Order" where
  "nasdaq_fill_ouch_accepted msg ord =
     ord\<lparr>price := noA_price msg, quantity := noA_quantity msg, remaining_quantity := noA_quantity msg,
         filled_quantity := noA_quantity msg - noA_quantity msg, status := New,
         order_id := noA_order_reference_number msg,
         timestamp := noA_timestamp msg, last_update_time := noA_timestamp msg\<rparr>"

definition nasdaq_fill_ouch_replaced :: "NASDAQ_OUCHOrderReplacedMessage \<Rightarrow> Order \<Rightarrow> Order" where
  "nasdaq_fill_ouch_replaced msg ord =
     (ouch_replace_qty (noU_quantity msg) ord)
       \<lparr>price := noU_price msg, status := Replaced, order_id := noU_order_reference_number msg,
        timestamp := noU_timestamp msg, last_update_time := noU_timestamp msg,
        side := msg_side (noU_side msg),
        time_in_force := timeInForce_of_u8 (u8_of_char (noU_time_in_force msg)),
        user_ref_num := noU_user_ref_num msg\<rparr>"

text \<open>The test \<^verbatim>\<open>remaining - quantity > 0\<close> is on unsigned values.\<close>

definition nasdaq_fill_ouch_cancelled :: "NASDAQ_OUCHOrderCancelledMessage \<Rightarrow> Order \<Rightarrow> Order" where
  "nasdaq_fill_ouch_cancelled msg ord =
     ord\<lparr>last_update_time := timestamp ord,
         remaining_quantity :=
           (if 0 < remaining_quantity ord - noC_quantity msg
            then remaining_quantity ord - noC_quantity msg else 0),
         replaced_quantity := - noC_quantity msg, status := Cancelled,
         cancelled_count := cancelled_count ord + 1\<rparr>"

definition nasdaq_fill_ouch_executed :: "NASDAQ_OUCHOrderExecutedMessage \<Rightarrow> Order \<Rightarrow> Order" where
  "nasdaq_fill_ouch_executed msg = ouch_exec (noE_price msg) (noE_quantity msg) (noE_timestamp msg)"

definition nasdaq_fill_ouch_rejected :: "NASDAQ_OUCHOrderRejectedMessage \<Rightarrow> nat \<Rightarrow> OrderManager \<Rightarrow> OrderManager" where
  "nasdaq_fill_ouch_rejected msg = ouch_rejected (noJ_timestamp msg)"

definition nasdaq_fill_ouch_modified :: "NASDAQ_OUCHOrderModifiedMessage \<Rightarrow> Order \<Rightarrow> Order" where
  "nasdaq_fill_ouch_modified msg ord =
     (ouch_replace_qty (noM_quantity msg) ord)
       \<lparr>status := Replaced, side := msg_side (noM_side msg), last_update_time := timestamp ord\<rparr>"

subsection \<open>Properties\<close>

text \<open>Every share of an order is either filled or open.\<close>

definition balanced :: "Order \<Rightarrow> bool" where
  "balanced ord \<longleftrightarrow> quantity ord = filled_quantity ord + remaining_quantity ord"

lemma itch_exec_fields:
  "quantity (itch_exec q ts mt ord) = quantity ord"
  "filled_quantity (itch_exec q ts mt ord) = filled_quantity ord + q"
  "remaining_quantity (itch_exec q ts mt ord) = remaining_quantity ord - q"
  "status (itch_exec q ts mt ord) = (if remaining_quantity ord = q then Filled else Partial)"
  by (auto simp: itch_exec_def exec_order_status_def Let_def word_neq_0_conv [symmetric])

lemma ouch_exec_fields:
  "quantity (ouch_exec prc q ts ord) = quantity ord"
  "filled_quantity (ouch_exec prc q ts ord) = filled_quantity ord + q"
  "remaining_quantity (ouch_exec prc q ts ord) = remaining_quantity ord - q"
  "status (ouch_exec prc q ts ord) = (if filled_quantity ord + q < quantity ord then Partial else Filled)"
  by (simp_all add: ouch_exec_def Let_def)

lemma ouch_replace_balanced: "balanced (ouch_replace_qty q ord) \<longleftrightarrow> balanced ord"
  by (auto simp: ouch_replace_qty_def balanced_def algebra_simps)

lemma note_pre_new_fields:
  "quantity (note_pre_new tr st ord) = quantity ord" "filled_quantity (note_pre_new tr st ord) = filled_quantity ord"
  "remaining_quantity (note_pre_new tr st ord) = remaining_quantity ord"
  by (simp_all add: note_pre_new_def)

text \<open>The fillers of FIX take what is filled and open from the message.\<close>

lemma fix_fillers_balance:
  shows "balanced (fill_fix_trade st m ord) \<longleftrightarrow> quantity ord = fx_filled_qty m + fx_leaves_qty m"
    "fill_fix_new hs m ord = Some ord' \<Longrightarrow> balanced ord' \<longleftrightarrow> filled_quantity ord = 0"
    "fill_fix_replaced hs m ord = Some ord' \<Longrightarrow> balanced ord' \<longleftrightarrow> fx_quantity m = filled_quantity ord + fx_leaves_qty m"
  by (auto simp: fill_fix_trade_def fill_fix_new_def fill_fix_replaced_def balanced_def note_pre_new_fields Let_def bind_eq_Some_conv)

text \<open>A replacement from NASDAQ's ITCH starts the order anew, also when it is released for want of metadata.\<close>

lemma nasdaq_replace_balance:
  "nasdaq_fill_itch_replace m ven p om = Some om' \<Longrightarrow> balanced (om_heap om' p)"
  by (auto simp: nasdaq_fill_itch_replace_def fill_with_symbol_def with_symbol_def balanced_def upd_order_def Let_def
      release_market_order_def push_free_slot_def bind_eq_Some_conv split: option.splits)

text \<open>C32. The quantities of an order stay balanced, the total being the sum (modulo 2 to the 32) of what is filled and what is open.  Execution
  messages of ITCH and OUCH (BIST and NASDAQ), replacements and modifications of OUCH keep this for every message;
  a replacement from NASDAQ's ITCH and an acceptance from NASDAQ's OUCH establish it whatever the order was before;
  an acceptance from BIST's OUCH and a FIX report of a new order do when nothing of the order is filled yet, since they do not touch what is
  filled.  FIX reports of partial and complete fills keep it exactly when the message's own filled and open quantity
  add up to the order's total, and FIX reports of a replacement exactly when the new total is what is filled plus the open quantity
  of the message.\<close>

theorem fillers_keep_balance:
  assumes "balanced ord"
  shows "balanced (bist_fill_itch_exec_report m1 ord) \<and> balanced (bist_fill_itch_exec_price m2 ord)
    \<and> balanced (nasdaq_fill_itch_exec_report m3 ord) \<and> balanced (nasdaq_fill_itch_exec_price m4 ord)
    \<and> balanced (bist_fill_ouch_executed m5 ord) \<and> balanced (nasdaq_fill_ouch_executed m6 ord)
    \<and> balanced (bist_fill_ouch_replaced m7 ord) \<and> balanced (nasdaq_fill_ouch_replaced m8 ord)
    \<and> balanced (nasdaq_fill_ouch_modified m9 ord) \<and> balanced (nasdaq_fill_ouch_accepted m10 ord)
    \<and> (filled_quantity ord = 0 \<longrightarrow> balanced (bist_fill_ouch_accepted m11 ord))
    \<and> (nasdaq_fill_itch_replace m12 ven p om = Some om' \<longrightarrow> balanced (om_heap om' p))
    \<and> (balanced (fill_fix_partial m13 ord) \<longleftrightarrow> quantity ord = fx_filled_qty m13 + fx_leaves_qty m13)
    \<and> (balanced (fill_fix_filled m13 ord) \<longleftrightarrow> quantity ord = fx_filled_qty m13 + fx_leaves_qty m13)
    \<and> (fill_fix_new hs m13 ord = Some ord1 \<longrightarrow> (balanced ord1 \<longleftrightarrow> filled_quantity ord = 0))
    \<and> (fill_fix_replaced hs m13 ord = Some ord2 \<longrightarrow>
         (balanced ord2 \<longleftrightarrow> fx_quantity m13 = filled_quantity ord + fx_leaves_qty m13))"
proof -
  have i: "balanced (itch_exec q ts mt ord)" "balanced ((itch_exec q ts mt ord)\<lparr>price := p\<rparr>)" for q ts mt p
    using assms by (simp_all add: balanced_def itch_exec_fields)
  have o: "balanced (ouch_exec p q ts ord)" for p q ts
    using assms by (simp add: balanced_def ouch_exec_fields)
  have r: "quantity (ouch_replace_qty q ord) = filled_quantity (ouch_replace_qty q ord) + remaining_quantity (ouch_replace_qty q ord)" for q
    using assms ouch_replace_balanced [of q ord] by (simp add: balanced_def)
  have "balanced (bist_fill_ouch_replaced m7 ord)" "balanced (nasdaq_fill_ouch_replaced m8 ord)"
    "balanced (nasdaq_fill_ouch_modified m9 ord)"
    using r assms
    by (simp_all add: balanced_def bist_fill_ouch_replaced_def nasdaq_fill_ouch_replaced_def nasdaq_fill_ouch_modified_def)
  moreover have "balanced (nasdaq_fill_ouch_accepted m10 ord)"
    "filled_quantity ord = 0 \<longrightarrow> balanced (bist_fill_ouch_accepted m11 ord)"
    by (simp_all add: balanced_def nasdaq_fill_ouch_accepted_def bist_fill_ouch_accepted_def)
  moreover have "balanced (fill_fix_partial m13 ord) \<longleftrightarrow> quantity ord = fx_filled_qty m13 + fx_leaves_qty m13"
    "balanced (fill_fix_filled m13 ord) \<longleftrightarrow> quantity ord = fx_filled_qty m13 + fx_leaves_qty m13"
    by (simp_all add: fill_fix_partial_def fill_fix_filled_def fix_fillers_balance(1))
  moreover have "fill_fix_new hs m13 ord = Some ord1 \<longrightarrow> (balanced ord1 \<longleftrightarrow> filled_quantity ord = 0)"
    "fill_fix_replaced hs m13 ord = Some ord2 \<longrightarrow> (balanced ord2 \<longleftrightarrow> fx_quantity m13 = filled_quantity ord + fx_leaves_qty m13)"
    using fix_fillers_balance(2,3) by blast+
  ultimately show ?thesis
    using i o nasdaq_replace_balance by (simp add: bist_fill_itch_exec_report_def bist_fill_itch_exec_price_def
        nasdaq_fill_itch_exec_report_def nasdaq_fill_itch_exec_price_def bist_fill_ouch_executed_def
        nasdaq_fill_ouch_executed_def)
qed

theorem fillers_keep_balance_witness:
  "\<forall>m m' f. balanced (bist_fill_ouch_executed m ((default_order BIST)\<lparr>quantity := 9, remaining_quantity := 9\<rparr>))
     \<and> balanced (nasdaq_fill_ouch_replaced m' ((default_order BIST)\<lparr>quantity := 9, remaining_quantity := 9\<rparr>))
     \<and> (balanced (fill_fix_partial f ((default_order BIST)\<lparr>quantity := 9, remaining_quantity := 9\<rparr>)) \<longleftrightarrow> 9 = fx_filled_qty f + fx_leaves_qty f)"
proof -
  let ?o = "(default_order BIST)\<lparr>quantity := 9, remaining_quantity := 9\<rparr>"
  have b: "balanced ?o" by (simp add: balanced_def default_order_def)
  have "quantity ?o = 9" by simp
  then show ?thesis using fillers_keep_balance [OF b] by metis
qed

text \<open>The two ways the fillers decide that an order is completely filled agree: for an order with
  balanced quantities whose sum does not overflow, an execution of at most the open quantity gives the
  status \<open>Filled\<close> exactly when nothing remains open, in the ITCH fillers (which test the open
  quantity) and in the OUCH fillers (which compare filled and total).\<close>

theorem exec_status_agree:
  assumes "balanced ord" "unat (filled_quantity ord) + unat (remaining_quantity ord) < 2 ^ 32"
    and "q \<le> remaining_quantity ord"
  shows "status (itch_exec q ts mt ord) = status (ouch_exec prc q ts ord)
    \<and> (status (ouch_exec prc q ts ord) = Filled \<longleftrightarrow> remaining_quantity (ouch_exec prc q ts ord) = 0)"
proof -
  have q: "unat q \<le> unat (remaining_quantity ord)" using assms(3) by (simp add: word_le_nat_alt)
  have "unat (quantity ord) = unat (filled_quantity ord) + unat (remaining_quantity ord)"
    using assms(1,2) by (simp add: balanced_def unat_word_ariths)
  moreover have "unat (filled_quantity ord + q) = unat (filled_quantity ord) + unat q"
    using assms(2) q by (simp add: unat_word_ariths)
  ultimately have "filled_quantity ord + q < quantity ord \<longleftrightarrow> unat q < unat (remaining_quantity ord)"
    by (simp add: word_less_nat_alt)
  also have "\<dots> \<longleftrightarrow> remaining_quantity ord \<noteq> q" using q by (auto simp: word_unat_eq_iff)
  finally show ?thesis by (auto simp: itch_exec_fields ouch_exec_fields)
qed

theorem exec_status_agree_witness:
  "status (ouch_exec 1 5 0 ((default_order BIST)\<lparr>quantity := 5, remaining_quantity := 5\<rparr>)) = Filled"
proof -
  let ?o = "(default_order BIST)\<lparr>quantity := 5, remaining_quantity := 5\<rparr>"
  have "balanced ?o" "unat (filled_quantity ?o) + unat (remaining_quantity ?o) < 2 ^ 32" "5 \<le> remaining_quantity ?o"
    "remaining_quantity (ouch_exec 1 5 0 ?o) = 0"
    by (simp_all add: balanced_def default_order_def ouch_exec_fields)
  then show ?thesis using exec_status_agree [of ?o 5 0 0 1] by blast
qed

text \<open>A NASDAQ cancellation of more than the open quantity is meant to leave nothing open, but the
  comparison is between unsigned values and holds for any difference other than 0: the open quantity
  becomes the difference modulo \<open>2 ^ 32\<close>, which is larger than before.\<close>

theorem nasdaq_over_cancel_wraps:
  assumes "remaining_quantity ord < noC_quantity msg"
  shows "unat (remaining_quantity (nasdaq_fill_ouch_cancelled msg ord))
      = 2 ^ 32 + unat (remaining_quantity ord) - unat (noC_quantity msg)
    \<and> remaining_quantity ord < remaining_quantity (nasdaq_fill_ouch_cancelled msg ord)"
proof -
  let ?r = "remaining_quantity ord" and ?c = "noC_quantity msg"
  have lt: "unat ?r < unat ?c" using assms by (simp add: word_less_nat_alt)
  have c: "unat ?c < 2 ^ 32" by (rule order_less_le_trans [OF unsigned_less]) simp
  have "0 < ?r - ?c" using assms by (auto simp: word_gt_0)
  then have eq: "remaining_quantity (nasdaq_fill_ouch_cancelled msg ord) = ?r - ?c"
    by (simp add: nasdaq_fill_ouch_cancelled_def)
  have "unat (?r - ?c) = 2 ^ 32 + unat ?r - unat ?c"
    using lt c by (simp add: unat_sub_if_size word_size)
  then show ?thesis using lt c by (simp add: eq word_less_nat_alt)
qed

theorem nasdaq_over_cancel_wraps_witness:
  "unat (remaining_quantity (nasdaq_fill_ouch_cancelled \<lparr>noC_timestamp = 0, noC_user_ref_num = 1, noC_quantity = 10,
      noC_appendage_length = 0, noC_message_type = CHR ''C'', noC_reason = CHR ''U''\<rparr>
      ((default_order NASDAQ)\<lparr>remaining_quantity := 4\<rparr>))) = 4294967290"
  using nasdaq_over_cancel_wraps [of "(default_order NASDAQ)\<lparr>remaining_quantity := 4\<rparr>"
      "\<lparr>noC_timestamp = 0, noC_user_ref_num = 1, noC_quantity = 10,
      noC_appendage_length = 0, noC_message_type = CHR ''C'', noC_reason = CHR ''U''\<rparr>"] by simp

end
