(* ===== verification/Order_Manager.thy ===== *)
theory Order_Manager
  imports Fillers
begin

text \<open>
  The message handlers of \<^verbatim>\<open>OrderManager\<close> (src/src/order_management/OrderManager.cpp): one
  \<^verbatim>\<open>update_order\<close> per protocol and venue, the flush handler and \<^verbatim>\<open>store\<close>, which takes the next
  message.  The \<^verbatim>\<open>std::visit\<close> with \<^verbatim>\<open>if constexpr\<close> is the case distinction on the variant.
  \<open>self\<close> is the slot of the typed wrapper the message arrived in, which is what goes to the
  database.
\<close>

definition publish :: "nat \<Rightarrow> OrderManager \<Rightarrow> OrderManager" where
  "publish p om = push_strategy p (push_risk p (push_db (D_Order p) om))"

definition modify_order :: "(Order \<Rightarrow> Order) \<Rightarrow> nat \<Rightarrow> OrderManager \<Rightarrow> OrderManager" where
  "modify_order f p om = upd_order p (f (om_heap om p)) om"

definition on_book :: "(Order \<Rightarrow> MarketBook \<Rightarrow> MarketBook option) \<Rightarrow> nat \<Rightarrow> OrderManager \<Rightarrow> OrderManager option" where
  "on_book f p om = map_option (\<lambda>mb. om\<lparr>om_marketbook := mb\<rparr>) (f (om_heap om p) (om_marketbook om))"

subsection \<open>FIX\<close>

definition allowed_exec_type :: "u8 \<Rightarrow> bool option" where
  "allowed_exec_type b =
     (if b < 128 then Some (b \<in> {48, 52, 53, 67, 70, 76}) else None)"

text \<open>The order the message is about: a known one, or one that awaits its acknowledgement and is
  entered now.  A rejected one goes back to the strategy.\<close>

datatype lookup = Found nat | Stop

definition fix_find_order ::
  "(u64 \<Rightarrow> u64) \<Rightarrow> u64 \<Rightarrow> OrderKey \<Rightarrow> FIXMessage \<Rightarrow> OrderManager \<Rightarrow> (lookup \<times> OrderManager) option" where
  "fix_find_order hk cid key msg om =
     (case get_order_from_our_map om key of
        Some p \<Rightarrow> Some (Found p, om)
      | None \<Rightarrow>
          (case get_order_from_awaitingAck_orders hk om cid of
             None \<Rightarrow> Some (Stop, om)
           | Some p \<Rightarrow>
               if fx_ord_status msg = 56 then Some (Stop, push_free_slot p om)
               else map_option (\<lambda>om1. (Found p, om1)) (add_our_order p key om)))"

definition fix_finish :: "(u64 \<Rightarrow> u64) \<Rightarrow> u64 \<Rightarrow> nat \<Rightarrow> nat \<Rightarrow> OrderManager \<Rightarrow> OrderManager" where
  "fix_finish hk cid self p om =
     push_strategy p (push_risk p (push_db (D_Order p) (push_db (D_Msg K_FIX self) (erase_awaiting hk cid om))))"

definition fix_apply ::
  "(string \<Rightarrow> u64) \<Rightarrow> (u64 \<Rightarrow> u64) \<Rightarrow> u64 \<Rightarrow> nat \<Rightarrow> FIXMessage \<Rightarrow> nat \<Rightarrow> OrderManager \<Rightarrow> OrderManager option" where
  "fix_apply hs hk cid self msg p om =
     (if fx_msg_type msg = 56
      then do {
        ok \<leftarrow> allowed_exec_type (fx_exec_type msg);
        if ok then do {
          ord \<leftarrow> fill_fix_exec_report hs msg (om_heap om p);
          Some (fix_finish hk cid self p (upd_order p ord om)) }
        else Some om }
      else if fx_msg_type msg = 57
      then Some (push_db (D_Order p) (push_db (D_Msg K_FIX self) (modify_order (fill_fix_cancel_reject msg) p om)))
      else Some (fix_finish hk cid self p om))"

definition update_order_fix ::
  "(string \<Rightarrow> u64) \<Rightarrow> (u64 \<Rightarrow> u64) \<Rightarrow> nat \<Rightarrow> Venue \<Rightarrow> FIXMessage \<Rightarrow> OrderManager \<Rightarrow> OrderManager option" where
  "update_order_fix hs hk self ven msg om = do {
     cl \<leftarrow> c_str (fx_cl_ord_id msg);
     oid \<leftarrow> c_str (fx_order_id msg);
     pack \<leftarrow> symbol_pack (fx_symbol msg);
     order_book_id \<leftarrow> sympack_symid (om_instruments om) pack;
     let key = \<lparr>ok_order_id = hs oid, ok_instrument_id = order_book_id, ok_venue = venue_u8 BIST,
                ok_side = fx_side msg - 1\<rparr>;
     (found, om1) \<leftarrow> fix_find_order hk (hs cl) key msg om;
     case found of
       Stop \<Rightarrow> Some om1
     | Found p \<Rightarrow>
         if canModify (om_heap om1 p) = 0 then Some (defer_message (M_FIX msg) ven p om1)
         else fix_apply hs hk (hs cl) self msg p om1 }"

subsection \<open>ITCH, BIST\<close>

definition bist_key :: "u64 \<Rightarrow> u32 \<Rightarrow> char \<Rightarrow> OrderKey" where
  "bist_key oid book sd =
     \<lparr>ok_order_id = oid, ok_instrument_id = book, ok_venue = venue_u8 BIST, ok_side = side_u8 (msg_side sd)\<rparr>"

text \<open>The frame of the order messages.  \<open>enter\<close> is what happens when the key is unknown (only an
  add message continues), \<open>act\<close> the filler with the book update.\<close>

definition itch_order_message ::
  "nat option \<Rightarrow> MessageTypes \<Rightarrow> Venue \<Rightarrow> (OrderManager \<Rightarrow> (nat \<times> OrderManager) option) \<Rightarrow>
   (nat \<Rightarrow> OrderManager \<Rightarrow> OrderManager option) \<Rightarrow> DbData \<Rightarrow> OrderManager \<Rightarrow> OrderManager option" where
  "itch_order_message known raw ven enter act self om =
     (case known of
        Some p \<Rightarrow>
          if canModify (om_heap om p) = 0 then Some (defer_message raw ven p om)
          else map_option (\<lambda>om1. push_db self (publish p om1)) (act p om)
      | None \<Rightarrow>
          (case enter om of
             None \<Rightarrow> Some om
           | Some (p, om1) \<Rightarrow> map_option (\<lambda>om2. push_db self (publish p om2)) (act p om1)))"

definition bist_enter :: "BIST_ITCHAddOrderMessage \<Rightarrow> OrderKey \<Rightarrow> OrderManager \<Rightarrow> (nat \<times> OrderManager) option" where
  "bist_enter msg key om =
     (if 0 < fm_size (awaitingAck_orders om) \<and> is_matched_pending_order_bist msg om then None
      else Some (add_market_order key om))"

definition then_book ::
  "(nat \<Rightarrow> OrderManager \<Rightarrow> OrderManager option) \<Rightarrow> (Order \<Rightarrow> MarketBook \<Rightarrow> MarketBook option) \<Rightarrow>
   nat \<Rightarrow> OrderManager \<Rightarrow> OrderManager option" where
  "then_book fill book p om = Option.bind (fill p om) (on_book book p)"

definition fill_pure :: "(Order \<Rightarrow> Order) \<Rightarrow> nat \<Rightarrow> OrderManager \<Rightarrow> OrderManager option" where
  "fill_pure f p om = Some (modify_order f p om)"

definition flush_order :: "Order \<Rightarrow> Order option" where
  "flush_order ord =
     (case status ord of
        New \<Rightarrow> Some (ord\<lparr>status := Cancelled, cancelled_count := cancelled_count ord + 1,
                        remaining_quantity := quantity ord\<rparr>)
      | Partial \<Rightarrow> Some (ord\<lparr>status := Cancelled, cancelled_count := cancelled_count ord + 1,
                            remaining_quantity := quantity ord - filled_quantity ord\<rparr>)
      | _ \<Rightarrow> None)"

primrec flush_loop :: "nat option list \<Rightarrow> OrderManager \<Rightarrow> OrderManager" where
  "flush_loop [] om = om"
| "flush_loop (e # es) om =
     flush_loop es
       (case e of
          None \<Rightarrow> om
        | Some p \<Rightarrow>
            (case flush_order (om_heap om p) of
               None \<Rightarrow> om
             | Some ord \<Rightarrow> push_strategy p (push_risk p (upd_order p ord om))))"

definition handle_flush_status :: "nat \<Rightarrow> u32 \<Rightarrow> OrderManager \<Rightarrow> OrderManager option" where
  "handle_flush_status v i om = do {
     h \<leftarrow> nth_opt (our_orders_all_venue om v) (unat i);
     Some (flush_loop (oh_orders h) om) }"

definition bist_flush :: "BIST_ITCHOrderBookFlushMessage \<Rightarrow> OrderManager \<Rightarrow> OrderManager option" where
  "bist_flush msg om = do {
     let v = venue_index BIST;
     sm \<leftarrow> instrument_cache (om_instruments om) v (biY_order_book_id msg);
     i \<leftarrow> getIndex (om_hashtables om) v (meta_symbol sm);
     mb \<leftarrow> book_flush v i (om_marketbook om);
     handle_flush_status v i (om\<lparr>om_marketbook := mb\<rparr>) }"

definition on_instruments :: "(Instruments \<Rightarrow> Instruments option) \<Rightarrow> OrderManager \<Rightarrow> OrderManager option" where
  "on_instruments f om = map_option (\<lambda>ins. om\<lparr>om_instruments := ins\<rparr>) (f (om_instruments om))"

definition bist_state_halted :: "BIST_ITCHOrderBookStateMessage \<Rightarrow> bool" where
  "bist_state_halted msg \<longleftrightarrow> take 6 (biO_state_name msg) \<noteq> ''ACTIVE''"

definition no_enter :: "OrderManager \<Rightarrow> (nat \<times> OrderManager) option" where
  "no_enter om = None"

definition update_order_itch_bist ::
  "nat \<Rightarrow> Venue \<Rightarrow> BIST_ITCHMessage \<Rightarrow> OrderManager \<Rightarrow> OrderManager option" where
  "update_order_itch_bist self ven m om =
     (let db = D_Msg K_BIST_ITCH self;
          raw = M_BIST_ITCH m;
          find = get_order_from_market_map om;
          other = (\<lambda>f. map_option (push_db db) (f om))
      in case m of
        B_ITCHAddOrder msg \<Rightarrow>
          (let key = bist_key (biA_order_id msg) (biA_order_book_id msg) (biA_side msg)
           in itch_order_message (find key) raw BIST (bist_enter msg key)
                (then_book (bist_fill_itch_add msg BIST) book_add_order) db om)
      | B_ITCHOrderExecuted msg \<Rightarrow>
          itch_order_message (find (bist_key (biE_order_id msg) (biE_order_book_id msg) (biE_side msg)))
            raw BIST no_enter (then_book (fill_pure (bist_fill_itch_exec_report msg)) book_exec_order) db om
      | B_ITCHOrderExecutedWithPrice msg \<Rightarrow>
          itch_order_message (find (bist_key (biC_order_id msg) (biC_order_book_id msg) (biC_side msg)))
            raw BIST no_enter (then_book (fill_pure (bist_fill_itch_exec_price msg)) book_exec_order) db om
      | B_ITCHOrderDelete msg \<Rightarrow>
          itch_order_message (find (bist_key (biD_order_id msg) (biD_order_book_id msg) (biD_side msg)))
            raw BIST no_enter (then_book (fill_pure (bist_fill_itch_delete msg)) book_delete_order) db om
      | B_ITCHTrade msg \<Rightarrow>
          itch_order_message (find (bist_key (ucast (biP_order_id msg)) (biP_order_book_id msg) (biP_side msg)))
            raw BIST no_enter (bist_fill_itch_trade msg BIST) db om
      | B_ITCHOrderBookDirectory msg \<Rightarrow> other (on_instruments (handle_instrument_definition_bist msg))
      | B_ITCHOrderBookState msg \<Rightarrow>
          other (on_instruments
            (update_symbol_halt_status (ucast (biO_order_book_id msg)) BIST (bist_state_halted msg)))
      | B_ITCHSystemEvent msg \<Rightarrow>
          other (on_instruments (update_venue_halt_status ven (bist_event_halt (biS_event_code msg)) 0))
      | B_ITCHTickSizeTableEntry msg \<Rightarrow> other (on_instruments (handle_tick_size_bist msg))
      | B_ITCHOrderBookFlush msg \<Rightarrow> other (bist_flush msg)
      | B_ITCHSeconds msg \<Rightarrow> other Some
      | B_ITCHCombinationOrderBookLeg msg \<Rightarrow> other Some
      | B_ITCHShortSellStatus msg \<Rightarrow> other Some
      | B_ITCHEquilibriumPriceUpdate msg \<Rightarrow> other Some)"

subsection \<open>ITCH, NASDAQ\<close>

text \<open>The key of a new order carries the venue byte of BIST, as the code writes it.\<close>

definition nasdaq_key :: "u64 \<Rightarrow> u16 \<Rightarrow> char \<Rightarrow> OrderKey" where
  "nasdaq_key ref locate sd =
     \<lparr>ok_order_id = ref, ok_instrument_id = ucast locate, ok_venue = venue_u8 BIST,
      ok_side = side_u8 (msg_side sd)\<rparr>"

definition nasdaq_enter ::
  "bool \<Rightarrow> u64 \<Rightarrow> OrderKey \<Rightarrow> OrderManager \<Rightarrow> (nat \<times> OrderManager) option" where
  "nasdaq_enter matched ref key om =
     (if 0 < fm_size (awaitingAck_orders om) \<and> matched then None
      else let (p, om1) = add_market_order key om
           in Some (p, om1\<lparr>nq_itch_refnum_ordkey := emplace_new ref key (nq_itch_refnum_ordkey om1)\<rparr>))"

definition nasdaq_known :: "OrderManager \<Rightarrow> u64 \<Rightarrow> nat option" where
  "nasdaq_known om ref = Option.bind (nq_itch_refnum_ordkey om ref) (get_order_from_market_map om)"

definition nasdaq_replace_act :: "NASDAQ_ITCHReplaceMessage \<Rightarrow> nat \<Rightarrow> OrderManager \<Rightarrow> OrderManager option" where
  "nasdaq_replace_act msg p om = do {
     om1 \<leftarrow> on_book book_delete_order p om;
     om2 \<leftarrow> nasdaq_fill_itch_replace msg NASDAQ p om1;
     on_book book_add_order p om2 }"

definition nasdaq_system_event :: "char \<Rightarrow> Instruments \<Rightarrow> Instruments option" where
  "nasdaq_system_event c ins = do {
     (h, cb) \<leftarrow> nasdaq_event_halt c;
     update_venue_halt_status NASDAQ h cb ins }"

definition update_order_itch_nasdaq :: "nat \<Rightarrow> NASDAQ_ITCHMessage \<Rightarrow> OrderManager \<Rightarrow> OrderManager option" where
  "update_order_itch_nasdaq self m om =
     (let db = D_Msg K_NASDAQ_ITCH self;
          raw = M_NASDAQ_ITCH m;
          find = nasdaq_known om;
          other = (\<lambda>f. map_option (push_db db) (f om))
      in case m of
        N_ITCHAddOrder msg \<Rightarrow>
          itch_order_message None raw NASDAQ
            (nasdaq_enter (is_matched_pending_order_nasdaq msg om) (niA_order_ref msg)
               (nasdaq_key (niA_order_ref msg) (niA_stock_locate msg) (niA_side msg)))
            (then_book (nasdaq_fill_itch_add msg NASDAQ) book_add_order) db om
      | N_ITCHAddOrderMPID msg \<Rightarrow>
          itch_order_message None raw NASDAQ
            (nasdaq_enter (is_matched_pending_order_mpid msg om) (niF_order_ref msg)
               (nasdaq_key (niF_order_ref msg) (niF_stock_locate msg) (niF_side msg)))
            (then_book (nasdaq_fill_itch_add_mpid msg NASDAQ) book_add_order) db om
      | N_ITCHCancel msg \<Rightarrow>
          itch_order_message (find (niX_order_ref msg)) raw NASDAQ no_enter
            (then_book (fill_pure (nasdaq_fill_itch_cancel msg)) book_cancel_order) db om
      | N_ITCHExecuted msg \<Rightarrow>
          itch_order_message (find (niE_order_ref msg)) raw NASDAQ no_enter
            (then_book (fill_pure (nasdaq_fill_itch_exec_report msg)) book_exec_order) db om
      | N_ITCHExecutedWithPrice msg \<Rightarrow>
          itch_order_message (find (niC_order_ref msg)) raw NASDAQ no_enter
            (then_book (fill_pure (nasdaq_fill_itch_exec_price msg)) book_exec_order) db om
      | N_ITCHDelete msg \<Rightarrow>
          itch_order_message (find (niD_order_ref msg)) raw NASDAQ no_enter
            (then_book (fill_pure (nasdaq_fill_itch_delete msg)) book_delete_order) db om
      | N_ITCHReplace msg \<Rightarrow>
          itch_order_message (find (niU_order_ref msg)) raw NASDAQ no_enter (nasdaq_replace_act msg) db om
      | N_ITCHTrade msg \<Rightarrow>
          itch_order_message (find (niP_order_ref msg)) raw NASDAQ no_enter
            (nasdaq_fill_itch_trade msg NASDAQ) db om
      | N_ITCHStockDirectory msg \<Rightarrow> other (on_instruments (handle_instrument_definition_nasdaq msg))
      | N_ITCHTradingState msg \<Rightarrow>
          other (on_instruments
            (update_symbol_halt_status (ucast (niH_stock_locate msg)) NASDAQ
               (niH_trading_state msg \<noteq> CHR ''T'')))
      | N_ITCHSystemEvent msg \<Rightarrow> other (on_instruments (nasdaq_system_event (niS_event_code msg))))"

subsection \<open>OUCH, BIST\<close>

definition token14 :: "string \<Rightarrow> string" where
  "token14 s = take 14 s"

text \<open>The frame of the BIST messages that carry an order id: \<open>known\<close> is the order found by its
  key; otherwise the order is taken from those awaiting acknowledgement and entered.\<close>

definition bist_ouch_enter ::
  "(u64 \<Rightarrow> u64) \<Rightarrow> u64 \<Rightarrow> OrderKey \<Rightarrow> OrderManager \<Rightarrow> (lookup \<times> OrderManager) option" where
  "bist_ouch_enter hk cid key om =
     (case get_order_from_awaitingAck_orders hk om cid of
        None \<Rightarrow> Some (Stop, om)
      | Some p \<Rightarrow> do {
          om1 \<leftarrow> add_our_order p key om;
          let om2 = om1\<lparr>our_orders_wtokenkey := (our_orders_wtokenkey om1)(client_order_id (om_heap om1 p) \<mapsto> p)\<rparr>;
          Some (Found p, erase_awaiting hk cid om2) })"

definition bist_ouch_keyed ::
  "(u64 \<Rightarrow> u64) \<Rightarrow> nat option \<Rightarrow> u64 \<Rightarrow> OrderKey \<Rightarrow> MessageTypes \<Rightarrow> (Order \<Rightarrow> Order) \<Rightarrow> DbData \<Rightarrow>
   OrderManager \<Rightarrow> OrderManager option" where
  "bist_ouch_keyed hk known cid key raw f self om =
     (case known of
        Some p \<Rightarrow>
          if canModify (om_heap om p) = 0 then Some (defer_message raw BIST p om)
          else Some (push_db self (publish p (modify_order f p om)))
      | None \<Rightarrow> do {
          (r, om1) \<leftarrow> bist_ouch_enter hk cid key om;
          Some (case r of Stop \<Rightarrow> om1
                | Found p \<Rightarrow> push_db self (publish p (modify_order f p om1))) })"

text \<open>The messages that carry only the token.\<close>

definition bist_ouch_token ::
  "(u64 \<Rightarrow> u64) \<Rightarrow> u64 \<Rightarrow> MessageTypes \<Rightarrow> (nat \<Rightarrow> OrderManager \<Rightarrow> OrderManager) \<Rightarrow> DbData \<Rightarrow>
   OrderManager \<Rightarrow> OrderManager" where
  "bist_ouch_token hk cid raw act self om =
     (case get_order_from_our_map_wtokenkey om cid of
        Some p \<Rightarrow>
          if canModify (om_heap om p) = 0 then defer_message raw BIST p om
          else push_db self (act p om)
      | None \<Rightarrow>
          (case get_order_from_awaitingAck_orders hk om cid of
             None \<Rightarrow> om
           | Some p \<Rightarrow> push_db self (act p (erase_awaiting hk (client_order_id (om_heap om p)) om))))"

definition bist_ouch_executed :: "BIST_OUCHOrderExecutedMessage \<Rightarrow> nat \<Rightarrow> OrderManager \<Rightarrow> OrderManager" where
  "bist_ouch_executed msg p om =
     push_db (D_Order p) (push_strategy p (push_risk p (modify_order (bist_fill_ouch_executed msg) p om)))"

definition update_order_ouch_bist ::
  "(string \<Rightarrow> u64) \<Rightarrow> (u64 \<Rightarrow> u64) \<Rightarrow> nat \<Rightarrow> BIST_OUCHMessage \<Rightarrow> OrderManager \<Rightarrow> OrderManager option" where
  "update_order_ouch_bist hs hk self m om =
     (let db = D_Msg K_BIST_OUCH self; raw = M_BIST_OUCH m; find = get_order_from_our_map om
      in case m of
        B_OUCHOrderAccepted msg \<Rightarrow>
          bist_ouch_keyed hk None (hs (token14 (boA_order_token msg)))
            (bist_key (boA_order_id msg) (boA_order_book_id msg) (boA_side msg)) raw
            (bist_fill_ouch_accepted msg) db om
      | B_OUCHOrderReplaced msg \<Rightarrow>
          (let key = bist_key (boU_order_id msg) (boU_order_book_id msg) (boU_side msg)
           in bist_ouch_keyed hk (find key) (hs (token14 (boU_order_token msg))) key raw
                (bist_fill_ouch_replaced msg) db om)
      | B_OUCHOrderCancelled msg \<Rightarrow>
          (let key = bist_key (boC_order_id msg) (boC_order_book_id msg) (boC_side msg)
           in bist_ouch_keyed hk (find key) (hs (token14 (boC_order_token msg))) key raw
                (bist_fill_ouch_cancelled msg) db om)
      | B_OUCHOrderExecuted msg \<Rightarrow>
          Some (bist_ouch_token hk (hs (token14 (boE_order_token msg))) raw (bist_ouch_executed msg) db om)
      | B_OUCHOrderRejected msg \<Rightarrow>
          Some (bist_ouch_token hk (hs (token14 (boJ_order_token msg))) raw
                  (bist_fill_ouch_rejected msg) db om))"

subsection \<open>OUCH, NASDAQ\<close>

definition nasdaq_ouch_enter ::
  "(u64 \<Rightarrow> u64) \<Rightarrow> u64 \<Rightarrow> u64 \<Rightarrow> char \<Rightarrow> OrderManager \<Rightarrow> (lookup \<times> OrderManager) option" where
  "nasdaq_ouch_enter hk cid ref sd om =
     (case get_order_from_awaitingAck_orders hk om cid of
        None \<Rightarrow> Some (Stop, om)
      | Some p \<Rightarrow> do {
          let key = \<lparr>ok_order_id = ref, ok_instrument_id = instrument_id (om_heap om p),
                     ok_venue = venue_u8 NASDAQ, ok_side = side_u8 (msg_side sd)\<rparr>;
          om1 \<leftarrow> add_our_order p key om;
          let ord = om_heap om1 p;
          let m1 = (if pre_user_ref_num ord \<noteq> 0
                    then (nq_ouch_refnum_ordkey om1)(pre_user_ref_num ord := None)
                    else nq_ouch_refnum_ordkey om1);
          Some (Found p, erase_awaiting hk cid
                  (om1\<lparr>nq_ouch_refnum_ordkey := m1(user_ref_num ord \<mapsto> key)\<rparr>)) })"

definition nasdaq_ouch_keyed ::
  "(u64 \<Rightarrow> u64) \<Rightarrow> nat option \<Rightarrow> u64 \<Rightarrow> u64 \<Rightarrow> char \<Rightarrow> MessageTypes \<Rightarrow> (Order \<Rightarrow> Order) \<Rightarrow> DbData \<Rightarrow>
   OrderManager \<Rightarrow> OrderManager option" where
  "nasdaq_ouch_keyed hk known cid ref sd raw f self om =
     (case known of
        Some p \<Rightarrow>
          if canModify (om_heap om p) = 0 then Some (defer_message raw NASDAQ p om)
          else Some (push_db self (publish p (modify_order f p om)))
      | None \<Rightarrow> do {
          (r, om1) \<leftarrow> nasdaq_ouch_enter hk cid ref sd om;
          Some (case r of Stop \<Rightarrow> om1
                | Found p \<Rightarrow> push_db self (publish p (modify_order f p om1))) })"

text \<open>The replaced message is looked up by its symbol; an unknown symbol dereferences the end
  iterator.\<close>

definition nasdaq_ouch_find ::
  "NASDAQ_OUCHOrderReplacedMessage \<Rightarrow> OrderManager \<Rightarrow> nat option option" where
  "nasdaq_ouch_find msg om = do {
     pack \<leftarrow> symbol_pack (noU_symbol msg);
     locate \<leftarrow> sympack_symid (om_instruments om) pack;
     Some (get_order_from_our_map om
             \<lparr>ok_order_id = noU_order_reference_number msg, ok_instrument_id = locate,
              ok_venue = venue_u8 NASDAQ, ok_side = side_u8 (msg_side (noU_side msg))\<rparr>) }"

text \<open>The messages that carry only the user reference number: an unknown one dereferences the end
  iterator, an order that is gone a null pointer.  \<open>f = None\<close> is a message that is only
  recorded.\<close>

definition nasdaq_ouch_ref ::
  "u32 \<Rightarrow> MessageTypes \<Rightarrow> (Order \<Rightarrow> Order) option \<Rightarrow> DbData \<Rightarrow> OrderManager \<Rightarrow> OrderManager option" where
  "nasdaq_ouch_ref ref raw f self om = do {
     key \<leftarrow> nq_ouch_refnum_ordkey om ref;
     p \<leftarrow> get_order_from_our_map om key;
     Some (if canModify (om_heap om p) = 0 then defer_message raw NASDAQ p om
           else case f of
                  None \<Rightarrow> push_db self om
                | Some g \<Rightarrow> push_db self (publish p (modify_order g p om))) }"

definition nasdaq_ouch_reject ::
  "(u64 \<Rightarrow> u64) \<Rightarrow> u64 \<Rightarrow> NASDAQ_OUCHOrderRejectedMessage \<Rightarrow> DbData \<Rightarrow> OrderManager \<Rightarrow> OrderManager" where
  "nasdaq_ouch_reject hk cid msg self om =
     (case get_order_from_awaitingAck_orders hk om cid of
        None \<Rightarrow> om
      | Some p \<Rightarrow>
          push_db self (nasdaq_fill_ouch_rejected msg p
            (erase_awaiting hk (client_order_id (om_heap om p)) om)))"

definition update_order_ouch_nasdaq ::
  "(string \<Rightarrow> u64) \<Rightarrow> (u64 \<Rightarrow> u64) \<Rightarrow> nat \<Rightarrow> NASDAQ_OUCHMessage \<Rightarrow> OrderManager \<Rightarrow> OrderManager option" where
  "update_order_ouch_nasdaq hs hk self m om =
     (let db = D_Msg K_NASDAQ_OUCH self; raw = M_NASDAQ_OUCH m
      in case m of
        N_OUCHOrderAccepted msg \<Rightarrow>
          nasdaq_ouch_keyed hk None (hs (token14 (noA_cl_ord_id msg))) (noA_order_reference_number msg)
            (noA_side msg) raw (nasdaq_fill_ouch_accepted msg) db om
      | N_OUCHOrderReplaced msg \<Rightarrow> do {
          known \<leftarrow> nasdaq_ouch_find msg om;
          nasdaq_ouch_keyed hk known (hs (token14 (noU_cl_ord_id msg))) (noU_order_reference_number msg)
            (noU_side msg) raw (nasdaq_fill_ouch_replaced msg) db om }
      | N_OUCHOrderRejected msg \<Rightarrow>
          Some (nasdaq_ouch_reject hk (hs (token14 (noJ_cl_ord_id msg))) msg db om)
      | N_OUCHOrderCancelled msg \<Rightarrow>
          nasdaq_ouch_ref (noC_user_ref_num msg) raw (Some (nasdaq_fill_ouch_cancelled msg)) db om
      | N_OUCHOrderExecuted msg \<Rightarrow>
          nasdaq_ouch_ref (noE_user_ref_num msg) raw (Some (nasdaq_fill_ouch_executed msg)) db om
      | N_OUCHOrderModified msg \<Rightarrow>
          nasdaq_ouch_ref (noM_user_ref_num msg) raw (Some (nasdaq_fill_ouch_modified msg)) db om
      | N_OUCHBrokenTrade msg \<Rightarrow> nasdaq_ouch_ref (noB_user_ref_num msg) raw None db om
      | N_OUCHCancelPending msg \<Rightarrow> nasdaq_ouch_ref (noP_user_ref_num msg) raw None db om
      | N_OUCHCancelReject msg \<Rightarrow> nasdaq_ouch_ref (noI_user_ref_num msg) raw None db om
      | N_OUCHSystemEvent msg \<Rightarrow> Some (push_db db om)
      | N_OUCHAccountQueryResponse msg \<Rightarrow> Some (push_db db om))"

subsection \<open>Taking the next message\<close>

text \<open>A deferred message goes first when its order may be modified again.  The code takes a fresh
  pending packet (and clears it) before it pops the queue.\<close>

definition next_pending :: "OrderManager \<Rightarrow> (nat \<times> nat list) option option" where
  "next_pending om =
     (case pending_to_strategy om of
        [] \<Rightarrow> Some None
      | j # js \<Rightarrow>
          map_option (\<lambda>p. if canModify (om_heap om p) = STRATEGY_DONE OR RISK_DONE OR BUILDER_DONE
                          then Some (j, js) else None)
            (pm_order (pending_message_pool om j)))"

definition take_message :: "OrderManager \<Rightarrow> (nat option \<times> OrderManager) option" where
  "take_message om = do {
     nxt \<leftarrow> next_pending om;
     case nxt of
       Some (j, js) \<Rightarrow> do {
         let om1 = snd (get_pending_packet None None om);
         i \<leftarrow> pm_msgWithVenue (pending_message_pool om1 j);
         Some (Some i, om1\<lparr>pending_to_strategy := js\<rparr>) }
     | None \<Rightarrow>
         Some (case spsc_pop OQ (parser_to_store om) of (r, q) \<Rightarrow> (r, om\<lparr>parser_to_store := q\<rparr>)) }"

definition dispatch ::
  "(string \<Rightarrow> u64) \<Rightarrow> (u64 \<Rightarrow> u64) \<Rightarrow> MessageWithVenue \<Rightarrow> OrderManager \<Rightarrow> (bool \<times> OrderManager) option" where
  "dispatch hs hk mv om =
     (let msg = mwv_msg mv; ven = mwv_venue mv; done = map_option (Pair True)
      in case msg of
        M_FIX m \<Rightarrow> let (i, om1) = get_msgWithVenue K_FIX msg ven om in done (update_order_fix hs hk i ven m om1)
      | M_FIXSession m \<Rightarrow>
          let (i, om1) = get_msgWithVenue K_FIXSession msg ven om
          in Some (False, push_db (D_Msg K_FIXSession i) om1)
      | M_BIST_ITCH m \<Rightarrow>
          let (i, om1) = get_msgWithVenue K_BIST_ITCH msg ven om in done (update_order_itch_bist i ven m om1)
      | M_NASDAQ_ITCH m \<Rightarrow>
          let (i, om1) = get_msgWithVenue K_NASDAQ_ITCH msg ven om in done (update_order_itch_nasdaq i m om1)
      | M_BIST_OUCH m \<Rightarrow>
          let (i, om1) = get_msgWithVenue K_BIST_OUCH msg ven om in done (update_order_ouch_bist hs hk i m om1)
      | M_NASDAQ_OUCH m \<Rightarrow>
          let (i, om1) = get_msgWithVenue K_NASDAQ_OUCH msg ven om in done (update_order_ouch_nasdaq hs hk i m om1))"

definition store :: "(string \<Rightarrow> u64) \<Rightarrow> (u64 \<Rightarrow> u64) \<Rightarrow> OrderManager \<Rightarrow> (bool \<times> OrderManager) option" where
  "store hs hk om = do {
     (r, om1) \<leftarrow> take_message om;
     case r of
       None \<Rightarrow> Some (False, om1)
     | Some i \<Rightarrow> dispatch hs hk (mwv_pool om1 K_Any i) om1 }"

subsection \<open>What the steps leave alone\<close>

lemma push_frame [simp]:
  "om_heap (push_db d om) = om_heap om" "om_heap (push_risk p om) = om_heap om"
  "om_heap (push_strategy p om) = om_heap om" "om_heap (push_free_slot p om) = om_heap om"
  "market_orders (push_db d om) = market_orders om" "market_orders (push_risk p om) = market_orders om"
  "market_orders (push_strategy p om) = market_orders om"
  "our_orders (push_db d om) = our_orders om" "our_orders (push_risk p om) = our_orders om"
  "our_orders (push_strategy p om) = our_orders om"
  "awaitingAck_orders (push_db d om) = awaitingAck_orders om"
  "awaitingAck_orders (push_risk p om) = awaitingAck_orders om"
  "awaitingAck_orders (push_strategy p om) = awaitingAck_orders om"
  "awaitingAck_orders (push_free_slot p om) = awaitingAck_orders om"
  "om_marketbook (push_db d om) = om_marketbook om" "om_marketbook (push_risk p om) = om_marketbook om"
  "om_marketbook (push_strategy p om) = om_marketbook om"
  "om_store_to_risk (push_db d om) = om_store_to_risk om"
  "om_store_to_risk (push_strategy p om) = om_store_to_risk om"
  "store_to_strategy (push_db d om) = store_to_strategy om"
  "store_to_strategy (push_risk p om) = store_to_strategy om"
  by (simp_all add: push_db_def get_DbData_def push_risk_def push_strategy_def push_free_slot_def Let_def)

lemma publish_queues [simp]:
  "om_store_to_risk (publish p om) = snd (spsc_push OQ p (om_store_to_risk om))"
  "store_to_strategy (publish p om) = snd (spsc_push OQ p (store_to_strategy om))"
  "om_heap (publish p om) = om_heap om" "market_orders (publish p om) = market_orders om"
  "om_marketbook (publish p om) = om_marketbook om" "our_orders (publish p om) = our_orders om"
  "awaitingAck_orders (publish p om) = awaitingAck_orders om"
  by (simp_all add: publish_def) (simp_all add: push_risk_def push_strategy_def)

lemma add_market_order_frame:
  assumes "add_market_order key om = (p, om')"
  shows "om_heap om' = om_heap om" "om_instruments om' = om_instruments om" "om_hashtables om' = om_hashtables om"
    "om_marketbook om' = om_marketbook om" "om_store_to_risk om' = om_store_to_risk om"
    "store_to_strategy om' = store_to_strategy om" "market_orders om' key = Some p"
  using assms by (auto simp: add_market_order_def Let_def split: if_splits)

text \<open>The order a BIST add message makes of the order in the slot.\<close>

definition bist_added :: "BIST_ITCHAddOrderMessage \<Rightarrow> SymbolMeta \<Rightarrow> u32 \<Rightarrow> Order \<Rightarrow> Order" where
  "bist_added msg sm i ord =
     ord\<lparr>price := i64_of_i32 (biA_price msg), quantity := ucast (biA_quantity msg),
         remaining_quantity := ucast (biA_quantity msg), instrument_id := biA_order_book_id msg,
         side := msg_side (biA_side msg), order_id := biA_order_id msg, symbol := meta_symbol sm,
         symbol_index := i, status := New, timestamp := ucast (biA_timestamp_ns msg),
         last_update_time := ucast (biA_timestamp_ns msg),
         message_type := u8_of_char (biA_message_type msg), protocol := ITCH, venue := BIST,
         order_type := itch_order_type (i64_of_i32 (biA_price msg)), cancelled_count := 0\<rparr>"

lemma bist_fill_add_known:
  assumes "instrument_cache (om_instruments om) 0 (biA_order_book_id msg) = Some sm"
    and "getIndex (om_hashtables om) 0 (meta_symbol sm) = Some i"
  shows "bist_fill_itch_add msg BIST p om = Some (om\<lparr>om_heap := (om_heap om)(p := bist_added msg sm i (om_heap om p))\<rparr>)"
  using assms
  by (simp add: bist_fill_itch_add_def fill_with_symbol_def with_symbol_def get_symbolmeta_def VENUE_COUNT_def
      upd_order_def bist_added_def Let_def)

lemma bist_add_known:
  assumes "get_order_from_market_map om key = None" "key = bist_key (biA_order_id msg) (biA_order_book_id msg) (biA_side msg)"
    and "\<not> (0 < fm_size (awaitingAck_orders om) \<and> is_matched_pending_order_bist msg om)"
    and "instrument_cache (om_instruments om) 0 (biA_order_book_id msg) = Some sm"
    and "getIndex (om_hashtables om) 0 (meta_symbol sm) = Some i"
    and "add_market_order key om = (p, om1)"
    and "book_add_order (bist_added msg sm i (om_heap om p)) (om_marketbook om) = Some mb"
  shows "update_order_itch_bist self ven (B_ITCHAddOrder msg) om =
    Some (push_db (D_Msg K_BIST_ITCH self) (publish p
      (om1\<lparr>om_heap := (om_heap om)(p := bist_added msg sm i (om_heap om p)), om_marketbook := mb\<rparr>)))"
proof -
  note fr = add_market_order_frame [OF assms(6)]
  have "bist_enter msg key om = Some (p, om1)" using assms(3,6) by (simp add: bist_enter_def)
  moreover have "bist_fill_itch_add msg BIST p om1
      = Some (om1\<lparr>om_heap := (om_heap om)(p := bist_added msg sm i (om_heap om p))\<rparr>)"
    using bist_fill_add_known [of om1 msg sm i p] assms(4,5) by (simp add: fr)
  ultimately show ?thesis
    using assms(1,2,7)
    by (simp add: update_order_itch_bist_def Let_def itch_order_message_def then_book_def on_book_def fr)
qed

lemma unat_max_u32: "unat (- 1 :: u32) = 2 ^ 32 - 1"
proof -
  have "(- 1 :: u32) = 4294967295" by simp
  then show ?thesis by (simp only:) simp
qed

subsection \<open>Properties\<close>

text \<open>A manager that knows one BIST instrument, and messages about it, for the examples.\<close>

definition sample_meta :: SymbolMeta where
  "sample_meta = \<lparr>meta_instrument_id = 3, round_lot_size = 1, tick_size_table = replicate 5 None,
     meta_symbol = symbol_array ''GARAN'', halted = False, flushed = False\<rparr>"

definition ready_manager :: OrderManager where
  "ready_manager = sample_manager\<lparr>om_instruments := empty_instruments\<lparr>instrument_cache := (\<lambda>_. [3 \<mapsto> sample_meta])\<rparr>,
     our_orders_all_venue := (\<lambda>_. [new_history (replicate 64 None)])\<rparr>"

definition sample_add :: BIST_ITCHAddOrderMessage where
  "sample_add = \<lparr>biA_order_id = 77, biA_quantity = 5, biA_ranking_time = 0, biA_timestamp_ns = 9,
     biA_order_book_id = 3, biA_ranking_seq_number = 1, biA_price = 100, biA_order_attributes = 0,
     biA_lot_type = 2, biA_message_type = CHR ''A'', biA_side = CHR ''B''\<rparr>"

definition sample_exec :: BIST_ITCHOrderExecutedMessage where
  "sample_exec = \<lparr>biE_order_id = 77, biE_executed_quantity = 2, biE_match_id = 1, biE_timestamp_ns = 10,
     biE_order_book_id = 3, biE_combo_group_id = 0, biE_message_type = CHR ''E'', biE_side = CHR ''B'',
     biE_reserved1 = [], biE_reserved2 = []\<rparr>"

lemmas sample_manager_defs = ready_manager_def sample_manager_def initial_members_def

lemma ready_manager_fields:
  "market_orders ready_manager = Map.empty" "fm_size (awaitingAck_orders ready_manager) = 0"
  "instrument_cache (om_instruments ready_manager) 0 3 = Some sample_meta"
  "getIndex (om_hashtables ready_manager) 0 (meta_symbol sample_meta) = Some 0"
  "om_heap ready_manager p = default_order BIST" "om_marketbook ready_manager = (\<lambda>_ _. empty_symbolbook)"
  "market_next_slot ready_manager = 0" "market_map_full ready_manager = False"
  by (simp_all add: sample_manager_defs fm_new_def sample_meta_def getIndex_def nth_opt_def)

text \<open>C25. A BIST add-order message for a known instrument, with no pending order of ours that it could
  belong to, takes the next market slot, enters the order under its key with the message's price,
  quantity and side, raises the book level of that price by the quantity and changes no other level,
  and publishes the order to the risk and strategy queues.\<close>

theorem bist_add_message:
  assumes "get_order_from_market_map om key = None" "key = bist_key (biA_order_id msg) (biA_order_book_id msg) (biA_side msg)"
    and "\<not> (0 < fm_size (awaitingAck_orders om) \<and> is_matched_pending_order_bist msg om)"
    and "instrument_cache (om_instruments om) 0 (biA_order_book_id msg) = Some sm"
    and "getIndex (om_hashtables om) 0 (meta_symbol sm) = Some i" "unat i < MAX_SYMBOL_COUNT"
    and "add_market_order key om = (p, om1)" "\<not> isOurOrder (om_heap om p)" "book_ok (om_marketbook om)"
  shows "\<exists>om'. update_order_itch_bist self ven (B_ITCHAddOrder msg) om = Some om'
    \<and> get_order_from_market_map om' key = Some p \<and> om_heap om' p = bist_added msg sm i (om_heap om p)
    \<and> order_key (om_heap om' p) = key \<and> book_ok (om_marketbook om')
    \<and> (\<forall>w j s q. book_levels (om_marketbook om') w j s q
         = (if w = 0 \<and> j = unat i \<and> s = msg_side (biA_side msg) \<and> q = i64_of_i32 (biA_price msg)
            then book_levels (om_marketbook om) w j s q + ucast (biA_quantity msg)
            else book_levels (om_marketbook om) w j s q))
    \<and> om_store_to_risk om' = snd (spsc_push OQ p (om_store_to_risk om))
    \<and> store_to_strategy om' = snd (spsc_push OQ p (store_to_strategy om))"
proof -
  let ?o = "bist_added msg sm i (om_heap om p)"
  have "symbol_index ?o \<noteq> - 1"
    using assms(6) by (auto simp: bist_added_def MAX_SYMBOL_COUNT_def unat_max_u32)
  then have g: "get_symBook ?o = Some (Some (0, unat i))"
    using assms(6) by (simp add: get_symBook_def bist_added_def VENUE_COUNT_def)
  have f: "\<not> isOurOrder ?o" "side ?o = msg_side (biA_side msg)" "price ?o = i64_of_i32 (biA_price msg)"
    "quantity ?o = ucast (biA_quantity msg)" "order_key ?o = key"
    using assms(2,8) by (simp_all add: bist_added_def order_key_def bist_key_def)
  have side: "side ?o \<noteq> Side_Unknown" by (simp add: f(2) msg_side_def)
  obtain mb where mb: "book_add_order ?o (om_marketbook om) = Some mb" "book_ok mb"
    and lv: "\<forall>w j s q. sb_level (mb w j) s q
       = (if w = 0 \<and> j = unat i \<and> s = side ?o \<and> q = price ?o
          then sb_level (om_marketbook om w j) s q + quantity ?o else sb_level (om_marketbook om w j) s q)"
    using book_add_levels [OF assms(9) f(1) g] side by blast
  have step: "update_order_itch_bist self ven (B_ITCHAddOrder msg) om =
    Some (push_db (D_Msg K_BIST_ITCH self) (publish p
      (om1\<lparr>om_heap := (om_heap om)(p := ?o), om_marketbook := mb\<rparr>)))"
    by (rule bist_add_known [OF assms(1-5,7) mb(1)])
  show ?thesis
    unfolding step using mb(2) lv add_market_order_frame [OF assms(7)]
    by (simp add: get_order_from_market_map_def f book_levels_def)
qed

theorem bist_add_message_witness:
  "\<exists>om'. update_order_itch_bist 0 BIST (B_ITCHAddOrder sample_add) ready_manager = Some om'
    \<and> book_levels (om_marketbook om') 0 0 Buy 100 = 5"
proof -
  let ?key = "bist_key 77 3 (CHR ''B'')"
  have f: "biA_order_id sample_add = 77" "biA_order_book_id sample_add = 3" "biA_side sample_add = CHR ''B''"
    "i64_of_i32 (biA_price sample_add) = 100" "ucast (biA_quantity sample_add) = (5 :: u32)"
    "msg_side (CHR ''B'') = Buy" by code_simp+
  obtain om1 where a: "add_market_order ?key ready_manager = (0, om1)"
    by (simp add: add_market_order_def ready_manager_fields MARKETORDER_LAST_INDEX_def Let_def)
  have z: "book_levels (\<lambda>_ _. empty_symbolbook) 0 0 Buy 100 = 0" by code_simp
  have n: "\<not> isOurOrder (default_order BIST)" by code_simp
  obtain om' where "update_order_itch_bist 0 BIST (B_ITCHAddOrder sample_add) ready_manager = Some om'"
    and "\<forall>w j s q. book_levels (om_marketbook om') w j s q
      = (if w = 0 \<and> j = unat (0 :: u32) \<and> s = msg_side (CHR ''B'') \<and> q = i64_of_i32 (biA_price sample_add)
         then book_levels (om_marketbook ready_manager) w j s q + ucast (biA_quantity sample_add)
         else book_levels (om_marketbook ready_manager) w j s q)"
    using bist_add_message [of ready_manager ?key sample_add sample_meta 0 0 om1 0 BIST, unfolded f(1-3)] a n
    by (simp add: ready_manager_fields get_order_from_market_map_def MAX_SYMBOL_COUNT_def empty_book_ok) blast
  then show ?thesis by (simp add: f z ready_manager_fields)
qed

text \<open>C26. An execution message for a known BIST market order that may be modified and has a side and a book adds the executed quantity
  (its lower 32 bits) to what is filled, takes it off what is open and notes it as the last execution; the order is filled when
  exactly the open quantity was executed and partially filled otherwise, and its total, price and side, and every other
  order, stay as they are.  The quantity is taken off the book level of the order's price, which ends at zero when it
  holds no more than that, no other level changes, and the order is published to the risk and strategy queues.\<close>

theorem bist_exec_message:
  assumes "get_order_from_market_map om (bist_key (biE_order_id msg) (biE_order_book_id msg) (biE_side msg)) = Some p"
    and "canModify (om_heap om p) \<noteq> 0" "\<not> isOurOrder (om_heap om p)" "book_ok (om_marketbook om)"
    and "get_symBook (om_heap om p) = Some (Some (v, i))" "side (om_heap om p) \<noteq> Side_Unknown"
    and "q = ucast (biE_executed_quantity msg)"
  shows "\<exists>om'. update_order_itch_bist self ven (B_ITCHOrderExecuted msg) om = Some om'
    \<and> filled_quantity (om_heap om' p) = filled_quantity (om_heap om p) + q
    \<and> remaining_quantity (om_heap om' p) = remaining_quantity (om_heap om p) - q
    \<and> last_exec_quantity (om_heap om' p) = q
    \<and> status (om_heap om' p) = (if remaining_quantity (om_heap om p) = q then Filled else Partial)
    \<and> quantity (om_heap om' p) = quantity (om_heap om p) \<and> price (om_heap om' p) = price (om_heap om p)
    \<and> side (om_heap om' p) = side (om_heap om p) \<and> (\<forall>r. r \<noteq> p \<longrightarrow> om_heap om' r = om_heap om r)
    \<and> book_ok (om_marketbook om')
    \<and> (\<forall>w j s x. book_levels (om_marketbook om') w j s x
         = (if w = v \<and> j = i \<and> s = side (om_heap om p) \<and> x = price (om_heap om p)
            then (if q < book_levels (om_marketbook om) w j s x then book_levels (om_marketbook om) w j s x - q else 0)
            else book_levels (om_marketbook om) w j s x))
    \<and> om_store_to_risk om' = snd (spsc_push OQ p (om_store_to_risk om))
    \<and> store_to_strategy om' = snd (spsc_push OQ p (store_to_strategy om))"
proof -
  let ?o = "bist_fill_itch_exec_report msg (om_heap om p)"
  have f: "\<not> isOurOrder ?o" "get_symBook ?o = Some (Some (v, i))" "side ?o = side (om_heap om p)"
    "price ?o = price (om_heap om p)" "last_exec_quantity ?o = q"
    using assms(3,5,7)
    by (simp_all add: bist_fill_itch_exec_report_def itch_exec_def Let_def get_symBook_def split: if_splits)
  have e: "filled_quantity ?o = filled_quantity (om_heap om p) + q" "remaining_quantity ?o = remaining_quantity (om_heap om p) - q"
    "status ?o = (if remaining_quantity (om_heap om p) = q then Filled else Partial)" "quantity ?o = quantity (om_heap om p)"
    by (simp_all only: bist_fill_itch_exec_report_def itch_exec_fields assms(7))
  obtain mb where mb: "book_exec_order ?o (om_marketbook om) = Some mb" "book_ok mb"
    "book_levels mb = level_step (Exec ?o) (book_levels (om_marketbook om))"
    using book_step_levels [OF assms(4), of "Exec ?o"] f assms(6) by (auto simp: op_ok_def Let_def)
  have lv: "book_levels mb w j s x = (if w = v \<and> j = i \<and> s = side (om_heap om p) \<and> x = price (om_heap om p)
      then (if q < book_levels (om_marketbook om) w j s x then book_levels (om_marketbook om) w j s x - q else 0)
      else book_levels (om_marketbook om) w j s x)" for w j s x
    using f by (simp add: mb(3) level_step_def take_off_def not_less [symmetric])
  obtain om' where om': "update_order_itch_bist self ven (B_ITCHOrderExecuted msg) om = Some om'"
    "om_heap om' = (om_heap om)(p := ?o)" "om_marketbook om' = mb"
    "om_store_to_risk om' = snd (spsc_push OQ p (om_store_to_risk om))"
    "store_to_strategy om' = snd (spsc_push OQ p (store_to_strategy om))"
    using assms(1,2) mb(1)
    by (simp add: update_order_itch_bist_def Let_def itch_order_message_def then_book_def fill_pure_def
        modify_order_def upd_order_def on_book_def)
  then show ?thesis using mb(2) lv f e by (intro exI [of _ om']) simp
qed

theorem bist_exec_message_witness:
  "\<exists>om'. update_order_itch_bist 0 BIST (B_ITCHOrderExecuted sample_exec)
      (ready_manager\<lparr>market_orders := [bist_key 77 3 (CHR ''B'') \<mapsto> 4], om_heap := (\<lambda>_. sample_order Buy 100 5)\<rparr>) = Some om'
    \<and> filled_quantity (om_heap om' 4) = 2 \<and> remaining_quantity (om_heap om' 4) = 3 \<and> status (om_heap om' 4) = Partial"
proof -
  let ?om = "ready_manager\<lparr>market_orders := [bist_key 77 3 (CHR ''B'') \<mapsto> 4], om_heap := (\<lambda>_. sample_order Buy 100 5)\<rparr>"
  have f: "biE_order_id sample_exec = 77" "biE_order_book_id sample_exec = 3" "biE_side sample_exec = CHR ''B''"
    "get_symBook (sample_order Buy 100 5) = Some (Some (0, 0))" "side (sample_order Buy 100 5) \<noteq> Side_Unknown"
    "canModify (sample_order Buy 100 5) \<noteq> 0" "\<not> isOurOrder (sample_order Buy 100 5)"
    "remaining_quantity (sample_order Buy 100 5) = 5" "filled_quantity (sample_order Buy 100 5) = 0"
    "ucast (biE_executed_quantity sample_exec) = (2 :: u32)" by code_simp+
  show ?thesis
    using bist_exec_message [of ?om sample_exec 4 0 0 2 0 BIST]
    by (auto simp: f ready_manager_fields get_order_from_market_map_def empty_book_ok)
qed

text \<open>Execution, deletion and trade messages of BIST, and all NASDAQ order messages other than add,
  are ignored when the order is unknown: the state is left exactly as it was.\<close>

theorem unknown_order_ignored:
  assumes "market_orders om = Map.empty"
  shows "update_order_itch_bist self ven (B_ITCHOrderExecuted e) om = Some om
    \<and> update_order_itch_bist self ven (B_ITCHOrderExecutedWithPrice c) om = Some om
    \<and> update_order_itch_bist self ven (B_ITCHOrderDelete d) om = Some om
    \<and> update_order_itch_bist self ven (B_ITCHTrade t) om = Some om
    \<and> update_order_itch_nasdaq self (N_ITCHCancel nx) om = Some om
    \<and> update_order_itch_nasdaq self (N_ITCHExecuted ne) om = Some om
    \<and> update_order_itch_nasdaq self (N_ITCHExecutedWithPrice nc) om = Some om
    \<and> update_order_itch_nasdaq self (N_ITCHDelete nd) om = Some om
    \<and> update_order_itch_nasdaq self (N_ITCHReplace nu) om = Some om
    \<and> update_order_itch_nasdaq self (N_ITCHTrade np) om = Some om"
proof -
  have "nasdaq_known om ref = None" for ref
    using assms by (cases "nq_itch_refnum_ordkey om ref") (simp_all add: nasdaq_known_def get_order_from_market_map_def)
  then show ?thesis
    using assms by (simp add: update_order_itch_bist_def update_order_itch_nasdaq_def Let_def itch_order_message_def
        get_order_from_market_map_def no_enter_def)
qed

theorem unknown_order_ignored_witness:
  "update_order_itch_bist 0 BIST (B_ITCHOrderExecuted sample_exec) ready_manager = Some ready_manager"
  using unknown_order_ignored [OF ready_manager_fields(1)] by blast

lemma flush_order_again: "flush_order ord = Some ord' \<Longrightarrow> flush_order ord' = None"
  by (auto simp: flush_order_def split: Status.splits)

definition flushed_order :: "Order \<Rightarrow> Order" where
  "flushed_order ord = (case flush_order ord of None \<Rightarrow> ord | Some ord' \<Rightarrow> ord')"

lemma flush_loop_heap:
  "om_heap (flush_loop es om) p = (if Some p \<in> set es then flushed_order (om_heap om p) else om_heap om p)"
proof (induction es arbitrary: om)
  case (Cons e es)
  show ?case
  proof (cases e)
    case None
    then show ?thesis using Cons.IH by simp
  next
    case (Some q)
    have "flush_order ord = Some ord' \<Longrightarrow> flushed_order ord' = ord'" for ord ord'
      by (simp add: flushed_order_def flush_order_again)
    then show ?thesis
      using Cons.IH Some by (auto simp: flushed_order_def [of "om_heap om q"] upd_order_def split: option.split)
  qed
qed simp

text \<open>C33. Flushing a symbol cancels every order of ours in its history that is new or partially filled:
  its status becomes cancelled, its cancel count goes up by one and its open quantity is the total
  for a new order and the total less the filled quantity for a partially filled one.  All other
  orders are unchanged.\<close>

theorem flush_cancels_live_orders:
  assumes "nth_opt (our_orders_all_venue om v) (unat i) = Some h"
  shows "\<exists>om'. handle_flush_status v i om = Some om' \<and> (\<forall>p. om_heap om' p =
     (if Some p \<in> set (oh_orders h) \<and> (status (om_heap om p) = New \<or> status (om_heap om p) = Partial)
      then (om_heap om p)\<lparr>status := Cancelled, cancelled_count := cancelled_count (om_heap om p) + 1,
             remaining_quantity := (if status (om_heap om p) = New then quantity (om_heap om p)
                                    else quantity (om_heap om p) - filled_quantity (om_heap om p))\<rparr>
      else om_heap om p))"
  using assms
  by (auto simp: handle_flush_status_def flush_loop_heap flushed_order_def flush_order_def split: Status.splits)

theorem flush_cancels_live_orders_witness:
  "\<exists>om'. handle_flush_status 0 0 (ready_manager\<lparr>om_heap := (\<lambda>_. (sample_order Buy 100 5)\<lparr>status := New\<rparr>),
        our_orders_all_venue := (\<lambda>_. [history_push 40000 (new_history (replicate 64 None))])\<rparr>) = Some om'
    \<and> status (om_heap om' 40000) = Cancelled"
proof -
  let ?h = "history_push 40000 (new_history (replicate 64 None))"
  let ?om = "ready_manager\<lparr>om_heap := (\<lambda>_. (sample_order Buy 100 5)\<lparr>status := New\<rparr>), our_orders_all_venue := (\<lambda>_. [?h])\<rparr>"
  have "nth_opt (our_orders_all_venue ?om 0) (unat (0 :: u32)) = Some ?h" by (simp add: nth_opt_def)
  moreover have "Some 40000 \<in> set (oh_orders ?h)"
    by (simp add: history_push_def new_history_def set_update_memI)
  ultimately show ?thesis using flush_cancels_live_orders [of ?om 0 0 ?h] by auto
qed









text \<open>When the queue of messages put aside is full, the message is lost.\<close>

lemma deferred_lost_when_full:
  "length (pending_to_strategy om) = 65536 \<Longrightarrow> pending_to_strategy (defer_message msg ven p om) = pending_to_strategy om"
  by (simp add: defer_message_def get_msgWithVenue_def get_pending_packet_def Let_def PENDING_QUEUE_CAPACITY_def)



lemma upd_history_frame [simp]:
  "our_orders (upd_history vi f om) = our_orders om" "om_heap (upd_history vi f om) = om_heap om"
  "awaitingAck_orders (upd_history vi f om) = awaitingAck_orders om"
  "om_store_to_risk (upd_history vi f om) = om_store_to_risk om"
  "our_orders_wtokenkey (upd_history vi f om) = our_orders_wtokenkey om"
  by (simp_all add: upd_history_def)

text \<open>C27. An OUCH acceptance from BIST moves our order from the orders awaiting acknowledgement to the
  live ones, while these are below their limit and its symbol has a history: it is then found by its exchange key and by its token and no longer awaits, its price and
  open and total quantity (the lower 32 bits) are the accepted ones, its status is new and it has the exchange's id; what was filled and every other order stay as
  they are.  It is entered at the write position of its symbol's history, which moves on by one, every other place of the history
  staying as it is, and it is published to risk.\<close>

theorem bist_accept_message:
  assumes "fm_lookup hk (awaitingAck_orders om) cid = Some p" "cid = hs (token14 (boA_order_token msg))"
    and "fm_inv k (awaitingAck_orders om)" "length (our_orders om) < OUR_ORDER_MAP_THRESHOLD"
    and "history_of (om_heap om p) om = Some (v, i)"
    and "key = bist_key (boA_order_id msg) (boA_order_book_id msg) (boA_side msg)"
    and "h = our_orders_all_venue om v ! i" "length (oh_orders h) = ORDERHISTORY_SIZE"
  shows "\<exists>om' h'. update_order_ouch_bist hs hk self (B_OUCHOrderAccepted msg) om = Some om'
    \<and> get_order_from_our_map om' key = Some p
    \<and> get_order_from_our_map_wtokenkey om' (client_order_id (om_heap om p)) = Some p
    \<and> get_order_from_awaitingAck_orders hk om' cid = None
    \<and> price (om_heap om' p) = i64_of_i32 (boA_price msg) \<and> quantity (om_heap om' p) = ucast (boA_quantity msg)
    \<and> remaining_quantity (om_heap om' p) = ucast (boA_quantity msg) \<and> status (om_heap om' p) = New
    \<and> order_id (om_heap om' p) = boA_order_id msg \<and> filled_quantity (om_heap om' p) = filled_quantity (om_heap om p)
    \<and> (\<forall>r. r \<noteq> p \<longrightarrow> om_heap om' r = om_heap om r)
    \<and> our_orders_all_venue om' v ! i = h' \<and> oh_write_index h' = oh_write_index h + 1
    \<and> (\<forall>j < ORDERHISTORY_SIZE. oh_orders h' ! j = (if j = unat (oh_write_index h AND 63) then Some p else oh_orders h ! j))
    \<and> om_store_to_risk om' = snd (spsc_push OQ p (om_store_to_risk om))"
proof -
  have i: "i < length (our_orders_all_venue om v)"
    using assms(5) by (auto simp: history_of_def Let_def split: if_splits)
  have e: "fm_lookup hk (snd (fm_erase hk cid (awaitingAck_orders om))) cid = None"
    using fm.del_look [OF assms(3)] by simp
  have h: "history_of (om_heap om p) (om\<lparr>our_orders := x\<rparr>) = Some (v, i)" for x
    using assms(5) by (simp add: history_of_def Let_def)
  have "add_our_order p key om
      = Some (upd_history (v, i) (history_push p) (om\<lparr>our_orders := AList.update key p (our_orders om)\<rparr>))"
    using assms(4) h by (simp add: add_our_order_def Let_def)
  then have "bist_ouch_enter hk cid key om = Some (Found p, erase_awaiting hk cid
      ((upd_history (v, i) (history_push p) (om\<lparr>our_orders := AList.update key p (our_orders om)\<rparr>))
        \<lparr>our_orders_wtokenkey := (our_orders_wtokenkey om)(client_order_id (om_heap om p) \<mapsto> p)\<rparr>))"
    using assms(1) by (simp add: bist_ouch_enter_def get_order_from_awaitingAck_orders_def)
  then obtain om' where om': "update_order_ouch_bist hs hk self (B_OUCHOrderAccepted msg) om = Some om'"
    "get_order_from_our_map om' key = Some p" "get_order_from_our_map_wtokenkey om' (client_order_id (om_heap om p)) = Some p"
    "get_order_from_awaitingAck_orders hk om' cid = None" "om_heap om' = (om_heap om)(p := bist_fill_ouch_accepted msg (om_heap om p))"
    "our_orders_all_venue om' v ! i = history_push p h" "om_store_to_risk om' = snd (spsc_push OQ p (om_store_to_risk om))"
    using assms(2,6,7) e i
    by (simp add: update_order_ouch_bist_def Let_def bist_ouch_keyed_def modify_order_def upd_order_def
        erase_awaiting_def get_order_from_our_map_def get_order_from_our_map_wtokenkey_def
        get_order_from_awaitingAck_orders_def update_conv' upd_history_def push_db_def get_DbData_def
        publish_def push_risk_def push_strategy_def)
  have "oh_orders (history_push p h) ! j = (if j = unat (oh_write_index h AND 63) then Some p else oh_orders h ! j)"
    if "j < ORDERHISTORY_SIZE" for j
    using that assms(8) by (auto simp: history_push_def nth_list_update)
  moreover have "oh_write_index (history_push p h) = oh_write_index h + 1" by (simp add: history_push_def)
  ultimately show ?thesis using om' by (intro exI [of _ om'] exI [of _ "history_push p h"]) (simp add: bist_fill_ouch_accepted_def)
qed

definition sample_accept :: BIST_OUCHOrderAcceptedMessage where
  "sample_accept = \<lparr>boA_timestamp = 11, boA_order_id = 900, boA_quantity = 5, boA_pre_trade_qty = 0,
     boA_display_qty = 0, boA_order_book_id = 3, boA_price = 100, boA_message_type = CHR ''A'',
     boA_order_token = ''00000000000012'', boA_side = CHR ''B'', boA_time_in_force = 0,
     boA_client_account = [], boA_customer_info = [], boA_exchange_info = [], boA_open_close = 0,
     boA_order_state = 1, boA_client_category = 1, boA_offhours = 0, boA_smp_level = 0, boA_smp_method = 0,
     boA_smp_ID = []\<rparr>"

theorem bist_accept_message_witness:
  "\<exists>om'. update_order_ouch_bist (\<lambda>_. 12) (\<lambda>x. x) 0 (B_OUCHOrderAccepted sample_accept)
      (ready_manager\<lparr>awaitingAck_orders := snd (fm_insert (\<lambda>x. x) 12 40000 (fm_new 4 0 0))\<rparr>) = Some om'
    \<and> get_order_from_our_map om' (bist_key 900 3 (CHR ''B'')) = Some 40000
    \<and> price (om_heap om' 40000) = 100 \<and> quantity (om_heap om' 40000) = 5 \<and> status (om_heap om' 40000) = New
    \<and> oh_orders (our_orders_all_venue om' 0 ! 0) ! 0 = Some 40000"
proof -
  let ?a = "fm_new 4 0 0 :: (u64, nat) flatmap"
  let ?m = "snd (fm_insert (\<lambda>x. x) 12 40000 ?a)"
  let ?om = "ready_manager\<lparr>awaitingAck_orders := ?m\<rparr>"
  have "fm_inv 2 ?a" using fm_new_inv [of 2] by simp
  moreover have "fm_lookup (\<lambda>x. x) ?a 12 = None" by code_simp
  ultimately have i: "fm_inv 2 ?m" by (rule fm.put_inv)
  have "\<not> fm_full ?a" by code_simp
  then have l: "fm_lookup (\<lambda>x. x) ?m 12 = Some 40000"
    using fm.put_look [OF \<open>fm_inv 2 ?a\<close> \<open>fm_lookup (\<lambda>x. x) ?a 12 = None\<close>] by simp
  have h: "history_of (om_heap ?om 40000) ?om = Some (0, 0)" "length (our_orders ?om) < OUR_ORDER_MAP_THRESHOLD"
    by (simp_all add: sample_manager_defs history_of_def default_order_def VENUE_COUNT_def OUR_ORDER_MAP_THRESHOLD_def)
  have f: "boA_order_id sample_accept = 900" "boA_order_book_id sample_accept = 3" "boA_side sample_accept = CHR ''B''"
    by (simp_all add: sample_accept_def)
  have g: "i64_of_i32 (boA_price sample_accept) = 100" "ucast (boA_quantity sample_accept) = (5 :: u32)" by code_simp+
  have hs: "our_orders_all_venue ?om 0 ! 0 = new_history (replicate 64 None)" by (simp add: ready_manager_def)
  have w: "length (oh_orders (our_orders_all_venue ?om 0 ! 0)) = ORDERHISTORY_SIZE" "oh_write_index (our_orders_all_venue ?om 0 ! 0) = 0"
    unfolding hs by (simp_all add: new_history_def ORDERHISTORY_SIZE_def)
  have a: "fm_lookup (\<lambda>x. x) (awaitingAck_orders ?om) 12 = Some 40000" "fm_inv 2 (awaitingAck_orders ?om)" using l i by simp_all
  have "unat ((0 :: u64) AND 63) = 0" by simp
  then show ?thesis
    using bist_accept_message [of "\<lambda>x. x" ?om 12 40000 "\<lambda>_. 12" sample_accept 2 0 0 "bist_key 900 3 (CHR ''B'')" _ 0, OF a(1) _ a(2) h(2,1) _ refl w(1)]
    unfolding f g w(2) ORDERHISTORY_SIZE_def by fastforce
qed

end
