(* ===== verification/Byte_Order.thy ===== *)
theory Byte_Order
  imports Messages
begin

text \<open>
  The byte order conversions of src/src/utils/Endian.h.  A \<^verbatim>\<open>const char*\<close> into a buffer is the list of
  the bytes from there to the end of the buffer, so \<^verbatim>\<open>data + n\<close> is \<^term>\<open>drop n data\<close>; a read past the
  end is undefined (\<open>None\<close>).  A write replaces bytes of a buffer at an offset.  Every signed
  conversion is the unsigned one, since both are words of the same width.
\<close>

subsection \<open>Reading\<close>

abbreviation byte_at :: "char \<Rightarrow> 'a::len word" where
  "byte_at c \<equiv> ucast (u8_of_char c)"

fun read_u16_be :: "string \<Rightarrow> u16 option" where
  "read_u16_be (a # b # _) = Some (push_bit 8 (byte_at a) OR byte_at b)"
| "read_u16_be _ = None"

fun read_u32_be :: "string \<Rightarrow> u32 option" where
  "read_u32_be (a # b # c # d # _) =
     Some (push_bit 24 (byte_at a) OR push_bit 16 (byte_at b) OR push_bit 8 (byte_at c) OR byte_at d)"
| "read_u32_be _ = None"

fun read_u48_be :: "string \<Rightarrow> u64 option" where
  "read_u48_be (a # b # c # d # e # f # _) =
     Some (push_bit 40 (byte_at a) OR push_bit 32 (byte_at b) OR push_bit 24 (byte_at c)
           OR push_bit 16 (byte_at d) OR push_bit 8 (byte_at e) OR byte_at f)"
| "read_u48_be _ = None"

fun read_u64_be :: "string \<Rightarrow> u64 option" where
  "read_u64_be (a # b # c # d # e # f # g # h # _) =
     Some (push_bit 56 (byte_at a) OR push_bit 48 (byte_at b) OR push_bit 40 (byte_at c)
           OR push_bit 32 (byte_at d) OR push_bit 24 (byte_at e) OR push_bit 16 (byte_at f)
           OR push_bit 8 (byte_at g) OR byte_at h)"
| "read_u64_be _ = None"

definition read_i16_be :: "string \<Rightarrow> i16 option" where
  "read_i16_be p = read_u16_be p"

definition read_i32_be :: "string \<Rightarrow> i32 option" where
  "read_i32_be p = read_u32_be p"

definition read_i64_be :: "string \<Rightarrow> i64 option" where
  "read_i64_be p = read_u64_be p"

text \<open>A single byte, as \<^verbatim>\<open>char\<close> and as \<^verbatim>\<open>uint8_t\<close>, and \<^verbatim>\<open>memcpy\<close> of \<open>n\<close> bytes.\<close>

definition read_char :: "string \<Rightarrow> char option" where
  "read_char p = nth_opt p 0"

definition read_u8 :: "string \<Rightarrow> u8 option" where
  "read_u8 p = map_option u8_of_char (nth_opt p 0)"

definition read_bytes :: "nat \<Rightarrow> string \<Rightarrow> string option" where
  "read_bytes n p = (if n \<le> length p then Some (take n p) else None)"

subsection \<open>Writing\<close>

definition char_of_u8 :: "u8 \<Rightarrow> char" where
  "char_of_u8 w = char_of (unat w)"

definition low_byte :: "'a::len word \<Rightarrow> char" where
  "low_byte v = char_of_u8 (ucast (v AND 0xFF))"

definition bytes_u16_be :: "u16 \<Rightarrow> string" where
  "bytes_u16_be v = [low_byte (drop_bit 8 v), low_byte v]"

definition bytes_u32_be :: "u32 \<Rightarrow> string" where
  "bytes_u32_be v = [low_byte (drop_bit 24 v), low_byte (drop_bit 16 v), low_byte (drop_bit 8 v), low_byte v]"

definition bytes_u48_be :: "u64 \<Rightarrow> string" where
  "bytes_u48_be v = [low_byte (drop_bit 40 v), low_byte (drop_bit 32 v), low_byte (drop_bit 24 v),
     low_byte (drop_bit 16 v), low_byte (drop_bit 8 v), low_byte v]"

definition bytes_u64_be :: "u64 \<Rightarrow> string" where
  "bytes_u64_be v = [low_byte (drop_bit 56 v), low_byte (drop_bit 48 v), low_byte (drop_bit 40 v),
     low_byte (drop_bit 32 v), low_byte (drop_bit 24 v), low_byte (drop_bit 16 v), low_byte (drop_bit 8 v),
     low_byte v]"

definition write_bytes :: "nat \<Rightarrow> string \<Rightarrow> string \<Rightarrow> string option" where
  "write_bytes off bs buf =
     (if off + length bs \<le> length buf then Some (take off buf @ bs @ drop (off + length bs) buf) else None)"

definition write_u16_be :: "nat \<Rightarrow> u16 \<Rightarrow> string \<Rightarrow> string option" where
  "write_u16_be off v = write_bytes off (bytes_u16_be v)"

definition write_u32_be :: "nat \<Rightarrow> u32 \<Rightarrow> string \<Rightarrow> string option" where
  "write_u32_be off v = write_bytes off (bytes_u32_be v)"

definition write_u48_be :: "nat \<Rightarrow> u64 \<Rightarrow> string \<Rightarrow> string option" where
  "write_u48_be off v = write_bytes off (bytes_u48_be v)"

definition write_u64_be :: "nat \<Rightarrow> u64 \<Rightarrow> string \<Rightarrow> string option" where
  "write_u64_be off v = write_bytes off (bytes_u64_be v)"

definition write_i16_be :: "nat \<Rightarrow> i16 \<Rightarrow> string \<Rightarrow> string option" where
  "write_i16_be off v = write_u16_be off v"

definition write_i32_be :: "nat \<Rightarrow> i32 \<Rightarrow> string \<Rightarrow> string option" where
  "write_i32_be off v = write_u32_be off v"

definition write_i64_be :: "nat \<Rightarrow> i64 \<Rightarrow> string \<Rightarrow> string option" where
  "write_i64_be off v = write_u64_be off v"

subsection \<open>Lemmas\<close>

named_theorems wire_simps "reading back what was encoded, at the front of a buffer"

lemma u8_of_char_of_u8 [simp]: "u8_of_char (char_of_u8 w) = w"
proof -
  have "unat w < 256" using unsigned_less [of w] by simp
  then have "(of_char (char_of (unat w) :: char) :: nat) = unat w" by (simp add: take_bit_nat_eq_self)
  then have "of_nat (of_char (char_of (unat w) :: char)) = w" by (simp only:) simp
  then show ?thesis by (simp only: char_of_u8_def u8_of_char_def of_nat_of_char)
qed

lemma char_of_u8_of_char [simp]: "char_of_u8 (u8_of_char c) = c"
proof -
  have "unat (of_nat (of_char c) :: u8) = of_char c mod 256" by (simp add: unat_of_nat take_bit_eq_mod)
  then have "unat (u8_of_char c) = of_char c" by (simp add: u8_of_char_def of_nat_of_char)
  then show ?thesis by (simp add: char_of_u8_def)
qed

lemma byte_low_byte: "byte_at (low_byte v) = take_bit 8 v" for v :: "'a::len word"
proof -
  have "v AND 0xFF = take_bit 8 v" by (simp add: take_bit_eq_mask mask_eq_exp_minus_1)
  then show ?thesis
    by (auto simp: low_byte_def bit_ucast_iff bit_take_bit_iff dest: bit_imp_le_length intro!: bit_word_eqI)
qed

lemma join_byte: "push_bit k (take_bit 8 (drop_bit k v)) OR take_bit k v = take_bit (k + 8) v"
  for v :: "'a::len word"
  by (rule bit_word_eqI) (auto simp: bit_or_iff bit_push_bit_iff bit_take_bit_iff bit_drop_bit_eq)

lemmas join_bytes = byte_low_byte join_byte [where k = 8, simplified] join_byte [where k = 16, simplified]
  join_byte [where k = 24, simplified] join_byte [where k = 32, simplified] join_byte [where k = 40, simplified]
  join_byte [where k = 48, simplified] join_byte [where k = 56, simplified]

lemma length_bytes [simp]:
  "length (bytes_u16_be v) = 2" "length (bytes_u32_be w) = 4" "length (bytes_u48_be x) = 6" "length (bytes_u64_be x) = 8"
  by (simp_all add: bytes_u16_be_def bytes_u32_be_def bytes_u48_be_def bytes_u64_be_def)

lemma take_bit_full: "take_bit LENGTH('a) v = v" for v :: "'a::len word"
  by (simp add: take_bit_word_eq_self)

lemma read_bytes_be [wire_simps]:
  "read_u16_be (bytes_u16_be a @ r) = Some a"
  "read_u32_be (bytes_u32_be b @ r) = Some b"
  "read_u48_be (bytes_u48_be c @ r) = Some (take_bit 48 c)"
  "read_u64_be (bytes_u64_be c @ r) = Some c"
  using take_bit_full [of a] take_bit_full [of b] take_bit_full [of c]
  by (simp_all add: bytes_u16_be_def bytes_u32_be_def bytes_u48_be_def bytes_u64_be_def join_bytes)

lemma read_front [wire_simps]:
  "read_i32_be (bytes_u32_be b @ r) = Some b"
  "read_i64_be (bytes_u64_be c @ r) = Some c"
  "read_char (x # r) = Some x"
  "read_u8 (char_of_u8 y # r) = Some y"
  "length s = n \<Longrightarrow> read_bytes n (s @ r) = Some s"
  by (simp_all add: read_i32_be_def read_i64_be_def read_bytes_be read_char_def read_u8_def read_bytes_def nth_opt_def)

lemma write_bytes_spec:
  assumes "write_bytes off bs buf = Some buf'"
  shows "length buf' = length buf \<and> drop off buf' = bs @ drop (off + length bs) buf \<and> take off buf' = take off buf"
  using assms by (auto simp: write_bytes_def split: if_splits)

lemma write_bytes_defined: "write_bytes off bs buf \<noteq> None \<longleftrightarrow> off + length bs \<le> length buf"
  by (simp add: write_bytes_def)

lemma write_bytes_outside:
  assumes "write_bytes off bs buf = Some buf'" "i < off \<or> off + length bs \<le> i" "i < length buf"
  shows "buf' ! i = buf ! i"
  using assms by (auto simp: write_bytes_def nth_append split: if_splits)

subsection \<open>Properties\<close>

text \<open>Writing a number into a buffer in network byte order and reading it back at the same place gives
  the number, for 16, 32 and 64 bits and for the low 48 bits of a 64-bit number; the write succeeds
  exactly when the bytes fit into the buffer, and it changes no other byte.\<close>

theorem endian_roundtrip:
  fixes v16 :: u16 and v32 :: u32 and v64 :: u64
  shows "(\<exists>b. write_u16_be off v16 buf = Some b) = (off + 2 \<le> length buf)
    \<and> (\<exists>b. write_u32_be off v32 buf = Some b) = (off + 4 \<le> length buf)
    \<and> (\<exists>b. write_u48_be off v64 buf = Some b) = (off + 6 \<le> length buf)
    \<and> (\<exists>b. write_u64_be off v64 buf = Some b) = (off + 8 \<le> length buf)
    \<and> (write_u16_be off v16 buf = Some b16 \<longrightarrow> read_u16_be (drop off b16) = Some v16)
    \<and> (write_u32_be off v32 buf = Some b32 \<longrightarrow> read_u32_be (drop off b32) = Some v32)
    \<and> (write_u48_be off v64 buf = Some b48 \<longrightarrow> read_u48_be (drop off b48) = Some (take_bit 48 v64))
    \<and> (write_u64_be off v64 buf = Some b64 \<longrightarrow> read_u64_be (drop off b64) = Some v64
         \<and> take off b64 = take off buf \<and> drop (off + 8) b64 = drop (off + 8) buf)"
proof -
  have d: "drop off b' = bs @ drop (off + length bs) buf" "take off b' = take off buf"
    if "write_bytes off bs buf = Some b'" for bs b'
    using write_bytes_spec [OF that] by simp_all
  have "drop (off + 8) b64 = drop (off + 8) buf" if "write_u64_be off v64 buf = Some b64"
    using that by (auto simp: write_u64_be_def write_bytes_def split: if_splits)
  then show ?thesis
    using write_bytes_defined
    by (auto simp: write_u16_be_def write_u32_be_def write_u48_be_def write_u64_be_def d read_bytes_be)
qed

theorem endian_roundtrip_witness:
  "\<exists>b. write_u32_be 1 305419896 ''......'' = Some b \<and> read_u32_be (drop 1 b) = Some 305419896"
proof -
  note rt = endian_roundtrip [where off = 1 and ?v32.0 = 305419896 and buf = "''......''" and ?v16.0 = 0 and ?v64.0 = 0
      and ?b16.0 = "[]" and ?b48.0 = "[]" and ?b64.0 = "[]"]
  have "(\<exists>b. write_u32_be 1 305419896 ''......'' = Some b) = (1 + 4 \<le> length ''......'')" using rt by blast
  then obtain b where "write_u32_be 1 305419896 ''......'' = Some b" by auto
  moreover from this have "read_u32_be (drop 1 b) = Some 305419896" using rt [where ?b32.0 = b] by blast
  ultimately show ?thesis by blast
qed

end
