(* ===== verification/Message_Pools.thy ===== *)
theory Message_Pools
  imports Byte_Order Ring_Queue
begin

text \<open>
  What the binary parsers share: a pool of message objects with its free list
  (src/src/core/MessagePool.h), the packets of src/src/network/NetworkPackets.h and the loop that
  splits an ITCH packet into its messages (\<^verbatim>\<open>ItchPacketHandler\<close> of the two ITCH parsers, which differ
  only in their table of sizes).  The locale \<open>itch_wire\<close> states what a wire format has to promise
  for the loop to find exactly the messages of a packet.
\<close>

subsection \<open>Pools of message objects\<close>

text \<open>Objects are named by their index; an object keeps its old contents until a handler overwrites
  them.\<close>

record 'a msgpool =
  pool_objects :: "nat \<Rightarrow> 'a"
  free_list :: "nat cq"

text \<open>\<open>acquire\<close> into a null pointer followed by the assignments of a handler: an empty free list
  leaves the pointer null, and the first assignment is then undefined.\<close>

definition parse_into :: "('a \<Rightarrow> 'a option) \<Rightarrow> 'a msgpool \<Rightarrow> (nat \<times> 'a \<times> 'a msgpool) option" where
  "parse_into f p =
     (case cq_pop (free_list p) of
        (None, q) \<Rightarrow> None
      | (Some i, q) \<Rightarrow> do {
          m \<leftarrow> f (pool_objects p i);
          Some (i, m, \<lparr>pool_objects = (pool_objects p)(i := m), free_list = q\<rparr>) })"

definition pool_put :: "nat \<Rightarrow> 'a msgpool \<Rightarrow> 'a msgpool" where
  "pool_put i p = p\<lparr>free_list := pool_release i (free_list p)\<rparr>"

definition new_pool :: "'a \<Rightarrow> 'a msgpool" where
  "new_pool m0 = \<lparr>pool_objects = (\<lambda>_. m0),
     free_list = pool_initialize \<lparr>cq_buffer = replicate POOL_CAPACITY 0, cq_head = 0, cq_tail = 0\<rparr>\<rparr>"

definition free_objects :: "'a msgpool \<Rightarrow> nat list" where
  "free_objects p = cq_rep (free_list p)"

definition pool_ok :: "'a msgpool \<Rightarrow> bool" where
  "pool_ok p \<longleftrightarrow> cq_wf 9 (free_list p)"

lemma parse_into_head:
  assumes "pool_ok p" "free_objects p = i # js" "f (pool_objects p i) = Some m"
  shows "\<exists>p'. parse_into f p = Some (i, m, p') \<and> pool_ok p' \<and> free_objects p' = js
    \<and> pool_objects p' = (pool_objects p)(i := m)"
proof -
  have wf: "cq_wf 9 (free_list p)" and r: "cq_rep (free_list p) = i # js"
    using assms by (simp_all add: pool_ok_def free_objects_def)
  obtain x q where q: "cq_pop (free_list p) = (x, q)" by fastforce
  have "x = Some i" "cq_wf 9 q" "cq_rep q = js"
    using cq_pop_fst [OF wf] cq_pop_rep [OF wf] cq_pop_wf [OF wf] r by (simp_all add: q)
  then show ?thesis using assms(3) q by (simp add: parse_into_def pool_ok_def free_objects_def)
qed

lemma parse_into_empty: "pool_ok p \<Longrightarrow> free_objects p = [] \<Longrightarrow> parse_into f p = None"
  using cq_pop_fst [of 9 "free_list p"]
  by (cases "cq_pop (free_list p)") (simp add: parse_into_def pool_ok_def free_objects_def)

lemma pool_put_free:
  assumes "pool_ok p" "length (free_objects p) < 511"
  shows "pool_ok (pool_put i p) \<and> free_objects (pool_put i p) = free_objects p @ [i]"
  using assms cq_push_rep [of 9 "free_list p" i] cq_push_wf [of 9 "free_list p" i]
  by (simp add: pool_ok_def free_objects_def pool_put_def pool_release_def)

lemma new_pool_free: "pool_ok (new_pool m0) \<and> free_objects (new_pool m0) = [0..<511]"
proof -
  let ?q = "\<lparr>cq_buffer = replicate POOL_CAPACITY 0, cq_head = 0, cq_tail = 0\<rparr> :: nat cq"
  have wf: "cq_wf 9 ?q" and r: "cq_rep ?q = []"
    by (simp_all add: cq_wf_def cq_rep_def ring_len_def POOL_CAPACITY_def)
  have "cq_wf 9 (pool_initialize_from i n q)" if "cq_wf 9 q" for i n q
    using that by (induction n arbitrary: i q) (simp_all add: cq_push_wf)
  then show ?thesis
    using pool_from_rep [OF wf, of 0 POOL_CAPACITY] wf r
    by (simp add: new_pool_def pool_ok_def free_objects_def pool_initialize_def POOL_CAPACITY_def
        del: upt_rec_numeral)
qed

subsection \<open>Received packets\<close>

record RxPacket =
  rx_data :: string
  rx_len :: u16
  rx_offsets :: "u16 list"
  last_pkt_remaining_len :: i16
  msg_count :: u8
  rx_partial :: bool
  is_len_received :: bool
  release_this_pkt :: bool
  consumed :: bool
  rx_venue :: Venue
  rx_protocol :: Protocol

definition MAX_APP_MSG_IN_ONE_DATA :: nat where "MAX_APP_MSG_IN_ONE_DATA = 32"

text \<open>\<^verbatim>\<open>pkt->offsets[pkt->msg_count++] = offset\<close>; the array has 32 entries.\<close>

definition push_offset :: "nat \<Rightarrow> RxPacket \<Rightarrow> RxPacket option" where
  "push_offset offset pkt = do {
     _ \<leftarrow> guard (unat (msg_count pkt) < MAX_APP_MSG_IN_ONE_DATA);
     Some (pkt\<lparr>rx_offsets := (rx_offsets pkt)[unat (msg_count pkt) := of_nat offset],
               msg_count := msg_count pkt + 1\<rparr>) }"

text \<open>\<open>index\<close> is \<^verbatim>\<open>itchMessageIndex\<close> and \<open>sizes\<close> is \<^verbatim>\<open>ITCHSizeOfs\<close>; an index past that array is
  undefined.  The loop has no bound of its own: \<open>None\<close> also stands for a loop that never ends.\<close>

partial_function (option) ItchPacketHandler ::
  "(char \<Rightarrow> nat) \<Rightarrow> nat list \<Rightarrow> nat \<Rightarrow> RxPacket \<Rightarrow> RxPacket option" where
  "ItchPacketHandler index sizes offset pkt =
     (if offset < unat (rx_len pkt) then do {
        c \<leftarrow> read_char (drop offset (rx_data pkt));
        msg_size \<leftarrow> nth_opt sizes (index c);
        pkt1 \<leftarrow> push_offset offset pkt;
        ItchPacketHandler index sizes (offset + msg_size) pkt1 }
      else Some pkt)"

declare ItchPacketHandler.simps [code]

subsection \<open>Wire formats\<close>

text \<open>A wire format maps messages to bytes.  For the splitting loop it has to promise that the type
  byte of a message selects its length in the table of sizes.\<close>

locale itch_wire =
  fixes index :: "char \<Rightarrow> nat" and sizes :: "nat list" and wire :: "'m \<Rightarrow> string" and wf :: "'m \<Rightarrow> bool"
  assumes wire_size: "wf m \<Longrightarrow> \<exists>c s. wire m = c # s \<and> nth_opt sizes (index c) = Some (length (wire m))"
begin

lemma split_step:
  assumes "wf m" "drop offset (rx_data pkt) = wire m @ r" "offset < unat (rx_len pkt)"
    and "unat (msg_count pkt) < 32"
  shows "ItchPacketHandler index sizes offset pkt = ItchPacketHandler index sizes (offset + length (wire m))
    (pkt\<lparr>rx_offsets := (rx_offsets pkt)[unat (msg_count pkt) := of_nat offset], msg_count := msg_count pkt + 1\<rparr>)"
proof -
  obtain c s where "wire m = c # s" "nth_opt sizes (index c) = Some (length (wire m))"
    using wire_size [OF assms(1)] by blast
  then show ?thesis
    using assms by (subst ItchPacketHandler.simps)
      (simp add: read_front push_offset_def MAX_APP_MSG_IN_ONE_DATA_def)
qed

lemma split_messages:
  assumes "\<forall>m \<in> set ms. wf m" "drop offset (rx_data pkt) = concat (map wire ms) @ r"
    and "unat (rx_len pkt) = offset + length (concat (map wire ms))"
    and "unat (msg_count pkt) + length ms \<le> 32" "length (rx_offsets pkt) = 32"
  shows "\<exists>pkt'. ItchPacketHandler index sizes offset pkt = Some pkt'
    \<and> rx_data pkt' = rx_data pkt \<and> rx_len pkt' = rx_len pkt \<and> length (rx_offsets pkt') = 32
    \<and> unat (msg_count pkt') = unat (msg_count pkt) + length ms
    \<and> (\<forall>j < unat (msg_count pkt). rx_offsets pkt' ! j = rx_offsets pkt ! j)
    \<and> (\<forall>j < length ms. unat (rx_offsets pkt' ! (unat (msg_count pkt) + j))
         = offset + length (concat (map wire (take j ms))))"
  using assms
proof (induction ms arbitrary: offset pkt)
  case Nil
  then show ?case by (subst ItchPacketHandler.simps) simp
next
  case (Cons m ms)
  let ?p = "pkt\<lparr>rx_offsets := (rx_offsets pkt)[unat (msg_count pkt) := of_nat offset], msg_count := msg_count pkt + 1\<rparr>"
  let ?o = "offset + length (wire m)" and ?k = "unat (msg_count pkt)"
  have wf: "wf m" using Cons.prems(1) by simp
  then have pos: "0 < length (wire m)" using wire_size by fastforce
  have k: "?k < 32" "unat (msg_count pkt + 1) = ?k + 1"
    using Cons.prems(4) by (simp_all add: unat_word_ariths)
  have off: "offset < unat (rx_len pkt)" using Cons.prems(3) pos by simp
  have lt: "offset < 2 ^ 16" using off unsigned_less [of "rx_len pkt", where 'a = nat] by simp
  have step: "ItchPacketHandler index sizes offset pkt = ItchPacketHandler index sizes ?o ?p"
    using split_step [OF wf _ off k(1), of "concat (map wire ms) @ r"] Cons.prems(2) by simp
  have "drop ?o (rx_data pkt) = concat (map wire ms) @ r"
    using arg_cong [OF Cons.prems(2), of "drop (length (wire m))"] by (simp add: add.commute)
  then obtain pkt' where ih: "ItchPacketHandler index sizes ?o ?p = Some pkt'"
    "rx_data pkt' = rx_data pkt" "rx_len pkt' = rx_len pkt" "length (rx_offsets pkt') = 32"
    "unat (msg_count pkt') = ?k + 1 + length ms"
    "\<forall>j < ?k + 1. rx_offsets pkt' ! j = rx_offsets ?p ! j"
    "\<forall>j < length ms. unat (rx_offsets pkt' ! (?k + 1 + j)) = ?o + length (concat (map wire (take j ms)))"
    using Cons.IH [of ?o ?p] Cons.prems k by auto
  have "unat (rx_offsets pkt' ! (?k + j)) = offset + length (concat (map wire (take j (m # ms))))"
    if "j < Suc (length ms)" for j
  proof (cases j)
    case 0
    have "rx_offsets pkt' ! ?k = of_nat offset" using ih(6) k(1) Cons.prems(5) by simp
    then show ?thesis using 0 lt by (simp add: unat_of_nat)
  next
    case (Suc i)
    then show ?thesis using ih(7) [rule_format, of i] that by simp
  qed
  then show ?case using ih step by simp
qed

end

text \<open>The contract of a parser with its pools: a message that follows a header of \<open>hdr\<close> bytes is
  decoded into the first free object of its type, and no pool loses more than one object.\<close>

locale wire_parser =
  fixes parse :: "string \<Rightarrow> 'p \<Rightarrow> ((nat \<times> 'm) option \<times> 'p) option"
    and wire :: "'m \<Rightarrow> string" and wf :: "'m \<Rightarrow> bool" and ok :: "'p \<Rightarrow> bool"
    and free :: "'m \<Rightarrow> 'p \<Rightarrow> nat list" and hdr :: nat
  assumes parse_wire: "\<lbrakk>wf m; ok p; free m p = i # js; length h = hdr\<rbrakk> \<Longrightarrow>
    \<exists>p'. parse (h @ wire m @ r) p = Some (Some (i, m), p') \<and> ok p'
      \<and> (\<forall>m'. length (free m' p) \<le> Suc (length (free m' p')))"

end
