(* ===== verification/Itch_Parser_BIST.thy ===== *)
theory Itch_Parser_BIST
  imports Message_Pools
begin

text \<open>
  The ITCH parser of BIST: src/src/protocol/parsers/ITCH/Parser_ITCH_BIST.cpp and its header.  Every handler decodes one message
  type into an object of the pool of that type.  The layout is the one src/generated/GeneratedITCHMessages_BIST.h
  documents, and the lemmas show that every handler decodes it.
\<close>

subsection \<open>The handlers\<close>

text \<open>One definition per entry of \<^verbatim>\<open>makeMessageHandlersLookup\<close>, with the assignments in the order of
  the code; fields that a handler does not assign keep the value of the pooled object.\<close>

definition bist_itch_handler_T :: "string \<Rightarrow> BIST_ITCHSecondsMessage \<Rightarrow> BIST_ITCHSecondsMessage option" where
  "bist_itch_handler_T data m = do {
     second' \<leftarrow> read_u32_be (drop 1 data);
     message_type' \<leftarrow> read_char data;
     Some (m\<lparr>biT_second := second', biT_message_type := message_type'\<rparr>) }"

definition bist_itch_handler_R :: "string \<Rightarrow> BIST_ITCHOrderBookDirectoryMessage \<Rightarrow> BIST_ITCHOrderBookDirectoryMessage option" where
  "bist_itch_handler_R data m = do {
     nominal_value' \<leftarrow> read_u64_be (drop 105 data);
     timestamp_ns' \<leftarrow> read_u32_be (drop 1 data);
     order_book_id' \<leftarrow> read_u32_be (drop 5 data);
     odd_lot_size' \<leftarrow> read_u32_be (drop 93 data);
     round_lot_size' \<leftarrow> read_u32_be (drop 97 data);
     block_lot_size' \<leftarrow> read_u32_be (drop 101 data);
     underlying_order_book_id' \<leftarrow> read_u32_be (drop 114 data);
     strike_price' \<leftarrow> read_i32_be (drop 118 data);
     expiration_date' \<leftarrow> read_u32_be (drop 122 data);
     decimals_in_price' \<leftarrow> read_u16_be (drop 89 data);
     decimals_in_nominal' \<leftarrow> read_u16_be (drop 91 data);
     decimals_in_strike_price' \<leftarrow> read_u16_be (drop 126 data);
     financial_product' \<leftarrow> read_u8 (drop 85 data);
     number_of_legs' \<leftarrow> read_u8 (drop 113 data);
     put_or_call' \<leftarrow> read_u8 (drop 128 data);
     ranking_type' \<leftarrow> read_u8 (drop 129 data);
     message_type' \<leftarrow> read_char data;
     isin' \<leftarrow> read_bytes 12 (drop 73 data);
     symbol' \<leftarrow> read_bytes 32 (drop 9 data);
     long_name' \<leftarrow> read_bytes 32 (drop 41 data);
     trading_currency' \<leftarrow> read_bytes 3 (drop 86 data);
     Some (m\<lparr>biR_nominal_value := nominal_value', biR_timestamp_ns := timestamp_ns',
            biR_order_book_id := order_book_id', biR_odd_lot_size := odd_lot_size',
            biR_round_lot_size := round_lot_size', biR_block_lot_size := block_lot_size',
            biR_underlying_order_book_id := underlying_order_book_id', biR_strike_price := strike_price',
            biR_expiration_date := expiration_date', biR_decimals_in_price := decimals_in_price',
            biR_decimals_in_nominal := decimals_in_nominal',
            biR_decimals_in_strike_price := decimals_in_strike_price',
            biR_financial_product := financial_product', biR_number_of_legs := number_of_legs',
            biR_put_or_call := put_or_call', biR_ranking_type := ranking_type',
            biR_message_type := message_type', biR_isin := isin', biR_symbol := symbol',
            biR_long_name := long_name', biR_trading_currency := trading_currency'\<rparr>) }"

definition bist_itch_handler_M :: "string \<Rightarrow> BIST_ITCHCombinationOrderBookLegMessage \<Rightarrow> BIST_ITCHCombinationOrderBookLegMessage option" where
  "bist_itch_handler_M data m = do {
     timestamp_ns' \<leftarrow> read_u32_be (drop 1 data);
     combination_order_book_id' \<leftarrow> read_u32_be (drop 5 data);
     leg_order_book_id' \<leftarrow> read_u32_be (drop 9 data);
     leg_ratio' \<leftarrow> read_u32_be (drop 14 data);
     message_type' \<leftarrow> read_char data;
     leg_side' \<leftarrow> read_char (drop 13 data);
     Some (m\<lparr>biM_timestamp_ns := timestamp_ns',
            biM_combination_order_book_id := combination_order_book_id',
            biM_leg_order_book_id := leg_order_book_id', biM_leg_ratio := leg_ratio',
            biM_message_type := message_type', biM_leg_side := leg_side'\<rparr>) }"

definition bist_itch_handler_L :: "string \<Rightarrow> BIST_ITCHTickSizeTableEntryMessage \<Rightarrow> BIST_ITCHTickSizeTableEntryMessage option" where
  "bist_itch_handler_L data m = do {
     tick_size' \<leftarrow> read_u64_be (drop 9 data);
     timestamp_ns' \<leftarrow> read_u32_be (drop 1 data);
     order_book_id' \<leftarrow> read_u32_be (drop 5 data);
     price_from' \<leftarrow> read_i32_be (drop 17 data);
     price_to' \<leftarrow> read_i32_be (drop 21 data);
     message_type' \<leftarrow> read_char data;
     Some (m\<lparr>biL_tick_size := tick_size', biL_timestamp_ns := timestamp_ns',
            biL_order_book_id := order_book_id', biL_price_from := price_from', biL_price_to := price_to',
            biL_message_type := message_type'\<rparr>) }"

definition bist_itch_handler_V :: "string \<Rightarrow> BIST_ITCHShortSellStatusMessage \<Rightarrow> BIST_ITCHShortSellStatusMessage option" where
  "bist_itch_handler_V data m = do {
     timestamp_ns' \<leftarrow> read_u32_be (drop 1 data);
     order_book_id' \<leftarrow> read_u32_be (drop 5 data);
     short_sale_restriction' \<leftarrow> read_u8 (drop 9 data);
     message_type' \<leftarrow> read_char data;
     Some (m\<lparr>biV_timestamp_ns := timestamp_ns', biV_order_book_id := order_book_id',
            biV_short_sale_restriction := short_sale_restriction',
            biV_message_type := message_type'\<rparr>) }"

definition bist_itch_handler_S :: "string \<Rightarrow> BIST_ITCHSystemEventMessage \<Rightarrow> BIST_ITCHSystemEventMessage option" where
  "bist_itch_handler_S data m = do {
     timestamp_ns' \<leftarrow> read_u32_be (drop 1 data);
     message_type' \<leftarrow> read_char data;
     event_code' \<leftarrow> read_char (drop 5 data);
     Some (m\<lparr>biS_timestamp_ns := timestamp_ns', biS_message_type := message_type',
            biS_event_code := event_code'\<rparr>) }"

definition bist_itch_handler_O :: "string \<Rightarrow> BIST_ITCHOrderBookStateMessage \<Rightarrow> BIST_ITCHOrderBookStateMessage option" where
  "bist_itch_handler_O data m = do {
     timestamp_ns' \<leftarrow> read_u32_be (drop 1 data);
     order_book_id' \<leftarrow> read_u32_be (drop 5 data);
     message_type' \<leftarrow> read_char data;
     state_name' \<leftarrow> read_bytes 20 (drop 9 data);
     Some (m\<lparr>biO_timestamp_ns := timestamp_ns', biO_order_book_id := order_book_id',
            biO_message_type := message_type', biO_state_name := state_name'\<rparr>) }"

definition bist_itch_handler_A :: "string \<Rightarrow> BIST_ITCHAddOrderMessage \<Rightarrow> BIST_ITCHAddOrderMessage option" where
  "bist_itch_handler_A data m = do {
     order_id' \<leftarrow> read_u64_be (drop 5 data);
     quantity' \<leftarrow> read_u64_be (drop 22 data);
     ranking_time' \<leftarrow> read_u64_be (drop 37 data);
     timestamp_ns' \<leftarrow> read_u32_be (drop 1 data);
     order_book_id' \<leftarrow> read_u32_be (drop 13 data);
     ranking_seq_number' \<leftarrow> read_u32_be (drop 18 data);
     price' \<leftarrow> read_i32_be (drop 30 data);
     order_attributes' \<leftarrow> read_u16_be (drop 34 data);
     lot_type' \<leftarrow> read_u8 (drop 36 data);
     message_type' \<leftarrow> read_char data;
     side' \<leftarrow> read_char (drop 17 data);
     Some (m\<lparr>biA_order_id := order_id', biA_quantity := quantity',
            biA_ranking_time := ranking_time', biA_timestamp_ns := timestamp_ns',
            biA_order_book_id := order_book_id', biA_ranking_seq_number := ranking_seq_number',
            biA_price := price', biA_order_attributes := order_attributes', biA_lot_type := lot_type',
            biA_message_type := message_type', biA_side := side'\<rparr>) }"

definition bist_itch_handler_E :: "string \<Rightarrow> BIST_ITCHOrderExecutedMessage \<Rightarrow> BIST_ITCHOrderExecutedMessage option" where
  "bist_itch_handler_E data m = do {
     order_id' \<leftarrow> read_u64_be (drop 5 data);
     executed_quantity' \<leftarrow> read_u64_be (drop 18 data);
     match_id' \<leftarrow> read_u64_be (drop 26 data);
     timestamp_ns' \<leftarrow> read_u32_be (drop 1 data);
     order_book_id' \<leftarrow> read_u32_be (drop 13 data);
     combo_group_id' \<leftarrow> read_u32_be (drop 34 data);
     message_type' \<leftarrow> read_char data;
     side' \<leftarrow> read_char (drop 17 data);
     reserved1' \<leftarrow> read_bytes 7 (drop 38 data);
     reserved2' \<leftarrow> read_bytes 7 (drop 45 data);
     Some (m\<lparr>biE_order_id := order_id', biE_executed_quantity := executed_quantity',
            biE_match_id := match_id', biE_timestamp_ns := timestamp_ns',
            biE_order_book_id := order_book_id', biE_combo_group_id := combo_group_id',
            biE_message_type := message_type', biE_side := side', biE_reserved1 := reserved1',
            biE_reserved2 := reserved2'\<rparr>) }"

definition bist_itch_handler_C :: "string \<Rightarrow> BIST_ITCHOrderExecutedWithPriceMessage \<Rightarrow> BIST_ITCHOrderExecutedWithPriceMessage option" where
  "bist_itch_handler_C data m = do {
     order_id' \<leftarrow> read_u64_be (drop 5 data);
     executed_quantity' \<leftarrow> read_u64_be (drop 18 data);
     match_id' \<leftarrow> read_u64_be (drop 26 data);
     timestamp_ns' \<leftarrow> read_u32_be (drop 1 data);
     order_book_id' \<leftarrow> read_u32_be (drop 13 data);
     combo_group_id' \<leftarrow> read_u32_be (drop 34 data);
     trade_price' \<leftarrow> read_i32_be (drop 52 data);
     message_type' \<leftarrow> read_char data;
     side' \<leftarrow> read_char (drop 17 data);
     reserved1' \<leftarrow> read_bytes 7 (drop 38 data);
     reserved2' \<leftarrow> read_bytes 7 (drop 45 data);
     occurred_at_cross' \<leftarrow> read_char (drop 56 data);
     printable' \<leftarrow> read_char (drop 57 data);
     Some (m\<lparr>biC_order_id := order_id', biC_executed_quantity := executed_quantity',
            biC_match_id := match_id', biC_timestamp_ns := timestamp_ns',
            biC_order_book_id := order_book_id', biC_combo_group_id := combo_group_id',
            biC_trade_price := trade_price', biC_message_type := message_type', biC_side := side',
            biC_reserved1 := reserved1', biC_reserved2 := reserved2',
            biC_occurred_at_cross := occurred_at_cross', biC_printable := printable'\<rparr>) }"

definition bist_itch_handler_D :: "string \<Rightarrow> BIST_ITCHOrderDeleteMessage \<Rightarrow> BIST_ITCHOrderDeleteMessage option" where
  "bist_itch_handler_D data m = do {
     order_id' \<leftarrow> read_u64_be (drop 5 data);
     timestamp_ns' \<leftarrow> read_u32_be (drop 1 data);
     order_book_id' \<leftarrow> read_u32_be (drop 13 data);
     message_type' \<leftarrow> read_char data;
     side' \<leftarrow> read_char (drop 17 data);
     Some (m\<lparr>biD_order_id := order_id', biD_timestamp_ns := timestamp_ns',
            biD_order_book_id := order_book_id', biD_message_type := message_type',
            biD_side := side'\<rparr>) }"

definition bist_itch_handler_Y :: "string \<Rightarrow> BIST_ITCHOrderBookFlushMessage \<Rightarrow> BIST_ITCHOrderBookFlushMessage option" where
  "bist_itch_handler_Y data m = do {
     timestamp_ns' \<leftarrow> read_u32_be (drop 1 data);
     order_book_id' \<leftarrow> read_u32_be (drop 5 data);
     message_type' \<leftarrow> read_char data;
     Some (m\<lparr>biY_timestamp_ns := timestamp_ns', biY_order_book_id := order_book_id',
            biY_message_type := message_type'\<rparr>) }"

definition bist_itch_handler_P :: "string \<Rightarrow> BIST_ITCHTradeMessage \<Rightarrow> BIST_ITCHTradeMessage option" where
  "bist_itch_handler_P data m = do {
     match_id' \<leftarrow> read_u64_be (drop 5 data);
     quantity' \<leftarrow> read_u64_be (drop 18 data);
     timestamp_ns' \<leftarrow> read_u32_be (drop 1 data);
     combo_group_id' \<leftarrow> read_u32_be (drop 13 data);
     order_book_id' \<leftarrow> read_u32_be (drop 26 data);
     trade_price' \<leftarrow> read_i32_be (drop 30 data);
     message_type' \<leftarrow> read_char data;
     side' \<leftarrow> read_char (drop 17 data);
     reserved1' \<leftarrow> read_bytes 7 (drop 34 data);
     reserved2' \<leftarrow> read_bytes 7 (drop 41 data);
     printable' \<leftarrow> read_char (drop 48 data);
     occurred_at_cross' \<leftarrow> read_char (drop 49 data);
     Some (m\<lparr>biP_match_id := match_id', biP_quantity := quantity',
            biP_timestamp_ns := timestamp_ns', biP_combo_group_id := combo_group_id',
            biP_order_book_id := order_book_id', biP_trade_price := trade_price',
            biP_message_type := message_type', biP_side := side', biP_reserved1 := reserved1',
            biP_reserved2 := reserved2', biP_printable := printable',
            biP_occurred_at_cross := occurred_at_cross'\<rparr>) }"

definition bist_itch_handler_Z :: "string \<Rightarrow> BIST_ITCHEquilibriumPriceUpdateMessage \<Rightarrow> BIST_ITCHEquilibriumPriceUpdateMessage option" where
  "bist_itch_handler_Z data m = do {
     available_bid_quantity' \<leftarrow> read_u64_be (drop 9 data);
     available_ask_quantity' \<leftarrow> read_u64_be (drop 17 data);
     best_bid_quantity' \<leftarrow> read_u64_be (drop 37 data);
     best_ask_quantity' \<leftarrow> read_u64_be (drop 45 data);
     timestamp_ns' \<leftarrow> read_u32_be (drop 1 data);
     order_book_id' \<leftarrow> read_u32_be (drop 5 data);
     equilibrium_price' \<leftarrow> read_i32_be (drop 25 data);
     best_bid_price' \<leftarrow> read_i32_be (drop 29 data);
     best_ask_price' \<leftarrow> read_i32_be (drop 33 data);
     message_type' \<leftarrow> read_char data;
     Some (m\<lparr>biZ_available_bid_quantity := available_bid_quantity',
            biZ_available_ask_quantity := available_ask_quantity',
            biZ_best_bid_quantity := best_bid_quantity', biZ_best_ask_quantity := best_ask_quantity',
            biZ_timestamp_ns := timestamp_ns', biZ_order_book_id := order_book_id',
            biZ_equilibrium_price := equilibrium_price', biZ_best_bid_price := best_bid_price',
            biZ_best_ask_price := best_ask_price', biZ_message_type := message_type'\<rparr>) }"

subsection \<open>The parser\<close>

record Parser_ITCH_BIST =
  bist_itch_pool_T :: "BIST_ITCHSecondsMessage msgpool"
  bist_itch_pool_R :: "BIST_ITCHOrderBookDirectoryMessage msgpool"
  bist_itch_pool_M :: "BIST_ITCHCombinationOrderBookLegMessage msgpool"
  bist_itch_pool_L :: "BIST_ITCHTickSizeTableEntryMessage msgpool"
  bist_itch_pool_V :: "BIST_ITCHShortSellStatusMessage msgpool"
  bist_itch_pool_S :: "BIST_ITCHSystemEventMessage msgpool"
  bist_itch_pool_O :: "BIST_ITCHOrderBookStateMessage msgpool"
  bist_itch_pool_A :: "BIST_ITCHAddOrderMessage msgpool"
  bist_itch_pool_E :: "BIST_ITCHOrderExecutedMessage msgpool"
  bist_itch_pool_C :: "BIST_ITCHOrderExecutedWithPriceMessage msgpool"
  bist_itch_pool_D :: "BIST_ITCHOrderDeleteMessage msgpool"
  bist_itch_pool_Y :: "BIST_ITCHOrderBookFlushMessage msgpool"
  bist_itch_pool_P :: "BIST_ITCHTradeMessage msgpool"
  bist_itch_pool_Z :: "BIST_ITCHEquilibriumPriceUpdateMessage msgpool"

definition bist_itch_index :: "char \<Rightarrow> nat" where
  "bist_itch_index c =
     (if c = CHR ''T'' then 0
      else if c = CHR ''R'' then 1
      else if c = CHR ''M'' then 2
      else if c = CHR ''L'' then 3
      else if c = CHR ''V'' then 4
      else if c = CHR ''S'' then 5
      else if c = CHR ''O'' then 6
      else if c = CHR ''A'' then 7
      else if c = CHR ''E'' then 8
      else if c = CHR ''C'' then 9
      else if c = CHR ''D'' then 10
      else if c = CHR ''Y'' then 11
      else if c = CHR ''P'' then 12
      else if c = CHR ''Z'' then 13
      else 99)"

definition bist_itch_sizes :: "nat list" where
  "bist_itch_sizes = [5, 130, 18, 25, 10, 6, 29, 45, 52, 58, 18, 9, 50, 53]"

text \<open>The call through the table of handlers.  The result is the index of the object in its pool with its
  contents.\<close>

definition bist_itch_dispatch :: "nat \<Rightarrow> string \<Rightarrow> Parser_ITCH_BIST \<Rightarrow> ((nat \<times> BIST_ITCHMessage) \<times> Parser_ITCH_BIST) option" where
  "bist_itch_dispatch index data p =
     (if index = 0 then map_option (\<lambda>(i, m, q). ((i, B_ITCHSeconds m), p\<lparr>bist_itch_pool_T := q\<rparr>))
        (parse_into (bist_itch_handler_T data) (bist_itch_pool_T p))
      else if index = 1 then map_option (\<lambda>(i, m, q). ((i, B_ITCHOrderBookDirectory m), p\<lparr>bist_itch_pool_R := q\<rparr>))
        (parse_into (bist_itch_handler_R data) (bist_itch_pool_R p))
      else if index = 2 then map_option (\<lambda>(i, m, q). ((i, B_ITCHCombinationOrderBookLeg m), p\<lparr>bist_itch_pool_M := q\<rparr>))
        (parse_into (bist_itch_handler_M data) (bist_itch_pool_M p))
      else if index = 3 then map_option (\<lambda>(i, m, q). ((i, B_ITCHTickSizeTableEntry m), p\<lparr>bist_itch_pool_L := q\<rparr>))
        (parse_into (bist_itch_handler_L data) (bist_itch_pool_L p))
      else if index = 4 then map_option (\<lambda>(i, m, q). ((i, B_ITCHShortSellStatus m), p\<lparr>bist_itch_pool_V := q\<rparr>))
        (parse_into (bist_itch_handler_V data) (bist_itch_pool_V p))
      else if index = 5 then map_option (\<lambda>(i, m, q). ((i, B_ITCHSystemEvent m), p\<lparr>bist_itch_pool_S := q\<rparr>))
        (parse_into (bist_itch_handler_S data) (bist_itch_pool_S p))
      else if index = 6 then map_option (\<lambda>(i, m, q). ((i, B_ITCHOrderBookState m), p\<lparr>bist_itch_pool_O := q\<rparr>))
        (parse_into (bist_itch_handler_O data) (bist_itch_pool_O p))
      else if index = 7 then map_option (\<lambda>(i, m, q). ((i, B_ITCHAddOrder m), p\<lparr>bist_itch_pool_A := q\<rparr>))
        (parse_into (bist_itch_handler_A data) (bist_itch_pool_A p))
      else if index = 8 then map_option (\<lambda>(i, m, q). ((i, B_ITCHOrderExecuted m), p\<lparr>bist_itch_pool_E := q\<rparr>))
        (parse_into (bist_itch_handler_E data) (bist_itch_pool_E p))
      else if index = 9 then map_option (\<lambda>(i, m, q). ((i, B_ITCHOrderExecutedWithPrice m), p\<lparr>bist_itch_pool_C := q\<rparr>))
        (parse_into (bist_itch_handler_C data) (bist_itch_pool_C p))
      else if index = 10 then map_option (\<lambda>(i, m, q). ((i, B_ITCHOrderDelete m), p\<lparr>bist_itch_pool_D := q\<rparr>))
        (parse_into (bist_itch_handler_D data) (bist_itch_pool_D p))
      else if index = 11 then map_option (\<lambda>(i, m, q). ((i, B_ITCHOrderBookFlush m), p\<lparr>bist_itch_pool_Y := q\<rparr>))
        (parse_into (bist_itch_handler_Y data) (bist_itch_pool_Y p))
      else if index = 12 then map_option (\<lambda>(i, m, q). ((i, B_ITCHTrade m), p\<lparr>bist_itch_pool_P := q\<rparr>))
        (parse_into (bist_itch_handler_P data) (bist_itch_pool_P p))
      else if index = 13 then map_option (\<lambda>(i, m, q). ((i, B_ITCHEquilibriumPriceUpdate m), p\<lparr>bist_itch_pool_Z := q\<rparr>))
        (parse_into (bist_itch_handler_Z data) (bist_itch_pool_Z p))
      else None)"

text \<open>\<^verbatim>\<open>parse\<close>: an unknown type leaves the variant with the null pointer of its first alternative, here
  \<open>None\<close>.\<close>

definition bist_itch_parse :: "string \<Rightarrow> Parser_ITCH_BIST \<Rightarrow> ((nat \<times> BIST_ITCHMessage) option \<times> Parser_ITCH_BIST) option" where
  "bist_itch_parse data p = do {
     c \<leftarrow> read_char data;
     if bist_itch_index c \<noteq> 99
     then map_option (\<lambda>(r, p'). (Some r, p')) (bist_itch_dispatch (bist_itch_index c) data p)
     else Some (None, p) }"

definition bist_itch_release :: "nat \<times> BIST_ITCHMessage \<Rightarrow> Parser_ITCH_BIST \<Rightarrow> Parser_ITCH_BIST" where
  "bist_itch_release r p =
     (case snd r of
        B_ITCHSeconds _ \<Rightarrow> p\<lparr>bist_itch_pool_T := pool_put (fst r) (bist_itch_pool_T p)\<rparr>
      | B_ITCHOrderBookDirectory _ \<Rightarrow> p\<lparr>bist_itch_pool_R := pool_put (fst r) (bist_itch_pool_R p)\<rparr>
      | B_ITCHCombinationOrderBookLeg _ \<Rightarrow> p\<lparr>bist_itch_pool_M := pool_put (fst r) (bist_itch_pool_M p)\<rparr>
      | B_ITCHTickSizeTableEntry _ \<Rightarrow> p\<lparr>bist_itch_pool_L := pool_put (fst r) (bist_itch_pool_L p)\<rparr>
      | B_ITCHShortSellStatus _ \<Rightarrow> p\<lparr>bist_itch_pool_V := pool_put (fst r) (bist_itch_pool_V p)\<rparr>
      | B_ITCHSystemEvent _ \<Rightarrow> p\<lparr>bist_itch_pool_S := pool_put (fst r) (bist_itch_pool_S p)\<rparr>
      | B_ITCHOrderBookState _ \<Rightarrow> p\<lparr>bist_itch_pool_O := pool_put (fst r) (bist_itch_pool_O p)\<rparr>
      | B_ITCHAddOrder _ \<Rightarrow> p\<lparr>bist_itch_pool_A := pool_put (fst r) (bist_itch_pool_A p)\<rparr>
      | B_ITCHOrderExecuted _ \<Rightarrow> p\<lparr>bist_itch_pool_E := pool_put (fst r) (bist_itch_pool_E p)\<rparr>
      | B_ITCHOrderExecutedWithPrice _ \<Rightarrow> p\<lparr>bist_itch_pool_C := pool_put (fst r) (bist_itch_pool_C p)\<rparr>
      | B_ITCHOrderDelete _ \<Rightarrow> p\<lparr>bist_itch_pool_D := pool_put (fst r) (bist_itch_pool_D p)\<rparr>
      | B_ITCHOrderBookFlush _ \<Rightarrow> p\<lparr>bist_itch_pool_Y := pool_put (fst r) (bist_itch_pool_Y p)\<rparr>
      | B_ITCHTrade _ \<Rightarrow> p\<lparr>bist_itch_pool_P := pool_put (fst r) (bist_itch_pool_P p)\<rparr>
      | B_ITCHEquilibriumPriceUpdate _ \<Rightarrow> p\<lparr>bist_itch_pool_Z := pool_put (fst r) (bist_itch_pool_Z p)\<rparr>)"

subsection \<open>The documented layout\<close>

text \<open>The offsets and lengths that src/generated/GeneratedITCHMessages_BIST.h documents for the fields, as an encoder: the fields in
  the order of their offsets, numbers in network byte order.\<close>

definition bist_itch_wire_T :: "BIST_ITCHSecondsMessage \<Rightarrow> string" where
  "bist_itch_wire_T m =
     [biT_message_type m] @ bytes_u32_be (biT_second m)"

definition bist_itch_wf_T :: "BIST_ITCHSecondsMessage \<Rightarrow> bool" where
  "bist_itch_wf_T m \<longleftrightarrow> biT_message_type m = CHR ''T''"

lemma bist_itch_handler_T_wire:
  "bist_itch_wf_T m \<Longrightarrow> bist_itch_handler_T (bist_itch_wire_T m @ r) m0 = Some m"
  by (cases m, cases m0) (simp add: bist_itch_handler_T_def bist_itch_wire_T_def bist_itch_wf_T_def wire_simps)

lemma bist_itch_wire_T_shape:
  "bist_itch_wf_T m \<Longrightarrow> \<exists>s. bist_itch_wire_T m = CHR ''T'' # s \<and> length s = 4"
  by (simp add: bist_itch_wire_T_def bist_itch_wf_T_def)

definition bist_itch_wire_R :: "BIST_ITCHOrderBookDirectoryMessage \<Rightarrow> string" where
  "bist_itch_wire_R m =
     [biR_message_type m] @ bytes_u32_be (biR_timestamp_ns m) @ bytes_u32_be (biR_order_book_id m) @
     biR_symbol m @ biR_long_name m @ biR_isin m @ [char_of_u8 (biR_financial_product m)] @
     biR_trading_currency m @ bytes_u16_be (biR_decimals_in_price m) @
     bytes_u16_be (biR_decimals_in_nominal m) @ bytes_u32_be (biR_odd_lot_size m) @
     bytes_u32_be (biR_round_lot_size m) @ bytes_u32_be (biR_block_lot_size m) @
     bytes_u64_be (biR_nominal_value m) @ [char_of_u8 (biR_number_of_legs m)] @
     bytes_u32_be (biR_underlying_order_book_id m) @ bytes_u32_be (biR_strike_price m) @
     bytes_u32_be (biR_expiration_date m) @ bytes_u16_be (biR_decimals_in_strike_price m) @
     [char_of_u8 (biR_put_or_call m)] @ [char_of_u8 (biR_ranking_type m)]"

definition bist_itch_wf_R :: "BIST_ITCHOrderBookDirectoryMessage \<Rightarrow> bool" where
  "bist_itch_wf_R m \<longleftrightarrow> biR_message_type m = CHR ''R''
     \<and> length (biR_symbol m) = 32
     \<and> length (biR_long_name m) = 32
     \<and> length (biR_isin m) = 12
     \<and> length (biR_trading_currency m) = 3"

lemma bist_itch_handler_R_wire:
  "bist_itch_wf_R m \<Longrightarrow> bist_itch_handler_R (bist_itch_wire_R m @ r) m0 = Some m"
  by (cases m, cases m0) (simp add: bist_itch_handler_R_def bist_itch_wire_R_def bist_itch_wf_R_def wire_simps)

lemma bist_itch_wire_R_shape:
  "bist_itch_wf_R m \<Longrightarrow> \<exists>s. bist_itch_wire_R m = CHR ''R'' # s \<and> length s = 129"
  by (simp add: bist_itch_wire_R_def bist_itch_wf_R_def)

definition bist_itch_wire_M :: "BIST_ITCHCombinationOrderBookLegMessage \<Rightarrow> string" where
  "bist_itch_wire_M m =
     [biM_message_type m] @ bytes_u32_be (biM_timestamp_ns m) @
     bytes_u32_be (biM_combination_order_book_id m) @ bytes_u32_be (biM_leg_order_book_id m) @
     [biM_leg_side m] @ bytes_u32_be (biM_leg_ratio m)"

definition bist_itch_wf_M :: "BIST_ITCHCombinationOrderBookLegMessage \<Rightarrow> bool" where
  "bist_itch_wf_M m \<longleftrightarrow> biM_message_type m = CHR ''M''"

lemma bist_itch_handler_M_wire:
  "bist_itch_wf_M m \<Longrightarrow> bist_itch_handler_M (bist_itch_wire_M m @ r) m0 = Some m"
  by (cases m, cases m0) (simp add: bist_itch_handler_M_def bist_itch_wire_M_def bist_itch_wf_M_def wire_simps)

lemma bist_itch_wire_M_shape:
  "bist_itch_wf_M m \<Longrightarrow> \<exists>s. bist_itch_wire_M m = CHR ''M'' # s \<and> length s = 17"
  by (simp add: bist_itch_wire_M_def bist_itch_wf_M_def)

definition bist_itch_wire_L :: "BIST_ITCHTickSizeTableEntryMessage \<Rightarrow> string" where
  "bist_itch_wire_L m =
     [biL_message_type m] @ bytes_u32_be (biL_timestamp_ns m) @ bytes_u32_be (biL_order_book_id m) @
     bytes_u64_be (biL_tick_size m) @ bytes_u32_be (biL_price_from m) @ bytes_u32_be (biL_price_to m)"

definition bist_itch_wf_L :: "BIST_ITCHTickSizeTableEntryMessage \<Rightarrow> bool" where
  "bist_itch_wf_L m \<longleftrightarrow> biL_message_type m = CHR ''L''"

lemma bist_itch_handler_L_wire:
  "bist_itch_wf_L m \<Longrightarrow> bist_itch_handler_L (bist_itch_wire_L m @ r) m0 = Some m"
  by (cases m, cases m0) (simp add: bist_itch_handler_L_def bist_itch_wire_L_def bist_itch_wf_L_def wire_simps)

lemma bist_itch_wire_L_shape:
  "bist_itch_wf_L m \<Longrightarrow> \<exists>s. bist_itch_wire_L m = CHR ''L'' # s \<and> length s = 24"
  by (simp add: bist_itch_wire_L_def bist_itch_wf_L_def)

definition bist_itch_wire_V :: "BIST_ITCHShortSellStatusMessage \<Rightarrow> string" where
  "bist_itch_wire_V m =
     [biV_message_type m] @ bytes_u32_be (biV_timestamp_ns m) @ bytes_u32_be (biV_order_book_id m) @
     [char_of_u8 (biV_short_sale_restriction m)]"

definition bist_itch_wf_V :: "BIST_ITCHShortSellStatusMessage \<Rightarrow> bool" where
  "bist_itch_wf_V m \<longleftrightarrow> biV_message_type m = CHR ''V''"

lemma bist_itch_handler_V_wire:
  "bist_itch_wf_V m \<Longrightarrow> bist_itch_handler_V (bist_itch_wire_V m @ r) m0 = Some m"
  by (cases m, cases m0) (simp add: bist_itch_handler_V_def bist_itch_wire_V_def bist_itch_wf_V_def wire_simps)

lemma bist_itch_wire_V_shape:
  "bist_itch_wf_V m \<Longrightarrow> \<exists>s. bist_itch_wire_V m = CHR ''V'' # s \<and> length s = 9"
  by (simp add: bist_itch_wire_V_def bist_itch_wf_V_def)

definition bist_itch_wire_S :: "BIST_ITCHSystemEventMessage \<Rightarrow> string" where
  "bist_itch_wire_S m =
     [biS_message_type m] @ bytes_u32_be (biS_timestamp_ns m) @ [biS_event_code m]"

definition bist_itch_wf_S :: "BIST_ITCHSystemEventMessage \<Rightarrow> bool" where
  "bist_itch_wf_S m \<longleftrightarrow> biS_message_type m = CHR ''S''"

lemma bist_itch_handler_S_wire:
  "bist_itch_wf_S m \<Longrightarrow> bist_itch_handler_S (bist_itch_wire_S m @ r) m0 = Some m"
  by (cases m, cases m0) (simp add: bist_itch_handler_S_def bist_itch_wire_S_def bist_itch_wf_S_def wire_simps)

lemma bist_itch_wire_S_shape:
  "bist_itch_wf_S m \<Longrightarrow> \<exists>s. bist_itch_wire_S m = CHR ''S'' # s \<and> length s = 5"
  by (simp add: bist_itch_wire_S_def bist_itch_wf_S_def)

definition bist_itch_wire_O :: "BIST_ITCHOrderBookStateMessage \<Rightarrow> string" where
  "bist_itch_wire_O m =
     [biO_message_type m] @ bytes_u32_be (biO_timestamp_ns m) @ bytes_u32_be (biO_order_book_id m) @
     biO_state_name m"

definition bist_itch_wf_O :: "BIST_ITCHOrderBookStateMessage \<Rightarrow> bool" where
  "bist_itch_wf_O m \<longleftrightarrow> biO_message_type m = CHR ''O''
     \<and> length (biO_state_name m) = 20"

lemma bist_itch_handler_O_wire:
  "bist_itch_wf_O m \<Longrightarrow> bist_itch_handler_O (bist_itch_wire_O m @ r) m0 = Some m"
  by (cases m, cases m0) (simp add: bist_itch_handler_O_def bist_itch_wire_O_def bist_itch_wf_O_def wire_simps)

lemma bist_itch_wire_O_shape:
  "bist_itch_wf_O m \<Longrightarrow> \<exists>s. bist_itch_wire_O m = CHR ''O'' # s \<and> length s = 28"
  by (simp add: bist_itch_wire_O_def bist_itch_wf_O_def)

definition bist_itch_wire_A :: "BIST_ITCHAddOrderMessage \<Rightarrow> string" where
  "bist_itch_wire_A m =
     [biA_message_type m] @ bytes_u32_be (biA_timestamp_ns m) @ bytes_u64_be (biA_order_id m) @
     bytes_u32_be (biA_order_book_id m) @ [biA_side m] @ bytes_u32_be (biA_ranking_seq_number m) @
     bytes_u64_be (biA_quantity m) @ bytes_u32_be (biA_price m) @
     bytes_u16_be (biA_order_attributes m) @ [char_of_u8 (biA_lot_type m)] @
     bytes_u64_be (biA_ranking_time m)"

definition bist_itch_wf_A :: "BIST_ITCHAddOrderMessage \<Rightarrow> bool" where
  "bist_itch_wf_A m \<longleftrightarrow> biA_message_type m = CHR ''A''"

lemma bist_itch_handler_A_wire:
  "bist_itch_wf_A m \<Longrightarrow> bist_itch_handler_A (bist_itch_wire_A m @ r) m0 = Some m"
  by (cases m, cases m0) (simp add: bist_itch_handler_A_def bist_itch_wire_A_def bist_itch_wf_A_def wire_simps)

lemma bist_itch_wire_A_shape:
  "bist_itch_wf_A m \<Longrightarrow> \<exists>s. bist_itch_wire_A m = CHR ''A'' # s \<and> length s = 44"
  by (simp add: bist_itch_wire_A_def bist_itch_wf_A_def)

definition bist_itch_wire_E :: "BIST_ITCHOrderExecutedMessage \<Rightarrow> string" where
  "bist_itch_wire_E m =
     [biE_message_type m] @ bytes_u32_be (biE_timestamp_ns m) @ bytes_u64_be (biE_order_id m) @
     bytes_u32_be (biE_order_book_id m) @ [biE_side m] @ bytes_u64_be (biE_executed_quantity m) @
     bytes_u64_be (biE_match_id m) @ bytes_u32_be (biE_combo_group_id m) @ biE_reserved1 m @
     biE_reserved2 m"

definition bist_itch_wf_E :: "BIST_ITCHOrderExecutedMessage \<Rightarrow> bool" where
  "bist_itch_wf_E m \<longleftrightarrow> biE_message_type m = CHR ''E''
     \<and> length (biE_reserved1 m) = 7
     \<and> length (biE_reserved2 m) = 7"

lemma bist_itch_handler_E_wire:
  "bist_itch_wf_E m \<Longrightarrow> bist_itch_handler_E (bist_itch_wire_E m @ r) m0 = Some m"
  by (cases m, cases m0) (simp add: bist_itch_handler_E_def bist_itch_wire_E_def bist_itch_wf_E_def wire_simps)

lemma bist_itch_wire_E_shape:
  "bist_itch_wf_E m \<Longrightarrow> \<exists>s. bist_itch_wire_E m = CHR ''E'' # s \<and> length s = 51"
  by (simp add: bist_itch_wire_E_def bist_itch_wf_E_def)

definition bist_itch_wire_C :: "BIST_ITCHOrderExecutedWithPriceMessage \<Rightarrow> string" where
  "bist_itch_wire_C m =
     [biC_message_type m] @ bytes_u32_be (biC_timestamp_ns m) @ bytes_u64_be (biC_order_id m) @
     bytes_u32_be (biC_order_book_id m) @ [biC_side m] @ bytes_u64_be (biC_executed_quantity m) @
     bytes_u64_be (biC_match_id m) @ bytes_u32_be (biC_combo_group_id m) @ biC_reserved1 m @
     biC_reserved2 m @ bytes_u32_be (biC_trade_price m) @ [biC_occurred_at_cross m] @ [biC_printable m]"

definition bist_itch_wf_C :: "BIST_ITCHOrderExecutedWithPriceMessage \<Rightarrow> bool" where
  "bist_itch_wf_C m \<longleftrightarrow> biC_message_type m = CHR ''C''
     \<and> length (biC_reserved1 m) = 7
     \<and> length (biC_reserved2 m) = 7"

lemma bist_itch_handler_C_wire:
  "bist_itch_wf_C m \<Longrightarrow> bist_itch_handler_C (bist_itch_wire_C m @ r) m0 = Some m"
  by (cases m, cases m0) (simp add: bist_itch_handler_C_def bist_itch_wire_C_def bist_itch_wf_C_def wire_simps)

lemma bist_itch_wire_C_shape:
  "bist_itch_wf_C m \<Longrightarrow> \<exists>s. bist_itch_wire_C m = CHR ''C'' # s \<and> length s = 57"
  by (simp add: bist_itch_wire_C_def bist_itch_wf_C_def)

definition bist_itch_wire_D :: "BIST_ITCHOrderDeleteMessage \<Rightarrow> string" where
  "bist_itch_wire_D m =
     [biD_message_type m] @ bytes_u32_be (biD_timestamp_ns m) @ bytes_u64_be (biD_order_id m) @
     bytes_u32_be (biD_order_book_id m) @ [biD_side m]"

definition bist_itch_wf_D :: "BIST_ITCHOrderDeleteMessage \<Rightarrow> bool" where
  "bist_itch_wf_D m \<longleftrightarrow> biD_message_type m = CHR ''D''"

lemma bist_itch_handler_D_wire:
  "bist_itch_wf_D m \<Longrightarrow> bist_itch_handler_D (bist_itch_wire_D m @ r) m0 = Some m"
  by (cases m, cases m0) (simp add: bist_itch_handler_D_def bist_itch_wire_D_def bist_itch_wf_D_def wire_simps)

lemma bist_itch_wire_D_shape:
  "bist_itch_wf_D m \<Longrightarrow> \<exists>s. bist_itch_wire_D m = CHR ''D'' # s \<and> length s = 17"
  by (simp add: bist_itch_wire_D_def bist_itch_wf_D_def)

definition bist_itch_wire_Y :: "BIST_ITCHOrderBookFlushMessage \<Rightarrow> string" where
  "bist_itch_wire_Y m =
     [biY_message_type m] @ bytes_u32_be (biY_timestamp_ns m) @ bytes_u32_be (biY_order_book_id m)"

definition bist_itch_wf_Y :: "BIST_ITCHOrderBookFlushMessage \<Rightarrow> bool" where
  "bist_itch_wf_Y m \<longleftrightarrow> biY_message_type m = CHR ''Y''"

lemma bist_itch_handler_Y_wire:
  "bist_itch_wf_Y m \<Longrightarrow> bist_itch_handler_Y (bist_itch_wire_Y m @ r) m0 = Some m"
  by (cases m, cases m0) (simp add: bist_itch_handler_Y_def bist_itch_wire_Y_def bist_itch_wf_Y_def wire_simps)

lemma bist_itch_wire_Y_shape:
  "bist_itch_wf_Y m \<Longrightarrow> \<exists>s. bist_itch_wire_Y m = CHR ''Y'' # s \<and> length s = 8"
  by (simp add: bist_itch_wire_Y_def bist_itch_wf_Y_def)

definition bist_itch_wire_P :: "BIST_ITCHTradeMessage \<Rightarrow> string" where
  "bist_itch_wire_P m =
     [biP_message_type m] @ bytes_u32_be (biP_timestamp_ns m) @ bytes_u64_be (biP_match_id m) @
     bytes_u32_be (biP_combo_group_id m) @ [biP_side m] @ bytes_u64_be (biP_quantity m) @
     bytes_u32_be (biP_order_book_id m) @ bytes_u32_be (biP_trade_price m) @ biP_reserved1 m @
     biP_reserved2 m @ [biP_printable m] @ [biP_occurred_at_cross m]"

definition bist_itch_wf_P :: "BIST_ITCHTradeMessage \<Rightarrow> bool" where
  "bist_itch_wf_P m \<longleftrightarrow> biP_message_type m = CHR ''P''
     \<and> length (biP_reserved1 m) = 7
     \<and> length (biP_reserved2 m) = 7
     \<and> biP_order_id m = 0"

lemma bist_itch_handler_P_wire:
  "bist_itch_wf_P m \<Longrightarrow> biP_order_id m0 = 0 \<Longrightarrow> bist_itch_handler_P (bist_itch_wire_P m @ r) m0 = Some m"
  by (cases m, cases m0) (simp add: bist_itch_handler_P_def bist_itch_wire_P_def bist_itch_wf_P_def wire_simps)

lemma bist_itch_wire_P_shape:
  "bist_itch_wf_P m \<Longrightarrow> \<exists>s. bist_itch_wire_P m = CHR ''P'' # s \<and> length s = 49"
  by (simp add: bist_itch_wire_P_def bist_itch_wf_P_def)

definition bist_itch_wire_Z :: "BIST_ITCHEquilibriumPriceUpdateMessage \<Rightarrow> string" where
  "bist_itch_wire_Z m =
     [biZ_message_type m] @ bytes_u32_be (biZ_timestamp_ns m) @ bytes_u32_be (biZ_order_book_id m) @
     bytes_u64_be (biZ_available_bid_quantity m) @ bytes_u64_be (biZ_available_ask_quantity m) @
     bytes_u32_be (biZ_equilibrium_price m) @ bytes_u32_be (biZ_best_bid_price m) @
     bytes_u32_be (biZ_best_ask_price m) @ bytes_u64_be (biZ_best_bid_quantity m) @
     bytes_u64_be (biZ_best_ask_quantity m)"

definition bist_itch_wf_Z :: "BIST_ITCHEquilibriumPriceUpdateMessage \<Rightarrow> bool" where
  "bist_itch_wf_Z m \<longleftrightarrow> biZ_message_type m = CHR ''Z''"

lemma bist_itch_handler_Z_wire:
  "bist_itch_wf_Z m \<Longrightarrow> bist_itch_handler_Z (bist_itch_wire_Z m @ r) m0 = Some m"
  by (cases m, cases m0) (simp add: bist_itch_handler_Z_def bist_itch_wire_Z_def bist_itch_wf_Z_def wire_simps)

lemma bist_itch_wire_Z_shape:
  "bist_itch_wf_Z m \<Longrightarrow> \<exists>s. bist_itch_wire_Z m = CHR ''Z'' # s \<and> length s = 52"
  by (simp add: bist_itch_wire_Z_def bist_itch_wf_Z_def)

primrec bist_itch_wire :: "BIST_ITCHMessage \<Rightarrow> string" where
  "bist_itch_wire (B_ITCHSeconds m) = bist_itch_wire_T m"
| "bist_itch_wire (B_ITCHOrderBookDirectory m) = bist_itch_wire_R m"
| "bist_itch_wire (B_ITCHCombinationOrderBookLeg m) = bist_itch_wire_M m"
| "bist_itch_wire (B_ITCHTickSizeTableEntry m) = bist_itch_wire_L m"
| "bist_itch_wire (B_ITCHShortSellStatus m) = bist_itch_wire_V m"
| "bist_itch_wire (B_ITCHSystemEvent m) = bist_itch_wire_S m"
| "bist_itch_wire (B_ITCHOrderBookState m) = bist_itch_wire_O m"
| "bist_itch_wire (B_ITCHAddOrder m) = bist_itch_wire_A m"
| "bist_itch_wire (B_ITCHOrderExecuted m) = bist_itch_wire_E m"
| "bist_itch_wire (B_ITCHOrderExecutedWithPrice m) = bist_itch_wire_C m"
| "bist_itch_wire (B_ITCHOrderDelete m) = bist_itch_wire_D m"
| "bist_itch_wire (B_ITCHOrderBookFlush m) = bist_itch_wire_Y m"
| "bist_itch_wire (B_ITCHTrade m) = bist_itch_wire_P m"
| "bist_itch_wire (B_ITCHEquilibriumPriceUpdate m) = bist_itch_wire_Z m"

primrec bist_itch_wf :: "BIST_ITCHMessage \<Rightarrow> bool" where
  "bist_itch_wf (B_ITCHSeconds m) = bist_itch_wf_T m"
| "bist_itch_wf (B_ITCHOrderBookDirectory m) = bist_itch_wf_R m"
| "bist_itch_wf (B_ITCHCombinationOrderBookLeg m) = bist_itch_wf_M m"
| "bist_itch_wf (B_ITCHTickSizeTableEntry m) = bist_itch_wf_L m"
| "bist_itch_wf (B_ITCHShortSellStatus m) = bist_itch_wf_V m"
| "bist_itch_wf (B_ITCHSystemEvent m) = bist_itch_wf_S m"
| "bist_itch_wf (B_ITCHOrderBookState m) = bist_itch_wf_O m"
| "bist_itch_wf (B_ITCHAddOrder m) = bist_itch_wf_A m"
| "bist_itch_wf (B_ITCHOrderExecuted m) = bist_itch_wf_E m"
| "bist_itch_wf (B_ITCHOrderExecutedWithPrice m) = bist_itch_wf_C m"
| "bist_itch_wf (B_ITCHOrderDelete m) = bist_itch_wf_D m"
| "bist_itch_wf (B_ITCHOrderBookFlush m) = bist_itch_wf_Y m"
| "bist_itch_wf (B_ITCHTrade m) = bist_itch_wf_P m"
| "bist_itch_wf (B_ITCHEquilibriumPriceUpdate m) = bist_itch_wf_Z m"

text \<open>The objects still free for the type of a message, and the parser with its pools in order.\<close>

primrec bist_itch_free :: "BIST_ITCHMessage \<Rightarrow> Parser_ITCH_BIST \<Rightarrow> nat list" where
  "bist_itch_free (B_ITCHSeconds m) p = free_objects (bist_itch_pool_T p)"
| "bist_itch_free (B_ITCHOrderBookDirectory m) p = free_objects (bist_itch_pool_R p)"
| "bist_itch_free (B_ITCHCombinationOrderBookLeg m) p = free_objects (bist_itch_pool_M p)"
| "bist_itch_free (B_ITCHTickSizeTableEntry m) p = free_objects (bist_itch_pool_L p)"
| "bist_itch_free (B_ITCHShortSellStatus m) p = free_objects (bist_itch_pool_V p)"
| "bist_itch_free (B_ITCHSystemEvent m) p = free_objects (bist_itch_pool_S p)"
| "bist_itch_free (B_ITCHOrderBookState m) p = free_objects (bist_itch_pool_O p)"
| "bist_itch_free (B_ITCHAddOrder m) p = free_objects (bist_itch_pool_A p)"
| "bist_itch_free (B_ITCHOrderExecuted m) p = free_objects (bist_itch_pool_E p)"
| "bist_itch_free (B_ITCHOrderExecutedWithPrice m) p = free_objects (bist_itch_pool_C p)"
| "bist_itch_free (B_ITCHOrderDelete m) p = free_objects (bist_itch_pool_D p)"
| "bist_itch_free (B_ITCHOrderBookFlush m) p = free_objects (bist_itch_pool_Y p)"
| "bist_itch_free (B_ITCHTrade m) p = free_objects (bist_itch_pool_P p)"
| "bist_itch_free (B_ITCHEquilibriumPriceUpdate m) p = free_objects (bist_itch_pool_Z p)"

definition bist_itch_ok :: "Parser_ITCH_BIST \<Rightarrow> bool" where
  "bist_itch_ok p \<longleftrightarrow> pool_ok (bist_itch_pool_T p)
     \<and> pool_ok (bist_itch_pool_R p)
     \<and> pool_ok (bist_itch_pool_M p)
     \<and> pool_ok (bist_itch_pool_L p)
     \<and> pool_ok (bist_itch_pool_V p)
     \<and> pool_ok (bist_itch_pool_S p)
     \<and> pool_ok (bist_itch_pool_O p)
     \<and> pool_ok (bist_itch_pool_A p)
     \<and> pool_ok (bist_itch_pool_E p)
     \<and> pool_ok (bist_itch_pool_C p)
     \<and> pool_ok (bist_itch_pool_D p)
     \<and> pool_ok (bist_itch_pool_Y p)
     \<and> pool_ok (bist_itch_pool_P p)
     \<and> pool_ok (bist_itch_pool_Z p)
     \<and> (\<forall>i. biP_order_id (pool_objects (bist_itch_pool_P p) i) = 0)"

text \<open>The constructor: the objects have the initial values of their structures, and every pool is initialised.\<close>

definition bist_itch_new :: Parser_ITCH_BIST where
  "bist_itch_new =
     \<lparr>bist_itch_pool_T = new_pool
        \<lparr>biT_second = 0, biT_message_type = CHR ''T''\<rparr>,
      bist_itch_pool_R = new_pool
        \<lparr>biR_nominal_value = 0, biR_timestamp_ns = 0, biR_order_book_id = 0, biR_odd_lot_size = 0,
         biR_round_lot_size = 0, biR_block_lot_size = 0, biR_underlying_order_book_id = 0,
         biR_strike_price = 0, biR_expiration_date = 0, biR_decimals_in_price = 0,
         biR_decimals_in_nominal = 0, biR_decimals_in_strike_price = 0, biR_financial_product = 0,
         biR_number_of_legs = 0, biR_put_or_call = 0, biR_ranking_type = 0,
         biR_message_type = CHR ''R'', biR_isin = replicate 12 (CHR 0x00),
         biR_symbol = replicate 32 (CHR 0x00), biR_long_name = replicate 32 (CHR 0x00),
         biR_trading_currency = replicate 3 (CHR 0x00)\<rparr>,
      bist_itch_pool_M = new_pool
        \<lparr>biM_timestamp_ns = 0, biM_combination_order_book_id = 0, biM_leg_order_book_id = 0,
         biM_leg_ratio = 0, biM_message_type = CHR ''M'', biM_leg_side = CHR 0x00\<rparr>,
      bist_itch_pool_L = new_pool
        \<lparr>biL_tick_size = 0, biL_timestamp_ns = 0, biL_order_book_id = 0, biL_price_from = 0,
         biL_price_to = 0, biL_message_type = CHR ''L''\<rparr>,
      bist_itch_pool_V = new_pool
        \<lparr>biV_timestamp_ns = 0, biV_order_book_id = 0, biV_short_sale_restriction = 0,
         biV_message_type = CHR ''V''\<rparr>,
      bist_itch_pool_S = new_pool
        \<lparr>biS_timestamp_ns = 0, biS_message_type = CHR ''S'', biS_event_code = CHR 0x00\<rparr>,
      bist_itch_pool_O = new_pool
        \<lparr>biO_timestamp_ns = 0, biO_order_book_id = 0, biO_message_type = CHR ''O'',
         biO_state_name = replicate 20 (CHR 0x00)\<rparr>,
      bist_itch_pool_A = new_pool
        \<lparr>biA_order_id = 0, biA_quantity = 0, biA_ranking_time = 0, biA_timestamp_ns = 0,
         biA_order_book_id = 0, biA_ranking_seq_number = 0, biA_price = 0, biA_order_attributes = 0,
         biA_lot_type = 0, biA_message_type = CHR ''A'', biA_side = CHR 0x00\<rparr>,
      bist_itch_pool_E = new_pool
        \<lparr>biE_order_id = 0, biE_executed_quantity = 0, biE_match_id = 0, biE_timestamp_ns = 0,
         biE_order_book_id = 0, biE_combo_group_id = 0, biE_message_type = CHR ''E'',
         biE_side = CHR 0x00, biE_reserved1 = replicate 7 (CHR 0x00),
         biE_reserved2 = replicate 7 (CHR 0x00)\<rparr>,
      bist_itch_pool_C = new_pool
        \<lparr>biC_order_id = 0, biC_executed_quantity = 0, biC_match_id = 0, biC_timestamp_ns = 0,
         biC_order_book_id = 0, biC_combo_group_id = 0, biC_trade_price = 0,
         biC_message_type = CHR ''C'', biC_side = CHR 0x00, biC_reserved1 = replicate 7 (CHR 0x00),
         biC_reserved2 = replicate 7 (CHR 0x00), biC_occurred_at_cross = CHR 0x00,
         biC_printable = CHR 0x00\<rparr>,
      bist_itch_pool_D = new_pool
        \<lparr>biD_order_id = 0, biD_timestamp_ns = 0, biD_order_book_id = 0, biD_message_type = CHR ''D'',
         biD_side = CHR 0x00\<rparr>,
      bist_itch_pool_Y = new_pool
        \<lparr>biY_timestamp_ns = 0, biY_order_book_id = 0, biY_message_type = CHR ''Y''\<rparr>,
      bist_itch_pool_P = new_pool
        \<lparr>biP_match_id = 0, biP_quantity = 0, biP_timestamp_ns = 0, biP_combo_group_id = 0,
         biP_order_book_id = 0, biP_trade_price = 0, biP_message_type = CHR ''P'', biP_side = CHR 0x00,
         biP_reserved1 = replicate 7 (CHR 0x00), biP_reserved2 = replicate 7 (CHR 0x00),
         biP_printable = CHR 0x00, biP_occurred_at_cross = CHR 0x00, biP_order_id = 0\<rparr>,
      bist_itch_pool_Z = new_pool
        \<lparr>biZ_available_bid_quantity = 0, biZ_available_ask_quantity = 0, biZ_best_bid_quantity = 0,
         biZ_best_ask_quantity = 0, biZ_timestamp_ns = 0, biZ_order_book_id = 0,
         biZ_equilibrium_price = 0, biZ_best_bid_price = 0, biZ_best_ask_price = 0,
         biZ_message_type = CHR ''Z''\<rparr>\<rparr>"

lemma bist_itch_new_ok: "bist_itch_ok bist_itch_new"
  by (simp add: bist_itch_ok_def bist_itch_new_def new_pool_free) (simp_all add: new_pool_def)

lemma bist_itch_new_free: "bist_itch_free m bist_itch_new = [0..<511]"
  by (cases m) (simp_all add: bist_itch_new_def new_pool_free del: upt_rec_numeral)

lemma bist_itch_index_simps [simp]:
  "bist_itch_index (CHR ''T'') = 0"
  "bist_itch_index (CHR ''R'') = 1"
  "bist_itch_index (CHR ''M'') = 2"
  "bist_itch_index (CHR ''L'') = 3"
  "bist_itch_index (CHR ''V'') = 4"
  "bist_itch_index (CHR ''S'') = 5"
  "bist_itch_index (CHR ''O'') = 6"
  "bist_itch_index (CHR ''A'') = 7"
  "bist_itch_index (CHR ''E'') = 8"
  "bist_itch_index (CHR ''C'') = 9"
  "bist_itch_index (CHR ''D'') = 10"
  "bist_itch_index (CHR ''Y'') = 11"
  "bist_itch_index (CHR ''P'') = 12"
  "bist_itch_index (CHR ''Z'') = 13"
  by (simp_all add: bist_itch_index_def)

lemma bist_itch_dispatch_wire:
  assumes "bist_itch_wf msg" "bist_itch_ok p" "bist_itch_free msg p = i # js"
  shows "\<exists>p'. bist_itch_dispatch (bist_itch_index (hd (bist_itch_wire msg))) (bist_itch_wire msg @ r) p = Some ((i, msg), p')
    \<and> bist_itch_ok p' \<and> bist_itch_free msg p' = js \<and> (\<forall>m. length (bist_itch_free m p) \<le> Suc (length (bist_itch_free m p')))"
proof (cases msg)
  case (B_ITCHSeconds m)
  then have w: "bist_itch_wf_T m" and q: "pool_ok (bist_itch_pool_T p)" "free_objects (bist_itch_pool_T p) = i # js"
    using assms by (simp_all add: bist_itch_ok_def)
  obtain s where "bist_itch_wire_T m = CHR ''T'' # s" using bist_itch_wire_T_shape [OF w] by blast
  moreover obtain p1 where "parse_into (bist_itch_handler_T (bist_itch_wire_T m @ r)) (bist_itch_pool_T p) = Some (i, m, p1)"
    "pool_ok p1" "free_objects p1 = js" "pool_objects p1 = (pool_objects (bist_itch_pool_T p))(i := m)"
    using parse_into_head [OF q, of "bist_itch_handler_T (bist_itch_wire_T m @ r)" m] bist_itch_handler_T_wire [OF w] by blast
  moreover from this have "length (bist_itch_free m' p) \<le> Suc (length (bist_itch_free m' (p\<lparr>bist_itch_pool_T := p1\<rparr>)))" for m'
    using q(2) by (cases m') simp_all
  ultimately show ?thesis using assms(2) B_ITCHSeconds by (simp add: bist_itch_dispatch_def bist_itch_ok_def)
next
  case (B_ITCHOrderBookDirectory m)
  then have w: "bist_itch_wf_R m" and q: "pool_ok (bist_itch_pool_R p)" "free_objects (bist_itch_pool_R p) = i # js"
    using assms by (simp_all add: bist_itch_ok_def)
  obtain s where "bist_itch_wire_R m = CHR ''R'' # s" using bist_itch_wire_R_shape [OF w] by blast
  moreover obtain p1 where "parse_into (bist_itch_handler_R (bist_itch_wire_R m @ r)) (bist_itch_pool_R p) = Some (i, m, p1)"
    "pool_ok p1" "free_objects p1 = js" "pool_objects p1 = (pool_objects (bist_itch_pool_R p))(i := m)"
    using parse_into_head [OF q, of "bist_itch_handler_R (bist_itch_wire_R m @ r)" m] bist_itch_handler_R_wire [OF w] by blast
  moreover from this have "length (bist_itch_free m' p) \<le> Suc (length (bist_itch_free m' (p\<lparr>bist_itch_pool_R := p1\<rparr>)))" for m'
    using q(2) by (cases m') simp_all
  ultimately show ?thesis using assms(2) B_ITCHOrderBookDirectory by (simp add: bist_itch_dispatch_def bist_itch_ok_def)
next
  case (B_ITCHCombinationOrderBookLeg m)
  then have w: "bist_itch_wf_M m" and q: "pool_ok (bist_itch_pool_M p)" "free_objects (bist_itch_pool_M p) = i # js"
    using assms by (simp_all add: bist_itch_ok_def)
  obtain s where "bist_itch_wire_M m = CHR ''M'' # s" using bist_itch_wire_M_shape [OF w] by blast
  moreover obtain p1 where "parse_into (bist_itch_handler_M (bist_itch_wire_M m @ r)) (bist_itch_pool_M p) = Some (i, m, p1)"
    "pool_ok p1" "free_objects p1 = js" "pool_objects p1 = (pool_objects (bist_itch_pool_M p))(i := m)"
    using parse_into_head [OF q, of "bist_itch_handler_M (bist_itch_wire_M m @ r)" m] bist_itch_handler_M_wire [OF w] by blast
  moreover from this have "length (bist_itch_free m' p) \<le> Suc (length (bist_itch_free m' (p\<lparr>bist_itch_pool_M := p1\<rparr>)))" for m'
    using q(2) by (cases m') simp_all
  ultimately show ?thesis using assms(2) B_ITCHCombinationOrderBookLeg by (simp add: bist_itch_dispatch_def bist_itch_ok_def)
next
  case (B_ITCHTickSizeTableEntry m)
  then have w: "bist_itch_wf_L m" and q: "pool_ok (bist_itch_pool_L p)" "free_objects (bist_itch_pool_L p) = i # js"
    using assms by (simp_all add: bist_itch_ok_def)
  obtain s where "bist_itch_wire_L m = CHR ''L'' # s" using bist_itch_wire_L_shape [OF w] by blast
  moreover obtain p1 where "parse_into (bist_itch_handler_L (bist_itch_wire_L m @ r)) (bist_itch_pool_L p) = Some (i, m, p1)"
    "pool_ok p1" "free_objects p1 = js" "pool_objects p1 = (pool_objects (bist_itch_pool_L p))(i := m)"
    using parse_into_head [OF q, of "bist_itch_handler_L (bist_itch_wire_L m @ r)" m] bist_itch_handler_L_wire [OF w] by blast
  moreover from this have "length (bist_itch_free m' p) \<le> Suc (length (bist_itch_free m' (p\<lparr>bist_itch_pool_L := p1\<rparr>)))" for m'
    using q(2) by (cases m') simp_all
  ultimately show ?thesis using assms(2) B_ITCHTickSizeTableEntry by (simp add: bist_itch_dispatch_def bist_itch_ok_def)
next
  case (B_ITCHShortSellStatus m)
  then have w: "bist_itch_wf_V m" and q: "pool_ok (bist_itch_pool_V p)" "free_objects (bist_itch_pool_V p) = i # js"
    using assms by (simp_all add: bist_itch_ok_def)
  obtain s where "bist_itch_wire_V m = CHR ''V'' # s" using bist_itch_wire_V_shape [OF w] by blast
  moreover obtain p1 where "parse_into (bist_itch_handler_V (bist_itch_wire_V m @ r)) (bist_itch_pool_V p) = Some (i, m, p1)"
    "pool_ok p1" "free_objects p1 = js" "pool_objects p1 = (pool_objects (bist_itch_pool_V p))(i := m)"
    using parse_into_head [OF q, of "bist_itch_handler_V (bist_itch_wire_V m @ r)" m] bist_itch_handler_V_wire [OF w] by blast
  moreover from this have "length (bist_itch_free m' p) \<le> Suc (length (bist_itch_free m' (p\<lparr>bist_itch_pool_V := p1\<rparr>)))" for m'
    using q(2) by (cases m') simp_all
  ultimately show ?thesis using assms(2) B_ITCHShortSellStatus by (simp add: bist_itch_dispatch_def bist_itch_ok_def)
next
  case (B_ITCHSystemEvent m)
  then have w: "bist_itch_wf_S m" and q: "pool_ok (bist_itch_pool_S p)" "free_objects (bist_itch_pool_S p) = i # js"
    using assms by (simp_all add: bist_itch_ok_def)
  obtain s where "bist_itch_wire_S m = CHR ''S'' # s" using bist_itch_wire_S_shape [OF w] by blast
  moreover obtain p1 where "parse_into (bist_itch_handler_S (bist_itch_wire_S m @ r)) (bist_itch_pool_S p) = Some (i, m, p1)"
    "pool_ok p1" "free_objects p1 = js" "pool_objects p1 = (pool_objects (bist_itch_pool_S p))(i := m)"
    using parse_into_head [OF q, of "bist_itch_handler_S (bist_itch_wire_S m @ r)" m] bist_itch_handler_S_wire [OF w] by blast
  moreover from this have "length (bist_itch_free m' p) \<le> Suc (length (bist_itch_free m' (p\<lparr>bist_itch_pool_S := p1\<rparr>)))" for m'
    using q(2) by (cases m') simp_all
  ultimately show ?thesis using assms(2) B_ITCHSystemEvent by (simp add: bist_itch_dispatch_def bist_itch_ok_def)
next
  case (B_ITCHOrderBookState m)
  then have w: "bist_itch_wf_O m" and q: "pool_ok (bist_itch_pool_O p)" "free_objects (bist_itch_pool_O p) = i # js"
    using assms by (simp_all add: bist_itch_ok_def)
  obtain s where "bist_itch_wire_O m = CHR ''O'' # s" using bist_itch_wire_O_shape [OF w] by blast
  moreover obtain p1 where "parse_into (bist_itch_handler_O (bist_itch_wire_O m @ r)) (bist_itch_pool_O p) = Some (i, m, p1)"
    "pool_ok p1" "free_objects p1 = js" "pool_objects p1 = (pool_objects (bist_itch_pool_O p))(i := m)"
    using parse_into_head [OF q, of "bist_itch_handler_O (bist_itch_wire_O m @ r)" m] bist_itch_handler_O_wire [OF w] by blast
  moreover from this have "length (bist_itch_free m' p) \<le> Suc (length (bist_itch_free m' (p\<lparr>bist_itch_pool_O := p1\<rparr>)))" for m'
    using q(2) by (cases m') simp_all
  ultimately show ?thesis using assms(2) B_ITCHOrderBookState by (simp add: bist_itch_dispatch_def bist_itch_ok_def)
next
  case (B_ITCHAddOrder m)
  then have w: "bist_itch_wf_A m" and q: "pool_ok (bist_itch_pool_A p)" "free_objects (bist_itch_pool_A p) = i # js"
    using assms by (simp_all add: bist_itch_ok_def)
  obtain s where "bist_itch_wire_A m = CHR ''A'' # s" using bist_itch_wire_A_shape [OF w] by blast
  moreover obtain p1 where "parse_into (bist_itch_handler_A (bist_itch_wire_A m @ r)) (bist_itch_pool_A p) = Some (i, m, p1)"
    "pool_ok p1" "free_objects p1 = js" "pool_objects p1 = (pool_objects (bist_itch_pool_A p))(i := m)"
    using parse_into_head [OF q, of "bist_itch_handler_A (bist_itch_wire_A m @ r)" m] bist_itch_handler_A_wire [OF w] by blast
  moreover from this have "length (bist_itch_free m' p) \<le> Suc (length (bist_itch_free m' (p\<lparr>bist_itch_pool_A := p1\<rparr>)))" for m'
    using q(2) by (cases m') simp_all
  ultimately show ?thesis using assms(2) B_ITCHAddOrder by (simp add: bist_itch_dispatch_def bist_itch_ok_def)
next
  case (B_ITCHOrderExecuted m)
  then have w: "bist_itch_wf_E m" and q: "pool_ok (bist_itch_pool_E p)" "free_objects (bist_itch_pool_E p) = i # js"
    using assms by (simp_all add: bist_itch_ok_def)
  obtain s where "bist_itch_wire_E m = CHR ''E'' # s" using bist_itch_wire_E_shape [OF w] by blast
  moreover obtain p1 where "parse_into (bist_itch_handler_E (bist_itch_wire_E m @ r)) (bist_itch_pool_E p) = Some (i, m, p1)"
    "pool_ok p1" "free_objects p1 = js" "pool_objects p1 = (pool_objects (bist_itch_pool_E p))(i := m)"
    using parse_into_head [OF q, of "bist_itch_handler_E (bist_itch_wire_E m @ r)" m] bist_itch_handler_E_wire [OF w] by blast
  moreover from this have "length (bist_itch_free m' p) \<le> Suc (length (bist_itch_free m' (p\<lparr>bist_itch_pool_E := p1\<rparr>)))" for m'
    using q(2) by (cases m') simp_all
  ultimately show ?thesis using assms(2) B_ITCHOrderExecuted by (simp add: bist_itch_dispatch_def bist_itch_ok_def)
next
  case (B_ITCHOrderExecutedWithPrice m)
  then have w: "bist_itch_wf_C m" and q: "pool_ok (bist_itch_pool_C p)" "free_objects (bist_itch_pool_C p) = i # js"
    using assms by (simp_all add: bist_itch_ok_def)
  obtain s where "bist_itch_wire_C m = CHR ''C'' # s" using bist_itch_wire_C_shape [OF w] by blast
  moreover obtain p1 where "parse_into (bist_itch_handler_C (bist_itch_wire_C m @ r)) (bist_itch_pool_C p) = Some (i, m, p1)"
    "pool_ok p1" "free_objects p1 = js" "pool_objects p1 = (pool_objects (bist_itch_pool_C p))(i := m)"
    using parse_into_head [OF q, of "bist_itch_handler_C (bist_itch_wire_C m @ r)" m] bist_itch_handler_C_wire [OF w] by blast
  moreover from this have "length (bist_itch_free m' p) \<le> Suc (length (bist_itch_free m' (p\<lparr>bist_itch_pool_C := p1\<rparr>)))" for m'
    using q(2) by (cases m') simp_all
  ultimately show ?thesis using assms(2) B_ITCHOrderExecutedWithPrice by (simp add: bist_itch_dispatch_def bist_itch_ok_def)
next
  case (B_ITCHOrderDelete m)
  then have w: "bist_itch_wf_D m" and q: "pool_ok (bist_itch_pool_D p)" "free_objects (bist_itch_pool_D p) = i # js"
    using assms by (simp_all add: bist_itch_ok_def)
  obtain s where "bist_itch_wire_D m = CHR ''D'' # s" using bist_itch_wire_D_shape [OF w] by blast
  moreover obtain p1 where "parse_into (bist_itch_handler_D (bist_itch_wire_D m @ r)) (bist_itch_pool_D p) = Some (i, m, p1)"
    "pool_ok p1" "free_objects p1 = js" "pool_objects p1 = (pool_objects (bist_itch_pool_D p))(i := m)"
    using parse_into_head [OF q, of "bist_itch_handler_D (bist_itch_wire_D m @ r)" m] bist_itch_handler_D_wire [OF w] by blast
  moreover from this have "length (bist_itch_free m' p) \<le> Suc (length (bist_itch_free m' (p\<lparr>bist_itch_pool_D := p1\<rparr>)))" for m'
    using q(2) by (cases m') simp_all
  ultimately show ?thesis using assms(2) B_ITCHOrderDelete by (simp add: bist_itch_dispatch_def bist_itch_ok_def)
next
  case (B_ITCHOrderBookFlush m)
  then have w: "bist_itch_wf_Y m" and q: "pool_ok (bist_itch_pool_Y p)" "free_objects (bist_itch_pool_Y p) = i # js"
    using assms by (simp_all add: bist_itch_ok_def)
  obtain s where "bist_itch_wire_Y m = CHR ''Y'' # s" using bist_itch_wire_Y_shape [OF w] by blast
  moreover obtain p1 where "parse_into (bist_itch_handler_Y (bist_itch_wire_Y m @ r)) (bist_itch_pool_Y p) = Some (i, m, p1)"
    "pool_ok p1" "free_objects p1 = js" "pool_objects p1 = (pool_objects (bist_itch_pool_Y p))(i := m)"
    using parse_into_head [OF q, of "bist_itch_handler_Y (bist_itch_wire_Y m @ r)" m] bist_itch_handler_Y_wire [OF w] by blast
  moreover from this have "length (bist_itch_free m' p) \<le> Suc (length (bist_itch_free m' (p\<lparr>bist_itch_pool_Y := p1\<rparr>)))" for m'
    using q(2) by (cases m') simp_all
  ultimately show ?thesis using assms(2) B_ITCHOrderBookFlush by (simp add: bist_itch_dispatch_def bist_itch_ok_def)
next
  case (B_ITCHTrade m)
  then have w: "bist_itch_wf_P m" and q: "pool_ok (bist_itch_pool_P p)" "free_objects (bist_itch_pool_P p) = i # js" and z: "biP_order_id (pool_objects (bist_itch_pool_P p) i) = 0" and zm: "biP_order_id m = 0"
    using assms by (simp_all add: bist_itch_ok_def bist_itch_wf_P_def)
  obtain s where "bist_itch_wire_P m = CHR ''P'' # s" using bist_itch_wire_P_shape [OF w] by blast
  moreover obtain p1 where "parse_into (bist_itch_handler_P (bist_itch_wire_P m @ r)) (bist_itch_pool_P p) = Some (i, m, p1)"
    "pool_ok p1" "free_objects p1 = js" "pool_objects p1 = (pool_objects (bist_itch_pool_P p))(i := m)"
    using parse_into_head [OF q, of "bist_itch_handler_P (bist_itch_wire_P m @ r)" m] bist_itch_handler_P_wire [OF w z] by blast
  moreover from this have "length (bist_itch_free m' p) \<le> Suc (length (bist_itch_free m' (p\<lparr>bist_itch_pool_P := p1\<rparr>)))" for m'
    using q(2) by (cases m') simp_all
  ultimately show ?thesis using assms(2) B_ITCHTrade by (simp add: bist_itch_dispatch_def bist_itch_ok_def zm)
next
  case (B_ITCHEquilibriumPriceUpdate m)
  then have w: "bist_itch_wf_Z m" and q: "pool_ok (bist_itch_pool_Z p)" "free_objects (bist_itch_pool_Z p) = i # js"
    using assms by (simp_all add: bist_itch_ok_def)
  obtain s where "bist_itch_wire_Z m = CHR ''Z'' # s" using bist_itch_wire_Z_shape [OF w] by blast
  moreover obtain p1 where "parse_into (bist_itch_handler_Z (bist_itch_wire_Z m @ r)) (bist_itch_pool_Z p) = Some (i, m, p1)"
    "pool_ok p1" "free_objects p1 = js" "pool_objects p1 = (pool_objects (bist_itch_pool_Z p))(i := m)"
    using parse_into_head [OF q, of "bist_itch_handler_Z (bist_itch_wire_Z m @ r)" m] bist_itch_handler_Z_wire [OF w] by blast
  moreover from this have "length (bist_itch_free m' p) \<le> Suc (length (bist_itch_free m' (p\<lparr>bist_itch_pool_Z := p1\<rparr>)))" for m'
    using q(2) by (cases m') simp_all
  ultimately show ?thesis using assms(2) B_ITCHEquilibriumPriceUpdate by (simp add: bist_itch_dispatch_def bist_itch_ok_def)
qed

lemma bist_itch_parse_wire:
  assumes "bist_itch_wf msg" "bist_itch_ok p" "bist_itch_free msg p = i # js" "length h = 0"
  shows "\<exists>p'. bist_itch_parse (h @ bist_itch_wire msg @ r) p = Some (Some (i, msg), p')
    \<and> bist_itch_ok p' \<and> bist_itch_free msg p' = js \<and> (\<forall>m. length (bist_itch_free m p) \<le> Suc (length (bist_itch_free m p')))"
proof -
  obtain c s where w: "bist_itch_wire msg = c # s" "bist_itch_index c \<noteq> 99"
    using assms(1) by (cases msg) (auto dest!: bist_itch_wire_T_shape bist_itch_wire_R_shape bist_itch_wire_M_shape bist_itch_wire_L_shape bist_itch_wire_V_shape bist_itch_wire_S_shape bist_itch_wire_O_shape bist_itch_wire_A_shape bist_itch_wire_E_shape bist_itch_wire_C_shape bist_itch_wire_D_shape bist_itch_wire_Y_shape bist_itch_wire_P_shape bist_itch_wire_Z_shape)
  then show ?thesis
    using bist_itch_dispatch_wire [OF assms(1-3), of r] assms(4) by (auto simp: bist_itch_parse_def read_front)
qed

interpretation bist_itch: wire_parser bist_itch_parse bist_itch_wire bist_itch_wf bist_itch_ok bist_itch_free 0
  by unfold_locales (use bist_itch_parse_wire in blast)

lemma bist_itch_wire_size:
  assumes "bist_itch_wf m"
  shows "\<exists>c s. bist_itch_wire m = c # s \<and> nth_opt bist_itch_sizes (bist_itch_index c) = Some (length (bist_itch_wire m))"
  using assms by (cases m) (auto simp: bist_itch_sizes_def nth_opt_def dest!: bist_itch_wire_T_shape bist_itch_wire_R_shape bist_itch_wire_M_shape bist_itch_wire_L_shape bist_itch_wire_V_shape bist_itch_wire_S_shape bist_itch_wire_O_shape bist_itch_wire_A_shape bist_itch_wire_E_shape bist_itch_wire_C_shape bist_itch_wire_D_shape bist_itch_wire_Y_shape bist_itch_wire_P_shape bist_itch_wire_Z_shape)

interpretation bist_itch_split: itch_wire bist_itch_index bist_itch_sizes bist_itch_wire bist_itch_wf
  by unfold_locales (rule bist_itch_wire_size)

end
