(* ===== verification/Itch_Parser_NASDAQ.thy ===== *)
theory Itch_Parser_NASDAQ
  imports Message_Pools
begin

text \<open>
  The ITCH parser of NASDAQ: src/src/protocol/parsers/ITCH/Parser_ITCH_NASDAQ.cpp and its header.  Every handler decodes one message
  type into an object of the pool of that type.  The layout is the one src/generated/GeneratedITCHMessages_NASDAQ.h
  documents, and the lemmas show that every handler decodes it.
\<close>

subsection \<open>The handlers\<close>

text \<open>One definition per entry of \<^verbatim>\<open>makeMessageHandlersLookup\<close>, with the assignments in the order of
  the code; fields that a handler does not assign keep the value of the pooled object.\<close>

definition nasdaq_itch_handler_A :: "string \<Rightarrow> NASDAQ_ITCHAddOrderMessage \<Rightarrow> NASDAQ_ITCHAddOrderMessage option" where
  "nasdaq_itch_handler_A data m = do {
     timestamp' \<leftarrow> read_u48_be (drop 5 data);
     order_ref' \<leftarrow> read_u64_be (drop 11 data);
     shares' \<leftarrow> read_u32_be (drop 20 data);
     price' \<leftarrow> read_u32_be (drop 32 data);
     stock_locate' \<leftarrow> read_u16_be (drop 1 data);
     tracking_number' \<leftarrow> read_u16_be (drop 3 data);
     message_type' \<leftarrow> read_char data;
     side' \<leftarrow> read_char (drop 19 data);
     stock' \<leftarrow> read_bytes 8 (drop 24 data);
     Some (m\<lparr>niA_timestamp := timestamp', niA_order_ref := order_ref', niA_shares := shares',
            niA_price := price', niA_stock_locate := stock_locate',
            niA_tracking_number := tracking_number', niA_message_type := message_type', niA_side := side',
            niA_stock := stock'\<rparr>) }"

definition nasdaq_itch_handler_F :: "string \<Rightarrow> NASDAQ_ITCHAddOrderMPIDMessage \<Rightarrow> NASDAQ_ITCHAddOrderMPIDMessage option" where
  "nasdaq_itch_handler_F data m = do {
     timestamp' \<leftarrow> read_u48_be (drop 5 data);
     order_ref' \<leftarrow> read_u64_be (drop 11 data);
     shares' \<leftarrow> read_u32_be (drop 20 data);
     price' \<leftarrow> read_u32_be (drop 32 data);
     stock_locate' \<leftarrow> read_u16_be (drop 1 data);
     tracking_number' \<leftarrow> read_u16_be (drop 3 data);
     message_type' \<leftarrow> read_char data;
     side' \<leftarrow> read_char (drop 19 data);
     stock' \<leftarrow> read_bytes 8 (drop 24 data);
     mpid' \<leftarrow> read_bytes 4 (drop 36 data);
     Some (m\<lparr>niF_timestamp := timestamp', niF_order_ref := order_ref', niF_shares := shares',
            niF_price := price', niF_stock_locate := stock_locate',
            niF_tracking_number := tracking_number', niF_message_type := message_type', niF_side := side',
            niF_stock := stock', niF_mpid := mpid'\<rparr>) }"

definition nasdaq_itch_handler_X :: "string \<Rightarrow> NASDAQ_ITCHCancelMessage \<Rightarrow> NASDAQ_ITCHCancelMessage option" where
  "nasdaq_itch_handler_X data m = do {
     timestamp' \<leftarrow> read_u48_be (drop 5 data);
     order_ref' \<leftarrow> read_u64_be (drop 11 data);
     cancelled_shares' \<leftarrow> read_u32_be (drop 19 data);
     stock_locate' \<leftarrow> read_u16_be (drop 1 data);
     tracking_number' \<leftarrow> read_u16_be (drop 3 data);
     message_type' \<leftarrow> read_char data;
     Some (m\<lparr>niX_timestamp := timestamp', niX_order_ref := order_ref',
            niX_cancelled_shares := cancelled_shares', niX_stock_locate := stock_locate',
            niX_tracking_number := tracking_number', niX_message_type := message_type'\<rparr>) }"

definition nasdaq_itch_handler_E :: "string \<Rightarrow> NASDAQ_ITCHExecutedMessage \<Rightarrow> NASDAQ_ITCHExecutedMessage option" where
  "nasdaq_itch_handler_E data m = do {
     timestamp' \<leftarrow> read_u48_be (drop 5 data);
     order_ref' \<leftarrow> read_u64_be (drop 11 data);
     match_number' \<leftarrow> read_u64_be (drop 23 data);
     executed_shares' \<leftarrow> read_u32_be (drop 19 data);
     stock_locate' \<leftarrow> read_u16_be (drop 1 data);
     tracking_number' \<leftarrow> read_u16_be (drop 3 data);
     message_type' \<leftarrow> read_char data;
     Some (m\<lparr>niE_timestamp := timestamp', niE_order_ref := order_ref',
            niE_match_number := match_number', niE_executed_shares := executed_shares',
            niE_stock_locate := stock_locate', niE_tracking_number := tracking_number',
            niE_message_type := message_type'\<rparr>) }"

definition nasdaq_itch_handler_C :: "string \<Rightarrow> NASDAQ_ITCHExecutedWithPriceMessage \<Rightarrow> NASDAQ_ITCHExecutedWithPriceMessage option" where
  "nasdaq_itch_handler_C data m = do {
     timestamp' \<leftarrow> read_u48_be (drop 5 data);
     order_ref' \<leftarrow> read_u64_be (drop 11 data);
     match_number' \<leftarrow> read_u64_be (drop 23 data);
     executed_shares' \<leftarrow> read_u32_be (drop 19 data);
     execution_price' \<leftarrow> read_u32_be (drop 32 data);
     stock_locate' \<leftarrow> read_u16_be (drop 1 data);
     tracking_number' \<leftarrow> read_u16_be (drop 3 data);
     message_type' \<leftarrow> read_char data;
     printable' \<leftarrow> read_char (drop 31 data);
     Some (m\<lparr>niC_timestamp := timestamp', niC_order_ref := order_ref',
            niC_match_number := match_number', niC_executed_shares := executed_shares',
            niC_execution_price := execution_price', niC_stock_locate := stock_locate',
            niC_tracking_number := tracking_number', niC_message_type := message_type',
            niC_printable := printable'\<rparr>) }"

definition nasdaq_itch_handler_D :: "string \<Rightarrow> NASDAQ_ITCHDeleteMessage \<Rightarrow> NASDAQ_ITCHDeleteMessage option" where
  "nasdaq_itch_handler_D data m = do {
     timestamp' \<leftarrow> read_u48_be (drop 5 data);
     order_ref' \<leftarrow> read_u64_be (drop 11 data);
     stock_locate' \<leftarrow> read_u16_be (drop 1 data);
     tracking_number' \<leftarrow> read_u16_be (drop 3 data);
     message_type' \<leftarrow> read_char data;
     Some (m\<lparr>niD_timestamp := timestamp', niD_order_ref := order_ref',
            niD_stock_locate := stock_locate', niD_tracking_number := tracking_number',
            niD_message_type := message_type'\<rparr>) }"

definition nasdaq_itch_handler_U :: "string \<Rightarrow> NASDAQ_ITCHReplaceMessage \<Rightarrow> NASDAQ_ITCHReplaceMessage option" where
  "nasdaq_itch_handler_U data m = do {
     timestamp' \<leftarrow> read_u48_be (drop 5 data);
     order_ref' \<leftarrow> read_u64_be (drop 11 data);
     new_order_ref' \<leftarrow> read_u64_be (drop 19 data);
     shares' \<leftarrow> read_u32_be (drop 27 data);
     price' \<leftarrow> read_u32_be (drop 31 data);
     stock_locate' \<leftarrow> read_u16_be (drop 1 data);
     tracking_number' \<leftarrow> read_u16_be (drop 3 data);
     message_type' \<leftarrow> read_char data;
     Some (m\<lparr>niU_timestamp := timestamp', niU_order_ref := order_ref',
            niU_new_order_ref := new_order_ref', niU_shares := shares', niU_price := price',
            niU_stock_locate := stock_locate', niU_tracking_number := tracking_number',
            niU_message_type := message_type'\<rparr>) }"

definition nasdaq_itch_handler_P :: "string \<Rightarrow> NASDAQ_ITCHTradeMessage \<Rightarrow> NASDAQ_ITCHTradeMessage option" where
  "nasdaq_itch_handler_P data m = do {
     timestamp' \<leftarrow> read_u48_be (drop 5 data);
     order_ref' \<leftarrow> read_u64_be (drop 11 data);
     match_number' \<leftarrow> read_u64_be (drop 28 data);
     shares' \<leftarrow> read_u32_be (drop 20 data);
     price' \<leftarrow> read_u32_be (drop 24 data);
     stock_locate' \<leftarrow> read_u16_be (drop 1 data);
     tracking_number' \<leftarrow> read_u16_be (drop 3 data);
     message_type' \<leftarrow> read_char data;
     side' \<leftarrow> read_char (drop 19 data);
     cross_type' \<leftarrow> read_char (drop 36 data);
     Some (m\<lparr>niP_timestamp := timestamp', niP_order_ref := order_ref',
            niP_match_number := match_number', niP_shares := shares', niP_price := price',
            niP_stock_locate := stock_locate', niP_tracking_number := tracking_number',
            niP_message_type := message_type', niP_side := side', niP_cross_type := cross_type'\<rparr>) }"

definition nasdaq_itch_handler_S :: "string \<Rightarrow> NASDAQ_ITCHSystemEventMessage \<Rightarrow> NASDAQ_ITCHSystemEventMessage option" where
  "nasdaq_itch_handler_S data m = do {
     timestamp' \<leftarrow> read_u48_be (drop 5 data);
     stock_locate' \<leftarrow> read_u16_be (drop 1 data);
     tracking_number' \<leftarrow> read_u16_be (drop 3 data);
     message_type' \<leftarrow> read_char data;
     event_code' \<leftarrow> read_char (drop 11 data);
     Some (m\<lparr>niS_timestamp := timestamp', niS_stock_locate := stock_locate',
            niS_tracking_number := tracking_number', niS_message_type := message_type',
            niS_event_code := event_code'\<rparr>) }"

definition nasdaq_itch_handler_R :: "string \<Rightarrow> NASDAQ_ITCHStockDirectoryMessage \<Rightarrow> NASDAQ_ITCHStockDirectoryMessage option" where
  "nasdaq_itch_handler_R data m = do {
     timestamp' \<leftarrow> read_u48_be (drop 5 data);
     round_lot_size' \<leftarrow> read_u32_be (drop 21 data);
     etp_leverage_factor' \<leftarrow> read_u32_be (drop 34 data);
     stock_locate' \<leftarrow> read_u16_be (drop 1 data);
     tracking_number' \<leftarrow> read_u16_be (drop 3 data);
     message_type' \<leftarrow> read_char data;
     stock' \<leftarrow> read_bytes 8 (drop 11 data);
     market_category' \<leftarrow> read_char (drop 19 data);
     financial_status_indicator' \<leftarrow> read_char (drop 20 data);
     round_lots_only' \<leftarrow> read_char (drop 25 data);
     issue_classification' \<leftarrow> read_char (drop 26 data);
     issue_sub_type' \<leftarrow> read_bytes 2 (drop 27 data);
     authenticity' \<leftarrow> read_char (drop 29 data);
     short_sale_threshold_indicator' \<leftarrow> read_char (drop 30 data);
     ipo_flag' \<leftarrow> read_char (drop 31 data);
     luld_reference_price_tier' \<leftarrow> read_char (drop 32 data);
     etp_flag' \<leftarrow> read_char (drop 33 data);
     inverse_indicator' \<leftarrow> read_char (drop 38 data);
     Some (m\<lparr>niR_timestamp := timestamp', niR_round_lot_size := round_lot_size',
            niR_etp_leverage_factor := etp_leverage_factor', niR_stock_locate := stock_locate',
            niR_tracking_number := tracking_number', niR_message_type := message_type',
            niR_stock := stock', niR_market_category := market_category',
            niR_financial_status_indicator := financial_status_indicator',
            niR_round_lots_only := round_lots_only', niR_issue_classification := issue_classification',
            niR_issue_sub_type := issue_sub_type', niR_authenticity := authenticity',
            niR_short_sale_threshold_indicator := short_sale_threshold_indicator',
            niR_ipo_flag := ipo_flag', niR_luld_reference_price_tier := luld_reference_price_tier',
            niR_etp_flag := etp_flag', niR_inverse_indicator := inverse_indicator'\<rparr>) }"

definition nasdaq_itch_handler_H :: "string \<Rightarrow> NASDAQ_ITCHTradingStateMessage \<Rightarrow> NASDAQ_ITCHTradingStateMessage option" where
  "nasdaq_itch_handler_H data m = do {
     timestamp' \<leftarrow> read_u48_be (drop 5 data);
     stock_locate' \<leftarrow> read_u16_be (drop 1 data);
     tracking_number' \<leftarrow> read_u16_be (drop 3 data);
     message_type' \<leftarrow> read_char data;
     stock' \<leftarrow> read_bytes 8 (drop 11 data);
     trading_state' \<leftarrow> read_char (drop 19 data);
     reserved' \<leftarrow> read_char (drop 20 data);
     reason' \<leftarrow> read_bytes 4 (drop 21 data);
     Some (m\<lparr>niH_timestamp := timestamp', niH_stock_locate := stock_locate',
            niH_tracking_number := tracking_number', niH_message_type := message_type',
            niH_stock := stock', niH_trading_state := trading_state', niH_reserved := reserved',
            niH_reason := reason'\<rparr>) }"

subsection \<open>The parser\<close>

record Parser_ITCH_NASDAQ =
  nasdaq_itch_pool_A :: "NASDAQ_ITCHAddOrderMessage msgpool"
  nasdaq_itch_pool_F :: "NASDAQ_ITCHAddOrderMPIDMessage msgpool"
  nasdaq_itch_pool_X :: "NASDAQ_ITCHCancelMessage msgpool"
  nasdaq_itch_pool_E :: "NASDAQ_ITCHExecutedMessage msgpool"
  nasdaq_itch_pool_C :: "NASDAQ_ITCHExecutedWithPriceMessage msgpool"
  nasdaq_itch_pool_D :: "NASDAQ_ITCHDeleteMessage msgpool"
  nasdaq_itch_pool_U :: "NASDAQ_ITCHReplaceMessage msgpool"
  nasdaq_itch_pool_P :: "NASDAQ_ITCHTradeMessage msgpool"
  nasdaq_itch_pool_S :: "NASDAQ_ITCHSystemEventMessage msgpool"
  nasdaq_itch_pool_R :: "NASDAQ_ITCHStockDirectoryMessage msgpool"
  nasdaq_itch_pool_H :: "NASDAQ_ITCHTradingStateMessage msgpool"

definition nasdaq_itch_index :: "char \<Rightarrow> nat" where
  "nasdaq_itch_index c =
     (if c = CHR ''A'' then 0
      else if c = CHR ''F'' then 1
      else if c = CHR ''X'' then 2
      else if c = CHR ''E'' then 3
      else if c = CHR ''C'' then 4
      else if c = CHR ''D'' then 5
      else if c = CHR ''U'' then 6
      else if c = CHR ''P'' then 7
      else if c = CHR ''S'' then 8
      else if c = CHR ''R'' then 9
      else if c = CHR ''H'' then 10
      else 99)"

definition nasdaq_itch_sizes :: "nat list" where
  "nasdaq_itch_sizes = [36, 40, 23, 31, 36, 19, 35, 37, 12, 39, 25]"

text \<open>The call through the table of handlers.  The result is the index of the object in its pool with its
  contents.\<close>

definition nasdaq_itch_dispatch :: "nat \<Rightarrow> string \<Rightarrow> Parser_ITCH_NASDAQ \<Rightarrow> ((nat \<times> NASDAQ_ITCHMessage) \<times> Parser_ITCH_NASDAQ) option" where
  "nasdaq_itch_dispatch index data p =
     (if index = 0 then map_option (\<lambda>(i, m, q). ((i, N_ITCHAddOrder m), p\<lparr>nasdaq_itch_pool_A := q\<rparr>))
        (parse_into (nasdaq_itch_handler_A data) (nasdaq_itch_pool_A p))
      else if index = 1 then map_option (\<lambda>(i, m, q). ((i, N_ITCHAddOrderMPID m), p\<lparr>nasdaq_itch_pool_F := q\<rparr>))
        (parse_into (nasdaq_itch_handler_F data) (nasdaq_itch_pool_F p))
      else if index = 2 then map_option (\<lambda>(i, m, q). ((i, N_ITCHCancel m), p\<lparr>nasdaq_itch_pool_X := q\<rparr>))
        (parse_into (nasdaq_itch_handler_X data) (nasdaq_itch_pool_X p))
      else if index = 3 then map_option (\<lambda>(i, m, q). ((i, N_ITCHExecuted m), p\<lparr>nasdaq_itch_pool_E := q\<rparr>))
        (parse_into (nasdaq_itch_handler_E data) (nasdaq_itch_pool_E p))
      else if index = 4 then map_option (\<lambda>(i, m, q). ((i, N_ITCHExecutedWithPrice m), p\<lparr>nasdaq_itch_pool_C := q\<rparr>))
        (parse_into (nasdaq_itch_handler_C data) (nasdaq_itch_pool_C p))
      else if index = 5 then map_option (\<lambda>(i, m, q). ((i, N_ITCHDelete m), p\<lparr>nasdaq_itch_pool_D := q\<rparr>))
        (parse_into (nasdaq_itch_handler_D data) (nasdaq_itch_pool_D p))
      else if index = 6 then map_option (\<lambda>(i, m, q). ((i, N_ITCHReplace m), p\<lparr>nasdaq_itch_pool_U := q\<rparr>))
        (parse_into (nasdaq_itch_handler_U data) (nasdaq_itch_pool_U p))
      else if index = 7 then map_option (\<lambda>(i, m, q). ((i, N_ITCHTrade m), p\<lparr>nasdaq_itch_pool_P := q\<rparr>))
        (parse_into (nasdaq_itch_handler_P data) (nasdaq_itch_pool_P p))
      else if index = 8 then map_option (\<lambda>(i, m, q). ((i, N_ITCHSystemEvent m), p\<lparr>nasdaq_itch_pool_S := q\<rparr>))
        (parse_into (nasdaq_itch_handler_S data) (nasdaq_itch_pool_S p))
      else if index = 9 then map_option (\<lambda>(i, m, q). ((i, N_ITCHStockDirectory m), p\<lparr>nasdaq_itch_pool_R := q\<rparr>))
        (parse_into (nasdaq_itch_handler_R data) (nasdaq_itch_pool_R p))
      else if index = 10 then map_option (\<lambda>(i, m, q). ((i, N_ITCHTradingState m), p\<lparr>nasdaq_itch_pool_H := q\<rparr>))
        (parse_into (nasdaq_itch_handler_H data) (nasdaq_itch_pool_H p))
      else None)"

text \<open>\<^verbatim>\<open>parse\<close>: an unknown type leaves the variant with the null pointer of its first alternative, here
  \<open>None\<close>.\<close>

definition nasdaq_itch_parse :: "string \<Rightarrow> Parser_ITCH_NASDAQ \<Rightarrow> ((nat \<times> NASDAQ_ITCHMessage) option \<times> Parser_ITCH_NASDAQ) option" where
  "nasdaq_itch_parse data p = do {
     c \<leftarrow> read_char data;
     if nasdaq_itch_index c \<noteq> 99
     then map_option (\<lambda>(r, p'). (Some r, p')) (nasdaq_itch_dispatch (nasdaq_itch_index c) data p)
     else Some (None, p) }"

definition nasdaq_itch_release :: "nat \<times> NASDAQ_ITCHMessage \<Rightarrow> Parser_ITCH_NASDAQ \<Rightarrow> Parser_ITCH_NASDAQ" where
  "nasdaq_itch_release r p =
     (case snd r of
        N_ITCHAddOrder _ \<Rightarrow> p\<lparr>nasdaq_itch_pool_A := pool_put (fst r) (nasdaq_itch_pool_A p)\<rparr>
      | N_ITCHAddOrderMPID _ \<Rightarrow> p\<lparr>nasdaq_itch_pool_F := pool_put (fst r) (nasdaq_itch_pool_F p)\<rparr>
      | N_ITCHCancel _ \<Rightarrow> p\<lparr>nasdaq_itch_pool_X := pool_put (fst r) (nasdaq_itch_pool_X p)\<rparr>
      | N_ITCHExecuted _ \<Rightarrow> p\<lparr>nasdaq_itch_pool_E := pool_put (fst r) (nasdaq_itch_pool_E p)\<rparr>
      | N_ITCHExecutedWithPrice _ \<Rightarrow> p\<lparr>nasdaq_itch_pool_C := pool_put (fst r) (nasdaq_itch_pool_C p)\<rparr>
      | N_ITCHDelete _ \<Rightarrow> p\<lparr>nasdaq_itch_pool_D := pool_put (fst r) (nasdaq_itch_pool_D p)\<rparr>
      | N_ITCHReplace _ \<Rightarrow> p\<lparr>nasdaq_itch_pool_U := pool_put (fst r) (nasdaq_itch_pool_U p)\<rparr>
      | N_ITCHTrade _ \<Rightarrow> p\<lparr>nasdaq_itch_pool_P := pool_put (fst r) (nasdaq_itch_pool_P p)\<rparr>
      | N_ITCHSystemEvent _ \<Rightarrow> p\<lparr>nasdaq_itch_pool_S := pool_put (fst r) (nasdaq_itch_pool_S p)\<rparr>
      | N_ITCHStockDirectory _ \<Rightarrow> p\<lparr>nasdaq_itch_pool_R := pool_put (fst r) (nasdaq_itch_pool_R p)\<rparr>
      | N_ITCHTradingState _ \<Rightarrow> p\<lparr>nasdaq_itch_pool_H := pool_put (fst r) (nasdaq_itch_pool_H p)\<rparr>)"

subsection \<open>The documented layout\<close>

text \<open>The offsets and lengths that src/generated/GeneratedITCHMessages_NASDAQ.h documents for the fields, as an encoder: the fields in
  the order of their offsets, numbers in network byte order.\<close>

definition nasdaq_itch_wire_A :: "NASDAQ_ITCHAddOrderMessage \<Rightarrow> string" where
  "nasdaq_itch_wire_A m =
     [niA_message_type m] @ bytes_u16_be (niA_stock_locate m) @ bytes_u16_be (niA_tracking_number m) @
     bytes_u48_be (niA_timestamp m) @ bytes_u64_be (niA_order_ref m) @ [niA_side m] @
     bytes_u32_be (niA_shares m) @ niA_stock m @ bytes_u32_be (niA_price m)"

definition nasdaq_itch_wf_A :: "NASDAQ_ITCHAddOrderMessage \<Rightarrow> bool" where
  "nasdaq_itch_wf_A m \<longleftrightarrow> niA_message_type m = CHR ''A''
     \<and> take_bit 48 (niA_timestamp m) = niA_timestamp m
     \<and> length (niA_stock m) = 8"

lemma nasdaq_itch_handler_A_wire:
  "nasdaq_itch_wf_A m \<Longrightarrow> nasdaq_itch_handler_A (nasdaq_itch_wire_A m @ r) m0 = Some m"
  by (cases m, cases m0) (simp add: nasdaq_itch_handler_A_def nasdaq_itch_wire_A_def nasdaq_itch_wf_A_def wire_simps)

lemma nasdaq_itch_wire_A_shape:
  "nasdaq_itch_wf_A m \<Longrightarrow> \<exists>s. nasdaq_itch_wire_A m = CHR ''A'' # s \<and> length s = 35"
  by (simp add: nasdaq_itch_wire_A_def nasdaq_itch_wf_A_def)

definition nasdaq_itch_wire_F :: "NASDAQ_ITCHAddOrderMPIDMessage \<Rightarrow> string" where
  "nasdaq_itch_wire_F m =
     [niF_message_type m] @ bytes_u16_be (niF_stock_locate m) @ bytes_u16_be (niF_tracking_number m) @
     bytes_u48_be (niF_timestamp m) @ bytes_u64_be (niF_order_ref m) @ [niF_side m] @
     bytes_u32_be (niF_shares m) @ niF_stock m @ bytes_u32_be (niF_price m) @ niF_mpid m"

definition nasdaq_itch_wf_F :: "NASDAQ_ITCHAddOrderMPIDMessage \<Rightarrow> bool" where
  "nasdaq_itch_wf_F m \<longleftrightarrow> niF_message_type m = CHR ''F''
     \<and> take_bit 48 (niF_timestamp m) = niF_timestamp m
     \<and> length (niF_stock m) = 8
     \<and> length (niF_mpid m) = 4"

lemma nasdaq_itch_handler_F_wire:
  "nasdaq_itch_wf_F m \<Longrightarrow> nasdaq_itch_handler_F (nasdaq_itch_wire_F m @ r) m0 = Some m"
  by (cases m, cases m0) (simp add: nasdaq_itch_handler_F_def nasdaq_itch_wire_F_def nasdaq_itch_wf_F_def wire_simps)

lemma nasdaq_itch_wire_F_shape:
  "nasdaq_itch_wf_F m \<Longrightarrow> \<exists>s. nasdaq_itch_wire_F m = CHR ''F'' # s \<and> length s = 39"
  by (simp add: nasdaq_itch_wire_F_def nasdaq_itch_wf_F_def)

definition nasdaq_itch_wire_X :: "NASDAQ_ITCHCancelMessage \<Rightarrow> string" where
  "nasdaq_itch_wire_X m =
     [niX_message_type m] @ bytes_u16_be (niX_stock_locate m) @ bytes_u16_be (niX_tracking_number m) @
     bytes_u48_be (niX_timestamp m) @ bytes_u64_be (niX_order_ref m) @
     bytes_u32_be (niX_cancelled_shares m)"

definition nasdaq_itch_wf_X :: "NASDAQ_ITCHCancelMessage \<Rightarrow> bool" where
  "nasdaq_itch_wf_X m \<longleftrightarrow> niX_message_type m = CHR ''X''
     \<and> take_bit 48 (niX_timestamp m) = niX_timestamp m"

lemma nasdaq_itch_handler_X_wire:
  "nasdaq_itch_wf_X m \<Longrightarrow> nasdaq_itch_handler_X (nasdaq_itch_wire_X m @ r) m0 = Some m"
  by (cases m, cases m0) (simp add: nasdaq_itch_handler_X_def nasdaq_itch_wire_X_def nasdaq_itch_wf_X_def wire_simps)

lemma nasdaq_itch_wire_X_shape:
  "nasdaq_itch_wf_X m \<Longrightarrow> \<exists>s. nasdaq_itch_wire_X m = CHR ''X'' # s \<and> length s = 22"
  by (simp add: nasdaq_itch_wire_X_def nasdaq_itch_wf_X_def)

definition nasdaq_itch_wire_E :: "NASDAQ_ITCHExecutedMessage \<Rightarrow> string" where
  "nasdaq_itch_wire_E m =
     [niE_message_type m] @ bytes_u16_be (niE_stock_locate m) @ bytes_u16_be (niE_tracking_number m) @
     bytes_u48_be (niE_timestamp m) @ bytes_u64_be (niE_order_ref m) @
     bytes_u32_be (niE_executed_shares m) @ bytes_u64_be (niE_match_number m)"

definition nasdaq_itch_wf_E :: "NASDAQ_ITCHExecutedMessage \<Rightarrow> bool" where
  "nasdaq_itch_wf_E m \<longleftrightarrow> niE_message_type m = CHR ''E''
     \<and> take_bit 48 (niE_timestamp m) = niE_timestamp m"

lemma nasdaq_itch_handler_E_wire:
  "nasdaq_itch_wf_E m \<Longrightarrow> nasdaq_itch_handler_E (nasdaq_itch_wire_E m @ r) m0 = Some m"
  by (cases m, cases m0) (simp add: nasdaq_itch_handler_E_def nasdaq_itch_wire_E_def nasdaq_itch_wf_E_def wire_simps)

lemma nasdaq_itch_wire_E_shape:
  "nasdaq_itch_wf_E m \<Longrightarrow> \<exists>s. nasdaq_itch_wire_E m = CHR ''E'' # s \<and> length s = 30"
  by (simp add: nasdaq_itch_wire_E_def nasdaq_itch_wf_E_def)

definition nasdaq_itch_wire_C :: "NASDAQ_ITCHExecutedWithPriceMessage \<Rightarrow> string" where
  "nasdaq_itch_wire_C m =
     [niC_message_type m] @ bytes_u16_be (niC_stock_locate m) @ bytes_u16_be (niC_tracking_number m) @
     bytes_u48_be (niC_timestamp m) @ bytes_u64_be (niC_order_ref m) @
     bytes_u32_be (niC_executed_shares m) @ bytes_u64_be (niC_match_number m) @ [niC_printable m] @
     bytes_u32_be (niC_execution_price m)"

definition nasdaq_itch_wf_C :: "NASDAQ_ITCHExecutedWithPriceMessage \<Rightarrow> bool" where
  "nasdaq_itch_wf_C m \<longleftrightarrow> niC_message_type m = CHR ''C''
     \<and> take_bit 48 (niC_timestamp m) = niC_timestamp m"

lemma nasdaq_itch_handler_C_wire:
  "nasdaq_itch_wf_C m \<Longrightarrow> nasdaq_itch_handler_C (nasdaq_itch_wire_C m @ r) m0 = Some m"
  by (cases m, cases m0) (simp add: nasdaq_itch_handler_C_def nasdaq_itch_wire_C_def nasdaq_itch_wf_C_def wire_simps)

lemma nasdaq_itch_wire_C_shape:
  "nasdaq_itch_wf_C m \<Longrightarrow> \<exists>s. nasdaq_itch_wire_C m = CHR ''C'' # s \<and> length s = 35"
  by (simp add: nasdaq_itch_wire_C_def nasdaq_itch_wf_C_def)

definition nasdaq_itch_wire_D :: "NASDAQ_ITCHDeleteMessage \<Rightarrow> string" where
  "nasdaq_itch_wire_D m =
     [niD_message_type m] @ bytes_u16_be (niD_stock_locate m) @ bytes_u16_be (niD_tracking_number m) @
     bytes_u48_be (niD_timestamp m) @ bytes_u64_be (niD_order_ref m)"

definition nasdaq_itch_wf_D :: "NASDAQ_ITCHDeleteMessage \<Rightarrow> bool" where
  "nasdaq_itch_wf_D m \<longleftrightarrow> niD_message_type m = CHR ''D''
     \<and> take_bit 48 (niD_timestamp m) = niD_timestamp m"

lemma nasdaq_itch_handler_D_wire:
  "nasdaq_itch_wf_D m \<Longrightarrow> nasdaq_itch_handler_D (nasdaq_itch_wire_D m @ r) m0 = Some m"
  by (cases m, cases m0) (simp add: nasdaq_itch_handler_D_def nasdaq_itch_wire_D_def nasdaq_itch_wf_D_def wire_simps)

lemma nasdaq_itch_wire_D_shape:
  "nasdaq_itch_wf_D m \<Longrightarrow> \<exists>s. nasdaq_itch_wire_D m = CHR ''D'' # s \<and> length s = 18"
  by (simp add: nasdaq_itch_wire_D_def nasdaq_itch_wf_D_def)

definition nasdaq_itch_wire_U :: "NASDAQ_ITCHReplaceMessage \<Rightarrow> string" where
  "nasdaq_itch_wire_U m =
     [niU_message_type m] @ bytes_u16_be (niU_stock_locate m) @ bytes_u16_be (niU_tracking_number m) @
     bytes_u48_be (niU_timestamp m) @ bytes_u64_be (niU_order_ref m) @
     bytes_u64_be (niU_new_order_ref m) @ bytes_u32_be (niU_shares m) @ bytes_u32_be (niU_price m)"

definition nasdaq_itch_wf_U :: "NASDAQ_ITCHReplaceMessage \<Rightarrow> bool" where
  "nasdaq_itch_wf_U m \<longleftrightarrow> niU_message_type m = CHR ''U''
     \<and> take_bit 48 (niU_timestamp m) = niU_timestamp m"

lemma nasdaq_itch_handler_U_wire:
  "nasdaq_itch_wf_U m \<Longrightarrow> nasdaq_itch_handler_U (nasdaq_itch_wire_U m @ r) m0 = Some m"
  by (cases m, cases m0) (simp add: nasdaq_itch_handler_U_def nasdaq_itch_wire_U_def nasdaq_itch_wf_U_def wire_simps)

lemma nasdaq_itch_wire_U_shape:
  "nasdaq_itch_wf_U m \<Longrightarrow> \<exists>s. nasdaq_itch_wire_U m = CHR ''U'' # s \<and> length s = 34"
  by (simp add: nasdaq_itch_wire_U_def nasdaq_itch_wf_U_def)

definition nasdaq_itch_wire_P :: "NASDAQ_ITCHTradeMessage \<Rightarrow> string" where
  "nasdaq_itch_wire_P m =
     [niP_message_type m] @ bytes_u16_be (niP_stock_locate m) @ bytes_u16_be (niP_tracking_number m) @
     bytes_u48_be (niP_timestamp m) @ bytes_u64_be (niP_order_ref m) @ [niP_side m] @
     bytes_u32_be (niP_shares m) @ bytes_u32_be (niP_price m) @ bytes_u64_be (niP_match_number m) @
     [niP_cross_type m]"

definition nasdaq_itch_wf_P :: "NASDAQ_ITCHTradeMessage \<Rightarrow> bool" where
  "nasdaq_itch_wf_P m \<longleftrightarrow> niP_message_type m = CHR ''P''
     \<and> take_bit 48 (niP_timestamp m) = niP_timestamp m"

lemma nasdaq_itch_handler_P_wire:
  "nasdaq_itch_wf_P m \<Longrightarrow> nasdaq_itch_handler_P (nasdaq_itch_wire_P m @ r) m0 = Some m"
  by (cases m, cases m0) (simp add: nasdaq_itch_handler_P_def nasdaq_itch_wire_P_def nasdaq_itch_wf_P_def wire_simps)

lemma nasdaq_itch_wire_P_shape:
  "nasdaq_itch_wf_P m \<Longrightarrow> \<exists>s. nasdaq_itch_wire_P m = CHR ''P'' # s \<and> length s = 36"
  by (simp add: nasdaq_itch_wire_P_def nasdaq_itch_wf_P_def)

definition nasdaq_itch_wire_S :: "NASDAQ_ITCHSystemEventMessage \<Rightarrow> string" where
  "nasdaq_itch_wire_S m =
     [niS_message_type m] @ bytes_u16_be (niS_stock_locate m) @ bytes_u16_be (niS_tracking_number m) @
     bytes_u48_be (niS_timestamp m) @ [niS_event_code m]"

definition nasdaq_itch_wf_S :: "NASDAQ_ITCHSystemEventMessage \<Rightarrow> bool" where
  "nasdaq_itch_wf_S m \<longleftrightarrow> niS_message_type m = CHR ''S''
     \<and> take_bit 48 (niS_timestamp m) = niS_timestamp m"

lemma nasdaq_itch_handler_S_wire:
  "nasdaq_itch_wf_S m \<Longrightarrow> nasdaq_itch_handler_S (nasdaq_itch_wire_S m @ r) m0 = Some m"
  by (cases m, cases m0) (simp add: nasdaq_itch_handler_S_def nasdaq_itch_wire_S_def nasdaq_itch_wf_S_def wire_simps)

lemma nasdaq_itch_wire_S_shape:
  "nasdaq_itch_wf_S m \<Longrightarrow> \<exists>s. nasdaq_itch_wire_S m = CHR ''S'' # s \<and> length s = 11"
  by (simp add: nasdaq_itch_wire_S_def nasdaq_itch_wf_S_def)

definition nasdaq_itch_wire_R :: "NASDAQ_ITCHStockDirectoryMessage \<Rightarrow> string" where
  "nasdaq_itch_wire_R m =
     [niR_message_type m] @ bytes_u16_be (niR_stock_locate m) @ bytes_u16_be (niR_tracking_number m) @
     bytes_u48_be (niR_timestamp m) @ niR_stock m @ [niR_market_category m] @
     [niR_financial_status_indicator m] @ bytes_u32_be (niR_round_lot_size m) @
     [niR_round_lots_only m] @ [niR_issue_classification m] @ niR_issue_sub_type m @
     [niR_authenticity m] @ [niR_short_sale_threshold_indicator m] @ [niR_ipo_flag m] @
     [niR_luld_reference_price_tier m] @ [niR_etp_flag m] @ bytes_u32_be (niR_etp_leverage_factor m) @
     [niR_inverse_indicator m]"

definition nasdaq_itch_wf_R :: "NASDAQ_ITCHStockDirectoryMessage \<Rightarrow> bool" where
  "nasdaq_itch_wf_R m \<longleftrightarrow> niR_message_type m = CHR ''R''
     \<and> take_bit 48 (niR_timestamp m) = niR_timestamp m
     \<and> length (niR_stock m) = 8
     \<and> length (niR_issue_sub_type m) = 2"

lemma nasdaq_itch_handler_R_wire:
  "nasdaq_itch_wf_R m \<Longrightarrow> nasdaq_itch_handler_R (nasdaq_itch_wire_R m @ r) m0 = Some m"
  by (cases m, cases m0) (simp add: nasdaq_itch_handler_R_def nasdaq_itch_wire_R_def nasdaq_itch_wf_R_def wire_simps)

lemma nasdaq_itch_wire_R_shape:
  "nasdaq_itch_wf_R m \<Longrightarrow> \<exists>s. nasdaq_itch_wire_R m = CHR ''R'' # s \<and> length s = 38"
  by (simp add: nasdaq_itch_wire_R_def nasdaq_itch_wf_R_def)

definition nasdaq_itch_wire_H :: "NASDAQ_ITCHTradingStateMessage \<Rightarrow> string" where
  "nasdaq_itch_wire_H m =
     [niH_message_type m] @ bytes_u16_be (niH_stock_locate m) @ bytes_u16_be (niH_tracking_number m) @
     bytes_u48_be (niH_timestamp m) @ niH_stock m @ [niH_trading_state m] @ [niH_reserved m] @
     niH_reason m"

definition nasdaq_itch_wf_H :: "NASDAQ_ITCHTradingStateMessage \<Rightarrow> bool" where
  "nasdaq_itch_wf_H m \<longleftrightarrow> niH_message_type m = CHR ''H''
     \<and> take_bit 48 (niH_timestamp m) = niH_timestamp m
     \<and> length (niH_stock m) = 8
     \<and> length (niH_reason m) = 4"

lemma nasdaq_itch_handler_H_wire:
  "nasdaq_itch_wf_H m \<Longrightarrow> nasdaq_itch_handler_H (nasdaq_itch_wire_H m @ r) m0 = Some m"
  by (cases m, cases m0) (simp add: nasdaq_itch_handler_H_def nasdaq_itch_wire_H_def nasdaq_itch_wf_H_def wire_simps)

lemma nasdaq_itch_wire_H_shape:
  "nasdaq_itch_wf_H m \<Longrightarrow> \<exists>s. nasdaq_itch_wire_H m = CHR ''H'' # s \<and> length s = 24"
  by (simp add: nasdaq_itch_wire_H_def nasdaq_itch_wf_H_def)

primrec nasdaq_itch_wire :: "NASDAQ_ITCHMessage \<Rightarrow> string" where
  "nasdaq_itch_wire (N_ITCHAddOrder m) = nasdaq_itch_wire_A m"
| "nasdaq_itch_wire (N_ITCHAddOrderMPID m) = nasdaq_itch_wire_F m"
| "nasdaq_itch_wire (N_ITCHCancel m) = nasdaq_itch_wire_X m"
| "nasdaq_itch_wire (N_ITCHExecuted m) = nasdaq_itch_wire_E m"
| "nasdaq_itch_wire (N_ITCHExecutedWithPrice m) = nasdaq_itch_wire_C m"
| "nasdaq_itch_wire (N_ITCHDelete m) = nasdaq_itch_wire_D m"
| "nasdaq_itch_wire (N_ITCHReplace m) = nasdaq_itch_wire_U m"
| "nasdaq_itch_wire (N_ITCHTrade m) = nasdaq_itch_wire_P m"
| "nasdaq_itch_wire (N_ITCHSystemEvent m) = nasdaq_itch_wire_S m"
| "nasdaq_itch_wire (N_ITCHStockDirectory m) = nasdaq_itch_wire_R m"
| "nasdaq_itch_wire (N_ITCHTradingState m) = nasdaq_itch_wire_H m"

primrec nasdaq_itch_wf :: "NASDAQ_ITCHMessage \<Rightarrow> bool" where
  "nasdaq_itch_wf (N_ITCHAddOrder m) = nasdaq_itch_wf_A m"
| "nasdaq_itch_wf (N_ITCHAddOrderMPID m) = nasdaq_itch_wf_F m"
| "nasdaq_itch_wf (N_ITCHCancel m) = nasdaq_itch_wf_X m"
| "nasdaq_itch_wf (N_ITCHExecuted m) = nasdaq_itch_wf_E m"
| "nasdaq_itch_wf (N_ITCHExecutedWithPrice m) = nasdaq_itch_wf_C m"
| "nasdaq_itch_wf (N_ITCHDelete m) = nasdaq_itch_wf_D m"
| "nasdaq_itch_wf (N_ITCHReplace m) = nasdaq_itch_wf_U m"
| "nasdaq_itch_wf (N_ITCHTrade m) = nasdaq_itch_wf_P m"
| "nasdaq_itch_wf (N_ITCHSystemEvent m) = nasdaq_itch_wf_S m"
| "nasdaq_itch_wf (N_ITCHStockDirectory m) = nasdaq_itch_wf_R m"
| "nasdaq_itch_wf (N_ITCHTradingState m) = nasdaq_itch_wf_H m"

text \<open>The objects still free for the type of a message, and the parser with its pools in order.\<close>

primrec nasdaq_itch_free :: "NASDAQ_ITCHMessage \<Rightarrow> Parser_ITCH_NASDAQ \<Rightarrow> nat list" where
  "nasdaq_itch_free (N_ITCHAddOrder m) p = free_objects (nasdaq_itch_pool_A p)"
| "nasdaq_itch_free (N_ITCHAddOrderMPID m) p = free_objects (nasdaq_itch_pool_F p)"
| "nasdaq_itch_free (N_ITCHCancel m) p = free_objects (nasdaq_itch_pool_X p)"
| "nasdaq_itch_free (N_ITCHExecuted m) p = free_objects (nasdaq_itch_pool_E p)"
| "nasdaq_itch_free (N_ITCHExecutedWithPrice m) p = free_objects (nasdaq_itch_pool_C p)"
| "nasdaq_itch_free (N_ITCHDelete m) p = free_objects (nasdaq_itch_pool_D p)"
| "nasdaq_itch_free (N_ITCHReplace m) p = free_objects (nasdaq_itch_pool_U p)"
| "nasdaq_itch_free (N_ITCHTrade m) p = free_objects (nasdaq_itch_pool_P p)"
| "nasdaq_itch_free (N_ITCHSystemEvent m) p = free_objects (nasdaq_itch_pool_S p)"
| "nasdaq_itch_free (N_ITCHStockDirectory m) p = free_objects (nasdaq_itch_pool_R p)"
| "nasdaq_itch_free (N_ITCHTradingState m) p = free_objects (nasdaq_itch_pool_H p)"

definition nasdaq_itch_ok :: "Parser_ITCH_NASDAQ \<Rightarrow> bool" where
  "nasdaq_itch_ok p \<longleftrightarrow> pool_ok (nasdaq_itch_pool_A p)
     \<and> pool_ok (nasdaq_itch_pool_F p)
     \<and> pool_ok (nasdaq_itch_pool_X p)
     \<and> pool_ok (nasdaq_itch_pool_E p)
     \<and> pool_ok (nasdaq_itch_pool_C p)
     \<and> pool_ok (nasdaq_itch_pool_D p)
     \<and> pool_ok (nasdaq_itch_pool_U p)
     \<and> pool_ok (nasdaq_itch_pool_P p)
     \<and> pool_ok (nasdaq_itch_pool_S p)
     \<and> pool_ok (nasdaq_itch_pool_R p)
     \<and> pool_ok (nasdaq_itch_pool_H p)"

text \<open>The constructor: the objects have the initial values of their structures, and every pool is initialised.\<close>

definition nasdaq_itch_new :: Parser_ITCH_NASDAQ where
  "nasdaq_itch_new =
     \<lparr>nasdaq_itch_pool_A = new_pool
        \<lparr>niA_timestamp = 0, niA_order_ref = 0, niA_shares = 0, niA_price = 0, niA_stock_locate = 0,
         niA_tracking_number = 0, niA_message_type = CHR ''A'', niA_side = CHR 0x00,
         niA_stock = replicate 8 (CHR 0x00)\<rparr>,
      nasdaq_itch_pool_F = new_pool
        \<lparr>niF_timestamp = 0, niF_order_ref = 0, niF_shares = 0, niF_price = 0, niF_stock_locate = 0,
         niF_tracking_number = 0, niF_message_type = CHR ''F'', niF_side = CHR 0x00,
         niF_stock = replicate 8 (CHR 0x00), niF_mpid = replicate 4 (CHR 0x00)\<rparr>,
      nasdaq_itch_pool_X = new_pool
        \<lparr>niX_timestamp = 0, niX_order_ref = 0, niX_cancelled_shares = 0, niX_stock_locate = 0,
         niX_tracking_number = 0, niX_message_type = CHR ''X''\<rparr>,
      nasdaq_itch_pool_E = new_pool
        \<lparr>niE_timestamp = 0, niE_order_ref = 0, niE_match_number = 0, niE_executed_shares = 0,
         niE_stock_locate = 0, niE_tracking_number = 0, niE_message_type = CHR ''E''\<rparr>,
      nasdaq_itch_pool_C = new_pool
        \<lparr>niC_timestamp = 0, niC_order_ref = 0, niC_match_number = 0, niC_executed_shares = 0,
         niC_execution_price = 0, niC_stock_locate = 0, niC_tracking_number = 0,
         niC_message_type = CHR ''C'', niC_printable = CHR 0x00\<rparr>,
      nasdaq_itch_pool_D = new_pool
        \<lparr>niD_timestamp = 0, niD_order_ref = 0, niD_stock_locate = 0, niD_tracking_number = 0,
         niD_message_type = CHR ''D''\<rparr>,
      nasdaq_itch_pool_U = new_pool
        \<lparr>niU_timestamp = 0, niU_order_ref = 0, niU_new_order_ref = 0, niU_shares = 0, niU_price = 0,
         niU_stock_locate = 0, niU_tracking_number = 0, niU_message_type = CHR ''U''\<rparr>,
      nasdaq_itch_pool_P = new_pool
        \<lparr>niP_timestamp = 0, niP_order_ref = 0, niP_match_number = 0, niP_shares = 0, niP_price = 0,
         niP_stock_locate = 0, niP_tracking_number = 0, niP_message_type = CHR ''P'',
         niP_side = CHR 0x00, niP_cross_type = CHR 0x00\<rparr>,
      nasdaq_itch_pool_S = new_pool
        \<lparr>niS_timestamp = 0, niS_stock_locate = 0, niS_tracking_number = 0,
         niS_message_type = CHR ''S'', niS_event_code = CHR 0x00\<rparr>,
      nasdaq_itch_pool_R = new_pool
        \<lparr>niR_timestamp = 0, niR_round_lot_size = 0, niR_etp_leverage_factor = 0, niR_stock_locate = 0,
         niR_tracking_number = 0, niR_message_type = CHR ''R'', niR_stock = replicate 8 (CHR 0x00),
         niR_market_category = CHR 0x00, niR_financial_status_indicator = CHR 0x00,
         niR_round_lots_only = CHR 0x00, niR_issue_classification = CHR 0x00,
         niR_issue_sub_type = replicate 2 (CHR 0x00), niR_authenticity = CHR 0x00,
         niR_short_sale_threshold_indicator = CHR 0x00, niR_ipo_flag = CHR 0x00,
         niR_luld_reference_price_tier = CHR 0x00, niR_etp_flag = CHR 0x00,
         niR_inverse_indicator = CHR 0x00\<rparr>,
      nasdaq_itch_pool_H = new_pool
        \<lparr>niH_timestamp = 0, niH_stock_locate = 0, niH_tracking_number = 0,
         niH_message_type = CHR ''H'', niH_stock = replicate 8 (CHR 0x00),
         niH_trading_state = CHR ''T'', niH_reserved = CHR 0x00, niH_reason = replicate 4 (CHR 0x00)\<rparr>\<rparr>"

lemma nasdaq_itch_new_ok: "nasdaq_itch_ok nasdaq_itch_new"
  by (simp add: nasdaq_itch_ok_def nasdaq_itch_new_def new_pool_free)

lemma nasdaq_itch_new_free: "nasdaq_itch_free m nasdaq_itch_new = [0..<511]"
  by (cases m) (simp_all add: nasdaq_itch_new_def new_pool_free del: upt_rec_numeral)

lemma nasdaq_itch_index_simps [simp]:
  "nasdaq_itch_index (CHR ''A'') = 0"
  "nasdaq_itch_index (CHR ''F'') = 1"
  "nasdaq_itch_index (CHR ''X'') = 2"
  "nasdaq_itch_index (CHR ''E'') = 3"
  "nasdaq_itch_index (CHR ''C'') = 4"
  "nasdaq_itch_index (CHR ''D'') = 5"
  "nasdaq_itch_index (CHR ''U'') = 6"
  "nasdaq_itch_index (CHR ''P'') = 7"
  "nasdaq_itch_index (CHR ''S'') = 8"
  "nasdaq_itch_index (CHR ''R'') = 9"
  "nasdaq_itch_index (CHR ''H'') = 10"
  by (simp_all add: nasdaq_itch_index_def)

lemma nasdaq_itch_dispatch_wire:
  assumes "nasdaq_itch_wf msg" "nasdaq_itch_ok p" "nasdaq_itch_free msg p = i # js"
  shows "\<exists>p'. nasdaq_itch_dispatch (nasdaq_itch_index (hd (nasdaq_itch_wire msg))) (nasdaq_itch_wire msg @ r) p = Some ((i, msg), p')
    \<and> nasdaq_itch_ok p' \<and> nasdaq_itch_free msg p' = js \<and> (\<forall>m. length (nasdaq_itch_free m p) \<le> Suc (length (nasdaq_itch_free m p')))"
proof (cases msg)
  case (N_ITCHAddOrder m)
  then have w: "nasdaq_itch_wf_A m" and q: "pool_ok (nasdaq_itch_pool_A p)" "free_objects (nasdaq_itch_pool_A p) = i # js"
    using assms by (simp_all add: nasdaq_itch_ok_def)
  obtain s where "nasdaq_itch_wire_A m = CHR ''A'' # s" using nasdaq_itch_wire_A_shape [OF w] by blast
  moreover obtain p1 where "parse_into (nasdaq_itch_handler_A (nasdaq_itch_wire_A m @ r)) (nasdaq_itch_pool_A p) = Some (i, m, p1)"
    "pool_ok p1" "free_objects p1 = js" "pool_objects p1 = (pool_objects (nasdaq_itch_pool_A p))(i := m)"
    using parse_into_head [OF q, of "nasdaq_itch_handler_A (nasdaq_itch_wire_A m @ r)" m] nasdaq_itch_handler_A_wire [OF w] by blast
  moreover from this have "length (nasdaq_itch_free m' p) \<le> Suc (length (nasdaq_itch_free m' (p\<lparr>nasdaq_itch_pool_A := p1\<rparr>)))" for m'
    using q(2) by (cases m') simp_all
  ultimately show ?thesis using assms(2) N_ITCHAddOrder by (simp add: nasdaq_itch_dispatch_def nasdaq_itch_ok_def)
next
  case (N_ITCHAddOrderMPID m)
  then have w: "nasdaq_itch_wf_F m" and q: "pool_ok (nasdaq_itch_pool_F p)" "free_objects (nasdaq_itch_pool_F p) = i # js"
    using assms by (simp_all add: nasdaq_itch_ok_def)
  obtain s where "nasdaq_itch_wire_F m = CHR ''F'' # s" using nasdaq_itch_wire_F_shape [OF w] by blast
  moreover obtain p1 where "parse_into (nasdaq_itch_handler_F (nasdaq_itch_wire_F m @ r)) (nasdaq_itch_pool_F p) = Some (i, m, p1)"
    "pool_ok p1" "free_objects p1 = js" "pool_objects p1 = (pool_objects (nasdaq_itch_pool_F p))(i := m)"
    using parse_into_head [OF q, of "nasdaq_itch_handler_F (nasdaq_itch_wire_F m @ r)" m] nasdaq_itch_handler_F_wire [OF w] by blast
  moreover from this have "length (nasdaq_itch_free m' p) \<le> Suc (length (nasdaq_itch_free m' (p\<lparr>nasdaq_itch_pool_F := p1\<rparr>)))" for m'
    using q(2) by (cases m') simp_all
  ultimately show ?thesis using assms(2) N_ITCHAddOrderMPID by (simp add: nasdaq_itch_dispatch_def nasdaq_itch_ok_def)
next
  case (N_ITCHCancel m)
  then have w: "nasdaq_itch_wf_X m" and q: "pool_ok (nasdaq_itch_pool_X p)" "free_objects (nasdaq_itch_pool_X p) = i # js"
    using assms by (simp_all add: nasdaq_itch_ok_def)
  obtain s where "nasdaq_itch_wire_X m = CHR ''X'' # s" using nasdaq_itch_wire_X_shape [OF w] by blast
  moreover obtain p1 where "parse_into (nasdaq_itch_handler_X (nasdaq_itch_wire_X m @ r)) (nasdaq_itch_pool_X p) = Some (i, m, p1)"
    "pool_ok p1" "free_objects p1 = js" "pool_objects p1 = (pool_objects (nasdaq_itch_pool_X p))(i := m)"
    using parse_into_head [OF q, of "nasdaq_itch_handler_X (nasdaq_itch_wire_X m @ r)" m] nasdaq_itch_handler_X_wire [OF w] by blast
  moreover from this have "length (nasdaq_itch_free m' p) \<le> Suc (length (nasdaq_itch_free m' (p\<lparr>nasdaq_itch_pool_X := p1\<rparr>)))" for m'
    using q(2) by (cases m') simp_all
  ultimately show ?thesis using assms(2) N_ITCHCancel by (simp add: nasdaq_itch_dispatch_def nasdaq_itch_ok_def)
next
  case (N_ITCHExecuted m)
  then have w: "nasdaq_itch_wf_E m" and q: "pool_ok (nasdaq_itch_pool_E p)" "free_objects (nasdaq_itch_pool_E p) = i # js"
    using assms by (simp_all add: nasdaq_itch_ok_def)
  obtain s where "nasdaq_itch_wire_E m = CHR ''E'' # s" using nasdaq_itch_wire_E_shape [OF w] by blast
  moreover obtain p1 where "parse_into (nasdaq_itch_handler_E (nasdaq_itch_wire_E m @ r)) (nasdaq_itch_pool_E p) = Some (i, m, p1)"
    "pool_ok p1" "free_objects p1 = js" "pool_objects p1 = (pool_objects (nasdaq_itch_pool_E p))(i := m)"
    using parse_into_head [OF q, of "nasdaq_itch_handler_E (nasdaq_itch_wire_E m @ r)" m] nasdaq_itch_handler_E_wire [OF w] by blast
  moreover from this have "length (nasdaq_itch_free m' p) \<le> Suc (length (nasdaq_itch_free m' (p\<lparr>nasdaq_itch_pool_E := p1\<rparr>)))" for m'
    using q(2) by (cases m') simp_all
  ultimately show ?thesis using assms(2) N_ITCHExecuted by (simp add: nasdaq_itch_dispatch_def nasdaq_itch_ok_def)
next
  case (N_ITCHExecutedWithPrice m)
  then have w: "nasdaq_itch_wf_C m" and q: "pool_ok (nasdaq_itch_pool_C p)" "free_objects (nasdaq_itch_pool_C p) = i # js"
    using assms by (simp_all add: nasdaq_itch_ok_def)
  obtain s where "nasdaq_itch_wire_C m = CHR ''C'' # s" using nasdaq_itch_wire_C_shape [OF w] by blast
  moreover obtain p1 where "parse_into (nasdaq_itch_handler_C (nasdaq_itch_wire_C m @ r)) (nasdaq_itch_pool_C p) = Some (i, m, p1)"
    "pool_ok p1" "free_objects p1 = js" "pool_objects p1 = (pool_objects (nasdaq_itch_pool_C p))(i := m)"
    using parse_into_head [OF q, of "nasdaq_itch_handler_C (nasdaq_itch_wire_C m @ r)" m] nasdaq_itch_handler_C_wire [OF w] by blast
  moreover from this have "length (nasdaq_itch_free m' p) \<le> Suc (length (nasdaq_itch_free m' (p\<lparr>nasdaq_itch_pool_C := p1\<rparr>)))" for m'
    using q(2) by (cases m') simp_all
  ultimately show ?thesis using assms(2) N_ITCHExecutedWithPrice by (simp add: nasdaq_itch_dispatch_def nasdaq_itch_ok_def)
next
  case (N_ITCHDelete m)
  then have w: "nasdaq_itch_wf_D m" and q: "pool_ok (nasdaq_itch_pool_D p)" "free_objects (nasdaq_itch_pool_D p) = i # js"
    using assms by (simp_all add: nasdaq_itch_ok_def)
  obtain s where "nasdaq_itch_wire_D m = CHR ''D'' # s" using nasdaq_itch_wire_D_shape [OF w] by blast
  moreover obtain p1 where "parse_into (nasdaq_itch_handler_D (nasdaq_itch_wire_D m @ r)) (nasdaq_itch_pool_D p) = Some (i, m, p1)"
    "pool_ok p1" "free_objects p1 = js" "pool_objects p1 = (pool_objects (nasdaq_itch_pool_D p))(i := m)"
    using parse_into_head [OF q, of "nasdaq_itch_handler_D (nasdaq_itch_wire_D m @ r)" m] nasdaq_itch_handler_D_wire [OF w] by blast
  moreover from this have "length (nasdaq_itch_free m' p) \<le> Suc (length (nasdaq_itch_free m' (p\<lparr>nasdaq_itch_pool_D := p1\<rparr>)))" for m'
    using q(2) by (cases m') simp_all
  ultimately show ?thesis using assms(2) N_ITCHDelete by (simp add: nasdaq_itch_dispatch_def nasdaq_itch_ok_def)
next
  case (N_ITCHReplace m)
  then have w: "nasdaq_itch_wf_U m" and q: "pool_ok (nasdaq_itch_pool_U p)" "free_objects (nasdaq_itch_pool_U p) = i # js"
    using assms by (simp_all add: nasdaq_itch_ok_def)
  obtain s where "nasdaq_itch_wire_U m = CHR ''U'' # s" using nasdaq_itch_wire_U_shape [OF w] by blast
  moreover obtain p1 where "parse_into (nasdaq_itch_handler_U (nasdaq_itch_wire_U m @ r)) (nasdaq_itch_pool_U p) = Some (i, m, p1)"
    "pool_ok p1" "free_objects p1 = js" "pool_objects p1 = (pool_objects (nasdaq_itch_pool_U p))(i := m)"
    using parse_into_head [OF q, of "nasdaq_itch_handler_U (nasdaq_itch_wire_U m @ r)" m] nasdaq_itch_handler_U_wire [OF w] by blast
  moreover from this have "length (nasdaq_itch_free m' p) \<le> Suc (length (nasdaq_itch_free m' (p\<lparr>nasdaq_itch_pool_U := p1\<rparr>)))" for m'
    using q(2) by (cases m') simp_all
  ultimately show ?thesis using assms(2) N_ITCHReplace by (simp add: nasdaq_itch_dispatch_def nasdaq_itch_ok_def)
next
  case (N_ITCHTrade m)
  then have w: "nasdaq_itch_wf_P m" and q: "pool_ok (nasdaq_itch_pool_P p)" "free_objects (nasdaq_itch_pool_P p) = i # js"
    using assms by (simp_all add: nasdaq_itch_ok_def)
  obtain s where "nasdaq_itch_wire_P m = CHR ''P'' # s" using nasdaq_itch_wire_P_shape [OF w] by blast
  moreover obtain p1 where "parse_into (nasdaq_itch_handler_P (nasdaq_itch_wire_P m @ r)) (nasdaq_itch_pool_P p) = Some (i, m, p1)"
    "pool_ok p1" "free_objects p1 = js" "pool_objects p1 = (pool_objects (nasdaq_itch_pool_P p))(i := m)"
    using parse_into_head [OF q, of "nasdaq_itch_handler_P (nasdaq_itch_wire_P m @ r)" m] nasdaq_itch_handler_P_wire [OF w] by blast
  moreover from this have "length (nasdaq_itch_free m' p) \<le> Suc (length (nasdaq_itch_free m' (p\<lparr>nasdaq_itch_pool_P := p1\<rparr>)))" for m'
    using q(2) by (cases m') simp_all
  ultimately show ?thesis using assms(2) N_ITCHTrade by (simp add: nasdaq_itch_dispatch_def nasdaq_itch_ok_def)
next
  case (N_ITCHSystemEvent m)
  then have w: "nasdaq_itch_wf_S m" and q: "pool_ok (nasdaq_itch_pool_S p)" "free_objects (nasdaq_itch_pool_S p) = i # js"
    using assms by (simp_all add: nasdaq_itch_ok_def)
  obtain s where "nasdaq_itch_wire_S m = CHR ''S'' # s" using nasdaq_itch_wire_S_shape [OF w] by blast
  moreover obtain p1 where "parse_into (nasdaq_itch_handler_S (nasdaq_itch_wire_S m @ r)) (nasdaq_itch_pool_S p) = Some (i, m, p1)"
    "pool_ok p1" "free_objects p1 = js" "pool_objects p1 = (pool_objects (nasdaq_itch_pool_S p))(i := m)"
    using parse_into_head [OF q, of "nasdaq_itch_handler_S (nasdaq_itch_wire_S m @ r)" m] nasdaq_itch_handler_S_wire [OF w] by blast
  moreover from this have "length (nasdaq_itch_free m' p) \<le> Suc (length (nasdaq_itch_free m' (p\<lparr>nasdaq_itch_pool_S := p1\<rparr>)))" for m'
    using q(2) by (cases m') simp_all
  ultimately show ?thesis using assms(2) N_ITCHSystemEvent by (simp add: nasdaq_itch_dispatch_def nasdaq_itch_ok_def)
next
  case (N_ITCHStockDirectory m)
  then have w: "nasdaq_itch_wf_R m" and q: "pool_ok (nasdaq_itch_pool_R p)" "free_objects (nasdaq_itch_pool_R p) = i # js"
    using assms by (simp_all add: nasdaq_itch_ok_def)
  obtain s where "nasdaq_itch_wire_R m = CHR ''R'' # s" using nasdaq_itch_wire_R_shape [OF w] by blast
  moreover obtain p1 where "parse_into (nasdaq_itch_handler_R (nasdaq_itch_wire_R m @ r)) (nasdaq_itch_pool_R p) = Some (i, m, p1)"
    "pool_ok p1" "free_objects p1 = js" "pool_objects p1 = (pool_objects (nasdaq_itch_pool_R p))(i := m)"
    using parse_into_head [OF q, of "nasdaq_itch_handler_R (nasdaq_itch_wire_R m @ r)" m] nasdaq_itch_handler_R_wire [OF w] by blast
  moreover from this have "length (nasdaq_itch_free m' p) \<le> Suc (length (nasdaq_itch_free m' (p\<lparr>nasdaq_itch_pool_R := p1\<rparr>)))" for m'
    using q(2) by (cases m') simp_all
  ultimately show ?thesis using assms(2) N_ITCHStockDirectory by (simp add: nasdaq_itch_dispatch_def nasdaq_itch_ok_def)
next
  case (N_ITCHTradingState m)
  then have w: "nasdaq_itch_wf_H m" and q: "pool_ok (nasdaq_itch_pool_H p)" "free_objects (nasdaq_itch_pool_H p) = i # js"
    using assms by (simp_all add: nasdaq_itch_ok_def)
  obtain s where "nasdaq_itch_wire_H m = CHR ''H'' # s" using nasdaq_itch_wire_H_shape [OF w] by blast
  moreover obtain p1 where "parse_into (nasdaq_itch_handler_H (nasdaq_itch_wire_H m @ r)) (nasdaq_itch_pool_H p) = Some (i, m, p1)"
    "pool_ok p1" "free_objects p1 = js" "pool_objects p1 = (pool_objects (nasdaq_itch_pool_H p))(i := m)"
    using parse_into_head [OF q, of "nasdaq_itch_handler_H (nasdaq_itch_wire_H m @ r)" m] nasdaq_itch_handler_H_wire [OF w] by blast
  moreover from this have "length (nasdaq_itch_free m' p) \<le> Suc (length (nasdaq_itch_free m' (p\<lparr>nasdaq_itch_pool_H := p1\<rparr>)))" for m'
    using q(2) by (cases m') simp_all
  ultimately show ?thesis using assms(2) N_ITCHTradingState by (simp add: nasdaq_itch_dispatch_def nasdaq_itch_ok_def)
qed

lemma nasdaq_itch_parse_wire:
  assumes "nasdaq_itch_wf msg" "nasdaq_itch_ok p" "nasdaq_itch_free msg p = i # js" "length h = 0"
  shows "\<exists>p'. nasdaq_itch_parse (h @ nasdaq_itch_wire msg @ r) p = Some (Some (i, msg), p')
    \<and> nasdaq_itch_ok p' \<and> nasdaq_itch_free msg p' = js \<and> (\<forall>m. length (nasdaq_itch_free m p) \<le> Suc (length (nasdaq_itch_free m p')))"
proof -
  obtain c s where w: "nasdaq_itch_wire msg = c # s" "nasdaq_itch_index c \<noteq> 99"
    using assms(1) by (cases msg) (auto dest!: nasdaq_itch_wire_A_shape nasdaq_itch_wire_F_shape nasdaq_itch_wire_X_shape nasdaq_itch_wire_E_shape nasdaq_itch_wire_C_shape nasdaq_itch_wire_D_shape nasdaq_itch_wire_U_shape nasdaq_itch_wire_P_shape nasdaq_itch_wire_S_shape nasdaq_itch_wire_R_shape nasdaq_itch_wire_H_shape)
  then show ?thesis
    using nasdaq_itch_dispatch_wire [OF assms(1-3), of r] assms(4) by (auto simp: nasdaq_itch_parse_def read_front)
qed

interpretation nasdaq_itch: wire_parser nasdaq_itch_parse nasdaq_itch_wire nasdaq_itch_wf nasdaq_itch_ok nasdaq_itch_free 0
  by unfold_locales (use nasdaq_itch_parse_wire in blast)

lemma nasdaq_itch_wire_size:
  assumes "nasdaq_itch_wf m"
  shows "\<exists>c s. nasdaq_itch_wire m = c # s \<and> nth_opt nasdaq_itch_sizes (nasdaq_itch_index c) = Some (length (nasdaq_itch_wire m))"
  using assms by (cases m) (auto simp: nasdaq_itch_sizes_def nth_opt_def dest!: nasdaq_itch_wire_A_shape nasdaq_itch_wire_F_shape nasdaq_itch_wire_X_shape nasdaq_itch_wire_E_shape nasdaq_itch_wire_C_shape nasdaq_itch_wire_D_shape nasdaq_itch_wire_U_shape nasdaq_itch_wire_P_shape nasdaq_itch_wire_S_shape nasdaq_itch_wire_R_shape nasdaq_itch_wire_H_shape)

interpretation nasdaq_itch_split: itch_wire nasdaq_itch_index nasdaq_itch_sizes nasdaq_itch_wire nasdaq_itch_wf
  by unfold_locales (rule nasdaq_itch_wire_size)

end
