(* ===== verification/Ouch_Parser_BIST.thy ===== *)
theory Ouch_Parser_BIST
  imports Message_Pools
begin

text \<open>
  The OUCH parser of BIST: src/src/protocol/parsers/OUCH/Parser_OUCH_BIST.cpp and its header.  Every handler decodes one message
  type into an object of the pool of that type.  The layout is the one src/generated/GeneratedOUCHMessages_BIST.h
  documents, and the lemmas show that every handler decodes it.
\<close>

subsection \<open>The handlers\<close>

text \<open>One definition per entry of \<^verbatim>\<open>makeMessageHandlersLookup\<close>, with the assignments in the order of
  the code; fields that a handler does not assign keep the value of the pooled object.\<close>

definition bist_ouch_handler_A :: "string \<Rightarrow> BIST_OUCHOrderAcceptedMessage \<Rightarrow> BIST_OUCHOrderAcceptedMessage option" where
  "bist_ouch_handler_A data m = do {
     timestamp' \<leftarrow> read_u64_be (drop 1 data);
     order_id' \<leftarrow> read_u64_be (drop 28 data);
     quantity' \<leftarrow> read_u64_be (drop 36 data);
     pre_trade_qty' \<leftarrow> read_u64_be (drop 114 data);
     display_qty' \<leftarrow> read_u64_be (drop 122 data);
     order_book_id' \<leftarrow> read_u32_be (drop 23 data);
     price' \<leftarrow> read_i32_be (drop 44 data);
     message_type' \<leftarrow> read_char data;
     order_token' \<leftarrow> read_bytes 14 (drop 9 data);
     side' \<leftarrow> read_char (drop 27 data);
     time_in_force' \<leftarrow> read_u8 (drop 48 data);
     client_account' \<leftarrow> read_bytes 16 (drop 50 data);
     customer_info' \<leftarrow> read_bytes 15 (drop 67 data);
     exchange_info' \<leftarrow> read_bytes 32 (drop 82 data);
     open_close' \<leftarrow> read_u8 (drop 49 data);
     order_state' \<leftarrow> read_u8 (drop 66 data);
     client_category' \<leftarrow> read_u8 (drop 130 data);
     offhours' \<leftarrow> read_u8 (drop 131 data);
     smp_level' \<leftarrow> read_u8 (drop 132 data);
     smp_method' \<leftarrow> read_u8 (drop 133 data);
     smp_ID' \<leftarrow> read_bytes 3 (drop 134 data);
     Some (m\<lparr>boA_timestamp := timestamp', boA_order_id := order_id', boA_quantity := quantity',
            boA_pre_trade_qty := pre_trade_qty', boA_display_qty := display_qty',
            boA_order_book_id := order_book_id', boA_price := price', boA_message_type := message_type',
            boA_order_token := order_token', boA_side := side', boA_time_in_force := time_in_force',
            boA_client_account := client_account', boA_customer_info := customer_info',
            boA_exchange_info := exchange_info', boA_open_close := open_close',
            boA_order_state := order_state', boA_client_category := client_category',
            boA_offhours := offhours', boA_smp_level := smp_level', boA_smp_method := smp_method',
            boA_smp_ID := smp_ID'\<rparr>) }"

definition bist_ouch_handler_J :: "string \<Rightarrow> BIST_OUCHOrderRejectedMessage \<Rightarrow> BIST_OUCHOrderRejectedMessage option" where
  "bist_ouch_handler_J data m = do {
     timestamp' \<leftarrow> read_u64_be (drop 1 data);
     reject_code' \<leftarrow> read_i32_be (drop 23 data);
     message_type' \<leftarrow> read_char data;
     order_token' \<leftarrow> read_bytes 14 (drop 9 data);
     Some (m\<lparr>boJ_timestamp := timestamp', boJ_reject_code := reject_code',
            boJ_message_type := message_type', boJ_order_token := order_token'\<rparr>) }"

definition bist_ouch_handler_U :: "string \<Rightarrow> BIST_OUCHOrderReplacedMessage \<Rightarrow> BIST_OUCHOrderReplacedMessage option" where
  "bist_ouch_handler_U data m = do {
     timestamp' \<leftarrow> read_u64_be (drop 1 data);
     order_id' \<leftarrow> read_u64_be (drop 42 data);
     quantity' \<leftarrow> read_u64_be (drop 50 data);
     pre_trade_qty' \<leftarrow> read_u64_be (drop 128 data);
     order_book_id' \<leftarrow> read_u32_be (drop 37 data);
     price' \<leftarrow> read_i32_be (drop 58 data);
     message_type' \<leftarrow> read_char data;
     previous_order_token' \<leftarrow> read_bytes 14 (drop 23 data);
     side' \<leftarrow> read_char (drop 41 data);
     time_in_force' \<leftarrow> read_u8 (drop 62 data);
     open_close' \<leftarrow> read_u8 (drop 63 data);
     order_state' \<leftarrow> read_u8 (drop 80 data);
     client_category' \<leftarrow> read_u8 (drop 144 data);
     display_qty' \<leftarrow> read_u64_be (drop 136 data);
     order_token' \<leftarrow> read_bytes 14 (drop 9 data);
     exchange_info' \<leftarrow> read_bytes 32 (drop 96 data);
     client_account' \<leftarrow> read_bytes 16 (drop 64 data);
     customer_info' \<leftarrow> read_bytes 15 (drop 81 data);
     Some (m\<lparr>boU_timestamp := timestamp', boU_order_id := order_id', boU_quantity := quantity',
            boU_pre_trade_qty := pre_trade_qty', boU_order_book_id := order_book_id', boU_price := price',
            boU_message_type := message_type', boU_previous_order_token := previous_order_token',
            boU_side := side', boU_time_in_force := time_in_force', boU_open_close := open_close',
            boU_order_state := order_state', boU_client_category := client_category',
            boU_display_qty := display_qty', boU_order_token := order_token',
            boU_exchange_info := exchange_info', boU_client_account := client_account',
            boU_customer_info := customer_info'\<rparr>) }"

definition bist_ouch_handler_C :: "string \<Rightarrow> BIST_OUCHOrderCancelledMessage \<Rightarrow> BIST_OUCHOrderCancelledMessage option" where
  "bist_ouch_handler_C data m = do {
     timestamp' \<leftarrow> read_u64_be (drop 1 data);
     order_id' \<leftarrow> read_u64_be (drop 28 data);
     order_book_id' \<leftarrow> read_u32_be (drop 23 data);
     message_type' \<leftarrow> read_char data;
     order_token' \<leftarrow> read_bytes 14 (drop 9 data);
     side' \<leftarrow> read_char (drop 27 data);
     reason' \<leftarrow> read_u8 (drop 36 data);
     Some (m\<lparr>boC_timestamp := timestamp', boC_order_id := order_id',
            boC_order_book_id := order_book_id', boC_message_type := message_type',
            boC_order_token := order_token', boC_side := side', boC_reason := reason'\<rparr>) }"

definition bist_ouch_handler_E :: "string \<Rightarrow> BIST_OUCHOrderExecutedMessage \<Rightarrow> BIST_OUCHOrderExecutedMessage option" where
  "bist_ouch_handler_E data m = do {
     timestamp' \<leftarrow> read_u64_be (drop 1 data);
     traded_quantity' \<leftarrow> read_u64_be (drop 27 data);
     order_book_id' \<leftarrow> read_u32_be (drop 23 data);
     trade_price' \<leftarrow> read_i32_be (drop 35 data);
     message_type' \<leftarrow> read_char data;
     order_token' \<leftarrow> read_bytes 14 (drop 9 data);
     match_id' \<leftarrow> read_bytes 12 (drop 39 data);
     client_category' \<leftarrow> read_u8 (drop 51 data);
     reserved' \<leftarrow> read_bytes 16 (drop 52 data);
     Some (m\<lparr>boE_timestamp := timestamp', boE_traded_quantity := traded_quantity',
            boE_order_book_id := order_book_id', boE_trade_price := trade_price',
            boE_message_type := message_type', boE_order_token := order_token', boE_match_id := match_id',
            boE_client_category := client_category', boE_reserved := reserved'\<rparr>) }"

subsection \<open>The parser\<close>

record Parser_OUCH_BIST =
  bist_ouch_pool_A :: "BIST_OUCHOrderAcceptedMessage msgpool"
  bist_ouch_pool_J :: "BIST_OUCHOrderRejectedMessage msgpool"
  bist_ouch_pool_U :: "BIST_OUCHOrderReplacedMessage msgpool"
  bist_ouch_pool_C :: "BIST_OUCHOrderCancelledMessage msgpool"
  bist_ouch_pool_E :: "BIST_OUCHOrderExecutedMessage msgpool"

definition bist_ouch_index :: "char \<Rightarrow> nat" where
  "bist_ouch_index c =
     (if c = CHR ''A'' then 0
      else if c = CHR ''J'' then 1
      else if c = CHR ''U'' then 2
      else if c = CHR ''C'' then 3
      else if c = CHR ''E'' then 4
      else 99)"

text \<open>The call through the table of handlers.  The result is the index of the object in its pool with its
  contents.\<close>

definition bist_ouch_dispatch :: "nat \<Rightarrow> string \<Rightarrow> Parser_OUCH_BIST \<Rightarrow> ((nat \<times> BIST_OUCHMessage) \<times> Parser_OUCH_BIST) option" where
  "bist_ouch_dispatch index data p =
     (if index = 0 then map_option (\<lambda>(i, m, q). ((i, B_OUCHOrderAccepted m), p\<lparr>bist_ouch_pool_A := q\<rparr>))
        (parse_into (bist_ouch_handler_A data) (bist_ouch_pool_A p))
      else if index = 1 then map_option (\<lambda>(i, m, q). ((i, B_OUCHOrderRejected m), p\<lparr>bist_ouch_pool_J := q\<rparr>))
        (parse_into (bist_ouch_handler_J data) (bist_ouch_pool_J p))
      else if index = 2 then map_option (\<lambda>(i, m, q). ((i, B_OUCHOrderReplaced m), p\<lparr>bist_ouch_pool_U := q\<rparr>))
        (parse_into (bist_ouch_handler_U data) (bist_ouch_pool_U p))
      else if index = 3 then map_option (\<lambda>(i, m, q). ((i, B_OUCHOrderCancelled m), p\<lparr>bist_ouch_pool_C := q\<rparr>))
        (parse_into (bist_ouch_handler_C data) (bist_ouch_pool_C p))
      else if index = 4 then map_option (\<lambda>(i, m, q). ((i, B_OUCHOrderExecuted m), p\<lparr>bist_ouch_pool_E := q\<rparr>))
        (parse_into (bist_ouch_handler_E data) (bist_ouch_pool_E p))
      else None)"

text \<open>\<^verbatim>\<open>parse\<close>: an unknown type leaves the variant with the null pointer of its first alternative, here
  \<open>None\<close>.\<close>

definition bist_ouch_parse :: "string \<Rightarrow> Parser_OUCH_BIST \<Rightarrow> ((nat \<times> BIST_OUCHMessage) option \<times> Parser_OUCH_BIST) option" where
  "bist_ouch_parse data p = do {
     c \<leftarrow> read_char (drop 3 data);
     if bist_ouch_index c \<noteq> 99
     then map_option (\<lambda>(r, p'). (Some r, p')) (bist_ouch_dispatch (bist_ouch_index c) (drop 3 data) p)
     else Some (None, p) }"

definition bist_ouch_release :: "nat \<times> BIST_OUCHMessage \<Rightarrow> Parser_OUCH_BIST \<Rightarrow> Parser_OUCH_BIST" where
  "bist_ouch_release r p =
     (case snd r of
        B_OUCHOrderAccepted _ \<Rightarrow> p\<lparr>bist_ouch_pool_A := pool_put (fst r) (bist_ouch_pool_A p)\<rparr>
      | B_OUCHOrderRejected _ \<Rightarrow> p\<lparr>bist_ouch_pool_J := pool_put (fst r) (bist_ouch_pool_J p)\<rparr>
      | B_OUCHOrderReplaced _ \<Rightarrow> p\<lparr>bist_ouch_pool_U := pool_put (fst r) (bist_ouch_pool_U p)\<rparr>
      | B_OUCHOrderCancelled _ \<Rightarrow> p\<lparr>bist_ouch_pool_C := pool_put (fst r) (bist_ouch_pool_C p)\<rparr>
      | B_OUCHOrderExecuted _ \<Rightarrow> p\<lparr>bist_ouch_pool_E := pool_put (fst r) (bist_ouch_pool_E p)\<rparr>)"

subsection \<open>The documented layout\<close>

text \<open>The offsets and lengths that src/generated/GeneratedOUCHMessages_BIST.h documents for the fields, as an encoder: the fields in
  the order of their offsets, numbers in network byte order.\<close>

definition bist_ouch_wire_A :: "BIST_OUCHOrderAcceptedMessage \<Rightarrow> string" where
  "bist_ouch_wire_A m =
     [boA_message_type m] @ bytes_u64_be (boA_timestamp m) @ boA_order_token m @
     bytes_u32_be (boA_order_book_id m) @ [boA_side m] @ bytes_u64_be (boA_order_id m) @
     bytes_u64_be (boA_quantity m) @ bytes_u32_be (boA_price m) @ [char_of_u8 (boA_time_in_force m)] @
     [char_of_u8 (boA_open_close m)] @ boA_client_account m @ [char_of_u8 (boA_order_state m)] @
     boA_customer_info m @ boA_exchange_info m @ bytes_u64_be (boA_pre_trade_qty m) @
     bytes_u64_be (boA_display_qty m) @ [char_of_u8 (boA_client_category m)] @
     [char_of_u8 (boA_offhours m)] @ [char_of_u8 (boA_smp_level m)] @ [char_of_u8 (boA_smp_method m)] @
     boA_smp_ID m"

definition bist_ouch_wf_A :: "BIST_OUCHOrderAcceptedMessage \<Rightarrow> bool" where
  "bist_ouch_wf_A m \<longleftrightarrow> boA_message_type m = CHR ''A''
     \<and> length (boA_order_token m) = 14
     \<and> length (boA_client_account m) = 16
     \<and> length (boA_customer_info m) = 15
     \<and> length (boA_exchange_info m) = 32
     \<and> length (boA_smp_ID m) = 3"

lemma bist_ouch_handler_A_wire:
  "bist_ouch_wf_A m \<Longrightarrow> bist_ouch_handler_A (bist_ouch_wire_A m @ r) m0 = Some m"
  by (cases m, cases m0) (simp add: bist_ouch_handler_A_def bist_ouch_wire_A_def bist_ouch_wf_A_def wire_simps)

lemma bist_ouch_wire_A_shape:
  "bist_ouch_wf_A m \<Longrightarrow> \<exists>s. bist_ouch_wire_A m = CHR ''A'' # s \<and> length s = 136"
  by (simp add: bist_ouch_wire_A_def bist_ouch_wf_A_def)

definition bist_ouch_wire_J :: "BIST_OUCHOrderRejectedMessage \<Rightarrow> string" where
  "bist_ouch_wire_J m =
     [boJ_message_type m] @ bytes_u64_be (boJ_timestamp m) @ boJ_order_token m @
     bytes_u32_be (boJ_reject_code m)"

definition bist_ouch_wf_J :: "BIST_OUCHOrderRejectedMessage \<Rightarrow> bool" where
  "bist_ouch_wf_J m \<longleftrightarrow> boJ_message_type m = CHR ''J''
     \<and> length (boJ_order_token m) = 14"

lemma bist_ouch_handler_J_wire:
  "bist_ouch_wf_J m \<Longrightarrow> bist_ouch_handler_J (bist_ouch_wire_J m @ r) m0 = Some m"
  by (cases m, cases m0) (simp add: bist_ouch_handler_J_def bist_ouch_wire_J_def bist_ouch_wf_J_def wire_simps)

lemma bist_ouch_wire_J_shape:
  "bist_ouch_wf_J m \<Longrightarrow> \<exists>s. bist_ouch_wire_J m = CHR ''J'' # s \<and> length s = 26"
  by (simp add: bist_ouch_wire_J_def bist_ouch_wf_J_def)

definition bist_ouch_wire_U :: "BIST_OUCHOrderReplacedMessage \<Rightarrow> string" where
  "bist_ouch_wire_U m =
     [boU_message_type m] @ bytes_u64_be (boU_timestamp m) @ boU_order_token m @
     boU_previous_order_token m @ bytes_u32_be (boU_order_book_id m) @ [boU_side m] @
     bytes_u64_be (boU_order_id m) @ bytes_u64_be (boU_quantity m) @ bytes_u32_be (boU_price m) @
     [char_of_u8 (boU_time_in_force m)] @ [char_of_u8 (boU_open_close m)] @ boU_client_account m @
     [char_of_u8 (boU_order_state m)] @ boU_customer_info m @ boU_exchange_info m @
     bytes_u64_be (boU_pre_trade_qty m) @ bytes_u64_be (boU_display_qty m) @
     [char_of_u8 (boU_client_category m)]"

definition bist_ouch_wf_U :: "BIST_OUCHOrderReplacedMessage \<Rightarrow> bool" where
  "bist_ouch_wf_U m \<longleftrightarrow> boU_message_type m = CHR ''U''
     \<and> length (boU_order_token m) = 14
     \<and> length (boU_previous_order_token m) = 14
     \<and> length (boU_client_account m) = 16
     \<and> length (boU_customer_info m) = 15
     \<and> length (boU_exchange_info m) = 32"

lemma bist_ouch_handler_U_wire:
  "bist_ouch_wf_U m \<Longrightarrow> bist_ouch_handler_U (bist_ouch_wire_U m @ r) m0 = Some m"
  by (cases m, cases m0) (simp add: bist_ouch_handler_U_def bist_ouch_wire_U_def bist_ouch_wf_U_def wire_simps)

lemma bist_ouch_wire_U_shape:
  "bist_ouch_wf_U m \<Longrightarrow> \<exists>s. bist_ouch_wire_U m = CHR ''U'' # s \<and> length s = 144"
  by (simp add: bist_ouch_wire_U_def bist_ouch_wf_U_def)

definition bist_ouch_wire_C :: "BIST_OUCHOrderCancelledMessage \<Rightarrow> string" where
  "bist_ouch_wire_C m =
     [boC_message_type m] @ bytes_u64_be (boC_timestamp m) @ boC_order_token m @
     bytes_u32_be (boC_order_book_id m) @ [boC_side m] @ bytes_u64_be (boC_order_id m) @
     [char_of_u8 (boC_reason m)]"

definition bist_ouch_wf_C :: "BIST_OUCHOrderCancelledMessage \<Rightarrow> bool" where
  "bist_ouch_wf_C m \<longleftrightarrow> boC_message_type m = CHR ''C''
     \<and> length (boC_order_token m) = 14"

lemma bist_ouch_handler_C_wire:
  "bist_ouch_wf_C m \<Longrightarrow> bist_ouch_handler_C (bist_ouch_wire_C m @ r) m0 = Some m"
  by (cases m, cases m0) (simp add: bist_ouch_handler_C_def bist_ouch_wire_C_def bist_ouch_wf_C_def wire_simps)

lemma bist_ouch_wire_C_shape:
  "bist_ouch_wf_C m \<Longrightarrow> \<exists>s. bist_ouch_wire_C m = CHR ''C'' # s \<and> length s = 36"
  by (simp add: bist_ouch_wire_C_def bist_ouch_wf_C_def)

definition bist_ouch_wire_E :: "BIST_OUCHOrderExecutedMessage \<Rightarrow> string" where
  "bist_ouch_wire_E m =
     [boE_message_type m] @ bytes_u64_be (boE_timestamp m) @ boE_order_token m @
     bytes_u32_be (boE_order_book_id m) @ bytes_u64_be (boE_traded_quantity m) @
     bytes_u32_be (boE_trade_price m) @ boE_match_id m @ [char_of_u8 (boE_client_category m)] @
     boE_reserved m"

definition bist_ouch_wf_E :: "BIST_OUCHOrderExecutedMessage \<Rightarrow> bool" where
  "bist_ouch_wf_E m \<longleftrightarrow> boE_message_type m = CHR ''E''
     \<and> length (boE_order_token m) = 14
     \<and> length (boE_match_id m) = 12
     \<and> length (boE_reserved m) = 16"

lemma bist_ouch_handler_E_wire:
  "bist_ouch_wf_E m \<Longrightarrow> bist_ouch_handler_E (bist_ouch_wire_E m @ r) m0 = Some m"
  by (cases m, cases m0) (simp add: bist_ouch_handler_E_def bist_ouch_wire_E_def bist_ouch_wf_E_def wire_simps)

lemma bist_ouch_wire_E_shape:
  "bist_ouch_wf_E m \<Longrightarrow> \<exists>s. bist_ouch_wire_E m = CHR ''E'' # s \<and> length s = 67"
  by (simp add: bist_ouch_wire_E_def bist_ouch_wf_E_def)

primrec bist_ouch_wire :: "BIST_OUCHMessage \<Rightarrow> string" where
  "bist_ouch_wire (B_OUCHOrderAccepted m) = bist_ouch_wire_A m"
| "bist_ouch_wire (B_OUCHOrderRejected m) = bist_ouch_wire_J m"
| "bist_ouch_wire (B_OUCHOrderReplaced m) = bist_ouch_wire_U m"
| "bist_ouch_wire (B_OUCHOrderCancelled m) = bist_ouch_wire_C m"
| "bist_ouch_wire (B_OUCHOrderExecuted m) = bist_ouch_wire_E m"

primrec bist_ouch_wf :: "BIST_OUCHMessage \<Rightarrow> bool" where
  "bist_ouch_wf (B_OUCHOrderAccepted m) = bist_ouch_wf_A m"
| "bist_ouch_wf (B_OUCHOrderRejected m) = bist_ouch_wf_J m"
| "bist_ouch_wf (B_OUCHOrderReplaced m) = bist_ouch_wf_U m"
| "bist_ouch_wf (B_OUCHOrderCancelled m) = bist_ouch_wf_C m"
| "bist_ouch_wf (B_OUCHOrderExecuted m) = bist_ouch_wf_E m"

text \<open>The objects still free for the type of a message, and the parser with its pools in order.\<close>

primrec bist_ouch_free :: "BIST_OUCHMessage \<Rightarrow> Parser_OUCH_BIST \<Rightarrow> nat list" where
  "bist_ouch_free (B_OUCHOrderAccepted m) p = free_objects (bist_ouch_pool_A p)"
| "bist_ouch_free (B_OUCHOrderRejected m) p = free_objects (bist_ouch_pool_J p)"
| "bist_ouch_free (B_OUCHOrderReplaced m) p = free_objects (bist_ouch_pool_U p)"
| "bist_ouch_free (B_OUCHOrderCancelled m) p = free_objects (bist_ouch_pool_C p)"
| "bist_ouch_free (B_OUCHOrderExecuted m) p = free_objects (bist_ouch_pool_E p)"

definition bist_ouch_ok :: "Parser_OUCH_BIST \<Rightarrow> bool" where
  "bist_ouch_ok p \<longleftrightarrow> pool_ok (bist_ouch_pool_A p)
     \<and> pool_ok (bist_ouch_pool_J p)
     \<and> pool_ok (bist_ouch_pool_U p)
     \<and> pool_ok (bist_ouch_pool_C p)
     \<and> pool_ok (bist_ouch_pool_E p)"

text \<open>The constructor: the objects have the initial values of their structures, and every pool is initialised.\<close>

definition bist_ouch_new :: Parser_OUCH_BIST where
  "bist_ouch_new =
     \<lparr>bist_ouch_pool_A = new_pool
        \<lparr>boA_timestamp = 0, boA_order_id = 0, boA_quantity = 0, boA_pre_trade_qty = 0,
         boA_display_qty = 0, boA_order_book_id = 0, boA_price = 0, boA_message_type = CHR ''A'',
         boA_order_token = replicate 14 (CHR 0x00), boA_side = CHR 0x00, boA_time_in_force = 0,
         boA_client_account = replicate 16 (CHR 0x00), boA_customer_info = replicate 15 (CHR 0x00),
         boA_exchange_info = replicate 32 (CHR 0x00), boA_open_close = 0, boA_order_state = 0,
         boA_client_category = 0, boA_offhours = 0, boA_smp_level = 0, boA_smp_method = 0,
         boA_smp_ID = replicate 3 (CHR 0x00)\<rparr>,
      bist_ouch_pool_J = new_pool
        \<lparr>boJ_timestamp = 0, boJ_reject_code = 0, boJ_message_type = CHR ''J'',
         boJ_order_token = replicate 14 (CHR 0x00)\<rparr>,
      bist_ouch_pool_U = new_pool
        \<lparr>boU_timestamp = 0, boU_order_id = 0, boU_quantity = 0, boU_pre_trade_qty = 0,
         boU_order_book_id = 0, boU_price = 0, boU_message_type = CHR ''U'',
         boU_previous_order_token = replicate 14 (CHR 0x00), boU_side = CHR 0x00,
         boU_time_in_force = 0, boU_open_close = 0, boU_order_state = 0, boU_client_category = 0,
         boU_order_token = replicate 14 (CHR 0x00), boU_exchange_info = replicate 32 (CHR 0x00),
         boU_client_account = replicate 16 (CHR 0x00), boU_customer_info = replicate 15 (CHR 0x00),
         boU_display_qty = 0\<rparr>,
      bist_ouch_pool_C = new_pool
        \<lparr>boC_timestamp = 0, boC_order_id = 0, boC_order_book_id = 0, boC_message_type = CHR ''C'',
         boC_order_token = replicate 14 (CHR 0x00), boC_side = CHR 0x00, boC_reason = 0\<rparr>,
      bist_ouch_pool_E = new_pool
        \<lparr>boE_timestamp = 0, boE_traded_quantity = 0, boE_order_book_id = 0, boE_trade_price = 0,
         boE_message_type = CHR ''E'', boE_order_token = replicate 14 (CHR 0x00),
         boE_match_id = replicate 12 (CHR 0x00), boE_client_category = 0,
         boE_reserved = replicate 16 (CHR 0x00)\<rparr>\<rparr>"

lemma bist_ouch_new_ok: "bist_ouch_ok bist_ouch_new"
  by (simp add: bist_ouch_ok_def bist_ouch_new_def new_pool_free)

lemma bist_ouch_new_free: "bist_ouch_free m bist_ouch_new = [0..<511]"
  by (cases m) (simp_all add: bist_ouch_new_def new_pool_free del: upt_rec_numeral)

lemma bist_ouch_index_simps [simp]:
  "bist_ouch_index (CHR ''A'') = 0"
  "bist_ouch_index (CHR ''J'') = 1"
  "bist_ouch_index (CHR ''U'') = 2"
  "bist_ouch_index (CHR ''C'') = 3"
  "bist_ouch_index (CHR ''E'') = 4"
  by (simp_all add: bist_ouch_index_def)

lemma bist_ouch_dispatch_wire:
  assumes "bist_ouch_wf msg" "bist_ouch_ok p" "bist_ouch_free msg p = i # js"
  shows "\<exists>p'. bist_ouch_dispatch (bist_ouch_index (hd (bist_ouch_wire msg))) (bist_ouch_wire msg @ r) p = Some ((i, msg), p')
    \<and> bist_ouch_ok p' \<and> bist_ouch_free msg p' = js \<and> (\<forall>m. length (bist_ouch_free m p) \<le> Suc (length (bist_ouch_free m p')))"
proof (cases msg)
  case (B_OUCHOrderAccepted m)
  then have w: "bist_ouch_wf_A m" and q: "pool_ok (bist_ouch_pool_A p)" "free_objects (bist_ouch_pool_A p) = i # js"
    using assms by (simp_all add: bist_ouch_ok_def)
  obtain s where "bist_ouch_wire_A m = CHR ''A'' # s" using bist_ouch_wire_A_shape [OF w] by blast
  moreover obtain p1 where "parse_into (bist_ouch_handler_A (bist_ouch_wire_A m @ r)) (bist_ouch_pool_A p) = Some (i, m, p1)"
    "pool_ok p1" "free_objects p1 = js" "pool_objects p1 = (pool_objects (bist_ouch_pool_A p))(i := m)"
    using parse_into_head [OF q, of "bist_ouch_handler_A (bist_ouch_wire_A m @ r)" m] bist_ouch_handler_A_wire [OF w] by blast
  moreover from this have "length (bist_ouch_free m' p) \<le> Suc (length (bist_ouch_free m' (p\<lparr>bist_ouch_pool_A := p1\<rparr>)))" for m'
    using q(2) by (cases m') simp_all
  ultimately show ?thesis using assms(2) B_OUCHOrderAccepted by (simp add: bist_ouch_dispatch_def bist_ouch_ok_def)
next
  case (B_OUCHOrderRejected m)
  then have w: "bist_ouch_wf_J m" and q: "pool_ok (bist_ouch_pool_J p)" "free_objects (bist_ouch_pool_J p) = i # js"
    using assms by (simp_all add: bist_ouch_ok_def)
  obtain s where "bist_ouch_wire_J m = CHR ''J'' # s" using bist_ouch_wire_J_shape [OF w] by blast
  moreover obtain p1 where "parse_into (bist_ouch_handler_J (bist_ouch_wire_J m @ r)) (bist_ouch_pool_J p) = Some (i, m, p1)"
    "pool_ok p1" "free_objects p1 = js" "pool_objects p1 = (pool_objects (bist_ouch_pool_J p))(i := m)"
    using parse_into_head [OF q, of "bist_ouch_handler_J (bist_ouch_wire_J m @ r)" m] bist_ouch_handler_J_wire [OF w] by blast
  moreover from this have "length (bist_ouch_free m' p) \<le> Suc (length (bist_ouch_free m' (p\<lparr>bist_ouch_pool_J := p1\<rparr>)))" for m'
    using q(2) by (cases m') simp_all
  ultimately show ?thesis using assms(2) B_OUCHOrderRejected by (simp add: bist_ouch_dispatch_def bist_ouch_ok_def)
next
  case (B_OUCHOrderReplaced m)
  then have w: "bist_ouch_wf_U m" and q: "pool_ok (bist_ouch_pool_U p)" "free_objects (bist_ouch_pool_U p) = i # js"
    using assms by (simp_all add: bist_ouch_ok_def)
  obtain s where "bist_ouch_wire_U m = CHR ''U'' # s" using bist_ouch_wire_U_shape [OF w] by blast
  moreover obtain p1 where "parse_into (bist_ouch_handler_U (bist_ouch_wire_U m @ r)) (bist_ouch_pool_U p) = Some (i, m, p1)"
    "pool_ok p1" "free_objects p1 = js" "pool_objects p1 = (pool_objects (bist_ouch_pool_U p))(i := m)"
    using parse_into_head [OF q, of "bist_ouch_handler_U (bist_ouch_wire_U m @ r)" m] bist_ouch_handler_U_wire [OF w] by blast
  moreover from this have "length (bist_ouch_free m' p) \<le> Suc (length (bist_ouch_free m' (p\<lparr>bist_ouch_pool_U := p1\<rparr>)))" for m'
    using q(2) by (cases m') simp_all
  ultimately show ?thesis using assms(2) B_OUCHOrderReplaced by (simp add: bist_ouch_dispatch_def bist_ouch_ok_def)
next
  case (B_OUCHOrderCancelled m)
  then have w: "bist_ouch_wf_C m" and q: "pool_ok (bist_ouch_pool_C p)" "free_objects (bist_ouch_pool_C p) = i # js"
    using assms by (simp_all add: bist_ouch_ok_def)
  obtain s where "bist_ouch_wire_C m = CHR ''C'' # s" using bist_ouch_wire_C_shape [OF w] by blast
  moreover obtain p1 where "parse_into (bist_ouch_handler_C (bist_ouch_wire_C m @ r)) (bist_ouch_pool_C p) = Some (i, m, p1)"
    "pool_ok p1" "free_objects p1 = js" "pool_objects p1 = (pool_objects (bist_ouch_pool_C p))(i := m)"
    using parse_into_head [OF q, of "bist_ouch_handler_C (bist_ouch_wire_C m @ r)" m] bist_ouch_handler_C_wire [OF w] by blast
  moreover from this have "length (bist_ouch_free m' p) \<le> Suc (length (bist_ouch_free m' (p\<lparr>bist_ouch_pool_C := p1\<rparr>)))" for m'
    using q(2) by (cases m') simp_all
  ultimately show ?thesis using assms(2) B_OUCHOrderCancelled by (simp add: bist_ouch_dispatch_def bist_ouch_ok_def)
next
  case (B_OUCHOrderExecuted m)
  then have w: "bist_ouch_wf_E m" and q: "pool_ok (bist_ouch_pool_E p)" "free_objects (bist_ouch_pool_E p) = i # js"
    using assms by (simp_all add: bist_ouch_ok_def)
  obtain s where "bist_ouch_wire_E m = CHR ''E'' # s" using bist_ouch_wire_E_shape [OF w] by blast
  moreover obtain p1 where "parse_into (bist_ouch_handler_E (bist_ouch_wire_E m @ r)) (bist_ouch_pool_E p) = Some (i, m, p1)"
    "pool_ok p1" "free_objects p1 = js" "pool_objects p1 = (pool_objects (bist_ouch_pool_E p))(i := m)"
    using parse_into_head [OF q, of "bist_ouch_handler_E (bist_ouch_wire_E m @ r)" m] bist_ouch_handler_E_wire [OF w] by blast
  moreover from this have "length (bist_ouch_free m' p) \<le> Suc (length (bist_ouch_free m' (p\<lparr>bist_ouch_pool_E := p1\<rparr>)))" for m'
    using q(2) by (cases m') simp_all
  ultimately show ?thesis using assms(2) B_OUCHOrderExecuted by (simp add: bist_ouch_dispatch_def bist_ouch_ok_def)
qed

lemma bist_ouch_parse_wire:
  assumes "bist_ouch_wf msg" "bist_ouch_ok p" "bist_ouch_free msg p = i # js" "length h = 3"
  shows "\<exists>p'. bist_ouch_parse (h @ bist_ouch_wire msg @ r) p = Some (Some (i, msg), p')
    \<and> bist_ouch_ok p' \<and> bist_ouch_free msg p' = js \<and> (\<forall>m. length (bist_ouch_free m p) \<le> Suc (length (bist_ouch_free m p')))"
proof -
  obtain c s where w: "bist_ouch_wire msg = c # s" "bist_ouch_index c \<noteq> 99"
    using assms(1) by (cases msg) (auto dest!: bist_ouch_wire_A_shape bist_ouch_wire_J_shape bist_ouch_wire_U_shape bist_ouch_wire_C_shape bist_ouch_wire_E_shape)
  then show ?thesis
    using bist_ouch_dispatch_wire [OF assms(1-3), of r] assms(4) by (auto simp: bist_ouch_parse_def read_front)
qed

interpretation bist_ouch: wire_parser bist_ouch_parse bist_ouch_wire bist_ouch_wf bist_ouch_ok bist_ouch_free 3
  by unfold_locales (use bist_ouch_parse_wire in blast)

end
