(* ===== verification/Ouch_Parser_NASDAQ.thy ===== *)
theory Ouch_Parser_NASDAQ
  imports Message_Pools
begin

text \<open>
  The OUCH parser of NASDAQ: src/src/protocol/parsers/OUCH/Parser_OUCH_NASDAQ.cpp and its header.  Every handler decodes one message
  type into an object of the pool of that type.  The layout is the one src/generated/GeneratedOUCHMessages_NASDAQ.h
  documents, and the lemmas show that every handler decodes it.
\<close>

subsection \<open>The handlers\<close>

text \<open>One definition per entry of \<^verbatim>\<open>makeMessageHandlersLookup\<close>, with the assignments in the order of
  the code; fields that a handler does not assign keep the value of the pooled object.\<close>

definition nasdaq_ouch_handler_S :: "string \<Rightarrow> NASDAQ_OUCHSystemEventMessage \<Rightarrow> NASDAQ_OUCHSystemEventMessage option" where
  "nasdaq_ouch_handler_S data m = do {
     timestamp' \<leftarrow> read_u64_be (drop 1 data);
     message_type' \<leftarrow> read_char data;
     event_code' \<leftarrow> read_char (drop 9 data);
     Some (m\<lparr>noS_timestamp := timestamp', noS_message_type := message_type',
            noS_event_code := event_code'\<rparr>) }"

definition nasdaq_ouch_handler_A :: "string \<Rightarrow> NASDAQ_OUCHOrderAcceptedMessage \<Rightarrow> NASDAQ_OUCHOrderAcceptedMessage option" where
  "nasdaq_ouch_handler_A data m = do {
     timestamp' \<leftarrow> read_u64_be (drop 1 data);
     user_ref_num' \<leftarrow> read_u32_be (drop 9 data);
     price' \<leftarrow> read_i64_be (drop 26 data);
     order_reference_number' \<leftarrow> read_u64_be (drop 36 data);
     quantity' \<leftarrow> read_u32_be (drop 14 data);
     appendage_length' \<leftarrow> read_u16_be (drop 62 data);
     message_type' \<leftarrow> read_char data;
     side' \<leftarrow> read_char (drop 13 data);
     symbol' \<leftarrow> read_bytes 8 (drop 18 data);
     time_in_force' \<leftarrow> read_char (drop 34 data);
     display' \<leftarrow> read_char (drop 35 data);
     capacity' \<leftarrow> read_char (drop 44 data);
     intermarket_sweep_eligibility' \<leftarrow> read_char (drop 45 data);
     cross_type' \<leftarrow> read_char (drop 46 data);
     order_state' \<leftarrow> read_char (drop 47 data);
     cl_ord_id' \<leftarrow> read_bytes 14 (drop 48 data);
     Some (m\<lparr>noA_timestamp := timestamp', noA_user_ref_num := user_ref_num', noA_price := price',
            noA_order_reference_number := order_reference_number', noA_quantity := quantity',
            noA_appendage_length := appendage_length', noA_message_type := message_type',
            noA_side := side', noA_symbol := symbol', noA_time_in_force := time_in_force',
            noA_display := display', noA_capacity := capacity',
            noA_intermarket_sweep_eligibility := intermarket_sweep_eligibility',
            noA_cross_type := cross_type', noA_order_state := order_state',
            noA_cl_ord_id := cl_ord_id'\<rparr>) }"

definition nasdaq_ouch_handler_U :: "string \<Rightarrow> NASDAQ_OUCHOrderReplacedMessage \<Rightarrow> NASDAQ_OUCHOrderReplacedMessage option" where
  "nasdaq_ouch_handler_U data m = do {
     timestamp' \<leftarrow> read_u64_be (drop 1 data);
     price' \<leftarrow> read_i64_be (drop 30 data);
     order_reference_number' \<leftarrow> read_u64_be (drop 40 data);
     orig_user_ref_num' \<leftarrow> read_u32_be (drop 9 data);
     user_ref_num' \<leftarrow> read_u32_be (drop 13 data);
     quantity' \<leftarrow> read_u32_be (drop 18 data);
     appendage_length' \<leftarrow> read_u16_be (drop 66 data);
     message_type' \<leftarrow> read_char data;
     side' \<leftarrow> read_char (drop 17 data);
     symbol' \<leftarrow> read_bytes 8 (drop 22 data);
     time_in_force' \<leftarrow> read_char (drop 38 data);
     order_state' \<leftarrow> read_char (drop 51 data);
     cl_ord_id' \<leftarrow> read_bytes 14 (drop 52 data);
     display' \<leftarrow> read_char (drop 39 data);
     capacity' \<leftarrow> read_char (drop 48 data);
     intermarket_sweep_eligibility' \<leftarrow> read_char (drop 49 data);
     cross_type' \<leftarrow> read_char (drop 50 data);
     Some (m\<lparr>noU_timestamp := timestamp', noU_price := price',
            noU_order_reference_number := order_reference_number',
            noU_orig_user_ref_num := orig_user_ref_num', noU_user_ref_num := user_ref_num',
            noU_quantity := quantity', noU_appendage_length := appendage_length',
            noU_message_type := message_type', noU_side := side', noU_symbol := symbol',
            noU_time_in_force := time_in_force', noU_order_state := order_state',
            noU_cl_ord_id := cl_ord_id', noU_display := display', noU_capacity := capacity',
            noU_intermarket_sweep_eligibility := intermarket_sweep_eligibility',
            noU_cross_type := cross_type'\<rparr>) }"

definition nasdaq_ouch_handler_C :: "string \<Rightarrow> NASDAQ_OUCHOrderCancelledMessage \<Rightarrow> NASDAQ_OUCHOrderCancelledMessage option" where
  "nasdaq_ouch_handler_C data m = do {
     timestamp' \<leftarrow> read_u64_be (drop 1 data);
     user_ref_num' \<leftarrow> read_u32_be (drop 9 data);
     quantity' \<leftarrow> read_u32_be (drop 13 data);
     appendage_length' \<leftarrow> read_u16_be (drop 18 data);
     message_type' \<leftarrow> read_char data;
     reason' \<leftarrow> read_char (drop 17 data);
     Some (m\<lparr>noC_timestamp := timestamp', noC_user_ref_num := user_ref_num',
            noC_quantity := quantity', noC_appendage_length := appendage_length',
            noC_message_type := message_type', noC_reason := reason'\<rparr>) }"

definition nasdaq_ouch_handler_E :: "string \<Rightarrow> NASDAQ_OUCHOrderExecutedMessage \<Rightarrow> NASDAQ_OUCHOrderExecutedMessage option" where
  "nasdaq_ouch_handler_E data m = do {
     timestamp' \<leftarrow> read_u64_be (drop 1 data);
     price' \<leftarrow> read_i64_be (drop 17 data);
     match_number' \<leftarrow> read_u64_be (drop 26 data);
     user_ref_num' \<leftarrow> read_u32_be (drop 9 data);
     quantity' \<leftarrow> read_u32_be (drop 13 data);
     appendage_length' \<leftarrow> read_u16_be (drop 34 data);
     message_type' \<leftarrow> read_char data;
     liquidity_flag' \<leftarrow> read_char (drop 25 data);
     Some (m\<lparr>noE_timestamp := timestamp', noE_price := price', noE_match_number := match_number',
            noE_user_ref_num := user_ref_num', noE_quantity := quantity',
            noE_appendage_length := appendage_length', noE_message_type := message_type',
            noE_liquidity_flag := liquidity_flag'\<rparr>) }"

definition nasdaq_ouch_handler_J :: "string \<Rightarrow> NASDAQ_OUCHOrderRejectedMessage \<Rightarrow> NASDAQ_OUCHOrderRejectedMessage option" where
  "nasdaq_ouch_handler_J data m = do {
     timestamp' \<leftarrow> read_u64_be (drop 1 data);
     user_ref_num' \<leftarrow> read_u32_be (drop 9 data);
     reason' \<leftarrow> read_u16_be (drop 13 data);
     appendage_length' \<leftarrow> read_u16_be (drop 29 data);
     message_type' \<leftarrow> read_char data;
     cl_ord_id' \<leftarrow> read_bytes 14 (drop 15 data);
     Some (m\<lparr>noJ_timestamp := timestamp', noJ_user_ref_num := user_ref_num', noJ_reason := reason',
            noJ_appendage_length := appendage_length', noJ_message_type := message_type',
            noJ_cl_ord_id := cl_ord_id'\<rparr>) }"

definition nasdaq_ouch_handler_B :: "string \<Rightarrow> NASDAQ_OUCHBrokenTradeMessage \<Rightarrow> NASDAQ_OUCHBrokenTradeMessage option" where
  "nasdaq_ouch_handler_B data m = do {
     timestamp' \<leftarrow> read_u64_be (drop 1 data);
     match_number' \<leftarrow> read_u64_be (drop 13 data);
     user_ref_num' \<leftarrow> read_u32_be (drop 9 data);
     appendage_length' \<leftarrow> read_u16_be (drop 36 data);
     message_type' \<leftarrow> read_char data;
     reason' \<leftarrow> read_char (drop 21 data);
     cl_ord_id' \<leftarrow> read_bytes 14 (drop 22 data);
     Some (m\<lparr>noB_timestamp := timestamp', noB_match_number := match_number',
            noB_user_ref_num := user_ref_num', noB_appendage_length := appendage_length',
            noB_message_type := message_type', noB_reason := reason',
            noB_cl_ord_id := cl_ord_id'\<rparr>) }"

definition nasdaq_ouch_handler_M :: "string \<Rightarrow> NASDAQ_OUCHOrderModifiedMessage \<Rightarrow> NASDAQ_OUCHOrderModifiedMessage option" where
  "nasdaq_ouch_handler_M data m = do {
     timestamp' \<leftarrow> read_u64_be (drop 1 data);
     user_ref_num' \<leftarrow> read_u32_be (drop 9 data);
     quantity' \<leftarrow> read_u32_be (drop 14 data);
     appendage_length' \<leftarrow> read_u16_be (drop 18 data);
     message_type' \<leftarrow> read_char data;
     side' \<leftarrow> read_char (drop 13 data);
     Some (m\<lparr>noM_timestamp := timestamp', noM_user_ref_num := user_ref_num',
            noM_quantity := quantity', noM_appendage_length := appendage_length',
            noM_message_type := message_type', noM_side := side'\<rparr>) }"

definition nasdaq_ouch_handler_P :: "string \<Rightarrow> NASDAQ_OUCHCancelPendingMessage \<Rightarrow> NASDAQ_OUCHCancelPendingMessage option" where
  "nasdaq_ouch_handler_P data m = do {
     timestamp' \<leftarrow> read_u64_be (drop 1 data);
     user_ref_num' \<leftarrow> read_u32_be (drop 9 data);
     appendage_length' \<leftarrow> read_u16_be (drop 13 data);
     message_type' \<leftarrow> read_char data;
     Some (m\<lparr>noP_timestamp := timestamp', noP_user_ref_num := user_ref_num',
            noP_appendage_length := appendage_length', noP_message_type := message_type'\<rparr>) }"

definition nasdaq_ouch_handler_I :: "string \<Rightarrow> NASDAQ_OUCHCancelRejectMessage \<Rightarrow> NASDAQ_OUCHCancelRejectMessage option" where
  "nasdaq_ouch_handler_I data m = do {
     timestamp' \<leftarrow> read_u64_be (drop 1 data);
     user_ref_num' \<leftarrow> read_u32_be (drop 9 data);
     appendage_length' \<leftarrow> read_u16_be (drop 13 data);
     message_type' \<leftarrow> read_char data;
     Some (m\<lparr>noI_timestamp := timestamp', noI_user_ref_num := user_ref_num',
            noI_appendage_length := appendage_length', noI_message_type := message_type'\<rparr>) }"

definition nasdaq_ouch_handler_Q :: "string \<Rightarrow> NASDAQ_OUCHAccountQueryResponse \<Rightarrow> NASDAQ_OUCHAccountQueryResponse option" where
  "nasdaq_ouch_handler_Q data m = do {
     timestamp' \<leftarrow> read_u64_be (drop 1 data);
     next_user_ref_num' \<leftarrow> read_u32_be (drop 9 data);
     appendage_length' \<leftarrow> read_u16_be (drop 13 data);
     message_type' \<leftarrow> read_char data;
     Some (m\<lparr>noQ_timestamp := timestamp', noQ_next_user_ref_num := next_user_ref_num',
            noQ_appendage_length := appendage_length', noQ_message_type := message_type'\<rparr>) }"

subsection \<open>The parser\<close>

record Parser_OUCH_NASDAQ =
  nasdaq_ouch_pool_S :: "NASDAQ_OUCHSystemEventMessage msgpool"
  nasdaq_ouch_pool_A :: "NASDAQ_OUCHOrderAcceptedMessage msgpool"
  nasdaq_ouch_pool_U :: "NASDAQ_OUCHOrderReplacedMessage msgpool"
  nasdaq_ouch_pool_C :: "NASDAQ_OUCHOrderCancelledMessage msgpool"
  nasdaq_ouch_pool_E :: "NASDAQ_OUCHOrderExecutedMessage msgpool"
  nasdaq_ouch_pool_J :: "NASDAQ_OUCHOrderRejectedMessage msgpool"
  nasdaq_ouch_pool_B :: "NASDAQ_OUCHBrokenTradeMessage msgpool"
  nasdaq_ouch_pool_M :: "NASDAQ_OUCHOrderModifiedMessage msgpool"
  nasdaq_ouch_pool_P :: "NASDAQ_OUCHCancelPendingMessage msgpool"
  nasdaq_ouch_pool_I :: "NASDAQ_OUCHCancelRejectMessage msgpool"
  nasdaq_ouch_pool_Q :: "NASDAQ_OUCHAccountQueryResponse msgpool"

definition nasdaq_ouch_index :: "char \<Rightarrow> nat" where
  "nasdaq_ouch_index c =
     (if c = CHR ''S'' then 0
      else if c = CHR ''A'' then 1
      else if c = CHR ''U'' then 2
      else if c = CHR ''C'' then 3
      else if c = CHR ''E'' then 4
      else if c = CHR ''J'' then 5
      else if c = CHR ''B'' then 6
      else if c = CHR ''M'' then 7
      else if c = CHR ''P'' then 8
      else if c = CHR ''I'' then 9
      else if c = CHR ''Q'' then 10
      else 99)"

text \<open>The call through the table of handlers.  The result is the index of the object in its pool with its
  contents.\<close>

definition nasdaq_ouch_dispatch :: "nat \<Rightarrow> string \<Rightarrow> Parser_OUCH_NASDAQ \<Rightarrow> ((nat \<times> NASDAQ_OUCHMessage) \<times> Parser_OUCH_NASDAQ) option" where
  "nasdaq_ouch_dispatch index data p =
     (if index = 0 then map_option (\<lambda>(i, m, q). ((i, N_OUCHSystemEvent m), p\<lparr>nasdaq_ouch_pool_S := q\<rparr>))
        (parse_into (nasdaq_ouch_handler_S data) (nasdaq_ouch_pool_S p))
      else if index = 1 then map_option (\<lambda>(i, m, q). ((i, N_OUCHOrderAccepted m), p\<lparr>nasdaq_ouch_pool_A := q\<rparr>))
        (parse_into (nasdaq_ouch_handler_A data) (nasdaq_ouch_pool_A p))
      else if index = 2 then map_option (\<lambda>(i, m, q). ((i, N_OUCHOrderReplaced m), p\<lparr>nasdaq_ouch_pool_U := q\<rparr>))
        (parse_into (nasdaq_ouch_handler_U data) (nasdaq_ouch_pool_U p))
      else if index = 3 then map_option (\<lambda>(i, m, q). ((i, N_OUCHOrderCancelled m), p\<lparr>nasdaq_ouch_pool_C := q\<rparr>))
        (parse_into (nasdaq_ouch_handler_C data) (nasdaq_ouch_pool_C p))
      else if index = 4 then map_option (\<lambda>(i, m, q). ((i, N_OUCHOrderExecuted m), p\<lparr>nasdaq_ouch_pool_E := q\<rparr>))
        (parse_into (nasdaq_ouch_handler_E data) (nasdaq_ouch_pool_E p))
      else if index = 5 then map_option (\<lambda>(i, m, q). ((i, N_OUCHOrderRejected m), p\<lparr>nasdaq_ouch_pool_J := q\<rparr>))
        (parse_into (nasdaq_ouch_handler_J data) (nasdaq_ouch_pool_J p))
      else if index = 6 then map_option (\<lambda>(i, m, q). ((i, N_OUCHBrokenTrade m), p\<lparr>nasdaq_ouch_pool_B := q\<rparr>))
        (parse_into (nasdaq_ouch_handler_B data) (nasdaq_ouch_pool_B p))
      else if index = 7 then map_option (\<lambda>(i, m, q). ((i, N_OUCHOrderModified m), p\<lparr>nasdaq_ouch_pool_M := q\<rparr>))
        (parse_into (nasdaq_ouch_handler_M data) (nasdaq_ouch_pool_M p))
      else if index = 8 then map_option (\<lambda>(i, m, q). ((i, N_OUCHCancelPending m), p\<lparr>nasdaq_ouch_pool_P := q\<rparr>))
        (parse_into (nasdaq_ouch_handler_P data) (nasdaq_ouch_pool_P p))
      else if index = 9 then map_option (\<lambda>(i, m, q). ((i, N_OUCHCancelReject m), p\<lparr>nasdaq_ouch_pool_I := q\<rparr>))
        (parse_into (nasdaq_ouch_handler_I data) (nasdaq_ouch_pool_I p))
      else if index = 10 then map_option (\<lambda>(i, m, q). ((i, N_OUCHAccountQueryResponse m), p\<lparr>nasdaq_ouch_pool_Q := q\<rparr>))
        (parse_into (nasdaq_ouch_handler_Q data) (nasdaq_ouch_pool_Q p))
      else None)"

text \<open>\<^verbatim>\<open>parse\<close>: an unknown type leaves the variant with the null pointer of its first alternative, here
  \<open>None\<close>.\<close>

definition nasdaq_ouch_parse :: "string \<Rightarrow> Parser_OUCH_NASDAQ \<Rightarrow> ((nat \<times> NASDAQ_OUCHMessage) option \<times> Parser_OUCH_NASDAQ) option" where
  "nasdaq_ouch_parse data p = do {
     c \<leftarrow> read_char (drop 3 data);
     if nasdaq_ouch_index c \<noteq> 99
     then map_option (\<lambda>(r, p'). (Some r, p')) (nasdaq_ouch_dispatch (nasdaq_ouch_index c) (drop 3 data) p)
     else Some (None, p) }"

definition nasdaq_ouch_release :: "nat \<times> NASDAQ_OUCHMessage \<Rightarrow> Parser_OUCH_NASDAQ \<Rightarrow> Parser_OUCH_NASDAQ" where
  "nasdaq_ouch_release r p =
     (case snd r of
        N_OUCHSystemEvent _ \<Rightarrow> p\<lparr>nasdaq_ouch_pool_S := pool_put (fst r) (nasdaq_ouch_pool_S p)\<rparr>
      | N_OUCHOrderAccepted _ \<Rightarrow> p\<lparr>nasdaq_ouch_pool_A := pool_put (fst r) (nasdaq_ouch_pool_A p)\<rparr>
      | N_OUCHOrderReplaced _ \<Rightarrow> p\<lparr>nasdaq_ouch_pool_U := pool_put (fst r) (nasdaq_ouch_pool_U p)\<rparr>
      | N_OUCHOrderCancelled _ \<Rightarrow> p\<lparr>nasdaq_ouch_pool_C := pool_put (fst r) (nasdaq_ouch_pool_C p)\<rparr>
      | N_OUCHOrderExecuted _ \<Rightarrow> p\<lparr>nasdaq_ouch_pool_E := pool_put (fst r) (nasdaq_ouch_pool_E p)\<rparr>
      | N_OUCHOrderRejected _ \<Rightarrow> p\<lparr>nasdaq_ouch_pool_J := pool_put (fst r) (nasdaq_ouch_pool_J p)\<rparr>
      | N_OUCHBrokenTrade _ \<Rightarrow> p\<lparr>nasdaq_ouch_pool_B := pool_put (fst r) (nasdaq_ouch_pool_B p)\<rparr>
      | N_OUCHOrderModified _ \<Rightarrow> p\<lparr>nasdaq_ouch_pool_M := pool_put (fst r) (nasdaq_ouch_pool_M p)\<rparr>
      | N_OUCHCancelPending _ \<Rightarrow> p\<lparr>nasdaq_ouch_pool_P := pool_put (fst r) (nasdaq_ouch_pool_P p)\<rparr>
      | N_OUCHCancelReject _ \<Rightarrow> p\<lparr>nasdaq_ouch_pool_I := pool_put (fst r) (nasdaq_ouch_pool_I p)\<rparr>
      | N_OUCHAccountQueryResponse _ \<Rightarrow> p\<lparr>nasdaq_ouch_pool_Q := pool_put (fst r) (nasdaq_ouch_pool_Q p)\<rparr>)"

subsection \<open>The documented layout\<close>

text \<open>The offsets and lengths that src/generated/GeneratedOUCHMessages_NASDAQ.h documents for the fields, as an encoder: the fields in
  the order of their offsets, numbers in network byte order.\<close>

definition nasdaq_ouch_wire_S :: "NASDAQ_OUCHSystemEventMessage \<Rightarrow> string" where
  "nasdaq_ouch_wire_S m =
     [noS_message_type m] @ bytes_u64_be (noS_timestamp m) @ [noS_event_code m]"

definition nasdaq_ouch_wf_S :: "NASDAQ_OUCHSystemEventMessage \<Rightarrow> bool" where
  "nasdaq_ouch_wf_S m \<longleftrightarrow> noS_message_type m = CHR ''S''"

lemma nasdaq_ouch_handler_S_wire:
  "nasdaq_ouch_wf_S m \<Longrightarrow> nasdaq_ouch_handler_S (nasdaq_ouch_wire_S m @ r) m0 = Some m"
  by (cases m, cases m0) (simp add: nasdaq_ouch_handler_S_def nasdaq_ouch_wire_S_def nasdaq_ouch_wf_S_def wire_simps)

lemma nasdaq_ouch_wire_S_shape:
  "nasdaq_ouch_wf_S m \<Longrightarrow> \<exists>s. nasdaq_ouch_wire_S m = CHR ''S'' # s \<and> length s = 9"
  by (simp add: nasdaq_ouch_wire_S_def nasdaq_ouch_wf_S_def)

definition nasdaq_ouch_wire_A :: "NASDAQ_OUCHOrderAcceptedMessage \<Rightarrow> string" where
  "nasdaq_ouch_wire_A m =
     [noA_message_type m] @ bytes_u64_be (noA_timestamp m) @ bytes_u32_be (noA_user_ref_num m) @
     [noA_side m] @ bytes_u32_be (noA_quantity m) @ noA_symbol m @ bytes_u64_be (noA_price m) @
     [noA_time_in_force m] @ [noA_display m] @ bytes_u64_be (noA_order_reference_number m) @
     [noA_capacity m] @ [noA_intermarket_sweep_eligibility m] @ [noA_cross_type m] @
     [noA_order_state m] @ noA_cl_ord_id m @ bytes_u16_be (noA_appendage_length m)"

definition nasdaq_ouch_wf_A :: "NASDAQ_OUCHOrderAcceptedMessage \<Rightarrow> bool" where
  "nasdaq_ouch_wf_A m \<longleftrightarrow> noA_message_type m = CHR ''A''
     \<and> length (noA_symbol m) = 8
     \<and> length (noA_cl_ord_id m) = 14"

lemma nasdaq_ouch_handler_A_wire:
  "nasdaq_ouch_wf_A m \<Longrightarrow> nasdaq_ouch_handler_A (nasdaq_ouch_wire_A m @ r) m0 = Some m"
  by (cases m, cases m0) (simp add: nasdaq_ouch_handler_A_def nasdaq_ouch_wire_A_def nasdaq_ouch_wf_A_def wire_simps)

lemma nasdaq_ouch_wire_A_shape:
  "nasdaq_ouch_wf_A m \<Longrightarrow> \<exists>s. nasdaq_ouch_wire_A m = CHR ''A'' # s \<and> length s = 63"
  by (simp add: nasdaq_ouch_wire_A_def nasdaq_ouch_wf_A_def)

definition nasdaq_ouch_wire_U :: "NASDAQ_OUCHOrderReplacedMessage \<Rightarrow> string" where
  "nasdaq_ouch_wire_U m =
     [noU_message_type m] @ bytes_u64_be (noU_timestamp m) @ bytes_u32_be (noU_orig_user_ref_num m) @
     bytes_u32_be (noU_user_ref_num m) @ [noU_side m] @ bytes_u32_be (noU_quantity m) @ noU_symbol m @
     bytes_u64_be (noU_price m) @ [noU_time_in_force m] @ [noU_display m] @
     bytes_u64_be (noU_order_reference_number m) @ [noU_capacity m] @
     [noU_intermarket_sweep_eligibility m] @ [noU_cross_type m] @ [noU_order_state m] @
     noU_cl_ord_id m @ bytes_u16_be (noU_appendage_length m)"

definition nasdaq_ouch_wf_U :: "NASDAQ_OUCHOrderReplacedMessage \<Rightarrow> bool" where
  "nasdaq_ouch_wf_U m \<longleftrightarrow> noU_message_type m = CHR ''U''
     \<and> length (noU_symbol m) = 8
     \<and> length (noU_cl_ord_id m) = 14"

lemma nasdaq_ouch_handler_U_wire:
  "nasdaq_ouch_wf_U m \<Longrightarrow> nasdaq_ouch_handler_U (nasdaq_ouch_wire_U m @ r) m0 = Some m"
  by (cases m, cases m0) (simp add: nasdaq_ouch_handler_U_def nasdaq_ouch_wire_U_def nasdaq_ouch_wf_U_def wire_simps)

lemma nasdaq_ouch_wire_U_shape:
  "nasdaq_ouch_wf_U m \<Longrightarrow> \<exists>s. nasdaq_ouch_wire_U m = CHR ''U'' # s \<and> length s = 67"
  by (simp add: nasdaq_ouch_wire_U_def nasdaq_ouch_wf_U_def)

definition nasdaq_ouch_wire_C :: "NASDAQ_OUCHOrderCancelledMessage \<Rightarrow> string" where
  "nasdaq_ouch_wire_C m =
     [noC_message_type m] @ bytes_u64_be (noC_timestamp m) @ bytes_u32_be (noC_user_ref_num m) @
     bytes_u32_be (noC_quantity m) @ [noC_reason m] @ bytes_u16_be (noC_appendage_length m)"

definition nasdaq_ouch_wf_C :: "NASDAQ_OUCHOrderCancelledMessage \<Rightarrow> bool" where
  "nasdaq_ouch_wf_C m \<longleftrightarrow> noC_message_type m = CHR ''C''"

lemma nasdaq_ouch_handler_C_wire:
  "nasdaq_ouch_wf_C m \<Longrightarrow> nasdaq_ouch_handler_C (nasdaq_ouch_wire_C m @ r) m0 = Some m"
  by (cases m, cases m0) (simp add: nasdaq_ouch_handler_C_def nasdaq_ouch_wire_C_def nasdaq_ouch_wf_C_def wire_simps)

lemma nasdaq_ouch_wire_C_shape:
  "nasdaq_ouch_wf_C m \<Longrightarrow> \<exists>s. nasdaq_ouch_wire_C m = CHR ''C'' # s \<and> length s = 19"
  by (simp add: nasdaq_ouch_wire_C_def nasdaq_ouch_wf_C_def)

definition nasdaq_ouch_wire_E :: "NASDAQ_OUCHOrderExecutedMessage \<Rightarrow> string" where
  "nasdaq_ouch_wire_E m =
     [noE_message_type m] @ bytes_u64_be (noE_timestamp m) @ bytes_u32_be (noE_user_ref_num m) @
     bytes_u32_be (noE_quantity m) @ bytes_u64_be (noE_price m) @ [noE_liquidity_flag m] @
     bytes_u64_be (noE_match_number m) @ bytes_u16_be (noE_appendage_length m)"

definition nasdaq_ouch_wf_E :: "NASDAQ_OUCHOrderExecutedMessage \<Rightarrow> bool" where
  "nasdaq_ouch_wf_E m \<longleftrightarrow> noE_message_type m = CHR ''E''"

lemma nasdaq_ouch_handler_E_wire:
  "nasdaq_ouch_wf_E m \<Longrightarrow> nasdaq_ouch_handler_E (nasdaq_ouch_wire_E m @ r) m0 = Some m"
  by (cases m, cases m0) (simp add: nasdaq_ouch_handler_E_def nasdaq_ouch_wire_E_def nasdaq_ouch_wf_E_def wire_simps)

lemma nasdaq_ouch_wire_E_shape:
  "nasdaq_ouch_wf_E m \<Longrightarrow> \<exists>s. nasdaq_ouch_wire_E m = CHR ''E'' # s \<and> length s = 35"
  by (simp add: nasdaq_ouch_wire_E_def nasdaq_ouch_wf_E_def)

definition nasdaq_ouch_wire_J :: "NASDAQ_OUCHOrderRejectedMessage \<Rightarrow> string" where
  "nasdaq_ouch_wire_J m =
     [noJ_message_type m] @ bytes_u64_be (noJ_timestamp m) @ bytes_u32_be (noJ_user_ref_num m) @
     bytes_u16_be (noJ_reason m) @ noJ_cl_ord_id m @ bytes_u16_be (noJ_appendage_length m)"

definition nasdaq_ouch_wf_J :: "NASDAQ_OUCHOrderRejectedMessage \<Rightarrow> bool" where
  "nasdaq_ouch_wf_J m \<longleftrightarrow> noJ_message_type m = CHR ''J''
     \<and> length (noJ_cl_ord_id m) = 14"

lemma nasdaq_ouch_handler_J_wire:
  "nasdaq_ouch_wf_J m \<Longrightarrow> nasdaq_ouch_handler_J (nasdaq_ouch_wire_J m @ r) m0 = Some m"
  by (cases m, cases m0) (simp add: nasdaq_ouch_handler_J_def nasdaq_ouch_wire_J_def nasdaq_ouch_wf_J_def wire_simps)

lemma nasdaq_ouch_wire_J_shape:
  "nasdaq_ouch_wf_J m \<Longrightarrow> \<exists>s. nasdaq_ouch_wire_J m = CHR ''J'' # s \<and> length s = 30"
  by (simp add: nasdaq_ouch_wire_J_def nasdaq_ouch_wf_J_def)

definition nasdaq_ouch_wire_B :: "NASDAQ_OUCHBrokenTradeMessage \<Rightarrow> string" where
  "nasdaq_ouch_wire_B m =
     [noB_message_type m] @ bytes_u64_be (noB_timestamp m) @ bytes_u32_be (noB_user_ref_num m) @
     bytes_u64_be (noB_match_number m) @ [noB_reason m] @ noB_cl_ord_id m @
     bytes_u16_be (noB_appendage_length m)"

definition nasdaq_ouch_wf_B :: "NASDAQ_OUCHBrokenTradeMessage \<Rightarrow> bool" where
  "nasdaq_ouch_wf_B m \<longleftrightarrow> noB_message_type m = CHR ''B''
     \<and> length (noB_cl_ord_id m) = 14"

lemma nasdaq_ouch_handler_B_wire:
  "nasdaq_ouch_wf_B m \<Longrightarrow> nasdaq_ouch_handler_B (nasdaq_ouch_wire_B m @ r) m0 = Some m"
  by (cases m, cases m0) (simp add: nasdaq_ouch_handler_B_def nasdaq_ouch_wire_B_def nasdaq_ouch_wf_B_def wire_simps)

lemma nasdaq_ouch_wire_B_shape:
  "nasdaq_ouch_wf_B m \<Longrightarrow> \<exists>s. nasdaq_ouch_wire_B m = CHR ''B'' # s \<and> length s = 37"
  by (simp add: nasdaq_ouch_wire_B_def nasdaq_ouch_wf_B_def)

definition nasdaq_ouch_wire_M :: "NASDAQ_OUCHOrderModifiedMessage \<Rightarrow> string" where
  "nasdaq_ouch_wire_M m =
     [noM_message_type m] @ bytes_u64_be (noM_timestamp m) @ bytes_u32_be (noM_user_ref_num m) @
     [noM_side m] @ bytes_u32_be (noM_quantity m) @ bytes_u16_be (noM_appendage_length m)"

definition nasdaq_ouch_wf_M :: "NASDAQ_OUCHOrderModifiedMessage \<Rightarrow> bool" where
  "nasdaq_ouch_wf_M m \<longleftrightarrow> noM_message_type m = CHR ''M''"

lemma nasdaq_ouch_handler_M_wire:
  "nasdaq_ouch_wf_M m \<Longrightarrow> nasdaq_ouch_handler_M (nasdaq_ouch_wire_M m @ r) m0 = Some m"
  by (cases m, cases m0) (simp add: nasdaq_ouch_handler_M_def nasdaq_ouch_wire_M_def nasdaq_ouch_wf_M_def wire_simps)

lemma nasdaq_ouch_wire_M_shape:
  "nasdaq_ouch_wf_M m \<Longrightarrow> \<exists>s. nasdaq_ouch_wire_M m = CHR ''M'' # s \<and> length s = 19"
  by (simp add: nasdaq_ouch_wire_M_def nasdaq_ouch_wf_M_def)

definition nasdaq_ouch_wire_P :: "NASDAQ_OUCHCancelPendingMessage \<Rightarrow> string" where
  "nasdaq_ouch_wire_P m =
     [noP_message_type m] @ bytes_u64_be (noP_timestamp m) @ bytes_u32_be (noP_user_ref_num m) @
     bytes_u16_be (noP_appendage_length m)"

definition nasdaq_ouch_wf_P :: "NASDAQ_OUCHCancelPendingMessage \<Rightarrow> bool" where
  "nasdaq_ouch_wf_P m \<longleftrightarrow> noP_message_type m = CHR ''P''"

lemma nasdaq_ouch_handler_P_wire:
  "nasdaq_ouch_wf_P m \<Longrightarrow> nasdaq_ouch_handler_P (nasdaq_ouch_wire_P m @ r) m0 = Some m"
  by (cases m, cases m0) (simp add: nasdaq_ouch_handler_P_def nasdaq_ouch_wire_P_def nasdaq_ouch_wf_P_def wire_simps)

lemma nasdaq_ouch_wire_P_shape:
  "nasdaq_ouch_wf_P m \<Longrightarrow> \<exists>s. nasdaq_ouch_wire_P m = CHR ''P'' # s \<and> length s = 14"
  by (simp add: nasdaq_ouch_wire_P_def nasdaq_ouch_wf_P_def)

definition nasdaq_ouch_wire_I :: "NASDAQ_OUCHCancelRejectMessage \<Rightarrow> string" where
  "nasdaq_ouch_wire_I m =
     [noI_message_type m] @ bytes_u64_be (noI_timestamp m) @ bytes_u32_be (noI_user_ref_num m) @
     bytes_u16_be (noI_appendage_length m)"

definition nasdaq_ouch_wf_I :: "NASDAQ_OUCHCancelRejectMessage \<Rightarrow> bool" where
  "nasdaq_ouch_wf_I m \<longleftrightarrow> noI_message_type m = CHR ''I''"

lemma nasdaq_ouch_handler_I_wire:
  "nasdaq_ouch_wf_I m \<Longrightarrow> nasdaq_ouch_handler_I (nasdaq_ouch_wire_I m @ r) m0 = Some m"
  by (cases m, cases m0) (simp add: nasdaq_ouch_handler_I_def nasdaq_ouch_wire_I_def nasdaq_ouch_wf_I_def wire_simps)

lemma nasdaq_ouch_wire_I_shape:
  "nasdaq_ouch_wf_I m \<Longrightarrow> \<exists>s. nasdaq_ouch_wire_I m = CHR ''I'' # s \<and> length s = 14"
  by (simp add: nasdaq_ouch_wire_I_def nasdaq_ouch_wf_I_def)

definition nasdaq_ouch_wire_Q :: "NASDAQ_OUCHAccountQueryResponse \<Rightarrow> string" where
  "nasdaq_ouch_wire_Q m =
     [noQ_message_type m] @ bytes_u64_be (noQ_timestamp m) @ bytes_u32_be (noQ_next_user_ref_num m) @
     bytes_u16_be (noQ_appendage_length m)"

definition nasdaq_ouch_wf_Q :: "NASDAQ_OUCHAccountQueryResponse \<Rightarrow> bool" where
  "nasdaq_ouch_wf_Q m \<longleftrightarrow> noQ_message_type m = CHR ''Q''"

lemma nasdaq_ouch_handler_Q_wire:
  "nasdaq_ouch_wf_Q m \<Longrightarrow> nasdaq_ouch_handler_Q (nasdaq_ouch_wire_Q m @ r) m0 = Some m"
  by (cases m, cases m0) (simp add: nasdaq_ouch_handler_Q_def nasdaq_ouch_wire_Q_def nasdaq_ouch_wf_Q_def wire_simps)

lemma nasdaq_ouch_wire_Q_shape:
  "nasdaq_ouch_wf_Q m \<Longrightarrow> \<exists>s. nasdaq_ouch_wire_Q m = CHR ''Q'' # s \<and> length s = 14"
  by (simp add: nasdaq_ouch_wire_Q_def nasdaq_ouch_wf_Q_def)

primrec nasdaq_ouch_wire :: "NASDAQ_OUCHMessage \<Rightarrow> string" where
  "nasdaq_ouch_wire (N_OUCHSystemEvent m) = nasdaq_ouch_wire_S m"
| "nasdaq_ouch_wire (N_OUCHOrderAccepted m) = nasdaq_ouch_wire_A m"
| "nasdaq_ouch_wire (N_OUCHOrderReplaced m) = nasdaq_ouch_wire_U m"
| "nasdaq_ouch_wire (N_OUCHOrderCancelled m) = nasdaq_ouch_wire_C m"
| "nasdaq_ouch_wire (N_OUCHOrderExecuted m) = nasdaq_ouch_wire_E m"
| "nasdaq_ouch_wire (N_OUCHOrderRejected m) = nasdaq_ouch_wire_J m"
| "nasdaq_ouch_wire (N_OUCHBrokenTrade m) = nasdaq_ouch_wire_B m"
| "nasdaq_ouch_wire (N_OUCHOrderModified m) = nasdaq_ouch_wire_M m"
| "nasdaq_ouch_wire (N_OUCHCancelPending m) = nasdaq_ouch_wire_P m"
| "nasdaq_ouch_wire (N_OUCHCancelReject m) = nasdaq_ouch_wire_I m"
| "nasdaq_ouch_wire (N_OUCHAccountQueryResponse m) = nasdaq_ouch_wire_Q m"

primrec nasdaq_ouch_wf :: "NASDAQ_OUCHMessage \<Rightarrow> bool" where
  "nasdaq_ouch_wf (N_OUCHSystemEvent m) = nasdaq_ouch_wf_S m"
| "nasdaq_ouch_wf (N_OUCHOrderAccepted m) = nasdaq_ouch_wf_A m"
| "nasdaq_ouch_wf (N_OUCHOrderReplaced m) = nasdaq_ouch_wf_U m"
| "nasdaq_ouch_wf (N_OUCHOrderCancelled m) = nasdaq_ouch_wf_C m"
| "nasdaq_ouch_wf (N_OUCHOrderExecuted m) = nasdaq_ouch_wf_E m"
| "nasdaq_ouch_wf (N_OUCHOrderRejected m) = nasdaq_ouch_wf_J m"
| "nasdaq_ouch_wf (N_OUCHBrokenTrade m) = nasdaq_ouch_wf_B m"
| "nasdaq_ouch_wf (N_OUCHOrderModified m) = nasdaq_ouch_wf_M m"
| "nasdaq_ouch_wf (N_OUCHCancelPending m) = nasdaq_ouch_wf_P m"
| "nasdaq_ouch_wf (N_OUCHCancelReject m) = nasdaq_ouch_wf_I m"
| "nasdaq_ouch_wf (N_OUCHAccountQueryResponse m) = nasdaq_ouch_wf_Q m"

text \<open>The objects still free for the type of a message, and the parser with its pools in order.\<close>

primrec nasdaq_ouch_free :: "NASDAQ_OUCHMessage \<Rightarrow> Parser_OUCH_NASDAQ \<Rightarrow> nat list" where
  "nasdaq_ouch_free (N_OUCHSystemEvent m) p = free_objects (nasdaq_ouch_pool_S p)"
| "nasdaq_ouch_free (N_OUCHOrderAccepted m) p = free_objects (nasdaq_ouch_pool_A p)"
| "nasdaq_ouch_free (N_OUCHOrderReplaced m) p = free_objects (nasdaq_ouch_pool_U p)"
| "nasdaq_ouch_free (N_OUCHOrderCancelled m) p = free_objects (nasdaq_ouch_pool_C p)"
| "nasdaq_ouch_free (N_OUCHOrderExecuted m) p = free_objects (nasdaq_ouch_pool_E p)"
| "nasdaq_ouch_free (N_OUCHOrderRejected m) p = free_objects (nasdaq_ouch_pool_J p)"
| "nasdaq_ouch_free (N_OUCHBrokenTrade m) p = free_objects (nasdaq_ouch_pool_B p)"
| "nasdaq_ouch_free (N_OUCHOrderModified m) p = free_objects (nasdaq_ouch_pool_M p)"
| "nasdaq_ouch_free (N_OUCHCancelPending m) p = free_objects (nasdaq_ouch_pool_P p)"
| "nasdaq_ouch_free (N_OUCHCancelReject m) p = free_objects (nasdaq_ouch_pool_I p)"
| "nasdaq_ouch_free (N_OUCHAccountQueryResponse m) p = free_objects (nasdaq_ouch_pool_Q p)"

definition nasdaq_ouch_ok :: "Parser_OUCH_NASDAQ \<Rightarrow> bool" where
  "nasdaq_ouch_ok p \<longleftrightarrow> pool_ok (nasdaq_ouch_pool_S p)
     \<and> pool_ok (nasdaq_ouch_pool_A p)
     \<and> pool_ok (nasdaq_ouch_pool_U p)
     \<and> pool_ok (nasdaq_ouch_pool_C p)
     \<and> pool_ok (nasdaq_ouch_pool_E p)
     \<and> pool_ok (nasdaq_ouch_pool_J p)
     \<and> pool_ok (nasdaq_ouch_pool_B p)
     \<and> pool_ok (nasdaq_ouch_pool_M p)
     \<and> pool_ok (nasdaq_ouch_pool_P p)
     \<and> pool_ok (nasdaq_ouch_pool_I p)
     \<and> pool_ok (nasdaq_ouch_pool_Q p)"

text \<open>The constructor: the objects have the initial values of their structures, and every pool is initialised.\<close>

definition nasdaq_ouch_new :: Parser_OUCH_NASDAQ where
  "nasdaq_ouch_new =
     \<lparr>nasdaq_ouch_pool_S = new_pool
        \<lparr>noS_timestamp = 0, noS_message_type = CHR ''S'', noS_event_code = CHR 0x00\<rparr>,
      nasdaq_ouch_pool_A = new_pool
        \<lparr>noA_timestamp = 0, noA_price = 0, noA_order_reference_number = 0, noA_user_ref_num = 0,
         noA_quantity = 0, noA_appendage_length = 0, noA_message_type = CHR ''A'', noA_side = CHR 0x00,
         noA_symbol = replicate 8 (CHR 0x00), noA_time_in_force = CHR ''0'', noA_display = CHR 0x00,
         noA_capacity = CHR 0x00, noA_intermarket_sweep_eligibility = CHR 0x00,
         noA_cross_type = CHR 0x00, noA_order_state = CHR 0x00, noA_cl_ord_id = replicate 14 (CHR 0x00)\<rparr>,
      nasdaq_ouch_pool_U = new_pool
        \<lparr>noU_timestamp = 0, noU_price = 0, noU_order_reference_number = 0, noU_orig_user_ref_num = 0,
         noU_user_ref_num = 0, noU_quantity = 0, noU_appendage_length = 0,
         noU_message_type = CHR ''U'', noU_side = CHR 0x00, noU_symbol = replicate 8 (CHR 0x00),
         noU_time_in_force = CHR ''0'', noU_order_state = CHR 0x00,
         noU_cl_ord_id = replicate 14 (CHR 0x00), noU_display = CHR 0x00, noU_capacity = CHR 0x00,
         noU_intermarket_sweep_eligibility = CHR 0x00, noU_cross_type = CHR 0x00\<rparr>,
      nasdaq_ouch_pool_C = new_pool
        \<lparr>noC_timestamp = 0, noC_user_ref_num = 0, noC_quantity = 0, noC_appendage_length = 0,
         noC_message_type = CHR ''C'', noC_reason = CHR 0x00\<rparr>,
      nasdaq_ouch_pool_E = new_pool
        \<lparr>noE_timestamp = 0, noE_price = 0, noE_match_number = 0, noE_user_ref_num = 0,
         noE_quantity = 0, noE_appendage_length = 0, noE_message_type = CHR ''E'',
         noE_liquidity_flag = CHR 0x00\<rparr>,
      nasdaq_ouch_pool_J = new_pool
        \<lparr>noJ_timestamp = 0, noJ_user_ref_num = 0, noJ_reason = 0, noJ_appendage_length = 0,
         noJ_message_type = CHR ''J'', noJ_cl_ord_id = replicate 14 (CHR 0x00)\<rparr>,
      nasdaq_ouch_pool_B = new_pool
        \<lparr>noB_timestamp = 0, noB_match_number = 0, noB_user_ref_num = 0, noB_appendage_length = 0,
         noB_message_type = CHR ''B'', noB_reason = CHR 0x00, noB_cl_ord_id = replicate 14 (CHR 0x00)\<rparr>,
      nasdaq_ouch_pool_M = new_pool
        \<lparr>noM_timestamp = 0, noM_user_ref_num = 0, noM_quantity = 0, noM_appendage_length = 0,
         noM_message_type = CHR ''M'', noM_side = CHR 0x00\<rparr>,
      nasdaq_ouch_pool_P = new_pool
        \<lparr>noP_timestamp = 0, noP_user_ref_num = 0, noP_appendage_length = 0, noP_message_type = CHR ''P''\<rparr>,
      nasdaq_ouch_pool_I = new_pool
        \<lparr>noI_timestamp = 0, noI_user_ref_num = 0, noI_appendage_length = 0, noI_message_type = CHR ''I''\<rparr>,
      nasdaq_ouch_pool_Q = new_pool
        \<lparr>noQ_timestamp = 0, noQ_next_user_ref_num = 0, noQ_appendage_length = 0,
         noQ_message_type = CHR ''Q''\<rparr>\<rparr>"

lemma nasdaq_ouch_new_ok: "nasdaq_ouch_ok nasdaq_ouch_new"
  by (simp add: nasdaq_ouch_ok_def nasdaq_ouch_new_def new_pool_free)

lemma nasdaq_ouch_new_free: "nasdaq_ouch_free m nasdaq_ouch_new = [0..<511]"
  by (cases m) (simp_all add: nasdaq_ouch_new_def new_pool_free del: upt_rec_numeral)

lemma nasdaq_ouch_index_simps [simp]:
  "nasdaq_ouch_index (CHR ''S'') = 0"
  "nasdaq_ouch_index (CHR ''A'') = 1"
  "nasdaq_ouch_index (CHR ''U'') = 2"
  "nasdaq_ouch_index (CHR ''C'') = 3"
  "nasdaq_ouch_index (CHR ''E'') = 4"
  "nasdaq_ouch_index (CHR ''J'') = 5"
  "nasdaq_ouch_index (CHR ''B'') = 6"
  "nasdaq_ouch_index (CHR ''M'') = 7"
  "nasdaq_ouch_index (CHR ''P'') = 8"
  "nasdaq_ouch_index (CHR ''I'') = 9"
  "nasdaq_ouch_index (CHR ''Q'') = 10"
  by (simp_all add: nasdaq_ouch_index_def)

lemma nasdaq_ouch_dispatch_wire:
  assumes "nasdaq_ouch_wf msg" "nasdaq_ouch_ok p" "nasdaq_ouch_free msg p = i # js"
  shows "\<exists>p'. nasdaq_ouch_dispatch (nasdaq_ouch_index (hd (nasdaq_ouch_wire msg))) (nasdaq_ouch_wire msg @ r) p = Some ((i, msg), p')
    \<and> nasdaq_ouch_ok p' \<and> nasdaq_ouch_free msg p' = js \<and> (\<forall>m. length (nasdaq_ouch_free m p) \<le> Suc (length (nasdaq_ouch_free m p')))"
proof (cases msg)
  case (N_OUCHSystemEvent m)
  then have w: "nasdaq_ouch_wf_S m" and q: "pool_ok (nasdaq_ouch_pool_S p)" "free_objects (nasdaq_ouch_pool_S p) = i # js"
    using assms by (simp_all add: nasdaq_ouch_ok_def)
  obtain s where "nasdaq_ouch_wire_S m = CHR ''S'' # s" using nasdaq_ouch_wire_S_shape [OF w] by blast
  moreover obtain p1 where "parse_into (nasdaq_ouch_handler_S (nasdaq_ouch_wire_S m @ r)) (nasdaq_ouch_pool_S p) = Some (i, m, p1)"
    "pool_ok p1" "free_objects p1 = js" "pool_objects p1 = (pool_objects (nasdaq_ouch_pool_S p))(i := m)"
    using parse_into_head [OF q, of "nasdaq_ouch_handler_S (nasdaq_ouch_wire_S m @ r)" m] nasdaq_ouch_handler_S_wire [OF w] by blast
  moreover from this have "length (nasdaq_ouch_free m' p) \<le> Suc (length (nasdaq_ouch_free m' (p\<lparr>nasdaq_ouch_pool_S := p1\<rparr>)))" for m'
    using q(2) by (cases m') simp_all
  ultimately show ?thesis using assms(2) N_OUCHSystemEvent by (simp add: nasdaq_ouch_dispatch_def nasdaq_ouch_ok_def)
next
  case (N_OUCHOrderAccepted m)
  then have w: "nasdaq_ouch_wf_A m" and q: "pool_ok (nasdaq_ouch_pool_A p)" "free_objects (nasdaq_ouch_pool_A p) = i # js"
    using assms by (simp_all add: nasdaq_ouch_ok_def)
  obtain s where "nasdaq_ouch_wire_A m = CHR ''A'' # s" using nasdaq_ouch_wire_A_shape [OF w] by blast
  moreover obtain p1 where "parse_into (nasdaq_ouch_handler_A (nasdaq_ouch_wire_A m @ r)) (nasdaq_ouch_pool_A p) = Some (i, m, p1)"
    "pool_ok p1" "free_objects p1 = js" "pool_objects p1 = (pool_objects (nasdaq_ouch_pool_A p))(i := m)"
    using parse_into_head [OF q, of "nasdaq_ouch_handler_A (nasdaq_ouch_wire_A m @ r)" m] nasdaq_ouch_handler_A_wire [OF w] by blast
  moreover from this have "length (nasdaq_ouch_free m' p) \<le> Suc (length (nasdaq_ouch_free m' (p\<lparr>nasdaq_ouch_pool_A := p1\<rparr>)))" for m'
    using q(2) by (cases m') simp_all
  ultimately show ?thesis using assms(2) N_OUCHOrderAccepted by (simp add: nasdaq_ouch_dispatch_def nasdaq_ouch_ok_def)
next
  case (N_OUCHOrderReplaced m)
  then have w: "nasdaq_ouch_wf_U m" and q: "pool_ok (nasdaq_ouch_pool_U p)" "free_objects (nasdaq_ouch_pool_U p) = i # js"
    using assms by (simp_all add: nasdaq_ouch_ok_def)
  obtain s where "nasdaq_ouch_wire_U m = CHR ''U'' # s" using nasdaq_ouch_wire_U_shape [OF w] by blast
  moreover obtain p1 where "parse_into (nasdaq_ouch_handler_U (nasdaq_ouch_wire_U m @ r)) (nasdaq_ouch_pool_U p) = Some (i, m, p1)"
    "pool_ok p1" "free_objects p1 = js" "pool_objects p1 = (pool_objects (nasdaq_ouch_pool_U p))(i := m)"
    using parse_into_head [OF q, of "nasdaq_ouch_handler_U (nasdaq_ouch_wire_U m @ r)" m] nasdaq_ouch_handler_U_wire [OF w] by blast
  moreover from this have "length (nasdaq_ouch_free m' p) \<le> Suc (length (nasdaq_ouch_free m' (p\<lparr>nasdaq_ouch_pool_U := p1\<rparr>)))" for m'
    using q(2) by (cases m') simp_all
  ultimately show ?thesis using assms(2) N_OUCHOrderReplaced by (simp add: nasdaq_ouch_dispatch_def nasdaq_ouch_ok_def)
next
  case (N_OUCHOrderCancelled m)
  then have w: "nasdaq_ouch_wf_C m" and q: "pool_ok (nasdaq_ouch_pool_C p)" "free_objects (nasdaq_ouch_pool_C p) = i # js"
    using assms by (simp_all add: nasdaq_ouch_ok_def)
  obtain s where "nasdaq_ouch_wire_C m = CHR ''C'' # s" using nasdaq_ouch_wire_C_shape [OF w] by blast
  moreover obtain p1 where "parse_into (nasdaq_ouch_handler_C (nasdaq_ouch_wire_C m @ r)) (nasdaq_ouch_pool_C p) = Some (i, m, p1)"
    "pool_ok p1" "free_objects p1 = js" "pool_objects p1 = (pool_objects (nasdaq_ouch_pool_C p))(i := m)"
    using parse_into_head [OF q, of "nasdaq_ouch_handler_C (nasdaq_ouch_wire_C m @ r)" m] nasdaq_ouch_handler_C_wire [OF w] by blast
  moreover from this have "length (nasdaq_ouch_free m' p) \<le> Suc (length (nasdaq_ouch_free m' (p\<lparr>nasdaq_ouch_pool_C := p1\<rparr>)))" for m'
    using q(2) by (cases m') simp_all
  ultimately show ?thesis using assms(2) N_OUCHOrderCancelled by (simp add: nasdaq_ouch_dispatch_def nasdaq_ouch_ok_def)
next
  case (N_OUCHOrderExecuted m)
  then have w: "nasdaq_ouch_wf_E m" and q: "pool_ok (nasdaq_ouch_pool_E p)" "free_objects (nasdaq_ouch_pool_E p) = i # js"
    using assms by (simp_all add: nasdaq_ouch_ok_def)
  obtain s where "nasdaq_ouch_wire_E m = CHR ''E'' # s" using nasdaq_ouch_wire_E_shape [OF w] by blast
  moreover obtain p1 where "parse_into (nasdaq_ouch_handler_E (nasdaq_ouch_wire_E m @ r)) (nasdaq_ouch_pool_E p) = Some (i, m, p1)"
    "pool_ok p1" "free_objects p1 = js" "pool_objects p1 = (pool_objects (nasdaq_ouch_pool_E p))(i := m)"
    using parse_into_head [OF q, of "nasdaq_ouch_handler_E (nasdaq_ouch_wire_E m @ r)" m] nasdaq_ouch_handler_E_wire [OF w] by blast
  moreover from this have "length (nasdaq_ouch_free m' p) \<le> Suc (length (nasdaq_ouch_free m' (p\<lparr>nasdaq_ouch_pool_E := p1\<rparr>)))" for m'
    using q(2) by (cases m') simp_all
  ultimately show ?thesis using assms(2) N_OUCHOrderExecuted by (simp add: nasdaq_ouch_dispatch_def nasdaq_ouch_ok_def)
next
  case (N_OUCHOrderRejected m)
  then have w: "nasdaq_ouch_wf_J m" and q: "pool_ok (nasdaq_ouch_pool_J p)" "free_objects (nasdaq_ouch_pool_J p) = i # js"
    using assms by (simp_all add: nasdaq_ouch_ok_def)
  obtain s where "nasdaq_ouch_wire_J m = CHR ''J'' # s" using nasdaq_ouch_wire_J_shape [OF w] by blast
  moreover obtain p1 where "parse_into (nasdaq_ouch_handler_J (nasdaq_ouch_wire_J m @ r)) (nasdaq_ouch_pool_J p) = Some (i, m, p1)"
    "pool_ok p1" "free_objects p1 = js" "pool_objects p1 = (pool_objects (nasdaq_ouch_pool_J p))(i := m)"
    using parse_into_head [OF q, of "nasdaq_ouch_handler_J (nasdaq_ouch_wire_J m @ r)" m] nasdaq_ouch_handler_J_wire [OF w] by blast
  moreover from this have "length (nasdaq_ouch_free m' p) \<le> Suc (length (nasdaq_ouch_free m' (p\<lparr>nasdaq_ouch_pool_J := p1\<rparr>)))" for m'
    using q(2) by (cases m') simp_all
  ultimately show ?thesis using assms(2) N_OUCHOrderRejected by (simp add: nasdaq_ouch_dispatch_def nasdaq_ouch_ok_def)
next
  case (N_OUCHBrokenTrade m)
  then have w: "nasdaq_ouch_wf_B m" and q: "pool_ok (nasdaq_ouch_pool_B p)" "free_objects (nasdaq_ouch_pool_B p) = i # js"
    using assms by (simp_all add: nasdaq_ouch_ok_def)
  obtain s where "nasdaq_ouch_wire_B m = CHR ''B'' # s" using nasdaq_ouch_wire_B_shape [OF w] by blast
  moreover obtain p1 where "parse_into (nasdaq_ouch_handler_B (nasdaq_ouch_wire_B m @ r)) (nasdaq_ouch_pool_B p) = Some (i, m, p1)"
    "pool_ok p1" "free_objects p1 = js" "pool_objects p1 = (pool_objects (nasdaq_ouch_pool_B p))(i := m)"
    using parse_into_head [OF q, of "nasdaq_ouch_handler_B (nasdaq_ouch_wire_B m @ r)" m] nasdaq_ouch_handler_B_wire [OF w] by blast
  moreover from this have "length (nasdaq_ouch_free m' p) \<le> Suc (length (nasdaq_ouch_free m' (p\<lparr>nasdaq_ouch_pool_B := p1\<rparr>)))" for m'
    using q(2) by (cases m') simp_all
  ultimately show ?thesis using assms(2) N_OUCHBrokenTrade by (simp add: nasdaq_ouch_dispatch_def nasdaq_ouch_ok_def)
next
  case (N_OUCHOrderModified m)
  then have w: "nasdaq_ouch_wf_M m" and q: "pool_ok (nasdaq_ouch_pool_M p)" "free_objects (nasdaq_ouch_pool_M p) = i # js"
    using assms by (simp_all add: nasdaq_ouch_ok_def)
  obtain s where "nasdaq_ouch_wire_M m = CHR ''M'' # s" using nasdaq_ouch_wire_M_shape [OF w] by blast
  moreover obtain p1 where "parse_into (nasdaq_ouch_handler_M (nasdaq_ouch_wire_M m @ r)) (nasdaq_ouch_pool_M p) = Some (i, m, p1)"
    "pool_ok p1" "free_objects p1 = js" "pool_objects p1 = (pool_objects (nasdaq_ouch_pool_M p))(i := m)"
    using parse_into_head [OF q, of "nasdaq_ouch_handler_M (nasdaq_ouch_wire_M m @ r)" m] nasdaq_ouch_handler_M_wire [OF w] by blast
  moreover from this have "length (nasdaq_ouch_free m' p) \<le> Suc (length (nasdaq_ouch_free m' (p\<lparr>nasdaq_ouch_pool_M := p1\<rparr>)))" for m'
    using q(2) by (cases m') simp_all
  ultimately show ?thesis using assms(2) N_OUCHOrderModified by (simp add: nasdaq_ouch_dispatch_def nasdaq_ouch_ok_def)
next
  case (N_OUCHCancelPending m)
  then have w: "nasdaq_ouch_wf_P m" and q: "pool_ok (nasdaq_ouch_pool_P p)" "free_objects (nasdaq_ouch_pool_P p) = i # js"
    using assms by (simp_all add: nasdaq_ouch_ok_def)
  obtain s where "nasdaq_ouch_wire_P m = CHR ''P'' # s" using nasdaq_ouch_wire_P_shape [OF w] by blast
  moreover obtain p1 where "parse_into (nasdaq_ouch_handler_P (nasdaq_ouch_wire_P m @ r)) (nasdaq_ouch_pool_P p) = Some (i, m, p1)"
    "pool_ok p1" "free_objects p1 = js" "pool_objects p1 = (pool_objects (nasdaq_ouch_pool_P p))(i := m)"
    using parse_into_head [OF q, of "nasdaq_ouch_handler_P (nasdaq_ouch_wire_P m @ r)" m] nasdaq_ouch_handler_P_wire [OF w] by blast
  moreover from this have "length (nasdaq_ouch_free m' p) \<le> Suc (length (nasdaq_ouch_free m' (p\<lparr>nasdaq_ouch_pool_P := p1\<rparr>)))" for m'
    using q(2) by (cases m') simp_all
  ultimately show ?thesis using assms(2) N_OUCHCancelPending by (simp add: nasdaq_ouch_dispatch_def nasdaq_ouch_ok_def)
next
  case (N_OUCHCancelReject m)
  then have w: "nasdaq_ouch_wf_I m" and q: "pool_ok (nasdaq_ouch_pool_I p)" "free_objects (nasdaq_ouch_pool_I p) = i # js"
    using assms by (simp_all add: nasdaq_ouch_ok_def)
  obtain s where "nasdaq_ouch_wire_I m = CHR ''I'' # s" using nasdaq_ouch_wire_I_shape [OF w] by blast
  moreover obtain p1 where "parse_into (nasdaq_ouch_handler_I (nasdaq_ouch_wire_I m @ r)) (nasdaq_ouch_pool_I p) = Some (i, m, p1)"
    "pool_ok p1" "free_objects p1 = js" "pool_objects p1 = (pool_objects (nasdaq_ouch_pool_I p))(i := m)"
    using parse_into_head [OF q, of "nasdaq_ouch_handler_I (nasdaq_ouch_wire_I m @ r)" m] nasdaq_ouch_handler_I_wire [OF w] by blast
  moreover from this have "length (nasdaq_ouch_free m' p) \<le> Suc (length (nasdaq_ouch_free m' (p\<lparr>nasdaq_ouch_pool_I := p1\<rparr>)))" for m'
    using q(2) by (cases m') simp_all
  ultimately show ?thesis using assms(2) N_OUCHCancelReject by (simp add: nasdaq_ouch_dispatch_def nasdaq_ouch_ok_def)
next
  case (N_OUCHAccountQueryResponse m)
  then have w: "nasdaq_ouch_wf_Q m" and q: "pool_ok (nasdaq_ouch_pool_Q p)" "free_objects (nasdaq_ouch_pool_Q p) = i # js"
    using assms by (simp_all add: nasdaq_ouch_ok_def)
  obtain s where "nasdaq_ouch_wire_Q m = CHR ''Q'' # s" using nasdaq_ouch_wire_Q_shape [OF w] by blast
  moreover obtain p1 where "parse_into (nasdaq_ouch_handler_Q (nasdaq_ouch_wire_Q m @ r)) (nasdaq_ouch_pool_Q p) = Some (i, m, p1)"
    "pool_ok p1" "free_objects p1 = js" "pool_objects p1 = (pool_objects (nasdaq_ouch_pool_Q p))(i := m)"
    using parse_into_head [OF q, of "nasdaq_ouch_handler_Q (nasdaq_ouch_wire_Q m @ r)" m] nasdaq_ouch_handler_Q_wire [OF w] by blast
  moreover from this have "length (nasdaq_ouch_free m' p) \<le> Suc (length (nasdaq_ouch_free m' (p\<lparr>nasdaq_ouch_pool_Q := p1\<rparr>)))" for m'
    using q(2) by (cases m') simp_all
  ultimately show ?thesis using assms(2) N_OUCHAccountQueryResponse by (simp add: nasdaq_ouch_dispatch_def nasdaq_ouch_ok_def)
qed

lemma nasdaq_ouch_parse_wire:
  assumes "nasdaq_ouch_wf msg" "nasdaq_ouch_ok p" "nasdaq_ouch_free msg p = i # js" "length h = 3"
  shows "\<exists>p'. nasdaq_ouch_parse (h @ nasdaq_ouch_wire msg @ r) p = Some (Some (i, msg), p')
    \<and> nasdaq_ouch_ok p' \<and> nasdaq_ouch_free msg p' = js \<and> (\<forall>m. length (nasdaq_ouch_free m p) \<le> Suc (length (nasdaq_ouch_free m p')))"
proof -
  obtain c s where w: "nasdaq_ouch_wire msg = c # s" "nasdaq_ouch_index c \<noteq> 99"
    using assms(1) by (cases msg) (auto dest!: nasdaq_ouch_wire_S_shape nasdaq_ouch_wire_A_shape nasdaq_ouch_wire_U_shape nasdaq_ouch_wire_C_shape nasdaq_ouch_wire_E_shape nasdaq_ouch_wire_J_shape nasdaq_ouch_wire_B_shape nasdaq_ouch_wire_M_shape nasdaq_ouch_wire_P_shape nasdaq_ouch_wire_I_shape nasdaq_ouch_wire_Q_shape)
  then show ?thesis
    using nasdaq_ouch_dispatch_wire [OF assms(1-3), of r] assms(4) by (auto simp: nasdaq_ouch_parse_def read_front)
qed

interpretation nasdaq_ouch: wire_parser nasdaq_ouch_parse nasdaq_ouch_wire nasdaq_ouch_wf nasdaq_ouch_ok nasdaq_ouch_free 3
  by unfold_locales (use nasdaq_ouch_parse_wire in blast)

end
