(* ===== verification/Packet_Dispatch.thy ===== *)
theory Packet_Dispatch
  imports Itch_Parser_BIST Itch_Parser_NASDAQ Ouch_Parser_BIST Ouch_Parser_NASDAQ Order_Store
begin

text \<open>
  The binary half of src/src/protocol/Parser_Dispatch.cpp: a received ITCH or OUCH packet is taken
  apart, every message is decoded into its pool, wrapped with its venue and queued for the store
  thread.  The wrapper pool and the queue are the ones the order manager reads, so they are part of
  the state \<^typ>\<open>OrderManager\<close>.  A variant that holds a null pointer (an unknown message type) is
  dereferenced further down the pipeline; here it is \<open>None\<close>.
\<close>

subsection \<open>The packet handlers\<close>

definition push_message :: "MessageTypes \<Rightarrow> Venue \<Rightarrow> OrderManager \<Rightarrow> OrderManager" where
  "push_message msg ven om =
     (let (i, om1) = get_msgWithVenue K_Any msg ven om
      in om1\<lparr>parser_to_store := snd (spsc_push OQ i (parser_to_store om1))\<rparr>)"

primrec parse_loop ::
  "(string \<Rightarrow> 'p \<Rightarrow> ((nat \<times> 'm) option \<times> 'p) option) \<Rightarrow> ('m \<Rightarrow> MessageTypes) \<Rightarrow> Venue \<Rightarrow> RxPacket \<Rightarrow> nat list \<Rightarrow>
   'p \<Rightarrow> OrderManager \<Rightarrow> ('p \<times> OrderManager) option" where
  "parse_loop parse wrap ven pkt [] p om = Some (p, om)"
| "parse_loop parse wrap ven pkt (msg_index # rest) p om = do {
     offset \<leftarrow> nth_opt (rx_offsets pkt) msg_index;
     (msg, p1) \<leftarrow> parse (drop (unat offset) (rx_data pkt)) p;
     (_, m) \<leftarrow> msg;
     parse_loop parse wrap ven pkt rest p1 (push_message (wrap m) ven om) }"

definition message_indices :: "RxPacket \<Rightarrow> nat list" where
  "message_indices pkt = [0..<unat (msg_count pkt)]"

definition parseITCH_BIST ::
  "RxPacket \<Rightarrow> Parser_ITCH_BIST \<Rightarrow> OrderManager \<Rightarrow> (RxPacket \<times> Parser_ITCH_BIST \<times> OrderManager) option" where
  "parseITCH_BIST pkt p om = do {
     pkt1 \<leftarrow> ItchPacketHandler bist_itch_index bist_itch_sizes 0 pkt;
     (p1, om1) \<leftarrow> parse_loop bist_itch_parse M_BIST_ITCH BIST pkt1 (message_indices pkt1) p om;
     Some (pkt1, p1, om1) }"

definition parseITCH_NASDAQ ::
  "RxPacket \<Rightarrow> Parser_ITCH_NASDAQ \<Rightarrow> OrderManager \<Rightarrow> (RxPacket \<times> Parser_ITCH_NASDAQ \<times> OrderManager) option" where
  "parseITCH_NASDAQ pkt p om = do {
     pkt1 \<leftarrow> ItchPacketHandler nasdaq_itch_index nasdaq_itch_sizes 0 pkt;
     (p1, om1) \<leftarrow> parse_loop nasdaq_itch_parse M_NASDAQ_ITCH NASDAQ pkt1 (message_indices pkt1) p om;
     Some (pkt1, p1, om1) }"

definition parseOUCH_BIST ::
  "RxPacket \<Rightarrow> Parser_OUCH_BIST \<Rightarrow> OrderManager \<Rightarrow> (Parser_OUCH_BIST \<times> OrderManager) option" where
  "parseOUCH_BIST pkt p om = parse_loop bist_ouch_parse M_BIST_OUCH BIST pkt (message_indices pkt) p om"

definition parseOUCH_NASDAQ ::
  "RxPacket \<Rightarrow> Parser_OUCH_NASDAQ \<Rightarrow> OrderManager \<Rightarrow> (Parser_OUCH_NASDAQ \<times> OrderManager) option" where
  "parseOUCH_NASDAQ pkt p om =
     parse_loop nasdaq_ouch_parse M_NASDAQ_OUCH NASDAQ pkt (message_indices pkt) p om"

subsection \<open>What is queued for the store thread\<close>

text \<open>The wrapped messages in the queue, and the wrappers that the next messages will use.\<close>

definition queued :: "OrderManager \<Rightarrow> MessageWithVenue list" where
  "queued om = map (mwv_pool om K_Any) (spsc_rep OQ (parser_to_store om))"

definition wrapper_slot :: "OrderManager \<Rightarrow> nat \<Rightarrow> nat" where
  "wrapper_slot om j = unat ((next_msgWithVenue om K_Any + of_nat j) AND 2047)"

text \<open>The store thread is ready for \<open>n\<close> more messages: the queue has room for them and their
  wrappers are not in use.\<close>

definition store_ready :: "nat \<Rightarrow> OrderManager \<Rightarrow> bool" where
  "store_ready n om \<longleftrightarrow> spsc_inv OQ (parser_to_store om) \<and> spsc_len (parser_to_store om) + n \<le> 1024
     \<and> n \<le> 2048 \<and> (\<forall>j < n. wrapper_slot om j \<notin> set (spsc_rep OQ (parser_to_store om)))"

lemma wrapper_slot_mod: "wrapper_slot om j = (unat (next_msgWithVenue om K_Any) + j) mod 2048"
proof -
  have "unat ((next_msgWithVenue om K_Any + of_nat j) AND 2047) = unat (next_msgWithVenue om K_Any + of_nat j) mod 2048"
    using unat_and_pow2_mask [where k = 11 and x = "next_msgWithVenue om K_Any + of_nat j"] by simp
  also have "\<dots> = (unat (next_msgWithVenue om K_Any) + unat (of_nat j :: u64)) mod 2048"
    using unat_add_mod_pow2 [where k = 11 and x = "next_msgWithVenue om K_Any" and y = "of_nat j"] by simp
  also have "\<dots> = (unat (next_msgWithVenue om K_Any) + unat (of_nat j :: u64) mod 2048) mod 2048"
    by (simp add: mod_add_right_eq)
  also have "unat (of_nat j :: u64) mod 2048 = j mod 2048"
    by (simp add: unat_of_nat take_bit_eq_mod mod_mod_cancel)
  finally show ?thesis by (simp add: wrapper_slot_def mod_add_right_eq)
qed

lemma push_message_queued:
  assumes "store_ready (Suc n) om"
  shows "store_ready n (push_message msg ven om)
    \<and> queued (push_message msg ven om) = queued om @ [\<lparr>mwv_msg = msg, mwv_venue = ven\<rparr>]"
proof -
  let ?q = "parser_to_store om" and ?s = "wrapper_slot om 0" and ?om = "push_message msg ven om"
  have r: "spsc_inv OQ ?q" "spsc_len ?q < 2 ^ (OQ + 3)" "?s \<notin> set (spsc_rep OQ ?q)"
    using assms by (auto simp: store_ready_def OQ_def)
  note enq = spsc_enq [OF r(1,2), of ?s]
  have f: "parser_to_store ?om = snd (spsc_push OQ ?s ?q)"
    "mwv_pool ?om K_Any = (mwv_pool om K_Any)(?s := \<lparr>mwv_msg = msg, mwv_venue = ven\<rparr>)"
    "next_msgWithVenue ?om K_Any = next_msgWithVenue om K_Any + 1"
    by (simp_all add: push_message_def get_msgWithVenue_def wrapper_slot_def MESSAGE_POOL_CAPACITY_def Let_def)
  have q: "spsc_inv OQ (parser_to_store ?om)" "spsc_rep OQ (parser_to_store ?om) = spsc_rep OQ ?q @ [?s]"
    "spsc_len (parser_to_store ?om) = Suc (spsc_len ?q)"
    using enq r(2) spsc_push_cases [OF r(1), of ?s] by (simp_all add: f)
  have sl: "wrapper_slot ?om j = wrapper_slot om (Suc j)" for j
    by (simp add: wrapper_slot_def f add.assoc)
  have "wrapper_slot ?om j \<noteq> ?s" if "j < n" for j
  proof
    assume "wrapper_slot ?om j = ?s"
    then have "wrapper_slot om (Suc j) = wrapper_slot om 0" by (simp add: sl)
    then have "(unat (next_msgWithVenue om K_Any) + Suc j) mod 2048 = (unat (next_msgWithVenue om K_Any) + 0) mod 2048"
      by (simp only: wrapper_slot_mod)
    then show False
      using ring_aux [of "Suc j" 2048 0 "unat (next_msgWithVenue om K_Any)"] that assms by (simp add: store_ready_def)
  qed
  then have "store_ready n ?om"
    using assms q sl by (simp add: store_ready_def)
  moreover have "queued ?om = queued om @ [\<lparr>mwv_msg = msg, mwv_venue = ven\<rparr>]"
    unfolding queued_def q(2) f(2) using r(3) by simp
  ultimately show ?thesis ..
qed

text \<open>Any parser that keeps the contract \<open>wire_parser\<close> delivers the messages at the offsets of a
  packet, in order.\<close>

context wire_parser
begin

lemma loop_delivers:
  assumes "\<forall>m \<in> set ms. wf m" "ok p" "\<forall>m. length ms \<le> length (free m p)" "store_ready (length ms) om"
    and "length ms + k \<le> length (rx_offsets pkt)"
    and "\<forall>j < length ms. \<exists>h r. length h = hdr
           \<and> drop (unat (rx_offsets pkt ! (k + j))) (rx_data pkt) = h @ wire (ms ! j) @ r"
  shows "\<exists>p' om'. parse_loop parse wrap ven pkt [k..<k + length ms] p om = Some (p', om') \<and> ok p'
    \<and> queued om' = queued om @ map (\<lambda>m. \<lparr>mwv_msg = wrap m, mwv_venue = ven\<rparr>) ms"
  using assms
proof (induction ms arbitrary: k p om)
  case (Cons m ms)
  obtain h r where at: "length h = hdr" "drop (unat (rx_offsets pkt ! k)) (rx_data pkt) = h @ wire m @ r"
    using Cons.prems(6) by force
  obtain i js where "free m p = i # js"
    using Cons.prems(3) by (metis length_0_conv list.exhaust list.size(4) not_one_le_zero add_is_0 le_zero_eq)
  then obtain p1 where p1: "parse (h @ wire m @ r) p = Some (Some (i, m), p1)" "ok p1"
    "\<forall>m'. length (free m' p) \<le> Suc (length (free m' p1))"
    using parse_wire [of m p i js h r] Cons.prems(1,2) at(1) by auto
  let ?om = "push_message (wrap m) ven om"
  have om: "store_ready (length ms) ?om" "queued ?om = queued om @ [\<lparr>mwv_msg = wrap m, mwv_venue = ven\<rparr>]"
    using push_message_queued [of "length ms" om "wrap m" ven] Cons.prems(4) by simp_all
  have free: "\<forall>m'. length ms \<le> length (free m' p1)"
    using Cons.prems(3) p1(3) by (metis Suc_le_mono le_trans length_Cons)
  have offs: "\<forall>j < length ms. \<exists>h r. length h = hdr
      \<and> drop (unat (rx_offsets pkt ! (Suc k + j))) (rx_data pkt) = h @ wire (ms ! j) @ r"
    using Cons.prems(6) by (metis Suc_less_eq add_Suc_shift length_Cons nth_Cons_Suc)
  obtain p' om' where "parse_loop parse wrap ven pkt [Suc k..<Suc k + length ms] p1 ?om = Some (p', om')" "ok p'"
    "queued om' = queued ?om @ map (\<lambda>m. \<lparr>mwv_msg = wrap m, mwv_venue = ven\<rparr>) ms"
    using Cons.IH [OF _ p1(2) free om(1) _ offs] Cons.prems(1,5) by auto
  moreover have "[k..<k + length (m # ms)] = k # [Suc k..<Suc k + length ms]" by (simp add: upt_conv_Cons del: upt_Suc)
  ultimately show ?case using Cons.prems(5) p1(1) at(2) om(2) by (simp add: nth_opt_def)
qed simp

end

lemma packet_positions:
  assumes "j < length ms"
  shows "drop (length (concat (map wire (take j ms)))) (concat (map wire ms) @ r)
    = wire (ms ! j) @ concat (map wire (drop (Suc j) ms)) @ r"
proof -
  have "ms = take j ms @ ms ! j # drop (Suc j) ms" using assms by (rule id_take_nth_drop)
  then have "concat (map wire ms) = concat (map wire (take j ms)) @ wire (ms ! j) @ concat (map wire (drop (Suc j) ms))"
    by (metis concat.simps(2) concat_append list.simps(9) map_append)
  then show ?thesis by simp
qed

text \<open>A packet that holds exactly the given messages, one behind the other, and a packet whose offsets
  name the given messages, each behind a header of \<open>hdr\<close> bytes.\<close>

definition holds_messages :: "('m \<Rightarrow> string) \<Rightarrow> 'm list \<Rightarrow> RxPacket \<Rightarrow> bool" where
  "holds_messages wire ms pkt \<longleftrightarrow> (\<exists>r. rx_data pkt = concat (map wire ms) @ r)
     \<and> unat (rx_len pkt) = length (concat (map wire ms)) \<and> length (rx_offsets pkt) = 32 \<and> msg_count pkt = 0
     \<and> length ms \<le> 32"

definition names_messages :: "nat \<Rightarrow> ('m \<Rightarrow> string) \<Rightarrow> 'm list \<Rightarrow> RxPacket \<Rightarrow> bool" where
  "names_messages hdr wire ms pkt \<longleftrightarrow> length (rx_offsets pkt) = 32 \<and> unat (msg_count pkt) = length ms
     \<and> length ms \<le> 32 \<and> (\<forall>j < length ms. \<exists>h r. length h = hdr
           \<and> drop (unat (rx_offsets pkt ! j)) (rx_data pkt) = h @ wire (ms ! j) @ r)"

context wire_parser
begin

lemma named_delivered:
  assumes "names_messages hdr wire ms pkt" "\<forall>m \<in> set ms. wf m" "ok p" "\<forall>m. length ms \<le> length (free m p)"
    and "store_ready (length ms) om"
  shows "\<exists>p' om'. parse_loop parse wrap ven pkt (message_indices pkt) p om = Some (p', om') \<and> ok p'
    \<and> queued om' = queued om @ map (\<lambda>m. \<lparr>mwv_msg = wrap m, mwv_venue = ven\<rparr>) ms"
  using loop_delivers [OF assms(2-5), of 0 pkt wrap ven] assms(1)
  by (simp add: names_messages_def message_indices_def)

end

text \<open>An ITCH parser has both contracts, for the same layout and without a header.\<close>

locale itch_parser = itch_wire index sizes wire wf + wire_parser parse wire wf ok free 0
  for index :: "char \<Rightarrow> nat" and sizes :: "nat list" and wire :: "'m \<Rightarrow> string" and wf :: "'m \<Rightarrow> bool"
    and parse :: "string \<Rightarrow> 'p \<Rightarrow> ((nat \<times> 'm) option \<times> 'p) option" and ok :: "'p \<Rightarrow> bool"
    and free :: "'m \<Rightarrow> 'p \<Rightarrow> nat list"
begin

lemma split_names:
  assumes "holds_messages wire ms pkt" "\<forall>m \<in> set ms. wf m"
  shows "\<exists>pkt'. ItchPacketHandler index sizes 0 pkt = Some pkt' \<and> names_messages 0 wire ms pkt'"
proof -
  obtain r where d: "rx_data pkt = concat (map wire ms) @ r" using assms(1) by (auto simp: holds_messages_def)
  obtain pkt' where s: "ItchPacketHandler index sizes 0 pkt = Some pkt'" "rx_data pkt' = rx_data pkt"
    "length (rx_offsets pkt') = 32" "unat (msg_count pkt') = length ms"
    "\<forall>j < length ms. unat (rx_offsets pkt' ! j) = length (concat (map wire (take j ms)))"
    using split_messages [OF assms(2), of 0 pkt r] assms(1) d by (auto simp: holds_messages_def)
  have "drop (unat (rx_offsets pkt' ! j)) (rx_data pkt') = [] @ wire (ms ! j) @ concat (map wire (drop (Suc j) ms)) @ r"
    if "j < length ms" for j
    using that s(2,5) d packet_positions [of j ms wire r] by simp
  then show ?thesis using s(1,3,4) assms(1) by (auto simp: names_messages_def holds_messages_def)
qed

lemma packet_delivered:
  assumes "holds_messages wire ms pkt" "\<forall>m \<in> set ms. wf m" "ok p" "\<forall>m. length ms \<le> length (free m p)"
    and "store_ready (length ms) om"
  shows "\<exists>pkt' p' om'. ItchPacketHandler index sizes 0 pkt = Some pkt'
    \<and> parse_loop parse wrap ven pkt' (message_indices pkt') p om = Some (p', om') \<and> ok p'
    \<and> queued om' = queued om @ map (\<lambda>m. \<lparr>mwv_msg = wrap m, mwv_venue = ven\<rparr>) ms"
  using split_names [OF assms(1,2)] named_delivered [OF _ assms(2-5)] by blast

end

interpretation bist_itch_pkt: itch_parser bist_itch_index bist_itch_sizes bist_itch_wire bist_itch_wf
  bist_itch_parse bist_itch_ok bist_itch_free
  by unfold_locales

interpretation nasdaq_itch_pkt: itch_parser nasdaq_itch_index nasdaq_itch_sizes nasdaq_itch_wire nasdaq_itch_wf
  nasdaq_itch_parse nasdaq_itch_ok nasdaq_itch_free
  by unfold_locales

subsection \<open>Properties\<close>

text \<open>A state and packets for the examples.\<close>

definition sample_packet :: "string \<Rightarrow> u16 \<Rightarrow> u16 list \<Rightarrow> u8 \<Rightarrow> RxPacket" where
  "sample_packet data len offs n = \<lparr>rx_data = data, rx_len = len, rx_offsets = offs @ replicate (32 - length offs) 0,
     last_pkt_remaining_len = 0, msg_count = n, rx_partial = False, is_len_received = True, release_this_pkt = True,
     consumed = False, rx_venue = BIST, rx_protocol = ITCH\<rparr>"

lemma sample_queue: "parser_to_store sample_manager = spsc_init OQ"
  by (simp add: sample_manager_def initial_members_def)

lemma sample_store_ready: "n \<le> 1024 \<Longrightarrow> store_ready n sample_manager"
proof -
  have "spsc_len (spsc_init OQ :: nat spsc) = 0" by (simp add: spsc_len_def spsc_init_def)
  moreover have "OQ < 61" by (simp add: OQ_def)
  ultimately show "n \<le> 1024 \<Longrightarrow> store_ready n sample_manager"
    unfolding store_ready_def sample_queue by (simp add: spsc_init_inv)
qed

lemma sample_queued: "queued sample_manager = []"
  unfolding queued_def sample_queue by simp

text \<open>C7. A BIST ITCH packet that holds up to 32 messages in the documented layout is delivered completely:
  the packet is split at the message boundaries, every message is decoded to exactly its fields, and
  the messages arrive in the queue of the store thread in the order of the packet, behind what was
  queued before.\<close>

theorem bist_itch_packet_delivered:
  assumes "holds_messages bist_itch_wire ms pkt" "\<forall>m \<in> set ms. bist_itch_wf m" "bist_itch_ok p"
    and "\<forall>m. length ms \<le> length (bist_itch_free m p)" "store_ready (length ms) om"
  shows "\<exists>pkt' p' om'. parseITCH_BIST pkt p om = Some (pkt', p', om') \<and> bist_itch_ok p'
    \<and> queued om' = queued om @ map (\<lambda>m. \<lparr>mwv_msg = M_BIST_ITCH m, mwv_venue = BIST\<rparr>) ms"
  using bist_itch_pkt.packet_delivered [OF assms, of M_BIST_ITCH BIST] by (auto simp: parseITCH_BIST_def)

theorem bist_itch_packet_delivered_witness:
  "\<exists>pkt' p' om'. parseITCH_BIST (sample_packet (bist_itch_wire_T \<lparr>biT_second = 7, biT_message_type = CHR ''T''\<rparr>
        @ bist_itch_wire_Y \<lparr>biY_timestamp_ns = 1, biY_order_book_id = 3, biY_message_type = CHR ''Y''\<rparr>) 14 [] 0)
      bist_itch_new sample_manager = Some (pkt', p', om')
    \<and> map mwv_msg (queued om') = [M_BIST_ITCH (B_ITCHSeconds \<lparr>biT_second = 7, biT_message_type = CHR ''T''\<rparr>),
        M_BIST_ITCH (B_ITCHOrderBookFlush \<lparr>biY_timestamp_ns = 1, biY_order_book_id = 3, biY_message_type = CHR ''Y''\<rparr>)]"
proof -
  let ?ms = "[B_ITCHSeconds \<lparr>biT_second = 7, biT_message_type = CHR ''T''\<rparr>,
    B_ITCHOrderBookFlush \<lparr>biY_timestamp_ns = 1, biY_order_book_id = 3, biY_message_type = CHR ''Y''\<rparr>]"
  let ?pkt = "sample_packet (concat (map bist_itch_wire ?ms)) 14 [] 0"
  have "holds_messages bist_itch_wire ?ms ?pkt"
    by (simp add: holds_messages_def sample_packet_def bist_itch_wire_T_def bist_itch_wire_Y_def)
  moreover have "\<forall>m \<in> set ?ms. bist_itch_wf m" by (simp add: bist_itch_wf_T_def bist_itch_wf_Y_def)
  ultimately show ?thesis
    using bist_itch_packet_delivered [of ?ms ?pkt bist_itch_new sample_manager]
    by (auto simp: bist_itch_new_ok bist_itch_new_free sample_store_ready sample_queued simp del: upt_rec_numeral)
qed

text \<open>C8. The same holds for NASDAQ ITCH packets.\<close>

theorem nasdaq_itch_packet_delivered:
  assumes "holds_messages nasdaq_itch_wire ms pkt" "\<forall>m \<in> set ms. nasdaq_itch_wf m" "nasdaq_itch_ok p"
    and "\<forall>m. length ms \<le> length (nasdaq_itch_free m p)" "store_ready (length ms) om"
  shows "\<exists>pkt' p' om'. parseITCH_NASDAQ pkt p om = Some (pkt', p', om') \<and> nasdaq_itch_ok p'
    \<and> queued om' = queued om @ map (\<lambda>m. \<lparr>mwv_msg = M_NASDAQ_ITCH m, mwv_venue = NASDAQ\<rparr>) ms"
  using nasdaq_itch_pkt.packet_delivered [OF assms, of M_NASDAQ_ITCH NASDAQ] by (auto simp: parseITCH_NASDAQ_def)

theorem nasdaq_itch_packet_delivered_witness:
  "\<exists>pkt' p' om'. parseITCH_NASDAQ (sample_packet (nasdaq_itch_wire_D \<lparr>niD_timestamp = 5, niD_order_ref = 77,
        niD_stock_locate = 3, niD_tracking_number = 1, niD_message_type = CHR ''D''\<rparr>) 19 [] 0)
      nasdaq_itch_new sample_manager = Some (pkt', p', om')
    \<and> map mwv_msg (queued om') = [M_NASDAQ_ITCH (N_ITCHDelete \<lparr>niD_timestamp = 5, niD_order_ref = 77,
        niD_stock_locate = 3, niD_tracking_number = 1, niD_message_type = CHR ''D''\<rparr>)]"
proof -
  let ?ms = "[N_ITCHDelete \<lparr>niD_timestamp = 5, niD_order_ref = 77, niD_stock_locate = 3, niD_tracking_number = 1,
    niD_message_type = CHR ''D''\<rparr>]"
  let ?pkt = "sample_packet (concat (map nasdaq_itch_wire ?ms)) 19 [] 0"
  have "holds_messages nasdaq_itch_wire ?ms ?pkt"
    by (simp add: holds_messages_def sample_packet_def nasdaq_itch_wire_D_def)
  moreover have "\<forall>m \<in> set ?ms. nasdaq_itch_wf m" by (simp add: nasdaq_itch_wf_D_def)
  ultimately show ?thesis
    using nasdaq_itch_packet_delivered [of ?ms ?pkt nasdaq_itch_new sample_manager]
    by (auto simp: nasdaq_itch_new_ok nasdaq_itch_new_free sample_store_ready sample_queued simp del: upt_rec_numeral)
qed

text \<open>C9. The OUCH messages of BIST that a packet's offsets name behind their three-byte SoupBinTCP headers are
  decoded to exactly their fields and queued for the store thread in order.\<close>

theorem bist_ouch_packet_delivered:
  assumes "names_messages 3 bist_ouch_wire ms pkt" "\<forall>m \<in> set ms. bist_ouch_wf m" "bist_ouch_ok p"
    and "\<forall>m. length ms \<le> length (bist_ouch_free m p)" "store_ready (length ms) om"
  shows "\<exists>p' om'. parseOUCH_BIST pkt p om = Some (p', om') \<and> bist_ouch_ok p'
    \<and> queued om' = queued om @ map (\<lambda>m. \<lparr>mwv_msg = M_BIST_OUCH m, mwv_venue = BIST\<rparr>) ms"
  unfolding parseOUCH_BIST_def by (rule bist_ouch.named_delivered [OF assms])

theorem bist_ouch_packet_delivered_witness:
  "\<exists>p' om'. parseOUCH_BIST (sample_packet (''..S'' @ bist_ouch_wire_J \<lparr>boJ_timestamp = 5, boJ_reject_code = 9,
        boJ_message_type = CHR ''J'', boJ_order_token = ''00000000000012''\<rparr>) 30 [0] 1)
      bist_ouch_new sample_manager = Some (p', om')
    \<and> map mwv_msg (queued om') = [M_BIST_OUCH (B_OUCHOrderRejected \<lparr>boJ_timestamp = 5, boJ_reject_code = 9,
        boJ_message_type = CHR ''J'', boJ_order_token = ''00000000000012''\<rparr>)]"
proof -
  let ?ms = "[B_OUCHOrderRejected \<lparr>boJ_timestamp = 5, boJ_reject_code = 9,
        boJ_message_type = CHR ''J'', boJ_order_token = ''00000000000012''\<rparr>]"
  let ?pkt = "sample_packet (''..S'' @ bist_ouch_wire (hd ?ms)) 30 [0] 1"
  have "\<exists>h r. length h = 3 \<and> ''..S'' @ bist_ouch_wire (hd ?ms) = h @ bist_ouch_wire (hd ?ms) @ r"
    by (rule exI [of _ "''..S''"], rule exI [of _ "[]"]) simp
  then have "names_messages 3 bist_ouch_wire ?ms ?pkt" by (simp add: names_messages_def sample_packet_def)
  moreover have "\<forall>m \<in> set ?ms. bist_ouch_wf m" by (simp add: bist_ouch_wf_J_def)
  ultimately show ?thesis
    using bist_ouch_packet_delivered [of ?ms ?pkt bist_ouch_new sample_manager]
    by (auto simp: bist_ouch_new_ok bist_ouch_new_free sample_store_ready sample_queued simp del: upt_rec_numeral)
qed

text \<open>C10. The same holds for the OUCH messages of NASDAQ.\<close>

theorem nasdaq_ouch_packet_delivered:
  assumes "names_messages 3 nasdaq_ouch_wire ms pkt" "\<forall>m \<in> set ms. nasdaq_ouch_wf m" "nasdaq_ouch_ok p"
    and "\<forall>m. length ms \<le> length (nasdaq_ouch_free m p)" "store_ready (length ms) om"
  shows "\<exists>p' om'. parseOUCH_NASDAQ pkt p om = Some (p', om') \<and> nasdaq_ouch_ok p'
    \<and> queued om' = queued om @ map (\<lambda>m. \<lparr>mwv_msg = M_NASDAQ_OUCH m, mwv_venue = NASDAQ\<rparr>) ms"
  unfolding parseOUCH_NASDAQ_def by (rule nasdaq_ouch.named_delivered [OF assms])

theorem nasdaq_ouch_packet_delivered_witness:
  "\<exists>p' om'. parseOUCH_NASDAQ (sample_packet (''..S'' @ nasdaq_ouch_wire_P \<lparr>noP_timestamp = 5, noP_user_ref_num = 9,
        noP_appendage_length = 0, noP_message_type = CHR ''P''\<rparr>) 18 [0] 1)
      nasdaq_ouch_new sample_manager = Some (p', om')
    \<and> map mwv_msg (queued om') = [M_NASDAQ_OUCH (N_OUCHCancelPending \<lparr>noP_timestamp = 5, noP_user_ref_num = 9,
        noP_appendage_length = 0, noP_message_type = CHR ''P''\<rparr>)]"
proof -
  let ?ms = "[N_OUCHCancelPending \<lparr>noP_timestamp = 5, noP_user_ref_num = 9, noP_appendage_length = 0,
    noP_message_type = CHR ''P''\<rparr>]"
  let ?pkt = "sample_packet (''..S'' @ nasdaq_ouch_wire (hd ?ms)) 18 [0] 1"
  have "\<exists>h r. length h = 3 \<and> ''..S'' @ nasdaq_ouch_wire (hd ?ms) = h @ nasdaq_ouch_wire (hd ?ms) @ r"
    by (rule exI [of _ "''..S''"], rule exI [of _ "[]"]) simp
  then have "names_messages 3 nasdaq_ouch_wire ?ms ?pkt" by (simp add: names_messages_def sample_packet_def)
  moreover have "\<forall>m \<in> set ?ms. nasdaq_ouch_wf m" by (simp add: nasdaq_ouch_wf_P_def)
  ultimately show ?thesis
    using nasdaq_ouch_packet_delivered [of ?ms ?pkt nasdaq_ouch_new sample_manager]
    by (auto simp: nasdaq_ouch_new_ok nasdaq_ouch_new_free sample_store_ready sample_queued simp del: upt_rec_numeral)
qed

end
