(* ===== verification/Sessions.thy ===== *)
theory Sessions
  imports Byte_Order
begin

text \<open>
  The sessions with the exchanges (src/src/session): sequence numbers of SoupBinTCP and FIX sessions
  (Sequence_SBT.h, Sequence_FIX.h), the state, context and credentials of every session
  (SessionManager.h, SessionManager.cpp).  The union of the two kinds of sequence is a datatype, and
  the access to the member that is not active is undefined.  The JSON file is an argument, already
  parsed; \<^verbatim>\<open>inet_pton\<close> is a parameter.  The static buffer of \<^verbatim>\<open>int_to_strnum\<close> is shared by all sessions
  and kept in the record of the session manager.
\<close>

subsection \<open>C strings and decimal numbers\<close>

definition strlen :: "string \<Rightarrow> nat option" where
  "strlen s = (if CHR 0x00 \<in> set s then Some (length (takeWhile (\<lambda>c. c \<noteq> CHR 0x00) s)) else None)"

definition is_digit :: "char \<Rightarrow> bool" where
  "is_digit c \<longleftrightarrow> 48 \<le> (of_char c :: nat) \<and> (of_char c :: nat) \<le> 57"

definition digit_char :: "nat \<Rightarrow> char" where
  "digit_char d = char_of (48 + d)"

primrec strnum_loop :: "string \<Rightarrow> u64 \<Rightarrow> u64" where
  "strnum_loop [] result = result"
| "strnum_loop (c # cs) result =
     strnum_loop cs (if is_digit c then result * 10 + (of_char c - 48) else result)"

definition strnum_to_int :: "string \<Rightarrow> u64 option" where
  "strnum_to_int strnum = do { s \<leftarrow> read_bytes 20 strnum; Some (strnum_loop s 0) }"

text \<open>The digits are written from the last to the first and then reversed in place; the result is the
  position behind the last digit.\<close>

function write_digits :: "nat \<Rightarrow> nat \<Rightarrow> string \<Rightarrow> (nat \<times> string) option" where
  "write_digits p value buffer =
     (if 0 < value then do {
        b \<leftarrow> write_bytes p [digit_char (value mod 10)] buffer;
        write_digits (p + 1) (value div 10) b }
      else Some (p, buffer))"
  by auto
termination by (relation "measure (\<lambda>(_, value, _). value)") auto

declare write_digits.simps [simp del]

function swap_ends :: "nat \<Rightarrow> nat \<Rightarrow> 'a list \<Rightarrow> 'a list" where
  "swap_ends lo hi buf =
     (if lo < hi then swap_ends (lo + 1) (hi - 1) (buf[lo := buf ! hi, hi := buf ! lo]) else buf)"
  by auto
termination by (relation "measure (\<lambda>(_, hi, _). hi)") auto

declare swap_ends.simps [simp del]

definition int_to_strnum :: "u64 \<Rightarrow> string \<Rightarrow> (nat \<times> string) option" where
  "int_to_strnum value buffer =
     (if value = 0 then do { b \<leftarrow> write_bytes 0 ''0'' buffer; Some (1, b) }
      else do {
        (p, b) \<leftarrow> write_digits 0 (unat value) buffer;
        Some (p, swap_ends 0 (p - 1) b) })"

subsection \<open>Sequences\<close>

record Sequence_SBT =
  last_seen_seqnum :: u64
  heartbeat_interval :: u32
  sbt_session :: string

definition new_Sequence_SBT :: Sequence_SBT where
  "new_Sequence_SBT = \<lparr>last_seen_seqnum = 0, heartbeat_interval = 0, sbt_session = replicate 10 (CHR 0x00)\<rparr>"

definition set_seq :: "string \<Rightarrow> Sequence_SBT \<Rightarrow> Sequence_SBT option" where
  "set_seq seqnum q = do { n \<leftarrow> strnum_to_int seqnum; Some (q\<lparr>last_seen_seqnum := n\<rparr>) }"

definition set_sess_id :: "string \<Rightarrow> Sequence_SBT \<Rightarrow> Sequence_SBT option" where
  "set_sess_id session q = do { s \<leftarrow> read_bytes 10 session; Some (q\<lparr>sbt_session := s\<rparr>) }"

definition increase_seq :: "Sequence_SBT \<Rightarrow> Sequence_SBT" where
  "increase_seq q = q\<lparr>last_seen_seqnum := last_seen_seqnum q + 1\<rparr>"

text \<open>The pointer that \<open>get_seq\<close> returns, as the rest of the buffer from there, and the new buffer.\<close>

definition get_seq :: "Sequence_SBT \<Rightarrow> string \<Rightarrow> (string \<times> string) option" where
  "get_seq q buffer = do {
     (p, b) \<leftarrow> int_to_strnum (last_seen_seqnum q) buffer;
     Some (drop p b, b) }"

definition MAX_MSG_SIZE :: nat where "MAX_MSG_SIZE = 512"

record Buffer_FIX =
  bf_data :: string
  hotdata_start :: nat
  bf_len :: u16
  hotdata_len :: u16

definition DAILY_FIX_MSG_COUNT :: nat where "DAILY_FIX_MSG_COUNT = 1300000"

definition MAX_RESEND_ATTEMPT :: u8 where "MAX_RESEND_ATTEMPT = 3"

text \<open>Time points of the steady clock in nanoseconds.\<close>

definition RESEND_INTERVAL :: i64 where "RESEND_INTERVAL = 1000000000"

record Sequence_FIX =
  my_next_seqnum :: u32
  last_resend_ts :: i64
  expected_seqnum :: u32
  resend_counter :: u8
  fix_history :: "nat \<Rightarrow> Buffer_FIX"

definition new_Sequence_FIX :: "i64 \<Rightarrow> (nat \<Rightarrow> Buffer_FIX) \<Rightarrow> Sequence_FIX" where
  "new_Sequence_FIX now msgs =
     \<lparr>my_next_seqnum = 1, last_resend_ts = now, expected_seqnum = 1, resend_counter = 0, fix_history = msgs\<rparr>"

definition set_next_seq :: "u32 \<Rightarrow> Sequence_FIX \<Rightarrow> Sequence_FIX" where
  "set_next_seq num q = q\<lparr>my_next_seqnum := num\<rparr>"

definition set_expected_seq :: "u32 \<Rightarrow> Sequence_FIX \<Rightarrow> Sequence_FIX" where
  "set_expected_seq num q = q\<lparr>expected_seqnum := num\<rparr>"

definition set_last_resend_ts :: "i64 \<Rightarrow> Sequence_FIX \<Rightarrow> Sequence_FIX" where
  "set_last_resend_ts now q = q\<lparr>last_resend_ts := now\<rparr>"

definition reset_resend_counter :: "Sequence_FIX \<Rightarrow> Sequence_FIX" where
  "reset_resend_counter q = q\<lparr>resend_counter := 0\<rparr>"

definition increase_next_seq :: "Sequence_FIX \<Rightarrow> Sequence_FIX" where
  "increase_next_seq q = q\<lparr>my_next_seqnum := my_next_seqnum q + 1\<rparr>"

definition increase_expected_seq :: "Sequence_FIX \<Rightarrow> Sequence_FIX" where
  "increase_expected_seq q = q\<lparr>expected_seqnum := expected_seqnum q + 1\<rparr>"

definition increase_resend_counter :: "Sequence_FIX \<Rightarrow> Sequence_FIX" where
  "increase_resend_counter q = q\<lparr>resend_counter := resend_counter q + 1\<rparr>"

definition get_buffer :: "nat \<Rightarrow> Sequence_FIX \<Rightarrow> Buffer_FIX option" where
  "get_buffer seqnum q = (if seqnum < DAILY_FIX_MSG_COUNT then Some (fix_history q seqnum) else None)"

subsection \<open>Sessions\<close>

datatype SessionType = ST_Order | ST_None

datatype SessionProtocol = SP_FIX | SP_SBT | SP_None

record VenueUserInfo_FIX =
  fix_username :: string
  fix_password :: string
  fix_my_id :: string
  fix_venue_id :: string
  fix_account :: string

record UserInfo_SBT =
  sbt_username :: string
  sbt_password :: string
  eci_client_account :: string
  eci_exchange_info :: string

definition pad_right :: "nat \<Rightarrow> string \<Rightarrow> string" where
  "pad_right n s = take n s @ replicate (n - length s) (CHR '' '')"

definition make_UserInfo_SBT :: "string \<Rightarrow> string \<Rightarrow> string \<Rightarrow> string \<Rightarrow> UserInfo_SBT" where
  "make_UserInfo_SBT user pass cl_acc exc_info =
     \<lparr>sbt_username = pad_right 6 user, sbt_password = pad_right 10 pass,
      eci_client_account = cl_acc, eci_exchange_info = exc_info\<rparr>"

datatype SessionAuth = Auth_None | Auth_FIX VenueUserInfo_FIX | Auth_SBT UserInfo_SBT

datatype SessionSequence = Seq_None | Seq_FIX Sequence_FIX | Seq_SBT Sequence_SBT

record SessionState =
  is_logged_in :: bool
  sess_prot :: SessionProtocol
  sess_sequence :: SessionSequence
  last_login_attempt_ns :: u64
  login_retry_count :: u32
  is_connected :: bool
  is_joined_multicast :: bool
  logged_before :: bool

definition new_SessionState :: SessionState where
  "new_SessionState =
     \<lparr>is_logged_in = False, sess_prot = SP_None, sess_sequence = Seq_None, last_login_attempt_ns = 0,
      login_retry_count = 0, is_connected = False, is_joined_multicast = False, logged_before = False\<rparr>"

definition ResetState_state :: "SessionState \<Rightarrow> SessionState" where
  "ResetState_state st = st\<lparr>is_logged_in := False, is_connected := False, is_joined_multicast := False\<rparr>"

definition init_state :: "SessionProtocol \<Rightarrow> i64 \<Rightarrow> (nat \<Rightarrow> Buffer_FIX) \<Rightarrow> SessionState \<Rightarrow> SessionState" where
  "init_state prot now msgs st =
     st\<lparr>sess_prot := prot,
        sess_sequence := (case prot of
            SP_FIX \<Rightarrow> Seq_FIX (new_Sequence_FIX now msgs)
          | SP_SBT \<Rightarrow> Seq_SBT new_Sequence_SBT
          | SP_None \<Rightarrow> sess_sequence st)\<rparr>"

record SessionContext =
  cx_ip :: u32
  cx_port :: u16
  cx_socket_index :: u8
  cx_account_index :: u8
  cx_venue :: Venue
  cx_protocol :: Protocol
  cx_session_type :: SessionType
  cx_tcp_index :: u8

definition MAX_SESSIONS :: nat where "MAX_SESSIONS = 8"

definition MAX_TCP_SESSIONS :: nat where "MAX_TCP_SESSIONS = 4"

definition ACC_COUNT :: nat where "ACC_COUNT = 1"

definition PROTOCOL_COUNT :: nat where "PROTOCOL_COUNT = 3"

record SessionManager =
  session_contexts :: "SessionContext list"
  session_states :: "SessionState list"
  session_auths :: "SessionAuth list"
  session_lookup :: "nat list list list"
  strnum_buffer :: string

fun protocol_index :: "Protocol \<Rightarrow> nat" where
  "protocol_index FIX = 0"
| "protocol_index ITCH = 1"
| "protocol_index OUCH = 2"
| "protocol_index Protocol_Unknown = 3"

definition getSessionIndex :: "Venue \<Rightarrow> Protocol \<Rightarrow> u8 \<Rightarrow> SessionManager \<Rightarrow> nat option" where
  "getSessionIndex ven prot acc sm = do {
     a \<leftarrow> nth_opt (session_lookup sm) (venue_index ven);
     b \<leftarrow> nth_opt a (protocol_index prot);
     nth_opt b (unat acc) }"

definition getSessionContext :: "nat \<Rightarrow> SessionManager \<Rightarrow> SessionContext option" where
  "getSessionContext i sm = nth_opt (session_contexts sm) i"

definition getSessionState :: "nat \<Rightarrow> SessionManager \<Rightarrow> SessionState option" where
  "getSessionState i sm = nth_opt (session_states sm) i"

definition getSessionAuth :: "nat \<Rightarrow> SessionManager \<Rightarrow> SessionAuth option" where
  "getSessionAuth i sm = nth_opt (session_auths sm) i"

definition upd_session :: "nat \<Rightarrow> (SessionState \<Rightarrow> SessionState) \<Rightarrow> SessionManager \<Rightarrow> SessionManager option" where
  "upd_session i f sm = do {
     st \<leftarrow> getSessionState i sm;
     Some (sm\<lparr>session_states := (session_states sm)[i := f st]\<rparr>) }"

definition setSessionLoggedIn :: "nat \<Rightarrow> bool \<Rightarrow> SessionManager \<Rightarrow> SessionManager option" where
  "setSessionLoggedIn i b = upd_session i (\<lambda>st. st\<lparr>is_logged_in := b, logged_before := True\<rparr>)"

definition setSessionConnected :: "nat \<Rightarrow> bool \<Rightarrow> SessionManager \<Rightarrow> SessionManager option" where
  "setSessionConnected i b = upd_session i (\<lambda>st. st\<lparr>is_connected := b\<rparr>)"

definition setSessionMulticast :: "nat \<Rightarrow> bool \<Rightarrow> SessionManager \<Rightarrow> SessionManager option" where
  "setSessionMulticast i b = upd_session i (\<lambda>st. st\<lparr>is_joined_multicast := b\<rparr>)"

definition isSessionLoggedIn :: "nat \<Rightarrow> SessionManager \<Rightarrow> bool option" where
  "isSessionLoggedIn i sm = map_option is_logged_in (getSessionState i sm)"

definition isSessionLoggedInBefore :: "nat \<Rightarrow> SessionManager \<Rightarrow> bool option" where
  "isSessionLoggedInBefore i sm = map_option logged_before (getSessionState i sm)"

definition isSessionConnected :: "nat \<Rightarrow> SessionManager \<Rightarrow> bool option" where
  "isSessionConnected i sm = map_option is_connected (getSessionState i sm)"

definition ResetState :: "nat \<Rightarrow> SessionManager \<Rightarrow> SessionManager option" where
  "ResetState i = upd_session i ResetState_state"

text \<open>The members of the union.\<close>

fun as_sbt :: "SessionSequence \<Rightarrow> Sequence_SBT option" where
  "as_sbt (Seq_SBT q) = Some q"
| "as_sbt _ = None"

fun as_fix :: "SessionSequence \<Rightarrow> Sequence_FIX option" where
  "as_fix (Seq_FIX q) = Some q"
| "as_fix _ = None"

fun auth_sbt :: "SessionAuth \<Rightarrow> UserInfo_SBT option" where
  "auth_sbt (Auth_SBT u) = Some u"
| "auth_sbt _ = None"

fun auth_fix :: "SessionAuth \<Rightarrow> VenueUserInfo_FIX option" where
  "auth_fix (Auth_FIX u) = Some u"
| "auth_fix _ = None"

definition session_sbt :: "nat \<Rightarrow> SessionManager \<Rightarrow> Sequence_SBT option" where
  "session_sbt i sm = do { st \<leftarrow> getSessionState i sm; as_sbt (sess_sequence st) }"

definition session_fix :: "nat \<Rightarrow> SessionManager \<Rightarrow> Sequence_FIX option" where
  "session_fix i sm = do { st \<leftarrow> getSessionState i sm; as_fix (sess_sequence st) }"

subsection \<open>Configuration\<close>

text \<open>One entry of the configuration file; the numbers are read as \<^verbatim>\<open>size_t\<close> and stored in a byte.\<close>

record SessionConfig =
  cf_socket_index :: nat
  cf_port :: u16
  cf_ip :: string
  cf_account_index :: nat
  cf_venue :: string
  cf_protocol :: string
  cf_session_type :: string
  cf_tcp_index :: nat
  cf_auth_prot :: string
  cf_username :: string
  cf_password :: string
  cf_my_id :: string
  cf_venue_id :: string
  cf_account :: string
  cf_client_account :: string
  cf_exchange_info :: string

definition convertToProtocol :: "string \<Rightarrow> Protocol" where
  "convertToProtocol prot =
     (if prot = ''FIX'' then FIX else if prot = ''OUCH'' then OUCH else if prot = ''ITCH'' then ITCH
      else Protocol_Unknown)"

definition convertToSessType :: "string \<Rightarrow> SessionType" where
  "convertToSessType type = (if type = ''Order'' then ST_Order else ST_None)"

definition convertToVenue :: "string \<Rightarrow> Venue" where
  "convertToVenue ven = (if ven = ''BIST'' then BIST else if ven = ''NASDAQ'' then NASDAQ else Venue_Unknown)"

text \<open>\<^verbatim>\<open>htons\<close> on a little-endian machine.\<close>

definition htons :: "u16 \<Rightarrow> u16" where
  "htons x = push_bit 8 x OR drop_bit 8 x"

definition make_context :: "(string \<Rightarrow> u32) \<Rightarrow> SessionConfig \<Rightarrow> SessionContext" where
  "make_context inet_pton c =
     \<lparr>cx_ip = inet_pton (cf_ip c), cx_port = htons (cf_port c), cx_socket_index = of_nat (cf_socket_index c),
      cx_account_index = of_nat (cf_account_index c), cx_venue = convertToVenue (cf_venue c),
      cx_protocol = convertToProtocol (cf_protocol c), cx_session_type = convertToSessType (cf_session_type c),
      cx_tcp_index = (if cf_protocol c \<noteq> ''ITCH'' then of_nat (cf_tcp_index c) else 99)\<rparr>"

definition zero_context :: SessionContext where
  "zero_context = \<lparr>cx_ip = 0, cx_port = 0, cx_socket_index = 0, cx_account_index = 0, cx_venue = BIST,
     cx_protocol = FIX, cx_session_type = ST_Order, cx_tcp_index = 99\<rparr>"

definition store_lookup :: "Venue \<Rightarrow> Protocol \<Rightarrow> u8 \<Rightarrow> nat \<Rightarrow> nat list list list \<Rightarrow> nat list list list option" where
  "store_lookup ven prot acc i tab = do {
     a \<leftarrow> nth_opt tab (venue_index ven);
     b \<leftarrow> nth_opt a (protocol_index prot);
     _ \<leftarrow> guard (unat acc < length b);
     Some (tab[venue_index ven := a[protocol_index prot := b[unat acc := i]]]) }"

primrec initialize_SessionContext ::
  "(string \<Rightarrow> u32) \<Rightarrow> SessionConfig list \<Rightarrow> SessionContext list \<Rightarrow> nat list list list \<Rightarrow>
   (SessionContext list \<times> nat list list list) option" where
  "initialize_SessionContext inet_pton [] ctxs tab = Some (ctxs, tab)"
| "initialize_SessionContext inet_pton (c # cs) ctxs tab = do {
     let cxt = make_context inet_pton c;
     _ \<leftarrow> guard (unat (cx_socket_index cxt) < length ctxs);
     tab' \<leftarrow> store_lookup (cx_venue cxt) (cx_protocol cxt) (cx_account_index cxt) (unat (cx_socket_index cxt)) tab;
     initialize_SessionContext inet_pton cs (ctxs[unat (cx_socket_index cxt) := cxt]) tab' }"

primrec initialize_SessionState ::
  "i64 \<Rightarrow> (nat \<Rightarrow> Buffer_FIX) \<Rightarrow> SessionConfig list \<Rightarrow> SessionState list \<Rightarrow> SessionState list option" where
  "initialize_SessionState now msgs [] sts = Some sts"
| "initialize_SessionState now msgs (c # cs) sts =
     (if cf_protocol c = ''ITCH'' then initialize_SessionState now msgs cs sts
      else do {
        let prot = (if cf_protocol c = ''FIX'' then SP_FIX else SP_SBT);
        st \<leftarrow> nth_opt sts (cf_socket_index c);
        initialize_SessionState now msgs cs (sts[cf_socket_index c := init_state prot now msgs st]) })"

definition make_auth :: "SessionConfig \<Rightarrow> SessionAuth" where
  "make_auth c =
     (if cf_auth_prot c = ''FIX'' then
        Auth_FIX \<lparr>fix_username = cf_username c, fix_password = cf_password c, fix_my_id = cf_my_id c,
          fix_venue_id = cf_venue_id c, fix_account = cf_account c\<rparr>
      else Auth_SBT (make_UserInfo_SBT (cf_username c) (cf_password c) (cf_client_account c) (cf_exchange_info c)))"

primrec initialize_SessionAuth :: "SessionConfig list \<Rightarrow> SessionAuth list \<Rightarrow> SessionAuth list option" where
  "initialize_SessionAuth [] auths = Some auths"
| "initialize_SessionAuth (c # cs) auths =
     (if cf_protocol c = ''ITCH'' then initialize_SessionAuth cs auths
      else do {
        _ \<leftarrow> guard (cf_tcp_index c < length auths);
        initialize_SessionAuth cs (auths[cf_tcp_index c := make_auth c]) })"

text \<open>The constructor.  The lookup table has no initial values; \<open>tab\<close> is what it holds before.\<close>

definition new_SessionManager ::
  "(string \<Rightarrow> u32) \<Rightarrow> i64 \<Rightarrow> (nat \<Rightarrow> Buffer_FIX) \<Rightarrow> nat list list list \<Rightarrow> SessionConfig list \<Rightarrow> SessionManager option" where
  "new_SessionManager inet_pton now msgs tab cfg = do {
     (ctxs, tab') \<leftarrow> initialize_SessionContext inet_pton cfg (replicate MAX_SESSIONS zero_context) tab;
     auths \<leftarrow> initialize_SessionAuth cfg (replicate MAX_TCP_SESSIONS Auth_None);
     sts \<leftarrow> initialize_SessionState now msgs cfg (replicate MAX_SESSIONS new_SessionState);
     Some \<lparr>session_contexts = ctxs, session_states = sts, session_auths = auths, session_lookup = tab',
       strnum_buffer = replicate 21 (CHR 0x00)\<rparr> }"

subsection \<open>Decimal numbers\<close>

text \<open>The digits of a number, least significant first, and its usual decimal notation.\<close>

fun digits_of :: "nat \<Rightarrow> string" where
  "digits_of n = (if n = 0 then [] else digit_char (n mod 10) # digits_of (n div 10))"

declare digits_of.simps [simp del]

definition decimal :: "nat \<Rightarrow> string" where
  "decimal n = (if n = 0 then ''0'' else rev (digits_of n))"

lemma digits_of_0 [simp]: "digits_of 0 = []"
  by (simp add: digits_of.simps)

lemma length_digits_of: "n < 10 ^ k \<Longrightarrow> length (digits_of n) \<le> k"
proof (induction k arbitrary: n)
  case (Suc k)
  then have "n div 10 < 10 ^ k" by (simp add: less_mult_imp_div_less mult.commute)
  then show ?case using Suc.IH by (subst digits_of.simps) simp
qed (simp add: digits_of.simps)

lemma of_char_digit: "d < 10 \<Longrightarrow> (of_char (digit_char d) :: nat) = 48 + d"
  by (simp add: digit_char_def take_bit_nat_eq_self)

lemma is_digit_digit_char [simp]: "d < 10 \<Longrightarrow> is_digit (digit_char d)"
  by (simp add: is_digit_def of_char_digit)

lemma digit_value: "d < 10 \<Longrightarrow> of_char (digit_char d) - 48 = (of_nat d :: u64)"
proof -
  assume d: "d < 10"
  have "(of_char (digit_char d) :: u64) = of_nat (of_char (digit_char d))" by (simp only: of_nat_of_char)
  then show ?thesis by (simp only: of_char_digit [OF d]) simp
qed

lemma digits_are_digits: "c \<in> set (digits_of n) \<Longrightarrow> is_digit c"
  by (induction n rule: digits_of.induct) (subst (asm) (2) digits_of.simps, auto split: if_splits)

lemma decimal_digits: "c \<in> set (decimal n) \<Longrightarrow> is_digit c"
  by (auto simp: decimal_def is_digit_def dest: digits_are_digits split: if_splits)

lemma decimal_nonempty [simp]: "decimal n \<noteq> []" "0 < length (decimal n)"
  by (simp_all add: decimal_def digits_of.simps)

lemma length_decimal: "n < 10 ^ k \<Longrightarrow> 0 < k \<Longrightarrow> length (decimal n) \<le> k"
  using length_digits_of [of n k] by (simp add: decimal_def)

lemma length_decimal_u64: "length (decimal (unat (v :: u64))) \<le> 20"
proof -
  have "unat v < 2 ^ 64" using unsigned_less [of v, where 'a = nat] by simp
  then show ?thesis by (intro length_decimal) simp_all
qed

lemma strnum_loop_append: "strnum_loop (xs @ ys) r = strnum_loop ys (strnum_loop xs r)"
  by (induction xs arbitrary: r) simp_all

lemma strnum_loop_skip: "\<forall>c \<in> set xs. \<not> is_digit c \<Longrightarrow> strnum_loop xs r = r"
  by (induction xs arbitrary: r) simp_all

lemma strnum_loop_digits: "strnum_loop (rev (digits_of n)) r = r * 10 ^ length (digits_of n) + of_nat n"
proof (induction n arbitrary: r rule: digits_of.induct)
  case (1 n)
  show ?case
  proof (cases "n = 0")
    case False
    have "(of_nat n :: u64) = of_nat (10 * (n div 10) + n mod 10)" by simp
    also have "\<dots> = 10 * of_nat (n div 10) + of_nat (n mod 10)" by (simp only: of_nat_add of_nat_mult) simp
    finally have n: "(of_nat n :: u64) = of_nat (n div 10) * 10 + of_nat (n mod 10)" by simp
    have "rev (digits_of n) = rev (digits_of (n div 10)) @ [digit_char (n mod 10)]"
      "length (digits_of n) = Suc (length (digits_of (n div 10)))"
      using False by (subst digits_of.simps, simp)+
    then show ?thesis
      unfolding n using "1.IH" [OF False, of r] by (simp add: strnum_loop_append digit_value algebra_simps)
  qed simp
qed

lemma strnum_loop_decimal [simp]: "strnum_loop (decimal n) 0 = of_nat n"
  using strnum_loop_digits [of n 0] by (simp add: decimal_def is_digit_def)

subsection \<open>Writing the digits\<close>

lemma write_digits_spec:
  assumes "p + length (digits_of v) \<le> length buf"
  shows "write_digits p v buf
    = Some (p + length (digits_of v), take p buf @ digits_of v @ drop (p + length (digits_of v)) buf)"
  using assms
proof (induction v arbitrary: p buf rule: digits_of.induct)
  case (1 v)
  show ?case
  proof (cases "v = 0")
    case False
    let ?d = "digit_char (v mod 10)" and ?b = "take p buf @ [digit_char (v mod 10)] @ drop (Suc p) buf"
    have ds: "digits_of v = ?d # digits_of (v div 10)" using False by (subst digits_of.simps) simp
    then have len: "p < length buf" "p + 1 + length (digits_of (v div 10)) \<le> length ?b" using "1.prems" by simp_all
    have w: "write_bytes p [?d] buf = Some ?b" using len(1) by (simp add: write_bytes_def)
    have "write_digits p v buf = write_digits (p + 1) (v div 10) ?b"
      by (subst write_digits.simps) (use False w in simp)
    also have "\<dots> = Some (p + 1 + length (digits_of (v div 10)),
        take (p + 1) ?b @ digits_of (v div 10) @ drop (p + 1 + length (digits_of (v div 10))) ?b)"
      by (rule "1.IH" [OF False len(2)])
    finally show ?thesis using ds len(1) by (simp add: min_def add.commute)
  qed (simp add: write_digits.simps)
qed

lemma nth_swap_ends:
  assumes "hi < length buf" "i < length buf"
  shows "swap_ends lo hi buf ! i = (if lo \<le> i \<and> i \<le> hi then buf ! (lo + hi - i) else buf ! i)"
  using assms
proof (induction lo hi buf rule: swap_ends.induct)
  case (1 lo hi buf)
  show ?case
  proof (cases "lo < hi")
    case True
    let ?b = "buf[lo := buf ! hi, hi := buf ! lo]"
    have "swap_ends lo hi buf ! i = (if lo + 1 \<le> i \<and> i \<le> hi - 1 then ?b ! (lo + 1 + (hi - 1) - i) else ?b ! i)"
      using "1.IH" [OF True] "1.prems" True by (subst swap_ends.simps) simp
    moreover have "lo + 1 + (hi - 1) = lo + hi" using True by simp
    ultimately show ?thesis using True "1.prems" by (auto simp: nth_list_update)
  next
    case False
    then have "lo \<le> i \<and> i \<le> hi \<longrightarrow> lo + hi - i = i" by auto
    then show ?thesis using False by (subst swap_ends.simps) simp
  qed
qed

lemma length_swap_ends [simp]: "length (swap_ends lo hi buf) = length buf"
proof (induction lo hi buf rule: swap_ends.induct)
  case (1 lo hi buf)
  then show ?case by (subst swap_ends.simps) simp
qed

lemma swap_ends_rev: "xs \<noteq> [] \<Longrightarrow> swap_ends 0 (length xs - 1) (xs @ ys) = rev xs @ ys"
proof (rule nth_equalityI)
  fix i assume "xs \<noteq> []" "i < length (swap_ends 0 (length xs - 1) (xs @ ys))"
  then show "swap_ends 0 (length xs - 1) (xs @ ys) ! i = (rev xs @ ys) ! i"
    by (subst nth_swap_ends) (auto simp: nth_append rev_nth less_Suc_eq_le [symmetric])
qed simp

lemma int_to_strnum_spec:
  assumes "length buf = 21"
  shows "int_to_strnum v buf = Some (length (decimal (unat v)), decimal (unat v) @ drop (length (decimal (unat v))) buf)"
proof (cases "v = 0")
  case False
  let ?n = "unat v"
  have n: "?n \<noteq> 0" using False by (simp add: unat_eq_0)
  then have d: "decimal ?n = rev (digits_of ?n)" by (simp add: decimal_def)
  then have ne: "digits_of ?n \<noteq> []" using decimal_nonempty(1) [of ?n] by auto
  have "length (digits_of ?n) \<le> 20" using length_decimal_u64 [of v] d by simp
  then have "write_digits 0 ?n buf = Some (length (digits_of ?n), digits_of ?n @ drop (length (digits_of ?n)) buf)"
    using write_digits_spec [of 0 ?n buf] assms by simp
  then show ?thesis using False d swap_ends_rev [OF ne] by (simp add: int_to_strnum_def)
qed (use assms in \<open>simp add: int_to_strnum_def write_bytes_def decimal_def\<close>)

lemma strlen_none: "CHR 0x00 \<notin> set s \<Longrightarrow> strlen s = None"
  by (simp add: strlen_def)

lemma strlen_nul: "CHR 0x00 \<notin> set s \<Longrightarrow> strlen (s @ CHR 0x00 # r) = Some (length s)"
  by (auto simp: strlen_def takeWhile_append)

subsection \<open>Initialisation\<close>

definition lookup_tab :: "nat list list list \<Rightarrow> Venue \<Rightarrow> Protocol \<Rightarrow> u8 \<Rightarrow> nat option" where
  "lookup_tab tab ven prot acc = do {
     a \<leftarrow> nth_opt tab (venue_index ven);
     b \<leftarrow> nth_opt a (protocol_index prot);
     nth_opt b (unat acc) }"

lemma nth_opt_update:
  "nth_opt (xs[i := x]) j = (if j = i \<and> i < length xs then Some x else nth_opt xs j)"
  by (auto simp: nth_opt_def nth_list_update)

lemma protocol_index_inj: "protocol_index p = protocol_index q \<longleftrightarrow> p = q"
  by (cases p; cases q) simp_all

lemma store_lookup_get:
  assumes "store_lookup ven prot acc i tab = Some tab'"
  shows "lookup_tab tab' v p a = (if (v, p, a) = (ven, prot, acc) then Some i else lookup_tab tab v p a)"
  using assms
  by (auto simp: store_lookup_def lookup_tab_def nth_opt_def nth_list_update venue_index_inj protocol_index_inj
      word_unat_eq_iff split: bind_splits if_splits)

text \<open>What identifies a session, and its slots in the arrays.\<close>

definition config_key :: "SessionConfig \<Rightarrow> Venue \<times> Protocol \<times> u8" where
  "config_key c = (convertToVenue (cf_venue c), convertToProtocol (cf_protocol c), of_nat (cf_account_index c))"

definition config_ok :: "SessionConfig list \<Rightarrow> bool" where
  "config_ok cfg \<longleftrightarrow> (\<forall>c \<in> set cfg. cf_socket_index c < MAX_SESSIONS) \<and> distinct (map cf_socket_index cfg)
     \<and> distinct (map config_key cfg)
     \<and> distinct (map cf_tcp_index (filter (\<lambda>c. cf_protocol c \<noteq> ''ITCH'') cfg))"

lemma config_ok_Cons:
  "config_ok (c # cfg) \<Longrightarrow> config_ok cfg \<and> cf_socket_index c < 8
     \<and> (\<forall>d \<in> set cfg. cf_socket_index d \<noteq> cf_socket_index c \<and> config_key d \<noteq> config_key c
          \<and> (cf_protocol c \<noteq> ''ITCH'' \<longrightarrow> cf_protocol d \<noteq> ''ITCH'' \<longrightarrow> cf_tcp_index d \<noteq> cf_tcp_index c))"
proof -
  assume a: "config_ok (c # cfg)"
  then have "config_ok cfg" "cf_socket_index c < 8" by (auto simp: config_ok_def MAX_SESSIONS_def split: if_splits)
  moreover have "cf_socket_index c \<notin> cf_socket_index ` set cfg" "config_key c \<notin> config_key ` set cfg"
    "cf_protocol c \<noteq> ''ITCH'' \<longrightarrow> cf_tcp_index c \<notin> cf_tcp_index ` {d \<in> set cfg. cf_protocol d \<noteq> ''ITCH''}"
    using a by (auto simp: config_ok_def)
  ultimately show ?thesis by (auto simp: image_iff ball_conj_distrib eq_commute [of _ "f c" for f])
qed

lemma unat_u8_small: "n < 8 \<Longrightarrow> unat (of_nat n :: u8) = n"
  by (simp add: unat_of_nat take_bit_nat_eq_self)

lemma init_contexts:
  assumes "initialize_SessionContext ip cfg ctxs tab = Some (ctxs', tab')" "config_ok cfg"
  shows "length ctxs' = length ctxs
    \<and> (\<forall>i. i \<notin> cf_socket_index ` set cfg \<longrightarrow> nth_opt ctxs' i = nth_opt ctxs i)
    \<and> (\<forall>v p a. (v, p, a) \<notin> config_key ` set cfg \<longrightarrow> lookup_tab tab' v p a = lookup_tab tab v p a)
    \<and> (\<forall>c \<in> set cfg. nth_opt ctxs' (cf_socket_index c) = Some (make_context ip c)
         \<and> (case config_key c of (v, p, a) \<Rightarrow> lookup_tab tab' v p a = Some (cf_socket_index c)))"
  using assms
proof (induction cfg arbitrary: ctxs tab)
  case (Cons c cfg)
  let ?x = "make_context ip c" and ?i = "cf_socket_index c"
  have i: "unat (cx_socket_index ?x) = ?i" "?i < 8"
    using config_ok_Cons [OF Cons.prems(2)] by (simp_all add: make_context_def unat_u8_small)
  have k: "(cx_venue ?x, cx_protocol ?x, cx_account_index ?x) = config_key c"
    by (simp add: make_context_def config_key_def)
  obtain tab1 where t: "store_lookup (cx_venue ?x) (cx_protocol ?x) (cx_account_index ?x) ?i tab = Some tab1"
    "?i < length ctxs" "initialize_SessionContext ip cfg (ctxs[?i := ?x]) tab1 = Some (ctxs', tab')"
    using Cons.prems(1) i(1) by (auto simp: Let_def split: bind_splits)
  have ok: "config_ok cfg" and fresh: "?i \<notin> cf_socket_index ` set cfg" "config_key c \<notin> config_key ` set cfg"
    using config_ok_Cons [OF Cons.prems(2)] by (auto simp: eq_commute [of "cf_socket_index c"] eq_commute [of "config_key c"])
  note ih = Cons.IH [OF t(3) ok]
  have get: "lookup_tab tab1 v p a = (if (v, p, a) = config_key c then Some ?i else lookup_tab tab v p a)" for v p a
    using store_lookup_get [OF t(1)] k by simp
  have "nth_opt (ctxs[?i := ?x]) ?i = Some ?x" using t(2) by simp
  then have "nth_opt ctxs' ?i = Some ?x" using ih fresh(1) by metis
  moreover have "case config_key c of (v, p, a) \<Rightarrow> lookup_tab tab' v p a = Some ?i"
    using ih get fresh(2) by (cases "config_key c") simp
  moreover have "nth_opt ctxs' j = nth_opt ctxs j" if "j \<notin> cf_socket_index ` set (c # cfg)" for j
    using ih that by (simp add: nth_opt_update)
  moreover have "lookup_tab tab' v p a = lookup_tab tab v p a" if "(v, p, a) \<notin> config_key ` set (c # cfg)" for v p a
    using ih that get by simp
  ultimately show ?case using ih by simp
qed simp

lemma init_states:
  assumes "initialize_SessionState now msgs cfg sts = Some sts'" "config_ok cfg"
  shows "(\<forall>i. i \<notin> cf_socket_index ` set cfg \<longrightarrow> nth_opt sts' i = nth_opt sts i)
    \<and> (\<forall>c \<in> set cfg. nth_opt sts' (cf_socket_index c) = (if cf_protocol c = ''ITCH'' then nth_opt sts (cf_socket_index c)
         else map_option (init_state (if cf_protocol c = ''FIX'' then SP_FIX else SP_SBT) now msgs)
                (nth_opt sts (cf_socket_index c))))"
  using assms
proof (induction cfg arbitrary: sts)
  case (Cons c cfg)
  have ok: "config_ok cfg" and fresh: "\<forall>d \<in> set cfg. cf_socket_index d \<noteq> cf_socket_index c"
    using config_ok_Cons [OF Cons.prems(2)] by auto
  show ?case
  proof (cases "cf_protocol c = ''ITCH''")
    case True
    then have "initialize_SessionState now msgs cfg sts = Some sts'" using Cons.prems(1) by simp
    note ih = Cons.IH [OF this ok]
    have "cf_socket_index c \<notin> cf_socket_index ` set cfg" using fresh by force
    then show ?thesis using ih fresh True by simp
  next
    case False
    let ?f = "init_state (if cf_protocol c = ''FIX'' then SP_FIX else SP_SBT) now msgs"
    let ?i = "cf_socket_index c"
    obtain st where st: "nth_opt sts ?i = Some st" "initialize_SessionState now msgs cfg (sts[?i := ?f st]) = Some sts'"
      using Cons.prems(1) False by (auto simp: Let_def split: bind_splits if_splits)
    moreover have "?i \<notin> cf_socket_index ` set cfg" using fresh by force
    ultimately show ?thesis using Cons.IH [OF st(2) ok] fresh False by (simp add: nth_opt_update nth_opt_eq_Some)
  qed
qed simp

lemma init_auths:
  assumes "initialize_SessionAuth cfg auths = Some auths'" "config_ok cfg"
  shows "(\<forall>i. i \<notin> cf_tcp_index ` {c \<in> set cfg. cf_protocol c \<noteq> ''ITCH''} \<longrightarrow> nth_opt auths' i = nth_opt auths i)
    \<and> (\<forall>c \<in> set cfg. cf_protocol c \<noteq> ''ITCH'' \<longrightarrow> nth_opt auths' (cf_tcp_index c) = Some (make_auth c))"
  using assms
proof (induction cfg arbitrary: auths)
  case (Cons c cfg)
  have ok: "config_ok cfg" and fresh: "\<forall>d \<in> set cfg. cf_protocol c \<noteq> ''ITCH'' \<longrightarrow> cf_protocol d \<noteq> ''ITCH''
      \<longrightarrow> cf_tcp_index d \<noteq> cf_tcp_index c"
    using config_ok_Cons [OF Cons.prems(2)] by auto
  show ?case
  proof (cases "cf_protocol c = ''ITCH''")
    case True
    then have "initialize_SessionAuth cfg auths = Some auths'" using Cons.prems(1) by simp
    from Cons.IH [OF this ok] show ?thesis using True by auto
  next
    case False
    let ?i = "cf_tcp_index c"
    have st: "?i < length auths" "initialize_SessionAuth cfg (auths[?i := make_auth c]) = Some auths'"
      using Cons.prems(1) False by (auto simp: guard_def split: bind_splits if_splits)
    have "{x \<in> set (c # cfg). cf_protocol x \<noteq> ''ITCH''} = insert c {x \<in> set cfg. cf_protocol x \<noteq> ''ITCH''}"
      using False by auto
    moreover have "?i \<notin> cf_tcp_index ` {x \<in> set cfg. cf_protocol x \<noteq> ''ITCH''}" using fresh False by force
    ultimately show ?thesis using Cons.IH [OF st(2) ok] st(1) by (simp add: nth_opt_update)
  qed
qed simp

subsection \<open>Properties\<close>

text \<open>A sequence number written with \<^verbatim>\<open>int_to_strnum\<close> fits into its 21-byte buffer, takes at most twenty
  digits, and a field of twenty characters that holds these digits right-justified is read back by
  \<^verbatim>\<open>strnum_to_int\<close> to the same number.\<close>

theorem strnum_roundtrip:
  assumes "length buffer = 21"
  shows "\<exists>p b. int_to_strnum v buffer = Some (p, b) \<and> length b = 21 \<and> 1 \<le> p \<and> p \<le> 20
    \<and> strnum_to_int (replicate (20 - p) (CHR '' '') @ take p b) = Some v"
proof -
  let ?d = "decimal (unat v)"
  have l: "length ?d \<le> 20" "1 \<le> length ?d" using length_decimal_u64 decimal_nonempty(2) [of "unat v"] by (simp_all add: Suc_le_eq)
  have "strnum_loop (replicate (20 - length ?d) (CHR '' '') @ ?d) 0 = v"
    by (simp add: strnum_loop_append strnum_loop_skip is_digit_def)
  then have "strnum_to_int (replicate (20 - length ?d) (CHR '' '') @ ?d) = Some v"
    using l by (simp add: strnum_to_int_def read_bytes_def)
  then show ?thesis using int_to_strnum_spec [OF assms, of v] l assms by simp
qed

theorem strnum_roundtrip_witness:
  "\<exists>p b. int_to_strnum 407 (replicate 21 (CHR 0x00)) = Some (p, b) \<and> length b = 21 \<and> 1 \<le> p \<and> p \<le> 20
    \<and> strnum_to_int (replicate (20 - p) (CHR '' '') @ take p b) = Some 407"
  by (rule strnum_roundtrip) simp

text \<open>The two bytes of a number in network order.\<close>

lemma unat_htons: "unat (htons x) = 256 * (unat x mod 256) + unat x div 256"
proof -
  have "push_bit 8 x AND drop_bit 8 x = 0"
    by (rule bit_eqI) (auto simp: bit_simps dest: bit_imp_le_length)
  then have "htons x = push_bit 8 x + drop_bit 8 x" by (simp add: htons_def disjunctive_add_eq_or)
  moreover have "unat (push_bit 8 x) = 256 * (unat x mod 256)"
    using unat_word_ariths(2) [of 256 x] mod_mult_mult1 [of 256 "unat x" 256] by (simp add: push_bit_eq_mult mult.commute)
  moreover have "unat (drop_bit 8 x) = unat x div 256" by (simp add: drop_bit_eq_div unat_div)
  moreover have "256 * (unat x mod 256) + unat x div 256 < 2 ^ 16"
    using unsigned_less [of x, where 'a = nat] by simp
  ultimately show ?thesis by (simp add: unat_word_ariths(1))
qed

text \<open>C40. After the sessions have been set up from a configuration in which no socket, no credential slot and
  no combination of venue, protocol and account occurs twice, every session is found under its
  venue, protocol and account.  Its context holds the address that inet_pton gives, the port in network byte order, and the configured
  indices, venue, protocol and type (99 stands for the missing credential slot of ITCH).  Its state is neither connected nor
  logged in, nor was before, without an attempt to log in; a FIX session has both numbers at 1, no resend requests and the
  time of the start, an OUCH session number 0 and an empty id, and an ITCH session no sequence at all.  The credentials are stored under
  the credential slot: those of FIX as configured, those of SoupBinTCP cut or filled with spaces to 6 and 10 characters,
  with the client account and exchange information.\<close>

theorem sessions_configured:
  assumes "new_SessionManager inet_pton now msgs tab cfg = Some sm" "config_ok cfg" "c \<in> set cfg"
  shows "getSessionIndex (convertToVenue (cf_venue c)) (convertToProtocol (cf_protocol c)) (of_nat (cf_account_index c)) sm
       = Some (cf_socket_index c)
    \<and> (\<exists>cx. getSessionContext (cf_socket_index c) sm = Some cx \<and> cx_ip cx = inet_pton (cf_ip c)
         \<and> unat (cx_port cx) = 256 * (unat (cf_port c) mod 256) + unat (cf_port c) div 256
         \<and> unat (cx_socket_index cx) = cf_socket_index c \<and> cx_account_index cx = of_nat (cf_account_index c)
         \<and> cx_venue cx = (if cf_venue c = ''BIST'' then BIST else if cf_venue c = ''NASDAQ'' then NASDAQ else Venue_Unknown)
         \<and> cx_protocol cx = (if cf_protocol c = ''FIX'' then FIX else if cf_protocol c = ''OUCH'' then OUCH
              else if cf_protocol c = ''ITCH'' then ITCH else Protocol_Unknown)
         \<and> cx_session_type cx = (if cf_session_type c = ''Order'' then ST_Order else ST_None)
         \<and> cx_tcp_index cx = (if cf_protocol c = ''ITCH'' then 99 else of_nat (cf_tcp_index c)))
    \<and> (\<exists>st. getSessionState (cf_socket_index c) sm = Some st \<and> \<not> is_logged_in st \<and> \<not> is_connected st \<and> \<not> is_joined_multicast st
         \<and> \<not> logged_before st \<and> last_login_attempt_ns st = 0 \<and> login_retry_count st = 0
         \<and> (cf_protocol c = ''FIX'' \<longrightarrow> sess_prot st = SP_FIX \<and> (\<exists>q. sess_sequence st = Seq_FIX q \<and> my_next_seqnum q = 1
              \<and> expected_seqnum q = 1 \<and> resend_counter q = 0 \<and> last_resend_ts q = now \<and> fix_history q = msgs))
         \<and> (cf_protocol c = ''OUCH'' \<longrightarrow> sess_prot st = SP_SBT \<and> (\<exists>q. sess_sequence st = Seq_SBT q \<and> last_seen_seqnum q = 0
              \<and> heartbeat_interval q = 0 \<and> sbt_session q = replicate 10 (CHR 0x00)))
         \<and> (cf_protocol c = ''ITCH'' \<longrightarrow> sess_prot st = SP_None \<and> sess_sequence st = Seq_None))
    \<and> (cf_protocol c \<noteq> ''ITCH'' \<and> cf_auth_prot c = ''FIX'' \<longrightarrow> (\<exists>u. getSessionAuth (cf_tcp_index c) sm = Some (Auth_FIX u)
         \<and> fix_username u = cf_username c \<and> fix_password u = cf_password c \<and> fix_my_id u = cf_my_id c
         \<and> fix_venue_id u = cf_venue_id c \<and> fix_account u = cf_account c))
    \<and> (cf_protocol c \<noteq> ''ITCH'' \<and> cf_auth_prot c \<noteq> ''FIX'' \<longrightarrow> (\<exists>u. getSessionAuth (cf_tcp_index c) sm = Some (Auth_SBT u)
         \<and> sbt_username u = take 6 (cf_username c) @ replicate (6 - length (cf_username c)) (CHR '' '')
         \<and> sbt_password u = take 10 (cf_password c) @ replicate (10 - length (cf_password c)) (CHR '' '')
         \<and> eci_client_account u = cf_client_account c \<and> eci_exchange_info u = cf_exchange_info c))"
proof -
  let ?i = "cf_socket_index c"
  obtain ctxs tab' auths sts where s:
    "initialize_SessionContext inet_pton cfg (replicate MAX_SESSIONS zero_context) tab = Some (ctxs, tab')"
    "initialize_SessionAuth cfg (replicate MAX_TCP_SESSIONS Auth_None) = Some auths"
    "initialize_SessionState now msgs cfg (replicate MAX_SESSIONS new_SessionState) = Some sts"
    "session_contexts sm = ctxs" "session_states sm = sts" "session_auths sm = auths" "session_lookup sm = tab'"
    using assms(1) by (auto simp: new_SessionManager_def split: bind_splits)
  have i: "?i < MAX_SESSIONS" using assms(2,3) by (simp add: config_ok_def)
  then have n: "nth_opt (replicate MAX_SESSIONS new_SessionState) ?i = Some new_SessionState" by (simp add: nth_opt_def)
  have "getSessionIndex (convertToVenue (cf_venue c)) (convertToProtocol (cf_protocol c)) (of_nat (cf_account_index c)) sm = Some ?i"
    using init_contexts [OF s(1) assms(2)] assms(3) by (auto simp: s(7) getSessionIndex_def lookup_tab_def config_key_def)
  moreover have "getSessionContext ?i sm = Some (make_context inet_pton c)"
    using init_contexts [OF s(1) assms(2)] assms(3) by (simp add: s(4) getSessionContext_def)
  moreover have "unat (cx_socket_index (make_context inet_pton c)) = ?i"
    using i by (simp add: make_context_def unat_u8_small MAX_SESSIONS_def)
  moreover have "getSessionState ?i sm = Some (if cf_protocol c = ''ITCH'' then new_SessionState
      else init_state (if cf_protocol c = ''FIX'' then SP_FIX else SP_SBT) now msgs new_SessionState)"
    using init_states [OF s(3) assms(2)] assms(3) n by (simp add: s(5) getSessionState_def)
  moreover have "cf_protocol c \<noteq> ''ITCH'' \<Longrightarrow> getSessionAuth (cf_tcp_index c) sm = Some (make_auth c)"
    using init_auths [OF s(2) assms(2)] assms(3) by (simp add: s(6) getSessionAuth_def)
  ultimately show ?thesis
    by (simp add: make_context_def unat_htons convertToVenue_def convertToProtocol_def convertToSessType_def init_state_def new_SessionState_def
        new_Sequence_FIX_def new_Sequence_SBT_def make_auth_def make_UserInfo_SBT_def pad_right_def)
qed

definition sample_config :: SessionConfig where
  "sample_config = \<lparr>cf_socket_index = 1, cf_port = 1234, cf_ip = ''127.0.0.1'', cf_account_index = 0,
     cf_venue = ''BIST'', cf_protocol = ''OUCH'', cf_session_type = ''Order'', cf_tcp_index = 1, cf_auth_prot = ''SBT'',
     cf_username = ''OUCH01'', cf_password = ''PASS01'', cf_my_id = [], cf_venue_id = [], cf_account = [],
     cf_client_account = ''DMACCOUNT1234'', cf_exchange_info = ''EXCHANGEINFO1234''\<rparr>"

definition empty_buffer :: Buffer_FIX where
  "empty_buffer = \<lparr>bf_data = replicate MAX_MSG_SIZE (CHR 0x00), hotdata_start = 0, bf_len = 0, hotdata_len = 0\<rparr>"

definition sample_sessions :: "SessionManager option" where
  "sample_sessions = new_SessionManager (\<lambda>_. 0x0100007F) 0 (\<lambda>_. empty_buffer) [[[0], [0], [0]], [[0], [0], [0]]] [sample_config]"

theorem sessions_configured_witness:
  "\<exists>sm cx u. sample_sessions = Some sm \<and> getSessionIndex BIST OUCH 0 sm = Some 1
     \<and> getSessionContext 1 sm = Some cx \<and> unat (cx_port cx) = 0xD204 \<and> getSessionAuth 1 sm = Some (Auth_SBT u)
     \<and> sbt_username u = ''OUCH01'' \<and> sbt_password u = ''PASS01    ''"
proof -
  obtain sm where sm: "sample_sessions = Some sm"
    by (auto simp: sample_sessions_def new_SessionManager_def make_context_def sample_config_def MAX_SESSIONS_def
        MAX_TCP_SESSIONS_def store_lookup_def convertToVenue_def convertToProtocol_def nth_opt_def)
  have "config_ok [sample_config]" by (simp add: config_ok_def sample_config_def MAX_SESSIONS_def)
  note r = sessions_configured [OF sm [unfolded sample_sessions_def] this, of sample_config]
  have f: "cf_venue sample_config = ''BIST''" "cf_protocol sample_config = ''OUCH''" "cf_account_index sample_config = 0" "cf_socket_index sample_config = 1"
    "cf_tcp_index sample_config = 1" "cf_auth_prot sample_config = ''SBT''" "cf_port sample_config = 1234"
    "cf_username sample_config = ''OUCH01''" "cf_password sample_config = ''PASS01''" by (simp_all add: sample_config_def)
  have "replicate 4 (CHR '' '') = ''    ''" by (simp add: numeral_eq_Suc)
  then show ?thesis using r sm unfolding f by (auto simp: convertToVenue_def convertToProtocol_def)
qed

end
