(* ===== verification/Soup_Bin_Tcp.thy ===== *)
theory Soup_Bin_Tcp
  imports Sessions
begin

text \<open>
  The SoupBinTCP protocol of the order-entry sessions (src/src/session/SoupBinTcp.h, SoupBinTcp.cpp) and
  the decision when to log in (src/src/session/LoginController.h, LoginController.cpp).  A packet is the
  list of bytes from its start to the end of its buffer.  The clock is an argument; the time the
  login decision sleeps is part of its result.
\<close>

subsection \<open>Packets\<close>

datatype SBTAction = NotToParser | ToParser | SBT_Disconnect | SBT_Reconnect | SBT_Ignore

definition set_sbt :: "nat \<Rightarrow> Sequence_SBT \<Rightarrow> SessionManager \<Rightarrow> SessionManager option" where
  "set_sbt i q = upd_session i (\<lambda>st. st\<lparr>sess_sequence := Seq_SBT q\<rparr>)"

definition handleSequencedData :: "nat \<Rightarrow> SessionManager \<Rightarrow> (SBTAction \<times> SessionManager) option" where
  "handleSequencedData i sm = do {
     q \<leftarrow> session_sbt i sm;
     sm1 \<leftarrow> set_sbt i (increase_seq q) sm;
     Some (ToParser, sm1) }"

definition handleLoginAccepted :: "string \<Rightarrow> nat \<Rightarrow> SessionManager \<Rightarrow> (SBTAction \<times> SessionManager) option" where
  "handleLoginAccepted pkt i sm = do {
     sm1 \<leftarrow> upd_session i (\<lambda>st. st\<lparr>is_logged_in := True, logged_before := True\<rparr>) sm;
     q \<leftarrow> session_sbt i sm1;
     q1 \<leftarrow> set_sess_id (drop 3 pkt) q;
     q2 \<leftarrow> set_seq (drop 13 pkt) q1;
     sm2 \<leftarrow> set_sbt i q2 sm1;
     Some (NotToParser, sm2) }"

definition handleLoginRejected :: "string \<Rightarrow> SBTAction option" where
  "handleLoginRejected pkt = do {
     c \<leftarrow> read_char (drop 3 pkt);
     Some (if c = CHR ''S'' then SBT_Reconnect else SBT_Disconnect) }"

definition pkt_handler :: "string \<Rightarrow> nat \<Rightarrow> SessionManager \<Rightarrow> (SBTAction \<times> SessionManager) option" where
  "pkt_handler pkt i sm = do {
     type \<leftarrow> read_char (drop 2 pkt);
     if type = CHR ''S'' then handleSequencedData i sm
     else if type = CHR ''H'' then Some (SBT_Ignore, sm)
     else if type = CHR ''Z'' then Some (SBT_Reconnect, sm)
     else if type = CHR ''A'' then handleLoginAccepted pkt i sm
     else if type = CHR ''J'' then map_option (\<lambda>a. (a, sm)) (handleLoginRejected pkt)
     else if type = CHR ''U'' then Some (NotToParser, sm)
     else Some (SBT_Ignore, sm) }"

subsection \<open>Requests\<close>

definition buildHeartbeat :: "string \<Rightarrow> string option" where
  "buildHeartbeat buf = do { b \<leftarrow> write_u16_be 0 1 buf; write_bytes 2 ''R'' b }"

definition buildLogoutRequest :: "string \<Rightarrow> string option" where
  "buildLogoutRequest buf = do { b \<leftarrow> write_u16_be 0 1 buf; write_bytes 2 ''O'' b }"

text \<open>The header of an OUCH packet at the start of a buffer; the source returns the position behind it.\<close>

definition WriteSBTHeaderForDataPacket :: "u16 \<Rightarrow> string \<Rightarrow> string option" where
  "WriteSBTHeaderForDataPacket OUCHpkt_len buf = do {
     b \<leftarrow> write_u16_be 0 (OUCHpkt_len - 2) buf;
     write_bytes 2 ''U'' b }"

definition buildFirstLoginRequest :: "nat \<Rightarrow> SessionManager \<Rightarrow> string \<Rightarrow> string option" where
  "buildFirstLoginRequest i sm buf = do {
     auth \<leftarrow> getSessionAuth i sm;
     u \<leftarrow> auth_sbt auth;
     b1 \<leftarrow> write_bytes 0 (replicate 47 (CHR '' '')) buf;
     b2 \<leftarrow> write_u16_be 0 47 b1;
     b3 \<leftarrow> write_bytes 2 ''L'' b2;
     b4 \<leftarrow> write_bytes 3 (sbt_username u) b3;
     write_bytes 9 (sbt_password u) b4 }"

text \<open>The session id is copied up to its NUL, and the number from where \<open>get_seq\<close> points to up to the next
  NUL; the static buffer changes.\<close>

definition buildReLoginRequest :: "nat \<Rightarrow> SessionManager \<Rightarrow> string \<Rightarrow> (string \<times> SessionManager) option" where
  "buildReLoginRequest i sm buf = do {
     b5 \<leftarrow> buildFirstLoginRequest i sm buf;
     q \<leftarrow> session_sbt i sm;
     sess_len \<leftarrow> strlen (sbt_session q);
     b6 \<leftarrow> write_bytes (19 + (10 - sess_len)) (take sess_len (sbt_session q)) b5;
     (s1, sb1) \<leftarrow> get_seq q (strnum_buffer sm);
     seq_len \<leftarrow> strlen s1;
     (s2, sb2) \<leftarrow> get_seq q sb1;
     b7 \<leftarrow> write_bytes (29 + (20 - seq_len)) (take seq_len s2) b6;
     Some (b7, sm\<lparr>strnum_buffer := sb2\<rparr>) }"

subsection \<open>When to log in\<close>

datatype LoginDecision = TryAgain | LD_Disconnect | AlreadyLoggedIn | Try

definition ALLOWED_LOGIN_ATTEMPT :: u32 where "ALLOWED_LOGIN_ATTEMPT = 3"

definition MIN_LOGIN_INTERVAL_NS :: u64 where "MIN_LOGIN_INTERVAL_NS = 5000000000"

definition MAX_LOGIN_INTERVAL_NS :: u64 where "MAX_LOGIN_INTERVAL_NS = 60000000000"

definition compute_backoff_ns :: "u32 \<Rightarrow> u64" where
  "compute_backoff_ns retry_count = min (push_bit (unat retry_count) MIN_LOGIN_INTERVAL_NS) MAX_LOGIN_INTERVAL_NS"

definition LoginDecider :: "u64 \<Rightarrow> SessionState \<Rightarrow> LoginDecision \<times> u64" where
  "LoginDecider now st =
     (if \<not> is_connected st then (LD_Disconnect, 0)
      else if is_logged_in st then (AlreadyLoggedIn, 0)
      else if ALLOWED_LOGIN_ATTEMPT \<le> login_retry_count st then (LD_Disconnect, 0)
      else
        let backoff_ns = compute_backoff_ns (login_retry_count st);
            elapsed_ns = now - last_login_attempt_ns st
        in (TryAgain, if elapsed_ns < backoff_ns then backoff_ns - elapsed_ns else 0))"

subsection \<open>Lemmas\<close>

lemma upd_session_get:
  assumes "upd_session i f sm = Some sm'"
  shows "getSessionState j sm' = (if j = i then map_option f (getSessionState i sm) else getSessionState j sm)"
    and "session_contexts sm' = session_contexts sm" "session_auths sm' = session_auths sm"
    "session_lookup sm' = session_lookup sm" "strnum_buffer sm' = strnum_buffer sm"
  using assms by (auto simp: upd_session_def getSessionState_def nth_opt_update nth_opt_def split: bind_splits if_splits)

lemma upd_session_defined: "upd_session i f sm = None \<longleftrightarrow> getSessionState i sm = None"
  by (auto simp: upd_session_def split: bind_splits)

lemma set_sbt_get:
  assumes "set_sbt i q sm = Some sm'"
  shows "session_sbt i sm' = Some q" "j \<noteq> i \<Longrightarrow> getSessionState j sm' = getSessionState j sm"
  using upd_session_get [OF assms [unfolded set_sbt_def]] assms
  by (auto simp: session_sbt_def set_sbt_def upd_session_def split: bind_splits)

lemma set_sbt_defined: "session_sbt i sm = Some q \<Longrightarrow> \<exists>sm'. set_sbt i r sm = Some sm'"
  by (auto simp: session_sbt_def set_sbt_def upd_session_def split: bind_splits)

subsection \<open>Sequence numbers of a session\<close>

text \<open>The packets of one session, one after the other.\<close>

primrec handle_all :: "string list \<Rightarrow> nat \<Rightarrow> SessionManager \<Rightarrow> (SBTAction list \<times> SessionManager) option" where
  "handle_all [] i sm = Some ([], sm)"
| "handle_all (pkt # pkts) i sm = do {
     (a, sm1) \<leftarrow> pkt_handler pkt i sm;
     (as, sm2) \<leftarrow> handle_all pkts i sm1;
     Some (a # as, sm2) }"

definition sbt_type :: "string \<Rightarrow> char" where "sbt_type pkt = pkt ! 2"

lemma pkt_handler_step:
  assumes "session_sbt i sm = Some q" "3 \<le> length pkt" "sbt_type pkt \<noteq> CHR ''A''" "sbt_type pkt = CHR ''J'' \<longrightarrow> 4 \<le> length pkt"
  shows "\<exists>a sm'. pkt_handler pkt i sm = Some (a, sm') \<and> (a = ToParser \<longleftrightarrow> sbt_type pkt = CHR ''S'')
    \<and> session_sbt i sm' = Some (q\<lparr>last_seen_seqnum := last_seen_seqnum q + (if sbt_type pkt = CHR ''S'' then 1 else 0)\<rparr>)
    \<and> isSessionLoggedIn i sm' = isSessionLoggedIn i sm \<and> isSessionLoggedInBefore i sm' = isSessionLoggedInBefore i sm
    \<and> (\<forall>j. j \<noteq> i \<longrightarrow> getSessionState j sm' = getSessionState j sm)"
proof -
  have t: "read_char (drop 2 pkt) = Some (sbt_type pkt)" using assms(2) by (simp add: read_char_def nth_opt_def sbt_type_def)
  show ?thesis
  proof (cases "sbt_type pkt = CHR ''S''")
    case True
    obtain sm' where s: "set_sbt i (increase_seq q) sm = Some sm'" using set_sbt_defined [OF assms(1)] by blast
    then have "pkt_handler pkt i sm = Some (ToParser, sm')"
      using t True assms(1) by (simp add: pkt_handler_def handleSequencedData_def)
    moreover have "isSessionLoggedIn i sm' = isSessionLoggedIn i sm" "isSessionLoggedInBefore i sm' = isSessionLoggedInBefore i sm"
      using upd_session_get(1) [OF s [unfolded set_sbt_def]]
      by (simp_all add: isSessionLoggedIn_def isSessionLoggedInBefore_def option.map_comp o_def)
    ultimately show ?thesis using set_sbt_get [OF s] True by (simp add: increase_seq_def)
  next
    case False
    have "\<exists>a. pkt_handler pkt i sm = Some (a, sm) \<and> a \<noteq> ToParser"
    proof (cases "sbt_type pkt = CHR ''J''")
      case True
      then obtain c where "read_char (drop 3 pkt) = Some c" using assms(4) by (simp add: read_char_def nth_opt_def)
      then show ?thesis using t True by (simp add: pkt_handler_def handleLoginRejected_def)
    qed (use t False assms(3) in \<open>auto simp: pkt_handler_def\<close>)
    then show ?thesis using False assms(1) by auto
  qed
qed

lemma handle_all_counts:
  assumes "session_sbt i sm = Some q"
    and "\<forall>pkt \<in> set pkts. 4 \<le> length pkt \<and> sbt_type pkt \<noteq> CHR ''A''"
  shows "\<exists>as sm'. handle_all pkts i sm = Some (as, sm')
    \<and> map (\<lambda>a. a = ToParser) as = map (\<lambda>pkt. sbt_type pkt = CHR ''S'') pkts
    \<and> session_sbt i sm' = Some (q\<lparr>last_seen_seqnum := last_seen_seqnum q
         + of_nat (length (filter (\<lambda>pkt. sbt_type pkt = CHR ''S'') pkts))\<rparr>)
    \<and> isSessionLoggedIn i sm' = isSessionLoggedIn i sm \<and> isSessionLoggedInBefore i sm' = isSessionLoggedInBefore i sm
    \<and> (\<forall>j. j \<noteq> i \<longrightarrow> getSessionState j sm' = getSessionState j sm)"
  using assms
proof (induction pkts arbitrary: sm q)
  case (Cons pkt pkts)
  let ?q = "q\<lparr>last_seen_seqnum := last_seen_seqnum q + (if sbt_type pkt = CHR ''S'' then 1 else 0)\<rparr>"
  obtain a sm1 where s: "pkt_handler pkt i sm = Some (a, sm1)" "(a = ToParser) = (sbt_type pkt = CHR ''S'')"
    "session_sbt i sm1 = Some ?q" "\<forall>j. j \<noteq> i \<longrightarrow> getSessionState j sm1 = getSessionState j sm"
    "isSessionLoggedIn i sm1 = isSessionLoggedIn i sm" "isSessionLoggedInBefore i sm1 = isSessionLoggedInBefore i sm"
    using pkt_handler_step [OF Cons.prems(1), of pkt] Cons.prems(2) by auto
  obtain as sm2 where "handle_all pkts i sm1 = Some (as, sm2)"
    "map (\<lambda>a. a = ToParser) as = map (\<lambda>pkt. sbt_type pkt = CHR ''S'') pkts"
    "session_sbt i sm2 = Some (?q\<lparr>last_seen_seqnum := last_seen_seqnum ?q
         + of_nat (length (filter (\<lambda>pkt. sbt_type pkt = CHR ''S'') pkts))\<rparr>)"
    "\<forall>j. j \<noteq> i \<longrightarrow> getSessionState j sm2 = getSessionState j sm1"
    "isSessionLoggedIn i sm2 = isSessionLoggedIn i sm1" "isSessionLoggedInBefore i sm2 = isSessionLoggedInBefore i sm1"
    using Cons.IH [OF s(3)] Cons.prems(2) by auto
  then show ?case using s by (simp add: add.assoc)
qed simp

lemma login_accepted:
  assumes "session_sbt i sm = Some q" "length h = 2" "length sid = 10" "length num = 20"
  shows "\<exists>sm'. pkt_handler (h @ ''A'' @ sid @ num @ r) i sm = Some (NotToParser, sm')
    \<and> session_sbt i sm' = Some (q\<lparr>sbt_session := sid, last_seen_seqnum := strnum_loop num 0\<rparr>)
    \<and> isSessionLoggedIn i sm' = Some True \<and> isSessionLoggedInBefore i sm' = Some True
    \<and> (\<forall>j. j \<noteq> i \<longrightarrow> getSessionState j sm' = getSessionState j sm)"
proof -
  let ?pkt = "h @ ''A'' @ sid @ num @ r" and ?f = "\<lambda>st. st\<lparr>is_logged_in := True, logged_before := True\<rparr>"
  let ?q = "q\<lparr>sbt_session := sid, last_seen_seqnum := strnum_loop num 0\<rparr>"
  have d: "read_char (drop 2 ?pkt) = Some (CHR ''A'')" "drop 3 ?pkt = sid @ num @ r" "drop 13 ?pkt = num @ r"
    using assms(2,3) by (simp_all add: read_char_def nth_opt_def)
  obtain st where st: "getSessionState i sm = Some st" "as_sbt (sess_sequence st) = Some q"
    using assms(1) by (auto simp: session_sbt_def split: bind_splits)
  then obtain sm1 where 1: "upd_session i ?f sm = Some sm1" using upd_session_defined [of i ?f sm] by (cases "upd_session i ?f sm") auto
  note g1 = upd_session_get(1) [OF 1]
  have q1: "session_sbt i sm1 = Some q" using g1 st by (simp add: session_sbt_def)
  then obtain sm2 where 2: "set_sbt i ?q sm1 = Some sm2" using set_sbt_defined by blast
  note g2 = upd_session_get(1) [OF 2 [unfolded set_sbt_def]]
  have "pkt_handler ?pkt i sm = Some (NotToParser, sm2)"
    using 1 2 q1 assms(3,4) unfolding pkt_handler_def handleLoginAccepted_def d
    by (simp add: set_sess_id_def set_seq_def strnum_to_int_def read_bytes_def)
  then show ?thesis using g1 g2 st by (simp add: session_sbt_def isSessionLoggedIn_def isSessionLoggedInBefore_def)
qed

subsection \<open>Properties\<close>

text \<open>C39. The sequence number of a SoupBinTCP session: after an accepted login that announces the number \<open>n\<close>
  (right-justified in twenty characters) and any packets that are not another accepted login, the
  session's number is \<open>n\<close> plus the number of sequenced data packets, modulo \<open>2\<^sup>6\<^sup>4\<close>; exactly the
  sequenced data packets are passed to the parser; the session is logged in and noted as having been, keeps the announced
  session id, and no other session changes.\<close>

theorem sbt_session_sequence:
  assumes "session_sbt i sm = Some q" "length h = 2" "length sid = 10"
    and "length (decimal n) \<le> 20" "\<forall>pkt \<in> set pkts. 4 \<le> length pkt \<and> sbt_type pkt \<noteq> CHR ''A''"
  shows "\<exists>as sm' q'. handle_all ((h @ ''A'' @ sid @ replicate (20 - length (decimal n)) (CHR '' '') @ decimal n) # pkts) i sm
      = Some (NotToParser # as, sm')
    \<and> session_sbt i sm' = Some q' \<and> sbt_session q' = sid
    \<and> last_seen_seqnum q' = of_nat (n + length (filter (\<lambda>pkt. sbt_type pkt = CHR ''S'') pkts))
    \<and> map (\<lambda>a. a = ToParser) as = map (\<lambda>pkt. sbt_type pkt = CHR ''S'') pkts
    \<and> isSessionLoggedIn i sm' = Some True \<and> isSessionLoggedInBefore i sm' = Some True
    \<and> (\<forall>j. j \<noteq> i \<longrightarrow> getSessionState j sm' = getSessionState j sm)"
proof -
  let ?num = "replicate (20 - length (decimal n)) (CHR '' '') @ decimal n"
  have num: "length ?num = 20" "strnum_loop ?num 0 = of_nat n"
    using assms(4) by (simp_all add: strnum_loop_append strnum_loop_skip is_digit_def)
  obtain sm1 where 1: "pkt_handler (h @ ''A'' @ sid @ ?num) i sm = Some (NotToParser, sm1)"
    "session_sbt i sm1 = Some (q\<lparr>sbt_session := sid, last_seen_seqnum := of_nat n\<rparr>)"
    "\<forall>j. j \<noteq> i \<longrightarrow> getSessionState j sm1 = getSessionState j sm"
    "isSessionLoggedIn i sm1 = Some True" "isSessionLoggedInBefore i sm1 = Some True"
    using login_accepted [OF assms(1-3) num(1), of "[]"] unfolding num(2) by auto
  obtain as sm2 where "handle_all pkts i sm1 = Some (as, sm2)"
    "map (\<lambda>a. a = ToParser) as = map (\<lambda>pkt. sbt_type pkt = CHR ''S'') pkts"
    "session_sbt i sm2 = Some (q\<lparr>sbt_session := sid, last_seen_seqnum :=
         of_nat n + of_nat (length (filter (\<lambda>pkt. sbt_type pkt = CHR ''S'') pkts))\<rparr>)"
    "\<forall>j. j \<noteq> i \<longrightarrow> getSessionState j sm2 = getSessionState j sm1"
    "isSessionLoggedIn i sm2 = isSessionLoggedIn i sm1" "isSessionLoggedInBefore i sm2 = isSessionLoggedInBefore i sm1"
    using handle_all_counts [OF 1(2) assms(5)] by auto
  then show ?thesis using 1 by simp
qed

definition sample_sbt :: SessionManager where
  "sample_sbt = the sample_sessions"

lemma sample_sbt_seq: "session_sbt 1 sample_sbt = Some new_Sequence_SBT"
  by (simp add: sample_sbt_def sample_sessions_def new_SessionManager_def make_context_def sample_config_def MAX_SESSIONS_def
      MAX_TCP_SESSIONS_def store_lookup_def convertToVenue_def convertToProtocol_def nth_opt_def session_sbt_def
      getSessionState_def init_state_def)

theorem sbt_session_sequence_witness:
  "\<exists>as sm' q'. handle_all [''..ASESSION001'' @ replicate 18 (CHR '' '') @ ''41'', ''..S.'', ''..H.'', ''..S.''] 1 sample_sbt
      = Some (NotToParser # as, sm')
    \<and> session_sbt 1 sm' = Some q' \<and> sbt_session q' = ''SESSION001'' \<and> last_seen_seqnum q' = 43
    \<and> map (\<lambda>a. a = ToParser) as = [True, False, True] \<and> isSessionLoggedIn 1 sm' = Some True"
proof -
  have d: "decimal 41 = ''41''" by code_simp
  let ?pkts = "[''..S.'', ''..H.'', ''..S.'']"
  have "\<forall>pkt \<in> set ?pkts. 4 \<le> length pkt \<and> sbt_type pkt \<noteq> CHR ''A''" by (simp add: sbt_type_def)
  from sbt_session_sequence [OF sample_sbt_seq, of "''..''" "''SESSION001''" 41 ?pkts, OF _ _ _ this]
  obtain as sm' q' where a: "handle_all ((''..'' @ ''A'' @ ''SESSION001'' @ replicate (20 - length (decimal 41)) (CHR '' '') @ decimal 41) # ?pkts)
      1 sample_sbt = Some (NotToParser # as, sm')" and b: "session_sbt 1 sm' = Some q'" "sbt_session q' = ''SESSION001''"
    and c: "last_seen_seqnum q' = of_nat (41 + length (filter (\<lambda>pkt. sbt_type pkt = CHR ''S'') ?pkts))"
      "map (\<lambda>a. a = ToParser) as = map (\<lambda>pkt. sbt_type pkt = CHR ''S'') ?pkts" "isSessionLoggedIn 1 sm' = Some True"
    by (auto simp: d)
  have "''..'' @ ''A'' @ ''SESSION001'' @ replicate (20 - length (decimal 41)) (CHR '' '') @ decimal 41
      = ''..ASESSION001'' @ replicate 18 (CHR '' '') @ ''41''" by (simp add: d)
  with a b c show ?thesis by (intro exI [of _ as] exI [of _ sm'] exI [of _ q']) (simp add: sbt_type_def)
qed

text \<open>The login decision: a session that is not connected is given up, one that is logged in is left
  alone, and after three attempts it is given up; otherwise a new attempt is made, and never
  earlier than 5, 10 and 20 seconds after the previous one.\<close>

theorem login_backoff:
  "LoginDecider now st = (dec, sleep_ns) \<Longrightarrow>
    (dec = AlreadyLoggedIn \<longleftrightarrow> is_connected st \<and> is_logged_in st)
    \<and> (dec = TryAgain \<longleftrightarrow> is_connected st \<and> \<not> is_logged_in st \<and> login_retry_count st < 3)
    \<and> (dec = LD_Disconnect \<longleftrightarrow> \<not> is_connected st \<or> (\<not> is_logged_in st \<and> 3 \<le> login_retry_count st))
    \<and> (dec = TryAgain \<longrightarrow> (let elapsed = unat (now - last_login_attempt_ns st)
         in elapsed + unat sleep_ns = max elapsed (5000000000 * 2 ^ unat (login_retry_count st))))"
proof -
  let ?n = "login_retry_count st" and ?e = "now - last_login_attempt_ns st"
  have backoff: "unat (compute_backoff_ns ?n) = 5000000000 * 2 ^ unat ?n" if "?n < 3"
  proof -
    have "unat ?n < 3" using that by (simp add: word_less_nat_alt)
    then consider "unat ?n = 0" | "unat ?n = 1" | "unat ?n = 2" by linarith
    then show ?thesis
      by cases (simp_all add: compute_backoff_ns_def MIN_LOGIN_INTERVAL_NS_def MAX_LOGIN_INTERVAL_NS_def push_bit_eq_mult
          min_def)
  qed
  assume "LoginDecider now st = (dec, sleep_ns)"
  moreover have "unat ?e + unat (if ?e < b then b - ?e else 0) = max (unat ?e) (unat b)" for b
    by (simp add: word_less_nat_alt unat_sub word_le_nat_alt)
  note this [of "compute_backoff_ns ?n"]
  ultimately show ?thesis
    using backoff by (auto simp: LoginDecider_def ALLOWED_LOGIN_ATTEMPT_def Let_def not_le not_less split: if_splits)
qed

theorem login_backoff_witness:
  "fst (LoginDecider 7000000000 (new_SessionState\<lparr>is_connected := True, login_retry_count := 1,
      last_login_attempt_ns := 1000000000\<rparr>)) = TryAgain
    \<and> snd (LoginDecider 7000000000 (new_SessionState\<lparr>is_connected := True, login_retry_count := 1,
      last_login_attempt_ns := 1000000000\<rparr>)) = 4000000000"
proof -
  let ?st = "new_SessionState\<lparr>is_connected := True, login_retry_count := 1, last_login_attempt_ns := 1000000000\<rparr>"
  obtain d s where ds: "LoginDecider 7000000000 ?st = (d, s)" by fastforce
  from login_backoff [OF ds] have "d = TryAgain" "6000000000 + unat s = 10000000000" by (simp_all add: new_SessionState_def)
  then have "d = TryAgain" "unat s = unat (4000000000 :: u64)" by simp_all
  then show ?thesis using ds by (simp only: word_unat_eq_iff [symmetric] fst_conv snd_conv simp_thms)
qed

subsection \<open>Login requests\<close>

lemma first_login_request:
  assumes "getSessionAuth i sm = Some (Auth_SBT u)" "length (sbt_username u) = 6" "length (sbt_password u) = 10"
    and "47 \<le> length buf"
  shows "buildFirstLoginRequest i sm buf = Some (bytes_u16_be 47 @ ''L'' @ sbt_username u @ sbt_password u
    @ replicate 28 (CHR '' '') @ drop 47 buf)"
proof -
  have 1: "write_bytes 0 (replicate 47 (CHR '' '')) buf = Some (replicate 47 (CHR '' '') @ drop 47 buf)"
    using assms(4) by (simp add: write_bytes_def)
  have 2: "write_u16_be 0 47 (replicate 47 (CHR '' '') @ r) = Some (bytes_u16_be 47 @ replicate 45 (CHR '' '') @ r)" for r
    by (simp add: write_u16_be_def write_bytes_def)
  have 3: "write_bytes 2 ''L'' (bytes_u16_be 47 @ replicate 45 (CHR '' '') @ r)
      = Some (bytes_u16_be 47 @ ''L'' @ replicate 44 (CHR '' '') @ r)" for r
    by (simp add: write_bytes_def)
  have 4: "write_bytes 3 (sbt_username u) (bytes_u16_be 47 @ ''L'' @ replicate 44 (CHR '' '') @ r)
      = Some (bytes_u16_be 47 @ ''L'' @ sbt_username u @ replicate 38 (CHR '' '') @ r)" for r
    using assms(2) by (simp add: write_bytes_def)
  have 5: "write_bytes 9 (sbt_password u) (bytes_u16_be 47 @ ''L'' @ sbt_username u @ replicate 38 (CHR '' '') @ r)
      = Some (bytes_u16_be 47 @ ''L'' @ sbt_username u @ sbt_password u @ replicate 28 (CHR '' '') @ r)" for r
    using assms(2,3) by (simp add: write_bytes_def)
  show ?thesis unfolding buildFirstLoginRequest_def using assms(1) 1 2 3 4 5 by simp
qed

text \<open>A request of 47 bytes announces 47 bytes behind its two length bytes: two bytes of it are missing.\<close>

lemma login_request_announces_49_bytes:
  assumes "getSessionAuth i sm = Some (Auth_SBT u)" "length (sbt_username u) = 6" "length (sbt_password u) = 10"
    and "47 \<le> length buf" "buildFirstLoginRequest i sm buf = Some b"
  shows "map_option (\<lambda>n. unat n + 2) (read_u16_be b) = Some 49"
  using assms(5) unfolding first_login_request [OF assms(1-4)] by (auto simp: read_bytes_be)

text \<open>A session id of ten characters has no NUL, so a session that was logged in cannot build its request
  to log in again within defined behaviour.\<close>

lemma relogin_after_login_undefined:
  assumes "session_sbt i sm = Some q" "CHR 0x00 \<notin> set (sbt_session q)"
  shows "buildReLoginRequest i sm buf = None"
  using assms by (auto simp: buildReLoginRequest_def strlen_none split: bind_splits)

text \<open>The pointer that is returned for the number points behind it: in a buffer that was zeroed, the
  copied number is empty.\<close>

lemma get_seq_points_behind:
  assumes "strnum_buffer sm = replicate 21 (CHR 0x00)"
  shows "\<exists>s b. get_seq q (strnum_buffer sm) = Some (s, b) \<and> strlen s = Some 0"
proof -
  let ?d = "decimal (unat (last_seen_seqnum q))"
  have "length ?d \<le> 20" by (rule length_decimal_u64)
  then obtain k where k: "21 - length ?d = Suc k" by (cases "21 - length ?d") auto
  have "get_seq q (strnum_buffer sm) = Some (replicate (21 - length ?d) (CHR 0x00), ?d @ replicate (21 - length ?d) (CHR 0x00))"
    unfolding get_seq_def assms by (simp add: int_to_strnum_spec)
  then show ?thesis unfolding k by (simp add: strlen_def)
qed

end
