(* ===== verification/Fix_Parser.thy ===== *)
theory Fix_Parser
  imports Message_Pools Spsc_Queue Sessions
begin

text \<open>
  The FIX parser (src/src/protocol/parsers/FIX/Parser_FIX.h, Parser_FIX.cpp): cutting messages out of
  the received packets, finding the type of a message, decoding its tags, session messages, and
  what is sent when messages are missing.  A message object is an index into its pool.  The free lists
  are queues of the boost library: first in, first out, with room for the 1024 objects.  The map of
  pending messages is a finite map, as the tree map of the abseil library documents.  The clock is an
  argument.
\<close>

abbreviation SOH :: char where "SOH \<equiv> CHR 0x01"

subsection \<open>Values\<close>

text \<open>\<^verbatim>\<open>c - '0'\<close> for a signed character, added to a 64-bit number.\<close>

definition digit_val :: "char \<Rightarrow> u64" where
  "digit_val c = scast (u8_of_char c) - 48"

definition parseNum :: "string \<Rightarrow> u64" where
  "parseNum strnum = strnum_loop strnum 0"

definition parseChar :: "string \<Rightarrow> u8 option" where
  "parseChar str = read_u8 str"

primrec digits_loop :: "string \<Rightarrow> u64 \<Rightarrow> u64" where
  "digits_loop [] result = result"
| "digits_loop (c # cs) result = digits_loop cs (result * 10 + digit_val c)"

definition parsePrice :: "nat \<Rightarrow> string \<Rightarrow> u64" where
  "parsePrice scale price_str =
     (let result = digits_loop (takeWhile (\<lambda>c. c \<noteq> CHR ''.'') price_str) 0;
          rest = dropWhile (\<lambda>c. c \<noteq> CHR ''.'') price_str
      in if rest = [] then result * 10 ^ scale
         else let frac = take scale (tl rest)
              in digits_loop frac result * 10 ^ (scale - length frac))"

text \<open>A value copied into an array of \<open>n\<close> characters with its terminator; what is behind it stays.\<close>

definition copy_id :: "nat \<Rightarrow> string \<Rightarrow> string \<Rightarrow> string" where
  "copy_id n val old = take (n - 1) val @ CHR 0x00 # drop (Suc (min (length val) (n - 1))) old"

subsection \<open>Tags\<close>

definition MAX_TAG :: nat where "MAX_TAG = 512"

definition MAX_SESTAG :: nat where "MAX_SESTAG = 2048"

definition FIX_ID :: nat where "FIX_ID = 32"

definition tagHandlers :: "nat \<Rightarrow> string \<Rightarrow> FIXMessage \<Rightarrow> FIXMessage option" where
  "tagHandlers tag val msg =
     (if tag = 35 then map_option (\<lambda>c. msg\<lparr>fx_msg_type := c\<rparr>) (parseChar val)
      else if tag = 34 then Some (msg\<lparr>fx_seqnum := ucast (parseNum val)\<rparr>)
      else if tag = 37 then Some (msg\<lparr>fx_order_id := copy_id FIX_ID val (fx_order_id msg)\<rparr>)
      else if tag = 11 then Some (msg\<lparr>fx_cl_ord_id := copy_id FIX_ID val (fx_cl_ord_id msg)\<rparr>)
      else if tag = 41 then Some (msg\<lparr>fx_orig_cl_ord_id := copy_id FIX_ID val (fx_orig_cl_ord_id msg)\<rparr>)
      else if tag = 17 then Some (msg\<lparr>fx_exec_id := copy_id FIX_ID val (fx_exec_id msg)\<rparr>)
      else if tag = 150 then map_option (\<lambda>c. msg\<lparr>fx_exec_type := c\<rparr>) (parseChar val)
      else if tag = 39 then map_option (\<lambda>c. msg\<lparr>fx_ord_status := c\<rparr>) (parseChar val)
      else if tag = 55 then Some (msg\<lparr>fx_symbol := copy_id FIX_ID val (fx_symbol msg)\<rparr>)
      else if tag = 48 then Some (msg\<lparr>fx_instrument_id := ucast (parseNum val)\<rparr>)
      else if tag = 54 then Some (msg\<lparr>fx_side := ucast (parseNum val)\<rparr>)
      else if tag = 38 then Some (msg\<lparr>fx_quantity := ucast (parseNum val)\<rparr>)
      else if tag = 40 then map_option (\<lambda>c. msg\<lparr>fx_ord_type := c\<rparr>) (parseChar val)
      else if tag = 44 then Some (msg\<lparr>fx_price := parsePrice 4 val\<rparr>)
      else if tag = 32 then Some (msg\<lparr>fx_last_qty := ucast (parseNum val)\<rparr>)
      else if tag = 31 then Some (msg\<lparr>fx_last_price := parsePrice 4 val\<rparr>)
      else if tag = 59 then map_option (\<lambda>c. msg\<lparr>fx_time_in_force := c\<rparr>) (parseChar val)
      else if tag = 151 then Some (msg\<lparr>fx_leaves_qty := ucast (parseNum val)\<rparr>)
      else if tag = 14 then Some (msg\<lparr>fx_filled_qty := ucast (parseNum val)\<rparr>)
      else if tag = 60 then Some (msg\<lparr>fx_transact_time := ucast (parseNum val)\<rparr>)
      else if tag = 434 then Some (msg\<lparr>fx_cxl_rej_response_to := ucast (parseNum val)\<rparr>)
      else if tag = 102 then Some (msg\<lparr>fx_cxl_rej_reason := ucast (parseNum val)\<rparr>)
      else Some msg)"

definition SestagHandlers :: "nat \<Rightarrow> string \<Rightarrow> FIXSessionMessage \<Rightarrow> FIXSessionMessage option" where
  "SestagHandlers tag val msg =
     (if tag = 35 then map_option (\<lambda>c. msg\<lparr>fs_msg_type := c\<rparr>) (parseChar val)
      else if tag = 34 then Some (msg\<lparr>fs_seqnum := ucast (parseNum val)\<rparr>)
      else if tag = 43 then map_option (\<lambda>c. msg\<lparr>fs_possDubFlag := c\<rparr>) (parseChar val)
      else if tag = 122 then Some (msg\<lparr>fs_org_sending_time := ucast (parseNum val)\<rparr>)
      else if tag = 52 then Some (msg\<lparr>fs_sending_time := ucast (parseNum val)\<rparr>)
      else if tag = 141 then map_option (\<lambda>c. msg\<lparr>fs_reset_seqnum_flag := c\<rparr>) (parseChar val)
      else if tag = 108 then Some (msg\<lparr>fs_interval := ucast (parseNum val)\<rparr>)
      else if tag = 1409 then Some (msg\<lparr>fs_ses_status := ucast (parseNum val)\<rparr>)
      else if tag = 123 then map_option (\<lambda>c. msg\<lparr>fs_gap_fill_flag := c\<rparr>) (parseChar val)
      else if tag = 36 then Some (msg\<lparr>fs_new_seqnum := ucast (parseNum val)\<rparr>)
      else if tag = 7 then Some (msg\<lparr>fs_begin_seqnum := ucast (parseNum val)\<rparr>)
      else if tag = 16 then Some (msg\<lparr>fs_end_seqnum := ucast (parseNum val)\<rparr>)
      else if tag = 45 then Some (msg\<lparr>fs_ref_seqnum := ucast (parseNum val)\<rparr>)
      else if tag = 373 then Some (msg\<lparr>fs_reject_reason := ucast (parseNum val)\<rparr>)
      else if tag = 112 then Some (msg\<lparr>fs_test_req_id := ucast (parseNum val)\<rparr>)
      else if tag = 58 then Some (msg\<lparr>fs_text := copy_id 32 val (fs_text msg)\<rparr>)
      else Some msg)"

subsection \<open>The decoding loop\<close>

text \<open>\<^verbatim>\<open>while (data[p] != c && p < len) ++p\<close>: the byte is read before the bound is tested.\<close>

partial_function (option) find_eq :: "string \<Rightarrow> nat \<Rightarrow> nat \<Rightarrow> nat option" where
  "find_eq data len p = do {
     c \<leftarrow> nth_opt data p;
     if c \<noteq> CHR ''='' \<and> p < len then find_eq data len (p + 1) else Some p }"

text \<open>\<^verbatim>\<open>while (data[p] != c) ++p\<close>.\<close>

partial_function (option) find_char :: "char \<Rightarrow> string \<Rightarrow> nat \<Rightarrow> nat option" where
  "find_char ch data p = do {
     c \<leftarrow> nth_opt data p;
     if c \<noteq> ch then find_char ch data (p + 1) else Some p }"

definition substring :: "string \<Rightarrow> nat \<Rightarrow> nat \<Rightarrow> string" where
  "substring data start stop = take (stop - start) (drop start data)"

text \<open>One pass of the loop: the tag, the value and the position behind it.\<close>

definition next_tag :: "string \<Rightarrow> nat \<Rightarrow> nat \<Rightarrow> (nat \<times> string \<times> nat) option" where
  "next_tag data len pos = do {
     eq_pos \<leftarrow> find_eq data len pos;
     if eq_pos = len then do {
       _ \<leftarrow> guard (7 \<le> len);
       soh_pos \<leftarrow> find_char SOH data (len - 1);
       Some (unat (parseNum (substring data (len - 7) (len - 5))), substring data (len - 4) soh_pos, soh_pos + 1) }
     else do {
       soh_pos \<leftarrow> find_char SOH data (eq_pos + 1);
       Some (unat (parseNum (substring data pos eq_pos)), substring data (eq_pos + 1) soh_pos, soh_pos + 1) } }"

partial_function (option) parse_tags ::
  "nat \<Rightarrow> (nat \<Rightarrow> string \<Rightarrow> 'm \<Rightarrow> 'm option) \<Rightarrow> string \<Rightarrow> nat \<Rightarrow> nat \<Rightarrow> 'm \<Rightarrow> 'm option" where
  "parse_tags max_tag handlers data len pos msg =
     (if pos < len then do {
        (tag, val, pos1) \<leftarrow> next_tag data len pos;
        _ \<leftarrow> guard (tag < max_tag);
        msg1 \<leftarrow> handlers tag val msg;
        parse_tags max_tag handlers data len pos1 msg1 }
      else Some msg)"

declare find_eq.simps [code] find_char.simps [code] parse_tags.simps [code]

subsection \<open>State of the parser\<close>

datatype BodyLenState = EXPECT_SOH | EXPECT_9 | EXPECT_EQ | READ_VALUE | BL_DONE | BL_None

record PartialFIXBuffer =
  pb_data :: string
  existing_len :: u64
  remaining_len :: u64
  body_len :: u64
  pb_active :: bool
  bodylen_state :: BodyLenState

datatype PendingFIX = PF_App nat | PF_Ses nat

definition FIX_POOL_CAPACITY :: nat where "FIX_POOL_CAPACITY = 1024"

record Parser_FIX =
  pending_to_store_map :: "u32 \<rightharpoonup> PendingFIX"
  free_fixMsg_list :: "nat list"
  free_fixSesMsg_list :: "nat list"
  fixMsg_pool :: "nat \<Rightarrow> FIXMessage"
  fixSesMsg_pool :: "nat \<Rightarrow> FIXSessionMessage"
  partial_fix_msg :: PartialFIXBuffer
  parser_to_fixbuilder_tx :: "nat spsc"

text \<open>The queues between parser and builder have 1024 places.\<close>

definition FQ :: nat where "FQ = 7"

definition default_FIXMessage :: FIXMessage where
  "default_FIXMessage = \<lparr>fx_price = 0, fx_last_price = 0, fx_quantity = 0, fx_leaves_qty = 0, fx_last_qty = 0,
     fx_filled_qty = 0, fx_transact_time = 0, fx_instrument_id = 0, fx_seqnum = 0, fx_msg_type = 0, fx_side = 0,
     fx_ord_status = 0, fx_exec_type = 0, fx_ord_type = 0, fx_time_in_force = 0, fx_cxl_rej_response_to = 0,
     fx_cxl_rej_reason = 255, fx_symbol = replicate 32 (CHR 0x00), fx_order_id = replicate 32 (CHR 0x00),
     fx_cl_ord_id = replicate 32 (CHR 0x00), fx_exec_id = replicate 32 (CHR 0x00),
     fx_orig_cl_ord_id = replicate 32 (CHR 0x00)\<rparr>"

definition default_FIXSessionMessage :: FIXSessionMessage where
  "default_FIXSessionMessage = \<lparr>fs_seqnum = 0, fs_interval = 0, fs_ses_status = 255, fs_new_seqnum = 0,
     fs_begin_seqnum = 0, fs_end_seqnum = 0, fs_ref_seqnum = 0, fs_test_req_id = 0, fs_sending_time = 0,
     fs_org_sending_time = 0, fs_gap_fill_flag = 0, fs_reject_reason = 255, fs_msg_type = 0, fs_possDubFlag = 0,
     fs_reset_seqnum_flag = 78, fs_text = replicate 32 (CHR 0x00)\<rparr>"

text \<open>\<open>pb\<close> is what the partial buffer holds before the constructor runs.\<close>

definition new_Parser_FIX :: "string \<Rightarrow> Parser_FIX" where
  "new_Parser_FIX pb = \<lparr>pending_to_store_map = Map.empty, free_fixMsg_list = [0..<FIX_POOL_CAPACITY],
     free_fixSesMsg_list = [0..<FIX_POOL_CAPACITY], fixMsg_pool = (\<lambda>_. default_FIXMessage),
     fixSesMsg_pool = (\<lambda>_. default_FIXSessionMessage),
     partial_fix_msg = \<lparr>pb_data = pb, existing_len = 0, remaining_len = 0, body_len = 0, pb_active = False,
       bodylen_state = BL_None\<rparr>, parser_to_fixbuilder_tx = spsc_init FQ\<rparr>"

text \<open>Taking an object from a free list; the pointer stays null when the list is empty, and every use of it
  dereferences it.\<close>

definition acquire_fix :: "Parser_FIX \<Rightarrow> (nat \<times> Parser_FIX) option" where
  "acquire_fix p =
     (case free_fixMsg_list p of [] \<Rightarrow> None | i # is \<Rightarrow> Some (i, p\<lparr>free_fixMsg_list := is\<rparr>))"

definition acquire_ses :: "Parser_FIX \<Rightarrow> (nat \<times> Parser_FIX) option" where
  "acquire_ses p =
     (case free_fixSesMsg_list p of [] \<Rightarrow> None | i # is \<Rightarrow> Some (i, p\<lparr>free_fixSesMsg_list := is\<rparr>))"

definition parse_fix :: "string \<Rightarrow> nat \<Rightarrow> Parser_FIX \<Rightarrow> (nat \<times> Parser_FIX) option" where
  "parse_fix data len p = do {
     (i, p1) \<leftarrow> acquire_fix p;
     m \<leftarrow> parse_tags MAX_TAG tagHandlers data len 0 (fixMsg_pool p1 i);
     Some (i, p1\<lparr>fixMsg_pool := (fixMsg_pool p1)(i := m)\<rparr>) }"

definition parse_ses :: "string \<Rightarrow> nat \<Rightarrow> Parser_FIX \<Rightarrow> (nat \<times> Parser_FIX) option" where
  "parse_ses data len p = do {
     (i, p1) \<leftarrow> acquire_ses p;
     m \<leftarrow> parse_tags MAX_SESTAG SestagHandlers data len 0 (fixSesMsg_pool p1 i);
     Some (i, p1\<lparr>fixSesMsg_pool := (fixSesMsg_pool p1)(i := m)\<rparr>) }"

text \<open>A push onto a full free list fails, and the result is ignored.\<close>

definition releaseFIX_app :: "nat \<Rightarrow> Parser_FIX \<Rightarrow> Parser_FIX" where
  "releaseFIX_app i p =
     p\<lparr>free_fixMsg_list := (if length (free_fixMsg_list p) < FIX_POOL_CAPACITY then free_fixMsg_list p @ [i]
                            else free_fixMsg_list p)\<rparr>"

definition releaseFIX_ses :: "nat \<Rightarrow> Parser_FIX \<Rightarrow> Parser_FIX" where
  "releaseFIX_ses i p =
     p\<lparr>free_fixSesMsg_list := (if length (free_fixSesMsg_list p) < FIX_POOL_CAPACITY then free_fixSesMsg_list p @ [i]
                               else free_fixSesMsg_list p)\<rparr>"

text \<open>\<open>emplace\<close> keeps an entry that is already there.\<close>

definition push_pending :: "u32 \<Rightarrow> PendingFIX \<Rightarrow> Parser_FIX \<Rightarrow> Parser_FIX" where
  "push_pending seqnum m p =
     (if pending_to_store_map p seqnum = None
      then p\<lparr>pending_to_store_map := (pending_to_store_map p)(seqnum \<mapsto> m)\<rparr> else p)"

definition find_in_pending :: "u32 \<Rightarrow> Parser_FIX \<Rightarrow> PendingFIX option" where
  "find_in_pending expected p = pending_to_store_map p expected"

definition pop_pending :: "u32 \<Rightarrow> Parser_FIX \<Rightarrow> Parser_FIX" where
  "pop_pending seqnum p = p\<lparr>pending_to_store_map := (pending_to_store_map p)(seqnum := None)\<rparr>"

subsection \<open>Session messages\<close>

definition T_Logon :: u8 where "T_Logon = 65"
definition T_Logout :: u8 where "T_Logout = 53"
definition T_Heartbeat :: u8 where "T_Heartbeat = 48"
definition T_TestRequest :: u8 where "T_TestRequest = 49"
definition T_ResendRequest :: u8 where "T_ResendRequest = 50"
definition T_Reject :: u8 where "T_Reject = 51"
definition T_SequenceReset :: u8 where "T_SequenceReset = 52"

text \<open>The sequence of the session is the first component of the pair, its state the second.\<close>

definition handle_sesMsg ::
  "FIXSessionMessage \<Rightarrow> Sequence_FIX \<times> SessionState \<Rightarrow> bool \<times> Sequence_FIX \<times> SessionState" where
  "handle_sesMsg m qs = (case qs of (q, st) \<Rightarrow>
     if fs_msg_type m = T_ResendRequest \<or> fs_msg_type m = T_Reject then (False, q, st)
     else if fs_msg_type m = T_SequenceReset then (True, set_expected_seq (fs_new_seqnum m) q, st)
     else if fs_msg_type m = T_TestRequest then (False, q, st)
     else if fs_msg_type m = T_Logout then
       if fs_ses_status m = 255 then (False, q, st)
       else (True, q, if fs_ses_status m = 4 then st\<lparr>is_logged_in := False\<rparr> else st)
     else if fs_msg_type m = T_Logon then
       (True, if fs_reset_seqnum_flag m = 89 then set_next_seq 1 (set_expected_seq 2 q) else q,
        st\<lparr>is_logged_in := True, logged_before := True, login_retry_count := 0\<rparr>)
     else (True, q, st))"

definition find_type :: "string \<Rightarrow> char option" where
  "find_type data = do {
     p1 \<leftarrow> find_char (CHR ''='') data 0;
     p2 \<leftarrow> find_char (CHR ''='') data (p1 + 1);
     p3 \<leftarrow> find_char (CHR ''='') data (p2 + 1);
     nth_opt data (p3 + 1) }"

text \<open>Taking a session message object, filling it in and queueing it for the builder.\<close>

definition send_ses :: "(FIXSessionMessage \<Rightarrow> FIXSessionMessage) \<Rightarrow> Parser_FIX \<Rightarrow> Parser_FIX option" where
  "send_ses f p = do {
     (i, p1) \<leftarrow> acquire_ses p;
     Some (p1\<lparr>fixSesMsg_pool := (fixSesMsg_pool p1)(i := f (fixSesMsg_pool p1 i)),
              parser_to_fixbuilder_tx := snd (spsc_push FQ i (parser_to_fixbuilder_tx p1))\<rparr>) }"

definition resend_logic :: "i64 \<Rightarrow> u32 \<Rightarrow> Sequence_FIX \<Rightarrow> Parser_FIX \<Rightarrow> (Sequence_FIX \<times> Parser_FIX) option" where
  "resend_logic now msg_seqnum q p =
     (if resend_counter q < MAX_RESEND_ATTEMPT \<and> RESEND_INTERVAL <s now - last_resend_ts q then do {
        p1 \<leftarrow> send_ses (\<lambda>m. m\<lparr>fs_begin_seqnum := expected_seqnum q, fs_end_seqnum := msg_seqnum,
                               fs_msg_type := T_ResendRequest\<rparr>) p;
        Some (increase_resend_counter q, p1) }
      else do {
        p1 \<leftarrow> send_ses (\<lambda>m. m\<lparr>fs_msg_type := T_Logout\<rparr>) p;
        p2 \<leftarrow> send_ses (\<lambda>m. m\<lparr>fs_msg_type := T_Logon\<rparr>) p1;
        Some (reset_resend_counter q, p2) })"

definition resend_logic_logon :: "nat \<Rightarrow> Sequence_FIX \<Rightarrow> Parser_FIX \<Rightarrow> (Sequence_FIX \<times> Parser_FIX) option" where
  "resend_logic_logon i q p =
     (let m = fixSesMsg_pool p i
      in if fs_reset_seqnum_flag m = 89 then
           Some (set_next_seq 1 (set_expected_seq 2 q), releaseFIX_ses i (p\<lparr>pending_to_store_map := Map.empty\<rparr>))
         else do {
           p1 \<leftarrow> send_ses (\<lambda>r. r\<lparr>fs_begin_seqnum := expected_seqnum q, fs_end_seqnum := fs_seqnum m - 1,
                                  fs_msg_type := T_ResendRequest\<rparr>) p;
           Some (q, push_pending (fs_seqnum m) (PF_Ses i) p1) })"

subsection \<open>Fields\<close>

text \<open>A field is a tag with its value; what a list of fields means for a message.\<close>

type_synonym fix_field = "nat \<times> string"

definition field_bytes :: "fix_field \<Rightarrow> string" where
  "field_bytes f = decimal (fst f) @ ''='' @ snd f @ [SOH]"

definition field_ok :: "nat \<Rightarrow> fix_field \<Rightarrow> bool" where
  "field_ok max_tag f \<longleftrightarrow> fst f < max_tag \<and> SOH \<notin> set (snd f)"

primrec apply_fields :: "(nat \<Rightarrow> string \<Rightarrow> 'm \<Rightarrow> 'm option) \<Rightarrow> fix_field list \<Rightarrow> 'm \<Rightarrow> 'm option" where
  "apply_fields h [] m = Some m"
| "apply_fields h (f # fs) m = do { m1 \<leftarrow> h (fst f) (snd f) m; apply_fields h fs m1 }"

abbreviation fields_bytes :: "fix_field list \<Rightarrow> string" where
  "fields_bytes fs \<equiv> concat (map field_bytes fs)"

lemma nth_opt_drop: "drop pos data = c # r \<Longrightarrow> nth_opt data pos = Some c"
  by (auto simp: nth_opt_def nth_via_drop dest: arg_cong [of _ _ length])

lemma drop_Suc_eq: "drop pos data = c # r \<Longrightarrow> drop (Suc pos) data = r"
  by (metis drop_Suc list.sel(3) tl_drop)

lemma drop_prefix: "drop pos data = xs @ r \<Longrightarrow> drop (pos + length xs) data = r"
  by (metis add.commute append_eq_conv_conj drop_drop)

lemma substring_prefix: "drop pos data = xs @ r \<Longrightarrow> substring data pos (pos + length xs) = xs"
  by (simp add: substring_def)

lemma find_char_skip:
  assumes "drop pos data = xs @ ch # r" "ch \<notin> set xs"
  shows "find_char ch data pos = Some (pos + length xs)"
  using assms
proof (induction xs arbitrary: pos)
  case Nil
  then show ?case using nth_opt_drop [of pos data ch r] by (subst find_char.simps) simp
next
  case (Cons x xs)
  have x: "drop pos data = x # (xs @ ch # r)" using Cons.prems(1) by simp
  show ?case
    using Cons.IH [of "Suc pos"] nth_opt_drop [OF x] drop_Suc_eq [OF x] Cons.prems(2)
    by (subst find_char.simps) auto
qed

lemma find_eq_skip:
  assumes "drop pos data = xs @ CHR ''='' # r" "CHR ''='' \<notin> set xs" "pos + length xs < len"
  shows "find_eq data len pos = Some (pos + length xs)"
  using assms
proof (induction xs arbitrary: pos)
  case Nil
  then show ?case using nth_opt_drop [of pos data "CHR ''=''" r] by (subst find_eq.simps) simp
next
  case (Cons x xs)
  have x: "drop pos data = x # (xs @ CHR ''='' # r)" using Cons.prems(1) by simp
  show ?case
    using Cons.IH [of "Suc pos"] nth_opt_drop [OF x] drop_Suc_eq [OF x] Cons.prems(2,3)
    by (subst find_eq.simps) auto
qed

lemma decimal_no_sep: "CHR ''='' \<notin> set (decimal n)" "SOH \<notin> set (decimal n)"
  using decimal_digits [of "CHR ''=''" n] decimal_digits [of SOH n] by (auto simp: is_digit_def)

lemma parseNum_decimal: "n < 2 ^ 64 \<Longrightarrow> unat (parseNum (decimal n)) = n"
  by (simp add: parseNum_def unat_of_nat take_bit_nat_eq_self)

lemma next_tag_field:
  assumes "drop pos data = field_bytes (t, v) @ r" "SOH \<notin> set v" "t < 2 ^ 64" "pos + length (field_bytes (t, v)) \<le> len"
  shows "next_tag data len pos = Some (t, v, pos + length (field_bytes (t, v)))"
proof -
  let ?e = "pos + length (decimal t)"
  have d: "drop pos data = decimal t @ CHR ''='' # (v @ SOH # r)" using assms(1) by (simp add: field_bytes_def)
  have e: "find_eq data len pos = Some ?e" "?e \<noteq> len"
    using find_eq_skip [OF d decimal_no_sep(1)] assms(4) by (simp_all add: field_bytes_def)
  have d2: "drop (Suc ?e) data = v @ SOH # r" using drop_Suc_eq [OF drop_prefix [OF d]] by simp
  have "substring data (Suc ?e) (Suc ?e + length v) = v" using substring_prefix [OF d2] by simp
  then show ?thesis
    using e find_char_skip [OF d2 assms(2)] substring_prefix [OF d] parseNum_decimal [OF assms(3)]
    by (simp add: next_tag_def field_bytes_def)
qed

lemma parse_tags_fields:
  assumes "\<forall>f \<in> set fs. field_ok max_tag f" "max_tag \<le> 2 ^ 64"
    and "drop pos data = fields_bytes fs @ r" "len = pos + length (fields_bytes fs)"
  shows "parse_tags max_tag h data len pos msg = apply_fields h fs msg"
  using assms
proof (induction fs arbitrary: pos msg)
  case Nil
  then show ?case by (subst parse_tags.simps) simp
next
  case (Cons f fs)
  obtain t v where f: "f = (t, v)" by (cases f)
  have ok: "t < max_tag" "SOH \<notin> set v" using Cons.prems(1) by (simp_all add: field_ok_def f)
  let ?p = "pos + length (field_bytes f)"
  have d: "drop pos data = field_bytes f @ (fields_bytes fs @ r)" using Cons.prems(3) by simp
  have n: "next_tag data len pos = Some (t, v, ?p)"
    using next_tag_field [of pos data t v "fields_bytes fs @ r" len] d ok Cons.prems(2,4) by (simp add: f)
  have pos: "pos < len" using Cons.prems(4) by (simp add: f field_bytes_def)
  have "parse_tags max_tag h data len ?p m = apply_fields h fs m" for m
    using Cons.IH [of ?p m] Cons.prems drop_prefix [OF d] by simp
  then show ?case by (subst parse_tags.simps) (cases "h t v msg"; simp add: pos n ok f)
qed

lemma find_type_field:
  assumes "data = field_bytes (t1, v1) @ field_bytes (t2, v2) @ field_bytes (t3, c # v3) @ r"
    and "CHR ''='' \<notin> set v1" "CHR ''='' \<notin> set v2"
  shows "find_type data = Some c"
proof -
  let ?a = "decimal t1" and ?b = "v1 @ SOH # decimal t2" and ?c = "v2 @ SOH # decimal t3"
  have d1: "drop 0 data = ?a @ CHR ''='' # ?b @ CHR ''='' # ?c @ CHR ''='' # c # v3 @ SOH # r"
    using assms(1) by (simp add: field_bytes_def)
  have d2: "drop (Suc (length ?a)) data = ?b @ CHR ''='' # ?c @ CHR ''='' # c # v3 @ SOH # r"
    using drop_Suc_eq [OF drop_prefix [OF d1]] by simp
  have d3: "drop (Suc (Suc (length ?a) + length ?b)) data = ?c @ CHR ''='' # c # v3 @ SOH # r"
    using drop_Suc_eq [OF drop_prefix [OF d2]] by simp
  have d4: "drop (Suc (Suc (Suc (length ?a) + length ?b) + length ?c)) data = c # v3 @ SOH # r"
    using drop_Suc_eq [OF drop_prefix [OF d3]] by simp
  have "find_char (CHR ''='') data 0 = Some (length ?a)" using find_char_skip [OF d1] decimal_no_sep by simp
  moreover have "find_char (CHR ''='') data (Suc (length ?a)) = Some (Suc (length ?a) + length ?b)"
    using find_char_skip [OF d2] decimal_no_sep assms(2) by simp
  moreover have "find_char (CHR ''='') data (Suc (Suc (length ?a) + length ?b))
      = Some (Suc (Suc (length ?a) + length ?b) + length ?c)"
    using find_char_skip [OF d3] decimal_no_sep assms(3) by simp
  ultimately show ?thesis using nth_opt_drop [OF d4] by (simp add: find_type_def)
qed

lemma digit_val_digit: "d < 10 \<Longrightarrow> digit_val (digit_char d) = of_nat d"
proof -
  have "\<forall>d \<in> set [0..<10]. digit_val (digit_char d) = of_nat d" by code_simp
  then show "d < 10 \<Longrightarrow> digit_val (digit_char d) = of_nat d" by simp
qed

lemma digits_loop_append: "digits_loop (xs @ ys) r = digits_loop ys (digits_loop xs r)"
  by (induction xs arbitrary: r) simp_all

lemma is_digit_char: "is_digit c \<Longrightarrow> \<exists>d < 10. c = digit_char d"
  by (rule exI [of _ "of_char c - 48"]) (auto simp: is_digit_def digit_char_def)

lemma digits_loop_strnum: "\<forall>c \<in> set s. is_digit c \<Longrightarrow> digits_loop s r = strnum_loop s r"
proof (induction s arbitrary: r)
  case (Cons c s)
  then obtain d where "d < 10" "c = digit_char d" using is_digit_char by auto
  then show ?case using Cons by (simp add: digit_val_digit digit_value)
qed simp

lemma digits_loop_decimal [simp]: "digits_loop (decimal n) 0 = of_nat n"
  using digits_loop_strnum [of "decimal n" 0] decimal_digits by simp

text \<open>A price with at most four decimal places.\<close>

lemma digits_loop_acc: "digits_loop f r = r * 10 ^ length f + digits_loop f 0"
proof (induction f arbitrary: r)
  case (Cons c f)
  show ?case unfolding digits_loop.simps
    by (subst Cons.IH, subst (2) Cons.IH) (simp add: algebra_simps)
qed simp

lemma parsePrice_decimal:
  assumes "length f \<le> 4"
  shows "parsePrice 4 (decimal a @ ''.'' @ f) = (of_nat a * 10 ^ length f + digits_loop f 0) * 10 ^ (4 - length f)"
proof -
  have "CHR ''.'' \<notin> set (decimal a)" using decimal_digits [of "CHR ''.''" a] by (auto simp: is_digit_def)
  then have "\<forall>c \<in> set (decimal a). c \<noteq> CHR ''.''" by metis
  then have "takeWhile (\<lambda>c. c \<noteq> CHR ''.'') (decimal a @ CHR ''.'' # f) = decimal a"
    "dropWhile (\<lambda>c. c \<noteq> CHR ''.'') (decimal a @ CHR ''.'' # f) = CHR ''.'' # f"
    by (simp_all add: takeWhile_append2 dropWhile_append2)
  then show ?thesis using assms digits_loop_acc [of f "of_nat a"] by (simp add: parsePrice_def Let_def)
qed

end
