(* ===== verification/Fix_Framing.thy ===== *)
theory Fix_Framing
  imports Fix_Parser
begin

text \<open>
  Cutting FIX messages out of received packets: \<^verbatim>\<open>nextFixMsg\<close> of
  src/src/protocol/parsers/FIX/Parser_FIX.cpp.  The result is the message as the bytes from the returned
  pointer on with its length (\<open>None\<close> for a null pointer), the new offset into the packet, the packet and the
  partial-message buffer.  Lengths that come from the packet are 64-bit words.
\<close>

subsection \<open>Scanning\<close>

function scan_until :: "(char \<Rightarrow> bool) \<Rightarrow> string \<Rightarrow> nat \<Rightarrow> nat \<Rightarrow> nat option" where
  "scan_until stop data len pos =
     (if pos < len then do {
        c \<leftarrow> nth_opt data pos;
        if stop c then Some pos else scan_until stop data len (pos + 1) }
      else Some pos)"
  by auto
termination by (relation "measure (\<lambda>(_, _, len, pos). len - pos)") auto

function read_num :: "(char \<Rightarrow> bool) \<Rightarrow> string \<Rightarrow> nat \<Rightarrow> nat \<Rightarrow> u64 \<Rightarrow> (nat \<times> u64) option" where
  "read_num go data len pos acc =
     (if pos < len then do {
        c \<leftarrow> nth_opt data pos;
        if go c then read_num go data len (pos + 1) (acc * 10 + digit_val c) else Some (pos, acc) }
      else Some (pos, acc))"
  by auto
termination by (relation "measure (\<lambda>(_, _, len, pos, _). len - pos)") auto

text \<open>The search for the body length: the state, the length, the position behind its field (zero when it was
  not found) and the length noted for a partial message.\<close>

function bodylen_loop ::
  "string \<Rightarrow> nat \<Rightarrow> nat \<Rightarrow> BodyLenState \<Rightarrow> u64 \<Rightarrow> u64 \<Rightarrow> (BodyLenState \<times> u64 \<times> nat \<times> u64) option" where
  "bodylen_loop data len pos st bl pbl =
     (if pos < len then do {
        c \<leftarrow> nth_opt data pos;
        if c = SOH then bodylen_loop data len (pos + 1) EXPECT_9 bl pbl
        else if c = CHR ''9'' then bodylen_loop data len (pos + 1) EXPECT_EQ bl pbl
        else if c = CHR ''='' then do {
          (p, bl1) \<leftarrow> read_num is_digit data len (pos + 1) bl;
          let pbl1 = (if p = len \<and> pos + 1 < p then bl1 else pbl);
          found \<leftarrow> (if p < len then map_option (\<lambda>d. d = SOH) (nth_opt data p) else Some False);
          if found then Some (BL_DONE, bl1, p + 1, pbl1)
          else bodylen_loop data len (pos + 1) READ_VALUE bl1 pbl1 }
        else if st = BL_DONE then Some (st, bl, 0, pbl)
        else bodylen_loop data len (pos + 1) st bl pbl }
      else Some (st, bl, 0, pbl))"
  by auto
termination by (relation "measure (\<lambda>(_, len, pos, _). len - pos)") auto

declare scan_until.simps [simp del] read_num.simps [simp del] bodylen_loop.simps [simp del]

subsection \<open>Partial messages\<close>

text \<open>\<^verbatim>\<open>memcpy\<close> of \<open>n\<close> bytes of the packet into the partial buffer.\<close>

definition copy_partial :: "u64 \<Rightarrow> nat \<Rightarrow> nat \<Rightarrow> RxPacket \<Rightarrow> PartialFIXBuffer \<Rightarrow> PartialFIXBuffer option" where
  "copy_partial off start n pkt pb = do {
     bs \<leftarrow> read_bytes n (drop start (rx_data pkt));
     d \<leftarrow> write_bytes (unat off) bs (pb_data pb);
     Some (pb\<lparr>pb_data := d\<rparr>) }"

text \<open>The rest of a body length that was cut by the end of a packet: where the scan stops, with the length and
  state noted.\<close>

definition resume_bodylen :: "RxPacket \<Rightarrow> nat \<Rightarrow> PartialFIXBuffer \<Rightarrow> (nat \<times> PartialFIXBuffer) option" where
  "resume_bodylen pkt data_offset pb =
     (let len = unat (rx_len pkt); data = rx_data pkt in do {
        pos \<leftarrow> (case bodylen_state pb of
            EXPECT_SOH \<Rightarrow> map_option (\<lambda>p. p + 3) (scan_until (\<lambda>c. c = SOH) data len data_offset)
          | EXPECT_9 \<Rightarrow> map_option (\<lambda>p. p + 2) (scan_until (\<lambda>c. c = CHR ''9'') data len data_offset)
          | EXPECT_EQ \<Rightarrow> map_option (\<lambda>p. p + 1) (scan_until (\<lambda>c. c = CHR ''='') data len data_offset)
          | _ \<Rightarrow> Some data_offset);
        (pos1, bl) \<leftarrow> (if pos < len then do {
            c \<leftarrow> nth_opt data pos;
            if is_digit c then read_num (\<lambda>c. c \<noteq> SOH) data len pos (body_len pb) else Some (pos, body_len pb) }
          else Some (pos, body_len pb));
        st \<leftarrow> (if len \<le> pos1 then map_option (\<lambda>c. if c = SOH then BL_DONE else READ_VALUE) (nth_opt data pos1)
              else Some (bodylen_state pb));
        Some (pos1, pb\<lparr>body_len := bl, bodylen_state := st\<rparr>) })"

type_synonym fix_msg = "(string \<times> nat) option"

definition continue_partial ::
  "RxPacket \<Rightarrow> nat \<Rightarrow> PartialFIXBuffer \<Rightarrow> (fix_msg \<times> nat \<times> RxPacket \<times> PartialFIXBuffer) option" where
  "continue_partial pkt data_offset pb =
     (let len = of_nat (unat (rx_len pkt)); copy_len = min (remaining_len pb) len in do {
        pb1 \<leftarrow> copy_partial (existing_len pb) data_offset (unat copy_len) pkt pb;
        let pb2 = pb1\<lparr>existing_len := existing_len pb + copy_len, remaining_len := remaining_len pb - copy_len\<rparr>;
        let pkt1 = pkt\<lparr>consumed := \<not> copy_len < len\<rparr>;
        let off1 = (if copy_len < len then data_offset + unat copy_len else data_offset);
        if remaining_len pb2 = 0 then
          Some (Some (pb_data pb2, unat (existing_len pb2)), off1, pkt1,
            pb2\<lparr>existing_len := 0, pb_active := False, body_len := 0, bodylen_state := BL_None\<rparr>)
        else Some (None, off1, pkt1, pb2) })"

definition resume_partial ::
  "RxPacket \<Rightarrow> nat \<Rightarrow> PartialFIXBuffer \<Rightarrow> (fix_msg \<times> nat \<times> RxPacket \<times> PartialFIXBuffer) option" where
  "resume_partial pkt data_offset pb =
     (if remaining_len pb = 0 \<and> bodylen_state pb \<noteq> BL_DONE then do {
        (pos, pb1) \<leftarrow> resume_bodylen pkt data_offset pb;
        if bodylen_state pb1 = BL_DONE then
          continue_partial pkt data_offset (pb1\<lparr>remaining_len := of_nat (pos + 1) + body_len pb1 + 7\<rparr>)
        else do {
          pb2 \<leftarrow> copy_partial (existing_len pb1) data_offset (pos - data_offset) pkt pb1;
          Some (None, data_offset, pkt\<lparr>consumed := True\<rparr>, pb2\<lparr>bodylen_state := READ_VALUE\<rparr>) } }
      else continue_partial pkt data_offset pb)"

subsection \<open>The next message\<close>

definition frame_message ::
  "RxPacket \<Rightarrow> nat \<Rightarrow> PartialFIXBuffer \<Rightarrow> (fix_msg \<times> nat \<times> RxPacket \<times> PartialFIXBuffer) option" where
  "frame_message pkt data_offset pb =
     (let len = unat (rx_len pkt); existing = len - data_offset in do {
        (st, bl, bl_end, pbl) \<leftarrow> bodylen_loop (rx_data pkt) len data_offset (bodylen_state pb) 0 (body_len pb);
        let pb1 = pb\<lparr>bodylen_state := st, body_len := pbl\<rparr>;
        if bl_end = 0 then do {
          pb2 \<leftarrow> copy_partial 0 data_offset existing pkt pb1;
          Some (None, data_offset, pkt\<lparr>consumed := True\<rparr>,
            pb2\<lparr>existing_len := of_nat existing, pb_active := True,
                bodylen_state := (if bl = 0 then EXPECT_SOH else st)\<rparr>) }
        else
          let msg_len = of_nat bl_end + bl + 7 - of_nat data_offset in
          if of_nat existing < msg_len then do {
            pb2 \<leftarrow> copy_partial 0 data_offset existing pkt pb1;
            Some (None, data_offset + existing, pkt\<lparr>consumed := True\<rparr>,
              pb2\<lparr>remaining_len := msg_len - of_nat existing, pb_active := True, existing_len := of_nat existing,
                  bodylen_state := BL_DONE\<rparr>) }
          else if msg_len < of_nat existing then do {
            pb2 \<leftarrow> copy_partial 0 data_offset (unat msg_len) pkt pb1;
            Some (Some (pb_data pb2, unat msg_len), data_offset + unat msg_len, pkt\<lparr>consumed := False\<rparr>,
              pb2\<lparr>remaining_len := 0, pb_active := False, body_len := 0, existing_len := of_nat existing - msg_len,
                  bodylen_state := BL_None\<rparr>) }
          else
            Some (Some (drop data_offset (rx_data pkt), unat msg_len), data_offset, pkt\<lparr>consumed := True\<rparr>,
              pb1\<lparr>pb_active := False, body_len := 0, bodylen_state := BL_None\<rparr>) })"

definition nextFixMsg ::
  "RxPacket \<Rightarrow> nat \<Rightarrow> PartialFIXBuffer \<Rightarrow> (fix_msg \<times> nat \<times> RxPacket \<times> PartialFIXBuffer) option" where
  "nextFixMsg pkt data_offset pb =
     (if unat (rx_len pkt) \<le> data_offset then Some (None, data_offset, pkt, pb)
      else if pb_active pb \<and> \<not> consumed pkt then resume_partial pkt data_offset pb
      else frame_message pkt data_offset pb)"

subsection \<open>Messages in the documented format\<close>

text \<open>Begin string, body length, body and checksum field.  The begin string is not empty, does not start with a
  digit and has no separator in it.\<close>

definition fix_header :: "string \<Rightarrow> nat \<Rightarrow> string" where
  "fix_header bs n = ''8='' @ bs @ [SOH] @ ''9='' @ decimal n @ [SOH]"

definition fix_message :: "string \<Rightarrow> string \<Rightarrow> string \<Rightarrow> string" where
  "fix_message bs body cs = fix_header bs (length body) @ body @ ''10='' @ cs @ [SOH]"

definition begin_string :: "string \<Rightarrow> bool" where
  "begin_string bs \<longleftrightarrow> bs \<noteq> [] \<and> \<not> is_digit (hd bs) \<and> SOH \<notin> set bs \<and> CHR ''='' \<notin> set bs"

lemma length_fix_message: "length cs = 3 \<Longrightarrow> length (fix_message bs body cs) = length (fix_header bs (length body)) + length body + 7"
  by (simp add: fix_message_def)

subsection \<open>Scanning lemmas\<close>

lemma read_num_digits:
  assumes "drop pos data = ds @ c # r" "\<forall>d \<in> set ds. is_digit d" "\<not> is_digit c" "pos + length ds < len"
  shows "read_num is_digit data len pos acc = Some (pos + length ds, digits_loop ds acc)"
  using assms
proof (induction ds arbitrary: pos acc)
  case Nil
  then show ?case using nth_opt_drop [of pos data c r] by (subst read_num.simps) simp
next
  case (Cons d ds)
  have d: "drop pos data = d # (ds @ c # r)" using Cons.prems(1) by simp
  show ?case
    using Cons.IH [of "Suc pos" "acc * 10 + digit_val d"] nth_opt_drop [OF d] drop_Suc_eq [OF d] Cons.prems
    by (subst read_num.simps) simp
qed

lemma bodylen_skip:
  assumes "drop pos data = xs @ r" "CHR ''='' \<notin> set xs" "pos + length xs \<le> len" "st \<noteq> BL_DONE"
  shows "\<exists>st'. st' \<noteq> BL_DONE \<and> bodylen_loop data len pos st bl pbl = bodylen_loop data len (pos + length xs) st' bl pbl"
  using assms
proof (induction xs arbitrary: pos st)
  case (Cons x xs)
  have x: "drop pos data = x # (xs @ r)" using Cons.prems(1) by simp
  let ?st = "if x = SOH then EXPECT_9 else if x = CHR ''9'' then EXPECT_EQ else st"
  have "bodylen_loop data len pos st bl pbl = bodylen_loop data len (Suc pos) ?st bl pbl"
    using nth_opt_drop [OF x] Cons.prems(2-4) by (subst bodylen_loop.simps) auto
  moreover have "?st \<noteq> BL_DONE" using Cons.prems(4) by simp
  then obtain st' where "st' \<noteq> BL_DONE"
    "bodylen_loop data len (Suc pos) ?st bl pbl = bodylen_loop data len (Suc pos + length xs) st' bl pbl"
    using Cons.IH [of "Suc pos" ?st] drop_Suc_eq [OF x] Cons.prems(2,3) by auto
  ultimately show ?case by auto
qed auto

lemma bodylen_found:
  assumes "drop pos data = fix_header bs n @ r" "begin_string bs" "pos + length (fix_header bs n) \<le> len" "st \<noteq> BL_DONE"
  shows "bodylen_loop data len pos st 0 pbl = Some (BL_DONE, of_nat n, pos + length (fix_header bs n), pbl)"
proof -
  obtain b bs' where bs: "bs = b # bs'" "\<not> is_digit b" "b \<noteq> SOH" using assms(2) by (cases bs) (auto simp: begin_string_def)
  let ?rest = "bs @ [SOH] @ ''9=''  @ decimal n @ SOH # r"
  have d0: "drop pos data = ''8'' @ (CHR ''='' # ?rest)" using assms(1) by (simp add: fix_header_def)
  obtain st1 where s1: "st1 \<noteq> BL_DONE"
    "bodylen_loop data len pos st 0 pbl = bodylen_loop data len (pos + 1) st1 0 pbl"
    using bodylen_skip [OF d0, of len st 0 pbl] assms(3,4) by (auto simp: fix_header_def)
  have d1: "drop (pos + 1) data = CHR ''='' # ?rest" using drop_prefix [OF d0] by simp
  have d2: "drop (pos + 2) data = b # (bs' @ [SOH] @ ''9='' @ decimal n @ SOH # r)" using drop_Suc_eq [OF d1] bs(1) by simp
  have len2: "pos + 2 < len" using assms(3) by (simp add: fix_header_def)
  have "read_num is_digit data len (pos + 2) 0 = Some (pos + 2, 0)"
    using read_num_digits [of "pos + 2" data "[]" b] d2 bs(2) len2 by simp
  then have s2: "bodylen_loop data len (pos + 1) st1 0 pbl = bodylen_loop data len (pos + 2) READ_VALUE 0 pbl"
    using nth_opt_drop [OF d1] nth_opt_drop [OF d2] len2 bs(3) by (subst bodylen_loop.simps) simp
  let ?skip = "bs @ [SOH] @ ''9''"
  have d3: "drop (pos + 2) data = ?skip @ (CHR ''='' # decimal n @ SOH # r)" using d2 bs(1) by simp
  obtain st3 where s3: "bodylen_loop data len (pos + 2) READ_VALUE 0 pbl
      = bodylen_loop data len (pos + 2 + length ?skip) st3 0 pbl"
    using bodylen_skip [OF d3, of len READ_VALUE 0 pbl] assms(2,3) by (auto simp: begin_string_def fix_header_def)
  let ?p = "pos + 2 + length ?skip"
  have d4: "drop ?p data = CHR ''='' # decimal n @ SOH # r" by (rule drop_prefix [OF d3])
  have d5: "drop (?p + 1) data = decimal n @ SOH # r" using drop_Suc_eq [OF d4] by simp
  have lend: "?p + 1 + length (decimal n) < len" using assms(3) by (simp add: fix_header_def)
  have rn: "read_num is_digit data len (?p + 1) 0 = Some (?p + 1 + length (decimal n), of_nat n)"
    using read_num_digits [OF d5 _ _ lend, of 0] decimal_digits by (simp add: is_digit_def)
  have "nth_opt data (?p + 1 + length (decimal n)) = Some SOH" using drop_prefix [OF d5] nth_opt_drop by fastforce
  then have "bodylen_loop data len ?p st3 0 pbl = Some (BL_DONE, of_nat n, ?p + 1 + length (decimal n) + 1, pbl)"
    using nth_opt_drop [OF d4] rn lend by (subst bodylen_loop.simps) (simp add: Let_def)
  moreover have "?p + 1 + length (decimal n) + 1 = pos + length (fix_header bs n)" by (simp add: fix_header_def)
  ultimately show ?thesis using s1(2) s2 s3 by simp
qed

subsection \<open>One message\<close>

lemma of_nat_u64_less: "a < 2 ^ 64 \<Longrightarrow> b < 2 ^ 64 \<Longrightarrow> (of_nat a < (of_nat b :: u64)) = (a < b)"
  by (simp add: word_of_nat_less_iff take_bit_nat_eq_self)

lemma unat_of_nat_u64: "a < 2 ^ 64 \<Longrightarrow> unat (of_nat a :: u64) = a"
  by (simp add: unat_of_nat take_bit_nat_eq_self)

lemma copy_partial_front:
  assumes "drop start (rx_data pkt) = bs @ r" "length bs \<le> length (pb_data pb)"
  shows "copy_partial 0 start (length bs) pkt pb = Some (pb\<lparr>pb_data := bs @ drop (length bs) (pb_data pb)\<rparr>)"
  using assms by (simp add: copy_partial_def read_bytes_def write_bytes_def)

text \<open>A message that is followed by more data, one that ends with the packet, and one that is cut behind its
  header.  What stands in the packet's buffer behind the part of the message that has arrived is arbitrary (\<open>r\<close>).\<close>

definition framed_at :: "string \<Rightarrow> string \<Rightarrow> string \<Rightarrow> string \<Rightarrow> RxPacket \<Rightarrow> nat \<Rightarrow> PartialFIXBuffer \<Rightarrow> bool" where
  "framed_at bs body cs r pkt off pb \<longleftrightarrow> begin_string bs \<and> length cs = 3
     \<and> drop off (rx_data pkt) = take (unat (rx_len pkt) - off) (fix_message bs body cs) @ r
     \<and> off + length (fix_header bs (length body)) \<le> unat (rx_len pkt)
     \<and> length (fix_message bs body cs) \<le> 1024 \<and> length (pb_data pb) = 1024
     \<and> bodylen_state pb \<noteq> BL_DONE \<and> (pb_active pb \<longrightarrow> consumed pkt)"

lemma framed_sizes:
  assumes "framed_at bs body cs r pkt off pb"
  defines "ex \<equiv> unat (rx_len pkt) - off" and "n \<equiv> length (fix_message bs body cs)"
  shows "off < unat (rx_len pkt)" "(of_nat ex < (of_nat n :: u64)) = (ex < n)" "((of_nat n :: u64) < of_nat ex) = (n < ex)"
    "unat (of_nat n :: u64) = n" "off + length (fix_header bs (length body)) \<noteq> 0"
    "of_nat (off + length (fix_header bs (length body))) + of_nat (length body) + 7 - of_nat off = (of_nat n :: u64)"
proof -
  have a: "length cs = 3" "off + length (fix_header bs (length body)) \<le> unat (rx_len pkt)" "n \<le> 1024"
    using assms(1) by (simp_all add: framed_at_def n_def)
  have "ex < 2 ^ 16" using unsigned_less [of "rx_len pkt", where 'a = nat] by (simp add: ex_def)
  then show "(of_nat ex < (of_nat n :: u64)) = (ex < n)" "((of_nat n :: u64) < of_nat ex) = (n < ex)" "unat (of_nat n :: u64) = n"
    using a(3) by (simp_all add: of_nat_u64_less unat_of_nat_u64)
  show "off < unat (rx_len pkt)" "off + length (fix_header bs (length body)) \<noteq> 0" using a(2) by (simp_all add: fix_header_def)
  show "of_nat (off + length (fix_header bs (length body))) + of_nat (length body) + 7 - of_nat off = (of_nat n :: u64)"
    using length_fix_message [OF a(1), of bs body] by (simp add: n_def)
qed

lemma framed_whole:
  assumes "framed_at bs body cs r pkt off pb" "length (fix_message bs body cs) \<le> unat (rx_len pkt) - off"
  shows "drop off (rx_data pkt) = fix_message bs body cs @ r"
  using assms by (simp add: framed_at_def)

lemma framed_header:
  assumes "framed_at bs body cs r pkt off pb"
  obtains r' where "drop off (rx_data pkt) = fix_header bs (length body) @ r'"
proof -
  have "drop off (rx_data pkt) = take (unat (rx_len pkt) - off) (fix_message bs body cs) @ r"
    "length (fix_header bs (length body)) \<le> unat (rx_len pkt) - off" using assms by (auto simp: framed_at_def)
  then show thesis by (intro that) (simp add: fix_message_def)
qed

lemma framed_unfold:
  assumes "framed_at bs body cs r pkt off pb"
  defines "ex \<equiv> unat (rx_len pkt) - off" and "n \<equiv> length (fix_message bs body cs)"
  shows "nextFixMsg pkt off pb =
     (if ex < n then do {
        pb2 \<leftarrow> copy_partial 0 off ex pkt (pb\<lparr>bodylen_state := BL_DONE, body_len := body_len pb\<rparr>);
        Some (None, off + ex, pkt\<lparr>consumed := True\<rparr>,
          pb2\<lparr>remaining_len := of_nat n - of_nat ex, pb_active := True, existing_len := of_nat ex, bodylen_state := BL_DONE\<rparr>) }
      else if n < ex then do {
        pb2 \<leftarrow> copy_partial 0 off n pkt (pb\<lparr>bodylen_state := BL_DONE, body_len := body_len pb\<rparr>);
        Some (Some (pb_data pb2, n), off + n, pkt\<lparr>consumed := False\<rparr>,
          pb2\<lparr>remaining_len := 0, pb_active := False, body_len := 0, existing_len := of_nat ex - of_nat n,
              bodylen_state := BL_None\<rparr>) }
      else Some (Some (drop off (rx_data pkt), n), off, pkt\<lparr>consumed := True\<rparr>,
             (pb\<lparr>bodylen_state := BL_DONE, body_len := body_len pb\<rparr>)\<lparr>pb_active := False, body_len := 0, bodylen_state := BL_None\<rparr>))"
proof -
  note sizes = framed_sizes [OF assms(1), folded ex_def n_def]
  obtain r' where h: "drop off (rx_data pkt) = fix_header bs (length body) @ r'" by (rule framed_header [OF assms(1)])
  have loop: "bodylen_loop (rx_data pkt) (unat (rx_len pkt)) off (bodylen_state pb) 0 (body_len pb)
      = Some (BL_DONE, of_nat (length body), off + length (fix_header bs (length body)), body_len pb)"
    using assms(1) by (intro bodylen_found [OF h]) (simp_all add: framed_at_def)
  have "\<not> unat (rx_len pkt) \<le> off" "(pb_active pb \<and> \<not> consumed pkt) = False" using sizes(1) assms(1) by (auto simp: framed_at_def)
  then show ?thesis
    by (simp only: nextFixMsg_def frame_message_def Let_def loop bind.bind_lunit sizes(2-6) if_False split ex_def [symmetric])
qed

lemma frame_cut:
  assumes "framed_at bs body cs r pkt off pb" "unat (rx_len pkt) - off < length (fix_message bs body cs)"
  shows "\<exists>pb'. nextFixMsg pkt off pb = Some (None, unat (rx_len pkt), pkt\<lparr>consumed := True\<rparr>, pb')
    \<and> pb_active pb' \<and> bodylen_state pb' = BL_DONE \<and> unat (existing_len pb') = unat (rx_len pkt) - off
    \<and> unat (remaining_len pb') = length (fix_message bs body cs) - (unat (rx_len pkt) - off)
    \<and> length (pb_data pb') = 1024
    \<and> take (unat (rx_len pkt) - off) (pb_data pb') = take (unat (rx_len pkt) - off) (fix_message bs body cs)"
proof -
  let ?m = "fix_message bs body cs" and ?ex = "unat (rx_len pkt) - off"
  have a: "drop off (rx_data pkt) = take ?ex ?m @ r" "length ?m \<le> 1024" "length (pb_data pb) = 1024"
    using assms(1) by (simp_all add: framed_at_def)
  let ?pb = "pb\<lparr>bodylen_state := BL_DONE, body_len := body_len pb\<rparr>"
  from copy_partial_front [OF a(1), of ?pb] have c: "copy_partial 0 off ?ex pkt ?pb
      = Some (?pb\<lparr>pb_data := take ?ex ?m @ drop ?ex (pb_data pb)\<rparr>)" using assms(2) a by (simp add: min_def)
  have w: "(of_nat (length ?m) - of_nat ?ex :: u64) = of_nat (length ?m - ?ex)"
    by (rule of_nat_diff [symmetric]) (use assms(2) in simp)
  have u: "unat (of_nat (length ?m) - of_nat ?ex :: u64) = length ?m - ?ex" "unat (of_nat ?ex :: u64) = ?ex"
    unfolding w by (rule unat_of_nat_u64, use a(2) assms(2) in simp)+
  have "off + ?ex = unat (rx_len pkt)" using framed_sizes(1) [OF assms(1)] by simp
  then show ?thesis using framed_unfold [OF assms(1)] c u assms(2) a by simp
qed

lemma frame_more:
  assumes "framed_at bs body cs r pkt off pb" "length (fix_message bs body cs) < unat (rx_len pkt) - off"
  shows "\<exists>pb' r'. nextFixMsg pkt off pb = Some (Some (fix_message bs body cs @ r', length (fix_message bs body cs)),
      off + length (fix_message bs body cs), pkt\<lparr>consumed := False\<rparr>, pb')
    \<and> \<not> pb_active pb' \<and> bodylen_state pb' = BL_None \<and> length (pb_data pb') = 1024"
proof -
  let ?m = "fix_message bs body cs" and ?pb = "pb\<lparr>bodylen_state := BL_DONE, body_len := body_len pb\<rparr>"
  have a: "drop off (rx_data pkt) = ?m @ r" "length ?m \<le> 1024" "length (pb_data pb) = 1024"
    using assms(1) framed_whole [OF assms(1)] assms(2) by (simp_all add: framed_at_def)
  have "copy_partial 0 off (length ?m) pkt ?pb = Some (?pb\<lparr>pb_data := ?m @ drop (length ?m) (pb_data pb)\<rparr>)"
    using copy_partial_front [OF a(1), of ?pb] a by simp
  then show ?thesis using framed_unfold [OF assms(1)] assms(2) a by auto
qed

lemma frame_exact:
  assumes "framed_at bs body cs r pkt off pb" "length (fix_message bs body cs) = unat (rx_len pkt) - off"
  shows "\<exists>pb'. nextFixMsg pkt off pb = Some (Some (fix_message bs body cs @ r, length (fix_message bs body cs)),
      off, pkt\<lparr>consumed := True\<rparr>, pb')
    \<and> \<not> pb_active pb' \<and> bodylen_state pb' = BL_None \<and> length (pb_data pb') = 1024"
proof -
  have a: "drop off (rx_data pkt) = fix_message bs body cs @ r" "length (pb_data pb) = 1024"
    using assms(1) framed_whole [OF assms(1)] assms(2) by (simp_all add: framed_at_def)
  show ?thesis unfolding framed_unfold [OF assms(1)] using assms(2) a by simp
qed

text \<open>The rest of a message that was cut.\<close>

lemma resume_rest:
  assumes "pb_active pb" "bodylen_state pb = BL_DONE" "\<not> consumed pkt" "length (pb_data pb) = 1024"
    and "m = p @ s" "p \<noteq> []" "s \<noteq> []" "length m \<le> 1024" "take (length p) (pb_data pb) = p"
    and "unat (existing_len pb) = length p" "unat (remaining_len pb) = length s"
    and "rx_data pkt = s @ r" "length s \<le> unat (rx_len pkt)"
  shows "\<exists>pb' r'. nextFixMsg pkt 0 pb = Some (Some (m @ r', length m),
      (if length s < unat (rx_len pkt) then length s else 0), pkt\<lparr>consumed := \<not> length s < unat (rx_len pkt)\<rparr>, pb')
    \<and> \<not> pb_active pb' \<and> bodylen_state pb' = BL_None \<and> length (pb_data pb') = 1024"
proof -
  let ?len = "of_nat (unat (rx_len pkt)) :: u64"
  have lt: "unat (rx_len pkt) < 2 ^ 64" using unsigned_less [of "rx_len pkt", where 'a = nat] by simp
  then have len: "unat ?len = unat (rx_len pkt)" by (rule unat_of_nat_u64)
  have rem: "remaining_len pb = of_nat (length s)" by (simp add: assms(11) [symmetric])
  have ex: "existing_len pb = of_nat (length p)" by (simp add: assms(10) [symmetric])
  have s: "length s < 2 ^ 64" "length p + length s \<le> 1024" using assms(5,8) by simp_all
  have min: "min (remaining_len pb) ?len = of_nat (length s)"
    using assms(13) len s(1) by (simp add: rem min_def word_le_nat_alt unat_of_nat_u64)
  have c: "copy_partial (existing_len pb) 0 (length s) pkt pb
      = Some (pb\<lparr>pb_data := p @ s @ drop (length p + length s) (pb_data pb)\<rparr>)"
    using assms(4,9,10,12) s(2) by (simp add: copy_partial_def read_bytes_def write_bytes_def)
  have lts: "((of_nat (length s) :: u64) < ?len) = (length s < unat (rx_len pkt))" using s(1) lt by (rule of_nat_u64_less)
  have u: "unat (of_nat (length s) :: u64) = length s" "unat (of_nat (length p) + of_nat (length s) :: u64) = length m"
    using s unat_of_nat_u64 [of "length p + length s"] assms(5) by (simp_all add: unat_of_nat_u64)
  have st: "\<not> unat (rx_len pkt) \<le> 0" using assms(7,13) by (cases s) auto
  show ?thesis
    unfolding nextFixMsg_def resume_partial_def continue_partial_def Let_def min
    using st assms(1-4) c u s lts by (simp add: ex rem assms(5))
qed

subsection \<open>Properties\<close>

text \<open>C24. A FIX message of at most 1024 bytes that the end of a packet cuts anywhere behind its body-length field is put
  together again, when no partial message is left from before: the first packet, whose buffer behind the part that arrived may hold anything, gives no message and is
  used up, and the next packet (an object that has not been used before), which starts with the rest of the
  message and holds all of it, gives exactly the message, after which nothing partial is left; when that packet holds more,
  reading goes on behind the rest.\<close>

theorem fix_split_message:
  assumes "framed_at bs body cs r pkt off pb" "unat (rx_len pkt) - off < length (fix_message bs body cs)"
    and "rx_data pkt2 = drop (unat (rx_len pkt) - off) (fix_message bs body cs) @ r2" "\<not> consumed pkt2"
    and "length (fix_message bs body cs) - (unat (rx_len pkt) - off) \<le> unat (rx_len pkt2)"
  shows "\<exists>pb1 pb2 r'. nextFixMsg pkt off pb = Some (None, unat (rx_len pkt), pkt\<lparr>consumed := True\<rparr>, pb1)
    \<and> nextFixMsg pkt2 0 pb1 = Some (Some (fix_message bs body cs @ r', length (fix_message bs body cs)),
        (if length (fix_message bs body cs) - (unat (rx_len pkt) - off) < unat (rx_len pkt2)
         then length (fix_message bs body cs) - (unat (rx_len pkt) - off) else 0),
        pkt2\<lparr>consumed := \<not> length (fix_message bs body cs) - (unat (rx_len pkt) - off) < unat (rx_len pkt2)\<rparr>, pb2)
    \<and> \<not> pb_active pb2 \<and> bodylen_state pb2 = BL_None"
proof -
  let ?m = "fix_message bs body cs" and ?ex = "unat (rx_len pkt) - off"
  obtain pb1 where 1: "nextFixMsg pkt off pb = Some (None, unat (rx_len pkt), pkt\<lparr>consumed := True\<rparr>, pb1)"
    and pb1: "pb_active pb1" "bodylen_state pb1 = BL_DONE" "unat (existing_len pb1) = ?ex"
      "unat (remaining_len pb1) = length ?m - ?ex" "length (pb_data pb1) = 1024" "take ?ex (pb_data pb1) = take ?ex ?m"
    using frame_cut [OF assms(1,2)] by blast
  let ?p = "take ?ex ?m" and ?s = "drop ?ex ?m"
  have f: "off + length (fix_header bs (length body)) \<le> unat (rx_len pkt)" "length ?m \<le> 1024"
    using assms(1) by (simp_all add: framed_at_def)
  have l: "length ?p = ?ex" "length ?s = length ?m - ?ex" using assms(2) by simp_all
  have "0 < ?ex" using f(1) by (simp add: fix_header_def)
  then have ne: "?p \<noteq> []" "?s \<noteq> []" using assms(2) l by (metis length_greater_0_conv, metis length_greater_0_conv zero_less_diff)
  obtain pb2 r' where "nextFixMsg pkt2 0 pb1 = Some (Some (?m @ r', length ?m),
      (if length ?s < unat (rx_len pkt2) then length ?s else 0), pkt2\<lparr>consumed := \<not> length ?s < unat (rx_len pkt2)\<rparr>, pb2)"
    "\<not> pb_active pb2" "bodylen_state pb2 = BL_None"
    using resume_rest [of pb1 pkt2 ?m ?p ?s r2] pb1 assms(3-5) ne f(2) l by auto
  then show ?thesis using 1 unfolding l(2) by blast
qed

definition empty_partial :: PartialFIXBuffer where
  "empty_partial = \<lparr>pb_data = replicate 1024 (CHR 0x00), existing_len = 0, remaining_len = 0, body_len = 0,
     pb_active = False, bodylen_state = BL_None\<rparr>"

definition fresh_packet :: "string \<Rightarrow> nat \<Rightarrow> RxPacket" where
  "fresh_packet data n = \<lparr>rx_data = data, rx_len = of_nat n, rx_offsets = replicate 32 0, last_pkt_remaining_len = 0,
     msg_count = 0, rx_partial = False, is_len_received = True, release_this_pkt = True, consumed = False,
     rx_venue = BIST, rx_protocol = FIX\<rparr>"

text \<open>The message is cut behind 17 of its 25 bytes; the buffer of the first packet goes on with other bytes.\<close>

theorem fix_split_message_witness:
  "\<exists>pb1 pb2 r'. nextFixMsg (fresh_packet (take 17 (fix_message ''FIX.5.0'' ''35=0'' ''161'') @ replicate 31 (CHR ''Z'')) 17) 0 empty_partial
      = Some (None, 17, (fresh_packet (take 17 (fix_message ''FIX.5.0'' ''35=0'' ''161'') @ replicate 31 (CHR ''Z'')) 17)\<lparr>consumed := True\<rparr>, pb1)
    \<and> nextFixMsg (fresh_packet (drop 17 (fix_message ''FIX.5.0'' ''35=0'' ''161'') @ ''8=FIX'') 13) 0 pb1
      = Some (Some (fix_message ''FIX.5.0'' ''35=0'' ''161'' @ r', 25), 8,
         (fresh_packet (drop 17 (fix_message ''FIX.5.0'' ''35=0'' ''161'') @ ''8=FIX'') 13)\<lparr>consumed := False\<rparr>, pb2)"
proof -
  let ?m = "fix_message ''FIX.5.0'' ''35=0'' ''161''"
  let ?p1 = "fresh_packet (take 17 ?m @ replicate 31 (CHR ''Z'')) 17" and ?p2 = "fresh_packet (drop 17 ?m @ ''8=FIX'') 13"
  have d: "decimal (length ''35=0'') = ''4''" by code_simp
  have l: "length ?m = 25" "length (fix_header ''FIX.5.0'' (length ''35=0'')) = 14"
    unfolding fix_message_def fix_header_def d by simp_all
  have n: "unat (rx_len ?p1) - 0 = 17" "unat (rx_len ?p1) = 17" "unat (rx_len ?p2) = 13" by (simp_all add: fresh_packet_def)
  have "rx_data ?p1 = take 17 ?m @ replicate 31 (CHR ''Z'')" "rx_data ?p2 = drop 17 ?m @ ''8=FIX''" by (simp_all only: fresh_packet_def RxPacket.simps)
  then have f: "framed_at ''FIX.5.0'' ''35=0'' ''161'' (replicate 31 (CHR ''Z'')) ?p1 0 empty_partial"
    unfolding framed_at_def n l by (simp add: begin_string_def is_digit_def empty_partial_def)
  have c: "\<not> consumed ?p2" by (simp add: fresh_packet_def)
  show ?thesis
    using fix_split_message [OF f, of ?p2 "''8=FIX''"] c \<open>rx_data ?p2 = _\<close> unfolding n l by auto
qed

text \<open>A packet object that was used up before keeps its mark, so that the rest of a cut message in it is taken for the
  start of a new message.\<close>

lemma reused_packet_not_resumed:
  "consumed pkt \<Longrightarrow> off < unat (rx_len pkt) \<Longrightarrow> nextFixMsg pkt off pb = frame_message pkt off pb"
  by (simp add: nextFixMsg_def)

end
