(* ===== verification/Fix_Dispatch.thy ===== *)
theory Fix_Dispatch
  imports Fix_Framing Packet_Dispatch
begin

text \<open>
  The FIX path of src/src/protocol/Parser_Dispatch.cpp: application messages go to the store thread in the
  order of their sequence numbers, messages that come too early wait in the parser's map, and session
  messages change the session or go to the builder.  The clock is a function of the position in the
  packet.
\<close>

text \<open>What \<^verbatim>\<open>parseFIX\<close> works on: the parser, the sequence and the state of the session, the queue of session
  messages to the builder, and the store with its queue.\<close>

record FixLine =
  fl_parser :: Parser_FIX
  fl_seq :: Sequence_FIX
  fl_state :: SessionState
  parser_to_fixbuilder_rx :: "nat spsc"
  fl_store :: OrderManager

definition push_fix :: "MessageTypes \<Rightarrow> FixLine \<Rightarrow> FixLine" where
  "push_fix msg fl = fl\<lparr>fl_store := push_message msg BIST (fl_store fl)\<rparr>"

definition advance_expected :: "FixLine \<Rightarrow> FixLine" where
  "advance_expected fl = fl\<lparr>fl_seq := increase_expected_seq (fl_seq fl)\<rparr>"

text \<open>\<^verbatim>\<open>handle_sesMsg\<close>, and the push to the builder when it answers false.\<close>

definition session_message :: "nat \<Rightarrow> FixLine \<Rightarrow> FixLine" where
  "session_message i fl =
     (case handle_sesMsg (fixSesMsg_pool (fl_parser fl) i) (fl_seq fl, fl_state fl) of (b, q, st) \<Rightarrow>
        let fl1 = fl\<lparr>fl_seq := q, fl_state := st\<rparr>
        in if b then fl1
           else fl1\<lparr>parser_to_fixbuilder_rx := snd (spsc_push FQ i (parser_to_fixbuilder_rx fl1))\<rparr>)"

definition proceedPendingFIX :: "PendingFIX \<Rightarrow> FixLine \<Rightarrow> FixLine" where
  "proceedPendingFIX m fl =
     (case m of
        PF_Ses i \<Rightarrow>
          let ses = fixSesMsg_pool (fl_parser fl) i;
              fl1 = (if fs_msg_type ses \<noteq> T_Logon then session_message i fl else fl)
          in fl1\<lparr>fl_parser := pop_pending (fs_seqnum ses) (fl_parser fl1)\<rparr>
      | PF_App i \<Rightarrow>
          let app = fixMsg_pool (fl_parser fl) i;
              fl1 = push_fix (M_FIX app) fl
          in fl1\<lparr>fl_parser := pop_pending (fx_seqnum app) (fl_parser fl1)\<rparr>)"

text \<open>The messages that have become due; \<open>None\<close> also when the loop does not end.\<close>

partial_function (option) drain_pending :: "FixLine \<Rightarrow> FixLine option" where
  "drain_pending fl =
     (case find_in_pending (expected_seqnum (fl_seq fl)) (fl_parser fl) of
        None \<Rightarrow> Some fl
      | Some m \<Rightarrow> drain_pending (advance_expected (proceedPendingFIX m fl)))"

definition parse_app :: "string \<Rightarrow> nat \<Rightarrow> FixLine \<Rightarrow> FixLine option" where
  "parse_app data len fl = do {
     (i, p1) \<leftarrow> parse_fix data len (fl_parser fl);
     let msg = fixMsg_pool p1 i;
     let fl1 = fl\<lparr>fl_parser := p1\<rparr>;
     if expected_seqnum (fl_seq fl1) = fx_seqnum msg then
       drain_pending (advance_expected (push_fix (M_FIX msg) fl1))
     else if expected_seqnum (fl_seq fl1) < fx_seqnum msg then
       Some (fl1\<lparr>fl_parser := push_pending (fx_seqnum msg) (PF_App i) p1\<rparr>)
     else Some fl1 }"

definition parse_session :: "i64 \<Rightarrow> string \<Rightarrow> nat \<Rightarrow> FixLine \<Rightarrow> FixLine option" where
  "parse_session now data len fl = do {
     (i, p1) \<leftarrow> parse_ses data len (fl_parser fl);
     let msg = fixSesMsg_pool p1 i;
     let fl1 = fl\<lparr>fl_parser := p1\<rparr>;
     fl2 \<leftarrow>
       (if expected_seqnum (fl_seq fl1) = fs_seqnum msg then
          drain_pending (advance_expected (session_message i fl1))
        else if expected_seqnum (fl_seq fl1) < fs_seqnum msg then
          if fs_msg_type msg \<noteq> T_Logon then do {
            (q, p2) \<leftarrow> resend_logic now (fs_seqnum msg) (fl_seq fl1) p1;
            Some (fl1\<lparr>fl_seq := q, fl_parser := push_pending (fs_seqnum msg) (PF_Ses i) p2\<rparr>) }
          else do {
            (q, p2) \<leftarrow> resend_logic_logon i (fl_seq fl1) p1;
            Some (fl1\<lparr>fl_seq := q, fl_parser := p2\<rparr>) }
        else Some fl1);
     Some (push_fix (M_FIXSession msg) fl2) }"

text \<open>The type of a message decides; \<^verbatim>\<open>char\<close> is signed.\<close>

definition is_app_type :: "char \<Rightarrow> bool" where
  "is_app_type c \<longleftrightarrow> (56 :: u8) \<le>s u8_of_char c \<and> c \<noteq> CHR ''A''"

definition parse_message :: "i64 \<Rightarrow> string \<Rightarrow> nat \<Rightarrow> FixLine \<Rightarrow> FixLine option" where
  "parse_message now data len fl = do {
     type \<leftarrow> find_type data;
     if is_app_type type then parse_app data len fl else parse_session now data len fl }"

partial_function (option) parseFIX_loop :: "(nat \<Rightarrow> i64) \<Rightarrow> RxPacket \<Rightarrow> nat \<Rightarrow> FixLine \<Rightarrow> (RxPacket \<times> FixLine) option" where
  "parseFIX_loop clock pkt off fl = do {
     (msg, off1, pkt1, pb) \<leftarrow> nextFixMsg pkt off (partial_fix_msg (fl_parser fl));
     let fl1 = fl\<lparr>fl_parser := (fl_parser fl)\<lparr>partial_fix_msg := pb\<rparr>\<rparr>;
     fl2 \<leftarrow> (case msg of Some (data, len) \<Rightarrow> parse_message (clock off) data len fl1 | None \<Rightarrow> Some fl1);
     if \<not> consumed pkt1 then parseFIX_loop clock pkt1 off1 fl2 else Some (pkt1, fl2) }"

text \<open>The whole handler: the session is looked up, and the sequence is a member of its state.\<close>

definition parseFIX ::
  "(nat \<Rightarrow> i64) \<Rightarrow> RxPacket \<Rightarrow> Parser_FIX \<Rightarrow> SessionManager \<Rightarrow> nat spsc \<Rightarrow> OrderManager \<Rightarrow>
   (RxPacket \<times> Parser_FIX \<times> SessionManager \<times> nat spsc \<times> OrderManager) option" where
  "parseFIX clock pkt p sm rx om = do {
     i \<leftarrow> getSessionIndex (rx_venue pkt) (rx_protocol pkt) 0 sm;
     st \<leftarrow> getSessionState i sm;
     q \<leftarrow> as_fix (sess_sequence st);
     (pkt1, fl) \<leftarrow> parseFIX_loop clock pkt 0
       \<lparr>fl_parser = p, fl_seq = q, fl_state = st, parser_to_fixbuilder_rx = rx, fl_store = om\<rparr>;
     sm1 \<leftarrow> upd_session i (\<lambda>_. (fl_state fl)\<lparr>sess_sequence := Seq_FIX (fl_seq fl)\<rparr>) sm;
     Some (pkt1, fl_parser fl, sm1, parser_to_fixbuilder_rx fl, fl_store fl) }"

declare drain_pending.simps [code] parseFIX_loop.simps [code]

subsection \<open>Order of delivery\<close>

text \<open>The pending messages are application messages under their own numbers, in objects that are not free, and
  satisfy \<open>Q\<close>.\<close>

definition fix_inv :: "(FIXMessage \<Rightarrow> bool) \<Rightarrow> Parser_FIX \<Rightarrow> bool" where
  "fix_inv Q p \<longleftrightarrow> finite (dom (pending_to_store_map p)) \<and> distinct (free_fixMsg_list p)
     \<and> (\<forall>k m. pending_to_store_map p k = Some m \<longrightarrow> (\<exists>i. m = PF_App i \<and> fx_seqnum (fixMsg_pool p i) = k
          \<and> Q (fixMsg_pool p i) \<and> i \<notin> set (free_fixMsg_list p)))"

abbreviation fix_wrap :: "FIXMessage \<Rightarrow> MessageWithVenue" where
  "fix_wrap m \<equiv> \<lparr>mwv_msg = M_FIX m, mwv_venue = BIST\<rparr>"

text \<open>The messages that a step hands to the store have consecutive numbers from the expected one on, and no
  pending message gets lost.\<close>

definition delivers :: "(FIXMessage \<Rightarrow> bool) \<Rightarrow> FIXMessage list \<Rightarrow> FixLine \<Rightarrow> FixLine \<Rightarrow> bool" where
  "delivers Q ms fl fl' \<longleftrightarrow> queued (fl_store fl') = queued (fl_store fl) @ map fix_wrap ms
     \<and> map fx_seqnum ms = map (\<lambda>j. expected_seqnum (fl_seq fl) + of_nat j) [0..<length ms]
     \<and> expected_seqnum (fl_seq fl') = expected_seqnum (fl_seq fl) + of_nat (length ms) \<and> (\<forall>m \<in> set ms. Q m)
     \<and> (\<forall>k. pending_to_store_map (fl_parser fl) k \<noteq> None \<longrightarrow>
          pending_to_store_map (fl_parser fl') k \<noteq> None \<or> k \<in> fx_seqnum ` set ms)"

lemma delivers_refl: "delivers Q [] fl fl"
  by (auto simp: delivers_def)

lemma consecutive_append:
  "map (\<lambda>j. x + of_nat j) [0..<m + n] = map (\<lambda>j. x + of_nat j) [0..<m] @ map (\<lambda>j. x + of_nat m + of_nat j) [0..<n]"
  for x :: u32
  by (induction n) (simp_all add: add.assoc)

lemma delivers_trans:
  assumes "delivers Q ms a b" "delivers Q ns b c"
  shows "delivers Q (ms @ ns) a c"
proof -
  have "map fx_seqnum (ms @ ns) = map (\<lambda>j. expected_seqnum (fl_seq a) + of_nat j) [0..<length (ms @ ns)]"
    using assms consecutive_append [of "expected_seqnum (fl_seq a)" "length ms" "length ns"] by (simp add: delivers_def)
  moreover have "\<forall>k. pending_to_store_map (fl_parser a) k \<noteq> None \<longrightarrow>
      pending_to_store_map (fl_parser c) k \<noteq> None \<or> k \<in> fx_seqnum ` set (ms @ ns)"
    using assms unfolding delivers_def by (metis UnCI image_Un set_append)
  ultimately show ?thesis using assms by (auto simp: delivers_def add.assoc)
qed

lemma delivered_range:
  assumes "delivers Q ms fl fl'" "expected_seqnum (fl_seq fl) \<le> b" "b < expected_seqnum (fl_seq fl')"
  shows "b \<in> fx_seqnum ` set ms"
proof -
  let ?e = "expected_seqnum (fl_seq fl)" and ?j = "unat b - unat (expected_seqnum (fl_seq fl))"
  have "unat (expected_seqnum (fl_seq fl')) \<le> unat ?e + length ms"
    using assms(1) by (simp add: delivers_def unat_word_ariths unat_of_nat mod_add_right_eq take_bit_eq_mod)
  then have j: "?j < length ms" "unat ?e + ?j = unat b"
    using assms(2,3) by (simp_all add: word_le_nat_alt word_less_nat_alt)
  have "?e + of_nat ?j = of_nat (unat ?e + ?j)" by simp
  then have "b = ?e + of_nat ?j" unfolding j(2) by simp
  then have "b \<in> set (map fx_seqnum ms)" using assms(1) j(1) by (auto simp: delivers_def)
  then show ?thesis by simp
qed

lemma store_ready_mono: "store_ready n om \<Longrightarrow> m \<le> n \<Longrightarrow> store_ready m om"
  by (auto simp: store_ready_def)

lemma deliver_one:
  assumes "store_ready (Suc n) (fl_store fl)" "fx_seqnum m = expected_seqnum (fl_seq fl)" "Q m"
    and "\<forall>k. k \<noteq> fx_seqnum m \<longrightarrow> pending_to_store_map p k = pending_to_store_map (fl_parser fl) k"
  shows "delivers Q [m] fl (advance_expected ((push_fix (M_FIX m) fl)\<lparr>fl_parser := p\<rparr>))"
    and "store_ready n (fl_store (advance_expected ((push_fix (M_FIX m) fl)\<lparr>fl_parser := p\<rparr>)))"
proof -
  note q = push_message_queued [OF assms(1), of "M_FIX m" BIST]
  show "store_ready n (fl_store (advance_expected ((push_fix (M_FIX m) fl)\<lparr>fl_parser := p\<rparr>)))"
    using q by (simp add: advance_expected_def push_fix_def)
  show "delivers Q [m] fl (advance_expected ((push_fix (M_FIX m) fl)\<lparr>fl_parser := p\<rparr>))"
    unfolding delivers_def
    using q assms(2-4) by (auto simp: advance_expected_def push_fix_def increase_expected_seq_def)
qed

lemma drain_pending_delivers:
  assumes "fix_inv Q (fl_parser fl)" "store_ready (card (dom (pending_to_store_map (fl_parser fl))) + n) (fl_store fl)"
  shows "\<exists>fl' ms. drain_pending fl = Some fl' \<and> fix_inv Q (fl_parser fl') \<and> delivers Q ms fl fl'
    \<and> store_ready (card (dom (pending_to_store_map (fl_parser fl'))) + n) (fl_store fl')
    \<and> free_fixMsg_list (fl_parser fl') = free_fixMsg_list (fl_parser fl)
    \<and> partial_fix_msg (fl_parser fl') = partial_fix_msg (fl_parser fl)
    \<and> pending_to_store_map (fl_parser fl') (expected_seqnum (fl_seq fl')) = None"
  using assms
proof (induction "card (dom (pending_to_store_map (fl_parser fl)))" arbitrary: fl)
  case 0
  then have "pending_to_store_map (fl_parser fl) = Map.empty" by (simp add: fix_inv_def)
  then show ?case using 0 delivers_refl [of Q fl] by (subst drain_pending.simps) (auto simp: find_in_pending_def)
next
  case (Suc c)
  let ?p = "fl_parser fl" and ?e = "expected_seqnum (fl_seq fl)"
  show ?case
  proof (cases "pending_to_store_map ?p ?e")
    case None
    then show ?thesis using Suc.prems delivers_refl [of Q fl] by (subst drain_pending.simps) (auto simp: find_in_pending_def)
  next
    case (Some x)
    then obtain i where i: "x = PF_App i" "fx_seqnum (fixMsg_pool ?p i) = ?e" "Q (fixMsg_pool ?p i)"
      using Suc.prems(1) by (auto simp: fix_inv_def)
    let ?m = "fixMsg_pool ?p i" and ?p1 = "pop_pending (fx_seqnum (fixMsg_pool ?p i)) ?p"
    let ?fl = "advance_expected ((push_fix (M_FIX ?m) fl)\<lparr>fl_parser := ?p1\<rparr>)"
    have step: "drain_pending fl = drain_pending ?fl"
      using Some i(1) by (subst drain_pending.simps)
        (simp add: find_in_pending_def proceedPendingFIX_def push_fix_def Let_def)
    have fin: "finite (dom (pending_to_store_map ?p))" using Suc.prems(1) by (simp add: fix_inv_def)
    have dom: "dom (pending_to_store_map ?p1) = dom (pending_to_store_map ?p) - {?e}" using i(2) by (auto simp: pop_pending_def)
    have "?e \<in> dom (pending_to_store_map ?p)" using Some by auto
    then have card: "card (dom (pending_to_store_map ?p1)) = c" using Suc.hyps(2) fin dom by simp
    have "store_ready (Suc (c + n)) (fl_store fl)" using Suc.prems(2) unfolding Suc.hyps(2) [symmetric] by simp
    note one = deliver_one [where Q = Q and m = ?m and p = ?p1, OF this i(2,3)]
    have d: "delivers Q [?m] fl ?fl" "store_ready (c + n) (fl_store ?fl)" using one by (simp_all add: pop_pending_def)
    have inv: "fix_inv Q (fl_parser ?fl)"
      using Suc.prems(1) by (auto simp: fix_inv_def pop_pending_def advance_expected_def)
    have "fl_parser ?fl = ?p1" by (simp add: advance_expected_def)
    then obtain fl' ms where "drain_pending ?fl = Some fl' \<and> fix_inv Q (fl_parser fl') \<and> delivers Q ms ?fl fl'
      \<and> store_ready (card (dom (pending_to_store_map (fl_parser fl'))) + n) (fl_store fl')
      \<and> free_fixMsg_list (fl_parser fl') = free_fixMsg_list ?p1
      \<and> partial_fix_msg (fl_parser fl') = partial_fix_msg ?p1
      \<and> pending_to_store_map (fl_parser fl') (expected_seqnum (fl_seq fl')) = None"
      using Suc.hyps(1) [of ?fl, OF _ inv] card d(2) by auto
    then show ?thesis using step delivers_trans [OF d(1), of ms fl'] by (auto simp: pop_pending_def)
  qed
qed

subsection \<open>One application message\<close>

text \<open>The fields of an application message: its type, its number, and the others, which do not repeat these.\<close>

record app_msg =
  am_begin :: string
  am_type :: char
  am_seqnum :: nat
  am_fields :: "fix_field list"
  am_checksum :: string

definition am_body :: "app_msg \<Rightarrow> fix_field list" where
  "am_body a = (35, [am_type a]) # (34, decimal (am_seqnum a)) # am_fields a"

definition am_all :: "app_msg \<Rightarrow> fix_field list" where
  "am_all a = (8, am_begin a) # (9, decimal (length (fields_bytes (am_body a)))) # am_body a @ [(10, am_checksum a)]"

definition am_bytes :: "app_msg \<Rightarrow> string" where
  "am_bytes a = fix_message (am_begin a) (fields_bytes (am_body a)) (am_checksum a)"

definition am_ok :: "app_msg \<Rightarrow> bool" where
  "am_ok a \<longleftrightarrow> begin_string (am_begin a) \<and> is_app_type (am_type a) \<and> am_type a \<noteq> SOH \<and> am_seqnum a < 2 ^ 32
     \<and> length (am_checksum a) = 3 \<and> SOH \<notin> set (am_checksum a) \<and> length (am_bytes a) \<le> 1024
     \<and> (\<forall>f \<in> set (am_fields a). field_ok MAX_TAG f \<and> fst f \<noteq> 34 \<and> snd f \<noteq> [])"

text \<open>What the decoder makes of the message in an object with the old contents \<open>m0\<close>.\<close>

definition am_decoded :: "app_msg \<Rightarrow> FIXMessage \<Rightarrow> bool" where
  "am_decoded a m \<longleftrightarrow> (\<exists>m0. apply_fields tagHandlers (am_all a) m0 = Some m)"

lemma am_bytes_fields: "am_bytes a = fields_bytes (am_all a)"
proof -
  have "decimal 8 = ''8''" "decimal 9 = ''9''" "decimal 10 = ''10''" by code_simp+
  then show ?thesis by (simp add: am_bytes_def am_all_def fix_message_def fix_header_def field_bytes_def)
qed

lemma tagHandlers_defined: "v \<noteq> [] \<Longrightarrow> \<exists>m'. tagHandlers t v m = Some m'"
  by (auto simp: tagHandlers_def parseChar_def read_u8_def nth_opt_def)

lemma tagHandlers_seqnum: "tagHandlers t v m = Some m' \<Longrightarrow> t \<noteq> 34 \<Longrightarrow> fx_seqnum m' = fx_seqnum m"
  by (auto simp: tagHandlers_def split: if_splits)

lemma apply_fields_append: "apply_fields h (fs @ gs) m = Option.bind (apply_fields h fs m) (apply_fields h gs)"
  by (induction fs arbitrary: m) (auto split: bind_split)

lemma apply_fields_defined:
  assumes "\<forall>f \<in> set fs. fst f \<noteq> 34 \<and> snd f \<noteq> []"
  shows "\<exists>m'. apply_fields tagHandlers fs m = Some m' \<and> fx_seqnum m' = fx_seqnum m"
  using assms
proof (induction fs arbitrary: m)
  case (Cons f fs)
  obtain m1 where m1: "tagHandlers (fst f) (snd f) m = Some m1" using tagHandlers_defined Cons.prems by fastforce
  then have "fx_seqnum m1 = fx_seqnum m" using tagHandlers_seqnum Cons.prems by auto
  then show ?case using Cons.IH [of m1] Cons.prems m1 by simp
qed simp

lemma am_decode:
  assumes "am_ok a"
  shows "\<exists>m. apply_fields tagHandlers (am_all a) m0 = Some m \<and> fx_seqnum m = of_nat (am_seqnum a)"
proof -
  let ?pre = "[(8, am_begin a), (9, decimal (length (fields_bytes (am_body a)))), (35, [am_type a])]"
  let ?post = "am_fields a @ [(10, am_checksum a)]"
  have all: "am_all a = ?pre @ (34, decimal (am_seqnum a)) # ?post" by (simp add: am_all_def am_body_def)
  obtain m1 where m1: "apply_fields tagHandlers ?pre m0 = Some m1"
    using apply_fields_defined [of ?pre m0] assms by (auto simp: am_ok_def begin_string_def)
  let ?m2 = "m1\<lparr>fx_seqnum := of_nat (am_seqnum a)\<rparr>"
  have "am_checksum a \<noteq> []" using assms by (auto simp: am_ok_def)
  then obtain m where m: "apply_fields tagHandlers ?post ?m2 = Some m" "fx_seqnum m = of_nat (am_seqnum a)"
    using apply_fields_defined [of ?post ?m2] assms by (auto simp: am_ok_def)
  have "ucast (parseNum (decimal (am_seqnum a))) = (of_nat (am_seqnum a) :: u32)"
    using assms by (simp add: am_ok_def parseNum_def unsigned_of_nat take_bit_nat_eq_self)
  then have "tagHandlers 34 (decimal (am_seqnum a)) m1 = Some ?m2" by (simp add: tagHandlers_def)
  then have "apply_fields tagHandlers ((34, decimal (am_seqnum a)) # ?post) m1 = Some m" using m(1) by simp
  then show ?thesis unfolding all apply_fields_append m1 using m(2) by simp
qed

lemma parse_am:
  assumes "am_ok a" "free_fixMsg_list p = i # is"
  shows "\<exists>m. parse_fix (am_bytes a @ r) (length (am_bytes a)) p
      = Some (i, p\<lparr>free_fixMsg_list := is, fixMsg_pool := (fixMsg_pool p)(i := m)\<rparr>)
    \<and> fx_seqnum m = of_nat (am_seqnum a) \<and> am_decoded a m"
proof -
  obtain m where m: "apply_fields tagHandlers (am_all a) (fixMsg_pool p i) = Some m" "fx_seqnum m = of_nat (am_seqnum a)"
    using am_decode [OF assms(1)] by blast
  have "\<forall>f \<in> set (am_all a). field_ok MAX_TAG f"
    using assms(1) decimal_no_sep by (auto simp: am_all_def am_body_def am_ok_def field_ok_def MAX_TAG_def begin_string_def)
  then have "parse_tags MAX_TAG tagHandlers (am_bytes a @ r) (length (am_bytes a)) 0 (fixMsg_pool p i) = Some m"
    using parse_tags_fields [of "am_all a" MAX_TAG 0 "am_bytes a @ r" r "length (am_bytes a)" tagHandlers] m(1)
    by (simp add: am_bytes_fields MAX_TAG_def)
  then show ?thesis using assms(2) m by (auto simp: parse_fix_def acquire_fix_def am_decoded_def)
qed

lemma find_type_am:
  assumes "am_ok a"
  shows "find_type (am_bytes a @ r) = Some (am_type a)"
proof (rule find_type_field)
  show "am_bytes a @ r = field_bytes (8, am_begin a) @ field_bytes (9, decimal (length (fields_bytes (am_body a))))
      @ field_bytes (35, am_type a # []) @ (fields_bytes ((34, decimal (am_seqnum a)) # am_fields a @ [(10, am_checksum a)]) @ r)"
    by (simp add: am_bytes_fields am_all_def am_body_def)
qed (use assms decimal_no_sep in \<open>simp_all add: am_ok_def begin_string_def\<close>)

lemma app_step:
  assumes "am_ok a" "fix_inv Q (fl_parser fl)" "\<forall>m. am_decoded a m \<longrightarrow> Q m" "free_fixMsg_list (fl_parser fl) = i # is"
    and "store_ready (card (dom (pending_to_store_map (fl_parser fl))) + Suc n) (fl_store fl)"
    and "pending_to_store_map (fl_parser fl) (expected_seqnum (fl_seq fl)) = None"
  shows "\<exists>fl' ms. parse_message now (am_bytes a @ r) (length (am_bytes a)) fl = Some fl' \<and> fix_inv Q (fl_parser fl')
    \<and> delivers Q ms fl fl' \<and> free_fixMsg_list (fl_parser fl') = is
    \<and> partial_fix_msg (fl_parser fl') = partial_fix_msg (fl_parser fl)
    \<and> store_ready (card (dom (pending_to_store_map (fl_parser fl'))) + n) (fl_store fl')
    \<and> pending_to_store_map (fl_parser fl') (expected_seqnum (fl_seq fl')) = None
    \<and> (expected_seqnum (fl_seq fl) \<le> of_nat (am_seqnum a) \<longrightarrow>
         pending_to_store_map (fl_parser fl') (of_nat (am_seqnum a)) \<noteq> None \<or> of_nat (am_seqnum a) \<in> fx_seqnum ` set ms)"
proof -
  let ?p = "fl_parser fl" and ?e = "expected_seqnum (fl_seq fl)" and ?s = "of_nat (am_seqnum a) :: u32"
  let ?d = "dom (pending_to_store_map ?p)"
  obtain m where m: "parse_fix (am_bytes a @ r) (length (am_bytes a)) ?p
      = Some (i, ?p\<lparr>free_fixMsg_list := is, fixMsg_pool := (fixMsg_pool ?p)(i := m)\<rparr>)"
    "fx_seqnum m = ?s" "Q m" using parse_am [OF assms(1,4), of r] assms(3) by auto
  let ?p1 = "?p\<lparr>free_fixMsg_list := is, fixMsg_pool := (fixMsg_pool ?p)(i := m)\<rparr>"
  let ?fl1 = "fl\<lparr>fl_parser := ?p1\<rparr>"
  have fin: "finite ?d" using assms(2) by (simp add: fix_inv_def)
  have pm: "parse_message now (am_bytes a @ r) (length (am_bytes a)) fl = parse_app (am_bytes a @ r) (length (am_bytes a)) fl"
    using assms(1) find_type_am [OF assms(1)] by (simp add: parse_message_def am_ok_def)
  have inv1: "fix_inv Q ?p1" unfolding fix_inv_def
  proof (intro conjI allI impI)
    fix k x assume k: "pending_to_store_map ?p1 k = Some x"
    then obtain j where "x = PF_App j" "fx_seqnum (fixMsg_pool ?p j) = k" "Q (fixMsg_pool ?p j)" "j \<notin> set (i # is)"
      using assms(2,4) unfolding fix_inv_def by auto
    then show "\<exists>j. x = PF_App j \<and> fx_seqnum (fixMsg_pool ?p1 j) = k \<and> Q (fixMsg_pool ?p1 j) \<and> j \<notin> set (free_fixMsg_list ?p1)"
      by auto
  qed (use assms(2,4) in \<open>simp_all add: fix_inv_def\<close>)
  have ifree: "i \<notin> set is" using assms(2,4) by (simp add: fix_inv_def)
  consider "?e = ?s" | "?e < ?s" | "?s < ?e" by fastforce
  then show ?thesis
  proof cases
    case 1
    let ?fl2 = "advance_expected (push_fix (M_FIX m) ?fl1)"
    have "store_ready (Suc (card ?d + n)) (fl_store fl)" using assms(5) by simp
    note one = deliver_one [where Q = Q and m = m and p = ?p1 and fl = fl, OF this]
    have eq: "advance_expected ((push_fix (M_FIX m) fl)\<lparr>fl_parser := ?p1\<rparr>) = ?fl2" by (simp add: push_fix_def advance_expected_def)
    have d: "delivers Q [m] fl ?fl2" "store_ready (card ?d + n) (fl_store ?fl2)" using one 1 m(2,3) unfolding eq by simp_all
    have p2: "fl_parser ?fl2 = ?p1" by (simp add: advance_expected_def push_fix_def)
    obtain fl' ms where fl': "drain_pending ?fl2 = Some fl'" "fix_inv Q (fl_parser fl')" "delivers Q ms ?fl2 fl'"
      "store_ready (card (dom (pending_to_store_map (fl_parser fl'))) + n) (fl_store fl')"
      "free_fixMsg_list (fl_parser fl') = is" "partial_fix_msg (fl_parser fl') = partial_fix_msg ?p"
      "pending_to_store_map (fl_parser fl') (expected_seqnum (fl_seq fl')) = None"
      using drain_pending_delivers [of Q ?fl2 n] inv1 d(2) unfolding p2 by auto
    have "parse_app (am_bytes a @ r) (length (am_bytes a)) fl = Some fl'"
      using m 1 fl'(1) by (simp add: parse_app_def Let_def)
    moreover have "delivers Q (m # ms) fl fl'" using delivers_trans [OF d(1) fl'(3)] by simp
    ultimately show ?thesis using fl' m(2) pm by auto
  next
    case 2
    let ?fl' = "fl\<lparr>fl_parser := push_pending ?s (PF_App i) ?p1\<rparr>"
    let ?pp = "push_pending ?s (PF_App i) ?p1"
    have "parse_app (am_bytes a @ r) (length (am_bytes a)) fl = Some ?fl'" using m 2 by (auto simp: parse_app_def Let_def)
    moreover have "fix_inv Q ?pp" using inv1 ifree m(2,3) by (auto simp: fix_inv_def push_pending_def)
    moreover have "delivers Q [] fl ?fl'" by (auto simp: delivers_def push_pending_def)
    moreover have "card (dom (pending_to_store_map ?pp)) \<le> Suc (card ?d)"
      using fin by (auto simp: push_pending_def card_insert_if)
    then have "store_ready (card (dom (pending_to_store_map ?pp)) + n) (fl_store fl)"
      using store_ready_mono [OF assms(5)] by simp
    moreover have "pending_to_store_map ?pp ?e = None" using assms(6) 2 by (auto simp: push_pending_def)
    moreover have "pending_to_store_map ?pp ?s \<noteq> None" by (simp add: push_pending_def)
    moreover have "free_fixMsg_list ?pp = is" "partial_fix_msg ?pp = partial_fix_msg ?p" by (simp_all add: push_pending_def)
    ultimately show ?thesis using pm by (intro exI [of _ ?fl'] exI [of _ "[]"]) simp
  next
    case 3
    have "parse_app (am_bytes a @ r) (length (am_bytes a)) fl = Some ?fl1" using m 3 by (auto simp: parse_app_def Let_def)
    moreover have "delivers Q [] fl ?fl1" by (auto simp: delivers_def)
    moreover have "store_ready (card ?d + n) (fl_store fl)" using store_ready_mono [OF assms(5)] by simp
    ultimately show ?thesis using pm inv1 assms(6) 3 [unfolded not_le [symmetric]] by (intro exI [of _ ?fl1] exI [of _ "[]"]) auto
  qed
qed

subsection \<open>A packet of application messages\<close>

lemma app_packet:
  assumes "as \<noteq> []" "\<forall>a \<in> set as. am_ok a" "fix_inv Q (fl_parser fl)" "\<forall>a \<in> set as. \<forall>m. am_decoded a m \<longrightarrow> Q m"
    and "length as \<le> length (free_fixMsg_list (fl_parser fl))"
    and "store_ready (card (dom (pending_to_store_map (fl_parser fl))) + length as) (fl_store fl)"
    and "pending_to_store_map (fl_parser fl) (expected_seqnum (fl_seq fl)) = None"
    and "drop off (rx_data pkt) = concat (map am_bytes as) @ r"
    and "unat (rx_len pkt) = off + length (concat (map am_bytes as))"
    and "\<not> pb_active (partial_fix_msg (fl_parser fl))" "bodylen_state (partial_fix_msg (fl_parser fl)) \<noteq> BL_DONE"
    and "length (pb_data (partial_fix_msg (fl_parser fl))) = 1024"
  shows "\<exists>pkt' fl' ms. parseFIX_loop clock pkt off fl = Some (pkt', fl') \<and> fix_inv Q (fl_parser fl') \<and> delivers Q ms fl fl'
    \<and> pending_to_store_map (fl_parser fl') (expected_seqnum (fl_seq fl')) = None
    \<and> (\<forall>a \<in> set as. expected_seqnum (fl_seq fl) \<le> of_nat (am_seqnum a) \<longrightarrow>
         pending_to_store_map (fl_parser fl') (of_nat (am_seqnum a)) \<noteq> None \<or> of_nat (am_seqnum a) \<in> fx_seqnum ` set ms)"
  using assms
proof (induction as arbitrary: pkt off fl)
  case (Cons a as)
  let ?p = "fl_parser fl" and ?pb = "partial_fix_msg (fl_parser fl)" and ?m = "am_bytes a"
  let ?s = "of_nat (am_seqnum a) :: u32" and ?n = "length as"
  have a: "am_ok a" "\<forall>m. am_decoded a m \<longrightarrow> Q m" using Cons.prems(2,4) by simp_all
  obtain i "is" where free: "free_fixMsg_list ?p = i # is" using Cons.prems(5) by (cases "free_fixMsg_list ?p") auto
  have fm: "framed_at (am_begin a) (fields_bytes (am_body a)) (am_checksum a) (concat (map am_bytes as) @ r) pkt off ?pb"
    unfolding framed_at_def
    using a(1) Cons.prems(8-12) length_fix_message [of "am_checksum a" "am_begin a" "fields_bytes (am_body a)"]
    by (simp add: am_ok_def am_bytes_def [of a])
  have ex: "unat (rx_len pkt) - off = length ?m + length (concat (map am_bytes as))" using Cons.prems(9) by simp
  have step: "\<exists>fl' ms. parse_message (clock off) (?m @ r') (length ?m) (fl\<lparr>fl_parser := ?p\<lparr>partial_fix_msg := pb\<rparr>\<rparr>) = Some fl'
      \<and> fix_inv Q (fl_parser fl') \<and> delivers Q ms fl fl' \<and> free_fixMsg_list (fl_parser fl') = is
      \<and> partial_fix_msg (fl_parser fl') = pb
      \<and> store_ready (card (dom (pending_to_store_map (fl_parser fl'))) + ?n) (fl_store fl')
      \<and> pending_to_store_map (fl_parser fl') (expected_seqnum (fl_seq fl')) = None
      \<and> (expected_seqnum (fl_seq fl) \<le> ?s \<longrightarrow>
           pending_to_store_map (fl_parser fl') ?s \<noteq> None \<or> ?s \<in> fx_seqnum ` set ms)" for r' pb
    using app_step [OF a(1) _ a(2), of "fl\<lparr>fl_parser := ?p\<lparr>partial_fix_msg := pb\<rparr>\<rparr>" i "is" ?n "clock off" r'] Cons.prems(3,6,7) free
    by (simp add: fix_inv_def delivers_def)
  show ?case
  proof (cases "as = []")
    case True
    then obtain pb' where "nextFixMsg pkt off ?pb = Some (Some (?m @ (concat (map am_bytes as) @ r), length ?m), off, pkt\<lparr>consumed := True\<rparr>, pb')"
      using frame_exact [OF fm] ex by (auto simp: am_bytes_def [of a])
    moreover obtain fl' ms where "parse_message (clock off) (?m @ (concat (map am_bytes as) @ r)) (length ?m)
        (fl\<lparr>fl_parser := ?p\<lparr>partial_fix_msg := pb'\<rparr>\<rparr>) = Some fl'"
      "fix_inv Q (fl_parser fl')" "delivers Q ms fl fl'" "pending_to_store_map (fl_parser fl') (expected_seqnum (fl_seq fl')) = None" "expected_seqnum (fl_seq fl) \<le> ?s \<longrightarrow>
           pending_to_store_map (fl_parser fl') ?s \<noteq> None \<or> ?s \<in> fx_seqnum ` set ms" using step by blast
    ultimately show ?thesis using True by (subst parseFIX_loop.simps) auto
  next
    case False
    have "0 < length (concat (map am_bytes as))"
      using False by (cases as) (simp_all add: am_bytes_def fix_message_def)
    then obtain pb' r' where 1: "nextFixMsg pkt off ?pb = Some (Some (?m @ r', length ?m), off + length ?m, pkt\<lparr>consumed := False\<rparr>, pb')"
      and pb': "\<not> pb_active pb'" "bodylen_state pb' = BL_None" "length (pb_data pb') = 1024"
      using frame_more [OF fm] ex by (auto simp: am_bytes_def [of a])
    obtain fl1 ms where 2: "parse_message (clock off) (?m @ r') (length ?m) (fl\<lparr>fl_parser := ?p\<lparr>partial_fix_msg := pb'\<rparr>\<rparr>) = Some fl1"
      "fix_inv Q (fl_parser fl1)" "delivers Q ms fl fl1" "free_fixMsg_list (fl_parser fl1) = is" "partial_fix_msg (fl_parser fl1) = pb'"
      "store_ready (card (dom (pending_to_store_map (fl_parser fl1))) + ?n) (fl_store fl1)"
      "pending_to_store_map (fl_parser fl1) (expected_seqnum (fl_seq fl1)) = None"
      "expected_seqnum (fl_seq fl) \<le> ?s \<longrightarrow>
           pending_to_store_map (fl_parser fl1) ?s \<noteq> None \<or> ?s \<in> fx_seqnum ` set ms" using step by blast
    have loop: "parseFIX_loop clock pkt off fl = parseFIX_loop clock (pkt\<lparr>consumed := False\<rparr>) (off + length ?m) fl1"
      using 1 2(1) by (subst parseFIX_loop.simps) simp
    have "drop (off + length ?m) (rx_data pkt) = concat (map am_bytes as) @ r"
      using Cons.prems(8) by (intro drop_prefix) simp
    then obtain pkt' fl' ns where 3: "parseFIX_loop clock (pkt\<lparr>consumed := False\<rparr>) (off + length ?m) fl1 = Some (pkt', fl')"
      "fix_inv Q (fl_parser fl')" "delivers Q ns fl1 fl'" "pending_to_store_map (fl_parser fl') (expected_seqnum (fl_seq fl')) = None"
      "\<forall>b \<in> set as. expected_seqnum (fl_seq fl1) \<le> of_nat (am_seqnum b) \<longrightarrow>
         pending_to_store_map (fl_parser fl') (of_nat (am_seqnum b)) \<noteq> None \<or> of_nat (am_seqnum b) \<in> fx_seqnum ` set ns"
      using Cons.IH [of fl1 "off + length ?m" "pkt\<lparr>consumed := False\<rparr>", OF False] 2 pb' free Cons.prems by auto
    have kept: "pending_to_store_map (fl_parser fl') k \<noteq> None \<or> k \<in> fx_seqnum ` set (ms @ ns)"
      if "pending_to_store_map (fl_parser fl1) k \<noteq> None \<or> k \<in> fx_seqnum ` set ms" for k
      using that 3(3) by (auto simp: delivers_def)
    have "pending_to_store_map (fl_parser fl') (of_nat (am_seqnum b)) \<noteq> None \<or> of_nat (am_seqnum b) \<in> fx_seqnum ` set (ms @ ns)"
      if b: "b \<in> set (a # as)" "expected_seqnum (fl_seq fl) \<le> of_nat (am_seqnum b)" for b
    proof (cases "b = a")
      case True
      then show ?thesis using 2(8) b(2) kept by blast
    next
      case False
      then show ?thesis
        using b 3(5) delivered_range [OF 2(3) b(2)] kept
        by (cases "expected_seqnum (fl_seq fl1) \<le> of_nat (am_seqnum b)") (auto simp: not_le)
    qed
    then show ?thesis
      using loop 3(1,2,4) delivers_trans [OF 2(3) 3(3)] by (intro exI [of _ pkt'] exI [of _ fl'] exI [of _ "ms @ ns"]) auto
  qed
qed simp

subsection \<open>Properties\<close>

text \<open>A message that waits in the parser, and what a packet leaves waiting.\<close>

definition waits :: "Parser_FIX \<Rightarrow> FIXMessage \<Rightarrow> bool" where
  "waits p m \<longleftrightarrow> (\<exists>k i. pending_to_store_map p k = Some (PF_App i) \<and> fixMsg_pool p i = m)"

lemma decoded_seqnum: "am_ok a \<Longrightarrow> am_decoded a m \<Longrightarrow> fx_seqnum m = of_nat (am_seqnum a)"
proof -
  assume "am_ok a" "am_decoded a m"
  then obtain m0 where m0: "apply_fields tagHandlers (am_all a) m0 = Some m" by (auto simp: am_decoded_def)
  show "fx_seqnum m = of_nat (am_seqnum a)" using am_decode [OF \<open>am_ok a\<close>, of m0] m0 by auto
qed

lemma fix_inv_waits: "fix_inv Q p \<Longrightarrow> fix_inv (\<lambda>m. waits p m \<or> R m) p"
  unfolding fix_inv_def waits_def by fastforce

lemma waits_content:
  assumes "fix_inv Q p"
  shows "waits p m \<Longrightarrow> Q m \<and> pending_to_store_map p (fx_seqnum m) \<noteq> None"
    "pending_to_store_map p k \<noteq> None \<Longrightarrow> \<exists>m. waits p m \<and> fx_seqnum m = k"
  using assms unfolding fix_inv_def waits_def by fastforce+

text \<open>A number under which only one message can be there names that message.\<close>

lemma message_of_number:
  assumes "\<forall>a \<in> set as. am_ok a" "inj_on am_seqnum (set as)" "a \<in> set as" "pending_to_store_map p (of_nat (am_seqnum a)) = None"
    and "fix_inv Q p" "waits p m \<or> (\<exists>a \<in> set as. am_decoded a m)" "fx_seqnum m = of_nat (am_seqnum a)"
  shows "am_decoded a m"
proof -
  have "\<not> waits p m" using waits_content(1) [OF assms(5), of m] assms(4,7) by auto
  then obtain b where b: "b \<in> set as" "am_decoded b m" using assms(6) by blast
  then have "(of_nat (am_seqnum b) :: u32) = of_nat (am_seqnum a)" using decoded_seqnum assms(1,7) by metis
  moreover have "am_seqnum a < 2 ^ 32" "am_seqnum b < 2 ^ 32" using assms(1,3) b(1) by (simp_all add: am_ok_def)
  ultimately have "am_seqnum b = am_seqnum a" by (simp add: word_of_nat_eq_iff take_bit_nat_eq_self)
  then show ?thesis using assms(2,3) b by (auto dest: inj_onD)
qed

text \<open>C23. A packet of whole FIX application messages, in whatever order their sequence numbers come, is handled to the
  end, when all messages that wait are application messages too, there are objects and room in the store queue for all, and
  no partial message is left from before: the messages that reach the store have consecutive numbers from the expected one on, every
  one of them is the decoding of a message of this packet or was waiting, the expected number
  advances by exactly as many, and none that is due is left waiting.  Every number in the packet that is not older than
  expected has been delivered or is waiting.  When the numbers of the packet are different and none of them was waiting already,
  each message of the packet that is not older than expected has itself been delivered or is waiting; of two
  messages with the same number only the first is kept.\<close>

theorem fix_packet_in_order:
  assumes "as \<noteq> []" "\<forall>a \<in> set as. am_ok a" "fix_inv (\<lambda>_. True) (fl_parser fl)"
    and "length as \<le> length (free_fixMsg_list (fl_parser fl))"
    and "store_ready (card (dom (pending_to_store_map (fl_parser fl))) + length as) (fl_store fl)"
    and "pending_to_store_map (fl_parser fl) (expected_seqnum (fl_seq fl)) = None"
    and "rx_data pkt = concat (map am_bytes as) @ r" "unat (rx_len pkt) = length (concat (map am_bytes as))"
    and "\<not> pb_active (partial_fix_msg (fl_parser fl))" "bodylen_state (partial_fix_msg (fl_parser fl)) \<noteq> BL_DONE"
    and "length (pb_data (partial_fix_msg (fl_parser fl))) = 1024"
  shows "\<exists>pkt' fl' ms. parseFIX_loop clock pkt 0 fl = Some (pkt', fl')
    \<and> queued (fl_store fl') = queued (fl_store fl) @ map (\<lambda>m. \<lparr>mwv_msg = M_FIX m, mwv_venue = BIST\<rparr>) ms
    \<and> map fx_seqnum ms = map (\<lambda>j. expected_seqnum (fl_seq fl) + of_nat j) [0..<length ms]
    \<and> (\<forall>m \<in> set ms. waits (fl_parser fl) m \<or> (\<exists>a \<in> set as. am_decoded a m))
    \<and> expected_seqnum (fl_seq fl') = expected_seqnum (fl_seq fl) + of_nat (length ms)
    \<and> pending_to_store_map (fl_parser fl') (expected_seqnum (fl_seq fl')) = None
    \<and> (\<forall>a \<in> set as. expected_seqnum (fl_seq fl) \<le> of_nat (am_seqnum a) \<longrightarrow>
         pending_to_store_map (fl_parser fl') (of_nat (am_seqnum a)) \<noteq> None
         \<or> of_nat (am_seqnum a) \<in> fx_seqnum ` set ms)
    \<and> (inj_on am_seqnum (set as) \<and> (\<forall>a \<in> set as. pending_to_store_map (fl_parser fl) (of_nat (am_seqnum a)) = None) \<longrightarrow>
         (\<forall>a \<in> set as. expected_seqnum (fl_seq fl) \<le> of_nat (am_seqnum a) \<longrightarrow>
            (\<exists>m. am_decoded a m \<and> (m \<in> set ms \<or> waits (fl_parser fl') m))))"
proof -
  let ?p = "fl_parser fl" and ?e = "expected_seqnum (fl_seq fl)"
  let ?Q = "\<lambda>m. waits ?p m \<or> (\<exists>a \<in> set as. am_decoded a m)"
  have d: "drop 0 (rx_data pkt) = concat (map am_bytes as) @ r" "unat (rx_len pkt) = 0 + length (concat (map am_bytes as))"
    using assms(7,8) by simp_all
  have q: "\<forall>a \<in> set as. \<forall>m. am_decoded a m \<longrightarrow> ?Q m" by blast
  from app_packet [OF assms(1,2) fix_inv_waits [OF assms(3)] q assms(4-6) d assms(9-11), of clock] obtain pkt' fl' ms where
    r: "parseFIX_loop clock pkt 0 fl = Some (pkt', fl')" "fix_inv ?Q (fl_parser fl')" "delivers ?Q ms fl fl'"
      "pending_to_store_map (fl_parser fl') (expected_seqnum (fl_seq fl')) = None"
      "\<forall>a \<in> set as. ?e \<le> of_nat (am_seqnum a) \<longrightarrow>
         pending_to_store_map (fl_parser fl') (of_nat (am_seqnum a)) \<noteq> None \<or> of_nat (am_seqnum a) \<in> fx_seqnum ` set ms" by blast
  have "\<exists>m. am_decoded a m \<and> (m \<in> set ms \<or> waits (fl_parser fl') m)"
    if "inj_on am_seqnum (set as)" "\<forall>a \<in> set as. pending_to_store_map ?p (of_nat (am_seqnum a)) = None" "a \<in> set as" "?e \<le> of_nat (am_seqnum a)" for a
  proof -
    have ms: "\<forall>m \<in> set ms. ?Q m" using r(3) by (simp add: delivers_def)
    have "pending_to_store_map (fl_parser fl') (of_nat (am_seqnum a)) \<noteq> None \<or> of_nat (am_seqnum a) \<in> fx_seqnum ` set ms"
      using r(5) that(3,4) by blast
    then obtain m where m: "fx_seqnum m = of_nat (am_seqnum a)" "m \<in> set ms \<or> waits (fl_parser fl') m"
      using waits_content(2) [OF r(2)] by fastforce
    then have "?Q m" using ms waits_content(1) [OF r(2), of m] by blast
    then have "am_decoded a m" using that(2,3) m(1) by (intro message_of_number [OF assms(2) that(1,3) _ assms(3)]) simp_all
    then show ?thesis using m(2) by blast
  qed
  then have "inj_on am_seqnum (set as) \<and> (\<forall>a \<in> set as. pending_to_store_map ?p (of_nat (am_seqnum a)) = None) \<longrightarrow>
         (\<forall>a \<in> set as. ?e \<le> of_nat (am_seqnum a) \<longrightarrow> (\<exists>m. am_decoded a m \<and> (m \<in> set ms \<or> waits (fl_parser fl') m)))" by blast
  moreover note r(3) [unfolded delivers_def]
  ultimately show ?thesis using r(1,4,5) by (intro exI [of _ pkt'] exI [of _ fl'] exI [of _ ms]) (elim conjE, intro conjI)
qed

definition sample_am :: "nat \<Rightarrow> app_msg" where
  "sample_am n = \<lparr>am_begin = ''FIX.5.0'', am_type = CHR ''8'', am_seqnum = n, am_fields = [(39, ''0''), (38, ''100'')],
     am_checksum = ''000''\<rparr>"

definition sample_line :: FixLine where
  "sample_line = \<lparr>fl_parser = new_Parser_FIX (replicate 1024 (CHR 0x00)),
     fl_seq = new_Sequence_FIX 0 (\<lambda>_. empty_buffer), fl_state = new_SessionState, parser_to_fixbuilder_rx = spsc_init FQ,
     fl_store = sample_manager\<rparr>"

lemma sample_am_bytes:
  "am_bytes (sample_am 1) = ''8=FIX.5.0'' @ SOH # ''9=22'' @ SOH # ''35=8'' @ SOH # ''34=1'' @ SOH # ''39=0'' @ SOH # ''38=100'' @ SOH # ''10=000'' @ [SOH]"
  "am_bytes (sample_am 2) = ''8=FIX.5.0'' @ SOH # ''9=22'' @ SOH # ''35=8'' @ SOH # ''34=2'' @ SOH # ''39=0'' @ SOH # ''38=100'' @ SOH # ''10=000'' @ [SOH]"
  by code_simp+

lemma sample_am_ok: "am_ok (sample_am 1)" "am_ok (sample_am 2)"
proof -
  have "am_ok a" if "a = sample_am n" "n = 1 \<or> n = 2" for a n
  proof -
    have "length (am_bytes a) \<le> 1024" using that sample_am_bytes by auto
    moreover have "is_app_type (CHR ''8'')" by code_simp
    ultimately show ?thesis using that
      by (auto simp: am_ok_def sample_am_def begin_string_def is_digit_def field_ok_def MAX_TAG_def)
  qed
  then show "am_ok (sample_am 1)" "am_ok (sample_am 2)" by auto
qed

theorem fix_packet_in_order_witness:
  "\<exists>pkt' fl' ms. parseFIX_loop (\<lambda>_. 0)
      (sample_packet (am_bytes (sample_am 2) @ am_bytes (sample_am 1)) 88 [] 0) 0 sample_line = Some (pkt', fl')
    \<and> queued (fl_store fl') = map (\<lambda>m. \<lparr>mwv_msg = M_FIX m, mwv_venue = BIST\<rparr>) ms \<and> take 2 (map fx_seqnum ms) = [1, 2]"
proof -
  let ?as = "[sample_am 2, sample_am 1]"
  let ?pkt = "sample_packet (am_bytes (sample_am 2) @ am_bytes (sample_am 1)) 88 [] 0"
  have p: "free_fixMsg_list (fl_parser sample_line) = [0..<1024]" "pending_to_store_map (fl_parser sample_line) = Map.empty"
    "\<not> pb_active (partial_fix_msg (fl_parser sample_line))" "bodylen_state (partial_fix_msg (fl_parser sample_line)) = BL_None"
    "length (pb_data (partial_fix_msg (fl_parser sample_line))) = 1024" "expected_seqnum (fl_seq sample_line) = 1"
    "fl_store sample_line = sample_manager"
    by (simp_all add: sample_line_def new_Parser_FIX_def FIX_POOL_CAPACITY_def new_Sequence_FIX_def)
  have inv: "fix_inv (\<lambda>_. True) (fl_parser sample_line)" by (simp add: fix_inv_def p)
  have len: "length (am_bytes (sample_am 2) @ am_bytes (sample_am 1)) = 88" unfolding sample_am_bytes by simp
  have "\<exists>pkt' fl' ms. parseFIX_loop (\<lambda>_. 0) ?pkt 0 sample_line = Some (pkt', fl')
    \<and> queued (fl_store fl') = queued (fl_store sample_line) @ map (\<lambda>m. \<lparr>mwv_msg = M_FIX m, mwv_venue = BIST\<rparr>) ms
    \<and> map fx_seqnum ms = map (\<lambda>j. expected_seqnum (fl_seq sample_line) + of_nat j) [0..<length ms]
    \<and> (\<forall>m \<in> set ms. waits (fl_parser sample_line) m \<or> (\<exists>a \<in> set ?as. am_decoded a m))
    \<and> expected_seqnum (fl_seq fl') = expected_seqnum (fl_seq sample_line) + of_nat (length ms)
    \<and> pending_to_store_map (fl_parser fl') (expected_seqnum (fl_seq fl')) = None
    \<and> (\<forall>a \<in> set ?as. expected_seqnum (fl_seq sample_line) \<le> of_nat (am_seqnum a) \<longrightarrow>
         pending_to_store_map (fl_parser fl') (of_nat (am_seqnum a)) \<noteq> None
         \<or> of_nat (am_seqnum a) \<in> fx_seqnum ` set ms)
    \<and> (inj_on am_seqnum (set ?as) \<and> (\<forall>a \<in> set ?as. pending_to_store_map (fl_parser sample_line) (of_nat (am_seqnum a)) = None) \<longrightarrow>
         (\<forall>a \<in> set ?as. expected_seqnum (fl_seq sample_line) \<le> of_nat (am_seqnum a) \<longrightarrow>
            (\<exists>m. am_decoded a m \<and> (m \<in> set ms \<or> waits (fl_parser fl') m))))"
  proof (rule fix_packet_in_order [where r = "[]"])
    show "\<forall>a \<in> set ?as. am_ok a" using sample_am_ok by simp
    show "store_ready (card (dom (pending_to_store_map (fl_parser sample_line))) + length ?as) (fl_store sample_line)"
      using sample_store_ready [of 2] by (simp add: p numeral_2_eq_2)
  qed (use inv len in \<open>simp_all add: p sample_packet_def del: upt_rec_numeral\<close>)
  then obtain pkt' fl' ms where r: "parseFIX_loop (\<lambda>_. 0) ?pkt 0 sample_line = Some (pkt', fl')"
    "queued (fl_store fl') = map (\<lambda>m. \<lparr>mwv_msg = M_FIX m, mwv_venue = BIST\<rparr>) ms"
    "map fx_seqnum ms = map (\<lambda>j. 1 + of_nat j) [0..<length ms]"
    "expected_seqnum (fl_seq fl') = 1 + of_nat (length ms)"
    "pending_to_store_map (fl_parser fl') (expected_seqnum (fl_seq fl')) = None"
    "pending_to_store_map (fl_parser fl') 1 \<noteq> None \<or> 1 \<in> fx_seqnum ` set ms"
    "pending_to_store_map (fl_parser fl') 2 \<noteq> None \<or> 2 \<in> fx_seqnum ` set ms"
    by (auto simp: p sample_queued sample_am_def)
  have "length ms \<noteq> 0" using r(4-6) by auto
  moreover have "length ms \<noteq> 1"
  proof
    assume "length ms = 1"
    then obtain m where "ms = [m]" by (cases ms) auto
    then show False using r(3-5,7) by auto
  qed
  ultimately obtain a b ns where "ms = a # b # ns" by (cases ms; cases "tl ms") auto
  then have "take 2 (map fx_seqnum ms) = [1, 2]" using r(3) by (simp add: upt_rec)
  then show ?thesis using r(1,2) by blast
qed

text \<open>The expected number is advanced once more after it was set: behind a sequence reset to \<open>n\<close> the message \<open>n\<close> counts as
  old, and so does the first message behind a logon that resets the numbers.\<close>

lemma sequence_reset_off_by_one:
  assumes "fs_msg_type (fixSesMsg_pool (fl_parser fl) i) = T_SequenceReset"
  shows "expected_seqnum (fl_seq (advance_expected (session_message i fl)))
    = fs_new_seqnum (fixSesMsg_pool (fl_parser fl) i) + 1"
  using assms by (simp add: advance_expected_def session_message_def handle_sesMsg_def increase_expected_seq_def
      set_expected_seq_def T_SequenceReset_def T_ResendRequest_def T_Reject_def)

lemma logon_reset_off_by_one:
  assumes "fs_msg_type (fixSesMsg_pool (fl_parser fl) i) = T_Logon"
    and "fs_reset_seqnum_flag (fixSesMsg_pool (fl_parser fl) i) = 89"
  shows "expected_seqnum (fl_seq (advance_expected (session_message i fl))) = 3"
  using assms by (simp add: advance_expected_def session_message_def handle_sesMsg_def increase_expected_seq_def
      set_expected_seq_def set_next_seq_def T_Logon_def T_ResendRequest_def T_Reject_def T_SequenceReset_def
      T_TestRequest_def T_Logout_def)

text \<open>The time of the last resend request is never set again, so that the interval is measured from the start of the
  program, and three requests suffice to log out and in again, however far apart they are.\<close>

lemma resend_keeps_timestamp:
  "resend_logic now s q p = Some (q', p') \<Longrightarrow> last_resend_ts q' = last_resend_ts q"
  by (auto simp: resend_logic_def increase_resend_counter_def reset_resend_counter_def split: if_splits bind_splits)

end
