(* ===== verification/Ouch_Builders.thy ===== *)
theory Ouch_Builders
  imports Soup_Bin_Tcp
begin

text \<open>
  The OUCH messages the engine sends (src/src/protocol/builders/OUCH): the builder of BIST works on buffers
  that were filled in advance, two per type of message, the builder of NASDAQ on two buffers for all
  types.  A builder writes fields at fixed offsets; \<open>apply_writes\<close> performs such a list of writes in
  order.
\<close>

subsection \<open>Writing fields\<close>

primrec apply_writes :: "(nat \<times> string) list \<Rightarrow> string \<Rightarrow> string option" where
  "apply_writes [] buf = Some buf"
| "apply_writes (w # ws) buf = do { b \<leftarrow> write_bytes (fst w) (snd w) buf; apply_writes ws b }"

fun u8_of_tif :: "TimeInForce \<Rightarrow> u8" where
  "u8_of_tif DAY = 0"
| "u8_of_tif GTC = 1"
| "u8_of_tif IOC = 3"
| "u8_of_tif FOK = 4"
| "u8_of_tif GTD = 6"
| "u8_of_tif AT_CROSSING = 9"
| "u8_of_tif GTS = 83"
| "u8_of_tif TIF_Unknown = 99"
| "u8_of_tif (TIF_Raw b) = b"

definition side_char :: "Side \<Rightarrow> char" where
  "side_char s = (if s = Buy then CHR ''B'' else CHR ''S'')"

definition zeros :: "nat \<Rightarrow> string" where
  "zeros n = replicate n (CHR 0x00)"

definition spaces :: "nat \<Rightarrow> string" where
  "spaces n = replicate n (CHR '' '')"

definition token_bytes :: "Order \<Rightarrow> string option" where
  "token_bytes ord = read_bytes (unat (real_cl_ord_token_len ord)) (client_order_token ord)"

subsection \<open>BIST\<close>

record ExchangeClientInfo_local =
  client_account :: string
  exchange_info :: string

definition make_eci :: "string \<Rightarrow> string \<Rightarrow> ExchangeClientInfo_local" where
  "make_eci cl_acc exc_info = \<lparr>client_account = pad_right 16 cl_acc, exchange_info = pad_right 32 exc_info\<rparr>"

definition ENTER_SIZE :: nat where "ENTER_SIZE = 117"
definition REPLACE_SIZE :: nat where "REPLACE_SIZE = 125"
definition CANCEL_SIZE :: nat where "CANCEL_SIZE = 18"
definition CANCELID_SIZE :: nat where "CANCELID_SIZE = 17"

text \<open>The buffers as their constructors leave them.\<close>

definition Buffer_OBT_Enter :: "string option" where
  "Buffer_OBT_Enter = apply_writes
     [(3, ''O''), (36, zeros 1), (100, bytes_u64_be 0), (108, [CHR 0x01]), (109, zeros 3), (115, zeros 2)]
     (spaces ENTER_SIZE)"

definition Buffer_OBT_Replace :: "string option" where
  "Buffer_OBT_Replace = apply_writes
     [(3, ''U''), (44, zeros 1), (108, bytes_u64_be 0), (116, [CHR 0x01]), (117, zeros 8)] (spaces REPLACE_SIZE)"

definition Buffer_OBT_Cancel :: "string option" where
  "Buffer_OBT_Cancel = apply_writes [(3, ''X'')] (spaces CANCEL_SIZE)"

definition Buffer_OBT_CancelID :: "string option" where
  "Buffer_OBT_CancelID = apply_writes [(3, ''Y'')] (spaces CANCELID_SIZE)"

record Builder_OUCH_BIST =
  enter_messages :: "string list"
  replace_messages :: "string list"
  cancel_messages :: "string list"
  cancelid_messages :: "string list"
  next_enter :: u64
  next_replace :: u64
  next_cancel :: u64
  next_cancelid :: u64
  eci_local :: "ExchangeClientInfo_local list"

text \<open>The message starts behind the three bytes of the SoupBinTCP header, so every offset of the source is
  moved by three.\<close>

definition bist_buildEnterOrder :: "Builder_OUCH_BIST \<Rightarrow> Order \<Rightarrow> string \<Rightarrow> string option" where
  "bist_buildEnterOrder b ord buf = do {
     tok \<leftarrow> token_bytes ord;
     eci \<leftarrow> nth_opt (eci_local b) (unat (account_index ord));
     apply_writes
       [(3 + 1, tok), (3 + 15, bytes_u32_be (instrument_id ord)), (3 + 19, [side_char (side ord)]),
        (3 + 20, bytes_u64_be (ucast (quantity ord))), (3 + 28, bytes_u32_be (ucast (price ord))),
        (3 + 32, [char_of_u8 (u8_of_tif (time_in_force ord))]), (3 + 34, client_account eci),
        (3 + 65, exchange_info eci)] buf }"

definition bist_buildReplaceOrder :: "Builder_OUCH_BIST \<Rightarrow> Order \<Rightarrow> string \<Rightarrow> string option" where
  "bist_buildReplaceOrder b ord buf = do {
     old \<leftarrow> read_bytes 14 (fix_org_order_id ord);
     tok \<leftarrow> token_bytes ord;
     eci \<leftarrow> nth_opt (eci_local b) (unat (account_index ord));
     apply_writes
       [(3 + 1, old), (3 + 15, tok), (3 + 29, bytes_u64_be (ucast (quantity ord))),
        (3 + 37, bytes_u32_be (ucast (price ord))), (3 + 42, client_account eci), (3 + 73, exchange_info eci),
        (3 + 105, bytes_u64_be 0), (3 + 113, [CHR 0x01])] buf }"

definition bist_buildCancelOrder :: "Order \<Rightarrow> string \<Rightarrow> string option" where
  "bist_buildCancelOrder ord buf = do {
     tok \<leftarrow> read_bytes 14 (client_order_token ord);
     apply_writes [(3 + 1, tok)] buf }"

definition bist_buildCancelByOrderID :: "Order \<Rightarrow> string \<Rightarrow> string option" where
  "bist_buildCancelByOrderID ord buf =
     apply_writes [(3 + 1, bytes_u32_be (instrument_id ord)), (3 + 5, [side_char (side ord)]),
       (3 + 6, bytes_u64_be (order_id ord))] buf"

text \<open>The result is the finished message and its length; an unknown type of message dereferences a null pointer.\<close>

definition bist_build :: "Order \<Rightarrow> Builder_OUCH_BIST \<Rightarrow> ((string \<times> u16) \<times> Builder_OUCH_BIST) option" where
  "bist_build ord b =
     (if message_type ord = 0 then do {
        let i = unat (next_enter b AND 1);
        buf \<leftarrow> nth_opt (enter_messages b) i;
        b1 \<leftarrow> WriteSBTHeaderForDataPacket (of_nat ENTER_SIZE) buf;
        b2 \<leftarrow> bist_buildEnterOrder b ord b1;
        Some ((b2, of_nat ENTER_SIZE), b\<lparr>enter_messages := (enter_messages b)[i := b2], next_enter := next_enter b + 1\<rparr>) }
      else if message_type ord = 1 then do {
        let i = unat (next_replace b AND 1);
        buf \<leftarrow> nth_opt (replace_messages b) i;
        b1 \<leftarrow> WriteSBTHeaderForDataPacket (of_nat REPLACE_SIZE) buf;
        b2 \<leftarrow> bist_buildReplaceOrder b ord b1;
        Some ((b2, of_nat REPLACE_SIZE), b\<lparr>replace_messages := (replace_messages b)[i := b2], next_replace := next_replace b + 1\<rparr>) }
      else if message_type ord = 2 then do {
        let i = unat (next_cancel b AND 1);
        buf \<leftarrow> nth_opt (cancel_messages b) i;
        b1 \<leftarrow> WriteSBTHeaderForDataPacket (of_nat CANCEL_SIZE) buf;
        b2 \<leftarrow> bist_buildCancelOrder ord b1;
        Some ((b2, of_nat CANCEL_SIZE), b\<lparr>cancel_messages := (cancel_messages b)[i := b2], next_cancel := next_cancel b + 1\<rparr>) }
      else if message_type ord = 3 then do {
        let i = unat (next_cancelid b AND 1);
        buf \<leftarrow> nth_opt (cancelid_messages b) i;
        b1 \<leftarrow> WriteSBTHeaderForDataPacket (of_nat CANCELID_SIZE) buf;
        b2 \<leftarrow> bist_buildCancelByOrderID ord b1;
        Some ((b2, of_nat CANCELID_SIZE), b\<lparr>cancelid_messages := (cancelid_messages b)[i := b2], next_cancelid := next_cancelid b + 1\<rparr>) }
      else None)"

definition initialize_exc_info :: "SessionManager \<Rightarrow> ExchangeClientInfo_local list option" where
  "initialize_exc_info sm = do {
     i \<leftarrow> getSessionIndex BIST OUCH 0 sm;
     cx \<leftarrow> getSessionContext i sm;
     auth \<leftarrow> getSessionAuth (unat (cx_tcp_index cx)) sm;
     u \<leftarrow> auth_sbt auth;
     Some [make_eci (eci_client_account u) (eci_exchange_info u)] }"

definition new_Builder_OUCH_BIST :: "SessionManager \<Rightarrow> Builder_OUCH_BIST option" where
  "new_Builder_OUCH_BIST sm = do {
     eci \<leftarrow> initialize_exc_info sm;
     e \<leftarrow> Buffer_OBT_Enter;
     r \<leftarrow> Buffer_OBT_Replace;
     c \<leftarrow> Buffer_OBT_Cancel;
     y \<leftarrow> Buffer_OBT_CancelID;
     Some \<lparr>enter_messages = [e, e], replace_messages = [r, r], cancel_messages = [c, c], cancelid_messages = [y, y],
       next_enter = 0, next_replace = 0, next_cancel = 0, next_cancelid = 0, eci_local = eci\<rparr> }"

subsection \<open>NASDAQ\<close>

record Builder_OUCH_NASDAQ =
  onq_messages :: "string list"
  next_buffer_slot :: u64
  onq_user_ref_num :: u32

definition new_Builder_OUCH_NASDAQ :: Builder_OUCH_NASDAQ where
  "new_Builder_OUCH_NASDAQ = \<lparr>onq_messages = [spaces 126, spaces 126], next_buffer_slot = 0, onq_user_ref_num = 1\<rparr>"

text \<open>Each builder gives the buffer, the order and the next reference number.\<close>

definition nasdaq_buildEnterOrder :: "Order \<Rightarrow> u32 \<Rightarrow> string \<Rightarrow> (string \<times> Order \<times> u32) option" where
  "nasdaq_buildEnterOrder ord refnum buf = do {
     s \<leftarrow> read_bytes (unat (real_symbol_len ord)) (symbol ord);
     tok \<leftarrow> token_bytes ord;
     b \<leftarrow> apply_writes
       [(3, ''O''), (3 + 1, bytes_u32_be refnum), (3 + 5, [side_char (side ord)]), (3 + 6, bytes_u32_be (quantity ord)),
        (3 + 10, s), (3 + 18, bytes_u64_be (price ord)), (3 + 26, [char_of_u8 (u8_of_tif (time_in_force ord))]),
        (3 + 27, ''Y''), (3 + 28, ''A''), (3 + 29, ''N''), (3 + 30, ''N''), (3 + 31, tok), (3 + 45, bytes_u16_be 0)] buf;
     Some (b, ord\<lparr>user_ref_num := refnum\<rparr>, refnum + 1) }"

definition nasdaq_buildReplaceOrder :: "Order \<Rightarrow> u32 \<Rightarrow> string \<Rightarrow> (string \<times> Order \<times> u32) option" where
  "nasdaq_buildReplaceOrder ord refnum buf = do {
     tok \<leftarrow> token_bytes ord;
     b \<leftarrow> apply_writes
       [(3, ''U''), (3 + 1, bytes_u32_be (pre_user_ref_num ord)), (3 + 5, bytes_u32_be refnum),
        (3 + 9, bytes_u32_be (quantity ord)), (3 + 13, bytes_u64_be (price ord)),
        (3 + 21, [char_of_u8 (u8_of_tif (time_in_force ord))]), (3 + 22, ''Y''), (3 + 23, ''N''), (3 + 24, tok),
        (3 + 38, bytes_u16_be 0)] buf;
     Some (b, ord\<lparr>pre_user_ref_num := user_ref_num ord, user_ref_num := refnum\<rparr>, refnum + 1) }"

definition nasdaq_buildCancelOrder :: "Order \<Rightarrow> u32 \<Rightarrow> string \<Rightarrow> (string \<times> Order \<times> u32) option" where
  "nasdaq_buildCancelOrder ord refnum buf = do {
     b \<leftarrow> apply_writes [(3, ''X''), (3 + 1, bytes_u32_be refnum), (3 + 5, bytes_u32_be (quantity ord)),
       (3 + 9, bytes_u16_be 0)] buf;
     Some (b, ord, refnum) }"

definition nasdaq_buildModifyOrder :: "Order \<Rightarrow> u32 \<Rightarrow> string \<Rightarrow> (string \<times> Order \<times> u32) option" where
  "nasdaq_buildModifyOrder ord refnum buf = do {
     b \<leftarrow> apply_writes [(3, ''M''), (3 + 1, bytes_u32_be refnum), (3 + 5, [side_char (side ord)]),
       (3 + 6, bytes_u32_be (quantity ord)), (3 + 10, bytes_u16_be 0)] buf;
     Some (b, ord, refnum) }"

definition nasdaq_buildAccountQueryRequest :: "Order \<Rightarrow> u32 \<Rightarrow> string \<Rightarrow> (string \<times> Order \<times> u32) option" where
  "nasdaq_buildAccountQueryRequest ord refnum buf = do {
     b \<leftarrow> apply_writes [(3, ''Q''), (3 + 1, bytes_u16_be 0)] buf;
     Some (b, ord, refnum) }"

definition onq_msg_sizes :: "u16 list" where "onq_msg_sizes = [50, 43, 14, 15, 6]"

definition nasdaq_build ::
  "Order \<Rightarrow> Builder_OUCH_NASDAQ \<Rightarrow> ((string \<times> u16) \<times> Order \<times> Builder_OUCH_NASDAQ) option" where
  "nasdaq_build ord b = do {
     let i = unat (next_buffer_slot b AND 1);
     let t = message_type ord;
     buf \<leftarrow> nth_opt (onq_messages b) i;
     len \<leftarrow> nth_opt onq_msg_sizes (unat t);
     b1 \<leftarrow> WriteSBTHeaderForDataPacket len buf;
     (b2, ord1, refnum) \<leftarrow>
       (if t = 0 then nasdaq_buildEnterOrder ord (onq_user_ref_num b) b1
        else if t = 1 then nasdaq_buildReplaceOrder ord (onq_user_ref_num b) b1
        else if t = 2 then nasdaq_buildCancelOrder ord (onq_user_ref_num b) b1
        else if t = 3 then nasdaq_buildModifyOrder ord (onq_user_ref_num b) b1
        else nasdaq_buildAccountQueryRequest ord (onq_user_ref_num b) b1);
     Some ((b2, len), ord1, b\<lparr>onq_messages := (onq_messages b)[i := b2], next_buffer_slot := next_buffer_slot b + 1,
                               onq_user_ref_num := refnum\<rparr>) }"

subsection \<open>Lemmas on writes\<close>

text \<open>Writes in ascending order that do not overlap.\<close>

definition ordered_writes :: "(nat \<times> string) list \<Rightarrow> bool" where
  "ordered_writes ws \<longleftrightarrow> sorted_wrt (\<lambda>x y. fst x + length (snd x) \<le> fst y) ws"

definition writes_fit :: "nat \<Rightarrow> (nat \<times> string) list \<Rightarrow> bool" where
  "writes_fit n ws \<longleftrightarrow> (\<forall>w \<in> set ws. fst w + length (snd w) \<le> n)"

definition covered :: "(nat \<times> string) list \<Rightarrow> nat \<Rightarrow> bool" where
  "covered ws i \<longleftrightarrow> (\<exists>w \<in> set ws. fst w \<le> i \<and> i < fst w + length (snd w))"

lemma apply_writes_defined:
  "writes_fit (length buf) ws \<Longrightarrow> \<exists>b. apply_writes ws buf = Some b \<and> length b = length buf"
proof (induction ws arbitrary: buf)
  case (Cons w ws)
  obtain b where b: "write_bytes (fst w) (snd w) buf = Some b"
    using Cons.prems by (auto simp: writes_fit_def write_bytes_def)
  then have "length b = length buf" using write_bytes_spec by blast
  then show ?case using Cons.IH [of b] Cons.prems b by (simp add: writes_fit_def)
qed simp

lemma apply_writes_keeps:
  assumes "apply_writes ws buf = Some b"
  shows "length b = length buf" "i < length buf \<Longrightarrow> \<not> covered ws i \<Longrightarrow> b ! i = buf ! i"
proof -
  have "length b = length buf \<and> (\<forall>i < length buf. \<not> covered ws i \<longrightarrow> b ! i = buf ! i)"
    using assms
  proof (induction ws arbitrary: buf)
    case (Cons w ws)
    obtain b1 where b1: "write_bytes (fst w) (snd w) buf = Some b1" "apply_writes ws b1 = Some b"
      using Cons.prems by (auto split: bind_splits)
    have "length b1 = length buf" using write_bytes_spec [OF b1(1)] by blast
    moreover have "b1 ! i = buf ! i" if "i < length buf" "\<not> covered (w # ws) i" for i
      using write_bytes_outside [OF b1(1)] that by (auto simp: covered_def)
    ultimately show ?case using Cons.IH [OF b1(2)] by (simp add: covered_def)
  qed simp
  then show "length b = length buf" "i < length buf \<Longrightarrow> \<not> covered ws i \<Longrightarrow> b ! i = buf ! i" by simp_all
qed

lemma write_then_keep:
  assumes "length b = length b1" "drop off b1 = bs @ r" "\<And>i. off \<le> i \<Longrightarrow> i < off + length bs \<Longrightarrow> b ! i = b1 ! i"
    and "off + length bs \<le> length b1"
  shows "drop off b = bs @ drop (off + length bs) b"
proof (rule nth_equalityI)
  show "length (drop off b) = length (bs @ drop (off + length bs) b)" using assms(1,4) by simp
  fix j assume j: "j < length (drop off b)"
  show "drop off b ! j = (bs @ drop (off + length bs) b) ! j"
  proof (cases "j < length bs")
    case True
    have "drop off b1 ! j = b1 ! (off + j)" using assms(4) True by (intro nth_drop) simp
    moreover have "drop off b ! j = b ! (off + j)" using assms(1,4) True by (intro nth_drop) simp
    moreover have "b ! (off + j) = b1 ! (off + j)" using assms(3) True by simp
    ultimately have "drop off b ! j = (bs @ r) ! j" unfolding assms(2) by simp
    then show ?thesis using True by (simp add: nth_append)
  next
    case False
    then show ?thesis using assms(1,4) j by (simp add: nth_append algebra_simps)
  qed
qed

lemma apply_writes_field:
  assumes "apply_writes ws buf = Some b" "ordered_writes ws" "(off, bs) \<in> set ws"
  shows "drop off b = bs @ drop (off + length bs) b"
  using assms
proof (induction ws arbitrary: buf)
  case (Cons w ws)
  obtain b1 where b1: "write_bytes (fst w) (snd w) buf = Some b1" "apply_writes ws b1 = Some b"
    using Cons.prems by (auto split: bind_splits)
  show ?case
  proof (cases "w = (off, bs)")
    case True
    note s = write_bytes_spec [OF b1(1)]
    note k = apply_writes_keeps [OF b1(2)]
    have fit: "off + length bs \<le> length b1" using b1(1) s True by (auto simp: write_bytes_def split: if_splits)
    have "b ! i = b1 ! i" if "off \<le> i" "i < off + length bs" for i
      using Cons.prems(2) True that fit by (intro k(2)) (auto simp: ordered_writes_def covered_def)
    then show ?thesis using write_then_keep [OF k(1) _ _ fit, of "drop (off + length bs) buf"] s True by simp
  next
    case False
    then show ?thesis using Cons.IH [OF b1(2)] Cons.prems(2,3) by (simp add: ordered_writes_def)
  qed
qed simp

text \<open>A message is its header and its fields.\<close>

lemma header_writes:
  "Option.bind (WriteSBTHeaderForDataPacket n buf) (apply_writes ws)
     = apply_writes ((0, bytes_u16_be (n - 2)) # (2, ''U'') # ws) buf"
  by (simp add: WriteSBTHeaderForDataPacket_def write_u16_be_def)

lemma fields_read:
  assumes "apply_writes ws buf = Some b" "ordered_writes ws"
  shows "(off, bytes_u16_be v) \<in> set ws \<Longrightarrow> read_u16_be (drop off b) = Some v"
    "(off, bytes_u32_be w) \<in> set ws \<Longrightarrow> read_u32_be (drop off b) = Some w"
    "(off, bytes_u64_be x) \<in> set ws \<Longrightarrow> read_u64_be (drop off b) = Some x"
    "(off, bs) \<in> set ws \<Longrightarrow> length bs = n \<Longrightarrow> read_bytes n (drop off b) = Some bs"
    "(off, [c]) \<in> set ws \<Longrightarrow> read_char (drop off b) = Some c"
  using apply_writes_field [OF assms]
  by (metis read_bytes_be(1), metis read_bytes_be(2), metis read_bytes_be(4), metis read_front(5),
      metis append_Cons read_front(3))

subsection \<open>Prepared buffers\<close>

text \<open>A buffer in use agrees with the prepared one at the places no build writes to.\<close>

definition prefilled :: "nat list \<Rightarrow> string option \<Rightarrow> string \<Rightarrow> bool" where
  "prefilled fixed template buf \<longleftrightarrow> (case template of None \<Rightarrow> False
     | Some t \<Rightarrow> length buf = length t \<and> list_all (\<lambda>i. i < length t \<and> buf ! i = t ! i) fixed)"

definition uncovered :: "(nat \<times> string) list \<Rightarrow> nat list \<Rightarrow> bool" where
  "uncovered ws fixed \<longleftrightarrow> list_all (\<lambda>i. list_all (\<lambda>w. i < fst w \<or> fst w + length (snd w) \<le> i) ws) fixed"

lemma uncoveredD: "uncovered ws fixed \<Longrightarrow> i \<in> set fixed \<Longrightarrow> \<not> covered ws i"
  by (fastforce simp: uncovered_def covered_def list_all_iff)

lemma prefilled_write:
  assumes "prefilled fixed template buf" "writes_fit (length buf) ws" "uncovered ws fixed"
  obtains m where "apply_writes ws buf = Some m" "prefilled fixed template m" "length m = length buf"
proof -
  obtain m where m: "apply_writes ws buf = Some m" "length m = length buf"
    using apply_writes_defined [OF assms(2)] by blast
  obtain t where t: "template = Some t" using assms(1) by (cases template) (auto simp: prefilled_def)
  have "m ! i = buf ! i" if "i \<in> set fixed" for i
    using apply_writes_keeps(2) [OF m(1)] uncoveredD [OF assms(3) that] assms(1) that t
    by (auto simp: prefilled_def list_all_iff)
  then have "prefilled fixed template m"
    using assms(1) m(2) t by (simp add: prefilled_def list_all_iff)
  then show thesis using that m by blast
qed

definition enter_fixed :: "nat list" where "enter_fixed = [3, 36] @ [53..<68] @ [100..<117]"
definition replace_fixed :: "nat list" where "replace_fixed = [3, 44] @ [61..<76] @ [117..<125]"

definition bist_ready :: "Builder_OUCH_BIST \<Rightarrow> bool" where
  "bist_ready b \<longleftrightarrow>
     length (enter_messages b) = 2 \<and> list_all (prefilled enter_fixed Buffer_OBT_Enter) (enter_messages b) \<and>
     length (replace_messages b) = 2 \<and> list_all (prefilled replace_fixed Buffer_OBT_Replace) (replace_messages b) \<and>
     length (cancel_messages b) = 2 \<and> list_all (prefilled [3] Buffer_OBT_Cancel) (cancel_messages b) \<and>
     length (cancelid_messages b) = 2 \<and> list_all (prefilled [3] Buffer_OBT_CancelID) (cancelid_messages b) \<and>
     list_all (\<lambda>e. length (client_account e) = 16 \<and> length (exchange_info e) = 32) (eci_local b)"

text \<open>A text shorter than its field leaves the rest of the field as the buffer held it.  The token fields of the
  two buffers of a type are \<open>fst\<close>, the one that is used next, and \<open>snd\<close>; the pairs for entering and for
  replacing orders follow the buffers from message to message.\<close>

definition field_over :: "string \<Rightarrow> string \<Rightarrow> string" where
  "field_over s old = s @ drop (length s) old"

definition order_token :: "Order \<Rightarrow> string" where
  "order_token ord = take (unat (real_cl_ord_token_len ord)) (client_order_token ord)"

definition token_field :: "Order \<Rightarrow> (string \<times> string) \<times> (string \<times> string) \<Rightarrow> string" where
  "token_field ord fs = field_over (order_token ord) (if message_type ord = 0 then fst (fst fs) else fst (snd fs))"

definition next_fields :: "Order \<Rightarrow> (string \<times> string) \<times> (string \<times> string) \<Rightarrow> (string \<times> string) \<times> (string \<times> string)" where
  "next_fields ord fs =
     (if message_type ord = 0 then ((snd (fst fs), token_field ord fs), snd fs)
      else if message_type ord = 1 then (fst fs, (snd (snd fs), token_field ord fs))
      else fs)"

primrec token_fields :: "Order list \<Rightarrow> (string \<times> string) \<times> (string \<times> string) \<Rightarrow> string list" where
  "token_fields [] fs = []"
| "token_fields (ord # ords) fs = token_field ord fs # token_fields ords (next_fields ord fs)"

text \<open>The layout of the four messages behind the SoupBinTCP header, byte by byte: \<open>f\<close> is the token field.  The fields
  and offsets are those of src/generated/GeneratedOUCHMessages_BIST.h, with the type of a replacement
  as the builder writes it ('U', where the generated header has 'u').\<close>

definition enter_layout :: "Order \<Rightarrow> ExchangeClientInfo_local \<Rightarrow> string \<Rightarrow> string \<Rightarrow> bool" where
  "enter_layout ord eci f m \<longleftrightarrow>
     length m = 117 \<and> read_char (drop 3 m) = Some (CHR ''O'') \<and>
     read_bytes 14 (drop 4 m) = Some f \<and>
     read_u32_be (drop 18 m) = Some (instrument_id ord) \<and>
     read_char (drop 22 m) = Some (side_char (side ord)) \<and>
     read_u64_be (drop 23 m) = Some (ucast (quantity ord)) \<and>
     read_i32_be (drop 31 m) = Some (ucast (price ord)) \<and>
     read_u8 (drop 35 m) = Some (u8_of_tif (time_in_force ord)) \<and> read_u8 (drop 36 m) = Some 0 \<and>
     read_bytes 16 (drop 37 m) = Some (client_account eci) \<and> read_bytes 15 (drop 53 m) = Some (spaces 15) \<and>
     read_bytes 32 (drop 68 m) = Some (exchange_info eci) \<and> read_u64_be (drop 100 m) = Some 0 \<and>
     read_u8 (drop 108 m) = Some 1 \<and> read_u8 (drop 109 m) = Some 0 \<and> read_u8 (drop 110 m) = Some 0 \<and>
     read_u8 (drop 111 m) = Some 0 \<and> read_bytes 3 (drop 112 m) = Some (spaces 3) \<and> read_bytes 2 (drop 115 m) = Some (zeros 2)"

definition replace_layout :: "Order \<Rightarrow> ExchangeClientInfo_local \<Rightarrow> string \<Rightarrow> string \<Rightarrow> bool" where
  "replace_layout ord eci f m \<longleftrightarrow>
     length m = 125 \<and> read_char (drop 3 m) = Some (CHR ''U'') \<and>
     read_bytes 14 (drop 4 m) = read_bytes 14 (fix_org_order_id ord) \<and>
     read_bytes 14 (drop 18 m) = Some f \<and>
     read_u64_be (drop 32 m) = Some (ucast (quantity ord)) \<and>
     read_i32_be (drop 40 m) = Some (ucast (price ord)) \<and> read_u8 (drop 44 m) = Some 0 \<and>
     read_bytes 16 (drop 45 m) = Some (client_account eci) \<and> read_bytes 15 (drop 61 m) = Some (spaces 15) \<and>
     read_bytes 32 (drop 76 m) = Some (exchange_info eci) \<and> read_u64_be (drop 108 m) = Some 0 \<and>
     read_u8 (drop 116 m) = Some 1 \<and> read_bytes 8 (drop 117 m) = Some (zeros 8)"

definition cancel_layout :: "Order \<Rightarrow> string \<Rightarrow> bool" where
  "cancel_layout ord m \<longleftrightarrow>
     length m = 18 \<and> read_char (drop 3 m) = Some (CHR ''X'') \<and>
     read_bytes 14 (drop 4 m) = read_bytes 14 (client_order_token ord)"

definition cancelid_layout :: "Order \<Rightarrow> string \<Rightarrow> bool" where
  "cancelid_layout ord m \<longleftrightarrow>
     length m = 17 \<and> read_char (drop 3 m) = Some (CHR ''Y'') \<and>
     read_u32_be (drop 4 m) = Some (instrument_id ord) \<and> read_char (drop 8 m) = Some (side_char (side ord)) \<and>
     read_u64_be (drop 9 m) = Some (order_id ord)"

text \<open>The header of a packet of unsequenced data (type 'U'), the only data packets a client sends.\<close>

definition sbt_data_header :: "u16 \<Rightarrow> string \<Rightarrow> bool" where
  "sbt_data_header n m \<longleftrightarrow> length m = unat n \<and> read_u16_be m = Some (n - 2) \<and> read_char (drop 2 m) = Some (CHR ''U'')"

lemma templates:
  "Buffer_OBT_Enter = Some (spaces 3 @ ''O'' @ spaces 32 @ zeros 1 @ spaces 63 @ zeros 8 @ [CHR 0x01] @ zeros 3 @ spaces 3 @ zeros 2)"
  "Buffer_OBT_Replace = Some (spaces 3 @ ''U'' @ spaces 40 @ zeros 1 @ spaces 63 @ zeros 8 @ [CHR 0x01] @ zeros 8)"
  "Buffer_OBT_Cancel = Some (spaces 3 @ ''X'' @ spaces 14)"
  "Buffer_OBT_CancelID = Some (spaces 3 @ ''Y'' @ spaces 13)"
  by code_simp+

text \<open>Bytes that were never written are read as they are in the prepared buffer.\<close>

lemma prefilled_read:
  assumes "prefilled fixed (Some t) m" "list_all (\<lambda>i. i \<in> set fixed) [off..<off + n]"
  shows "read_bytes n (drop off m) = read_bytes n (drop off t)"
proof -
  have l: "length m = length t" and eq: "i \<in> set fixed \<Longrightarrow> m ! i = t ! i \<and> i < length t" for i
    using assms(1) by (auto simp: prefilled_def list_all_iff)
  have "take n (drop off m) = take n (drop off t)"
    using l eq assms(2) by (intro nth_equalityI) (auto simp: list_all_iff)
  then show ?thesis using l by (simp add: read_bytes_def)
qed

lemma read_byte:
  assumes "read_bytes (Suc 0) p = Some [c]"
  shows "read_char p = Some c" "read_u8 p = Some (u8_of_char c)"
  using assms by (cases p; simp add: read_bytes_def read_char_def read_u8_def nth_opt_def split: if_splits)+

lemma read_bytes_number:
  assumes "read_bytes 8 p = Some (bytes_u64_be v)"
  shows "read_u64_be p = Some v"
proof -
  have "bytes_u64_be v = take 8 p" using assms by (simp add: read_bytes_def split: if_splits)
  then have "p = bytes_u64_be v @ drop 8 p" by simp
  then show ?thesis using read_bytes_be(4) [of v "drop 8 p"] by simp
qed

lemma writes_present:
  assumes "apply_writes ws buf = Some m" "ordered_writes ws"
  shows "list_all (\<lambda>w. drop (fst w) m = snd w @ drop (fst w + length (snd w)) m) ws"
  using apply_writes_field [OF assms] by (auto simp: list_all_iff)

lemma field_written_over:
  fixes ws :: "(nat \<times> string) list"
  assumes "apply_writes ws buf = Some m" "ordered_writes ws" "(off, s) \<in> set ws" "length s \<le> n" "off + n \<le> length buf"
    and "list_all (\<lambda>w. w = (off, s) \<or> fst w + length (snd w) \<le> off \<or> off + n \<le> fst w) ws"
  shows "read_bytes n (drop off m) = Some (field_over s (take n (drop off buf)))"
proof -
  note k = apply_writes_keeps [OF assms(1)]
  have s: "drop off m = s @ drop (off + length s) m" by (rule apply_writes_field [OF assms(1-3)])
  have "\<not> covered ws i" if "off + length s \<le> i" "i < off + n" for i
    using assms(6) that by (fastforce simp: covered_def list_all_iff)
  then have "m ! i = buf ! i" if "off + length s \<le> i" "i < off + n" for i
    using that k(2) assms(5) by simp
  then have "take (n - length s) (drop (off + length s) m) = take (n - length s) (drop (off + length s) buf)"
    using assms(4,5) k(1) by (intro nth_equalityI) simp_all
  moreover have "take n (drop off m) = s @ take (n - length s) (drop (off + length s) m)"
    using assms(4) by (subst s) simp
  ultimately show ?thesis
    using assms(4,5) k(1) by (simp add: read_bytes_def field_over_def drop_take add.commute)
qed

lemma header_in_writes:
  assumes "apply_writes ((0, bytes_u16_be (n - 2)) # (2, ''U'') # ws) buf = Some m"
    and "ordered_writes ((0, bytes_u16_be (n - 2)) # (2, ''U'') # ws)" "length buf = unat n"
  shows "sbt_data_header n m"
  using fields_read(1) [OF assms(1,2), of 0 "n - 2"] fields_read(5) [OF assms(1,2), of 2 "CHR ''U''"]
    apply_writes_keeps(1) [OF assms(1)] assms(3) by (simp add: sbt_data_header_def)

lemma token_bytes_length: "token_bytes ord = Some tok \<Longrightarrow> length tok = unat (real_cl_ord_token_len ord)"
  by (auto simp: token_bytes_def read_bytes_def split: if_splits)

lemma token_bytes_defined:
  assumes "length (client_order_token ord) = ORDER_IDs_SIZE" "real_cl_ord_token_len ord \<le> 14"
  obtains tok where "token_bytes ord = Some tok" "length tok = unat (real_cl_ord_token_len ord)" "length tok \<le> 14"
    "tok = order_token ord"
proof -
  have "unat (real_cl_ord_token_len ord) \<le> 14" using assms(2) by (simp add: word_le_nat_alt)
  then show thesis using that assms(1) by (simp add: token_bytes_def read_bytes_def ORDER_IDs_SIZE_def order_token_def)
qed

lemmas write_layout = ordered_writes_def writes_fit_def uncovered_def length_bytes zeros_def spaces_def

text \<open>The constants of the prepared buffers.\<close>

lemma bytes_zero: "bytes_u64_be 0 = zeros 8"
  by code_simp

lemma prefilled_constant:
  assumes "prefilled fixed template m" "template = Some t" "list_all (\<lambda>i. i \<in> set fixed) [off..<off + n]"
    and "take n (drop off t) = c" "length c = n"
  shows "read_bytes n (drop off m) = Some c"
proof -
  have "min (length (drop off t)) n = n" using assms(4,5) length_take [of n "drop off t"] by simp
  then have "n \<le> length (drop off t)" by simp
  then show ?thesis
    using prefilled_read [OF assms(1) [unfolded assms(2)] assms(3)] unfolding read_bytes_def assms(4) by simp
qed

lemma u8_of_constants: "u8_of_char (CHR 0x00) = 0" "u8_of_char (CHR 0x01) = 1"
  by code_simp+

lemma enter_constants:
  assumes "prefilled enter_fixed Buffer_OBT_Enter m"
  shows "read_char (drop 3 m) = Some (CHR ''O'')" "read_u8 (drop 36 m) = Some 0" "read_u8 (drop 108 m) = Some 1"
    "read_bytes 15 (drop 53 m) = Some (spaces 15)" "read_u64_be (drop 100 m) = Some 0"
    "read_u8 (drop 109 m) = Some 0" "read_u8 (drop 110 m) = Some 0" "read_u8 (drop 111 m) = Some 0"
    "read_bytes 3 (drop 112 m) = Some (spaces 3)" "read_bytes 2 (drop 115 m) = Some (zeros 2)"
proof -
  note c = prefilled_constant [OF assms templates(1)]
  have 1: "read_bytes 1 (drop 3 m) = Some ''O''" "read_bytes 1 (drop 36 m) = Some (zeros 1)"
    "read_bytes 1 (drop 108 m) = Some [CHR 0x01]" "read_bytes 8 (drop 100 m) = Some (zeros 8)"
    "read_bytes 1 (drop 109 m) = Some (zeros 1)" "read_bytes 1 (drop 110 m) = Some (zeros 1)"
    "read_bytes 1 (drop 111 m) = Some (zeros 1)"
    by ((rule c; code_simp)+)
  show "read_bytes 15 (drop 53 m) = Some (spaces 15)" "read_bytes 3 (drop 112 m) = Some (spaces 3)"
    "read_bytes 2 (drop 115 m) = Some (zeros 2)" by ((rule c; code_simp)+)
  show "read_u64_be (drop 100 m) = Some 0" using 1(4) by (simp add: read_bytes_number bytes_zero)
  show "read_char (drop 3 m) = Some (CHR ''O'')" "read_u8 (drop 36 m) = Some 0" "read_u8 (drop 108 m) = Some 1"
    "read_u8 (drop 109 m) = Some 0" "read_u8 (drop 110 m) = Some 0" "read_u8 (drop 111 m) = Some 0"
    using 1(1,2,3,5,6,7) by (simp_all add: read_byte zeros_def u8_of_constants)
qed

lemma replace_constants:
  assumes "prefilled replace_fixed Buffer_OBT_Replace m"
  shows "read_char (drop 3 m) = Some (CHR ''U'')" "read_u8 (drop 44 m) = Some 0"
    "read_bytes 15 (drop 61 m) = Some (spaces 15)" "read_bytes 8 (drop 117 m) = Some (zeros 8)"
proof -
  note c = prefilled_constant [OF assms templates(2)]
  have 1: "read_bytes 1 (drop 3 m) = Some ''U''" "read_bytes 1 (drop 44 m) = Some (zeros 1)"
    by ((rule c; code_simp)+)
  show "read_bytes 15 (drop 61 m) = Some (spaces 15)" "read_bytes 8 (drop 117 m) = Some (zeros 8)"
    by ((rule c; code_simp)+)
  show "read_char (drop 3 m) = Some (CHR ''U'')" "read_u8 (drop 44 m) = Some 0"
    using 1 by (simp_all add: read_byte zeros_def u8_of_constants)
qed

lemma cancel_constants:
  shows "prefilled [3] Buffer_OBT_Cancel m \<Longrightarrow> read_char (drop 3 m) = Some (CHR ''X'')"
    "prefilled [3] Buffer_OBT_CancelID m \<Longrightarrow> read_char (drop 3 m) = Some (CHR ''Y'')"
proof -
  show "read_char (drop 3 m) = Some (CHR ''X'')" if "prefilled [3] Buffer_OBT_Cancel m"
    by (rule read_byte, rule prefilled_constant [OF that templates(3)]; code_simp)
  show "read_char (drop 3 m) = Some (CHR ''Y'')" if "prefilled [3] Buffer_OBT_CancelID m"
    by (rule read_byte, rule prefilled_constant [OF that templates(4)]; code_simp)
qed

lemma enter_message:
  assumes pre: "prefilled enter_fixed Buffer_OBT_Enter buf"
    and tok: "length (client_order_token ord) = ORDER_IDs_SIZE" "real_cl_ord_token_len ord \<le> 14"
    and eci: "nth_opt (eci_local b) (unat (account_index ord)) = Some eci"
      "length (client_account eci) = 16" "length (exchange_info eci) = 32"
  obtains m where "Option.bind (WriteSBTHeaderForDataPacket 117 buf) (bist_buildEnterOrder b ord) = Some m"
    "sbt_data_header 117 m" "enter_layout ord eci (field_over (order_token ord) (take 14 (drop 4 buf))) m"
    "prefilled enter_fixed Buffer_OBT_Enter m"
proof -
  obtain t where t: "token_bytes ord = Some t" "length t = unat (real_cl_ord_token_len ord)" "length t \<le> 14" "t = order_token ord"
    using token_bytes_defined [OF tok] .
  define ws :: "(nat \<times> string) list" where "ws = (0, bytes_u16_be (117 - 2)) # (2, ''U'') #
       [(3 + 1, t), (3 + 15, bytes_u32_be (instrument_id ord)), (3 + 19, [side_char (side ord)]),
        (3 + 20, bytes_u64_be (ucast (quantity ord))), (3 + 28, bytes_u32_be (ucast (price ord))),
        (3 + 32, [char_of_u8 (u8_of_tif (time_in_force ord))]), (3 + 34, client_account eci),
        (3 + 65, exchange_info eci)]"
  have len: "length buf = 117" using pre by (simp add: prefilled_def templates spaces_def zeros_def)
  have fit: "writes_fit (length buf) ws" and o: "ordered_writes ws" and u: "uncovered ws enter_fixed"
    using t(3) eci(2,3) by (simp_all add: ws_def len write_layout enter_fixed_def upt_rec)
  obtain m where m: "apply_writes ws buf = Some m" "prefilled enter_fixed Buffer_OBT_Enter m" "length m = length buf"
    using prefilled_write [OF pre fit u] .
  note k = enter_constants [OF m(2)]
  have w: "list_all (\<lambda>w. drop (fst w) m = snd w @ drop (fst w + length (snd w)) m) (tl ws)"
    using writes_present [OF m(1) o] unfolding ws_def by (simp only: list.pred_inject list.sel)
  have "sbt_data_header 117 m" by (rule header_in_writes [OF m(1) [unfolded ws_def] o [unfolded ws_def]]) (simp add: len)
  moreover have "read_bytes 14 (drop 4 m) = Some (field_over t (take 14 (drop 4 buf)))"
    by (rule field_written_over [OF m(1) o]) (use t(3) len in \<open>simp_all add: ws_def length_bytes\<close>)
  then have "enter_layout ord eci (field_over (order_token ord) (take 14 (drop 4 buf))) m"
    using w k t(4) eci(2,3) m(3) len unfolding enter_layout_def ws_def by (simp add: wire_simps length_bytes)
  moreover have "bist_buildEnterOrder b ord = apply_writes (tl (tl ws))"
    using t(1) eci(1) by (simp add: fun_eq_iff bist_buildEnterOrder_def ws_def)
  then have "Option.bind (WriteSBTHeaderForDataPacket 117 buf) (bist_buildEnterOrder b ord) = apply_writes ws buf"
    using header_writes [of 117 buf "tl (tl ws)"] by (simp only: ws_def list.sel)
  ultimately show thesis using that m(1,2) by simp
qed

lemma replace_message:
  assumes pre: "prefilled replace_fixed Buffer_OBT_Replace buf"
    and tok: "length (client_order_token ord) = ORDER_IDs_SIZE" "real_cl_ord_token_len ord \<le> 14"
      "length (fix_org_order_id ord) = ORDER_IDs_SIZE"
    and eci: "nth_opt (eci_local b) (unat (account_index ord)) = Some eci"
      "length (client_account eci) = 16" "length (exchange_info eci) = 32"
  obtains m where "Option.bind (WriteSBTHeaderForDataPacket 125 buf) (bist_buildReplaceOrder b ord) = Some m"
    "sbt_data_header 125 m" "replace_layout ord eci (field_over (order_token ord) (take 14 (drop 18 buf))) m"
    "prefilled replace_fixed Buffer_OBT_Replace m"
proof -
  obtain t where t: "token_bytes ord = Some t" "length t = unat (real_cl_ord_token_len ord)" "length t \<le> 14" "t = order_token ord"
    using token_bytes_defined [OF tok(1,2)] .
  define old where "old = take 14 (fix_org_order_id ord)"
  have old: "read_bytes 14 (fix_org_order_id ord) = Some old" "length old = 14"
    using tok(3) by (simp_all add: read_bytes_def old_def ORDER_IDs_SIZE_def)
  define ws :: "(nat \<times> string) list" where "ws = (0, bytes_u16_be (125 - 2)) # (2, ''U'') #
       [(3 + 1, old), (3 + 15, t), (3 + 29, bytes_u64_be (ucast (quantity ord))),
        (3 + 37, bytes_u32_be (ucast (price ord))), (3 + 42, client_account eci), (3 + 73, exchange_info eci),
        (3 + 105, bytes_u64_be 0), (3 + 113, [CHR 0x01])]"
  have len: "length buf = 125" using pre by (simp add: prefilled_def templates spaces_def zeros_def)
  have fit: "writes_fit (length buf) ws" and o: "ordered_writes ws" and u: "uncovered ws replace_fixed"
    using t(3) old(2) eci(2,3) by (simp_all add: ws_def len write_layout replace_fixed_def upt_rec)
  obtain m where m: "apply_writes ws buf = Some m" "prefilled replace_fixed Buffer_OBT_Replace m" "length m = length buf"
    using prefilled_write [OF pre fit u] .
  note k = replace_constants [OF m(2)]
  have w: "list_all (\<lambda>w. drop (fst w) m = snd w @ drop (fst w + length (snd w)) m) (tl ws)"
    using writes_present [OF m(1) o] unfolding ws_def by (simp only: list.pred_inject list.sel)
  have "sbt_data_header 125 m" by (rule header_in_writes [OF m(1) [unfolded ws_def] o [unfolded ws_def]]) (simp add: len)
  moreover have "read_bytes 14 (drop 18 m) = Some (field_over t (take 14 (drop 18 buf)))"
    by (rule field_written_over [OF m(1) o]) (use t(3) old(2) len in \<open>simp_all add: ws_def length_bytes\<close>)
  then have "replace_layout ord eci (field_over (order_token ord) (take 14 (drop 18 buf))) m"
    using w k t(4) old eci(2,3) m(3) len unfolding replace_layout_def ws_def
    by (simp add: wire_simps length_bytes read_u8_def nth_opt_def u8_of_constants)
  moreover have "bist_buildReplaceOrder b ord = apply_writes (tl (tl ws))"
    using t(1) old(1) eci(1) by (simp add: fun_eq_iff bist_buildReplaceOrder_def ws_def)
  then have "Option.bind (WriteSBTHeaderForDataPacket 125 buf) (bist_buildReplaceOrder b ord) = apply_writes ws buf"
    using header_writes [of 125 buf "tl (tl ws)"] by (simp only: ws_def list.sel)
  ultimately show thesis using that m(1,2) by simp
qed

lemma cancel_message:
  assumes pre: "prefilled [3] Buffer_OBT_Cancel buf" and tok: "length (client_order_token ord) = ORDER_IDs_SIZE"
  obtains m where "Option.bind (WriteSBTHeaderForDataPacket 18 buf) (bist_buildCancelOrder ord) = Some m"
    "sbt_data_header 18 m" "cancel_layout ord m" "prefilled [3] Buffer_OBT_Cancel m"
proof -
  define t where "t = take 14 (client_order_token ord)"
  have t: "read_bytes 14 (client_order_token ord) = Some t" "length t = 14"
    using tok by (simp_all add: read_bytes_def t_def ORDER_IDs_SIZE_def)
  define ws :: "(nat \<times> string) list" where "ws = (0, bytes_u16_be (18 - 2)) # (2, ''U'') # [(3 + 1, t)]"
  have len: "length buf = 18" using pre by (simp add: prefilled_def templates spaces_def zeros_def)
  have fit: "writes_fit (length buf) ws" and o: "ordered_writes ws" and u: "uncovered ws [3]"
    using t(2) by (simp_all add: ws_def len write_layout)
  obtain m where m: "apply_writes ws buf = Some m" "prefilled [3] Buffer_OBT_Cancel m" "length m = length buf"
    using prefilled_write [OF pre fit u] .
  have w: "list_all (\<lambda>w. drop (fst w) m = snd w @ drop (fst w + length (snd w)) m) (tl ws)"
    using writes_present [OF m(1) o] unfolding ws_def by (simp only: list.pred_inject list.sel)
  have "sbt_data_header 18 m" by (rule header_in_writes [OF m(1) [unfolded ws_def] o [unfolded ws_def]]) (simp add: len)
  moreover have "cancel_layout ord m"
    using w cancel_constants(1) [OF m(2)] t m(3) len unfolding cancel_layout_def ws_def by (simp add: read_bytes_def)
  moreover have "bist_buildCancelOrder ord = apply_writes (tl (tl ws))"
    using t(1) by (simp add: fun_eq_iff bist_buildCancelOrder_def ws_def)
  then have "Option.bind (WriteSBTHeaderForDataPacket 18 buf) (bist_buildCancelOrder ord) = apply_writes ws buf"
    using header_writes [of 18 buf "tl (tl ws)"] by (simp only: ws_def list.sel)
  ultimately show thesis using that m(1,2) by simp
qed

lemma cancelid_message:
  assumes pre: "prefilled [3] Buffer_OBT_CancelID buf"
  obtains m where "Option.bind (WriteSBTHeaderForDataPacket 17 buf) (bist_buildCancelByOrderID ord) = Some m"
    "sbt_data_header 17 m" "cancelid_layout ord m" "prefilled [3] Buffer_OBT_CancelID m"
proof -
  define ws :: "(nat \<times> string) list" where "ws = (0, bytes_u16_be (17 - 2)) # (2, ''U'') #
    [(3 + 1, bytes_u32_be (instrument_id ord)), (3 + 5, [side_char (side ord)]), (3 + 6, bytes_u64_be (order_id ord))]"
  have len: "length buf = 17" using pre by (simp add: prefilled_def templates spaces_def zeros_def)
  have fit: "writes_fit (length buf) ws" and o: "ordered_writes ws" and u: "uncovered ws [3]"
    by (simp_all add: ws_def len write_layout)
  obtain m where m: "apply_writes ws buf = Some m" "prefilled [3] Buffer_OBT_CancelID m" "length m = length buf"
    using prefilled_write [OF pre fit u] .
  have w: "list_all (\<lambda>w. drop (fst w) m = snd w @ drop (fst w + length (snd w)) m) (tl ws)"
    using writes_present [OF m(1) o] unfolding ws_def by (simp only: list.pred_inject list.sel)
  have "sbt_data_header 17 m" by (rule header_in_writes [OF m(1) [unfolded ws_def] o [unfolded ws_def]]) (simp add: len)
  moreover have "cancelid_layout ord m"
    using w cancel_constants(2) [OF m(2)] m(3) len read_bytes_be(4) [of "order_id ord" "[]"] unfolding cancelid_layout_def ws_def
    by (simp add: wire_simps length_bytes)
  moreover have "bist_buildCancelByOrderID ord = apply_writes (tl (tl ws))"
    by (simp add: fun_eq_iff bist_buildCancelByOrderID_def ws_def)
  then have "Option.bind (WriteSBTHeaderForDataPacket 17 buf) (bist_buildCancelByOrderID ord) = apply_writes ws buf"
    using header_writes [of 17 buf "tl (tl ws)"] by (simp only: ws_def list.sel)
  ultimately show thesis using that m(1,2) by simp
qed

lemma next_buffer:
  assumes "length xs = 2" "list_all P xs"
  obtains x where "nth_opt xs (unat (n AND 1 :: u64)) = Some x" "P x" "unat (n AND 1) < 2"
    "xs ! (unat (n AND 1)) = x"
proof -
  have "unat (n AND 1) < 2" by (simp add: and_one_eq unat_mod)
  then show thesis using assms by (intro that [of "xs ! unat (n AND 1)"]) (simp_all add: nth_opt_def list_all_iff)
qed

lemma prefilled_update: "list_all P xs \<Longrightarrow> P x \<Longrightarrow> list_all P (xs[i := x])"
  by (auto simp: list_all_iff dest!: set_update_subset_insert [THEN subsetD])

lemma word_le_3: "(x :: u8) \<le> 3 \<Longrightarrow> x = 0 \<or> x = 1 \<or> x = 2 \<or> x = 3"
proof -
  assume "x \<le> 3"
  then have "unat x \<le> 3" by (simp add: word_le_nat_alt)
  then have "unat x = unat (0 :: u8) \<or> unat x = unat (1 :: u8) \<or> unat x = unat (2 :: u8) \<or> unat x = unat (3 :: u8)" by simp arith
  then show ?thesis by (blast intro: unsigned_word_eqI)
qed

definition bist_layout :: "Order \<Rightarrow> ExchangeClientInfo_local \<Rightarrow> string \<Rightarrow> string \<Rightarrow> bool" where
  "bist_layout ord eci f m =
     (if message_type ord = 0 then enter_layout ord eci f m
      else if message_type ord = 1 then replace_layout ord eci f m
      else if message_type ord = 2 then cancel_layout ord m
      else cancelid_layout ord m)"

text \<open>The token fields of a builder's buffers.\<close>

definition bist_fields :: "Builder_OUCH_BIST \<Rightarrow> (string \<times> string) \<times> (string \<times> string)" where
  "bist_fields b =
     ((take 14 (drop 4 (enter_messages b ! unat (next_enter b AND 1))),
       take 14 (drop 4 (enter_messages b ! unat ((next_enter b + 1) AND 1)))),
      (take 14 (drop 18 (replace_messages b ! unat (next_replace b AND 1))),
       take 14 (drop 18 (replace_messages b ! unat ((next_replace b + 1) AND 1)))))"

text \<open>The message built last and the one before it, of a given type.\<close>

definition bist_last :: "u8 \<Rightarrow> Builder_OUCH_BIST \<Rightarrow> string" where
  "bist_last t b =
     (if t = 0 then enter_messages b ! unat ((next_enter b - 1) AND 1)
      else if t = 1 then replace_messages b ! unat ((next_replace b - 1) AND 1)
      else if t = 2 then cancel_messages b ! unat ((next_cancel b - 1) AND 1)
      else cancelid_messages b ! unat ((next_cancelid b - 1) AND 1))"

definition bist_before_last :: "u8 \<Rightarrow> Builder_OUCH_BIST \<Rightarrow> string" where
  "bist_before_last t b =
     (if t = 0 then enter_messages b ! unat (next_enter b AND 1)
      else if t = 1 then replace_messages b ! unat (next_replace b AND 1)
      else if t = 2 then cancel_messages b ! unat (next_cancel b AND 1)
      else cancelid_messages b ! unat (next_cancelid b AND 1))"

lemma parity:
  "unat (n AND 1 :: u64) = (if even n then 0 else 1)"
  by (cases "even n") (simp_all add: and_one_eq odd_iff_mod_2_eq_one even_iff_mod_2_eq_zero)

lemma slots:
  assumes "length xs = 2"
  shows "(xs[unat (n AND 1 :: u64) := m]) ! unat (n AND 1) = m"
    "(xs[unat (n AND 1) := m]) ! unat ((n + 1) AND 1) = xs ! unat ((n - 1) AND 1)"
  using assms by (simp_all add: parity)

definition bist_order_ok :: "Builder_OUCH_BIST \<Rightarrow> Order \<Rightarrow> bool" where
  "bist_order_ok b ord \<longleftrightarrow>
     message_type ord \<le> 3 \<and> unat (account_index ord) < length (eci_local b) \<and>
     length (client_order_token ord) = ORDER_IDs_SIZE \<and> real_cl_ord_token_len ord \<le> 14 \<and>
     length (fix_org_order_id ord) = ORDER_IDs_SIZE"

primrec bist_builds :: "Order list \<Rightarrow> Builder_OUCH_BIST \<Rightarrow> ((string \<times> u16) list \<times> Builder_OUCH_BIST) option" where
  "bist_builds [] b = Some ([], b)"
| "bist_builds (ord # ords) b = do {
     (m, b1) \<leftarrow> bist_build ord b;
     (ms, b2) \<leftarrow> bist_builds ords b1;
     Some (m # ms, b2) }"

lemma fields_after_enter:
  assumes "length (enter_messages b) = 2"
  shows "bist_fields (b\<lparr>enter_messages := (enter_messages b)[unat (next_enter b AND 1) := m], next_enter := next_enter b + 1\<rparr>)
    = ((snd (fst (bist_fields b)), take 14 (drop 4 m)), snd (bist_fields b))"
  using assms by (simp add: bist_fields_def parity)

lemma fields_after_replace:
  assumes "length (replace_messages b) = 2"
  shows "bist_fields (b\<lparr>replace_messages := (replace_messages b)[unat (next_replace b AND 1) := m], next_replace := next_replace b + 1\<rparr>)
    = (fst (bist_fields b), (snd (snd (bist_fields b)), take 14 (drop 18 m)))"
  using assms by (simp add: bist_fields_def parity)

lemma fields_after_cancel:
  "bist_fields (b\<lparr>cancel_messages := x, next_cancel := n\<rparr>) = bist_fields b"
  "bist_fields (b\<lparr>cancelid_messages := x, next_cancelid := n\<rparr>) = bist_fields b"
  by (simp_all add: bist_fields_def)

lemma bist_build_message:
  assumes r: "bist_ready b" and t: "message_type ord \<le> 3" and eci: "nth_opt (eci_local b) (unat (account_index ord)) = Some eci"
    and tok: "length (client_order_token ord) = ORDER_IDs_SIZE" "real_cl_ord_token_len ord \<le> 14"
      "length (fix_org_order_id ord) = ORDER_IDs_SIZE"
  shows "\<exists>m n b'. bist_build ord b = Some ((m, n), b') \<and> bist_ready b' \<and> sbt_data_header n m \<and>
    bist_layout ord eci (token_field ord (bist_fields b)) m \<and> bist_fields b' = next_fields ord (bist_fields b) \<and>
    bist_last (message_type ord) b' = m \<and> bist_before_last (message_type ord) b' = bist_last (message_type ord) b"
proof -
  have "eci \<in> set (eci_local b)" using eci by (auto simp: nth_opt_def split: if_splits)
  then have e: "length (client_account eci) = 16" "length (exchange_info eci) = 32"
    using r by (auto simp: bist_ready_def list_all_iff)
  consider "message_type ord = 0" | "message_type ord = 1" | "message_type ord = 2" | "message_type ord = 3"
    using word_le_3 [OF t] by blast
  then show ?thesis
  proof cases
    case 1
    obtain buf where buf: "nth_opt (enter_messages b) (unat (next_enter b AND 1)) = Some buf" "prefilled enter_fixed Buffer_OBT_Enter buf"
        "enter_messages b ! unat (next_enter b AND 1) = buf"
      by (rule next_buffer [of "enter_messages b" "prefilled enter_fixed Buffer_OBT_Enter" "next_enter b"]) (use r in \<open>auto simp: bist_ready_def\<close>)
    obtain m where "Option.bind (WriteSBTHeaderForDataPacket 117 buf) (bist_buildEnterOrder b ord) = Some m"
      "sbt_data_header 117 m" "enter_layout ord eci (field_over (order_token ord) (take 14 (drop 4 buf))) m"
      "prefilled enter_fixed Buffer_OBT_Enter m"
      using enter_message [OF buf(2) tok(1,2) eci e] .
    moreover have f: "token_field ord (bist_fields b) = field_over (order_token ord) (take 14 (drop 4 buf))"
      using 1 buf(3) by (simp add: token_field_def bist_fields_def)
    moreover have "take 14 (drop 4 m) = token_field ord (bist_fields b)"
      using calculation(3) unfolding f by (simp add: enter_layout_def read_bytes_def split: if_splits)
    ultimately show ?thesis using 1 buf(1) r
      by (auto simp: fields_after_enter next_fields_def bist_build_def bist_layout_def bist_ready_def ENTER_SIZE_def prefilled_update bist_last_def bist_before_last_def
          slots split: bind_splits)
  next
    case 2
    obtain buf where buf: "nth_opt (replace_messages b) (unat (next_replace b AND 1)) = Some buf" "prefilled replace_fixed Buffer_OBT_Replace buf"
        "replace_messages b ! unat (next_replace b AND 1) = buf"
      by (rule next_buffer [of "replace_messages b" "prefilled replace_fixed Buffer_OBT_Replace" "next_replace b"]) (use r in \<open>auto simp: bist_ready_def\<close>)
    obtain m where "Option.bind (WriteSBTHeaderForDataPacket 125 buf) (bist_buildReplaceOrder b ord) = Some m"
      "sbt_data_header 125 m" "replace_layout ord eci (field_over (order_token ord) (take 14 (drop 18 buf))) m"
      "prefilled replace_fixed Buffer_OBT_Replace m"
      using replace_message [OF buf(2) tok eci e] .
    moreover have f: "token_field ord (bist_fields b) = field_over (order_token ord) (take 14 (drop 18 buf))"
      using 2 buf(3) by (simp add: token_field_def bist_fields_def)
    moreover have "take 14 (drop 18 m) = token_field ord (bist_fields b)"
      using calculation(3) unfolding f by (simp add: replace_layout_def read_bytes_def split: if_splits)
    ultimately show ?thesis using 2 buf(1) r
      by (auto simp: fields_after_replace next_fields_def bist_build_def bist_layout_def bist_ready_def REPLACE_SIZE_def prefilled_update bist_last_def bist_before_last_def
          slots split: bind_splits)
  next
    case 3
    obtain buf where buf: "nth_opt (cancel_messages b) (unat (next_cancel b AND 1)) = Some buf" "prefilled [3] Buffer_OBT_Cancel buf"
      using next_buffer r unfolding bist_ready_def by metis
    obtain m where "Option.bind (WriteSBTHeaderForDataPacket 18 buf) (bist_buildCancelOrder ord) = Some m"
      "sbt_data_header 18 m" "cancel_layout ord m" "prefilled [3] Buffer_OBT_Cancel m"
      using cancel_message [OF buf(2) tok(1)] .
    then show ?thesis using 3 buf(1) r
      by (auto simp: fields_after_cancel next_fields_def bist_build_def bist_layout_def bist_ready_def CANCEL_SIZE_def prefilled_update bist_last_def bist_before_last_def
          slots split: bind_splits)
  next
    case 4
    obtain buf where buf: "nth_opt (cancelid_messages b) (unat (next_cancelid b AND 1)) = Some buf" "prefilled [3] Buffer_OBT_CancelID buf"
      using next_buffer r unfolding bist_ready_def by metis
    obtain m where "Option.bind (WriteSBTHeaderForDataPacket 17 buf) (bist_buildCancelByOrderID ord) = Some m"
      "sbt_data_header 17 m" "cancelid_layout ord m" "prefilled [3] Buffer_OBT_CancelID m"
      using cancelid_message [OF buf(2)] .
    then show ?thesis using 4 buf(1) r
      by (auto simp: fields_after_cancel next_fields_def bist_build_def bist_layout_def bist_ready_def CANCELID_SIZE_def prefilled_update bist_last_def bist_before_last_def
          slots split: bind_splits)
  qed
qed

lemma bist_build_keeps_accounts: "bist_build ord b = Some (m, b') \<Longrightarrow> eci_local b' = eci_local b"
  by (auto simp: bist_build_def Let_def split: if_splits bind_splits)

lemma bist_builds_messages:
  assumes "bist_ready b" "list_all (bist_order_ok b) ords"
  shows "\<exists>ms b'. bist_builds ords b = Some (ms, b') \<and> bist_ready b' \<and>
    list_all2 (\<lambda>(ord, f) (m, n). sbt_data_header n m \<and> bist_layout ord (eci_local b ! unat (account_index ord)) f m)
      (zip ords (token_fields ords (bist_fields b))) ms"
  using assms
proof (induction ords arbitrary: b)
  case (Cons ord ords)
  let ?eci = "eci_local b ! unat (account_index ord)"
  have "nth_opt (eci_local b) (unat (account_index ord)) = Some ?eci"
    using Cons.prems(2) by (simp add: bist_order_ok_def nth_opt_def)
  then obtain m n b1 where b1: "bist_build ord b = Some ((m, n), b1)" "bist_ready b1" "sbt_data_header n m"
      "bist_layout ord ?eci (token_field ord (bist_fields b)) m" "bist_fields b1 = next_fields ord (bist_fields b)"
    using bist_build_message [OF Cons.prems(1)] Cons.prems(2) by (fastforce simp: bist_order_ok_def)
  have e: "eci_local b1 = eci_local b" using bist_build_keeps_accounts [OF b1(1)] .
  then have "bist_order_ok b1 = bist_order_ok b" by (simp add: bist_order_ok_def fun_eq_iff)
  then have "list_all (bist_order_ok b1) ords" using Cons.prems(2) by simp
  from Cons.IH [OF b1(2) this] show ?case using b1 e by auto
qed simp

lemma length_pad_right: "length (pad_right n s) = n"
  by (simp add: pad_right_def)

lemma prefilled_template: "template = Some t \<Longrightarrow> list_all (\<lambda>i. i < length t) fixed \<Longrightarrow> prefilled fixed template t"
  by (simp add: prefilled_def list_all_iff)

lemma template_lengths:
  "Buffer_OBT_Enter = Some t \<Longrightarrow> length t = 117" "Buffer_OBT_Replace = Some t \<Longrightarrow> length t = 125"
  "Buffer_OBT_Cancel = Some t \<Longrightarrow> length t = 18" "Buffer_OBT_CancelID = Some t \<Longrightarrow> length t = 17"
  by (auto simp: templates spaces_def zeros_def)

lemma new_builder_ready:
  assumes "new_Builder_OUCH_BIST sm = Some b"
  shows "bist_ready b"
proof -
  have "prefilled enter_fixed Buffer_OBT_Enter t" if "Buffer_OBT_Enter = Some t" for t
    using template_lengths(1) [OF that] by (intro prefilled_template [OF that]) (simp add: enter_fixed_def list_all_iff)
  moreover have "prefilled replace_fixed Buffer_OBT_Replace t" if "Buffer_OBT_Replace = Some t" for t
    using template_lengths(2) [OF that] by (intro prefilled_template [OF that]) (simp add: replace_fixed_def list_all_iff)
  moreover have "prefilled [3] Buffer_OBT_Cancel t" if "Buffer_OBT_Cancel = Some t" for t
    using template_lengths(3) [OF that] by (intro prefilled_template [OF that]) simp
  moreover have "prefilled [3] Buffer_OBT_CancelID t" if "Buffer_OBT_CancelID = Some t" for t
    using template_lengths(4) [OF that] by (intro prefilled_template [OF that]) simp
  ultimately show ?thesis
    using assms by (auto simp: new_Builder_OUCH_BIST_def initialize_exc_info_def bist_ready_def make_eci_def length_pad_right
        split: bind_splits)
qed

lemma new_builder_fields:
  assumes "new_Builder_OUCH_BIST sm = Some b"
  shows "bist_fields b = ((spaces 14, spaces 14), (spaces 14, spaces 14))"
proof -
  have 0: "unat ((0 + 1 :: u64) AND 1) = 1" "unat (0 AND 1 :: u64) = 0" by (simp_all add: parity)
  have "take 14 (drop 4 t) = spaces 14" if "Buffer_OBT_Enter = Some t" for t
    using that by (auto simp: templates spaces_def zeros_def)
  moreover have "take 14 (drop 18 t) = spaces 14" if "Buffer_OBT_Replace = Some t" for t
    using that by (auto simp: templates spaces_def zeros_def)
  ultimately show ?thesis
    using assms 0 by (auto simp: new_Builder_OUCH_BIST_def bist_fields_def split: bind_splits)
qed

subsection \<open>The NASDAQ messages\<close>

definition onq_ready :: "Builder_OUCH_NASDAQ \<Rightarrow> bool" where
  "onq_ready b \<longleftrightarrow> length (onq_messages b) = 2 \<and> list_all (\<lambda>m. length m = 126) (onq_messages b)"

definition onq_order_ok :: "Order \<Rightarrow> bool" where
  "onq_order_ok ord \<longleftrightarrow>
     message_type ord \<le> 4 \<and> length (symbol ord) = SYMBOL_SIZE \<and> real_symbol_len ord \<le> 8 \<and>
     length (client_order_token ord) = ORDER_IDs_SIZE \<and> real_cl_ord_token_len ord \<le> 14"

definition order_symbol :: "Order \<Rightarrow> string" where
  "order_symbol ord = take (unat (real_symbol_len ord)) (symbol ord)"

text \<open>The layouts of src/generated/GeneratedOUCHMessages_NASDAQ.h, byte by byte, with the values the builder writes:
  \<open>refnum\<close> is its next number and \<open>old\<close> the buffer before the build.\<close>

definition onq_enter_layout :: "Order \<Rightarrow> u32 \<Rightarrow> string \<Rightarrow> string \<Rightarrow> bool" where
  "onq_enter_layout ord refnum old m \<longleftrightarrow>
     read_char (drop 3 m) = Some (CHR ''O'') \<and> read_u32_be (drop 4 m) = Some refnum \<and>
     read_char (drop 8 m) = Some (side_char (side ord)) \<and> read_u32_be (drop 9 m) = Some (quantity ord) \<and>
     read_bytes 8 (drop 13 m) = Some (field_over (order_symbol ord) (take 8 (drop 13 old))) \<and>
     read_u64_be (drop 21 m) = Some (price ord) \<and> read_u8 (drop 29 m) = Some (u8_of_tif (time_in_force ord)) \<and>
     read_bytes 4 (drop 30 m) = Some ''YANN'' \<and>
     read_bytes 14 (drop 34 m) = Some (field_over (order_token ord) (take 14 (drop 34 old))) \<and> read_u16_be (drop 48 m) = Some 0"

definition onq_replace_layout :: "Order \<Rightarrow> u32 \<Rightarrow> string \<Rightarrow> string \<Rightarrow> bool" where
  "onq_replace_layout ord refnum old m \<longleftrightarrow>
     read_char (drop 3 m) = Some (CHR ''U'') \<and> read_u32_be (drop 4 m) = Some (pre_user_ref_num ord) \<and>
     read_u32_be (drop 8 m) = Some refnum \<and> read_u32_be (drop 12 m) = Some (quantity ord) \<and>
     read_u64_be (drop 16 m) = Some (price ord) \<and> read_u8 (drop 24 m) = Some (u8_of_tif (time_in_force ord)) \<and>
     read_bytes 2 (drop 25 m) = Some ''YN'' \<and>
     read_bytes 14 (drop 27 m) = Some (field_over (order_token ord) (take 14 (drop 27 old))) \<and> read_u16_be (drop 41 m) = Some 0"

definition onq_cancel_layout :: "Order \<Rightarrow> u32 \<Rightarrow> string \<Rightarrow> bool" where
  "onq_cancel_layout ord refnum m \<longleftrightarrow>
     read_char (drop 3 m) = Some (CHR ''X'') \<and> read_u32_be (drop 4 m) = Some refnum \<and>
     read_u32_be (drop 8 m) = Some (quantity ord) \<and> read_u16_be (drop 12 m) = Some 0"

definition onq_modify_layout :: "Order \<Rightarrow> u32 \<Rightarrow> string \<Rightarrow> bool" where
  "onq_modify_layout ord refnum m \<longleftrightarrow>
     read_char (drop 3 m) = Some (CHR ''M'') \<and> read_u32_be (drop 4 m) = Some refnum \<and>
     read_char (drop 8 m) = Some (side_char (side ord)) \<and> read_u32_be (drop 9 m) = Some (quantity ord) \<and>
     read_u16_be (drop 13 m) = Some 0"

definition onq_query_layout :: "string \<Rightarrow> bool" where
  "onq_query_layout m \<longleftrightarrow> read_char (drop 3 m) = Some (CHR ''Q'') \<and> read_u16_be (drop 4 m) = Some 0"

definition onq_layout :: "Order \<Rightarrow> u32 \<Rightarrow> string \<Rightarrow> string \<Rightarrow> bool" where
  "onq_layout ord refnum old m =
     (if message_type ord = 0 then onq_enter_layout ord refnum old m
      else if message_type ord = 1 then onq_replace_layout ord refnum old m
      else if message_type ord = 2 then onq_cancel_layout ord refnum m
      else if message_type ord = 3 then onq_modify_layout ord refnum m
      else onq_query_layout m)"

text \<open>The fields of a list of writes behind the header of a packet of \<open>n\<close> bytes.\<close>

lemma onq_packet:
  fixes ws :: "(nat \<times> string) list"
  assumes "length buf = 126" "writes_fit 126 ws" "ordered_writes ((0, bytes_u16_be (n - 2)) # (2, ''U'') # ws)"
  obtains m where "Option.bind (WriteSBTHeaderForDataPacket n buf) (apply_writes ws) = Some m" "length m = 126"
    "read_u16_be m = Some (n - 2)" "read_char (drop 2 m) = Some (CHR ''U'')"
    "list_all (\<lambda>w. drop (fst w) m = snd w @ drop (fst w + length (snd w)) m) ws"
proof -
  let ?ws = "(0, bytes_u16_be (n - 2)) # (2, ''U'') # ws"
  have "writes_fit (length buf) ?ws" using assms(1,2) by (simp add: writes_fit_def length_bytes)
  then obtain m where m: "apply_writes ?ws buf = Some m" "length m = length buf" using apply_writes_defined by blast
  show thesis
  proof (rule that)
    show "Option.bind (WriteSBTHeaderForDataPacket n buf) (apply_writes ws) = Some m" using m(1) unfolding header_writes .
    show "read_u16_be m = Some (n - 2)" "read_char (drop 2 m) = Some (CHR ''U'')"
      using fields_read(1) [OF m(1) assms(3), of 0 "n - 2"] fields_read(5) [OF m(1) assms(3), of 2 "CHR ''U''"] by simp_all
    show "list_all (\<lambda>w. drop (fst w) m = snd w @ drop (fst w + length (snd w)) m) ws"
      using writes_present [OF m(1) assms(3)] by (simp only: list.pred_inject)
  qed (simp add: m(2) assms(1))
qed

lemma onq_field:
  fixes ws :: "(nat \<times> string) list"
  assumes "Option.bind (WriteSBTHeaderForDataPacket n buf) (apply_writes ws) = Some m"
    and "ordered_writes ((0, bytes_u16_be (n - 2)) # (2, ''U'') # ws)" "(off, t) \<in> set ws" "length t \<le> k" "3 \<le> off"
    and "off + k \<le> length buf" "list_all (\<lambda>w. w = (off, t) \<or> fst w + length (snd w) \<le> off \<or> off + k \<le> fst w) ws"
  shows "read_bytes k (drop off m) = Some (field_over t (take k (drop off buf)))"
  by (rule field_written_over [OF assms(1) [unfolded header_writes] assms(2)])
     (use assms(3-7) in \<open>simp_all add: length_bytes\<close>)

lemma onq_enter_message:
  assumes "length buf = 126" "onq_order_ok ord"
  obtains m where "Option.bind (WriteSBTHeaderForDataPacket 50 buf) (nasdaq_buildEnterOrder ord r)
      = Some (m, ord\<lparr>user_ref_num := r\<rparr>, r + 1)"
    "length m = 126" "read_u16_be m = Some 48" "read_char (drop 2 m) = Some (CHR ''U'')" "onq_enter_layout ord r buf m"
proof -
  obtain t where t: "token_bytes ord = Some t" "length t = unat (real_cl_ord_token_len ord)" "length t \<le> 14" "t = order_token ord"
    using token_bytes_defined assms(2) unfolding onq_order_ok_def by blast
  have "unat (real_symbol_len ord) \<le> 8" using assms(2) by (simp add: onq_order_ok_def word_le_nat_alt)
  then obtain s where s: "read_bytes (unat (real_symbol_len ord)) (symbol ord) = Some s"
      "length s = unat (real_symbol_len ord)" "length s \<le> 8" "s = order_symbol ord"
    using assms(2) by (simp add: onq_order_ok_def read_bytes_def SYMBOL_SIZE_def order_symbol_def)
  define ws :: "(nat \<times> string) list" where "ws =
       [(3, ''O''), (3 + 1, bytes_u32_be r), (3 + 5, [side_char (side ord)]), (3 + 6, bytes_u32_be (quantity ord)),
        (3 + 10, s), (3 + 18, bytes_u64_be (price ord)), (3 + 26, [char_of_u8 (u8_of_tif (time_in_force ord))]),
        (3 + 27, ''Y''), (3 + 28, ''A''), (3 + 29, ''N''), (3 + 30, ''N''), (3 + 31, t), (3 + 45, bytes_u16_be 0)]"
  have fit: "writes_fit 126 ws" and o: "ordered_writes ((0, bytes_u16_be (50 - 2)) # (2, ''U'') # ws)"
    using t(3) s(3) by (simp_all add: ws_def write_layout)
  obtain m where m: "Option.bind (WriteSBTHeaderForDataPacket 50 buf) (apply_writes ws) = Some m" "length m = 126"
    "read_u16_be m = Some (50 - 2)" "read_char (drop 2 m) = Some (CHR ''U'')"
    "list_all (\<lambda>w. drop (fst w) m = snd w @ drop (fst w + length (snd w)) m) ws"
    using onq_packet [OF assms(1) fit o] .
  define x y where "x = read_bytes 8 (drop 13 m)" and "y = read_bytes 14 (drop 34 m)"
  have "x = Some (field_over s (take 8 (drop 13 buf)))" unfolding x_def
    by (rule onq_field [OF m(1) o]) (use s(3) t(3) assms(1) in \<open>simp_all add: ws_def length_bytes\<close>)
  moreover have "y = Some (field_over t (take 14 (drop 34 buf)))" unfolding y_def
    by (rule onq_field [OF m(1) o]) (use s(3) t(3) assms(1) in \<open>simp_all add: ws_def length_bytes\<close>)
  ultimately have "onq_enter_layout ord r buf m"
    using m(5) t(4) s(4) unfolding onq_enter_layout_def ws_def x_def [symmetric] y_def [symmetric]
    by (simp add: wire_simps length_bytes read_bytes_def)
  moreover have "nasdaq_buildEnterOrder ord r = (\<lambda>b. Option.bind (apply_writes ws b) (\<lambda>m. Some (m, ord\<lparr>user_ref_num := r\<rparr>, r + 1)))"
    unfolding fun_eq_iff nasdaq_buildEnterOrder_def ws_def using t(1) s(1) by (simp del: apply_writes.simps)
  ultimately show thesis using m that by (cases "WriteSBTHeaderForDataPacket 50 buf") auto
qed

lemma onq_replace_message:
  assumes "length buf = 126" "onq_order_ok ord"
  obtains m where "Option.bind (WriteSBTHeaderForDataPacket 43 buf) (nasdaq_buildReplaceOrder ord r) = Some (m, ord\<lparr>pre_user_ref_num := user_ref_num ord, user_ref_num := r\<rparr>, r + 1)"
    "length m = 126" "read_u16_be m = Some 41" "read_char (drop 2 m) = Some (CHR ''U'')" "onq_replace_layout ord r buf m"
proof -
  obtain t where t: "token_bytes ord = Some t" "length t = unat (real_cl_ord_token_len ord)" "length t \<le> 14" "t = order_token ord"
    using token_bytes_defined assms(2) unfolding onq_order_ok_def by blast
  define ws :: "(nat \<times> string) list" where "ws = 
       [(3, ''U''), (3 + 1, bytes_u32_be (pre_user_ref_num ord)), (3 + 5, bytes_u32_be r),
        (3 + 9, bytes_u32_be (quantity ord)), (3 + 13, bytes_u64_be (price ord)),
        (3 + 21, [char_of_u8 (u8_of_tif (time_in_force ord))]), (3 + 22, ''Y''), (3 + 23, ''N''), (3 + 24, t),
        (3 + 38, bytes_u16_be 0)]"
  have fit: "writes_fit 126 ws" and o: "ordered_writes ((0, bytes_u16_be (43 - 2)) # (2, ''U'') # ws)"
    using t(3) by (simp_all add: ws_def write_layout)
  obtain m where m: "Option.bind (WriteSBTHeaderForDataPacket 43 buf) (apply_writes ws) = Some m" "length m = 126"
    "read_u16_be m = Some (43 - 2)" "read_char (drop 2 m) = Some (CHR ''U'')"
    "list_all (\<lambda>w. drop (fst w) m = snd w @ drop (fst w + length (snd w)) m) ws"
    using onq_packet [OF assms(1) fit o] .
  define y where "y = read_bytes 14 (drop 27 m)"
  have "y = Some (field_over t (take 14 (drop 27 buf)))" unfolding y_def
    by (rule onq_field [OF m(1) o]) (use t(3) assms(1) in \<open>simp_all add: ws_def length_bytes\<close>)
  then have "onq_replace_layout ord r buf m"
    using m(5) t(4) unfolding onq_replace_layout_def ws_def y_def [symmetric]
    by (simp add: wire_simps length_bytes read_bytes_def)
  moreover have "nasdaq_buildReplaceOrder ord r = (\<lambda>b. Option.bind (apply_writes ws b) (\<lambda>m. Some (m, ord\<lparr>pre_user_ref_num := user_ref_num ord, user_ref_num := r\<rparr>, r + 1)))"
    unfolding fun_eq_iff nasdaq_buildReplaceOrder_def ws_def using t(1) by (simp del: apply_writes.simps)
  ultimately show thesis using m that by (cases "WriteSBTHeaderForDataPacket 43 buf") auto
qed

lemma onq_cancel_message:
  assumes "length buf = 126"
  obtains m where "Option.bind (WriteSBTHeaderForDataPacket 14 buf) (nasdaq_buildCancelOrder ord r) = Some (m, ord, r)"
    "length m = 126" "read_u16_be m = Some 12" "read_char (drop 2 m) = Some (CHR ''U'')" "onq_cancel_layout ord r m"
proof -
  define ws :: "(nat \<times> string) list" where "ws = [(3, ''X''), (3 + 1, bytes_u32_be r), (3 + 5, bytes_u32_be (quantity ord)),
       (3 + 9, bytes_u16_be 0)]"
  have fit: "writes_fit 126 ws" and o: "ordered_writes ((0, bytes_u16_be (14 - 2)) # (2, ''U'') # ws)"
    by (simp_all add: ws_def write_layout)
  obtain m where m: "Option.bind (WriteSBTHeaderForDataPacket 14 buf) (apply_writes ws) = Some m" "length m = 126"
    "read_u16_be m = Some (14 - 2)" "read_char (drop 2 m) = Some (CHR ''U'')"
    "list_all (\<lambda>w. drop (fst w) m = snd w @ drop (fst w + length (snd w)) m) ws"
    using onq_packet [OF assms(1) fit o] .
  have "onq_cancel_layout ord r m"
    using m(5) unfolding onq_cancel_layout_def ws_def
    by (simp add: wire_simps length_bytes read_bytes_def)
  moreover have "nasdaq_buildCancelOrder ord r = (\<lambda>b. Option.bind (apply_writes ws b) (\<lambda>m. Some (m, ord, r)))"
    unfolding fun_eq_iff nasdaq_buildCancelOrder_def ws_def by (simp del: apply_writes.simps)
  ultimately show thesis using m that by (cases "WriteSBTHeaderForDataPacket 14 buf") auto
qed

lemma onq_modify_message:
  assumes "length buf = 126"
  obtains m where "Option.bind (WriteSBTHeaderForDataPacket 15 buf) (nasdaq_buildModifyOrder ord r) = Some (m, ord, r)"
    "length m = 126" "read_u16_be m = Some 13" "read_char (drop 2 m) = Some (CHR ''U'')" "onq_modify_layout ord r m"
proof -
  define ws :: "(nat \<times> string) list" where "ws = [(3, ''M''), (3 + 1, bytes_u32_be r), (3 + 5, [side_char (side ord)]),
       (3 + 6, bytes_u32_be (quantity ord)), (3 + 10, bytes_u16_be 0)]"
  have fit: "writes_fit 126 ws" and o: "ordered_writes ((0, bytes_u16_be (15 - 2)) # (2, ''U'') # ws)"
    by (simp_all add: ws_def write_layout)
  obtain m where m: "Option.bind (WriteSBTHeaderForDataPacket 15 buf) (apply_writes ws) = Some m" "length m = 126"
    "read_u16_be m = Some (15 - 2)" "read_char (drop 2 m) = Some (CHR ''U'')"
    "list_all (\<lambda>w. drop (fst w) m = snd w @ drop (fst w + length (snd w)) m) ws"
    using onq_packet [OF assms(1) fit o] .
  have "onq_modify_layout ord r m"
    using m(5) unfolding onq_modify_layout_def ws_def
    by (simp add: wire_simps length_bytes read_bytes_def)
  moreover have "nasdaq_buildModifyOrder ord r = (\<lambda>b. Option.bind (apply_writes ws b) (\<lambda>m. Some (m, ord, r)))"
    unfolding fun_eq_iff nasdaq_buildModifyOrder_def ws_def by (simp del: apply_writes.simps)
  ultimately show thesis using m that by (cases "WriteSBTHeaderForDataPacket 15 buf") auto
qed

lemma onq_query_message:
  assumes "length buf = 126"
  obtains m where "Option.bind (WriteSBTHeaderForDataPacket 6 buf) (nasdaq_buildAccountQueryRequest ord r) = Some (m, ord, r)"
    "length m = 126" "read_u16_be m = Some 4" "read_char (drop 2 m) = Some (CHR ''U'')" "onq_query_layout m"
proof -
  define ws :: "(nat \<times> string) list" where "ws = [(3, ''Q''), (3 + 1, bytes_u16_be 0)]"
  have fit: "writes_fit 126 ws" and o: "ordered_writes ((0, bytes_u16_be (6 - 2)) # (2, ''U'') # ws)"
    by (simp_all add: ws_def write_layout)
  obtain m where m: "Option.bind (WriteSBTHeaderForDataPacket 6 buf) (apply_writes ws) = Some m" "length m = 126"
    "read_u16_be m = Some (6 - 2)" "read_char (drop 2 m) = Some (CHR ''U'')"
    "list_all (\<lambda>w. drop (fst w) m = snd w @ drop (fst w + length (snd w)) m) ws"
    using onq_packet [OF assms(1) fit o] .
  have "onq_query_layout m"
    using m(5) unfolding onq_query_layout_def ws_def
    by (simp add: wire_simps length_bytes read_bytes_def)
  moreover have "nasdaq_buildAccountQueryRequest ord r = (\<lambda>b. Option.bind (apply_writes ws b) (\<lambda>m. Some (m, ord, r)))"
    unfolding fun_eq_iff nasdaq_buildAccountQueryRequest_def ws_def by (simp del: apply_writes.simps)
  ultimately show thesis using m that by (cases "WriteSBTHeaderForDataPacket 6 buf") auto
qed

definition onq_order_after :: "Order \<Rightarrow> u32 \<Rightarrow> Order" where
  "onq_order_after ord r =
     (if message_type ord = 0 then ord\<lparr>user_ref_num := r\<rparr>
      else if message_type ord = 1 then ord\<lparr>pre_user_ref_num := user_ref_num ord, user_ref_num := r\<rparr>
      else ord)"

lemma word_le_4: "(x :: u8) \<le> 4 \<Longrightarrow> x = 0 \<or> x = 1 \<or> x = 2 \<or> x = 3 \<or> x = 4"
proof -
  assume "x \<le> 4"
  then have "unat x \<le> 4" by (simp add: word_le_nat_alt)
  then have "unat x = unat (0 :: u8) \<or> unat x = unat (1 :: u8) \<or> unat x = unat (2 :: u8) \<or> unat x = unat (3 :: u8)
    \<or> unat x = unat (4 :: u8)" by simp arith
  then show ?thesis by (blast intro: unsigned_word_eqI)
qed

lemma onq_sizes:
  "nth_opt onq_msg_sizes (unat (0 :: u8)) = Some 50" "nth_opt onq_msg_sizes (unat (1 :: u8)) = Some 43"
  "nth_opt onq_msg_sizes (unat (2 :: u8)) = Some 14" "nth_opt onq_msg_sizes (unat (3 :: u8)) = Some 15"
  "nth_opt onq_msg_sizes (unat (4 :: u8)) = Some 6"
  by (simp_all add: onq_msg_sizes_def nth_opt_def)

lemma nasdaq_build_steps:
  assumes "nth_opt (onq_messages b) (unat (next_buffer_slot b AND 1)) = Some buf"
    "nth_opt onq_msg_sizes (unat (message_type ord)) = Some n"
    "Option.bind (WriteSBTHeaderForDataPacket n buf)
       ((if message_type ord = 0 then nasdaq_buildEnterOrder else if message_type ord = 1 then nasdaq_buildReplaceOrder
         else if message_type ord = 2 then nasdaq_buildCancelOrder else if message_type ord = 3 then nasdaq_buildModifyOrder
         else nasdaq_buildAccountQueryRequest) ord (onq_user_ref_num b)) = Some (m, ord', r')"
  shows "nasdaq_build ord b = Some ((m, n), ord',
       b\<lparr>onq_messages := (onq_messages b)[unat (next_buffer_slot b AND 1) := m], next_buffer_slot := next_buffer_slot b + 1,
         onq_user_ref_num := r'\<rparr>)"
proof -
  obtain b1 where b1: "WriteSBTHeaderForDataPacket n buf = Some b1" using assms(3) by (auto simp: bind_eq_Some_conv)
  show ?thesis
    using assms(3) unfolding nasdaq_build_def Let_def assms(1,2) b1 bind.bind_lunit if_distrib [of "\<lambda>f. f ord (onq_user_ref_num b)"]
      if_distrib [of "\<lambda>f. f b1"] by simp
qed

lemma nasdaq_build_message:
  assumes r: "onq_ready b" and ok: "onq_order_ok ord"
  defines "r \<equiv> onq_user_ref_num b"
  shows "\<exists>m n. nasdaq_build ord b = Some ((m, n), onq_order_after ord r,
       b\<lparr>onq_messages := (onq_messages b)[unat (next_buffer_slot b AND 1) := m], next_buffer_slot := next_buffer_slot b + 1,
         onq_user_ref_num := (if message_type ord = 0 \<or> message_type ord = 1 then r + 1 else r)\<rparr>) \<and>
     nth_opt onq_msg_sizes (unat (message_type ord)) = Some n \<and> length m = 126 \<and>
     read_u16_be m = Some (n - 2) \<and> read_char (drop 2 m) = Some (CHR ''U'') \<and>
     onq_layout ord r (onq_messages b ! unat (next_buffer_slot b AND 1)) m"
proof -
  obtain buf where buf: "nth_opt (onq_messages b) (unat (next_buffer_slot b AND 1)) = Some buf" "length buf = 126"
      "onq_messages b ! unat (next_buffer_slot b AND 1) = buf"
    using next_buffer [of "onq_messages b" "\<lambda>m. length m = 126" "next_buffer_slot b"] r unfolding onq_ready_def by blast
  consider "message_type ord = 0" | "message_type ord = 1" | "message_type ord = 2" | "message_type ord = 3" | "message_type ord = 4"
    using word_le_4 ok unfolding onq_order_ok_def by blast
  then show ?thesis
  proof cases
    case 1
    obtain m where m: "Option.bind (WriteSBTHeaderForDataPacket 50 buf) (nasdaq_buildEnterOrder ord r) = Some (m, ord\<lparr>user_ref_num := r\<rparr>, r + 1)"
      "length m = 126" "read_u16_be m = Some 48" "read_char (drop 2 m) = Some (CHR ''U'')" "onq_enter_layout ord r buf m"
      using onq_enter_message [OF buf(2) ok, of r] .
    then have "nasdaq_build ord b = Some ((m, 50), onq_order_after ord r,
       b\<lparr>onq_messages := (onq_messages b)[unat (next_buffer_slot b AND 1) := m], next_buffer_slot := next_buffer_slot b + 1,
         onq_user_ref_num := (if message_type ord = 0 \<or> message_type ord = 1 then r + 1 else r)\<rparr>)"
      using nasdaq_build_steps [OF buf(1), of ord 50] onq_sizes(1) by (simp add: 1 r_def onq_order_after_def)
    then show ?thesis using m onq_sizes(1) by (auto simp: 1 onq_layout_def buf(3))
  next
    case 2
    obtain m where m: "Option.bind (WriteSBTHeaderForDataPacket 43 buf) (nasdaq_buildReplaceOrder ord r) = Some (m, ord\<lparr>pre_user_ref_num := user_ref_num ord, user_ref_num := r\<rparr>, r + 1)"
      "length m = 126" "read_u16_be m = Some 41" "read_char (drop 2 m) = Some (CHR ''U'')" "onq_replace_layout ord r buf m"
      using onq_replace_message [OF buf(2) ok, of r] .
    then have "nasdaq_build ord b = Some ((m, 43), onq_order_after ord r,
       b\<lparr>onq_messages := (onq_messages b)[unat (next_buffer_slot b AND 1) := m], next_buffer_slot := next_buffer_slot b + 1,
         onq_user_ref_num := (if message_type ord = 0 \<or> message_type ord = 1 then r + 1 else r)\<rparr>)"
      using nasdaq_build_steps [OF buf(1), of ord 43] onq_sizes(2) by (simp add: 2 r_def onq_order_after_def)
    then show ?thesis using m onq_sizes(2) by (auto simp: 2 onq_layout_def buf(3))
  next
    case 3
    obtain m where m: "Option.bind (WriteSBTHeaderForDataPacket 14 buf) (nasdaq_buildCancelOrder ord r) = Some (m, ord, r)"
      "length m = 126" "read_u16_be m = Some 12" "read_char (drop 2 m) = Some (CHR ''U'')" "onq_cancel_layout ord r m"
      using onq_cancel_message [OF buf(2), of ord r] .
    then have "nasdaq_build ord b = Some ((m, 14), onq_order_after ord r,
       b\<lparr>onq_messages := (onq_messages b)[unat (next_buffer_slot b AND 1) := m], next_buffer_slot := next_buffer_slot b + 1,
         onq_user_ref_num := (if message_type ord = 0 \<or> message_type ord = 1 then r + 1 else r)\<rparr>)"
      using nasdaq_build_steps [OF buf(1), of ord 14] onq_sizes(3) by (simp add: 3 r_def onq_order_after_def)
    then show ?thesis using m onq_sizes(3) by (auto simp: 3 onq_layout_def buf(3))
  next
    case 4
    obtain m where m: "Option.bind (WriteSBTHeaderForDataPacket 15 buf) (nasdaq_buildModifyOrder ord r) = Some (m, ord, r)"
      "length m = 126" "read_u16_be m = Some 13" "read_char (drop 2 m) = Some (CHR ''U'')" "onq_modify_layout ord r m"
      using onq_modify_message [OF buf(2), of ord r] .
    then have "nasdaq_build ord b = Some ((m, 15), onq_order_after ord r,
       b\<lparr>onq_messages := (onq_messages b)[unat (next_buffer_slot b AND 1) := m], next_buffer_slot := next_buffer_slot b + 1,
         onq_user_ref_num := (if message_type ord = 0 \<or> message_type ord = 1 then r + 1 else r)\<rparr>)"
      using nasdaq_build_steps [OF buf(1), of ord 15] onq_sizes(4) by (simp add: 4 r_def onq_order_after_def)
    then show ?thesis using m onq_sizes(4) by (auto simp: 4 onq_layout_def buf(3))
  next
    case 5
    obtain m where m: "Option.bind (WriteSBTHeaderForDataPacket 6 buf) (nasdaq_buildAccountQueryRequest ord r) = Some (m, ord, r)"
      "length m = 126" "read_u16_be m = Some 4" "read_char (drop 2 m) = Some (CHR ''U'')" "onq_query_layout m"
      using onq_query_message [OF buf(2), of ord r] .
    then have "nasdaq_build ord b = Some ((m, 6), onq_order_after ord r,
       b\<lparr>onq_messages := (onq_messages b)[unat (next_buffer_slot b AND 1) := m], next_buffer_slot := next_buffer_slot b + 1,
         onq_user_ref_num := (if message_type ord = 0 \<or> message_type ord = 1 then r + 1 else r)\<rparr>)"
      using nasdaq_build_steps [OF buf(1), of ord 6] onq_sizes(5) by (simp add: 5 r_def onq_order_after_def)
    then show ?thesis using m onq_sizes(5) by (auto simp: 5 onq_layout_def buf(3))
  qed
qed


text \<open>A cancel request is built with the next number that is still free, not with the number of the order.\<close>

lemma nasdaq_cancel_names_next_order:
  assumes "onq_ready b" "onq_order_ok ord" "message_type ord = 0" "nasdaq_build ord b = Some (p, ord1, b1)"
    "nasdaq_build (ord1\<lparr>message_type := 2\<rparr>) b1 = Some ((m, n), q)"
  shows "read_u32_be (drop 4 m) = Some (user_ref_num ord1 + 1)"
proof -
  obtain m0 where 0: "length m0 = 126" "ord1 = ord\<lparr>user_ref_num := onq_user_ref_num b\<rparr>"
      "b1 = b\<lparr>onq_messages := (onq_messages b)[unat (next_buffer_slot b AND 1) := m0], next_buffer_slot := next_buffer_slot b + 1,
         onq_user_ref_num := onq_user_ref_num b + 1\<rparr>"
    using nasdaq_build_message [OF assms(1,2)] assms(3,4) by (auto simp: onq_order_after_def)
  have "onq_ready b1" using assms(1) 0(1) by (simp add: 0(3) onq_ready_def prefilled_update)
  moreover have "onq_order_ok (ord1\<lparr>message_type := 2\<rparr>)" using assms(2) by (simp add: onq_order_ok_def 0(2))
  ultimately show ?thesis
    using nasdaq_build_message [of b1 "ord1\<lparr>message_type := 2\<rparr>"] assms(5) by (auto simp: onq_layout_def onq_cancel_layout_def 0(2,3))
qed

text \<open>The buffers are used in turns and a short symbol leaves the end of an earlier one standing.\<close>

definition sample_nasdaq_order :: "string \<Rightarrow> Order" where
  "sample_nasdaq_order s = (default_order NASDAQ)\<lparr>quantity := 100, price := 1500000, symbol := s @ replicate (32 - length s) (CHR 0x00),
     real_symbol_len := of_nat (length s), real_cl_ord_token_len := 4, client_order_token := ''N001'' @ replicate 28 (CHR 0x00)\<rparr>"

lemma nasdaq_symbol_tail:
  "(do { (p1, x1, b1) \<leftarrow> nasdaq_build (sample_nasdaq_order ''GOOGL'') new_Builder_OUCH_NASDAQ;
         (p2, x2, b2) \<leftarrow> nasdaq_build (sample_nasdaq_order ''MSFT'') b1;
         (p3, x3, b3) \<leftarrow> nasdaq_build (sample_nasdaq_order ''IBM'') b2;
         read_bytes 8 (drop 13 (fst p3)) }) = Some ''IBMGL   ''"
  by code_simp

subsection \<open>Properties\<close>

text \<open>C15. Whatever orders a newly constructed BIST builder is given, provided each has a type of message the
  builder knows (0 to 3), a known account and a token of at most 14 characters, each of them gives a message
  with a SoupBinTCP header for unsequenced data of its length and every byte behind it as the layout says: the
  fields of the order (the price cut to 32 bits) and the account, and the constants of the prepared buffers (open or close,
  customer info, display quantity, client category, off-hours flag, the three self-match fields and
  the reserved bytes), although buffers are used again and again.  The 14 bytes of the token are the token and,
  where it is shorter, what remains there of the token of the last message but one of the same type, or the
  spaces the buffer was made with (cancellations copy 14 bytes).  The type of a replacement is 'U'; the generated header documents 'u'.\<close>

theorem bist_ouch_messages:
  assumes "new_Builder_OUCH_BIST sm = Some b" "list_all (bist_order_ok b) ords"
  shows "\<exists>ms b'. bist_builds ords b = Some (ms, b') \<and>
    list_all2 (\<lambda>(ord, f) (m, n). sbt_data_header n m \<and> bist_layout ord (eci_local b ! unat (account_index ord)) f m)
      (zip ords (token_fields ords ((spaces 14, spaces 14), (spaces 14, spaces 14)))) ms"
  using bist_builds_messages [OF new_builder_ready [OF assms(1)] assms(2)] new_builder_fields [OF assms(1)] by auto

definition sample_bist_order :: "u8 \<Rightarrow> Order" where
  "sample_bist_order t = (default_order BIST)\<lparr>message_type := t, instrument_id := 70616, quantity := 100, price := 12500,
     real_cl_ord_token_len := 4, client_order_token := ''A001'' @ replicate 28 (CHR 0x00)\<rparr>"

theorem bist_ouch_messages_witness:
  "\<exists>sm b ms b'. sample_sessions = Some sm \<and> new_Builder_OUCH_BIST sm = Some b \<and>
     bist_builds [sample_bist_order 0, sample_bist_order 1, sample_bist_order 2, sample_bist_order 3] b = Some (ms, b') \<and>
     length ms = 4 \<and> read_bytes 14 (drop 4 (fst (ms ! 0))) = Some ''A001          '' \<and>
     read_char (drop 3 (fst (ms ! 1))) = Some (CHR ''U'') \<and> read_bytes 2 (drop 115 (fst (ms ! 0))) = Some (zeros 2)"
proof -
  obtain sm where sm: "sample_sessions = Some sm" "initialize_exc_info sm = Some [make_eci ''DMACCOUNT1234'' ''EXCHANGEINFO1234'']"
    by (simp add: sample_sessions_def new_SessionManager_def make_context_def sample_config_def MAX_SESSIONS_def
        MAX_TCP_SESSIONS_def store_lookup_def convertToVenue_def convertToProtocol_def nth_opt_def initialize_exc_info_def
        getSessionIndex_def lookup_tab_def getSessionContext_def getSessionAuth_def make_auth_def make_UserInfo_SBT_def)
  then obtain b where b: "new_Builder_OUCH_BIST sm = Some b" "length (eci_local b) = 1"
    by (simp add: new_Builder_OUCH_BIST_def templates)
  define os where "os = [sample_bist_order 0, sample_bist_order 1, sample_bist_order 2, sample_bist_order 3]"
  have "list_all (bist_order_ok b) os"
    by (simp add: os_def bist_order_ok_def b(2) sample_bist_order_def default_order_def ORDER_IDs_SIZE_def)
  from bist_ouch_messages [OF b(1) this] obtain ms b' where ms: "bist_builds os b = Some (ms, b')"
    "list_all2 (\<lambda>(ord, f) (m, n). sbt_data_header n m \<and> bist_layout ord (eci_local b ! unat (account_index ord)) f m)
      (zip os (token_fields os ((spaces 14, spaces 14), (spaces 14, spaces 14)))) ms" by blast
  have f: "token_field (sample_bist_order 0) ((spaces 14, spaces 14), (spaces 14, spaces 14)) = ''A001          ''" by code_simp
  have t: "message_type (sample_bist_order t) = t" for t by (simp add: sample_bist_order_def)
  have "length ms = 4" using list_all2_lengthD [OF ms(2)] by (simp add: os_def)
  moreover have "\<exists>e. bist_layout (sample_bist_order 0) e ''A001          '' (fst (ms ! 0))"
    using list_all2_nthD [OF ms(2), of 0] f by (auto simp: os_def case_prod_beta)
  moreover have "\<exists>e f. bist_layout (sample_bist_order 1) e f (fst (ms ! 1))"
    using list_all2_nthD [OF ms(2), of 1] by (auto simp: os_def case_prod_beta)
  ultimately have "length ms = 4 \<and> read_bytes 14 (drop 4 (fst (ms ! 0))) = Some ''A001          '' \<and>
     read_char (drop 3 (fst (ms ! 1))) = Some (CHR ''U'') \<and> read_bytes 2 (drop 115 (fst (ms ! 0))) = Some (zeros 2)"
    by (auto simp: bist_layout_def enter_layout_def replace_layout_def t)
  then show ?thesis using sm(1) b(1) ms(1) unfolding os_def by blast
qed



end
