(* ===== verification/Fix_Builder.thy ===== *)
theory Fix_Builder
  imports Fix_Framing
begin

text \<open>
  The FIX messages the engine sends (src/src/protocol/builders/FIX).  A pointer into a buffer is the
  buffer with a position in it; a write outside of the buffer is undefined.  Arrays on the stack
  start as zeros, since only bytes that have been written are read from them.  The clock and the
  broken-down local time are arguments.
\<close>

subsection \<open>Writing fields\<close>

type_synonym cursor = "string \<times> nat"

definition put :: "string \<Rightarrow> cursor \<Rightarrow> cursor option" where
  "put bs c = do { b \<leftarrow> write_bytes (snd c) bs (fst c); Some (b, snd c + length bs) }"

definition DIGIT_PAIRS :: string where
  "DIGIT_PAIRS = ''0001020304050607080910111213141516171819'' @ ''2021222324252627282930313233343536373839''
     @ ''4041424344454647484950515253545556575859'' @ ''6061626364656667686970717273747576777879''
     @ ''8081828384858687888990919293949596979899''"

text \<open>The two characters at an index of the table.\<close>

definition digit_pair :: "u32 \<Rightarrow> string option" where
  "digit_pair n = read_bytes 2 (drop (unat (n * 2)) DIGIT_PAIRS)"

function place_pairs :: "u32 \<Rightarrow> nat \<Rightarrow> string \<Rightarrow> (u32 \<times> nat \<times> string) option" where
  "place_pairs num tmp buf =
     (if 100 \<le> num then do {
        let quot = num div 100;
        let remainder = num - quot * 100;
        _ \<leftarrow> guard (2 \<le> tmp);
        dp \<leftarrow> digit_pair remainder;
        b \<leftarrow> write_bytes (tmp - 2) dp buf;
        place_pairs quot (tmp - 2) b }
      else Some (num, tmp, buf))"
  by auto
termination by (relation "measure (\<lambda>(num, _, _). unat num)") (auto simp: unat_div word_le_nat_alt)

declare place_pairs.simps [simp del]

definition place_digits :: "u32 \<Rightarrow> nat" where
  "place_digits num =
     (if 1000000000 \<le> num then 10 else if 100000000 \<le> num then 9 else if 10000000 \<le> num then 8
      else if 1000000 \<le> num then 7 else if 100000 \<le> num then 6 else if 10000 \<le> num then 5
      else if 1000 \<le> num then 4 else 3)"

definition placeIntValue :: "u32 \<Rightarrow> cursor \<Rightarrow> cursor option" where
  "placeIntValue num c =
     (if num < 100 then
        if num < 10 then put [digit_char (unat num)] c
        else do { dp \<leftarrow> digit_pair num; put dp c }
      else do {
        let end_ptr = snd c + place_digits num;
        (n, tmp, b) \<leftarrow> place_pairs num end_ptr (fst c);
        if n < 10 then do {
          _ \<leftarrow> guard (1 \<le> tmp);
          b1 \<leftarrow> write_bytes (tmp - 1) [digit_char (unat n)] b;
          Some (b1, end_ptr) }
        else do {
          _ \<leftarrow> guard (2 \<le> tmp);
          dp \<leftarrow> digit_pair n;
          b1 \<leftarrow> write_bytes (tmp - 2) dp b;
          Some (b1, end_ptr) } })"

definition addTag :: "string \<Rightarrow> nat \<Rightarrow> string \<Rightarrow> nat \<Rightarrow> cursor \<Rightarrow> cursor option" where
  "addTag tag taglen val vallen c = do {
     t \<leftarrow> read_bytes taglen tag;
     v \<leftarrow> read_bytes vallen val;
     c1 \<leftarrow> put t c;
     c2 \<leftarrow> put v c1;
     put [SOH] c2 }"

definition addTag_int :: "string \<Rightarrow> nat \<Rightarrow> u32 \<Rightarrow> cursor \<Rightarrow> cursor option" where
  "addTag_int tag taglen val c = do {
     t \<leftarrow> read_bytes taglen tag;
     c1 \<leftarrow> put t c;
     c2 \<leftarrow> placeIntValue val c1;
     put [SOH] c2 }"

text \<open>A number with fewer digits than the scale has makes the size of the integer part wrap around.\<close>

definition addTagPrice :: "nat \<Rightarrow> string \<Rightarrow> nat \<Rightarrow> u32 \<Rightarrow> cursor \<Rightarrow> cursor option" where
  "addTagPrice scale tag taglen val c = do {
     t \<leftarrow> read_bytes taglen tag;
     c1 \<leftarrow> put t c;
     (temp, temp_end) \<leftarrow> placeIntValue val (replicate 16 (CHR 0x00), 0);
     _ \<leftarrow> guard (scale \<le> temp_end);
     let int_part_size = temp_end - scale;
     ip \<leftarrow> read_bytes int_part_size temp;
     c2 \<leftarrow> put ip c1;
     c3 \<leftarrow> put ''.'' c2;
     fp \<leftarrow> read_bytes (temp_end - int_part_size) (drop int_part_size temp);
     c4 \<leftarrow> put fp c3;
     put [SOH] c4 }"

definition digit :: "u32 \<Rightarrow> u8" where
  "digit num = (if 100000 \<le> num then 6 else if 10000 \<le> num then 5 else if 1000 \<le> num then 4
     else if 100 \<le> num then 3 else if 10 \<le> num then 2 else 1)"

subsection \<open>Time stamps\<close>

record tm =
  tm_year :: nat
  tm_mon :: nat
  tm_mday :: nat

definition two_digits :: "nat \<Rightarrow> string" where
  "two_digits n = [digit_char (n div 10), digit_char (n mod 10)]"

definition second_entry :: "tm \<Rightarrow> nat \<Rightarrow> string" where
  "second_entry t i =
     (let y = tm_year t + 1900 in
      [digit_char (y div 1000 mod 10), digit_char (y div 100 mod 10), digit_char (y div 10 mod 10), digit_char (y mod 10)]
      @ two_digits (tm_mon t + 1) @ two_digits (tm_mday t) @ ''-''
      @ two_digits (i div 3600) @ '':'' @ two_digits (i mod 3600 div 60) @ '':'' @ two_digits (i mod 60))"

definition init_time_table :: "tm \<Rightarrow> string list" where
  "init_time_table t = map (second_entry t) [0..<86400]"

definition milli_digits :: "nat \<Rightarrow> string" where
  "milli_digits ms = [digit_char (ms div 100), digit_char (ms div 10 mod 10), digit_char (ms mod 10)]"

definition transact_time :: "string list \<Rightarrow> u64 \<Rightarrow> string option" where
  "transact_time table now = do {
     let sec_of_day = unat (now div 1000000000) mod 86400;
     s \<leftarrow> nth_opt table sec_of_day;
     let ms = unat (now div 1000000) mod 1000;
     Some (s @ ''.'' @ milli_digits ms) }"

definition epoch_to_transact_time :: "string list \<Rightarrow> u64 \<Rightarrow> string option" where
  "epoch_to_transact_time table ns = do {
     let sec = ns div 1000000000;
     let ms = unat ((ns div 1000000) mod 1000);
     s \<leftarrow> nth_opt table (unat (sec mod 86400));
     Some (s @ ''.'' @ milli_digits ms) }"

subsection \<open>Bodies\<close>

definition session_auth_fix :: "nat \<Rightarrow> SessionManager \<Rightarrow> VenueUserInfo_FIX option" where
  "session_auth_fix i sm = do {
     cx \<leftarrow> getSessionContext i sm;
     a \<leftarrow> getSessionAuth (unat (cx_tcp_index cx)) sm;
     auth_fix a }"

definition heartbeat_interval_text :: string where "heartbeat_interval_text = ''60''"

definition add_string :: "string \<Rightarrow> nat \<Rightarrow> string \<Rightarrow> cursor \<Rightarrow> cursor option" where
  "add_string tag taglen s = addTag tag taglen s (length s)"

definition buildLogon :: "VenueUserInfo_FIX \<Rightarrow> bool \<Rightarrow> cursor \<Rightarrow> cursor option" where
  "buildLogon u reset c = do {
     c1 \<leftarrow> addTag ''98='' 3 ''0'' 1 c;
     c2 \<leftarrow> (if reset then addTag ''141='' 4 ''Y'' 1 c1 else Some c1);
     c3 \<leftarrow> addTag ''108='' 4 heartbeat_interval_text 2 c2;
     c4 \<leftarrow> add_string ''553='' 4 (fix_username u) c3;
     c5 \<leftarrow> add_string ''554='' 4 (fix_password u) c4;
     addTag ''1137='' 5 ''9'' 1 c5 }"

definition buildTestRequest :: "cursor \<Rightarrow> cursor option" where
  "buildTestRequest c = addTag_int ''112='' 4 1 c"

definition buildSequenceReset :: "u32 \<Rightarrow> cursor \<Rightarrow> cursor option" where
  "buildSequenceReset new_seq c = do {
     c1 \<leftarrow> addTag ''123='' 4 ''Y'' 1 c;
     addTag_int ''36='' 3 new_seq c1 }"

definition buildResendRequest :: "u32 \<Rightarrow> u32 \<Rightarrow> cursor \<Rightarrow> cursor option" where
  "buildResendRequest begin_seq end_seq c = do {
     c1 \<leftarrow> addTag_int ''7='' 2 begin_seq c;
     addTag_int ''16='' 3 end_seq c1 }"

fun side_number :: "Side \<Rightarrow> u32" where
  "side_number Buy = 0"
| "side_number Sell = 1"
| "side_number Side_Unknown = 2"

fun order_type_number :: "OrderType \<Rightarrow> u32" where
  "order_type_number OrderType_Unknown = 0"
| "order_type_number Market = 1"
| "order_type_number Limit = 2"
| "order_type_number (OrderType_Raw b) = ucast b"

text \<open>The table of the times in force; a null entry or an index outside is undefined.\<close>

fun timeinforce :: "TimeInForce \<Rightarrow> string option" where
  "timeinforce DAY = Some ''0''"
| "timeinforce GTC = Some ''1''"
| "timeinforce IOC = Some ''3''"
| "timeinforce FOK = Some ''4''"
| "timeinforce GTD = Some ''6''"
| "timeinforce AT_CROSSING = Some ''9''"
| "timeinforce GTS = Some ''S''"
| "timeinforce _ = None"

definition buildNewOrderSingle :: "string list \<Rightarrow> VenueUserInfo_FIX \<Rightarrow> Order \<Rightarrow> cursor \<Rightarrow> cursor option" where
  "buildNewOrderSingle table u ord c = do {
     c1 \<leftarrow> addTag ''11='' 3 (client_order_token ord) 13 c;
     c2 \<leftarrow> add_string ''1='' 2 (fix_account u) c1;
     c3 \<leftarrow> addTag ''528='' 4 ''A'' 1 c2;
     c4 \<leftarrow> addTag ''55='' 3 (symbol ord) (unat (real_symbol_len ord)) c3;
     c5 \<leftarrow> addTag_int ''54='' 3 (side_number (side ord)) c4;
     ts \<leftarrow> epoch_to_transact_time table (timestamp ord);
     c6 \<leftarrow> add_string ''60='' 3 ts c5;
     c7 \<leftarrow> addTag_int ''38='' 3 (quantity ord) c6;
     c8 \<leftarrow> addTag_int ''40='' 3 (order_type_number (order_type ord)) c7;
     c9 \<leftarrow> (if order_type ord = Limit then addTagPrice 4 ''44='' 3 (ucast (price ord)) c8 else Some c8);
     tif \<leftarrow> timeinforce (time_in_force ord);
     addTag ''59='' 3 tif 1 c9 }"

definition buildCancelRequest :: "string list \<Rightarrow> Order \<Rightarrow> cursor \<Rightarrow> cursor option" where
  "buildCancelRequest table ord c = do {
     c1 \<leftarrow> addTag ''41='' 3 ''NONE'' 4 c;
     c2 \<leftarrow> addTag_int ''37='' 3 (ucast (order_id ord)) c1;
     c3 \<leftarrow> addTag ''11='' 3 (client_order_token ord) (unat (real_cl_ord_token_len ord)) c2;
     c4 \<leftarrow> addTag ''55='' 3 (symbol ord) (unat (real_symbol_len ord)) c3;
     c5 \<leftarrow> addTag_int ''54='' 3 (side_number (side ord)) c4;
     ts \<leftarrow> epoch_to_transact_time table (timestamp ord);
     c6 \<leftarrow> add_string ''60='' 3 ts c5;
     addTag_int ''38='' 3 (quantity ord) c6 }"

definition buildCancelReplaceRequest :: "string list \<Rightarrow> VenueUserInfo_FIX \<Rightarrow> Order \<Rightarrow> cursor \<Rightarrow> cursor option" where
  "buildCancelReplaceRequest table u ord c = do {
     c1 \<leftarrow> addTag_int ''37='' 3 (ucast (order_id ord)) c;
     c2 \<leftarrow> addTag ''41='' 3 ''NONE'' 4 c1;
     c3 \<leftarrow> addTag ''11='' 3 (client_order_token ord) (unat (real_cl_ord_token_len ord)) c2;
     c4 \<leftarrow> add_string ''1='' 2 (fix_account u) c3;
     c5 \<leftarrow> addTag ''528='' 4 ''A'' 1 c4;
     c6 \<leftarrow> addTag ''55='' 3 (symbol ord) (unat (real_symbol_len ord)) c5;
     c7 \<leftarrow> addTag_int ''54='' 3 (side_number (side ord)) c6;
     ts \<leftarrow> epoch_to_transact_time table (timestamp ord);
     c8 \<leftarrow> add_string ''60='' 3 ts c7;
     c9 \<leftarrow> addTag_int ''38='' 3 (quantity ord) c8;
     c10 \<leftarrow> addTag_int ''40='' 3 (order_type_number (order_type ord)) c9;
     c11 \<leftarrow> (if order_type ord = Limit then addTagPrice 4 ''44='' 3 (ucast (price ord)) c10 else Some c10);
     tif \<leftarrow> timeinforce (time_in_force ord);
     addTag ''59='' 3 tif 1 c11 }"

text \<open>The template parameter of \<^verbatim>\<open>build\<close> with its arguments.\<close>

datatype FixBody =
    FB_Logon bool
  | FB_Logout
  | FB_Heartbeat
  | FB_TestRequest
  | FB_SequenceReset u32
  | FB_ResendRequest u32 u32
  | FB_NewOrderSingle Order
  | FB_OrderCancelRequest Order
  | FB_OrderCancelReplaceRequest Order

fun msg_types :: "FixBody \<Rightarrow> string" where
  "msg_types (FB_Logon _) = ''A''"
| "msg_types FB_Logout = ''5''"
| "msg_types FB_Heartbeat = ''0''"
| "msg_types FB_TestRequest = ''1''"
| "msg_types (FB_ResendRequest _ _) = ''2''"
| "msg_types (FB_SequenceReset _) = ''4''"
| "msg_types (FB_NewOrderSingle _) = ''D''"
| "msg_types (FB_OrderCancelRequest _) = ''F''"
| "msg_types (FB_OrderCancelReplaceRequest _) = ''G''"

fun buildBody :: "string list \<Rightarrow> VenueUserInfo_FIX \<Rightarrow> FixBody \<Rightarrow> cursor \<Rightarrow> cursor option" where
  "buildBody table u (FB_Logon reset) c = buildLogon u reset c"
| "buildBody table u (FB_SequenceReset new_seq) c = buildSequenceReset new_seq c"
| "buildBody table u (FB_ResendRequest b e) c = buildResendRequest b e c"
| "buildBody table u FB_Logout c = Some c"
| "buildBody table u FB_Heartbeat c = Some c"
| "buildBody table u FB_TestRequest c = buildTestRequest c"
| "buildBody table u (FB_NewOrderSingle ord) c = buildNewOrderSingle table u ord c"
| "buildBody table u (FB_OrderCancelRequest ord) c = buildCancelRequest table ord c"
| "buildBody table u (FB_OrderCancelReplaceRequest ord) c = buildCancelReplaceRequest table u ord c"

subsection \<open>Header and trailer\<close>

definition fix_buildHeader ::
  "string list \<Rightarrow> u64 \<Rightarrow> nat \<Rightarrow> string \<Rightarrow> VenueUserInfo_FIX \<Rightarrow> Sequence_FIX \<Rightarrow> cursor \<Rightarrow> cursor option" where
  "fix_buildHeader table now len msg_type u q c = do {
     let next_seqnum = my_next_seqnum q;
     let seqnum_digits = digit next_seqnum;
     ts \<leftarrow> transact_time table now;
     let body_len = len + (1 + length (fix_my_id u) + length (fix_venue_id u) + unat seqnum_digits + length ts + 20);
     c1 \<leftarrow> addTag ''8='' 2 ''FIX.5.0 '' 7 c;
     c2 \<leftarrow> addTag_int ''9='' 2 (of_nat body_len) c1;
     c3 \<leftarrow> addTag ''35='' 3 msg_type 1 c2;
     c4 \<leftarrow> add_string ''49='' 3 (fix_my_id u) c3;
     c5 \<leftarrow> add_string ''56='' 3 (fix_venue_id u) c4;
     c6 \<leftarrow> addTag_int ''34='' 3 next_seqnum c5;
     add_string ''52='' 3 ts c6 }"

definition checksum :: "string \<Rightarrow> u32" where
  "checksum s = sum_list (map (\<lambda>ch. of_char ch) s) mod 256"

definition finalizeChecksum :: "string \<Rightarrow> nat \<Rightarrow> cursor option" where
  "finalizeChecksum buf len = do {
     s \<leftarrow> read_bytes len buf;
     let cksum = checksum s;
     c1 \<leftarrow> put ''10='' (buf, len);
     c2 \<leftarrow> put [digit_char (unat ((cksum div 100) mod 10)), digit_char (unat ((cksum div 10) mod 10)),
               digit_char (unat (cksum mod 10))] c1;
     put [SOH] c2 }"

subsection \<open>Messages\<close>

definition MAX_BODY_SIZE :: nat where "MAX_BODY_SIZE = 256"

definition TEMP_BUFFER_SIZE :: nat where "TEMP_BUFFER_SIZE = 64"

record Builder_FIX =
  temp_bufs :: "Buffer_FIX list"
  temp_index :: u64
  second_table :: "string list"

definition new_Builder_FIX :: "tm \<Rightarrow> Buffer_FIX list \<Rightarrow> Builder_FIX" where
  "new_Builder_FIX t bufs = \<lparr>temp_bufs = bufs, temp_index = 0, second_table = init_time_table t\<rparr>"

definition set_fix :: "nat \<Rightarrow> Sequence_FIX \<Rightarrow> SessionManager \<Rightarrow> SessionManager option" where
  "set_fix i q = upd_session i (\<lambda>st. st\<lparr>sess_sequence := Seq_FIX q\<rparr>)"

definition fix_build ::
  "Builder_FIX \<Rightarrow> u64 \<Rightarrow> nat \<Rightarrow> FixBody \<Rightarrow> SessionManager \<Rightarrow> (Buffer_FIX \<times> SessionManager) option" where
  "fix_build fb now i body sm = do {
     q \<leftarrow> session_fix i sm;
     u \<leftarrow> session_auth_fix i sm;
     let seq = unat (my_next_seqnum q);
     buffer \<leftarrow> get_buffer seq q;
     (temp, hot_len) \<leftarrow> buildBody (second_table fb) u body (replicate MAX_BODY_SIZE (CHR 0x00), 0);
     c1 \<leftarrow> fix_buildHeader (second_table fb) now hot_len (msg_types body) u q (bf_data buffer, 0);
     hot \<leftarrow> read_bytes hot_len temp;
     (d2, p2) \<leftarrow> put hot c1;
     let len = (of_nat p2 :: u16);
     (d3, p3) \<leftarrow> finalizeChecksum d2 (unat len);
     let buffer1 = \<lparr>bf_data = d3, hotdata_start = p2, bf_len = len + 7, hotdata_len = of_nat hot_len\<rparr>;
     let q1 = q\<lparr>fix_history := (fix_history q)(seq := buffer1)\<rparr>;
     sm1 \<leftarrow> set_fix i (increase_next_seq q1) sm;
     Some (buffer1, sm1) }"

subsection \<open>Writing one piece after another\<close>

lemma put_put: "Option.bind (put s c) (put t) = put (s @ t) c"
  by (cases c) (auto simp: put_def write_bytes_def drop_drop add.commute add.left_commute)

lemma put_bind [simp]: "Option.bind (put s c) (\<lambda>c1. Option.bind (put t c1) f) = Option.bind (put (s @ t) c) f"
  unfolding put_put [of s c t, symmetric] by (cases "put s c") simp_all

lemma put_put' [simp]: "Option.bind (put s c) (\<lambda>c1. put t c1) = put (s @ t) c"
  by (rule put_put)

lemma put_fits: "p + length s \<le> length b \<Longrightarrow> put s (b, p) = Some (take p b @ s @ drop (p + length s) b, p + length s)"
  by (simp add: put_def write_bytes_def)

lemma read_all [simp]: "read_bytes (length s) s = Some s"
  by (simp add: read_bytes_def)

lemma addTag_put: "read_bytes n tag = Some t \<Longrightarrow> read_bytes m val = Some v \<Longrightarrow> addTag tag n val m c = put (t @ v @ [SOH]) c"
  by (simp add: addTag_def)

subsection \<open>Numbers\<close>

lemma decimal_step: "10 \<le> n \<Longrightarrow> decimal n = decimal (n div 10) @ [digit_char (n mod 10)]"
proof -
  assume "10 \<le> n"
  then have "n \<noteq> 0" "n div 10 \<noteq> 0" by (simp, simp add: div_eq_0_iff)
  then show ?thesis using digits_of.simps [of n] by (simp add: decimal_def)
qed

lemma decimal_digit: "n < 10 \<Longrightarrow> decimal n = [digit_char n]"
proof -
  have "\<forall>n \<in> set [0..<10]. decimal n = [digit_char n]" by code_simp
  then show "n < 10 \<Longrightarrow> decimal n = [digit_char n]" by simp
qed

lemma decimal_pair: "100 \<le> n \<Longrightarrow> decimal n = decimal (n div 100) @ two_digits (n mod 100)"
proof -
  assume n: "100 \<le> n"
  have "n mod (10 * 10) = 10 * (n div 10 mod 10) + n mod 10" by (rule mod_mult2_eq)
  then have m: "n mod 100 div 10 = n div 10 mod 10" "n mod 100 mod 10 = n mod 10" by simp_all
  have "decimal n = decimal (n div 10) @ [digit_char (n mod 10)]" using n by (intro decimal_step) simp
  also have "decimal (n div 10) = decimal (n div 100) @ [digit_char (n div 10 mod 10)]"
    using n decimal_step [of "n div 10"] div_mult2_eq [of n 10 10] by simp
  finally show ?thesis by (simp add: two_digits_def m)
qed

lemma decimal_two: "10 \<le> n \<Longrightarrow> n < 100 \<Longrightarrow> decimal n = two_digits n"
  by (simp add: decimal_step decimal_digit two_digits_def)

lemma length_decimal_eq: "10 ^ k \<le> n \<Longrightarrow> n < 10 ^ Suc k \<Longrightarrow> length (decimal n) = Suc k"
proof (induction k arbitrary: n)
  case (Suc k)
  then have "10 ^ k \<le> n div 10" "n div 10 < 10 ^ Suc k" "10 \<le> n"
    by (simp_all add: less_eq_div_iff_mult_less_eq less_mult_imp_div_less mult.commute)
      (use Suc.prems(1) in \<open>simp add: le_trans [of 10 "10 * 10 ^ k" n]\<close>)
  then show ?case using Suc.IH by (simp add: decimal_step)
qed (simp add: decimal_digit)

lemma length_two_digits [simp]: "length (two_digits n) = 2"
  by (simp add: two_digits_def)

lemma DIGIT_PAIRS_table: "DIGIT_PAIRS = concat (map two_digits [0..<100])"
  by code_simp

lemma drop_pairs: "drop (2 * k) (concat (map two_digits xs)) = concat (map two_digits (drop k xs))"
proof (induction xs arbitrary: k)
  case (Cons x xs)
  then show ?case by (cases k) simp_all
qed simp

lemma digit_pair_two:
  assumes "unat n < 100"
  shows "digit_pair n = Some (two_digits (unat n))"
proof -
  have "unat (n * 2) = 2 * unat n" using assms by (simp add: unat_word_ariths)
  moreover have "drop (unat n) [0..<100] = unat n # [Suc (unat n)..<100]"
    using assms upt_conv_Cons [of "unat n" 100] unfolding drop_upt by simp
  ultimately show ?thesis
    unfolding digit_pair_def DIGIT_PAIRS_table by (simp only: drop_pairs) (simp add: read_bytes_def)
qed

lemma place_pairs_spec:
  assumes "length (decimal (unat num)) \<le> tmp" "tmp \<le> length buf"
  shows "\<exists>q s. place_pairs num tmp buf = Some (q, tmp - length s, take (tmp - length s) buf @ s @ drop tmp buf)
    \<and> unat q < 100 \<and> decimal (unat num) = decimal (unat q) @ s"
  using assms
proof (induction num tmp buf rule: place_pairs.induct)
  case (1 num tmp buf)
  show ?case
  proof (cases "100 \<le> num")
    case True
    have n: "100 \<le> unat num" "unat (num div 100) = unat num div 100"
      using True by (simp_all add: word_le_nat_alt unat_div)
    have r: "unat (num - num div 100 * 100) = unat num mod 100"
      unfolding minus_div_mult_eq_mod by (simp add: unat_mod)
    let ?d = "two_digits (unat num mod 100)"
    let ?b = "take (tmp - 2) buf @ ?d @ drop tmp buf"
    note d = decimal_pair [OF n(1)]
    have t: "2 \<le> tmp" "length (decimal (unat (num div 100))) \<le> tmp - 2" "tmp - 2 \<le> length ?b"
      using "1.prems" d n(2) by simp_all
    have "tmp - 2 + length ?d = tmp" using t(1) by simp
    then have w: "write_bytes (tmp - 2) ?d buf = Some ?b" using "1.prems"(2) unfolding write_bytes_def by simp
    have dp: "digit_pair (num - num div 100 * 100) = Some ?d" using digit_pair_two [of "num - num div 100 * 100"] r by simp
    obtain q s where q: "place_pairs (num div 100) (tmp - 2) ?b
        = Some (q, tmp - 2 - length s, take (tmp - 2 - length s) ?b @ s @ drop (tmp - 2) ?b)"
      "unat q < 100" "decimal (unat (num div 100)) = decimal (unat q) @ s"
      using "1.IH" [OF True refl refl _ dp w] t by auto
    have "place_pairs num tmp buf = place_pairs (num div 100) (tmp - 2) ?b"
      by (subst place_pairs.simps) (use True t(1) dp w in simp)
    moreover have "take (tmp - 2 - length s) ?b @ s @ drop (tmp - 2) ?b = take (tmp - length (s @ ?d)) buf @ (s @ ?d) @ drop tmp buf"
    proof -
      have l: "length (take (tmp - 2) buf) = tmp - 2" using "1.prems"(2) by simp
      have "take (tmp - 2 - length s) ?b = take (tmp - 2 - length s) buf" using l by (simp del: length_take)
      moreover have "drop (tmp - 2) ?b = ?d @ drop tmp buf" using l by (simp del: length_take)
      ultimately show ?thesis by simp
    qed
    moreover have "tmp - 2 - length s = tmp - length (s @ ?d)" by simp
    ultimately have "place_pairs num tmp buf = Some (q, tmp - length (s @ ?d), take (tmp - length (s @ ?d)) buf @ (s @ ?d) @ drop tmp buf)"
      using q(1) by (simp only:)
    moreover have "decimal (unat num) = decimal (unat q) @ s @ ?d" using d n(2) q(3) by simp
    ultimately show ?thesis using q(2) by blast
  next
    case False
    then show ?thesis by (subst place_pairs.simps) (simp add: word_le_nat_alt)
  qed
qed

lemma place_digits_length: "100 \<le> num \<Longrightarrow> place_digits num = length (decimal (unat num))"
proof -
  assume "100 \<le> num"
  then have n: "10 ^ 2 \<le> unat num" "unat num < 10 ^ 10"
    using unsigned_less [of num, where 'a = nat] by (simp_all add: word_le_nat_alt)
  note l = length_decimal_eq [of _ "unat num"]
  show ?thesis
    using n l [of 2] l [of 3] l [of 4] l [of 5] l [of 6] l [of 7] l [of 8] l [of 9]
    by (simp add: place_digits_def word_le_nat_alt)
qed

lemma decimal_fits_u32: "length (decimal (unat (num :: u32))) \<le> 10"
  using unsigned_less [of num, where 'a = nat] by (intro length_decimal) simp_all

lemma place_pairs_outside:
  assumes "100 \<le> num" "length buf < tmp" "2 \<le> tmp"
  shows "place_pairs num tmp buf = None"
proof -
  have "unat (num - num div 100 * 100) < 100" unfolding minus_div_mult_eq_mod by (simp add: unat_mod)
  then have "digit_pair (num - num div 100 * 100) = Some (two_digits (unat (num - num div 100 * 100)))" by (rule digit_pair_two)
  then show ?thesis using assms by (subst place_pairs.simps) (simp add: write_bytes_def)
qed

text \<open>The digits of a number are its decimal representation, however they are written.\<close>

lemma placeIntValue_put: "placeIntValue num c = put (decimal (unat num)) c"
proof (cases "num < 100")
  case True
  then have "unat num < 100" by (simp add: word_less_nat_alt)
  then show ?thesis
    using True digit_pair_two decimal_two decimal_digit by (auto simp: placeIntValue_def word_less_nat_alt not_less)
next
  case False
  then have num: "100 \<le> num" "100 \<le> unat num" by (simp_all add: word_le_nat_alt not_less)
  obtain b p where c: "c = (b, p)" by fastforce
  let ?n = "unat num" and ?e = "p + length (decimal (unat num))"
  note pd = place_digits_length [OF num(1)]
  have l: "2 \<le> length (decimal ?n)" unfolding decimal_pair [OF num(2)] by simp
  show ?thesis
  proof (cases "?e \<le> length b")
    case True
    obtain q s where q: "place_pairs num ?e b = Some (q, ?e - length s, take (?e - length s) b @ s @ drop ?e b)"
      "unat q < 100" "decimal ?n = decimal (unat q) @ s"
      using place_pairs_spec [of num ?e b] True by auto
    have e: "?e - length s = p + length (decimal (unat q))" using q(3) by simp
    have w: "write_bytes p (decimal (unat q)) (take (p + length (decimal (unat q))) b @ s @ drop ?e b) = Some (take p b @ decimal ?n @ drop ?e b)"
      using True q(3) by (simp add: write_bytes_def)
    show ?thesis
    proof (cases "unat q < 10")
      case True
      then show ?thesis using False q(1) w e put_fits [of p "decimal ?n" b] \<open>?e \<le> length b\<close>
        by (simp add: Let_def placeIntValue_def c pd decimal_digit word_less_nat_alt)
    next
      case ten: False
      then show ?thesis using False q(1,2) w e put_fits [of p "decimal ?n" b] \<open>?e \<le> length b\<close> digit_pair_two [OF q(2)]
        by (simp add: Let_def placeIntValue_def c pd decimal_two word_less_nat_alt)
    qed
  next
    case out: False
    then show ?thesis using False place_pairs_outside [OF num(1), of b ?e] l by (simp add: Let_def placeIntValue_def c pd put_def write_bytes_def)
  qed
qed

lemma addTag_int_put: "read_bytes n tag = Some t \<Longrightarrow> addTag_int tag n val c = put (t @ decimal (unat val) @ [SOH]) c"
  by (simp add: addTag_int_def placeIntValue_put)

lemma digit_length: "num < 1000000 \<Longrightarrow> unat (digit num) = length (decimal (unat num))"
proof -
  assume "num < 1000000"
  then have n: "unat num < 10 ^ 6" by (simp add: word_less_nat_alt)
  note l = length_decimal_eq [of _ "unat num"]
  show ?thesis
    using n l [of 0] l [of 1] l [of 2] l [of 3] l [of 4] l [of 5] decimal_digit [of "unat num"]
    by (simp add: digit_def word_le_nat_alt)
qed

subsection \<open>Fields of the messages\<close>

definition time_text :: "tm \<Rightarrow> u64 \<Rightarrow> string" where
  "time_text t ns = second_entry t (unat (ns div 1000000000) mod 86400) @ ''.'' @ milli_digits (unat (ns div 1000000) mod 1000)"

lemma table_entry: "i < 86400 \<Longrightarrow> nth_opt (init_time_table t) i = Some (second_entry t i)"
  by (simp add: init_time_table_def nth_opt_def nth_map_upt)

lemma times:
  "transact_time (init_time_table t) ns = Some (time_text t ns)"
  "epoch_to_transact_time (init_time_table t) ns = Some (time_text t ns)"
  using table_entry [of "unat (ns div 1000000000) mod 86400" t]
  by (simp_all add: transact_time_def epoch_to_transact_time_def time_text_def unat_mod)

definition price_text :: "u32 \<Rightarrow> string" where
  "price_text p = (let d = decimal (unat p); n = length d - 4 in take n d @ ''.'' @ drop n d)"

definition order_tail_fields :: "tm \<Rightarrow> Order \<Rightarrow> fix_field list" where
  "order_tail_fields t ord =
     [(55, take (unat (real_symbol_len ord)) (symbol ord)), (54, decimal (unat (side_number (side ord)))),
      (60, time_text t (timestamp ord)), (38, decimal (unat (quantity ord)))]"

definition order_kind_fields :: "Order \<Rightarrow> fix_field list" where
  "order_kind_fields ord =
     [(40, decimal (unat (order_type_number (order_type ord))))]
     @ (if order_type ord = Limit then [(44, price_text (ucast (price ord)))] else [])
     @ [(59, the (timeinforce (time_in_force ord)))]"

fun body_fields :: "tm \<Rightarrow> VenueUserInfo_FIX \<Rightarrow> FixBody \<Rightarrow> fix_field list" where
  "body_fields t u (FB_Logon reset) =
     [(98, ''0'')] @ (if reset then [(141, ''Y'')] else [])
     @ [(108, ''60''), (553, fix_username u), (554, fix_password u), (1137, ''9'')]"
| "body_fields t u FB_Logout = []"
| "body_fields t u FB_Heartbeat = []"
| "body_fields t u FB_TestRequest = [(112, ''1'')]"
| "body_fields t u (FB_SequenceReset n) = [(123, ''Y''), (36, decimal (unat n))]"
| "body_fields t u (FB_ResendRequest b e) = [(7, decimal (unat b)), (16, decimal (unat e))]"
| "body_fields t u (FB_NewOrderSingle ord) =
     [(11, take 13 (client_order_token ord)), (1, fix_account u), (528, ''A'')]
     @ order_tail_fields t ord @ order_kind_fields ord"
| "body_fields t u (FB_OrderCancelRequest ord) =
     [(41, ''NONE''), (37, decimal (unat (ucast (order_id ord) :: u32))),
      (11, take (unat (real_cl_ord_token_len ord)) (client_order_token ord))] @ order_tail_fields t ord"
| "body_fields t u (FB_OrderCancelReplaceRequest ord) =
     [(37, decimal (unat (ucast (order_id ord) :: u32))), (41, ''NONE''),
      (11, take (unat (real_cl_ord_token_len ord)) (client_order_token ord)), (1, fix_account u), (528, ''A'')]
     @ order_tail_fields t ord @ order_kind_fields ord"

definition order_ok :: "Order \<Rightarrow> bool" where
  "order_ok ord \<longleftrightarrow> length (client_order_token ord) = ORDER_IDs_SIZE \<and> unat (real_cl_ord_token_len ord) \<le> ORDER_IDs_SIZE
     \<and> length (symbol ord) = SYMBOL_SIZE \<and> unat (real_symbol_len ord) \<le> SYMBOL_SIZE
     \<and> timeinforce (time_in_force ord) \<noteq> None \<and> (order_type ord = Limit \<longrightarrow> 1000 \<le> (ucast (price ord) :: u32))"

fun body_ok :: "FixBody \<Rightarrow> bool" where
  "body_ok (FB_NewOrderSingle ord) = order_ok ord"
| "body_ok (FB_OrderCancelRequest ord) = order_ok ord"
| "body_ok (FB_OrderCancelReplaceRequest ord) = order_ok ord"
| "body_ok _ = True"

lemma tag_numbers:
  "decimal 1 = ''1''" "decimal 7 = ''7''" "decimal 11 = ''11''" "decimal 16 = ''16''" "decimal 34 = ''34''" "decimal 35 = ''35''"
  "decimal 36 = ''36''" "decimal 37 = ''37''" "decimal 38 = ''38''" "decimal 40 = ''40''" "decimal 41 = ''41''"
  "decimal 43 = ''43''" "decimal 44 = ''44''" "decimal 49 = ''49''" "decimal 52 = ''52''" "decimal 54 = ''54''"
  "decimal 55 = ''55''" "decimal 56 = ''56''" "decimal 59 = ''59''" "decimal 60 = ''60''" "decimal 98 = ''98''"
  "decimal 108 = ''108''" "decimal 112 = ''112''" "decimal 122 = ''122''" "decimal 123 = ''123''" "decimal 141 = ''141''"
  "decimal 528 = ''528''" "decimal 553 = ''553''" "decimal 554 = ''554''" "decimal 1137 = ''1137''"
  by code_simp+

text \<open>A field written by each of the functions.\<close>

lemma addTag_field:
  assumes "tag = decimal n @ ''=''" "taglen = length tag" "vallen \<le> length val"
  shows "addTag tag taglen val vallen = put (field_bytes (n, take vallen val))"
  using assms by (simp add: fun_eq_iff addTag_put [of _ _ tag _ _ "take vallen val"] read_bytes_def field_bytes_def)

lemma add_string_field:
  assumes "tag = decimal n @ ''=''" "taglen = length tag"
  shows "add_string tag taglen s = put (field_bytes (n, s))"
  using addTag_field [OF assms, of "length s" s] by (simp add: fun_eq_iff add_string_def)

lemma addTag_int_field:
  assumes "tag = decimal n @ ''=''" "taglen = length tag"
  shows "addTag_int tag taglen v = put (field_bytes (n, decimal (unat v)))"
  using assms by (simp add: fun_eq_iff addTag_int_put [of _ _ tag] read_bytes_def field_bytes_def)

lemma addTagPrice_field:
  assumes "tag = decimal n @ ''=''" "taglen = length tag" "1000 \<le> v"
  shows "addTagPrice 4 tag taglen v = put (field_bytes (n, price_text v))"
proof -
  let ?d = "decimal (unat v)"
  have "1000 \<le> unat v" using assms(3) by (simp add: word_le_nat_alt)
  then have "10 ^ 3 \<le> unat v" by simp
  have "4 \<le> length ?d"
  proof (rule ccontr)
    assume "\<not> 4 \<le> length ?d"
    moreover have "place_digits v = length ?d" using assms(3) by (intro place_digits_length) (simp add: word_le_nat_alt)
    ultimately show False using assms(3) by (simp add: place_digits_def split: if_splits)
  qed
  moreover have "length ?d \<le> 10" by (rule decimal_fits_u32)
  ultimately show ?thesis
    using assms(1,2)
    by (simp add: fun_eq_iff addTagPrice_def placeIntValue_put put_fits read_bytes_def price_text_def Let_def field_bytes_def) auto
qed

lemmas add_fields = addTag_field add_string_field addTag_int_field addTagPrice_field

lemma put_Nil [simp]: "snd c \<le> length (fst c) \<Longrightarrow> put [] c = Some c"
  by (simp add: put_def write_bytes_def)

lemma order_fields:
  assumes "order_ok ord"
  shows "addTag ''11='' 3 (client_order_token ord) 13 = put (field_bytes (11, take 13 (client_order_token ord)))"
    "addTag ''11='' 3 (client_order_token ord) (unat (real_cl_ord_token_len ord))
       = put (field_bytes (11, take (unat (real_cl_ord_token_len ord)) (client_order_token ord)))"
    "addTag ''55='' 3 (symbol ord) (unat (real_symbol_len ord)) = put (field_bytes (55, take (unat (real_symbol_len ord)) (symbol ord)))"
    "\<exists>tif. timeinforce (time_in_force ord) = Some tif \<and> addTag ''59='' 3 tif (Suc 0) = put (field_bytes (59, tif))"
    "order_type ord = Limit \<Longrightarrow> addTagPrice 4 ''44='' 3 (ucast (price ord)) = put (field_bytes (44, price_text (ucast (price ord))))"
proof -
  obtain tif where tif: "timeinforce (time_in_force ord) = Some tif" using assms by (auto simp: order_ok_def)
  then have "length tif = 1" by (cases "time_in_force ord") auto
  then have "addTag ''59='' 3 tif (Suc 0) = put (field_bytes (59, tif))"
    using addTag_field [of "''59=''" 59 3 "Suc 0" tif] by (simp add: tag_numbers)
  then show "\<exists>tif. timeinforce (time_in_force ord) = Some tif \<and> addTag ''59='' 3 tif (Suc 0) = put (field_bytes (59, tif))"
    using tif by blast
qed (use assms in \<open>simp_all add: order_ok_def add_fields tag_numbers ORDER_IDs_SIZE_def SYMBOL_SIZE_def\<close>)

lemma const_fields:
  "addTag ''98='' 3 ''0'' (Suc 0) = put (field_bytes (98, ''0''))" "addTag ''141='' 4 ''Y'' (Suc 0) = put (field_bytes (141, ''Y''))"
  "addTag ''108='' 4 ''60'' 2 = put (field_bytes (108, ''60''))" "addTag ''1137='' 5 ''9'' (Suc 0) = put (field_bytes (1137, ''9''))"
  "addTag ''123='' 4 ''Y'' (Suc 0) = put (field_bytes (123, ''Y''))" "addTag ''528='' 4 ''A'' (Suc 0) = put (field_bytes (528, ''A''))"
  "addTag ''41='' 3 ''NONE'' 4 = put (field_bytes (41, ''NONE''))"
  "add_string ''553='' 4 s = put (field_bytes (553, s))" "add_string ''554='' 4 s = put (field_bytes (554, s))"
  "add_string ''1='' 2 s = put (field_bytes (Suc 0, s))" "add_string ''60='' 3 s = put (field_bytes (60, s))"
  "add_string ''49='' 3 s = put (field_bytes (49, s))" "add_string ''56='' 3 s = put (field_bytes (56, s))"
  "add_string ''52='' 3 s = put (field_bytes (52, s))"
  "addTag_int ''112='' 4 v = put (field_bytes (112, decimal (unat v)))" "addTag_int ''36='' 3 v = put (field_bytes (36, decimal (unat v)))"
  "addTag_int ''7='' 2 v = put (field_bytes (7, decimal (unat v)))" "addTag_int ''16='' 3 v = put (field_bytes (16, decimal (unat v)))"
  "addTag_int ''54='' 3 v = put (field_bytes (54, decimal (unat v)))" "addTag_int ''38='' 3 v = put (field_bytes (38, decimal (unat v)))"
  "addTag_int ''40='' 3 v = put (field_bytes (40, decimal (unat v)))" "addTag_int ''37='' 3 v = put (field_bytes (37, decimal (unat v)))"
  "addTag_int ''34='' 3 v = put (field_bytes (34, decimal (unat v)))"
  using addTag_field [of "''98=''" 98 3 "Suc 0" "''0''"] addTag_field [of "''141=''" 141 4 "Suc 0" "''Y''"]
    addTag_field [of "''108=''" 108 4 2 "''60''"] addTag_field [of "''1137=''" 1137 5 "Suc 0" "''9''"]
    addTag_field [of "''123=''" 123 4 "Suc 0" "''Y''"] addTag_field [of "''528=''" 528 4 "Suc 0" "''A''"]
    addTag_field [of "''41=''" 41 3 4 "''NONE''"] add_string_field [of "''1=''" "Suc 0" 2 s]
  by (simp_all add: add_fields tag_numbers tag_numbers(1) [simplified])

lemma buildBody_fields:
  assumes "body_ok body" "snd c \<le> length (fst c)"
  shows "buildBody (init_time_table t) u body c = put (fields_bytes (body_fields t u body)) c"
proof (cases body)
  case (FB_NewOrderSingle ord)
  then have o: "order_ok ord" using assms(1) by simp
  show ?thesis using order_fields [OF o]
    by (auto simp: FB_NewOrderSingle buildNewOrderSingle_def const_fields times order_tail_fields_def order_kind_fields_def)
next
  case (FB_OrderCancelRequest ord)
  then have o: "order_ok ord" using assms(1) by simp
  show ?thesis using order_fields [OF o]
    by (auto simp: FB_OrderCancelRequest buildCancelRequest_def const_fields times order_tail_fields_def)
next
  case (FB_OrderCancelReplaceRequest ord)
  then have o: "order_ok ord" using assms(1) by simp
  show ?thesis using order_fields [OF o]
    by (auto simp: FB_OrderCancelReplaceRequest buildCancelReplaceRequest_def const_fields times order_tail_fields_def order_kind_fields_def)
qed (use assms(2) tag_numbers(1) in \<open>simp_all add: buildLogon_def buildTestRequest_def buildSequenceReset_def buildResendRequest_def const_fields
  heartbeat_interval_text_def\<close>)

subsection \<open>Whole messages\<close>

definition head_fields :: "tm \<Rightarrow> u64 \<Rightarrow> VenueUserInfo_FIX \<Rightarrow> u32 \<Rightarrow> FixBody \<Rightarrow> fix_field list" where
  "head_fields t now u seq body = [(35, msg_types body), (49, fix_my_id u), (56, fix_venue_id u), (34, decimal (unat seq)), (52, time_text t now)]"

definition checksum_text :: "string \<Rightarrow> string" where
  "checksum_text s = (let k = unat (checksum s) in [digit_char (k div 100 mod 10), digit_char (k div 10 mod 10), digit_char (k mod 10)])"

definition built_fields :: "tm \<Rightarrow> u64 \<Rightarrow> VenueUserInfo_FIX \<Rightarrow> u32 \<Rightarrow> FixBody \<Rightarrow> fix_field list" where
  "built_fields t now u seq body = head_fields t now u seq body @ body_fields t u body"

definition built_body :: "tm \<Rightarrow> u64 \<Rightarrow> VenueUserInfo_FIX \<Rightarrow> u32 \<Rightarrow> FixBody \<Rightarrow> string" where
  "built_body t now u seq body = fields_bytes (built_fields t now u seq body)"

definition built_checksum :: "tm \<Rightarrow> u64 \<Rightarrow> VenueUserInfo_FIX \<Rightarrow> u32 \<Rightarrow> FixBody \<Rightarrow> string" where
  "built_checksum t now u seq body =
     checksum_text (fix_header ''FIX.5.0'' (length (built_body t now u seq body)) @ built_body t now u seq body)"

definition built_message :: "tm \<Rightarrow> u64 \<Rightarrow> VenueUserInfo_FIX \<Rightarrow> u32 \<Rightarrow> FixBody \<Rightarrow> string" where
  "built_message t now u seq body = fix_message ''FIX.5.0'' (built_body t now u seq body) (built_checksum t now u seq body)"

lemma length_msg_types [simp]: "length (msg_types body) = 1"
  by (cases body) simp_all

lemma header_put:
  assumes "my_next_seqnum q < 1000000" "len + length (fields_bytes (head_fields t now u (my_next_seqnum q) body)) < 2 ^ 32"
  shows "fix_buildHeader (init_time_table t) now len (msg_types body) u q
    = put (fix_header ''FIX.5.0'' (len + length (fields_bytes (head_fields t now u (my_next_seqnum q) body)))
        @ fields_bytes (head_fields t now u (my_next_seqnum q) body))"
proof -
  let ?hf = "head_fields t now u (my_next_seqnum q) body"
  have l: "len + (1 + length (fix_my_id u) + length (fix_venue_id u) + unat (digit (my_next_seqnum q)) + length (time_text t now) + 20)
      = len + length (fields_bytes ?hf)"
    using digit_length [OF assms(1)] by (simp add: head_fields_def field_bytes_def tag_numbers)
  have n: "unat (of_nat (len + length (fields_bytes ?hf)) :: u32) = len + length (fields_bytes ?hf)"
    using assms(2) by (simp only: unat_of_nat) (simp add: take_bit_nat_eq_self)
  have ty: "addTag ''35='' 3 (msg_types body) 1 = put (field_bytes (35, msg_types body))"
    using addTag_field [of "''35=''" 35 3 1 "msg_types body"] by (simp add: tag_numbers)
  have bs: "addTag ''8='' 2 ''FIX.5.0 '' 7 = put (''8=FIX.5.0'' @ [SOH])"
    by (simp add: fun_eq_iff addTag_put [of _ _ "''8=''" _ _ "''FIX.5.0''"] read_bytes_def)
  have bl: "addTag_int ''9='' 2 v = put (''9='' @ decimal (unat v) @ [SOH])" for v
    by (simp add: fun_eq_iff addTag_int_put [of _ _ "''9=''"] read_bytes_def)
  have "fix_buildHeader (init_time_table t) now len (msg_types body) u q c = put (''8=FIX.5.0'' @ [SOH] @ ''9='' @ decimal (len + length (fields_bytes ?hf)) @ [SOH]
      @ field_bytes (35, msg_types body) @ field_bytes (49, fix_my_id u) @ field_bytes (56, fix_venue_id u)
      @ field_bytes (34, decimal (unat (my_next_seqnum q))) @ field_bytes (52, time_text t now)) c" for c
    unfolding fix_buildHeader_def Let_def times bind.bind_lunit l ty bs bl n const_fields by simp
  then show ?thesis by (simp add: fun_eq_iff fix_header_def head_fields_def)
qed

lemma finalizeChecksum_put:
  "take len buf = m \<Longrightarrow> length m = len \<Longrightarrow> finalizeChecksum buf len = put (''10='' @ checksum_text m @ [SOH]) (buf, len)"
  by (auto simp: finalizeChecksum_def read_bytes_def checksum_text_def Let_def unat_mod unat_div min_def split: if_splits)

lemma set_fix_get: "session_fix i sm = Some q \<Longrightarrow> \<exists>sm'. set_fix i q' sm = Some sm' \<and> session_fix i sm' = Some q'"
  by (auto simp: session_fix_def set_fix_def upd_session_def getSessionState_def nth_opt_def split: bind_splits if_splits)

lemma fix_build_spec:
  assumes "second_table fb = init_time_table t" "session_fix i sm = Some q" "session_auth_fix i sm = Some u" "body_ok body"
    and "my_next_seqnum q < 1000000" "length (bf_data (fix_history q (unat (my_next_seqnum q)))) = MAX_MSG_SIZE"
    and "length (fields_bytes (body_fields t u body)) \<le> MAX_BODY_SIZE"
    and "length (built_message t now u (my_next_seqnum q) body) \<le> MAX_MSG_SIZE"
  defines "msg \<equiv> built_message t now u (my_next_seqnum q) body"
  shows "\<exists>b sm'. fix_build fb now i body sm = Some (b, sm') \<and> take (unat (bf_len b)) (bf_data b) = msg \<and> unat (bf_len b) = length msg
    \<and> hotdata_start b = length msg - 7 \<and> unat (hotdata_len b) = length (fields_bytes (body_fields t u body))
    \<and> length (bf_data b) = MAX_MSG_SIZE
    \<and> session_fix i sm' = Some (q\<lparr>fix_history := (fix_history q)(unat (my_next_seqnum q) := b), my_next_seqnum := my_next_seqnum q + 1\<rparr>)"
proof -
  define seq where "seq = my_next_seqnum q"
  define bf where "bf = fields_bytes (body_fields t u body)"
  define hf where "hf = fields_bytes (head_fields t now u seq body)"
  define data where "data = bf_data (fix_history q (unat seq))"
  define m where "m = fix_header ''FIX.5.0'' (length bf + length hf) @ hf @ bf"
  have body: "built_body t now u seq body = hf @ bf" by (simp add: built_body_def built_fields_def hf_def bf_def)
  have msg: "msg = m @ ''10='' @ checksum_text m @ [SOH]"
    by (simp add: msg_def seq_def [symmetric] built_message_def fix_message_def built_checksum_def body add.commute m_def)
  have lm: "length msg = length m + 7" unfolding msg by (simp add: checksum_text_def Let_def)
  have l512: "length msg \<le> 512" "length data = 512" "length bf \<le> 256" "length m \<le> 505"
    using assms(6-8) lm by (simp_all add: msg_def MAX_MSG_SIZE_def MAX_BODY_SIZE_def data_def seq_def bf_def)
  have buf: "get_buffer (unat seq) q = Some (fix_history q (unat seq))"
    using assms(5) by (simp add: get_buffer_def DAILY_FIX_MSG_COUNT_def word_less_nat_alt seq_def)
  have hot: "buildBody (init_time_table t) u body (replicate MAX_BODY_SIZE (CHR 0x00), 0)
      = Some (bf @ drop (length bf) (replicate MAX_BODY_SIZE (CHR 0x00)), length bf)"
    using buildBody_fields [OF assms(4), of "(replicate MAX_BODY_SIZE (CHR 0x00), 0)" t u]
      put_fits [of 0 bf "replicate MAX_BODY_SIZE (CHR 0x00)"] assms(7) by (simp add: bf_def)
  have "length hf \<le> 505" using l512(4) by (simp add: m_def)
  then have "length bf + length hf < 2 ^ 32" using l512(3) by simp
  note hd = header_put [OF assms(5), of "length bf" t now u body, folded seq_def, folded hf_def, OF this]
  have d2: "Option.bind (fix_buildHeader (init_time_table t) now (length bf) (msg_types body) u q (data, 0)) (put bf)
      = Some (m @ drop (length m) data, length m)"
    unfolding hd put_put using put_fits [of 0 m data] l512(2,4) by (simp add: m_def)
  have len: "unat (of_nat (length m) :: u16) = length m" using l512(4) by (simp only: unat_of_nat) (simp add: take_bit_nat_eq_self)
  have len7: "unat (of_nat (length m) + 7 :: u16) = length msg"
  proof -
    have "of_nat (length m) + 7 = (of_nat (length msg) :: u16)" unfolding lm by simp
    moreover have "unat (of_nat (length msg) :: u16) = length msg"
      using l512(1) by (simp only: unat_of_nat) (simp add: take_bit_nat_eq_self)
    ultimately show ?thesis by (simp only:)
  qed
  have hlen: "unat (of_nat (length bf) :: u16) = length bf" using l512(3) by (simp only: unat_of_nat) (simp add: take_bit_nat_eq_self)
  have d3: "finalizeChecksum (m @ drop (length m) data) (length m) = Some (msg @ drop (length msg) data, length msg)"
    using finalizeChecksum_put [of "length m" "m @ drop (length m) data" m] l512(1,2) lm
      put_fits [of "length m" "''10='' @ checksum_text m @ [SOH]" "m @ drop (length m) data"] msg
    by (simp add: drop_drop add.commute)
  define b where "b = \<lparr>bf_data = msg @ drop (length msg) data, hotdata_start = length m, bf_len = of_nat (length m) + 7, hotdata_len = of_nat (length bf)\<rparr>"
  obtain c1 where c1: "fix_buildHeader (init_time_table t) now (length bf) (msg_types body) u q (data, 0) = Some c1"
    "put bf c1 = Some (m @ drop (length m) data, length m)" using d2 by (auto simp: bind_eq_Some_conv)
  have r: "read_bytes (length bf) (bf @ xs) = Some bf" for xs by (simp add: read_bytes_def)
  obtain sm' where sm': "set_fix i (increase_next_seq (q\<lparr>fix_history := (fix_history q)(unat seq := b)\<rparr>)) sm = Some sm'"
    "session_fix i sm' = Some (increase_next_seq (q\<lparr>fix_history := (fix_history q)(unat seq := b)\<rparr>))"
    using set_fix_get [OF assms(2)] by blast
  have "fix_build fb now i body sm = Some (b, sm')"
    unfolding fix_build_def assms(1-3) bind.bind_lunit Let_def seq_def [symmetric] buf hot split data_def [symmetric] c1 r
      len d3 b_def [symmetric] sm'(1) ..
  moreover have "take (unat (bf_len b)) (bf_data b) = msg \<and> unat (bf_len b) = length msg \<and> hotdata_start b = length msg - 7
      \<and> unat (hotdata_len b) = length bf \<and> length (bf_data b) = MAX_MSG_SIZE"
    using l512(1,2) by (simp add: b_def len7 hlen lm MAX_MSG_SIZE_def)
  moreover have "session_fix i sm' = Some (q\<lparr>fix_history := (fix_history q)(unat seq := b), my_next_seqnum := seq + 1\<rparr>)"
    using sm'(2) by (simp add: increase_next_seq_def seq_def)
  ultimately show ?thesis unfolding bf_def seq_def by blast
qed

subsection \<open>Reading a built message\<close>

definition tm_ok :: "tm \<Rightarrow> bool" where
  "tm_ok t \<longleftrightarrow> tm_mon t < 12 \<and> tm_mday t \<le> 31"

lemma digit_char_no_soh: "d < 10 \<Longrightarrow> digit_char d \<noteq> SOH"
  using is_digit_digit_char [of d] by (auto simp: is_digit_def)

lemma two_digits_no_soh: "n < 100 \<Longrightarrow> SOH \<notin> set (two_digits n)"
proof -
  assume "n < 100"
  then have "n div 10 < 10" "n mod 10 < 10" by simp_all
  then show ?thesis using digit_char_no_soh [of "n div 10"] digit_char_no_soh [of "n mod 10"] by (auto simp: two_digits_def)
qed

lemma time_text_no_soh:
  assumes "tm_ok t"
  shows "SOH \<notin> set (time_text t ns)"
proof -
  let ?i = "unat (ns div 1000000000) mod 86400" and ?ms = "unat (ns div 1000000) mod 1000"
  have "?i < 86400" "?ms < 1000" by simp_all
  then have "?i div 3600 < 100" "?i mod 3600 div 60 < 100" "?i mod 60 < 100" "?ms div 100 < 10" by simp_all
  moreover have "tm_mon t + 1 < 100" "tm_mday t < 100" using assms by (simp_all add: tm_ok_def)
  ultimately show ?thesis
    using two_digits_no_soh [of "?i div 3600"] two_digits_no_soh [of "?i mod 3600 div 60"] two_digits_no_soh [of "?i mod 60"]
      two_digits_no_soh [of "tm_mon t + 1"] two_digits_no_soh [of "tm_mday t"]
      digit_char_no_soh [THEN not_sym]
    by (simp add: time_text_def second_entry_def milli_digits_def Let_def)
qed

fun session_body :: "FixBody \<Rightarrow> bool" where
  "session_body (FB_NewOrderSingle _) = False"
| "session_body (FB_OrderCancelRequest _) = False"
| "session_body (FB_OrderCancelReplaceRequest _) = False"
| "session_body _ = True"

definition auth_ok :: "VenueUserInfo_FIX \<Rightarrow> bool" where
  "auth_ok u \<longleftrightarrow> list_all (\<lambda>s. SOH \<notin> set s) [fix_username u, fix_password u, fix_my_id u, fix_venue_id u]"

definition all_fields :: "tm \<Rightarrow> u64 \<Rightarrow> VenueUserInfo_FIX \<Rightarrow> u32 \<Rightarrow> FixBody \<Rightarrow> fix_field list" where
  "all_fields t now u seq body = [(8, ''FIX.5.0''), (9, decimal (length (built_body t now u seq body)))]
     @ built_fields t now u seq body @ [(10, built_checksum t now u seq body)]"

lemma built_message_fields: "built_message t now u seq body = fields_bytes (all_fields t now u seq body)"
proof -
  have "decimal 8 = ''8''" "decimal 9 = ''9''" "decimal 10 = ''10''" by code_simp+
  then show ?thesis
    by (simp add: built_message_def all_fields_def fix_message_def fix_header_def field_bytes_def built_body_def)
qed

lemma length_built_checksum: "length (built_checksum t now u seq body) = 3"
  by (simp add: built_checksum_def checksum_text_def Let_def)

lemma checksum_no_soh: "SOH \<notin> set (built_checksum t now u seq body)"
  using digit_char_no_soh [THEN not_sym] by (simp add: built_checksum_def checksum_text_def Let_def)

lemma all_fields_ok:
  assumes "tm_ok t" "auth_ok u" "session_body body"
  shows "\<forall>f \<in> set (all_fields t now u seq body). field_ok MAX_SESTAG f"
proof -
  have "field_ok MAX_SESTAG f" if "f \<in> set (body_fields t u body)" for f
    using that assms(2,3) by (cases body) (auto simp: field_ok_def MAX_SESTAG_def auth_ok_def decimal_no_sep split: if_splits)
  moreover have "field_ok MAX_SESTAG f" if "f \<in> set (head_fields t now u seq body)" for f
    using that assms(2) time_text_no_soh [OF assms(1)]
    by (cases body) (auto simp: head_fields_def field_ok_def MAX_SESTAG_def auth_ok_def decimal_no_sep)
  ultimately show ?thesis
    using checksum_no_soh by (auto simp: all_fields_def built_fields_def field_ok_def MAX_SESTAG_def decimal_no_sep)
qed

lemma parse_u32: "ucast (parseNum (decimal (unat (n :: u32)))) = n"
proof -
  have "ucast (parseNum (decimal k)) = (of_nat k :: u32)" if "k < 2 ^ 32" for k
    using that by (simp add: parseNum_def unsigned_of_nat take_bit_nat_eq_self)
  from this [of "unat n"] show ?thesis using unsigned_less [of n, where 'a = nat] by simp
qed

text \<open>What is read into an object with the old contents \<open>m0\<close>; a logon that does not reset the numbers has no field
  for the flag, which stays as it was.\<close>

definition reads_session :: "FIXSessionMessage \<Rightarrow> FixBody \<Rightarrow> u32 \<Rightarrow> FIXSessionMessage \<Rightarrow> bool" where
  "reads_session m0 body seq m \<longleftrightarrow>
     char_of_u8 (fs_msg_type m) = hd (msg_types body) \<and> fs_seqnum m = seq \<and>
     (case body of
        FB_Logon reset \<Rightarrow> fs_interval m = 60 \<and> fs_reset_seqnum_flag m = (if reset then 89 else fs_reset_seqnum_flag m0)
      | FB_SequenceReset n \<Rightarrow> fs_new_seqnum m = n \<and> fs_gap_fill_flag m = 89
      | FB_ResendRequest b e \<Rightarrow> fs_begin_seqnum m = b \<and> fs_end_seqnum m = e
      | FB_TestRequest \<Rightarrow> fs_test_req_id m = 1
      | _ \<Rightarrow> True)"

lemma apply_built:
  assumes "session_body body"
  shows "\<exists>m. apply_fields SestagHandlers (all_fields t now u seq body) m0 = Some m \<and> reads_session m0 body seq m"
proof -
  have "u8_of_char (CHR ''Y'') = 89" "ucast (parseNum ''60'') = (60 :: u32)" "ucast (parseNum ''1'') = (1 :: u32)" by code_simp+
  then show ?thesis
    using assms
    by (cases body) (auto simp: all_fields_def built_fields_def head_fields_def SestagHandlers_def parse_u32 parseChar_def read_u8_def
      nth_opt_def reads_session_def)
qed

subsection \<open>Properties\<close>

text \<open>C21. The optimised routine that writes a number two digits at a time from a table, with the number of digits
  found by comparisons, writes exactly the decimal representation of the number at the position and
  leaves the cursor behind it, for every 32-bit number and buffer; it fails exactly when the digits do
  not fit.\<close>

theorem place_int_decimal: "placeIntValue num (buf, p) =
   (let d = decimal (unat num) in
    if p + length d \<le> length buf then Some (take p buf @ d @ drop (p + length d) buf, p + length d) else None)"
  by (simp add: placeIntValue_put put_def write_bytes_def Let_def)

text \<open>C17. A FIX message that the builder makes for a session is a message in the documented format: begin string,
  a body length that is the length of the body, the header fields with the next sequence number of the
  session and the time, the fields of the type of message, and a checksum over everything before it.
  The buffer is kept in the history of the session under that number, and the next message gets the
  next number.  This holds for numbers below 1000000 (with seven digits the announced body length is
  wrong), for bodies and messages that fit their buffers, and for an order with a known time in force, whose token and
  symbol fit their arrays and whose price, if it is a limit order, is at least 1000 units (below that the price is
  not written correctly).\<close>

theorem fix_built_message:
  assumes "fb = new_Builder_FIX t bufs" "session_fix i sm = Some q" "session_auth_fix i sm = Some u" "body_ok body"
    and "my_next_seqnum q < 1000000" "length (bf_data (fix_history q (unat (my_next_seqnum q)))) = MAX_MSG_SIZE"
    and "length (fields_bytes (body_fields t u body)) \<le> MAX_BODY_SIZE"
    and "length (built_message t now u (my_next_seqnum q) body) \<le> MAX_MSG_SIZE"
  shows "\<exists>b sm'. fix_build fb now i body sm = Some (b, sm')
    \<and> take (unat (bf_len b)) (bf_data b) = built_message t now u (my_next_seqnum q) body
    \<and> session_fix i sm' = Some (q\<lparr>fix_history := (fix_history q)(unat (my_next_seqnum q) := b), my_next_seqnum := my_next_seqnum q + 1\<rparr>)"
proof -
  have "second_table fb = init_time_table t" by (simp add: assms(1) new_Builder_FIX_def)
  from fix_build_spec [OF this assms(2-8)] show ?thesis by blast
qed

definition sample_auth :: VenueUserInfo_FIX where
  "sample_auth = \<lparr>fix_username = ''USER'', fix_password = ''PASS'', fix_my_id = ''ME'', fix_venue_id = ''BI'', fix_account = ''AC1''\<rparr>"

definition sample_tm :: tm where
  "sample_tm = \<lparr>tm_year = 125, tm_mon = 5, tm_mday = 17\<rparr>"

definition sample_context :: SessionContext where
  "sample_context = \<lparr>cx_ip = 0, cx_port = 0, cx_socket_index = 0, cx_account_index = 0, cx_venue = BIST, cx_protocol = FIX,
     cx_session_type = ST_Order, cx_tcp_index = 0\<rparr>"

definition sample_seq :: Sequence_FIX where
  "sample_seq = new_Sequence_FIX 0 (\<lambda>_. empty_buffer)"

definition sample_fix_sessions :: SessionManager where
  "sample_fix_sessions = \<lparr>session_contexts = [sample_context],
     session_states = [new_SessionState\<lparr>sess_prot := SP_FIX, sess_sequence := Seq_FIX sample_seq\<rparr>],
     session_auths = [Auth_FIX sample_auth], session_lookup = [[[0]]], strnum_buffer = []\<rparr>"

lemma sample_fix_session:
  "session_fix 0 sample_fix_sessions = Some sample_seq" "session_auth_fix 0 sample_fix_sessions = Some sample_auth"
  "my_next_seqnum sample_seq = 1"
  by (simp_all add: session_fix_def session_auth_fix_def sample_fix_sessions_def getSessionState_def getSessionContext_def
      getSessionAuth_def nth_opt_def sample_context_def sample_seq_def new_Sequence_FIX_def)

lemma length_time_text: "length (time_text t ns) = 21"
  by (simp add: time_text_def second_entry_def milli_digits_def two_digits_def Let_def)

lemma sample_resend_size:
  "length (fields_bytes (body_fields sample_tm sample_auth (FB_ResendRequest 3 7))) = 9"
  "length (built_message sample_tm 0 sample_auth 1 (FB_ResendRequest 3 7)) = 78"
proof -
  have d: "decimal 3 = ''3''" "decimal 56 = ''56''" by code_simp+
  show b: "length (fields_bytes (body_fields sample_tm sample_auth (FB_ResendRequest 3 7))) = 9"
    by (simp add: field_bytes_def tag_numbers d)
  have h: "length (built_body sample_tm 0 sample_auth 1 (FB_ResendRequest 3 7)) = 56"
    using b tag_numbers(1)
    by (simp add: built_body_def built_fields_def head_fields_def field_bytes_def tag_numbers length_time_text sample_auth_def)
  show "length (built_message sample_tm 0 sample_auth 1 (FB_ResendRequest 3 7)) = 78"
    unfolding built_message_def length_fix_message [OF length_built_checksum] h by (simp add: fix_header_def d)
qed

theorem fix_built_message_witness:
  "\<exists>b sm'. fix_build (new_Builder_FIX sample_tm []) 0 0 (FB_ResendRequest 3 7) sample_fix_sessions = Some (b, sm')
    \<and> take (unat (bf_len b)) (bf_data b) = built_message sample_tm 0 sample_auth 1 (FB_ResendRequest 3 7)"
proof -
  have "length (bf_data (fix_history sample_seq (unat (my_next_seqnum sample_seq)))) = MAX_MSG_SIZE"
    by (simp add: sample_seq_def new_Sequence_FIX_def empty_buffer_def)
  then show ?thesis
    using fix_built_message [OF refl sample_fix_session(1,2), of "FB_ResendRequest 3 7" sample_tm 0 "[]"] sample_resend_size
    by (auto simp: sample_fix_session(3) MAX_BODY_SIZE_def MAX_MSG_SIZE_def)
qed

text \<open>C18. What the builder writes the parser reads: when the bytes of a session message that the builder has made arrive in
  a packet of their own, they are framed as exactly that message and decoded, into whatever object of
  the pool, to its type, the sequence number of the session and the values it was built from (the interval of a
  logon, the numbers of a resend request and of a sequence reset, the id of a test request).  The reset flag is set by a logon that
  resets the numbers; one that does not leaves the flag of the object as an earlier message left it.  Assumed are a
  number below 1000000, a message that fits its buffers, a valid month and day, names without the separator
  and no partial message from before.\<close>

theorem fix_session_roundtrip:
  assumes "fb = new_Builder_FIX t bufs" "session_fix i sm = Some q" "session_auth_fix i sm = Some u" "session_body body"
    and "tm_ok t" "auth_ok u"
    and "my_next_seqnum q < 1000000" "length (bf_data (fix_history q (unat (my_next_seqnum q)))) = MAX_MSG_SIZE"
    and "length (fields_bytes (body_fields t u body)) \<le> MAX_BODY_SIZE"
    and "length (built_message t now u (my_next_seqnum q) body) \<le> MAX_MSG_SIZE"
    and "fix_build fb now i body sm = Some (b, sm')"
    and "rx_data pkt = take (unat (bf_len b)) (bf_data b) @ r" "rx_len pkt = bf_len b"
    and "\<not> pb_active pb" "bodylen_state pb \<noteq> BL_DONE" "length (pb_data pb) = 1024"
  shows "\<exists>pb' m. nextFixMsg pkt 0 pb = Some (Some (rx_data pkt, unat (bf_len b)), 0, pkt\<lparr>consumed := True\<rparr>, pb')
    \<and> parse_tags MAX_SESTAG SestagHandlers (rx_data pkt) (unat (bf_len b)) 0 m0 = Some m
    \<and> reads_session m0 body (my_next_seqnum q) m"
proof -
  let ?seq = "my_next_seqnum q" and ?m = "built_message t now u (my_next_seqnum q) body"
  let ?b = "built_body t now u ?seq body" and ?cs = "built_checksum t now u ?seq body"
  have ok: "body_ok body" using assms(4) by (cases body) simp_all
  have "second_table fb = init_time_table t" by (simp add: assms(1) new_Builder_FIX_def)
  from fix_build_spec [OF this assms(2,3) ok assms(7-10)] have b: "take (unat (bf_len b)) (bf_data b) = ?m" "unat (bf_len b) = length ?m"
    using assms(11) by auto
  have d: "rx_data pkt = ?m @ r" "unat (rx_len pkt) = length ?m" using assms(12,13) b by simp_all
  have "begin_string ''FIX.5.0''" by (simp add: begin_string_def is_digit_def)
  then have f: "framed_at ''FIX.5.0'' ?b ?cs r pkt 0 pb"
    using d assms(10,14-16) length_built_checksum by (simp add: framed_at_def built_message_def MAX_MSG_SIZE_def length_fix_message)
  have "parse_tags MAX_SESTAG SestagHandlers (?m @ r) (length ?m) 0 m0 = apply_fields SestagHandlers (all_fields t now u ?seq body) m0"
    by (rule parse_tags_fields [OF all_fields_ok [OF assms(5,6,4)], where r = r]) (simp_all add: MAX_SESTAG_def built_message_fields)
  moreover obtain m where "apply_fields SestagHandlers (all_fields t now u ?seq body) m0 = Some m" "reads_session m0 body ?seq m"
    using apply_built [OF assms(4)] by blast
  ultimately show ?thesis
    using frame_exact [OF f] d(2) unfolding d(1) b(2) built_message_def by auto
qed

text \<open>The reset flag of an earlier logon is read again with a logon that does not reset the numbers.\<close>

lemma stale_reset_flag:
  assumes "fs_reset_seqnum_flag m0 = 89" "apply_fields SestagHandlers (all_fields t now u seq (FB_Logon False)) m0 = Some m"
  shows "fs_reset_seqnum_flag m = 89"
  using apply_built [of "FB_Logon False" t now u seq m0] assms by (auto simp: reads_session_def)

theorem fix_session_roundtrip_witness:
  "\<exists>b sm' pb' m. fix_build (new_Builder_FIX sample_tm []) 0 0 (FB_ResendRequest 3 7) sample_fix_sessions = Some (b, sm')
    \<and> nextFixMsg (fresh_packet (take (unat (bf_len b)) (bf_data b)) (unat (bf_len b))) 0 empty_partial
      = Some (Some (take (unat (bf_len b)) (bf_data b), unat (bf_len b)), 0,
          (fresh_packet (take (unat (bf_len b)) (bf_data b)) (unat (bf_len b)))\<lparr>consumed := True\<rparr>, pb')
    \<and> parse_tags MAX_SESTAG SestagHandlers (take (unat (bf_len b)) (bf_data b)) (unat (bf_len b)) 0 default_FIXSessionMessage = Some m
    \<and> fs_begin_seqnum m = 3 \<and> fs_end_seqnum m = 7"
proof -
  let ?body = "FB_ResendRequest 3 7" and ?fb = "new_Builder_FIX sample_tm []"
  have h: "length (bf_data (fix_history sample_seq (unat (my_next_seqnum sample_seq)))) = MAX_MSG_SIZE"
    by (simp add: sample_seq_def new_Sequence_FIX_def empty_buffer_def)
  have z: "my_next_seqnum sample_seq < 1000000" "length (fields_bytes (body_fields sample_tm sample_auth ?body)) \<le> MAX_BODY_SIZE"
    "length (built_message sample_tm 0 sample_auth (my_next_seqnum sample_seq) ?body) \<le> MAX_MSG_SIZE"
    unfolding sample_fix_session(3) sample_resend_size by (simp_all add: MAX_BODY_SIZE_def MAX_MSG_SIZE_def)
  have ok: "tm_ok sample_tm" "auth_ok sample_auth" by (simp_all add: tm_ok_def sample_tm_def auth_ok_def sample_auth_def)
  have "second_table ?fb = init_time_table sample_tm" by (simp add: new_Builder_FIX_def)
  from fix_build_spec [OF this sample_fix_session(1,2) _ z(1) h z(2,3)] obtain b sm' where
    b: "fix_build ?fb 0 0 ?body sample_fix_sessions = Some (b, sm')" by auto
  let ?pkt = "fresh_packet (take (unat (bf_len b)) (bf_data b)) (unat (bf_len b))"
  have pkt: "rx_data ?pkt = take (unat (bf_len b)) (bf_data b) @ []" "rx_len ?pkt = bf_len b" by (simp_all add: fresh_packet_def)
  have e: "\<not> pb_active empty_partial" "bodylen_state empty_partial \<noteq> BL_DONE" "length (pb_data empty_partial) = 1024"
    by (simp_all add: empty_partial_def)
  have "session_body ?body" by simp
  from fix_session_roundtrip [OF refl sample_fix_session(1,2) this ok z(1) h z(2,3) b pkt e, of default_FIXSessionMessage] show ?thesis
    using b unfolding pkt(1) append_Nil2 by (auto simp: reads_session_def)
qed

end
