(* ===== verification/Fix_Resend.thy ===== *)
theory Fix_Resend
  imports Fix_Builder
begin

text \<open>
  Sending messages of the history again (\<^verbatim>\<open>findValue\<close>, \<^verbatim>\<open>findType\<close>, the second \<^verbatim>\<open>buildHeader\<close> and
  \<^verbatim>\<open>build_resend\<close> of src/src/protocol/builders/FIX).  The result of a comparison of 32 bytes at once is
  the ascending list of the positions that agree: counting trailing zeros gives its head, and clearing
  that bit its tail.
\<close>

subsection \<open>Searching a field\<close>

definition compare32 :: "char \<Rightarrow> string \<Rightarrow> nat \<Rightarrow> nat list" where
  "compare32 ch data pos = filter (\<lambda>k. data ! (pos + k) = ch) [0..<32]"

definition load32 :: "string \<Rightarrow> nat \<Rightarrow> unit option" where
  "load32 data pos = guard (pos + 32 \<le> length data)"

text \<open>\<^verbatim>\<open>while (q < len && data[q] != ch) ++q\<close>.\<close>

function scan_to :: "char \<Rightarrow> string \<Rightarrow> nat \<Rightarrow> nat \<Rightarrow> nat option" where
  "scan_to ch data len q =
     (if q < len then do {
        c \<leftarrow> nth_opt data q;
        if c \<noteq> ch then scan_to ch data len (q + 1) else Some q }
      else Some q)"
  by auto
termination by (relation "measure (\<lambda>(_, _, len, q). len - q)") auto

declare scan_to.simps [simp del]

text \<open>The comparison of the tag; \<^verbatim>\<open>tag_len\<close> wraps around when the start lies behind, and then differs.\<close>

definition tag_matches :: "string \<Rightarrow> string \<Rightarrow> nat \<Rightarrow> nat \<Rightarrow> bool" where
  "tag_matches data want tag_start eq_pos \<longleftrightarrow>
     tag_start + length want = eq_pos \<and> take (length want) (drop tag_start data) = want"

text \<open>A value is its position and length.  The shift \<^verbatim>\<open>~0u << (eq_offset + 1)\<close> is undefined for an equals sign in
  the last byte of the chunk.\<close>

fun chunk_loop ::
  "string \<Rightarrow> nat \<Rightarrow> string \<Rightarrow> nat \<Rightarrow> nat list \<Rightarrow> nat list \<Rightarrow> nat \<Rightarrow> ((nat \<times> nat) + nat) option" where
  "chunk_loop data len want pos [] soh_bits tag_start = Some (Inr tag_start)"
| "chunk_loop data len want pos (eq_offset # eq_bits) soh_bits tag_start = do {
     let eq_pos = pos + eq_offset;
     _ \<leftarrow> guard (eq_offset + 1 < 32);
     soh_pos \<leftarrow> (case filter (\<lambda>k. eq_offset + 1 \<le> k) soh_bits of
                    soh_offset # _ \<Rightarrow> Some (pos + soh_offset)
                  | [] \<Rightarrow> scan_to SOH data len (eq_pos + 1));
     if tag_matches data want tag_start eq_pos then Some (Inl (eq_pos + 1, soh_pos - (eq_pos + 1)))
     else chunk_loop data len want pos eq_bits soh_bits (soh_pos + 1) }"

function chunks :: "string \<Rightarrow> nat \<Rightarrow> string \<Rightarrow> nat \<Rightarrow> nat \<Rightarrow> ((nat \<times> nat) + (nat \<times> nat)) option" where
  "chunks data len want pos tag_start =
     (if pos + 32 \<le> len then do {
        _ \<leftarrow> load32 data pos;
        r \<leftarrow> chunk_loop data len want pos (compare32 (CHR ''='') data pos) (compare32 SOH data pos) tag_start;
        (case r of Inl v \<Rightarrow> Some (Inl v) | Inr ts \<Rightarrow> chunks data len want (pos + 32) ts) }
      else Some (Inr (pos, tag_start)))"
  by auto
termination by (relation "measure (\<lambda>(_, len, _, pos, _). len - pos)") auto

declare chunks.simps [simp del]

text \<open>The loop over the last bytes.\<close>

function tail_loop :: "string \<Rightarrow> nat \<Rightarrow> string \<Rightarrow> nat \<Rightarrow> nat \<Rightarrow> (nat \<times> nat) option option" where
  "tail_loop data len want pos tag_start =
     (if pos < len then do {
        eq_pos \<leftarrow> scan_to (CHR ''='') data len pos;
        if len \<le> eq_pos then Some None
        else do {
          soh_pos \<leftarrow> scan_to SOH data len (eq_pos + 1);
          if tag_matches data want tag_start eq_pos then Some (Some (eq_pos + 1, soh_pos - (eq_pos + 1)))
          else tail_loop data len want (soh_pos + 1) (soh_pos + 1) } }
      else Some None)"
  by auto
termination
proof (relation "measure (\<lambda>(_, len, _, pos, _). len - pos)")
  have ge: "scan_to ch data len q = Some r \<Longrightarrow> q \<le> r" for ch data len q r
    by (induction ch data len q rule: scan_to.induct) (subst (asm) (2) scan_to.simps, auto split: if_splits bind_splits)
  show "((data, len, want, soh_pos + 1, soh_pos + 1), data, len, want, pos, tag_start) \<in> measure (\<lambda>(_, len, _, pos, _). len - pos)"
    if "pos < len" "scan_to (CHR ''='') data len pos = Some eq_pos" "scan_to SOH data len (eq_pos + 1) = Some soh_pos"
    for data want :: string and len pos tag_start eq_pos soh_pos
    using that ge [OF that(2)] ge [OF that(3)] by simp
qed auto

declare tail_loop.simps [simp del]

definition findValue :: "string \<Rightarrow> nat \<Rightarrow> string \<Rightarrow> (nat \<times> nat) option option" where
  "findValue data len want = do {
     r \<leftarrow> chunks data len want 0 0;
     (case r of Inl v \<Rightarrow> Some (Some v) | Inr pt \<Rightarrow> tail_loop data len want (fst pt) (snd pt)) }"

definition findType :: "string \<Rightarrow> char option" where
  "findType data = do {
     _ \<leftarrow> load32 data 0;
     third \<leftarrow> nth_opt (compare32 (CHR ''='') data 0) 2;
     nth_opt data (third + 1) }"

subsection \<open>The header and the message\<close>

text \<open>The characters of a value that was found; a null pointer must not be read.\<close>

definition value_text :: "string \<Rightarrow> (nat \<times> nat) option \<Rightarrow> nat \<Rightarrow> string option" where
  "value_text data v n = (case v of None \<Rightarrow> None | Some (p, _) \<Rightarrow> read_bytes n (drop p data))"

definition value_len :: "(nat \<times> nat) option \<Rightarrow> nat" where
  "value_len v = (case v of None \<Rightarrow> 0 | Some (_, n) \<Rightarrow> n)"

text \<open>\<^verbatim>\<open>strnum_to_int\<close> of this class: an overflow of \<^verbatim>\<open>int\<close> is undefined.\<close>

primrec strnum_int_loop :: "string \<Rightarrow> int \<Rightarrow> int option" where
  "strnum_int_loop [] result = Some result"
| "strnum_int_loop (c # cs) result = do {
     let r = result * 10 + (int (of_char c) - 48);
     _ \<leftarrow> guard (-(2 ^ 31) \<le> result * 10 \<and> result * 10 < 2 ^ 31 \<and> -(2 ^ 31) \<le> r \<and> r < 2 ^ 31);
     strnum_int_loop cs r }"

definition fix_strnum_to_int :: "string \<Rightarrow> int option" where
  "fix_strnum_to_int s = strnum_int_loop s 0"

definition resend_buildHeader ::
  "string list \<Rightarrow> u64 \<Rightarrow> Buffer_FIX \<Rightarrow> VenueUserInfo_FIX \<Rightarrow> cursor \<Rightarrow> cursor option" where
  "resend_buildHeader table now org u c = do {
     let data = bf_data org;
     let buf_len = unat (bf_len org);
     type_v \<leftarrow> findValue data buf_len ''35'';
     seq_v \<leftarrow> findValue data buf_len ''34'';
     time_v \<leftarrow> findValue data buf_len ''52'';
     len_v \<leftarrow> findValue data buf_len ''9'';
     len_str \<leftarrow> (case len_v of None \<Rightarrow> Some [] | Some (p, n) \<Rightarrow> read_bytes n (drop p data));
     n \<leftarrow> fix_strnum_to_int len_str;
     ts \<leftarrow> transact_time table now;
     let body_len = (of_int n :: u64) + (10 + of_nat (length ts));
     c1 \<leftarrow> addTag ''8='' 2 ''FIX.5.0 '' 7 c;
     c2 \<leftarrow> addTag_int ''9='' 2 (ucast body_len) c1;
     type_s \<leftarrow> value_text data type_v 1;
     c3 \<leftarrow> addTag ''35='' 3 type_s 1 c2;
     c4 \<leftarrow> add_string ''49='' 3 (fix_my_id u) c3;
     c5 \<leftarrow> add_string ''56='' 3 (fix_venue_id u) c4;
     seq_s \<leftarrow> value_text data seq_v (value_len seq_v);
     c6 \<leftarrow> add_string ''34='' 3 seq_s c5;
     c7 \<leftarrow> addTag ''43='' 3 ''Y'' 1 c6;
     time_s \<leftarrow> value_text data time_v (value_len time_v);
     c8 \<leftarrow> add_string ''122='' 4 time_s c7;
     add_string ''52='' 3 ts c8 }"

definition build_resend ::
  "u64 \<Rightarrow> Buffer_FIX \<Rightarrow> nat \<Rightarrow> SessionManager \<Rightarrow> Builder_FIX \<Rightarrow> (Buffer_FIX \<times> Builder_FIX) option" where
  "build_resend now org i sm fb = do {
     u \<leftarrow> session_auth_fix i sm;
     let k = unat (temp_index fb AND (of_nat TEMP_BUFFER_SIZE - 1));
     temp_buffer \<leftarrow> nth_opt (temp_bufs fb) k;
     c1 \<leftarrow> resend_buildHeader (second_table fb) now org u (bf_data temp_buffer, 0);
     hot \<leftarrow> read_bytes (unat (hotdata_len org)) (drop (hotdata_start org) (bf_data org));
     (d2, p2) \<leftarrow> put hot c1;
     let len = (of_nat p2 :: u16);
     (d3, p3) \<leftarrow> finalizeChecksum d2 (unat len);
     let temp1 = temp_buffer\<lparr>bf_data := d3, bf_len := len + 7\<rparr>;
     Some (temp1, fb\<lparr>temp_bufs := (temp_bufs fb)[k := temp1], temp_index := temp_index fb + 1\<rparr>) }"

subsection \<open>The search as a lookup of a field\<close>

text \<open>The reference: the position and length of the value of the first field with a tag.\<close>

primrec field_pos :: "nat \<Rightarrow> fix_field list \<Rightarrow> nat \<Rightarrow> (nat \<times> nat) option" where
  "field_pos off [] t = None"
| "field_pos off (f # fs) t =
     (if fst f = t then Some (off + length (decimal (fst f)) + 1, length (snd f))
      else field_pos (off + length (field_bytes f)) fs t)"

definition plain_field :: "fix_field \<Rightarrow> bool" where
  "plain_field f \<longleftrightarrow> fst f < 2 ^ 64 \<and> CHR ''='' \<notin> set (snd f) \<and> SOH \<notin> set (snd f)"

definition no_eq :: "string \<Rightarrow> nat \<Rightarrow> nat \<Rightarrow> bool" where
  "no_eq data a b \<longleftrightarrow> (\<forall>i. a \<le> i \<and> i < b \<longrightarrow> data ! i \<noteq> CHR ''='')"

definition next_eq :: "nat \<Rightarrow> nat \<Rightarrow> fix_field list \<Rightarrow> nat" where
  "next_eq len ts fs = (case fs of [] \<Rightarrow> len | f # _ \<Rightarrow> ts + length (decimal (fst f)))"

text \<open>The fields that are left start at \<open>ts\<close>, and from \<open>q\<close> on the first equals sign is that of the first of them.\<close>

definition pending :: "string \<Rightarrow> nat \<Rightarrow> nat \<Rightarrow> fix_field list \<Rightarrow> nat \<Rightarrow> bool" where
  "pending data len ts fs q \<longleftrightarrow>
     (\<exists>r. drop ts data = fields_bytes fs @ r) \<and> len = ts + length (fields_bytes fs) \<and> len \<le> length data \<and>
     list_all plain_field fs \<and> no_eq data q (next_eq len ts fs) \<and> (fs = [] \<or> q \<le> next_eq len ts fs)"

lemma decimal_inj: "a < 2 ^ 64 \<Longrightarrow> b < 2 ^ 64 \<Longrightarrow> decimal a = decimal b \<longleftrightarrow> a = b"
  using parseNum_decimal by metis

lemma no_eq_range: "drop a data = xs @ r \<Longrightarrow> CHR ''='' \<notin> set xs \<Longrightarrow> no_eq data a (a + length xs)"
proof -
  assume d: "drop a data = xs @ r" "CHR ''='' \<notin> set xs"
  have "data ! i \<noteq> CHR ''=''" if "a \<le> i" "i < a + length xs" for i
  proof -
    have l: "a + length xs \<le> length data" using arg_cong [OF d(1), of length] that by simp
    have "data ! i = drop a data ! (i - a)" using that l by simp
    also have "\<dots> = xs ! (i - a)" using that unfolding d(1) by (intro nth_append_left) simp
    finally show ?thesis using d(2) nth_mem [of "i - a" xs] that by (metis add.commute less_diff_conv2)
  qed
  then show ?thesis by (simp add: no_eq_def)
qed

lemma no_eq_mono: "no_eq data a b \<Longrightarrow> a \<le> a' \<Longrightarrow> no_eq data a' b"
  by (simp add: no_eq_def)

lemma pending_later: "pending data len ts fs q \<Longrightarrow> q \<le> q' \<Longrightarrow> fs = [] \<or> q' \<le> next_eq len ts fs \<Longrightarrow> pending data len ts fs q'"
  by (auto simp: pending_def intro: no_eq_mono)

text \<open>The parts of the first field.\<close>

lemma pending_head:
  assumes "pending data len ts (f # fs) q"
  defines "e \<equiv> ts + length (decimal (fst f))"
  shows "q \<le> e" "no_eq data q e" "\<exists>r. drop ts data = decimal (fst f) @ CHR ''='' # r" "data ! e = CHR ''=''"
    "\<exists>r. drop (e + 1) data = snd f @ SOH # fields_bytes fs @ r" "e + 1 + length (snd f) < len" "plain_field f" "len \<le> length data"
    "ts + length (field_bytes f) = e + 1 + length (snd f) + 1" "data ! (e + 1 + length (snd f)) = SOH"
proof -
  obtain r where d: "drop ts data = decimal (fst f) @ CHR ''='' # snd f @ SOH # fields_bytes fs @ r"
    using assms(1) by (auto simp: pending_def field_bytes_def)
  then have e: "drop e data = CHR ''='' # snd f @ SOH # fields_bytes fs @ r" unfolding e_def by (rule drop_prefix)
  then have e1: "drop (e + 1) data = snd f @ SOH # fields_bytes fs @ r" using drop_Suc_eq by simp
  then have s: "drop (e + 1 + length (snd f)) data = SOH # fields_bytes fs @ r" by (rule drop_prefix)
  show "\<exists>r. drop ts data = decimal (fst f) @ CHR ''='' # r" using d by blast
  show "\<exists>r. drop (e + 1) data = snd f @ SOH # fields_bytes fs @ r" using e1 by blast
  show "data ! e = CHR ''=''" "data ! (e + 1 + length (snd f)) = SOH" using nth_via_drop [OF e] nth_via_drop [OF s] by simp_all
  show "q \<le> e" "no_eq data q e" "plain_field f" "len \<le> length data" "e + 1 + length (snd f) < len"
    "ts + length (field_bytes f) = e + 1 + length (snd f) + 1"
    using assms(1) by (auto simp: pending_def next_eq_def e_def field_bytes_def)
qed

lemma pending_step:
  assumes "pending data len ts (f # fs) q"
  shows "pending data len (ts + length (field_bytes f)) fs (ts + length (decimal (fst f)) + 1)"
proof -
  let ?e = "ts + length (decimal (fst f))"
  note h = pending_head [OF assms]
  obtain r where r: "drop (?e + 1) data = snd f @ SOH # fields_bytes fs @ r" using h(5) by blast
  have "drop (ts + length (field_bytes f)) data = fields_bytes fs @ r"
  proof -
    have "drop (?e + 1) data = (snd f @ [SOH]) @ fields_bytes fs @ r" using r by simp
    from drop_prefix [OF this] show ?thesis using h(9) by (simp add: add.assoc)
  qed
  moreover have "no_eq data (?e + 1) (next_eq len (ts + length (field_bytes f)) fs)"
  proof (cases fs)
    case Nil
    have "drop (?e + 1) data = (snd f @ [SOH]) @ r" using r Nil by simp
    then show ?thesis using no_eq_range [of "?e + 1" data "snd f @ [SOH]" r] h(7,9) assms Nil
      by (simp add: plain_field_def next_eq_def pending_def add.assoc)
  next
    case (Cons g gs)
    have "drop (?e + 1) data = (snd f @ [SOH] @ decimal (fst g)) @ (CHR ''='' # snd g @ SOH # fields_bytes gs @ r)"
      using r Cons by (simp add: field_bytes_def)
    then show ?thesis using no_eq_range [of "?e + 1" data "snd f @ [SOH] @ decimal (fst g)"] h(7,9) Cons decimal_no_sep
      by (simp add: plain_field_def next_eq_def add.assoc)
  qed
  moreover have "fs = [] \<or> ?e + 1 \<le> next_eq len (ts + length (field_bytes f)) fs"
    using h(9) by (cases fs) (simp_all add: next_eq_def)
  ultimately show ?thesis using assms h(8) by (auto simp: pending_def)
qed

lemma scan_to_found:
  assumes "drop q data = xs @ ch # r" "ch \<notin> set xs" "q + length xs < len"
  shows "scan_to ch data len q = Some (q + length xs)"
  using assms
proof (induction xs arbitrary: q)
  case Nil
  then show ?case using nth_opt_drop [of q data ch r] by (subst scan_to.simps) simp
next
  case (Cons x xs)
  have x: "drop q data = x # (xs @ ch # r)" using Cons.prems(1) by simp
  show ?case using Cons.IH [of "q + 1"] Cons.prems nth_opt_drop [OF x] drop_Suc_eq [OF x] by (subst scan_to.simps) auto
qed

lemma scan_to_eq:
  assumes "no_eq data q e" "q \<le> e" "e \<le> len" "len \<le> length data" "e < len \<longrightarrow> data ! e = CHR ''=''"
  shows "scan_to (CHR ''='') data len q = Some e"
  using assms
proof (induction "e - q" arbitrary: q)
  case 0
  then have "q = e" by simp
  then show ?case using 0 by (subst scan_to.simps) (simp add: nth_opt_def)
next
  case (Suc n)
  then have "q < e" by simp
  then have "data ! q \<noteq> CHR ''=''" "nth_opt data q = Some (data ! q)" using Suc.prems by (simp_all add: no_eq_def nth_opt_def)
  then show ?case using Suc(1) [of "q + 1"] Suc(2) Suc.prems \<open>q < e\<close> by (subst scan_to.simps) (simp add: no_eq_def)
qed

lemma filter_upt_first:
  assumes "k \<le> m" "\<And>j. k \<le> j \<Longrightarrow> j < m \<Longrightarrow> j < n \<Longrightarrow> \<not> P j" "m < n \<Longrightarrow> P m"
  shows "filter P [k..<n] = (if m < n then m # filter P [Suc m..<n] else [])"
proof (cases "m < n")
  case True
  then have "[k..<n] = [k..<m] @ m # [Suc m..<n]" using assms(1) by (metis le_add_diff_inverse less_imp_le upt_add_eq_append upt_conv_Cons)
  then show ?thesis using True assms(2,3) by (simp add: filter_empty_conv)
next
  case False
  then show ?thesis using assms(2) by (auto simp: filter_empty_conv)
qed

lemma tag_matches_iff:
  assumes "drop ts data = decimal a @ CHR ''='' # r" "a < 2 ^ 64" "t < 2 ^ 64"
  shows "tag_matches data (decimal t) ts (ts + length (decimal a)) \<longleftrightarrow> a = t"
  using assms decimal_inj [OF assms(2,3)] by (auto simp: tag_matches_def)

text \<open>The end of the value of the first field, by the bits of the chunk or by a scan.\<close>

lemma chunk_soh:
  assumes "pending data len ts (f # fs) q"
  defines "e \<equiv> ts + length (decimal (fst f))"
  assumes "pos \<le> e"
  shows "(case filter (\<lambda>k. e - pos + 1 \<le> k) (compare32 SOH data pos) of
       soh_offset # _ \<Rightarrow> Some (pos + soh_offset) | [] \<Rightarrow> scan_to SOH data len (e + 1)) = Some (e + 1 + length (snd f))"
proof -
  note h = pending_head [OF assms(1), folded e_def]
  obtain r where r: "drop (e + 1) data = snd f @ SOH # fields_bytes fs @ r" using h(5) by blast
  have l: "SOH \<notin> set (snd f)" using h(7) by (simp add: plain_field_def)
  let ?m = "e - pos + 1 + length (snd f)"
  let ?P = "\<lambda>k. e - pos + 1 \<le> k \<and> data ! (pos + k) = SOH"
  have "\<not> ?P k" if "0 \<le> k" "k < ?m" "k < 32" for k
  proof (rule notI)
    assume k: "?P k"
    let ?j = "k - (e - pos + 1)"
    have "e + 1 + length (snd f) \<le> length data" using h(6,8) by simp
    moreover have j: "?j < length (snd f)" using conjunct1 [OF k] that by arith
    moreover have "e + 1 + ?j = pos + k" using conjunct1 [OF k] assms(3) by arith
    ultimately have "data ! (pos + k) = drop (e + 1) data ! ?j" using that by (metis Suc_leI le_trans nth_drop add_leE)
    also have "\<dots> = snd f ! ?j" using j unfolding r by (rule nth_append_left)
    finally show False using k l nth_mem [OF j] by simp
  qed
  moreover have "?P ?m" using h(10) assms(3) by simp
  ultimately have "filter ?P [0..<32] = (if ?m < 32 then ?m # filter ?P [Suc ?m..<32] else [])" by (intro filter_upt_first) simp_all
  then have f: "filter (\<lambda>k. e - pos + 1 \<le> k) (compare32 SOH data pos) = (if ?m < 32 then ?m # filter ?P [Suc ?m..<32] else [])"
    by (simp add: compare32_def conj_commute)
  have "scan_to SOH data len (e + 1) = Some (e + 1 + length (snd f))" using scan_to_found [OF r l h(6)] .
  then show ?thesis unfolding f using assms(3) by simp
qed

definition last_byte_free :: "string \<Rightarrow> nat \<Rightarrow> bool" where
  "last_byte_free data len \<longleftrightarrow> (\<forall>k. 32 * k + 31 < len \<longrightarrow> data ! (32 * k + 31) \<noteq> CHR ''='')"

lemma last_byte_free_code: "last_byte_free data len \<longleftrightarrow> list_all (\<lambda>k. data ! (32 * k + 31) \<noteq> CHR ''='') [0..<len div 32]"
proof -
  have "32 * k + 31 < len \<longleftrightarrow> k < len div 32" for k by (simp add: less_eq_div_iff_mult_less_eq Suc_le_eq [symmetric] mult.commute)
  then show ?thesis by (auto simp: last_byte_free_def list_all_iff)
qed

lemma chunk_loop_field:
  assumes "pending data len ts fs (32 * c + k)" "k \<le> 32" "32 * c + 32 \<le> len" "last_byte_free data len" "t < 2 ^ 64"
  defines "res \<equiv> chunk_loop data len (decimal t) (32 * c) (filter (\<lambda>j. data ! (32 * c + j) = CHR ''='') [k..<32]) (compare32 SOH data (32 * c)) ts"
  shows "(\<exists>v. res = Some (Inl v) \<and> field_pos ts fs t = Some v) \<or>
    (\<exists>ts' gs. res = Some (Inr ts') \<and> field_pos ts fs t = field_pos ts' gs t \<and> pending data len ts' gs (32 * c + 32))"
  using assms(1,2) unfolding res_def
proof (induction fs arbitrary: ts k)
  case Nil
  then have "filter (\<lambda>j. data ! (32 * c + j) = CHR ''='') [k..<32] = []"
    using assms(3) by (auto simp: filter_empty_conv pending_def next_eq_def no_eq_def)
  moreover have "pending data len ts [] (32 * c + 32)" using pending_later [OF Nil(1)] Nil(2) by simp
  ultimately show ?case by fastforce
next
  case (Cons f fs)
  let ?p = "32 * c" and ?e = "ts + length (decimal (fst f))"
  note h = pending_head [OF Cons.prems(1)]
  have m: "k \<le> ?e - ?p" "?p \<le> ?e" using h(1) by simp_all
  have eqs: "filter (\<lambda>j. data ! (?p + j) = CHR ''='') [k..<32]
      = (if ?e - ?p < 32 then (?e - ?p) # filter (\<lambda>j. data ! (?p + j) = CHR ''='') [Suc (?e - ?p)..<32] else [])"
    using m h(2,4) by (intro filter_upt_first) (auto simp: no_eq_def)
  show ?case
  proof (cases "?e - ?p < 32")
    case False
    then have "pending data len ts (f # fs) (?p + 32)"
      using pending_later [OF Cons.prems(1)] Cons.prems(2) m by (simp add: next_eq_def)
    then show ?thesis unfolding eqs using False by (intro disjI2 exI [of _ ts] exI [of _ "f # fs"]) (simp del: field_pos.simps)
  next
    case True
    have "?e - ?p \<noteq> 31"
    proof
      assume "?e - ?p = 31"
      then have "?e = 32 * c + 31" using m by simp
      then show False using assms(3,4) h(4) by (auto simp: last_byte_free_def)
    qed
    then have o: "?e - ?p + 1 < 32" using True by simp
    have eq: "?p + (?e - ?p) = ?e" using m by simp
    obtain r where "drop ts data = decimal (fst f) @ CHR ''='' # r" using h(3) by blast
    then have match: "tag_matches data (decimal t) ts ?e \<longleftrightarrow> fst f = t"
      using h(7) assms(5) by (intro tag_matches_iff) (auto simp: plain_field_def)
    note soh = chunk_soh [OF Cons.prems(1) m(2)]
    have step: "chunk_loop data len (decimal t) ?p ((?e - ?p) # es) (compare32 SOH data ?p) ts
        = (if fst f = t then Some (Inl (?e + 1, length (snd f)))
           else chunk_loop data len (decimal t) ?p es (compare32 SOH data ?p) (ts + length (field_bytes f)))" for es
      using o soh match h(9) by (simp add: eq add.assoc)
    have "pending data len (ts + length (field_bytes f)) fs (?p + Suc (?e - ?p))" using pending_step [OF Cons.prems(1)] eq by simp
    from Cons.IH [OF this] o show ?thesis unfolding eqs using True step by (auto simp: add.commute)
  qed
qed

lemma chunks_field:
  assumes "pending data len ts fs (32 * c)" "last_byte_free data len" "t < 2 ^ 64"
  shows "(\<exists>v. chunks data len (decimal t) (32 * c) ts = Some (Inl v) \<and> field_pos ts fs t = Some v) \<or>
    (\<exists>p ts' gs. chunks data len (decimal t) (32 * c) ts = Some (Inr (p, ts')) \<and> field_pos ts fs t = field_pos ts' gs t \<and> pending data len ts' gs p)"
  using assms(1)
proof (induction "len - 32 * c" arbitrary: c ts fs rule: less_induct)
  case less
  show ?case
  proof (cases "32 * c + 32 \<le> len")
    case True
    have ld: "load32 data (32 * c) = Some ()" using True less.prems by (simp add: load32_def pending_def)
    have "pending data len ts fs (32 * c + 0)" using less.prems by simp
    from chunk_loop_field [OF this _ True assms(2,3)] consider
      v where "chunk_loop data len (decimal t) (32 * c) (compare32 (CHR ''='') data (32 * c)) (compare32 SOH data (32 * c)) ts = Some (Inl v)"
        "field_pos ts fs t = Some v"
      | ts' gs where "chunk_loop data len (decimal t) (32 * c) (compare32 (CHR ''='') data (32 * c)) (compare32 SOH data (32 * c)) ts = Some (Inr ts')"
        "field_pos ts fs t = field_pos ts' gs t" "pending data len ts' gs (32 * (c + 1))"
      unfolding compare32_def by (auto simp: algebra_simps)
    then show ?thesis
    proof cases
      case 1
      then show ?thesis using True ld by (subst (1) chunks.simps) simp
    next
      case 2
      have "chunks data len (decimal t) (32 * c) ts = chunks data len (decimal t) (32 * (c + 1)) ts'"
        using True ld 2(1) by (subst chunks.simps) (simp add: algebra_simps)
      then show ?thesis using less.hyps [of "c + 1", OF _ 2(3)] True 2(2) by simp
    qed
  next
    case False
    then have "chunks data len (decimal t) (32 * c) ts = Some (Inr (32 * c, ts))" by (subst chunks.simps) simp
    then show ?thesis using less.prems by blast
  qed
qed

lemma tail_field:
  assumes "pending data len ts fs p" "t < 2 ^ 64"
  shows "tail_loop data len (decimal t) p ts = Some (field_pos ts fs t)"
  using assms(1)
proof (induction fs arbitrary: ts p)
  case Nil
  then have "scan_to (CHR ''='') data len p = Some len" if "p < len"
    using that by (intro scan_to_eq) (auto simp: pending_def next_eq_def)
  then show ?case by (subst tail_loop.simps) simp
next
  case (Cons f fs)
  let ?e = "ts + length (decimal (fst f))"
  note h = pending_head [OF Cons.prems]
  obtain r where r: "drop ts data = decimal (fst f) @ CHR ''='' # r" using h(3) by blast
  obtain r' where r': "drop (?e + 1) data = snd f @ SOH # fields_bytes fs @ r'" using h(5) by blast
  have match: "tag_matches data (decimal t) ts ?e \<longleftrightarrow> fst f = t"
    using h(7) assms(2) by (intro tag_matches_iff [OF r]) (auto simp: plain_field_def)
  have e: "scan_to (CHR ''='') data len p = Some ?e" using h(1,2,4,6,8) by (intro scan_to_eq) auto
  have s: "scan_to SOH data len (?e + 1) = Some (?e + 1 + length (snd f))"
    using scan_to_found [OF r' _ h(6)] h(7) by (simp add: plain_field_def)
  have "pending data len (ts + length (field_bytes f)) fs (ts + length (field_bytes f))"
    using pending_later [OF pending_step [OF Cons.prems], of "ts + length (field_bytes f)"] h(9)
    by (cases fs) (simp_all add: next_eq_def add.assoc)
  from Cons.IH [OF this] show ?case using e s match h(1,6,9) by (subst tail_loop.simps) (simp add: add.assoc)
qed

lemma pending_start:
  assumes "data = fields_bytes fs @ r" "len = length (fields_bytes fs)" "list_all plain_field fs"
  shows "pending data len 0 fs 0"
proof (cases fs)
  case Nil
  then show ?thesis using assms by (simp add: pending_def next_eq_def no_eq_def)
next
  case (Cons f gs)
  then have "drop 0 data = decimal (fst f) @ CHR ''='' # snd f @ SOH # fields_bytes gs @ r" using assms(1) by (simp add: field_bytes_def)
  then have "no_eq data 0 (0 + length (decimal (fst f)))" using decimal_no_sep(1) by (rule no_eq_range)
  then show ?thesis using assms Cons by (simp add: pending_def next_eq_def)
qed

lemma findValue_field:
  assumes "data = fields_bytes fs @ r" "len = length (fields_bytes fs)" "list_all plain_field fs" "last_byte_free data len" "t < 2 ^ 64"
  shows "findValue data len (decimal t) = Some (field_pos 0 fs t)"
proof -
  have "pending data len 0 fs (32 * 0)" using pending_start [OF assms(1-3)] by simp
  from chunks_field [OF this assms(4,5)] show ?thesis
    using tail_field [OF _ assms(5)] by (auto simp: findValue_def)
qed

lemma field_pos_value:
  "drop off data = fields_bytes fs @ r \<Longrightarrow>
   (case field_pos off fs t of None \<Rightarrow> map_of fs t = None
    | Some (p, n) \<Rightarrow> map_of fs t = Some (take n (drop p data)) \<and> p + n \<le> length data)"
proof (induction fs arbitrary: off)
  case (Cons f fs)
  have d: "drop off data = field_bytes f @ fields_bytes fs @ r" using Cons.prems by simp
  have d': "drop off data = (decimal (fst f) @ ''='') @ (snd f @ SOH # fields_bytes fs @ r)" using d by (simp add: field_bytes_def)
  have v: "drop (off + length (decimal (fst f)) + 1) data = snd f @ SOH # fields_bytes fs @ r" using drop_prefix [OF d'] by simp
  have "off + length (decimal (fst f)) + 1 + length (snd f) \<le> length data"
    using arg_cong [OF v, of length] by simp
  then show ?case using Cons.IH [OF drop_prefix [OF d]] v by (cases f) (auto split: option.splits)
qed simp

lemma found_value:
  assumes "data = fields_bytes fs @ r" "len = length (fields_bytes fs)" "list_all plain_field fs" "last_byte_free data len" "t < 2 ^ 64"
    and "map_of fs t = Some v"
  obtains p where "findValue data len (decimal t) = Some (Some (p, length v))" "read_bytes (length v) (drop p data) = Some v"
proof -
  have "drop 0 data = fields_bytes fs @ r" using assms(1) by simp
  note fp = field_pos_value [OF this, of t]
  obtain p n where p: "field_pos 0 fs t = Some (p, n)" "v = take n (drop p data)" "p + n \<le> length data"
    using fp assms(6) by (auto split: option.splits)
  have l: "length v = n" unfolding p(2) using p(3) by simp
  show thesis using that [of p] findValue_field [OF assms(1-5)] p l by (simp add: read_bytes_def)
qed

subsection \<open>The header of a message that is sent again\<close>

lemma strnum_int_append: "strnum_int_loop (xs @ ys) r = Option.bind (strnum_int_loop xs r) (strnum_int_loop ys)"
  by (induction xs arbitrary: r) (auto split: bind_split)

lemma strnum_int_decimal: "n < 2 ^ 31 \<Longrightarrow> fix_strnum_to_int (decimal n) = Some (int n)"
proof (induction n rule: less_induct)
  case (less n)
  have d: "int (of_char (digit_char k)) - 48 = int k" if "k < 10" for k using that by (simp add: of_char_digit)
  show ?case
  proof (cases "n < 10")
    case True
    then show ?thesis using less.prems d [OF True] by (simp add: decimal_digit fix_strnum_to_int_def)
  next
    case False
    have n: "int (n div 10) * 10 + int (n mod 10) = int n" by presburger
    have "strnum_int_loop (decimal (n div 10)) 0 = Some (int (n div 10))"
      using less.IH [of "n div 10"] False less.prems by (simp add: fix_strnum_to_int_def)
    moreover have "int (n div 10) * 10 < 2 ^ 31" "int n < 2 ^ 31" using less.prems by simp_all
    ultimately show ?thesis
      using False d [of "n mod 10"] n by (simp add: decimal_step fix_strnum_to_int_def strnum_int_append)
  qed
qed

definition resend_fields :: "tm \<Rightarrow> u64 \<Rightarrow> u64 \<Rightarrow> VenueUserInfo_FIX \<Rightarrow> u32 \<Rightarrow> FixBody \<Rightarrow> fix_field list" where
  "resend_fields t now now0 u seq body =
     [(35, msg_types body), (49, fix_my_id u), (56, fix_venue_id u), (34, decimal (unat seq)), (43, ''Y''),
      (122, time_text t now0), (52, time_text t now)]"

lemma resend_header_put:
  assumes "take (unat (bf_len org)) (bf_data org) = built_message t now0 u seq body" "unat (bf_len org) \<le> length (bf_data org)"
    and "length (built_message t now0 u seq body) \<le> MAX_MSG_SIZE"
    and "list_all plain_field (all_fields t now0 u seq body)" "last_byte_free (bf_data org) (unat (bf_len org))"
  shows "resend_buildHeader (init_time_table t) now org u
    = put (fix_header ''FIX.5.0'' (length (fields_bytes (resend_fields t now now0 u seq body)) + length (fields_bytes (body_fields t u body)))
        @ fields_bytes (resend_fields t now now0 u seq body))"
proof -
  let ?fs = "all_fields t now0 u seq body" and ?d = "bf_data org" and ?l = "unat (bf_len org)"
  let ?n = "length (built_body t now0 u seq body)"
  have data: "?d = fields_bytes ?fs @ drop ?l ?d" using assms(1) built_message_fields append_take_drop_id [of ?l ?d] by simp
  have len: "?l = length (fields_bytes ?fs)" using arg_cong [OF assms(1), of length] assms(2) by (simp add: built_message_fields)
  note find = found_value [OF data len assms(4,5)]
  have f: "map_of ?fs 35 = Some (msg_types body)" "map_of ?fs 34 = Some (decimal (unat seq))" "map_of ?fs 52 = Some (time_text t now0)"
    "map_of ?fs 9 = Some (decimal ?n)"
    by (simp_all add: all_fields_def built_fields_def head_fields_def)
  obtain p1 where 1: "findValue ?d ?l ''35'' = Some (Some (p1, 1))" "read_bytes 1 (drop p1 ?d) = Some (msg_types body)"
    using find [OF _ f(1)] by (auto simp: tag_numbers)
  obtain p2 where 2: "findValue ?d ?l ''34'' = Some (Some (p2, length (decimal (unat seq))))"
      "read_bytes (length (decimal (unat seq))) (drop p2 ?d) = Some (decimal (unat seq))"
    using find [OF _ f(2)] by (auto simp: tag_numbers)
  obtain p3 where 3: "findValue ?d ?l ''52'' = Some (Some (p3, length (time_text t now0)))"
      "read_bytes (length (time_text t now0)) (drop p3 ?d) = Some (time_text t now0)"
    using find [OF _ f(3)] by (auto simp: tag_numbers)
  have "decimal 9 = ''9''" by code_simp
  then obtain p4 where 4: "findValue ?d ?l ''9'' = Some (Some (p4, length (decimal ?n)))"
      "read_bytes (length (decimal ?n)) (drop p4 ?d) = Some (decimal ?n)"
    using find [OF _ f(4)] by auto
  have n: "?n < 2 ^ 9" using assms(3) by (simp add: built_message_def fix_message_def fix_header_def MAX_MSG_SIZE_def)
  then have i: "fix_strnum_to_int (decimal ?n) = Some (int ?n)" by (intro strnum_int_decimal) simp
  have total: "?n + (10 + length (time_text t now)) = length (fields_bytes (resend_fields t now now0 u seq body)) + length (fields_bytes (body_fields t u body))"
    by (simp add: built_body_def built_fields_def head_fields_def resend_fields_def field_bytes_def tag_numbers length_time_text)
  have k: "unat (ucast (of_nat k :: u64) :: u32) = k" if "k < 2 ^ 32" for k
    using that by (simp add: unsigned_of_nat take_bit_nat_eq_self)
  have bl: "unat (ucast ((of_int (int ?n) :: u64) + (10 + of_nat (length (time_text t now)))) :: u32) = ?n + (10 + length (time_text t now))"
    using k [of "?n + (10 + length (time_text t now))"] n by (simp add: length_time_text)
  have vt: "value_text ?d (Some (p, m)) l = read_bytes l (drop p ?d)" "value_len (Some (p, m)) = m" for p m l
    by (simp_all add: value_text_def value_len_def)
  have ty: "addTag ''35='' 3 (msg_types body) 1 = put (field_bytes (35, msg_types body))"
    using addTag_field [of "''35=''" 35 3 1 "msg_types body"] by (simp add: tag_numbers)
  have bs: "addTag ''8='' 2 ''FIX.5.0 '' 7 = put (''8=FIX.5.0'' @ [SOH])"
    by (simp add: fun_eq_iff addTag_put [of _ _ "''8=''" _ _ "''FIX.5.0''"] read_bytes_def)
  have nine: "addTag_int ''9='' 2 v = put (''9='' @ decimal (unat v) @ [SOH])" for v
    by (simp add: fun_eq_iff addTag_int_put [of _ _ "''9=''"] read_bytes_def)
  have more: "add_string ''34='' 3 s = put (field_bytes (34, s))" "addTag ''43='' 3 ''Y'' 1 = put (field_bytes (43, ''Y''))"
    "add_string ''122='' 4 s = put (field_bytes (122, s))" for s
    using addTag_field [of "''43=''" 43 3 1 "''Y''"] by (simp_all add: add_fields tag_numbers)
  have "resend_buildHeader (init_time_table t) now org u c
      = put (''8=FIX.5.0'' @ [SOH] @ ''9='' @ decimal (?n + (10 + length (time_text t now))) @ [SOH]
        @ field_bytes (35, msg_types body) @ field_bytes (49, fix_my_id u) @ field_bytes (56, fix_venue_id u)
        @ field_bytes (34, decimal (unat seq)) @ field_bytes (43, ''Y'') @ field_bytes (122, time_text t now0)
        @ field_bytes (52, time_text t now)) c" for c
    unfolding resend_buildHeader_def Let_def 1 2 3 4 bind.bind_lunit option.case prod.case i times vt bs nine ty more bl const_fields by simp
  then show ?thesis unfolding fix_header_def total [symmetric] by (simp add: fun_eq_iff resend_fields_def)
qed

text \<open>What is copied behind the header is not the body: the start that was noted lies behind it.\<close>

lemma resend_copies_trailer:
  assumes "second_table fb = init_time_table t" "session_fix i sm = Some q" "session_auth_fix i sm = Some u" "body_ok body"
    and "my_next_seqnum q < 1000000" "length (bf_data (fix_history q (unat (my_next_seqnum q)))) = MAX_MSG_SIZE"
    and "length (fields_bytes (body_fields t u body)) \<le> MAX_BODY_SIZE"
    and "length (built_message t now u (my_next_seqnum q) body) \<le> MAX_MSG_SIZE"
    and "fix_build fb now i body sm = Some (b, sm')" "3 \<le> length (fields_bytes (body_fields t u body))"
  shows "take 3 (drop (hotdata_start b) (bf_data b)) = ''10=''"
proof -
  let ?m = "built_message t now u (my_next_seqnum q) body"
  have b: "take (unat (bf_len b)) (bf_data b) = ?m" "hotdata_start b = length ?m - 7"
    using fix_build_spec [OF assms(1-8)] assms(9) by auto
  obtain p where p: "?m = p @ ''10='' @ built_checksum t now u (my_next_seqnum q) body @ [SOH]"
    unfolding built_message_def fix_message_def by (metis append.assoc)
  then have "length ?m - 7 = length p" by (simp add: length_built_checksum)
  moreover obtain rest where "bf_data b = p @ ''10='' @ built_checksum t now u (my_next_seqnum q) body @ [SOH] @ rest"
    using append_take_drop_id [of "unat (bf_len b)" "bf_data b"] b(1) p by (metis append.assoc)
  ultimately show ?thesis using b(2) by simp
qed

text \<open>A sender of five characters puts the equals sign of the next field into the last byte of a chunk, and the
  search for any later field is undefined.\<close>

lemma find_value_undefined:
  "findValue (''8=FIX.5.0'' @ [SOH] @ ''9=56'' @ [SOH] @ ''35=2'' @ [SOH] @ ''49=MEXYZ'' @ [SOH] @ ''56=BI'' @ [SOH] @ ''34=1'' @ [SOH]) 44 ''34'' = None"
  by code_simp

subsection \<open>Properties\<close>

text \<open>C22. The search that compares 32 bytes at once finds what a lookup in the list of fields finds: the position and
  the length of the value of the first field with the tag, or nothing when there is none, for every
  message of fields none of whose equals signs falls into the last byte of a chunk of 32.\<close>

theorem find_value_lookup:
  assumes "data = fields_bytes fs @ r" "len = length (fields_bytes fs)" "list_all plain_field fs" "last_byte_free data len" "t < 2 ^ 64"
  shows "\<exists>v. findValue data len (decimal t) = Some v \<and> map_option (\<lambda>(p, n). take n (drop p data)) v = map_of fs t"
proof -
  have "drop 0 data = fields_bytes fs @ r" using assms(1) by simp
  from field_pos_value [OF this, of t] show ?thesis
    using findValue_field [OF assms] by (auto split: option.splits)
qed

definition sample_fields :: "fix_field list" where
  "sample_fields = [(8, ''FIX.5.0''), (35, ''2''), (49, ''ME''), (56, ''BI''), (34, ''12''), (7, ''3'')]"

theorem find_value_lookup_witness:
  "\<exists>v. findValue (fields_bytes sample_fields) 37 ''34'' = Some v
     \<and> map_option (\<lambda>(p, n). take n (drop p (fields_bytes sample_fields))) v = Some ''12''"
proof -
  have l: "length (fields_bytes sample_fields) = 37" "decimal 34 = ''34''" "fields_bytes sample_fields ! 31 \<noteq> CHR ''=''" by code_simp+
  have "last_byte_free (fields_bytes sample_fields) 37" using l(3) by (simp add: last_byte_free_code)
  moreover have "list_all plain_field sample_fields" by (simp add: sample_fields_def plain_field_def)
  moreover have "map_of sample_fields 34 = Some ''12''" by (simp add: sample_fields_def)
  ultimately show ?thesis using find_value_lookup [of "fields_bytes sample_fields" sample_fields "[]" 37 34] l(1,2) by simp
qed

text \<open>The header of a message that is sent again has the type and the number of the original, the flag for a possible
  duplicate, the time of the original and the present time, and announces the length of this header's
  fields and of the original's own fields together.\<close>

theorem resend_header:
  assumes "take (unat (bf_len org)) (bf_data org) = built_message t now0 u seq body" "unat (bf_len org) \<le> length (bf_data org)"
    and "length (built_message t now0 u seq body) \<le> MAX_MSG_SIZE"
    and "list_all plain_field (all_fields t now0 u seq body)" "last_byte_free (bf_data org) (unat (bf_len org))"
    and "length (fix_header ''FIX.5.0'' (length (fields_bytes (resend_fields t now now0 u seq body)) + length (fields_bytes (body_fields t u body)))
        @ fields_bytes (resend_fields t now now0 u seq body)) \<le> length buf"
  shows "\<exists>c. resend_buildHeader (init_time_table t) now org u (buf, 0) = Some c \<and>
    take (snd c) (fst c) = fix_header ''FIX.5.0'' (length (fields_bytes (resend_fields t now now0 u seq body)) + length (fields_bytes (body_fields t u body)))
        @ fields_bytes (resend_fields t now now0 u seq body)"
  unfolding resend_header_put [OF assms(1-5)] using put_fits [of 0 _ buf] assms(6) by simp

lemma digit_char_no_eq: "d < 10 \<Longrightarrow> CHR ''='' \<noteq> digit_char d"
proof
  assume "d < 10" "CHR ''='' = digit_char d"
  then have "is_digit (CHR ''='')" by simp
  then show False by (simp add: is_digit_def)
qed

definition sample_reset :: string where
  "sample_reset = built_message sample_tm 0 sample_auth 1 (FB_SequenceReset 5)"

definition sample_org :: Buffer_FIX where
  "sample_org = \<lparr>bf_data = sample_reset @ replicate 432 (CHR 0x00), hotdata_start = 73, bf_len = 80, hotdata_len = 11\<rparr>"

lemma sample_reset_length:
  "length (built_body sample_tm 0 sample_auth 1 (FB_SequenceReset 5)) = 58" "length sample_reset = 80"
proof -
  have d: "decimal 5 = ''5''" "decimal 58 = ''58''" by code_simp+
  show h: "length (built_body sample_tm 0 sample_auth 1 (FB_SequenceReset 5)) = 58"
    using tag_numbers(1)
    by (simp add: built_body_def built_fields_def head_fields_def field_bytes_def tag_numbers d length_time_text sample_auth_def)
  show "length sample_reset = 80"
    unfolding sample_reset_def built_message_def length_fix_message [OF length_built_checksum] h by (simp add: fix_header_def d)
qed

lemma sample_time: "time_text sample_tm 0 = ''20250617-00:00:00.000''"
proof -
  have "digit_char 0 = CHR ''0''" "digit_char 1 = CHR ''1''" "digit_char 2 = CHR ''2''" "digit_char 5 = CHR ''5''" "digit_char 6 = CHR ''6''"
    "digit_char 7 = CHR ''7''" by code_simp+
  then show ?thesis
    by (simp add: time_text_def second_entry_def milli_digits_def two_digits_def sample_tm_def)
qed

lemma sample_reset_free: "last_byte_free (bf_data sample_org) 80"
proof -
  let ?a = "fields_bytes [(8, ''FIX.5.0''), (9, ''58'')] @ built_body sample_tm 0 sample_auth 1 (FB_SequenceReset 5)"
  have d: "decimal 58 = ''58''" "decimal 5 = ''5''" "decimal 8 = ''8''" "decimal 9 = ''9''" by code_simp+
  have "?a = ''8=FIX.5.0'' @ [SOH] @ ''9=58'' @ [SOH] @ ''35=4'' @ [SOH] @ ''49=ME'' @ [SOH] @ ''56=BI'' @ [SOH] @ ''34=1'' @ [SOH]
      @ ''52=20250617-00:00:00.000'' @ [SOH] @ ''123=Y'' @ [SOH] @ ''36=5'' @ [SOH]"
    using tag_numbers(1) by (simp add: built_body_def built_fields_def head_fields_def field_bytes_def tag_numbers d sample_time sample_auth_def)
  then have a: "?a ! 31 \<noteq> CHR ''=''" "?a ! 63 \<noteq> CHR ''=''" "length ?a = 73" by (simp_all only:) (simp_all add: nth_append)
  have e: "bf_data sample_org = ?a @ (field_bytes (10, built_checksum sample_tm 0 sample_auth 1 (FB_SequenceReset 5)) @ replicate 432 (CHR 0x00))"
    unfolding sample_org_def sample_reset_def built_message_fields all_fields_def sample_reset_length(1) d(1)
    by (simp add: built_body_def)
  have n: "bf_data sample_org ! i = ?a ! i" if "i < 73" for i
    unfolding e using that by (intro nth_append_left) (simp only: a(3))
  show ?thesis using a(1,2) n [of 31] n [of 63] by (simp add: last_byte_free_code upt_rec del: append_assoc)
qed

theorem resend_header_witness:
  "\<exists>c. resend_buildHeader (init_time_table sample_tm) 1000000000 sample_org sample_auth (replicate 512 (CHR 0x00), 0) = Some c \<and>
    take (snd c) (fst c) = fix_header ''FIX.5.0'' 89
        @ fields_bytes (resend_fields sample_tm 1000000000 0 sample_auth 1 (FB_SequenceReset 5))"
proof -
  let ?b = "FB_SequenceReset 5"
  have d: "decimal 5 = ''5''" "decimal 89 = ''89''" by code_simp+
  have len: "length (fields_bytes (resend_fields sample_tm 1000000000 0 sample_auth 1 ?b)) = 78"
    "length (fields_bytes (body_fields sample_tm sample_auth ?b)) = 11"
    using tag_numbers(1) by (simp_all add: resend_fields_def field_bytes_def tag_numbers length_time_text sample_auth_def d)
  have org: "take (unat (bf_len sample_org)) (bf_data sample_org) = built_message sample_tm 0 sample_auth 1 ?b"
    "unat (bf_len sample_org) \<le> length (bf_data sample_org)" "unat (bf_len sample_org) = 80"
    "length (built_message sample_tm 0 sample_auth 1 ?b) \<le> MAX_MSG_SIZE"
    using sample_reset_length(2) by (simp_all add: sample_org_def sample_reset_def MAX_MSG_SIZE_def)
  have "CHR ''='' \<notin> set (built_checksum sample_tm 0 sample_auth 1 ?b)"
    using digit_char_no_eq by (simp add: built_checksum_def checksum_text_def Let_def)
  then have "list_all plain_field (all_fields sample_tm 0 sample_auth 1 ?b)"
    using checksum_no_soh decimal_no_sep
    by (simp add: all_fields_def built_fields_def head_fields_def plain_field_def sample_time sample_auth_def)
  from resend_header [OF org(1,2,4) this, of 1000000000 "replicate 512 (CHR 0x00)"] sample_reset_free org(3)
  show ?thesis unfolding len by (simp add: fix_header_def d len)
qed

end
