(* ===== verification/Builder_Dispatch.thy ===== *)
theory Builder_Dispatch
  imports Fix_Resend Ouch_Builders Order_Manager Risk_State
begin

text \<open>
  The builder thread (src/src/protocol/Builder_Dispatch.cpp): an order that has passed the risk engine is taken
  from the queue, its message is built by the builder of its protocol and venue, copied into a packet
  of the pool and queued for the network thread (src/src/network/NetworkPackets.h); the session messages of
  FIX are built before an order of FIX.  Also the login packet of src/src/session/LoginController.cpp.  The
  clock is a function of the number of readings so far; messages and orders are objects of their
  pools.
\<close>

subsection \<open>Packets to send\<close>

record TxPacket =
  tx_data :: string
  tx_len :: u16
  tx_offset :: u16
  tx_sock_index :: u8
  is_login_msg :: bool

definition TX_DATA_SIZE :: nat where "TX_DATA_SIZE = 2048"

definition fillPacket :: "string \<Rightarrow> u16 \<Rightarrow> u8 \<Rightarrow> bool \<Rightarrow> TxPacket \<Rightarrow> TxPacket option" where
  "fillPacket src src_len session_index login_msg pkt = do {
     s \<leftarrow> read_bytes (unat src_len) src;
     d \<leftarrow> write_bytes 0 s (tx_data pkt);
     Some \<lparr>tx_data = d, tx_len = src_len, tx_offset = 0, tx_sock_index = session_index, is_login_msg = login_msg\<rparr> }"

definition PACKET_POOL_CAPACITY :: u64 where "PACKET_POOL_CAPACITY = 1024"

record TxPacketPoolManager =
  tx_pool :: "nat \<Rightarrow> TxPacket"
  next_txPkt :: u64

definition get_txPkt :: "TxPacketPoolManager \<Rightarrow> nat \<times> TxPacketPoolManager" where
  "get_txPkt m = (unat (next_txPkt m AND (PACKET_POOL_CAPACITY - 1)), m\<lparr>next_txPkt := next_txPkt m + 1\<rparr>)"

subsection \<open>The state of the builder thread\<close>

record Dispatcher =
  bd_sessions :: SessionManager
  bd_fix :: Builder_FIX
  bd_bist :: Builder_OUCH_BIST
  bd_nasdaq :: Builder_OUCH_NASDAQ
  bd_packets :: TxPacketPoolManager
  builder_to_sender :: "nat spsc"
  bd_from_risk :: "nat spsc"
  bd_ses_rx :: "nat spsc"
  bd_parser :: Parser_FIX
  bd_orders :: OrderManager
  bd_ticks :: nat

definition read_clock :: "(nat \<Rightarrow> u64) \<Rightarrow> Dispatcher \<Rightarrow> u64 \<times> Dispatcher" where
  "read_clock clk d = (clk (bd_ticks d), d\<lparr>bd_ticks := bd_ticks d + 1\<rparr>)"

text \<open>A packet of the pool is filled and queued; the push to a full queue fails, and the result is ignored.\<close>

definition send_packet :: "string \<Rightarrow> u16 \<Rightarrow> nat \<Rightarrow> bool \<Rightarrow> Dispatcher \<Rightarrow> Dispatcher option" where
  "send_packet msg len session_index login d = do {
     let (k, pool1) = get_txPkt (bd_packets d);
     p \<leftarrow> fillPacket msg len (of_nat session_index) login (tx_pool pool1 k);
     Some (d\<lparr>bd_packets := pool1\<lparr>tx_pool := (tx_pool pool1)(k := p)\<rparr>,
             builder_to_sender := snd (spsc_push Q1024 k (builder_to_sender d))\<rparr>) }"

definition mark_built :: "nat \<Rightarrow> Dispatcher \<Rightarrow> Dispatcher" where
  "mark_built p d = (let om = bd_orders d in
     d\<lparr>bd_orders := om\<lparr>om_heap := (om_heap om)(p := (om_heap om p)\<lparr>canModify := canModify (om_heap om p) OR BUILDER_DONE\<rparr>)\<rparr>\<rparr>)"

subsection \<open>OUCH\<close>

definition buildOUCH_BIST :: "nat \<Rightarrow> Dispatcher \<Rightarrow> Dispatcher option" where
  "buildOUCH_BIST p d = do {
     i \<leftarrow> getSessionIndex BIST OUCH 0 (bd_sessions d);
     ((m, len), b1) \<leftarrow> bist_build (om_heap (bd_orders d) p) (bd_bist d);
     d1 \<leftarrow> send_packet m len i False (d\<lparr>bd_bist := b1\<rparr>);
     Some (mark_built p d1) }"

definition buildOUCH_NASDAQ :: "nat \<Rightarrow> Dispatcher \<Rightarrow> Dispatcher option" where
  "buildOUCH_NASDAQ p d = do {
     i \<leftarrow> getSessionIndex NASDAQ OUCH 0 (bd_sessions d);
     let om = bd_orders d;
     ((m, len), ord1, b1) \<leftarrow> nasdaq_build (om_heap om p) (bd_nasdaq d);
     d1 \<leftarrow> send_packet m len i False (d\<lparr>bd_nasdaq := b1, bd_orders := om\<lparr>om_heap := (om_heap om)(p := ord1)\<rparr>\<rparr>);
     Some (mark_built p d1) }"

subsection \<open>FIX\<close>

text \<open>Building a message of a session and queueing its packet.\<close>

definition build_and_send :: "(nat \<Rightarrow> u64) \<Rightarrow> nat \<Rightarrow> FixBody \<Rightarrow> bool \<Rightarrow> Dispatcher \<Rightarrow> Dispatcher option" where
  "build_and_send clk i body login d = do {
     let (now, d1) = read_clock clk d;
     (b, sm1) \<leftarrow> fix_build (bd_fix d1) now i body (bd_sessions d1);
     send_packet (bf_data b) (bf_len b) i login (d1\<lparr>bd_sessions := sm1\<rparr>) }"

definition release_ses :: "nat \<Rightarrow> Dispatcher \<Rightarrow> Dispatcher" where
  "release_ses k d = d\<lparr>bd_parser := releaseFIX_ses k (bd_parser d)\<rparr>"

definition buildFIX_ses_in :: "(nat \<Rightarrow> u64) \<Rightarrow> nat \<Rightarrow> nat \<Rightarrow> Dispatcher \<Rightarrow> Dispatcher option" where
  "buildFIX_ses_in clk k i d = (let m = fixSesMsg_pool (bd_parser d) k in
     if fs_msg_type m = T_ResendRequest then do {
       d1 \<leftarrow> build_and_send clk i (FB_ResendRequest (fs_begin_seqnum m) (fs_end_seqnum m)) False d;
       Some (release_ses k d1) }
     else if fs_msg_type m = T_Logout then do {
       d1 \<leftarrow> build_and_send clk i FB_Logout False d;
       Some (release_ses k d1) }
     else if fs_msg_type m = T_Logon then do {
       before \<leftarrow> isSessionLoggedInBefore i (bd_sessions d);
       d1 \<leftarrow> build_and_send clk i (FB_Logon (\<not> before)) True d;
       Some (release_ses k d1) }
     else Some (release_ses k d))"

text \<open>\<^verbatim>\<open>for (auto i = begin; i <= end; i++)\<close> on 32-bit numbers.\<close>

partial_function (option) resend_loop :: "(nat \<Rightarrow> u64) \<Rightarrow> nat \<Rightarrow> u32 \<Rightarrow> u32 \<Rightarrow> Dispatcher \<Rightarrow> Dispatcher option" where
  "resend_loop clk i k end_seq d =
     (if k \<le> end_seq then do {
        let (now, d1) = read_clock clk d;
        q \<leftarrow> session_fix i (bd_sessions d1);
        org \<leftarrow> get_buffer (unat k) q;
        (b, fb1) \<leftarrow> build_resend now org i (bd_sessions d1) (bd_fix d1);
        d2 \<leftarrow> send_packet (bf_data b) (bf_len b) i False (d1\<lparr>bd_fix := fb1\<rparr>);
        resend_loop clk i (k + 1) end_seq d2 }
      else Some d)"

definition buildFIX_ses_out :: "(nat \<Rightarrow> u64) \<Rightarrow> nat \<Rightarrow> nat \<Rightarrow> Dispatcher \<Rightarrow> Dispatcher option" where
  "buildFIX_ses_out clk k i d = (let m = fixSesMsg_pool (bd_parser d) k in
     if fs_msg_type m = T_TestRequest then do {
       d1 \<leftarrow> build_and_send clk i FB_Heartbeat False d;
       Some (release_ses k d1) }
     else if fs_msg_type m = T_ResendRequest then do {
       d1 \<leftarrow> resend_loop clk i (fs_begin_seqnum m) (fs_end_seqnum m) d;
       Some (release_ses k d1) }
     else if fs_msg_type m = T_Reject then do {
       d1 \<leftarrow> build_and_send clk i FB_Logout False d;
       Some (release_ses k d1) }
     else if fs_msg_type m = T_Logout then do {
       st \<leftarrow> getSessionState i (bd_sessions d);
       let (now1, d1) = read_clock clk d;
       if fst (LoginDecider now1 st) = TryAgain then do {
         before \<leftarrow> isSessionLoggedInBefore i (bd_sessions d1);
         let (now2, d2) = read_clock clk d1;
         (b, sm1) \<leftarrow> fix_build (bd_fix d2) now2 i (FB_Logon (\<not> before)) (bd_sessions d2);
         let (now3, d3) = read_clock clk d2;
         sm2 \<leftarrow> upd_session i (\<lambda>st. st\<lparr>last_login_attempt_ns := now3, login_retry_count := login_retry_count st + 1\<rparr>) sm1;
         d4 \<leftarrow> send_packet (bf_data b) (bf_len b) i True (d3\<lparr>bd_sessions := sm2\<rparr>);
         Some (release_ses k d4) }
       else Some (release_ses k d1) }
     else Some (release_ses k d))"

text \<open>The type of message of an order: \<^verbatim>\<open>NewOrderSingle\<close> is \<open>D\<close>, \<^verbatim>\<open>OrderCancelRequest\<close> is \<open>F\<close> and
  \<^verbatim>\<open>OrderCancelReplaceRequest\<close> is \<open>G\<close>.\<close>

definition buildFIX_app :: "(nat \<Rightarrow> u64) \<Rightarrow> nat \<Rightarrow> nat \<Rightarrow> Dispatcher \<Rightarrow> Dispatcher option" where
  "buildFIX_app clk p i d = (let ord = om_heap (bd_orders d) p in
     if message_type ord = 68 then build_and_send clk i (FB_NewOrderSingle ord) False d
     else if message_type ord = 70 then build_and_send clk i (FB_OrderCancelRequest ord) False d
     else if message_type ord = 71 then build_and_send clk i (FB_OrderCancelReplaceRequest ord) False d
     else Some d)"

partial_function (option) drain_rx :: "(nat \<Rightarrow> u64) \<Rightarrow> nat \<Rightarrow> Dispatcher \<Rightarrow> Dispatcher option" where
  "drain_rx clk i d = (case spsc_pop FQ (bd_ses_rx d) of
     (None, q) \<Rightarrow> Some (d\<lparr>bd_ses_rx := q\<rparr>)
   | (Some k, q) \<Rightarrow> do {
       d1 \<leftarrow> buildFIX_ses_out clk k i (d\<lparr>bd_ses_rx := q\<rparr>);
       drain_rx clk i d1 })"

partial_function (option) drain_tx :: "(nat \<Rightarrow> u64) \<Rightarrow> nat \<Rightarrow> Dispatcher \<Rightarrow> Dispatcher option" where
  "drain_tx clk i d = (case spsc_pop FQ (parser_to_fixbuilder_tx (bd_parser d)) of
     (None, q) \<Rightarrow> Some (d\<lparr>bd_parser := (bd_parser d)\<lparr>parser_to_fixbuilder_tx := q\<rparr>\<rparr>)
   | (Some k, q) \<Rightarrow> do {
       d1 \<leftarrow> buildFIX_ses_in clk k i (d\<lparr>bd_parser := (bd_parser d)\<lparr>parser_to_fixbuilder_tx := q\<rparr>\<rparr>);
       drain_tx clk i d1 })"

definition buildFIX :: "(nat \<Rightarrow> u64) \<Rightarrow> nat \<Rightarrow> Dispatcher \<Rightarrow> Dispatcher option" where
  "buildFIX clk p d = do {
     i \<leftarrow> getSessionIndex BIST FIX 0 (bd_sessions d);
     d1 \<leftarrow> drain_rx clk i d;
     d2 \<leftarrow> drain_tx clk i d1;
     d3 \<leftarrow> buildFIX_app clk p i d2;
     Some (mark_built p d3) }"

subsection \<open>Dispatch\<close>

text \<open>The table of builders; the entries that are not set are null, and calling one is undefined.\<close>

fun builder_table :: "(nat \<Rightarrow> u64) \<Rightarrow> Protocol \<Rightarrow> Venue \<Rightarrow> nat \<Rightarrow> Dispatcher \<Rightarrow> Dispatcher option" where
  "builder_table clk FIX BIST p d = buildFIX clk p d"
| "builder_table clk OUCH BIST p d = buildOUCH_BIST p d"
| "builder_table clk OUCH NASDAQ p d = buildOUCH_NASDAQ p d"
| "builder_table clk _ _ p d = None"

definition dispatch_builder :: "(u64 \<Rightarrow> u64) \<Rightarrow> (nat \<Rightarrow> u64) \<Rightarrow> Dispatcher \<Rightarrow> (bool \<times> Dispatcher) option" where
  "dispatch_builder hk clk d = (case spsc_pop Q1024 (bd_from_risk d) of
     (None, q) \<Rightarrow> Some (False, d\<lparr>bd_from_risk := q\<rparr>)
   | (Some p, q) \<Rightarrow> do {
       let d1 = d\<lparr>bd_from_risk := q\<rparr>;
       let ord = om_heap (bd_orders d1) p;
       d2 \<leftarrow> builder_table clk (protocol ord) (venue ord) p d1;
       (if order_id (om_heap (bd_orders d2) p) = 0 then do {
          om1 \<leftarrow> add_awaitingAck_order hk p (bd_orders d2);
          Some (True, d2\<lparr>bd_orders := om1\<rparr>) }
        else Some (True, d2)) })"

subsection \<open>Login packets\<close>

definition LoginAttempt ::
  "u64 \<Rightarrow> u64 \<Rightarrow> Builder_FIX \<Rightarrow> TxPacket \<Rightarrow> nat \<Rightarrow> SessionManager \<Rightarrow> (TxPacket \<times> SessionManager) option" where
  "LoginAttempt wall now fb pkt i sm = do {
     st \<leftarrow> getSessionState i sm;
     before \<leftarrow> isSessionLoggedInBefore i sm;
     (pkt1, sm1) \<leftarrow>
       (if sess_prot st = SP_SBT then
          if \<not> before then do {
            d \<leftarrow> buildFirstLoginRequest i sm (tx_data pkt);
            Some (pkt\<lparr>tx_data := d, tx_len := 47\<rparr>, sm) }
          else do {
            (d, sm1) \<leftarrow> buildReLoginRequest i sm (tx_data pkt);
            Some (pkt\<lparr>tx_data := d, tx_len := 47\<rparr>, sm1) }
        else do {
          (b, sm1) \<leftarrow> fix_build fb wall i (FB_Logon (\<not> before)) sm;
          s \<leftarrow> read_bytes (unat (bf_len b)) (bf_data b);
          d \<leftarrow> write_bytes 0 s (tx_data pkt);
          Some (pkt\<lparr>tx_data := d, tx_len := bf_len b\<rparr>, sm1) });
     sm2 \<leftarrow> upd_session i (\<lambda>st. st\<lparr>last_login_attempt_ns := now, login_retry_count := login_retry_count st + 1\<rparr>) sm1;
     Some (pkt1\<lparr>tx_sock_index := of_nat i, is_login_msg := True\<rparr>, sm2) }"

subsection \<open>Lemmas on packets\<close>

text \<open>The bytes of a packet still to be sent, and the packets that wait for the network thread, each with its
  session and the mark of a login.\<close>

definition tx_slot :: "u64 \<Rightarrow> nat" where
  "tx_slot n = unat (n AND (PACKET_POOL_CAPACITY - 1))"

definition tx_bytes :: "TxPacket \<Rightarrow> string" where
  "tx_bytes p = drop (unat (tx_offset p)) (take (unat (tx_len p)) (tx_data p))"

definition as_sent :: "TxPacket \<Rightarrow> string \<times> u8 \<times> bool" where
  "as_sent p = (tx_bytes p, tx_sock_index p, is_login_msg p)"

definition outbox :: "Dispatcher \<Rightarrow> (string \<times> u8 \<times> bool) list" where
  "outbox d = map (\<lambda>k. as_sent (tx_pool (bd_packets d) k)) (spsc_rep Q1024 (builder_to_sender d))"

definition tx_ready :: "Dispatcher \<Rightarrow> bool" where
  "tx_ready d \<longleftrightarrow> spsc_inv Q1024 (builder_to_sender d) \<and> (\<forall>k. length (tx_data (tx_pool (bd_packets d) k)) = TX_DATA_SIZE)"

text \<open>The queue takes \<open>n\<close> more packets, and the next \<open>n\<close> packets of the pool are not waiting in it.\<close>

definition sender_room :: "nat \<Rightarrow> Dispatcher \<Rightarrow> bool" where
  "sender_room n d \<longleftrightarrow> length (outbox d) + n \<le> 1024
     \<and> (\<forall>j < n. tx_slot (next_txPkt (bd_packets d) + of_nat j) \<notin> set (spsc_rep Q1024 (builder_to_sender d)))"

lemma length_outbox: "length (outbox d) = length (spsc_rep Q1024 (builder_to_sender d))"
  by (simp add: outbox_def)

lemma push_room:
  assumes "spsc_inv Q1024 q" "length (spsc_rep Q1024 q) < 1024"
  shows "spsc_inv Q1024 (snd (spsc_push Q1024 x q))" "spsc_rep Q1024 (snd (spsc_push Q1024 x q)) = spsc_rep Q1024 q @ [x]"
proof -
  have "spsc_len q < 2 ^ (Q1024 + 3)" using assms(2) by (simp add: length_spsc_rep Q1024_def)
  then show "spsc_inv Q1024 (snd (spsc_push Q1024 x q))" "spsc_rep Q1024 (snd (spsc_push Q1024 x q)) = spsc_rep Q1024 q @ [x]"
    using spsc_enq [OF assms(1)] by (simp_all add: spsc_push_cases [OF assms(1)])
qed

lemma pop_front:
  assumes "spsc_inv h q" "spsc_rep h q = x # xs"
  obtains q' where "spsc_pop h q = (Some x, q')" "spsc_inv h q'" "spsc_rep h q' = xs"
proof -
  have "0 < spsc_len q" using assms(2) length_spsc_rep [of h q] by simp
  then show thesis using that spsc_deq [OF assms(1)] assms(2) by (simp add: spsc_pop_cases [OF assms(1)])
qed

lemma pop_empty: "spsc_inv h q \<Longrightarrow> spsc_rep h q = [] \<Longrightarrow> spsc_pop h q = (None, q)"
  using length_spsc_rep [of h q] by (simp add: spsc_pop_cases)

lemma tx_slot_mod: "tx_slot n = unat n mod 1024"
  using unat_and_pow2_mask [of n 10] by (simp add: tx_slot_def PACKET_POOL_CAPACITY_def)

lemma tx_slot_differs: "0 < j \<Longrightarrow> j < 1024 \<Longrightarrow> tx_slot (n + of_nat j) \<noteq> tx_slot n"
proof -
  assume j: "0 < j" "j < 1024"
  have "unat (n + of_nat j) = (unat n + j) mod 2 ^ 64" using j by (simp add: unat_word_ariths(1) unat_of_nat take_bit_nat_eq_self)
  then have "unat (n + of_nat j) mod 1024 = (unat n + j) mod 1024" by (simp add: mod_mod_cancel)
  moreover have "(unat n + j) mod 1024 \<noteq> unat n mod 1024"
  proof
    assume "(unat n + j) mod 1024 = unat n mod 1024"
    then have "1024 dvd j" using mod_eq_dvd_iff_nat [of "unat n" "unat n + j" 1024] by simp
    with j show False by (auto dest: dvd_imp_le)
  qed
  ultimately show ?thesis by (simp add: tx_slot_mod)
qed

text \<open>A packet that is sent waits behind the others, with the bytes it was filled with.\<close>

lemma send_packet_spec:
  assumes "tx_ready d" "sender_room (Suc n) d" "unat len \<le> length msg" "unat len \<le> TX_DATA_SIZE"
  obtains pk q where "send_packet msg len i login d = Some (d\<lparr>bd_packets := pk, builder_to_sender := q\<rparr>)"
    "tx_ready (d\<lparr>bd_packets := pk, builder_to_sender := q\<rparr>)" "sender_room n (d\<lparr>bd_packets := pk, builder_to_sender := q\<rparr>)"
    "outbox (d\<lparr>bd_packets := pk, builder_to_sender := q\<rparr>) = outbox d @ [(take (unat len) msg, of_nat i, login)]"
proof -
  let ?pool = "bd_packets d"
  let ?k = "tx_slot (next_txPkt ?pool)"
  let ?data = "tx_data (tx_pool ?pool ?k)"
  have l: "length ?data = TX_DATA_SIZE" using assms(1) by (simp add: tx_ready_def)
  define p where "p = \<lparr>tx_data = take (unat len) msg @ drop (unat len) ?data, tx_len = len, tx_offset = 0,
    tx_sock_index = of_nat i, is_login_msg = login\<rparr>"
  define pk where "pk = ?pool\<lparr>next_txPkt := next_txPkt ?pool + 1, tx_pool := (tx_pool ?pool)(?k := p)\<rparr>"
  define q where "q = snd (spsc_push Q1024 ?k (builder_to_sender d))"
  let ?d = "d\<lparr>bd_packets := pk, builder_to_sender := q\<rparr>"
  have "fillPacket msg len (of_nat i) login (tx_pool ?pool ?k) = Some p"
    using assms(3,4) l by (simp add: fillPacket_def read_bytes_def write_bytes_def p_def min_def)
  then have s: "send_packet msg len i login d = Some ?d"
    by (simp add: send_packet_def get_txPkt_def tx_slot_def [symmetric] pk_def q_def)
  have q: "spsc_inv Q1024 q" "spsc_rep Q1024 q = spsc_rep Q1024 (builder_to_sender d) @ [?k]"
    using push_room [of "builder_to_sender d" ?k] assms(1,2) by (simp_all add: q_def tx_ready_def sender_room_def length_outbox)
  have "length (tx_data p) = TX_DATA_SIZE" using assms(3,4) l by (simp add: p_def)
  then have r: "tx_ready ?d" using assms(1) q by (simp add: tx_ready_def pk_def)
  have fresh: "?k \<notin> set (spsc_rep Q1024 (builder_to_sender d))" using assms(2) by (auto simp: sender_room_def dest: spec [of _ 0])
  have "as_sent p = (take (unat len) msg, of_nat i, login)" using assms(3) by (simp add: as_sent_def tx_bytes_def p_def)
  then have ob: "outbox ?d = outbox d @ [(take (unat len) msg, of_nat i, login)]"
    using fresh by (auto simp: outbox_def q pk_def)
  have "tx_slot (next_txPkt ?pool + 1 + of_nat j) \<notin> set (spsc_rep Q1024 q)" if "j < n" for j
  proof -
    have "tx_slot (next_txPkt ?pool + of_nat (Suc j)) \<notin> set (spsc_rep Q1024 (builder_to_sender d))"
      using assms(2) that unfolding sender_room_def by blast
    moreover have "tx_slot (next_txPkt ?pool + of_nat (Suc j)) \<noteq> ?k"
      using assms(2) that by (intro tx_slot_differs) (simp_all add: sender_room_def)
    ultimately show ?thesis by (simp add: q(2) add.assoc)
  qed
  then have "sender_room n ?d" using assms(2) by (simp add: sender_room_def ob) (simp add: pk_def)
  then show thesis using that s r ob by blast
qed

text \<open>Parts of the state that have no part in it.\<close>

lemma outbox_frame [simp]:
  "outbox (d\<lparr>bd_orders := om\<rparr>) = outbox d" "outbox (d\<lparr>bd_from_risk := q\<rparr>) = outbox d" "outbox (d\<lparr>bd_bist := b\<rparr>) = outbox d"
  "outbox (d\<lparr>bd_nasdaq := b2\<rparr>) = outbox d" "outbox (d\<lparr>bd_sessions := sm\<rparr>) = outbox d" "outbox (d\<lparr>bd_ticks := n\<rparr>) = outbox d"
  "outbox (d\<lparr>bd_parser := ps\<rparr>) = outbox d" "outbox (d\<lparr>bd_ses_rx := q\<rparr>) = outbox d" "outbox (d\<lparr>bd_fix := fb\<rparr>) = outbox d"
  by (simp_all add: outbox_def)

lemma tx_frame [simp]:
  "tx_ready (d\<lparr>bd_orders := om\<rparr>) = tx_ready d" "tx_ready (d\<lparr>bd_from_risk := q\<rparr>) = tx_ready d"
  "tx_ready (d\<lparr>bd_bist := b\<rparr>) = tx_ready d" "tx_ready (d\<lparr>bd_nasdaq := b2\<rparr>) = tx_ready d"
  "tx_ready (d\<lparr>bd_sessions := sm\<rparr>) = tx_ready d" "tx_ready (d\<lparr>bd_ticks := n\<rparr>) = tx_ready d"
  "tx_ready (d\<lparr>bd_parser := ps\<rparr>) = tx_ready d" "tx_ready (d\<lparr>bd_ses_rx := q\<rparr>) = tx_ready d" "tx_ready (d\<lparr>bd_fix := fb\<rparr>) = tx_ready d"
  "sender_room k (d\<lparr>bd_orders := om\<rparr>) = sender_room k d" "sender_room k (d\<lparr>bd_from_risk := q\<rparr>) = sender_room k d"
  "sender_room k (d\<lparr>bd_bist := b\<rparr>) = sender_room k d" "sender_room k (d\<lparr>bd_nasdaq := b2\<rparr>) = sender_room k d"
  "sender_room k (d\<lparr>bd_sessions := sm\<rparr>) = sender_room k d" "sender_room k (d\<lparr>bd_ticks := n\<rparr>) = sender_room k d"
  "sender_room k (d\<lparr>bd_parser := ps\<rparr>) = sender_room k d" "sender_room k (d\<lparr>bd_ses_rx := q\<rparr>) = sender_room k d"
  "sender_room k (d\<lparr>bd_fix := fb\<rparr>) = sender_room k d"
  by (simp_all add: tx_ready_def sender_room_def length_outbox)

subsection \<open>Orders of OUCH\<close>

lemma bist_size: "bist_layout ord eci f m \<Longrightarrow> length m \<le> TX_DATA_SIZE"
  by (auto simp: bist_layout_def enter_layout_def replace_layout_def cancel_layout_def cancelid_layout_def TX_DATA_SIZE_def
      split: if_splits)

lemma buildOUCH_BIST_spec:
  assumes "tx_ready d" "sender_room (Suc n) d" "bist_ready (bd_bist d)"
    and "getSessionIndex BIST OUCH 0 (bd_sessions d) = Some i" "ord = om_heap (bd_orders d) p"
    and "bist_order_ok (bd_bist d) ord"
  obtains d1 m where "buildOUCH_BIST p d = Some (mark_built p d1)" "bist_ready (bd_bist d1)"
    "bd_orders d1 = bd_orders d" "bd_from_risk d1 = bd_from_risk d"
    "sbt_data_header (of_nat (length m)) m" "bist_layout ord (eci_local (bd_bist d) ! unat (account_index ord)) (token_field ord (bist_fields (bd_bist d))) m"
    "outbox d1 = outbox d @ [(m, of_nat i, False)]" "tx_ready d1" "sender_room n d1"
proof -
  let ?eci = "eci_local (bd_bist d) ! unat (account_index ord)"
  have "nth_opt (eci_local (bd_bist d)) (unat (account_index ord)) = Some ?eci"
    using assms(6) by (simp add: bist_order_ok_def nth_opt_def)
  from bist_build_message [OF assms(3) _ this] assms(6) obtain m n' b where
    b: "bist_build ord (bd_bist d) = Some ((m, n'), b)" "bist_ready b" "sbt_data_header n' m" "bist_layout ord ?eci (token_field ord (bist_fields (bd_bist d))) m"
    by (auto simp: bist_order_ok_def)
  have l: "length m = unat n'" "unat n' \<le> TX_DATA_SIZE" using b(3) bist_size [OF b(4)] by (simp_all add: sbt_data_header_def)
  have "tx_ready (d\<lparr>bd_bist := b\<rparr>)" "sender_room (Suc n) (d\<lparr>bd_bist := b\<rparr>)" using assms(1,2) by simp_all
  then obtain pk q where s: "send_packet m n' i False (d\<lparr>bd_bist := b\<rparr>) = Some (d\<lparr>bd_bist := b, bd_packets := pk, builder_to_sender := q\<rparr>)"
    "tx_ready (d\<lparr>bd_bist := b, bd_packets := pk, builder_to_sender := q\<rparr>)"
    "sender_room n (d\<lparr>bd_bist := b, bd_packets := pk, builder_to_sender := q\<rparr>)"
    "outbox (d\<lparr>bd_bist := b, bd_packets := pk, builder_to_sender := q\<rparr>) = outbox (d\<lparr>bd_bist := b\<rparr>) @ [(take (unat n') m, of_nat i, False)]"
    by (rule send_packet_spec [of _ n n' m i False]) (use l in simp_all)
  have "of_nat (length m) = n'" using l(1) by simp
  then show thesis
    using that [where ?d1.0 = "d\<lparr>bd_bist := b, bd_packets := pk, builder_to_sender := q\<rparr>" and m = m] assms(4) b s l(1)
    by (simp add: buildOUCH_BIST_def assms(5) [symmetric])
qed

lemma mark_built_frame [simp]:
  "builder_to_sender (mark_built p d) = builder_to_sender d" "bd_packets (mark_built p d) = bd_packets d"
  "bd_from_risk (mark_built p d) = bd_from_risk d" "bd_sessions (mark_built p d) = bd_sessions d"
  "awaitingAck_orders (bd_orders (mark_built p d)) = awaitingAck_orders (bd_orders d)"
  "om_heap (bd_orders (mark_built p d)) p = (om_heap (bd_orders d) p)\<lparr>canModify := canModify (om_heap (bd_orders d) p) OR BUILDER_DONE\<rparr>"
  "outbox (mark_built p d) = outbox d" "tx_ready (mark_built p d) = tx_ready d" "sender_room k (mark_built p d) = sender_room k d"
  by (simp_all add: mark_built_def Let_def)

text \<open>The orders that wait for an acknowledgement take one more.\<close>

definition ack_room :: "(u64 \<Rightarrow> u64) \<Rightarrow> OrderManager \<Rightarrow> u64 \<Rightarrow> bool" where
  "ack_room hk om cid \<longleftrightarrow> (\<exists>k. fm_inv k (awaitingAck_orders om)) \<and> fm_lookup hk (awaitingAck_orders om) cid = None
     \<and> \<not> fm_full (awaitingAck_orders om)"

lemma add_awaitingAck_lookup:
  assumes "ack_room hk om (client_order_id (om_heap om p))" "venue (om_heap om p) \<noteq> Venue_Unknown"
  obtains om' where "add_awaitingAck_order hk p om = Some om'" "om_heap om' = om_heap om"
    "get_order_from_awaitingAck_orders hk om' (client_order_id (om_heap om p)) = Some p"
proof -
  from assms(2) have "venue_index (venue (om_heap om p)) < VENUE_COUNT" by (cases "venue (om_heap om p)") (simp_all add: VENUE_COUNT_def)
  moreover obtain k where "fm_inv k (awaitingAck_orders om)" using assms(1) by (auto simp: ack_room_def)
  from fm_insert_lookup [OF this, of hk "client_order_id (om_heap om p)" p] assms(1)
  have "fm_lookup hk (snd (fm_insert hk (client_order_id (om_heap om p)) p (awaitingAck_orders om))) (client_order_id (om_heap om p)) = Some p"
    by (simp add: ack_room_def)
  ultimately show thesis using that by (simp add: add_awaitingAck_order_def Let_def get_order_from_awaitingAck_orders_def)
qed

text \<open>What the dispatch of an order does once its builder has run.\<close>

lemma dispatch_after_build:
  assumes "spsc_inv Q1024 (bd_from_risk d)" "spsc_rep Q1024 (bd_from_risk d) = p # ps" "ord = om_heap (bd_orders d) p"
    and "order_id ord = 0 \<longrightarrow> ack_room hk (bd_orders d) (client_order_id ord)" "venue ord \<noteq> Venue_Unknown"
    and built: "\<And>q. \<exists>d1. builder_table clk (protocol ord) (venue ord) p (d\<lparr>bd_from_risk := q\<rparr>) = Some (mark_built p d1)
      \<and> awaitingAck_orders (bd_orders d1) = awaitingAck_orders (bd_orders d) \<and> om_heap (bd_orders d1) p = ord
      \<and> bd_from_risk d1 = q \<and> R d1"
  obtains d1 om where "dispatch_builder hk clk d = Some (True, d1\<lparr>bd_orders := om\<rparr>)" "R d1"
    "spsc_rep Q1024 (bd_from_risk d1) = ps" "spsc_inv Q1024 (bd_from_risk d1)"
    "if order_id ord = 0 then get_order_from_awaitingAck_orders hk om (client_order_id ord) = Some p
     else awaitingAck_orders om = awaitingAck_orders (bd_orders d)"
    "om_heap om p = ord\<lparr>canModify := canModify ord OR BUILDER_DONE\<rparr>"
proof -
  obtain q where q: "spsc_pop Q1024 (bd_from_risk d) = (Some p, q)" "spsc_inv Q1024 q" "spsc_rep Q1024 q = ps"
    using pop_front [OF assms(1,2)] .
  obtain d1 where d1: "builder_table clk (protocol ord) (venue ord) p (d\<lparr>bd_from_risk := q\<rparr>) = Some (mark_built p d1)"
    "awaitingAck_orders (bd_orders d1) = awaitingAck_orders (bd_orders d)" "om_heap (bd_orders d1) p = ord" "bd_from_risk d1 = q" "R d1"
    using built [of q] by blast
  let ?om = "bd_orders (mark_built p d1)"
  have h: "om_heap ?om p = ord\<lparr>canModify := canModify ord OR BUILDER_DONE\<rparr>" using d1(3) by simp
  have c: "client_order_id (om_heap ?om p) = client_order_id ord" "order_id (om_heap ?om p) = order_id ord" using h by simp_all
  have m: "(mark_built p d1)\<lparr>bd_orders := om\<rparr> = d1\<lparr>bd_orders := om\<rparr>" for om by (simp add: mark_built_def Let_def)
  show thesis
  proof (cases "order_id ord = 0")
    case True
    have "ack_room hk ?om (client_order_id (om_heap ?om p))"
      using assms(4) True d1(2) unfolding c by (simp add: ack_room_def)
    moreover have "venue (om_heap ?om p) \<noteq> Venue_Unknown" using assms(5) h by simp
    ultimately obtain om where om: "add_awaitingAck_order hk p ?om = Some om" "om_heap om = om_heap ?om"
      "get_order_from_awaitingAck_orders hk om (client_order_id (om_heap ?om p)) = Some p"
      by (rule add_awaitingAck_lookup)
    have "dispatch_builder hk clk d = Some (True, (mark_built p d1)\<lparr>bd_orders := om\<rparr>)"
      using q(1) d1(1) h om(1) True by (simp add: dispatch_builder_def Let_def assms(3) [symmetric])
    then show thesis using that [where ?d1.0 = d1 and om = om] d1(4,5) q(2,3) om(3) h True unfolding c m om(2) by simp
  next
    case False
    have "dispatch_builder hk clk d = Some (True, mark_built p d1)"
      using q(1) d1(1) h False by (simp add: dispatch_builder_def Let_def assms(3) [symmetric])
    then show thesis using that [where ?d1.0 = d1 and om = ?om] d1(2,4,5) q(2,3) h False m [of ?om] by simp
  qed
qed

subsection \<open>Messages of FIX\<close>

text \<open>The session and the builder are ready for message \<open>seq\<close>.\<close>

definition fix_state :: "tm \<Rightarrow> nat \<Rightarrow> VenueUserInfo_FIX \<Rightarrow> u32 \<Rightarrow> Dispatcher \<Rightarrow> bool" where
  "fix_state t i u seq d \<longleftrightarrow> tx_ready d \<and> second_table (bd_fix d) = init_time_table t \<and> session_auth_fix i (bd_sessions d) = Some u
     \<and> (\<exists>q. session_fix i (bd_sessions d) = Some q \<and> my_next_seqnum q = seq
          \<and> (\<forall>k. length (bf_data (fix_history q k)) = MAX_MSG_SIZE))"

text \<open>What building a message leaves alone.\<close>

definition same_rest :: "nat \<Rightarrow> Dispatcher \<Rightarrow> Dispatcher \<Rightarrow> bool" where
  "same_rest i d d' \<longleftrightarrow> bd_orders d' = bd_orders d \<and> bd_from_risk d' = bd_from_risk d \<and> bd_ses_rx d' = bd_ses_rx d
     \<and> bd_parser d' = bd_parser d \<and> isSessionLoggedInBefore i (bd_sessions d') = isSessionLoggedInBefore i (bd_sessions d)"

text \<open>Bodies with their numbers and the readings of the clock, as messages.\<close>

primrec fix_stream :: "tm \<Rightarrow> (nat \<Rightarrow> u64) \<Rightarrow> VenueUserInfo_FIX \<Rightarrow> nat \<Rightarrow> (FixBody \<times> bool) list \<Rightarrow> nat \<Rightarrow> u32 \<Rightarrow> (string \<times> u8 \<times> bool) list" where
  "fix_stream t clk u i [] n seq = []"
| "fix_stream t clk u i (b # bs) n seq =
     (built_message t (clk n) u seq (fst b), of_nat i, snd b) # fix_stream t clk u i bs (Suc n) (seq + 1)"

definition fix_fits :: "tm \<Rightarrow> u64 \<Rightarrow> VenueUserInfo_FIX \<Rightarrow> u32 \<Rightarrow> FixBody \<Rightarrow> bool" where
  "fix_fits t now u seq body \<longleftrightarrow> body_ok body \<and> seq < 1000000 \<and> length (fields_bytes (body_fields t u body)) \<le> MAX_BODY_SIZE
     \<and> length (built_message t now u seq body) \<le> MAX_MSG_SIZE"

primrec stream_fits :: "tm \<Rightarrow> (nat \<Rightarrow> u64) \<Rightarrow> VenueUserInfo_FIX \<Rightarrow> (FixBody \<times> bool) list \<Rightarrow> nat \<Rightarrow> u32 \<Rightarrow> bool" where
  "stream_fits t clk u [] n seq \<longleftrightarrow> True"
| "stream_fits t clk u (b # bs) n seq \<longleftrightarrow> fix_fits t (clk n) u seq (fst b) \<and> stream_fits t clk u bs (Suc n) (seq + 1)"

lemma fix_stream_append:
  "fix_stream t clk u i (xs @ ys) n seq = fix_stream t clk u i xs n seq @ fix_stream t clk u i ys (n + length xs) (seq + of_nat (length xs))"
  "stream_fits t clk u (xs @ ys) n seq \<longleftrightarrow> stream_fits t clk u xs n seq \<and> stream_fits t clk u ys (n + length xs) (seq + of_nat (length xs))"
  by (induction xs arbitrary: n seq) (simp_all add: add.assoc add.commute add.left_commute)

lemma set_fix_frame:
  assumes "set_fix i q sm = Some sm'"
  shows "session_auth_fix j sm' = session_auth_fix j sm" "isSessionLoggedInBefore i sm' = isSessionLoggedInBefore i sm"
  using assms by (auto simp: set_fix_def upd_session_def session_auth_fix_def getSessionContext_def getSessionAuth_def
      isSessionLoggedInBefore_def getSessionState_def nth_opt_def split: bind_splits if_splits)

lemma fix_build_frame:
  assumes "fix_build fb now i body sm = Some (b, sm')"
  shows "session_auth_fix j sm' = session_auth_fix j sm" "isSessionLoggedInBefore i sm' = isSessionLoggedInBefore i sm"
proof -
  from assms obtain q where "set_fix i q sm = Some sm'"
    unfolding fix_build_def Let_def by (auto split: bind_splits prod.splits)
  from set_fix_frame [OF this] show "session_auth_fix j sm' = session_auth_fix j sm"
    "isSessionLoggedInBefore i sm' = isSessionLoggedInBefore i sm" by auto
qed
lemma build_and_send_spec:
  assumes "fix_state t i u seq d" "sender_room (Suc n) d" "fix_fits t (clk (bd_ticks d)) u seq body"
  obtains d1 where "build_and_send clk i body login d = Some d1" "fix_state t i u (seq + 1) d1" "sender_room n d1"
    "outbox d1 = outbox d @ [(built_message t (clk (bd_ticks d)) u seq body, of_nat i, login)]"
    "bd_ticks d1 = bd_ticks d + 1" "same_rest i d d1"
proof -
  from assms(1) obtain q where q: "session_fix i (bd_sessions d) = Some q" "my_next_seqnum q = seq"
    "\<forall>k. length (bf_data (fix_history q k)) = MAX_MSG_SIZE" by (auto simp: fix_state_def)
  let ?now = "clk (bd_ticks d)" and ?t = "bd_ticks d + 1"
  let ?m = "built_message t ?now u seq body"
  have st: "second_table (bd_fix d) = init_time_table t" "session_auth_fix i (bd_sessions d) = Some u" "tx_ready d"
    using assms(1) by (simp_all add: fix_state_def)
  from fix_build_spec [OF st(1) q(1) st(2), of body ?now] assms(3) q(2,3) obtain b sm where
    b: "fix_build (bd_fix d) ?now i body (bd_sessions d) = Some (b, sm)" "take (unat (bf_len b)) (bf_data b) = ?m"
      "unat (bf_len b) = length ?m" "length (bf_data b) = MAX_MSG_SIZE"
      "session_fix i sm = Some (q\<lparr>fix_history := (fix_history q)(unat seq := b), my_next_seqnum := seq + 1\<rparr>)"
    by (auto simp: fix_fits_def)
  let ?d = "d\<lparr>bd_ticks := ?t, bd_sessions := sm\<rparr>"
  have l: "unat (bf_len b) \<le> length (bf_data b)" "unat (bf_len b) \<le> TX_DATA_SIZE"
    using assms(3) b(3,4) by (simp_all add: fix_fits_def MAX_MSG_SIZE_def TX_DATA_SIZE_def)
  have "tx_ready ?d" "sender_room (Suc n) ?d" using st(3) assms(2) by simp_all
  then obtain pk sq where s: "send_packet (bf_data b) (bf_len b) i login ?d = Some (?d\<lparr>bd_packets := pk, builder_to_sender := sq\<rparr>)"
    "tx_ready (?d\<lparr>bd_packets := pk, builder_to_sender := sq\<rparr>)" "sender_room n (?d\<lparr>bd_packets := pk, builder_to_sender := sq\<rparr>)"
    "outbox (?d\<lparr>bd_packets := pk, builder_to_sender := sq\<rparr>) = outbox ?d @ [(take (unat (bf_len b)) (bf_data b), of_nat i, login)]"
    by (rule send_packet_spec [OF _ _ l])
  define d1 where "d1 = ?d\<lparr>bd_packets := pk, builder_to_sender := sq\<rparr>"
  have "build_and_send clk i body login d = Some d1"
    using b(1) s(1) by (simp add: build_and_send_def read_clock_def d1_def)
  moreover have "fix_state t i u (seq + 1) d1"
    using s(2) st b(4,5) fix_build_frame(1) [OF b(1)] q(3) by (simp add: fix_state_def d1_def)
  moreover have "same_rest i d d1" using fix_build_frame(2) [OF b(1)] by (simp add: same_rest_def d1_def)
  moreover have "outbox d1 = outbox d @ [(?m, of_nat i, login)]" unfolding d1_def s(4) by (simp add: b(2))
  moreover have "sender_room n d1" "bd_ticks d1 = bd_ticks d + 1" using s(3) by (simp_all add: d1_def)
  ultimately show thesis using that by blast
qed

text \<open>The answers of the builder to a session message: those to a message of the counterparty and those the
  parser asks for.  Logouts and resend requests of the counterparty have more than one answer.\<close>

definition answers_out :: "FIXSessionMessage \<Rightarrow> (FixBody \<times> bool) list" where
  "answers_out m = (if fs_msg_type m = T_TestRequest then [(FB_Heartbeat, False)]
     else if fs_msg_type m = T_Reject then [(FB_Logout, False)] else [])"

definition answers_in :: "bool \<Rightarrow> FIXSessionMessage \<Rightarrow> (FixBody \<times> bool) list" where
  "answers_in before m = (if fs_msg_type m = T_ResendRequest then [(FB_ResendRequest (fs_begin_seqnum m) (fs_end_seqnum m), False)]
     else if fs_msg_type m = T_Logout then [(FB_Logout, False)]
     else if fs_msg_type m = T_Logon then [(FB_Logon (\<not> before), True)] else [])"

definition answer :: "(nat \<Rightarrow> u64) \<Rightarrow> nat \<Rightarrow> (FixBody \<times> bool) list \<Rightarrow> Dispatcher \<Rightarrow> Dispatcher option" where
  "answer clk i bs d = (case bs of [] \<Rightarrow> Some d | b # _ \<Rightarrow> build_and_send clk i (fst b) (snd b) d)"

lemma ses_out_answer:
  assumes "fs_msg_type (fixSesMsg_pool (bd_parser d) k) \<noteq> T_ResendRequest" "fs_msg_type (fixSesMsg_pool (bd_parser d) k) \<noteq> T_Logout"
  shows "buildFIX_ses_out clk k i d = map_option (release_ses k) (answer clk i (answers_out (fixSesMsg_pool (bd_parser d) k)) d)"
  using assms by (simp add: buildFIX_ses_out_def Let_def answers_out_def answer_def map_option_case split: bind_splits option.splits)

lemma ses_in_answer:
  assumes "isSessionLoggedInBefore i (bd_sessions d) = Some before"
  shows "buildFIX_ses_in clk k i d = map_option (release_ses k) (answer clk i (answers_in before (fixSesMsg_pool (bd_parser d) k)) d)"
  using assms by (simp add: buildFIX_ses_in_def Let_def answers_in_def answer_def map_option_case split: bind_splits option.splits)

lemma answer_spec:
  assumes "fix_state t i u seq d" "sender_room (length bs + n) d" "stream_fits t clk u bs (bd_ticks d) seq" "length bs \<le> 1"
  obtains d1 where "answer clk i bs d = Some d1" "fix_state t i u (seq + of_nat (length bs)) d1" "sender_room n d1"
    "outbox d1 = outbox d @ fix_stream t clk u i bs (bd_ticks d) seq" "bd_ticks d1 = bd_ticks d + length bs" "same_rest i d d1"
proof (cases bs)
  case Nil
  then show thesis using that [of d] assms by (simp add: answer_def same_rest_def)
next
  case (Cons b bs')
  then have "bs = [b]" using assms(4) by simp
  with assms have "sender_room (Suc n) d" "fix_fits t (clk (bd_ticks d)) u seq (fst b)" by simp_all
  from build_and_send_spec [where clk = clk and login = "snd b", OF assms(1) this] that \<open>bs = [b]\<close> show thesis by (auto simp: answer_def)
qed
text \<open>Draining a queue of session messages sends their answers, numbered one after another.\<close>

definition ses_plain :: "FIXSessionMessage \<Rightarrow> bool" where
  "ses_plain m \<longleftrightarrow> fs_msg_type m \<noteq> T_ResendRequest \<and> fs_msg_type m \<noteq> T_Logout"

lemma release_frame [simp]:
  "fix_state t i u seq (release_ses k d) = fix_state t i u seq d" "sender_room n (release_ses k d) = sender_room n d"
  "outbox (release_ses k d) = outbox d" "bd_ticks (release_ses k d) = bd_ticks d" "bd_ses_rx (release_ses k d) = bd_ses_rx d"
  "fixSesMsg_pool (bd_parser (release_ses k d)) = fixSesMsg_pool (bd_parser d)" "bd_orders (release_ses k d) = bd_orders d"
  "parser_to_fixbuilder_tx (bd_parser (release_ses k d)) = parser_to_fixbuilder_tx (bd_parser d)"
  "bd_from_risk (release_ses k d) = bd_from_risk d" "bd_sessions (release_ses k d) = bd_sessions d"
  by (simp_all add: release_ses_def releaseFIX_ses_def fix_state_def)

lemma fix_state_frame [simp]:
  "fix_state t i u seq (d\<lparr>bd_ses_rx := q\<rparr>) = fix_state t i u seq d" "fix_state t i u seq (d\<lparr>bd_parser := ps\<rparr>) = fix_state t i u seq d"
  "fix_state t i u seq (d\<lparr>bd_from_risk := q\<rparr>) = fix_state t i u seq d"
  by (simp_all add: fix_state_def)

lemma length_answers: "length (answers_out m) \<le> 1" "length (answers_in before m) \<le> 1"
  by (simp_all add: answers_out_def answers_in_def)

definition kept :: "nat \<Rightarrow> Dispatcher \<Rightarrow> Dispatcher \<Rightarrow> bool" where
  "kept i d d' \<longleftrightarrow> bd_orders d' = bd_orders d \<and> bd_from_risk d' = bd_from_risk d
     \<and> fixSesMsg_pool (bd_parser d') = fixSesMsg_pool (bd_parser d)
     \<and> isSessionLoggedInBefore i (bd_sessions d') = isSessionLoggedInBefore i (bd_sessions d)"

lemma drain_rx_spec:
  assumes "spsc_inv FQ (bd_ses_rx d)" "spsc_rep FQ (bd_ses_rx d) = ks" "fix_state t i u seq d"
    and "bs = concat (map (\<lambda>k. answers_out (fixSesMsg_pool (bd_parser d) k)) ks)"
    and "list_all (\<lambda>k. ses_plain (fixSesMsg_pool (bd_parser d) k)) ks"
    and "sender_room (length bs + n) d" "stream_fits t clk u bs (bd_ticks d) seq"
  shows "\<exists>d1. drain_rx clk i d = Some d1 \<and> fix_state t i u (seq + of_nat (length bs)) d1 \<and> sender_room n d1
    \<and> outbox d1 = outbox d @ fix_stream t clk u i bs (bd_ticks d) seq \<and> bd_ticks d1 = bd_ticks d + length bs \<and> kept i d d1
    \<and> parser_to_fixbuilder_tx (bd_parser d1) = parser_to_fixbuilder_tx (bd_parser d) \<and> spsc_rep FQ (bd_ses_rx d1) = []"
  using assms
proof (induction ks arbitrary: d bs seq)
  case Nil
  then show ?case by (subst drain_rx.simps) (simp add: pop_empty kept_def)
next
  case (Cons k ks)
  obtain q where q: "spsc_pop FQ (bd_ses_rx d) = (Some k, q)" "spsc_inv FQ q" "spsc_rep FQ q = ks"
    using pop_front [OF Cons.prems(1,2)] .
  let ?d = "d\<lparr>bd_ses_rx := q\<rparr>" and ?a = "answers_out (fixSesMsg_pool (bd_parser d) k)"
  define bs' where "bs' = concat (map (\<lambda>k. answers_out (fixSesMsg_pool (bd_parser d) k)) ks)"
  have bs: "bs = ?a @ bs'" using Cons.prems(4) by (simp add: bs'_def)
  have fit: "stream_fits t clk u ?a (bd_ticks ?d) seq" "stream_fits t clk u bs' (bd_ticks d + length ?a) (seq + of_nat (length ?a))"
    using Cons.prems(7) unfolding bs fix_stream_append by simp_all
  have "fix_state t i u seq ?d" "sender_room (length ?a + (length bs' + n)) ?d"
    using Cons.prems(3,6) by (simp_all add: bs add.assoc)
  then obtain d1 where d1: "answer clk i ?a ?d = Some d1" "fix_state t i u (seq + of_nat (length ?a)) d1" "sender_room (length bs' + n) d1"
    "outbox d1 = outbox ?d @ fix_stream t clk u i ?a (bd_ticks ?d) seq" "bd_ticks d1 = bd_ticks ?d + length ?a" "same_rest i ?d d1"
    by (rule answer_spec [OF _ _ fit(1) length_answers(1)])
  have "buildFIX_ses_out clk k i ?d = Some (release_ses k d1)"
    using ses_out_answer [of ?d k clk i] d1(1) Cons.prems(5) by (simp add: ses_plain_def)
  then have step: "drain_rx clk i d = drain_rx clk i (release_ses k d1)" by (subst drain_rx.simps) (simp add: q(1))
  have "\<exists>d2. drain_rx clk i (release_ses k d1) = Some d2 \<and> fix_state t i u (seq + of_nat (length ?a) + of_nat (length bs')) d2
    \<and> sender_room n d2
    \<and> outbox d2 = outbox (release_ses k d1) @ fix_stream t clk u i bs' (bd_ticks (release_ses k d1)) (seq + of_nat (length ?a))
    \<and> bd_ticks d2 = bd_ticks (release_ses k d1) + length bs' \<and> kept i (release_ses k d1) d2
    \<and> parser_to_fixbuilder_tx (bd_parser d2) = parser_to_fixbuilder_tx (bd_parser (release_ses k d1)) \<and> spsc_rep FQ (bd_ses_rx d2) = []"
    by (rule Cons.IH) (use d1 q fit(2) Cons.prems(5) in \<open>simp_all add: same_rest_def bs'_def\<close>)
  then show ?case using d1(4-6) unfolding step bs fix_stream_append
    by (auto simp: same_rest_def kept_def add.assoc)
qed

lemma drain_tx_spec:
  assumes "spsc_inv FQ (parser_to_fixbuilder_tx (bd_parser d))" "spsc_rep FQ (parser_to_fixbuilder_tx (bd_parser d)) = ks" "fix_state t i u seq d"
    and "bs = concat (map (\<lambda>k. answers_in before (fixSesMsg_pool (bd_parser d) k)) ks)"
    and "isSessionLoggedInBefore i (bd_sessions d) = Some before"
    and "sender_room (length bs + n) d" "stream_fits t clk u bs (bd_ticks d) seq"
  shows "\<exists>d1. drain_tx clk i d = Some d1 \<and> fix_state t i u (seq + of_nat (length bs)) d1 \<and> sender_room n d1
    \<and> outbox d1 = outbox d @ fix_stream t clk u i bs (bd_ticks d) seq \<and> bd_ticks d1 = bd_ticks d + length bs \<and> kept i d d1
    \<and> bd_ses_rx d1 = bd_ses_rx d \<and> spsc_rep FQ (parser_to_fixbuilder_tx (bd_parser d1)) = []"
  using assms
proof (induction ks arbitrary: d bs seq)
  case Nil
  then show ?case by (subst drain_tx.simps) (simp add: pop_empty kept_def)
next
  case (Cons k ks)
  obtain q where q: "spsc_pop FQ (parser_to_fixbuilder_tx (bd_parser d)) = (Some k, q)" "spsc_inv FQ q" "spsc_rep FQ q = ks"
    using pop_front [OF Cons.prems(1,2)] .
  let ?d = "d\<lparr>bd_parser := (bd_parser d)\<lparr>parser_to_fixbuilder_tx := q\<rparr>\<rparr>" and ?a = "answers_in before (fixSesMsg_pool (bd_parser d) k)"
  define bs' where "bs' = concat (map (\<lambda>k. answers_in before (fixSesMsg_pool (bd_parser d) k)) ks)"
  have bs: "bs = ?a @ bs'" using Cons.prems(4) by (simp add: bs'_def)
  have fit: "stream_fits t clk u ?a (bd_ticks ?d) seq" "stream_fits t clk u bs' (bd_ticks d + length ?a) (seq + of_nat (length ?a))"
    using Cons.prems(7) unfolding bs fix_stream_append by simp_all
  have "fix_state t i u seq ?d" "sender_room (length ?a + (length bs' + n)) ?d"
    using Cons.prems(3,6) by (simp_all add: bs add.assoc)
  then obtain d1 where d1: "answer clk i ?a ?d = Some d1" "fix_state t i u (seq + of_nat (length ?a)) d1" "sender_room (length bs' + n) d1"
    "outbox d1 = outbox ?d @ fix_stream t clk u i ?a (bd_ticks ?d) seq" "bd_ticks d1 = bd_ticks ?d + length ?a" "same_rest i ?d d1"
    by (rule answer_spec [OF _ _ fit(1) length_answers(2)])
  have "buildFIX_ses_in clk k i ?d = Some (release_ses k d1)"
    using ses_in_answer [of i ?d before clk k] d1(1) Cons.prems(5) by simp
  then have step: "drain_tx clk i d = drain_tx clk i (release_ses k d1)" by (subst drain_tx.simps) (simp add: q(1))
  have "\<exists>d2. drain_tx clk i (release_ses k d1) = Some d2 \<and> fix_state t i u (seq + of_nat (length ?a) + of_nat (length bs')) d2
    \<and> sender_room n d2
    \<and> outbox d2 = outbox (release_ses k d1) @ fix_stream t clk u i bs' (bd_ticks (release_ses k d1)) (seq + of_nat (length ?a))
    \<and> bd_ticks d2 = bd_ticks (release_ses k d1) + length bs' \<and> kept i (release_ses k d1) d2
    \<and> bd_ses_rx d2 = bd_ses_rx (release_ses k d1) \<and> spsc_rep FQ (parser_to_fixbuilder_tx (bd_parser d2)) = []"
    by (rule Cons.IH) (use d1 q fit(2) Cons.prems(5) in \<open>simp_all add: same_rest_def bs'_def\<close>)
  then show ?case using d1(4-6) unfolding step bs fix_stream_append
    by (auto simp: same_rest_def kept_def add.assoc)
qed
definition app_body :: "Order \<Rightarrow> FixBody option" where
  "app_body ord = (if message_type ord = 68 then Some (FB_NewOrderSingle ord)
     else if message_type ord = 70 then Some (FB_OrderCancelRequest ord)
     else if message_type ord = 71 then Some (FB_OrderCancelReplaceRequest ord) else None)"

lemma app_build: "app_body (om_heap (bd_orders d) p) = Some body \<Longrightarrow> buildFIX_app clk p i d = build_and_send clk i body False d"
  by (auto simp: app_body_def buildFIX_app_def Let_def split: if_splits)

text \<open>What is sent for an order: the answers to the session messages that wait, then the order.\<close>

definition fix_work :: "bool \<Rightarrow> (nat \<Rightarrow> FIXSessionMessage) \<Rightarrow> nat list \<Rightarrow> nat list \<Rightarrow> FixBody \<Rightarrow> (FixBody \<times> bool) list" where
  "fix_work before pool rx tx body =
     concat (map (\<lambda>k. answers_out (pool k)) rx) @ concat (map (\<lambda>k. answers_in before (pool k)) tx) @ [(body, False)]"

definition ses_queued :: "Dispatcher \<Rightarrow> nat list \<Rightarrow> nat list \<Rightarrow> bool" where
  "ses_queued d rx tx \<longleftrightarrow> spsc_inv FQ (bd_ses_rx d) \<and> spsc_rep FQ (bd_ses_rx d) = rx
     \<and> spsc_inv FQ (parser_to_fixbuilder_tx (bd_parser d)) \<and> spsc_rep FQ (parser_to_fixbuilder_tx (bd_parser d)) = tx"

lemma buildFIX_spec:
  assumes "fix_state t i u seq d" "getSessionIndex BIST FIX 0 (bd_sessions d) = Some i" "ses_queued d rx tx"
    and "list_all (\<lambda>k. ses_plain (fixSesMsg_pool (bd_parser d) k)) rx" "isSessionLoggedInBefore i (bd_sessions d) = Some before"
    and "app_body (om_heap (bd_orders d) p) = Some body" "bs = fix_work before (fixSesMsg_pool (bd_parser d)) rx tx body"
    and "sender_room (length bs + n) d" "stream_fits t clk u bs (bd_ticks d) seq"
  shows "\<exists>d1. buildFIX clk p d = Some (mark_built p d1) \<and> fix_state t i u (seq + of_nat (length bs)) d1 \<and> sender_room n d1
    \<and> outbox d1 = outbox d @ fix_stream t clk u i bs (bd_ticks d) seq \<and> kept i d d1"
proof -
  define b1 where "b1 = concat (map (\<lambda>k. answers_out (fixSesMsg_pool (bd_parser d) k)) rx)"
  define b2 where "b2 = concat (map (\<lambda>k. answers_in before (fixSesMsg_pool (bd_parser d) k)) tx)"
  have bs: "bs = b1 @ b2 @ [(body, False)]" by (simp add: assms(7) fix_work_def b1_def b2_def)
  have fit: "stream_fits t clk u b1 (bd_ticks d) seq" "stream_fits t clk u b2 (bd_ticks d + length b1) (seq + of_nat (length b1))"
    "fix_fits t (clk (bd_ticks d + length b1 + length b2)) u (seq + of_nat (length b1) + of_nat (length b2)) body"
    using assms(9) unfolding bs fix_stream_append by simp_all
  have room: "sender_room (length b1 + (length b2 + Suc n)) d" using assms(8) by (simp add: bs add.assoc)
  have q: "spsc_inv FQ (bd_ses_rx d)" "spsc_rep FQ (bd_ses_rx d) = rx" using assms(3) by (simp_all add: ses_queued_def)
  from drain_rx_spec [OF q assms(1) b1_def assms(4) room fit(1)] obtain d1 where
    d1: "drain_rx clk i d = Some d1" "fix_state t i u (seq + of_nat (length b1)) d1" "sender_room (length b2 + Suc n) d1"
      "outbox d1 = outbox d @ fix_stream t clk u i b1 (bd_ticks d) seq" "bd_ticks d1 = bd_ticks d + length b1" "kept i d d1"
      "parser_to_fixbuilder_tx (bd_parser d1) = parser_to_fixbuilder_tx (bd_parser d)" by blast
  have "\<exists>d2. drain_tx clk i d1 = Some d2 \<and> fix_state t i u (seq + of_nat (length b1) + of_nat (length b2)) d2 \<and> sender_room (Suc n) d2
    \<and> outbox d2 = outbox d1 @ fix_stream t clk u i b2 (bd_ticks d1) (seq + of_nat (length b1)) \<and> bd_ticks d2 = bd_ticks d1 + length b2
    \<and> kept i d1 d2 \<and> bd_ses_rx d2 = bd_ses_rx d1 \<and> spsc_rep FQ (parser_to_fixbuilder_tx (bd_parser d2)) = []"
    by (rule drain_tx_spec [where ks = tx and before = before])
       (use assms(3,5) d1 fit(2) in \<open>simp_all add: ses_queued_def kept_def b2_def\<close>)
  then obtain d2 where d2: "drain_tx clk i d1 = Some d2" "fix_state t i u (seq + of_nat (length b1) + of_nat (length b2)) d2"
    "sender_room (Suc n) d2" "outbox d2 = outbox d1 @ fix_stream t clk u i b2 (bd_ticks d1) (seq + of_nat (length b1))"
    "bd_ticks d2 = bd_ticks d1 + length b2" "kept i d1 d2" by blast
  have f3: "fix_fits t (clk (bd_ticks d2)) u (seq + of_nat (length b1) + of_nat (length b2)) body" using fit(3) d1(5) d2(5) by simp
  obtain d3 where d3: "build_and_send clk i body False d2 = Some d3"
    "fix_state t i u (seq + of_nat (length b1) + of_nat (length b2) + 1) d3" "sender_room n d3"
    "outbox d3 = outbox d2 @ [(built_message t (clk (bd_ticks d2)) u (seq + of_nat (length b1) + of_nat (length b2)) body, of_nat i, False)]"
    "same_rest i d2 d3"
    by (rule build_and_send_spec [where clk = clk and login = False, OF d2(2,3) f3])
  have "buildFIX_app clk p i d2 = Some d3"
    using app_build [of d2 p body clk i] assms(6) d1(6) d2(6) d3(1) by (simp add: kept_def)
  then have "buildFIX clk p d = Some (mark_built p d3)" using assms(2) d1(1) d2(1) by (simp add: buildFIX_def)
  moreover have "outbox d3 = outbox d @ fix_stream t clk u i bs (bd_ticks d) seq"
    unfolding d3(4) d2(4) d1(4) bs fix_stream_append by (simp add: d1(5) d2(5))
  moreover have "kept i d d3" using d1(6) d2(6) d3(5) by (simp add: kept_def same_rest_def)
  ultimately show ?thesis using d3(2,3) by (auto simp: bs add.assoc add.commute add.left_commute)
qed

subsection \<open>Sizes\<close>

text \<open>With names of at most 32 characters every message fits its buffers.\<close>

definition auth_small :: "VenueUserInfo_FIX \<Rightarrow> bool" where
  "auth_small u \<longleftrightarrow> length (fix_username u) \<le> 32 \<and> length (fix_password u) \<le> 32 \<and> length (fix_my_id u) \<le> 32
     \<and> length (fix_venue_id u) \<le> 32 \<and> length (fix_account u) \<le> 32"

lemma length_field: "length (field_bytes f) = length (decimal (fst f)) + length (snd f) + 2"
  by (simp add: field_bytes_def)

lemma length_price_text: "length (price_text v) \<le> 11"
  using decimal_fits_u32 [of v] by (simp add: price_text_def Let_def)

lemma tail_sizes:
  assumes "order_ok ord"
  shows "length (fields_bytes (order_tail_fields t ord)) \<le> 89" "length (fields_bytes (order_kind_fields ord)) \<le> 34"
proof -
  have "length (take (unat (real_symbol_len ord)) (symbol ord)) \<le> 32" using assms by (simp add: order_ok_def SYMBOL_SIZE_def)
  then show "length (fields_bytes (order_tail_fields t ord)) \<le> 89"
    using decimal_fits_u32 [of "side_number (side ord)"] decimal_fits_u32 [of "quantity ord"]
    by (simp add: order_tail_fields_def length_field length_time_text tag_numbers del: length_take)
  have "length (the (timeinforce (time_in_force ord))) = 1"
    using assms by (cases "time_in_force ord") (simp_all add: order_ok_def)
  then show "length (fields_bytes (order_kind_fields ord)) \<le> 34"
    using decimal_fits_u32 [of "order_type_number (order_type ord)"] length_price_text [of "ucast (price ord)"] decimal_fits_u32 [of 2]
    by (simp add: order_kind_fields_def length_field tag_numbers)
qed

lemma body_size:
  assumes "body_ok body" "auth_small u"
  shows "length (fields_bytes (body_fields t u body)) \<le> 222"
proof -
  have tok: "length (take (unat (real_cl_ord_token_len ord)) (client_order_token ord)) \<le> 32" "length (take 13 (client_order_token ord)) \<le> 13"
    if "order_ok ord" for ord using that by (simp_all add: order_ok_def ORDER_IDs_SIZE_def)
  show ?thesis
  proof (cases body)
    case (FB_NewOrderSingle ord)
    then show ?thesis using tag_numbers(1) assms tok [of ord] tail_sizes(1) [of ord t] tail_sizes(2) [of ord]
      by (simp add: length_field tag_numbers auth_small_def del: length_take)
  next
    case (FB_OrderCancelRequest ord)
    then show ?thesis using tag_numbers(1) assms tok [of ord] tail_sizes(1) [of ord t] tail_sizes(2) [of ord] decimal_fits_u32 [of "ucast (order_id ord)"]
      by (simp add: length_field tag_numbers auth_small_def del: length_take)
  next
    case (FB_OrderCancelReplaceRequest ord)
    then show ?thesis using tag_numbers(1) assms tok [of ord] tail_sizes(1) [of ord t] tail_sizes(2) [of ord] decimal_fits_u32 [of "ucast (order_id ord)"]
      by (simp add: length_field tag_numbers auth_small_def del: length_take)
  next
    case (FB_SequenceReset n)
    then show ?thesis using decimal_fits_u32 [of n] by (simp add: length_field tag_numbers)
  next
    case (FB_ResendRequest b e)
    then show ?thesis using decimal_fits_u32 [of b] decimal_fits_u32 [of e] by (simp add: length_field tag_numbers)
  qed (use assms in \<open>simp_all add: length_field tag_numbers auth_small_def\<close>)
qed

lemma body_fits:
  assumes "body_ok body" "auth_small u" "seq < 1000000"
  shows "fix_fits t now u seq body"
proof -
  have b: "length (fields_bytes (body_fields t u body)) \<le> 222" by (rule body_size [OF assms(1,2)])
  have "length (msg_types body) = 1" by (cases body) simp_all
  then have h: "length (built_body t now u seq body) \<le> 340"
    using assms(2) b decimal_fits_u32 [of seq]
    by (simp add: built_body_def built_fields_def head_fields_def length_field length_time_text tag_numbers auth_small_def)
  then have "length (decimal (length (built_body t now u seq body))) \<le> 3" by (intro length_decimal) simp_all
  with h have "length (built_message t now u seq body) \<le> 365"
    unfolding built_message_def length_fix_message [OF length_built_checksum] by (simp add: fix_header_def)
  with b show ?thesis using assms by (simp add: fix_fits_def MAX_MSG_SIZE_def MAX_BODY_SIZE_def)
qed

lemma bodies_fit:
  assumes "list_all (\<lambda>b. body_ok (fst b)) bs" "auth_small u" "unat seq + length bs \<le> 1000000"
  shows "stream_fits t clk u bs n seq"
  using assms
proof (induction bs arbitrary: n seq)
  case (Cons b bs)
  then have s: "seq < 1000000" by (simp add: word_less_nat_alt)
  moreover have "unat (seq + 1) = unat seq + 1" using Cons.prems(3) by (simp add: unat_word_ariths(1))
  ultimately show ?case using Cons body_fits by simp
qed simp
subsection \<open>Departures\<close>

text \<open>An order of a protocol and venue without a builder is undefined: the entry of the table is null.\<close>

lemma no_builder_undefined:
  assumes "spsc_inv Q1024 (bd_from_risk d)" "spsc_rep Q1024 (bd_from_risk d) = p # ps"
    and "protocol (om_heap (bd_orders d) p) = FIX" "venue (om_heap (bd_orders d) p) = NASDAQ"
  shows "dispatch_builder hk clk d = None"
proof -
  obtain q where "spsc_pop Q1024 (bd_from_risk d) = (Some p, q)" using pop_front [OF assms(1,2)] .
  then show ?thesis using assms(3,4) by (simp add: dispatch_builder_def Let_def)
qed

text \<open>A request for everything from some number on has the end 0, and nothing is sent again; a range that goes past
  the history is undefined.\<close>

lemma resend_nothing: "end_seq < k \<Longrightarrow> resend_loop clk i k end_seq d = Some d"
  by (subst resend_loop.simps) (simp add: linorder_not_le [symmetric])

lemma resend_past_history:
  assumes "k \<le> end_seq" "DAILY_FIX_MSG_COUNT \<le> unat k"
  shows "resend_loop clk i k end_seq d = None"
  using assms by (subst resend_loop.simps) (auto simp: get_buffer_def read_clock_def split: bind_splits)

text \<open>A login packet keeps the offset of the message its packet was used for before.\<close>

lemma login_keeps_offset:
  "LoginAttempt wall now fb pkt i sm = Some (pkt', sm') \<Longrightarrow> tx_offset pkt' = tx_offset pkt"
  by (auto simp: LoginAttempt_def split: bind_splits if_splits prod.splits)

subsection \<open>Examples\<close>

definition sample_orders :: "Order \<Rightarrow> OrderManager" where
  "sample_orders ord = sample_manager\<lparr>om_heap := (\<lambda>_. ord)\<rparr>"

definition sample_dispatcher :: "SessionManager \<Rightarrow> Builder_OUCH_BIST \<Rightarrow> Order \<Rightarrow> Dispatcher" where
  "sample_dispatcher sm b ord = \<lparr>bd_sessions = sm, bd_fix = new_Builder_FIX sample_tm (replicate 64 empty_buffer), bd_bist = b,
     bd_nasdaq = new_Builder_OUCH_NASDAQ,
     bd_packets = \<lparr>tx_pool = (\<lambda>_. \<lparr>tx_data = replicate 2048 (CHR 0x00), tx_len = 0, tx_offset = 0, tx_sock_index = 0, is_login_msg = False\<rparr>),
       next_txPkt = 0\<rparr>,
     builder_to_sender = spsc_init Q1024, bd_from_risk = snd (spsc_push Q1024 40000 (spsc_init Q1024)), bd_ses_rx = spsc_init FQ,
     bd_parser = new_Parser_FIX (replicate 1024 (CHR 0x00)), bd_orders = sample_orders ord, bd_ticks = 0\<rparr>"

lemma sample_bist_builder:
  obtains sm b where "sample_sessions = Some sm" "getSessionIndex BIST OUCH 0 sm = Some 1" "new_Builder_OUCH_BIST sm = Some b" "length (eci_local b) = 1"
proof -
  obtain sm where sm: "sample_sessions = Some sm" "initialize_exc_info sm = Some [make_eci ''DMACCOUNT1234'' ''EXCHANGEINFO1234'']"
    "getSessionIndex BIST OUCH 0 sm = Some 1"
    by (simp add: sample_sessions_def new_SessionManager_def make_context_def sample_config_def MAX_SESSIONS_def
        MAX_TCP_SESSIONS_def store_lookup_def convertToVenue_def convertToProtocol_def nth_opt_def initialize_exc_info_def
        getSessionIndex_def lookup_tab_def getSessionContext_def getSessionAuth_def make_auth_def make_UserInfo_SBT_def)
  then obtain b where b: "new_Builder_OUCH_BIST sm = Some b" "length (eci_local b) = 1"
    by (simp add: new_Builder_OUCH_BIST_def templates)
  then show thesis using that sm by blast
qed

lemma sample_dispatcher_ready:
  "tx_ready (sample_dispatcher sm b ord)" "n \<le> 1024 \<Longrightarrow> sender_room n (sample_dispatcher sm b ord)"
  "spsc_inv Q1024 (bd_from_risk (sample_dispatcher sm b ord))" "spsc_rep Q1024 (bd_from_risk (sample_dispatcher sm b ord)) = [40000]"
  "ack_room (\<lambda>x. x) (bd_orders (sample_dispatcher sm b ord)) 0" "outbox (sample_dispatcher sm b ord) = []"
proof -
  have i: "spsc_inv Q1024 (spsc_init Q1024)" "spsc_rep Q1024 (spsc_init Q1024) = ([] :: nat list)"
    by (simp_all add: spsc_init_inv Q1024_def)
  show "tx_ready (sample_dispatcher sm b ord)" "n \<le> 1024 \<Longrightarrow> sender_room n (sample_dispatcher sm b ord)"
    "outbox (sample_dispatcher sm b ord) = []"
    using i by (simp_all add: tx_ready_def sender_room_def outbox_def sample_dispatcher_def TX_DATA_SIZE_def)
  show "spsc_inv Q1024 (bd_from_risk (sample_dispatcher sm b ord))" "spsc_rep Q1024 (bd_from_risk (sample_dispatcher sm b ord)) = [40000]"
    using push_room [OF i(1), of 40000] i(2) by (simp_all add: sample_dispatcher_def)
  have "fm_inv 2 (fm_new 4 0 0 :: (u64, nat) flatmap)" using fm_new_inv [of 2] by simp
  moreover have "fm_lookup (\<lambda>x. x) (fm_new 4 0 0 :: (u64, nat) flatmap) 0 = None" "\<not> fm_full (fm_new 4 0 0 :: (u64, nat) flatmap)" by code_simp+
  ultimately show "ack_room (\<lambda>x. x) (bd_orders (sample_dispatcher sm b ord)) 0"
    by (auto simp: ack_room_def sample_dispatcher_def sample_orders_def sample_manager_def initial_members_def)
qed

lemma work_bodies_ok:
  assumes "app_body ord = Some body" "order_ok ord" "bs = fix_work before pool rx tx body"
  shows "list_all (\<lambda>b. body_ok (fst b)) bs"
proof -
  have "body_ok body" using assms(1,2) by (auto simp: app_body_def split: if_splits)
  then show ?thesis
    by (auto simp: assms(3) fix_work_def list_all_iff answers_out_def answers_in_def split: if_splits)
qed

subsection \<open>Properties\<close>

text \<open>C20. An order for BIST over OUCH that leaves the risk engine (of a message type the builder knows, with a known account
  and a token of at most 14 characters) becomes one packet behind those that wait, provided the queue of the
  sender has room, the next packet of the pool does not wait in it, and there is room for the client id of an order without exchange id: a SoupBinTCP packet of unsequenced data for the session of BIST, whose message has, byte by
  byte, the layout of its type, with the order's fields, the client information of its account and the
  constants of the prepared buffer; the 14 bytes of the token are the token and behind a shorter one what the
  buffer held before.  The order is marked as built.  One that has no exchange id yet is entered among those that wait
  for an acknowledgement and is found there by its client id; for one that has an exchange id
  (an amendment or a cancellation of an acknowledged order) these stay as they are.\<close>

theorem dispatch_bist_order:
  assumes "tx_ready d" "sender_room (Suc k) d" "spsc_inv Q1024 (bd_from_risk d)" "spsc_rep Q1024 (bd_from_risk d) = p # ps"
    and "ord = om_heap (bd_orders d) p" "protocol ord = OUCH" "venue ord = BIST"
    and "bist_ready (bd_bist d)" "bist_order_ok (bd_bist d) ord" "getSessionIndex BIST OUCH 0 (bd_sessions d) = Some i"
    and "order_id ord = 0 \<longrightarrow> ack_room hk (bd_orders d) (client_order_id ord)"
  shows "\<exists>d' m. dispatch_builder hk clk d = Some (True, d') \<and> outbox d' = outbox d @ [(m, of_nat i, False)]
    \<and> sbt_data_header (of_nat (length m)) m
    \<and> bist_layout ord (eci_local (bd_bist d) ! unat (account_index ord)) (token_field ord (bist_fields (bd_bist d))) m
    \<and> tx_ready d' \<and> sender_room k d' \<and> bist_ready (bd_bist d') \<and> spsc_rep Q1024 (bd_from_risk d') = ps
    \<and> om_heap (bd_orders d') p = ord\<lparr>canModify := canModify ord OR BUILDER_DONE\<rparr>
    \<and> (if order_id ord = 0 then get_order_from_awaitingAck_orders hk (bd_orders d') (client_order_id ord) = Some p
       else awaitingAck_orders (bd_orders d') = awaitingAck_orders (bd_orders d))"
proof -
  let ?R = "\<lambda>d1. \<exists>m. outbox d1 = outbox d @ [(m, of_nat i, False)] \<and> sbt_data_header (of_nat (length m)) m
    \<and> bist_layout ord (eci_local (bd_bist d) ! unat (account_index ord)) (token_field ord (bist_fields (bd_bist d))) m \<and> tx_ready d1 \<and> sender_room k d1 \<and> bist_ready (bd_bist d1)"
  have built: "\<exists>d1. builder_table clk (protocol ord) (venue ord) p (d\<lparr>bd_from_risk := q\<rparr>) = Some (mark_built p d1)
      \<and> awaitingAck_orders (bd_orders d1) = awaitingAck_orders (bd_orders d) \<and> om_heap (bd_orders d1) p = ord
      \<and> bd_from_risk d1 = q \<and> ?R d1" for q
  proof -
    let ?d = "d\<lparr>bd_from_risk := q\<rparr>"
    have "tx_ready ?d" "sender_room (Suc k) ?d" "bist_ready (bd_bist ?d)" "getSessionIndex BIST OUCH 0 (bd_sessions ?d) = Some i"
      "ord = om_heap (bd_orders ?d) p" "bist_order_ok (bd_bist ?d) ord" using assms by simp_all
    then obtain d1 m where r: "buildOUCH_BIST p ?d = Some (mark_built p d1)" "bist_ready (bd_bist d1)"
      "bd_orders d1 = bd_orders ?d" "bd_from_risk d1 = bd_from_risk ?d"
      "sbt_data_header (of_nat (length m)) m" "bist_layout ord (eci_local (bd_bist ?d) ! unat (account_index ord)) (token_field ord (bist_fields (bd_bist ?d))) m"
      "outbox d1 = outbox ?d @ [(m, of_nat i, False)]" "tx_ready d1" "sender_room k d1"
      by (rule buildOUCH_BIST_spec)
    then have "?R d1" by auto
    then show ?thesis using r(1,3,4) assms(5-7) by (intro exI [of _ d1]) simp
  qed
  obtain d1 om where r: "dispatch_builder hk clk d = Some (True, d1\<lparr>bd_orders := om\<rparr>)" "?R d1"
    "spsc_rep Q1024 (bd_from_risk d1) = ps" "spsc_inv Q1024 (bd_from_risk d1)"
    "if order_id ord = 0 then get_order_from_awaitingAck_orders hk om (client_order_id ord) = Some p
     else awaitingAck_orders om = awaitingAck_orders (bd_orders d)"
    "om_heap om p = ord\<lparr>canModify := canModify ord OR BUILDER_DONE\<rparr>"
    by (rule dispatch_after_build [OF assms(3,4,5,11) _ built]) (use assms(7) in simp)
  then show ?thesis by (intro exI [of _ "d1\<lparr>bd_orders := om\<rparr>"]) (auto simp del: if_split)
qed

theorem dispatch_bist_order_witness:
  "\<exists>sm b d' m. sample_sessions = Some sm \<and> new_Builder_OUCH_BIST sm = Some b
     \<and> dispatch_builder (\<lambda>x. x) (\<lambda>_. 0) (sample_dispatcher sm b ((sample_bist_order 0)\<lparr>protocol := OUCH\<rparr>)) = Some (True, d')
     \<and> outbox d' = [(m, 1, False)] \<and> length m = 117 \<and> read_u64_be (drop 23 m) = Some 100"
proof -
  let ?ord = "(sample_bist_order 0)\<lparr>protocol := OUCH\<rparr>"
  obtain sm b where sm: "sample_sessions = Some sm" "getSessionIndex BIST OUCH 0 sm = Some 1"
    and b: "new_Builder_OUCH_BIST sm = Some b" "length (eci_local b) = 1" by (rule sample_bist_builder)
  let ?d = "sample_dispatcher sm b ?ord"
  have o1: "om_heap (bd_orders ?d) 40000 = ?ord" "bd_bist ?d = b" "bd_sessions ?d = sm"
    by (simp_all add: sample_dispatcher_def sample_orders_def)
  have ok: "bist_order_ok b ?ord" by (simp add: bist_order_ok_def b(2) sample_bist_order_def default_order_def ORDER_IDs_SIZE_def)
  have f: "protocol ?ord = OUCH" "venue ?ord = BIST" "order_id ?ord = 0" "client_order_id ?ord = 0" "message_type ?ord = 0"
    by (simp_all add: sample_bist_order_def default_order_def)
  obtain d' m where d': "dispatch_builder (\<lambda>x. x) (\<lambda>_. 0) ?d = Some (True, d')" "outbox d' = outbox ?d @ [(m, of_nat 1, False)]"
    "bist_layout ?ord (eci_local (bd_bist ?d) ! unat (account_index ?ord)) (token_field ?ord (bist_fields (bd_bist ?d))) m"
    using dispatch_bist_order [of ?d 0 40000 "[]" ?ord 1 "\<lambda>x. x" "\<lambda>_. 0"] sample_dispatcher_ready(1,3,4,5) sample_dispatcher_ready(2) [of "Suc 0" sm b ?ord]
      o1 ok f sm(2) new_builder_ready [OF b(1)] by auto
  have "length m = 117" "read_u64_be (drop 23 m) = Some 100"
    using d'(3) f(5) by (simp_all add: bist_layout_def enter_layout_def) (simp add: sample_bist_order_def)
  then show ?thesis using sm(1) b(1) d'(1,2) sample_dispatcher_ready(6) by auto
qed

text \<open>C19. Before an order over FIX is sent, the session messages that wait are answered.  Of those received, the case is
  covered in which none is a resend request or a logout of the counterparty: a test request is answered with
  a heartbeat, a reject with a logout, any other with nothing.  Then comes what the parser asks for, resend
  requests, logouts and logons, in the order of the queues, and last the order (a new order, a cancellation or a
  replacement).  All these messages follow each other in the queue of the sender with consecutive sequence
  numbers, every message whole and with its own time.  Assumed are room in the queue of the sender (and in the pool behind it), room for the client id
  of an order without exchange id, names of the
  session (user, password, ids, account) of at most 32 characters, numbers that stay below 1000000, and an
  order with a known time in force, whose token and symbol fit their arrays and whose price, if it is a limit order, is at
  least 1000 units; under these no message is too long for its buffer.  The order is marked as built; one that has no
  exchange id yet is found afterwards by its client id among those that wait for an acknowledgement, and
  for one that has an exchange id these stay as they are.\<close>

theorem dispatch_fix_order:
  assumes "fix_state t i u seq d" "spsc_inv Q1024 (bd_from_risk d)" "spsc_rep Q1024 (bd_from_risk d) = p # ps"
    and "ord = om_heap (bd_orders d) p" "protocol ord = FIX" "venue ord = BIST"
    and "order_id ord = 0 \<longrightarrow> ack_room hk (bd_orders d) (client_order_id ord)"
    and "getSessionIndex BIST FIX 0 (bd_sessions d) = Some i" "ses_queued d rx tx"
    and "list_all (\<lambda>k. ses_plain (fixSesMsg_pool (bd_parser d) k)) rx" "isSessionLoggedInBefore i (bd_sessions d) = Some before"
    and "app_body ord = Some body" "bs = fix_work before (fixSesMsg_pool (bd_parser d)) rx tx body"
    and "sender_room (length bs + n) d" "order_ok ord" "auth_small u" "unat seq + length bs \<le> 1000000"
  shows "\<exists>d'. dispatch_builder hk clk d = Some (True, d') \<and> outbox d' = outbox d @ fix_stream t clk u i bs (bd_ticks d) seq
    \<and> fix_state t i u (seq + of_nat (length bs)) d' \<and> sender_room n d' \<and> spsc_rep Q1024 (bd_from_risk d') = ps
    \<and> om_heap (bd_orders d') p = ord\<lparr>canModify := canModify ord OR BUILDER_DONE\<rparr>
    \<and> (if order_id ord = 0 then get_order_from_awaitingAck_orders hk (bd_orders d') (client_order_id ord) = Some p
       else awaitingAck_orders (bd_orders d') = awaitingAck_orders (bd_orders d))"
proof -
  have fits: "stream_fits t clk u bs (bd_ticks d) seq"
    using work_bodies_ok [OF assms(12,15,13)] assms(16,17) by (rule bodies_fit)
  let ?R = "\<lambda>d1. outbox d1 = outbox d @ fix_stream t clk u i bs (bd_ticks d) seq \<and> sender_room n d1
    \<and> fix_state t i u (seq + of_nat (length bs)) d1"
  have built: "\<exists>d1. builder_table clk (protocol ord) (venue ord) p (d\<lparr>bd_from_risk := q\<rparr>) = Some (mark_built p d1)
      \<and> awaitingAck_orders (bd_orders d1) = awaitingAck_orders (bd_orders d) \<and> om_heap (bd_orders d1) p = ord
      \<and> bd_from_risk d1 = q \<and> ?R d1" for q
    using buildFIX_spec [of t i u seq "d\<lparr>bd_from_risk := q\<rparr>" rx tx before p body bs n clk] assms fits
    by (auto simp: kept_def ses_queued_def)
  obtain d1 om where r: "dispatch_builder hk clk d = Some (True, d1\<lparr>bd_orders := om\<rparr>)" "?R d1"
    "spsc_rep Q1024 (bd_from_risk d1) = ps" "spsc_inv Q1024 (bd_from_risk d1)"
    "if order_id ord = 0 then get_order_from_awaitingAck_orders hk om (client_order_id ord) = Some p
     else awaitingAck_orders om = awaitingAck_orders (bd_orders d)"
    "om_heap om p = ord\<lparr>canModify := canModify ord OR BUILDER_DONE\<rparr>"
    by (rule dispatch_after_build [OF assms(2,3,4,7) _ built]) (use assms(6) in simp)
  then show ?thesis by (intro exI [of _ "d1\<lparr>bd_orders := om\<rparr>"]) (auto simp: fix_state_def simp del: if_split)
qed

definition sample_fix_order :: Order where
  "sample_fix_order = (default_order BIST)\<lparr>message_type := 68, protocol := FIX, order_type := Market, time_in_force := DAY, quantity := 100\<rparr>"

definition idle_builder :: Builder_OUCH_BIST where
  "idle_builder = \<lparr>enter_messages = [], replace_messages = [], cancel_messages = [], cancelid_messages = [],
     next_enter = 0, next_replace = 0, next_cancel = 0, next_cancelid = 0, eci_local = []\<rparr>"

definition sample_fix_dispatcher :: Dispatcher where
  "sample_fix_dispatcher = (sample_dispatcher sample_fix_sessions idle_builder sample_fix_order)\<lparr>
     bd_parser := (new_Parser_FIX (replicate 1024 (CHR 0x00)))\<lparr>fixSesMsg_pool := (\<lambda>_. default_FIXSessionMessage\<lparr>fs_msg_type := T_TestRequest\<rparr>)\<rparr>,
     bd_ses_rx := snd (spsc_push FQ 3 (spsc_init FQ))\<rparr>"

theorem dispatch_fix_order_witness:
  "\<exists>d'. dispatch_builder (\<lambda>x. x) (\<lambda>n. of_nat n) sample_fix_dispatcher = Some (True, d')
     \<and> outbox d' = [(built_message sample_tm 0 sample_auth 1 FB_Heartbeat, 0, False),
                    (built_message sample_tm 1 sample_auth 2 (FB_NewOrderSingle sample_fix_order), 0, False)]"
proof -
  let ?d = "sample_fix_dispatcher"
  let ?b = "[(FB_Heartbeat, False), (FB_NewOrderSingle sample_fix_order, False)]"
  have q: "session_fix 0 sample_fix_sessions = Some sample_seq" "my_next_seqnum sample_seq = 1"
    "\<forall>k. length (bf_data (fix_history sample_seq k)) = MAX_MSG_SIZE"
    using sample_fix_session by (simp_all add: sample_seq_def new_Sequence_FIX_def empty_buffer_def)
  have st: "fix_state sample_tm 0 sample_auth 1 ?d"
    using sample_dispatcher_ready(1) [of sample_fix_sessions idle_builder sample_fix_order] sample_fix_session q
    by (simp add: fix_state_def sample_fix_dispatcher_def) (simp add: sample_dispatcher_def new_Builder_FIX_def)
  have r: "spsc_inv Q1024 (bd_from_risk ?d)" "spsc_rep Q1024 (bd_from_risk ?d) = [40000]" "ack_room (\<lambda>x. x) (bd_orders ?d) 0"
    "sender_room 2 ?d" "outbox ?d = []"
    using sample_dispatcher_ready [where sm = sample_fix_sessions and b = idle_builder and ord = sample_fix_order] by (simp_all add: sample_fix_dispatcher_def)
  have h: "om_heap (bd_orders ?d) 40000 = sample_fix_order" "bd_sessions ?d = sample_fix_sessions" "bd_ticks ?d = 0"
    "\<And>k. fixSesMsg_pool (bd_parser ?d) k = default_FIXSessionMessage\<lparr>fs_msg_type := T_TestRequest\<rparr>"
    by (simp_all add: sample_fix_dispatcher_def sample_dispatcher_def sample_orders_def)
  have f: "protocol sample_fix_order = FIX" "venue sample_fix_order = BIST" "order_id sample_fix_order = 0" "client_order_id sample_fix_order = 0"
    "app_body sample_fix_order = Some (FB_NewOrderSingle sample_fix_order)" "order_ok sample_fix_order" "auth_small sample_auth"
    by (simp_all add: sample_fix_order_def default_order_def app_body_def order_ok_def ORDER_IDs_SIZE_def SYMBOL_SIZE_def auth_small_def sample_auth_def)
  have g: "getSessionIndex BIST FIX 0 sample_fix_sessions = Some 0" "isSessionLoggedInBefore 0 sample_fix_sessions = Some False"
    by (simp_all add: getSessionIndex_def isSessionLoggedInBefore_def getSessionState_def sample_fix_sessions_def nth_opt_def new_SessionState_def)
  have sq: "ses_queued ?d [3] []"
    using spsc_init_inv [of FQ, where 'a = nat] push_room [of "spsc_init Q1024" "3 :: nat"]
    by (simp add: ses_queued_def sample_fix_dispatcher_def new_Parser_FIX_def FQ_def Q1024_def)
  have w: "?b = fix_work False (fixSesMsg_pool (bd_parser ?d)) [3] [] (FB_NewOrderSingle sample_fix_order)"
    "list_all (\<lambda>k. ses_plain (fixSesMsg_pool (bd_parser ?d) k)) [3]"
    by (simp_all add: fix_work_def sample_fix_dispatcher_def answers_out_def ses_plain_def T_TestRequest_def T_ResendRequest_def T_Logout_def)
  have rm: "sender_room (length ?b + 0) ?d" "unat (1 :: u32) + length ?b \<le> 1000000" using r(4) by (simp_all add: numeral_2_eq_2)
  have "order_id sample_fix_order = 0 \<longrightarrow> ack_room (\<lambda>x. x) (bd_orders ?d) (client_order_id sample_fix_order)" using r(3) f(4) by simp
  from dispatch_fix_order [where clk = "\<lambda>n. of_nat n", OF st r(1,2) h(1) [symmetric] f(1,2) this _ sq w(2) _ f(5) w(1) rm(1) f(6,7) rm(2)] g h(2,3) r(5)
  show ?thesis by auto
qed

end
