(* ===== verification/Error_Handler.thy ===== *)
theory Error_Handler
  imports Engine_Prelude
begin

text \<open>
  The retries with growing delays of src/src/utils/ErrorHandler.cpp and the generated tables of strategies
  (src/generated/GeneratedErrorMap.h).  The state is that of one thread; the delays slept so far are kept
  with it.  \<open>None\<close> stands for an index past a table and for \<^verbatim>\<open>std::abort\<close>.  The first delay depends on the
  kind of build and is a parameter.
\<close>

datatype ErrorStrategy = Strategy_Ignore | Strategy_Retry | Strategy_Abort | Strategy_Custom

datatype ErrorName = InvalidIP | CouldNotOpenFile

definition errno_strategies :: "nat \<Rightarrow> ErrorStrategy option" where
  "errno_strategies err =
     (if 128 \<le> err then None
      else Some (if err \<in> set [4, 11, 104] then Strategy_Retry
                 else if err \<in> set [1, 3, 5, 12, 13, 22, 28, 32] then Strategy_Abort else Strategy_Ignore))"

fun error_strategies :: "ErrorName \<Rightarrow> ErrorStrategy" where
  "error_strategies InvalidIP = Strategy_Abort"
| "error_strategies CouldNotOpenFile = Strategy_Abort"

fun toString :: "ErrorName \<Rightarrow> string" where
  "toString InvalidIP = ''InvalidIP''"
| "toString CouldNotOpenFile = ''CouldNotOpenFile''"

record ErrorHandler =
  errno_RETRY_DELAY_MS :: u16
  errno_retry_count :: u8
  error_RETRY_DELAY_MS :: u16
  error_retry_count :: u8
  slept :: "u16 list"

definition MAX_DELAY_MS :: u16 where "MAX_DELAY_MS = 30000"

text \<open>The first delay of a release build.\<close>

definition START_RETRY_DELAY_MS :: u16 where "START_RETRY_DELAY_MS = 500"

definition new_ErrorHandler :: "u16 \<Rightarrow> ErrorHandler" where
  "new_ErrorHandler start = \<lparr>errno_RETRY_DELAY_MS = start, errno_retry_count = 0, error_RETRY_DELAY_MS = start,
     error_retry_count = 0, slept = []\<rparr>"

text \<open>The delay is doubled as an \<^verbatim>\<open>int\<close>.\<close>

definition next_delay :: "u16 \<Rightarrow> u16" where
  "next_delay d = (if unat MAX_DELAY_MS \<le> unat d * 2 then MAX_DELAY_MS else of_nat (unat d * 2))"

definition resetRetry_errno :: "u16 \<Rightarrow> ErrorHandler \<Rightarrow> ErrorHandler" where
  "resetRetry_errno start h = h\<lparr>errno_RETRY_DELAY_MS := start, errno_retry_count := 0\<rparr>"

definition BackoffRetry_errno :: "u16 \<Rightarrow> u8 \<Rightarrow> ErrorHandler \<Rightarrow> bool \<times> ErrorHandler" where
  "BackoffRetry_errno start max_retry h =
     (if errno_retry_count h < max_retry
      then (True, h\<lparr>slept := slept h @ [errno_RETRY_DELAY_MS h], errno_RETRY_DELAY_MS := next_delay (errno_RETRY_DELAY_MS h),
                    errno_retry_count := errno_retry_count h + 1\<rparr>)
      else (False, resetRetry_errno start h))"

definition handleError :: "u16 \<Rightarrow> nat \<Rightarrow> u8 \<Rightarrow> ErrorHandler \<Rightarrow> (bool \<times> ErrorHandler) option" where
  "handleError start err max_retry h = do {
     s \<leftarrow> errno_strategies err;
     (case s of
        Strategy_Retry \<Rightarrow> Some (BackoffRetry_errno start max_retry h)
      | Strategy_Abort \<Rightarrow> None
      | _ \<Rightarrow> Some (False, h)) }"

definition resetRetry_error :: "u16 \<Rightarrow> ErrorHandler \<Rightarrow> ErrorHandler" where
  "resetRetry_error start h = h\<lparr>error_RETRY_DELAY_MS := start, error_retry_count := 0\<rparr>"

definition BackoffRetry_error :: "u16 \<Rightarrow> u8 \<Rightarrow> ErrorHandler \<Rightarrow> bool \<times> ErrorHandler" where
  "BackoffRetry_error start max_retry h =
     (if error_retry_count h < max_retry
      then (True, h\<lparr>slept := slept h @ [error_RETRY_DELAY_MS h], error_RETRY_DELAY_MS := next_delay (error_RETRY_DELAY_MS h),
                    error_retry_count := error_retry_count h + 1\<rparr>)
      else (False, resetRetry_error start h))"

definition handleErrorName :: "u16 \<Rightarrow> ErrorName \<Rightarrow> u8 \<Rightarrow> ErrorHandler \<Rightarrow> (bool \<times> ErrorHandler) option" where
  "handleErrorName start err max_retry h =
     (case error_strategies err of
        Strategy_Retry \<Rightarrow> Some (BackoffRetry_error start max_retry h)
      | Strategy_Abort \<Rightarrow> None
      | _ \<Rightarrow> Some (False, h))"

subsection \<open>Lemmas\<close>

text \<open>The errors of one thread, one after another.\<close>

primrec handle_errors :: "u16 \<Rightarrow> u8 \<Rightarrow> nat list \<Rightarrow> ErrorHandler \<Rightarrow> (bool list \<times> ErrorHandler) option" where
  "handle_errors start max_retry [] h = Some ([], h)"
| "handle_errors start max_retry (e # es) h = do {
     (b, h1) \<leftarrow> handleError start e max_retry h;
     (bs, h2) \<leftarrow> handle_errors start max_retry es h1;
     Some (b # bs, h2) }"

definition delay_at :: "u16 \<Rightarrow> nat \<Rightarrow> nat" where
  "delay_at start n = (if n = 0 then unat start else min 30000 (unat start * 2 ^ n))"

lemma unat_next_delay: "unat (next_delay d) = min 30000 (unat d * 2)"
proof -
  have "unat (d * 2) = unat d * 2" if "unat d < 15000" using that by (simp add: unat_word_ariths(2))
  then show ?thesis by (simp add: next_delay_def MAX_DELAY_MS_def min_def)
qed

lemma delay_at_Suc: "delay_at start (Suc n) = min 30000 (delay_at start n * 2)"
  by (cases n) (simp_all add: delay_at_def min_def)

lemma retries_sleep:
  assumes "set es \<subseteq> {4, 11, 104}" "unat (errno_retry_count h) + length es \<le> unat max_retry"
    and "unat (errno_RETRY_DELAY_MS h) = delay_at start (unat (errno_retry_count h))"
  shows "\<exists>h'. handle_errors start max_retry es h = Some (replicate (length es) True, h')
    \<and> map unat (slept h') = map unat (slept h) @ map (delay_at start) [unat (errno_retry_count h)..<unat (errno_retry_count h) + length es]
    \<and> unat (errno_retry_count h') = unat (errno_retry_count h) + length es"
  using assms
proof (induction es arbitrary: h)
  case (Cons e es)
  let ?n = "unat (errno_retry_count h)"
  let ?h = "h\<lparr>slept := slept h @ [errno_RETRY_DELAY_MS h], errno_RETRY_DELAY_MS := next_delay (errno_RETRY_DELAY_MS h),
      errno_retry_count := errno_retry_count h + 1\<rparr>"
  have lt: "?n < unat max_retry" using Cons.prems(2) by simp
  then have c: "unat (errno_retry_count h + 1) = Suc ?n"
    using unsigned_less [of max_retry, where 'a = nat] by (simp add: unat_word_ariths(1))
  have "errno_strategies e = Some Strategy_Retry" using Cons.prems(1) by (auto simp: errno_strategies_def)
  then have step: "handleError start e max_retry h = Some (True, ?h)"
    using lt by (simp add: handleError_def BackoffRetry_errno_def word_less_nat_alt)
  have "\<exists>h'. handle_errors start max_retry es ?h = Some (replicate (length es) True, h')
    \<and> map unat (slept h') = map unat (slept ?h) @ map (delay_at start) [unat (errno_retry_count ?h)..<unat (errno_retry_count ?h) + length es]
    \<and> unat (errno_retry_count h') = unat (errno_retry_count ?h) + length es"
    by (rule Cons.IH) (use Cons.prems c in \<open>simp_all add: unat_next_delay delay_at_Suc\<close>)
  moreover have "[?n..<?n + length (e # es)] = ?n # [Suc ?n..<Suc ?n + length es]" by (simp add: upt_conv_Cons del: upt_Suc)
  ultimately show ?case using step c Cons.prems(3) by (auto simp del: upt_Suc)
qed simp

text \<open>A connection that is refused or times out is never tried again: the table does not call for it.\<close>

lemma refused_not_retried: "handleError start 111 max_retry h = Some (False, h)" "handleError start 110 max_retry h = Some (False, h)"
  by (simp_all add: handleError_def errno_strategies_def)

subsection \<open>Properties\<close>

text \<open>C37. The first errors of a thread that call for a retry are retried, \<open>max_retry\<close> of them at most, each after twice the
  delay of the one before and never more than 30 seconds; the next one is not retried and starts the
  delays afresh.\<close>

theorem retries_back_off:
  assumes "set es \<subseteq> {4, 11, 104}" "length es = unat max_retry + 1"
  shows "\<exists>h. handle_errors start max_retry es (new_ErrorHandler start) = Some (replicate (unat max_retry) True @ [False], h)
    \<and> map unat (slept h) = map (delay_at start) [0..<unat max_retry] \<and> errno_retry_count h = 0 \<and> errno_RETRY_DELAY_MS h = start"
proof -
  obtain es' e where es: "es = es' @ [e]" using assms(2) by (cases es rule: rev_cases) auto
  then have l: "length es' = unat max_retry" "set es' \<subseteq> {4, 11, 104}" "errno_strategies e = Some Strategy_Retry"
    using assms by (auto simp: errno_strategies_def)
  from retries_sleep [OF l(2), of "new_ErrorHandler start" max_retry start] l(1) obtain h where
    h: "handle_errors start max_retry es' (new_ErrorHandler start) = Some (replicate (unat max_retry) True, h)"
      "map unat (slept h) = map (delay_at start) [0..<unat max_retry]" "unat (errno_retry_count h) = unat max_retry"
    by (auto simp: new_ErrorHandler_def delay_at_def)
  have "handle_errors start max_retry (xs @ ys) g = Option.bind (handle_errors start max_retry xs g)
      (\<lambda>(bs, g1). map_option (\<lambda>(cs, g2). (bs @ cs, g2)) (handle_errors start max_retry ys g1))" for xs ys g
    by (induction xs arbitrary: g) (auto split: bind_splits prod.splits simp: map_option_case split: option.splits)
  moreover have "handleError start e max_retry h = Some (False, resetRetry_errno start h)"
    using l(3) h(3) by (simp add: handleError_def BackoffRetry_errno_def word_less_nat_alt)
  ultimately show ?thesis using h(1,2) by (simp add: es resetRetry_errno_def)
qed

theorem retries_back_off_witness:
  "\<exists>h. handle_errors 500 3 [11, 4, 104, 11] (new_ErrorHandler 500) = Some ([True, True, True, False], h) \<and> map unat (slept h) = [500, 1000, 2000]"
proof -
  have u: "unat (3 :: u8) = 3" by simp
  have r: "replicate 3 True @ [False] = [True, True, True, False]" by (simp add: eval_nat_numeral)
  have m: "map (delay_at 500) [0..<3] = [500, 1000, 2000]" by (simp add: delay_at_def upt_rec)
  have "length [11, 4, 104, 11 :: nat] = unat (3 :: u8) + 1" by simp
  from retries_back_off [OF _ this, of 500] show ?thesis unfolding u r m by auto
qed

end
