(* ===== verification/Network_IO.thy ===== *)
theory Network_IO
  imports Builder_Dispatch Packet_Dispatch Ring_Queue Error_Handler
begin

text \<open>
  The network thread (src/src/network/NetworkIO.cpp and NetworkIO.h): sending packets over sockets that do not
  block, framing of the SoupBinTCP packets received, setting up and closing sockets.  The operating system is a parameter: \<open>os n c\<close> is what call \<open>c\<close> returns when it is the
  \<open>n\<close>-th, with its error number and the bytes it delivers, and the calls made so far are kept as a list.  Sockets are
  the numbers the system gives; packets are indices of their pools.  \<open>None\<close> stands for undefined behaviour, for
  \<^verbatim>\<open>std::abort\<close> and for a loop that never ends.
\<close>

subsection \<open>Calls of the operating system\<close>

datatype SysCall =
    C_send int string
  | C_recv int nat
  | C_socket nat
  | C_setsockopt int
  | C_fcntl int
  | C_connect int u32 u16
  | C_bind int u16
  | C_getsockopt int
  | C_epoll_create
  | C_epoll_add int u64 u32
  | C_epoll_mod int u64 u32
  | C_epoll_del int
  | C_close int
  | C_epoll_wait
  | C_drop_membership int u32

record SysResult =
  res_ret :: int
  res_errno :: nat
  res_bytes :: string

type_synonym OS = "nat \<Rightarrow> SysCall \<Rightarrow> SysResult"

definition EINTR :: nat where "EINTR = 4"

definition EBADF :: nat where "EBADF = 9"

definition EAGAIN :: nat where "EAGAIN = 11"

definition ENOMEM :: nat where "ENOMEM = 12"

definition ENOTSOCK :: nat where "ENOTSOCK = 88"

definition EADDRINUSE :: nat where "EADDRINUSE = 98"

definition ENOBUFS :: nat where "ENOBUFS = 105"

definition EISCONN :: nat where "EISCONN = 106"

definition ETIMEDOUT :: nat where "ETIMEDOUT = 110"

definition ECONNREFUSED :: nat where "ECONNREFUSED = 111"

definition EINPROGRESS :: nat where "EINPROGRESS = 115"

definition EPOLLIN :: u32 where "EPOLLIN = 1"

definition EPOLLOUT :: u32 where "EPOLLOUT = 4"

definition EPOLL_READ :: u32 where "EPOLL_READ = EPOLLIN OR 8 OR 16 OR 0x80000000"

definition EPOLL_WRITE :: u32 where "EPOLL_WRITE = EPOLLOUT OR 8 OR 16 OR 0x80000000"

subsection \<open>State\<close>

record SocketState =
  active_pkt :: "nat option"
  ss_epoll_data :: u64
  is_EPOLLOUT_set :: bool
  connection_pending :: bool

definition new_SocketState :: SocketState where
  "new_SocketState = \<lparr>active_pkt = None, ss_epoll_data = 0, is_EPOLLOUT_set = False, connection_pending = False\<rparr>"

definition PENDING_CAPACITY :: nat where "PENDING_CAPACITY = 256"

definition PARTIAL_PACKET_POOL_CAPACITY :: nat where "PARTIAL_PACKET_POOL_CAPACITY = 16"

definition PACKET_QUEUE_CAPACITY :: nat where "PACKET_QUEUE_CAPACITY = 1024"

text \<open>The pointers of the pool for partial packets are never set; an unset one is \<open>None\<close>.\<close>

record NetworkIO =
  next_partialpkt :: u64
  receiver_to_parser :: "nat spsc"
  net_to_send :: "nat spsc"
  net_sessions :: SessionManager
  net_fix :: Builder_FIX
  net_txPkts :: TxPacketPoolManager
  joined_ips :: "nat \<Rightarrow> u32"
  epoll_fd :: int
  socket_states :: "nat \<Rightarrow> SocketState"
  socks :: "nat \<Rightarrow> int"
  packet_pool :: "nat \<Rightarrow> RxPacket"
  free_pkt_list :: "nat spsc"
  partial_packet_pool :: "nat \<Rightarrow> nat option"
  pending_write :: "nat \<Rightarrow> nat cq"
  pending_read :: "nat \<Rightarrow> nat cq"
  pipeline_seq :: u64
  net_retry :: ErrorHandler
  net_ticks :: nat
  net_calls :: "SysCall list"

definition syscall :: "OS \<Rightarrow> SysCall \<Rightarrow> NetworkIO \<Rightarrow> SysResult \<times> NetworkIO" where
  "syscall os c io = (os (length (net_calls io)) c, io\<lparr>net_calls := net_calls io @ [c]\<rparr>)"

definition upd_socket :: "nat \<Rightarrow> (SocketState \<Rightarrow> SocketState) \<Rightarrow> NetworkIO \<Rightarrow> NetworkIO" where
  "upd_socket i f io = io\<lparr>socket_states := (socket_states io)(i := f (socket_states io i))\<rparr>"

definition upd_txPkt :: "nat \<Rightarrow> (TxPacket \<Rightarrow> TxPacket) \<Rightarrow> NetworkIO \<Rightarrow> NetworkIO" where
  "upd_txPkt k f io = (let p = net_txPkts io in io\<lparr>net_txPkts := p\<lparr>tx_pool := (tx_pool p)(k := f (tx_pool p k))\<rparr>\<rparr>)"

definition upd_rxPkt :: "nat \<Rightarrow> (RxPacket \<Rightarrow> RxPacket) \<Rightarrow> NetworkIO \<Rightarrow> NetworkIO" where
  "upd_rxPkt k f io = io\<lparr>packet_pool := (packet_pool io)(k := f (packet_pool io k))\<rparr>"

definition net_clock :: "(nat \<Rightarrow> u64) \<Rightarrow> NetworkIO \<Rightarrow> u64 \<times> NetworkIO" where
  "net_clock clk io = (clk (net_ticks io), io\<lparr>net_ticks := net_ticks io + 1\<rparr>)"

definition releasePacket :: "nat \<Rightarrow> NetworkIO \<Rightarrow> NetworkIO" where
  "releasePacket k io = (let io1 = upd_rxPkt k (\<lambda>p. p\<lparr>msg_count := 0\<rparr>) io
     in io1\<lparr>free_pkt_list := snd (spsc_push Q1024 k (free_pkt_list io1))\<rparr>)"

definition epollPackData :: "nat \<Rightarrow> Venue \<Rightarrow> Protocol \<Rightarrow> u64" where
  "epollPackData i ven prot =
     of_nat i OR push_bit 8 (of_nat (venue_index ven)) OR push_bit 16 (of_nat (protocol_index prot))"

definition unpack_index :: "u64 \<Rightarrow> nat" where
  "unpack_index d = unat (d AND 0xFF)"

definition unpack_venue :: "u64 \<Rightarrow> Venue" where
  "unpack_venue d = (let n = unat (drop_bit 8 d AND 0xFF) in if n = 0 then BIST else if n = 1 then NASDAQ else Venue_Unknown)"

definition unpack_protocol :: "u64 \<Rightarrow> Protocol" where
  "unpack_protocol d = (let n = unat (drop_bit 16 d AND 0xFF)
     in if n = 0 then FIX else if n = 1 then ITCH else if n = 2 then OUCH else Protocol_Unknown)"

subsection \<open>Calls that are repeated\<close>

text \<open>The loops of \<^verbatim>\<open>makeSocketNonBlocking\<close>, \<^verbatim>\<open>createEpoll\<close>, \<^verbatim>\<open>addEpoll\<close> and \<^verbatim>\<open>modEpoll\<close> repeat the call
  whatever the error.\<close>

partial_function (option) repeat_call :: "OS \<Rightarrow> SysCall \<Rightarrow> NetworkIO \<Rightarrow> (int \<times> NetworkIO) option" where
  "repeat_call os c io =
     (let (r, io1) = syscall os c io in if res_ret r \<noteq> -1 then Some (res_ret r, io1) else repeat_call os c io1)"

definition makeSocketNonBlocking :: "OS \<Rightarrow> int \<Rightarrow> NetworkIO \<Rightarrow> NetworkIO option" where
  "makeSocketNonBlocking os sock io = do {
     (_, io1) \<leftarrow> repeat_call os (C_fcntl sock) io;
     (_, io2) \<leftarrow> repeat_call os (C_fcntl sock) io1;
     Some io2 }"

definition createEpoll :: "OS \<Rightarrow> NetworkIO \<Rightarrow> (int \<times> NetworkIO) option" where
  "createEpoll os io = repeat_call os C_epoll_create io"

definition addEpoll :: "OS \<Rightarrow> int \<Rightarrow> u64 \<Rightarrow> u32 \<Rightarrow> NetworkIO \<Rightarrow> NetworkIO option" where
  "addEpoll os sock epoll_data events io =
     (if sock < 0 then Some io else map_option snd (repeat_call os (C_epoll_add sock epoll_data events) io))"

definition modEpoll :: "OS \<Rightarrow> int \<Rightarrow> u64 \<Rightarrow> u32 \<Rightarrow> NetworkIO \<Rightarrow> NetworkIO option" where
  "modEpoll os sock epoll_data events io = map_option snd (repeat_call os (C_epoll_mod sock epoll_data events) io)"

text \<open>\<^verbatim>\<open>SOCK_STREAM\<close> is 1 and \<^verbatim>\<open>SOCK_DGRAM\<close> is 2.\<close>

partial_function (option) createSocket :: "OS \<Rightarrow> Protocol \<Rightarrow> NetworkIO \<Rightarrow> (int \<times> NetworkIO) option" where
  "createSocket os prot io =
     (let (r, io1) = syscall os (C_socket (if prot = ITCH then 2 else 1)) io in
      if res_ret r < 0 then (if res_errno r = EINTR then createSocket os prot io1 else Some (-1, io1))
      else let (r2, io2) = syscall os (C_setsockopt (res_ret r)) io1 in
        if res_ret r2 < 0 then
          (let (_, io3) = syscall os (C_close (res_ret r)) io2 in
           if res_errno r2 = EBADF \<or> res_errno r2 = ENOTSOCK then createSocket os prot io3 else Some (-1, io3))
        else Some (res_ret r, io2))"

definition closeSocket :: "OS \<Rightarrow> nat \<Rightarrow> NetworkIO \<Rightarrow> NetworkIO option" where
  "closeSocket os i io = (let sock = socks io i in
     if sock = -1 then Some io
     else do {
       let (_, io1) = syscall os (C_epoll_del sock) io;
       let (_, io2) = syscall os (C_close sock) io1;
       sm \<leftarrow> ResetState i (net_sessions io2);
       Some (io2\<lparr>net_sessions := sm, socket_states := (socket_states io2)(i := new_SocketState),
                 pending_write := (pending_write io2)(i := cq_clear (pending_write io2 i)), socks := (socks io2)(i := -1)\<rparr>) })"

subsection \<open>Sending\<close>

partial_function (option) send :: "OS \<Rightarrow> nat \<Rightarrow> int \<Rightarrow> nat \<Rightarrow> NetworkIO \<Rightarrow> NetworkIO option" where
  "send os k sock i io = (let pkt = tx_pool (net_txPkts io) k in
     if tx_offset pkt < tx_len pkt then do {
       bytes \<leftarrow> read_bytes (unat (tx_len pkt - tx_offset pkt)) (drop (unat (tx_offset pkt)) (tx_data pkt));
       let (r, io1) = syscall os (C_send sock bytes) io;
       (if 0 < res_ret r then send os k sock i (upd_txPkt k (\<lambda>p. p\<lparr>tx_offset := tx_offset p + of_int (res_ret r)\<rparr>) io1)
        else if res_ret r < 0 then
          (if res_errno r = EAGAIN then do {
             io2 \<leftarrow> (if \<not> is_EPOLLOUT_set (socket_states io1 i)
                     then map_option (upd_socket i (\<lambda>st. st\<lparr>is_EPOLLOUT_set := True\<rparr>))
                            (modEpoll os sock (ss_epoll_data (socket_states io1 i)) EPOLL_WRITE io1)
                     else Some io1);
             Some (upd_socket i (\<lambda>st. st\<lparr>active_pkt := Some k\<rparr>) io2) }
           else if res_errno r = EINTR then send os k sock i io1
           else closeSocket os i io1)
        else send os k sock i io1) }
     else Some (upd_socket i (\<lambda>st. st\<lparr>active_pkt := None\<rparr>) (io\<lparr>pipeline_seq := pipeline_seq io + 1\<rparr>)))"

definition trySend :: "OS \<Rightarrow> nat \<Rightarrow> NetworkIO \<Rightarrow> NetworkIO option" where
  "trySend os k io = do {
     let pkt = tx_pool (net_txPkts io) k;
     let i = unat (tx_sock_index pkt);
     _ \<leftarrow> guard (i < MAX_SESSIONS);
     let sock = socks io i;
     let st = socket_states io i;
     if connection_pending st
     then Some (io\<lparr>pending_write := (pending_write io)(i := snd (cq_push k (pending_write io i)))\<rparr>)
     else do {
       logged \<leftarrow> isSessionLoggedIn i (net_sessions io);
       if \<not> logged \<and> \<not> is_login_msg pkt then Some io
       else if active_pkt st \<noteq> None
       then Some (io\<lparr>pending_write := (pending_write io)(i := snd (cq_push k (pending_write io i)))\<rparr>)
       else send os k sock i io } }"

subsection \<open>Setting up sockets\<close>

text \<open>The login behind a connection; the result is whether the socket was given up.\<close>

definition login_connected :: "OS \<Rightarrow> (nat \<Rightarrow> u64) \<Rightarrow> int \<Rightarrow> nat \<Rightarrow> NetworkIO \<Rightarrow> (bool \<times> NetworkIO) option" where
  "login_connected os clk sock i io = do {
     st \<leftarrow> getSessionState i (net_sessions io);
     let (now, io1) = net_clock clk io;
     (case fst (LoginDecider now st) of
        TryAgain \<Rightarrow> do {
          let (k, pool) = get_txPkt (net_txPkts io1);
          let (wall, io2) = net_clock clk io1;
          let (now2, io3) = net_clock clk io2;
          (pkt, sm) \<leftarrow> LoginAttempt wall now2 (net_fix io3) (tx_pool pool k) i (net_sessions io3);
          io4 \<leftarrow> send os k sock i (io3\<lparr>net_txPkts := pool\<lparr>tx_pool := (tx_pool pool)(k := pkt)\<rparr>, net_sessions := sm\<rparr>);
          Some (False, io4) }
      | AlreadyLoggedIn \<Rightarrow> Some (False, io1)
      | _ \<Rightarrow> map_option (Pair True) (closeSocket os i io1)) }"

definition handle_errno :: "nat \<Rightarrow> NetworkIO \<Rightarrow> (bool \<times> NetworkIO) option" where
  "handle_errno err io = map_option (\<lambda>(b, r). (b, io\<lparr>net_retry := r\<rparr>)) (handleError START_RETRY_DELAY_MS err 3 (net_retry io))"

text \<open>\<^verbatim>\<open>setupSocket\<close> and \<^verbatim>\<open>reconnect\<close> call each other; the call of \<^verbatim>\<open>reconnect\<close> is written out.  The socket that is
  returned after a reconnection is the old one.\<close>

partial_function (option) setupSocket ::
  "OS \<Rightarrow> (nat \<Rightarrow> u64) \<Rightarrow> int \<Rightarrow> SessionContext \<Rightarrow> NetworkIO \<Rightarrow> (int \<times> NetworkIO) option" where
  "setupSocket os clk sock cx io0 = do {
     let i = unat (cx_socket_index cx);
     _ \<leftarrow> guard (i < MAX_SESSIONS);
     let epoll_data = epollPackData i (cx_venue cx) (cx_protocol cx);
     let io = upd_socket i (\<lambda>st. st\<lparr>ss_epoll_data := epoll_data\<rparr>) io0;
     if cx_protocol cx = OUCH \<or> cx_protocol cx = FIX then do {
       io1 \<leftarrow> makeSocketNonBlocking os sock io;
       let (r, io2) = syscall os (C_connect sock (cx_ip cx) (cx_port cx)) io1;
       (if res_ret r < 0 then
          (if res_errno r = EISCONN then Some (sock, io2)
           else if res_errno r = EINPROGRESS then do {
             io3 \<leftarrow> addEpoll os sock epoll_data EPOLL_WRITE io2;
             Some (sock, upd_socket i (\<lambda>st. st\<lparr>connection_pending := True\<rparr>) io3) }
           else if res_errno r \<in> set [ECONNREFUSED, ETIMEDOUT, EADDRINUSE] then do {
             (again, io3) \<leftarrow> handle_errno (res_errno r) io2;
             (if again then do {
                cx1 \<leftarrow> getSessionContext i (net_sessions io3);
                io4 \<leftarrow> closeSocket os i io3;
                (sock1, io5) \<leftarrow> createSocket os (cx_protocol cx1) io4;
                (_, io6) \<leftarrow> setupSocket os clk sock1 cx1 io5;
                Some (sock, io6) }
              else map_option (Pair (-1)) (closeSocket os i io3)) }
           else if res_errno r \<in> set [101, 113, 22, 97, 13, 14] then do {
             (_, io3) \<leftarrow> handle_errno (res_errno r) io2;
             map_option (Pair (-1)) (closeSocket os i io3) }
           else map_option (Pair (-1)) (closeSocket os i io2))
        else do {
          io3 \<leftarrow> addEpoll os sock epoll_data EPOLL_READ io2;
          sm \<leftarrow> setSessionConnected i True (net_sessions io3);
          (failed, io4) \<leftarrow> login_connected os clk sock i (io3\<lparr>net_sessions := sm\<rparr>);
          Some (if failed then -1 else sock, io4) }) }
     else do {
       let (r, io1) = syscall os (C_bind sock (cx_port cx)) io;
       (if res_ret r < 0 then
          (if res_errno r \<in> set [EINTR, ENOBUFS, ENOMEM] then do {
             (again, io3) \<leftarrow> handle_errno (res_errno r) io1;
             (if again then do {
                cx1 \<leftarrow> getSessionContext i (net_sessions io3);
                io4 \<leftarrow> closeSocket os i io3;
                (sock1, io5) \<leftarrow> createSocket os (cx_protocol cx1) io4;
                (_, io6) \<leftarrow> setupSocket os clk sock1 cx1 io5;
                Some (sock, io6) }
              else map_option (Pair (-1)) (closeSocket os i io3)) }
           else if res_errno r \<in> set [98, 99, 13, 22] then do {
             (_, io3) \<leftarrow> handle_errno (res_errno r) io1;
             map_option (Pair (-1)) (closeSocket os i io3) }
           else map_option (Pair (-1)) (closeSocket os i io1))
        else do {
          io2 \<leftarrow> makeSocketNonBlocking os sock io1;
          io3 \<leftarrow> addEpoll os sock epoll_data EPOLL_READ io2;
          Some (sock, io3) }) } }"

definition reconnect :: "OS \<Rightarrow> (nat \<Rightarrow> u64) \<Rightarrow> nat \<Rightarrow> NetworkIO \<Rightarrow> (int \<times> NetworkIO) option" where
  "reconnect os clk i io = do {
     cx \<leftarrow> getSessionContext i (net_sessions io);
     io1 \<leftarrow> closeSocket os i io;
     (sock, io2) \<leftarrow> createSocket os (cx_protocol cx) io1;
     (_, io3) \<leftarrow> setupSocket os clk sock cx io2;
     Some (sock, io3) }"

text \<open>The constructor: sockets are set up until an entry of the contexts is not the session's own.  While
  they are set up \<^verbatim>\<open>socks_\<close> is not initialised; the state passed in holds what it is then.\<close>

primrec Init_Sockets_from :: "OS \<Rightarrow> (nat \<Rightarrow> u64) \<Rightarrow> nat \<Rightarrow> nat \<Rightarrow> (nat \<Rightarrow> int) \<Rightarrow> NetworkIO \<Rightarrow> ((nat \<Rightarrow> int) \<times> NetworkIO) option" where
  "Init_Sockets_from os clk i 0 ss io = Some (ss, io)"
| "Init_Sockets_from os clk i (Suc n) ss io = do {
     cx \<leftarrow> getSessionContext i (net_sessions io);
     (if unat (cx_socket_index cx) \<noteq> i then Some (ss, io)
      else do {
        (sock, io1) \<leftarrow> createSocket os (cx_protocol cx) io;
        (sock1, io2) \<leftarrow> setupSocket os clk sock cx io1;
        Init_Sockets_from os clk (Suc i) n (ss(i := sock1)) io2 }) }"

definition Init_Sockets :: "OS \<Rightarrow> (nat \<Rightarrow> u64) \<Rightarrow> NetworkIO \<Rightarrow> ((nat \<Rightarrow> int) \<times> NetworkIO) option" where
  "Init_Sockets os clk io = Init_Sockets_from os clk 0 MAX_SESSIONS (\<lambda>_. 0) io"

primrec fill_free_list :: "nat \<Rightarrow> nat \<Rightarrow> nat spsc \<Rightarrow> nat spsc" where
  "fill_free_list i 0 q = q"
| "fill_free_list i (Suc n) q = fill_free_list (Suc i) n (snd (spsc_push Q1024 i q))"

definition new_NetworkIO :: "OS \<Rightarrow> (nat \<Rightarrow> u64) \<Rightarrow> NetworkIO \<Rightarrow> NetworkIO option" where
  "new_NetworkIO os clk io0 = do {
     (fd, io1) \<leftarrow> createEpoll os io0;
     (ss, io2) \<leftarrow> Init_Sockets os clk (io1\<lparr>epoll_fd := fd, socket_states := (\<lambda>_. new_SocketState)\<rparr>);
     Some (io2\<lparr>socks := ss, free_pkt_list := fill_free_list 0 PACKET_QUEUE_CAPACITY (free_pkt_list io2)\<rparr>) }"

primrec close_all :: "OS \<Rightarrow> nat list \<Rightarrow> NetworkIO \<Rightarrow> NetworkIO option" where
  "close_all os [] io = Some io"
| "close_all os (i # js) io = do {
     let io1 = (if joined_ips io i \<noteq> 0 then snd (syscall os (C_drop_membership (socks io i) (joined_ips io i)) io) else io);
     io2 \<leftarrow> closeSocket os i io1;
     close_all os js io2 }"

definition destroy_NetworkIO :: "OS \<Rightarrow> NetworkIO \<Rightarrow> NetworkIO option" where
  "destroy_NetworkIO os io = close_all os [0..<MAX_SESSIONS] io"

text \<open>\<^verbatim>\<open>getsockopt\<close> with \<^verbatim>\<open>SO_ERROR\<close>: when it succeeds, the error number of the result is the pending error of the
  socket.\<close>

definition handleEINPROGRESS :: "OS \<Rightarrow> (nat \<Rightarrow> u64) \<Rightarrow> int \<Rightarrow> nat \<Rightarrow> NetworkIO \<Rightarrow> NetworkIO option" where
  "handleEINPROGRESS os clk sock i io = do {
     let (r, io1) = syscall os (C_getsockopt sock) io;
     let io2 = upd_socket i (\<lambda>st. st\<lparr>connection_pending := False\<rparr>) io1;
     (if res_ret r < 0 then do {
        (again, io3) \<leftarrow> handle_errno (res_errno r) io2;
        (if again then map_option snd (reconnect os clk i io3) else closeSocket os i io3) }
      else if res_errno r \<noteq> 0 then do {
        (again, io3) \<leftarrow> handle_errno (res_errno r) io2;
        (if again then map_option snd (reconnect os clk i io3) else closeSocket os i io3) }
      else do {
        sm \<leftarrow> setSessionConnected i True (net_sessions io2);
        io3 \<leftarrow> modEpoll os sock (ss_epoll_data (socket_states io2 i)) EPOLL_READ (io2\<lparr>net_sessions := sm\<rparr>);
        map_option snd (login_connected os clk sock i (upd_socket i (\<lambda>st. st\<lparr>is_EPOLLOUT_set := False\<rparr>) io3)) }) }"

subsection \<open>Receiving\<close>

text \<open>A byte as \<^verbatim>\<open>char\<close>, which is signed, widened to \<^verbatim>\<open>int\<close>.\<close>

definition char_int :: "char \<Rightarrow> i32" where
  "char_int c = scast (of_char c :: u8)"

definition push_read :: "nat \<Rightarrow> nat \<Rightarrow> NetworkIO \<Rightarrow> NetworkIO" where
  "push_read i k io = io\<lparr>pending_read := (pending_read io)(i := snd (cq_push k (pending_read io i)))\<rparr>"

definition pop_read :: "nat \<Rightarrow> NetworkIO \<Rightarrow> nat option \<times> NetworkIO" where
  "pop_read i io = (let (r, q) = cq_pop (pending_read io i) in (r, io\<lparr>pending_read := (pending_read io)(i := q)\<rparr>))"

definition to_parser :: "nat \<Rightarrow> NetworkIO \<Rightarrow> bool \<times> NetworkIO" where
  "to_parser k io = (let (ok, q) = spsc_push Q1024 k (receiver_to_parser io) in (ok, io\<lparr>receiver_to_parser := q\<rparr>))"

definition to_parser_or_read :: "nat \<Rightarrow> nat \<Rightarrow> NetworkIO \<Rightarrow> NetworkIO" where
  "to_parser_or_read i k io = (let (ok, io1) = to_parser k io in if ok then io1 else push_read i k io1)"

text \<open>The bytes that complete the length of a packet whose first byte came alone.\<close>

definition complete_length :: "char \<Rightarrow> RxPacket \<Rightarrow> RxPacket" where
  "complete_length c p =
     (if is_len_received p then p
      else let l = ucast ((push_bit 8 (ucast (rx_len p)) OR char_int c) + 2 :: i32) :: u16
           in p\<lparr>rx_len := l, is_len_received := True, last_pkt_remaining_len := ucast (l - 1)\<rparr>)"

text \<open>A partial packet takes bytes of the data received at \<open>data_offset\<close>; the result is the packet and how many
  it took, with the flag that it is complete.\<close>

definition fill_partial :: "string \<Rightarrow> u16 \<Rightarrow> u16 \<Rightarrow> RxPacket \<Rightarrow> (bool \<times> u16 \<times> RxPacket) option" where
  "fill_partial data recv_pkt_len data_offset p0 = do {
     c \<leftarrow> (if is_len_received p0 then Some (CHR 0x00) else nth_opt data (unat data_offset));
     let p = complete_length c p0;
     let remaining = min (ucast (last_pkt_remaining_len p) :: u16) recv_pkt_len;
     let at = int (unat (rx_len p)) - sint (last_pkt_remaining_len p);
     _ \<leftarrow> guard (0 \<le> at);
     bytes \<leftarrow> read_bytes (unat remaining) (drop (unat data_offset) data);
     d \<leftarrow> write_bytes (nat at) bytes (rx_data p);
     let rest = (ucast (last_pkt_remaining_len p) - remaining :: u16);
     if rest = 0
     then Some (True, remaining, p\<lparr>rx_data := d, rx_partial := False, msg_count := 1, rx_offsets := (rx_offsets p)[0 := 0]\<rparr>)
     else Some (False, remaining, p\<lparr>rx_data := d, last_pkt_remaining_len := last_pkt_remaining_len p - ucast remaining\<rparr>) }"

partial_function (option) finish_pending :: "nat \<Rightarrow> nat \<Rightarrow> u16 \<Rightarrow> NetworkIO \<Rightarrow> (u16 \<times> NetworkIO) option" where
  "finish_pending i k data_offset io = (case pop_read i io of
     (None, io1) \<Rightarrow> Some (data_offset, io1)
   | (Some j, io1) \<Rightarrow>
       if rx_partial (packet_pool io1 j) then do {
         (complete, n, p) \<leftarrow> fill_partial (rx_data (packet_pool io1 k)) (rx_len (packet_pool io1 k)) data_offset (packet_pool io1 j);
         let io2 = upd_rxPkt j (\<lambda>_. p) io1;
         if complete then finish_pending i k (data_offset + n) (to_parser_or_read i j io2)
         else Some (data_offset, push_read i j io2) }
       else finish_pending i k data_offset (to_parser_or_read i j io1))"

text \<open>The rest of the data received, from \<open>data_offset\<close> on, is kept in a packet of its own.\<close>

definition keep_partial :: "nat \<Rightarrow> nat \<Rightarrow> nat \<Rightarrow> u16 \<Rightarrow> u16 \<Rightarrow> bool \<Rightarrow> NetworkIO \<Rightarrow> NetworkIO option" where
  "keep_partial i k recv_len data_offset pkt_len len_partial io = do {
     let src = packet_pool io k;
     (j, io2) \<leftarrow> (case spsc_pop Q1024 (free_pkt_list io) of
        (Some j, q) \<Rightarrow> Some (j, io\<lparr>free_pkt_list := q\<rparr>)
      | (None, q) \<Rightarrow> do {
          j \<leftarrow> partial_packet_pool io (unat (next_partialpkt io AND (of_nat PARTIAL_PACKET_POOL_CAPACITY - 1)));
          Some (j, upd_rxPkt j (\<lambda>p. p\<lparr>release_this_pkt := False\<rparr>)
            (io\<lparr>free_pkt_list := q, next_partialpkt := next_partialpkt io + 1\<rparr>)) });
     let n = recv_len - unat data_offset;
     bytes \<leftarrow> read_bytes n (drop (unat data_offset) (rx_data src));
     d \<leftarrow> write_bytes 0 bytes (rx_data (packet_pool io2 j));
     let p = (packet_pool io2 j)\<lparr>rx_data := d, rx_partial := True, rx_len := pkt_len,
        last_pkt_remaining_len := of_int (int (unat pkt_len) - int n), rx_protocol := rx_protocol src, rx_venue := rx_venue src\<rparr>;
     let p1 = (if len_partial then p\<lparr>is_len_received := False, last_pkt_remaining_len := 0\<rparr> else p);
     Some (push_read i j (upd_rxPkt j (\<lambda>_. p1) io2)) }"

partial_function (option) frame_packets ::
  "OS \<Rightarrow> (nat \<Rightarrow> u64) \<Rightarrow> nat \<Rightarrow> nat \<Rightarrow> nat \<Rightarrow> u16 \<Rightarrow> NetworkIO \<Rightarrow> (bool \<times> NetworkIO) option" where
  "frame_packets os clk i k recv_len data_offset io =
     (if unat data_offset < recv_len then do {
        let data = rx_data (packet_pool io k);
        let len_partial = (recv_len - unat data_offset = 1);
        pkt_len \<leftarrow> (if len_partial then map_option (\<lambda>c. ucast (char_int c)) (nth_opt data (unat data_offset))
                    else map_option (\<lambda>n. n + 2) (read_u16_be (drop (unat data_offset) data)));
        (if recv_len < unat pkt_len + unat data_offset \<or> len_partial
         then map_option (Pair False) (keep_partial i k recv_len data_offset pkt_len len_partial io)
         else do {
           (action, sm) \<leftarrow> pkt_handler (drop (unat data_offset) data) i (net_sessions io);
           let io1 = io\<lparr>net_sessions := sm\<rparr>;
           (case action of
              ToParser \<Rightarrow> do {
                p \<leftarrow> push_offset (unat data_offset) (packet_pool io1 k);
                frame_packets os clk i k recv_len (data_offset + pkt_len) (upd_rxPkt k (\<lambda>_. p) io1) }
            | SBT_Reconnect \<Rightarrow> map_option (\<lambda>(_, io2). (False, io2)) (reconnect os clk i io1)
            | SBT_Disconnect \<Rightarrow> map_option (Pair False) (closeSocket os i io1)
            | _ \<Rightarrow> Some (False, io1)) }) }
      else Some (True, io))"

definition SBTPacketHandler :: "OS \<Rightarrow> (nat \<Rightarrow> u64) \<Rightarrow> nat \<Rightarrow> nat \<Rightarrow> nat \<Rightarrow> NetworkIO \<Rightarrow> (bool \<times> NetworkIO) option" where
  "SBTPacketHandler os clk k recv_len i io = do {
     (data_offset, io1) \<leftarrow> finish_pending i k 0 io;
     if recv_len \<le> unat data_offset then Some (False, io1)
     else frame_packets os clk i k recv_len data_offset io1 }"

subsection \<open>The loop of the thread\<close>

partial_function (option) flush_read :: "nat \<Rightarrow> NetworkIO \<Rightarrow> NetworkIO option" where
  "flush_read i io = (case pop_read i io of
     (None, io1) \<Rightarrow> Some io1
   | (Some j, io1) \<Rightarrow>
       if rx_partial (packet_pool io1 j) then Some (push_read i j io1)
       else flush_read i (to_parser_or_read i j io1))"

text \<open>A packet the parser's queue has no room for waits; \<^verbatim>\<open>back()\<close> may read outside the ring.\<close>

definition hand_over :: "nat \<Rightarrow> nat \<Rightarrow> NetworkIO \<Rightarrow> NetworkIO option" where
  "hand_over i k io = (let (ok, io1) = to_parser k io in
     if ok then Some io1
     else do {
       let io2 = push_read i k io1;
       b \<leftarrow> cq_back (pending_read io2 i);
       Some (case b of
          None \<Rightarrow> io2
        | Some j \<Rightarrow> if rx_partial (packet_pool io2 j) then io2
                    else io2\<lparr>pending_read := (pending_read io2)(i := cq_swap_last_two (pending_read io2 i))\<rparr>) })"

text \<open>One packet is received for an event; only an interrupted call is repeated.\<close>

partial_function (option) receive :: "OS \<Rightarrow> (nat \<Rightarrow> u64) \<Rightarrow> int \<Rightarrow> u64 \<Rightarrow> nat \<Rightarrow> NetworkIO \<Rightarrow> NetworkIO option" where
  "receive os clk sock epoll_data i io = do {
     io1 \<leftarrow> flush_read i io;
     (case spsc_pop Q1024 (free_pkt_list io1) of
        (None, q) \<Rightarrow> Some (io1\<lparr>free_pkt_list := q\<rparr>)
      | (Some k, q) \<Rightarrow> do {
          let prot = unpack_protocol epoll_data;
          let io2 = upd_rxPkt k (\<lambda>p. p\<lparr>rx_protocol := prot, rx_venue := unpack_venue epoll_data\<rparr>) (io1\<lparr>free_pkt_list := q\<rparr>);
          let (r, io3) = syscall os (C_recv sock (length (rx_data (packet_pool io2 k)))) io2;
          d \<leftarrow> write_bytes 0 (res_bytes r) (rx_data (packet_pool io3 k));
          let io4 = upd_rxPkt k (\<lambda>p. p\<lparr>rx_data := d, rx_len := of_int (res_ret r)\<rparr>) io3;
          (if res_ret r < 0 then
             (if res_errno r = EAGAIN then Some (releasePacket k io4)
              else if res_errno r = EINTR then receive os clk sock epoll_data i io4
              else closeSocket os i io4)
           else if res_ret r = 0 then closeSocket os i io4
           else do {
             (try_push, io5) \<leftarrow> (if prot = OUCH then SBTPacketHandler os clk k (nat (res_ret r)) i io4 else Some (True, io4));
             (if try_push then hand_over i k io5 else Some io5) }) }) }"

partial_function (option) send_waiting :: "OS \<Rightarrow> int \<Rightarrow> nat \<Rightarrow> NetworkIO \<Rightarrow> NetworkIO option" where
  "send_waiting os sock i io =
     (if active_pkt (socket_states io i) \<noteq> None then Some io
      else case cq_pop (pending_write io i) of
        (None, q) \<Rightarrow> Some (io\<lparr>pending_write := (pending_write io)(i := q)\<rparr>)
      | (Some k, q) \<Rightarrow> do {
          io1 \<leftarrow> send os k sock i (io\<lparr>pending_write := (pending_write io)(i := q)\<rparr>);
          send_waiting os sock i io1 })"

text \<open>A socket that can be written again: the packet that was interrupted goes on, and must be there, then those
  that wait.\<close>

definition writable :: "OS \<Rightarrow> int \<Rightarrow> nat \<Rightarrow> NetworkIO \<Rightarrow> NetworkIO option" where
  "writable os sock i io = do {
     k \<leftarrow> active_pkt (socket_states io i);
     io1 \<leftarrow> send os k sock i io;
     io2 \<leftarrow> send_waiting os sock i io1;
     (if active_pkt (socket_states io2 i) = None
      then map_option (upd_socket i (\<lambda>st. st\<lparr>is_EPOLLOUT_set := False\<rparr>))
             (modEpoll os sock (ss_epoll_data (socket_states io2 i)) EPOLL_READ io2)
      else Some io2) }"

definition handle_event :: "OS \<Rightarrow> (nat \<Rightarrow> u64) \<Rightarrow> u64 \<times> u32 \<Rightarrow> NetworkIO \<Rightarrow> NetworkIO option" where
  "handle_event os clk ev io = do {
     let i = unpack_index (fst ev);
     _ \<leftarrow> guard (i < MAX_SESSIONS);
     let sock = socks io i;
     (if sock = -1 then Some io
      else if snd ev AND EPOLLOUT \<noteq> 0 \<and> connection_pending (socket_states io i) then handleEINPROGRESS os clk sock i io
      else do {
        io1 \<leftarrow> (if snd ev AND EPOLLOUT \<noteq> 0 then writable os sock i io else Some io);
        (if snd ev AND EPOLLIN \<noteq> 0 then receive os clk sock (fst ev) i io1 else Some io1) }) }"

primrec handle_events :: "OS \<Rightarrow> (nat \<Rightarrow> u64) \<Rightarrow> (u64 \<times> u32) list \<Rightarrow> NetworkIO \<Rightarrow> NetworkIO option" where
  "handle_events os clk [] io = Some io"
| "handle_events os clk (ev # evs) io = do { io1 \<leftarrow> handle_event os clk ev io; handle_events os clk evs io1 }"

partial_function (option) send_built :: "OS \<Rightarrow> NetworkIO \<Rightarrow> NetworkIO option" where
  "send_built os io = (case spsc_pop Q1024 (net_to_send io) of
     (None, q) \<Rightarrow> Some (io\<lparr>net_to_send := q\<rparr>)
   | (Some k, q) \<Rightarrow> do { io1 \<leftarrow> trySend os k (io\<lparr>net_to_send := q\<rparr>); send_built os io1 })"

text \<open>\<^verbatim>\<open>recv_send\<close>: \<open>running\<close> is the flag of the engine, and \<open>evs\<close> are the events that the \<open>n\<close>-th call of the system,
  one of \<^verbatim>\<open>epoll_wait\<close>, delivers, ten at most.\<close>

partial_function (option) recv_send ::
  "(nat \<Rightarrow> bool) \<Rightarrow> OS \<Rightarrow> (nat \<Rightarrow> (u64 \<times> u32) list) \<Rightarrow> (nat \<Rightarrow> u64) \<Rightarrow> NetworkIO \<Rightarrow> NetworkIO option" where
  "recv_send running os evs clk io =
     (if running (length (net_calls io)) then do {
        io1 \<leftarrow> send_built os io;
        let n = length (net_calls io1);
        let (r, io2) = syscall os C_epoll_wait io1;
        (if res_ret r < 0 then recv_send running os evs clk io2
         else do {
           io3 \<leftarrow> handle_events os clk (take (nat (res_ret r)) (evs n)) io2;
           recv_send running os evs clk io3 }) }
      else Some io)"

subsection \<open>Sockets\<close>

text \<open>Sockets are only ever given up: no operation but the constructor enters one.\<close>

definition socks_lost :: "NetworkIO \<Rightarrow> NetworkIO \<Rightarrow> bool" where
  "socks_lost io io' \<longleftrightarrow> (\<forall>j. socks io' j = socks io j \<or> socks io' j = -1)"

lemma socks_lost_trans: "socks_lost io io1 \<Longrightarrow> socks_lost io1 io2 \<Longrightarrow> socks_lost io io2"
  unfolding socks_lost_def by metis

lemma socks_lost_same: "socks io' = socks io \<Longrightarrow> socks_lost io io'"
  by (simp add: socks_lost_def)

lemma socks_lost_eq: "socks io1 = socks io \<Longrightarrow> socks_lost io io2 = socks_lost io1 io2"
  by (simp add: socks_lost_def)

lemma socks_upd [simp]:
  "socks (snd (syscall os c io)) = socks io" "socks (upd_socket i f io) = socks io" "socks (upd_txPkt k g io) = socks io"
  "socks (io\<lparr>net_sessions := sm\<rparr>) = socks io"
  by (simp_all add: syscall_def upd_socket_def upd_txPkt_def Let_def)

lemma repeat_call_socks: "repeat_call os c io = Some y \<Longrightarrow> socks (snd y) = socks io"
  by (erule repeat_call.raw_induct [rotated]) (auto simp: syscall_def split: if_splits)

lemma createSocket_socks: "createSocket os prot io = Some y \<Longrightarrow> socks (snd y) = socks io"
  by (erule createSocket.raw_induct [rotated]) (auto simp: syscall_def Let_def split: if_splits)

lemma addEpoll_socks: "addEpoll os sock e f io = Some io' \<Longrightarrow> socks io' = socks io"
  by (auto simp: addEpoll_def dest: repeat_call_socks split: if_splits)

lemma modEpoll_socks: "modEpoll os sock e f io = Some io' \<Longrightarrow> socks io' = socks io"
  by (auto simp: modEpoll_def dest: repeat_call_socks)

lemma makeSocketNonBlocking_socks: "makeSocketNonBlocking os sock io = Some io' \<Longrightarrow> socks io' = socks io"
  by (auto simp: makeSocketNonBlocking_def dest!: repeat_call_socks split: bind_splits)

lemma closeSocket_lost: "closeSocket os i io = Some io' \<Longrightarrow> socks_lost io io' \<and> socks io' i = -1"
  by (auto simp: closeSocket_def syscall_def socks_lost_def Let_def split: if_splits bind_splits)

lemma send_lost: "send os k sock i io = Some io' \<Longrightarrow> socks_lost io io'"
  unfolding socks_lost_def
  by (erule send.raw_induct [rotated])
    (fastforce simp: syscall_def Let_def socks_lost_def dest: closeSocket_lost modEpoll_socks split: if_splits bind_splits)

lemma login_connected_lost: "login_connected os clk sock i io = Some (b, io') \<Longrightarrow> socks_lost io io'"
  unfolding socks_lost_def
  by (auto simp: login_connected_def net_clock_def Let_def get_txPkt_def socks_lost_def dest!: closeSocket_lost send_lost
      split: bind_splits LoginDecision.splits prod.splits)

lemma handle_errno_socks: "handle_errno e io = Some (b, io') \<Longrightarrow> socks io' = socks io"
  by (auto simp: handle_errno_def)

lemma setup_dests:
  "closeSocket os i io = Some io' \<Longrightarrow> (\<forall>j. socks io' j = socks io j \<or> socks io' j = -1) \<and> socks io' i = -1"
  "login_connected os clk sock i io = Some (b, io') \<Longrightarrow> \<forall>j. socks io' j = socks io j \<or> socks io' j = -1"
  "createSocket os prot io = Some (s, io') \<Longrightarrow> socks io' = socks io"
  using closeSocket_lost login_connected_lost createSocket_socks by (auto simp: socks_lost_def)

lemma setupSocket_lost:
  assumes "setupSocket os clk sock cx io = Some y"
  shows "\<forall>j. socks (snd y) j = socks io j \<or> socks (snd y) j = -1"
  using assms
proof (rule setupSocket.raw_induct [rotated], goal_cases)
  case (1 f os clk sock cx io y)
  note d = setup_dests handle_errno_socks makeSocketNonBlocking_socks addEpoll_socks
  show ?case
    using 1(2) by (auto simp: Let_def syscall_def split: if_splits bind_splits dest!: d 1(1)) metis+
qed

text \<open>\<^verbatim>\<open>reconnect\<close> sets up a new socket but does not enter it: the session is left without one, and every event of the
  new socket is ignored.\<close>

lemma reconnect_loses_socket:
  assumes "reconnect os clk i io = Some (sock, io')"
  shows "socks io' i = -1"
  using assms
  by (auto simp: reconnect_def split: bind_splits dest!: setup_dests(1,3) setupSocket_lost) (metis snd_conv)

lemma event_without_socket:
  "unpack_index d < MAX_SESSIONS \<Longrightarrow> socks io (unpack_index d) = -1 \<Longrightarrow> handle_event os clk (d, f) io = Some io"
  by (simp add: handle_event_def)

end
