(* ===== verification/Network_Send.thy ===== *)
theory Network_Send
  imports Network_IO
begin

text \<open>
  What the network thread of \<open>Network_IO\<close> sends: the bytes of the packets of a socket, in their order, whatever the
  operating system takes at a time.
\<close>

subsection \<open>Bytes on the line\<close>

text \<open>The bytes of the socket's stream that the system has taken so far.\<close>

definition taken :: "OS \<Rightarrow> int \<Rightarrow> nat \<Rightarrow> SysCall \<Rightarrow> string" where
  "taken os sock n c = (case c of C_send s b \<Rightarrow> if s = sock then take (nat (res_ret (os n c))) b else [] | _ \<Rightarrow> [])"

definition accepted :: "OS \<Rightarrow> int \<Rightarrow> NetworkIO \<Rightarrow> string" where
  "accepted os sock io = concat (map (\<lambda>n. taken os sock n (net_calls io ! n)) [0..<length (net_calls io)])"

lemma accepted_syscall [simp]:
  "accepted os sock (io\<lparr>net_calls := net_calls io @ [c]\<rparr>) = accepted os sock io @ taken os sock (length (net_calls io)) c"
  by (auto simp: accepted_def nth_append intro!: arg_cong [of _ _ concat])

lemma accepted_frame [simp]:
  "accepted os sock (upd_socket i f io) = accepted os sock io" "accepted os sock (upd_txPkt k g io) = accepted os sock io"
  "accepted os sock (io\<lparr>pipeline_seq := n\<rparr>) = accepted os sock io" "accepted os sock (io\<lparr>pending_write := w\<rparr>) = accepted os sock io"
  by (simp_all add: accepted_def upd_socket_def upd_txPkt_def Let_def)

text \<open>What is known of the system: it takes at most the bytes it is given, and a call is not interrupted for ever.\<close>

definition kernel :: "OS \<Rightarrow> int \<Rightarrow> bool" where
  "kernel os sock \<longleftrightarrow>
     (\<forall>n b. res_ret (os n (C_send sock b)) \<le> int (length b))
     \<and> (\<forall>n. \<exists>m \<ge> n. \<forall>b. b \<noteq> [] \<longrightarrow> res_ret (os m (C_send sock b)) \<noteq> 0
           \<and> (res_ret (os m (C_send sock b)) < 0 \<longrightarrow> res_errno (os m (C_send sock b)) \<noteq> EINTR))
     \<and> (\<forall>n e f. \<exists>m \<ge> n. res_ret (os m (C_epoll_mod sock e f)) \<noteq> -1)"

lemma repeat_call_returns:
  assumes "\<exists>m \<ge> length (net_calls io). res_ret (os m c) \<noteq> -1"
  shows "\<exists>r cs. repeat_call os c io = Some (r, io\<lparr>net_calls := net_calls io @ cs\<rparr>) \<and> set cs \<subseteq> {c}"
proof -
  from assms obtain m where m: "length (net_calls io) \<le> m" "res_ret (os m c) \<noteq> -1" by blast
  then show ?thesis
  proof (induction "m - length (net_calls io)" arbitrary: io)
    case 0
    then have "length (net_calls io) = m" by simp
    then show ?case using 0(3)
      by (subst repeat_call.simps) (auto simp: syscall_def intro!: exI [of _ "[c]"])
  next
    case (Suc d)
    show ?case
    proof (cases "res_ret (os (length (net_calls io)) c) = -1")
      case True
      let ?io = "io\<lparr>net_calls := net_calls io @ [c]\<rparr>"
      have "\<exists>r cs. repeat_call os c ?io = Some (r, ?io\<lparr>net_calls := net_calls ?io @ cs\<rparr>) \<and> set cs \<subseteq> {c}"
        by (rule Suc.hyps(1)) (use Suc.hyps(2) Suc.prems in auto)
      then obtain r cs where "repeat_call os c ?io = Some (r, ?io\<lparr>net_calls := net_calls ?io @ cs\<rparr>)" "set cs \<subseteq> {c}" by blast
      then show ?thesis using True
        by (subst repeat_call.simps) (auto simp: syscall_def intro!: exI [of _ "c # cs"])
    next
      case False
      then show ?thesis by (subst repeat_call.simps) (auto simp: syscall_def intro!: exI [of _ "[c]"])
    qed
  qed
qed

lemma accepted_other:
  assumes "\<forall>c \<in> set cs. \<forall>n. taken os sock n c = []"
  shows "accepted os sock (io\<lparr>net_calls := net_calls io @ cs\<rparr>) = accepted os sock io"
  using assms
proof (induction cs rule: rev_induct)
  case (snoc c cs)
  then show ?case using accepted_syscall [of os sock "io\<lparr>net_calls := net_calls io @ cs\<rparr>" c] by simp
qed simp

lemma modEpoll_returns:
  assumes "kernel os sock"
  obtains cs where "modEpoll os sock e f io = Some (io\<lparr>net_calls := net_calls io @ cs\<rparr>)"
    "\<And>s. accepted os s (io\<lparr>net_calls := net_calls io @ cs\<rparr>) = accepted os s io"
proof -
  have "\<exists>m \<ge> length (net_calls io). res_ret (os m (C_epoll_mod sock e f)) \<noteq> -1" using assms by (simp add: kernel_def)
  from repeat_call_returns [where os = os and c = "C_epoll_mod sock e f" and io = io, OF this] obtain r cs where
    "repeat_call os (C_epoll_mod sock e f) io = Some (r, io\<lparr>net_calls := net_calls io @ cs\<rparr>)" "set cs \<subseteq> {C_epoll_mod sock e f}"
    by blast
  moreover from this(2) have "\<forall>c \<in> set cs. \<forall>n. taken os s n c = []" for s by (auto simp: taken_def)
  ultimately show thesis using that accepted_other by (simp add: modEpoll_def)
qed

text \<open>A packet that can be sent, and what sending it leaves: the bytes taken and those still to be sent are the
  bytes there were; either all are sent, or the packet waits for the socket, or the socket has been closed.\<close>

definition sendable :: "nat \<Rightarrow> NetworkIO \<Rightarrow> bool" where
  "sendable k io \<longleftrightarrow> (let p = tx_pool (net_txPkts io) k in unat (tx_len p) \<le> length (tx_data p) \<and> tx_offset p \<le> tx_len p)"

abbreviation pkt_bytes :: "nat \<Rightarrow> NetworkIO \<Rightarrow> string" where
  "pkt_bytes k io \<equiv> tx_bytes (tx_pool (net_txPkts io) k)"

definition send_outcome :: "OS \<Rightarrow> nat \<Rightarrow> int \<Rightarrow> nat \<Rightarrow> NetworkIO \<Rightarrow> NetworkIO \<Rightarrow> bool" where
  "send_outcome os k sock i io io' \<longleftrightarrow>
     accepted os sock io' @ pkt_bytes k io' = accepted os sock io @ pkt_bytes k io
     \<and> sendable k io' \<and> (\<forall>j. j \<noteq> k \<longrightarrow> tx_pool (net_txPkts io') j = tx_pool (net_txPkts io) j)
     \<and> (socks io' i = -1 \<and> (socks io i \<noteq> -1 \<longrightarrow> active_pkt (socket_states io' i) = None \<and> pending_write io' i = cq_clear (pending_write io i))
        \<or> socks io' = socks io \<and> pending_write io' = pending_write io \<and> net_sessions io' = net_sessions io
          \<and> connection_pending (socket_states io' i) = connection_pending (socket_states io i)
          \<and> (pkt_bytes k io' = [] \<and> active_pkt (socket_states io' i) = None
             \<or> active_pkt (socket_states io' i) = Some k \<and> is_EPOLLOUT_set (socket_states io' i)))"

lemma closeSocket_returns:
  assumes "i < length (session_states (net_sessions io))"
  obtains io' where "closeSocket os i io = Some io'" "socks io' i = -1" "net_txPkts io' = net_txPkts io"
    "\<And>s. accepted os s io' = accepted os s io"
    "socks io i \<noteq> -1 \<Longrightarrow> active_pkt (socket_states io' i) = None \<and> pending_write io' i = cq_clear (pending_write io i)"
proof (cases "socks io i = -1")
  case True
  then show thesis using that [of io] by (simp add: closeSocket_def)
next
  case False
  obtain sm where sm: "ResetState i (net_sessions io) = Some sm"
    using assms by (simp add: ResetState_def upd_session_def getSessionState_def nth_opt_def)
  let ?cs = "[C_epoll_del (socks io i), C_close (socks io i)]"
  have "accepted os s (io\<lparr>net_calls := net_calls io @ ?cs\<rparr>) = accepted os s io" for s
    by (rule accepted_other) (simp add: taken_def)
  then have "accepted os s (io\<lparr>net_calls := net_calls io @ ?cs, net_sessions := sm, socket_states := x, pending_write := y, socks := z\<rparr>) = accepted os s io" for s x y z
    by (simp add: accepted_def)
  then show thesis using that False sm by (simp add: closeSocket_def syscall_def Let_def new_SocketState_def)
qed

lemma send_step_bytes:
  assumes "sendable k io" "p = tx_pool (net_txPkts io) k" "0 < n" "n \<le> int (length (tx_bytes p))"
  defines "io' \<equiv> upd_txPkt k (\<lambda>p. p\<lparr>tx_offset := tx_offset p + of_int n\<rparr>) io"
  shows "sendable k io'" "pkt_bytes k io' = drop (nat n) (tx_bytes p)"
proof -
  have l: "unat (tx_len p) \<le> length (tx_data p)" "unat (tx_offset p) \<le> unat (tx_len p)"
    using assms(1,2) by (simp_all add: sendable_def Let_def word_le_nat_alt)
  then have len: "length (tx_bytes p) = unat (tx_len p) - unat (tx_offset p)" by (simp add: tx_bytes_def)
  have b: "nat n \<le> unat (tx_len p) - unat (tx_offset p)" using assms(4) len by linarith
  have "unat (of_int n :: u16) = nat n"
  proof -
    have "nat n < 2 ^ 16" using b unsigned_less [of "tx_len p", where 'a = nat] by simp
    moreover have "(of_int n :: u16) = of_nat (nat n)" using assms(3) by simp
    ultimately show ?thesis by (simp only: unat_of_nat) (simp add: take_bit_nat_eq_self)
  qed
  then have off: "unat (tx_offset p + of_int n) = unat (tx_offset p) + nat n"
    using b l unsigned_less [of "tx_len p", where 'a = nat] by (simp add: unat_word_ariths(1))
  then show "sendable k io'" using l b by (simp add: sendable_def io'_def upd_txPkt_def Let_def assms(2) [symmetric] word_le_nat_alt)
  show "pkt_bytes k io' = drop (nat n) (tx_bytes p)"
    using off by (simp add: io'_def upd_txPkt_def Let_def assms(2) [symmetric] tx_bytes_def add.commute)
qed

lemma sendable_bytes:
  assumes "sendable k io" "p = tx_pool (net_txPkts io) k"
  shows "read_bytes (unat (tx_len p - tx_offset p)) (drop (unat (tx_offset p)) (tx_data p)) = Some (tx_bytes p)"
    "tx_bytes p = [] \<longleftrightarrow> \<not> tx_offset p < tx_len p"
proof -
  have l: "unat (tx_len p) \<le> length (tx_data p)" "tx_offset p \<le> tx_len p" using assms by (simp_all add: sendable_def Let_def)
  have "unat (tx_len p - tx_offset p) = unat (tx_len p) - unat (tx_offset p)" using l(2) by (rule unat_sub)
  moreover have "unat (tx_offset p) \<le> unat (tx_len p)" using l(2) by (simp add: word_le_nat_alt)
  ultimately show "read_bytes (unat (tx_len p - tx_offset p)) (drop (unat (tx_offset p)) (tx_data p)) = Some (tx_bytes p)"
    using l(1) by (simp add: read_bytes_def tx_bytes_def drop_take)
  show "tx_bytes p = [] \<longleftrightarrow> \<not> tx_offset p < tx_len p" using l(1) by (auto simp: tx_bytes_def word_less_nat_alt)
qed

definition after_send :: "int \<Rightarrow> nat \<Rightarrow> NetworkIO \<Rightarrow> NetworkIO" where
  "after_send sock k io = io\<lparr>net_calls := net_calls io @ [C_send sock (pkt_bytes k io)]\<rparr>"

lemma send_step:
  assumes "sendable k io" "r = os (length (net_calls io)) (C_send sock (pkt_bytes k io))"
  shows "pkt_bytes k io = [] \<Longrightarrow> send os k sock i io
      = Some (upd_socket i (\<lambda>st. st\<lparr>active_pkt := None\<rparr>) (io\<lparr>pipeline_seq := pipeline_seq io + 1\<rparr>))"
    "pkt_bytes k io \<noteq> [] \<Longrightarrow> 0 < res_ret r \<Longrightarrow> send os k sock i io
      = send os k sock i (upd_txPkt k (\<lambda>p. p\<lparr>tx_offset := tx_offset p + of_int (res_ret r)\<rparr>) (after_send sock k io))"
    "pkt_bytes k io \<noteq> [] \<Longrightarrow> res_ret r = 0 \<or> res_ret r < 0 \<and> res_errno r = EINTR \<Longrightarrow> send os k sock i io
      = send os k sock i (after_send sock k io)"
    "pkt_bytes k io \<noteq> [] \<Longrightarrow> res_ret r < 0 \<Longrightarrow> res_errno r = EAGAIN \<Longrightarrow> is_EPOLLOUT_set (socket_states io i) \<Longrightarrow>
      send os k sock i io = Some (upd_socket i (\<lambda>st. st\<lparr>active_pkt := Some k\<rparr>) (after_send sock k io))"
    "pkt_bytes k io \<noteq> [] \<Longrightarrow> res_ret r < 0 \<Longrightarrow> res_errno r = EAGAIN \<Longrightarrow> \<not> is_EPOLLOUT_set (socket_states io i) \<Longrightarrow>
      send os k sock i io = map_option (\<lambda>io2. upd_socket i (\<lambda>st. st\<lparr>active_pkt := Some k\<rparr>) (upd_socket i (\<lambda>st. st\<lparr>is_EPOLLOUT_set := True\<rparr>) io2))
        (modEpoll os sock (ss_epoll_data (socket_states io i)) EPOLL_WRITE (after_send sock k io))"
    "pkt_bytes k io \<noteq> [] \<Longrightarrow> res_ret r < 0 \<Longrightarrow> res_errno r \<noteq> EAGAIN \<Longrightarrow> res_errno r \<noteq> EINTR \<Longrightarrow>
      send os k sock i io = closeSocket os i (after_send sock k io)"
proof -
  note b = sendable_bytes [OF assms(1) refl]
  have e: "EINTR \<noteq> EAGAIN" "EAGAIN \<noteq> EINTR" by (simp_all add: EINTR_def EAGAIN_def)
  show "pkt_bytes k io = [] \<Longrightarrow> send os k sock i io
      = Some (upd_socket i (\<lambda>st. st\<lparr>active_pkt := None\<rparr>) (io\<lparr>pipeline_seq := pipeline_seq io + 1\<rparr>))"
    using b(2) by (subst send.simps) (simp add: Let_def)
  assume "pkt_bytes k io \<noteq> []"
  then have lt: "tx_offset (tx_pool (net_txPkts io) k) < tx_len (tx_pool (net_txPkts io) k)" using b(2) by simp
  note u = send.simps [of os k sock i io] b(1) lt syscall_def after_send_def assms(2) e Let_def
  show "0 < res_ret r \<Longrightarrow> send os k sock i io
      = send os k sock i (upd_txPkt k (\<lambda>p. p\<lparr>tx_offset := tx_offset p + of_int (res_ret r)\<rparr>) (after_send sock k io))"
    by (simp add: u)
  show "res_ret r = 0 \<or> res_ret r < 0 \<and> res_errno r = EINTR \<Longrightarrow> send os k sock i io = send os k sock i (after_send sock k io)"
    by (auto simp add: u)
  show "res_ret r < 0 \<Longrightarrow> res_errno r = EAGAIN \<Longrightarrow> is_EPOLLOUT_set (socket_states io i) \<Longrightarrow>
      send os k sock i io = Some (upd_socket i (\<lambda>st. st\<lparr>active_pkt := Some k\<rparr>) (after_send sock k io))"
    by (simp add: u)
  show "res_ret r < 0 \<Longrightarrow> res_errno r = EAGAIN \<Longrightarrow> \<not> is_EPOLLOUT_set (socket_states io i) \<Longrightarrow>
      send os k sock i io = map_option (\<lambda>io2. upd_socket i (\<lambda>st. st\<lparr>active_pkt := Some k\<rparr>) (upd_socket i (\<lambda>st. st\<lparr>is_EPOLLOUT_set := True\<rparr>) io2))
        (modEpoll os sock (ss_epoll_data (socket_states io i)) EPOLL_WRITE (after_send sock k io))"
    by (simp add: u map_option_case split: option.splits)
  show "res_ret r < 0 \<Longrightarrow> res_errno r \<noteq> EAGAIN \<Longrightarrow> res_errno r \<noteq> EINTR \<Longrightarrow>
      send os k sock i io = closeSocket os i (after_send sock k io)"
    by (simp add: u)
qed

lemma after_send_frame [simp]:
  "net_txPkts (after_send sock k io) = net_txPkts io" "socks (after_send sock k io) = socks io"
  "socket_states (after_send sock k io) = socket_states io" "pending_write (after_send sock k io) = pending_write io"
  "net_sessions (after_send sock k io) = net_sessions io" "sendable j (after_send sock k io) = sendable j io"
  "accepted os sock (after_send sock k io) = accepted os sock io @ take (nat (res_ret (os (length (net_calls io)) (C_send sock (pkt_bytes k io))))) (pkt_bytes k io)"
  by (simp_all add: after_send_def sendable_def taken_def)

lemma upd_frame [simp]:
  "net_txPkts (upd_socket i f io) = net_txPkts io" "socks (upd_socket i f io) = socks io"
  "pending_write (upd_socket i f io) = pending_write io" "net_sessions (upd_socket i f io) = net_sessions io"
  "socket_states (upd_socket i f io) i = f (socket_states io i)" "net_calls (upd_socket i f io) = net_calls io"
  "socks (upd_txPkt k g io) = socks io" "socket_states (upd_txPkt k g io) = socket_states io"
  "pending_write (upd_txPkt k g io) = pending_write io" "net_sessions (upd_txPkt k g io) = net_sessions io"
  "j \<noteq> k \<Longrightarrow> tx_pool (net_txPkts (upd_txPkt k g io)) j = tx_pool (net_txPkts io) j"
  "sendable j (upd_socket i f io) = sendable j io"
  by (simp_all add: upd_socket_def upd_txPkt_def Let_def sendable_def)

text \<open>A step that repeats the call, with or without progress.\<close>

lemma send_outcome_step:
  assumes "send_outcome os k sock i io1 io'" "accepted os sock io1 @ pkt_bytes k io1 = accepted os sock io @ pkt_bytes k io"
    and "socks io1 = socks io" "socket_states io1 = socket_states io" "pending_write io1 = pending_write io" "net_sessions io1 = net_sessions io"
    and "\<forall>j. j \<noteq> k \<longrightarrow> tx_pool (net_txPkts io1) j = tx_pool (net_txPkts io) j"
  shows "send_outcome os k sock i io io'"
  using assms by (auto simp: send_outcome_def)

lemma send_finishes:
  assumes "kernel os sock" "sendable k io" "i < length (session_states (net_sessions io))" "r = os (length (net_calls io)) (C_send sock (pkt_bytes k io))"
    and "pkt_bytes k io = [] \<or> res_ret r < 0 \<and> res_errno r \<noteq> EINTR"
  shows "\<exists>io'. send os k sock i io = Some io' \<and> send_outcome os k sock i io io'"
proof (cases "pkt_bytes k io = []")
  case True
  then show ?thesis using send_step(1) [where os = os and sock = sock and i = i, OF assms(2,4)] assms(2) by (auto simp: send_outcome_def sendable_def)
next
  case False
  with assms(5) have r: "res_ret r < 0" "res_errno r \<noteq> EINTR" by simp_all
  have take0: "accepted os sock (after_send sock k io) = accepted os sock io" using r(1) assms(4) by simp
  show ?thesis
  proof (cases "res_errno r = EAGAIN")
    case True
    show ?thesis
    proof (cases "is_EPOLLOUT_set (socket_states io i)")
      case set: True
      then show ?thesis using send_step(4) [where os = os and sock = sock and i = i, OF assms(2,4) False r(1) True] take0 assms(2) by (auto simp: send_outcome_def)
    next
      case unset: False
      let ?io = "after_send sock k io"
      obtain cs where cs: "modEpoll os sock (ss_epoll_data (socket_states io i)) EPOLL_WRITE ?io = Some (?io\<lparr>net_calls := net_calls ?io @ cs\<rparr>)"
        "\<And>s. accepted os s (?io\<lparr>net_calls := net_calls ?io @ cs\<rparr>) = accepted os s ?io"
        by (rule modEpoll_returns [OF assms(1), of "ss_epoll_data (socket_states io i)" EPOLL_WRITE ?io]) blast
      have "sendable k (?io\<lparr>net_calls := net_calls ?io @ cs\<rparr>)" using assms(2) by (simp add: sendable_def)
      then show ?thesis using send_step(5) [where os = os and sock = sock and i = i, OF assms(2,4) False r(1) True unset] cs take0
        by (auto simp: send_outcome_def)
    qed
  next
    case fatal: False
    obtain io' where "closeSocket os i (after_send sock k io) = Some io'" "socks io' i = -1" "net_txPkts io' = net_txPkts (after_send sock k io)"
      "\<And>s. accepted os s io' = accepted os s (after_send sock k io)"
      "socks io i \<noteq> -1 \<Longrightarrow> active_pkt (socket_states io' i) = None \<and> pending_write io' i = cq_clear (pending_write io i)"
      by (rule closeSocket_returns [of i "after_send sock k io" os]) (use assms(3) in auto)
    then show ?thesis using send_step(6) [where os = os and sock = sock and i = i, OF assms(2,4) False r(1) fatal r(2)] take0 assms(2)
      by (auto simp: send_outcome_def sendable_def)
  qed
qed

lemma send_progress:
  assumes "kernel os sock" "sendable k io" "pkt_bytes k io \<noteq> []" "r = os (length (net_calls io)) (C_send sock (pkt_bytes k io))" "0 < res_ret r"
  defines "io1 \<equiv> upd_txPkt k (\<lambda>p. p\<lparr>tx_offset := tx_offset p + of_int (res_ret r)\<rparr>) (after_send sock k io)"
  shows "send os k sock i io = send os k sock i io1" "sendable k io1" "length (pkt_bytes k io1) < length (pkt_bytes k io)"
    "send_outcome os k sock i io1 io' \<Longrightarrow> send_outcome os k sock i io io'" "net_sessions io1 = net_sessions io"
proof -
  have le: "res_ret r \<le> int (length (pkt_bytes k io))" using assms(1,4) by (simp add: kernel_def)
  have n: "sendable k io1" "pkt_bytes k io1 = drop (nat (res_ret r)) (pkt_bytes k io)"
    using send_step_bytes [of k "after_send sock k io" _ "res_ret r"] assms(2,5) le by (simp_all add: io1_def)
  then show "sendable k io1" "length (pkt_bytes k io1) < length (pkt_bytes k io)" using assms(3,5) by auto
  show "send os k sock i io = send os k sock i io1" unfolding io1_def by (rule send_step(2) [where os = os and sock = sock and i = i, OF assms(2,4,3,5)])
  have acc: "accepted os sock io1 @ pkt_bytes k io1 = accepted os sock io @ pkt_bytes k io"
    using n(2) assms(4) by (simp add: io1_def)
  show "send_outcome os k sock i io1 io' \<Longrightarrow> send_outcome os k sock i io io'"
    by (rule send_outcome_step [OF _ acc]) (simp_all add: io1_def)
  show "net_sessions io1 = net_sessions io" by (simp add: io1_def)
qed

lemma send_returns:
  assumes k: "kernel os sock" and "sendable k io" "i < length (session_states (net_sessions io))"
  shows "\<exists>io'. send os k sock i io = Some io' \<and> send_outcome os k sock i io io'"
  using assms(2,3)
proof (induction "length (pkt_bytes k io)" arbitrary: io rule: less_induct)
  case (less io)
  obtain m where m: "length (net_calls io) \<le> m"
    "\<And>b. b \<noteq> [] \<Longrightarrow> res_ret (os m (C_send sock b)) \<noteq> 0 \<and> (res_ret (os m (C_send sock b)) < 0 \<longrightarrow> res_errno (os m (C_send sock b)) \<noteq> EINTR)"
    using k unfolding kernel_def by meson
  show ?case using m(1) less
  proof (induction "m - length (net_calls io)" arbitrary: io)
    case (0 io)
    let ?r = "os (length (net_calls io)) (C_send sock (pkt_bytes k io))"
    show ?case
    proof (cases "pkt_bytes k io = [] \<or> res_ret ?r < 0")
      case True
      have "length (net_calls io) = m" using 0(1,2) by simp
      with True m(2) have "pkt_bytes k io = [] \<or> res_ret ?r < 0 \<and> res_errno ?r \<noteq> EINTR" by blast
      then show ?thesis by (rule send_finishes [OF k 0(4,5) refl])
    next
      case False
      moreover have "length (net_calls io) = m" using 0(1,2) by simp
      ultimately have r: "pkt_bytes k io \<noteq> []" "0 < res_ret ?r" using m(2) [of "pkt_bytes k io"] by auto
      note p = send_progress [where os = os, OF k 0(4) r(1) refl r(2)]
      show ?thesis using 0(3) [OF p(3,2)] 0(5) p(1) [of i] p(4) [of i] p(5) by auto
    qed
  next
    case (Suc d io)
    let ?r = "os (length (net_calls io)) (C_send sock (pkt_bytes k io))"
    consider "pkt_bytes k io = [] \<or> res_ret ?r < 0 \<and> res_errno ?r \<noteq> EINTR" | "pkt_bytes k io \<noteq> []" "0 < res_ret ?r"
      | "pkt_bytes k io \<noteq> []" "res_ret ?r = 0 \<or> res_ret ?r < 0 \<and> res_errno ?r = EINTR" by linarith
    then show ?case
    proof cases
      case 1
      then show ?thesis by (rule send_finishes [OF k Suc(5,6) refl])
    next
      case r: 2
      note p = send_progress [where os = os, OF k Suc(5) r(1) refl r(2)]
      show ?thesis using Suc(4) [OF p(3,2)] Suc(6) p(1) [of i] p(4) [of i] p(5) by auto
    next
      case r: 3
      let ?io = "after_send sock k io"
      have eq: "send os k sock i io = send os k sock i ?io" by (rule send_step(3) [where os = os and sock = sock and i = i, OF Suc(5) refl r])
      have "\<exists>io'. send os k sock i ?io = Some io' \<and> send_outcome os k sock i ?io io'"
        by (rule Suc(1)) (use Suc(2-6) in \<open>auto simp: after_send_def sendable_def\<close>)
      moreover have "send_outcome os k sock i ?io io' \<Longrightarrow> send_outcome os k sock i io io'" for io'
        by (rule send_outcome_step [where ?io1.0 = ?io]) (use r in auto)
      ultimately show ?thesis using eq by auto
    qed
  qed
qed

subsection \<open>Packets in a line\<close>

text \<open>The packets of a socket that are not sent completely, and its stream of bytes: those taken and those of the
  packets that wait.\<close>

definition waiting :: "nat \<Rightarrow> NetworkIO \<Rightarrow> nat list" where
  "waiting i io = (case active_pkt (socket_states io i) of None \<Rightarrow> [] | Some k \<Rightarrow> [k]) @ cq_rep (pending_write io i)"

definition line :: "OS \<Rightarrow> nat \<Rightarrow> NetworkIO \<Rightarrow> string" where
  "line os i io = accepted os (socks io i) io @ concat (map (\<lambda>k. pkt_bytes k io) (waiting i io))"

definition line_ok :: "nat \<Rightarrow> NetworkIO \<Rightarrow> bool" where
  "line_ok i io \<longleftrightarrow> cq_wf 8 (pending_write io i) \<and> distinct (waiting i io) \<and> (\<forall>k \<in> set (waiting i io). sendable k io)
     \<and> \<not> connection_pending (socket_states io i) \<and> i < length (session_states (net_sessions io)) \<and> socks io i \<noteq> -1"

lemma cq_clear_rep: "cq_wf k q \<Longrightarrow> cq_wf k (cq_clear q)" "cq_rep (cq_clear q) = []"
  by (simp_all add: cq_clear_def cq_wf_def cq_rep_def ring_len_def Let_def)

text \<open>Sending a packet that is not waiting puts its bytes in front of those that wait.\<close>

lemma send_line:
  assumes "kernel os (socks io i)" "line_ok i io" "active_pkt (socket_states io i) = None \<or> active_pkt (socket_states io i) = Some k"
    and "sendable k io" "k \<notin> set (cq_rep (pending_write io i))"
  shows "\<exists>io'. send os k (socks io i) i io = Some io' \<and>
    (socks io' i = -1 \<and> active_pkt (socket_states io' i) = None \<and> cq_rep (pending_write io' i) = [] \<and> cq_wf 8 (pending_write io' i)
     \<or> line_ok i io' \<and> socks io' = socks io \<and> net_sessions io' = net_sessions io \<and> pending_write io' = pending_write io \<and> (active_pkt (socket_states io' i) = None \<or> active_pkt (socket_states io' i) = Some k)
       \<and> (\<forall>j. j \<noteq> k \<longrightarrow> tx_pool (net_txPkts io') j = tx_pool (net_txPkts io) j)
       \<and> line os i io' = accepted os (socks io i) io @ pkt_bytes k io @ concat (map (\<lambda>k. pkt_bytes k io) (cq_rep (pending_write io i))))"
proof -
  have wf: "cq_wf 8 (pending_write io i)" "i < length (session_states (net_sessions io))" "socks io i \<noteq> -1"
    using assms(2) by (simp_all add: line_ok_def)
  obtain io' where io': "send os k (socks io i) i io = Some io'" "send_outcome os k (socks io i) i io io'"
    using send_returns [OF assms(1,4) wf(2)] by blast
  have acc: "accepted os (socks io i) io' @ pkt_bytes k io' = accepted os (socks io i) io @ pkt_bytes k io" "sendable k io'"
    "\<forall>j. j \<noteq> k \<longrightarrow> tx_pool (net_txPkts io') j = tx_pool (net_txPkts io) j" using io'(2) by (simp_all add: send_outcome_def)
  consider (closed) "socks io' i = -1" "active_pkt (socket_states io' i) = None" "pending_write io' i = cq_clear (pending_write io i)"
    | (kept) "socks io' = socks io" "pending_write io' = pending_write io" "net_sessions io' = net_sessions io"
      "connection_pending (socket_states io' i) = connection_pending (socket_states io i)"
      "pkt_bytes k io' = [] \<and> active_pkt (socket_states io' i) = None \<or> active_pkt (socket_states io' i) = Some k"
    using io'(2) wf(3) by (auto simp: send_outcome_def)
  then show ?thesis
  proof cases
    case closed
    then show ?thesis using io'(1) cq_clear_rep wf(1) by auto
  next
    case kept
    have "map (\<lambda>k. pkt_bytes k io') (cq_rep (pending_write io i)) = map (\<lambda>k. pkt_bytes k io) (cq_rep (pending_write io i))"
      using acc(3) assms(5) by auto
    then have rest: "concat (map (\<lambda>k. pkt_bytes k io') (cq_rep (pending_write io i))) = concat (map (\<lambda>k. pkt_bytes k io) (cq_rep (pending_write io i)))"
      by (rule arg_cong)
    have "sendable j io'" if "j \<in> set (cq_rep (pending_write io i))" for j
    proof -
      have "j \<noteq> k" "sendable j io" using that assms(2,5) by (auto simp: line_ok_def waiting_def)
      then show ?thesis using acc(3) by (simp add: sendable_def)
    qed
    then have "line_ok i io'" using kept assms(2,5) acc(2) by (auto simp: line_ok_def waiting_def)
    moreover have "line os i io' = (accepted os (socks io i) io' @ pkt_bytes k io') @ concat (map (\<lambda>k. pkt_bytes k io) (cq_rep (pending_write io i)))"
      using kept(1,2,5) rest by (auto simp: line_def waiting_def)
    ultimately show ?thesis using io'(1) kept(1,2,3,5) acc(3) unfolding acc(1) by auto
  qed
qed

lemma cq_pop_cases:
  assumes "cq_wf k q"
  obtains "cq_rep q = []" "cq_pop q = (None, q)"
    | x q' where "cq_rep q = x # cq_rep q'" "cq_pop q = (Some x, q')" "cq_wf k q'"
proof (cases "cq_rep q")
  case Nil
  then have "cq_pop q = (None, q)" using cq_empty_iff [OF assms] by (simp add: cq_pop_def)
  then show thesis using that(1) Nil by blast
next
  case (Cons x xs)
  then have "fst (cq_pop q) = Some x" "cq_rep (snd (cq_pop q)) = xs" "cq_wf k (snd (cq_pop q))"
    using cq_pop_fst [OF assms] cq_pop_rep [OF assms] cq_pop_wf [OF assms] by simp_all
  then show thesis using that(2) [of x "snd (cq_pop q)"] Cons by (metis prod.collapse)
qed

text \<open>The line goes on: no packet has joined, and packets that do not wait have not changed.\<close>

definition line_kept :: "nat \<Rightarrow> NetworkIO \<Rightarrow> NetworkIO \<Rightarrow> bool" where
  "line_kept i io io' \<longleftrightarrow> line_ok i io' \<and> socks io' = socks io \<and> net_sessions io' = net_sessions io \<and> set (waiting i io') \<subseteq> set (waiting i io)
     \<and> (\<forall>j. j \<notin> set (waiting i io) \<longrightarrow> tx_pool (net_txPkts io') j = tx_pool (net_txPkts io) j)"

lemma line_kept_trans: "line_kept i io io1 \<Longrightarrow> line_kept i io1 io2 \<Longrightarrow> line_kept i io io2"
  unfolding line_kept_def by (metis subset_trans subsetD)

lemma line_kept_refl: "line_ok i io \<Longrightarrow> line_kept i io io"
  by (simp add: line_kept_def)

lemma send_waiting_line:
  assumes "kernel os (socks io i)" "line_ok i io"
  shows "\<exists>io'. send_waiting os (socks io i) i io = Some io' \<and> (socks io' i = -1 \<or> line_kept i io io'
    \<and> line os i io' = line os i io \<and> (active_pkt (socket_states io' i) = None \<longrightarrow> cq_rep (pending_write io' i) = []))"
  using assms
proof (induction "length (cq_rep (pending_write io i))" arbitrary: io)
  case (0 io)
  have wf: "cq_wf 8 (pending_write io i)" using 0(3) by (simp add: line_ok_def)
  have "cq_pop (pending_write io i) = (None, pending_write io i)" using 0(1) cq_empty_iff [OF wf] by (simp add: cq_pop_def)
  then show ?case using 0 line_kept_refl by (subst send_waiting.simps) auto
next
  case (Suc n io)
  show ?case
  proof (cases "active_pkt (socket_states io i) = None")
    case True
    have wf: "cq_wf 8 (pending_write io i)" using Suc(4) by (simp add: line_ok_def)
    obtain k q where q: "cq_rep (pending_write io i) = k # cq_rep q" "cq_pop (pending_write io i) = (Some k, q)" "cq_wf 8 q"
      using Suc(2) by (cases rule: cq_pop_cases [OF wf]) auto
    let ?io = "io\<lparr>pending_write := (pending_write io)(i := q)\<rparr>"
    have ok: "line_ok i ?io" "sendable k ?io" "k \<notin> set (cq_rep (pending_write ?io i))" "active_pkt (socket_states ?io i) = None"
      using Suc(4) True q by (auto simp: line_ok_def waiting_def sendable_def)
    have ln: "accepted os (socks ?io i) ?io @ pkt_bytes k ?io @ concat (map (\<lambda>k. pkt_bytes k ?io) (cq_rep (pending_write ?io i))) = line os i io"
      using True q(1) by (simp add: line_def waiting_def)
    from send_line [of os ?io i k] ok Suc(3) obtain io1 where io1: "send os k (socks io i) i ?io = Some io1"
      "socks io1 i = -1 \<and> active_pkt (socket_states io1 i) = None \<and> cq_rep (pending_write io1 i) = [] \<and> cq_wf 8 (pending_write io1 i)
       \<or> line_ok i io1 \<and> socks io1 = socks io \<and> net_sessions io1 = net_sessions io \<and> pending_write io1 = pending_write ?io
         \<and> (active_pkt (socket_states io1 i) = None \<or> active_pkt (socket_states io1 i) = Some k)
         \<and> (\<forall>j. j \<noteq> k \<longrightarrow> tx_pool (net_txPkts io1) j = tx_pool (net_txPkts io) j) \<and> line os i io1 = line os i io"
      unfolding ln by auto
    have step: "send_waiting os (socks io i) i io = send_waiting os (socks io i) i io1"
      by (subst send_waiting.simps) (simp add: True q(2) io1(1))
    from io1(2) show ?thesis
    proof
      assume c: "socks io1 i = -1 \<and> active_pkt (socket_states io1 i) = None \<and> cq_rep (pending_write io1 i) = [] \<and> cq_wf 8 (pending_write io1 i)"
      then have wf1: "cq_wf 8 (pending_write io1 i)" "cq_rep (pending_write io1 i) = []" by simp_all
      have "cq_pop (pending_write io1 i) = (None, pending_write io1 i)" using wf1(2) cq_empty_iff [OF wf1(1)] by (simp add: cq_pop_def)
      then show ?thesis using c unfolding step by (subst send_waiting.simps) simp
    next
      assume kept: "line_ok i io1 \<and> socks io1 = socks io \<and> net_sessions io1 = net_sessions io \<and> pending_write io1 = pending_write ?io
         \<and> (active_pkt (socket_states io1 i) = None \<or> active_pkt (socket_states io1 i) = Some k)
         \<and> (\<forall>j. j \<noteq> k \<longrightarrow> tx_pool (net_txPkts io1) j = tx_pool (net_txPkts io) j) \<and> line os i io1 = line os i io"
      then have "line_kept i io io1" using q(1) by (auto simp: line_kept_def waiting_def)
      then have lk: "line_kept i io1 io' \<Longrightarrow> line_kept i io io'" for io' by (rule line_kept_trans)
      have "n = length (cq_rep (pending_write io1 i))" "kernel os (socks io1 i)" using Suc(2,3) q(1) kept by simp_all
      from Suc(1) [OF this] kept show ?thesis unfolding step using lk by auto
    qed
  next
    case False
    then show ?thesis using Suc(4) line_kept_refl by (subst send_waiting.simps) auto
  qed
qed

lemma line_calls:
  assumes "\<And>s. accepted os s (io\<lparr>net_calls := net_calls io @ cs\<rparr>) = accepted os s io"
  shows "line os i (upd_socket i (\<lambda>st. st\<lparr>is_EPOLLOUT_set := b\<rparr>) (io\<lparr>net_calls := net_calls io @ cs\<rparr>)) = line os i io"
    "line_ok i (upd_socket i (\<lambda>st. st\<lparr>is_EPOLLOUT_set := b\<rparr>) (io\<lparr>net_calls := net_calls io @ cs\<rparr>)) = line_ok i io"
  using assms by (simp_all add: line_def line_ok_def waiting_def sendable_def)

definition line_drained :: "nat \<Rightarrow> NetworkIO \<Rightarrow> bool" where
  "line_drained i io \<longleftrightarrow> (active_pkt (socket_states io i) = None \<longrightarrow> cq_rep (pending_write io i) = [])"

lemma writable_line:
  assumes "kernel os (socks io i)" "line_ok i io" "active_pkt (socket_states io i) = Some k"
  shows "\<exists>io'. writable os (socks io i) i io = Some io'
    \<and> (socks io' i = -1 \<or> line_kept i io io' \<and> line_drained i io' \<and> line os i io' = line os i io)"
proof -
  have k: "sendable k io" "k \<notin> set (cq_rep (pending_write io i))" using assms(2,3) by (simp_all add: line_ok_def waiting_def)
  have ln: "accepted os (socks io i) io @ pkt_bytes k io @ concat (map (\<lambda>k. pkt_bytes k io) (cq_rep (pending_write io i))) = line os i io"
    using assms(3) by (simp add: line_def waiting_def)
  from send_line [OF assms(1,2) _ k] assms(3) obtain io1 where io1: "send os k (socks io i) i io = Some io1"
    "socks io1 i = -1 \<and> active_pkt (socket_states io1 i) = None \<and> cq_rep (pending_write io1 i) = [] \<and> cq_wf 8 (pending_write io1 i)
     \<or> line_ok i io1 \<and> socks io1 = socks io \<and> net_sessions io1 = net_sessions io \<and> pending_write io1 = pending_write io
       \<and> (active_pkt (socket_states io1 i) = None \<or> active_pkt (socket_states io1 i) = Some k)
       \<and> (\<forall>j. j \<noteq> k \<longrightarrow> tx_pool (net_txPkts io1) j = tx_pool (net_txPkts io) j) \<and> line os i io1 = line os i io"
    unfolding ln by auto
  have "\<exists>io2. send_waiting os (socks io i) i io1 = Some io2
    \<and> (socks io2 i = -1 \<or> line_kept i io io2 \<and> line_drained i io2 \<and> line os i io2 = line os i io)"
    using io1(2)
  proof
    assume c: "socks io1 i = -1 \<and> active_pkt (socket_states io1 i) = None \<and> cq_rep (pending_write io1 i) = [] \<and> cq_wf 8 (pending_write io1 i)"
    then have wf1: "cq_wf 8 (pending_write io1 i)" "cq_rep (pending_write io1 i) = []" by simp_all
    have "cq_pop (pending_write io1 i) = (None, pending_write io1 i)" using wf1(2) cq_empty_iff [OF wf1(1)] by (simp add: cq_pop_def)
    then show ?thesis using c by (subst send_waiting.simps) simp
  next
    assume kept: "line_ok i io1 \<and> socks io1 = socks io \<and> net_sessions io1 = net_sessions io \<and> pending_write io1 = pending_write io
       \<and> (active_pkt (socket_states io1 i) = None \<or> active_pkt (socket_states io1 i) = Some k)
       \<and> (\<forall>j. j \<noteq> k \<longrightarrow> tx_pool (net_txPkts io1) j = tx_pool (net_txPkts io) j) \<and> line os i io1 = line os i io"
    then have "line_kept i io io1" using assms(3) by (auto simp: line_kept_def waiting_def)
    then have lk: "line_kept i io1 io' \<Longrightarrow> line_kept i io io'" for io' by (rule line_kept_trans)
    have "kernel os (socks io1 i)" using assms(1) kept by simp
    from send_waiting_line [OF this] kept show ?thesis unfolding line_drained_def using lk by auto
  qed
  then obtain io2 where io2: "send_waiting os (socks io i) i io1 = Some io2"
    "socks io2 i = -1 \<or> line_kept i io io2 \<and> line_drained i io2 \<and> line os i io2 = line os i io" by blast
  show ?thesis
  proof (cases "active_pkt (socket_states io2 i) = None")
    case True
    obtain cs where cs: "modEpoll os (socks io i) (ss_epoll_data (socket_states io2 i)) EPOLL_READ io2 = Some (io2\<lparr>net_calls := net_calls io2 @ cs\<rparr>)"
      "\<And>s. accepted os s (io2\<lparr>net_calls := net_calls io2 @ cs\<rparr>) = accepted os s io2"
      by (rule modEpoll_returns [OF assms(1), of "ss_epoll_data (socket_states io2 i)" EPOLL_READ io2]) blast
    let ?io3 = "upd_socket i (\<lambda>st. st\<lparr>is_EPOLLOUT_set := False\<rparr>) (io2\<lparr>net_calls := net_calls io2 @ cs\<rparr>)"
    have "writable os (socks io i) i io = Some ?io3" using assms(3) io1(1) io2(1) True cs(1) by (simp add: writable_def)
    moreover have "line_kept i io ?io3 = line_kept i io io2" "line_drained i ?io3 = line_drained i io2"
      by (simp_all add: line_kept_def line_calls(2) [OF cs(2)] waiting_def line_drained_def)
    ultimately show ?thesis using io2(2) line_calls(1) [OF cs(2)] by auto
  next
    case False
    then show ?thesis using assms(3) io1(1) io2 by (auto simp: writable_def)
  qed
qed

lemma try_send_line:
  assumes "kernel os (socks io i)" "line_ok i io" "line_drained i io" "sendable k io" "k \<notin> set (waiting i io)"
    and "i = unat (tx_sock_index (tx_pool (net_txPkts io) k))" "i < MAX_SESSIONS"
    and "isSessionLoggedIn i (net_sessions io) = Some True" "length (waiting i io) < 255"
  shows "\<exists>io'. trySend os k io = Some io' \<and> (socks io' i = -1 \<or> line_ok i io' \<and> line_drained i io' \<and> socks io' = socks io
    \<and> net_sessions io' = net_sessions io \<and> set (waiting i io') \<subseteq> insert k (set (waiting i io))
    \<and> (\<forall>j. j \<noteq> k \<longrightarrow> tx_pool (net_txPkts io') j = tx_pool (net_txPkts io) j) \<and> line os i io' = line os i io @ pkt_bytes k io)"
proof (cases "active_pkt (socket_states io i)")
  case None
  then have rep: "cq_rep (pending_write io i) = []" using assms(3) by (simp add: line_drained_def)
  have "trySend os k io = send os k (socks io i) i io"
    using None assms(2,7,8) by (simp add: trySend_def Let_def assms(6) [symmetric] line_ok_def)
  moreover from send_line [OF assms(1,2) _ assms(4)] None rep obtain io1 where "send os k (socks io i) i io = Some io1"
    "socks io1 i = -1 \<or> line_ok i io1 \<and> socks io1 = socks io \<and> net_sessions io1 = net_sessions io \<and> pending_write io1 = pending_write io
       \<and> (active_pkt (socket_states io1 i) = None \<or> active_pkt (socket_states io1 i) = Some k)
       \<and> (\<forall>j. j \<noteq> k \<longrightarrow> tx_pool (net_txPkts io1) j = tx_pool (net_txPkts io) j)
       \<and> line os i io1 = accepted os (socks io i) io @ pkt_bytes k io"
    by auto
  ultimately show ?thesis using rep None by (auto simp: line_drained_def waiting_def line_def)
next
  case (Some a)
  let ?q = "snd (cq_push k (pending_write io i))"
  let ?io = "io\<lparr>pending_write := (pending_write io)(i := ?q)\<rparr>"
  have wf: "cq_wf 8 (pending_write io i)" using assms(2) by (simp add: line_ok_def)
  have q: "cq_wf 8 ?q" "cq_rep ?q = cq_rep (pending_write io i) @ [k]"
    using cq_push_wf [OF wf] cq_push_rep [OF wf, of k] assms(9) Some by (simp_all add: waiting_def)
  have t: "trySend os k io = Some ?io" using Some assms(2,7,8) by (simp add: trySend_def Let_def assms(6) [symmetric] line_ok_def)
  have "line_ok i ?io" "line_drained i ?io" "set (waiting i ?io) \<subseteq> insert k (set (waiting i io))"
    using q assms(2,4,5) Some by (auto simp: line_ok_def waiting_def line_drained_def sendable_def)
  moreover have "line os i ?io = line os i io @ pkt_bytes k io" using q Some by (simp add: line_def waiting_def)
  ultimately show ?thesis using t by auto
qed

text \<open>A socket between two events: packets are handed to it, and it becomes writable when a packet is interrupted.
  Once it is closed, what follows belongs to another connection.\<close>

datatype line_event = Built nat | Can_write

fun line_step :: "OS \<Rightarrow> nat \<Rightarrow> line_event \<Rightarrow> NetworkIO \<Rightarrow> NetworkIO option" where
  "line_step os i (Built k) io = trySend os k io"
| "line_step os i Can_write io = (if active_pkt (socket_states io i) = None then Some io else writable os (socks io i) i io)"

primrec line_run :: "OS \<Rightarrow> nat \<Rightarrow> line_event list \<Rightarrow> NetworkIO \<Rightarrow> NetworkIO option" where
  "line_run os i [] io = Some io"
| "line_run os i (e # es) io = (if socks io i = -1 then Some io else do { io1 \<leftarrow> line_step os i e io; line_run os i es io1 })"

fun built_by :: "line_event \<Rightarrow> nat list" where
  "built_by (Built k) = [k]"
| "built_by Can_write = []"

definition built :: "line_event list \<Rightarrow> nat list" where
  "built es = concat (map built_by es)"

lemma built_simps [simp]: "built [] = []" "built (e # es) = built_by e @ built es"
  by (simp_all add: built_def)

lemma line_run_closed: "socks io i = -1 \<Longrightarrow> line_run os i es io = Some io"
  by (cases es) simp_all

text \<open>A socket in use, and the packets that may still be handed to it.\<close>

definition line_live :: "OS \<Rightarrow> nat \<Rightarrow> NetworkIO \<Rightarrow> bool" where
  "line_live os i io \<longleftrightarrow> kernel os (socks io i) \<and> line_ok i io \<and> line_drained i io \<and> isSessionLoggedIn i (net_sessions io) = Some True"

definition may_join :: "nat \<Rightarrow> NetworkIO \<Rightarrow> nat \<Rightarrow> bool" where
  "may_join i io k \<longleftrightarrow> sendable k io \<and> unat (tx_sock_index (tx_pool (net_txPkts io) k)) = i"

lemma line_step_bytes:
  assumes "line_live os i io" "i < MAX_SESSIONS" "length (waiting i io) < 255"
    and "\<forall>k \<in> set (built_by e). k \<notin> set (waiting i io) \<and> may_join i io k"
  shows "\<exists>io'. line_step os i e io = Some io' \<and> (socks io' i = -1 \<or> line_live os i io' \<and> socks io' = socks io
    \<and> set (waiting i io') \<subseteq> set (waiting i io) \<union> set (built_by e)
    \<and> (\<forall>j. j \<notin> set (waiting i io) \<union> set (built_by e) \<longrightarrow> tx_pool (net_txPkts io') j = tx_pool (net_txPkts io) j)
    \<and> line os i io' = line os i io @ concat (map (\<lambda>k. pkt_bytes k io) (built_by e)))"
proof -
  have l: "kernel os (socks io i)" "line_ok i io" "line_drained i io" "isSessionLoggedIn i (net_sessions io) = Some True"
    using assms(1) by (simp_all add: line_live_def)
  show ?thesis
  proof (cases e)
    case (Built k)
    then have k: "sendable k io" "k \<notin> set (waiting i io)" "i = unat (tx_sock_index (tx_pool (net_txPkts io) k))"
      using assms(4) by (simp_all add: may_join_def)
    from try_send_line [OF l(1-3) k assms(2) l(4) assms(3)] show ?thesis
      using Built l(1,4) by (auto simp: line_live_def)
  next
    case Can_write
    show ?thesis
    proof (cases "active_pkt (socket_states io i)")
      case None
      then show ?thesis using Can_write assms(1) by simp
    next
      case (Some a)
      from writable_line [OF l(1,2) Some] show ?thesis using Can_write Some l(1,4) by (auto simp: line_live_def line_kept_def)
    qed
  qed
qed

subsection \<open>Why a socket is closed\<close>

text \<open>Between two states a call to send failed on the socket, with an error that is neither a full socket nor an
  interruption.\<close>

definition send_failed :: "OS \<Rightarrow> int \<Rightarrow> NetworkIO \<Rightarrow> NetworkIO \<Rightarrow> bool" where
  "send_failed os sock io io' \<longleftrightarrow> (\<exists>n b. length (net_calls io) \<le> n \<and> n < length (net_calls io') \<and> net_calls io' ! n = C_send sock b
     \<and> res_ret (os n (C_send sock b)) < 0 \<and> res_errno (os n (C_send sock b)) \<noteq> EAGAIN \<and> res_errno (os n (C_send sock b)) \<noteq> EINTR)"

text \<open>Calls are added, and the socket is closed only after such a failure.\<close>

definition calls_on :: "OS \<Rightarrow> int \<Rightarrow> nat \<Rightarrow> NetworkIO \<Rightarrow> NetworkIO \<Rightarrow> bool" where
  "calls_on os sock i io io' \<longleftrightarrow> (\<exists>cs. net_calls io' = net_calls io @ cs)
     \<and> (socks io' i = socks io i \<or> socks io' i = -1 \<and> send_failed os sock io io')"

lemma send_failed_later:
  assumes "send_failed os sock io1 io2" "net_calls io1 = net_calls io @ cs" "net_calls io3 = net_calls io2 @ cs'"
  shows "send_failed os sock io io3"
proof -
  from assms(1) obtain n b where n: "length (net_calls io1) \<le> n" "n < length (net_calls io2)" "net_calls io2 ! n = C_send sock b"
    "res_ret (os n (C_send sock b)) < 0" "res_errno (os n (C_send sock b)) \<noteq> EAGAIN" "res_errno (os n (C_send sock b)) \<noteq> EINTR"
    by (auto simp: send_failed_def)
  then show ?thesis unfolding send_failed_def
    by (intro exI [of _ n] exI [of _ b]) (use assms(2,3) in \<open>simp add: nth_append\<close>)
qed

lemma calls_on_trans:
  assumes "calls_on os sock i io io1" "calls_on os sock i io1 io2"
  shows "calls_on os sock i io io2"
proof -
  obtain cs1 cs2 where cs: "net_calls io1 = net_calls io @ cs1" "net_calls io2 = net_calls io1 @ cs2"
    using assms by (auto simp: calls_on_def)
  have "send_failed os sock io io1 \<Longrightarrow> send_failed os sock io io2" by (erule send_failed_later [where cs = "[]"]) (use cs in simp_all)
  moreover have "send_failed os sock io1 io2 \<Longrightarrow> send_failed os sock io io2"
    by (erule send_failed_later [where cs' = "[]"]) (use cs in simp_all)
  moreover have "\<exists>cs. net_calls io2 = net_calls io @ cs" using cs by simp
  ultimately show ?thesis using assms unfolding calls_on_def by metis
qed

lemma calls_on_frame:
  assumes "net_calls io' = net_calls io @ cs" "socks io' = socks io"
  shows "calls_on os sock i io io'"
  using assms by (simp add: calls_on_def)

lemma calls_on_more:
  assumes "calls_on os sock i io1 io2" "net_calls io1 = net_calls io @ cs" "socks io1 = socks io"
  shows "calls_on os sock i io io2"
  by (rule calls_on_trans [OF calls_on_frame [OF assms(2,3)] assms(1)])

lemma repeat_call_calls: "repeat_call os c io = Some (r, io') \<Longrightarrow> \<exists>cs. net_calls io' = net_calls io @ cs \<and> socks io' = socks io"
proof -
  assume "repeat_call os c io = Some (r, io')"
  then have "\<exists>cs. net_calls (snd (r, io')) = net_calls io @ cs \<and> socks (snd (r, io')) = socks io"
    by (rule repeat_call.raw_induct [rotated]) (fastforce simp: syscall_def split: if_splits)
  then show ?thesis by simp
qed

lemma modEpoll_calls: "modEpoll os s e f io = Some io' \<Longrightarrow> calls_on os sock i io io'"
  using repeat_call_calls by (fastforce simp: modEpoll_def intro: calls_on_frame)

lemma closeSocket_calls:
  assumes "closeSocket os i io = Some io'"
  shows "\<exists>cs. net_calls io' = net_calls io @ cs" "socks io' i = -1"
  using assms by (auto simp: closeSocket_def syscall_def Let_def bind_eq_Some_conv split: if_splits)

lemma send_calls:
  assumes "send os k sock i io = Some io'"
  shows "calls_on os sock i io io'"
  using assms
proof (rule send.raw_induct [rotated])
  fix f :: "OS \<Rightarrow> nat \<Rightarrow> int \<Rightarrow> nat \<Rightarrow> NetworkIO \<Rightarrow> NetworkIO option" and os k sock i io io'
  assume ih: "\<And>os k sock i io io'. f os k sock i io = Some io' \<Longrightarrow> calls_on os sock i io io'"
    and eq: "(let pkt = tx_pool (net_txPkts io) k in
     if tx_offset pkt < tx_len pkt then do {
       bytes \<leftarrow> read_bytes (unat (tx_len pkt - tx_offset pkt)) (drop (unat (tx_offset pkt)) (tx_data pkt));
       let (r, io1) = syscall os (C_send sock bytes) io;
       (if 0 < res_ret r then f os k sock i (upd_txPkt k (\<lambda>p. p\<lparr>tx_offset := tx_offset p + of_int (res_ret r)\<rparr>) io1)
        else if res_ret r < 0 then
          (if res_errno r = EAGAIN then do {
             io2 \<leftarrow> (if \<not> is_EPOLLOUT_set (socket_states io1 i)
                     then map_option (upd_socket i (\<lambda>st. st\<lparr>is_EPOLLOUT_set := True\<rparr>))
                            (modEpoll os sock (ss_epoll_data (socket_states io1 i)) EPOLL_WRITE io1)
                     else Some io1);
             Some (upd_socket i (\<lambda>st. st\<lparr>active_pkt := Some k\<rparr>) io2) }
           else if res_errno r = EINTR then f os k sock i io1
           else closeSocket os i io1)
        else f os k sock i io1) }
     else Some (upd_socket i (\<lambda>st. st\<lparr>active_pkt := None\<rparr>) (io\<lparr>pipeline_seq := pipeline_seq io + 1\<rparr>))) = Some io'"
  show "calls_on os sock i io io'"
  proof (cases "tx_offset (tx_pool (net_txPkts io) k) < tx_len (tx_pool (net_txPkts io) k)")
    case False
    then have "net_calls io' = net_calls io @ []" "socks io' = socks io" using eq by (auto simp: Let_def)
    then show ?thesis by (rule calls_on_frame)
  next
    case True
    then obtain b where b: "read_bytes (unat (tx_len (tx_pool (net_txPkts io) k) - tx_offset (tx_pool (net_txPkts io) k)))
        (drop (unat (tx_offset (tx_pool (net_txPkts io) k))) (tx_data (tx_pool (net_txPkts io) k))) = Some b"
      using eq by (auto simp: Let_def bind_eq_Some_conv)
    define r where "r = os (length (net_calls io)) (C_send sock b)"
    define io1 where "io1 = io\<lparr>net_calls := net_calls io @ [C_send sock b]\<rparr>"
    have io1: "net_calls io1 = net_calls io @ [C_send sock b]" "socks io1 = socks io" by (simp_all add: io1_def)
    have more: "calls_on os sock i io io'" if "calls_on os sock i io1 io'" by (rule calls_on_more [OF that io1])
    note eq = eq [unfolded Let_def syscall_def b bind.bind_lunit prod.case if_P [OF True], folded r_def io1_def]
    consider "0 < res_ret r" | "res_ret r < 0" "res_errno r = EAGAIN" | "res_ret r = 0 \<or> res_ret r < 0 \<and> res_errno r = EINTR"
      | "res_ret r < 0" "res_errno r \<noteq> EAGAIN" "res_errno r \<noteq> EINTR" by linarith
    then show ?thesis
    proof cases
      case 1
      then have "f os k sock i (upd_txPkt k (\<lambda>p. p\<lparr>tx_offset := tx_offset p + of_int (res_ret r)\<rparr>) io1) = Some io'" using eq by simp
      from ih [OF this] show ?thesis by (rule calls_on_more) (simp_all add: upd_txPkt_def Let_def io1_def)
    next
      case 2
      have up: "calls_on os sock i io1 (upd_socket i g io3) = calls_on os sock i io1 io3" for g io3 by (simp add: calls_on_def send_failed_def)
      have "calls_on os sock i io1 io1" by (simp add: calls_on_def)
      then have "calls_on os sock i io1 io'" using eq 2 up modEpoll_calls [where sock = sock and i = i]
        by (auto simp: bind_eq_Some_conv split: if_splits)
      then show ?thesis by (rule more)
    next
      case 3
      then have "f os k sock i io1 = Some io'" using eq by (auto simp: EINTR_def EAGAIN_def)
      then show ?thesis by (intro more ih)
    next
      case 4
      then have c: "closeSocket os i io1 = Some io'" using eq by simp
      obtain cs where cs: "net_calls io' = net_calls io1 @ cs" using closeSocket_calls(1) [OF c] by blast
      have "send_failed os sock io io1" unfolding send_failed_def
        by (intro exI [of _ "length (net_calls io)"] exI [of _ b]) (use 4 in \<open>simp add: io1(1) r_def\<close>)
      from send_failed_later [OF this _ cs, of io "[]"] have "send_failed os sock io io'" by simp
      then show ?thesis using cs io1(1) closeSocket_calls(2) [OF c] by (simp add: calls_on_def)
    qed
  qed
qed

lemma send_waiting_calls:
  assumes "send_waiting os sock i io = Some io'"
  shows "calls_on os sock i io io'"
  using assms
proof (rule send_waiting.raw_induct [rotated])
  fix f :: "OS \<Rightarrow> int \<Rightarrow> nat \<Rightarrow> NetworkIO \<Rightarrow> NetworkIO option" and os sock i io io'
  assume ih: "\<And>os sock i io io'. f os sock i io = Some io' \<Longrightarrow> calls_on os sock i io io'"
    and eq: "(if active_pkt (socket_states io i) \<noteq> None then Some io
      else case cq_pop (pending_write io i) of
        (None, q) \<Rightarrow> Some (io\<lparr>pending_write := (pending_write io)(i := q)\<rparr>)
      | (Some k, q) \<Rightarrow> do {
          io1 \<leftarrow> send os k sock i (io\<lparr>pending_write := (pending_write io)(i := q)\<rparr>);
          f os sock i io1 }) = Some io'"
  consider "net_calls io' = net_calls io @ []" "socks io' = socks io"
    | k q io1 where "send os k sock i (io\<lparr>pending_write := (pending_write io)(i := q)\<rparr>) = Some io1" "f os sock i io1 = Some io'"
    using eq by (auto simp: bind_eq_Some_conv split: if_splits prod.splits option.splits)
  then show "calls_on os sock i io io'"
  proof cases
    case 1
    then show ?thesis by (rule calls_on_frame)
  next
    case 2
    have "calls_on os sock i io io1" by (rule calls_on_more [OF send_calls [OF 2(1)], where cs = "[]"]) simp_all
    then show ?thesis by (rule calls_on_trans [OF _ ih [OF 2(2)]])
  qed
qed

lemma writable_calls:
  assumes "writable os sock i io = Some io'"
  shows "calls_on os sock i io io'"
proof -
  from assms obtain k io1 io2 where io: "send os k sock i io = Some io1" "send_waiting os sock i io1 = Some io2"
    and eq: "(if active_pkt (socket_states io2 i) = None then map_option (upd_socket i (\<lambda>st. st\<lparr>is_EPOLLOUT_set := False\<rparr>))
             (modEpoll os sock (ss_epoll_data (socket_states io2 i)) EPOLL_READ io2) else Some io2) = Some io'"
    unfolding writable_def by (auto simp: bind_eq_Some_conv)
  have up: "calls_on os sock i io2 (upd_socket i g io3) = calls_on os sock i io2 io3" for g io3 by (simp add: calls_on_def send_failed_def)
  have "calls_on os sock i io2 io2" by (simp add: calls_on_def)
  then have "calls_on os sock i io2 io'" using eq up modEpoll_calls [where sock = sock and i = i] by (auto split: if_splits)
  then show ?thesis using send_calls [OF io(1)] send_waiting_calls [OF io(2)] calls_on_trans by blast
qed

lemma trySend_calls:
  assumes "trySend os k io = Some io'" "unat (tx_sock_index (tx_pool (net_txPkts io) k)) = i"
  shows "calls_on os (socks io i) i io io'"
proof -
  have r: "calls_on os (socks x i) i x x" "calls_on os (socks x i) i x (x\<lparr>pending_write := w\<rparr>)" for x w by (simp_all add: calls_on_def)
  show ?thesis using assms(1) unfolding trySend_def Let_def assms(2)
    by (auto simp: guard_def bind_eq_Some_conv intro: r send_calls split: if_splits)
qed

lemma line_step_calls:
  assumes "line_step os i e io = Some io'" "\<forall>k \<in> set (built_by e). may_join i io k"
  shows "calls_on os (socks io i) i io io'"
proof (cases e)
  case (Built k)
  then show ?thesis using assms by (auto simp: may_join_def intro: trySend_calls)
next
  case Can_write
  have "calls_on os (socks io i) i io io" by (simp add: calls_on_def)
  then show ?thesis using Can_write assms(1) by (auto intro: writable_calls split: if_splits)
qed

subsection \<open>Runs\<close>

lemma line_run_bytes:
  assumes "line_live os i io" "i < MAX_SESSIONS" "distinct (built es)" "set (built es) \<inter> D = {}" "set (waiting i io) \<subseteq> D" "finite D"
    and "card D + length (built es) < 255" "\<forall>k \<in> set (built es). may_join i io k"
  shows "\<exists>io'. line_run os i es io = Some io' \<and> calls_on os (socks io i) i io io' \<and> (socks io' i = -1
    \<or> socks io' = socks io \<and> line os i io' = line os i io @ concat (map (\<lambda>k. pkt_bytes k io) (built es)))"
  using assms
proof (induction es arbitrary: io D)
  case (Cons e es)
  have "socks io i \<noteq> -1" "distinct (waiting i io)" using Cons.prems(1) by (simp_all add: line_live_def line_ok_def)
  then have "length (waiting i io) < 255"
    using card_mono [OF Cons.prems(6,5)] Cons.prems(7) by (simp add: distinct_card)
  moreover have "\<forall>k \<in> set (built_by e). k \<notin> set (waiting i io) \<and> may_join i io k" using Cons.prems(4,5,8) by auto
  ultimately obtain io1 where io1: "line_step os i e io = Some io1" and "socks io1 i = -1 \<or> line_live os i io1 \<and> socks io1 = socks io
    \<and> set (waiting i io1) \<subseteq> set (waiting i io) \<union> set (built_by e)
    \<and> (\<forall>j. j \<notin> set (waiting i io) \<union> set (built_by e) \<longrightarrow> tx_pool (net_txPkts io1) j = tx_pool (net_txPkts io) j)
    \<and> line os i io1 = line os i io @ concat (map (\<lambda>k. pkt_bytes k io) (built_by e))"
    using line_step_bytes [OF Cons.prems(1,2)] by blast
  have c1: "calls_on os (socks io i) i io io1" by (rule line_step_calls [OF io1]) (use Cons.prems(8) in simp)
  from \<open>socks io1 i = -1 \<or> _\<close> consider (closed) "socks io1 i = -1"
    | (live) "line_live os i io1" "socks io1 = socks io" "set (waiting i io1) \<subseteq> set (waiting i io) \<union> set (built_by e)"
      "\<forall>j. j \<notin> set (waiting i io) \<union> set (built_by e) \<longrightarrow> tx_pool (net_txPkts io1) j = tx_pool (net_txPkts io) j"
      "line os i io1 = line os i io @ concat (map (\<lambda>k. pkt_bytes k io) (built_by e))" by blast
  then show ?case
  proof cases
    case closed
    then show ?thesis using line_run_closed io1 c1 \<open>socks io i \<noteq> -1\<close> by simp
  next
    case live
    have same: "tx_pool (net_txPkts io1) j = tx_pool (net_txPkts io) j" if "j \<in> set (built es)" for j
      using that live(4) Cons.prems(3,4,5) by auto
    have "card (D \<union> set (built_by e)) + length (built es) < 255"
      using card_Un_le [of D "set (built_by e)"] card_length [of "built_by e"] Cons.prems(7) by simp
    moreover have "\<forall>k \<in> set (built es). may_join i io1 k" using same Cons.prems(8) by (simp add: may_join_def sendable_def)
    moreover have "set (built es) \<inter> (D \<union> set (built_by e)) = {}" "set (waiting i io1) \<subseteq> D \<union> set (built_by e)"
      using Cons.prems(3,4,5) live(3) by auto
    ultimately have "\<exists>io'. line_run os i es io1 = Some io' \<and> calls_on os (socks io1 i) i io1 io' \<and> (socks io' i = -1
        \<or> socks io' = socks io1 \<and> line os i io' = line os i io1 @ concat (map (\<lambda>k. pkt_bytes k io1) (built es)))"
      using Cons.IH [of io1 "D \<union> set (built_by e)"] live(1) Cons.prems(2,3,6) by simp
    moreover have "concat (map (\<lambda>k. pkt_bytes k io1) (built es)) = concat (map (\<lambda>k. pkt_bytes k io) (built es))"
      using same by (intro arg_cong [of _ _ concat] map_cong) simp_all
    moreover have "calls_on os (socks io1 i) i io1 io' \<Longrightarrow> calls_on os (socks io i) i io io'" for io'
      using calls_on_trans [OF c1] live(2) by simp
    ultimately show ?thesis using live(2,5) io1 \<open>socks io i \<noteq> -1\<close> by auto
  qed
qed (simp add: calls_on_def)

subsection \<open>Departures\<close>

text \<open>After an error that is final the socket is closed, and the loop that should make it readable again repeats a call
  that fails for ever on the closed socket.\<close>

lemma repeat_call_forever:
  assumes "\<And>n. res_ret (os n c) = -1"
  shows "repeat_call os c io = None"
proof (rule ccontr)
  assume "repeat_call os c io \<noteq> None"
  then obtain x where "repeat_call os c io = Some x" by blast
  then have "fst x \<noteq> -1 \<and> (\<exists>n. fst x = res_ret (os n c))"
    by (rule repeat_call.raw_induct [rotated]) (auto simp: syscall_def split: if_splits)
  then show False using assms by auto
qed

text \<open>Packets handed over while the connection is being made stay behind: when it is made nothing takes them, and
  later packets overtake them.\<close>

lemma connecting_packets_stay:
  assumes "connection_pending (socket_states io i)" "i = unat (tx_sock_index (tx_pool (net_txPkts io) k))" "i < MAX_SESSIONS"
  shows "trySend os k io = Some (io\<lparr>pending_write := (pending_write io)(i := snd (cq_push k (pending_write io i)))\<rparr>)"
  using assms by (simp add: trySend_def Let_def)

text \<open>A packet for a session that is not logged in is dropped without a trace.\<close>

lemma not_logged_in_dropped:
  assumes "\<not> connection_pending (socket_states io i)" "i = unat (tx_sock_index (tx_pool (net_txPkts io) k))" "i < MAX_SESSIONS"
    and "isSessionLoggedIn i (net_sessions io) = Some False" "\<not> is_login_msg (tx_pool (net_txPkts io) k)"
  shows "trySend os k io = Some io"
  using assms by (simp add: trySend_def Let_def)

text \<open>A socket that becomes writable with no packet interrupted is undefined: the pointer is null.\<close>

lemma writable_without_packet: "active_pkt (socket_states io i) = None \<Longrightarrow> writable os sock i io = None"
  by (simp add: writable_def)

subsection \<open>Properties\<close>

text \<open>C14. Packets in a line: for a socket that is connected and logged in and has nothing waiting, and fewer than 255
  distinct packets (255 is what its queue holds) handed to it between events that make it writable, the thread
  comes back, whatever parts of a packet the system takes at a time and however often a call is interrupted or
  the socket is full, as long as the system does not interrupt a call or fail epoll_ctl for ever.  The bytes
  the system has taken, followed by the bytes of the packets that still wait, are exactly the bytes of the
  packets handed over, in their order.  The only exception is a socket that was closed, and it is
  closed only after a call to send on it failed with an error other than EAGAIN and EINTR.\<close>

theorem packets_in_line:
  assumes "line_live os i io" "i < MAX_SESSIONS" "waiting i io = []" "distinct (built es)" "length (built es) < 255"
    and "\<forall>k \<in> set (built es). may_join i io k"
  shows "\<exists>io'. line_run os i es io = Some io' \<and> (socks io' i = -1 \<and> send_failed os (socks io i) io io'
    \<or> accepted os (socks io i) io' @ concat (map (\<lambda>k. pkt_bytes k io') (waiting i io'))
      = accepted os (socks io i) io @ concat (map (\<lambda>k. pkt_bytes k io) (built es)))"
proof -
  obtain io' where io': "line_run os i es io = Some io'" "calls_on os (socks io i) i io io'" "socks io' i = -1
    \<or> socks io' = socks io \<and> line os i io' = line os i io @ concat (map (\<lambda>k. pkt_bytes k io) (built es))"
    using line_run_bytes [OF assms(1,2,4), of "{}"] assms(3,5,6) by auto
  have "socks io i \<noteq> -1" using assms(1) by (simp add: line_live_def line_ok_def)
  then show ?thesis using io' assms(3) by (auto simp: line_def calls_on_def)
qed

text \<open>A system that interrupts every third call, takes at most 50 bytes of the next and is then full.\<close>

definition sample_os :: OS where
  "sample_os n c = (case c of
     C_send s b \<Rightarrow>
       (if n mod 3 = 0 then \<lparr>res_ret = -1, res_errno = EINTR, res_bytes = []\<rparr>
        else if n mod 3 = 1 then \<lparr>res_ret = int (min 50 (length b)), res_errno = 0, res_bytes = []\<rparr>
        else \<lparr>res_ret = -1, res_errno = EAGAIN, res_bytes = []\<rparr>)
   | _ \<Rightarrow> \<lparr>res_ret = 0, res_errno = 0, res_bytes = []\<rparr>)"

definition sample_net :: NetworkIO where
  "sample_net = \<lparr>next_partialpkt = 0, receiver_to_parser = spsc_init Q1024, net_to_send = spsc_init Q1024,
     net_sessions = sample_fix_sessions\<lparr>session_states := [new_SessionState\<lparr>is_logged_in := True\<rparr>]\<rparr>,
     net_fix = new_Builder_FIX sample_tm [],
     net_txPkts = \<lparr>tx_pool = (\<lambda>_. \<lparr>tx_data = replicate 2048 (CHR ''x''), tx_len = 117, tx_offset = 0, tx_sock_index = 0, is_login_msg = False\<rparr>),
       next_txPkt = 0\<rparr>,
     joined_ips = (\<lambda>_. 0), epoll_fd = 3, socket_states = (\<lambda>_. new_SocketState), socks = (\<lambda>_. 4),
     packet_pool = (\<lambda>_. fresh_packet (replicate 2048 (CHR 0x00)) 0), free_pkt_list = spsc_init Q1024, partial_packet_pool = (\<lambda>_. None),
     pending_write = (\<lambda>_. \<lparr>cq_buffer = replicate 256 0, cq_head = 0, cq_tail = 0\<rparr>),
     pending_read = (\<lambda>_. \<lparr>cq_buffer = replicate 256 0, cq_head = 0, cq_tail = 0\<rparr>),
     pipeline_seq = 0, net_retry = new_ErrorHandler 500, net_ticks = 0, net_calls = []\<rparr>"

lemma sample_kernel: "kernel sample_os sock"
proof -
  have a: "\<exists>m \<ge> n. \<forall>b. b \<noteq> [] \<longrightarrow> res_ret (sample_os m (C_send sock b)) \<noteq> 0
       \<and> (res_ret (sample_os m (C_send sock b)) < 0 \<longrightarrow> res_errno (sample_os m (C_send sock b)) \<noteq> EINTR)" for n
  proof (rule exI [of _ "3 * n + 1"], intro conjI allI impI)
    have m: "(3 * n + 1) mod 3 = 1" by presburger
    show "n \<le> 3 * n + 1" by simp
    fix b :: string assume "b \<noteq> []"
    then show "res_ret (sample_os (3 * n + 1) (C_send sock b)) \<noteq> 0" using m by (simp add: sample_os_def)
    assume "res_ret (sample_os (3 * n + 1) (C_send sock b)) < 0"
    then show "res_errno (sample_os (3 * n + 1) (C_send sock b)) \<noteq> EINTR" using m by (simp add: sample_os_def)
  qed
  have b: "\<exists>m \<ge> n. res_ret (sample_os m (C_epoll_mod sock e f)) \<noteq> -1" for n e f
    by (rule exI [of _ n]) (simp add: sample_os_def)
  have c: "res_ret (sample_os n (C_send sock b)) \<le> int (length b)" for n b by (simp add: sample_os_def)
  show ?thesis unfolding kernel_def using a b c by blast
qed

lemma sample_never_fails: "\<not> send_failed sample_os sock io io'"
  by (auto simp: send_failed_def sample_os_def split: if_splits)

theorem packets_in_line_witness:
  "\<exists>io'. line_run sample_os 0 [Built 0, Built 1, Can_write, Built 2, Can_write] sample_net = Some io'
    \<and> accepted sample_os 4 io' @ concat (map (\<lambda>k. pkt_bytes k io') (waiting 0 io')) = replicate 351 (CHR ''x'')"
proof -
  have w: "waiting 0 sample_net = []" by (simp add: waiting_def sample_net_def new_SocketState_def cq_rep_def ring_len_def)
  have live: "line_live sample_os 0 sample_net"
    using sample_kernel w
    by (simp add: line_live_def line_ok_def line_drained_def sample_net_def new_SocketState_def waiting_def cq_wf_def
        isSessionLoggedIn_def getSessionState_def nth_opt_def cq_rep_def ring_len_def)
  have p: "pkt_bytes k sample_net = replicate 117 (CHR ''x'')" "may_join 0 sample_net k" for k
    by (simp_all add: sample_net_def tx_bytes_def may_join_def sendable_def min_def)
  have "accepted sample_os 4 sample_net = []" by (simp add: accepted_def sample_net_def)
  moreover have "socks sample_net 0 = 4" by (simp add: sample_net_def)
  moreover have "concat (map (\<lambda>k. pkt_bytes k sample_net) [0, 1, 2]) = replicate 351 (CHR ''x'')"
    by (simp add: p(1) replicate_add [symmetric] del: replicate.simps)
  ultimately show ?thesis
    using packets_in_line [OF live, of "[Built 0, Built 1, Can_write, Built 2, Can_write]"] w p(2) by (auto simp: MAX_SESSIONS_def sample_never_fails)
qed

end
