(* ===== verification/Network_Frame.thy ===== *)
theory Network_Frame
  imports Network_Send
begin

text \<open>
  What the network thread of \<open>Network_IO\<close> receives: the SoupBinTCP packets in the bytes of a socket, named for the parser,
  also when the network cuts one of them, and how they reach the queue of the store thread.
\<close>

subsection \<open>Framing\<close>

text \<open>A SoupBinTCP packet: the length behind it, the type and the payload.\<close>

definition sbt_packet :: "char \<Rightarrow> string \<Rightarrow> string" where
  "sbt_packet t body = bytes_u16_be (of_nat (length body + 1)) @ [t] @ body"

lemma length_sbt_packet [simp]: "length (sbt_packet t body) = length body + 3"
  by (simp add: sbt_packet_def)

lemma unat_u16: "n < 65536 \<Longrightarrow> unat (of_nat n :: u16) = n"
  by (simp only: unat_of_nat) (simp add: take_bit_nat_eq_self)

definition name_packet :: "nat \<Rightarrow> RxPacket \<Rightarrow> RxPacket" where
  "name_packet n p = p\<lparr>rx_offsets := (rx_offsets p)[unat (msg_count p) := of_nat n], msg_count := msg_count p + 1\<rparr>"

lemma name_packet_simps [simp]:
  "rx_offsets (name_packet n p) = (rx_offsets p)[unat (msg_count p) := of_nat n]" "msg_count (name_packet n p) = msg_count p + 1"
  "rx_data (name_packet n p) = rx_data p" "(name_packet n p)\<lparr>rx_offsets := ofs, msg_count := c\<rparr> = p\<lparr>rx_offsets := ofs, msg_count := c\<rparr>"
  by (simp_all add: name_packet_def)

lemma frame_step:
  assumes "drop n (rx_data (packet_pool io k)) = sbt_packet (CHR ''S'') body @ r" "n + length body + 3 \<le> recv_len" "recv_len \<le> 2048"
    and "unat (msg_count (packet_pool io k)) < 32"
    and "session_sbt i (net_sessions io) = Some q" "set_sbt i (increase_seq q) (net_sessions io) = Some sm"
  shows "frame_packets os clk i k recv_len (of_nat n) io = frame_packets os clk i k recv_len (of_nat (n + length body + 3))
    (upd_rxPkt k (\<lambda>_. name_packet n (packet_pool io k)) (io\<lparr>net_sessions := sm\<rparr>))"
proof -
  let ?p = "packet_pool io k"
  have n: "unat (of_nat n :: u16) = n" using assms(2,3) by (intro unat_u16) simp
  have "read_u16_be (drop n (rx_data ?p)) = Some (of_nat (length body + 1))" using assms(1) by (simp add: sbt_packet_def read_bytes_be)
  moreover have l: "of_nat (length body + 1) + 2 = (of_nat (length body + 3) :: u16)" by simp
  moreover have "unat (of_nat (length body + 3) :: u16) = length body + 3" using assms(2,3) by (intro unat_u16) simp
  moreover have "pkt_handler (drop n (rx_data ?p)) i (net_sessions io) = Some (ToParser, sm)"
    using assms(1,5,6) by (simp add: pkt_handler_def sbt_packet_def bytes_u16_be_def read_front handleSequencedData_def)
  moreover have "push_offset n ?p = Some (name_packet n ?p)" using assms(4) by (simp add: push_offset_def MAX_APP_MSG_IN_ONE_DATA_def name_packet_def)
  moreover have "of_nat n + of_nat (length body + 3) = (of_nat (n + length body + 3) :: u16)" by simp
  moreover have "n < recv_len" "recv_len - n \<noteq> 1" "\<not> recv_len < length body + 3 + n" using assms(2) by simp_all
  ultimately show ?thesis
    by (subst frame_packets.simps) (simp add: n Let_def del: of_nat_add of_nat_Suc of_nat_numeral)
qed

text \<open>Whole packets of sequenced data one behind the other: every one is named, and counted by the session.\<close>

abbreviation sequenced :: "string list \<Rightarrow> string" where
  "sequenced bs \<equiv> concat (map (sbt_packet (CHR ''S'')) bs)"

definition framed :: "nat \<Rightarrow> string list \<Rightarrow> RxPacket \<Rightarrow> RxPacket \<Rightarrow> bool" where
  "framed n bs p p' \<longleftrightarrow> (let c = unat (msg_count p) in
     p' = p\<lparr>rx_offsets := rx_offsets p', msg_count := msg_count p'\<rparr> \<and> length (rx_offsets p') = 32 \<and> unat (msg_count p') = c + length bs
     \<and> (\<forall>j < c. rx_offsets p' ! j = rx_offsets p ! j)
     \<and> (\<forall>j < length bs. unat (rx_offsets p' ! (c + j)) = n + length (sequenced (take j bs))))"

lemma framed_data: "framed n bs p p' \<Longrightarrow> rx_data p' = rx_data p"
  unfolding framed_def Let_def by (metis RxPacket.select_convs(1) RxPacket.surjective RxPacket.update_convs(3,5))

lemma framed_Nil: "length (rx_offsets p) = 32 \<Longrightarrow> framed n [] p p"
  by (simp add: framed_def Let_def)

lemma framed_Cons:
  assumes "framed (n + length b + 3) bs (name_packet n p) p'" "unat (msg_count p) < 32" "length (rx_offsets p) = 32" "n < 65536"
  shows "framed n (b # bs) p p'"
proof -
  let ?c = "unat (msg_count p)"
  have c: "unat (msg_count p + 1) = ?c + 1" using assms(2) by (simp add: unat_word_ariths)
  note f = assms(1) [unfolded framed_def Let_def name_packet_simps c]
  have "rx_offsets p' ! j = rx_offsets p ! j" if "j < ?c" for j using that f by simp
  moreover have "unat (rx_offsets p' ! (?c + j)) = n + length (sequenced (take j (b # bs)))" if "j < length (b # bs)" for j
  proof (cases j)
    case 0
    then show ?thesis using f assms(2-4) unat_u16 [of n] by simp
  next
    case (Suc j')
    then have "j' < length bs" using that by simp
    then have "unat (rx_offsets p' ! (?c + 1 + j')) = n + length b + 3 + length (sequenced (take j' bs))" using f by blast
    then show ?thesis using Suc by (simp add: length_concat)
  qed
  ultimately show ?thesis using f unfolding framed_def Let_def by simp
qed

lemma frame_whole:
  assumes "drop n (rx_data (packet_pool io k)) = sequenced bs @ r" "n + length (sequenced bs) \<le> recv_len"
    and "recv_len \<le> 2048" "unat (msg_count (packet_pool io k)) + length bs \<le> 32" "length (rx_offsets (packet_pool io k)) = 32"
    and "session_sbt i (net_sessions io) = Some q"
  shows "\<exists>sm p. frame_packets os clk i k recv_len (of_nat n) io
      = frame_packets os clk i k recv_len (of_nat (n + length (sequenced bs))) (io\<lparr>packet_pool := (packet_pool io)(k := p), net_sessions := sm\<rparr>)
    \<and> session_sbt i sm = Some (q\<lparr>last_seen_seqnum := last_seen_seqnum q + of_nat (length bs)\<rparr>)
    \<and> framed n bs (packet_pool io k) p"
  using assms
proof (induction bs arbitrary: n io q)
  case Nil
  then have "framed n [] (packet_pool io k) (packet_pool io k)" by (simp add: framed_Nil)
  then show ?case using Nil(6) by (intro exI [of _ "net_sessions io"] exI [of _ "packet_pool io k"]) simp
next
  case (Cons b bs)
  let ?p = "packet_pool io k"
  let ?n = "n + length b + 3"
  obtain sm where sm: "set_sbt i (increase_seq q) (net_sessions io) = Some sm" using set_sbt_defined [OF Cons.prems(6)] by blast
  define io2 where "io2 = upd_rxPkt k (\<lambda>_. name_packet n ?p) (io\<lparr>net_sessions := sm\<rparr>)"
  have c: "unat (msg_count ?p) < 32" "unat (msg_count ?p + 1) = unat (msg_count ?p) + 1" using Cons.prems(4) by (simp_all add: unat_word_ariths)
  have n: "n + length b + 3 \<le> recv_len" using Cons.prems(2) by simp
  from frame_step [of n io k b "sequenced bs @ r", OF _ this Cons.prems(3) c(1) Cons.prems(6) sm] Cons.prems(1)
  have step: "frame_packets os clk i k recv_len (of_nat n) io = frame_packets os clk i k recv_len (of_nat ?n) io2" by (simp add: io2_def)
  have pool: "packet_pool io2 k = name_packet n ?p" "net_sessions io2 = sm" by (simp_all add: io2_def upd_rxPkt_def)
  have direct: "io2\<lparr>packet_pool := (packet_pool io2)(k := p), net_sessions := sm1\<rparr> = io\<lparr>packet_pool := (packet_pool io)(k := p), net_sessions := sm1\<rparr>"
    for p sm1 by (simp add: io2_def upd_rxPkt_def)
  have "\<exists>sm1 p. frame_packets os clk i k recv_len (of_nat ?n) io2
      = frame_packets os clk i k recv_len (of_nat (?n + length (sequenced bs))) (io2\<lparr>packet_pool := (packet_pool io2)(k := p), net_sessions := sm1\<rparr>)
    \<and> session_sbt i sm1 = Some ((increase_seq q)\<lparr>last_seen_seqnum := last_seen_seqnum (increase_seq q) + of_nat (length bs)\<rparr>)
    \<and> framed ?n bs (packet_pool io2 k) p"
  proof (rule Cons.IH)
    show "drop ?n (rx_data (packet_pool io2 k)) = sequenced bs @ r"
      using arg_cong [OF Cons.prems(1), of "drop (length b + 3)"] by (simp add: pool add.commute add.left_commute)
    show "session_sbt i (net_sessions io2) = Some (increase_seq q)" using set_sbt_get(1) [OF sm] by (simp add: pool)
    show "unat (msg_count (packet_pool io2 k)) + length bs \<le> 32" using Cons.prems(4) c(2) by (simp add: pool)
  qed (use Cons.prems(2,3,5) in \<open>simp_all add: pool\<close>)
  then obtain sm1 p where ih: "frame_packets os clk i k recv_len (of_nat ?n) io2
      = frame_packets os clk i k recv_len (of_nat (?n + length (sequenced bs))) (io2\<lparr>packet_pool := (packet_pool io2)(k := p), net_sessions := sm1\<rparr>)"
    "session_sbt i sm1 = Some ((increase_seq q)\<lparr>last_seen_seqnum := last_seen_seqnum (increase_seq q) + of_nat (length bs)\<rparr>)"
    "framed ?n bs (packet_pool io2 k) p" by blast
  have "framed n (b # bs) ?p p" using framed_Cons [of n b bs ?p p] ih(3) c(1) Cons.prems(3,5) n by (simp add: pool)
  moreover have "session_sbt i sm1 = Some (q\<lparr>last_seen_seqnum := last_seen_seqnum q + of_nat (length (b # bs))\<rparr>)"
    using ih(2) by (simp add: increase_seq_def)
  moreover have "?n + length (sequenced bs) = n + length (sequenced (b # bs))" by simp
  then have "frame_packets os clk i k recv_len (of_nat n) io
    = frame_packets os clk i k recv_len (of_nat (n + length (sequenced (b # bs)))) (io\<lparr>packet_pool := (packet_pool io)(k := p), net_sessions := sm1\<rparr>)"
    using step ih(1) by (simp only: direct)
  ultimately show ?case by blast
qed

lemma frame_end: "n = recv_len \<Longrightarrow> recv_len \<le> 2048 \<Longrightarrow> frame_packets os clk i k recv_len (of_nat n) io = Some (True, io)"
  using unat_u16 [of n] by (subst frame_packets.simps) simp

lemma framed_names:
  assumes "framed n (map wire ms) p p'" "drop n (rx_data p) = sequenced (map wire ms) @ r" "msg_count p = 0" "length ms \<le> 32"
  shows "names_messages 3 wire ms p'"
proof -
  have f: "rx_data p' = rx_data p" "length (rx_offsets p') = 32" "unat (msg_count p') = length ms"
    "\<forall>j < length ms. unat (rx_offsets p' ! j) = n + length (sequenced (take j (map wire ms)))"
    using framed_data [OF assms(1)] assms(1,3) by (simp_all add: framed_def)
  have "drop (unat (rx_offsets p' ! j)) (rx_data p') = (bytes_u16_be (of_nat (length (wire (ms ! j)) + 1)) @ ''S'') @ wire (ms ! j)
      @ sequenced (map wire (drop (Suc j) ms)) @ r" if "j < length ms" for j
  proof -
    have "drop (unat (rx_offsets p' ! j)) (rx_data p') = drop (length (sequenced (take j (map wire ms)))) (drop n (rx_data p))"
      using f(1,4) that by (simp add: add.commute)
    also have "\<dots> = sbt_packet (CHR ''S'') (wire (ms ! j)) @ sequenced (map wire (drop (Suc j) ms)) @ r"
      using packet_positions [of j "map wire ms" "sbt_packet (CHR ''S'')" r] that assms(2) by (simp add: drop_map)
    finally show ?thesis by (simp add: sbt_packet_def)
  qed
  moreover have "length (bytes_u16_be (of_nat (length (wire (ms ! j)) + 1)) @ ''S'') = 3" for j by simp
  ultimately show ?thesis using f(2,3) assms(4) unfolding names_messages_def by blast
qed

subsection \<open>Receiving\<close>

text \<open>The thread can receive for a socket: nothing waits from earlier, and \<open>ks\<close> are free packets.\<close>

definition ready_to_receive :: "nat \<Rightarrow> nat list \<Rightarrow> NetworkIO \<Rightarrow> bool" where
  "ready_to_receive i ks io \<longleftrightarrow> cq_wf 8 (pending_read io i) \<and> cq_rep (pending_read io i) = []
     \<and> spsc_inv Q1024 (free_pkt_list io) \<and> take (length ks) (spsc_rep Q1024 (free_pkt_list io)) = ks
     \<and> distinct ks \<and> (\<forall>k \<in> set ks. length (rx_data (packet_pool io k)) = 2048 \<and> msg_count (packet_pool io k) = 0
          \<and> length (rx_offsets (packet_pool io k)) = 32 \<and> is_len_received (packet_pool io k))
     \<and> spsc_inv Q1024 (receiver_to_parser io) \<and> length (spsc_rep Q1024 (receiver_to_parser io)) + length ks \<le> 1024"

lemma ready_prefix:
  assumes "ready_to_receive i (ks @ ls) io"
  shows "ready_to_receive i ks io"
proof -
  have "take (length ks + length ls) (spsc_rep Q1024 (free_pkt_list io)) = ks @ ls" using assms by (simp add: ready_to_receive_def)
  from arg_cong [OF this, of "take (length ks)"] have "take (length ks) (spsc_rep Q1024 (free_pkt_list io)) = ks" by (simp add: min_def)
  then show ?thesis using assms by (simp add: ready_to_receive_def)
qed

text \<open>The packet with the bytes received in it.\<close>

definition filled :: "u64 \<Rightarrow> string \<Rightarrow> RxPacket \<Rightarrow> RxPacket" where
  "filled e bytes p = p\<lparr>rx_protocol := unpack_protocol e, rx_venue := unpack_venue e, rx_data := bytes @ drop (length bytes) (rx_data p),
     rx_len := of_nat (length bytes)\<rparr>"

definition received :: "int \<Rightarrow> u64 \<Rightarrow> nat \<Rightarrow> nat spsc \<Rightarrow> string \<Rightarrow> NetworkIO \<Rightarrow> NetworkIO" where
  "received sock e k fr bytes io = io\<lparr>free_pkt_list := fr, packet_pool := (packet_pool io)(k := filled e bytes (packet_pool io k)),
     net_calls := net_calls io @ [C_recv sock 2048]\<rparr>"

lemma received_frame [simp]:
  "packet_pool (received sock e k fr bytes io) = (packet_pool io)(k := filled e bytes (packet_pool io k))"
  "net_sessions (received sock e k fr bytes io) = net_sessions io" "pending_read (received sock e k fr bytes io) = pending_read io"
  "receiver_to_parser (received sock e k fr bytes io) = receiver_to_parser io" "free_pkt_list (received sock e k fr bytes io) = fr"
  by (simp_all add: received_def)

lemma filled_simps [simp]:
  "rx_data (filled e bytes p) = bytes @ drop (length bytes) (rx_data p)" "rx_len (filled e bytes p) = of_nat (length bytes)"
  "msg_count (filled e bytes p) = msg_count p" "rx_offsets (filled e bytes p) = rx_offsets p" "is_len_received (filled e bytes p) = is_len_received p"
  by (simp_all add: filled_def)

text \<open>What the system returns for a call that receives \<open>bytes\<close>.\<close>

definition recv_delivers :: "OS \<Rightarrow> nat \<Rightarrow> int \<Rightarrow> string \<Rightarrow> bool" where
  "recv_delivers os n sock bytes \<longleftrightarrow> bytes \<noteq> [] \<and> length bytes \<le> 2048
     \<and> res_ret (os n (C_recv sock 2048)) = int (length bytes) \<and> res_bytes (os n (C_recv sock 2048)) = bytes"

lemma receive_bytes:
  assumes "flush_read i io = Some io1" "spsc_pop Q1024 (free_pkt_list io1) = (Some k, fr)" "length (rx_data (packet_pool io1 k)) = 2048"
    and "recv_delivers os (length (net_calls io1)) sock bytes" "unpack_protocol e = OUCH"
  shows "receive os clk sock e i io = do {
     (try_push, io5) \<leftarrow> SBTPacketHandler os clk k (length bytes) i (received sock e k fr bytes io1);
     (if try_push then hand_over i k io5 else Some io5) }"
proof -
  have "upd_rxPkt k (\<lambda>p. p\<lparr>rx_data := bytes @ drop (length bytes) (rx_data (packet_pool io1 k)), rx_len := of_nat (length bytes)\<rparr>)
      (upd_rxPkt k (\<lambda>p. p\<lparr>rx_protocol := OUCH, rx_venue := unpack_venue e\<rparr>) (io1\<lparr>free_pkt_list := fr\<rparr>)\<lparr>net_calls := net_calls io1 @ [C_recv sock 2048]\<rparr>)
      = received sock e k fr bytes io1"
    by (simp add: received_def filled_def upd_rxPkt_def assms(5))
  then show ?thesis using assms unfolding recv_delivers_def
    by (subst receive.simps) (simp add: syscall_def upd_rxPkt_def write_bytes_def Let_def case_prod_beta)
qed

lemma pop_read_empty: "cq_wf 8 (pending_read io i) \<Longrightarrow> cq_rep (pending_read io i) = [] \<Longrightarrow> pop_read i io = (None, io)"
  using cq_empty_iff [of 8 "pending_read io i"] by (simp add: pop_read_def cq_pop_def)

lemma handler_no_partial:
  assumes "cq_wf 8 (pending_read io i)" "cq_rep (pending_read io i) = []" "0 < recv_len"
  shows "SBTPacketHandler os clk k recv_len i io = frame_packets os clk i k recv_len 0 io"
  using pop_read_empty [OF assms(1,2)] assms(3) by (simp add: SBTPacketHandler_def finish_pending.simps)

lemma push_accepted:
  assumes "spsc_inv Q1024 q" "length (spsc_rep Q1024 q) < 1024"
  shows "fst (spsc_push Q1024 x q)"
proof -
  have "spsc_len q < 2 ^ (Q1024 + 3)" using assms(2) by (simp add: Q1024_def)
  then show ?thesis by (simp add: spsc_push_cases [OF assms(1)])
qed

lemma hand_over_room:
  assumes "spsc_inv Q1024 (receiver_to_parser io)" "length (spsc_rep Q1024 (receiver_to_parser io)) < 1024"
  obtains io' where "hand_over i k io = Some io'" "io' = io\<lparr>receiver_to_parser := receiver_to_parser io'\<rparr>"
    "spsc_inv Q1024 (receiver_to_parser io')" "spsc_rep Q1024 (receiver_to_parser io') = spsc_rep Q1024 (receiver_to_parser io) @ [k]"
proof -
  have "fst (spsc_push Q1024 k (receiver_to_parser io))" by (rule push_accepted [OF assms])
  then have "hand_over i k io = Some (io\<lparr>receiver_to_parser := snd (spsc_push Q1024 k (receiver_to_parser io))\<rparr>)"
    by (cases "spsc_push Q1024 k (receiver_to_parser io)") (simp add: hand_over_def to_parser_def)
  then show thesis using that push_room [OF assms, of k] by simp
qed

text \<open>Whole packets at the end of the data received are handed to the parser.\<close>

lemma frame_deliver:
  assumes "drop n (rx_data (packet_pool io k)) = sequenced (map wire ms) @ r" "recv_len = n + length (sequenced (map wire ms))" "recv_len \<le> 2048"
    and "msg_count (packet_pool io k) = 0" "length (rx_offsets (packet_pool io k)) = 32" "length ms \<le> 32"
    and "session_sbt i (net_sessions io) = Some q"
    and "spsc_inv Q1024 (receiver_to_parser io)" "length (spsc_rep Q1024 (receiver_to_parser io)) < 1024"
  shows "\<exists>io'. do {
       (try_push, io5) \<leftarrow> frame_packets os clk i k recv_len (of_nat n) io;
       (if try_push then hand_over i k io5 else Some io5) } = Some io'
    \<and> names_messages 3 wire ms (packet_pool io' k) \<and> framed n (map wire ms) (packet_pool io k) (packet_pool io' k)
    \<and> (\<forall>m. m \<noteq> k \<longrightarrow> packet_pool io' m = packet_pool io m) \<and> free_pkt_list io' = free_pkt_list io
    \<and> spsc_inv Q1024 (receiver_to_parser io')
    \<and> spsc_rep Q1024 (receiver_to_parser io') = spsc_rep Q1024 (receiver_to_parser io) @ [k]
    \<and> session_sbt i (net_sessions io') = Some (q\<lparr>last_seen_seqnum := last_seen_seqnum q + of_nat (length ms)\<rparr>)"
proof -
  have "\<exists>sm p. frame_packets os clk i k recv_len (of_nat n) io
      = frame_packets os clk i k recv_len (of_nat (n + length (sequenced (map wire ms)))) (io\<lparr>packet_pool := (packet_pool io)(k := p), net_sessions := sm\<rparr>)
    \<and> session_sbt i sm = Some (q\<lparr>last_seen_seqnum := last_seen_seqnum q + of_nat (length (map wire ms))\<rparr>)
    \<and> framed n (map wire ms) (packet_pool io k) p"
    by (rule frame_whole [OF assms(1) _ assms(3)]) (use assms(2,4-7) in simp_all)
  then obtain sm p where f: "frame_packets os clk i k recv_len (of_nat n) io
      = frame_packets os clk i k recv_len (of_nat (n + length (sequenced (map wire ms)))) (io\<lparr>packet_pool := (packet_pool io)(k := p), net_sessions := sm\<rparr>)"
    "session_sbt i sm = Some (q\<lparr>last_seen_seqnum := last_seen_seqnum q + of_nat (length ms)\<rparr>)" "framed n (map wire ms) (packet_pool io k) p" by auto
  define io5 where "io5 = io\<lparr>packet_pool := (packet_pool io)(k := p), net_sessions := sm\<rparr>"
  have fp: "frame_packets os clk i k recv_len (of_nat n) io = Some (True, io5)"
    unfolding f(1) io5_def by (rule frame_end) (use assms(2,3) in simp_all)
  obtain io' where io': "hand_over i k io5 = Some io'" "io' = io5\<lparr>receiver_to_parser := receiver_to_parser io'\<rparr>"
    "spsc_rep Q1024 (receiver_to_parser io') = spsc_rep Q1024 (receiver_to_parser io5) @ [k]" "spsc_inv Q1024 (receiver_to_parser io')"
    by (rule hand_over_room [of io5 i k]) (use assms(8,9) in \<open>simp_all add: io5_def\<close>)
  have same: "packet_pool io' = (packet_pool io)(k := p)" "net_sessions io' = sm" "free_pkt_list io' = free_pkt_list io"
    by (subst io'(2), simp add: io5_def)+
  have "names_messages 3 wire ms p" by (rule framed_names [OF f(3) assms(1,4,6)])
  then show ?thesis using fp io'(1,3,4) same f(2,3) by (simp add: io5_def)
qed

lemma receive_whole:
  assumes "ready_to_receive i [k] io" "recv_delivers os (length (net_calls io)) sock (sequenced (map wire ms))" "unpack_protocol e = OUCH"
    and "session_sbt i (net_sessions io) = Some q" "length ms \<le> 32"
  shows "\<exists>io'. receive os clk sock e i io = Some io' \<and> names_messages 3 wire ms (packet_pool io' k)
    \<and> framed 0 (map wire ms) (filled e (sequenced (map wire ms)) (packet_pool io k)) (packet_pool io' k)
    \<and> spsc_inv Q1024 (free_pkt_list io') \<and> spsc_rep Q1024 (free_pkt_list io') = tl (spsc_rep Q1024 (free_pkt_list io))
    \<and> spsc_inv Q1024 (receiver_to_parser io')
    \<and> spsc_rep Q1024 (receiver_to_parser io') = spsc_rep Q1024 (receiver_to_parser io) @ [k]
    \<and> session_sbt i (net_sessions io') = Some (q\<lparr>last_seen_seqnum := last_seen_seqnum q + of_nat (length ms)\<rparr>)"
proof -
  let ?b = "sequenced (map wire ms)"
  have d: "?b \<noteq> []" "length ?b \<le> 2048" using assms(2) by (simp_all add: recv_delivers_def)
  have rd: "cq_wf 8 (pending_read io i)" "cq_rep (pending_read io i) = []" "spsc_inv Q1024 (free_pkt_list io)"
    "length (rx_data (packet_pool io k)) = 2048" "msg_count (packet_pool io k) = 0" "length (rx_offsets (packet_pool io k)) = 32"
    "spsc_inv Q1024 (receiver_to_parser io)" "length (spsc_rep Q1024 (receiver_to_parser io)) < 1024"
    using assms(1) by (simp_all add: ready_to_receive_def)
  obtain xs where xs: "spsc_rep Q1024 (free_pkt_list io) = k # xs"
    using assms(1) by (cases "spsc_rep Q1024 (free_pkt_list io)") (auto simp: ready_to_receive_def)
  then obtain fr where fr: "spsc_pop Q1024 (free_pkt_list io) = (Some k, fr)" and frs: "spsc_inv Q1024 fr" "spsc_rep Q1024 fr = xs"
    using pop_front [OF rd(3)] by metis
  have fl: "flush_read i io = Some io" using pop_read_empty [OF rd(1,2)] by (simp add: flush_read.simps)
  let ?io = "received sock e k fr ?b io"
  have h: "SBTPacketHandler os clk k (length ?b) i ?io = frame_packets os clk i k (length ?b) (of_nat 0) ?io"
    using handler_no_partial [of ?io i "length ?b" os clk k] rd(1,2) d(1) by (simp del: length_concat)
  have "\<exists>io'. do {
       (try_push, io5) \<leftarrow> frame_packets os clk i k (length ?b) (of_nat 0) ?io;
       (if try_push then hand_over i k io5 else Some io5) } = Some io'
    \<and> names_messages 3 wire ms (packet_pool io' k) \<and> framed 0 (map wire ms) (packet_pool ?io k) (packet_pool io' k)
    \<and> (\<forall>m. m \<noteq> k \<longrightarrow> packet_pool io' m = packet_pool ?io m) \<and> free_pkt_list io' = free_pkt_list ?io
    \<and> spsc_inv Q1024 (receiver_to_parser io')
    \<and> spsc_rep Q1024 (receiver_to_parser io') = spsc_rep Q1024 (receiver_to_parser ?io) @ [k]
    \<and> session_sbt i (net_sessions io') = Some (q\<lparr>last_seen_seqnum := last_seen_seqnum q + of_nat (length ms)\<rparr>)"
    by (rule frame_deliver [where r = "drop (length ?b) (rx_data (packet_pool io k))", OF _ _ d(2)]) (use assms(4,5) rd(5-8) in simp_all)
  then show ?thesis using receive_bytes [OF fl fr rd(4) assms(2,3)] frs xs by (simp only: h received_frame fun_upd_same list.sel) blast
qed

subsection \<open>A packet cut in two\<close>

text \<open>A packet of \<open>L\<close> bytes of which the first part has come waits in packet \<open>j\<close> of the pool.\<close>

definition partial_waits :: "nat \<Rightarrow> nat \<Rightarrow> string \<Rightarrow> nat \<Rightarrow> NetworkIO \<Rightarrow> bool" where
  "partial_waits i j part L io \<longleftrightarrow> cq_wf 8 (pending_read io i) \<and> cq_rep (pending_read io i) = [j]
     \<and> (let p = packet_pool io j in rx_partial p \<and> is_len_received p \<and> rx_len p = of_nat L \<and> last_pkt_remaining_len p = of_nat (L - length part)
          \<and> length (rx_offsets p) = 32 \<and> length (rx_data p) = 2048 \<and> take (length part) (rx_data p) = part)"

lemma cq_push_room: "cq_wf 8 q \<Longrightarrow> length (cq_rep q) < 255 \<Longrightarrow> cq_wf 8 (snd (cq_push x q)) \<and> cq_rep (snd (cq_push x q)) = cq_rep q @ [x]"
  using cq_push_wf [of 8 q x] cq_push_rep [of 8 q x] by simp

lemma sbt_frame_cut:
  assumes "drop n (rx_data (packet_pool io k)) = part @ r" "part = take c (sbt_packet t body)" "recv_len = n + c" "recv_len \<le> 2048"
    and "2 \<le> c" "c < length body + 3" "length body + 3 \<le> 2048"
    and "spsc_inv Q1024 (free_pkt_list io)" "spsc_rep Q1024 (free_pkt_list io) = j # xs"
    and "length (rx_data (packet_pool io j)) = 2048" "length (rx_offsets (packet_pool io j)) = 32" "is_len_received (packet_pool io j)"
    and "cq_wf 8 (pending_read io i)" "cq_rep (pending_read io i) = []"
  shows "\<exists>io'. frame_packets os clk i k recv_len (of_nat n) io = Some (False, io') \<and> partial_waits i j part (length body + 3) io'
    \<and> receiver_to_parser io' = receiver_to_parser io \<and> net_sessions io' = net_sessions io \<and> net_calls io' = net_calls io
    \<and> spsc_inv Q1024 (free_pkt_list io') \<and> spsc_rep Q1024 (free_pkt_list io') = xs
    \<and> (\<forall>m. m \<noteq> j \<longrightarrow> packet_pool io' m = packet_pool io m)"
proof -
  let ?L = "length body + 3"
  have n: "unat (of_nat n :: u16) = n" "unat (of_nat ?L :: u16) = ?L" using assms(3,4,7) by (simp_all only: unat_u16)
  have lp: "length part = c" using assms(2,6) by simp
  obtain c' where c': "c = Suc (Suc c')" using assms(5) by (metis add_2_eq_Suc le_Suc_ex)
  have "part = bytes_u16_be (of_nat (length body + 1)) @ take c' (t # body)"
    using assms(2) by (simp add: c' sbt_packet_def bytes_u16_be_def)
  then have "read_u16_be (drop n (rx_data (packet_pool io k))) = Some (of_nat (length body + 1))" using assms(1) by (simp add: read_bytes_be)
  moreover have "of_nat (length body + 1) + 2 = (of_nat ?L :: u16)" by simp
  moreover have "n < recv_len" "recv_len - n = c" "c \<noteq> 1" "recv_len < ?L + n" using assms(3,5,6) by simp_all
  ultimately have fr: "frame_packets os clk i k recv_len (of_nat n) io
      = map_option (Pair False) (keep_partial i k recv_len (of_nat n) (of_nat ?L) False io)"
    by (subst frame_packets.simps) (simp add: n Let_def del: of_nat_add of_nat_Suc of_nat_numeral)
  obtain fl where fl: "spsc_pop Q1024 (free_pkt_list io) = (Some j, fl)" "spsc_inv Q1024 fl" "spsc_rep Q1024 fl = xs"
    using pop_front [OF assms(8,9)] by metis
  have rb: "read_bytes c (drop n (rx_data (packet_pool io k))) = Some part" using assms(1) lp by (simp add: read_bytes_def)
  have wb: "write_bytes 0 part (rx_data (packet_pool io j)) = Some (part @ drop c (rx_data (packet_pool io j)))"
    using lp assms(3,4,10) by (simp add: write_bytes_def)
  have rem: "(of_int (int ?L - int c) :: i16) = of_nat (?L - c)" using assms(6) by (simp only: of_nat_diff of_nat_id of_int_of_nat_eq less_imp_le flip: of_nat_diff)
  define p where "p = (packet_pool io j)\<lparr>rx_data := part @ drop c (rx_data (packet_pool io j)), rx_partial := True, rx_len := of_nat ?L,
    last_pkt_remaining_len := of_nat (?L - c), rx_protocol := rx_protocol (packet_pool io k), rx_venue := rx_venue (packet_pool io k)\<rparr>"
  define io' where "io' = push_read i j (upd_rxPkt j (\<lambda>_. p) (io\<lparr>free_pkt_list := fl\<rparr>))"
  have kp: "keep_partial i k recv_len (of_nat n) (of_nat ?L) False io = Some io'"
    unfolding keep_partial_def
    by (simp only: fl(1) Let_def n prod.case option.case bind.bind_lunit \<open>recv_len - n = c\<close> rb if_False simp_thms)
      (simp add: wb rem [simplified] io'_def p_def)
  have "packet_pool io' j = p" "pending_read io' i = snd (cq_push j (pending_read io i))" by (simp_all add: io'_def push_read_def upd_rxPkt_def)
  then have "partial_waits i j part ?L io'"
    using cq_push_room [OF assms(13), of j] assms(3,4,10-12,14) lp by (simp add: partial_waits_def p_def)
  moreover have "receiver_to_parser io' = receiver_to_parser io" "net_sessions io' = net_sessions io" "net_calls io' = net_calls io"
    "free_pkt_list io' = fl" "\<forall>m. m \<noteq> j \<longrightarrow> packet_pool io' m = packet_pool io m"
    by (simp_all add: io'_def push_read_def upd_rxPkt_def)
  ultimately show ?thesis using fr kp fl(2,3) by simp
qed

text \<open>The first part comes, perhaps behind whole packets; those are named in a packet that nobody gets.\<close>

lemma receive_cut:
  assumes "ready_to_receive i (k # j # ks) io" "recv_delivers os (length (net_calls io)) sock (sequenced bs @ part)" "unpack_protocol e = OUCH"
    and "part = take c (sbt_packet t body)" "2 \<le> c" "c < length body + 3" "length body + 3 \<le> 2048"
    and "session_sbt i (net_sessions io) = Some q" "length bs \<le> 32"
  shows "\<exists>io'. receive os clk sock e i io = Some io' \<and> partial_waits i j part (length body + 3) io'
    \<and> receiver_to_parser io' = receiver_to_parser io
    \<and> session_sbt i (net_sessions io') = Some (q\<lparr>last_seen_seqnum := last_seen_seqnum q + of_nat (length bs)\<rparr>)
    \<and> length (net_calls io') = length (net_calls io) + 1
    \<and> spsc_inv Q1024 (free_pkt_list io') \<and> take (length ks) (spsc_rep Q1024 (free_pkt_list io')) = ks
    \<and> (\<forall>m \<in> set ks. packet_pool io' m = packet_pool io m)"
proof -
  let ?b = "sequenced bs @ part" and ?n = "length (sequenced bs)"
  have d: "length ?b \<le> 2048" using assms(2) by (simp add: recv_delivers_def)
  have lp: "length part = c" using assms(4,6) by simp
  have rd: "cq_wf 8 (pending_read io i)" "cq_rep (pending_read io i) = []" "spsc_inv Q1024 (free_pkt_list io)"
    "\<forall>m \<in> {k, j}. length (rx_data (packet_pool io m)) = 2048 \<and> msg_count (packet_pool io m) = 0 \<and> length (rx_offsets (packet_pool io m)) = 32
       \<and> is_len_received (packet_pool io m)" "k \<noteq> j" "k \<notin> set ks" "j \<notin> set ks"
    using assms(1) by (simp_all add: ready_to_receive_def)
  obtain xs where "spsc_rep Q1024 (free_pkt_list io) = k # j # xs" and ks: "take (length ks) xs = ks"
    using assms(1) by (cases "spsc_rep Q1024 (free_pkt_list io)"; cases "tl (spsc_rep Q1024 (free_pkt_list io))") (auto simp: ready_to_receive_def)
  then obtain fr where fr: "spsc_pop Q1024 (free_pkt_list io) = (Some k, fr)" "spsc_inv Q1024 fr" "spsc_rep Q1024 fr = j # xs" using pop_front [OF rd(3)] by metis
  have fl: "flush_read i io = Some io" using pop_read_empty [OF rd(1,2)] by (simp add: flush_read.simps)
  let ?io = "received sock e k fr ?b io"
  have h: "SBTPacketHandler os clk k (length ?b) i ?io = frame_packets os clk i k (length ?b) (of_nat 0) ?io"
    using handler_no_partial [of ?io i "length ?b" os clk k] rd(1,2) lp assms(5) by (simp del: length_concat)
  let ?r = "drop (length ?b) (rx_data (packet_pool io k))"
  have "\<exists>sm p. frame_packets os clk i k (length ?b) (of_nat 0) ?io
      = frame_packets os clk i k (length ?b) (of_nat (0 + ?n)) (?io\<lparr>packet_pool := (packet_pool ?io)(k := p), net_sessions := sm\<rparr>)
    \<and> session_sbt i sm = Some (q\<lparr>last_seen_seqnum := last_seen_seqnum q + of_nat (length bs)\<rparr>) \<and> framed 0 bs (packet_pool ?io k) p"
    by (rule frame_whole [where r = "part @ ?r"]) (use assms(8,9) rd(4) d in simp_all)
  then obtain sm p where f: "frame_packets os clk i k (length ?b) (of_nat 0) ?io
      = frame_packets os clk i k (length ?b) (of_nat (0 + ?n)) (?io\<lparr>packet_pool := (packet_pool ?io)(k := p), net_sessions := sm\<rparr>)"
    "session_sbt i sm = Some (q\<lparr>last_seen_seqnum := last_seen_seqnum q + of_nat (length bs)\<rparr>)"
    "framed 0 bs (packet_pool ?io k) p" by auto
  define io5 where "io5 = ?io\<lparr>packet_pool := (packet_pool ?io)(k := p), net_sessions := sm\<rparr>"
  have fd: "rx_data p = ?b @ ?r" using framed_data [OF f(3)] by simp
  have io5: "packet_pool io5 = (packet_pool io)(k := p)" "free_pkt_list io5 = fr" "pending_read io5 = pending_read io"
    "receiver_to_parser io5 = receiver_to_parser io" "net_sessions io5 = sm" "length (net_calls io5) = length (net_calls io) + 1"
    by (simp_all add: io5_def received_def)
  have "\<exists>io'. frame_packets os clk i k (length ?b) (of_nat ?n) io5 = Some (False, io') \<and> partial_waits i j part (length body + 3) io'
    \<and> receiver_to_parser io' = receiver_to_parser io5 \<and> net_sessions io' = net_sessions io5 \<and> net_calls io' = net_calls io5
    \<and> spsc_inv Q1024 (free_pkt_list io') \<and> spsc_rep Q1024 (free_pkt_list io') = xs \<and> (\<forall>m. m \<noteq> j \<longrightarrow> packet_pool io' m = packet_pool io5 m)"
    by (rule sbt_frame_cut [where r = ?r, OF _ assms(4) _ d assms(5-7)]) (use fr(2,3) rd lp fd in \<open>simp_all add: io5\<close>)
  then obtain io' where io': "frame_packets os clk i k (length ?b) (of_nat ?n) io5 = Some (False, io')" "partial_waits i j part (length body + 3) io'"
    "receiver_to_parser io' = receiver_to_parser io" "net_sessions io' = sm" "length (net_calls io') = length (net_calls io) + 1"
    "spsc_inv Q1024 (free_pkt_list io')" "spsc_rep Q1024 (free_pkt_list io') = xs" "\<forall>m. m \<noteq> j \<longrightarrow> packet_pool io' m = packet_pool io5 m"
    using io5 by auto
  have "SBTPacketHandler os clk k (length ?b) i ?io = Some (False, io')" using h f(1) io'(1) by (simp only: add_0 io5_def)
  then have "receive os clk sock e i io = Some io'"
    using receive_bytes [OF fl fr(1) _ assms(2,3)] rd(4) by (simp del: length_concat)
  moreover have "\<forall>m \<in> set ks. packet_pool io' m = packet_pool io m" using io'(8) io5(1) rd(6,7) by (metis fun_upd_other)
  ultimately show ?thesis using io' ks f(2) by simp
qed

lemma fill_rest:
  assumes "rx_partial p" "is_len_received p" "rx_len p = of_nat L" "last_pkt_remaining_len p = of_nat (L - c)" "length (rx_data p) = 2048"
    and "c < L" "L \<le> 2048" "L - c \<le> m" "m \<le> 2048" "data = rest @ r" "length rest = L - c"
  shows "fill_partial data (of_nat m) 0 p = Some (True, of_nat (L - c), p\<lparr>rx_data := take c (rx_data p) @ rest @ drop L (rx_data p), rx_partial := False,
    msg_count := 1, rx_offsets := (rx_offsets p)[0 := 0]\<rparr>)"
proof -
  have u: "unat (of_nat (L - c) :: u16) = L - c" "unat (of_nat m :: u16) = m" "unat (of_nat L :: u16) = L" using assms(6-9) by (simp_all only: unat_u16)
  have m: "min (of_nat (L - c) :: u16) (of_nat m) = of_nat (L - c)" using u assms(8) by (simp only: min_def word_le_nat_alt if_True)
  have "sint (of_nat (L - c) :: i16) = int (L - c)"
    using assms(6,7) by (subst signed_of_nat) (simp add: signed_take_bit_int_eq_self)
  then have at: "int (unat (of_nat L :: u16)) - sint (of_nat (L - c) :: i16) = int c" using u assms(6) by simp
  have rb: "read_bytes (L - c) data = Some rest" using assms(10,11) by (simp add: read_bytes_def)
  have wb: "write_bytes c rest (rx_data p) = Some (take c (rx_data p) @ rest @ drop L (rx_data p))"
    using assms(5-7,11) by (simp add: write_bytes_def)
  show ?thesis using assms(2) unfolding fill_partial_def complete_length_def
    by (simp only: if_True Let_def bind.bind_lunit assms(3,4) ucast_id m at u(1) unsigned_0 drop_0 rb wb nat_int) (simp add: guard_def)
qed

lemma pop_read_one:
  assumes "cq_wf 8 (pending_read io i)" "cq_rep (pending_read io i) = [j]"
  obtains pq where "pop_read i io = (Some j, io\<lparr>pending_read := (pending_read io)(i := pq)\<rparr>)" "cq_wf 8 pq" "cq_rep pq = []"
proof -
  obtain r pq where p: "cq_pop (pending_read io i) = (r, pq)" by fastforce
  then have "r = Some j" "cq_wf 8 pq" "cq_rep pq = []"
    using assms(2) cq_pop_fst [OF assms(1)] cq_pop_rep [OF assms(1)] cq_pop_wf [OF assms(1)] by simp_all
  then show thesis using that [of pq] p by (simp add: pop_read_def)
qed

lemma flush_partial:
  assumes "partial_waits i j part L io"
  obtains pq where "flush_read i io = Some (io\<lparr>pending_read := pq\<rparr>)" "partial_waits i j part L (io\<lparr>pending_read := pq\<rparr>)"
proof -
  have w: "cq_wf 8 (pending_read io i)" "cq_rep (pending_read io i) = [j]" "rx_partial (packet_pool io j)"
    using assms by (simp_all add: partial_waits_def Let_def)
  obtain pq where pq: "pop_read i io = (Some j, io\<lparr>pending_read := (pending_read io)(i := pq)\<rparr>)" "cq_wf 8 pq" "cq_rep pq = []"
    using pop_read_one [OF w(1,2)] by blast
  let ?q = "(pending_read io)(i := snd (cq_push j pq))"
  have "flush_read i io = Some (io\<lparr>pending_read := ?q\<rparr>)" using pq(1) w(3) by (simp add: flush_read.simps push_read_def)
  moreover have "partial_waits i j part L (io\<lparr>pending_read := ?q\<rparr>)" using assms cq_push_room [OF pq(2), of j] pq(3) by (simp add: partial_waits_def)
  ultimately show thesis by (rule that)
qed

text \<open>The rest of the packet completes it, and it goes to the parser.\<close>

lemma finish_rest:
  assumes "partial_waits i j part L io" "k \<noteq> j" "rx_data (packet_pool io k) = rest @ r" "rx_len (packet_pool io k) = of_nat m" "m \<le> 2048"
    and "length part + length rest = L" "L \<le> 2048" "rest \<noteq> []" "length rest \<le> m"
    and "spsc_inv Q1024 (receiver_to_parser io)" "length (spsc_rep Q1024 (receiver_to_parser io)) < 1024"
  shows "\<exists>io'. finish_pending i k 0 io = Some (of_nat (length rest), io') \<and> cq_wf 8 (pending_read io' i) \<and> cq_rep (pending_read io' i) = []
    \<and> spsc_inv Q1024 (receiver_to_parser io') \<and> spsc_rep Q1024 (receiver_to_parser io') = spsc_rep Q1024 (receiver_to_parser io) @ [j]
    \<and> net_sessions io' = net_sessions io \<and> (\<forall>m. m \<noteq> j \<longrightarrow> packet_pool io' m = packet_pool io m)
    \<and> (\<exists>d. rx_data (packet_pool io' j) = part @ rest @ d) \<and> msg_count (packet_pool io' j) = 1 \<and> length (rx_offsets (packet_pool io' j)) = 32
    \<and> rx_offsets (packet_pool io' j) ! 0 = 0"
proof -
  let ?p = "packet_pool io j" and ?c = "length part"
  have w: "cq_wf 8 (pending_read io i)" "cq_rep (pending_read io i) = [j]" "rx_partial ?p" "is_len_received ?p" "rx_len ?p = of_nat L"
    "last_pkt_remaining_len ?p = of_nat (L - ?c)" "length (rx_offsets ?p) = 32" "length (rx_data ?p) = 2048" "take ?c (rx_data ?p) = part"
    using assms(1) by (simp_all add: partial_waits_def Let_def)
  have c: "?c < L" "L - ?c = length rest" using assms(6,8) by auto
  obtain pq where pq: "pop_read i io = (Some j, io\<lparr>pending_read := (pending_read io)(i := pq)\<rparr>)" "cq_wf 8 pq" "cq_rep pq = []"
    using pop_read_one [OF w(1,2)] by blast
  define p where "p = ?p\<lparr>rx_data := part @ rest @ drop L (rx_data ?p), rx_partial := False, msg_count := 1, rx_offsets := (rx_offsets ?p)[0 := 0]\<rparr>"
  have fp: "fill_partial (rx_data (packet_pool io k)) (rx_len (packet_pool io k)) 0 ?p = Some (True, of_nat (length rest), p)"
    using fill_rest [OF w(3-6,8) c(1) assms(7) _ assms(5,3) c(2) [symmetric]] assms(9)
    unfolding c(2) w(9) assms(4) p_def by blast
  define io' where "io' = io\<lparr>pending_read := (pending_read io)(i := pq), packet_pool := (packet_pool io)(j := p),
    receiver_to_parser := snd (spsc_push Q1024 j (receiver_to_parser io))\<rparr>"
  have e: "pop_read i io' = (None, io')" by (rule pop_read_empty) (simp_all add: io'_def pq)
  have "to_parser_or_read i j (upd_rxPkt j (\<lambda>_. p) (io\<lparr>pending_read := (pending_read io)(i := pq)\<rparr>)) = io'"
    using push_accepted [OF assms(10,11), of j] by (simp add: to_parser_or_read_def to_parser_def upd_rxPkt_def io'_def case_prod_beta)
  then have "finish_pending i k 0 io = finish_pending i k (of_nat (length rest)) io'"
    by (subst finish_pending.simps) (simp add: pq(1) w(3) fp)
  also have "\<dots> = Some (of_nat (length rest), io')" by (subst finish_pending.simps) (simp add: e)
  finally have fin: "finish_pending i k 0 io = Some (of_nat (length rest), io')" .
  have "pending_read io' i = pq" "receiver_to_parser io' = snd (spsc_push Q1024 j (receiver_to_parser io))" "net_sessions io' = net_sessions io"
    "\<forall>m. m \<noteq> j \<longrightarrow> packet_pool io' m = packet_pool io m" "packet_pool io' j = p" by (simp_all add: io'_def)
  moreover have "rx_data p = part @ rest @ drop L (rx_data ?p)" "msg_count p = 1" "length (rx_offsets p) = 32" "rx_offsets p ! 0 = 0"
    using w(7) by (simp_all add: p_def)
  ultimately show ?thesis using fin pq(2,3) push_room [OF assms(10,11), of j] by simp
qed

lemma receive_rest:
  assumes "partial_waits i j part L io" "spsc_inv Q1024 (free_pkt_list io)" "take 1 (spsc_rep Q1024 (free_pkt_list io)) = [k]" "k \<noteq> j"
    and "length (rx_data (packet_pool io k)) = 2048" "msg_count (packet_pool io k) = 0" "length (rx_offsets (packet_pool io k)) = 32"
    and "spsc_inv Q1024 (receiver_to_parser io)" "length (spsc_rep Q1024 (receiver_to_parser io)) + 2 \<le> 1024"
    and "length part + length rest = L" "L \<le> 2048" "rest \<noteq> []" "part @ rest = sbt_packet (CHR ''S'') (wire m)"
    and "recv_delivers os (length (net_calls io)) sock (rest @ sequenced (map wire ms))" "unpack_protocol e = OUCH"
    and "session_sbt i (net_sessions io) = Some q" "length ms \<le> 32"
  shows "\<exists>io'. receive os clk sock e i io = Some io' \<and> names_messages 3 wire [m] (packet_pool io' j)
    \<and> (ms \<noteq> [] \<longrightarrow> names_messages 3 wire ms (packet_pool io' k))
    \<and> spsc_rep Q1024 (receiver_to_parser io') = spsc_rep Q1024 (receiver_to_parser io) @ [j] @ (if ms = [] then [] else [k])
    \<and> session_sbt i (net_sessions io') = Some (q\<lparr>last_seen_seqnum := last_seen_seqnum q + of_nat (length ms)\<rparr>)"
proof -
  let ?b = "rest @ sequenced (map wire ms)" and ?n = "length rest"
  let ?r = "drop (length ?b) (rx_data (packet_pool io k))"
  have d: "?b \<noteq> []" "length ?b \<le> 2048" using assms(14) by (simp_all add: recv_delivers_def)
  obtain pq where fl: "flush_read i io = Some (io\<lparr>pending_read := pq\<rparr>)" "partial_waits i j part L (io\<lparr>pending_read := pq\<rparr>)"
    using flush_partial [OF assms(1)] by blast
  obtain xs where "spsc_rep Q1024 (free_pkt_list io) = k # xs" using assms(3) by (cases "spsc_rep Q1024 (free_pkt_list io)") auto
  then obtain fr where fr: "spsc_pop Q1024 (free_pkt_list io) = (Some k, fr)" using pop_front [OF assms(2)] by metis
  define io1 where "io1 = io\<lparr>pending_read := pq\<rparr>"
  define io2 where "io2 = received sock e k fr ?b io1"
  have io2: "partial_waits i j part L io2" "rx_data (packet_pool io2 k) = rest @ sequenced (map wire ms) @ ?r" "rx_len (packet_pool io2 k) = of_nat (length ?b)"
    "msg_count (packet_pool io2 k) = 0" "length (rx_offsets (packet_pool io2 k)) = 32" "receiver_to_parser io2 = receiver_to_parser io" "net_sessions io2 = net_sessions io"
    using fl(2) assms(4,6,7) by (simp_all add: io2_def io1_def partial_waits_def)
  have rcv: "receive os clk sock e i io = do {
      (try_push, io5) \<leftarrow> SBTPacketHandler os clk k (length ?b) i io2; (if try_push then hand_over i k io5 else Some io5) }"
    unfolding io2_def io1_def by (rule receive_bytes [OF fl(1)]) (use fr assms(5,14,15) in simp_all)
  have "\<exists>io3. finish_pending i k 0 io2 = Some (of_nat ?n, io3) \<and> cq_wf 8 (pending_read io3 i) \<and> cq_rep (pending_read io3 i) = []
    \<and> spsc_inv Q1024 (receiver_to_parser io3) \<and> spsc_rep Q1024 (receiver_to_parser io3) = spsc_rep Q1024 (receiver_to_parser io2) @ [j]
    \<and> net_sessions io3 = net_sessions io2 \<and> (\<forall>m. m \<noteq> j \<longrightarrow> packet_pool io3 m = packet_pool io2 m)
    \<and> (\<exists>d. rx_data (packet_pool io3 j) = part @ rest @ d) \<and> msg_count (packet_pool io3 j) = 1 \<and> length (rx_offsets (packet_pool io3 j)) = 32
    \<and> rx_offsets (packet_pool io3 j) ! 0 = 0"
    by (rule finish_rest [OF io2(1) assms(4) io2(2,3) d(2) assms(10-12)]) (use assms(8,9) in \<open>simp_all add: io2(6)\<close>)
  then obtain io3 dj where io3: "finish_pending i k 0 io2 = Some (of_nat ?n, io3)" "spsc_inv Q1024 (receiver_to_parser io3)"
    "spsc_rep Q1024 (receiver_to_parser io3) = spsc_rep Q1024 (receiver_to_parser io) @ [j]" "net_sessions io3 = net_sessions io"
    "packet_pool io3 k = packet_pool io2 k" "rx_data (packet_pool io3 j) = part @ rest @ dj" "msg_count (packet_pool io3 j) = 1"
    "length (rx_offsets (packet_pool io3 j)) = 32" "rx_offsets (packet_pool io3 j) ! 0 = 0" unfolding io2(6,7) using assms(4) by auto
  have "part @ rest @ dj = sbt_packet (CHR ''S'') (wire m) @ dj" using assms(13) by (metis append_assoc)
  also have "\<dots> = (bytes_u16_be (of_nat (length (wire m) + 1)) @ ''S'') @ wire m @ dj" by (simp add: sbt_packet_def)
  finally have "\<exists>h r. length h = 3 \<and> rx_data (packet_pool io3 j) = h @ wire m @ r"
    unfolding io3(6) by (intro exI [of _ "bytes_u16_be (of_nat (length (wire m) + 1)) @ ''S''"] exI [of _ dj] conjI) (simp, assumption)
  then have nj: "names_messages 3 wire [m] (packet_pool io3 j)" using io3(7-9) by (simp add: names_messages_def)
  have un: "unat (of_nat ?n :: u16) = ?n" using d(2) by (intro unat_u16) simp
  show ?thesis
  proof (cases "ms = []")
    case True
    then have "SBTPacketHandler os clk k (length ?b) i io2 = Some (False, io3)" using io3(1) un by (simp add: SBTPacketHandler_def)
    then show ?thesis using rcv True io3(3,4) nj assms(16) by simp
  next
    case False
    then have h: "SBTPacketHandler os clk k (length ?b) i io2 = frame_packets os clk i k (length ?b) (of_nat ?n) io3"
      using io3(1) un by (cases ms) (simp_all add: SBTPacketHandler_def)
    have dk: "drop ?n (rx_data (packet_pool io3 k)) = sequenced (map wire ms) @ ?r" using io2(2) io3(5) by simp
    have "\<exists>io'. do {
         (try_push, io5) \<leftarrow> frame_packets os clk i k (length ?b) (of_nat ?n) io3;
         (if try_push then hand_over i k io5 else Some io5) } = Some io'
      \<and> names_messages 3 wire ms (packet_pool io' k) \<and> framed ?n (map wire ms) (packet_pool io3 k) (packet_pool io' k)
      \<and> (\<forall>m. m \<noteq> k \<longrightarrow> packet_pool io' m = packet_pool io3 m) \<and> free_pkt_list io' = free_pkt_list io3
      \<and> spsc_inv Q1024 (receiver_to_parser io')
      \<and> spsc_rep Q1024 (receiver_to_parser io') = spsc_rep Q1024 (receiver_to_parser io3) @ [k]
      \<and> session_sbt i (net_sessions io') = Some (q\<lparr>last_seen_seqnum := last_seen_seqnum q + of_nat (length ms)\<rparr>)"
      by (rule frame_deliver [OF dk _ d(2)]) (use assms(9,16,17) io2(4,5) io3(2,3) in \<open>simp_all add: io3(4,5)\<close>)
    then obtain io' where io': "receive os clk sock e i io = Some io'" "names_messages 3 wire ms (packet_pool io' k)" "packet_pool io' j = packet_pool io3 j"
      "spsc_rep Q1024 (receiver_to_parser io') = spsc_rep Q1024 (receiver_to_parser io3) @ [k]"
      "session_sbt i (net_sessions io') = Some (q\<lparr>last_seen_seqnum := last_seen_seqnum q + of_nat (length ms)\<rparr>)"
      unfolding rcv h using assms(4) [symmetric] by blast
    then show ?thesis using nj False io3(3) by (intro exI [of _ io']) simp
  qed
qed

subsection \<open>Departures\<close>

text \<open>Whole packets in front of a part of one are counted by the session and never reach the parser: the packet
  that names them is handed to nobody.\<close>

lemma cut_packet_drops_whole_ones:
  assumes "ready_to_receive i (k # j # ks) io" "recv_delivers os (length (net_calls io)) sock (sequenced bs @ take c (sbt_packet t body))"
    and "unpack_protocol e = OUCH" "2 \<le> c" "c < length body + 3" "length body + 3 \<le> 2048"
    and "session_sbt i (net_sessions io) = Some q" "length bs \<le> 32"
  shows "\<exists>io'. receive os clk sock e i io = Some io' \<and> receiver_to_parser io' = receiver_to_parser io
    \<and> session_sbt i (net_sessions io') = Some (q\<lparr>last_seen_seqnum := last_seen_seqnum q + of_nat (length bs)\<rparr>)"
  using receive_cut [OF assms(1-3) refl assms(4-8)] by blast

text \<open>The low byte of a length whose first byte came alone is a signed character: a packet of 200 bytes is taken for one of
  more than 65000.\<close>

lemma lone_length_byte_signed:
  "rx_len (complete_length (char_of (200 :: nat)) ((fresh_packet [] 0)\<lparr>is_len_received := False\<rparr>)) = 65482"
  by code_simp

subsection \<open>Properties\<close>

definition sample_rx_net :: NetworkIO where
  "sample_rx_net = sample_net\<lparr>net_sessions := sample_sbt, free_pkt_list := fill_free_list 0 3 (spsc_init Q1024)\<rparr>"

lemma sample_rx_ready: "ready_to_receive 1 [0, 1, 2] sample_rx_net" "session_sbt 1 (net_sessions sample_rx_net) = Some new_Sequence_SBT"
  "receiver_to_parser sample_rx_net = spsc_init Q1024" "net_calls sample_rx_net = []"
  "spsc_rep Q1024 (free_pkt_list sample_rx_net) = [0, 1, 2]"
proof -
  have i: "spsc_inv Q1024 (spsc_init Q1024 :: nat spsc)" by (simp add: spsc_init_inv Q1024_def)
  note p0 = push_room [OF i, of 0]
  note p1 = push_room [OF p0(1), of 1]
  note p2 = push_room [OF p1(1), of 2]
  have f: "spsc_inv Q1024 (free_pkt_list sample_rx_net)" "spsc_rep Q1024 (free_pkt_list sample_rx_net) = [0, 1, 2]"
    using p0 p1 p2 by (simp_all add: sample_rx_net_def numeral_3_eq_3 numeral_2_eq_2)
  then show "ready_to_receive 1 [0, 1, 2] sample_rx_net" using i
    by (simp add: ready_to_receive_def sample_rx_net_def sample_net_def fresh_packet_def cq_wf_def cq_rep_def ring_len_def)
  show "session_sbt 1 (net_sessions sample_rx_net) = Some new_Sequence_SBT" using sample_sbt_seq by (simp add: sample_rx_net_def)
  show "spsc_rep Q1024 (free_pkt_list sample_rx_net) = [0, 1, 2]" by (rule f(2))
  show "receiver_to_parser sample_rx_net = spsc_init Q1024" "net_calls sample_rx_net = []" by (simp_all add: sample_rx_net_def sample_net_def)
qed

definition sample_rx_os :: "string \<Rightarrow> string \<Rightarrow> OS" where
  "sample_rx_os b0 b1 n c = (let b = (if n = 0 then b0 else b1) in \<lparr>res_ret = int (length b), res_errno = 0, res_bytes = b\<rparr>)"

definition sample_reject :: "u64 \<Rightarrow> BIST_OUCHMessage" where
  "sample_reject t = B_OUCHOrderRejected \<lparr>boJ_timestamp = t, boJ_reject_code = 9, boJ_message_type = CHR ''J'', boJ_order_token = ''00000000000012''\<rparr>"

lemma sample_reject_simps [simp]: "bist_ouch_wf (sample_reject t)" "length (bist_ouch_wire (sample_reject t)) = 27"
  by (simp_all add: sample_reject_def bist_ouch_wf_J_def bist_ouch_wire_J_def)

lemma sample_protocol: "unpack_protocol (epollPackData 1 BIST OUCH) = OUCH" by code_simp

text \<open>C13. A packet cut by the network: when the bytes of a SoupBinTCP packet come in two parts, the first of at least two
  bytes, and further packets follow the second, the parser gets the whole packet and behind it the
  one that names the packets that followed, and the message of the first is put into the store's queue.\<close>

theorem ouch_cut_received:
  assumes "ready_to_receive i [k, j, k'] io" "2 \<le> c" "c < length (bist_ouch_wire m) + 3" "length (bist_ouch_wire m) + 3 \<le> 2048"
    and "recv_delivers os (length (net_calls io)) sock (take c (sbt_packet (CHR ''S'') (bist_ouch_wire m)))"
    and "recv_delivers os (length (net_calls io) + 1) sock (drop c (sbt_packet (CHR ''S'') (bist_ouch_wire m)) @ sequenced (map bist_ouch_wire ms))"
    and "unpack_protocol e = OUCH" "session_sbt i (net_sessions io) = Some q" "length ms \<le> 32" "bist_ouch_wf m"
    and "bist_ouch_ok p" "\<forall>m. 1 \<le> length (bist_ouch_free m p)" "store_ready 1 om"
  shows "\<exists>io' p' om'. do { io1 \<leftarrow> receive os clk sock e i io; receive os clk sock e i io1 } = Some io'
    \<and> spsc_rep Q1024 (receiver_to_parser io') = spsc_rep Q1024 (receiver_to_parser io) @ [j] @ (if ms = [] then [] else [k'])
    \<and> parseOUCH_BIST (packet_pool io' j) p om = Some (p', om') \<and> queued om' = queued om @ [\<lparr>mwv_msg = M_BIST_OUCH m, mwv_venue = BIST\<rparr>]
    \<and> (ms \<noteq> [] \<longrightarrow> names_messages 3 bist_ouch_wire ms (packet_pool io' k'))"
proof -
  let ?s = "sbt_packet (CHR ''S'') (bist_ouch_wire m)" and ?L = "length (bist_ouch_wire m) + 3"
  have r: "length (spsc_rep Q1024 (receiver_to_parser io)) + 3 \<le> 1024" "spsc_inv Q1024 (receiver_to_parser io)" "j \<noteq> k'"
    "length (rx_data (packet_pool io k')) = 2048" "msg_count (packet_pool io k') = 0" "length (rx_offsets (packet_pool io k')) = 32"
    using assms(1) by (simp_all add: ready_to_receive_def)
  from receive_cut [of i k j "[k']" io os sock "[]" "take c ?s" e c "CHR ''S''" "bist_ouch_wire m" q clk] assms(1-5,7,8)
  obtain io1 where io1: "receive os clk sock e i io = Some io1" "partial_waits i j (take c ?s) ?L io1" "receiver_to_parser io1 = receiver_to_parser io"
    "session_sbt i (net_sessions io1) = Some q" "length (net_calls io1) = length (net_calls io) + 1"
    "spsc_inv Q1024 (free_pkt_list io1)" "take 1 (spsc_rep Q1024 (free_pkt_list io1)) = [k']" "packet_pool io1 k' = packet_pool io k'" by auto
  have "\<exists>io'. receive os clk sock e i io1 = Some io' \<and> names_messages 3 bist_ouch_wire [m] (packet_pool io' j)
    \<and> (ms \<noteq> [] \<longrightarrow> names_messages 3 bist_ouch_wire ms (packet_pool io' k'))
    \<and> spsc_rep Q1024 (receiver_to_parser io') = spsc_rep Q1024 (receiver_to_parser io1) @ [j] @ (if ms = [] then [] else [k'])
    \<and> session_sbt i (net_sessions io') = Some (q\<lparr>last_seen_seqnum := last_seen_seqnum q + of_nat (length ms)\<rparr>)"
    by (rule receive_rest [OF io1(2,6,7)]) (use assms(2-4,6-9) r io1(3-5,8) in simp_all)
  then obtain io' where io': "receive os clk sock e i io1 = Some io'" "names_messages 3 bist_ouch_wire [m] (packet_pool io' j)"
    "ms \<noteq> [] \<longrightarrow> names_messages 3 bist_ouch_wire ms (packet_pool io' k')"
    "spsc_rep Q1024 (receiver_to_parser io') = spsc_rep Q1024 (receiver_to_parser io) @ [j] @ (if ms = [] then [] else [k'])"
    unfolding io1(3) by blast
  then show ?thesis using bist_ouch.named_delivered [OF io'(2) _ assms(11), of om M_BIST_OUCH BIST] assms(10,12,13) io1(1)
    unfolding parseOUCH_BIST_def by auto
qed

theorem ouch_cut_received_witness:
  "\<exists>io' p' om'. do { io1 \<leftarrow> receive (sample_rx_os (take 7 (sbt_packet (CHR ''S'') (bist_ouch_wire (sample_reject 5))))
          (drop 7 (sbt_packet (CHR ''S'') (bist_ouch_wire (sample_reject 5))) @ sequenced (map bist_ouch_wire [sample_reject 6])))
          (\<lambda>_. 0) 4 (epollPackData 1 BIST OUCH) 1 sample_rx_net;
        receive (sample_rx_os (take 7 (sbt_packet (CHR ''S'') (bist_ouch_wire (sample_reject 5))))
          (drop 7 (sbt_packet (CHR ''S'') (bist_ouch_wire (sample_reject 5))) @ sequenced (map bist_ouch_wire [sample_reject 6])))
          (\<lambda>_. 0) 4 (epollPackData 1 BIST OUCH) 1 io1 } = Some io'
     \<and> spsc_rep Q1024 (receiver_to_parser io') = [1, 2]
     \<and> parseOUCH_BIST (packet_pool io' 1) bist_ouch_new sample_manager = Some (p', om') \<and> map mwv_msg (queued om') = [M_BIST_OUCH (sample_reject 5)]
     \<and> names_messages 3 bist_ouch_wire [sample_reject 6] (packet_pool io' 2)"
proof -
  let ?s = "sbt_packet (CHR ''S'') (bist_ouch_wire (sample_reject 5))" and ?ms = "[sample_reject 6]"
  let ?os = "sample_rx_os (take 7 ?s) (drop 7 ?s @ sequenced (map bist_ouch_wire ?ms))"
  have d: "recv_delivers ?os (length (net_calls sample_rx_net)) 4 (take 7 ?s)"
    "recv_delivers ?os (length (net_calls sample_rx_net) + 1) 4 (drop 7 ?s @ sequenced (map bist_ouch_wire ?ms))"
    by (simp_all add: recv_delivers_def sample_rx_os_def sample_rx_ready(4) sbt_packet_def)
  have "\<exists>io' p' om'. do { io1 \<leftarrow> receive ?os (\<lambda>_. 0) 4 (epollPackData 1 BIST OUCH) 1 sample_rx_net;
        receive ?os (\<lambda>_. 0) 4 (epollPackData 1 BIST OUCH) 1 io1 } = Some io'
    \<and> spsc_rep Q1024 (receiver_to_parser io') = spsc_rep Q1024 (receiver_to_parser sample_rx_net) @ [1] @ (if ?ms = [] then [] else [2])
    \<and> parseOUCH_BIST (packet_pool io' 1) bist_ouch_new sample_manager = Some (p', om')
    \<and> queued om' = queued sample_manager @ [\<lparr>mwv_msg = M_BIST_OUCH (sample_reject 5), mwv_venue = BIST\<rparr>]
    \<and> (?ms \<noteq> [] \<longrightarrow> names_messages 3 bist_ouch_wire ?ms (packet_pool io' 2))"
    by (rule ouch_cut_received [OF sample_rx_ready(1) _ _ _ d sample_protocol sample_rx_ready(2)])
      (simp_all add: bist_ouch_new_ok bist_ouch_new_free sample_store_ready del: upt_rec_numeral)
  then show ?thesis unfolding sample_rx_ready(3) spsc_init_rep sample_queued append_Nil by fastforce
qed

end
