(* ===== verification/Database_Writer.thy ===== *)
theory Database_Writer
  imports Order_Store Ouch_Builders
begin

text \<open>
  The database writer (src/src/database/ClickhouseWriter.h, ClickhousseWriter.cpp).  A row for the client is a table name
  with a block, a list of named columns of one value each; \<open>None\<close> stands for the unreachable defaults
  of the conversions to text and for a text without an end.  The writer takes the entries of the store
  thread and gives those that carry messages back to the parser, which owns their objects.

  In the visitors of the ITCH messages the parameter is \<^verbatim>\<open>const auto *msg\<close>, so \<^verbatim>\<open>MsgType\<close> is a const type and every
  \<^verbatim>\<open>is_same_v\<close> with a message type is false: the branches are discarded at compile time (they name members
  the generated types do not have), and the rows carry the common columns only.
\<close>

subsection \<open>Rows\<close>

datatype Column = ColumnUInt8 u8 | ColumnUInt16 u16 | ColumnUInt32 u32 | ColumnUInt64 u64 | ColumnInt64 i64 | ColumnString string

type_synonym Block = "(string \<times> Column) list"

fun venue_to_string :: "Venue \<Rightarrow> string option" where
  "venue_to_string NASDAQ = Some ''NASDAQ''"
| "venue_to_string BIST = Some ''BIST''"
| "venue_to_string Venue_Unknown = None"

fun protocol_to_string :: "Protocol \<Rightarrow> string option" where
  "protocol_to_string FIX = Some ''FIX''"
| "protocol_to_string ITCH = Some ''ITCH''"
| "protocol_to_string OUCH = Some ''OUCH''"
| "protocol_to_string Protocol_Unknown = None"

fun status_to_string :: "Status \<Rightarrow> string option" where
  "status_to_string Status_Unknown = Some ''Unknown''"
| "status_to_string New = Some ''New''"
| "status_to_string Partial = Some ''Partial''"
| "status_to_string Filled = Some ''Filled''"
| "status_to_string Cancelled = Some ''Cancelled''"
| "status_to_string Replaced = Some ''Replaced''"
| "status_to_string Expired = Some ''Expired''"
| "status_to_string _ = None"

text \<open>A character array that is taken for a text ends with a NUL.\<close>

definition c_text :: "string \<Rightarrow> string option" where
  "c_text s = map_option (\<lambda>n. take n s) (strlen s)"

text \<open>\<^verbatim>\<open>erase\<close> from the first blank or NUL of eight characters.\<close>

definition short_text :: "string \<Rightarrow> string option" where
  "short_text s = map_option (takeWhile (\<lambda>c. c \<noteq> CHR '' '' \<and> c \<noteq> CHR 0x00)) (read_bytes 8 s)"

definition byte_text :: "u8 \<Rightarrow> Column" where
  "byte_text b = ColumnString [char_of_u8 b]"

fun u8_of_orderType :: "OrderType \<Rightarrow> u8" where
  "u8_of_orderType OrderType_Unknown = 0"
| "u8_of_orderType Market = 1"
| "u8_of_orderType Limit = 2"
| "u8_of_orderType (OrderType_Raw b) = b"

definition insert_fix :: "FIXMessage \<Rightarrow> Venue \<Rightarrow> (string \<times> Block) option" where
  "insert_fix msg ven = do {
     v \<leftarrow> venue_to_string ven;
     prot \<leftarrow> protocol_to_string FIX;
     sy \<leftarrow> c_text (fx_symbol msg);
     oid \<leftarrow> c_text (fx_order_id msg);
     cid \<leftarrow> c_text (fx_cl_ord_id msg);
     eid \<leftarrow> c_text (fx_exec_id msg);
     Some (''FIX_Table'',
      [(''transact_time'', ColumnUInt64 (ucast (fx_transact_time msg))), (''venue'', ColumnString v), (''protocol'', ColumnString prot),
       (''msg_type'', byte_text (fx_msg_type msg)), (''symbol'', ColumnString sy), (''order_id'', ColumnString oid),
       (''cl_ord_id'', ColumnString cid), (''exec_id'', ColumnString eid), (''price'', ColumnInt64 (fx_price msg)),
       (''quantity'', ColumnUInt32 (fx_quantity msg)), (''leaves_qty'', ColumnUInt32 (fx_leaves_qty msg)),
       (''filled_qty'', ColumnUInt32 (fx_filled_qty msg)), (''side'', byte_text (fx_side msg)),
       (''ord_status'', byte_text (fx_ord_status msg)), (''exec_type'', byte_text (fx_exec_type msg)),
       (''ord_type'', byte_text (fx_ord_type msg)), (''time_in_force'', byte_text (fx_time_in_force msg))]) }"

fun bist_itch_type :: "BIST_ITCHMessage \<Rightarrow> char" where
  "bist_itch_type (B_ITCHSeconds m) = biT_message_type m"
| "bist_itch_type (B_ITCHOrderBookDirectory m) = biR_message_type m"
| "bist_itch_type (B_ITCHCombinationOrderBookLeg m) = biM_message_type m"
| "bist_itch_type (B_ITCHTickSizeTableEntry m) = biL_message_type m"
| "bist_itch_type (B_ITCHShortSellStatus m) = biV_message_type m"
| "bist_itch_type (B_ITCHSystemEvent m) = biS_message_type m"
| "bist_itch_type (B_ITCHOrderBookState m) = biO_message_type m"
| "bist_itch_type (B_ITCHAddOrder m) = biA_message_type m"
| "bist_itch_type (B_ITCHOrderExecuted m) = biE_message_type m"
| "bist_itch_type (B_ITCHOrderExecutedWithPrice m) = biC_message_type m"
| "bist_itch_type (B_ITCHOrderDelete m) = biD_message_type m"
| "bist_itch_type (B_ITCHOrderBookFlush m) = biY_message_type m"
| "bist_itch_type (B_ITCHTrade m) = biP_message_type m"
| "bist_itch_type (B_ITCHEquilibriumPriceUpdate m) = biZ_message_type m"

definition insert_bist_itch :: "BIST_ITCHMessage \<Rightarrow> Venue \<Rightarrow> (string \<times> Block) option" where
  "insert_bist_itch msg ven = do {
     v \<leftarrow> venue_to_string ven;
     prot \<leftarrow> protocol_to_string ITCH;
     Some (''ITCH_Table'',
      [(''venue'', ColumnString v), (''protocol'', ColumnString prot), (''msg_type'', ColumnString [bist_itch_type msg])]) }"

fun nasdaq_itch_type :: "NASDAQ_ITCHMessage \<Rightarrow> char" where
  "nasdaq_itch_type (N_ITCHAddOrder m) = niA_message_type m"
| "nasdaq_itch_type (N_ITCHAddOrderMPID m) = niF_message_type m"
| "nasdaq_itch_type (N_ITCHCancel m) = niX_message_type m"
| "nasdaq_itch_type (N_ITCHExecuted m) = niE_message_type m"
| "nasdaq_itch_type (N_ITCHExecutedWithPrice m) = niC_message_type m"
| "nasdaq_itch_type (N_ITCHDelete m) = niD_message_type m"
| "nasdaq_itch_type (N_ITCHReplace m) = niU_message_type m"
| "nasdaq_itch_type (N_ITCHTrade m) = niP_message_type m"
| "nasdaq_itch_type (N_ITCHSystemEvent m) = niS_message_type m"
| "nasdaq_itch_type (N_ITCHStockDirectory m) = niR_message_type m"
| "nasdaq_itch_type (N_ITCHTradingState m) = niH_message_type m"

fun nasdaq_itch_time :: "NASDAQ_ITCHMessage \<Rightarrow> u64" where
  "nasdaq_itch_time (N_ITCHAddOrder m) = niA_timestamp m"
| "nasdaq_itch_time (N_ITCHAddOrderMPID m) = niF_timestamp m"
| "nasdaq_itch_time (N_ITCHCancel m) = niX_timestamp m"
| "nasdaq_itch_time (N_ITCHExecuted m) = niE_timestamp m"
| "nasdaq_itch_time (N_ITCHExecutedWithPrice m) = niC_timestamp m"
| "nasdaq_itch_time (N_ITCHDelete m) = niD_timestamp m"
| "nasdaq_itch_time (N_ITCHReplace m) = niU_timestamp m"
| "nasdaq_itch_time (N_ITCHTrade m) = niP_timestamp m"
| "nasdaq_itch_time (N_ITCHSystemEvent m) = niS_timestamp m"
| "nasdaq_itch_time (N_ITCHStockDirectory m) = niR_timestamp m"
| "nasdaq_itch_time (N_ITCHTradingState m) = niH_timestamp m"

definition insert_nasdaq_itch :: "NASDAQ_ITCHMessage \<Rightarrow> Venue \<Rightarrow> (string \<times> Block) option" where
  "insert_nasdaq_itch msg ven = do {
     v \<leftarrow> venue_to_string ven;
     prot \<leftarrow> protocol_to_string ITCH;
     Some (''ITCH_Table'',
      [(''timestamp'', ColumnUInt64 (nasdaq_itch_time msg)), (''venue'', ColumnString v), (''protocol'', ColumnString prot),
       (''msg_type'', ColumnString [nasdaq_itch_type msg])]) }"

definition insert_order :: "Order \<Rightarrow> (string \<times> Block) option" where
  "insert_order ord = do {
     sy \<leftarrow> short_text (symbol ord);
     v \<leftarrow> venue_to_string (venue ord);
     prot \<leftarrow> protocol_to_string (protocol ord);
     st \<leftarrow> status_to_string (status ord);
     Some (''OrdersTable'',
      [(''timestamp'', ColumnUInt64 (timestamp ord)), (''last_update_time'', ColumnUInt64 (last_update_time ord)),
       (''venue'', ColumnString v), (''protocol'', ColumnString prot), (''order_id'', ColumnUInt64 (order_id ord)),
       (''client_order_id'', ColumnUInt64 (client_order_id ord)), (''price'', ColumnInt64 (price ord)),
       (''quantity'', ColumnUInt32 (quantity ord)), (''filled_quantity'', ColumnUInt32 (filled_quantity ord)),
       (''remaining_quantity'', ColumnUInt32 (remaining_quantity ord)), (''symbol'', ColumnString sy),
       (''instrument_id'', ColumnUInt32 (instrument_id ord)), (''side'', ColumnUInt8 (side_u8 (side ord))),
       (''status'', ColumnString st), (''message_type'', ColumnUInt16 (ucast (message_type ord))),
       (''time_in_force'', ColumnUInt8 (u8_of_tif (time_in_force ord))),
       (''order_type'', ColumnUInt8 (u8_of_orderType (order_type ord)))]) }"

text \<open>The rows of a message; those of FIX sessions and of OUCH have none.\<close>

definition insert_message :: "MessageWithVenue \<Rightarrow> (string \<times> Block) list option" where
  "insert_message m = (case mwv_msg m of
     M_FIX msg \<Rightarrow> map_option (\<lambda>r. [r]) (insert_fix msg (mwv_venue m))
   | M_FIXSession _ \<Rightarrow> Some []
   | M_BIST_ITCH msg \<Rightarrow> map_option (\<lambda>r. [r]) (insert_bist_itch msg (mwv_venue m))
   | M_NASDAQ_ITCH msg \<Rightarrow> map_option (\<lambda>r. [r]) (insert_nasdaq_itch msg (mwv_venue m))
   | M_BIST_OUCH _ \<Rightarrow> Some []
   | M_NASDAQ_OUCH _ \<Rightarrow> Some [])"

subsection \<open>The writer\<close>

record ClickhouseWriter =
  ck_store_to_db :: "nat spsc"
  ck_db_to_parser :: "nat spsc"

text \<open>The insertion itself is commented out in the source: an entry is taken, and given back to the parser unless it is an
  order.  The result of the push is ignored.\<close>

definition db_store :: "(nat \<Rightarrow> DbData) \<Rightarrow> ClickhouseWriter \<Rightarrow> bool \<times> ClickhouseWriter" where
  "db_store pool w = (case spsc_pop OQ (ck_store_to_db w) of
     (None, q) \<Rightarrow> (False, w\<lparr>ck_store_to_db := q\<rparr>)
   | (Some d, q) \<Rightarrow> (True,
       (case pool d of
          D_Order _ \<Rightarrow> w\<lparr>ck_store_to_db := q\<rparr>
        | D_Msg _ _ \<Rightarrow> w\<lparr>ck_store_to_db := q, ck_db_to_parser := snd (spsc_push OQ d (ck_db_to_parser w))\<rparr>)))"

subsection \<open>Lemmas\<close>

fun is_message :: "DbData \<Rightarrow> bool" where
  "is_message (D_Order _) = False"
| "is_message (D_Msg _ _) = True"

primrec store_times :: "(nat \<Rightarrow> DbData) \<Rightarrow> nat \<Rightarrow> ClickhouseWriter \<Rightarrow> ClickhouseWriter" where
  "store_times pool 0 w = w"
| "store_times pool (Suc n) w = store_times pool n (snd (db_store pool w))"

lemma oq_push:
  assumes "spsc_inv OQ q" "length (spsc_rep OQ q) < 1024"
  shows "spsc_inv OQ (snd (spsc_push OQ d q))" "spsc_rep OQ (snd (spsc_push OQ d q)) = spsc_rep OQ q @ [d]"
proof -
  have "spsc_len q < 2 ^ (OQ + 3)" using assms(2) by (simp add: OQ_def)
  from spsc_enq [OF assms(1) this, of d] this
  show "spsc_inv OQ (snd (spsc_push OQ d q))" "spsc_rep OQ (snd (spsc_push OQ d q)) = spsc_rep OQ q @ [d]"
    by (simp_all add: spsc_push_cases [OF assms(1)])
qed

lemma db_store_empty: "spsc_inv OQ (ck_store_to_db w) \<Longrightarrow> spsc_rep OQ (ck_store_to_db w) = [] \<Longrightarrow> db_store pool w = (False, w)"
  using length_spsc_rep [of OQ "ck_store_to_db w"] by (simp add: db_store_def spsc_pop_cases)

lemma db_store_step:
  assumes "spsc_inv OQ (ck_store_to_db w)" "spsc_rep OQ (ck_store_to_db w) = d # ds"
    and "spsc_inv OQ (ck_db_to_parser w)" "length (spsc_rep OQ (ck_db_to_parser w)) < 1024"
  shows "\<exists>w'. db_store pool w = (True, w') \<and> spsc_inv OQ (ck_store_to_db w') \<and> spsc_rep OQ (ck_store_to_db w') = ds
    \<and> spsc_inv OQ (ck_db_to_parser w')
    \<and> spsc_rep OQ (ck_db_to_parser w') = spsc_rep OQ (ck_db_to_parser w) @ (if is_message (pool d) then [d] else [])"
proof -
  have "0 < spsc_len (ck_store_to_db w)" using assms(2) length_spsc_rep [of OQ "ck_store_to_db w"] by simp
  then obtain q where q: "spsc_pop OQ (ck_store_to_db w) = (Some d, q)" "spsc_inv OQ q" "spsc_rep OQ q = ds"
    using spsc_deq [OF assms(1)] assms(2) by (simp add: spsc_pop_cases [OF assms(1)])
  show ?thesis using q assms(3) oq_push [OF assms(3,4), of d] by (cases "pool d") (simp_all add: db_store_def)
qed

text \<open>An order whose status is \<open>Deleted\<close> or \<open>CancelRequest\<close> reaches the default that is said to be unreachable.\<close>

lemma deleted_order_unreachable: "status ord \<in> {Deleted, CancelRequest} \<Longrightarrow> insert_order ord = None"
  by (auto simp: insert_order_def split: bind_splits)

text \<open>A row of ITCH says which type of message came and nothing of what it said.\<close>

lemma itch_rows_equal:
  "bist_itch_type m = bist_itch_type m' \<Longrightarrow> insert_bist_itch m ven = insert_bist_itch m' ven"
  by (simp add: insert_bist_itch_def)

subsection \<open>Properties\<close>

text \<open>C36. The database thread, called until it reports that nothing is left, gives every message back to the parser
  that owns its object, once and in the order of the store thread, and no order; it reports work exactly
  as long as there is some.\<close>

theorem messages_returned:
  assumes "spsc_inv OQ (ck_store_to_db w)" "spsc_rep OQ (ck_store_to_db w) = ds"
    and "spsc_inv OQ (ck_db_to_parser w)" "length ds + length (spsc_rep OQ (ck_db_to_parser w)) \<le> 1024"
  shows "\<exists>w'. store_times pool (length ds) w = w' \<and> spsc_rep OQ (ck_store_to_db w') = []
    \<and> spsc_rep OQ (ck_db_to_parser w') = spsc_rep OQ (ck_db_to_parser w) @ filter (is_message \<circ> pool) ds
    \<and> fst (db_store pool w') = False \<and> (\<forall>n < length ds. fst (db_store pool (store_times pool n w)))"
  using assms
proof (induction ds arbitrary: w)
  case Nil
  then show ?case by (simp add: db_store_empty)
next
  case (Cons d ds)
  obtain w1 where w1: "db_store pool w = (True, w1)" "spsc_inv OQ (ck_store_to_db w1)" "spsc_rep OQ (ck_store_to_db w1) = ds"
    "spsc_inv OQ (ck_db_to_parser w1)"
    "spsc_rep OQ (ck_db_to_parser w1) = spsc_rep OQ (ck_db_to_parser w) @ (if is_message (pool d) then [d] else [])"
    using db_store_step [OF Cons.prems(1,2,3), of pool] Cons.prems(4) by auto
  have "length ds + length (spsc_rep OQ (ck_db_to_parser w1)) \<le> 1024" using Cons.prems(4) unfolding w1(5) by simp
  note ih = Cons.IH [OF w1(2,3,4) this]
  have "fst (db_store pool (store_times pool n w))" if "n < length (d # ds)" for n
    using that ih w1(1) by (cases n) simp_all
  then show ?case using ih w1(1,5) by simp
qed

definition sample_writer :: ClickhouseWriter where
  "sample_writer = \<lparr>ck_store_to_db = snd (spsc_push OQ 4 (snd (spsc_push OQ 3 (spsc_init OQ)))), ck_db_to_parser = spsc_init OQ\<rparr>"

theorem messages_returned_witness:
  "spsc_rep OQ (ck_db_to_parser (store_times (\<lambda>d. if d = 3 then D_Order 0 else D_Msg K_FIX 7) 2 sample_writer)) = [4]"
proof -
  have i: "spsc_inv OQ (spsc_init OQ :: nat spsc)" by (simp add: spsc_init_inv OQ_def)
  note p = oq_push [OF i, of 3]
  have "spsc_inv OQ (ck_store_to_db sample_writer)" "spsc_rep OQ (ck_store_to_db sample_writer) = [3, 4]"
    using oq_push [OF p(1), of 4] p(2) by (simp_all add: sample_writer_def)
  from messages_returned [OF this, of "\<lambda>d. if d = 3 then D_Order 0 else D_Msg K_FIX 7"] i show ?thesis
    by (simp add: sample_writer_def numeral_2_eq_2)
qed

end
