(* ===== verification/Parser_Thread.thy ===== *)
theory Parser_Thread
  imports Network_Frame Fix_Dispatch Database_Writer
begin

text \<open>
  The parser thread (src/src/protocol/Parser_Dispatch.h, Parser_Dispatch.cpp): it takes a packet of the network thread, now and
  then releases the message objects the database thread has returned, and chooses the path of the
  packet by its protocol and venue.  Messages are values in this development; \<open>obj\<close> gives the object
  of the pool that the wrapper in a slot points to.
\<close>

record Parser_Dispatch =
  PktCount :: u16
  pd_net :: NetworkIO
  pd_store :: OrderManager
  pd_fixbuilder_rx :: "nat spsc"
  pd_db_to_parser :: "nat spsc"
  fixparser :: Parser_FIX
  itchparser_bist :: Parser_ITCH_BIST
  itchparser_nasdaq :: Parser_ITCH_NASDAQ
  ouchparser_bist :: Parser_OUCH_BIST
  ouchparser_nasdaq :: Parser_OUCH_NASDAQ

definition DB_QUEUE_THRESHOLD :: u16 where "DB_QUEUE_THRESHOLD = 512"

text \<open>An order must not reach the visitor.\<close>

definition release_item :: "(msg_kind \<Rightarrow> nat \<Rightarrow> nat) \<Rightarrow> DbData \<Rightarrow> Parser_Dispatch \<Rightarrow> Parser_Dispatch option" where
  "release_item obj item d = (case item of
     D_Order _ \<Rightarrow> None
   | D_Msg kind slot \<Rightarrow>
       (case (kind, mwv_msg (mwv_pool (pd_store d) kind slot)) of
          (K_FIX, M_FIX _) \<Rightarrow> Some (d\<lparr>fixparser := releaseFIX_app (obj kind slot) (fixparser d)\<rparr>)
        | (K_FIXSession, M_FIXSession _) \<Rightarrow> Some (d\<lparr>fixparser := releaseFIX_ses (obj kind slot) (fixparser d)\<rparr>)
        | (K_BIST_ITCH, M_BIST_ITCH m) \<Rightarrow> Some (d\<lparr>itchparser_bist := bist_itch_release (obj kind slot, m) (itchparser_bist d)\<rparr>)
        | (K_BIST_OUCH, M_BIST_OUCH m) \<Rightarrow> Some (d\<lparr>ouchparser_bist := bist_ouch_release (obj kind slot, m) (ouchparser_bist d)\<rparr>)
        | (K_NASDAQ_ITCH, M_NASDAQ_ITCH m) \<Rightarrow> Some (d\<lparr>itchparser_nasdaq := nasdaq_itch_release (obj kind slot, m) (itchparser_nasdaq d)\<rparr>)
        | (K_NASDAQ_OUCH, M_NASDAQ_OUCH m) \<Rightarrow> Some (d\<lparr>ouchparser_nasdaq := nasdaq_ouch_release (obj kind slot, m) (ouchparser_nasdaq d)\<rparr>)
        | _ \<Rightarrow> None))"

partial_function (option) flush_DbQueue :: "(msg_kind \<Rightarrow> nat \<Rightarrow> nat) \<Rightarrow> Parser_Dispatch \<Rightarrow> Parser_Dispatch option" where
  "flush_DbQueue obj d = (case spsc_pop OQ (pd_db_to_parser d) of
     (None, q) \<Rightarrow> Some (d\<lparr>pd_db_to_parser := q\<rparr>)
   | (Some x, q) \<Rightarrow> do {
       d1 \<leftarrow> release_item obj (dbd_pool (pd_store d) x) (d\<lparr>pd_db_to_parser := q\<rparr>);
       flush_DbQueue obj d1 })"

text \<open>The table of the paths; FIX of NASDAQ has a null entry, an unknown protocol or venue is past the table.\<close>

definition run_parser :: "(nat \<Rightarrow> i64) \<Rightarrow> nat \<Rightarrow> Parser_Dispatch \<Rightarrow> Parser_Dispatch option" where
  "run_parser clock k d = (let net = pd_net d; pkt = packet_pool net k in
     case (rx_protocol pkt, rx_venue pkt) of
       (FIX, BIST) \<Rightarrow> do {
         (pkt1, p1, sm1, rx1, om1) \<leftarrow> parseFIX clock pkt (fixparser d) (net_sessions net) (pd_fixbuilder_rx d) (pd_store d);
         Some (d\<lparr>pd_net := upd_rxPkt k (\<lambda>_. pkt1) (net\<lparr>net_sessions := sm1\<rparr>), fixparser := p1, pd_fixbuilder_rx := rx1, pd_store := om1\<rparr>) }
     | (ITCH, BIST) \<Rightarrow> do {
         (pkt1, p1, om1) \<leftarrow> parseITCH_BIST pkt (itchparser_bist d) (pd_store d);
         Some (d\<lparr>pd_net := upd_rxPkt k (\<lambda>_. pkt1) net, itchparser_bist := p1, pd_store := om1\<rparr>) }
     | (ITCH, NASDAQ) \<Rightarrow> do {
         (pkt1, p1, om1) \<leftarrow> parseITCH_NASDAQ pkt (itchparser_nasdaq d) (pd_store d);
         Some (d\<lparr>pd_net := upd_rxPkt k (\<lambda>_. pkt1) net, itchparser_nasdaq := p1, pd_store := om1\<rparr>) }
     | (OUCH, BIST) \<Rightarrow> do {
         (p1, om1) \<leftarrow> parseOUCH_BIST pkt (ouchparser_bist d) (pd_store d);
         Some (d\<lparr>ouchparser_bist := p1, pd_store := om1\<rparr>) }
     | (OUCH, NASDAQ) \<Rightarrow> do {
         (p1, om1) \<leftarrow> parseOUCH_NASDAQ pkt (ouchparser_nasdaq d) (pd_store d);
         Some (d\<lparr>ouchparser_nasdaq := p1, pd_store := om1\<rparr>) }
     | _ \<Rightarrow> None)"

definition dispatch_parser ::
  "(msg_kind \<Rightarrow> nat \<Rightarrow> nat) \<Rightarrow> (nat \<Rightarrow> i64) \<Rightarrow> Parser_Dispatch \<Rightarrow> (bool \<times> Parser_Dispatch) option" where
  "dispatch_parser obj clock d = (case spsc_pop Q1024 (receiver_to_parser (pd_net d)) of
     (None, q) \<Rightarrow> Some (False, d\<lparr>pd_net := (pd_net d)\<lparr>receiver_to_parser := q\<rparr>\<rparr>)
   | (Some k, q) \<Rightarrow>
       let d1 = d\<lparr>pd_net := (pd_net d)\<lparr>receiver_to_parser := q\<rparr>\<rparr> in
       if rx_len (packet_pool (pd_net d1) k) = 0 then Some (True, d1\<lparr>pd_net := releasePacket k (pd_net d1)\<rparr>)
       else do {
         let count = PktCount d1;
         let d2 = d1\<lparr>PktCount := count + 1\<rparr>;
         d3 \<leftarrow> (if count AND (DB_QUEUE_THRESHOLD - 1) = 0
                then map_option (\<lambda>d. d\<lparr>PktCount := 1\<rparr>) (flush_DbQueue obj d2) else Some d2);
         d4 \<leftarrow> run_parser clock k d3;
         Some (True, if release_this_pkt (packet_pool (pd_net d4) k) then d4\<lparr>pd_net := releasePacket k (pd_net d4)\<rparr> else d4) })"

declare flush_DbQueue.simps [code]

subsection \<open>Returned objects\<close>

fun kind_of :: "MessageTypes \<Rightarrow> msg_kind" where
  "kind_of (M_FIX _) = K_FIX"
| "kind_of (M_FIXSession _) = K_FIXSession"
| "kind_of (M_BIST_ITCH _) = K_BIST_ITCH"
| "kind_of (M_NASDAQ_ITCH _) = K_NASDAQ_ITCH"
| "kind_of (M_BIST_OUCH _) = K_BIST_OUCH"
| "kind_of (M_NASDAQ_OUCH _) = K_NASDAQ_OUCH"

text \<open>An entry the thread can release: a message whose wrapper is of its kind.\<close>

definition releasable :: "OrderManager \<Rightarrow> nat \<Rightarrow> bool" where
  "releasable om x \<longleftrightarrow> (case dbd_pool om x of D_Order _ \<Rightarrow> False | D_Msg kind slot \<Rightarrow> kind = kind_of (mwv_msg (mwv_pool om kind slot)))"

text \<open>Apart from the parsers and the queue of returned entries everything stays as it is.\<close>

definition only_parsers :: "Parser_Dispatch \<Rightarrow> Parser_Dispatch \<Rightarrow> bool" where
  "only_parsers d d' \<longleftrightarrow> PktCount d' = PktCount d \<and> pd_net d' = pd_net d \<and> pd_store d' = pd_store d \<and> pd_fixbuilder_rx d' = pd_fixbuilder_rx d"

lemma release_item_returns:
  assumes "releasable (pd_store d) x"
  obtains d' where "release_item obj (dbd_pool (pd_store d) x) d = Some d'" "only_parsers d d'" "pd_db_to_parser d' = pd_db_to_parser d"
proof -
  obtain kind slot where x: "dbd_pool (pd_store d) x = D_Msg kind slot" "kind = kind_of (mwv_msg (mwv_pool (pd_store d) kind slot))"
    using assms by (auto simp: releasable_def split: DbData.splits)
  then show thesis
    by (cases "mwv_msg (mwv_pool (pd_store d) kind slot)") (auto simp: release_item_def only_parsers_def intro!: that)
qed

lemma only_parsers_trans: "only_parsers d d' \<Longrightarrow> only_parsers d' d'' \<Longrightarrow> only_parsers d d''"
  by (simp add: only_parsers_def)

lemma flush_DbQueue_empties:
  assumes "spsc_inv OQ (pd_db_to_parser d)" "spsc_rep OQ (pd_db_to_parser d) = xs" "\<forall>x \<in> set xs. releasable (pd_store d) x"
  shows "\<exists>d'. flush_DbQueue obj d = Some d' \<and> only_parsers d d' \<and> spsc_inv OQ (pd_db_to_parser d') \<and> spsc_rep OQ (pd_db_to_parser d') = []
    \<and> (xs = [] \<longrightarrow> d' = d)"
  using assms
proof (induction xs arbitrary: d)
  case Nil
  then have "flush_DbQueue obj d = Some d" by (subst flush_DbQueue.simps) (simp add: pop_empty)
  then show ?case using Nil by (simp add: only_parsers_def)
next
  case (Cons x xs)
  obtain q where q: "spsc_pop OQ (pd_db_to_parser d) = (Some x, q)" "spsc_inv OQ q" "spsc_rep OQ q = xs"
    using pop_front [OF Cons.prems(1,2)] by metis
  let ?d = "d\<lparr>pd_db_to_parser := q\<rparr>"
  have "releasable (pd_store ?d) x" using Cons.prems(3) by simp
  then obtain d1 where d1: "release_item obj (dbd_pool (pd_store ?d) x) ?d = Some d1" "only_parsers ?d d1" "pd_db_to_parser d1 = pd_db_to_parser ?d"
    by (rule release_item_returns)
  have "\<exists>d'. flush_DbQueue obj d1 = Some d' \<and> only_parsers d1 d' \<and> spsc_inv OQ (pd_db_to_parser d') \<and> spsc_rep OQ (pd_db_to_parser d') = []
      \<and> (xs = [] \<longrightarrow> d' = d1)"
    by (rule Cons.IH) (use d1(2,3) q Cons.prems(3) in \<open>simp_all add: only_parsers_def\<close>)
  moreover have "flush_DbQueue obj d = flush_DbQueue obj d1" using d1(1) by (subst flush_DbQueue.simps) (simp add: q(1))
  moreover have "only_parsers d d1" using d1(2) by (simp add: only_parsers_def)
  ultimately show ?case using only_parsers_trans by auto
qed

subsection \<open>From the wire to the store\<close>

lemma framed_fields:
  assumes "framed n bs p p'"
  shows "rx_len p' = rx_len p" "rx_protocol p' = rx_protocol p" "rx_venue p' = rx_venue p" "release_this_pkt p' = release_this_pkt p"
proof -
  have "p' = p\<lparr>rx_offsets := rx_offsets p', msg_count := msg_count p'\<rparr>" using assms by (simp add: framed_def Let_def)
  from arg_cong [OF this, of rx_len] arg_cong [OF this, of rx_protocol] arg_cong [OF this, of rx_venue] arg_cong [OF this, of release_this_pkt]
  show "rx_len p' = rx_len p" "rx_protocol p' = rx_protocol p" "rx_venue p' = rx_venue p" "release_this_pkt p' = release_this_pkt p" by simp_all
qed

lemma dispatch_ouch_bist:
  assumes "spsc_inv Q1024 (receiver_to_parser (pd_net d))" "spsc_rep Q1024 (receiver_to_parser (pd_net d)) = k # ks"
    and "pkt = packet_pool (pd_net d) k" "rx_len pkt \<noteq> 0" "rx_protocol pkt = OUCH" "rx_venue pkt = BIST"
    and "spsc_inv OQ (pd_db_to_parser d)" "spsc_rep OQ (pd_db_to_parser d) = []"
    and "parseOUCH_BIST pkt (ouchparser_bist d) (pd_store d) = Some (p1, om1)"
  shows "\<exists>d' q. dispatch_parser obj clock d = Some (True, d') \<and> pd_store d' = om1 \<and> ouchparser_bist d' = p1
    \<and> pd_net d' = (if release_this_pkt pkt then releasePacket k else id) ((pd_net d)\<lparr>receiver_to_parser := q\<rparr>)
    \<and> spsc_inv Q1024 q \<and> spsc_rep Q1024 q = ks"
proof -
  obtain q where q: "spsc_pop Q1024 (receiver_to_parser (pd_net d)) = (Some k, q)" "spsc_inv Q1024 q" "spsc_rep Q1024 q = ks"
    using pop_front [OF assms(1,2)] by metis
  define d2 where "d2 = d\<lparr>pd_net := (pd_net d)\<lparr>receiver_to_parser := q\<rparr>, PktCount := PktCount d + 1\<rparr>"
  have fl: "flush_DbQueue obj d2 = Some d2"
    using flush_DbQueue_empties [of d2 "[]" obj] assms(7,8) by (simp add: d2_def)
  have rp: "run_parser clock k d3 = Some (d3\<lparr>ouchparser_bist := p1, pd_store := om1\<rparr>)" if "d3 = d2\<lparr>PktCount := c\<rparr>" for d3 c
    using that assms(3,5,6,9) by (simp add: run_parser_def d2_def Let_def)
  have "d2 = d2\<lparr>PktCount := PktCount d2\<rparr>" by simp
  note rp2 = rp [OF this]
  define c where "c = (if PktCount d AND (DB_QUEUE_THRESHOLD - 1) = 0 then 1 else PktCount d2)"
  define d' where "d' = d2\<lparr>PktCount := c, ouchparser_bist := p1, pd_store := om1,
    pd_net := (if release_this_pkt pkt then releasePacket k else id) ((pd_net d)\<lparr>receiver_to_parser := q\<rparr>)\<rparr>"
  have "dispatch_parser obj clock d = Some (True, d')"
    using fl rp [OF refl] rp2 assms(3,4) unfolding dispatch_parser_def q(1) c_def d'_def
    by (simp add: d2_def Let_def)
  moreover have "pd_store d' = om1" "ouchparser_bist d' = p1"
    "pd_net d' = (if release_this_pkt pkt then releasePacket k else id) ((pd_net d)\<lparr>receiver_to_parser := q\<rparr>)" by (simp_all add: d'_def)
  ultimately show ?thesis using q(2,3) by blast
qed

text \<open>A packet of FIX for NASDAQ invokes a null entry of the table.\<close>

lemma fix_nasdaq_no_path:
  "rx_protocol (packet_pool (pd_net d) k) = FIX \<Longrightarrow> rx_venue (packet_pool (pd_net d) k) = NASDAQ \<Longrightarrow> run_parser clock k d = None"
  by (simp add: run_parser_def Let_def)

subsection \<open>Properties\<close>

text \<open>C12. From the wire to the store: the bytes of whole SoupBinTCP packets that carry messages of BIST OUCH, received at
  once, become a packet for the parser thread, and its next step puts exactly these messages into the
  queue of the store thread, in their order; the session has counted every one of them, and the packet
  is free again.\<close>

theorem ouch_wire_to_store:
  assumes "ready_to_receive i [k] io" "spsc_rep Q1024 (receiver_to_parser io) = []" "release_this_pkt (packet_pool io k)"
    and "recv_delivers os (length (net_calls io)) sock (sequenced (map bist_ouch_wire ms))" "unpack_protocol e = OUCH" "unpack_venue e = BIST"
    and "session_sbt i (net_sessions io) = Some q" "length ms \<le> 32" "\<forall>m \<in> set ms. bist_ouch_wf m"
    and "bist_ouch_ok (ouchparser_bist d)" "\<forall>m. length ms \<le> length (bist_ouch_free m (ouchparser_bist d))" "store_ready (length ms) (pd_store d)"
    and "spsc_inv OQ (pd_db_to_parser d)" "spsc_rep OQ (pd_db_to_parser d) = []"
  shows "\<exists>io' d'. receive os clk sock e i io = Some io' \<and> dispatch_parser obj clock (d\<lparr>pd_net := io'\<rparr>) = Some (True, d')
    \<and> queued (pd_store d') = queued (pd_store d) @ map (\<lambda>m. \<lparr>mwv_msg = M_BIST_OUCH m, mwv_venue = BIST\<rparr>) ms
    \<and> session_sbt i (net_sessions (pd_net d')) = Some (q\<lparr>last_seen_seqnum := last_seen_seqnum q + of_nat (length ms)\<rparr>)
    \<and> spsc_rep Q1024 (receiver_to_parser (pd_net d')) = []
    \<and> spsc_rep Q1024 (free_pkt_list (pd_net d')) = tl (spsc_rep Q1024 (free_pkt_list io)) @ [k] \<and> msg_count (packet_pool (pd_net d') k) = 0"
proof -
  let ?b = "sequenced (map bist_ouch_wire ms)"
  from receive_whole [OF assms(1,4,5,7,8), of clk] obtain io' where io': "receive os clk sock e i io = Some io'"
    "names_messages 3 bist_ouch_wire ms (packet_pool io' k)" "framed 0 (map bist_ouch_wire ms) (filled e ?b (packet_pool io k)) (packet_pool io' k)"
    "spsc_inv Q1024 (free_pkt_list io')" "spsc_rep Q1024 (free_pkt_list io') = tl (spsc_rep Q1024 (free_pkt_list io))"
    "spsc_inv Q1024 (receiver_to_parser io')" "spsc_rep Q1024 (receiver_to_parser io') = [k]"
    "session_sbt i (net_sessions io') = Some (q\<lparr>last_seen_seqnum := last_seen_seqnum q + of_nat (length ms)\<rparr>)"
    unfolding assms(2) append_Nil by blast
  have "0 < length ?b" "length ?b \<le> 2048" using assms(4) by (simp_all add: recv_delivers_def)
  then have "unat (of_nat (length ?b) :: u16) \<noteq> 0" using unat_u16 [of "length ?b"] by simp
  then have "(of_nat (length ?b) :: u16) \<noteq> 0" by (metis unsigned_0)
  then have pkt: "rx_len (packet_pool io' k) \<noteq> 0" "rx_protocol (packet_pool io' k) = OUCH" "rx_venue (packet_pool io' k) = BIST" "release_this_pkt (packet_pool io' k)"
    using framed_fields [OF io'(3)] assms(3,5,6) by (simp_all add: filled_def)
  obtain p1 om1 where pr: "parseOUCH_BIST (packet_pool io' k) (ouchparser_bist d) (pd_store d) = Some (p1, om1)"
    "queued om1 = queued (pd_store d) @ map (\<lambda>m. \<lparr>mwv_msg = M_BIST_OUCH m, mwv_venue = BIST\<rparr>) ms"
    using bist_ouch.named_delivered [OF io'(2) assms(9-12), of M_BIST_OUCH BIST] unfolding parseOUCH_BIST_def by blast
  have "\<exists>d' q'. dispatch_parser obj clock (d\<lparr>pd_net := io'\<rparr>) = Some (True, d') \<and> pd_store d' = om1 \<and> ouchparser_bist d' = p1
    \<and> pd_net d' = (if release_this_pkt (packet_pool io' k) then releasePacket k else id) ((pd_net (d\<lparr>pd_net := io'\<rparr>))\<lparr>receiver_to_parser := q'\<rparr>)
    \<and> spsc_inv Q1024 q' \<and> spsc_rep Q1024 q' = []"
    by (rule dispatch_ouch_bist) (use pkt io'(6,7) assms(13,14) pr(1) in simp_all)
  then obtain d' q' where d': "dispatch_parser obj clock (d\<lparr>pd_net := io'\<rparr>) = Some (True, d')" "pd_store d' = om1"
    "pd_net d' = releasePacket k (io'\<lparr>receiver_to_parser := q'\<rparr>)" "spsc_rep Q1024 q' = []" using pkt(4) by auto
  have "spsc_rep Q1024 (free_pkt_list io) \<noteq> []" "spsc_len (free_pkt_list io) \<le> 1024"
    using assms(1) spsc_invD(3) [of Q1024 "free_pkt_list io"] by (auto simp: ready_to_receive_def Q1024_def)
  then have "length (spsc_rep Q1024 (free_pkt_list io')) < 1024"
    unfolding io'(5) by (metis diff_less length_greater_0_conv length_spsc_rep length_tl less_numeral_extra(1) order_less_le_trans)
  from push_room(2) [OF io'(4) this, of k] show ?thesis
    using io'(1,5,8) d' pr(2) by (simp add: releasePacket_def upd_rxPkt_def Let_def)
qed

definition sample_parser :: Parser_Dispatch where
  "sample_parser = \<lparr>PktCount = 512, pd_net = sample_rx_net, pd_store = sample_manager, pd_fixbuilder_rx = spsc_init Q1024, pd_db_to_parser = spsc_init OQ,
     fixparser = new_Parser_FIX (replicate 1024 (CHR 0x00)), itchparser_bist = bist_itch_new, itchparser_nasdaq = nasdaq_itch_new,
     ouchparser_bist = bist_ouch_new, ouchparser_nasdaq = nasdaq_ouch_new\<rparr>"

theorem ouch_wire_to_store_witness:
  "\<exists>io' d'. receive (sample_rx_os (sequenced (map bist_ouch_wire [sample_reject 5, sample_reject 6])) []) (\<lambda>_. 0) 4 (epollPackData 1 BIST OUCH) 1 sample_rx_net = Some io'
     \<and> dispatch_parser (\<lambda>_ _. 0) (\<lambda>_. 0) (sample_parser\<lparr>pd_net := io'\<rparr>) = Some (True, d')
     \<and> map mwv_msg (queued (pd_store d')) = [M_BIST_OUCH (sample_reject 5), M_BIST_OUCH (sample_reject 6)]
     \<and> spsc_rep Q1024 (free_pkt_list (pd_net d')) = [1, 2, 0]"
proof -
  let ?ms = "[sample_reject 5, sample_reject 6]" and ?d = sample_parser
  let ?os = "sample_rx_os (sequenced (map bist_ouch_wire ?ms)) []"
  have r: "ready_to_receive 1 [0] sample_rx_net" using ready_prefix [of 1 "[0]" "[1, 2]"] sample_rx_ready(1) by simp
  have d: "recv_delivers ?os (length (net_calls sample_rx_net)) 4 (sequenced (map bist_ouch_wire ?ms))"
    by (simp add: recv_delivers_def sample_rx_os_def sample_rx_ready(4) sbt_packet_def)
  have v: "unpack_venue (epollPackData 1 BIST OUCH) = BIST" by code_simp
  have e: "spsc_rep Q1024 (receiver_to_parser sample_rx_net) = []" "release_this_pkt (packet_pool sample_rx_net 0)"
    by (simp_all add: sample_rx_net_def sample_net_def fresh_packet_def)
  have "\<exists>io' d'. receive ?os (\<lambda>_. 0) 4 (epollPackData 1 BIST OUCH) 1 sample_rx_net = Some io' \<and> dispatch_parser (\<lambda>_ _. 0) (\<lambda>_. 0) (?d\<lparr>pd_net := io'\<rparr>) = Some (True, d')
    \<and> queued (pd_store d') = queued (pd_store ?d) @ map (\<lambda>m. \<lparr>mwv_msg = M_BIST_OUCH m, mwv_venue = BIST\<rparr>) ?ms
    \<and> session_sbt 1 (net_sessions (pd_net d')) = Some (new_Sequence_SBT\<lparr>last_seen_seqnum := last_seen_seqnum new_Sequence_SBT + of_nat (length ?ms)\<rparr>)
    \<and> spsc_rep Q1024 (receiver_to_parser (pd_net d')) = []
    \<and> spsc_rep Q1024 (free_pkt_list (pd_net d')) = tl (spsc_rep Q1024 (free_pkt_list sample_rx_net)) @ [0] \<and> msg_count (packet_pool (pd_net d') 0) = 0"
    by (rule ouch_wire_to_store [OF r e d sample_protocol v sample_rx_ready(2)])
      (simp_all add: sample_parser_def bist_ouch_new_ok bist_ouch_new_free sample_store_ready spsc_init_inv OQ_def del: upt_rec_numeral)
  moreover have "queued (pd_store ?d) = []" by (simp add: sample_parser_def sample_queued)
  moreover have "spsc_rep Q1024 (free_pkt_list sample_rx_net) = [0, 1, 2]" by (rule sample_rx_ready(5))
  ultimately show ?thesis by fastforce
qed

end
