(* ===== verification/Risk_Init.thy ===== *)
theory Risk_Init
  imports Risk_State
begin

text \<open>
  The construction of \<^verbatim>\<open>RiskEngine\<close> (src/src/risk/RiskEngine.cpp): the rate limits of accounts and symbols from the
  configuration, which is an argument, already parsed, and the calibration of the cycle counter.
  \<open>clk n\<close> is the value of \<^verbatim>\<open>__rdtsc() / 3e9\<close> when it is read for the \<open>n\<close>-th time.
\<close>

record RateConfig =
  rc_max_orders_per_interval :: u64
  rc_order_rate_interval_ns :: u64
  rc_max_cancels_per_sec :: u32

definition order_rate :: "RateConfig \<Rightarrow> u64 \<Rightarrow> OrderRateLimit" where
  "order_rate rc now = \<lparr>tokens = rc_max_orders_per_interval rc, last_refill_ns = now, capacity = rc_max_orders_per_interval rc,
     refill_interval_ns = rc_order_rate_interval_ns rc\<rparr>"

definition cancel_rate :: "RateConfig \<Rightarrow> CancelRateLimit" where
  "cancel_rate rc = \<lparr>last_cancel_timestamp_ns = 0, cancel_count_window = 0, max_cancels_per_sec = rc_max_cancels_per_sec rc\<rparr>"

primrec initialize_accountrisks_from ::
  "(nat \<Rightarrow> u64) \<Rightarrow> nat \<Rightarrow> nat \<Rightarrow> RateConfig list \<Rightarrow> RiskEngine \<Rightarrow> (nat \<times> RiskEngine) option" where
  "initialize_accountrisks_from clk n v [] re = Some (n, re)"
| "initialize_accountrisks_from clk n v (rc # rcs) re = do {
     _ \<leftarrow> guard (v < VENUE_COUNT);
     let ar = (accountrisks re v)\<lparr>acc_orderratelimit := order_rate rc (clk n), acc_cancelratelimit := cancel_rate rc\<rparr>;
     initialize_accountrisks_from clk (Suc n) (Suc v) rcs (re\<lparr>accountrisks := (accountrisks re)(v := ar)\<rparr>) }"

definition initialize_accountrisks :: "(nat \<Rightarrow> u64) \<Rightarrow> RateConfig list \<Rightarrow> RiskEngine \<Rightarrow> (nat \<times> RiskEngine) option" where
  "initialize_accountrisks clk cfg re = initialize_accountrisks_from clk 0 0 cfg re"

text \<open>A symbol longer than 32 characters is copied past the array; the index of an unknown symbol is past the table.\<close>

primrec store_symbol_rates ::
  "(nat \<Rightarrow> u64) \<Rightarrow> HashTables \<Rightarrow> nat \<Rightarrow> nat \<Rightarrow> (string \<times> RateConfig) list \<Rightarrow> RiskEngine \<Rightarrow> (nat \<times> RiskEngine) option" where
  "store_symbol_rates clk ht v n [] re = Some (n, re)"
| "store_symbol_rates clk ht v n (e # es) re = do {
     _ \<leftarrow> guard (length (fst e) \<le> 32);
     i \<leftarrow> getIndex ht v (symbol_array (fst e));
     _ \<leftarrow> guard (unat i < MAX_SYMBOL_COUNT);
     let sr = (symbolrisks re v (unat i))\<lparr>sym_orderratelimit := order_rate (snd e) (clk n), sym_cancelratelimit := cancel_rate (snd e)\<rparr>;
     store_symbol_rates clk ht v (Suc n) es (re\<lparr>symbolrisks := (symbolrisks re)(v := (symbolrisks re v)(unat i := sr))\<rparr>) }"

primrec initialize_symbolrisks_from ::
  "(nat \<Rightarrow> u64) \<Rightarrow> HashTables \<Rightarrow> nat \<Rightarrow> nat \<Rightarrow> (string \<times> RateConfig) list list \<Rightarrow> RiskEngine \<Rightarrow> (nat \<times> RiskEngine) option" where
  "initialize_symbolrisks_from clk ht v n [] re = Some (n, re)"
| "initialize_symbolrisks_from clk ht v n (c # cs) re = do {
     _ \<leftarrow> guard (v < VENUE_COUNT);
     (n1, re1) \<leftarrow> store_symbol_rates clk ht v n c re;
     initialize_symbolrisks_from clk ht (Suc v) n1 cs re1 }"

definition initialize_symbolrisks ::
  "(nat \<Rightarrow> u64) \<Rightarrow> HashTables \<Rightarrow> nat \<Rightarrow> (string \<times> RateConfig) list list \<Rightarrow> RiskEngine \<Rightarrow> (nat \<times> RiskEngine) option" where
  "initialize_symbolrisks clk ht n cfg re = initialize_symbolrisks_from clk ht 0 n cfg re"

text \<open>Two readings of the clock and of the counter; no cycle in between is a division by zero.\<close>

definition calibrate_tsc_fixed_point :: "u64 \<Rightarrow> u64 \<Rightarrow> u64 \<Rightarrow> u64 \<Rightarrow> u64 option" where
  "calibrate_tsc_fixed_point t0 c0 t1 c1 =
     (let ns_elapsed = t1 - t0; cycles_elapsed = c1 - c0
      in if cycles_elapsed = 0 then None else Some (push_bit 32 ns_elapsed div cycles_elapsed))"

definition new_RiskEngine ::
  "(nat \<Rightarrow> u64) \<Rightarrow> HashTables \<Rightarrow> RateConfig list \<Rightarrow> (string \<times> RateConfig) list list \<Rightarrow> u64 \<times> u64 \<times> u64 \<times> u64 \<Rightarrow> RiskEngine
     \<Rightarrow> (u64 \<times> RiskEngine) option" where
  "new_RiskEngine clk ht venues symbols tsc re0 = do {
     (n, re1) \<leftarrow> initialize_accountrisks clk venues re0;
     (_, re2) \<leftarrow> initialize_symbolrisks clk ht n symbols re1;
     fp \<leftarrow> (case tsc of (t0, c0, t1, c1) \<Rightarrow> calibrate_tsc_fixed_point t0 c0 t1 c1);
     Some (fp, re2) }"

subsection \<open>Lemmas\<close>

definition has_rates :: "RateConfig \<Rightarrow> SymbolRisk \<Rightarrow> bool" where
  "has_rates rc sr \<longleftrightarrow> (\<exists>now. sym_orderratelimit sr = order_rate rc now) \<and> sym_cancelratelimit sr = cancel_rate rc"

lemma has_ratesI [intro]: "has_rates rc (sr\<lparr>sym_orderratelimit := order_rate rc now, sym_cancelratelimit := cancel_rate rc\<rparr>)"
  by (auto simp: has_rates_def)

lemma store_symbol_rates_other:
  "store_symbol_rates clk ht v n es re = Some (n', re') \<Longrightarrow> u \<noteq> v \<Longrightarrow> symbolrisks re' u = symbolrisks re u"
proof (induction es arbitrary: n re)
  case (Cons e es)
  then show ?case by (auto simp: bind_eq_Some_conv guard_def Let_def split: if_splits)
qed simp

lemma store_symbol_rates_keeps:
  "store_symbol_rates clk ht v n es re = Some (n', re') \<Longrightarrow> \<forall>e \<in> set es. getIndex ht v (symbol_array (fst e)) \<noteq> Some i \<Longrightarrow>
    symbolrisks re' v (unat i) = symbolrisks re v (unat i)"
proof (induction es arbitrary: n re)
  case (Cons e es)
  obtain j where j: "getIndex ht v (symbol_array (fst e)) = Some j"
    and run: "store_symbol_rates clk ht v (Suc n) es (re\<lparr>symbolrisks := (symbolrisks re)(v := (symbolrisks re v)(unat j :=
      (symbolrisks re v (unat j))\<lparr>sym_orderratelimit := order_rate (snd e) (clk n), sym_cancelratelimit := cancel_rate (snd e)\<rparr>))\<rparr>) = Some (n', re')"
    using Cons.prems(1) by (auto simp: bind_eq_Some_conv guard_def Let_def split: if_splits)
  have "i \<noteq> j" using Cons.prems(2) j by auto
  then show ?case using Cons.IH [OF run] Cons.prems(2) by (simp add: word_unat_eq_iff)
qed simp

lemma store_symbol_rates_stores:
  assumes "store_symbol_rates clk ht v n es re = Some (n', re')" "e \<in> set es"
    and "distinct (map (\<lambda>e. getIndex ht v (symbol_array (fst e))) es)" "getIndex ht v (symbol_array (fst e)) = Some i"
  shows "has_rates (snd e) (symbolrisks re' v (unat i))"
  using assms
proof (induction es arbitrary: n re)
  case (Cons d es)
  obtain j where j: "getIndex ht v (symbol_array (fst d)) = Some j"
    and run: "store_symbol_rates clk ht v (Suc n) es (re\<lparr>symbolrisks := (symbolrisks re)(v := (symbolrisks re v)(unat j :=
      (symbolrisks re v (unat j))\<lparr>sym_orderratelimit := order_rate (snd d) (clk n), sym_cancelratelimit := cancel_rate (snd d)\<rparr>))\<rparr>) = Some (n', re')"
    using Cons.prems(1) by (auto simp: bind_eq_Some_conv guard_def Let_def split: if_splits)
  show ?case
  proof (cases "e = d")
    case True
    have "\<forall>e' \<in> set es. getIndex ht v (symbol_array (fst e')) \<noteq> Some i" using Cons.prems(3,4) True by (force simp: image_iff)
    from store_symbol_rates_keeps [OF run this] show ?thesis using j Cons.prems(4) True by auto
  next
    case False
    then show ?thesis using Cons.IH [OF run] Cons.prems(2-4) by simp
  qed
qed simp

text \<open>When every symbol of a venue has an index of its own, the engine starts with the configured rate limits of every
  symbol at its index, and with full order tokens.\<close>

lemma rates_stored:
  assumes "initialize_symbolrisks_from clk ht v n cfg re = Some (n', re')" "u < length cfg" "(nam, rc) \<in> set (cfg ! u)"
    and "distinct (map (\<lambda>e. getIndex ht (v + u) (symbol_array (fst e))) (cfg ! u))" "getIndex ht (v + u) (symbol_array nam) = Some i"
  shows "has_rates rc (symbolrisks re' (v + u) (unat i))"
  using assms
proof (induction cfg arbitrary: v u n re)
  case (Cons c cs)
  obtain n1 re1 where s: "store_symbol_rates clk ht v n c re = Some (n1, re1)" "initialize_symbolrisks_from clk ht (Suc v) n1 cs re1 = Some (n', re')"
    using Cons.prems(1) by (auto simp: bind_eq_Some_conv guard_def split: if_splits)
  have later: "symbolrisks re' w = symbolrisks re1 w" if "w < v'" "initialize_symbolrisks_from clk ht v' m cs re1 = Some (n', re')" for w v' m re1 and cs
    using that
  proof (induction cs arbitrary: v' m re1)
    case (Cons c cs)
    then obtain n2 re2 where "store_symbol_rates clk ht v' m c re1 = Some (n2, re2)" "initialize_symbolrisks_from clk ht (Suc v') n2 cs re2 = Some (n', re')"
      by (auto simp: bind_eq_Some_conv guard_def split: if_splits)
    then show ?case using Cons.IH [of "Suc v'" n2 re2] Cons.prems(1) store_symbol_rates_other by fastforce
  qed simp
  show ?case
  proof (cases u)
    case 0
    then show ?thesis using store_symbol_rates_stores [OF s(1), of "(nam, rc)" i] Cons.prems(3-5) later [OF _ s(2), of v] by simp
  next
    case (Suc u')
    then show ?thesis using Cons.IH [OF s(2), of u'] Cons.prems(2-5) by simp
  qed
qed simp

end
