(* ===== verification/Order_To_Wire.thy ===== *)
theory Order_To_Wire
  imports Network_Send
begin

text \<open>
  The way out: an order that the risk engine has let pass is built by the builder thread (\<open>Builder_Dispatch\<close>) and sent by
  the network thread (\<open>Network_IO\<close>); the two share the pool of packets and the queue between them.
\<close>

subsection \<open>The sender's queue\<close>

text \<open>The loop over the packets that have been built hands them to their sockets one after the other.\<close>

lemma to_send_frame:
  "line_live os i (io\<lparr>net_to_send := q\<rparr>) = line_live os i io" "waiting i (io\<lparr>net_to_send := q\<rparr>) = waiting i io"
  "line os i (io\<lparr>net_to_send := q\<rparr>) = line os i io" "may_join i (io\<lparr>net_to_send := q\<rparr>) k = may_join i io k"
  by (simp_all add: line_live_def line_ok_def line_drained_def waiting_def line_def may_join_def sendable_def accepted_def)

lemma send_built_one:
  assumes "spsc_inv Q1024 (net_to_send io)" "spsc_rep Q1024 (net_to_send io) = [k]"
    and "trySend os k (io\<lparr>net_to_send := q\<rparr>) = Some io1" "spsc_pop Q1024 (net_to_send io) = (Some k, q)" "net_to_send io1 = q"
  shows "send_built os io = Some io1"
proof -
  obtain q' where q': "spsc_pop Q1024 (net_to_send io) = (Some k, q')" "spsc_inv Q1024 q'" "spsc_rep Q1024 q' = []"
    using pop_front [OF assms(1,2)] by metis
  then have "q' = q" using assms(4) by simp
  then have "spsc_pop Q1024 (net_to_send io1) = (None, q)" using pop_empty q'(2,3) assms(5) by metis
  then have "send_built os io1 = Some io1" using assms(5) by (subst send_built.simps) simp
  then show ?thesis using assms(3,4) by (subst send_built.simps) simp
qed

text \<open>Sending leaves the queue of built packets alone.\<close>

lemma upd_to_send [simp]: "net_to_send (upd_socket i f io) = net_to_send io" "net_to_send (upd_txPkt k g io) = net_to_send io"
  by (simp_all add: upd_socket_def upd_txPkt_def Let_def)

lemma repeat_call_to_send: "repeat_call os c io = Some (r, io') \<Longrightarrow> net_to_send io' = net_to_send io"
proof -
  assume "repeat_call os c io = Some (r, io')"
  then have "net_to_send (snd (r, io')) = net_to_send io"
    by (rule repeat_call.raw_induct [rotated]) (auto simp: syscall_def split: if_splits)
  then show ?thesis by simp
qed

lemma modEpoll_to_send: "modEpoll os s e f io = Some io' \<Longrightarrow> net_to_send io' = net_to_send io"
  using repeat_call_to_send by (auto simp: modEpoll_def)

lemma closeSocket_to_send: "closeSocket os i io = Some io' \<Longrightarrow> net_to_send io' = net_to_send io"
  by (auto simp: closeSocket_def syscall_def Let_def bind_eq_Some_conv split: if_splits)

lemma send_to_send:
  assumes "send os k sock i io = Some io'"
  shows "net_to_send io' = net_to_send io"
  using assms
proof (rule send.raw_induct [rotated])
  fix f :: "OS \<Rightarrow> nat \<Rightarrow> int \<Rightarrow> nat \<Rightarrow> NetworkIO \<Rightarrow> NetworkIO option" and os k sock i io io'
  assume ih: "\<And>os k sock i io io'. f os k sock i io = Some io' \<Longrightarrow> net_to_send io' = net_to_send io"
    and eq: "(let pkt = tx_pool (net_txPkts io) k in
     if tx_offset pkt < tx_len pkt then do {
       bytes \<leftarrow> read_bytes (unat (tx_len pkt - tx_offset pkt)) (drop (unat (tx_offset pkt)) (tx_data pkt));
       let (r, io1) = syscall os (C_send sock bytes) io;
       (if 0 < res_ret r then f os k sock i (upd_txPkt k (\<lambda>p. p\<lparr>tx_offset := tx_offset p + of_int (res_ret r)\<rparr>) io1)
        else if res_ret r < 0 then
          (if res_errno r = EAGAIN then do {
             io2 \<leftarrow> (if \<not> is_EPOLLOUT_set (socket_states io1 i)
                     then map_option (upd_socket i (\<lambda>st. st\<lparr>is_EPOLLOUT_set := True\<rparr>))
                            (modEpoll os sock (ss_epoll_data (socket_states io1 i)) EPOLL_WRITE io1)
                     else Some io1);
             Some (upd_socket i (\<lambda>st. st\<lparr>active_pkt := Some k\<rparr>) io2) }
           else if res_errno r = EINTR then f os k sock i io1
           else closeSocket os i io1)
        else f os k sock i io1) }
     else Some (upd_socket i (\<lambda>st. st\<lparr>active_pkt := None\<rparr>) (io\<lparr>pipeline_seq := pipeline_seq io + 1\<rparr>))) = Some io'"
  from eq show "net_to_send io' = net_to_send io"
    by (auto simp: Let_def bind_eq_Some_conv syscall_def dest!: ih modEpoll_to_send closeSocket_to_send split: if_splits)
qed

lemma trySend_to_send: "trySend os k io = Some io' \<Longrightarrow> net_to_send io' = net_to_send io"
  by (auto simp: trySend_def Let_def bind_eq_Some_conv guard_def dest: send_to_send split: if_splits)

subsection \<open>From the risk engine to the wire\<close>

text \<open>The packets of the pool are within their buffers.\<close>

definition tx_fits :: "TxPacketPoolManager \<Rightarrow> bool" where
  "tx_fits pool \<longleftrightarrow> (\<forall>k. unat (tx_len (tx_pool pool k)) \<le> length (tx_data (tx_pool pool k)) \<and> tx_offset (tx_pool pool k) \<le> tx_len (tx_pool pool k))"

lemma buildOUCH_BIST_fits:
  assumes "buildOUCH_BIST p d = Some d'" "tx_fits (bd_packets d)"
  shows "tx_fits (bd_packets d')"
proof -
  obtain i m len b1 d1 where "send_packet m len i False (d\<lparr>bd_bist := b1\<rparr>) = Some d1" "d' = mark_built p d1"
    using assms(1) by (auto simp: buildOUCH_BIST_def bind_eq_Some_conv)
  moreover have "unat len \<le> length b" if "read_bytes (unat len) m = Some s" "write_bytes 0 s buf = Some b" for s b buf
    using that by (auto simp: read_bytes_def write_bytes_def split: if_splits)
  ultimately show ?thesis using assms(2)
    by (auto simp: send_packet_def fillPacket_def get_txPkt_def tx_fits_def bind_eq_Some_conv Let_def)
qed

lemma bist_order_built:
  assumes "tx_ready d" "sender_room 1 d" "outbox d = []" "tx_fits (bd_packets d)" "spsc_inv Q1024 (bd_from_risk d)"
    and "spsc_rep Q1024 (bd_from_risk d) = p # ps" "ord = om_heap (bd_orders d) p" "protocol ord = OUCH" "venue ord = BIST"
    and "bist_ready (bd_bist d)" "bist_order_ok (bd_bist d) ord" "getSessionIndex BIST OUCH 0 (bd_sessions d) = Some i"
    and "order_id ord = 0 \<longrightarrow> ack_room hk (bd_orders d) (client_order_id ord)"
  obtains d' m where "dispatch_builder hk clk d = Some (True, d')" "outbox d' = [(m, of_nat i, False)]" "sbt_data_header (of_nat (length m)) m"
    "bist_layout ord (eci_local (bd_bist d) ! unat (account_index ord)) (token_field ord (bist_fields (bd_bist d))) m" "tx_ready d'" "tx_fits (bd_packets d')"
proof -
  let ?R = "\<lambda>d1. \<exists>m. outbox d1 = [(m, of_nat i, False)] \<and> sbt_data_header (of_nat (length m)) m
    \<and> bist_layout ord (eci_local (bd_bist d) ! unat (account_index ord)) (token_field ord (bist_fields (bd_bist d))) m \<and> tx_ready d1 \<and> tx_fits (bd_packets d1)"
  have built: "\<exists>d1. builder_table clk (protocol ord) (venue ord) p (d\<lparr>bd_from_risk := q\<rparr>) = Some (mark_built p d1)
      \<and> awaitingAck_orders (bd_orders d1) = awaitingAck_orders (bd_orders d) \<and> om_heap (bd_orders d1) p = ord
      \<and> bd_from_risk d1 = q \<and> ?R d1" for q
  proof -
    let ?d = "d\<lparr>bd_from_risk := q\<rparr>"
    have "tx_ready ?d" "sender_room (Suc 0) ?d" "bist_ready (bd_bist ?d)" "getSessionIndex BIST OUCH 0 (bd_sessions ?d) = Some i"
      "ord = om_heap (bd_orders ?d) p" "bist_order_ok (bd_bist ?d) ord" using assms by simp_all
    then obtain d1 m where r: "buildOUCH_BIST p ?d = Some (mark_built p d1)" "bist_ready (bd_bist d1)"
      "bd_orders d1 = bd_orders ?d" "bd_from_risk d1 = bd_from_risk ?d"
      "sbt_data_header (of_nat (length m)) m" "bist_layout ord (eci_local (bd_bist ?d) ! unat (account_index ord)) (token_field ord (bist_fields (bd_bist ?d))) m"
      "outbox d1 = outbox ?d @ [(m, of_nat i, False)]" "tx_ready d1" "sender_room 0 d1"
      by (rule buildOUCH_BIST_spec)
    moreover have "tx_fits (bd_packets d1)" using buildOUCH_BIST_fits [OF r(1)] assms(4) by simp
    moreover have "outbox ?d = []" using assms(3) by (simp add: outbox_def)
    ultimately have "?R d1" by auto
    then show ?thesis using r(1,3,4) assms(7-9) by (intro exI [of _ d1]) simp
  qed
  obtain d1 om where r: "dispatch_builder hk clk d = Some (True, d1\<lparr>bd_orders := om\<rparr>)" "?R d1"
    "spsc_rep Q1024 (bd_from_risk d1) = ps" "spsc_inv Q1024 (bd_from_risk d1)"
    "if order_id ord = 0 then get_order_from_awaitingAck_orders hk om (client_order_id ord) = Some p
     else awaitingAck_orders om = awaitingAck_orders (bd_orders d)"
    "om_heap om p = ord\<lparr>canModify := canModify ord OR BUILDER_DONE\<rparr>"
    by (rule dispatch_after_build [OF assms(5,6,7,13) _ built]) (use assms(9) in simp)
  then show thesis using that [of "d1\<lparr>bd_orders := om\<rparr>"] by auto
qed

text \<open>The state of the network thread with the packets of the builder.\<close>

definition with_built :: "Dispatcher \<Rightarrow> NetworkIO \<Rightarrow> NetworkIO" where
  "with_built d io = io\<lparr>net_txPkts := bd_packets d, net_to_send := builder_to_sender d\<rparr>"

subsection \<open>Properties\<close>

text \<open>C11. From the risk engine to the wire: an order for BIST over OUCH that the risk engine has let pass (of a message type
  the builder knows, with a known account and a token of at most 14 characters) is built, and the network thread
  that then looks at its queue comes back with the bytes of exactly one SoupBinTCP packet of unsequenced
  data behind what the session's socket had taken before, taken by the system or kept to be sent.  The message has, byte by
  byte, the layout of its type as the builder writes it ('U' for a replacement, documented as 'u'), with the order's fields;
  behind a token shorter than 14 characters stands what the buffer held before.  Assumed are that no packet
  waits, neither between the two threads nor for the socket, that the session is connected and logged in, that there is room for the client id of an order
  without exchange id among those that wait for an acknowledgement, and that the system does not interrupt a call or fail epoll_ctl for ever.  The only exception is a socket that was closed, and it is closed only after
  a call to send on it failed with an error other than EAGAIN and EINTR.\<close>

theorem order_to_wire:
  assumes "tx_ready d" "sender_room 1 d" "outbox d = []" "tx_fits (bd_packets d)" "spsc_inv Q1024 (bd_from_risk d)"
    and "spsc_rep Q1024 (bd_from_risk d) = p # ps" "ord = om_heap (bd_orders d) p" "protocol ord = OUCH" "venue ord = BIST"
    and "bist_ready (bd_bist d)" "bist_order_ok (bd_bist d) ord" "getSessionIndex BIST OUCH 0 (bd_sessions d) = Some i"
    and "order_id ord = 0 \<longrightarrow> ack_room hk (bd_orders d) (client_order_id ord)"
    and "line_live os i io" "i < MAX_SESSIONS" "waiting i io = []"
  shows "\<exists>d' m io'. dispatch_builder hk clk d = Some (True, d') \<and> send_built os (with_built d' io) = Some io'
    \<and> sbt_data_header (of_nat (length m)) m \<and> bist_layout ord (eci_local (bd_bist d) ! unat (account_index ord)) (token_field ord (bist_fields (bd_bist d))) m
    \<and> (socks io' i = -1 \<and> send_failed os (socks io i) io io' \<or> accepted os (socks io i) io' @ concat (map (\<lambda>k. pkt_bytes k io') (waiting i io')) = accepted os (socks io i) io @ m)"
proof -
  obtain d' m where d': "dispatch_builder hk clk d = Some (True, d')" "outbox d' = [(m, of_nat i, False)]" "sbt_data_header (of_nat (length m)) m"
    "bist_layout ord (eci_local (bd_bist d) ! unat (account_index ord)) (token_field ord (bist_fields (bd_bist d))) m" "tx_ready d'" "tx_fits (bd_packets d')"
    by (rule bist_order_built [OF assms(1-13)])
  let ?io = "with_built d' io"
  obtain k where k: "spsc_rep Q1024 (net_to_send ?io) = [k]" "as_sent (tx_pool (bd_packets d') k) = (m, of_nat i, False)"
    using d'(2) by (auto simp: outbox_def with_built_def)
  have inv: "spsc_inv Q1024 (net_to_send ?io)" using d'(5) by (simp add: with_built_def tx_ready_def)
  obtain q where q: "spsc_pop Q1024 (net_to_send ?io) = (Some k, q)" using pop_front [OF inv k(1)] by metis
  let ?jo = "?io\<lparr>net_to_send := q\<rparr>"
  have i: "unat (of_nat i :: u8) = i" using assms(15) by (simp add: MAX_SESSIONS_def unat_of_nat take_bit_nat_eq_self)
  have w: "waiting i ?jo = []" "socks ?jo = socks io" "accepted os s ?jo = accepted os s io" for s
    using assms(16) by (simp_all add: with_built_def waiting_def accepted_def)
  have live: "line_live os i ?jo" using assms(14,16) w(1) by (simp add: line_live_def line_ok_def line_drained_def with_built_def)
  have b: "pkt_bytes k ?jo = m" using k(2) by (simp add: with_built_def as_sent_def)
  have join: "may_join i ?jo k" using k(2) d'(6) i by (simp add: may_join_def sendable_def with_built_def as_sent_def tx_fits_def Let_def)
  obtain io' where io': "trySend os k ?jo = Some io'" "socks io' i = -1 \<or> socks io' = socks ?jo \<and> line os i io' = line os i ?jo @ m"
    using line_step_bytes [OF live assms(15), of "Built k"] w(1) join b by auto
  have "send_built os ?io = Some io'"
    by (rule send_built_one [OF inv k(1) io'(1) q]) (use trySend_to_send [OF io'(1)] in simp)
  moreover have "calls_on os (socks ?jo i) i ?jo io'" using join by (intro trySend_calls [OF io'(1)]) (simp add: may_join_def)
  then have "socks io' i = -1 \<Longrightarrow> send_failed os (socks io i) io io'"
    using assms(14) by (auto simp: calls_on_def send_failed_def with_built_def line_live_def line_ok_def)
  then have "socks io' i = -1 \<and> send_failed os (socks io i) io io' \<or> accepted os (socks io i) io' @ concat (map (\<lambda>k. pkt_bytes k io') (waiting i io')) = accepted os (socks io i) io @ m"
    using io'(2) w by (auto simp: line_def)
  ultimately show ?thesis using d'(1,3,4) by blast
qed

definition sample_tx_net :: NetworkIO where
  "sample_tx_net = sample_net\<lparr>net_sessions := sample_fix_sessions\<lparr>session_states := replicate 2 (new_SessionState\<lparr>is_logged_in := True\<rparr>)\<rparr>\<rparr>"

theorem order_to_wire_witness:
  "\<exists>sm b d' m io'. sample_sessions = Some sm \<and> new_Builder_OUCH_BIST sm = Some b
     \<and> dispatch_builder (\<lambda>x. x) (\<lambda>_. 0) (sample_dispatcher sm b ((sample_bist_order 0)\<lparr>protocol := OUCH\<rparr>)) = Some (True, d')
     \<and> send_built sample_os (with_built d' sample_tx_net) = Some io' \<and> length m = 117
     \<and> accepted sample_os 4 io' @ concat (map (\<lambda>k. pkt_bytes k io') (waiting 1 io')) = m"
proof -
  let ?ord = "(sample_bist_order 0)\<lparr>protocol := OUCH\<rparr>"
  obtain sm b where sm: "sample_sessions = Some sm" "getSessionIndex BIST OUCH 0 sm = Some 1"
    and b: "new_Builder_OUCH_BIST sm = Some b" "length (eci_local b) = 1" by (rule sample_bist_builder)
  let ?d = "sample_dispatcher sm b ?ord"
  have o1: "om_heap (bd_orders ?d) 40000 = ?ord" "bd_bist ?d = b" "bd_sessions ?d = sm"
    by (simp_all add: sample_dispatcher_def sample_orders_def)
  have ok: "bist_order_ok b ?ord" by (simp add: bist_order_ok_def b(2) sample_bist_order_def default_order_def ORDER_IDs_SIZE_def)
  have f: "protocol ?ord = OUCH" "venue ?ord = BIST" "order_id ?ord = 0" "client_order_id ?ord = 0" "message_type ?ord = 0"
    by (simp_all add: sample_bist_order_def default_order_def)
  have fits: "tx_fits (bd_packets ?d)" by (simp add: tx_fits_def sample_dispatcher_def)
  have w: "waiting 1 sample_tx_net = []" "socks sample_tx_net 1 = 4" "accepted sample_os 4 sample_tx_net = []"
    by (simp_all add: waiting_def sample_tx_net_def sample_net_def new_SocketState_def cq_rep_def ring_len_def accepted_def)
  have live: "line_live sample_os 1 sample_tx_net" using sample_kernel w(1)
    by (simp add: line_live_def line_ok_def line_drained_def sample_tx_net_def sample_net_def new_SocketState_def waiting_def cq_wf_def
        isSessionLoggedIn_def getSessionState_def nth_opt_def cq_rep_def ring_len_def)
  have "\<exists>d' m io'. dispatch_builder (\<lambda>x. x) (\<lambda>_. 0) ?d = Some (True, d') \<and> send_built sample_os (with_built d' sample_tx_net) = Some io'
    \<and> sbt_data_header (of_nat (length m)) m \<and> bist_layout ?ord (eci_local (bd_bist ?d) ! unat (account_index ?ord)) (token_field ?ord (bist_fields (bd_bist ?d))) m
    \<and> (socks io' 1 = -1 \<and> send_failed sample_os (socks sample_tx_net 1) sample_tx_net io' \<or> accepted sample_os (socks sample_tx_net 1) io' @ concat (map (\<lambda>k. pkt_bytes k io') (waiting 1 io'))
        = accepted sample_os (socks sample_tx_net 1) sample_tx_net @ m)"
    by (rule order_to_wire [OF sample_dispatcher_ready(1) _ sample_dispatcher_ready(6) fits sample_dispatcher_ready(3,4)])
      (use sample_dispatcher_ready(2) [of 1 sm b ?ord] sample_dispatcher_ready(5) [of sm b ?ord] o1 ok f sm(2) new_builder_ready [OF b(1)] live w(1)
       in \<open>simp_all add: MAX_SESSIONS_def\<close>)
  then obtain d' m io' where d': "dispatch_builder (\<lambda>x. x) (\<lambda>_. 0) ?d = Some (True, d')" "send_built sample_os (with_built d' sample_tx_net) = Some io'"
    "bist_layout ?ord (eci_local (bd_bist ?d) ! unat (account_index ?ord)) (token_field ?ord (bist_fields (bd_bist ?d))) m"
    "accepted sample_os 4 io' @ concat (map (\<lambda>k. pkt_bytes k io') (waiting 1 io')) = m"
    unfolding w(2,3) append_Nil using sample_never_fails by blast
  have "length m = 117" using d'(3) f(5) by (simp add: bist_layout_def enter_layout_def)
  then show ?thesis using sm(1) b(1) d'(1,2,4) by blast
qed

end
