(* ===== verification/Spec2Isabelle.thy ===== *)
theory Spec2Isabelle
  imports Ring_Queue Spsc_Queue Flat_Map Market_Book Symbol_Tables Messages Instruments
    Risk_State Risk_Checks Risk_Update Order_Store Fillers Order_Manager Byte_Order Message_Pools
    Itch_Parser_BIST Itch_Parser_NASDAQ Ouch_Parser_BIST Ouch_Parser_NASDAQ Packet_Dispatch
    Sessions Soup_Bin_Tcp Fix_Parser Fix_Framing Fix_Dispatch Ouch_Builders
    Fix_Builder Fix_Resend Builder_Dispatch Error_Handler Network_IO Network_Send Network_Frame
    Database_Writer Parser_Thread Risk_Init Order_To_Wire
begin

text \<open>
  \<^bold>\<open>A verification library of the trading engine.\<close>

  \<^bold>\<open>The program.\<close>  The engine connects to the exchanges BIST and NASDAQ.  A network thread receives
  packets and frames them; a parser thread decodes the messages of the protocols ITCH (market data),
  OUCH and FIX (order entry) and queues them for a store thread; the store thread keeps the orders
  (the market's and ours), the market book and the instrument data, and publishes every change to a
  risk thread and to the strategy; the risk thread checks the orders of the strategy and keeps the
  account figures; orders that pass go to a builder thread and out to the exchange.  The threads are
  connected by single-producer single-consumer ring queues only.

  \<^bold>\<open>Theories and sources\<close> (paths below src/src unless they start with generated).
  \<^item> \<open>Engine_Prelude\<close>: machine integers, undefined behaviour as \<open>None\<close>, masks, list lemmas.
  \<^item> \<open>Bounded_Fifo\<close>: the contract of a bounded queue as a locale, with what follows for any sequence of
    operations.
  \<^item> \<open>Ring_Queue\<close>: \<^verbatim>\<open>CustomQueue\<close> of utils/CustomQueue.h and the free lists of core/MessagePool.h; an
    interpretation of the queue contract.
  \<^item> \<open>Spsc_Queue\<close>: utils/CustomSpscQueue; the queue contract again, and the interleavings of one
    producer and one consumer as an inductive step relation.
  \<^item> \<open>Flat_Map\<close>: utils/CustomMap/ConcurrentFixedFlatMap.h as an open-addressing table that refines a
    finite map; the hash function is a parameter.
  \<^item> \<open>Order_Types\<close>: core/Order.h and core/Protocol-Venue.h.
  \<^item> \<open>Market_Book\<close>: market/MarketBook.h; price levels and cached best prices, refining a table of
    quantities.
  \<^item> \<open>Symbol_Tables\<close>: core/HashTables and risk/Limits; the configuration is an argument.
  \<^item> \<open>Messages\<close>: the message structures under generated and protocol/types.
  \<^item> \<open>Instruments\<close>: the directory, tick-size and halt handlers of order_management/OrderManager.cpp.
  \<^item> \<open>Risk_State\<close>, \<open>Risk_Checks\<close>, \<open>Risk_Update\<close>: risk/RiskEngine; the state, the checks on the way out and
    the figures kept on the way in.
  \<^item> \<open>Risk_Init\<close>: the construction of the risk engine; the configuration and the readings of the clocks are arguments.
  \<^item> \<open>Order_Store\<close>, \<open>Fillers\<close>, \<open>Order_Manager\<close>: order_management; the order pools, maps and histories,
    the fillers of order_management/fillers, and the message handlers of the store thread.
  \<^item> \<open>Byte_Order\<close>: utils/Endian.h.
  \<^item> \<open>Message_Pools\<close>: message objects of the parsers, received packets (network/NetworkPackets.h), the
    splitting of ITCH packets, and the contracts of a wire format and of a parser as locales.
  \<^item> \<open>Itch_Parser_BIST\<close>, \<open>Itch_Parser_NASDAQ\<close>, \<open>Ouch_Parser_BIST\<close>, \<open>Ouch_Parser_NASDAQ\<close>: the handlers and
    dispatch tables of protocol/parsers, with the documented layout of every message as an encoder;
    each theory interprets the contract of a parser.
  \<^item> \<open>Packet_Dispatch\<close>: the binary paths of protocol/Parser_Dispatch.cpp into the queue of the store
    thread.
  \<^item> \<open>Sessions\<close>: session/SessionManager and the sequence numbers of session/Sequence_SBT.h and
    Sequence_FIX.h; decimal numbers.
  \<^item> \<open>Soup_Bin_Tcp\<close>: session/SoupBinTcp and the decision when to log in of session/LoginController.
  \<^item> \<open>Fix_Parser\<close>, \<open>Fix_Framing\<close>, \<open>Fix_Dispatch\<close>: protocol/parsers/FIX and the FIX path of
    protocol/Parser_Dispatch.cpp: tags, session messages, resend requests, messages cut by packets,
    messages ahead of their turn.
  \<^item> \<open>Ouch_Builders\<close>: protocol/builders/OUCH; fields written at fixed places of prepared buffers.
  \<^item> \<open>Fix_Builder\<close>, \<open>Fix_Resend\<close>: protocol/builders/FIX; messages written field by field, numbers two
    digits at a time, and messages of the history sent again, with the search for a field by
    comparisons of 32 bytes at once.
  \<^item> \<open>Builder_Dispatch\<close>: protocol/Builder_Dispatch.cpp, the packets to send of network/NetworkPackets.h and the
    login packet of session/LoginController.cpp: orders of the risk engine become packets of the
    network thread.
  \<^item> \<open>Error_Handler\<close>: utils/ErrorHandler and generated/GeneratedErrorMap.h; retries with growing delays.
  \<^item> \<open>Network_IO\<close>: network/NetworkIO; sending over sockets that do not block, framing of SoupBinTCP packets, and
    the life of a socket, over an operating system that is a parameter.
  \<^item> \<open>Network_Send\<close>, \<open>Network_Frame\<close>: what the network thread sends and what it receives, up to the queue of the store
    thread.
  \<^item> \<open>Database_Writer\<close>: database/ClickhouseWriter; the rows of the database and the return of message objects.
  \<^item> \<open>Parser_Thread\<close>: the step of the parser thread, protocol/Parser_Dispatch.cpp: choice of the path of a packet and
    release of message objects.
  \<^item> \<open>Order_To_Wire\<close>: builder thread and network thread together, from the queue of the risk engine to the socket.

  \<^bold>\<open>What the theorems show.\<close>  Queues: any run of operations, and any interleaving of the two threads,
  delivers the accepted elements in order.  Maps and book: refinement of a finite map and of a table
  of quantities.  Parsers: a packet of messages in the documented layout is decoded to exactly these
  messages, in order.  Store: what an add, execution or acceptance message does to every field of
  the order, the book and the queues; the balance of filled and open quantity, with the condition on a FIX report under which
  it holds; recycling of order slots; messages put off for an order that the strategy holds come back in their order while the
  queue has room.  Risk: an
  order leaves the engine only within all limits, one within all limits does leave, and one that
  does not is answered with a packet that waits for the strategy if its queue has room; the figures kept for account and
  symbols stay consistent.  Sessions: every configured session is found with its address, port, credentials and initial
  state, sequence numbers count the sequenced packets of a session that is logged in, logins back off.  FIX: messages reach
  the store in the order of their numbers whatever the order of arrival, and a message cut by packets is put together,
  whatever bytes lie behind the end of the first packet.  Builders: every byte of an OUCH message is given, those that the
  code leaves as an earlier message wrote them included; numbers are written as their decimal
  representation, body length and checksum of a FIX message are right for sequence numbers of up to six digits and prices of
  at least 1000 units, and the session messages that the FIX builder writes the FIX parser reads back into an object with
  any old contents; an order that leaves the risk engine becomes a packet behind those that wait,
  after the test requests and rejects that have to precede it and with the next sequence number (resend requests and logouts of the
  counterparty, which are modelled, are not covered by that theorem).  Network: the
  system is given the bytes of the packets in their order whatever it takes at a time, unless a call of send fails with an
  error other than a full socket or an interruption, the only reason to close the socket; the SoupBinTCP
  packets received, also one cut in two, reach the store thread as the messages they carry; an order
  that the risk engine has let pass reaches the socket of its session as one packet; errors are
  retried with bounded delays.
  Some lemmas state what the code does where it departs from what it means to do.

  \<^bold>\<open>Bounds and fuel.\<close>  Loops over data are structural recursions; a loop with no bound of its own is a
  partial function into an option, and its termination on the inputs of interest is part of the
  theorems about it.  Capacities are those of the source.

  \<^bold>\<open>Not modelled.\<close>  Threads, their placement and their polling loops, logging, the JSON reader and the client of
  ClickHouse: calls of libraries and of the operating system.  Messages are values here; the
  object of the pool that a message came from is an argument where it is released.  The code
  generators under scripts: their output is what is modelled.
\<close>

end
